(* ===== verification/Prelude.thy ===== *)
theory Prelude
  imports Complex_Main "HOL-Library.Word" "HOL-Library.Finite_Map" "HOL-Library.FSet"
    "HOL-Library.Char_ord" "HOL-Library.List_Lexorder"
begin

text \<open>
  What every component shares: the machine integers of the Rust code, the part of the Rust
  standard library the components call (checked and saturating arithmetic, \<open>str::trim\<close>,
  \<open>str::to_ascii_lowercase\<close>, \<open>str::parse\<close> for integers, \<open>str::split\<close>), lookups in
  Nostr tag lists, and lemmas about finite maps, which stand for \<open>HashMap\<close>.

  Integers. \<open>u8\<close>, \<open>u32\<close> and \<open>u64\<close> are words of their width, whose \<open>+\<close> wraps as
  Rust's does in a release build. \<open>i64\<close> is \<open>int\<close>, with the width written out at each
  operation of the code that can leave the range (\<open>i64_saturating_add\<close>,
  \<open>i64_saturating_mul\<close>, \<open>i64_wrap\<close>). Strings are byte lists, so \<open>String\<close>'s
  ordering (bytewise) is the lexicographic order of \<open>List_Lexorder\<close> over \<open>Char_ord\<close>.
\<close>

named_theorems spec_simps \<open>equations that unfold the small pure functions of the code\<close>
named_theorems inv_intros \<open>operations keep the invariant of their component\<close>

type_synonym u8 = "8 word"
type_synonym u32 = "32 word"
type_synonym u64 = "64 word"
type_synonym i64 = int

section \<open>Machine integers\<close>

definition i64_max :: int where "i64_max = 2 ^ 63 - 1"
definition i64_min :: int where "i64_min = - (2 ^ 63)"

definition is_i64 :: "int \<Rightarrow> bool" where
  "is_i64 x \<longleftrightarrow> i64_min \<le> x \<and> x \<le> i64_max"

definition i64_clamp :: "int \<Rightarrow> int" where
  "i64_clamp x = max i64_min (min i64_max x)"

definition i64_wrap :: "int \<Rightarrow> int" where
  "i64_wrap x = (x + 2 ^ 63) mod 2 ^ 64 - 2 ^ 63"

definition i64_saturating_add :: "int \<Rightarrow> int \<Rightarrow> int" where
  "i64_saturating_add a b = i64_clamp (a + b)"

definition i64_saturating_mul :: "int \<Rightarrow> int \<Rightarrow> int" where
  "i64_saturating_mul a b = i64_clamp (a * b)"

lemmas i64_bound_defs = i64_max_def i64_min_def
lemmas i64_sat_defs = i64_saturating_add_def i64_saturating_mul_def i64_clamp_def i64_bound_defs

lemma i64_clamp_range [simp]: "is_i64 (i64_clamp x)"
  by (auto simp: is_i64_def i64_clamp_def i64_bound_defs)

lemma i64_clamp_id: "is_i64 x \<Longrightarrow> i64_clamp x = x"
  by (auto simp: is_i64_def i64_clamp_def)

lemma i64_saturating_add_range [simp]: "is_i64 (i64_saturating_add a b)"
  by (simp add: i64_saturating_add_def)

lemma i64_saturating_add_exact: "is_i64 (a + b) \<Longrightarrow> i64_saturating_add a b = a + b"
  by (simp add: i64_saturating_add_def i64_clamp_id)

lemma i64_saturating_add_mono: "b \<le> c \<Longrightarrow> i64_saturating_add a b \<le> i64_saturating_add a c"
  by (auto simp: i64_sat_defs)

lemma i64_saturating_add_ge: "is_i64 a \<Longrightarrow> 0 \<le> b \<Longrightarrow> a \<le> i64_saturating_add a b"
  by (auto simp: is_i64_def i64_sat_defs)

lemma i64_wrap_range: "is_i64 (i64_wrap x)"
proof -
  have "0 \<le> (x + 2 ^ 63) mod 2 ^ 64" and "(x + 2 ^ 63) mod 2 ^ 64 < (2::int) ^ 64"
    by (rule pos_mod_sign, simp, rule pos_mod_bound, simp)
  then show ?thesis by (simp add: is_i64_def i64_wrap_def i64_bound_defs)
qed

lemma i64_wrap_id: "is_i64 x \<Longrightarrow> i64_wrap x = x"
  by (simp add: is_i64_def i64_wrap_def i64_bound_defs)

text \<open>\<open>u32::try_from(i64)\<close>, \<open>u64::try_from(i64)\<close> and \<open>u32::try_from(u64)\<close>.\<close>

definition u32_of_i64 :: "int \<Rightarrow> u32 option" where
  "u32_of_i64 i = (if 0 \<le> i \<and> i < 2 ^ 32 then Some (word_of_int i) else None)"

definition u64_of_i64 :: "int \<Rightarrow> u64 option" where
  "u64_of_i64 i = (if 0 \<le> i \<and> i < 2 ^ 64 then Some (word_of_int i) else None)"

definition u32_of_u64 :: "u64 \<Rightarrow> u32 option" where
  "u32_of_u64 w = (if unat w < 2 ^ 32 then Some (of_nat (unat w)) else None)"

text \<open>\<open>i64 as u64\<close> on a non-negative value and \<open>u32::MAX\<close>.\<close>

definition u64_as_of_i64 :: "int \<Rightarrow> u64" where
  "u64_as_of_i64 i = word_of_int i"

definition u32_max :: u32 where "u32_max = - 1"

lemma unat_u32_max [simp]: "unat u32_max = 2 ^ 32 - 1"
  by (simp add: u32_max_def unsigned_minus_1_eq_mask mask_eq_exp_minus_1)

lemma u32_of_i64_Some: "u32_of_i64 i = Some w \<Longrightarrow> uint w = i"
  by (auto simp: u32_of_i64_def uint_word_of_int split: if_splits)

lemma u32_of_u64_Some: "u32_of_u64 w = Some v \<Longrightarrow> unat v = unat w"
  by (auto simp: u32_of_u64_def unsigned_ucast_eq take_bit_nat_eq_self split: if_splits)

text \<open>
  \<open>f64\<close> values as the code observes them: a finite value, an infinity (\<open>True\<close> for the
  negative one) or NaN. The sign of zero is not kept, because no modelled operation tells
  \<open>-0.0\<close> from \<open>0.0\<close>. \<open>f64_eq\<close> is \<open>PartialEq\<close>, false on NaN.
\<close>

datatype f64 = F64_fin rat | F64_inf bool | F64_nan

definition f64_eq :: "f64 \<Rightarrow> f64 \<Rightarrow> bool" where
  "f64_eq a b \<longleftrightarrow> a \<noteq> F64_nan \<and> a = b"

lemma f64_eq_refl: "f64_eq a a \<longleftrightarrow> a \<noteq> F64_nan"
  by (simp add: f64_eq_def)

lemma f64_eq_imp_eq: "f64_eq a b \<Longrightarrow> a = b"
  by (simp add: f64_eq_def)

definition opt_f64_eq :: "f64 option \<Rightarrow> f64 option \<Rightarrow> bool" where
  "opt_f64_eq a b = (case (a, b) of
     (None, None) \<Rightarrow> True | (Some x, Some y) \<Rightarrow> f64_eq x y | _ \<Rightarrow> False)"

lemma opt_f64_eq_imp_eq: "opt_f64_eq a b \<Longrightarrow> a = b"
  by (auto simp: opt_f64_eq_def f64_eq_def split: option.splits)

section \<open>Strings\<close>

text \<open>
  \<open>str::trim\<close> drops Unicode white space; on the byte strings modelled here that is the ASCII
  part of it: tab, line feed, vertical tab, form feed, carriage return and space.
\<close>

definition is_ws :: "char \<Rightarrow> bool" where
  "is_ws c \<longleftrightarrow> (let n = of_char c :: nat in n = 32 \<or> (9 \<le> n \<and> n \<le> 13))"

definition trim_start :: "string \<Rightarrow> string" where
  "trim_start s = dropWhile is_ws s"

definition str_trim :: "string \<Rightarrow> string" where
  "str_trim s = rev (trim_start (rev (trim_start s)))"

definition ascii_lower_char :: "char \<Rightarrow> char" where
  "ascii_lower_char c = (let n = of_char c :: nat in if 65 \<le> n \<and> n \<le> 90 then char_of (n + 32) else c)"

definition to_ascii_lowercase :: "string \<Rightarrow> string" where
  "to_ascii_lowercase s = map ascii_lower_char s"

definition ascii_upper_char :: "char \<Rightarrow> char" where
  "ascii_upper_char c = (let n = of_char c :: nat in if 97 \<le> n \<and> n \<le> 122 then char_of (n - 32) else c)"

definition eq_ignore_ascii_case :: "string \<Rightarrow> string \<Rightarrow> bool" where
  "eq_ignore_ascii_case a b \<longleftrightarrow> to_ascii_lowercase a = to_ascii_lowercase b"

lemma eq_ignore_ascii_case_refl [simp]: "eq_ignore_ascii_case a a"
  by (simp add: eq_ignore_ascii_case_def)

text \<open>
  Integer \<open>FromStr\<close> of Rust: an optional \<open>+\<close> (and \<open>-\<close> for the signed type), then one or
  more decimal digits, with overflow an error. A lone sign is an error.
\<close>

definition digit_val :: "char \<Rightarrow> nat option" where
  "digit_val c = (let n = of_char c :: nat in if 48 \<le> n \<and> n \<le> 57 then Some (n - 48) else None)"

fun digits_val :: "nat \<Rightarrow> string \<Rightarrow> nat option" where
  "digits_val acc [] = Some acc"
| "digits_val acc (c # cs) =
     (case digit_val c of None \<Rightarrow> None | Some d \<Rightarrow> digits_val (10 * acc + d) cs)"

definition parse_digits :: "string \<Rightarrow> nat option" where
  "parse_digits s = (if s = [] then None else digits_val 0 s)"

definition parse_nat :: "string \<Rightarrow> nat option" where
  "parse_nat s = (case s of [] \<Rightarrow> None
     | c # cs \<Rightarrow> if c = CHR ''+'' then parse_digits cs else parse_digits s)"

definition parse_u8 :: "string \<Rightarrow> u8 option" where
  "parse_u8 s = (case parse_nat s of
     Some n \<Rightarrow> if n < 2 ^ 8 then Some (of_nat n) else None | None \<Rightarrow> None)"

definition parse_u32 :: "string \<Rightarrow> u32 option" where
  "parse_u32 s = (case parse_nat s of
     Some n \<Rightarrow> if n < 2 ^ 32 then Some (of_nat n) else None | None \<Rightarrow> None)"

definition parse_u64 :: "string \<Rightarrow> u64 option" where
  "parse_u64 s = (case parse_nat s of
     Some n \<Rightarrow> if n < 2 ^ 64 then Some (of_nat n) else None | None \<Rightarrow> None)"

definition parse_i64 :: "string \<Rightarrow> int option" where
  "parse_i64 s = (case s of [] \<Rightarrow> None
     | c # cs \<Rightarrow>
         (if c = CHR ''-''
          then (case parse_digits cs of
                  Some n \<Rightarrow> if n \<le> 2 ^ 63 then Some (- int n) else None | None \<Rightarrow> None)
          else (case parse_nat s of
                  Some n \<Rightarrow> if n < 2 ^ 63 then Some (int n) else None | None \<Rightarrow> None)))"

text \<open>Decimal rendering, as \<open>to_string\<close> and \<open>format!\<close> print an integer.\<close>

fun nat_digits :: "nat \<Rightarrow> string" where
  "nat_digits n =
     (if n < 10 then [char_of (48 + n)] else nat_digits (n div 10) @ [char_of (48 + n mod 10)])"

declare nat_digits.simps [simp del]

definition int_to_string :: "int \<Rightarrow> string" where
  "int_to_string i = (if i < 0 then CHR ''-'' # nat_digits (nat (- i)) else nat_digits (nat i))"

definition u32_to_string :: "u32 \<Rightarrow> string" where
  "u32_to_string w = nat_digits (unat w)"

lemma digit_val_digit: "d < 10 \<Longrightarrow> digit_val (char_of (48 + d :: nat)) = Some d"
  by (simp add: digit_val_def)

lemma digits_val_append:
  "digits_val acc (xs @ ys) =
     (case digits_val acc xs of None \<Rightarrow> None | Some a \<Rightarrow> digits_val a ys)"
  by (induction xs arbitrary: acc) (auto split: option.splits)

lemma digits_val_nat_digits: "digits_val 0 (nat_digits n) = Some n"
proof (induction n rule: nat_digits.induct)
  case (1 n)
  show ?case
  proof (cases "n < 10")
    case True
    then show ?thesis by (simp add: nat_digits.simps [of n] digit_val_digit)
  next
    case False
    with "1.IH" show ?thesis
      by (simp add: nat_digits.simps [of n] digits_val_append digit_val_digit)
  qed
qed

lemma nat_digits_nonempty: "nat_digits n \<noteq> []"
  by (simp add: nat_digits.simps [of n])

lemma nat_digits_chars: "c \<in> set (nat_digits n) \<Longrightarrow> 48 \<le> (of_char c :: nat) \<and> (of_char c :: nat) \<le> 57"
proof (induction n rule: nat_digits.induct)
  case (1 n)
  show ?case
  proof (cases "n < 10")
    case True
    with "1.prems" show ?thesis by (simp add: nat_digits.simps [of n])
  next
    case False
    with "1.prems" "1.IH" show ?thesis
      by (auto simp: nat_digits.simps [of n])
  qed
qed

lemma hd_nat_digits: "hd (nat_digits n) \<noteq> CHR ''+'' \<and> hd (nat_digits n) \<noteq> CHR ''-''"
proof -
  have "hd (nat_digits n) \<in> set (nat_digits n)"
    by (rule hd_in_set) (rule nat_digits_nonempty)
  then have "48 \<le> (of_char (hd (nat_digits n)) :: nat)"
    by (simp add: nat_digits_chars)
  then show ?thesis by auto
qed

lemma parse_nat_nat_digits: "parse_nat (nat_digits n) = Some n"
proof (cases "nat_digits n")
  case Nil
  then show ?thesis using nat_digits_nonempty [of n] by simp
next
  case (Cons c cs)
  then have "c \<noteq> CHR ''+''" using hd_nat_digits [of n] by simp
  with Cons show ?thesis
    using digits_val_nat_digits [of n] by (simp add: parse_nat_def parse_digits_def)
qed

lemma parse_u32_to_string [simp]: "parse_u32 (u32_to_string w) = Some w"
  using unsigned_less [of w, where ?'a = nat] by (simp add: parse_u32_def u32_to_string_def parse_nat_nat_digits)

lemma parse_i64_to_string: "is_i64 i \<Longrightarrow> parse_i64 (int_to_string i) = Some i"
proof -
  assume i: "is_i64 i"
  show ?thesis
  proof (cases "i < 0")
    case True
    with i show ?thesis
      using digits_val_nat_digits [of "nat (- i)"] nat_digits_nonempty [of "nat (- i)"]
      by (simp add: parse_i64_def int_to_string_def parse_digits_def is_i64_def i64_bound_defs nat_le_iff)
  next
    case False
    obtain c cs where d: "nat_digits (nat i) = c # cs"
      using nat_digits_nonempty [of "nat i"] by (cases "nat_digits (nat i)") auto
    then have "c \<noteq> CHR ''-''" using hd_nat_digits [of "nat i"] by simp
    with False i d show ?thesis
      using parse_nat_nat_digits [of "nat i"]
      by (simp add: parse_i64_def int_to_string_def is_i64_def i64_bound_defs nat_less_iff)
  qed
qed

text \<open>\<open>s.split(sep)\<close> for a one-character separator: always at least one piece.\<close>

fun split_on :: "char \<Rightarrow> string \<Rightarrow> string list" where
  "split_on c [] = [[]]"
| "split_on c (x # xs) =
     (if x = c then [] # split_on c xs
      else (case split_on c xs of [] \<Rightarrow> [[x]] | p # ps \<Rightarrow> (x # p) # ps))"

lemma split_on_nonempty: "split_on c s \<noteq> []"
  by (induction s) (auto split: list.splits)

lemma split_on_no_sep: "c \<notin> set s \<Longrightarrow> split_on c s = [s]"
  by (induction s) auto

lemma split_on_append_sep: "c \<notin> set a \<Longrightarrow> split_on c (a @ c # b) = a # split_on c b"
  by (induction a) (auto split: list.splits)

text \<open>\<open>iter().nth(i)\<close> and \<open>slice.get(i)\<close>.\<close>

definition nth_opt :: "'a list \<Rightarrow> nat \<Rightarrow> 'a option" where
  "nth_opt xs i = (if i < length xs then Some (xs ! i) else None)"

section \<open>Nostr tags\<close>

type_synonym tag_list = "string list list"

text \<open>
  The idiom every tag parser of the code uses: the first tag whose first element is the name,
  and of that tag the second element.
\<close>

definition find_tag :: "tag_list \<Rightarrow> string \<Rightarrow> string list option" where
  "find_tag tags name = find (\<lambda>t. nth_opt t 0 = Some name) tags"

definition tag_value :: "tag_list \<Rightarrow> string \<Rightarrow> string option" where
  "tag_value tags name = Option.bind (find_tag tags name) (\<lambda>t. nth_opt t 1)"

lemma tag_value_Nil [simp]: "tag_value [] name = None"
  by (simp add: tag_value_def find_tag_def)

lemma tag_value_Cons [simp]:
  "tag_value (t # ts) name = (if nth_opt t 0 = Some name then nth_opt t 1 else tag_value ts name)"
  by (simp add: tag_value_def find_tag_def)

section \<open>Options and finite maps\<close>

text \<open>\<open>Option::filter\<close> and \<open>Option::or\<close>.\<close>

definition opt_filter :: "('a \<Rightarrow> bool) \<Rightarrow> 'a option \<Rightarrow> 'a option" where
  "opt_filter P x = (case x of Some v \<Rightarrow> if P v then Some v else None | None \<Rightarrow> None)"

definition opt_or :: "'a option \<Rightarrow> 'a option \<Rightarrow> 'a option" where
  "opt_or a b = (case a of Some v \<Rightarrow> Some v | None \<Rightarrow> b)"

lemma opt_filter_simps [simp]:
  "opt_filter P None = None"
  "opt_filter P (Some v) = (if P v then Some v else None)"
  by (simp_all add: opt_filter_def)

lemma opt_or_simps [simp]: "opt_or None b = b" "opt_or (Some v) b = Some v"
  by (simp_all add: opt_or_def)

lemma opt_filter_eq_Some: "opt_filter P x = Some v \<longleftrightarrow> x = Some v \<and> P v"
  by (cases x) auto

text \<open>\<open>Result\<close> as a sum, the error on the left.\<close>

type_synonym ('e, 'a) result = "'e + 'a"

text \<open>\<open>HashMap::retain\<close> with a predicate on key and value.\<close>

definition fmretain :: "('k \<Rightarrow> 'v \<Rightarrow> bool) \<Rightarrow> ('k, 'v) fmap \<Rightarrow> ('k, 'v) fmap" where
  "fmretain P m = fmfilter (\<lambda>k. case fmlookup m k of Some v \<Rightarrow> P k v | None \<Rightarrow> False) m"

lemma fmlookup_fmretain [simp]:
  "fmlookup (fmretain P m) k = opt_filter (P k) (fmlookup m k)"
  by (simp add: fmretain_def split: option.splits)

lemma fmretain_keeps_all: "(\<And>k v. fmlookup m k = Some v \<Longrightarrow> P k v) \<Longrightarrow> fmretain P m = m"
  by (rule fmap_ext) (auto simp: opt_filter_def split: option.splits)

text \<open>\<open>HashMap::len\<close>.\<close>

definition fmlen :: "('k, 'v) fmap \<Rightarrow> nat" where
  "fmlen m = fcard (fmdom m)"

lemma fmlen_empty [simp]: "fmlen fmempty = 0"
  by (simp add: fmlen_def)

end
