(* ===== verification/Api_Types.thy ===== *)
theory Api_Types
  imports Prelude
begin

text \<open>
  The data of the application: the shared types of \<open>rust/src/api/types.rs\<close> the modelled
  components use, with the source's variants and fields (field names carry a prefix naming
  their struct), and the wire types of the \<open>mostro_core\<close> crate.

  \<open>mostro_core\<close> is a third-party crate, so its types are not translated from a definition:
  \<open>core_action\<close> lists the variants the code names and leaves the others to \<open>A_Other\<close>
  (the code only ever sends them to a catch-all arm), \<open>core_status\<close> lists the variants of
  the exhaustive match in \<open>map_core_status\<close>, and \<open>core_payload\<close> and \<open>small_order\<close> keep
  the shapes and fields the code reads.
\<close>

section \<open>Enumerations of api/types.rs\<close>

datatype order_kind = Buy | Sell

datatype order_status =
    Pending | WaitingBuyerInvoice | WaitingPayment | Active | FiatSent | SettledHoldInvoice
  | Success | Canceled | Expired | CooperativelyCanceled | CanceledByAdmin | SettledByAdmin
  | CompletedByAdmin | Dispute | InProgress | WaitingTakerBond | WaitingMakerBond

datatype trade_role = Buyer | Seller

datatype buyer_step =
  BOrderTaken | BPayInvoice | BPaymentLocked | BFiatSent | BAwaitingRelease | BComplete

datatype seller_step =
  SOrderPublished | STakerFound | SInvoiceCreated | SPaymentLocked | SAwaitingFiat | SComplete

datatype trade_step = StepBuyer buyer_step | StepSeller seller_step | StepDisputed

datatype trade_outcome = OutSuccess | OutCanceled | OutExpired | OutDisputeWon | OutDisputeLost

datatype coop_cancel_state = CoopRequestedByMe | CoopRequestedByPeer | CoopAccepted

datatype queued_status = QPending | QInFlight | QSent | QFailed

datatype bond_role = BondMaker | BondTaker

datatype bond_state = BondRequested | BondLocked | BondReleased | BondSlashed

datatype bond_policy_kind = BPUnsupported | BPDisabled | BPEnabled

datatype bond_apply_to = ApplyTake | ApplyMake | ApplyBoth

datatype bond_claim_phase =
  ClaimPending | ClaimSubmitted | ClaimAcknowledged | ClaimCompleted | ClaimExpired

datatype trade_update_reason =
    UserCanceled | MakerCanceled | BondLostRace | BondExpired
  | CooperativeCancelRequestedByMe | CooperativeCancelRequestedByPeer

section \<open>Structs of api/types.rs\<close>

record order_info =
  oi_id :: string
  oi_kind :: order_kind
  oi_status :: order_status
  oi_amount_sats :: "u64 option"
  oi_fiat_amount :: "f64 option"
  oi_fiat_amount_min :: "f64 option"
  oi_fiat_amount_max :: "f64 option"
  oi_fiat_code :: string
  oi_payment_method :: string
  oi_premium :: f64
  oi_creator_pubkey :: string
  oi_created_at :: i64
  oi_expires_at :: "i64 option"
  oi_is_mine :: bool
  oi_rating :: f64
  oi_total_reviews :: u32
  oi_days_active :: u32

record bond_info =
  bi_role :: bond_role
  bi_amount_sats :: u64
  bi_invoice :: "string option"
  bi_state :: bond_state
  bi_requested_at :: i64
  bi_expires_at :: "i64 option"
  bi_locked_at :: "i64 option"

record trade_info =
  ti_id :: string
  ti_order :: order_info
  ti_role :: trade_role
  ti_counterparty_pubkey :: string
  ti_current_step :: trade_step
  ti_hold_invoice :: "string option"
  ti_buyer_invoice :: "string option"
  ti_trade_key_index :: u32
  ti_cooperative_cancel_state :: "coop_cancel_state option"
  ti_timeout_at :: "i64 option"
  ti_started_at :: i64
  ti_completed_at :: "i64 option"
  ti_outcome :: "trade_outcome option"
  ti_peer_rating :: "f64 option"
  ti_peer_reviews :: "u32 option"
  ti_peer_days :: "u32 option"
  ti_rated_at :: "i64 option"
  ti_bond :: "bond_info option"

record bond_policy_info =
  bp_policy :: bond_policy_kind
  bp_apply_to :: "bond_apply_to option"
  bp_amount_pct :: "f64 option"
  bp_base_amount_sats :: "u64 option"
  bp_slash_on_waiting_timeout :: "bool option"
  bp_slash_node_share_pct :: "f64 option"
  bp_payout_claim_window_days :: "u32 option"

record bond_claim =
  bc_order_id :: string
  bc_node_pubkey :: string
  bc_trade_index :: "u32 option"
  bc_amount_sats :: u64
  bc_slashed_at :: i64
  bc_deadline_at :: i64
  bc_phase :: bond_claim_phase
  bc_submitted_invoice :: "string option"
  bc_fiat_code :: string
  bc_fiat_amount :: "f64 option"
  bc_payment_method :: string
  bc_updated_at :: i64

record trade_update =
  tu_order_id :: string
  tu_status :: order_status
  tu_reason :: "trade_update_reason option"
  tu_occurred_at :: i64

datatype order_delta =
    DeltaUpserted u32 order_info
  | DeltaRemoved u32 string
  | DeltaResync
  | DeltaLoaded

record order_book_snapshot =
  obs_revision :: u32
  obs_orders :: "order_info list"
  obs_loaded :: bool

definition bond_claim_is_terminal :: "bond_claim_phase \<Rightarrow> bool" where
  "bond_claim_is_terminal p \<longleftrightarrow> p \<in> {ClaimCompleted, ClaimExpired}"

definition bond_claim_key :: "string \<Rightarrow> string \<Rightarrow> string" where
  "bond_claim_key node_pubkey order_id = node_pubkey @ '':'' @ order_id"

definition bond_claim_storage_id :: "bond_claim \<Rightarrow> string" where
  "bond_claim_storage_id c = bond_claim_key (bc_node_pubkey c) (bc_order_id c)"

text \<open>
  The derived \<open>PartialEq\<close> of \<open>OrderInfo\<close>: equal field by field, where a field of type
  \<open>f64\<close> that is NaN equals nothing, itself included.
\<close>

definition order_info_eq :: "order_info \<Rightarrow> order_info \<Rightarrow> bool" where
  "order_info_eq a b \<longleftrightarrow>
     oi_id a = oi_id b \<and> oi_kind a = oi_kind b \<and> oi_status a = oi_status b \<and>
     oi_amount_sats a = oi_amount_sats b \<and>
     opt_f64_eq (oi_fiat_amount a) (oi_fiat_amount b) \<and>
     opt_f64_eq (oi_fiat_amount_min a) (oi_fiat_amount_min b) \<and>
     opt_f64_eq (oi_fiat_amount_max a) (oi_fiat_amount_max b) \<and>
     oi_fiat_code a = oi_fiat_code b \<and> oi_payment_method a = oi_payment_method b \<and>
     f64_eq (oi_premium a) (oi_premium b) \<and>
     oi_creator_pubkey a = oi_creator_pubkey b \<and> oi_created_at a = oi_created_at b \<and>
     oi_expires_at a = oi_expires_at b \<and> oi_is_mine a = oi_is_mine b \<and>
     f64_eq (oi_rating a) (oi_rating b) \<and>
     oi_total_reviews a = oi_total_reviews b \<and> oi_days_active a = oi_days_active b"

lemma order_info_eq_imp_eq: "order_info_eq a b \<Longrightarrow> a = b"
  unfolding order_info_eq_def
  by (intro order_info.equality) (auto dest: opt_f64_eq_imp_eq f64_eq_imp_eq)

section \<open>Wire types of mostro_core\<close>

datatype core_action =
    A_NewOrder | A_TakeBuy | A_TakeSell | A_AddInvoice | A_PayInvoice | A_PayBondInvoice
  | A_AddBondInvoice | A_BondInvoiceAccepted | A_BondPayoutCompleted | A_BondSlashed
  | A_WaitingSellerToPay | A_WaitingBuyerInvoice | A_BuyerTookOrder
  | A_HoldInvoicePaymentAccepted | A_BuyerInvoiceAccepted | A_FiatSent | A_FiatSentOk
  | A_HoldInvoicePaymentSettled | A_Release | A_Released | A_InvoiceUpdated
  | A_PurchaseCompleted | A_HoldInvoicePaymentCanceled | A_Cancel | A_Canceled
  | A_CooperativeCancelAccepted | A_CooperativeCancelInitiatedByPeer
  | A_CooperativeCancelInitiatedByYou | A_Rate | A_RateUser | A_RateReceived
  | A_PaymentFailed | A_Dispute | A_DisputeInitiatedByYou | A_DisputeInitiatedByPeer
  | A_AdminTookDispute | A_AdminSettled | A_AdminCanceled | A_CantDo | A_LastTradeIndex
  | A_RestoreSession | A_Other string

datatype core_status =
    S_Pending | S_WaitingBuyerInvoice | S_WaitingPayment | S_Active | S_InProgress | S_FiatSent
  | S_SettledHoldInvoice | S_Success | S_Canceled | S_CooperativelyCanceled | S_Expired
  | S_CanceledByAdmin | S_SettledByAdmin | S_CompletedByAdmin | S_Dispute
  | S_WaitingTakerBond | S_WaitingMakerBond

record small_order =
  so_kind :: "order_kind option"
  so_status :: "core_status option"
  so_amount :: i64
  so_fiat_code :: string
  so_min_amount :: "i64 option"
  so_max_amount :: "i64 option"
  so_fiat_amount :: i64
  so_payment_method :: string
  so_premium :: i64
  so_buyer_trade_pubkey :: "string option"
  so_seller_trade_pubkey :: "string option"
  so_created_at :: "i64 option"
  so_expires_at :: "i64 option"

record user_info =
  ui_rating :: f64
  ui_reviews :: i64
  ui_operating_days :: u64

record core_peer =
  cp_pubkey :: string
  cp_reputation :: "user_info option"

record restored_order =
  ro_order_id :: string
  ro_trade_index :: i64
  ro_status :: string

record restored_dispute =
  rd_order_id :: string
  rd_trade_index :: i64

record restore_session_info =
  rsi_orders :: "restored_order list"
  rsi_disputes :: "restored_dispute list"

abbreviation rsi_dispute_indexes :: "restore_session_info \<Rightarrow> i64 list" where
  "rsi_dispute_indexes info \<equiv> map rd_trade_index (rsi_disputes info)"

datatype core_payload =
    P_Order small_order
  | P_PaymentRequest "small_order option" string "i64 option"
  | P_Peer core_peer
  | P_Dispute string
  | P_CantDo "string option"
  | P_RestoreData restore_session_info
  | P_BondPayoutRequest small_order i64
  | P_NextTrade string u32
  | P_Amount i64
  | P_RatingUser u8
  | P_Other string

end
