(* ===== verification/Order_Status.thy ===== *)
theory Order_Status
  imports Api_Types
begin

text \<open>
  \<open>rust/src/mostro/status.rs\<close>: what the daemon's actions and statuses mean for this client's
  \<open>order_status\<close>, and when an inbound status may overwrite the stored one; and the small
  decisions of \<open>rust/src/mostro/restore_history.rs\<close> that read the same status. All of it is
  pure, so every function of the source is one definition here.

  The lemmas state the laws the rest of the program leans on: the wire mapping loses nothing,
  the two notions of "terminal" differ in exactly one status, and a status the public order
  book reports never overwrites a finer private one unless it ends the trade.
\<close>

definition status_for_action :: "core_action \<Rightarrow> order_status option" where
  "status_for_action a = (case a of
      A_AddInvoice \<Rightarrow> Some WaitingBuyerInvoice
    | A_PayBondInvoice \<Rightarrow> Some WaitingTakerBond
    | A_WaitingSellerToPay \<Rightarrow> Some WaitingPayment
    | A_WaitingBuyerInvoice \<Rightarrow> Some WaitingBuyerInvoice
    | A_BuyerTookOrder \<Rightarrow> Some Active
    | A_HoldInvoicePaymentAccepted \<Rightarrow> Some Active
    | A_BuyerInvoiceAccepted \<Rightarrow> Some Active
    | A_FiatSentOk \<Rightarrow> Some FiatSent
    | A_HoldInvoicePaymentSettled \<Rightarrow> Some SettledHoldInvoice
    | A_Released \<Rightarrow> Some SettledHoldInvoice
    | A_InvoiceUpdated \<Rightarrow> Some SettledHoldInvoice
    | A_PurchaseCompleted \<Rightarrow> Some Success
    | A_HoldInvoicePaymentCanceled \<Rightarrow> Some Canceled
    | A_CooperativeCancelAccepted \<Rightarrow> Some CooperativelyCanceled
    | A_CooperativeCancelInitiatedByPeer \<Rightarrow> None
    | A_CooperativeCancelInitiatedByYou \<Rightarrow> None
    | A_Rate \<Rightarrow> None
    | A_RateUser \<Rightarrow> None
    | A_RateReceived \<Rightarrow> None
    | A_PaymentFailed \<Rightarrow> None
    | A_DisputeInitiatedByYou \<Rightarrow> Some Dispute
    | A_DisputeInitiatedByPeer \<Rightarrow> Some Dispute
    | A_AdminSettled \<Rightarrow> Some SettledByAdmin
    | A_AdminCanceled \<Rightarrow> Some CanceledByAdmin
    | _ \<Rightarrow> None)"

definition map_core_status :: "core_status \<Rightarrow> order_status option" where
  "map_core_status s = Some (case s of
      S_Pending \<Rightarrow> Pending
    | S_WaitingBuyerInvoice \<Rightarrow> WaitingBuyerInvoice
    | S_WaitingPayment \<Rightarrow> WaitingPayment
    | S_Active \<Rightarrow> Active
    | S_InProgress \<Rightarrow> InProgress
    | S_FiatSent \<Rightarrow> FiatSent
    | S_SettledHoldInvoice \<Rightarrow> SettledHoldInvoice
    | S_Success \<Rightarrow> Success
    | S_Canceled \<Rightarrow> Canceled
    | S_CooperativelyCanceled \<Rightarrow> CooperativelyCanceled
    | S_Expired \<Rightarrow> Expired
    | S_CanceledByAdmin \<Rightarrow> CanceledByAdmin
    | S_SettledByAdmin \<Rightarrow> SettledByAdmin
    | S_CompletedByAdmin \<Rightarrow> CompletedByAdmin
    | S_Dispute \<Rightarrow> Dispute
    | S_WaitingTakerBond \<Rightarrow> WaitingTakerBond
    | S_WaitingMakerBond \<Rightarrow> WaitingMakerBond)"

definition admin_verdict_refines :: "order_status \<Rightarrow> core_action \<Rightarrow> bool" where
  "admin_verdict_refines local action \<longleftrightarrow>
     (local = Canceled \<and> action = A_AdminCanceled) \<or> (local = Success \<and> action = A_AdminSettled)"

definition is_hard_terminal :: "order_status \<Rightarrow> bool" where
  "is_hard_terminal s \<longleftrightarrow>
     s = Canceled \<or> s = CanceledByAdmin \<or> s = CooperativelyCanceled \<or> s = Expired \<or>
     s = Success \<or> s = SettledByAdmin \<or> s = CompletedByAdmin"

definition is_terminal_status :: "order_status \<Rightarrow> bool" where
  "is_terminal_status s \<longleftrightarrow>
     s = Success \<or> s = SettledHoldInvoice \<or> s = SettledByAdmin \<or> s = CompletedByAdmin \<or>
     s = Canceled \<or> s = CanceledByAdmin \<or> s = CooperativelyCanceled \<or> s = Expired"

definition wire_status_applies :: "order_status option \<Rightarrow> order_status \<Rightarrow> bool" where
  "wire_status_applies local wire = (case local of
      None \<Rightarrow> True
    | Some s \<Rightarrow> if s = Pending then True else is_terminal_status wire)"

definition cancellation_wipes_history :: "order_status \<Rightarrow> bool" where
  "cancellation_wipes_history s \<longleftrightarrow>
     s = Pending \<or> s = WaitingBuyerInvoice \<or> s = WaitingPayment \<or>
     s = WaitingTakerBond \<or> s = WaitingMakerBond"

definition add_invoice_sync :: "core_payload option \<Rightarrow> (order_status \<times> u64 option) option" where
  "add_invoice_sync payload = (case payload of
      Some (P_Order so) \<Rightarrow>
        let status = (case Option.bind (so_status so) map_core_status of
                        None \<Rightarrow> WaitingBuyerInvoice
                      | Some s \<Rightarrow> if s = SettledHoldInvoice then WaitingBuyerInvoice else s);
            amount = (if so_amount so > 0 then Some (u64_as_of_i64 (so_amount so)) else None)
        in Some (status, amount)
    | _ \<Rightarrow> None)"

definition peer_reputation :: "core_payload option \<Rightarrow> (f64 \<times> u32 \<times> u32) option" where
  "peer_reputation payload = (case payload of
      Some (P_Peer peer) \<Rightarrow>
        map_option (\<lambda>u. (ui_rating u,
                         word_of_int (max 0 (min (uint u32_max) (ui_reviews u))),
                         word_of_int (min (uint (ui_operating_days u)) (uint u32_max))))
          (cp_reputation peer)
    | _ \<Rightarrow> None)"

section \<open>History rows after a restore\<close>

datatype history_action = MarkSuccess | Wipe | Retry

record restore_snapshot =
  rs_floor :: u32
  rs_live :: "string fset"

definition is_history :: "restore_snapshot \<Rightarrow> string \<Rightarrow> u32 \<Rightarrow> bool" where
  "is_history rs order_id trade_index \<longleftrightarrow> trade_index \<le> rs_floor rs \<and> order_id |\<notin>| rs_live rs"

definition decide_history :: "order_status option \<Rightarrow> history_action" where
  "decide_history public = (case public of
      Some s \<Rightarrow> if s = Success then MarkSuccess else Wipe
    | None \<Rightarrow> Retry)"

definition reads_in_progress :: "order_status \<Rightarrow> bool" where
  "reads_in_progress s \<longleftrightarrow>
     \<not> (s = Success \<or> s = Canceled \<or> s = Expired \<or> s = CooperativelyCanceled \<or>
        s = CanceledByAdmin \<or> s = SettledByAdmin \<or> s = CompletedByAdmin)"

lemmas status_defs [spec_simps] =
  status_for_action_def map_core_status_def admin_verdict_refines_def is_hard_terminal_def
  is_terminal_status_def wire_status_applies_def cancellation_wipes_history_def
  reads_in_progress_def decide_history_def

section \<open>Laws\<close>

lemma map_core_status_total: "\<exists>s. map_core_status c = Some s"
  by (simp add: map_core_status_def)

lemma map_core_status_inj: "map_core_status a = map_core_status b \<Longrightarrow> a = b"
  by (cases a; cases b; simp add: map_core_status_def)

lemma map_core_status_surj: "\<exists>c. map_core_status c = Some s"
proof (cases s)
  case Pending show ?thesis by (rule exI [of _ S_Pending]) (simp add: map_core_status_def Pending)
next
  case WaitingBuyerInvoice show ?thesis
    by (rule exI [of _ S_WaitingBuyerInvoice]) (simp add: map_core_status_def WaitingBuyerInvoice)
next
  case WaitingPayment show ?thesis
    by (rule exI [of _ S_WaitingPayment]) (simp add: map_core_status_def WaitingPayment)
next
  case Active show ?thesis by (rule exI [of _ S_Active]) (simp add: map_core_status_def Active)
next
  case FiatSent show ?thesis by (rule exI [of _ S_FiatSent]) (simp add: map_core_status_def FiatSent)
next
  case SettledHoldInvoice show ?thesis
    by (rule exI [of _ S_SettledHoldInvoice]) (simp add: map_core_status_def SettledHoldInvoice)
next
  case Success show ?thesis by (rule exI [of _ S_Success]) (simp add: map_core_status_def Success)
next
  case Canceled show ?thesis by (rule exI [of _ S_Canceled]) (simp add: map_core_status_def Canceled)
next
  case Expired show ?thesis by (rule exI [of _ S_Expired]) (simp add: map_core_status_def Expired)
next
  case CooperativelyCanceled show ?thesis
    by (rule exI [of _ S_CooperativelyCanceled]) (simp add: map_core_status_def CooperativelyCanceled)
next
  case CanceledByAdmin show ?thesis
    by (rule exI [of _ S_CanceledByAdmin]) (simp add: map_core_status_def CanceledByAdmin)
next
  case SettledByAdmin show ?thesis
    by (rule exI [of _ S_SettledByAdmin]) (simp add: map_core_status_def SettledByAdmin)
next
  case CompletedByAdmin show ?thesis
    by (rule exI [of _ S_CompletedByAdmin]) (simp add: map_core_status_def CompletedByAdmin)
next
  case Dispute show ?thesis by (rule exI [of _ S_Dispute]) (simp add: map_core_status_def Dispute)
next
  case InProgress show ?thesis
    by (rule exI [of _ S_InProgress]) (simp add: map_core_status_def InProgress)
next
  case WaitingTakerBond show ?thesis
    by (rule exI [of _ S_WaitingTakerBond]) (simp add: map_core_status_def WaitingTakerBond)
next
  case WaitingMakerBond show ?thesis
    by (rule exI [of _ S_WaitingMakerBond]) (simp add: map_core_status_def WaitingMakerBond)
qed

lemma terminal_iff: "is_terminal_status s \<longleftrightarrow> is_hard_terminal s \<or> s = SettledHoldInvoice"
  by (auto simp: spec_simps)

lemma hard_terminal_not_wiped: "is_hard_terminal s \<Longrightarrow> \<not> cancellation_wipes_history s"
  by (auto simp: spec_simps)

lemma reads_in_progress_iff: "reads_in_progress s \<longleftrightarrow> \<not> is_hard_terminal s"
  by (auto simp: spec_simps)

lemma wire_status_applies_private:
  "s \<noteq> Pending \<Longrightarrow> wire_status_applies (Some s) w \<longleftrightarrow> is_terminal_status w"
  by (simp add: wire_status_applies_def)

lemma wire_status_applies_open [simp]:
  "wire_status_applies None w" "wire_status_applies (Some Pending) w"
  by (simp_all add: wire_status_applies_def)

lemma admin_verdict_refines_terminal:
  "admin_verdict_refines s a \<Longrightarrow> is_hard_terminal s \<and>
     (\<exists>t. status_for_action a = Some t \<and> is_hard_terminal t)"
  by (auto simp: spec_simps)

lemma add_invoice_sync_not_settled:
  "add_invoice_sync p = Some (s, amt) \<Longrightarrow> s \<noteq> SettledHoldInvoice"
  by (auto simp: add_invoice_sync_def Let_def split: option.splits core_payload.splits if_splits)

lemma add_invoice_sync_amount:
  "add_invoice_sync (Some (P_Order so)) = Some (s, Some amt) \<Longrightarrow> is_i64 (so_amount so) \<Longrightarrow>
     uint amt = so_amount so \<and> 0 < amt"
  by (auto simp: add_invoice_sync_def Let_def u64_as_of_i64_def is_i64_def i64_bound_defs
      uint_word_of_int word_less_def split: if_splits)

lemma uint_u32_max [simp]: "uint u32_max = 2 ^ 32 - 1"
  using unat_u32_max by (simp add: uint_nat)

lemma peer_reputation_bounds:
  assumes "peer_reputation (Some (P_Peer p)) = Some (r, reviews, days)"
    and "cp_reputation p = Some u"
  shows "r = ui_rating u \<and> uint reviews = max 0 (min (2 ^ 32 - 1) (ui_reviews u)) \<and>
         uint days = min (uint (ui_operating_days u)) (2 ^ 32 - 1)"
proof -
  have "0 \<le> uint (ui_operating_days u)" by simp
  with assms show ?thesis
    by (auto simp: peer_reputation_def uint_word_of_int)
qed

end
