(* ===== verification/Order_Fsm.thy ===== *)
theory Order_Fsm
  imports Order_Status
begin

text \<open>
  \<open>rust/src/mostro/fsm.rs\<close>: the table that says which action a role may take in which status
  and where it leads. \<open>fsm_step\<close> is that table as a relation and \<open>fsm_path\<close> a run of it;
  the lemmas say which statuses are absorbing, what the table can reach from a fresh order, and
  that the escrow is only ever settled by the seller after the buyer reported the fiat sent.
\<close>

datatype fsm_action =
    FNewOrder | FTakeBuy | FTakeSell | FAddInvoice | FPayInvoice | FFiatSent | FRelease | FCancel
  | FCooperativeCancel | FAcceptCooperativeCancel | FDispute | FAdminTakeDispute | FAdminCancel
  | FAdminSettle | FAdminComplete

definition next_status :: "order_status \<Rightarrow> fsm_action \<Rightarrow> trade_role \<Rightarrow> order_status option" where
  "next_status current action role = (case (current, action, role) of
      (Pending, FNewOrder, _) \<Rightarrow> Some Pending
    | (Pending, FTakeBuy, Buyer) \<Rightarrow> Some WaitingBuyerInvoice
    | (Pending, FTakeSell, Seller) \<Rightarrow> Some WaitingPayment
    | (WaitingBuyerInvoice, FAddInvoice, Buyer) \<Rightarrow> Some WaitingPayment
    | (WaitingPayment, FPayInvoice, Seller) \<Rightarrow> Some Active
    | (Active, FFiatSent, Buyer) \<Rightarrow> Some FiatSent
    | (FiatSent, FRelease, Seller) \<Rightarrow> Some SettledHoldInvoice
    | (Pending, FCancel, _) \<Rightarrow> Some Canceled
    | (Active, FCooperativeCancel, _) \<Rightarrow> Some Active
    | (Active, FAcceptCooperativeCancel, _) \<Rightarrow> Some CooperativelyCanceled
    | (FiatSent, FCooperativeCancel, _) \<Rightarrow> Some FiatSent
    | (FiatSent, FAcceptCooperativeCancel, _) \<Rightarrow> Some CooperativelyCanceled
    | (Active, FDispute, _) \<Rightarrow> Some Dispute
    | (FiatSent, FDispute, _) \<Rightarrow> Some Dispute
    | (Dispute, FAdminTakeDispute, _) \<Rightarrow> Some InProgress
    | (Dispute, FAdminCancel, _) \<Rightarrow> Some CanceledByAdmin
    | (Dispute, FAdminSettle, _) \<Rightarrow> Some SettledByAdmin
    | (Dispute, FAdminComplete, _) \<Rightarrow> Some CompletedByAdmin
    | (InProgress, FAdminCancel, _) \<Rightarrow> Some CanceledByAdmin
    | (InProgress, FAdminSettle, _) \<Rightarrow> Some SettledByAdmin
    | (InProgress, FAdminComplete, _) \<Rightarrow> Some CompletedByAdmin
    | _ \<Rightarrow> None)"

definition is_action_allowed :: "order_status \<Rightarrow> fsm_action \<Rightarrow> trade_role \<Rightarrow> bool" where
  "is_action_allowed current action role \<longleftrightarrow> next_status current action role \<noteq> None"

section \<open>Runs of the table\<close>

inductive fsm_step :: "order_status \<Rightarrow> fsm_action \<times> trade_role \<Rightarrow> order_status \<Rightarrow> bool" where
  fsm_stepI: "next_status s a r = Some t \<Longrightarrow> fsm_step s (a, r) t"

inductive_simps fsm_step_iff: "fsm_step s (a, r) t"

inductive fsm_path :: "order_status \<Rightarrow> (fsm_action \<times> trade_role) list \<Rightarrow> order_status \<Rightarrow> bool" where
  fsm_path_nil: "fsm_path s [] s"
| fsm_path_snoc: "fsm_path s es t \<Longrightarrow> fsm_step t e u \<Longrightarrow> fsm_path s (es @ [e]) u"

inductive_cases fsm_path_snocE: "fsm_path s (es @ [e]) u"

lemma fsm_step_into_settled:
  "fsm_step s e SettledHoldInvoice \<Longrightarrow> s = FiatSent \<and> e = (FRelease, Seller)"
  by (cases e) (auto simp: fsm_step_iff next_status_def split: order_status.splits fsm_action.splits trade_role.splits)

lemma fsm_step_into_fiat_sent:
  "fsm_step s e FiatSent \<Longrightarrow> s = FiatSent \<or> (s = Active \<and> e = (FFiatSent, Buyer))"
  by (cases e) (auto simp: fsm_step_iff next_status_def split: order_status.splits fsm_action.splits trade_role.splits)

lemma fsm_step_into_active:
  "fsm_step s e Active \<Longrightarrow> s = Active \<or> (s = WaitingPayment \<and> e = (FPayInvoice, Seller))"
  by (cases e) (auto simp: fsm_step_iff next_status_def split: order_status.splits fsm_action.splits trade_role.splits)

lemma next_status_from_terminal: "is_terminal_status s \<Longrightarrow> next_status s a r = None"
  by (cases s; cases a; cases r) (auto simp: is_terminal_status_def next_status_def)

definition fsm_reach_set :: "order_status set" where
  "fsm_reach_set = {Pending, WaitingBuyerInvoice, WaitingPayment, Active, FiatSent,
     SettledHoldInvoice, Canceled, CooperativelyCanceled, Dispute, InProgress, CanceledByAdmin,
     SettledByAdmin, CompletedByAdmin}"

lemma fsm_step_reach_set: "fsm_step s e t \<Longrightarrow> s \<in> fsm_reach_set \<Longrightarrow> t \<in> fsm_reach_set"
  by (cases e) (auto simp: fsm_step_iff fsm_reach_set_def next_status_def split: order_status.splits fsm_action.splits trade_role.splits)

lemma fsm_path_reach_set: "fsm_path s es t \<Longrightarrow> s \<in> fsm_reach_set \<Longrightarrow> t \<in> fsm_reach_set"
  by (induction rule: fsm_path.induct) (auto intro: fsm_step_reach_set)

text \<open>The order of the three events that settle an escrow, as an invariant of runs.\<close>

definition paid_in :: "(fsm_action \<times> trade_role) list \<Rightarrow> bool" where
  "paid_in es \<longleftrightarrow> (FPayInvoice, Seller) \<in> set es"

definition fiat_after_payment :: "(fsm_action \<times> trade_role) list \<Rightarrow> bool" where
  "fiat_after_payment es \<longleftrightarrow> (\<exists>as bs. es = as @ (FFiatSent, Buyer) # bs \<and> paid_in as)"

lemma paid_in_snoc: "paid_in es \<Longrightarrow> paid_in (es @ xs)"
  by (simp add: paid_in_def)

lemma fiat_after_payment_snoc: "fiat_after_payment es \<Longrightarrow> fiat_after_payment (es @ xs)"
  unfolding fiat_after_payment_def by (metis append_Cons append_assoc)

lemma fsm_path_escrow_inv:
  "fsm_path Pending es t \<Longrightarrow>
     (t = Active \<longrightarrow> paid_in es) \<and> (t = FiatSent \<longrightarrow> fiat_after_payment es)"
proof (induction Pending es t rule: fsm_path.induct)
  case fsm_path_nil
  then show ?case by simp
next
  case (fsm_path_snoc es t e u)
  have "paid_in (es @ [e])" if "u = Active"
    using fsm_path_snoc fsm_step_into_active [of t e] that
    by (auto intro: paid_in_snoc simp: paid_in_def)
  moreover have "fiat_after_payment (es @ [e])" if "u = FiatSent"
  proof (cases "t = FiatSent")
    case True
    with fsm_path_snoc show ?thesis by (simp add: fiat_after_payment_snoc)
  next
    case False
    with fsm_path_snoc that have "t = Active" and "e = (FFiatSent, Buyer)"
      using fsm_step_into_fiat_sent [of t e] by auto
    with fsm_path_snoc show ?thesis by (auto simp: fiat_after_payment_def)
  qed
  ultimately show ?case by blast
qed

text \<open>
  a run of the state machine from a fresh order that settles the escrow ends with the
  seller's release, and before it the seller paid the hold invoice and then the buyer reported
  the fiat as sent, in that order.
\<close>

theorem fsm_settlement_order:
  assumes "fsm_path Pending es SettledHoldInvoice"
  shows "\<exists>as bs cs. es = as @ (FPayInvoice, Seller) # bs @ (FFiatSent, Buyer) # cs @ [(FRelease, Seller)]"
proof -
  from assms obtain ds e t where es: "es = ds @ [e]" and p: "fsm_path Pending ds t"
    and st: "fsm_step t e SettledHoldInvoice"
    by (cases rule: fsm_path.cases) auto
  from st have t: "t = FiatSent" and e: "e = (FRelease, Seller)"
    using fsm_step_into_settled by blast+
  from p t have "fiat_after_payment ds" using fsm_path_escrow_inv by blast
  then obtain xs cs where ds: "ds = xs @ (FFiatSent, Buyer) # cs" and "paid_in xs"
    by (auto simp: fiat_after_payment_def)
  then obtain as bs where "xs = as @ (FPayInvoice, Seller) # bs"
    by (auto simp: paid_in_def dest: split_list)
  with es e ds show ?thesis by auto
qed

lemma fsm_happy_path:
  "fsm_path Pending
     [(FTakeBuy, Buyer), (FAddInvoice, Buyer), (FPayInvoice, Seller), (FFiatSent, Buyer), (FRelease, Seller)]
     SettledHoldInvoice"
proof -
  have "fsm_path Pending ([] @ [(FTakeBuy, Buyer)]) WaitingBuyerInvoice"
    by (rule fsm_path_snoc [OF fsm_path_nil]) (simp add: fsm_step_iff next_status_def)
  then have "fsm_path Pending (([] @ [(FTakeBuy, Buyer)]) @ [(FAddInvoice, Buyer)]) WaitingPayment"
    by (rule fsm_path_snoc) (simp add: fsm_step_iff next_status_def)
  then have "fsm_path Pending ((([] @ [(FTakeBuy, Buyer)]) @ [(FAddInvoice, Buyer)]) @ [(FPayInvoice, Seller)]) Active"
    by (rule fsm_path_snoc) (simp add: fsm_step_iff next_status_def)
  then have "fsm_path Pending (((([] @ [(FTakeBuy, Buyer)]) @ [(FAddInvoice, Buyer)]) @ [(FPayInvoice, Seller)]) @ [(FFiatSent, Buyer)]) FiatSent"
    by (rule fsm_path_snoc) (simp add: fsm_step_iff next_status_def)
  then have "fsm_path Pending ((((([] @ [(FTakeBuy, Buyer)]) @ [(FAddInvoice, Buyer)]) @ [(FPayInvoice, Seller)]) @ [(FFiatSent, Buyer)]) @ [(FRelease, Seller)]) SettledHoldInvoice"
    by (rule fsm_path_snoc) (simp add: fsm_step_iff next_status_def)
  then show ?thesis by simp
qed

theorem fsm_settlement_order_witness:
  "\<exists>as bs cs.
     [(FTakeBuy, Buyer), (FAddInvoice, Buyer), (FPayInvoice, Seller), (FFiatSent, Buyer), (FRelease, Seller)]
       = as @ (FPayInvoice, Seller) # bs @ (FFiatSent, Buyer) # cs @ [(FRelease, Seller)]"
  by (rule fsm_settlement_order [OF fsm_happy_path])

text \<open>
  no action moves a trade out of a terminal status, and no run from a fresh order reaches
  \<open>Success\<close>, \<open>Expired\<close> or a bond status: those come only from the daemon's messages, never
  from a local action.
\<close>

theorem fsm_terminal_and_reachable:
  "(is_terminal_status s \<longrightarrow> \<not> is_action_allowed s a r) \<and>
   (fsm_path Pending es t \<longrightarrow> t \<notin> {Success, Expired, WaitingTakerBond, WaitingMakerBond})"
proof -
  have "\<not> is_action_allowed s a r" if "is_terminal_status s"
    using that by (simp add: is_action_allowed_def next_status_from_terminal)
  moreover have "t \<notin> {Success, Expired, WaitingTakerBond, WaitingMakerBond}" if "fsm_path Pending es t"
    using fsm_path_reach_set [OF that] by (auto simp: fsm_reach_set_def)
  ultimately show ?thesis by blast
qed

theorem fsm_terminal_and_reachable_witness:
  "\<not> is_action_allowed SettledHoldInvoice FDispute Buyer \<and>
   SettledHoldInvoice \<notin> {Success, Expired, WaitingTakerBond, WaitingMakerBond}"
  using fsm_terminal_and_reachable [of SettledHoldInvoice FDispute Buyer] fsm_happy_path
  by (auto simp: is_terminal_status_def)

end
