(* ===== verification/Pending_Requests.thy ===== *)
theory Pending_Requests
  imports Order_Status
begin

text \<open>
  \<open>rust/src/mostro/pending.rs\<close>: the registry that correlates outgoing daemon requests with
  the replies that arrive out of band, keyed by the trade key of the attempt.

  The process-wide \<open>Mutex<HashMap>\<close> is a finite map passed explicitly; every function of the
  source holds the lock from its first read to its last write, so each is one atomic
  transition. A \<open>oneshot\<close> sender is a number (\<open>waiter\<close>); the set of waiters whose receiver
  was dropped is an argument where the code asks \<open>is_closed\<close>. The lock is never poisoned in
  the model: no modelled operation panics while holding it on a key of eight bytes or more,
  which the code's hex keys always are.

  The locale \<open>nonce_gate\<close> is the contract the dispatcher relies on: a taker removes exactly
  the record whose nonce the reply echoes and whose kind it wants, and touches nothing else.
  Its four providers are interpreted below.
\<close>

type_synonym waiter = nat

datatype pending_kind =
    KCreate string bool   \<comment> \<open>\<open>local_uuid\<close>, \<open>bond_requested\<close>\<close>
  | KTake
  | KAddInvoice
  | KBondClaimSubmit
  | KRestore i64          \<comment> \<open>\<open>sent_at\<close>\<close>
  | KDispute "u64 list"   \<comment> \<open>\<open>superseded\<close>\<close>

record pending_request =
  pr_request_id :: u64
  pr_trade_index :: u32
  pr_kind :: pending_kind
  pr_tx :: "waiter option"

type_synonym pending_map = "(string, pending_request) fmap"

record bond_request =
  br_amount_sats :: u64
  br_invoice :: string

datatype daemon_reply =
    Confirmed string
  | BondRequestedReply string bond_request
  | TakeAccepted core_action "order_status option" "u64 option" "string option" "bond_request option"
  | Acknowledged
  | DisputeAccepted "string option"
  | Rejected string string
  | Restored restore_session_info

section \<open>Correlation by nonce\<close>

definition request_id_matches :: "u64 \<Rightarrow> u64 option \<Rightarrow> bool" where
  "request_id_matches expected got \<longleftrightarrow> got = Some expected"

definition restore_reply_skew_secs :: i64 where "restore_reply_skew_secs = 30"

text \<open>\<open>match map.get(k) { Some(p) if P(p) => map.remove(k), _ => None }\<close>.\<close>

definition take_if :: "(pending_request \<Rightarrow> bool) \<Rightarrow> string \<Rightarrow> pending_map \<Rightarrow> pending_request option \<times> pending_map" where
  "take_if P k m = (case fmlookup m k of
      Some p \<Rightarrow> if P p then (Some p, fmdrop k m) else (None, m)
    | None \<Rightarrow> (None, m))"

definition take_matching_restore :: "string \<Rightarrow> i64 \<Rightarrow> pending_map \<Rightarrow> pending_request option \<times> pending_map" where
  "take_matching_restore k reply_ts = take_if (\<lambda>p. case pr_kind p of
      KRestore sent_at \<Rightarrow> i64_wrap (reply_ts + restore_reply_skew_secs) \<ge> sent_at
    | _ \<Rightarrow> False) k"

definition take_matching_request :: "string \<Rightarrow> u64 option \<Rightarrow> pending_map \<Rightarrow> pending_request option \<times> pending_map" where
  "take_matching_request k got m = (case fmlookup m k of
      Some p \<Rightarrow> if request_id_matches (pr_request_id p) got then (Some p, fmdrop k m) else (None, m)
    | None \<Rightarrow> (None, m))"

definition take_matching_take :: "string \<Rightarrow> u64 option \<Rightarrow> pending_map \<Rightarrow> pending_request option \<times> pending_map" where
  "take_matching_take k got =
     take_if (\<lambda>p. request_id_matches (pr_request_id p) got \<and> pr_kind p = KTake) k"

definition take_matching_add_invoice :: "string \<Rightarrow> u64 option \<Rightarrow> pending_map \<Rightarrow> pending_request option \<times> pending_map" where
  "take_matching_add_invoice k got =
     take_if (\<lambda>p. request_id_matches (pr_request_id p) got \<and> pr_kind p = KAddInvoice) k"

definition take_matching_claim_submit :: "string \<Rightarrow> u64 option \<Rightarrow> pending_map \<Rightarrow> pending_request option \<times> pending_map" where
  "take_matching_claim_submit k got =
     take_if (\<lambda>p. request_id_matches (pr_request_id p) got \<and> pr_kind p = KBondClaimSubmit) k"

definition detach_request_waiter :: "string \<Rightarrow> u64 \<Rightarrow> pending_map \<Rightarrow> pending_map" where
  "detach_request_waiter k request_id m = (case fmlookup m k of
      Some p \<Rightarrow> if pr_request_id p = request_id then fmupd k (p\<lparr>pr_tx := None\<rparr>) m else m
    | None \<Rightarrow> m)"

definition remove_pending_request :: "string \<Rightarrow> u64 \<Rightarrow> pending_map \<Rightarrow> pending_map" where
  "remove_pending_request k request_id m = (case fmlookup m k of
      Some p \<Rightarrow> if pr_request_id p = request_id then fmdrop k m else m
    | None \<Rightarrow> m)"

definition register_add_invoice_request ::
  "waiter set \<Rightarrow> waiter \<Rightarrow> string \<Rightarrow> u64 \<Rightarrow> u32 \<Rightarrow> pending_map \<Rightarrow> waiter option \<times> pending_map" where
  "register_add_invoice_request dropped tx k request_id trade_index m =
     (let in_flight = (case fmlookup m k of
          Some p \<Rightarrow> pr_kind p = KAddInvoice \<and>
                    (case pr_tx p of Some w \<Rightarrow> w \<notin> dropped | None \<Rightarrow> False)
        | None \<Rightarrow> False)
      in if in_flight then (None, m)
         else (Some tx, fmupd k \<lparr>pr_request_id = request_id, pr_trade_index = trade_index,
                                 pr_kind = KAddInvoice, pr_tx = Some tx\<rparr> m))"

definition purge_detached_pending_request :: "string \<Rightarrow> pending_map \<Rightarrow> pending_map" where
  "purge_detached_pending_request k m = (case fmlookup m k of
      Some p \<Rightarrow> if pr_tx p = None then fmdrop k m else m
    | None \<Rightarrow> m)"

definition pending_local_uuid_for :: "string \<Rightarrow> pending_map \<Rightarrow> string option" where
  "pending_local_uuid_for k m = (case fmlookup m k of
      Some p \<Rightarrow> (case pr_kind p of KCreate local_uuid _ \<Rightarrow> Some local_uuid | _ \<Rightarrow> None)
    | None \<Rightarrow> None)"

section \<open>The maker's bond on a create\<close>

record create_bond_claim =
  cbc_tx :: "waiter option"
  cbc_trade_index :: u32
  cbc_local_uuid :: string

definition claim_create_bond :: "string \<Rightarrow> u64 option \<Rightarrow> pending_map \<Rightarrow> create_bond_claim option \<times> pending_map" where
  "claim_create_bond k got m = (case fmlookup m k of
      None \<Rightarrow> (None, m)
    | Some p \<Rightarrow>
        if \<not> request_id_matches (pr_request_id p) got then (None, m)
        else (case pr_kind p of
            KCreate local_uuid _ \<Rightarrow>
              (Some \<lparr>cbc_tx = pr_tx p, cbc_trade_index = pr_trade_index p, cbc_local_uuid = local_uuid\<rparr>,
               fmupd k (p\<lparr>pr_kind := KCreate local_uuid True, pr_tx := None\<rparr>) m)
          | _ \<Rightarrow> (None, m)))"

section \<open>Disputes: several attempts on one key\<close>

datatype dispute_match = Waiting waiter | Late

definition take_matching_dispute :: "string \<Rightarrow> u64 option \<Rightarrow> pending_map \<Rightarrow> dispute_match option \<times> pending_map" where
  "take_matching_dispute k got m = (case fmlookup m k of
      None \<Rightarrow> (None, m)
    | Some p \<Rightarrow> (case pr_kind p of
        KDispute superseded \<Rightarrow>
          if (case got of Some n \<Rightarrow> n \<in> set superseded | None \<Rightarrow> False)
          then (Some Late, fmupd k (p\<lparr>pr_kind := KDispute (remove1 (the got) superseded)\<rparr>) m)
          else if \<not> request_id_matches (pr_request_id p) got then (None, m)
          else (case pr_tx p of
              Some w \<Rightarrow> (Some (Waiting w), fmdrop k m)
            | None \<Rightarrow> (Some Late, fmdrop k m))
      | _ \<Rightarrow> (None, m)))"

definition register_dispute_request :: "waiter \<Rightarrow> string \<Rightarrow> u64 \<Rightarrow> u32 \<Rightarrow> pending_map \<Rightarrow> waiter \<times> pending_map" where
  "register_dispute_request tx k request_id trade_index m =
     (let superseded = (case fmlookup m k of
          Some p \<Rightarrow> (case pr_kind p of KDispute old \<Rightarrow> old @ [pr_request_id p] | _ \<Rightarrow> [])
        | None \<Rightarrow> [])
      in (tx, fmupd k \<lparr>pr_request_id = request_id, pr_trade_index = trade_index,
                       pr_kind = KDispute superseded, pr_tx = Some tx\<rparr> (fmdrop k m)))"

definition roll_back_dispute_request :: "string \<Rightarrow> u64 \<Rightarrow> pending_map \<Rightarrow> pending_map" where
  "roll_back_dispute_request k request_id m = (case fmlookup m k of
      None \<Rightarrow> m
    | Some p \<Rightarrow>
        if pr_request_id p \<noteq> request_id then m
        else (case pr_kind p of
            KDispute superseded \<Rightarrow>
              if superseded = [] then fmdrop k m
              else fmupd k (p\<lparr>pr_kind := KDispute (butlast superseded),
                              pr_request_id := last superseded, pr_tx := None\<rparr>) m
          | _ \<Rightarrow> fmdrop k m))"

section \<open>The first reply to a take\<close>

definition positive_sats :: "i64 \<Rightarrow> u64 option" where
  "positive_sats amount = (if amount > 0 then Some (u64_as_of_i64 amount) else None)"

definition classify_take_reply :: "core_action \<Rightarrow> core_payload option \<Rightarrow> daemon_reply" where
  "classify_take_reply action payload =
     (if action = A_PayBondInvoice
      then (case payload of
          Some (P_PaymentRequest so invoice amount) \<Rightarrow>
            let bond_sats = (case opt_or (Option.bind amount u64_of_i64)
                                  (Option.bind so (\<lambda>o'. u64_of_i64 (so_amount o'))) of
                               Some v \<Rightarrow> v | None \<Rightarrow> 0)
            in TakeAccepted action (Some WaitingTakerBond) None None
                 (Some \<lparr>br_amount_sats = bond_sats, br_invoice = invoice\<rparr>)
        | _ \<Rightarrow> Rejected ''InvalidBondInvoice'' ''InvalidBondInvoice'')
      else (case payload of
          Some (P_PaymentRequest so invoice amount) \<Rightarrow>
            TakeAccepted action
              (opt_or (Option.bind so (\<lambda>o'. Option.bind (so_status o') map_core_status))
                 (status_for_action action))
              (opt_or (Option.bind amount u64_of_i64)
                 (Option.bind so (\<lambda>o'. positive_sats (so_amount o'))))
              (Some invoice) None
        | Some (P_Order so) \<Rightarrow>
            TakeAccepted action
              (opt_or (Option.bind (so_status so) map_core_status) (status_for_action action))
              (positive_sats (so_amount so)) None None
        | _ \<Rightarrow> TakeAccepted action (status_for_action action) None None None))"

definition may_reconcile_stored_id :: "string \<Rightarrow> string \<Rightarrow> string option \<Rightarrow> bool" where
  "may_reconcile_stored_id stored_id incoming_id pending_local_uuid \<longleftrightarrow>
     stored_id \<noteq> incoming_id \<and> pending_local_uuid = Some stored_id"

section \<open>One retry on silence\<close>

text \<open>
  \<open>attempt\<close> is a state transformer: what one call of the closure answers and the state it
  leaves. \<open>anyhow::Error\<close> is its message.
\<close>

definition no_daemon_response :: string where
  "no_daemon_response = ''NoDaemonResponse''"

definition retry_once_on_no_response :: "('s \<Rightarrow> (string, 'a) result \<times> 's) \<Rightarrow> 's \<Rightarrow> (string, 'a) result \<times> 's" where
  "retry_once_on_no_response attempt s = (case attempt s of
      (Inl e, s') \<Rightarrow> if e = no_daemon_response then attempt s' else (Inl e, s')
    | (Inr v, s') \<Rightarrow> (Inr v, s'))"

section \<open>The contract of the nonce-gated takers\<close>

lemma take_if_hit: "fmlookup m k = Some p \<Longrightarrow> P p \<Longrightarrow> take_if P k m = (Some p, fmdrop k m)"
  by (simp add: take_if_def)

lemma take_if_miss: "(\<And>p. fmlookup m k = Some p \<Longrightarrow> \<not> P p) \<Longrightarrow> take_if P k m = (None, m)"
  by (auto simp: take_if_def split: option.splits)

text \<open>A batch of replies delivered one after the other.\<close>

fun replays :: "(string \<Rightarrow> u64 option \<Rightarrow> pending_map \<Rightarrow> pending_request option \<times> pending_map) \<Rightarrow>
    (string \<times> u64 option) list \<Rightarrow> pending_map \<Rightarrow> pending_map" where
  "replays taker [] m = m"
| "replays taker ((k, got) # rs) m = replays taker rs (snd (taker k got m))"

locale nonce_gate =
  fixes taker :: "string \<Rightarrow> u64 option \<Rightarrow> pending_map \<Rightarrow> pending_request option \<times> pending_map"
    and wants :: "pending_request \<Rightarrow> bool"
  assumes hit: "fmlookup m k = Some p \<Longrightarrow> wants p \<Longrightarrow>
      taker k (Some (pr_request_id p)) m = (Some p, fmdrop k m)"
    and miss: "(\<And>p. fmlookup m k = Some p \<Longrightarrow> wants p \<Longrightarrow> got \<noteq> Some (pr_request_id p)) \<Longrightarrow>
      taker k got m = (None, m)"
begin

lemma cases_taker:
  obtains (Hit) p where "fmlookup m k = Some p" "wants p" "got = Some (pr_request_id p)"
      "taker k got m = (Some p, fmdrop k m)"
    | (Miss) "taker k got m = (None, m)"
proof (cases "\<exists>p. fmlookup m k = Some p \<and> wants p \<and> got = Some (pr_request_id p)")
  case True
  then obtain p where "fmlookup m k = Some p" "wants p" "got = Some (pr_request_id p)" by blast
  then show ?thesis using hit by (intro Hit) auto
next
  case False
  then show ?thesis by (intro Miss miss) blast
qed

lemma echoes_nonce:
  "fst (taker k got m) = Some p \<Longrightarrow> fmlookup m k = Some p \<and> wants p \<and> got = Some (pr_request_id p)"
  by (cases rule: cases_taker [of m k got]) auto

lemma no_nonce_no_take: "taker k None m = (None, m)"
  by (rule miss) simp

lemma frame: "k' \<noteq> k \<Longrightarrow> fmlookup (snd (taker k got m)) k' = fmlookup m k'"
  by (cases rule: cases_taker [of m k got]) auto

lemma consumed_once: "fst (taker k got m) = Some p \<Longrightarrow> taker k got' (snd (taker k got m)) = (None, fmdrop k m)"
  by (cases rule: cases_taker [of m k got]) (auto intro: miss)

lemma replays_keep:
  assumes "fmlookup m k = Some p" and "(k, Some (pr_request_id p)) \<notin> set rs"
  shows "fmlookup (replays taker rs m) k = Some p"
  using assms
proof (induction rs arbitrary: m)
  case Nil
  then show ?case by simp
next
  case (Cons r rs)
  obtain k' got where r: "r = (k', got)" by (cases r)
  have "fmlookup (snd (taker k' got m)) k = Some p"
  proof (cases rule: cases_taker [of m k' got])
    case (Hit q)
    with Cons.prems r show ?thesis by (cases "k' = k") auto
  next
    case Miss
    with Cons.prems show ?thesis by simp
  qed
  with Cons r show ?case by simp
qed

lemma genuine_after_replays:
  assumes "fmlookup m k = Some p" and "wants p" and "(k, Some (pr_request_id p)) \<notin> set rs"
  shows "fst (taker k (Some (pr_request_id p)) (replays taker rs m)) = Some p"
  using hit [OF replays_keep [OF assms(1,3)] assms(2)] by simp

end

interpretation any_request: nonce_gate take_matching_request "\<lambda>_. True"
  by unfold_locales (auto simp: take_matching_request_def request_id_matches_def split: option.splits)

interpretation takes: nonce_gate take_matching_take "\<lambda>p. pr_kind p = KTake"
  by unfold_locales (auto simp: take_matching_take_def take_if_def request_id_matches_def split: option.splits)

interpretation add_invoices: nonce_gate take_matching_add_invoice "\<lambda>p. pr_kind p = KAddInvoice"
  by unfold_locales (auto simp: take_matching_add_invoice_def take_if_def request_id_matches_def split: option.splits)

interpretation claim_submits: nonce_gate take_matching_claim_submit "\<lambda>p. pr_kind p = KBondClaimSubmit"
  by unfold_locales (auto simp: take_matching_claim_submit_def take_if_def request_id_matches_def split: option.splits)

section \<open>The registry as a whole\<close>

text \<open>
  One step of the registry is any call of this module, or a caller's own insert of its record (a
  create, a take, a restore, the invoice of a claim); \<open>registry_run\<close> is a history.
\<close>

datatype registry_op =
    OpTakeRequest string "u64 option"
  | OpTakeTake string "u64 option"
  | OpTakeAddInvoice string "u64 option"
  | OpTakeClaim string "u64 option"
  | OpTakeRestore string i64
  | OpTakeDispute string "u64 option"
  | OpDetach string u64
  | OpRemove string u64
  | OpPurge string
  | OpClaimCreateBond string "u64 option"
  | OpRegisterAddInvoice "waiter set" waiter string u64 u32
  | OpRegisterDispute waiter string u64 u32
  | OpRollBack string u64
  | OpInsert string pending_request

fun registry_step :: "registry_op \<Rightarrow> pending_map \<Rightarrow> pending_map" where
  "registry_step (OpTakeRequest k got) m = snd (take_matching_request k got m)"
| "registry_step (OpTakeTake k got) m = snd (take_matching_take k got m)"
| "registry_step (OpTakeAddInvoice k got) m = snd (take_matching_add_invoice k got m)"
| "registry_step (OpTakeClaim k got) m = snd (take_matching_claim_submit k got m)"
| "registry_step (OpTakeRestore k ts) m = snd (take_matching_restore k ts m)"
| "registry_step (OpTakeDispute k got) m = snd (take_matching_dispute k got m)"
| "registry_step (OpDetach k i) m = detach_request_waiter k i m"
| "registry_step (OpRemove k i) m = remove_pending_request k i m"
| "registry_step (OpPurge k) m = purge_detached_pending_request k m"
| "registry_step (OpClaimCreateBond k got) m = snd (claim_create_bond k got m)"
| "registry_step (OpRegisterAddInvoice d w k i t) m = snd (register_add_invoice_request d w k i t m)"
| "registry_step (OpRegisterDispute w k i t) m = snd (register_dispute_request w k i t m)"
| "registry_step (OpRollBack k i) m = roll_back_dispute_request k i m"
| "registry_step (OpInsert k p) m = fmupd k p m"

definition registry_run :: "registry_op list \<Rightarrow> pending_map \<Rightarrow> pending_map" where
  "registry_run ops m = fold registry_step ops m"

text \<open>
  An operation is foreign to the record \<open>p\<close> of key \<open>k\<close> when it carries another key or
  another nonce; for a dispute the nonces it superseded are its own too. Inserting or re-registering
  a key and the restore taker carry no nonce of a reply, so they are foreign only on another key,
  except that an add-invoice submission on the key of a live add-invoice is refused, and the restore
  taker never wants a record of another kind.
\<close>

fun foreign :: "string \<Rightarrow> pending_request \<Rightarrow> registry_op \<Rightarrow> bool" where
  "foreign k p (OpTakeRequest k' got) \<longleftrightarrow> k' \<noteq> k \<or> got \<noteq> Some (pr_request_id p)"
| "foreign k p (OpTakeTake k' got) \<longleftrightarrow> k' \<noteq> k \<or> got \<noteq> Some (pr_request_id p)"
| "foreign k p (OpTakeAddInvoice k' got) \<longleftrightarrow> k' \<noteq> k \<or> got \<noteq> Some (pr_request_id p)"
| "foreign k p (OpTakeClaim k' got) \<longleftrightarrow> k' \<noteq> k \<or> got \<noteq> Some (pr_request_id p)"
| "foreign k p (OpTakeRestore k' ts) \<longleftrightarrow> k' \<noteq> k \<or> (\<forall>sent_at. pr_kind p \<noteq> KRestore sent_at)"
| "foreign k p (OpTakeDispute k' got) \<longleftrightarrow> k' \<noteq> k \<or> (case pr_kind p of
     KDispute old \<Rightarrow> got \<noteq> Some (pr_request_id p) \<and> (case got of Some n \<Rightarrow> n \<notin> set old | None \<Rightarrow> True)
   | _ \<Rightarrow> True)"
| "foreign k p (OpDetach k' i) \<longleftrightarrow> k' \<noteq> k \<or> i \<noteq> pr_request_id p"
| "foreign k p (OpRemove k' i) \<longleftrightarrow> k' \<noteq> k \<or> i \<noteq> pr_request_id p"
| "foreign k p (OpPurge k') \<longleftrightarrow> k' \<noteq> k \<or> pr_tx p \<noteq> None"
| "foreign k p (OpClaimCreateBond k' got) \<longleftrightarrow> k' \<noteq> k \<or> got \<noteq> Some (pr_request_id p)"
| "foreign k p (OpRegisterAddInvoice dropped w k' i t) \<longleftrightarrow>
     k' \<noteq> k \<or> (pr_kind p = KAddInvoice \<and> (\<exists>tx. pr_tx p = Some tx \<and> tx \<notin> dropped))"
| "foreign k p (OpRegisterDispute w k' i t) \<longleftrightarrow> k' \<noteq> k"
| "foreign k p (OpRollBack k' i) \<longleftrightarrow> k' \<noteq> k \<or> i \<noteq> pr_request_id p"
| "foreign k p (OpInsert k' q) \<longleftrightarrow> k' \<noteq> k"

lemma registry_step_foreign:
  assumes "fmlookup m k = Some p" and "foreign k p op"
  shows "fmlookup (registry_step op m) k = Some p"
proof (cases op)
  case (OpTakeRequest k' got)
  then show ?thesis using assms by (auto simp: take_matching_request_def request_id_matches_def split: option.splits)
next
  case (OpTakeTake k' got)
  then show ?thesis using assms
    by (auto simp: take_matching_take_def take_if_def request_id_matches_def split: option.splits)
next
  case (OpTakeAddInvoice k' got)
  then show ?thesis using assms
    by (auto simp: take_matching_add_invoice_def take_if_def request_id_matches_def split: option.splits)
next
  case (OpTakeClaim k' got)
  then show ?thesis using assms
    by (auto simp: take_matching_claim_submit_def take_if_def request_id_matches_def split: option.splits)
next
  case (OpTakeRestore k' ts)
  then show ?thesis using assms
    by (auto simp: take_matching_restore_def take_if_def split: option.splits pending_kind.splits)
next
  case (OpTakeDispute k' got)
  then show ?thesis using assms
    by (auto simp: take_matching_dispute_def request_id_matches_def split: option.splits pending_kind.splits)
next
  case (OpDetach k' i)
  then show ?thesis using assms by (auto simp: detach_request_waiter_def split: option.splits)
next
  case (OpRemove k' i)
  then show ?thesis using assms by (auto simp: remove_pending_request_def split: option.splits)
next
  case (OpPurge k')
  then show ?thesis using assms by (auto simp: purge_detached_pending_request_def split: option.splits)
next
  case (OpClaimCreateBond k' got)
  then show ?thesis using assms
    by (auto simp: claim_create_bond_def request_id_matches_def split: option.splits pending_kind.splits)
next
  case (OpRegisterAddInvoice d w k' i t)
  then show ?thesis using assms
    by (auto simp: register_add_invoice_request_def Let_def split: option.splits)
next
  case (OpRegisterDispute w k' i t)
  then show ?thesis using assms by (auto simp: register_dispute_request_def Let_def)
next
  case (OpRollBack k' i)
  then show ?thesis using assms
    by (auto simp: roll_back_dispute_request_def split: option.splits pending_kind.splits)
next
  case (OpInsert k' q)
  then show ?thesis using assms by auto
qed

lemma registry_run_foreign:
  "fmlookup m k = Some p \<Longrightarrow> \<forall>op \<in> set ops. foreign k p op \<Longrightarrow> fmlookup (registry_run ops m) k = Some p"
  unfolding registry_run_def
  by (induction ops arbitrary: m) (auto intro: registry_step_foreign)

section \<open>Outstanding attempts of a dispute\<close>

definition outstanding :: "string \<Rightarrow> pending_map \<Rightarrow> u64 set" where
  "outstanding k m = (case fmlookup m k of
      Some p \<Rightarrow> (case pr_kind p of KDispute old \<Rightarrow> insert (pr_request_id p) (set old) | _ \<Rightarrow> {})
    | None \<Rightarrow> {})"

lemma outstanding_register:
  "outstanding k (snd (register_dispute_request w k i t m)) = insert i (outstanding k m)"
  by (auto simp: outstanding_def register_dispute_request_def Let_def split: option.splits pending_kind.splits)

lemma outstanding_detach: "outstanding k (detach_request_waiter k' i m) = outstanding k m"
  by (auto simp: outstanding_def detach_request_waiter_def split: option.splits pending_kind.splits)

lemma take_dispute_answers_iff:
  "fst (take_matching_dispute k got m) \<noteq> None \<longleftrightarrow> (\<exists>n. got = Some n \<and> n \<in> outstanding k m)"
  by (auto simp: outstanding_def take_matching_dispute_def request_id_matches_def
      split: option.splits pending_kind.splits)

text \<open>
  The timed-out attempts of one key: each is registered, then its waiter is detached.
\<close>

fun timed_out_attempts :: "string \<Rightarrow> u32 \<Rightarrow> (waiter \<times> u64) list \<Rightarrow> pending_map \<Rightarrow> pending_map" where
  "timed_out_attempts k t [] m = m"
| "timed_out_attempts k t ((w, i) # as) m =
     timed_out_attempts k t as (detach_request_waiter k i (snd (register_dispute_request w k i t m)))"

lemma outstanding_timed_out:
  "outstanding k (timed_out_attempts k t as m) = set (map snd as) \<union> outstanding k m"
  by (induction k t as m rule: timed_out_attempts.induct)
     (auto simp: outstanding_detach outstanding_register)


text \<open>What the record of the key looks like after the attempts, and what answering one leaves.\<close>

lemma timed_out_record:
  assumes "as \<noteq> []"
  shows "\<exists>old. fmlookup (timed_out_attempts k t as m) k =
           Some \<lparr>pr_request_id = snd (last as), pr_trade_index = t, pr_kind = KDispute old, pr_tx = None\<rparr> \<and>
         old = (case fmlookup m k of
            Some p \<Rightarrow> (case pr_kind p of KDispute o1 \<Rightarrow> o1 @ [pr_request_id p] | _ \<Rightarrow> [])
          | None \<Rightarrow> []) @ butlast (map snd as)"
  using assms
proof (induction k t as m rule: timed_out_attempts.induct)
  case (1 k t m)
  then show ?case by simp
next
  case (2 k t w i as m)
  let ?m = "detach_request_waiter k i (snd (register_dispute_request w k i t m))"
  have look: "fmlookup ?m k = Some \<lparr>pr_request_id = i, pr_trade_index = t, pr_kind = KDispute
       (case fmlookup m k of
            Some p \<Rightarrow> (case pr_kind p of KDispute o1 \<Rightarrow> o1 @ [pr_request_id p] | _ \<Rightarrow> [])
          | None \<Rightarrow> []), pr_tx = None\<rparr>"
    by (simp add: detach_request_waiter_def register_dispute_request_def Let_def)
  show ?case
  proof (cases "as = []")
    case True
    then show ?thesis using look by simp
  next
    case False
    then show ?thesis using "2.IH" [OF False] look by simp
  qed
qed

lemma timed_out_answer_superseded:
  assumes "outstanding k m = {}" and "distinct (map snd as)"
    and "as \<noteq> []" and "n \<in> set (map snd as)" and "n \<noteq> snd (last as)"
  shows "outstanding k (snd (take_matching_dispute k (Some n) (timed_out_attempts k t as m)))
           = set (map snd as) - {n}"
proof -
  let ?m = "timed_out_attempts k t as m"
  have base: "(case fmlookup m k of
            Some p \<Rightarrow> (case pr_kind p of KDispute o1 \<Rightarrow> o1 @ [pr_request_id p] | _ \<Rightarrow> [])
          | None \<Rightarrow> []) = []"
    using assms(1) by (auto simp: outstanding_def split: option.splits pending_kind.splits)
  have look: "fmlookup ?m k = Some \<lparr>pr_request_id = snd (last as), pr_trade_index = t,
      pr_kind = KDispute (butlast (map snd as)), pr_tx = None\<rparr>"
    using timed_out_record [OF assms(3), of k t m] base by auto
  obtain bs x where as: "as = bs @ [x]" using assms(3) by (meson rev_exhaust)
  have ms: "set (map snd as) = insert (snd (last as)) (set (butlast (map snd as)))"
    and n: "n \<in> set (butlast (map snd as))"
    and d: "distinct (butlast (map snd as))"
    using assms(2,4,5) by (auto simp: as map_butlast butlast_append)
  have "outstanding k (snd (take_matching_dispute k (Some n) ?m))
      = insert (snd (last as)) (set (butlast (map snd as)) - {n})"
    using look n d by (simp add: take_matching_dispute_def outstanding_def set_remove1_eq)
  also have "\<dots> = insert (snd (last as)) (set (butlast (map snd as))) - {n}"
    using assms(5) by auto
  also have "insert (snd (last as)) (set (butlast (map snd as))) = set (map snd as)"
    by (simp add: ms del: set_map)
  finally show ?thesis .
qed

section \<open>Properties\<close>

lemma classify_take_reply_bond_iff:
  "classify_take_reply a pl = TakeAccepted a' st amt hi (Some b) \<Longrightarrow>
     a = A_PayBondInvoice \<and> st = Some WaitingTakerBond \<and> amt = None \<and> hi = None"
  by (auto simp: classify_take_reply_def Let_def split: if_splits option.splits core_payload.splits)

text \<open>
  C32: no history of the registry that is foreign to a live request (stale replays with another
  nonce or none, replies for other keys, other attempts' time-outs, rollbacks and purges, and
  a second add-invoice submission) removes or alters its record, so the genuine reply that
  finally echoes the nonce still resolves it.
\<close>

theorem genuine_reply_survives_history:
  assumes "fmlookup m k = Some p" and "\<forall>op \<in> set ops. foreign k p op"
  shows "take_matching_request k (Some (pr_request_id p)) (registry_run ops m)
           = (Some p, fmdrop k (registry_run ops m))"
  by (rule any_request.hit) (use assms registry_run_foreign in auto)

theorem genuine_reply_survives_history_witness:
  "take_matching_request ''key'' (Some 7)
     (registry_run
        [OpTakeRequest ''key'' None, OpTakeTake ''key'' (Some 8), OpPurge ''key'', OpDetach ''key'' 9]
        (fmupd ''key'' \<lparr>pr_request_id = 7, pr_trade_index = 3, pr_kind = KTake, pr_tx = Some 0\<rparr> fmempty))
   = (Some \<lparr>pr_request_id = 7, pr_trade_index = 3, pr_kind = KTake, pr_tx = Some 0\<rparr>,
      fmdrop ''key'' (registry_run
        [OpTakeRequest ''key'' None, OpTakeTake ''key'' (Some 8), OpPurge ''key'', OpDetach ''key'' 9]
        (fmupd ''key'' \<lparr>pr_request_id = 7, pr_trade_index = 3, pr_kind = KTake, pr_tx = Some 0\<rparr> fmempty)))"
  using genuine_reply_survives_history
    [of "fmupd ''key'' \<lparr>pr_request_id = 7, pr_trade_index = 3, pr_kind = KTake, pr_tx = Some 0\<rparr> fmempty"
        "''key''" "\<lparr>pr_request_id = 7, pr_trade_index = 3, pr_kind = KTake, pr_tx = Some 0\<rparr>"
        "[OpTakeRequest ''key'' None, OpTakeTake ''key'' (Some 8), OpPurge ''key'', OpDetach ''key'' 9]"]
  by simp

text \<open>
  a reply resolves at most one request, and only the one whose nonce it echoes: whatever
  taker the dispatcher tries, a returned record was stored under that key with that nonce and
  the kind the taker is for, and the same delivery a second time finds nothing.
\<close>

theorem takers_consume_once:
  assumes "taker = take_matching_request \<and> kinds = UNIV \<or>
           taker = take_matching_take \<and> kinds = {KTake} \<or>
           taker = take_matching_add_invoice \<and> kinds = {KAddInvoice} \<or>
           taker = take_matching_claim_submit \<and> kinds = {KBondClaimSubmit}"
    and "taker k got m = (Some p, m')"
  shows "fmlookup m k = Some p \<and> got = Some (pr_request_id p) \<and> pr_kind p \<in> kinds \<and>
         m' = fmdrop k m \<and> taker k got' m' = (None, m')"
proof -
  have *: "fmlookup m k = Some p \<and> wants p \<and> got = Some (pr_request_id p) \<and> m' = fmdrop k m \<and>
      taker k got' m' = (None, m')" if "nonce_gate taker wants" for wants
    using nonce_gate.echoes_nonce [OF that, of k got m p]
      nonce_gate.consumed_once [OF that, of k got m p got']
      nonce_gate.hit [OF that, of m k p] assms(2) by auto
  from assms(1) show ?thesis
    using * [of "\<lambda>_. True"] * [of "\<lambda>p. pr_kind p = KTake"] * [of "\<lambda>p. pr_kind p = KAddInvoice"]
      * [of "\<lambda>p. pr_kind p = KBondClaimSubmit"]
      any_request.nonce_gate_axioms takes.nonce_gate_axioms add_invoices.nonce_gate_axioms
      claim_submits.nonce_gate_axioms
    by auto
qed

theorem takers_consume_once_witness:
  "let m = fmupd ''k'' \<lparr>pr_request_id = 5, pr_trade_index = 1, pr_kind = KTake, pr_tx = None\<rparr> fmempty
   in take_matching_take ''k'' (Some 5) (fmdrop ''k'' m) = (None, fmdrop ''k'' m)"
  unfolding Let_def
  using takers_consume_once [of take_matching_take "{KTake}" "''k''" "Some 5"
      "fmupd ''k'' \<lparr>pr_request_id = 5, pr_trade_index = 1, pr_kind = KTake, pr_tx = None\<rparr> fmempty"
      "\<lparr>pr_request_id = 5, pr_trade_index = 1, pr_kind = KTake, pr_tx = None\<rparr>"
      "fmdrop ''k'' (fmupd ''k'' \<lparr>pr_request_id = 5, pr_trade_index = 1, pr_kind = KTake, pr_tx = None\<rparr> fmempty)"
      "Some 5"]
  by (simp add: take_matching_take_def take_if_def request_id_matches_def)

text \<open>
  retrying a dispute never loses an attempt: after any number of timed-out attempts on one
  key, the late acceptance of each of them is still recognised, an acceptance that no attempt
  sent is not, and answering a superseded attempt leaves every other one outstanding.
\<close>

theorem dispute_attempts_stay_answerable:
  fixes k t as m
  defines "m' \<equiv> timed_out_attempts k t as m"
  assumes "outstanding k m = {}" and "distinct (map snd as)"
  shows "(fst (take_matching_dispute k (Some n) m') \<noteq> None \<longleftrightarrow> n \<in> set (map snd as)) \<and>
         (as \<noteq> [] \<and> n \<in> set (map snd as) \<and> n \<noteq> snd (last as) \<longrightarrow>
            outstanding k (snd (take_matching_dispute k (Some n) m')) = set (map snd as) - {n})"
proof -
  have out: "outstanding k m' = set (map snd as)"
    using assms by (simp add: outstanding_timed_out)
  then have iff: "fst (take_matching_dispute k (Some n) m') \<noteq> None \<longleftrightarrow> n \<in> set (map snd as)"
    by (subst take_dispute_answers_iff) auto
  show ?thesis using iff timed_out_answer_superseded [OF assms(2,3), of n t]
    by (auto simp: m'_def)
qed

theorem dispute_attempts_stay_answerable_witness:
  "outstanding ''k'' (snd (take_matching_dispute ''k'' (Some 4)
      (timed_out_attempts ''k'' 2 [(0, 4), (1, 9)] fmempty))) = {9}"
  using dispute_attempts_stay_answerable [of "''k''" fmempty "[(0, 4), (1, 9)]" 4 2]
  by (auto simp: outstanding_def)

text \<open>
  a dispute attempt that could not be published is taken back: rolling it back leaves the
  earlier attempts exactly as they stood, except that the newest of them no longer has a
  waiter (its caller is gone), and when there was none the key is free again.
\<close>

theorem dispute_rollback_restores:
  "fmlookup (roll_back_dispute_request k i (snd (register_dispute_request w k i t m))) k' =
     (if k' = k
      then (case fmlookup m k of
              Some p \<Rightarrow> (case pr_kind p of
                  KDispute old \<Rightarrow> Some (p\<lparr>pr_trade_index := t, pr_tx := None\<rparr>) | _ \<Rightarrow> None)
            | None \<Rightarrow> None)
      else fmlookup m k')"
  by (auto simp: roll_back_dispute_request_def register_dispute_request_def Let_def
      split: option.splits pending_kind.splits)

text \<open>
  the maker's bond does not consume the create: after the bond request was claimed, a
  redelivery of it finds the record but no waiter, the record still answers the order's final
  confirmation under its nonce, and the time-out of the (already answered) call removes it only
  through the purge.
\<close>

theorem create_bond_claimed_once:
  assumes "claim_create_bond k got m = (Some c, m')"
  shows "claim_create_bond k got m' = (Some (c\<lparr>cbc_tx := None\<rparr>), m') \<and>
         pending_local_uuid_for k m' = Some (cbc_local_uuid c) \<and>
         fst (take_matching_request k got m') =
           Some \<lparr>pr_request_id = the got, pr_trade_index = cbc_trade_index c,
                  pr_kind = KCreate (cbc_local_uuid c) True, pr_tx = None\<rparr> \<and>
         (\<forall>i. detach_request_waiter k i m' = m') \<and>
         fmlookup (purge_detached_pending_request k m') k = None"
proof -
  obtain p u b where p: "fmlookup m k = Some p" "got = Some (pr_request_id p)"
      "pr_kind p = KCreate u b"
    and c: "c = \<lparr>cbc_tx = pr_tx p, cbc_trade_index = pr_trade_index p, cbc_local_uuid = u\<rparr>"
    and m': "m' = fmupd k (p\<lparr>pr_kind := KCreate u True, pr_tx := None\<rparr>) m"
    using assms by (auto simp: claim_create_bond_def request_id_matches_def
        split: option.splits if_splits pending_kind.splits)
  have idem: "fmupd k x (fmupd k x m) = fmupd k x m" for x
    by (rule fmap_ext) simp
  show ?thesis
    unfolding m' c using p
    by (cases p) (simp add: claim_create_bond_def request_id_matches_def pending_local_uuid_for_def
        take_matching_request_def detach_request_waiter_def purge_detached_pending_request_def idem)
qed

theorem create_bond_claimed_once_witness:
  "pending_local_uuid_for ''k'' (fmupd ''k'' \<lparr>pr_request_id = 3, pr_trade_index = 1,
      pr_kind = KCreate ''u'' True, pr_tx = None\<rparr>
      (fmupd ''k'' \<lparr>pr_request_id = 3, pr_trade_index = 1, pr_kind = KCreate ''u'' False, pr_tx = Some 0\<rparr> fmempty))
   = Some ''u''"
  using create_bond_claimed_once [of "''k''" "Some 3"
      "fmupd ''k'' \<lparr>pr_request_id = 3, pr_trade_index = 1, pr_kind = KCreate ''u'' False, pr_tx = Some 0\<rparr> fmempty"
      "\<lparr>cbc_tx = Some 0, cbc_trade_index = 1, cbc_local_uuid = ''u''\<rparr>"
      "fmupd ''k'' \<lparr>pr_request_id = 3, pr_trade_index = 1, pr_kind = KCreate ''u'' True, pr_tx = None\<rparr>
      (fmupd ''k'' \<lparr>pr_request_id = 3, pr_trade_index = 1, pr_kind = KCreate ''u'' False, pr_tx = Some 0\<rparr> fmempty)"]
  by (simp add: claim_create_bond_def request_id_matches_def)

end
