(* ===== verification/Identity_Keys.thy ===== *)
theory Identity_Keys
  imports Prelude
begin

text \<open>
  \<open>rust/src/api/identity.rs\<close> and \<open>rust/src/crypto/keys.rs\<close>: the loaded identity, its durable
  row, and the trade-key counter.

  The BIP-39 and BIP-32 crates are not in the repository; a value of type \<open>key_lib\<close> holds
  the calls the code makes into them, and every operation that derives a key takes it as its
  argument. The lock-guarded global, the row of the store and the broadcast channel are the
  fields of \<open>identity_env\<close>. An argument \<open>save\<close> (or \<open>read\<close>) of type \<open>string option\<close> is the
  error the store answers with, \<open>None\<close> when the call succeeds. The native build is modelled,
  where a missing store refuses a derivation.
\<close>

section \<open>Key derivation\<close>

record ('seed, 'x, 'k) key_lib =
  kl_parse :: "string \<Rightarrow> (string, 'seed) result"            \<comment> \<open>\<open>Mnemonic::parse\<close>, \<open>to_seed\<close>\<close>
  kl_derive_path :: "'seed \<Rightarrow> string \<Rightarrow> (string, 'x) result" \<comment> \<open>\<open>XPrv::derive_from_path\<close>\<close>
  kl_derive_child :: "'x \<Rightarrow> u32 \<Rightarrow> (string, 'x) result"      \<comment> \<open>\<open>derive_child\<close>, non-hardened\<close>
  kl_secret :: "'x \<Rightarrow> (string, 'k) result"                  \<comment> \<open>\<open>SecretKey::from_slice\<close>, \<open>Keys::new\<close>\<close>
  kl_pubkey_hex :: "'k \<Rightarrow> string"

definition map_err :: "('e \<Rightarrow> 'f) \<Rightarrow> ('e, 'a) result \<Rightarrow> ('f, 'a) result" where
  "map_err f r = (case r of Inl e \<Rightarrow> Inl (f e) | Inr v \<Rightarrow> Inr v)"

definition and_then :: "('e, 'a) result \<Rightarrow> ('a \<Rightarrow> ('e, 'b) result) \<Rightarrow> ('e, 'b) result" where
  "and_then r f = (case r of Inl e \<Rightarrow> Inl e | Inr v \<Rightarrow> f v)"

text \<open>\<open>Iterator::collect\<close> into a \<open>Result<Vec<_>>\<close>: the first error wins.\<close>

fun collect_results :: "('e, 'a) result list \<Rightarrow> ('e, 'a list) result" where
  "collect_results [] = Inr []"
| "collect_results (r # rs) = and_then r (\<lambda>v. and_then (collect_results rs) (\<lambda>vs. Inr (v # vs)))"

lemma map_err_simps [simp]: "map_err f (Inl e) = Inl (f e)" "map_err f (Inr v) = Inr v"
  by (simp_all add: map_err_def)

lemma and_then_simps [simp]: "and_then (Inl e) g = Inl e" "and_then (Inr v) g = g v"
  by (simp_all add: and_then_def)

lemma map_err_Inr_iff [simp]: "map_err f r = Inr v \<longleftrightarrow> r = Inr v"
  by (cases r) auto

lemma and_then_Inr_iff: "and_then r g = Inr w \<longleftrightarrow> (\<exists>v. r = Inr v \<and> g v = Inr w)"
  by (cases r) auto

lemma collect_results_Inr_iff:
  "collect_results rs = Inr vs \<longleftrightarrow> rs = map Inr vs"
  by (induction rs arbitrary: vs) (auto simp: and_then_Inr_iff)

lemma map_Inr_no_Inl: "x \<in> set xs \<Longrightarrow> g x = Inl e \<Longrightarrow> map g xs \<noteq> map Inr ks"
  by (metis Inl_Inr_False image_iff list.set_map)

lemma map_Inr_cong:
  "(\<And>x k. x \<in> set xs \<Longrightarrow> f x = Inr k \<longleftrightarrow> g x = Inr k) \<Longrightarrow> map f xs = map Inr ks \<longleftrightarrow> map g xs = map Inr ks"
proof (induction xs arbitrary: ks)
  case (Cons x xs)
  then show ?case by (cases ks) auto
qed simp

definition derivation_prefix :: string where
  "derivation_prefix = ''m/44'' @ [CHR 0x27] @ ''/1237'' @ [CHR 0x27] @ ''/38383'' @ [CHR 0x27] @ ''/0''"

fun join_words :: "string list \<Rightarrow> string" where
  "join_words [] = ''''"
| "join_words [w] = w"
| "join_words (w # ws) = w @ '' '' @ join_words ws"

definition derive_bip39_seed :: "('seed, 'x, 'k) key_lib \<Rightarrow> string list \<Rightarrow> (string, 'seed) result" where
  "derive_bip39_seed lib words =
     map_err (\<lambda>e. ''invalid mnemonic: '' @ e) (kl_parse lib (join_words words))"

definition keys_from_xprv :: "('seed, 'x, 'k) key_lib \<Rightarrow> 'x \<Rightarrow> (string, 'k) result" where
  "keys_from_xprv lib x = map_err (\<lambda>e. ''invalid secret key: '' @ e) (kl_secret lib x)"

definition derive_at_index :: "('seed, 'x, 'k) key_lib \<Rightarrow> string list \<Rightarrow> u32 \<Rightarrow> (string, 'k) result" where
  "derive_at_index lib words index =
     and_then (derive_bip39_seed lib words) (\<lambda>seed.
     and_then (map_err (\<lambda>e. ''BIP-32 derive error: '' @ e)
        (kl_derive_path lib seed (derivation_prefix @ ''/'' @ u32_to_string index))) (\<lambda>x.
     keys_from_xprv lib x))"

definition derive_master_key :: "('seed, 'x, 'k) key_lib \<Rightarrow> string list \<Rightarrow> (string, 'k) result" where
  "derive_master_key lib words = derive_at_index lib words 0"

definition key_ops_derive_trade_key ::
  "('seed, 'x, 'k) key_lib \<Rightarrow> string list \<Rightarrow> u32 \<Rightarrow> (string, 'k) result" where
  "key_ops_derive_trade_key lib words index =
     (if index = 0
      then Inl ''index 0 is reserved for the identity key; use derive_master_key''
      else derive_at_index lib words index)"

definition derive_trade_keys ::
  "('seed, 'x, 'k) key_lib \<Rightarrow> string list \<Rightarrow> u32 \<Rightarrow> (string, 'k list) result" where
  "derive_trade_keys lib words up_to =
     and_then (derive_bip39_seed lib words) (\<lambda>seed.
     and_then (map_err (\<lambda>e. ''BIP-32 derive error: '' @ e) (kl_derive_path lib seed derivation_prefix)) (\<lambda>parent.
     collect_results (map (\<lambda>i. let index = of_nat i in
         and_then (map_err (\<lambda>e. ''BIP-32 derive error at index '' @ u32_to_string index @ '': '' @ e)
            (kl_derive_child lib parent index)) (\<lambda>child.
         keys_from_xprv lib child))
       [1 ..< Suc (unat up_to)])))"

text \<open>The em dash of two of the error messages, as the UTF-8 bytes of the source.\<close>

definition em_dash :: string where
  "em_dash = [CHR 0xE2, CHR 0x80, CHR 0x94]"

section \<open>The loaded identity\<close>

record identity_info =
  ii_public_key :: string
  ii_display_name :: "string option"
  ii_privacy_mode :: bool
  ii_trade_key_index :: u32
  ii_created_at :: i64

record 'k identity_state =
  is_mnemonic_words :: "string list"
  is_keys :: 'k
  is_info :: identity_info

text \<open>
  \<open>ie_db\<close> is \<open>None\<close> when the database was never opened, else its identity row;
  \<open>ie_trade_key_rows\<close> is the table of keys per order, which only the deletion touches here;
  \<open>ie_published\<close> is the broadcast channel, newest last.
\<close>

record 'k identity_env =
  ie_state :: "'k identity_state option"
  ie_db :: "identity_info option option"
  ie_trade_key_rows :: "(string, u32) fmap"
  ie_published :: "u32 list"

record trade_key_info =
  tki_index :: u32
  tki_public_key :: string

record identity_creation_result =
  icr_public_key :: string
  icr_mnemonic_words :: "string list"

definition publish_index :: "u32 \<Rightarrow> 'k identity_env \<Rightarrow> 'k identity_env" where
  "publish_index i env = env\<lparr>ie_published := ie_published env @ [i]\<rparr>"

definition fresh_info :: "string \<Rightarrow> bool \<Rightarrow> u32 \<Rightarrow> i64 \<Rightarrow> identity_info" where
  "fresh_info pk privacy index created_at = \<lparr>ii_public_key = pk, ii_display_name = None,
     ii_privacy_mode = privacy, ii_trade_key_index = index, ii_created_at = created_at\<rparr>"

text \<open>\<open>generated\<close> is what the mnemonic generator answered.\<close>

definition create_identity ::
  "('seed, 'x, 'k) key_lib \<Rightarrow> (string, string list) result \<Rightarrow> i64 \<Rightarrow> 'k identity_env
     \<Rightarrow> (string, identity_creation_result) result \<times> 'k identity_env" where
  "create_identity lib generated now env =
     (if ie_state env \<noteq> None then (Inl ''AlreadyExists'', env)
      else case generated of
          Inl e \<Rightarrow> (Inl (''mnemonic generation: '' @ e), env)
        | Inr words \<Rightarrow> (case derive_master_key lib words of
            Inl e \<Rightarrow> (Inl e, env)
          | Inr keys \<Rightarrow>
              let pk = kl_pubkey_hex lib keys in
              (Inr \<lparr>icr_public_key = pk, icr_mnemonic_words = words\<rparr>,
               env\<lparr>ie_state := Some \<lparr>is_mnemonic_words = words, is_keys = keys,
                  is_info = fresh_info pk False 0 now\<rparr>\<rparr>)))"

definition reconcile_trade_key_index :: "u32 \<Rightarrow> identity_info option \<Rightarrow> string \<Rightarrow> u32" where
  "reconcile_trade_key_index passed stored public_key = (case stored of
      Some info \<Rightarrow> if ii_public_key info = public_key then max passed (ii_trade_key_index info) else passed
    | None \<Rightarrow> passed)"

definition reconcile_and_publish_to ::
  "u32 \<Rightarrow> identity_info option \<Rightarrow> string \<Rightarrow> 'k identity_env \<Rightarrow> u32 \<times> 'k identity_env" where
  "reconcile_and_publish_to passed stored public_key env =
     (let reconciled = reconcile_trade_key_index passed stored public_key in
      (reconciled, if reconciled > passed then publish_index reconciled env else env))"

definition load_identity_from_mnemonic ::
  "('seed, 'x, 'k) key_lib \<Rightarrow> string option \<Rightarrow> string list \<Rightarrow> u32 \<Rightarrow> bool \<Rightarrow> i64 option \<Rightarrow> i64
     \<Rightarrow> 'k identity_env \<Rightarrow> (string, identity_info) result \<times> 'k identity_env" where
  "load_identity_from_mnemonic lib read words passed privacy_mode created_at now env =
     (case derive_master_key lib words of
        Inl e \<Rightarrow> (Inl e, env)
      | Inr keys \<Rightarrow>
          let public_key = kl_pubkey_hex lib keys;
              stored = (case ie_db env of
                  Some row \<Rightarrow> (case read of None \<Rightarrow> row | Some _ \<Rightarrow> None)
                | None \<Rightarrow> None);
              (index, env1) = reconcile_and_publish_to passed stored public_key env;
              created = (case created_at of Some ts \<Rightarrow> if ts > 0 then ts else now | None \<Rightarrow> now);
              info = fresh_info public_key privacy_mode index created
          in (Inr info, env1\<lparr>ie_state := Some \<lparr>is_mnemonic_words = words, is_keys = keys, is_info = info\<rparr>\<rparr>))"

text \<open>\<open>restore\<close> is the session recovery of \<open>orders.rs\<close> as a state transformer.\<close>

definition import_from_mnemonic ::
  "('seed, 'x, 'k) key_lib \<Rightarrow> string option \<Rightarrow> ('k identity_env \<Rightarrow> (string, unit) result \<times> 'k identity_env)
     \<Rightarrow> string list \<Rightarrow> bool \<Rightarrow> bool \<Rightarrow> i64 \<Rightarrow> 'k identity_env
     \<Rightarrow> (string, identity_info) result \<times> 'k identity_env" where
  "import_from_mnemonic lib read restore words recover privacy_mode now env =
     (if recover \<and> privacy_mode then (Inl ''PrivacyModeRecoveryUnavailable'', env)
      else case load_identity_from_mnemonic lib read words 0 privacy_mode None now env of
          (Inl e, env1) \<Rightarrow> (Inl e, env1)
        | (Inr info, env1) \<Rightarrow>
            if recover
            then (case restore env1 of (Inl e, env2) \<Rightarrow> (Inl e, env2) | (Inr _, env2) \<Rightarrow> (Inr info, env2))
            else (Inr info, env1))"

text \<open>\<open>parsed\<close> is what \<open>Keys::parse\<close> made of the nsec.\<close>

definition import_from_nsec ::
  "('seed, 'x, 'k) key_lib \<Rightarrow> (string, 'k) result \<Rightarrow> i64 \<Rightarrow> 'k identity_env
     \<Rightarrow> (string, identity_info) result \<times> 'k identity_env" where
  "import_from_nsec lib parsed now env = (case parsed of
      Inl e \<Rightarrow> (Inl (''InvalidKey: '' @ e), env)
    | Inr keys \<Rightarrow>
        let info = fresh_info (kl_pubkey_hex lib keys) False 0 now in
        (Inr info, env\<lparr>ie_state := Some \<lparr>is_mnemonic_words = [], is_keys = keys, is_info = info\<rparr>\<rparr>))"

definition get_identity :: "'k identity_env \<Rightarrow> identity_info option" where
  "get_identity env = map_option is_info (ie_state env)"

definition current_bip39_seed :: "('seed, 'x, 'k) key_lib \<Rightarrow> 'k identity_env \<Rightarrow> (string, 'seed) result" where
  "current_bip39_seed lib env = (case ie_state env of
      None \<Rightarrow> Inl ''NoIdentity''
    | Some st \<Rightarrow>
        if is_mnemonic_words st = [] then Inl ''CashuNoMnemonic''
        else map_err (\<lambda>_. ''CashuSeedUnavailable'') (derive_bip39_seed lib (is_mnemonic_words st)))"

text \<open>
  Deletion: the in-memory state goes first; each of the two clean-ups of the store may fail
  on its own, which only logs.
\<close>

definition delete_identity ::
  "string option \<Rightarrow> string option \<Rightarrow> 'k identity_env \<Rightarrow> (string, unit) result \<times> 'k identity_env" where
  "delete_identity row_err keys_err env =
     (if ie_state env = None then (Inl ''NoIdentity'', env)
      else (Inr (), env\<lparr>ie_state := None,
          ie_db := (case ie_db env of Some row \<Rightarrow> Some (if row_err = None then None else row) | None \<Rightarrow> None),
          ie_trade_key_rows := (if ie_db env \<noteq> None \<and> keys_err = None then fmempty else ie_trade_key_rows env)\<rparr>))"

section \<open>The trade-key counter\<close>

definition require_durable_storage :: "'k identity_env \<Rightarrow> (string, unit) result" where
  "require_durable_storage env =
     (if ie_db env = None
      then Inl ''StorageUnavailable: deriving a trade key requires durable storage''
      else Inr ())"

definition with_index :: "u32 \<Rightarrow> 'k identity_state \<Rightarrow> 'k identity_state" where
  "with_index i st = st\<lparr>is_info := (is_info st)\<lparr>ii_trade_key_index := i\<rparr>\<rparr>"

definition derive_trade_key_with ::
  "('seed, 'x, 'k) key_lib \<Rightarrow> string option \<Rightarrow> 'k identity_env
     \<Rightarrow> (string, trade_key_info) result \<times> 'k identity_env" where
  "derive_trade_key_with lib save env = (case ie_state env of
      None \<Rightarrow> (Inl ''NoIdentity'', env)
    | Some st \<Rightarrow>
        let candidate = ii_trade_key_index (is_info st) + 1 in
        (case key_ops_derive_trade_key lib (is_mnemonic_words st) candidate of
            Inl e \<Rightarrow> (Inl e, env)
          | Inr keys \<Rightarrow>
              let st' = with_index candidate st;
                  env1 = env\<lparr>ie_state := Some st'\<rparr>;
                  answer = Inr \<lparr>tki_index = candidate, tki_public_key = kl_pubkey_hex lib keys\<rparr>
              in (case ie_db env of
                  None \<Rightarrow> (answer, publish_index candidate env1)
                | Some _ \<Rightarrow> (case save of
                      Some e \<Rightarrow> (Inl (''StorageError: failed to persist trade_key_index '' @
                                 u32_to_string candidate @ '': '' @ e), env1)
                    | None \<Rightarrow> (answer, publish_index candidate (env1\<lparr>ie_db := Some (Some (is_info st'))\<rparr>))))))"

definition derive_trade_key ::
  "('seed, 'x, 'k) key_lib \<Rightarrow> string option \<Rightarrow> 'k identity_env
     \<Rightarrow> (string, trade_key_info) result \<times> 'k identity_env" where
  "derive_trade_key lib save env = (case require_durable_storage env of
      Inl e \<Rightarrow> (Inl e, env)
    | Inr _ \<Rightarrow> derive_trade_key_with lib save env)"

definition ensure_trade_key_index_at_least_with ::
  "string option \<Rightarrow> u32 \<Rightarrow> 'k identity_env \<Rightarrow> (string, unit) result \<times> 'k identity_env" where
  "ensure_trade_key_index_at_least_with save floor_index env = (case ie_state env of
      None \<Rightarrow> (Inl ''NoIdentity'', env)
    | Some st \<Rightarrow>
        let current = ii_trade_key_index (is_info st);
            raised = max current floor_index
        in if raised = current then (Inr (), env)
           else let st' = with_index raised st; env1 = env\<lparr>ie_state := Some st'\<rparr> in
             (case ie_db env of
                 None \<Rightarrow> (Inr (), publish_index raised env1)
               | Some _ \<Rightarrow> (case save of
                     Some e \<Rightarrow> (Inl (''StorageError: failed to persist resynced trade_key_index '' @
                                 u32_to_string raised @ '': '' @ e),
                                env1\<lparr>ie_state := Some (with_index current st')\<rparr>)
                   | None \<Rightarrow> (Inr (), publish_index raised (env1\<lparr>ie_db := Some (Some (is_info st'))\<rparr>)))))"

definition ensure_trade_key_index_at_least ::
  "string option \<Rightarrow> u32 \<Rightarrow> 'k identity_env \<Rightarrow> (string, unit) result \<times> 'k identity_env" where
  "ensure_trade_key_index_at_least save floor_index env = (case require_durable_storage env of
      Inl e \<Rightarrow> (Inl e, env)
    | Inr _ \<Rightarrow> ensure_trade_key_index_at_least_with save floor_index env)"

definition get_trade_key ::
  "('seed, 'x, 'k) key_lib \<Rightarrow> u32 \<Rightarrow> 'k identity_env \<Rightarrow> (string, trade_key_info) result" where
  "get_trade_key lib index env = (case ie_state env of
      None \<Rightarrow> Inl ''NoIdentity''
    | Some st \<Rightarrow>
        if index = 0 then Inr \<lparr>tki_index = 0, tki_public_key = kl_pubkey_hex lib (is_keys st)\<rparr>
        else if is_mnemonic_words st = []
        then Inl ''InvalidIndex: trade key derivation requires a mnemonic (nsec imports unsupported)''
        else if index > ii_trade_key_index (is_info st)
        then Inl (''InvalidIndex: '' @ u32_to_string index @ '' exceeds current trade_key_index '' @
                  u32_to_string (ii_trade_key_index (is_info st)))
        else and_then (key_ops_derive_trade_key lib (is_mnemonic_words st) index)
               (\<lambda>keys. Inr \<lparr>tki_index = index, tki_public_key = kl_pubkey_hex lib keys\<rparr>))"

definition get_active_keys :: "'k identity_env \<Rightarrow> (string, 'k) result" where
  "get_active_keys env = (case ie_state env of None \<Rightarrow> Inl ''NoIdentity'' | Some st \<Rightarrow> Inr (is_keys st))"

definition get_active_trade_keys ::
  "('seed, 'x, 'k) key_lib \<Rightarrow> u32 \<Rightarrow> 'k identity_env \<Rightarrow> (string, 'k) result" where
  "get_active_trade_keys lib index env = (case ie_state env of
      None \<Rightarrow> Inl ''NoIdentity''
    | Some st \<Rightarrow>
        if index = 0 then Inr (is_keys st)
        else if is_mnemonic_words st = []
        then Inl (''InvalidIndex: nsec import '' @ em_dash @ '' no mnemonic for trade key derivation'')
        else key_ops_derive_trade_key lib (is_mnemonic_words st) index)"

definition get_active_trade_keys_up_to ::
  "('seed, 'x, 'k) key_lib \<Rightarrow> u32 \<Rightarrow> 'k identity_env \<Rightarrow> (string, 'k list) result" where
  "get_active_trade_keys_up_to lib up_to env = (case ie_state env of
      None \<Rightarrow> Inl ''NoIdentity''
    | Some st \<Rightarrow>
        if up_to = 0 then Inr []
        else if is_mnemonic_words st = []
        then Inl (''InvalidIndex: nsec import '' @ em_dash @ '' no mnemonic for trade key derivation'')
        else derive_trade_keys lib (is_mnemonic_words st) up_to)"

definition get_transport_identity_keys :: "bool \<Rightarrow> 'k \<Rightarrow> 'k identity_env \<Rightarrow> (string, 'k) result" where
  "get_transport_identity_keys privacy_mode trade_keys env =
     (if privacy_mode then Inr trade_keys else get_active_keys env)"

section \<open>Histories of the counter\<close>

text \<open>
  What happens to the counter while one mnemonic is in use: derivations and raises, each with
  the answer of the store, and restarts, which lose the memory and reload the identity with
  the index Flutter kept.
\<close>

datatype id_op =
    Derive "string option"
  | Raise u32 "string option"
  | Restart u32 "string option" "i64 option" i64

text \<open>The history's state is the environment and the indexes handed out so far, oldest first.\<close>

fun id_step :: "('seed, 'x, 'k) key_lib \<Rightarrow> string list \<Rightarrow> bool \<Rightarrow> id_op
    \<Rightarrow> 'k identity_env \<times> u32 list \<Rightarrow> 'k identity_env \<times> u32 list" where
  "id_step lib words pm (Derive save) (env, out) = (case derive_trade_key lib save env of
      (Inr t, env') \<Rightarrow> (env', out @ [tki_index t])
    | (Inl _, env') \<Rightarrow> (env', out))"
| "id_step lib words pm (Raise i save) (env, out) = (snd (ensure_trade_key_index_at_least save i env), out)"
| "id_step lib words pm (Restart passed read created now) (env, out) =
     (snd (load_identity_from_mnemonic lib read words passed pm created now (env\<lparr>ie_state := None\<rparr>)), out)"

definition id_run :: "('seed, 'x, 'k) key_lib \<Rightarrow> string list \<Rightarrow> bool \<Rightarrow> id_op list
    \<Rightarrow> 'k identity_env \<times> u32 list \<Rightarrow> 'k identity_env \<times> u32 list" where
  "id_run lib words pm ops s = fold (id_step lib words pm) ops s"

text \<open>
  A restart is safe when the row can be read or the mirror has kept up with what was handed
  out; \<open>restarts_safe\<close> asks that of every restart of a history.
\<close>

fun restarts_safe :: "('seed, 'x, 'k) key_lib \<Rightarrow> string list \<Rightarrow> bool \<Rightarrow> id_op list
    \<Rightarrow> 'k identity_env \<times> u32 list \<Rightarrow> bool" where
  "restarts_safe lib words pm [] s \<longleftrightarrow> True"
| "restarts_safe lib words pm (op # ops) s \<longleftrightarrow>
     (case op of Restart passed read _ _ \<Rightarrow> read = None \<or> (\<forall>i \<in> set (snd s). i \<le> passed) | _ \<Rightarrow> True) \<and>
     restarts_safe lib words pm ops (id_step lib words pm op s)"

definition counter_covers :: "string list \<Rightarrow> string \<Rightarrow> 'k identity_env \<times> u32 list \<Rightarrow> bool" where
  "counter_covers words pk s \<longleftrightarrow>
     (\<exists>st. ie_state (fst s) = Some st \<and> is_mnemonic_words st = words \<and> ii_public_key (is_info st) = pk \<and>
        (\<forall>i \<in> set (snd s). i \<le> ii_trade_key_index (is_info st))) \<and>
     (\<exists>row. ie_db (fst s) = Some row \<and>
        (snd s \<noteq> [] \<longrightarrow> (\<exists>info. row = Some info \<and> ii_public_key info = pk \<and>
           (\<forall>i \<in> set (snd s). i \<le> ii_trade_key_index info)))) \<and>
     sorted_wrt (<) (snd s) \<and> 0 \<notin> set (snd s)"

lemma with_index_simps [simp]:
  "is_mnemonic_words (with_index i st) = is_mnemonic_words st"
  "is_keys (with_index i st) = is_keys st"
  "ii_trade_key_index (is_info (with_index i st)) = i"
  "ii_public_key (is_info (with_index i st)) = ii_public_key (is_info st)"
  "with_index (ii_trade_key_index (is_info st)) st = st"
  "with_index j (with_index i st) = with_index j st"
  by (simp_all add: with_index_def)

lemma publish_index_simps [simp]:
  "ie_state (publish_index i env) = ie_state env"
  "ie_db (publish_index i env) = ie_db env"
  "ie_published (publish_index i env) = ie_published env @ [i]"
  by (simp_all add: publish_index_def)

lemma succ_gt: "(i :: u32) + 1 \<noteq> 0 \<Longrightarrow> i < i + 1"
  by uint_arith

lemma derive_trade_key_cases:
  obtains (Refused) e where "derive_trade_key lib save env = (Inl e, env)"
    | (Unsaved) e st i where "ie_state env = Some st" "ie_db env \<noteq> None"
        "i = ii_trade_key_index (is_info st) + 1" "i \<noteq> 0"
        "derive_trade_key lib save env = (Inl e, env\<lparr>ie_state := Some (with_index i st)\<rparr>)"
    | (Handed) t st i keys where "ie_state env = Some st" "ie_db env \<noteq> None"
        "i = ii_trade_key_index (is_info st) + 1" "i \<noteq> 0"
        "key_ops_derive_trade_key lib (is_mnemonic_words st) i = Inr keys"
        "t = \<lparr>tki_index = i, tki_public_key = kl_pubkey_hex lib keys\<rparr>"
        "derive_trade_key lib save env = (Inr t, publish_index i
           (env\<lparr>ie_state := Some (with_index i st), ie_db := Some (Some (is_info (with_index i st)))\<rparr>))"
proof (cases "ie_db env = None \<or> ie_state env = None")
  case True
  then show ?thesis
    by (cases "ie_db env") (auto intro: Refused simp: derive_trade_key_def derive_trade_key_with_def
        require_durable_storage_def)
next
  case False
  then obtain row st where db: "ie_db env = Some row" and st: "ie_state env = Some st" by auto
  let ?i = "ii_trade_key_index (is_info st) + 1"
  have unfold: "derive_trade_key lib save env = derive_trade_key_with lib save env"
    by (simp add: derive_trade_key_def require_durable_storage_def db)
  show ?thesis
  proof (cases "key_ops_derive_trade_key lib (is_mnemonic_words st) ?i")
    case (Inl e)
    then show ?thesis by (intro Refused [of e]) (simp add: unfold derive_trade_key_with_def st)
  next
    case (Inr keys)
    then have nz: "?i \<noteq> 0" by (auto simp: key_ops_derive_trade_key_def split: if_splits)
    show ?thesis
    proof (cases save)
      case (Some e)
      have "derive_trade_key lib save env = (Inl (''StorageError: failed to persist trade_key_index '' @
          u32_to_string ?i @ '': '' @ e), env\<lparr>ie_state := Some (with_index ?i st)\<rparr>)"
        unfolding unfold by (simp add: derive_trade_key_with_def Let_def st db Inr Some)
      then show ?thesis using st db nz by (intro Unsaved) auto
    next
      case None
      have "derive_trade_key lib save env = (Inr \<lparr>tki_index = ?i, tki_public_key = kl_pubkey_hex lib keys\<rparr>,
          publish_index ?i (env\<lparr>ie_state := Some (with_index ?i st),
            ie_db := Some (Some (is_info (with_index ?i st)))\<rparr>))"
        unfolding unfold by (simp add: derive_trade_key_with_def Let_def st db Inr None)
      then show ?thesis using st db nz Inr by (intro Handed) auto
    qed
  qed
qed

lemma ensure_cases:
  obtains (Same) r where "ensure_trade_key_index_at_least save i env = (r, env)"
      "r = Inr () \<Longrightarrow> \<exists>st. ie_state env = Some st \<and> i \<le> ii_trade_key_index (is_info st)"
    | (Raised) st where "ie_state env = Some st" "ie_db env \<noteq> None" "ii_trade_key_index (is_info st) < i"
        "ensure_trade_key_index_at_least save i env = (Inr (), publish_index i
           (env\<lparr>ie_state := Some (with_index i st), ie_db := Some (Some (is_info (with_index i st)))\<rparr>))"
proof (cases "ie_db env = None \<or> ie_state env = None")
  case True
  then show ?thesis
    by (cases "ie_db env") (auto intro: Same [of "Inl _"] simp: ensure_trade_key_index_at_least_def
        ensure_trade_key_index_at_least_with_def require_durable_storage_def)
next
  case False
  then obtain row st where db: "ie_db env = Some row" and st: "ie_state env = Some st" by auto
  let ?c = "ii_trade_key_index (is_info st)"
  have unfold: "ensure_trade_key_index_at_least save i env = ensure_trade_key_index_at_least_with save i env"
    by (simp add: ensure_trade_key_index_at_least_def require_durable_storage_def db)
  consider (le) "i \<le> ?c" | (err) e where "?c < i" "save = Some e" | (ok) "?c < i" "save = None"
    by (meson not_le option.exhaust)
  then show ?thesis
  proof cases
    case le
    then show ?thesis using st
      by (intro Same) (auto simp: unfold ensure_trade_key_index_at_least_with_def max_def)
  next
    case err
    then have "max ?c i = i" "i \<noteq> ?c" by auto
    moreover have "env\<lparr>ie_state := Some st\<rparr> = env" using st by (cases env) simp
    ultimately have "ensure_trade_key_index_at_least save i env =
        (Inl (''StorageError: failed to persist resynced trade_key_index '' @ u32_to_string i @ '': '' @ e), env)"
      unfolding unfold using err st db by (simp add: ensure_trade_key_index_at_least_with_def Let_def)
    then show ?thesis by (intro Same) auto
  next
    case ok
    then have "max ?c i = i" "i \<noteq> ?c" by auto
    then have "ensure_trade_key_index_at_least save i env = (Inr (), publish_index i
        (env\<lparr>ie_state := Some (with_index i st), ie_db := Some (Some (is_info (with_index i st)))\<rparr>))"
      unfolding unfold using ok st db by (simp add: ensure_trade_key_index_at_least_with_def Let_def)
    then show ?thesis using ok st db by (intro Raised [of st]) auto
  qed
qed

lemma counter_covers_derive:
  assumes "counter_covers words pk (env, out)"
  shows "counter_covers words pk (id_step lib words pm (Derive save) (env, out))"
proof (cases rule: derive_trade_key_cases [of lib save env])
  case (Refused e)
  then show ?thesis using assms by simp
next
  case (Unsaved e st i)
  then have "ii_trade_key_index (is_info st) < i" by (simp add: succ_gt)
  then show ?thesis using assms Unsaved by (auto simp: counter_covers_def intro: order.trans less_imp_le)
next
  case (Handed t st i keys)
  then have lt: "ii_trade_key_index (is_info st) < i" by (simp add: succ_gt)
  have "\<forall>j \<in> set out. j < i" using assms Handed lt by (auto simp: counter_covers_def)
  then show ?thesis using assms Handed
    by (auto simp: counter_covers_def sorted_wrt_append intro: less_imp_le)
qed

lemma counter_covers_raise:
  assumes "counter_covers words pk (env, out)"
  shows "counter_covers words pk (id_step lib words pm (Raise i save) (env, out))"
proof (cases rule: ensure_cases [of save i env])
  case (Same r)
  then show ?thesis using assms by simp
next
  case (Raised st)
  then show ?thesis using assms by (auto simp: counter_covers_def)
qed

lemma counter_covers_restart:
  assumes "counter_covers words pk (env, out)"
    and "derive_master_key lib words = Inr keys" and "kl_pubkey_hex lib keys = pk"
    and "read = None \<or> (\<forall>i \<in> set out. i \<le> passed)"
  shows "counter_covers words pk (id_step lib words pm (Restart passed read created now) (env, out))"
  using assms
  by (auto simp: counter_covers_def load_identity_from_mnemonic_def reconcile_and_publish_to_def
      reconcile_trade_key_index_def fresh_info_def Let_def max_def split: option.splits
      intro: order.trans)

lemma counter_covers_run:
  assumes "derive_master_key lib words = Inr keys" and "kl_pubkey_hex lib keys = pk"
  shows "counter_covers words pk s \<Longrightarrow> restarts_safe lib words pm ops s \<Longrightarrow>
     counter_covers words pk (id_run lib words pm ops s)"
proof (induction ops arbitrary: s)
  case Nil
  then show ?case by (simp add: id_run_def)
next
  case (Cons op ops)
  obtain env out where s: "s = (env, out)" by (cases s)
  have "counter_covers words pk (id_step lib words pm op s)"
    using Cons.prems unfolding s
    by (cases op) (auto intro: counter_covers_derive counter_covers_raise
        counter_covers_restart [OF _ assms] simp del: id_step.simps)
  then show ?case using Cons by (simp add: id_run_def)
qed

section \<open>Properties\<close>

text \<open>
  C31: a trade-key index is handed out at most once in the life of a mnemonic: over every
  history of derivations, raises and restarts (each persist and each read of the row free to
  fail), as long as no restart finds both the row unreadable and the mirror behind, the indexes
  handed out are strictly increasing and none is 0, the identity key's. The wrap of the counter
  at \<open>u32::MAX\<close> is included: the derivation refuses index 0.
\<close>

theorem trade_indices_never_reused:
  assumes "load_identity_from_mnemonic lib read words passed pm created now env = (Inr info, env0)"
    and "ie_db env \<noteq> None"
    and "restarts_safe lib words pm ops (env0, [])"
  shows "sorted_wrt (<) (snd (id_run lib words pm ops (env0, []))) \<and>
         0 \<notin> set (snd (id_run lib words pm ops (env0, [])))"
proof -
  obtain keys where keys: "derive_master_key lib words = Inr keys"
    using assms(1) by (auto simp: load_identity_from_mnemonic_def split: sum.splits)
  have "counter_covers words (kl_pubkey_hex lib keys) (env0, [])"
    using assms(1,2) keys
    by (auto simp: load_identity_from_mnemonic_def reconcile_and_publish_to_def fresh_info_def Let_def
        counter_covers_def split: if_splits)
  from counter_covers_run [OF keys refl this assms(3)]
  show ?thesis by (simp add: counter_covers_def)
qed

definition sample_lib :: "(string, string, string) key_lib" where
  "sample_lib = \<lparr>kl_parse = Inr, kl_derive_path = (\<lambda>seed path. Inr (seed @ path)),
     kl_derive_child = (\<lambda>x i. Inr (x @ ''/'' @ u32_to_string i)), kl_secret = Inr, kl_pubkey_hex = id\<rparr>"

lemma sample_lib_simps [simp]:
  "kl_parse sample_lib = Inr" "kl_derive_path sample_lib seed path = Inr (seed @ path)"
  "kl_derive_child sample_lib x i = Inr (x @ ''/'' @ u32_to_string i)"
  "kl_secret sample_lib = Inr" "kl_pubkey_hex sample_lib = id"
  by (simp_all add: sample_lib_def)

lemma digit_chars [simp]:
  "char_of (48 :: nat) = CHR ''0''" "char_of (49 :: nat) = CHR ''1''" "char_of (50 :: nat) = CHR ''2''"
  "char_of (51 :: nat) = CHR ''3''" "char_of (52 :: nat) = CHR ''4''"
  by code_simp+

lemma u32_to_string_digit: "unat w < 10 \<Longrightarrow> u32_to_string w = [char_of (48 + unat w)]"
  by (simp add: u32_to_string_def nat_digits.simps)

definition sample_env :: "string identity_env" where
  "sample_env = snd (load_identity_from_mnemonic sample_lib None [''a''] 3 False None 1000
     \<lparr>ie_state = None, ie_db = Some None, ie_trade_key_rows = fmempty, ie_published = []\<rparr>)"

theorem trade_indices_never_reused_witness:
  "sorted_wrt (<) (snd (id_run sample_lib [''a''] False
     [Derive None, Derive (Some ''disk''), Derive None, Restart 0 None None 5, Raise 9 None, Derive None]
     (sample_env, [])))"
  using trade_indices_never_reused [of sample_lib None "[''a'']" 3 False None 1000
      "\<lparr>ie_state = None, ie_db = Some None, ie_trade_key_rows = fmempty, ie_published = []\<rparr>"
      "fresh_info (''a'' @ derivation_prefix @ ''/'' @ u32_to_string 0) False 3 1000" sample_env
      "[Derive None, Derive (Some ''disk''), Derive None, Restart 0 None None 5, Raise 9 None, Derive None]"]
  by (simp add: sample_env_def load_identity_from_mnemonic_def derive_master_key_def
      derive_at_index_def derive_bip39_seed_def keys_from_xprv_def reconcile_and_publish_to_def
      reconcile_trade_key_index_def Let_def)

text \<open>
  a successful resync raises the counter to at least the floor, durably, and a failed one
  leaves the identity as it was, so that repeating it writes again instead of finding nothing
  to do.
\<close>

theorem ensure_raises_or_rolls_back:
  assumes "ensure_trade_key_index_at_least save i env = (r, env')"
  shows "(r = Inr () \<longrightarrow> (\<exists>st. ie_state env' = Some st \<and> i \<le> ii_trade_key_index (is_info st) \<and>
             (env' \<noteq> env \<longrightarrow> ie_db env' = Some (Some (is_info st))))) \<and>
         (r \<noteq> Inr () \<longrightarrow> env' = env)"
  using assms by (cases rule: ensure_cases [of save i env]) auto

theorem ensure_raises_or_rolls_back_witness:
  "\<exists>r. ensure_trade_key_index_at_least (Some ''disk'') 9 sample_env = (r, sample_env) \<and> r \<noteq> Inr ()"
  using ensure_raises_or_rolls_back [of "Some ''disk''" 9 sample_env
      "fst (ensure_trade_key_index_at_least (Some ''disk'') 9 sample_env)"
      "snd (ensure_trade_key_index_at_least (Some ''disk'') 9 sample_env)"]
  by (auto simp: prod_eq_iff sample_env_def load_identity_from_mnemonic_def 
      derive_master_key_def derive_at_index_def derive_bip39_seed_def keys_from_xprv_def
      reconcile_and_publish_to_def reconcile_trade_key_index_def Let_def fresh_info_def
      ensure_trade_key_index_at_least_def ensure_trade_key_index_at_least_with_def
      require_durable_storage_def)

text \<open>
  the key just handed out can be re-derived by its index, its index lies above the counter as
  it was, and it is the last index published to the mirror.
\<close>

theorem derived_key_is_retrievable:
  assumes "derive_trade_key lib save env = (Inr t, env')"
    and "ie_state env = Some st" and "is_mnemonic_words st \<noteq> []"
  shows "get_trade_key lib (tki_index t) env' = Inr t \<and>
         ii_trade_key_index (is_info st) < tki_index t \<and>
         last (ie_published env') = tki_index t"
proof (cases rule: derive_trade_key_cases [of lib save env])
  case (Handed t' st' i keys)
  then show ?thesis using assms succ_gt [of "ii_trade_key_index (is_info st)"]
    by (auto simp: get_trade_key_def)
qed (use assms in auto)

theorem derived_key_is_retrievable_witness:
  "get_trade_key sample_lib (tki_index \<lparr>tki_index = 4, tki_public_key = ''a'' @ derivation_prefix @ ''/4''\<rparr>)
     (snd (derive_trade_key sample_lib None sample_env))
   = Inr \<lparr>tki_index = 4, tki_public_key = ''a'' @ derivation_prefix @ ''/4''\<rparr>"
  using derived_key_is_retrievable [of sample_lib None sample_env
      "\<lparr>tki_index = 4, tki_public_key = ''a'' @ derivation_prefix @ ''/4''\<rparr>"
      "snd (derive_trade_key sample_lib None sample_env)" "the (ie_state sample_env)"]
  by (simp add: prod_eq_iff sample_env_def load_identity_from_mnemonic_def 
      derive_master_key_def derive_at_index_def derive_bip39_seed_def keys_from_xprv_def
      reconcile_and_publish_to_def reconcile_trade_key_index_def Let_def fresh_info_def
      derive_trade_key_def derive_trade_key_with_def key_ops_derive_trade_key_def
      require_durable_storage_def u32_to_string_digit)

text \<open>
  deriving the keys \<open>1..=n\<close> in one pass gives the keys the per-index derivation gives,
  on a library whose path derivation is a child step of its parent path (BIP-32), and one pass
  succeeds exactly when every single derivation does.
\<close>

theorem derive_trade_keys_is_per_index:
  assumes "\<And>seed i. kl_derive_path lib seed (derivation_prefix @ ''/'' @ u32_to_string i) = (case kl_derive_path lib seed derivation_prefix of
       Inl e \<Rightarrow> Inl e | Inr x \<Rightarrow> kl_derive_child lib x i)"
    and "0 < n"
  shows "derive_trade_keys lib words n = Inr ks \<longleftrightarrow>
         map (\<lambda>i. key_ops_derive_trade_key lib words (of_nat i)) [1 ..< Suc (unat n)] = map Inr ks"
proof -
  have nz: "(of_nat i :: u32) \<noteq> 0" if "i \<in> set [1 ..< Suc (unat n)]" for i
  proof -
    have "i \<le> unat n" using that by auto
    then have "i < 2 ^ 32" using unsigned_less [of n, where 'a = nat] by simp
    then have "unat (of_nat i :: u32) = i" by (simp add: unat_of_nat take_bit_nat_eq_self)
    then show ?thesis using that by auto
  qed
  have mem: "1 \<in> set [1 ..< Suc (unat n)]" using assms(2) unat_gt_0 [of n] by (simp add: word_gt_0 del: unat_gt_0) linarith
  show ?thesis
  proof (cases "derive_bip39_seed lib words")
    case (Inl e)
    then show ?thesis using map_Inr_no_Inl [OF mem, of _ e ks]
      by (simp add: derive_trade_keys_def key_ops_derive_trade_key_def derive_at_index_def del: upt_Suc)
  next
    case (Inr seed)
    show ?thesis
    proof (cases "kl_derive_path lib seed derivation_prefix")
      case (Inl e)
      then have "key_ops_derive_trade_key lib words (of_nat 1) = Inl (''BIP-32 derive error: '' @ e)"
        using Inr assms(1) by (simp add: key_ops_derive_trade_key_def derive_at_index_def)
      from map_Inr_no_Inl [OF mem, of "\<lambda>i. key_ops_derive_trade_key lib words (of_nat i)", OF this] show ?thesis
        using Inr Inl by (simp add: derive_trade_keys_def)
    next
      case (Inr x)
      have *: "(and_then (map_err (\<lambda>e. ''BIP-32 derive error at index '' @ u32_to_string i @ '': '' @ e)
            (kl_derive_child lib x i)) (\<lambda>child. keys_from_xprv lib child) = Inr k)
         \<longleftrightarrow> (key_ops_derive_trade_key lib words i = Inr k)" if "i \<noteq> 0" for i k
        using that Inr \<open>derive_bip39_seed lib words = Inr seed\<close> assms(1)
        by (simp add: key_ops_derive_trade_key_def derive_at_index_def and_then_Inr_iff)
      show ?thesis
        using Inr \<open>derive_bip39_seed lib words = Inr seed\<close> map_Inr_cong [of "[1 ..< Suc (unat n)]", OF * [OF nz]]
        by (simp add: derive_trade_keys_def collect_results_Inr_iff Let_def del: upt_Suc)
    qed
  qed
qed

theorem derive_trade_keys_is_per_index_witness:
  "map (\<lambda>i. key_ops_derive_trade_key sample_lib [''a''] (of_nat i)) [1 ..< Suc (unat (2 :: u32))]
   = map Inr [''a'' @ derivation_prefix @ ''/1'', ''a'' @ derivation_prefix @ ''/2'']"
  using derive_trade_keys_is_per_index [of sample_lib 2 "[''a'']"
      "[''a'' @ derivation_prefix @ ''/1'', ''a'' @ derivation_prefix @ ''/2'']"]
  by (simp add: derive_trade_keys_def derive_bip39_seed_def keys_from_xprv_def
      key_ops_derive_trade_key_def derive_at_index_def u32_to_string_digit upt_rec)

end
