(* ===== verification/Trade_Index.thy ===== *)
theory Trade_Index
  imports Identity_Keys Pending_Requests
begin

text \<open>
  Recovery from a trade-key counter the daemon has passed: \<open>rust/src/mostro/trade_index.rs\<close>
  and the part of \<open>rust/src/api/orders.rs\<close> that asks the daemon for its counter, bounds what
  the wire carries and raises the local counter (\<open>sanitize_trade_index\<close>,
  \<open>recovered_max_trade_index\<close>, \<open>resync_floor\<close>, \<open>last_trade_index\<close>,
  \<open>resync_trade_key_index\<close>).

  The closures of \<open>retry_after_resync\<close> are state transformers. The reply loop of
  \<open>last_trade_index\<close> runs over the notifications that arrive before its deadline, and what
  the transport makes of an event is an argument.
\<close>

section \<open>One retry after a resync\<close>

definition invalid_trade_index :: string where
  "invalid_trade_index = ''InvalidTradeIndex''"

definition is_invalid_trade_index :: "string \<Rightarrow> bool" where
  "is_invalid_trade_index e \<longleftrightarrow> e = invalid_trade_index"

definition retry_after_resync ::
  "('s \<Rightarrow> (string, 'a) result \<times> 's) \<Rightarrow> ('s \<Rightarrow> (string, u32 option) result \<times> 's) \<Rightarrow> 's
     \<Rightarrow> (string, 'a) result \<times> 's" where
  "retry_after_resync attempt resync s = (case attempt s of
      (Inr v, s1) \<Rightarrow> (Inr v, s1)
    | (Inl e, s1) \<Rightarrow>
        if \<not> is_invalid_trade_index e then (Inl e, s1)
        else (case resync s1 of
            (Inr (Some counter), s2) \<Rightarrow> attempt s2
          | (Inr None, s2) \<Rightarrow> (Inl e, s2)
          | (Inl _, s2) \<Rightarrow> (Inl e, s2)))"

section \<open>Indexes from the wire\<close>

definition sanitize_trade_index :: "i64 \<Rightarrow> u32 option" where
  "sanitize_trade_index i = opt_filter (\<lambda>v. v < u32_max) (u32_of_i64 i)"

fun list_max :: "u32 list \<Rightarrow> u32 option" where
  "list_max [] = None"
| "list_max (v # vs) = (case list_max vs of None \<Rightarrow> Some v | Some w \<Rightarrow> Some (max v w))"

definition recovered_max_trade_index :: "restore_session_info \<Rightarrow> u32 option" where
  "recovered_max_trade_index info =
     list_max (List.map_filter sanitize_trade_index
       (map ro_trade_index (rsi_orders info) @ rsi_dispute_indexes info))"

definition resync_floor :: "u32 option \<Rightarrow> restore_session_info \<Rightarrow> u32 option" where
  "resync_floor daemon_counter info =
     (case (daemon_counter, recovered_max_trade_index info) of
        (Some daemon, Some payload) \<Rightarrow> Some (max daemon payload)
      | (daemon, payload) \<Rightarrow> opt_or daemon payload)"

section \<open>Asking the daemon\<close>

record message_kind =
  mk_action :: core_action
  mk_request_id :: "u64 option"
  mk_trade_index :: "i64 option"

record wire_event =
  we_kind :: nat
  we_pubkey :: string
  we_tags :: "string list list"

datatype notification = NEvent wire_event | NShutdown | NOther

definition private_direct_message :: nat where "private_direct_message = 14"

definition is_matching_last_trade_index_reply :: "message_kind \<Rightarrow> u64 \<Rightarrow> bool" where
  "is_matching_last_trade_index_reply kind request_id \<longleftrightarrow>
     mk_action kind = A_LastTradeIndex \<and> mk_request_id kind = Some request_id"

definition is_matching_cant_do_refusal :: "message_kind \<Rightarrow> u64 \<Rightarrow> bool" where
  "is_matching_cant_do_refusal kind request_id \<longleftrightarrow>
     mk_action kind = A_CantDo \<and> mk_request_id kind = Some request_id"

definition tagged_for :: "string \<Rightarrow> wire_event \<Rightarrow> bool" where
  "tagged_for pk ev \<longleftrightarrow> list_ex (\<lambda>t. nth_opt t 0 = Some ''p'' \<and> nth_opt t 1 = Some pk) (we_tags ev)"

text \<open>
  \<open>unwrap\<close> is \<open>unwrap_mostro_message\<close> with the trade key: an error, nothing, or the
  authenticated sender and the message. The list ends where the deadline passes.
\<close>

fun await_last_trade_index ::
  "(wire_event \<Rightarrow> (string, (string \<times> message_kind) option) result) \<Rightarrow> string \<Rightarrow> string \<Rightarrow> u64
     \<Rightarrow> notification list \<Rightarrow> u32 option" where
  "await_last_trade_index unwrap mostro trade_pk request_id [] = None"
| "await_last_trade_index unwrap mostro trade_pk request_id (NShutdown # ns) = None"
| "await_last_trade_index unwrap mostro trade_pk request_id (NOther # ns) =
     await_last_trade_index unwrap mostro trade_pk request_id ns"
| "await_last_trade_index unwrap mostro trade_pk request_id (NEvent ev # ns) =
     (let continue = await_last_trade_index unwrap mostro trade_pk request_id ns in
      if we_kind ev \<noteq> private_direct_message \<or> we_pubkey ev \<noteq> mostro then continue
      else if \<not> tagged_for trade_pk ev then continue
      else (case unwrap ev of
          Inr (Some (sender, kind)) \<Rightarrow>
            if sender \<noteq> mostro then continue
            else if is_matching_last_trade_index_reply kind request_id
            then Option.bind (mk_trade_index kind) sanitize_trade_index
            else if is_matching_cant_do_refusal kind request_id then None
            else continue
        | Inr None \<Rightarrow> continue
        | Inl _ \<Rightarrow> continue))"

text \<open>What the request meets on its way: the fields answer the fallible calls, in order.\<close>

record lti_world =
  lw_mostro_pubkey :: "(string, string) result"
  lw_privacy_mode :: bool
  lw_request_id :: u64
  lw_build :: "(string, unit) result"
  lw_pool :: "(string, unit) result"
  lw_subscribe :: "(string, unit) result"
  lw_publish :: "(string, unit) result"
  lw_unwrap :: "wire_event \<Rightarrow> (string, (string \<times> message_kind) option) result"
  lw_notifications :: "notification list"

definition last_trade_index ::
  "('seed, 'x, 'k) key_lib \<Rightarrow> lti_world \<Rightarrow> 'k \<Rightarrow> 'k identity_env \<Rightarrow> (string, u32 option) result" where
  "last_trade_index lib w sender_keys env =
     and_then (lw_mostro_pubkey w) (\<lambda>mostro.
     and_then (get_transport_identity_keys (lw_privacy_mode w) sender_keys env) (\<lambda>_.
     and_then (lw_build w) (\<lambda>_.
     and_then (lw_pool w) (\<lambda>_.
     (case lw_subscribe w of
        Inl _ \<Rightarrow> Inr None
      | Inr _ \<Rightarrow> and_then (lw_publish w) (\<lambda>_.
          Inr (await_last_trade_index (lw_unwrap w) mostro (kl_pubkey_hex lib sender_keys)
                 (lw_request_id w) (lw_notifications w))))))))"

definition resync_trade_key_index ::
  "('seed, 'x, 'k) key_lib \<Rightarrow> lti_world \<Rightarrow> string option \<Rightarrow> string option \<Rightarrow> 'k identity_env
     \<Rightarrow> (string, u32 option) result \<times> 'k identity_env" where
  "resync_trade_key_index lib w save1 save2 env = (case derive_trade_key lib save1 env of
      (Inl e, env1) \<Rightarrow> (Inl e, env1)
    | (Inr t, env1) \<Rightarrow> (case get_active_trade_keys lib (tki_index t) env1 of
        Inl e \<Rightarrow> (Inl e, env1)
      | Inr sender_keys \<Rightarrow> (case last_trade_index lib w sender_keys env1 of
          Inl e \<Rightarrow> (Inl e, env1)
        | Inr None \<Rightarrow> (Inr None, env1)
        | Inr (Some counter) \<Rightarrow> (case ensure_trade_key_index_at_least save2 counter env1 of
            (Inl e, env2) \<Rightarrow> (Inl e, env2)
          | (Inr _, env2) \<Rightarrow> (Inr (Some counter), env2)))))"

section \<open>Lemmas\<close>

lemma sanitize_Some: "sanitize_trade_index i = Some v \<Longrightarrow> uint v = i \<and> v < u32_max"
  by (auto simp: sanitize_trade_index_def opt_filter_def u32_of_i64_Some split: option.splits if_splits)

lemma sanitize_Some_iff:
  "sanitize_trade_index i = Some v \<longleftrightarrow> 0 \<le> i \<and> i < 2 ^ 32 - 1 \<and> v = word_of_int i"
proof -
  have "(word_of_int i :: u32) < u32_max \<longleftrightarrow> i < 2 ^ 32 - 1" if "0 \<le> i" "i < 2 ^ 32" for i
    using that by (simp add: word_less_def uint_word_of_int u32_max_def unsigned_minus_1_eq_mask mask_eq_exp_minus_1)
  then show ?thesis
    by (auto simp: sanitize_trade_index_def opt_filter_def u32_of_i64_def)
qed

lemma list_max_None: "list_max vs = None \<longleftrightarrow> vs = []"
  by (cases vs) (auto split: option.splits)

lemma list_max_Some: "list_max vs = Some m \<Longrightarrow> m \<in> set vs \<and> (\<forall>v \<in> set vs. v \<le> m)"
  by (induction vs arbitrary: m) (auto simp: list_max_None max_def split: option.splits if_splits)

lemma mem_map_filter: "v \<in> set (List.map_filter f xs) \<longleftrightarrow> (\<exists>x \<in> set xs. f x = Some v)"
  by (induction xs) (auto simp: List.map_filter_simps split: option.splits)

lemma recovered_max_bound:
  assumes "i \<in> ro_trade_index ` set (rsi_orders info) \<union> set (rsi_dispute_indexes info)"
    and "sanitize_trade_index i = Some v"
  shows "\<exists>m. recovered_max_trade_index info = Some m \<and> v \<le> m \<and> m < u32_max"
proof -
  define vs where "vs = List.map_filter sanitize_trade_index
       (map ro_trade_index (rsi_orders info) @ rsi_dispute_indexes info)"
  have "i \<in> set (map ro_trade_index (rsi_orders info) @ rsi_dispute_indexes info)" using assms(1) by simp
  then have v: "v \<in> set vs" using assms(2) unfolding vs_def mem_map_filter by blast
  then have "list_max vs \<noteq> None" by (auto simp only: list_max_None list.set empty_iff)
  then obtain m where m: "list_max vs = Some m" by blast
  have lm: "m \<in> set vs" "v \<le> m" using list_max_Some [OF m] v by blast+
  obtain x where "sanitize_trade_index x = Some m" using lm(1) unfolding vs_def mem_map_filter by blast
  then have "m < u32_max" using sanitize_Some by blast
  then show ?thesis using lm(2) m unfolding recovered_max_trade_index_def vs_def by blast
qed

lemma await_bounded:
  "await_last_trade_index unwrap mostro pk n ns = Some c \<Longrightarrow> c < u32_max"
  by (induction unwrap mostro pk n ns rule: await_last_trade_index.induct)
     (auto simp: Let_def bind_eq_Some_conv dest: sanitize_Some split: if_splits sum.splits option.splits)

lemma resync_floor_Some:
  assumes "resync_floor counter info = Some f"
  shows "(\<forall>c. counter = Some c \<longrightarrow> c \<le> f) \<and>
    (\<forall>i \<in> ro_trade_index ` set (rsi_orders info) \<union> set (rsi_dispute_indexes info). \<forall>v.
       sanitize_trade_index i = Some v \<longrightarrow> v \<le> f)"
proof (intro conjI ballI allI impI)
  show "c \<le> f" if "counter = Some c" for c
    using assms that by (auto simp: resync_floor_def opt_or_def split: option.splits)
next
  fix i v
  assume i: "i \<in> ro_trade_index ` set (rsi_orders info) \<union> set (rsi_dispute_indexes info)"
    and v: "sanitize_trade_index i = Some v"
  obtain m where m: "recovered_max_trade_index info = Some m" "v \<le> m"
    using recovered_max_bound [OF i v] by blast
  then have "m \<le> f" using assms by (auto simp: resync_floor_def opt_or_def split: option.splits)
  then show "v \<le> f" using m by simp
qed

lemma derive_above:
  assumes "derive_trade_key lib save env = (Inr t, env')" and "ie_state env = Some st"
  shows "ii_trade_key_index (is_info st) < tki_index t"
proof (cases rule: derive_trade_key_cases [of lib save env])
  case (Handed t' st' i keys)
  then have "t = t'" "st' = st" using assms by auto
  then show ?thesis using Handed(3,4,6) succ_gt by simp
qed (use assms(1) in auto)

section \<open>Properties\<close>

text \<open>
  after a restore, no recovered trade's index is handed out again: when the floor computed
  from the daemon's counter and the recovered orders and disputes was applied, the next derived
  index lies above the counter and above every usable index that came back. A restore yields no
  floor only when neither source has a usable index.
\<close>

theorem restore_floor_prevents_reuse:
  assumes "resync_floor counter info = Some f"
    and "ensure_trade_key_index_at_least save1 f env = (Inr (), env1)"
    and "derive_trade_key lib save2 env1 = (Inr t, env2)"
  shows "(\<forall>c. counter = Some c \<longrightarrow> c < tki_index t) \<and>
    (\<forall>i \<in> ro_trade_index ` set (rsi_orders info) \<union> set (rsi_dispute_indexes info).
       0 \<le> i \<and> i < 2 ^ 32 - 1 \<longrightarrow> i < uint (tki_index t))"
proof -
  obtain st where st: "ie_state env1 = Some st" "f \<le> ii_trade_key_index (is_info st)"
    using assms(2) by (cases rule: ensure_cases [of save1 f env]) auto
  then have above: "f < tki_index t" using derive_above [OF assms(3)] by (meson order.strict_trans1)
  have "i < uint (tki_index t)"
    if "i \<in> ro_trade_index ` set (rsi_orders info) \<union> set (rsi_dispute_indexes info)"
      and "0 \<le> i" "i < 2 ^ 32 - 1" for i
  proof -
    have s: "sanitize_trade_index i = Some (word_of_int i)" using that by (simp add: sanitize_Some_iff)
    then have "word_of_int i < tki_index t"
      using resync_floor_Some [OF assms(1)] that(1) above by (metis order.strict_trans1)
    then show ?thesis using sanitize_Some [OF s] by (simp add: word_less_def)
  qed
  then show ?thesis using resync_floor_Some [OF assms(1)] above by (auto intro: order.strict_trans1)
qed

theorem restore_floor_prevents_reuse_witness:
  "5 < (case fst (derive_trade_key sample_lib None (snd (ensure_trade_key_index_at_least None 7 sample_env)))
        of Inr t \<Rightarrow> uint (tki_index t) | Inl _ \<Rightarrow> 0)"
  using restore_floor_prevents_reuse [of "Some 7"
      "\<lparr>rsi_orders = [\<lparr>ro_order_id = ''o'', ro_trade_index = 5, ro_status = ''active''\<rparr>], rsi_disputes = [\<lparr>rd_order_id = ''p'', rd_trade_index = -1\<rparr>]\<rparr>"
      7 None sample_env "snd (ensure_trade_key_index_at_least None 7 sample_env)" sample_lib None
      "\<lparr>tki_index = 8, tki_public_key = ''a'' @ derivation_prefix @ ''/'' @ u32_to_string 8\<rparr>"
      "snd (derive_trade_key sample_lib None (snd (ensure_trade_key_index_at_least None 7 sample_env)))"]
  by (simp add: prod_eq_iff sample_env_def load_identity_from_mnemonic_def
      derive_master_key_def derive_at_index_def derive_bip39_seed_def keys_from_xprv_def
      reconcile_and_publish_to_def reconcile_trade_key_index_def Let_def fresh_info_def with_index_def
      ensure_trade_key_index_at_least_def ensure_trade_key_index_at_least_with_def
      derive_trade_key_def derive_trade_key_with_def key_ops_derive_trade_key_def publish_index_def
      require_durable_storage_def resync_floor_def recovered_max_trade_index_def
      List.map_filter_def sanitize_trade_index_def opt_filter_def u32_of_i64_def opt_or_def)

text \<open>
  One attempt of \<open>create_order\<close> or \<open>take_order\<close> as the daemon sees it: derive a key, send the
  request; a daemon at \<open>d\<close> refuses every index that is not above \<open>d\<close>.
\<close>

definition attempt_at ::
  "u32 \<Rightarrow> ('seed, 'x, 'k) key_lib \<Rightarrow> 'k identity_env \<Rightarrow> (string, u32) result \<times> 'k identity_env" where
  "attempt_at d lib env = (case derive_trade_key lib None env of
      (Inl e, env1) \<Rightarrow> (Inl e, env1)
    | (Inr t, env1) \<Rightarrow>
        (if tki_index t \<le> d then Inl invalid_trade_index else Inr (tki_index t), env1))"

definition derivable :: "('seed, 'x, 'k) key_lib \<Rightarrow> 'k identity_env \<Rightarrow> bool" where
  "derivable lib env \<longleftrightarrow> ie_db env \<noteq> None \<and> (\<exists>st. ie_state env = Some st \<and> is_mnemonic_words st \<noteq> [] \<and>
     (\<forall>i. i \<noteq> 0 \<longrightarrow> (\<exists>k. key_ops_derive_trade_key lib (is_mnemonic_words st) i = Inr k)))"

lemma derivable_step:
  assumes "derivable lib env" and "ie_state env = Some st" and "ii_trade_key_index (is_info st) = c"
    and "c \<noteq> - 1"
  obtains k env' where
    "derive_trade_key lib None env = (Inr \<lparr>tki_index = c + 1, tki_public_key = kl_pubkey_hex lib k\<rparr>, env')"
    "ie_state env' = Some (with_index (c + 1) st)" "derivable lib env'"
    "get_active_trade_keys lib (c + 1) env' = Inr k"
    "key_ops_derive_trade_key lib (is_mnemonic_words st) (c + 1) = Inr k"
proof -
  have nz: "c + 1 \<noteq> 0" using assms(4) by (metis add_eq_0_iff2 minus_equation_iff)
  obtain k where k: "key_ops_derive_trade_key lib (is_mnemonic_words st) (c + 1) = Inr k"
    using assms(1,2) nz by (auto simp: derivable_def)
  have "derive_trade_key lib None env = (Inr \<lparr>tki_index = c + 1, tki_public_key = kl_pubkey_hex lib k\<rparr>,
      publish_index (c + 1) (env\<lparr>ie_state := Some (with_index (c + 1) st),
        ie_db := Some (Some (is_info (with_index (c + 1) st)))\<rparr>))"
    using assms(1-3) k by (auto simp: derivable_def derive_trade_key_def derive_trade_key_with_def
        require_durable_storage_def Let_def)
  then show thesis using assms(1,2) k nz
    by (intro that) (auto simp: derivable_def get_active_trade_keys_def)
qed

lemma ensure_level:
  "ie_db env \<noteq> None \<Longrightarrow> ie_state env = Some st \<Longrightarrow> i \<le> ii_trade_key_index (is_info st) \<Longrightarrow>
     ensure_trade_key_index_at_least save i env = (Inr (), env)"
  by (auto simp: ensure_trade_key_index_at_least_def ensure_trade_key_index_at_least_with_def
      require_durable_storage_def max_absorb1)

lemma ensure_raise:
  assumes "derivable lib env" and "ie_state env = Some st" and "ii_trade_key_index (is_info st) < i"
  shows "\<exists>env'. ensure_trade_key_index_at_least None i env = (Inr (), env') \<and>
     ie_state env' = Some (with_index i st) \<and> derivable lib env'"
proof -
  have m: "max (ii_trade_key_index (is_info st)) i = i" "i \<noteq> ii_trade_key_index (is_info st)"
    using assms(3) by auto
  obtain row where "ie_db env = Some row" using assms(1) by (auto simp: derivable_def)
  then have "ensure_trade_key_index_at_least None i env = (Inr (), publish_index i
      (env\<lparr>ie_state := Some (with_index i st), ie_db := Some (Some (is_info (with_index i st)))\<rparr>))"
    using assms(2) m by (simp add: ensure_trade_key_index_at_least_def
        ensure_trade_key_index_at_least_with_def require_durable_storage_def Let_def)
  then show ?thesis using assms(1,2) by (auto simp: derivable_def)
qed

lemma unat_succ: "(a :: u32) \<noteq> - 1 \<Longrightarrow> unat (a + 1) = unat a + 1"
  by (metis add.commute add_eq_0_iff2 minus_equation_iff plus_1_eq_Suc unatSuc)

lemma stale_room:
  fixes a d :: u32
  assumes "a \<le> d" and "unat d < 2 ^ 32 - 2"
  shows "a \<noteq> - 1" and "max (a + 1) d \<noteq> - 1" and "d < max (a + 1) d + 1"
proof -
  have top: "x \<noteq> - 1" if "unat x < 2 ^ 32 - 1" for x :: u32
    using that by (auto simp: unsigned_minus_1_eq_mask mask_eq_exp_minus_1)
  have le: "unat a \<le> unat d" using assms(1) by (simp add: word_le_nat_alt)
  show a: "a \<noteq> - 1" using le assms(2) by (intro top) linarith
  have mx: "unat (max (a + 1) d) = max (unat a + 1) (unat d)"
    using unat_succ [OF a] by (auto simp: max_def word_le_nat_alt)
  show m: "max (a + 1) d \<noteq> - 1" using le assms(2) mx by (intro top) linarith
  show "d < max (a + 1) d + 1" unfolding word_less_nat_alt unat_succ [OF m] mx by linarith
qed

text \<open>
  one resync is always enough. When the local counter is behind and the daemon answers the
  resync with its own counter \<open>d\<close>, the retried attempt is accepted, whatever the local counter
  was; an attempt that was not stale is not repeated. Only the end of the index space, where the
  counter would wrap, is excluded.
\<close>

theorem one_resync_is_enough:
  assumes "derivable lib env" and "unat d < 2 ^ 32 - 2"
    and "ie_state env = Some st" and "ii_trade_key_index (is_info st) \<noteq> - 1"
    and "\<And>k env'. key_ops_derive_trade_key lib (is_mnemonic_words st) (ii_trade_key_index (is_info st) + 1 + 1) = Inr k
            \<Longrightarrow> ie_state env' \<noteq> None \<Longrightarrow> last_trade_index lib w k env' = Inr (Some d)"
  shows "\<exists>i. fst (retry_after_resync (attempt_at d lib) (resync_trade_key_index lib w None None) env) = Inr i
             \<and> d < i"
proof -
  let ?c = "ii_trade_key_index (is_info st)"
  obtain k env1 where e1: "derive_trade_key lib None env = (Inr \<lparr>tki_index = ?c + 1,
        tki_public_key = kl_pubkey_hex lib k\<rparr>, env1)"
      "ie_state env1 = Some (with_index (?c + 1) st)" "derivable lib env1"
    by (rule derivable_step [OF assms(1,3) refl assms(4)])
  show ?thesis
  proof (cases "?c + 1 \<le> d")
    case False
    then have "attempt_at d lib env = (Inr (?c + 1), env1)" using e1(1) by (simp add: attempt_at_def)
    then show ?thesis using False by (simp add: retry_after_resync_def not_le)
  next
    case stale: True
    note room = stale_room [OF stale assms(2)]
    have c1: "?c + 1 \<noteq> - 1" by (rule room)
    obtain k2 env2 where e2: "derive_trade_key lib None env1 = (Inr \<lparr>tki_index = ?c + 1 + 1,
          tki_public_key = kl_pubkey_hex lib k2\<rparr>, env2)"
        "ie_state env2 = Some (with_index (?c + 1 + 1) (with_index (?c + 1) st))" "derivable lib env2"
        "get_active_trade_keys lib (?c + 1 + 1) env2 = Inr k2"
        "key_ops_derive_trade_key lib (is_mnemonic_words (with_index (?c + 1) st)) (?c + 1 + 1) = Inr k2"
      by (rule derivable_step [OF e1(3,2) with_index_simps(3) c1])
    have st2: "ie_state env2 = Some (with_index (?c + 1 + 1) st)" using e2(2) by (simp only: with_index_simps)
    obtain env3 where e3: "ensure_trade_key_index_at_least None d env2 = (Inr (), env3)"
        "ie_state env3 = Some (with_index (max (?c + 1 + 1) d) st)" "derivable lib env3"
    proof (cases "d \<le> ?c + 1 + 1")
      case True
      have "ensure_trade_key_index_at_least None d env2 = (Inr (), env2)"
        by (rule ensure_level [OF _ st2]) (use e2(3) True in \<open>simp_all only: derivable_def with_index_simps simp_thms\<close>)
      then show ?thesis using st2 e2(3) True by (intro that) (simp_all only: max_absorb1)
    next
      case False
      then have mx: "max (?c + 1 + 1) d = d" and lt: "ii_trade_key_index (is_info (with_index (?c + 1 + 1) st)) < d"
        by (simp_all only: max_def with_index_simps not_le if_True less_imp_le)
      obtain env' where "ensure_trade_key_index_at_least None d env2 = (Inr (), env')"
          "ie_state env' = Some (with_index d (with_index (?c + 1 + 1) st))" "derivable lib env'"
        using ensure_raise [OF e2(3) st2 lt] by (elim exE conjE)
      then show ?thesis by (intro that [of env']) (simp_all only: mx with_index_simps)
    qed
    have asked: "last_trade_index lib w k2 env2 = Inr (Some d)"
      by (rule assms(5)) (use e2(2,5) in \<open>simp_all only: with_index_simps option.simps not_False_eq_True\<close>)
    have m: "max (?c + 1 + 1) d \<noteq> - 1" and gt: "d < max (?c + 1 + 1) d + 1"
      by (rule room)+
    obtain k4 env4 where e4: "derive_trade_key lib None env3 = (Inr \<lparr>tki_index = max (?c + 1 + 1) d + 1,
          tki_public_key = kl_pubkey_hex lib k4\<rparr>, env4)"
      by (rule derivable_step [OF e3(3,2) with_index_simps(3) m])
    have "attempt_at d lib env = (Inl invalid_trade_index, env1)"
      unfolding attempt_at_def e1(1) by (simp add: stale)
    moreover have "resync_trade_key_index lib w None None env1 = (Inr (Some d), env3)"
      unfolding resync_trade_key_index_def e2(1) prod.case sum.case trade_key_info.simps e2(4)
        asked option.case e3(1) ..
    moreover have "attempt_at d lib env3 = (Inr (max (?c + 1 + 1) d + 1), env4)"
      unfolding attempt_at_def e4 using gt by (simp add: not_le)
    ultimately show ?thesis
      using gt by (simp add: retry_after_resync_def is_invalid_trade_index_def)
  qed
qed

definition sample_world :: lti_world where
  "sample_world = \<lparr>lw_mostro_pubkey = Inr ''node'', lw_privacy_mode = False, lw_request_id = 77,
     lw_build = Inr (), lw_pool = Inr (), lw_subscribe = Inr (), lw_publish = Inr (),
     lw_unwrap = (\<lambda>_. Inr (Some (''node'',
        \<lparr>mk_action = A_LastTradeIndex, mk_request_id = Some 77, mk_trade_index = Some 20\<rparr>))),
     lw_notifications = [NOther, NEvent \<lparr>we_kind = 14, we_pubkey = ''node'',
        we_tags = [[''p'', ''a'' @ derivation_prefix @ ''/'' @ u32_to_string 5]]\<rparr>]\<rparr>"

theorem one_resync_is_enough_witness:
  "\<exists>i. fst (retry_after_resync (attempt_at 20 sample_lib)
        (resync_trade_key_index sample_lib sample_world None None) sample_env) = Inr i \<and> 20 < i"
proof (rule one_resync_is_enough)
  show "derivable sample_lib sample_env"
    by (auto simp: derivable_def sample_env_def load_identity_from_mnemonic_def derive_master_key_def
        derive_at_index_def derive_bip39_seed_def keys_from_xprv_def reconcile_and_publish_to_def
        reconcile_trade_key_index_def Let_def key_ops_derive_trade_key_def)
  show st: "ie_state sample_env = Some \<lparr>is_mnemonic_words = [''a''],
      is_keys = ''a'' @ derivation_prefix @ ''/'' @ u32_to_string 0,
      is_info = fresh_info (''a'' @ derivation_prefix @ ''/'' @ u32_to_string 0) False 3 1000\<rparr>"
    by (simp add: sample_env_def load_identity_from_mnemonic_def derive_master_key_def
        derive_at_index_def derive_bip39_seed_def keys_from_xprv_def reconcile_and_publish_to_def
        reconcile_trade_key_index_def Let_def)
qed (auto simp: fresh_info_def last_trade_index_def sample_world_def get_transport_identity_keys_def
    get_active_keys_def key_ops_derive_trade_key_def derive_at_index_def derive_bip39_seed_def
    keys_from_xprv_def private_direct_message_def tagged_for_def nth_opt_def
    is_matching_last_trade_index_reply_def sanitize_Some_iff)

end
