(* ===== verification/Sessions.thy ===== *)
theory Sessions
  imports Api_Types
begin

text \<open>
  \<open>rust/src/mostro/session.rs\<close>: the in-memory store of trade sessions, a map from order id to
  session behind one lock. Every operation is one critical section, so each is one transition
  of the map; the clock is the argument \<open>now\<close>. Keys are 32-byte strings.
\<close>

record session =
  se_order_id :: string
  se_role :: trade_role
  se_trade_key_index :: u32
  se_shared_key :: "u8 list option"
  se_admin_shared_key :: "u8 list option"
  se_peer_pubkey :: "string option"
  se_order :: order_info
  se_created_at :: i64

type_synonym sessions = "(string, session) fmap"

definition mismatch_error :: "string \<Rightarrow> string \<Rightarrow> string" where
  "mismatch_error a b = ''order_id mismatch: param='' @ [CHR 0x27] @ a @ [CHR 0x27] @
     '' vs order.id='' @ [CHR 0x27] @ b @ [CHR 0x27]"

definition new_session :: "string \<Rightarrow> trade_role \<Rightarrow> u32 \<Rightarrow> order_info \<Rightarrow> i64 \<Rightarrow> session" where
  "new_session order_id role index order now = \<lparr>se_order_id = order_id, se_role = role,
     se_trade_key_index = index, se_shared_key = None, se_admin_shared_key = None,
     se_peer_pubkey = None, se_order = order, se_created_at = now\<rparr>"

definition create_session ::
  "string \<Rightarrow> trade_role \<Rightarrow> u32 \<Rightarrow> order_info \<Rightarrow> i64 \<Rightarrow> sessions \<Rightarrow> (string, session) result \<times> sessions" where
  "create_session order_id role index order now m =
     (if order_id \<noteq> oi_id order then (Inl (mismatch_error order_id (oi_id order)), m)
      else let s = new_session order_id role index order now in
        if fmlookup m order_id \<noteq> None then (Inl (''SessionAlreadyExists: '' @ order_id), m)
        else (Inr s, fmupd order_id s m))"

definition create_session_with_peer ::
  "string \<Rightarrow> trade_role \<Rightarrow> u32 \<Rightarrow> order_info \<Rightarrow> string \<Rightarrow> u8 list \<Rightarrow> i64 \<Rightarrow> sessions
     \<Rightarrow> (string, session) result \<times> sessions" where
  "create_session_with_peer order_id role index order peer_pubkey shared_key now m =
     (if order_id \<noteq> oi_id order then (Inl (mismatch_error order_id (oi_id order)), m)
      else let s = (new_session order_id role index order now)
                     \<lparr>se_shared_key := Some shared_key, se_peer_pubkey := Some peer_pubkey\<rparr> in
        if fmlookup m order_id \<noteq> None then (Inl (''SessionAlreadyExists: '' @ order_id), m)
        else (Inr s, fmupd order_id s m))"

definition install_session ::
  "string \<Rightarrow> trade_role \<Rightarrow> u32 \<Rightarrow> order_info \<Rightarrow> i64 \<Rightarrow> sessions \<Rightarrow> (string, session) result \<times> sessions" where
  "install_session order_id role index order now m =
     (if order_id \<noteq> oi_id order then (Inl (mismatch_error order_id (oi_id order)), m)
      else let s = new_session order_id role index order now in
        (case fmlookup m order_id of
            Some existing \<Rightarrow>
              if se_trade_key_index existing = index then (Inr existing, m)
              else (Inr s, fmupd order_id s m)
          | None \<Rightarrow> (Inr s, fmupd order_id s m)))"

definition update_session :: "string \<Rightarrow> session \<Rightarrow> sessions \<Rightarrow> (string, unit) result \<times> sessions" where
  "update_session order_id s m =
     (if se_order_id s \<noteq> order_id
      then (Inl (''SessionOrderIdMismatch: param='' @ [CHR 0x27] @ order_id @ [CHR 0x27] @
                 '' vs session.order_id='' @ [CHR 0x27] @ se_order_id s @ [CHR 0x27]), m)
      else if fmlookup m order_id = None then (Inl ''SessionNotFound'', m)
      else (Inr (), fmupd order_id s m))"

definition get_session :: "string \<Rightarrow> sessions \<Rightarrow> session option" where
  "get_session order_id m = fmlookup m order_id"

definition remove_session :: "string \<Rightarrow> sessions \<Rightarrow> sessions" where
  "remove_session order_id m = fmdrop order_id m"

definition set_admin_shared_key :: "string \<Rightarrow> u8 list \<Rightarrow> sessions \<Rightarrow> (string, unit) result \<times> sessions" where
  "set_admin_shared_key order_id key m = (case fmlookup m order_id of
      None \<Rightarrow> (Inl (''SessionNotFound: '' @ order_id), m)
    | Some s \<Rightarrow> (Inr (), fmupd order_id (s\<lparr>se_admin_shared_key := Some key\<rparr>) m))"

definition cleanup_stale_sessions :: "i64 \<Rightarrow> i64 \<Rightarrow> sessions \<Rightarrow> nat \<times> sessions" where
  "cleanup_stale_sessions timeout_secs now m =
     (let m' = fmretain (\<lambda>_ s. se_shared_key s \<noteq> None \<or> i64_wrap (now - se_created_at s) < timeout_secs) m
      in (fmlen m - fmlen m', m'))"

section \<open>The store's invariant\<close>

text \<open>
  A session is filed under its own order, its snapshot is of that order, and a session that
  knows the peer's shared key knows the peer.
\<close>

definition session_ok :: "string \<Rightarrow> session \<Rightarrow> bool" where
  "session_ok k s \<longleftrightarrow> se_order_id s = k \<and> oi_id (se_order s) = k \<and>
     (se_shared_key s = None \<longleftrightarrow> se_peer_pubkey s = None)"

definition sessions_ok :: "sessions \<Rightarrow> bool" where
  "sessions_ok m \<longleftrightarrow> (\<forall>k s. fmlookup m k = Some s \<longrightarrow> session_ok k s)"

lemma sessions_ok_upd [inv_intros]: "sessions_ok m \<Longrightarrow> session_ok k s \<Longrightarrow> sessions_ok (fmupd k s m)"
  by (auto simp: sessions_ok_def)

lemma sessions_ok_drop [inv_intros]: "sessions_ok m \<Longrightarrow> sessions_ok (fmdrop k m)"
  by (auto simp: sessions_ok_def)

lemma session_ok_new [simp]: "oi_id order = k \<Longrightarrow> session_ok k (new_session k role index order now)"
  by (simp add: session_ok_def new_session_def)

text \<open>The operations as events of a history.\<close>

datatype session_op =
    SCreate string trade_role u32 order_info i64
  | SCreatePeer string trade_role u32 order_info string "u8 list" i64
  | SInstall string trade_role u32 order_info i64
  | SUpdate string session
  | SRemove string
  | SAdmin string "u8 list"
  | SClean i64 i64

fun session_step :: "session_op \<Rightarrow> sessions \<Rightarrow> sessions" where
  "session_step (SCreate k r i ord now) m = snd (create_session k r i ord now m)"
| "session_step (SCreatePeer k r i ord p key now) m = snd (create_session_with_peer k r i ord p key now m)"
| "session_step (SInstall k r i ord now) m = snd (install_session k r i ord now m)"
| "session_step (SUpdate k s) m = snd (update_session k s m)"
| "session_step (SRemove k) m = remove_session k m"
| "session_step (SAdmin k key) m = snd (set_admin_shared_key k key m)"
| "session_step (SClean t now) m = snd (cleanup_stale_sessions t now m)"

text \<open>
  A caller's update replaces the session it read: it keeps the order's snapshot and binds the
  peer and the shared key together.
\<close>

fun update_ok :: "session_op \<Rightarrow> bool" where
  "update_ok (SUpdate k s) \<longleftrightarrow> session_ok (se_order_id s) s"
| "update_ok _ \<longleftrightarrow> True"

lemma sessions_ok_step [inv_intros]:
  "sessions_ok m \<Longrightarrow> update_ok op \<Longrightarrow> sessions_ok (session_step op m)"
  by (cases op)
     (auto simp: create_session_def create_session_with_peer_def install_session_def update_session_def
        remove_session_def set_admin_shared_key_def cleanup_stale_sessions_def Let_def sessions_ok_def
        session_ok_def new_session_def opt_filter_eq_Some split: option.splits if_splits)

lemma sessions_ok_run:
  "sessions_ok m \<Longrightarrow> \<forall>op \<in> set ops. update_ok op \<Longrightarrow> sessions_ok (fold session_step ops m)"
  by (induction ops arbitrary: m) (auto intro: inv_intros)

text \<open>
  The session part of \<open>apply_peer_reveal\<close> (\<open>rust/src/api/orders.rs\<close>) reads the session, or
  creates it, in one critical section and writes it back with the peer in another:
  \<open>reveal_read\<close> and \<open>reveal_write\<close>. \<open>order\<close> is the order found in the trade row or the book.
\<close>

definition reveal_read ::
  "string \<Rightarrow> trade_role \<Rightarrow> u32 \<Rightarrow> order_info option \<Rightarrow> i64 \<Rightarrow> sessions \<Rightarrow> session option \<times> sessions" where
  "reveal_read order_id role index order now m = (case get_session order_id m of
      Some s \<Rightarrow> (Some s, m)
    | None \<Rightarrow> (case order of
        None \<Rightarrow> (None, m)
      | Some ord \<Rightarrow> (case create_session order_id role index ord now m of
          (Inr s, m') \<Rightarrow> (Some s, m') | (Inl _, m') \<Rightarrow> (None, m'))))"

definition reveal_write :: "string \<Rightarrow> string \<Rightarrow> u8 list \<Rightarrow> session option \<Rightarrow> sessions \<Rightarrow> sessions" where
  "reveal_write order_id peer key s m = (case s of
      None \<Rightarrow> m
    | Some s \<Rightarrow> snd (update_session order_id (s\<lparr>se_peer_pubkey := Some peer, se_shared_key := Some key\<rparr>) m))"

section \<open>Properties\<close>

text \<open>
  over every history of the store, each session is filed under its own order with that
  order's snapshot, and it knows a shared key exactly when it knows the peer: no reader ever
  sees a half-bound session, whatever is created, installed, replaced, swept or removed.
\<close>

theorem session_store_invariant:
  assumes "\<forall>op \<in> set ops. update_ok op"
    and "get_session k (fold session_step ops fmempty) = Some s"
  shows "se_order_id s = k \<and> oi_id (se_order s) = k \<and> (se_shared_key s = None \<longleftrightarrow> se_peer_pubkey s = None)"
proof -
  have "sessions_ok (fold session_step ops fmempty)"
    by (rule sessions_ok_run) (use assms(1) in \<open>auto simp: sessions_ok_def\<close>)
  then show ?thesis using assms(2) by (auto simp: sessions_ok_def session_ok_def get_session_def)
qed

definition sample_order :: "string \<Rightarrow> order_info" where
  "sample_order k = \<lparr>oi_id = k, oi_kind = Sell, oi_status = Pending, oi_amount_sats = None,
     oi_fiat_amount = None, oi_fiat_amount_min = None, oi_fiat_amount_max = None, oi_fiat_code = ''USD'',
     oi_payment_method = ''cash'', oi_premium = F64_fin 0, oi_creator_pubkey = ''pk'', oi_created_at = 1,
     oi_expires_at = None, oi_is_mine = False, oi_rating = F64_fin 0, oi_total_reviews = 0, oi_days_active = 0\<rparr>"

theorem session_store_invariant_witness:
  "se_order_id ((new_session ''o'' Buyer 2 (sample_order ''o'') 9)\<lparr>se_admin_shared_key := Some [1]\<rparr>) = ''o''"
  using session_store_invariant [of "[SCreate ''o'' Buyer 1 (sample_order ''o'') 5,
      SInstall ''o'' Buyer 2 (sample_order ''o'') 9, SAdmin ''o'' [1], SClean 30 20]" "''o''"
      "(new_session ''o'' Buyer 2 (sample_order ''o'') 9)\<lparr>se_admin_shared_key := Some [1]\<rparr>"]
  by (simp add: create_session_def install_session_def set_admin_shared_key_def cleanup_stale_sessions_def
      get_session_def new_session_def sample_order_def Let_def i64_wrap_def)

text \<open>
  a confirmed take always ends with the session of its own trade key: installing answers
  the stored session, under the index of this take. One of the same index, already bound to its
  peer by an early reveal, is kept as it is; one of another index is replaced and carries none
  of the superseded keys over.
\<close>

theorem install_session_binds_take:
  assumes "install_session k r i ord now m = (Inr s, m')"
  shows "get_session k m' = Some s \<and> (\<forall>k'. k' \<noteq> k \<longrightarrow> get_session k' m' = get_session k' m) \<and>
    (\<forall>old. get_session k m = Some old \<and> se_trade_key_index old = i \<longrightarrow> s = old \<and> m' = m) \<and>
    (\<forall>old. get_session k m = Some old \<and> se_trade_key_index old \<noteq> i \<longrightarrow>
       se_shared_key s = None \<and> se_admin_shared_key s = None \<and> se_peer_pubkey s = None) \<and>
    se_trade_key_index s = i"
  using assms
  by (auto simp: install_session_def get_session_def new_session_def Let_def split: option.splits if_splits)

theorem install_session_binds_take_witness:
  "se_trade_key_index (new_session ''o'' Buyer 2 (sample_order ''o'') 9) = 2"
  using install_session_binds_take [of "''o''" Buyer 2 "sample_order ''o''" 9
      "fmupd ''o'' (new_session ''o'' Buyer 1 (sample_order ''o'') 5) fmempty"
      "new_session ''o'' Buyer 2 (sample_order ''o'') 9"
      "fmupd ''o'' (new_session ''o'' Buyer 2 (sample_order ''o'') 9)
        (fmupd ''o'' (new_session ''o'' Buyer 1 (sample_order ''o'') 5) fmempty)"]
  by (simp add: install_session_def sample_order_def new_session_def)

text \<open>
  the peer's reveal is written back from the copy that was read: when nothing touched the
  session in between, the session gains the peer and its key and keeps everything else; but a
  reveal that overlaps the arrival of a solver writes the old copy over the admin key, which is
  lost.
\<close>

theorem peer_reveal_interleaving:
  assumes "sessions_ok m" and "reveal_read k r i ord now m = (Some s, m1)"
  shows "get_session k (reveal_write k peer key (Some s) m1) =
           Some (s\<lparr>se_peer_pubkey := Some peer, se_shared_key := Some key\<rparr>) \<and>
         (\<exists>s'. get_session k (reveal_write k peer key (Some s) (snd (set_admin_shared_key k admin m1))) = Some s'
            \<and> se_admin_shared_key s' = se_admin_shared_key s)"
proof -
  have "fmlookup m1 k = Some s \<and> se_order_id s = k"
    using assms by (auto simp: reveal_read_def get_session_def create_session_def new_session_def
        sessions_ok_def session_ok_def Let_def split: option.splits prod.splits sum.splits if_splits)
  then show ?thesis
    by (simp add: reveal_write_def update_session_def set_admin_shared_key_def get_session_def)
qed

theorem peer_reveal_interleaving_witness:
  "\<exists>s'. get_session ''o'' (reveal_write ''o'' ''peer'' [7] (Some (new_session ''o'' Buyer 2 (sample_order ''o'') 9))
       (snd (set_admin_shared_key ''o'' [1] (fmupd ''o'' (new_session ''o'' Buyer 2 (sample_order ''o'') 9) fmempty))))
     = Some s' \<and> se_admin_shared_key s' = None"
  using peer_reveal_interleaving [of fmempty "''o''" Buyer 2 "Some (sample_order ''o'')" 9
      "new_session ''o'' Buyer 2 (sample_order ''o'') 9"
      "fmupd ''o'' (new_session ''o'' Buyer 2 (sample_order ''o'') 9) fmempty" "''peer''" "[7]" "[1]"]
  by (simp add: sessions_ok_def reveal_read_def get_session_def create_session_def sample_order_def
      new_session_def Let_def)

text \<open>
  the periodic sweep drops only sessions that never reached the peer and are past their
  time, and reports exactly how many it dropped.
\<close>

theorem cleanup_only_expired:
  "get_session k (snd (cleanup_stale_sessions ttl now m)) =
     (case get_session k m of
        Some s \<Rightarrow> if se_shared_key s = None \<and> ttl \<le> i64_wrap (now - se_created_at s) then None else Some s
      | None \<Rightarrow> None) \<and>
   fst (cleanup_stale_sessions ttl now m) =
     card {k. \<exists>s. get_session k m = Some s \<and> get_session k (snd (cleanup_stale_sessions ttl now m)) = None}"
proof -
  let ?m' = "snd (cleanup_stale_sessions ttl now m)"
  have look: "get_session k ?m' = (case get_session k m of
        Some s \<Rightarrow> if se_shared_key s = None \<and> ttl \<le> i64_wrap (now - se_created_at s) then None else Some s
      | None \<Rightarrow> None)" for k
    by (auto simp: cleanup_stale_sessions_def get_session_def Let_def opt_filter_def split: option.splits)
  have sub: "fset (fmdom ?m') \<subseteq> fset (fmdom m)"
    by (auto simp: cleanup_stale_sessions_def Let_def fmlookup_dom_iff opt_filter_eq_Some)
  have "{k. \<exists>s. get_session k m = Some s \<and> get_session k ?m' = None} = fset (fmdom m) - fset (fmdom ?m')"
    by (auto simp: get_session_def fmlookup_dom_iff)
  moreover have "fst (cleanup_stale_sessions ttl now m) = card (fset (fmdom m)) - card (fset (fmdom ?m'))"
    by (simp add: cleanup_stale_sessions_def Let_def fmlen_def fcard.rep_eq)
  ultimately show ?thesis using look sub by (simp add: card_Diff_subset)
qed

end
