(* ===== verification/Floats.thy ===== *)
theory Floats
  imports Prelude "HOL-Library.Log_Nat"
begin

text \<open>
  The part of IEEE-754 double precision the Rust code computes with: rounding to nearest with
  ties to even, the product, the conversion from \<open>u64\<close>, \<open>f64::round\<close>, the saturating cast to
  \<open>u64\<close>, comparisons, and \<open>str::parse::<f64>\<close>. A value is an exact rational or one of the
  special values of \<open>f64\<close>; the sign of zero is not kept.
\<close>

section \<open>Rounding\<close>

definition floor_log2 :: "rat \<Rightarrow> int" where
  "floor_log2 q = (let (n, d) = quotient_of q; k = bitlen n - bitlen d in
     if 2 powi k \<le> q then k else k - 1)"

definition round_half_even :: "rat \<Rightarrow> int" where
  "round_half_even q = (let f = \<lfloor>q\<rfloor>; r = q - of_int f in
     if r < 1 / 2 then f else if r > 1 / 2 then f + 1 else if even f then f else f + 1)"

text \<open>The exponent of the last place: 53 bits of precision, and never below that of a subnormal.\<close>

definition ulp_exp :: "rat \<Rightarrow> int" where
  "ulp_exp a = max (floor_log2 a - 52) (-1074)"

definition round_mag :: "rat \<Rightarrow> rat" where
  "round_mag a = (let e = ulp_exp a in of_int (round_half_even (a / 2 powi e)) * 2 powi e)"

definition f64_limit :: rat where "f64_limit = 2 ^ 1024"

definition f64_of_rat :: "rat \<Rightarrow> f64" where
  "f64_of_rat q = (if q = 0 then F64_fin 0
     else let v = round_mag \<bar>q\<bar> in
       if v \<ge> f64_limit then F64_inf (q < 0) else F64_fin (sgn q * v))"

lemma two_powi_pos [simp]: "0 < (2 :: rat) powi k" "(2 :: rat) powi k \<noteq> 0"
  by (simp_all add: zero_less_power_int)

lemma floor_log2_le: "0 < q \<Longrightarrow> 2 powi floor_log2 q \<le> q"
proof -
  assume q: "0 < q"
  obtain n d where nd: "quotient_of q = (n, d)" by (cases "quotient_of q")
  have d: "0 < d" and qd: "q = of_int n / of_int d" using quotient_of_denom_pos nd quotient_of_div nd by auto
  have n: "0 < n" using q d by (simp add: qd zero_less_divide_iff)
  let ?k = "bitlen n - bitlen d"
  have bn: "2 ^ nat (bitlen n - 1) \<le> n" and bd: "d < 2 ^ nat (bitlen d)"
    using bitlen_bounds [OF n] bitlen_bounds [OF d] by auto
  have b1: "1 \<le> bitlen n" "0 \<le> bitlen d" using n bitlen_nonneg
    by (simp_all add: bitlen_nonneg) (metis bitlen_eq_zero_iff bitlen_nonneg int_one_le_iff_zero_less
        le_less not_less)
  have "(2 :: rat) powi (bitlen n - 1) = of_int (2 ^ nat (bitlen n - 1))"
    using b1 by (simp add: power_int_def)
  also have "\<dots> \<le> of_int n" using bn by (simp only: of_int_le_iff)
  finally have n1: "(2 :: rat) powi (bitlen n - 1) \<le> of_int n" .
  have "of_int d \<le> (of_int (2 ^ nat (bitlen d)) :: rat)" using bd by (simp only: of_int_le_iff)
  also have "\<dots> = 2 powi bitlen d" using b1 by (simp add: power_int_def)
  finally have d1: "of_int d \<le> (2 :: rat) powi bitlen d" .
  have "(2 :: rat) powi (?k - 1) = 2 powi (bitlen n - 1) / 2 powi bitlen d"
    by (simp add: power_int_diff [symmetric] algebra_simps)
  also have "\<dots> \<le> of_int n / of_int d"
    using n1 d1 d n by (intro frac_le) auto
  finally have "(2 :: rat) powi (?k - 1) \<le> q" by (simp add: qd)
  then show ?thesis by (simp add: floor_log2_def nd Let_def)
qed

lemma round_half_even_error: "\<bar>of_int (round_half_even q) - q\<bar> \<le> 1 / 2"
  using floor_correct [of q] by (auto simp: round_half_even_def Let_def abs_le_iff)

lemma round_half_even_of_int [simp]: "round_half_even (of_int n) = n"
  by (simp add: round_half_even_def)

lemma round_half_even_nonneg: "0 \<le> q \<Longrightarrow> 0 \<le> round_half_even q"
  by (simp add: round_half_even_def Let_def)

lemma round_mag_nonneg: "0 \<le> a \<Longrightarrow> 0 \<le> round_mag a"
  by (simp add: round_mag_def Let_def round_half_even_nonneg)

text \<open>The error of one rounding: half a unit in the last place.\<close>

lemma round_mag_abs_error: "\<bar>round_mag a - a\<bar> \<le> 2 powi ulp_exp a / 2"
proof -
  let ?e = "(2 :: rat) powi ulp_exp a"
  have "round_mag a - a = (of_int (round_half_even (a / ?e)) - a / ?e) * ?e"
    by (simp add: round_mag_def Let_def field_simps)
  then have "\<bar>round_mag a - a\<bar> = \<bar>of_int (round_half_even (a / ?e)) - a / ?e\<bar> * ?e"
    by (simp add: abs_mult)
  also have "\<dots> \<le> 1 / 2 * ?e"
    by (intro mult_right_mono round_half_even_error) auto
  finally show ?thesis by simp
qed

lemma half_ulp: "(2 :: rat) powi (k - 52) / 2 = 2 powi k / 2 ^ 53"
  by (simp add: power_int_diff)

definition f64_min_normal :: rat where "f64_min_normal = 2 powi (- 1022)"

lemma round_mag_rel_error:
  assumes "f64_min_normal \<le> a"
  shows "\<bar>round_mag a - a\<bar> \<le> a / 2 ^ 53"
proof -
  have a: "0 < a" using assms two_powi_pos(1) [of "- 1022"] unfolding f64_min_normal_def by (rule less_le_trans [rotated])
  obtain k where k: "ulp_exp a = k - 52" "2 powi k \<le> a"
  proof (cases "floor_log2 a - 52 \<ge> - 1074")
    case True
    then show ?thesis using floor_log2_le [OF a] by (intro that [of "floor_log2 a"]) (simp_all only: ulp_exp_def max_absorb1)
  next
    case False
    then have "ulp_exp a = - 1022 - 52" by (simp add: ulp_exp_def)
    then show ?thesis using assms unfolding f64_min_normal_def by (rule that)
  qed
  have "\<bar>round_mag a - a\<bar> \<le> 2 powi k / 2 ^ 53"
    using round_mag_abs_error [of a] unfolding k(1) half_ulp .
  also have "\<dots> \<le> a / 2 ^ 53" using k(2) by (rule divide_right_mono) simp
  finally show ?thesis .
qed

text \<open>Without a lower bound on the argument, subnormals add at most a constant.\<close>

lemma f64_min_normal_le_1: "f64_min_normal \<le> 1"
proof -
  have "(2 :: rat) powi (- 1022) \<le> 2 powi 0" by (rule power_int_increasing) auto
  then show ?thesis by (simp add: f64_min_normal_def)
qed

lemma round_mag_error:
  assumes "0 < a"
  shows "\<bar>round_mag a - a\<bar> \<le> (a + 1) / 2 ^ 53"
proof (cases "f64_min_normal \<le> a")
  case True
  then show ?thesis using round_mag_rel_error [OF True] by (simp add: field_simps)
next
  case False
  have "2 powi ulp_exp a / 2 \<le> (a + 1) / (2 ^ 53 :: rat)"
  proof (cases "floor_log2 a - 52 < - 1074")
    case True
    then have "ulp_exp a \<le> - 1022 - 52"
      by (simp add: ulp_exp_def)
    then have "2 powi ulp_exp a \<le> (2 :: rat) powi (- 1022 - 52)" by (rule power_int_increasing) auto
    then have "2 powi ulp_exp a / 2 \<le> 2 powi (- 1022) / (2 ^ 53 :: rat)"
      unfolding half_ulp [symmetric] by (rule divide_right_mono) simp
    also have "\<dots> \<le> (a + 1) / 2 ^ 53"
      using f64_min_normal_le_1 assms unfolding f64_min_normal_def by (intro divide_right_mono) (linarith, simp)
    finally show ?thesis .
  next
    case no: False
    then have e: "ulp_exp a = floor_log2 a - 52" by (simp add: ulp_exp_def)
    have "2 powi ulp_exp a / 2 = 2 powi floor_log2 a / (2 ^ 53 :: rat)" unfolding e by (rule half_ulp)
    also have "\<dots> \<le> (a + 1) / 2 ^ 53" using floor_log2_le [OF assms] by (intro divide_right_mono) (linarith, simp)
    finally show ?thesis .
  qed
  then show ?thesis using round_mag_abs_error [of a] by linarith
qed

lemma f64_limit_large: "2 ^ 70 \<le> f64_limit"
  unfolding f64_limit_def by (rule power_increasing) simp_all

section \<open>Operations\<close>

definition f64_is_finite :: "f64 \<Rightarrow> bool" where
  "f64_is_finite x = (case x of F64_fin _ \<Rightarrow> True | _ \<Rightarrow> False)"

text \<open>Comparisons are false when either side is NaN.\<close>

fun f64_less :: "f64 \<Rightarrow> f64 \<Rightarrow> bool" where
  "f64_less (F64_fin a) (F64_fin b) \<longleftrightarrow> a < b"
| "f64_less (F64_fin _) (F64_inf neg) \<longleftrightarrow> \<not> neg"
| "f64_less (F64_inf neg) (F64_fin _) \<longleftrightarrow> neg"
| "f64_less (F64_inf n1) (F64_inf n2) \<longleftrightarrow> n1 \<and> \<not> n2"
| "f64_less _ _ \<longleftrightarrow> False"

definition f64_le :: "f64 \<Rightarrow> f64 \<Rightarrow> bool" where
  "f64_le a b \<longleftrightarrow> f64_less a b \<or> f64_eq a b"

definition f64_of_u64 :: "u64 \<Rightarrow> f64" where
  "f64_of_u64 w = f64_of_rat (of_nat (unat w))"

definition rat_is_neg :: "f64 \<Rightarrow> bool" where
  "rat_is_neg x = (case x of F64_fin a \<Rightarrow> a < 0 | F64_inf neg \<Rightarrow> neg | F64_nan \<Rightarrow> False)"

definition f64_mul :: "f64 \<Rightarrow> f64 \<Rightarrow> f64" where
  "f64_mul x y = (case (x, y) of
      (F64_fin a, F64_fin b) \<Rightarrow> f64_of_rat (a * b)
    | (F64_nan, _) \<Rightarrow> F64_nan
    | (_, F64_nan) \<Rightarrow> F64_nan
    | (F64_fin a, F64_inf _) \<Rightarrow> if a = 0 then F64_nan else F64_inf (rat_is_neg x \<noteq> rat_is_neg y)
    | (F64_inf _, F64_fin b) \<Rightarrow> if b = 0 then F64_nan else F64_inf (rat_is_neg x \<noteq> rat_is_neg y)
    | (F64_inf _, F64_inf _) \<Rightarrow> F64_inf (rat_is_neg x \<noteq> rat_is_neg y))"

text \<open>\<open>f64::round\<close>: half away from zero.\<close>

definition f64_round :: "f64 \<Rightarrow> f64" where
  "f64_round x = (case x of F64_fin q \<Rightarrow> F64_fin (sgn q * of_int \<lfloor>\<bar>q\<bar> + 1 / 2\<rfloor>) | _ \<Rightarrow> x)"

text \<open>\<open>x as u64\<close>: towards zero, saturating, NaN to 0.\<close>

definition f64_as_u64 :: "f64 \<Rightarrow> u64" where
  "f64_as_u64 x = (case x of
      F64_fin q \<Rightarrow> if q \<le> 0 then 0 else if q \<ge> 2 ^ 64 then - 1 else word_of_int \<lfloor>q\<rfloor>
    | F64_inf neg \<Rightarrow> if neg then 0 else - 1
    | F64_nan \<Rightarrow> 0)"

section \<open>Parsing\<close>

definition is_digit :: "char \<Rightarrow> bool" where
  "is_digit c \<longleftrightarrow> digit_val c \<noteq> None"

definition digits_nat :: "string \<Rightarrow> nat" where
  "digits_nat s = (case digits_val 0 s of Some n \<Rightarrow> n | None \<Rightarrow> 0)"

definition strip_sign :: "string \<Rightarrow> bool \<times> string" where
  "strip_sign s = (case s of
      c # cs \<Rightarrow> if c = CHR ''-'' then (True, cs) else if c = CHR ''+'' then (False, cs) else (False, s)
    | [] \<Rightarrow> (False, []))"

text \<open>The exponent part: nothing, or \<open>e\<close> with an optional sign and at least one digit.\<close>

definition parse_exponent :: "string \<Rightarrow> int option" where
  "parse_exponent s = (case s of
      [] \<Rightarrow> Some 0
    | c # cs \<Rightarrow>
        if c = CHR ''e'' \<or> c = CHR ''E''
        then (let (neg, ds) = strip_sign cs in
              if ds \<noteq> [] \<and> list_all is_digit ds
              then Some (if neg then - int (digits_nat ds) else int (digits_nat ds)) else None)
        else None)"

text \<open>The exact value of a decimal number, before rounding.\<close>

definition parse_decimal :: "string \<Rightarrow> rat option" where
  "parse_decimal s =
     (let ip = takeWhile is_digit s; r1 = dropWhile is_digit s;
          (fp, r2) = (case r1 of c # cs \<Rightarrow> if c = CHR ''.'' then (takeWhile is_digit cs, dropWhile is_digit cs) else ([], r1)
                      | [] \<Rightarrow> ([], []))
      in if ip = [] \<and> fp = [] then None
         else (case parse_exponent r2 of None \<Rightarrow> None
               | Some e \<Rightarrow> Some (of_nat (digits_nat (ip @ fp)) * 10 powi (e - int (length fp)))))"

definition parse_f64 :: "string \<Rightarrow> f64 option" where
  "parse_f64 s = (let (neg, r) = strip_sign s; l = to_ascii_lowercase r in
     if l = ''inf'' \<or> l = ''infinity'' then Some (F64_inf neg)
     else if l = ''nan'' then Some F64_nan
     else (case parse_decimal r of None \<Rightarrow> None
           | Some q \<Rightarrow> Some (f64_of_rat (if neg then - q else q))))"

lemma f64_of_rat_cases:
  assumes "0 \<le> q"
  obtains "q = 0" "f64_of_rat q = F64_fin 0"
    | "0 < q" "f64_of_rat q = F64_inf False"
    | "0 < q" "f64_of_rat q = F64_fin (round_mag q)" "round_mag q < f64_limit"
  using assms that by (cases "q = 0"; cases "f64_limit \<le> round_mag q") (auto simp: f64_of_rat_def Let_def not_le)

lemma f64_of_rat_finite_nonneg: "0 \<le> q \<Longrightarrow> f64_of_rat q = F64_fin v \<Longrightarrow> 0 \<le> v"
  by (rule f64_of_rat_cases [of q]) (auto simp: round_mag_nonneg)

end
