(* ===== verification/Node_Capabilities.thy ===== *)
theory Node_Capabilities
  imports Api_Types Floats
begin

text \<open>
  What the active node advertises, and the caches that hold it:
  \<open>rust/src/mostro/pow.rs\<close>, \<open>protocol_version.rs\<close>, \<open>bond_policy.rs\<close> and \<open>rates.rs\<close>.

  Each cache is one slot holding the last answer with the node it came from. The locale
  \<open>node_scoped_cache\<close> states what their readers rely on: an answer for a node was published
  by that node and nothing replaced it since. All four caches are interpreted.

  A wait on a \<open>watch\<close> channel is the list of the snapshots the waiter observes before its
  time-out, the current one first.
\<close>

section \<open>The contract of a node-scoped cache\<close>

datatype 'v cache_event = Put string 'v | Clear

locale node_scoped_cache =
  fixes same :: "string \<Rightarrow> string \<Rightarrow> bool"
    and put :: "string \<Rightarrow> 'v \<Rightarrow> 'c \<Rightarrow> 'c"
    and wipe :: "'c \<Rightarrow> 'c"
    and answer :: "string \<Rightarrow> 'c \<Rightarrow> 'a option"
    and served :: "'v \<Rightarrow> 'a option"
    and empty :: 'c
  assumes answer_put: "answer n (put m v c) = (if same m n then served v else None)"
    and answer_wipe: "answer n (wipe c) = None"
    and answer_empty: "answer n empty = None"
begin

fun apply_event :: "'v cache_event \<Rightarrow> 'c \<Rightarrow> 'c" where
  "apply_event (Put n v) c = put n v c"
| "apply_event Clear c = wipe c"

lemma last_put_answers:
  "answer n (fold apply_event (evs @ [Put m v]) empty) = (if same m n then served v else None)"
  by (simp add: answer_put)

lemma never_another_nodes_answer:
  assumes "answer n (fold apply_event evs empty) = Some a"
  shows "\<exists>es m v. evs = es @ [Put m v] \<and> same m n \<and> served v = Some a"
proof (cases evs rule: rev_cases)
  case Nil
  then show ?thesis using assms by (simp add: answer_empty)
next
  case (snoc es e)
  then show ?thesis using assms
    by (cases e) (auto simp: answer_put answer_wipe split: if_splits)
qed

end

text \<open>A waiter takes the first snapshot that answers it, and gives up at the end of its window.\<close>

fun await_snapshot :: "('c \<Rightarrow> 'a option) \<Rightarrow> 'c list \<Rightarrow> 'a option" where
  "await_snapshot f [] = None"
| "await_snapshot f (c # cs) = (case f c of Some a \<Rightarrow> Some a | None \<Rightarrow> await_snapshot f cs)"

lemma await_snapshot_Some:
  "await_snapshot f cs = Some a \<Longrightarrow> \<exists>c \<in> set cs. f c = Some a"
  by (induction cs) (auto split: option.splits)

lemma await_snapshot_None: "await_snapshot f cs = None \<longleftrightarrow> (\<forall>c \<in> set cs. f c = None)"
  by (induction cs) (auto split: option.splits)

section \<open>Proof of work\<close>

record capabilities =
  cap_node :: string
  cap_pow :: u8
  cap_first_contact :: "u8 option"

definition set_pows :: "string \<Rightarrow> u8 \<Rightarrow> u8 option \<Rightarrow> capabilities option \<Rightarrow> capabilities option" where
  "set_pows node pow first_contact _ =
     Some \<lparr>cap_node = node, cap_pow = pow, cap_first_contact = first_contact\<rparr>"

definition get_pow :: "capabilities option \<Rightarrow> u8" where
  "get_pow caps = (case caps of Some c \<Rightarrow> cap_pow c | None \<Rightarrow> 0)"

definition resolve_first_contact :: "u8 \<Rightarrow> u8 option \<Rightarrow> u8" where
  "resolve_first_contact pow first_contact = (case first_contact of Some d \<Rightarrow> max d pow | None \<Rightarrow> pow)"

definition ready_first_contact :: "string \<Rightarrow> capabilities option \<Rightarrow> u8 option" where
  "ready_first_contact node caps = map_option (\<lambda>c. resolve_first_contact (cap_pow c) (cap_first_contact c))
     (opt_filter (\<lambda>c. cap_node c = node) caps)"

definition pow_unknown :: "string \<Rightarrow> string" where
  "pow_unknown node = ''PowUnknown: capabilities for node '' @ node @ '' not fetched yet '' @
     [CHR 0xE2, CHR 0x80, CHR 0x94] @
     '' refusing to mine a first-contact event at a difficulty that may be too low''"

definition first_contact_pow_within :: "string \<Rightarrow> capabilities option list \<Rightarrow> (string, u8) result" where
  "first_contact_pow_within node snapshots = (case await_snapshot (ready_first_contact node) snapshots of
      Some pow \<Rightarrow> Inr pow | None \<Rightarrow> Inl (pow_unknown node))"

definition parse_difficulty :: "tag_list \<Rightarrow> string \<Rightarrow> u8 option" where
  "parse_difficulty tags name = Option.bind (tag_value tags name) parse_u8"

definition parse_pow_tags :: "tag_list \<Rightarrow> u8 \<times> u8 option" where
  "parse_pow_tags tags =
     (case parse_difficulty tags ''pow'' of Some d \<Rightarrow> d | None \<Rightarrow> 0,
      parse_difficulty tags ''pow_first_contact'')"

section \<open>Wire protocol\<close>

record advertised =
  adv_node :: string
  adv_version :: "u8 option"

definition supported_version :: u8 where "supported_version = 2"

definition set_protocol_version :: "string \<Rightarrow> u8 option \<Rightarrow> advertised option \<Rightarrow> advertised option" where
  "set_protocol_version node version _ = Some \<lparr>adv_node = node, adv_version = version\<rparr>"

definition is_supported :: "u8 option \<Rightarrow> bool" where
  "is_supported version \<longleftrightarrow> version = Some supported_version"

definition fetched_version :: "string \<Rightarrow> advertised option \<Rightarrow> u8 option option" where
  "fetched_version node adv = map_option adv_version (opt_filter (\<lambda>a. adv_node a = node) adv)"

definition ensure_supported_within :: "string \<Rightarrow> advertised option list \<Rightarrow> (string, unit) result" where
  "ensure_supported_within node snapshots = (case await_snapshot (fetched_version node) snapshots of
      None \<Rightarrow> Inl (''NodeCapabilitiesUnknown: capabilities for node '' @ node @ '' not fetched yet'')
    | Some version \<Rightarrow>
        if is_supported version then Inr ()
        else Inl (''UnsupportedNodeProtocol:'' @
                  (case version of None \<Rightarrow> ''1'' | Some v \<Rightarrow> nat_digits (unat v))))"

definition parse_protocol_version :: "tag_list \<Rightarrow> u8 option" where
  "parse_protocol_version tags = Option.bind (tag_value tags ''protocol_version'') parse_u8"

section \<open>Bond policy\<close>

definition trimmed_value :: "tag_list \<Rightarrow> string \<Rightarrow> string option" where
  "trimmed_value tags name = opt_filter (\<lambda>v. v \<noteq> []) (map_option str_trim (tag_value tags name))"

definition lower_value :: "tag_list \<Rightarrow> string \<Rightarrow> string option" where
  "lower_value tags name = map_option to_ascii_lowercase (trimmed_value tags name)"

definition bond_fraction :: "tag_list \<Rightarrow> string \<Rightarrow> f64 option \<Rightarrow> f64 option" where
  "bond_fraction tags name mx =
     Option.bind (trimmed_value tags name) (\<lambda>s. Option.bind (parse_f64 s) (\<lambda>v.
       if \<not> f64_is_finite v \<or> f64_less v (F64_fin 0) then None
       else if (case mx of Some m \<Rightarrow> f64_less m v | None \<Rightarrow> False) then None
       else Some v))"

definition bond_bool :: "tag_list \<Rightarrow> string \<Rightarrow> bool option" where
  "bond_bool tags name = (case lower_value tags name of
      Some v \<Rightarrow> if v = ''true'' then Some True else if v = ''false'' then Some False else None
    | None \<Rightarrow> None)"

definition default_bond_policy :: "bond_policy_kind \<Rightarrow> bond_policy_info" where
  "default_bond_policy k = \<lparr>bp_policy = k, bp_apply_to = None, bp_amount_pct = None,
     bp_base_amount_sats = None, bp_slash_on_waiting_timeout = None, bp_slash_node_share_pct = None,
     bp_payout_claim_window_days = None\<rparr>"

definition bond_parse_tags :: "tag_list \<Rightarrow> bond_policy_info" where
  "bond_parse_tags tags =
     (case bond_bool tags ''bond_enabled'' of
        None \<Rightarrow> default_bond_policy BPUnsupported
      | Some False \<Rightarrow> default_bond_policy BPDisabled
      | Some True \<Rightarrow> \<lparr>
          bp_policy = BPEnabled,
          bp_apply_to = (case lower_value tags ''bond_apply_to'' of
              Some v \<Rightarrow> if v = ''take'' then Some ApplyTake else if v = ''make'' then Some ApplyMake
                else if v = ''both'' then Some ApplyBoth else None
            | None \<Rightarrow> None),
          bp_amount_pct = bond_fraction tags ''bond_amount_pct'' None,
          bp_base_amount_sats = Option.bind (trimmed_value tags ''bond_base_amount_sats'') parse_u64,
          bp_slash_on_waiting_timeout = bond_bool tags ''bond_slash_on_waiting_timeout'',
          bp_slash_node_share_pct = bond_fraction tags ''bond_slash_node_share_pct'' (Some (F64_fin 1)),
          bp_payout_claim_window_days = opt_filter (\<lambda>d. d > 0)
            (Option.bind (trimmed_value tags ''bond_payout_claim_window_days'') parse_u32)\<rparr>)"

definition estimate_bond_sats :: "u64 \<Rightarrow> bond_policy_info \<Rightarrow> u64 option" where
  "estimate_bond_sats order_amount_sats policy =
     (if bp_policy policy \<noteq> BPEnabled then None
      else Option.bind (bp_amount_pct policy) (\<lambda>pct.
        let from_pct = f64_round (f64_mul pct (f64_of_u64 order_amount_sats));
            sats = (if f64_is_finite from_pct \<and> f64_le (F64_fin 0) from_pct then f64_as_u64 from_pct else - 1)
        in Some (max sats (case bp_base_amount_sats policy of Some b \<Rightarrow> b | None \<Rightarrow> 0))))"

definition applies_to_taker :: "bond_policy_info \<Rightarrow> bool" where
  "applies_to_taker p \<longleftrightarrow> bp_policy p = BPEnabled \<and> bp_apply_to p \<in> {Some ApplyTake, Some ApplyBoth}"

definition applies_to_maker :: "bond_policy_info \<Rightarrow> bool" where
  "applies_to_maker p \<longleftrightarrow> bp_policy p = BPEnabled \<and> bp_apply_to p \<in> {Some ApplyMake, Some ApplyBoth}"

type_synonym policy_slot = "(string \<times> bond_policy_info) option"

definition bond_set_from_tags :: "string \<Rightarrow> bond_policy_info \<Rightarrow> policy_slot \<Rightarrow> policy_slot" where
  "bond_set_from_tags node policy _ = Some (node, policy)"

definition bond_clear :: "policy_slot \<Rightarrow> policy_slot" where
  "bond_clear _ = None"

definition bond_get_for :: "string \<Rightarrow> policy_slot \<Rightarrow> bond_policy_info option" where
  "bond_get_for node slot = map_option snd (opt_filter (\<lambda>(from, _). eq_ignore_ascii_case from node) slot)"

text \<open>The count of pending capability fetches, a \<open>u32\<close>.\<close>

definition fetch_begin :: "u32 \<Rightarrow> u32" where "fetch_begin n = n + 1"

definition fetch_end :: "u32 \<Rightarrow> u32" where "fetch_end n = (if n = 0 then 0 else n - 1)"

text \<open>
  \<open>get_for_once_settled\<close>: the waiter sees the pending count and the slot move together; it
  reads the slot when the count is first 0, or at the end of its window.
\<close>

fun bond_get_for_once_settled :: "string \<Rightarrow> (u32 \<times> policy_slot) list \<Rightarrow> policy_slot \<Rightarrow> bond_policy_info option" where
  "bond_get_for_once_settled node [] last_slot = bond_get_for node last_slot"
| "bond_get_for_once_settled node ((pending, slot) # obs) last_slot =
     (if pending = 0 then bond_get_for node slot else bond_get_for_once_settled node obs slot)"

section \<open>Exchange rates\<close>

record rates_snapshot =
  rt_node :: string
  rt_rates :: "(string, f64) fmap"
  rt_expires_at :: i64

type_synonym rates_slot = "rates_snapshot option"

definition max_lifetime_secs :: i64 where "max_lifetime_secs = 3600"

definition rates_kind :: nat where "rates_kind = 30078"

definition rates_d_tag :: string where "rates_d_tag = ''mostro-rates''"

definition expires_at :: "i64 \<Rightarrow> i64 option \<Rightarrow> i64" where
  "expires_at created_at expiration_tag =
     (let ceiling = i64_saturating_add created_at max_lifetime_secs in
      case expiration_tag of Some tag \<Rightarrow> min tag ceiling | None \<Rightarrow> ceiling)"

definition rates_store :: "string \<Rightarrow> (string, f64) fmap \<times> i64 \<Rightarrow> rates_slot \<Rightarrow> rates_slot" where
  "rates_store node v _ = Some \<lparr>rt_node = node, rt_rates = fst v, rt_expires_at = snd v\<rparr>"

definition rates_clear :: "rates_slot \<Rightarrow> rates_slot" where
  "rates_clear _ = None"

definition cached_rate :: "string \<Rightarrow> string \<Rightarrow> i64 \<Rightarrow> rates_slot \<Rightarrow> f64 option" where
  "cached_rate node fiat_code now slot = (case slot of
      None \<Rightarrow> None
    | Some snap \<Rightarrow>
        if rt_node snap \<noteq> node \<or> now \<ge> rt_expires_at snap then None
        else fmlookup (rt_rates snap) (map ascii_upper_char fiat_code))"

record rates_event =
  re_kind :: nat
  re_pubkey :: string
  re_tags :: tag_list
  re_created_at :: i64
  re_content :: string
  re_verified :: bool

text \<open>\<open>Iterator::max_by_key\<close>: the last of the greatest.\<close>

fun max_by_created :: "rates_event list \<Rightarrow> rates_event option" where
  "max_by_created [] = None"
| "max_by_created (e # es) = (case max_by_created es of
      None \<Rightarrow> Some e
    | Some b \<Rightarrow> if re_created_at b \<ge> re_created_at e then Some b else Some e)"

definition select_rates_event :: "rates_event list \<Rightarrow> string \<Rightarrow> rates_event option" where
  "select_rates_event events pubkey = max_by_created (filter re_verified
     (filter (\<lambda>e. re_kind e = rates_kind \<and> re_pubkey e = pubkey \<and> tag_value (re_tags e) ''d'' = Some rates_d_tag)
       events))"

text \<open>
  \<open>parse\<close> is the JSON reader of the payload, \<open>pool\<close> and \<open>key\<close> the two fallible lookups before
  the query, \<open>fetched\<close> what the relays answered.
\<close>

definition fetch_exchange_rate ::
  "(string \<Rightarrow> (string, f64) fmap option) \<Rightarrow> (string, unit) result \<Rightarrow> (string, unit) result
     \<Rightarrow> (string, rates_event list) result \<Rightarrow> string \<Rightarrow> string \<Rightarrow> i64 \<Rightarrow> rates_slot
     \<Rightarrow> (string, f64 option) result \<times> rates_slot" where
  "fetch_exchange_rate parse pool key fetched node fiat_code now slot =
     (case cached_rate node fiat_code now slot of
        Some rate \<Rightarrow> (Inr (Some rate), slot)
      | None \<Rightarrow> (case pool of Inl e \<Rightarrow> (Inl e, slot)
        | Inr _ \<Rightarrow> (case key of Inl e \<Rightarrow> (Inl (''invalid pubkey hex: '' @ e), slot)
          | Inr _ \<Rightarrow> (case fetched of Inl e \<Rightarrow> (Inl (''fetch_events failed: '' @ e), slot)
            | Inr events \<Rightarrow> (case select_rates_event events node of
                None \<Rightarrow> (Inr None, rates_clear slot)
              | Some ev \<Rightarrow>
                  let exp = expires_at (re_created_at ev) (Option.bind (tag_value (re_tags ev) ''expiration'') parse_i64)
                  in if now \<ge> exp then (Inr None, rates_clear slot)
                     else (case parse (re_content ev) of
                         None \<Rightarrow> (Inr None, rates_clear slot)
                       | Some table \<Rightarrow>
                           let slot' = rates_store node (table, exp) slot
                           in (Inr (cached_rate node fiat_code now slot'), slot')))))))"

section \<open>The caches keep the contract\<close>

interpretation pow_cache: node_scoped_cache "(=)" "\<lambda>n v. set_pows n (fst v) (snd v)" "\<lambda>_. None"
  ready_first_contact "\<lambda>v. Some (resolve_first_contact (fst v) (snd v))" None
  by unfold_locales (auto simp: set_pows_def ready_first_contact_def)

interpretation protocol_cache: node_scoped_cache "(=)" set_protocol_version "\<lambda>_. None"
  fetched_version Some None
  by unfold_locales (auto simp: set_protocol_version_def fetched_version_def)

interpretation policy_cache: node_scoped_cache eq_ignore_ascii_case bond_set_from_tags bond_clear
  bond_get_for Some None
  by unfold_locales (auto simp: bond_set_from_tags_def bond_get_for_def bond_clear_def)

interpretation rates_cache: node_scoped_cache "(=)" rates_store rates_clear
  "\<lambda>n. cached_rate n fiat now" "\<lambda>v. if now \<ge> snd v then None else fmlookup (fst v) (map ascii_upper_char fiat)"
  None for fiat now
  by unfold_locales (auto simp: rates_store_def cached_rate_def rates_clear_def)

lemma await_put:
  assumes "await_snapshot f cs = Some a"
  obtains pre c post where "cs = pre @ c # post" "f c = Some a" "\<forall>c' \<in> set pre. f c' = None"
proof -
  have "\<exists>pre c post. cs = pre @ c # post \<and> f c = Some a \<and> (\<forall>c' \<in> set pre. f c' = None)"
    using assms
  proof (induction cs)
    case (Cons d ds)
    show ?case
    proof (cases "f d")
      case None
      with Cons obtain pre c post where "ds = pre @ c # post" "f c = Some a" "\<forall>c' \<in> set pre. f c' = None"
        by auto
      then show ?thesis using None by (intro exI [of _ "d # pre"]) auto
    next
      case (Some b)
      with Cons.prems show ?thesis by (intro exI [of _ "[]"]) auto
    qed
  qed simp
  then show thesis using that by blast
qed

section \<open>Properties\<close>

text \<open>
  the first event of a trade is mined for the node it goes to: the difficulty comes from a
  snapshot fetched from that very node, is never below what that node asks of every event nor
  below what it asks of a first contact, and when no snapshot of the node arrived in the window
  the wrap fails instead of using another node's difficulty.
\<close>

theorem first_contact_pow_is_the_nodes:
  "(\<forall>p. first_contact_pow_within node snaps = Inr p \<longrightarrow>
      (\<exists>c. Some c \<in> set snaps \<and> cap_node c = node \<and> p \<ge> cap_pow c \<and>
           (\<forall>d. cap_first_contact c = Some d \<longrightarrow> p \<ge> d) \<and>
           (cap_first_contact c = None \<longrightarrow> p = cap_pow c))) \<and>
   (first_contact_pow_within node snaps = Inl (pow_unknown node) \<longleftrightarrow>
      (\<forall>c. Some c \<in> set snaps \<longrightarrow> cap_node c \<noteq> node))"
proof (intro conjI allI impI)
  fix p assume "first_contact_pow_within node snaps = Inr p"
  then have "await_snapshot (ready_first_contact node) snaps = Some p"
    by (auto simp: first_contact_pow_within_def split: option.splits)
  then obtain s where "s \<in> set snaps" "ready_first_contact node s = Some p"
    using await_snapshot_Some by fast
  then obtain c where c: "Some c \<in> set snaps" "cap_node c = node"
      "p = resolve_first_contact (cap_pow c) (cap_first_contact c)"
    by (auto simp: ready_first_contact_def opt_filter_eq_Some)
  then show "\<exists>c. Some c \<in> set snaps \<and> cap_node c = node \<and> p \<ge> cap_pow c \<and>
      (\<forall>d. cap_first_contact c = Some d \<longrightarrow> p \<ge> d) \<and> (cap_first_contact c = None \<longrightarrow> p = cap_pow c)"
    by (intro exI [of _ c]) (cases "cap_first_contact c"; simp add: resolve_first_contact_def)
next
  have "first_contact_pow_within node snaps = Inl (pow_unknown node) \<longleftrightarrow>
      await_snapshot (ready_first_contact node) snaps = None"
    by (auto simp: first_contact_pow_within_def split: option.splits)
  also have "\<dots> \<longleftrightarrow> (\<forall>c. Some c \<in> set snaps \<longrightarrow> cap_node c \<noteq> node)"
    unfolding await_snapshot_None
    by (auto simp: ready_first_contact_def opt_filter_def split: option.splits)
  finally show "first_contact_pow_within node snaps = Inl (pow_unknown node) \<longleftrightarrow>
      (\<forall>c. Some c \<in> set snaps \<longrightarrow> cap_node c \<noteq> node)" .
qed

theorem first_contact_pow_is_the_nodes_witness:
  "\<exists>p. first_contact_pow_within ''n''
      [None, Some \<lparr>cap_node = ''m'', cap_pow = 30, cap_first_contact = None\<rparr>,
       Some \<lparr>cap_node = ''n'', cap_pow = 8, cap_first_contact = Some 20\<rparr>] = Inr p \<and> p \<ge> 20"
  using first_contact_pow_is_the_nodes [of "''n''"
      "[None, Some \<lparr>cap_node = ''m'', cap_pow = 30, cap_first_contact = None\<rparr>,
       Some \<lparr>cap_node = ''n'', cap_pow = 8, cap_first_contact = Some 20\<rparr>]"]
  by (simp add: first_contact_pow_within_def ready_first_contact_def opt_filter_def resolve_first_contact_def)

text \<open>
  a message leaves only for a node that said, in a snapshot fetched from it, that it speaks
  the supported protocol; the verdict is the first one of that node in the window, a node that
  published no version is refused as version 1, and silence is a retryable refusal.
\<close>

theorem protocol_gate_is_exact:
  "((\<forall>a. Some a \<in> set snaps \<longrightarrow> adv_node a \<noteq> node) \<longrightarrow>
      ensure_supported_within node snaps =
        Inl (''NodeCapabilitiesUnknown: capabilities for node '' @ node @ '' not fetched yet'')) \<and>
   (snaps = pre @ Some a # post \<and> adv_node a = node \<and> (\<forall>a'. Some a' \<in> set pre \<longrightarrow> adv_node a' \<noteq> node) \<longrightarrow>
      ensure_supported_within node snaps =
        (if adv_version a = Some 2 then Inr ()
         else Inl (''UnsupportedNodeProtocol:'' @
           (case adv_version a of None \<Rightarrow> ''1'' | Some v \<Rightarrow> nat_digits (unat v)))))"
proof (intro conjI impI)
  assume "\<forall>a. Some a \<in> set snaps \<longrightarrow> adv_node a \<noteq> node"
  then have "await_snapshot (fetched_version node) snaps = None"
    unfolding await_snapshot_None by (auto simp: fetched_version_def opt_filter_def split: option.splits)
  then show "ensure_supported_within node snaps =
      Inl (''NodeCapabilitiesUnknown: capabilities for node '' @ node @ '' not fetched yet'')"
    by (simp add: ensure_supported_within_def)
next
  assume h: "snaps = pre @ Some a # post \<and> adv_node a = node \<and> (\<forall>a'. Some a' \<in> set pre \<longrightarrow> adv_node a' \<noteq> node)"
  have "await_snapshot (fetched_version node) (pre @ Some a # post) = Some (adv_version a)"
    if "\<forall>a'. Some a' \<in> set pre \<longrightarrow> adv_node a' \<noteq> node" for pre
    using that h
  proof (induction pre)
    case (Cons d pre)
    then show ?case by (cases d) (auto simp: fetched_version_def)
  qed (simp add: fetched_version_def)
  then have "await_snapshot (fetched_version node) snaps = Some (adv_version a)" using h by simp
  then show "ensure_supported_within node snaps =
        (if adv_version a = Some 2 then Inr ()
         else Inl (''UnsupportedNodeProtocol:'' @
           (case adv_version a of None \<Rightarrow> ''1'' | Some v \<Rightarrow> nat_digits (unat v))))"
    by (simp add: ensure_supported_within_def is_supported_def supported_version_def)
qed

theorem protocol_gate_is_exact_witness:
  "ensure_supported_within ''n'' [None, Some \<lparr>adv_node = ''n'', adv_version = Some 2\<rparr>] = Inr () \<and>
   ensure_supported_within ''n'' [None, Some \<lparr>adv_node = ''n'', adv_version = None\<rparr>] =
     Inl ''UnsupportedNodeProtocol:1''"
  using protocol_gate_is_exact [of "[None, Some \<lparr>adv_node = ''n'', adv_version = Some 2\<rparr>]" "''n''"
      "[None]" "\<lparr>adv_node = ''n'', adv_version = Some 2\<rparr>" "[]"]
    protocol_gate_is_exact [of "[None, Some \<lparr>adv_node = ''n'', adv_version = None\<rparr>]" "''n''"
      "[None]" "\<lparr>adv_node = ''n'', adv_version = None\<rparr>" "[]"]
  by simp

text \<open>
  a bond policy or a rate is only ever the active node's: over every history of fetches,
  failures and switches, what the policy cache answers for a node is what that node published
  last, with nothing cleared or overwritten since; the rate cache answers likewise, and only
  before the published expiry.
\<close>

theorem caches_never_serve_another_node:
  "(bond_get_for n (fold policy_cache.apply_event evs None) = Some p \<longrightarrow>
      (\<exists>es m. evs = es @ [Put m p] \<and> eq_ignore_ascii_case m n)) \<and>
   (cached_rate n fiat now (fold rates_cache.apply_event revs None) = Some r \<longrightarrow>
      (\<exists>es table exp. revs = es @ [Put n (table, exp)] \<and> now < exp \<and>
         fmlookup table (map ascii_upper_char fiat) = Some r))"
proof (intro conjI impI)
  assume "bond_get_for n (fold policy_cache.apply_event evs None) = Some p"
  from policy_cache.never_another_nodes_answer [OF this]
  show "\<exists>es m. evs = es @ [Put m p] \<and> eq_ignore_ascii_case m n" by auto
next
  assume "cached_rate n fiat now (fold rates_cache.apply_event revs None) = Some r"
  from rates_cache.never_another_nodes_answer [OF this]
  show "\<exists>es table exp. revs = es @ [Put n (table, exp)] \<and> now < exp \<and>
         fmlookup table (map ascii_upper_char fiat) = Some r"
    by (auto split: if_splits)
qed

theorem caches_never_serve_another_node_witness:
  "\<exists>es m. [Clear, Put ''AB'' (default_bond_policy BPDisabled)] = es @ [Put m (default_bond_policy BPDisabled)]
     \<and> eq_ignore_ascii_case m ''ab''"
proof -
  have "eq_ignore_ascii_case ''AB'' ''ab''" by code_simp
  then have "bond_get_for ''ab'' (fold policy_cache.apply_event
      [Clear, Put ''AB'' (default_bond_policy BPDisabled)] None) = Some (default_bond_policy BPDisabled)"
    by (simp add: bond_set_from_tags_def bond_get_for_def)
  then show ?thesis
    using caches_never_serve_another_node by blast
qed

lemma bond_fraction_Some:
  assumes "bond_fraction tags name mx = Some v"
  shows "\<exists>q. v = F64_fin q \<and> 0 \<le> q \<and> (\<forall>m. mx = Some (F64_fin m) \<longrightarrow> q \<le> m)"
proof (cases v)
  case (F64_fin q)
  then show ?thesis using assms
    by (auto simp: bond_fraction_def bind_eq_Some_conv split: if_splits option.splits)
qed (use assms in \<open>auto simp: bond_fraction_def bind_eq_Some_conv f64_is_finite_def split: if_splits option.splits\<close>)

text \<open>
  a parsed bond policy is well formed: a policy that is not enabled carries no parameter,
  the percentages are finite and not negative, the node's share is at most 1, and the claim
  window is at least a day.
\<close>

theorem bond_policy_well_formed:
  "let p = bond_parse_tags tags in
     (bp_policy p \<noteq> BPEnabled \<longrightarrow> p = default_bond_policy (bp_policy p)) \<and>
     (\<forall>v. bp_amount_pct p = Some v \<longrightarrow> (\<exists>q \<ge> 0. v = F64_fin q)) \<and>
     (\<forall>v. bp_slash_node_share_pct p = Some v \<longrightarrow> (\<exists>q \<ge> 0. q \<le> 1 \<and> v = F64_fin q)) \<and>
     (\<forall>d. bp_payout_claim_window_days p = Some d \<longrightarrow> 0 < d) \<and>
     (bp_policy p = BPEnabled \<longleftrightarrow> lower_value tags ''bond_enabled'' = Some ''true'')"
  by (auto simp: bond_parse_tags_def default_bond_policy_def Let_def bond_bool_def opt_filter_eq_Some
      dest!: bond_fraction_Some split: option.splits bool.splits if_splits)

theorem bond_policy_well_formed_witness:
  "bp_policy (bond_parse_tags [[''bond_enabled'', '' True'']]) = BPEnabled"
proof -
  have "lower_value [[''bond_enabled'', '' True'']] ''bond_enabled'' = Some ''true''" by code_simp
  then show ?thesis using bond_policy_well_formed [of "[[''bond_enabled'', '' True'']]"] by (simp add: Let_def)
qed

text \<open>The bound on two roundings and the final one, for the estimate of a bond.\<close>

lemma f64_of_rat_near:
  assumes "0 \<le> q" and "q \<le> 2 ^ 66"
  obtains v where "f64_of_rat q = F64_fin v" "0 \<le> v" "\<bar>v - q\<bar> \<le> (q + 1) / 2 ^ 53"
    "f64_min_normal \<le> q \<or> q = 0 \<Longrightarrow> \<bar>v - q\<bar> \<le> q / 2 ^ 53"
proof (cases rule: f64_of_rat_cases [OF assms(1)])
  case 1
  then show ?thesis by (intro that [of 0]) auto
next
  case 2
  have "round_mag q - q \<le> (q + 1) / 2 ^ 53" by (rule abs_le_D1 [OF round_mag_error [OF 2(1)]])
  also have "\<dots> \<le> (2 ^ 66 + 1) / 2 ^ 53" using assms(2) by (intro divide_right_mono add_right_mono) auto
  finally have "round_mag q < f64_limit" using f64_limit_large assms(2) by simp
  then show ?thesis using 2 by (simp add: f64_of_rat_def)
next
  case 3
  show ?thesis
    by (rule that [OF 3(2) round_mag_nonneg [OF assms(1)] round_mag_error [OF 3(1)]])
       (use 3(1) round_mag_rel_error in auto)
qed

lemma f64_round_error: "f64_round (F64_fin q) = F64_fin v \<Longrightarrow> 0 \<le> q \<Longrightarrow> \<bar>v - q\<bar> \<le> 1 / 2 \<and> v \<in> \<int> \<and> 0 \<le> v"
proof -
  assume v: "f64_round (F64_fin q) = F64_fin v" and q: "0 \<le> q"
  have "v = of_int \<lfloor>q + 1 / 2\<rfloor>"
  proof (cases "q = 0")
    case False
    then show ?thesis using v q by (simp add: f64_round_def sgn_if)
  qed (use v in \<open>simp add: f64_round_def floor_eq_iff\<close>)
  moreover have "\<bar>of_int \<lfloor>q + 1 / 2\<rfloor> - q\<bar> \<le> 1 / 2"
    unfolding abs_le_iff using floor_correct [of "q + 1 / 2"] by linarith
  moreover have "0 \<le> (of_int \<lfloor>q + 1 / 2\<rfloor> :: rat)" using q by simp
  ultimately show ?thesis by (simp only: Ints_of_int simp_thms)
qed

lemma f64_as_u64_int:
  assumes "v = of_int n" and "0 \<le> n" and "n < 2 ^ 64"
  shows "uint (f64_as_u64 (F64_fin v)) = n"
proof -
  have "\<not> (2 ^ 64 \<le> v)" using assms by (simp add: linorder_not_le)
  then show ?thesis using assms by (cases "n = 0") (auto simp: f64_as_u64_def uint_word_of_int)
qed

text \<open>
  the estimate of a bond is the advertised percentage of the amount to within one rounding
  to whole sats and the precision of a double, and never below the advertised floor: as long as
  the exact product fits, no intermediate overflow or precision loss moves the figure further.
\<close>

theorem estimate_bond_bound:
  assumes "bp_policy p = BPEnabled" and "bp_amount_pct p = Some (F64_fin pct)" and "0 \<le> pct"
    and "pct * of_nat (unat a) \<le> 2 ^ 63"
  shows "\<exists>n. estimate_bond_sats a p =
              Some (max n (case bp_base_amount_sats p of Some b \<Rightarrow> b | None \<Rightarrow> 0)) \<and>
             \<bar>of_int (uint n) - pct * of_nat (unat a)\<bar> \<le> 1 / 2 + (3 * pct * of_nat (unat a) + 1) / 2 ^ 53"
proof -
  define A :: rat where "A = of_nat (unat a)"
  let ?E = "2 ^ 53 :: rat"
  have "A \<le> of_nat (2 ^ 64)" unfolding A_def
    using unsigned_less [of a, where 'a = nat] by (intro of_nat_mono) simp
  then have a64: "A \<le> 2 ^ 64" by simp
  have a0: "0 \<le> A" unfolding A_def by (rule of_nat_0_le_iff)
  have small: "pct * A \<le> 2 ^ 63" unfolding A_def by (rule assms(4))
  have a1: "f64_min_normal \<le> A \<or> A = 0"
  proof (cases "unat a = 0")
    case False
    then have "1 \<le> unat a" by simp
    then have "1 \<le> A" unfolding A_def by (metis of_nat_1 of_nat_le_iff)
    then show ?thesis using f64_min_normal_le_1 by linarith
  qed (simp add: A_def)
  obtain v1 where v1: "f64_of_rat A = F64_fin v1" "0 \<le> v1" "\<bar>v1 - A\<bar> \<le> A / ?E"
  proof (rule f64_of_rat_near [of A])
    show "A \<le> 2 ^ 66" using a64 by simp
  qed (use a0 a1 that in auto)
  have prod_err: "\<bar>pct * v1 - pct * A\<bar> \<le> pct * A / ?E"
  proof -
    have "\<bar>pct * v1 - pct * A\<bar> = pct * \<bar>v1 - A\<bar>"
      using assms(3) by (simp add: right_diff_distrib [symmetric] abs_mult)
    also have "\<dots> \<le> pct * (A / ?E)" by (rule mult_left_mono [OF v1(3) assms(3)])
    finally show ?thesis by simp
  qed
  have prod0: "0 \<le> pct * v1" and B0: "0 \<le> pct * A" using assms(3) v1(2) a0 by simp_all
  have "pct * A / ?E \<le> pct * A" using B0 by (simp add: divide_le_eq mult_le_cancel_left1)
  then have prod2: "pct * v1 \<le> 2 * (pct * A)" using abs_le_D1 [OF prod_err] by linarith
  then have prod_le: "pct * v1 \<le> 2 ^ 64" using small by simp
  obtain v2 where v2: "f64_of_rat (pct * v1) = F64_fin v2" "0 \<le> v2" "\<bar>v2 - pct * v1\<bar> \<le> (pct * v1 + 1) / ?E"
  proof (rule f64_of_rat_near [OF prod0])
    show "pct * v1 \<le> 2 ^ 66" using prod_le by simp
  qed (use that in auto)
  obtain v3 where v3: "f64_round (F64_fin v2) = F64_fin v3" by (simp add: f64_round_def)
  note r = f64_round_error [OF v3 v2(2)]
  have "(pct * v1 + 1) / ?E \<le> (2 * (pct * A) + 1) / ?E"
    using prod2 by (intro divide_right_mono) (linarith, simp)
  moreover have "(3 * pct * A + 1) / ?E = (2 * (pct * A) + 1) / ?E + pct * A / ?E"
    by (simp add: add_divide_distrib [symmetric])
  ultimately have err: "\<bar>v3 - pct * A\<bar> \<le> 1 / 2 + (3 * pct * A + 1) / ?E"
    using abs_le_D1 [OF v2(3)] abs_le_D2 [OF v2(3)] abs_le_D1 [OF prod_err] abs_le_D2 [OF prod_err]
      abs_le_D1 [OF conjunct1 [OF r]] abs_le_D2 [OF conjunct1 [OF r]]
    unfolding abs_le_iff by linarith
  have "(3 * pct * A + 1) / ?E \<le> (3 * 2 ^ 63 + 1) / ?E"
    using small by (intro divide_right_mono) (linarith, simp)
  then have "v3 \<le> pct * A + 1 / 2 + (3 * 2 ^ 63 + 1) / ?E" using abs_le_D1 [OF err] by linarith
  also have "\<dots> \<le> 2 ^ 63 + 1 / 2 + (3 * 2 ^ 63 + 1) / ?E" by (intro add_right_mono small)
  also have "\<dots> < 2 ^ 64" by simp
  finally have v64: "v3 < 2 ^ 64" .
  obtain n where n: "v3 = of_int n" using r by (auto elim: Ints_cases)
  have "(of_int n :: rat) < of_int (2 ^ 64)" using v64 unfolding n by simp
  then have n64: "n < 2 ^ 64" by (simp only: of_int_less_iff)
  have n0: "0 \<le> n" using r n by simp
  have u: "uint (f64_as_u64 (F64_fin v3)) = n" by (rule f64_as_u64_int [OF n n0 n64])
  have "estimate_bond_sats a p =
      Some (max (f64_as_u64 (F64_fin v3)) (case bp_base_amount_sats p of Some b \<Rightarrow> b | None \<Rightarrow> 0))"
    using assms(1,2) r v1(1) [unfolded A_def] v2(1) v3
    by (auto simp: estimate_bond_sats_def f64_of_u64_def f64_mul_def f64_is_finite_def f64_le_def f64_eq_def Let_def)
  then show ?thesis using err u n unfolding A_def by (intro exI [of _ "f64_as_u64 (F64_fin v3)"]) simp
qed

theorem estimate_bond_bound_witness:
  "\<exists>n. estimate_bond_sats 100000 ((default_bond_policy BPEnabled)\<lparr>bp_amount_pct := Some (F64_fin (1 / 100))\<rparr>)
         = Some (max n 0) \<and> \<bar>of_int (uint n) - (1000 :: rat)\<bar> \<le> 1 / 2 + 3001 / 2 ^ 53"
  using estimate_bond_bound [of "(default_bond_policy BPEnabled)\<lparr>bp_amount_pct := Some (F64_fin (1 / 100))\<rparr>"
      "1 / 100" 100000]
  by (simp add: default_bond_policy_def)

lemma max_by_created_None: "max_by_created es = None \<Longrightarrow> es = []"
  by (cases es) (auto split: option.splits if_splits)

lemma max_by_created_Some:
  "max_by_created es = Some e \<Longrightarrow> e \<in> set es \<and> (\<forall>e' \<in> set es. re_created_at e' \<le> re_created_at e)"
  by (induction es arbitrary: e) (auto split: option.splits if_splits dest: max_by_created_None)

text \<open>
  a rate the client prices an order with was published by the node it is about to trade
  on: it is the cached table of that node, still valid, or the newest signed rates event of that
  node among what the relays answered, not yet expired, whose table quotes it. A failed lookup
  leaves the cache as it was, and an unusable answer empties it.
\<close>

theorem exchange_rate_is_authentic:
  assumes "fetch_exchange_rate parse pool key fetched node fiat now slot = (Inr (Some rate), slot')"
  shows "(slot' = slot \<and> cached_rate node fiat now slot = Some rate) \<or>
    (\<exists>events ev table. fetched = Inr events \<and> ev \<in> set events \<and> re_kind ev = 30078 \<and>
       re_pubkey ev = node \<and> tag_value (re_tags ev) ''d'' = Some ''mostro-rates'' \<and> re_verified ev \<and>
       (\<forall>e' \<in> set events. re_kind e' = 30078 \<and> re_pubkey e' = node \<and>
          tag_value (re_tags e') ''d'' = Some ''mostro-rates'' \<and> re_verified e' \<longrightarrow>
            re_created_at e' \<le> re_created_at ev) \<and>
       now < i64_saturating_add (re_created_at ev) 3600 \<and>
       parse (re_content ev) = Some table \<and> fmlookup table (map ascii_upper_char fiat) = Some rate)"
proof (cases "cached_rate node fiat now slot")
  case (Some r)
  then show ?thesis using assms by (simp add: fetch_exchange_rate_def)
next
  case None
  obtain events ev table where ev: "fetched = Inr events" "select_rates_event events node = Some ev"
      "parse (re_content ev) = Some table"
      "now < expires_at (re_created_at ev) (Option.bind (tag_value (re_tags ev) ''expiration'') parse_i64)"
      "fmlookup table (map ascii_upper_char fiat) = Some rate"
    using assms None
    by (auto simp: fetch_exchange_rate_def Let_def rates_store_def cached_rate_def not_le
        split: sum.splits option.splits if_splits)
  have sel: "ev \<in> set events" "re_kind ev = 30078" "re_pubkey ev = node"
      "tag_value (re_tags ev) ''d'' = Some ''mostro-rates''" "re_verified ev"
      "\<forall>e' \<in> set events. re_kind e' = 30078 \<and> re_pubkey e' = node \<and>
          tag_value (re_tags e') ''d'' = Some ''mostro-rates'' \<and> re_verified e' \<longrightarrow>
            re_created_at e' \<le> re_created_at ev"
    using max_by_created_Some [OF ev(2) [unfolded select_rates_event_def]]
    by (auto simp: rates_kind_def rates_d_tag_def)
  moreover have "now < i64_saturating_add (re_created_at ev) 3600"
    using ev(4) by (auto simp: expires_at_def Let_def max_lifetime_secs_def split: option.splits)
  ultimately show ?thesis using ev by blast
qed

definition sample_rates_event :: rates_event where
  "sample_rates_event = \<lparr>re_kind = 30078, re_pubkey = ''n'', re_tags = [[''d'', ''mostro-rates'']],
     re_created_at = 100, re_content = ''x'', re_verified = True\<rparr>"

theorem exchange_rate_is_authentic_witness:
  "(200 :: int) < i64_saturating_add (re_created_at sample_rates_event) 3600 \<and> re_pubkey sample_rates_event = ''n''"
proof -
  have "map ascii_upper_char ''usd'' = ''USD''" by code_simp
  then have "fst (fetch_exchange_rate (\<lambda>_. Some (fmupd ''USD'' (F64_fin 50000) fmempty)) (Inr ()) (Inr ())
      (Inr [sample_rates_event]) ''n'' ''usd'' 200 None) = Inr (Some (F64_fin 50000))"
    by (simp add: fetch_exchange_rate_def cached_rate_def select_rates_event_def sample_rates_event_def
        rates_kind_def rates_d_tag_def expires_at_def max_lifetime_secs_def rates_store_def Let_def
        i64_saturating_add_def i64_clamp_def i64_bound_defs nth_opt_def)
  then obtain s where "fetch_exchange_rate (\<lambda>_. Some (fmupd ''USD'' (F64_fin 50000) fmempty)) (Inr ()) (Inr ())
      (Inr [sample_rates_event]) ''n'' ''usd'' 200 None = (Inr (Some (F64_fin 50000)), s)"
    by (metis prod.collapse)
  from exchange_rate_is_authentic [OF this] show ?thesis
    by (auto simp: cached_rate_def)
qed

end
