(* ===== verification/Escrow_Mode.thy ===== *)
theory Escrow_Mode
  imports Node_Capabilities
begin

text \<open>
  \<open>rust/src/mostro/escrow_mode.rs\<close>, its bridge \<open>rust/src/api/escrow.rs\<close>, and the place
  where one answer of the node feeds every capability cache
  (\<open>apply_node_capabilities\<close> in \<open>rust/src/api/nostr.rs\<close>,
  \<open>refresh_subscriptions_for_active_node\<close> in \<open>rust/src/api/orders.rs\<close>).

  The gate \<open>is_cashu_mode\<close> reads two globals: what the node's tags said and the developer
  overrides. The mutators return whether they woke the subscribers.
\<close>

section \<open>Resolution\<close>

datatype escrow_mode = EMUnknown | EMLightning | EMCashu

definition is_cashu :: "escrow_mode \<Rightarrow> bool" where
  "is_cashu m \<longleftrightarrow> m = EMCashu"

definition from_tag_value :: "string \<Rightarrow> escrow_mode" where
  "from_tag_value v = (if to_ascii_lowercase (str_trim v) = ''cashu'' then EMCashu else EMLightning)"

fun as_marker :: "escrow_mode \<Rightarrow> string" where
  "as_marker EMUnknown = ''unknown''"
| "as_marker EMLightning = ''lightning''"
| "as_marker EMCashu = ''cashu''"

record cashu_node_config =
  cn_mint_url :: "string option"
  cn_escrow_locktime_days :: "u32 option"
  cn_settlement_margin_days :: "u32 option"

definition no_config :: cashu_node_config where
  "no_config = \<lparr>cn_mint_url = None, cn_escrow_locktime_days = None, cn_settlement_margin_days = None\<rparr>"

definition is_usable :: "cashu_node_config \<Rightarrow> bool" where
  "is_usable c = (case cn_mint_url c of Some u \<Rightarrow> str_trim u \<noteq> [] | None \<Rightarrow> False)"

record resolved_escrow_mode =
  re_mode :: escrow_mode
  re_config :: cashu_node_config
  re_is_overridden :: bool

definition is_cashu_usable :: "resolved_escrow_mode \<Rightarrow> bool" where
  "is_cashu_usable r \<longleftrightarrow> is_cashu (re_mode r) \<and> is_usable (re_config r)"

datatype escrow_mode_override = OvAuto | OvForceCashu

definition from_stored :: "string \<Rightarrow> escrow_mode_override" where
  "from_stored v = (if to_ascii_lowercase (str_trim v) = ''force_cashu'' then OvForceCashu else OvAuto)"

fun as_stored :: "escrow_mode_override \<Rightarrow> string" where
  "as_stored OvAuto = ''auto''"
| "as_stored OvForceCashu = ''force_cashu''"

record escrow_mode_inputs =
  em_from_tags :: escrow_mode
  em_tag_config :: cashu_node_config
  em_override_mode :: escrow_mode_override
  em_mint_url_override :: "string option"

definition resolve :: "escrow_mode_inputs \<Rightarrow> resolved_escrow_mode" where
  "resolve inp =
     (let forcing = (em_override_mode inp = OvForceCashu);
          config = (case opt_filter (\<lambda>u. u \<noteq> []) (map_option str_trim (em_mint_url_override inp)) of
              Some url \<Rightarrow> (em_tag_config inp)\<lparr>cn_mint_url := Some url\<rparr>
            | None \<Rightarrow> em_tag_config inp)
      in \<lparr>re_mode = (if forcing then EMCashu else em_from_tags inp), re_config = config,
          re_is_overridden = (forcing \<and> em_from_tags inp \<noteq> EMCashu)\<rparr>)"

definition escrow_parse_tags :: "tag_list \<Rightarrow> escrow_mode \<times> cashu_node_config" where
  "escrow_parse_tags tags =
     (let days = (\<lambda>name. Option.bind (tag_value tags name) (\<lambda>raw. parse_u32 (str_trim raw))) in
      (case tag_value tags ''escrow_mode'' of Some v \<Rightarrow> from_tag_value v | None \<Rightarrow> EMUnknown,
       \<lparr>cn_mint_url = opt_filter (\<lambda>u. u \<noteq> []) (map_option str_trim (tag_value tags ''cashu_mint_url'')),
        cn_escrow_locktime_days = days ''cashu_escrow_locktime_days'',
        cn_settlement_margin_days = days ''cashu_settlement_margin_days''\<rparr>))"

section \<open>The globals and their mutators\<close>

record escrow_overrides =
  eo_mode :: escrow_mode_override
  eo_mint_url :: "string option"

record escrow_globals =
  eg_tags :: "(escrow_mode \<times> cashu_node_config) option"
  eg_overrides :: escrow_overrides

definition escrow_set_from_tags ::
  "escrow_mode \<Rightarrow> cashu_node_config \<Rightarrow> escrow_globals \<Rightarrow> bool \<times> escrow_globals" where
  "escrow_set_from_tags mode config g =
     (eg_tags g \<noteq> Some (mode, config), g\<lparr>eg_tags := Some (mode, config)\<rparr>)"

definition get_resolved :: "escrow_globals \<Rightarrow> resolved_escrow_mode" where
  "get_resolved g =
     (let (from_tags, tag_config) = (case eg_tags g of Some t \<Rightarrow> t | None \<Rightarrow> (EMUnknown, no_config)) in
      resolve \<lparr>em_from_tags = from_tags, em_tag_config = tag_config,
               em_override_mode = eo_mode (eg_overrides g), em_mint_url_override = eo_mint_url (eg_overrides g)\<rparr>)"

definition update_overrides ::
  "(escrow_overrides \<Rightarrow> escrow_overrides) \<Rightarrow> escrow_globals \<Rightarrow> bool \<times> escrow_globals" where
  "update_overrides f g = (f (eg_overrides g) \<noteq> eg_overrides g, g\<lparr>eg_overrides := f (eg_overrides g)\<rparr>)"

definition set_overrides :: "escrow_overrides \<Rightarrow> escrow_globals \<Rightarrow> bool \<times> escrow_globals" where
  "set_overrides ov g = update_overrides (\<lambda>_. ov) g"

definition escrow_clear :: "escrow_globals \<Rightarrow> bool \<times> escrow_globals" where
  "escrow_clear g = (eg_tags g \<noteq> None, g\<lparr>eg_tags := None\<rparr>)"

definition is_cashu_mode :: "escrow_globals \<Rightarrow> bool" where
  "is_cashu_mode g \<longleftrightarrow> is_cashu_usable (get_resolved g)"

section \<open>The bridge\<close>

record escrow_mode_info =
  ei_mode :: string
  ei_mint_url :: "string option"
  ei_escrow_locktime_days :: "u32 option"
  ei_settlement_margin_days :: "u32 option"
  ei_is_overridden :: bool
  ei_is_cashu_available :: bool
  ei_force_cashu_override :: bool
  ei_mint_url_override :: "string option"

definition escrow_snapshot :: "escrow_globals \<Rightarrow> escrow_mode_info" where
  "escrow_snapshot g = (let r = get_resolved g in
     \<lparr>ei_mode = as_marker (re_mode r), ei_mint_url = cn_mint_url (re_config r),
      ei_escrow_locktime_days = cn_escrow_locktime_days (re_config r),
      ei_settlement_margin_days = cn_settlement_margin_days (re_config r),
      ei_is_overridden = re_is_overridden r, ei_is_cashu_available = is_cashu_usable r,
      ei_force_cashu_override = (eo_mode (eg_overrides g) = OvForceCashu),
      ei_mint_url_override = eo_mint_url (eg_overrides g)\<rparr>)"

text \<open>
  The URL parser belongs to a crate: \<open>parse_url\<close> answers the scheme and the host, or an error.
\<close>

definition validate_mint_url ::
  "(string \<Rightarrow> (string, string \<times> string option) result) \<Rightarrow> string \<Rightarrow> (string, unit) result" where
  "validate_mint_url parse_url url = (case parse_url url of
      Inl e \<Rightarrow> Inl (''InvalidMintUrl: '' @ [CHR 0x27] @ url @ [CHR 0x27] @ '' is not a URL ('' @ e @ '')'')
    | Inr (scheme, host) \<Rightarrow>
        if scheme \<noteq> ''http'' \<and> scheme \<noteq> ''https''
        then Inl (''InvalidMintUrl: '' @ [CHR 0x27] @ url @ [CHR 0x27] @ '' must use http or https'')
        else if (case host of None \<Rightarrow> True | Some h \<Rightarrow> h = [])
        then Inl (''InvalidMintUrl: '' @ [CHR 0x27] @ url @ [CHR 0x27] @ '' has no host'')
        else Inr ())"

text \<open>
  The settings store: \<open>None\<close> when the database was never opened; \<open>fault\<close> is the error a
  write or a read answers with.
\<close>

type_synonym settings_db = "(string, string) fmap option"

definition mode_key :: string where "mode_key = ''escrow_mode_override''"

definition mint_key :: string where "mint_key = ''cashu_mint_url_override''"

definition persist ::
  "string option \<Rightarrow> string \<Rightarrow> string option \<Rightarrow> settings_db \<Rightarrow> (string, unit) result \<times> settings_db" where
  "persist fault key v db = (case db of
      None \<Rightarrow> (Inr (), None)
    | Some m \<Rightarrow> (case fault of
        Some e \<Rightarrow> (Inl e, db)
      | None \<Rightarrow> (Inr (), Some (case v of Some s \<Rightarrow> fmupd key s m | None \<Rightarrow> fmdrop key m))))"

definition set_escrow_mode_override ::
  "string option \<Rightarrow> bool \<Rightarrow> settings_db \<times> escrow_globals \<Rightarrow> (string, unit) result \<times> settings_db \<times> escrow_globals" where
  "set_escrow_mode_override fault force s =
     (let mode = (if force then OvForceCashu else OvAuto) in
      (case persist fault mode_key (Some (as_stored mode)) (fst s) of
         (Inl e, db') \<Rightarrow> (Inl e, db', snd s)
       | (Inr _, db') \<Rightarrow> (Inr (), db', snd (update_overrides (\<lambda>ov. ov\<lparr>eo_mode := mode\<rparr>) (snd s)))))"

definition set_cashu_mint_url_override ::
  "(string \<Rightarrow> (string, string \<times> string option) result) \<Rightarrow> string option \<Rightarrow> string option
     \<Rightarrow> settings_db \<times> escrow_globals \<Rightarrow> (string, unit) result \<times> settings_db \<times> escrow_globals" where
  "set_cashu_mint_url_override parse_url fault mint_url s =
     (let normalized = opt_filter (\<lambda>u. u \<noteq> []) (map_option str_trim mint_url) in
      (case (case normalized of Some url \<Rightarrow> validate_mint_url parse_url url | None \<Rightarrow> Inr ()) of
         Inl e \<Rightarrow> (Inl e, s)
       | Inr _ \<Rightarrow> (case persist fault mint_key normalized (fst s) of
           (Inl e, db') \<Rightarrow> (Inl e, db', snd s)
         | (Inr _, db') \<Rightarrow> (Inr (), db', snd (update_overrides (\<lambda>ov. ov\<lparr>eo_mint_url := normalized\<rparr>) (snd s))))))"

definition rehydrate_escrow_overrides ::
  "(string \<Rightarrow> (string, string \<times> string option) result) \<Rightarrow> string option
     \<Rightarrow> settings_db \<times> escrow_globals \<Rightarrow> (string, unit) result \<times> settings_db \<times> escrow_globals" where
  "rehydrate_escrow_overrides parse_url fault s = (case fst s of
      None \<Rightarrow> (Inr (), s)
    | Some m \<Rightarrow> (case fault of
        Some e \<Rightarrow> (Inl e, s)
      | None \<Rightarrow>
          let mode = (case fmlookup m mode_key of Some v \<Rightarrow> from_stored v | None \<Rightarrow> OvAuto);
              mint = opt_filter (\<lambda>url. validate_mint_url parse_url url = Inr ()) (fmlookup m mint_key)
          in (Inr (), Some m, snd (set_overrides \<lparr>eo_mode = mode, eo_mint_url = mint\<rparr> (snd s)))))"

section \<open>One answer feeds every cache\<close>

record node_state =
  ns_active :: string
  ns_pow :: "capabilities option"
  ns_protocol :: "advertised option"
  ns_escrow :: escrow_globals
  ns_policy :: policy_slot

definition apply_node_capabilities ::
  "string \<Rightarrow> (string, tag_list option) result \<Rightarrow> node_state \<Rightarrow> node_state" where
  "apply_node_capabilities node fetched s =
     (if \<not> eq_ignore_ascii_case node (ns_active s) then s
      else (case fetched of
          Inr (Some tags) \<Rightarrow>
            let (pow, fc) = parse_pow_tags tags; (mode, config) = escrow_parse_tags tags in
            s\<lparr>ns_pow := set_pows node pow fc (ns_pow s),
              ns_protocol := set_protocol_version node (parse_protocol_version tags) (ns_protocol s),
              ns_escrow := snd (escrow_set_from_tags mode config (ns_escrow s)),
              ns_policy := bond_set_from_tags node (bond_parse_tags tags) (ns_policy s)\<rparr>
        | Inr None \<Rightarrow>
            s\<lparr>ns_pow := set_pows node 0 None (ns_pow s),
              ns_escrow := snd (escrow_clear (ns_escrow s)), ns_policy := bond_clear (ns_policy s)\<rparr>
        | Inl _ \<Rightarrow>
            s\<lparr>ns_escrow := snd (escrow_clear (ns_escrow s)), ns_policy := bond_clear (ns_policy s)\<rparr>))"

text \<open>
  A node switch: first the active key is replaced, and only then, after an await, do the
  refresh's first lines drop what the previous node advertised.
\<close>

definition activate_node :: "string \<Rightarrow> node_state \<Rightarrow> node_state" where
  "activate_node node s = s\<lparr>ns_active := node\<rparr>"

definition forget_node :: "node_state \<Rightarrow> node_state" where
  "forget_node s = s\<lparr>ns_escrow := snd (escrow_clear (ns_escrow s)), ns_policy := bond_clear (ns_policy s)\<rparr>"

datatype node_event =
    NFetched string "(string, tag_list option) result"
  | NActivate string
  | NForget
  | NOverride escrow_overrides

fun node_step :: "node_event \<Rightarrow> node_state \<Rightarrow> node_state" where
  "node_step (NFetched n r) s = apply_node_capabilities n r s"
| "node_step (NActivate n) s = activate_node n s"
| "node_step NForget s = forget_node s"
| "node_step (NOverride ov) s = s\<lparr>ns_escrow := snd (set_overrides ov (ns_escrow s))\<rparr>"

definition node_run :: "node_event list \<Rightarrow> node_state \<Rightarrow> node_state" where
  "node_run evs s = fold node_step evs s"

definition fresh_node_state :: "string \<Rightarrow> node_state" where
  "fresh_node_state n = \<lparr>ns_active = n, ns_pow = None, ns_protocol = None,
     ns_escrow = \<lparr>eg_tags = None, eg_overrides = \<lparr>eo_mode = OvAuto, eo_mint_url = None\<rparr>\<rparr>, ns_policy = None\<rparr>"

section \<open>Lemmas\<close>

lemma node_run_snoc [simp]: "node_run (evs @ [e]) s = node_step e (node_run evs s)"
  by (simp add: node_run_def)

lemma node_run_Nil [simp]: "node_run [] s = s"
  by (simp add: node_run_def)

lemma resolve_flag: "re_is_overridden (resolve i) \<longleftrightarrow> re_mode (resolve i) \<noteq> em_from_tags i"
  by (auto simp: resolve_def Let_def)

lemma is_cashu_mode_auto:
  "is_cashu_mode g \<Longrightarrow> eo_mode (eg_overrides g) = OvAuto \<Longrightarrow> \<exists>c. eg_tags g = Some (EMCashu, c)"
  by (auto simp: is_cashu_mode_def is_cashu_usable_def get_resolved_def resolve_def is_cashu_def Let_def
      split: option.splits prod.splits)

lemma overrides_follow_events:
  assumes "eg_overrides (ns_escrow s) = ov0" and "P ov0" and "\<And>ov. NOverride ov \<in> set evs \<Longrightarrow> P ov"
  shows "P (eg_overrides (ns_escrow (node_run evs s)))"
  using assms(3)
proof (induction evs rule: rev_induct)
  case (snoc e evs)
  then show ?case
    by (cases e) (auto simp: apply_node_capabilities_def activate_node_def forget_node_def set_overrides_def
        update_overrides_def escrow_set_from_tags_def escrow_clear_def Let_def split: sum.splits option.splits prod.splits)
qed (use assms in simp)

text \<open>What changes the active node, and what leaves it alone.\<close>

lemma active_step: "(\<And>n. e \<noteq> NActivate n) \<Longrightarrow> ns_active (node_step e s) = ns_active s"
  by (cases e) (auto simp: apply_node_capabilities_def forget_node_def Let_def
      split: sum.splits option.splits prod.splits)

lemma active_run:
  "(\<And>n. NActivate n \<notin> set post) \<Longrightarrow> ns_active (node_run (pre @ post) s) = ns_active (node_run pre s)"
proof (induction post rule: rev_induct)
  case (snoc e post)
  then have "ns_active (node_run (pre @ post) s) = ns_active (node_run pre s)" by auto
  then show ?case using snoc.prems active_step [of e] by (simp flip: append_assoc) (metis)
qed simp

text \<open>A fetch that is not dropped: the one of the node active when it lands.\<close>

definition lands :: "node_event list \<Rightarrow> node_state \<Rightarrow> node_event \<Rightarrow> bool" where
  "lands pre s e \<longleftrightarrow> (case e of
      NFetched n _ \<Rightarrow> eq_ignore_ascii_case n (ns_active (node_run pre s)) | _ \<Rightarrow> False)"

lemma tags_step:
  "eg_tags (ns_escrow (node_step e s)) = (case e of
      NFetched n r \<Rightarrow> if eq_ignore_ascii_case n (ns_active s)
        then (case r of Inr (Some tags) \<Rightarrow> Some (escrow_parse_tags tags) | _ \<Rightarrow> None)
        else eg_tags (ns_escrow s)
    | NForget \<Rightarrow> None | _ \<Rightarrow> eg_tags (ns_escrow s))"
  by (cases e) (auto simp: apply_node_capabilities_def activate_node_def forget_node_def
      set_overrides_def update_overrides_def escrow_clear_def escrow_set_from_tags_def Let_def
      split: sum.splits option.splits prod.splits)

lemma tags_have_a_source:
  assumes "eg_tags (ns_escrow s) = None"
  shows "eg_tags (ns_escrow (node_run evs s)) = Some t \<Longrightarrow>
    \<exists>pre node tags post. evs = pre @ NFetched node (Inr (Some tags)) # post \<and>
       escrow_parse_tags tags = t \<and> lands pre s (NFetched node (Inr (Some tags))) \<and> NForget \<notin> set post \<and>
       (\<forall>p1 e p2. post = p1 @ e # p2 \<longrightarrow> \<not> lands (pre @ NFetched node (Inr (Some tags)) # p1) s e)"
proof (induction evs rule: rev_induct)
  case Nil
  then show ?case using assms by simp
next
  case (snoc e evs)
  show ?case
  proof (cases "\<exists>node tags. e = NFetched node (Inr (Some tags)) \<and> lands evs s e")
    case True
    then obtain node tags where "e = NFetched node (Inr (Some tags))" "lands evs s e" by blast
    moreover from this have "escrow_parse_tags tags = t"
      using snoc.prems by (simp add: tags_step lands_def del: node_step.simps)
    ultimately show ?thesis
      by (intro exI [of _ evs] exI [of _ node] exI [of _ tags] exI [of _ "[]"]) simp
  next
    case False
    have nf: "e \<noteq> NForget" and nl: "\<not> lands evs s e"
      and keep: "eg_tags (ns_escrow (node_run evs s)) = Some t"
      using snoc.prems False
      by (auto simp: lands_def tags_step simp del: node_step.simps
          split: node_event.splits sum.splits option.splits if_splits)
    from snoc.IH [OF keep] obtain pre node tags post where
      *: "evs = pre @ NFetched node (Inr (Some tags)) # post" "escrow_parse_tags tags = t"
        "lands pre s (NFetched node (Inr (Some tags)))" "NForget \<notin> set post"
        "\<forall>p1 e p2. post = p1 @ e # p2 \<longrightarrow> \<not> lands (pre @ NFetched node (Inr (Some tags)) # p1) s e"
      by blast
    have "\<not> lands (pre @ NFetched node (Inr (Some tags)) # p1) s e'" if "post @ [e] = p1 @ e' # p2" for p1 e' p2
    proof (cases p2 rule: rev_cases)
      case Nil
      then show ?thesis using that nl *(1) by simp
    next
      case (snoc p3 x)
      then show ?thesis using that *(5) by auto
    qed
    then show ?thesis using * nf
      by (intro exI [of _ pre] exI [of _ node] exI [of _ tags] exI [of _ "post @ [e]"]) auto
  qed
qed

section \<open>Properties\<close>

text \<open>Every activation has been followed by the refresh that forgets the previous node.\<close>

definition switches_settled :: "node_event list \<Rightarrow> bool" where
  "switches_settled evs \<longleftrightarrow> (\<forall>p n q. evs = p @ NActivate n # q \<longrightarrow> NForget \<in> set q)"

text \<open>
  Cashu paths open only on the active node's own word. Over every history of fetches,
  failures, node switches and overrides that do not force the mode, once the switches have run
  their refresh, an open gate means that the node active now answered with
  \<open>escrow_mode = cashu\<close>, that nothing it or a failed fetch said later replaced that answer, and
  that no switch happened since.
\<close>

theorem cashu_gate_is_the_active_nodes_word:
  assumes "is_cashu_mode (ns_escrow (node_run evs (fresh_node_state n0)))"
    and "switches_settled evs"
    and "\<And>ov. NOverride ov \<in> set evs \<Longrightarrow> eo_mode ov = OvAuto"
  shows "\<exists>pre node tags post. evs = pre @ NFetched node (Inr (Some tags)) # post \<and>
     fst (escrow_parse_tags tags) = EMCashu \<and>
     eq_ignore_ascii_case node (ns_active (node_run evs (fresh_node_state n0))) \<and>
     NForget \<notin> set post \<and> (\<forall>n. NActivate n \<notin> set post) \<and>
     (\<forall>p1 m r p2. post = p1 @ NFetched m r # p2 \<longrightarrow>
        \<not> eq_ignore_ascii_case m (ns_active (node_run evs (fresh_node_state n0))))"
proof -
  let ?s = "fresh_node_state n0"
  have "eo_mode (eg_overrides (ns_escrow (node_run evs ?s))) = OvAuto"
    by (rule overrides_follow_events [where P = "\<lambda>ov. eo_mode ov = OvAuto", OF refl])
       (use assms(3) in \<open>auto simp: fresh_node_state_def\<close>)
  then obtain c where c: "eg_tags (ns_escrow (node_run evs ?s)) = Some (EMCashu, c)"
    using is_cashu_mode_auto [OF assms(1)] by blast
  have "eg_tags (ns_escrow ?s) = None" by (simp add: fresh_node_state_def)
  from tags_have_a_source [OF this c] obtain pre node tags post where
    *: "evs = pre @ NFetched node (Inr (Some tags)) # post" "escrow_parse_tags tags = (EMCashu, c)"
      "lands pre ?s (NFetched node (Inr (Some tags)))" "NForget \<notin> set post"
      "\<forall>p1 e p2. post = p1 @ e # p2 \<longrightarrow> \<not> lands (pre @ NFetched node (Inr (Some tags)) # p1) ?s e"
    by blast
  have na: "NActivate n \<notin> set post" for n
  proof
    assume "NActivate n \<in> set post"
    then obtain a b where "post = a @ NActivate n # b" by (meson split_list)
    then have "NForget \<in> set b" using assms(2) *(1) unfolding switches_settled_def
      by (metis append.assoc append_Cons)
    then show False using *(4) \<open>post = a @ NActivate n # b\<close> by simp
  qed
  have act: "ns_active (node_run (pre @ NFetched node (Inr (Some tags)) # p1) ?s) = ns_active (node_run pre ?s)"
    if "set p1 \<subseteq> set post" for p1
    by (rule active_run) (use na that in auto)
  have final: "ns_active (node_run evs ?s) = ns_active (node_run pre ?s)"
    using act [of post] *(1) by simp
  have "\<not> eq_ignore_ascii_case m (ns_active (node_run evs ?s))" if "post = p1 @ NFetched m r # p2" for p1 m r p2
  proof -
    have "set p1 \<subseteq> set post" using that by auto
    from act [OF this] show ?thesis using *(5) [rule_format, OF that] final by (simp add: lands_def)
  qed
  then show ?thesis using * na final
    by (intro exI [of _ pre] exI [of _ node] exI [of _ tags] exI [of _ post]) (auto simp: lands_def)
qed

theorem cashu_gate_is_the_active_nodes_word_witness:
  "\<exists>pre node tags post.
     [NActivate ''B'', NForget, NFetched ''A'' (Inr None),
      NFetched ''b'' (Inr (Some [[''escrow_mode'', ''cashu''], [''cashu_mint_url'', ''m'']]))]
       = pre @ NFetched node (Inr (Some tags)) # post \<and> fst (escrow_parse_tags tags) = EMCashu"
proof -
  let ?evs = "[NActivate ''B'', NForget, NFetched ''A'' (Inr None),
      NFetched ''b'' (Inr (Some [[''escrow_mode'', ''cashu''], [''cashu_mint_url'', ''m'']]))]"
  have "is_cashu_mode (ns_escrow (node_run ?evs (fresh_node_state ''A'')))" by code_simp
  moreover have "switches_settled ?evs"
    by (auto simp: switches_settled_def Cons_eq_append_conv)
  ultimately show ?thesis
    using cashu_gate_is_the_active_nodes_word [of ?evs "''A''"] by auto
qed

text \<open>
  the window of a switch. Making another node active does not by itself close the gate: until
  the refresh forgets it, the previous node's answer still opens Cashu for the new one. The
  refresh closes it, and so does a failed or an empty fetch of the active node, while the answer
  of a node that is no longer active changes nothing.
\<close>

theorem switch_window:
  assumes "eo_mode (eg_overrides (ns_escrow s)) = OvAuto"
  shows "is_cashu_mode (ns_escrow (node_step (NActivate n) s)) = is_cashu_mode (ns_escrow s) \<and>
    \<not> is_cashu_mode (ns_escrow (node_step NForget s)) \<and>
    bond_get_for m (ns_policy (node_step NForget s)) = None \<and>
    (eq_ignore_ascii_case k (ns_active s) \<longrightarrow>
       (\<forall>e. \<not> is_cashu_mode (ns_escrow (node_step (NFetched k (Inl e)) s)) \<and>
            ns_pow (node_step (NFetched k (Inl e)) s) = ns_pow s \<and>
            ns_protocol (node_step (NFetched k (Inl e)) s) = ns_protocol s) \<and>
       \<not> is_cashu_mode (ns_escrow (node_step (NFetched k (Inr None)) s))) \<and>
    (\<not> eq_ignore_ascii_case k (ns_active s) \<longrightarrow> node_step (NFetched k r) s = s)"
proof -
  have closed: "\<not> is_cashu_mode g" if "eg_tags g = None" "eo_mode (eg_overrides g) = OvAuto" for g
    using that is_cashu_mode_auto [of g] by auto
  show ?thesis using assms
    by (auto simp: activate_node_def forget_node_def escrow_clear_def bond_clear_def bond_get_for_def
        apply_node_capabilities_def intro!: closed)
       (auto dest!: is_cashu_mode_auto)
qed

theorem switch_window_witness:
  "is_cashu_mode (ns_escrow (node_step (NActivate ''C'')
     (node_run [NFetched ''A'' (Inr (Some [[''escrow_mode'', ''cashu''], [''cashu_mint_url'', ''m'']]))]
        (fresh_node_state ''A''))))"
proof -
  let ?s = "node_run [NFetched ''A'' (Inr (Some [[''escrow_mode'', ''cashu''], [''cashu_mint_url'', ''m'']]))]
        (fresh_node_state ''A'')"
  have "eo_mode (eg_overrides (ns_escrow ?s)) = OvAuto" and "is_cashu_mode (ns_escrow ?s)" by code_simp+
  then show ?thesis using switch_window [of ?s] by blast
qed

lemma rehydrate_fixed:
  "rehydrate_escrow_overrides parse_url None (Some m, g) = (Inr (), Some m, g) \<longleftrightarrow>
     eo_mode (eg_overrides g) = (case fmlookup m mode_key of Some v \<Rightarrow> from_stored v | None \<Rightarrow> OvAuto) \<and>
     eo_mint_url (eg_overrides g) =
       opt_filter (\<lambda>url. validate_mint_url parse_url url = Inr ()) (fmlookup m mint_key)"
proof -
  have "g\<lparr>eg_overrides := ov\<rparr> = g \<longleftrightarrow> ov = eg_overrides g" for ov by (cases g) auto
  moreover have "\<lparr>eo_mode = a, eo_mint_url = b\<rparr> = eg_overrides g \<longleftrightarrow>
      a = eo_mode (eg_overrides g) \<and> b = eo_mint_url (eg_overrides g)" for a b
    by (cases "eg_overrides g") auto
  ultimately show ?thesis
    by (auto simp: rehydrate_escrow_overrides_def set_overrides_def update_overrides_def Let_def)
qed

lemma mode_key_mint_key [simp]: "mode_key \<noteq> mint_key" "mint_key \<noteq> mode_key"
  by (simp_all add: mode_key_def mint_key_def)

lemma from_stored_as_stored [simp]: "from_stored (as_stored ov) = ov"
proof -
  have "from_stored ''auto'' = OvAuto" and "from_stored ''force_cashu'' = OvForceCashu" by code_simp+
  then show ?thesis by (cases ov) auto
qed

text \<open>
  the override in memory and the persisted one never part: from an agreement, whether the
  write succeeds or fails and whether the URL is accepted or refused, loading the store again
  finds exactly the overrides that are in force.
\<close>

theorem overrides_agree_with_store:
  assumes "rehydrate_escrow_overrides parse_url None (Some m, g) = (Inr (), Some m, g)"
    and "s' = snd (set_escrow_mode_override fault force (Some m, g)) \<or>
         s' = snd (set_cashu_mint_url_override parse_url fault mint (Some m, g))"
  shows "rehydrate_escrow_overrides parse_url None s' = (Inr (), s')"
  using assms(2)
proof
  assume s': "s' = snd (set_escrow_mode_override fault force (Some m, g))"
  show ?thesis
  proof (cases fault)
    case None
    then show ?thesis using assms(1) s'
      by (simp add: set_escrow_mode_override_def persist_def update_overrides_def rehydrate_fixed Let_def)
  next
    case (Some e)
    then show ?thesis using assms(1) s' by (simp add: set_escrow_mode_override_def persist_def Let_def)
  qed
next
  assume s': "s' = snd (set_cashu_mint_url_override parse_url fault mint (Some m, g))"
  let ?n = "opt_filter (\<lambda>u. u \<noteq> []) (map_option str_trim mint)"
  let ?check = "case ?n of Some url \<Rightarrow> validate_mint_url parse_url url | None \<Rightarrow> Inr ()"
  show ?thesis
  proof (cases "?check = Inr () \<and> fault = None")
    case True
    then have "s' = (Some (case ?n of Some v \<Rightarrow> fmupd mint_key v m | None \<Rightarrow> fmdrop mint_key m),
        g\<lparr>eg_overrides := (eg_overrides g)\<lparr>eo_mint_url := ?n\<rparr>\<rparr>)"
      using s' by (simp add: set_cashu_mint_url_override_def persist_def update_overrides_def Let_def)
    then show ?thesis using assms(1) True
      by (cases ?n) (simp_all add: rehydrate_fixed)
  next
    case False
    then have "s' = (Some m, g)" using s'
      by (cases ?check; cases fault) (auto simp: set_cashu_mint_url_override_def persist_def Let_def)
    then show ?thesis using assms(1) by simp
  qed
qed

theorem overrides_agree_with_store_witness:
  "rehydrate_escrow_overrides (\<lambda>_. Inr (''http'', Some ''h'')) None
     (snd (set_cashu_mint_url_override (\<lambda>_. Inr (''http'', Some ''h'')) None (Some ''http://h'')
        (Some fmempty, ns_escrow (fresh_node_state ''A''))))
   = (Inr (), snd (set_cashu_mint_url_override (\<lambda>_. Inr (''http'', Some ''h'')) None (Some ''http://h'')
        (Some fmempty, ns_escrow (fresh_node_state ''A''))))"
  by (rule overrides_agree_with_store [of _ fmempty "ns_escrow (fresh_node_state ''A'')"])
     (auto simp: rehydrate_fixed fresh_node_state_def)

end
