(* ===== verification/Bond_Claims.thy ===== *)
theory Bond_Claims
  imports Pending_Requests
begin

text \<open>
  Payout claims on slashed bonds: \<open>rust/src/mostro/bond_claims.rs\<close>, the claim half of
  \<open>rust/src/api/bond.rs\<close> and the dispatcher's helpers in \<open>rust/src/api/orders.rs\<close>.

  The claims table is the list of its rows in insertion order (\<open>INSERT OR REPLACE\<close> moves a
  row to the end); listing sorts it by \<open>updated_at\<close>, newest first, rows of the same instant in
  insertion order. \<open>claim_faults\<close> says which store calls fail during one operation.
\<close>

section \<open>Order on the phases\<close>

definition phase_rank :: "bond_claim_phase \<Rightarrow> nat" where
  "phase_rank p = (case p of ClaimPending \<Rightarrow> 0 | ClaimSubmitted \<Rightarrow> 1 | ClaimAcknowledged \<Rightarrow> 2
     | ClaimCompleted \<Rightarrow> 3 | ClaimExpired \<Rightarrow> 4)"

lemma phase_rank_inject: "phase_rank p = phase_rank q \<longleftrightarrow> p = q"
  by (cases p; cases q) (simp_all add: phase_rank_def)

instantiation bond_claim_phase :: linorder
begin

definition less_eq_bond_claim_phase :: "bond_claim_phase \<Rightarrow> bond_claim_phase \<Rightarrow> bool" where
  "less_eq_bond_claim_phase p q \<longleftrightarrow> phase_rank p \<le> phase_rank q"

definition less_bond_claim_phase :: "bond_claim_phase \<Rightarrow> bond_claim_phase \<Rightarrow> bool" where
  "less_bond_claim_phase p q \<longleftrightarrow> phase_rank p < phase_rank q"

instance
  by standard (auto simp: less_eq_bond_claim_phase_def less_bond_claim_phase_def
      phase_rank_inject [symmetric])

end

section \<open>Pure operations\<close>

definition default_claim_window_days :: u32 where "default_claim_window_days = 15"

definition window_secs :: "i64 \<Rightarrow> i64" where
  "window_secs days = i64_saturating_mul days 86400"

definition claim_deadline :: "i64 \<Rightarrow> u32 option \<Rightarrow> i64" where
  "claim_deadline slashed_at window_days =
     (let days = uint (case window_days of Some d \<Rightarrow> d | None \<Rightarrow> default_claim_window_days)
      in i64_saturating_add slashed_at (window_secs days))"

record payout_request =
  pq_order_id :: string
  pq_node_pubkey :: string
  pq_trade_index :: "u32 option"
  pq_amount_sats :: u64
  pq_slashed_at :: i64
  pq_fiat_code :: string
  pq_fiat_amount :: "f64 option"
  pq_payment_method :: string

datatype claim_notice = NoticeNew | NoticeReprompt

definition fresh_claim :: "payout_request \<Rightarrow> i64 \<Rightarrow> i64 \<Rightarrow> bond_claim" where
  "fresh_claim r deadline_at now = \<lparr>bc_order_id = pq_order_id r, bc_node_pubkey = pq_node_pubkey r,
     bc_trade_index = pq_trade_index r, bc_amount_sats = pq_amount_sats r,
     bc_slashed_at = pq_slashed_at r, bc_deadline_at = deadline_at,
     bc_phase = (if now > deadline_at then ClaimExpired else ClaimPending),
     bc_submitted_invoice = None, bc_fiat_code = pq_fiat_code r, bc_fiat_amount = pq_fiat_amount r,
     bc_payment_method = pq_payment_method r, bc_updated_at = now\<rparr>"

definition first_receipt ::
  "payout_request \<Rightarrow> u32 option \<Rightarrow> i64 \<Rightarrow> bond_claim option \<times> claim_notice option" where
  "first_receipt r window_days now =
     (let claim = fresh_claim r (claim_deadline (pq_slashed_at r) window_days) now
      in (Some claim, if bc_phase claim = ClaimPending then Some NoticeNew else None))"

definition upsert_claim ::
  "bond_claim option \<Rightarrow> payout_request \<Rightarrow> u32 option \<Rightarrow> i64 \<Rightarrow> bond_claim option \<times> claim_notice option" where
  "upsert_claim stored r window_days now = (case stored of
      None \<Rightarrow> first_receipt r window_days now
    | Some c \<Rightarrow>
        if bc_slashed_at c \<noteq> pq_slashed_at r then first_receipt r window_days now
        else (case bc_phase c of
            ClaimPending \<Rightarrow> (None, None)
          | ClaimSubmitted \<Rightarrow> (None, None)
          | ClaimCompleted \<Rightarrow> (None, None)
          | ClaimAcknowledged \<Rightarrow>
              (Some (c\<lparr>bc_phase := ClaimPending, bc_submitted_invoice := None,
                       bc_trade_index := opt_or (bc_trade_index c) (pq_trade_index r), bc_updated_at := now\<rparr>),
               Some NoticeReprompt)
          | ClaimExpired \<Rightarrow>
              if now > bc_deadline_at c then (None, None)
              else (Some (c\<lparr>bc_phase := ClaimPending, bc_updated_at := now\<rparr>), Some NoticeNew)))"

definition resolve_submission_rejection :: "bond_claim \<Rightarrow> i64 \<Rightarrow> (string, bond_claim_phase) result" where
  "resolve_submission_rejection claim now =
     (if bc_phase claim \<in> {ClaimAcknowledged, ClaimCompleted} then Inr (bc_phase claim)
      else if now > bc_deadline_at claim then Inr ClaimExpired
      else Inl ''BondClaimRejected'')"

definition retain_margin_days :: u32 where "retain_margin_days = 15"

definition retain_until :: "i64 \<Rightarrow> u32 option \<Rightarrow> i64" where
  "retain_until now window_days =
     (let days = uint (case window_days of Some d \<Rightarrow> d | None \<Rightarrow> default_claim_window_days) + uint retain_margin_days
      in i64_saturating_add now (window_secs days))"

definition claim_nodes_of :: "bond_claim list \<Rightarrow> string set" where
  "claim_nodes_of claims = set (map bc_node_pubkey (filter (\<lambda>c. \<not> bond_claim_is_terminal (bc_phase c)) claims))"

section \<open>The claim store and the node sets\<close>

text \<open>
  \<open>ce_setting\<close> is the persisted map of retained nodes, \<open>None\<close> when absent or unreadable as
  JSON; \<open>ce_resubscribed\<close> counts the refreshes of the kind-14 filter.
\<close>

record claim_env =
  ce_rows :: "bond_claim list option"
  ce_setting :: "(string, i64) fmap option"
  ce_nodes :: "string set"
  ce_retained :: "(string, i64) fmap"
  ce_updates :: "(string \<times> string \<times> bond_claim_phase) list"
  ce_resubscribed :: nat

record claim_faults =
  cf_get :: bool
  cf_save :: "string option"
  cf_list :: bool
  cf_setting_read :: bool
  cf_setting_write :: bool

definition no_faults :: claim_faults where
  "no_faults = \<lparr>cf_get = False, cf_save = None, cf_list = False, cf_setting_read = False, cf_setting_write = False\<rparr>"

definition save_row :: "bond_claim \<Rightarrow> bond_claim list \<Rightarrow> bond_claim list" where
  "save_row c rows = filter (\<lambda>r. bond_claim_storage_id r \<noteq> bond_claim_storage_id c) rows @ [c]"

definition find_row :: "string \<Rightarrow> string \<Rightarrow> bond_claim list \<Rightarrow> bond_claim option" where
  "find_row node order rows = find (\<lambda>r. bond_claim_storage_id r = bond_claim_key node order) rows"

definition list_rows :: "bond_claim list \<Rightarrow> bond_claim list" where
  "list_rows rows = sort_key (\<lambda>c. - bc_updated_at c) rows"

definition claim_node_pubkeys :: "i64 \<Rightarrow> claim_env \<Rightarrow> string set" where
  "claim_node_pubkeys now env =
     ce_nodes env \<union> {n. \<exists>until. fmlookup (ce_retained env) n = Some until \<and> until \<ge> now}"

definition retain_node :: "string \<Rightarrow> i64 \<Rightarrow> (string, i64) fmap \<Rightarrow> (string, i64) fmap" where
  "retain_node node until m = (let k = to_ascii_lowercase node in
     case fmlookup m k of
       None \<Rightarrow> fmupd k until m
     | Some old \<Rightarrow> if old < until then fmupd k until m else m)"

definition prune_retained :: "i64 \<Rightarrow> (string, i64) fmap \<Rightarrow> bool \<times> (string, i64) fmap" where
  "prune_retained now m = (let m' = fmretain (\<lambda>_ until. until \<ge> now) m in (fmlen m' \<noteq> fmlen m, m'))"

definition is_retained :: "string \<Rightarrow> i64 \<Rightarrow> (string, i64) fmap \<Rightarrow> bool" where
  "is_retained pubkey now m = (case fmlookup m pubkey of Some until \<Rightarrow> until \<ge> now | None \<Rightarrow> False)"

definition is_claim_node :: "string \<Rightarrow> i64 \<Rightarrow> claim_env \<Rightarrow> bool" where
  "is_claim_node pubkey now env \<longleftrightarrow> pubkey \<in> ce_nodes env \<or> is_retained pubkey now (ce_retained env)"

definition persist_retained_nodes :: "claim_faults \<Rightarrow> claim_env \<Rightarrow> claim_env" where
  "persist_retained_nodes f env =
     (if ce_rows env = None \<or> cf_setting_write f then env else env\<lparr>ce_setting := Some (ce_retained env)\<rparr>)"

definition merge_retained :: "(string \<times> i64) list \<Rightarrow> (string, i64) fmap \<Rightarrow> (string, i64) fmap" where
  "merge_retained entries m = fold (\<lambda>(n, until). retain_node n until) entries m"

text \<open>The stored map as the code iterates over it; the merge does not depend on the order.\<close>

definition stored_entries :: "claim_env \<Rightarrow> (string \<times> i64) list" where
  "stored_entries env = (case ce_setting env of Some m \<Rightarrow> sorted_list_of_fmap m | None \<Rightarrow> [])"

definition refresh_claim_nodes :: "claim_faults \<Rightarrow> i64 \<Rightarrow> claim_env \<Rightarrow> claim_env" where
  "refresh_claim_nodes f now env = (case ce_rows env of
      None \<Rightarrow> env
    | Some rows \<Rightarrow>
        let before = claim_node_pubkeys now env;
            env1 = env\<lparr>ce_nodes := claim_nodes_of (if cf_list f then [] else list_rows rows)\<rparr>;
            stored = (if cf_setting_read f then [] else stored_entries env);
            (dropped, kept) = prune_retained now (merge_retained stored (ce_retained env1));
            env2 = env1\<lparr>ce_retained := kept\<rparr>;
            env3 = (if dropped \<or> fmlen kept \<noteq> length stored then persist_retained_nodes f env2 else env2)
        in if claim_node_pubkeys now env3 \<noteq> before
           then env3\<lparr>ce_resubscribed := ce_resubscribed env3 + 1\<rparr> else env3)"

definition storage_unavailable :: string where "storage_unavailable = ''StorageUnavailable''"

definition persist_claim ::
  "claim_faults \<Rightarrow> i64 \<Rightarrow> bond_claim \<Rightarrow> claim_env \<Rightarrow> (string, unit) result \<times> claim_env" where
  "persist_claim f now c env = (case ce_rows env of
      None \<Rightarrow> (Inl storage_unavailable, env)
    | Some rows \<Rightarrow> (case cf_save f of
        Some e \<Rightarrow> (Inl e, env)
      | None \<Rightarrow> (Inr (), refresh_claim_nodes f now (env\<lparr>ce_rows := Some (save_row c rows)\<rparr>))))"

definition emit_claim_update :: "string \<Rightarrow> string \<Rightarrow> bond_claim_phase \<Rightarrow> claim_env \<Rightarrow> claim_env" where
  "emit_claim_update node order phase env = env\<lparr>ce_updates := ce_updates env @ [(node, order, phase)]\<rparr>"

text \<open>\<open>policy\<close> is the node's cached policy, absent when it is unknown.\<close>

definition retain_previous_node ::
  "claim_faults \<Rightarrow> i64 \<Rightarrow> bond_policy_info option \<Rightarrow> string \<Rightarrow> claim_env \<Rightarrow> claim_env" where
  "retain_previous_node f now policy previous env =
     (if (case policy of Some p \<Rightarrow> bp_policy p \<noteq> BPEnabled | None \<Rightarrow> False) then env
      else let until = retain_until now (Option.bind policy bp_payout_claim_window_days);
               kept = snd (prune_retained now (retain_node previous until (ce_retained env)));
               env1 = persist_retained_nodes f (env\<lparr>ce_retained := kept\<rparr>)
           in env1\<lparr>ce_resubscribed := ce_resubscribed env1 + 1\<rparr>)"

section \<open>What the daemon's messages do\<close>

definition is_claim_action :: "core_action \<Rightarrow> bool" where
  "is_claim_action a \<longleftrightarrow> a \<in> {A_AddBondInvoice, A_BondInvoiceAccepted, A_BondPayoutCompleted, A_CantDo}"

definition apply_payout_request ::
  "claim_faults \<Rightarrow> i64 \<Rightarrow> u32 option \<Rightarrow> payout_request \<Rightarrow> claim_env \<Rightarrow> claim_env" where
  "apply_payout_request f now window_days r env = (case ce_rows env of
      None \<Rightarrow> env
    | Some rows \<Rightarrow>
        let stored = (if cf_get f then None else find_row (pq_node_pubkey r) (pq_order_id r) rows) in
        (case upsert_claim stored r window_days now of
           (None, _) \<Rightarrow> env
         | (Some claim, notice) \<Rightarrow> (case persist_claim f now claim env of
             (Inl _, env1) \<Rightarrow> env1
           | (Inr _, env1) \<Rightarrow>
               if notice \<noteq> None \<or> bc_phase claim = ClaimExpired
               then emit_claim_update (pq_node_pubkey r) (pq_order_id r) (bc_phase claim) env1 else env1)))"

definition advance_claim_phase ::
  "claim_faults \<Rightarrow> i64 \<Rightarrow> string \<Rightarrow> string \<Rightarrow> bond_claim_phase \<Rightarrow> claim_env \<Rightarrow> claim_env" where
  "advance_claim_phase f now node order phase env = (case ce_rows env of
      None \<Rightarrow> env
    | Some rows \<Rightarrow> (case (if cf_get f then None else find_row node order rows) of
        None \<Rightarrow> env
      | Some claim \<Rightarrow>
          if bc_phase claim = phase \<or> bc_phase claim = ClaimCompleted \<or>
             (bc_phase claim > phase \<and> bc_phase claim \<noteq> ClaimExpired)
          then env
          else (case persist_claim f now (claim\<lparr>bc_phase := phase, bc_updated_at := now\<rparr>) env of
              (Inl _, env1) \<Rightarrow> env1
            | (Inr _, env1) \<Rightarrow> emit_claim_update node order phase env1)))"

section \<open>Submitting an invoice\<close>

text \<open>
  \<open>submit_bond_payout_invoice\<close> up to its publish (\<open>submit_begin\<close>), the save that follows
  the publish (\<open>submit_save\<close>) and from the reply on (\<open>submit_finish\<close>). The save writes the copy
  of the claim that was read before the publish was awaited, whatever became of the row since. \<open>decode\<close> reads the amount of a bolt11 (\<open>Some None\<close> when it carries none);
  \<open>submit_world\<close> answers the fallible calls in between, in their order.
\<close>

definition u64_saturating_mul :: "u64 \<Rightarrow> u64 \<Rightarrow> u64" where
  "u64_saturating_mul a b = (if unat a * unat b < 2 ^ 64 then a * b else - 1)"

definition is_prefix_of :: "string \<Rightarrow> string \<Rightarrow> bool" where
  "is_prefix_of p s \<longleftrightarrow> take (length p) s = p"

function trim_start_matches :: "string \<Rightarrow> string \<Rightarrow> string" where
  "trim_start_matches p s =
     (if p \<noteq> [] \<and> is_prefix_of p s then trim_start_matches p (drop (length p) s) else s)"
  by pat_completeness auto
termination
proof (relation "measure (\<lambda>(p, s). length s)", goal_cases)
  case (2 p s)
  then have "s \<noteq> []" by (auto simp: is_prefix_of_def)
  with 2 show ?case by simp
qed simp

declare trim_start_matches.simps [simp del]

definition claim_for_order :: "string \<Rightarrow> claim_env \<Rightarrow> (string, bond_claim option) result" where
  "claim_for_order order env = (case ce_rows env of
      None \<Rightarrow> Inl storage_unavailable
    | Some rows \<Rightarrow>
        let for_order = filter (\<lambda>c. bc_order_id c = order) (list_rows rows)
        in Inr (case for_order of [] \<Rightarrow> None
           | first # _ \<Rightarrow> Some (case find (\<lambda>c. \<not> bond_claim_is_terminal (bc_phase c)) for_order of
               Some c \<Rightarrow> c | None \<Rightarrow> first)))"

record submit_world =
  sw_trade_key_index :: "u32 option"
  sw_sender_pubkey :: "u32 \<Rightarrow> (string, string) result"
  sw_build :: "(string, unit) result"
  sw_request_id :: u64
  sw_waiter :: waiter
  sw_publish :: "(string, unit) result"

record submitted =
  sub_claim :: bond_claim
  sub_trade_pk :: string
  sub_request_id :: u64

definition submit_begin ::
  "claim_faults \<Rightarrow> i64 \<Rightarrow> (string \<Rightarrow> u64 option option) \<Rightarrow> submit_world \<Rightarrow> string \<Rightarrow> string
     \<Rightarrow> claim_env \<times> pending_map \<Rightarrow> (string, submitted) result \<times> claim_env \<times> pending_map" where
  "submit_begin f now decode w order_id invoice s =
     (let (env, pend) = s; bolt11 = trim_start_matches ''lightning:'' (str_trim invoice) in
      if bolt11 = [] then (Inl ''InvalidInvoice'', s)
      else (case claim_for_order order_id env of
          Inl e \<Rightarrow> (Inl e, s)
        | Inr found \<Rightarrow>
            if (case decode bolt11 of
                  Some (Some msat) \<Rightarrow> msat \<noteq> 0 \<and>
                    (case found of Some c \<Rightarrow> msat \<noteq> u64_saturating_mul (bc_amount_sats c) 1000 | None \<Rightarrow> False)
                | _ \<Rightarrow> False)
            then (Inl ''InvoiceAmountMismatch'', s)
            else (case found of
                None \<Rightarrow> (Inl ''ClaimNotFound'', s)
              | Some claim \<Rightarrow>
                  if bc_phase claim \<notin> {ClaimPending, ClaimSubmitted} then (Inl ''ClaimNotClaimable'', s)
                  else if now > bc_deadline_at claim
                  then (case persist_claim f now (claim\<lparr>bc_phase := ClaimExpired, bc_updated_at := now\<rparr>) env of
                      (Inl e, env1) \<Rightarrow> (Inl e, env1, pend)
                    | (Inr _, env1) \<Rightarrow> (Inl ''BondClaimExpired'',
                        emit_claim_update (bc_node_pubkey claim) order_id ClaimExpired env1, pend))
                  else (case opt_or (bc_trade_index claim) (sw_trade_key_index w) of
                      None \<Rightarrow> (Inl ''TradeKeyMissing'', s)
                    | Some index \<Rightarrow> (case sw_sender_pubkey w index of
                        Inl e \<Rightarrow> (Inl e, s)
                      | Inr pk \<Rightarrow> (case sw_build w of
                          Inl e \<Rightarrow> (Inl e, s)
                        | Inr _ \<Rightarrow>
                            let pend1 = fmupd pk \<lparr>pr_request_id = sw_request_id w, pr_trade_index = index,
                                  pr_kind = KBondClaimSubmit, pr_tx = Some (sw_waiter w)\<rparr> pend in
                            (case sw_publish w of
                               Inl e \<Rightarrow> (Inl e, env, remove_pending_request pk (sw_request_id w) pend1)
                             | Inr _ \<Rightarrow>
                                 (Inr \<lparr>sub_claim = claim\<lparr>bc_phase := ClaimSubmitted,
                                         bc_submitted_invoice := Some bolt11, bc_updated_at := now\<rparr>,
                                       sub_trade_pk = pk, sub_request_id = sw_request_id w\<rparr>, env, pend1))))))))"

definition submit_save ::
  "claim_faults \<Rightarrow> i64 \<Rightarrow> submitted \<Rightarrow> claim_env \<Rightarrow> (string, unit) result \<times> claim_env" where
  "submit_save f now sub env = (case persist_claim f now (sub_claim sub) env of
      (Inl e, env1) \<Rightarrow> (Inl e, env1)
    | (Inr _, env1) \<Rightarrow> (Inr (), emit_claim_update (bc_node_pubkey (sub_claim sub))
        (bc_order_id (sub_claim sub)) ClaimSubmitted env1))"

text \<open>\<open>reply\<close> is \<open>None\<close> when the wait timed out or the sender was dropped.\<close>

definition submit_finish ::
  "claim_faults \<Rightarrow> i64 \<Rightarrow> string \<Rightarrow> submitted \<Rightarrow> daemon_reply option
     \<Rightarrow> claim_env \<times> pending_map \<Rightarrow> (string, unit) result \<times> claim_env \<times> pending_map" where
  "submit_finish f now order_id sub reply s =
     (let (env, pend) = s in
      (case reply of
         None \<Rightarrow> (Inl no_daemon_response, env, detach_request_waiter (sub_trade_pk sub) (sub_request_id sub) pend)
       | Some (Rejected _ _) \<Rightarrow> (case claim_for_order order_id env of
           Inl e \<Rightarrow> (Inl e, s)
         | Inr found \<Rightarrow>
             let current = (case found of Some c \<Rightarrow> c | None \<Rightarrow> sub_claim sub) in
             (case resolve_submission_rejection current now of
                Inr phase \<Rightarrow>
                  if phase = bc_phase current then (Inl ''ClaimNotClaimable'', s)
                  else (case persist_claim f now (current\<lparr>bc_phase := phase, bc_updated_at := now\<rparr>) env of
                      (Inl e, env1) \<Rightarrow> (Inl e, env1, pend)
                    | (Inr _, env1) \<Rightarrow> (Inl ''BondClaimExpired'',
                        emit_claim_update (bc_node_pubkey current) order_id phase env1, pend))
              | Inl marker \<Rightarrow>
                  (case persist_claim f now (current\<lparr>bc_phase := ClaimPending, bc_submitted_invoice := None,
                        bc_updated_at := now\<rparr>) env of
                      (Inl e, env1) \<Rightarrow> (Inl e, env1, pend)
                    | (Inr _, env1) \<Rightarrow> (Inl marker,
                        emit_claim_update (bc_node_pubkey current) order_id ClaimPending env1, pend))))
       | Some _ \<Rightarrow> (Inr (), s)))"

definition infer_slash_cause_is_dispute :: "order_status option \<Rightarrow> bool" where
  "infer_slash_cause_is_dispute st \<longleftrightarrow>
     st \<in> {Some Dispute, Some CanceledByAdmin, Some SettledByAdmin, Some CompletedByAdmin}"

section \<open>Histories of the claim store\<close>

text \<open>
  A submission whose invoice is published and whose row is not yet saved is in flight; other
  tasks run before \<open>CESave\<close> takes it out. A daemon message is applied to the claims as one
  event, and so is a rejection once it woke the caller.
\<close>

type_synonym claim_state = "claim_env \<times> pending_map \<times> submitted list"

datatype claim_event =
    CERequest claim_faults i64 "u32 option" payout_request
  | CEAdvance claim_faults i64 string string bond_claim_phase
  | CEBegin claim_faults i64 "string \<Rightarrow> u64 option option" submit_world string string
  | CESave claim_faults i64 submitted
  | CEFinish claim_faults i64 submitted "daemon_reply option"

fun claim_step :: "claim_event \<Rightarrow> claim_state \<Rightarrow> claim_state" where
  "claim_step (CERequest f now w r) (env, pend, fl) = (apply_payout_request f now w r env, pend, fl)"
| "claim_step (CEAdvance f now n ord ph) (env, pend, fl) = (advance_claim_phase f now n ord ph env, pend, fl)"
| "claim_step (CEBegin f now dec w ord bolt) (env, pend, fl) =
     (case submit_begin f now dec w ord bolt (env, pend) of
        (Inl e, env1, pend1) \<Rightarrow> (env1, pend1, fl)
      | (Inr sub, env1, pend1) \<Rightarrow> (env1, pend1, fl @ [sub]))"
| "claim_step (CESave f now sub) (env, pend, fl) =
     (if sub \<in> set fl then (snd (submit_save f now sub env), pend, remove1 sub fl) else (env, pend, fl))"
| "claim_step (CEFinish f now sub reply) (env, pend, fl) =
     (case snd (submit_finish f now (bc_order_id (sub_claim sub)) sub reply (env, pend)) of
        (env1, pend1) \<Rightarrow> (env1, pend1, fl))"






lemma find_row_Some:
  "find_row n ord rows = Some c \<Longrightarrow> c \<in> set rows \<and> bond_claim_storage_id c = bond_claim_key n ord"
  by (auto simp: find_row_def find_Some_iff)


lemma find_filter_same: "(\<And>x. Q x \<Longrightarrow> P x) \<Longrightarrow> find Q (filter P xs) = find Q xs"
  by (induction xs) auto

lemma find_row_save:
  "find_row n ord (save_row c rows) =
     (if bond_claim_storage_id c = bond_claim_key n ord then Some c else find_row n ord rows)"
proof (cases "bond_claim_storage_id c = bond_claim_key n ord")
  case True
  have "find (\<lambda>r. bond_claim_storage_id r = bond_claim_key n ord)
      (filter (\<lambda>r. bond_claim_storage_id r \<noteq> bond_claim_storage_id c) rows) = None"
    using True by (auto simp: find_None_iff)
  then have "find (\<lambda>r. bond_claim_storage_id r = bond_claim_key n ord) (filter (\<lambda>r. bond_claim_storage_id r
      \<noteq> bond_claim_storage_id c) rows @ [c]) = Some c"
    using True by (induction rows) auto
  then show ?thesis using True by (simp add: find_row_def save_row_def)
next
  case False
  have "find (\<lambda>r. bond_claim_storage_id r = bond_claim_key n ord) (xs @ [c]) =
      find (\<lambda>r. bond_claim_storage_id r = bond_claim_key n ord) xs" for xs
    using False by (induction xs) auto
  then show ?thesis using False
    by (simp add: find_row_def save_row_def find_filter_same)
qed


lemma refresh_rows [simp]: "ce_rows (refresh_claim_nodes f now env) = ce_rows env"
  by (simp add: refresh_claim_nodes_def persist_retained_nodes_def Let_def split_beta split: option.split)

lemma emit_rows [simp]: "ce_rows (emit_claim_update n ord ph env) = ce_rows env"
  by (simp add: emit_claim_update_def)

lemma persist_claim_cases:
  assumes "ce_rows env = Some rows"
  obtains (Failed) e where "persist_claim f now c env = (Inl e, env)"
    | (Saved) env' where "persist_claim f now c env = (Inr (), env')" "ce_rows env' = Some (save_row c rows)"
  using assms by (cases "cf_save f") (auto simp: persist_claim_def)

lemma claim_for_order_mem:
  assumes "ce_rows env = Some rows"
  shows "claim_for_order ord env = Inr found \<Longrightarrow>
    (case found of Some c \<Rightarrow> c \<in> set rows \<and> bc_order_id c = ord | None \<Rightarrow> \<forall>c \<in> set rows. bc_order_id c \<noteq> ord)"
proof -
  assume found: "claim_for_order ord env = Inr found"
  let ?fs = "filter (\<lambda>c. bc_order_id c = ord) (list_rows rows)"
  have set: "set ?fs = {c \<in> set rows. bc_order_id c = ord}" by (auto simp: list_rows_def)
  show ?thesis
  proof (cases ?fs)
    case Nil
    then have "{c \<in> set rows. bc_order_id c = ord} = {}" using set by simp
    then show ?thesis using found assms Nil by (auto simp: claim_for_order_def)
  next
    case (Cons a as)
    then have f: "found = Some (case find (\<lambda>c. \<not> bond_claim_is_terminal (bc_phase c)) ?fs of Some c \<Rightarrow> c | None \<Rightarrow> a)"
      using found assms by (simp add: claim_for_order_def)
    have a: "a \<in> set rows \<and> bc_order_id a = ord" using Cons set by (metis (mono_tags) list.set_intros(1) mem_Collect_eq)
    have m: "c \<in> set rows \<and> bc_order_id c = ord" if "find P ?fs = Some c" for P c
    proof -
      have "c \<in> set ?fs" using that unfolding find_Some_iff by (metis nth_mem)
      then show ?thesis unfolding set by simp
    qed
    show ?thesis
    proof (cases "find (\<lambda>c. \<not> bond_claim_is_terminal (bc_phase c)) ?fs")
      case None
      then have "found = Some a" using f by simp
      then show ?thesis using a by simp
    next
      case (Some c)
      then have "found = Some c" using f by simp
      then show ?thesis using m [OF Some] by simp
    qed
  qed
qed

text \<open>What one event may write: the upsert of a request, or a move of an existing claim.\<close>

definition moves_claim :: "bond_claim \<Rightarrow> bond_claim \<Rightarrow> bool" where
  "moves_claim old c \<longleftrightarrow> bc_node_pubkey c = bc_node_pubkey old \<and> bc_order_id c = bc_order_id old \<and>
     bc_slashed_at c = bc_slashed_at old \<and> bc_deadline_at c = bc_deadline_at old \<and>
     bc_phase old \<noteq> ClaimCompleted"

















definition claim_run :: "claim_event list \<Rightarrow> claim_state \<Rightarrow> claim_state" where
  "claim_run evs s = fold claim_step evs s"


section \<open>Properties\<close>


definition sample_request :: "i64 \<Rightarrow> payout_request" where
  "sample_request t = \<lparr>pq_order_id = ''o'', pq_node_pubkey = ''ab'', pq_trade_index = Some 4, pq_amount_sats = 1500,
     pq_slashed_at = t, pq_fiat_code = ''VES'', pq_fiat_amount = None, pq_payment_method = ''cash''\<rparr>"

definition sample_claim_env :: "bond_claim list \<Rightarrow> claim_env" where
  "sample_claim_env rows = \<lparr>ce_rows = Some rows, ce_setting = None, ce_nodes = claim_nodes_of rows,
     ce_retained = fmempty, ce_updates = [], ce_resubscribed = 0\<rparr>"

definition sample_submit_world :: submit_world where
  "sample_submit_world = \<lparr>sw_trade_key_index = None, sw_sender_pubkey = (\<lambda>_. Inr ''pk''), sw_build = Inr (),
     sw_request_id = 9, sw_waiter = 0, sw_publish = Inr ()\<rparr>"

abbreviation sample_claim :: bond_claim where
  "sample_claim \<equiv> fresh_claim (sample_request 100) 9000 200"

abbreviation sample_flight :: submitted where
  "sample_flight \<equiv> \<lparr>sub_claim = sample_claim\<lparr>bc_phase := ClaimSubmitted, bc_submitted_invoice := Some ''lnbc'',
     bc_updated_at := 300\<rparr>, sub_trade_pk = ''pk'', sub_request_id = 9\<rparr>"

lemmas claim_samples =
  sample_claim_env_def fresh_claim_def sample_request_def no_faults_def find_row_def bond_claim_storage_id_def
  sample_submit_world_def


lemma sample_begin:
  "submit_begin no_faults 300 (\<lambda>_. Some (Some 1500000)) sample_submit_world ''o'' '' lightning:lnbc ''
     (sample_claim_env [sample_claim], fmempty) =
   (Inr sample_flight, sample_claim_env [sample_claim],
    fmupd ''pk'' \<lparr>pr_request_id = 9, pr_trade_index = 4, pr_kind = KBondClaimSubmit, pr_tx = Some 0\<rparr> fmempty)"
proof -
  have b: "trim_start_matches ''lightning:'' (str_trim '' lightning:lnbc '') = ''lnbc''" by code_simp
  show ?thesis unfolding submit_begin_def Let_def prod.case b
    by (simp add: claim_for_order_def list_rows_def claim_samples bond_claim_is_terminal_def
        u64_saturating_mul_def opt_or_def)
qed

text \<open>
  The two ways the code loses what the property promises. A payout confirmed while a submission
  of the claim is between publish and save is overwritten by \<open>Submitted\<close>; and a payout request
  whose claim could not be read makes a paid claim pending again.
\<close>

lemma late_save_undoes_the_payout:
  "let evs = [CEBegin no_faults 300 (\<lambda>_. Some (Some 1500000)) sample_submit_world ''o'' '' lightning:lnbc '',
              CEAdvance no_faults 301 ''ab'' ''o'' ClaimCompleted, CESave no_faults 302 sample_flight];
       s = (sample_claim_env [sample_claim], fmempty, [])
   in map_option (map bc_phase) (ce_rows (fst (claim_run (take 2 evs) s))) = Some [ClaimCompleted] \<and>
      map_option (map bc_phase) (ce_rows (fst (claim_run evs s))) = Some [ClaimSubmitted]"
  by (simp add: Let_def claim_run_def sample_begin)
     (simp add: claim_samples advance_claim_phase_def submit_save_def persist_claim_def save_row_def
        less_bond_claim_phase_def phase_rank_def)

lemma unread_claim_starts_over:
  "map_option (map bc_phase) (ce_rows (fst (claim_run
      [CERequest (no_faults\<lparr>cf_get := True\<rparr>) 500 (Some 2) (sample_request 100)]
      (sample_claim_env [sample_claim\<lparr>bc_phase := ClaimCompleted\<rparr>], fmempty, [])))) = Some [ClaimPending]"
proof -
  have "uint (2 :: u32) = 2" by simp
  then show ?thesis
    by (simp add: claim_run_def apply_payout_request_def claim_samples upsert_claim_def first_receipt_def
        claim_deadline_def window_secs_def i64_sat_defs persist_claim_def save_row_def Let_def)
qed

text \<open>
  the daemon's acknowledgements only move a live claim forward in the order of the phases;
  only an expired claim may come back.
\<close>

theorem advance_is_monotone:
  assumes "ce_rows env = Some rows" and "find_row n ord rows = Some c"
    and "ce_rows (advance_claim_phase f now n ord phase env) = Some rows'"
  shows "\<exists>c'. find_row n ord rows' = Some c' \<and> (bc_phase c = ClaimExpired \<or> bc_phase c \<le> bc_phase c') \<and>
     bc_phase c' \<in> {bc_phase c, phase} \<and> moves_claim (c\<lparr>bc_phase := ClaimPending\<rparr>) c'"
proof -
  have id: "bond_claim_storage_id c = bond_claim_key n ord" using find_row_Some [OF assms(2)] by simp
  let ?c = "c\<lparr>bc_phase := phase, bc_updated_at := now\<rparr>"
  have "bond_claim_storage_id ?c = bond_claim_key n ord" using id by (simp add: bond_claim_storage_id_def)
  then have save: "find_row n ord (save_row ?c rows) = Some ?c" by (simp add: find_row_save)
  have mv: "moves_claim (c\<lparr>bc_phase := ClaimPending\<rparr>) c" "moves_claim (c\<lparr>bc_phase := ClaimPending\<rparr>) ?c"
    by (simp_all add: moves_claim_def)
  show ?thesis
  proof (rule persist_claim_cases [OF assms(1), of f now ?c], goal_cases)
    case (1 e)
    then have "rows' = rows" using assms by (auto simp: advance_claim_phase_def split: if_splits option.splits)
    then show ?thesis using assms(2) mv by auto
  next
    case (2 env')
    then show ?thesis using assms save mv
      by (auto simp: advance_claim_phase_def not_less split: if_splits option.splits)
  qed
qed

theorem advance_is_monotone_witness:
  "\<exists>c'. find_row ''ab'' ''o'' [(fresh_claim (sample_request 100) 9000 200)\<lparr>bc_phase := ClaimAcknowledged, bc_updated_at := 300\<rparr>]
     = Some c' \<and> ClaimPending \<le> bc_phase c'"
  using advance_is_monotone [of "sample_claim_env [fresh_claim (sample_request 100) 9000 200]"
      "[fresh_claim (sample_request 100) 9000 200]" "''ab''" "''o''" "fresh_claim (sample_request 100) 9000 200"
      no_faults 300 ClaimAcknowledged
      "[(fresh_claim (sample_request 100) 9000 200)\<lparr>bc_phase := ClaimAcknowledged, bc_updated_at := 300\<rparr>]"]
  by (auto simp: sample_claim_env_def fresh_claim_def sample_request_def no_faults_def find_row_def
      bond_claim_storage_id_def advance_claim_phase_def persist_claim_def save_row_def
      emit_claim_update_def [symmetric] less_bond_claim_phase_def phase_rank_def)

text \<open>The set the kind-14 filter is built from is in step with the store.\<close>

definition nodes_in_step :: "claim_env \<Rightarrow> bool" where
  "nodes_in_step env \<longleftrightarrow> (case ce_rows env of Some rows \<Rightarrow> ce_nodes env = claim_nodes_of rows | None \<Rightarrow> True)"

fun event_lists :: "claim_event \<Rightarrow> bool" where
  "event_lists (CERequest f now w r) \<longleftrightarrow> \<not> cf_list f"
| "event_lists (CEAdvance f now n ord ph) \<longleftrightarrow> \<not> cf_list f"
| "event_lists (CEBegin f now dec w ord bolt) \<longleftrightarrow> \<not> cf_list f"
| "event_lists (CESave f now sub) \<longleftrightarrow> \<not> cf_list f"
| "event_lists (CEFinish f now sub reply) \<longleftrightarrow> \<not> cf_list f"

lemma claim_nodes_of_list_rows [simp]: "claim_nodes_of (list_rows rows) = claim_nodes_of rows"
  by (simp add: claim_nodes_of_def list_rows_def)

lemma persist_retained_nodes_simps [simp]:
  "ce_nodes (persist_retained_nodes f env) = ce_nodes env"
  "ce_rows (persist_retained_nodes f env) = ce_rows env"
  "ce_retained (persist_retained_nodes f env) = ce_retained env"
  by (simp_all add: persist_retained_nodes_def)

lemma refresh_in_step: "\<not> cf_list f \<Longrightarrow> nodes_in_step (refresh_claim_nodes f now env)"
  by (auto simp: refresh_claim_nodes_def nodes_in_step_def Let_def split: option.splits prod.splits)

lemma persist_in_step [inv_intros]:
  "nodes_in_step env \<Longrightarrow> \<not> cf_list f \<Longrightarrow> nodes_in_step (snd (persist_claim f now c env))"
  by (auto simp: persist_claim_def intro: refresh_in_step split: option.splits)

lemma emit_in_step [simp]: "nodes_in_step (emit_claim_update n ord ph env) = nodes_in_step env"
  by (cases "ce_rows env") (simp_all add: nodes_in_step_def emit_claim_update_def)

lemma persist_in_step':
  "nodes_in_step env \<Longrightarrow> \<not> cf_list f \<Longrightarrow> persist_claim f now c env = (r, env') \<Longrightarrow> nodes_in_step env'"
  using persist_in_step [of env f now c] by simp

lemma step_in_step [inv_intros]:
  "nodes_in_step (fst s) \<Longrightarrow> event_lists e \<Longrightarrow> nodes_in_step (fst (claim_step e s))"
proof (cases s; cases e, goal_cases)
  case (1 env pend fl f now w r)
  then show ?case
    by (simp add: apply_payout_request_def Let_def split_beta persist_in_step split: option.split sum.split)
next
  case (2 env pend fl f now n ord ph)
  then show ?case
    by (auto simp: advance_claim_phase_def dest: persist_in_step' split: option.splits prod.splits sum.splits)
next
  case (3 env pend fl f now dec w ord bolt)
  then have "nodes_in_step (fst (snd (submit_begin f now dec w ord bolt (env, pend))))"
    by (simp add: submit_begin_def Let_def split_beta persist_in_step split: option.split sum.split)
  with 3 show ?case by (auto split: prod.splits sum.splits)
next
  case (4 env pend fl f now sub)
  then show ?case
    by (auto simp: submit_save_def dest: persist_in_step' split: prod.splits sum.splits)
next
  case (5 env pend fl f now sub reply)
  then have "nodes_in_step (fst (snd (submit_finish f now (bc_order_id (sub_claim sub)) sub reply (env, pend))))"
    by (auto simp: submit_finish_def Let_def dest: persist_in_step'
        split: option.splits prod.splits sum.splits daemon_reply.splits)
  with 5 show ?case by (auto split: prod.splits)
qed

text \<open>
  a node that owes the user a payout stays audible. Over every history of the claim store
  whose listings succeed, each node with an open claim is in the set the daemon filter and the
  sender check use, so its retries and acknowledgements are received after a node switch; and a
  node whose claims all ended is there only while it is retained.
\<close>

theorem open_claims_stay_heard:
  assumes "nodes_in_step (fst s)" and "\<forall>e \<in> set evs. event_lists e"
    and "ce_rows (fst (claim_run evs s)) = Some rows"
  shows "is_claim_node n now (fst (claim_run evs s)) \<longleftrightarrow>
     (\<exists>c \<in> set rows. bc_node_pubkey c = n \<and> bc_phase c \<notin> {ClaimCompleted, ClaimExpired}) \<or>
     is_retained n now (ce_retained (fst (claim_run evs s)))"
proof -
  have "nodes_in_step (fst (claim_run evs s))"
    using assms(1,2)
  proof (induction evs arbitrary: s)
    case (Cons e evs)
    then have "nodes_in_step (fst (claim_step e s))" by (auto intro: inv_intros)
    with Cons show ?case by (simp add: claim_run_def)
  qed (simp add: claim_run_def)
  then have "ce_nodes (fst (claim_run evs s)) = claim_nodes_of rows"
    using assms(3) by (simp add: nodes_in_step_def)
  then show ?thesis
    by (auto simp: is_claim_node_def claim_nodes_of_def bond_claim_is_terminal_def)
qed

theorem open_claims_stay_heard_witness:
  "is_claim_node ''ab'' 300 (fst (claim_run [CERequest no_faults 200 (Some 2) (sample_request 100)]
     (sample_claim_env [], fmempty, [])))"
proof -
  let ?s = "claim_run [CERequest no_faults 200 (Some 2) (sample_request 100)] (sample_claim_env [], fmempty, [])"
  have "uint (2 :: u32) = 2" by simp
  then have rows: "ce_rows (fst ?s) = Some [fresh_claim (sample_request 100) 172900 200]"
    by (simp add: claim_run_def apply_payout_request_def sample_claim_env_def no_faults_def find_row_def
        upsert_claim_def first_receipt_def sample_request_def fresh_claim_def claim_deadline_def
        window_secs_def i64_sat_defs persist_claim_def save_row_def Let_def)
  show ?thesis
    using open_claims_stay_heard [OF _ _ rows, of "''ab''" 300]
    by (auto simp: nodes_in_step_def sample_claim_env_def no_faults_def fresh_claim_def sample_request_def)
qed

text \<open>
  leaving a node never loses a payout it may still owe. The date until which a node left at
  \<open>now\<close> stays heard covers the deadline of every claim slashed within the margin after the
  switch, under the same window, and retaining a node again never brings its date forward.
\<close>

theorem retained_covers_deadlines:
  assumes "is_i64 now" and "slashed_at \<le> now + 15 * 86400" and "0 \<le> now"
  shows "claim_deadline slashed_at window \<le> retain_until now window \<and>
    (fmlookup m (to_ascii_lowercase node) = Some old \<longrightarrow>
       (\<exists>t. fmlookup (retain_node node until m) (to_ascii_lowercase node) = Some t \<and> old \<le> t \<and> until \<le> t)) \<and>
    (k \<noteq> to_ascii_lowercase node \<longrightarrow> fmlookup (retain_node node until m) k = fmlookup m k)"
proof -
  define d where "d = uint (case window of Some d \<Rightarrow> d | None \<Rightarrow> default_claim_window_days)"
  have d0: "0 \<le> d" by (simp add: d_def)
  have d1: "d < 2 ^ 32" unfolding d_def using unsigned_less [where 'a = int and 'b = 32] by simp
  have m15: "uint retain_margin_days = 15" by (simp add: retain_margin_days_def)
  have s1: "window_secs d = d * 86400" and s2: "window_secs (d + 15) = (d + 15) * 86400"
    using d0 d1 by (simp_all add: window_secs_def i64_sat_defs)
  have "i64_saturating_add slashed_at (window_secs d) \<le> i64_saturating_add now (window_secs (d + 15))"
    unfolding s1 s2 using assms(2) by (auto simp: i64_saturating_add_def i64_clamp_def)
  then have "claim_deadline slashed_at window \<le> retain_until now window"
    by (simp add: claim_deadline_def retain_until_def m15 d_def Let_def)
  then show ?thesis by (auto simp: retain_node_def Let_def split: option.splits)
qed

theorem retained_covers_deadlines_witness:
  "claim_deadline 1296000 (Some 3) \<le> retain_until 0 (Some 3)"
  using retained_covers_deadlines [of 0 1296000 "Some 3"] by (simp add: is_i64_def i64_bound_defs)

text \<open>
  a submission the user is told to wait for was sent for the right claim: the invoice is not
  blank, carries no other amount than the share, the claim was open and before its deadline, the
  row saved after the publish is submitted with that invoice, and the daemon's reply under this
  nonce finds the waiter.
\<close>

theorem submission_is_guarded:
  assumes "submit_begin f now decode w ord invoice (env, pend) = (r, env', pend')"
    and "ce_rows env = Some rows"
  shows "(\<forall>sub. r = Inr sub \<longrightarrow>
     (\<exists>claim \<in> set rows. bc_order_id claim = ord \<and> bc_phase claim \<in> {ClaimPending, ClaimSubmitted} \<and>
        now \<le> bc_deadline_at claim \<and> bc_submitted_invoice (sub_claim sub) \<noteq> Some [] \<and>
        moves_claim claim (sub_claim sub) \<and> bc_phase (sub_claim sub) = ClaimSubmitted \<and>
        (\<forall>bolt msat. bc_submitted_invoice (sub_claim sub) = Some bolt \<and> decode bolt = Some (Some msat) \<and> msat \<noteq> 0 \<longrightarrow>
           msat = u64_saturating_mul (bc_amount_sats claim) 1000) \<and>
        env' = env \<and>
        (\<forall>f2 now2 env2 rows2 env3. ce_rows env2 = Some rows2 \<and> submit_save f2 now2 sub env2 = (Inr (), env3) \<longrightarrow>
           ce_rows env3 = Some (save_row (sub_claim sub) rows2)) \<and>
        fst (take_matching_claim_submit (sub_trade_pk sub) (Some (sub_request_id sub)) pend') \<noteq> None))"
proof (intro allI impI)
  fix sub assume r: "r = Inr sub"
  let ?b = "trim_start_matches ''lightning:'' (str_trim invoice)"
  have b: "?b \<noteq> []" using assms(1) r by (auto simp: submit_begin_def Let_def split: if_splits)
  obtain found where f: "claim_for_order ord env = Inr found"
    using assms(1) r b by (auto simp: submit_begin_def Let_def split: sum.splits)
  obtain claim where c: "found = Some claim"
    using assms(1) r b f by (auto simp: submit_begin_def Let_def split: option.splits if_splits)
  let ?sub = "claim\<lparr>bc_phase := ClaimSubmitted, bc_submitted_invoice := Some ?b, bc_updated_at := now\<rparr>"
  have mem: "claim \<in> set rows" "bc_order_id claim = ord"
    using claim_for_order_mem [OF assms(2) f] c by auto
  have ph: "bc_phase claim \<in> {ClaimPending, ClaimSubmitted}" "now \<le> bc_deadline_at claim"
    using assms(1) r b f c
    by (auto simp: submit_begin_def Let_def not_less split: option.splits if_splits sum.splits prod.splits)
  have amount: "decode ?b = Some (Some msat) \<Longrightarrow> msat \<noteq> 0 \<Longrightarrow> msat = u64_saturating_mul (bc_amount_sats claim) 1000" for msat
    using assms(1) r b f c by (auto simp: submit_begin_def Let_def split: if_splits)
  obtain idx where out: "sub = \<lparr>sub_claim = ?sub, sub_trade_pk = sub_trade_pk sub, sub_request_id = sw_request_id w\<rparr>"
      "env' = env"
      "pend' = fmupd (sub_trade_pk sub) \<lparr>pr_request_id = sw_request_id w, pr_trade_index = idx,
                 pr_kind = KBondClaimSubmit, pr_tx = Some (sw_waiter w)\<rparr> pend"
    using assms(1) r b f c
    by (auto simp: submit_begin_def Let_def split: option.splits if_splits sum.splits prod.splits)
  have saved: "ce_rows env3 = Some (save_row (sub_claim sub) rows2)"
    if "ce_rows env2 = Some rows2" "submit_save f2 now2 sub env2 = (Inr (), env3)" for f2 now2 env2 rows2 env3
    by (cases rule: persist_claim_cases [OF that(1), of f2 now2 "sub_claim sub"])
       (use that(2) in \<open>auto simp: submit_save_def\<close>)
  show "\<exists>claim \<in> set rows. bc_order_id claim = ord \<and> bc_phase claim \<in> {ClaimPending, ClaimSubmitted} \<and>
        now \<le> bc_deadline_at claim \<and> bc_submitted_invoice (sub_claim sub) \<noteq> Some [] \<and>
        moves_claim claim (sub_claim sub) \<and> bc_phase (sub_claim sub) = ClaimSubmitted \<and>
        (\<forall>bolt msat. bc_submitted_invoice (sub_claim sub) = Some bolt \<and> decode bolt = Some (Some msat) \<and> msat \<noteq> 0 \<longrightarrow>
           msat = u64_saturating_mul (bc_amount_sats claim) 1000) \<and>
        env' = env \<and>
        (\<forall>f2 now2 env2 rows2 env3. ce_rows env2 = Some rows2 \<and> submit_save f2 now2 sub env2 = (Inr (), env3) \<longrightarrow>
           ce_rows env3 = Some (save_row (sub_claim sub) rows2)) \<and>
        fst (take_matching_claim_submit (sub_trade_pk sub) (Some (sub_request_id sub)) pend') \<noteq> None"
  proof (intro bexI [of _ claim] conjI)
    show "\<forall>bolt msat. bc_submitted_invoice (sub_claim sub) = Some bolt \<and> decode bolt = Some (Some msat) \<and> msat \<noteq> 0 \<longrightarrow>
        msat = u64_saturating_mul (bc_amount_sats claim) 1000"
      using amount out(1) by (cases sub) auto
    show "\<forall>f2 now2 env2 rows2 env3. ce_rows env2 = Some rows2 \<and> submit_save f2 now2 sub env2 = (Inr (), env3) \<longrightarrow>
        ce_rows env3 = Some (save_row (sub_claim sub) rows2)"
      using saved by blast
    have q: "sub_request_id sub = sw_request_id w" "sub_claim sub = ?sub" using out(1) by (cases sub; simp)+
    show "fst (take_matching_claim_submit (sub_trade_pk sub) (Some (sub_request_id sub)) pend') \<noteq> None"
      unfolding out(3) q by (simp add: take_matching_claim_submit_def take_if_def request_id_matches_def)
    show "moves_claim claim (sub_claim sub)" using ph unfolding q by (auto simp: moves_claim_def)
    show "bc_phase (sub_claim sub) = ClaimSubmitted" "bc_submitted_invoice (sub_claim sub) \<noteq> Some []"
      using b unfolding q by simp_all
  qed (use mem ph out(2) in auto)
qed

theorem submission_is_guarded_witness:
  "\<exists>sub env' pend'. submit_begin no_faults 300 (\<lambda>_. Some (Some 1500000)) sample_submit_world ''o'' '' lightning:lnbc ''
      (sample_claim_env [sample_claim], fmempty) = (Inr sub, env', pend') \<and>
     fst (take_matching_claim_submit (sub_trade_pk sub) (Some (sub_request_id sub)) pend') \<noteq> None"
  using submission_is_guarded [OF sample_begin, of "[sample_claim]"]
  unfolding sample_begin by (auto simp: sample_claim_env_def)

end
