(* ===== verification/Outbox.thy ===== *)
theory Outbox
  imports Api_Types
begin

text \<open>
  \<open>rust/src/queue/outbox.rs\<close>: the in-memory queue of events to publish, flushed by tasks that
  may overlap. One flush takes the lock three times: to mark what is due (\<open>claim_due\<close>), after
  each publish to write the entry back (\<open>settle\<close>, \<open>write_back\<close>), and to prune. \<open>flush\<close> is a
  flush that runs alone; \<open>ob_step\<close> interleaves any number of them with the enqueues, a task
  being what a flush still has to publish. An id is a fresh UUID.
\<close>

section \<open>Messages\<close>

record queued_message =
  qm_id :: string
  qm_event_json :: string
  qm_status :: queued_status
  qm_created_at :: i64
  qm_retry_count :: u32
  qm_next_retry_at :: "i64 option"

definition new_message :: "string \<Rightarrow> string \<Rightarrow> i64 \<Rightarrow> queued_message" where
  "new_message mid event_json now = \<lparr>qm_id = mid, qm_event_json = event_json, qm_status = QPending,
     qm_created_at = now, qm_retry_count = 0, qm_next_retry_at = None\<rparr>"

definition next_retry_delay_secs :: "queued_message \<Rightarrow> i64" where
  "next_retry_delay_secs m = min (30 * 2 ^ min (unat (qm_retry_count m)) 7) 3600"

definition max_retries :: u32 where "max_retries = 10"

section \<open>The three critical sections of a flush\<close>

definition is_due :: "i64 \<Rightarrow> queued_message \<Rightarrow> bool" where
  "is_due now m \<longleftrightarrow> qm_status m = QPending \<and>
     (case qm_next_retry_at m of None \<Rightarrow> True | Some t \<Rightarrow> now \<ge> t)"

definition mark :: "queued_message \<Rightarrow> queued_message" where
  "mark m = m\<lparr>qm_status := QInFlight\<rparr>"

fun claim_due :: "i64 \<Rightarrow> queued_message list \<Rightarrow> queued_message list \<times> queued_message list" where
  "claim_due now [] = ([], [])"
| "claim_due now (m # q) = (let (q', snap) = claim_due now q in
     if is_due now m then (mark m # q', mark m # snap) else (m # q', snap))"

definition settle :: "i64 \<Rightarrow> bool \<Rightarrow> queued_message \<Rightarrow> queued_message" where
  "settle now ok m =
     (if ok then m\<lparr>qm_status := QSent\<rparr>
      else let m1 = m\<lparr>qm_retry_count := qm_retry_count m + 1\<rparr> in
        if qm_retry_count m1 \<ge> max_retries then m1\<lparr>qm_status := QFailed\<rparr>
        else m1\<lparr>qm_status := QPending, qm_next_retry_at := Some (i64_wrap (now + next_retry_delay_secs m1))\<rparr>)"

fun write_back :: "queued_message \<Rightarrow> queued_message list \<Rightarrow> queued_message list" where
  "write_back m [] = []"
| "write_back m (e # q) = (if qm_id e = qm_id m then m # q else e # write_back m q)"

definition kept :: "i64 \<Rightarrow> queued_message \<Rightarrow> bool" where
  "kept now m \<longleftrightarrow> qm_status m = QPending \<or> qm_status m = QInFlight \<or>
     (qm_status m = QFailed \<and> qm_created_at m > i64_wrap (now - 86400))"

definition prune :: "i64 \<Rightarrow> queued_message list \<Rightarrow> queued_message list" where
  "prune now q = filter (kept now) q"

definition enqueue :: "string \<Rightarrow> string \<Rightarrow> i64 \<Rightarrow> queued_message list \<Rightarrow> queued_message list" where
  "enqueue mid event_json now q = q @ [new_message mid event_json now]"

text \<open>A flush that runs alone; \<open>publish\<close> answers whether the event was published.\<close>

fun publish_all :: "(string \<Rightarrow> bool) \<Rightarrow> i64 \<Rightarrow> queued_message list \<Rightarrow> queued_message list \<Rightarrow> u32
    \<Rightarrow> queued_message list \<times> u32" where
  "publish_all publish now [] q sent = (q, sent)"
| "publish_all publish now (m # ms) q sent =
     (let ok = publish (qm_event_json m)
      in publish_all publish now ms (write_back (settle now ok m) q) (if ok then sent + 1 else sent))"

definition flush :: "(string \<Rightarrow> bool) \<Rightarrow> i64 \<Rightarrow> queued_message list \<Rightarrow> queued_message list \<times> u32" where
  "flush publish now q =
     (let (q1, pending) = claim_due now q; (q2, sent) = publish_all publish now pending q1 0
      in (prune now q2, sent))"

definition outbox_len :: "queued_message list \<Rightarrow> nat" where
  "outbox_len q = length q"

section \<open>Overlapping flushes\<close>

record flush_task =
  tk_now :: i64
  tk_pending :: "queued_message list"

text \<open>\<open>ob_log\<close> is the history of publishes: the message and whether it succeeded.\<close>

record outbox_state =
  ob_queue :: "queued_message list"
  ob_tasks :: "(nat, flush_task) fmap"
  ob_seen :: "string set"
  ob_log :: "(string \<times> bool) list"

inductive ob_step :: "outbox_state \<Rightarrow> outbox_state \<Rightarrow> bool" where
  Enqueue: "mid \<notin> ob_seen s \<Longrightarrow>
     ob_step s (s\<lparr>ob_queue := enqueue mid json now (ob_queue s), ob_seen := insert mid (ob_seen s)\<rparr>)"
| Start: "fmlookup (ob_tasks s) t = None \<Longrightarrow> claim_due now (ob_queue s) = (q', pending) \<Longrightarrow>
     ob_step s (s\<lparr>ob_queue := q', ob_tasks := fmupd t \<lparr>tk_now = now, tk_pending = pending\<rparr> (ob_tasks s)\<rparr>)"
| Publish: "fmlookup (ob_tasks s) t = Some tk \<Longrightarrow> tk_pending tk = m # ms \<Longrightarrow>
     ob_step s (s\<lparr>ob_queue := write_back (settle (tk_now tk) ok m) (ob_queue s),
                  ob_tasks := fmupd t (tk\<lparr>tk_pending := ms\<rparr>) (ob_tasks s),
                  ob_log := ob_log s @ [(qm_id m, ok)]\<rparr>)"
| Finish: "fmlookup (ob_tasks s) t = Some tk \<Longrightarrow> tk_pending tk = [] \<Longrightarrow>
     ob_step s (s\<lparr>ob_queue := prune (tk_now tk) (ob_queue s), ob_tasks := fmdrop t (ob_tasks s)\<rparr>)"

definition ob_init :: outbox_state where
  "ob_init = \<lparr>ob_queue = [], ob_tasks = fmempty, ob_seen = {}, ob_log = []\<rparr>"

inductive ob_reachable :: "outbox_state \<Rightarrow> bool" where
  Init: "ob_reachable ob_init"
| Step: "ob_reachable s \<Longrightarrow> ob_step s s' \<Longrightarrow> ob_reachable s'"

section \<open>The queue as a map\<close>

definition qlookup :: "queued_message list \<Rightarrow> string \<Rightarrow> queued_message option" where
  "qlookup q i = map_of (map (\<lambda>m. (qm_id m, m)) q) i"

lemma qlookup_Nil [simp]: "qlookup [] i = None"
  by (simp add: qlookup_def)

lemma qlookup_Cons: "qlookup (m # q) i = (if qm_id m = i then Some m else qlookup q i)"
  by (simp add: qlookup_def)

lemma qlookup_id: "qlookup q i = Some m \<Longrightarrow> qm_id m = i \<and> m \<in> set q"
  by (auto simp: qlookup_def dest!: map_of_SomeD)

lemma qlookup_None: "qlookup q i = None \<longleftrightarrow> i \<notin> qm_id ` set q"
  by (induction q) (auto simp: qlookup_Cons)

lemma qlookup_mem: "distinct (map qm_id q) \<Longrightarrow> m \<in> set q \<Longrightarrow> qlookup q (qm_id m) = Some m"
  by (induction q) (auto simp: qlookup_Cons)

lemma mark_simps [simp]:
  "qm_id (mark m) = qm_id m" "qm_status (mark m) = QInFlight" "qm_retry_count (mark m) = qm_retry_count m"
  by (simp_all add: mark_def)

lemma claim_due_eq:
  "claim_due now q = (map (\<lambda>m. if is_due now m then mark m else m) q, map mark (filter (is_due now) q))"
  by (induction q) auto

lemma qlookup_claim:
  "qlookup (fst (claim_due now q)) i = map_option (\<lambda>m. if is_due now m then mark m else m) (qlookup q i)"
  unfolding claim_due_eq fst_conv by (induction q) (auto simp: qlookup_Cons)

lemma ids_claim [simp]: "map qm_id (fst (claim_due now q)) = map qm_id q"
  unfolding claim_due_eq by (simp add: comp_def if_distrib [of qm_id] cong: if_cong)

lemma settle_id [simp]: "qm_id (settle now ok m) = qm_id m"
  by (simp add: settle_def Let_def)

lemma qlookup_write_back:
  "qlookup (write_back m q) i = (if i = qm_id m \<and> qlookup q i \<noteq> None then Some m else qlookup q i)"
  by (induction q) (auto simp: qlookup_Cons)

lemma ids_write_back [simp]: "map qm_id (write_back m q) = map qm_id q"
  by (induction q) auto

lemma qlookup_prune:
  "distinct (map qm_id q) \<Longrightarrow> qlookup (prune now q) i = opt_filter (kept now) (qlookup q i)"
proof (induction q)
  case (Cons a q)
  show ?case
  proof (cases "qm_id a = i")
    case True
    then have "qlookup q i = None" using Cons.prems by (auto simp: qlookup_None)
    then show ?thesis using Cons True by (auto simp: prune_def qlookup_Cons)
  next
    case False
    then show ?thesis using Cons by (auto simp: prune_def qlookup_Cons)
  qed
qed (simp add: prune_def)

lemma distinct_prune: "distinct (map qm_id q) \<Longrightarrow> distinct (map qm_id (prune now q))"
  by (simp add: prune_def distinct_map_filter)

section \<open>The invariant\<close>

definition fails :: "string \<Rightarrow> (string \<times> bool) list \<Rightarrow> nat" where
  "fails i hist = length (filter (\<lambda>e. e = (i, False)) hist)"

definition oks :: "string \<Rightarrow> (string \<times> bool) list \<Rightarrow> nat" where
  "oks i hist = length (filter (\<lambda>e. e = (i, True)) hist)"

text \<open>What the history of one id says about its entry, or about its absence.\<close>

definition entry_ok :: "(string \<times> bool) list \<Rightarrow> string \<Rightarrow> queued_message option \<Rightarrow> bool \<Rightarrow> bool" where
  "entry_ok hist i e seen \<longleftrightarrow> (case e of
      Some m \<Rightarrow> seen \<and> fails i hist = unat (qm_retry_count m) \<and>
        (case qm_status m of
           QSent \<Rightarrow> oks i hist = 1 \<and> fails i hist < 10
         | QFailed \<Rightarrow> oks i hist = 0 \<and> fails i hist = 10
         | _ \<Rightarrow> oks i hist = 0 \<and> fails i hist < 10)
    | None \<Rightarrow> if seen then (oks i hist = 1 \<and> fails i hist < 10) \<or> (oks i hist = 0 \<and> fails i hist = 10)
              else oks i hist = 0 \<and> fails i hist = 0)"

definition owns :: "outbox_state \<Rightarrow> nat \<Rightarrow> queued_message \<Rightarrow> bool" where
  "owns s t m \<longleftrightarrow> (\<exists>tk. fmlookup (ob_tasks s) t = Some tk \<and> m \<in> set (tk_pending tk))"

definition ob_inv :: "outbox_state \<Rightarrow> bool" where
  "ob_inv s \<longleftrightarrow>
     distinct (map qm_id (ob_queue s)) \<and>
     (\<forall>i. entry_ok (ob_log s) i (qlookup (ob_queue s) i) (i \<in> ob_seen s)) \<and>
     (\<forall>t tk. fmlookup (ob_tasks s) t = Some tk \<longrightarrow> distinct (map qm_id (tk_pending tk))) \<and>
     (\<forall>t m. owns s t m \<longrightarrow> qlookup (ob_queue s) (qm_id m) = Some m \<and> qm_status m = QInFlight) \<and>
     (\<forall>t t' m. owns s t m \<and> owns s t' m \<longrightarrow> t = t') \<and>
     (\<forall>i m. qlookup (ob_queue s) i = Some m \<and> qm_status m = QInFlight \<longrightarrow> (\<exists>t. owns s t m))"

lemma ob_invD:
  assumes "ob_inv s"
  shows ob_inv_ids: "distinct (map qm_id (ob_queue s))"
    and ob_inv_entry: "entry_ok (ob_log s) i (qlookup (ob_queue s) i) (i \<in> ob_seen s)"
    and ob_inv_pending: "fmlookup (ob_tasks s) t = Some tk \<Longrightarrow> distinct (map qm_id (tk_pending tk))"
    and ob_inv_owned: "owns s t m \<Longrightarrow> qlookup (ob_queue s) (qm_id m) = Some m \<and> qm_status m = QInFlight"
    and ob_inv_one_owner: "owns s t m \<Longrightarrow> owns s t' m \<Longrightarrow> t = t'"
    and ob_inv_some_owner: "qlookup (ob_queue s) i = Some m \<Longrightarrow> qm_status m = QInFlight \<Longrightarrow> \<exists>t. owns s t m"
  using assms unfolding ob_inv_def by blast+

lemma fails_simps [simp]: "fails i [] = 0" "oks i [] = 0"
  "fails i (hist @ [(j, ok)]) = (if i = j \<and> \<not> ok then Suc (fails i hist) else fails i hist)"
  "oks i (hist @ [(j, ok)]) = (if i = j \<and> ok then Suc (oks i hist) else oks i hist)"
  by (auto simp: fails_def oks_def)

lemma retry_succ: "unat c < 10 \<Longrightarrow> unat (c + 1 :: u32) = Suc (unat c)"
proof -
  assume c: "unat c < 10"
  then have "unat c + unat (1 :: u32) < 2 ^ 32" by simp
  then show ?thesis by (subst unat_plus_simple [THEN iffD1]) (auto simp: word_le_nat_alt unat_word_ariths)
qed

lemma entry_ok_settle:
  assumes "entry_ok hist i (Some m) seen" and "qm_status m = QInFlight" and "qm_id m = i"
  shows "entry_ok (hist @ [(i, ok)]) i (Some (settle now ok m)) seen"
proof -
  have c: "unat (qm_retry_count m) < 10" "oks i hist = 0" "seen" "fails i hist = unat (qm_retry_count m)"
    using assms by (auto simp: entry_ok_def)
  have le: "max_retries \<le> qm_retry_count m + 1 \<longleftrightarrow> unat (qm_retry_count m) = 9"
    using c(1) retry_succ [OF c(1)] by (auto simp: word_le_nat_alt max_retries_def)
  show ?thesis using c le retry_succ [OF c(1)]
    by (auto simp: entry_ok_def settle_def Let_def)
qed

lemma entry_ok_other [simp]:
  assumes "i \<noteq> j"
  shows "entry_ok (hist @ [(j, ok)]) i e seen = entry_ok hist i e seen"
proof -
  have "fails i (hist @ [(j, ok)]) = fails i hist" "oks i (hist @ [(j, ok)]) = oks i hist"
    using assms by simp_all
  then show ?thesis unfolding entry_ok_def by (simp only:)
qed

lemma entry_ok_mark: "entry_ok hist i (Some m) seen \<Longrightarrow> qm_status m = QPending \<Longrightarrow> entry_ok hist i (Some (mark m)) seen"
  by (simp add: entry_ok_def)

lemma inv_Enqueue:
  assumes "ob_inv s" and new: "mid \<notin> ob_seen s"
  shows "ob_inv (s\<lparr>ob_queue := enqueue mid json now (ob_queue s), ob_seen := insert mid (ob_seen s)\<rparr>)"
proof -
  note I = ob_invD [OF assms(1)]
  have fresh: "qlookup (ob_queue s) mid = None"
    using I(2) [of mid] new by (auto simp: entry_ok_def split: option.splits)
  have look: "qlookup (enqueue mid json now (ob_queue s)) i =
      (if i = mid then Some (new_message mid json now) else qlookup (ob_queue s) i)" for i
    using fresh by (auto simp: enqueue_def qlookup_def new_message_def map_add_def split: option.splits)
  have own: "owns (s\<lparr>ob_queue := q, ob_seen := z\<rparr>) t m = owns s t m" for q z t m by (simp add: owns_def)
  have "distinct (map qm_id (enqueue mid json now (ob_queue s)))"
    using I(1) fresh by (auto simp: enqueue_def new_message_def qlookup_None)
  moreover have "entry_ok (ob_log s) i (qlookup (enqueue mid json now (ob_queue s)) i) (i \<in> insert mid (ob_seen s))" for i
  proof (cases "i = mid")
    case True
    then show ?thesis using I(2) [of mid] fresh new by (simp add: look entry_ok_def new_message_def)
  next
    case False
    then show ?thesis using I(2) [of i] by (simp add: look)
  qed
  moreover have "qm_id m \<noteq> mid" if "owns s t m" for t m
    using I(4) [OF that] fresh by auto
  ultimately show ?thesis
    using I(3,4,5,6) unfolding ob_inv_def by (auto simp: own look new_message_def)
qed

lemma inv_Start:
  assumes "ob_inv s" and t: "fmlookup (ob_tasks s) t = None"
    and c: "claim_due now (ob_queue s) = (q', pending)"
  shows "ob_inv (s\<lparr>ob_queue := q', ob_tasks := fmupd t \<lparr>tk_now = now, tk_pending = pending\<rparr> (ob_tasks s)\<rparr>)"
    (is "ob_inv ?s")
proof -
  note I = ob_invD [OF assms(1)]
  have q': "q' = fst (claim_due now (ob_queue s))" and p: "pending = map mark (filter (is_due now) (ob_queue s))"
    using c by (auto simp: claim_due_eq)
  have look: "qlookup q' i = map_option (\<lambda>m. if is_due now m then mark m else m) (qlookup (ob_queue s) i)" for i
    unfolding q' by (rule qlookup_claim)
  have pmem: "m \<in> set pending \<longleftrightarrow> (\<exists>i m0. qlookup (ob_queue s) i = Some m0 \<and> is_due now m0 \<and> m = mark m0)" for m
    using qlookup_mem [OF I(1)] by (auto simp: p dest: qlookup_id)
  have own: "owns ?s u m \<longleftrightarrow> (if u = t then m \<in> set pending else owns s u m)" for u m
    using t by (auto simp: owns_def)
  have no_t: "\<not> owns s t m" for m using t by (simp add: owns_def)
  have due: "is_due now m \<Longrightarrow> qm_status m = QPending" for m by (simp add: is_due_def)
  have keep: "qlookup (ob_queue s) (qm_id m) = Some m \<and> qm_status m = QInFlight \<Longrightarrow> qlookup q' (qm_id m) = Some m" for m
    using due [of m] by (auto simp: look)
  have clash: False if o: "owns s u m" and mp: "m \<in> set pending" for u m
  proof -
    obtain i m0 where m0: "qlookup (ob_queue s) i = Some m0" "is_due now m0" "m = mark m0"
      using mp pmem by blast
    have "qm_id m0 = i" using qlookup_id [OF m0(1)] by simp
    then have "qlookup (ob_queue s) (qm_id m) = Some m0" using m0 by simp
    then show False using I(4) [OF o] due [OF m0(2)] by auto
  qed
  have 1: "distinct (map qm_id q')" unfolding q' ids_claim by (rule I(1))
  have 2: "entry_ok (ob_log s) i (qlookup q' i) (i \<in> ob_seen s)" for i
    using I(2) [of i] entry_ok_mark due by (cases "qlookup (ob_queue s) i") (auto simp: look)
  have 3: "distinct (map qm_id pending)"
    using I(1) by (simp add: p comp_def distinct_map_filter)
  have 4: "qlookup q' (qm_id m) = Some m \<and> qm_status m = QInFlight" if "m \<in> set pending" for m
    using that qlookup_id by (fastforce simp: pmem look)
  have 6: "\<exists>u. owns ?s u m" if found: "qlookup q' i = Some m" and inflight: "qm_status m = QInFlight" for i m
  proof -
    obtain m0 where m0: "qlookup (ob_queue s) i = Some m0" "m = (if is_due now m0 then mark m0 else m0)"
      using found by (auto simp: look)
    show ?thesis
    proof (cases "is_due now m0")
      case True
      then show ?thesis using m0 pmem own by metis
    next
      case False
      then have "m0 = m" using m0(2) by simp
      with m0(1) inflight obtain u where "owns s u m" using I(6) by blast
      then show ?thesis using own no_t by metis
    qed
  qed
  show ?thesis unfolding ob_inv_def
  proof (intro conjI allI impI)
    fix u v m assume "owns ?s u m \<and> owns ?s v m"
    then show "u = v" using I(5) clash by (auto simp: own split: if_splits)
  next
    fix i m assume "qlookup (ob_queue ?s) i = Some m \<and> qm_status m = QInFlight"
    then have "qlookup q' i = Some m" "qm_status m = QInFlight" by simp_all
    then show "\<exists>u. owns ?s u m" by (rule 6)
  qed (use 1 2 3 4 I(3,4) keep in \<open>auto simp: own split: if_splits\<close>)
qed

lemma settle_not_inflight: "qm_status (settle now ok m) \<noteq> QInFlight"
  by (simp add: settle_def Let_def)

lemma inv_Publish:
  assumes "ob_inv s" and t: "fmlookup (ob_tasks s) t = Some tk" and p: "tk_pending tk = m # ms"
  shows "ob_inv (s\<lparr>ob_queue := write_back (settle (tk_now tk) ok m) (ob_queue s),
                  ob_tasks := fmupd t (tk\<lparr>tk_pending := ms\<rparr>) (ob_tasks s),
                  ob_log := ob_log s @ [(qm_id m, ok)]\<rparr>)"
    (is "ob_inv ?s")
proof -
  note I = ob_invD [OF assms(1)]
  let ?m = "settle (tk_now tk) ok m"
  have om: "owns s t m" using t p by (simp add: owns_def)
  have m: "qlookup (ob_queue s) (qm_id m) = Some m" "qm_status m = QInFlight" using I(4) [OF om] by auto
  have look: "qlookup (write_back ?m (ob_queue s)) i = (if i = qm_id m then Some ?m else qlookup (ob_queue s) i)" for i
    using m(1) by (simp add: qlookup_write_back)
  have d: "qm_id m \<notin> qm_id ` set ms" "distinct (map qm_id ms)" using I(3) [OF t] p by auto
  have own: "owns ?s u x \<longleftrightarrow> (if u = t then x \<in> set ms else owns s u x)" for u x by (auto simp: owns_def)
  have sub: "owns ?s u x \<Longrightarrow> owns s u x" for u x using t p by (auto simp: own owns_def split: if_splits)
  have other: "qm_id x \<noteq> qm_id m" if "owns ?s u x" for u x
  proof
    assume e: "qm_id x = qm_id m"
    have "qlookup (ob_queue s) (qm_id x) = Some x" using I(4) [OF sub [OF that]] ..
    then have xm: "x = m" unfolding e m(1) by simp
    have "owns s u m" using sub [OF that] unfolding xm .
    then have "u = t" using om by (rule I(5))
    then have "x \<in> set ms" using that by (simp add: own)
    then show False using d(1) xm by auto
  qed
  show ?thesis unfolding ob_inv_def
  proof (intro conjI allI impI)
    show "distinct (map qm_id (ob_queue ?s))" using I(1) by simp
  next
    fix i show "entry_ok (ob_log ?s) i (qlookup (ob_queue ?s) i) (i \<in> ob_seen ?s)"
    proof (cases "i = qm_id m")
      case True
      then show ?thesis using entry_ok_settle [OF I(2) [of i, unfolded True m(1)] m(2) refl]
        by (simp add: look)
    next
      case False
      then show ?thesis using I(2) [of i] by (simp add: look)
    qed
  next
    fix u v assume "fmlookup (ob_tasks ?s) u = Some v"
    then show "distinct (map qm_id (tk_pending v))" using I(3) d by (auto split: if_splits)
  next
    fix u x assume o: "owns ?s u x"
    show "qlookup (ob_queue ?s) (qm_id x) = Some x" using I(4) [OF sub [OF o]] other [OF o] by (simp add: look)
    show "qm_status x = QInFlight" using I(4) [OF sub [OF o]] by simp
  next
    fix u v x assume "owns ?s u x \<and> owns ?s v x"
    then show "u = v" using I(5) sub by blast
  next
    fix i x assume a: "qlookup (ob_queue ?s) i = Some x \<and> qm_status x = QInFlight"
    then have i: "i \<noteq> qm_id m" using settle_not_inflight [of "tk_now tk" ok m] by (auto simp: look)
    then have x: "qlookup (ob_queue s) i = Some x" "qm_id x = i" using a by (auto simp: look dest: qlookup_id)
    obtain u where u: "owns s u x" using I(6) x(1) a by blast
    then have "owns ?s u x" using p t i x(2) by (auto simp: own) (auto simp: owns_def)
    then show "\<exists>u. owns ?s u x" by blast
  qed
qed

lemma entry_ok_pruned:
  "entry_ok hist i (Some m) seen \<Longrightarrow> \<not> kept now m \<Longrightarrow> entry_ok hist i None seen"
  by (cases "qm_status m") (auto simp: entry_ok_def kept_def)

lemma inv_Finish:
  assumes "ob_inv s" and t: "fmlookup (ob_tasks s) t = Some tk" and p: "tk_pending tk = []"
  shows "ob_inv (s\<lparr>ob_queue := prune (tk_now tk) (ob_queue s), ob_tasks := fmdrop t (ob_tasks s)\<rparr>)"
    (is "ob_inv ?s")
proof -
  note I = ob_invD [OF assms(1)]
  have look: "qlookup (prune (tk_now tk) (ob_queue s)) i = opt_filter (kept (tk_now tk)) (qlookup (ob_queue s) i)" for i
    by (rule qlookup_prune [OF I(1)])
  have own: "owns ?s u x \<longleftrightarrow> owns s u x" for u x using t p by (auto simp: owns_def)
  have infl: "qm_status x = QInFlight \<Longrightarrow> kept (tk_now tk) x" for x by (simp add: kept_def)
  show ?thesis unfolding ob_inv_def own
  proof (intro conjI allI impI)
    show "distinct (map qm_id (ob_queue ?s))" using distinct_prune [OF I(1)] by simp
  next
    fix i show "entry_ok (ob_log ?s) i (qlookup (ob_queue ?s) i) (i \<in> ob_seen ?s)"
      using I(2) [of i] entry_ok_pruned by (cases "qlookup (ob_queue s) i") (auto simp: look)
  next
    fix u v assume "fmlookup (ob_tasks ?s) u = Some v"
    then show "distinct (map qm_id (tk_pending v))" using I(3) by (auto split: if_splits)
  next
    fix u x assume o: "owns s u x"
    show "qlookup (ob_queue ?s) (qm_id x) = Some x" using I(4) [OF o] infl by (simp add: look)
    show "qm_status x = QInFlight" using I(4) [OF o] by simp
  next
    fix u v x assume "owns s u x \<and> owns s v x"
    then show "u = v" using I(5) by blast
  next
    fix i x assume "qlookup (ob_queue ?s) i = Some x \<and> qm_status x = QInFlight"
    then show "\<exists>u. owns s u x" using I(6) by (auto simp: look opt_filter_eq_Some)
  qed
qed

lemma ob_inv_step: "ob_step s s' \<Longrightarrow> ob_inv s \<Longrightarrow> ob_inv s'"
  by (induction rule: ob_step.induct) (auto intro: inv_Enqueue inv_Start inv_Publish inv_Finish)

lemma ob_inv_init: "ob_inv ob_init"
  by (auto simp: ob_inv_def ob_init_def entry_ok_def owns_def)

lemma reachable_inv: "ob_reachable s \<Longrightarrow> ob_inv s"
  by (induction rule: ob_reachable.induct) (auto intro: ob_inv_init ob_inv_step)

section \<open>A run\<close>

text \<open>One event is enqueued, a flush claims it, its first attempt fails.\<close>

definition run_claimed :: outbox_state where
  "run_claimed = \<lparr>ob_queue = [mark (new_message ''a'' ''ev'' 100)],
     ob_tasks = fmupd 0 \<lparr>tk_now = 100, tk_pending = [mark (new_message ''a'' ''ev'' 100)]\<rparr> fmempty,
     ob_seen = {''a''}, ob_log = []\<rparr>"

definition run_failed :: outbox_state where
  "run_failed = run_claimed\<lparr>ob_queue := [settle 100 False (mark (new_message ''a'' ''ev'' 100))],
     ob_tasks := fmupd 0 \<lparr>tk_now = 100, tk_pending = []\<rparr> (ob_tasks run_claimed),
     ob_log := [(''a'', False)]\<rparr>"

lemma run_claimed_reachable: "ob_reachable run_claimed"
proof -
  let ?m = "new_message ''a'' ''ev'' 100"
  let ?s = "ob_init\<lparr>ob_queue := enqueue ''a'' ''ev'' 100 (ob_queue ob_init), ob_seen := insert ''a'' (ob_seen ob_init)\<rparr>"
  have 1: "ob_reachable ?s"
    by (rule ob_reachable.Step [OF ob_reachable.Init ob_step.Enqueue]) (simp add: ob_init_def)
  have due: "claim_due 100 (ob_queue ?s) = ([mark ?m], [mark ?m])"
    by (simp add: ob_init_def enqueue_def is_due_def new_message_def)
  have "ob_reachable (?s\<lparr>ob_queue := [mark ?m], ob_tasks := fmupd 0 \<lparr>tk_now = 100, tk_pending = [mark ?m]\<rparr> (ob_tasks ?s)\<rparr>)"
    by (rule ob_reachable.Step [OF 1 ob_step.Start [OF _ due]]) (simp add: ob_init_def)
  then show ?thesis by (simp add: run_claimed_def ob_init_def)
qed

lemma run_failed_reachable: "ob_reachable run_failed"
proof -
  let ?m = "mark (new_message ''a'' ''ev'' 100)"
  have "ob_reachable (run_claimed\<lparr>ob_queue := write_back (settle (tk_now \<lparr>tk_now = 100, tk_pending = [?m]\<rparr>) False ?m) (ob_queue run_claimed),
      ob_tasks := fmupd 0 (\<lparr>tk_now = 100, tk_pending = [?m]\<rparr>\<lparr>tk_pending := []\<rparr>) (ob_tasks run_claimed),
      ob_log := ob_log run_claimed @ [(qm_id ?m, False)]\<rparr>)"
    by (rule ob_reachable.Step [OF run_claimed_reachable ob_step.Publish]) (simp_all add: run_claimed_def)
  then show ?thesis by (simp add: run_failed_def run_claimed_def mark_def new_message_def)
qed

section \<open>Properties\<close>

text \<open>
  C34: overlapping flushes never publish a message twice. In every reachable state of the outbox,
  whatever enqueues and flushes interleave, a message is being published by at most one flush,
  has been published successfully at most once, and has been tried at most ten times.
\<close>

theorem outbox_publishes_at_most_once:
  assumes "ob_reachable s"
  shows "oks i (ob_log s) \<le> 1 \<and> oks i (ob_log s) + fails i (ob_log s) \<le> 10 \<and>
     (\<forall>t t' tk tk' m m'. fmlookup (ob_tasks s) t = Some tk \<and> fmlookup (ob_tasks s) t' = Some tk' \<and>
        m \<in> set (tk_pending tk) \<and> m' \<in> set (tk_pending tk') \<and> qm_id m = qm_id m' \<longrightarrow> t = t' \<and> m = m')"
proof -
  note I = ob_invD [OF reachable_inv [OF assms]]
  have "oks i (ob_log s) \<le> 1 \<and> oks i (ob_log s) + fails i (ob_log s) \<le> 10"
    using I(2) [of i] by (auto simp: entry_ok_def split: option.splits queued_status.splits if_splits)
  moreover have "t = t' \<and> m = m'"
    if h: "fmlookup (ob_tasks s) t = Some tk \<and> fmlookup (ob_tasks s) t' = Some tk' \<and>
        m \<in> set (tk_pending tk) \<and> m' \<in> set (tk_pending tk') \<and> qm_id m = qm_id m'" for t t' tk tk' m m'
  proof -
    have o: "owns s t m" "owns s t' m'" using h unfolding owns_def by blast+
    have "qlookup (ob_queue s) (qm_id m) = Some m" using I(4) [OF o(1)] ..
    moreover have "qlookup (ob_queue s) (qm_id m) = Some m'" using I(4) [OF o(2)] h by simp
    ultimately have mm: "m = m'" by simp
    have "owns s t' m" using o(2) unfolding mm .
    with o(1) have "t = t'" by (rule I(5))
    with mm show ?thesis by simp
  qed
  ultimately show ?thesis by (intro conjI allI impI) blast+
qed

theorem outbox_publishes_at_most_once_witness:
  "oks ''a'' (ob_log run_failed) \<le> 1 \<and> fails ''a'' (ob_log run_failed) = 1"
  using outbox_publishes_at_most_once [OF run_failed_reachable, of "''a''"]
  by (simp add: run_failed_def fails_def)

text \<open>
  the outbox loses no message: an event that was enqueued is still in the queue, or it was
  published, or every one of its ten attempts failed. One that left the retry cycle unpublished
  failed exactly ten times, and one waiting in the queue is waiting for a retry or is owned by a
  flush.
\<close>

theorem outbox_loses_nothing:
  assumes "ob_reachable s" and "i \<in> ob_seen s"
  shows "(\<exists>m \<in> set (ob_queue s). qm_id m = i \<and>
            (qm_status m = QPending \<or>
             (qm_status m = QInFlight \<and> (\<exists>t tk. fmlookup (ob_tasks s) t = Some tk \<and> m \<in> set (tk_pending tk))))) \<or>
         oks i (ob_log s) = 1 \<or> fails i (ob_log s) = 10"
proof -
  note I = ob_invD [OF reachable_inv [OF assms(1)]]
  show ?thesis
  proof (cases "qlookup (ob_queue s) i")
    case None
    then show ?thesis using I(2) [of i] assms(2) by (auto simp: entry_ok_def)
  next
    case (Some m)
    have m: "m \<in> set (ob_queue s)" "qm_id m = i" using qlookup_id [OF Some] by auto
    show ?thesis
    proof (cases "qm_status m")
      case QInFlight
      then show ?thesis using I(6) [OF Some] m unfolding owns_def by blast
    qed (use I(2) [of i] Some m in \<open>auto simp: entry_ok_def\<close>)
  qed
qed

theorem outbox_loses_nothing_witness:
  "\<exists>m \<in> set (ob_queue run_failed). qm_id m = ''a'' \<and> qm_status m = QPending"
  using outbox_loses_nothing [OF run_failed_reachable, of "''a''"]
  by (simp add: run_failed_def run_claimed_def settle_def max_retries_def mark_def new_message_def Let_def oks_def fails_def word_le_nat_alt)

lemma pow2_min7_le: "(2 :: int) ^ min n 7 \<le> 128"
proof -
  have "(2 :: int) ^ min n 7 \<le> 2 ^ 7" by (rule power_increasing) auto
  then show ?thesis by simp
qed

text \<open>
  the waits between two attempts are the announced ones: 30 seconds doubled at each failure
  and never more than an hour, so that a message is due again within an hour of its last failure.
\<close>

theorem retry_delay_bounds:
  "30 \<le> next_retry_delay_secs m \<and> next_retry_delay_secs m \<le> 3600 \<and>
   (unat (qm_retry_count m) \<le> 6 \<longrightarrow> next_retry_delay_secs m = 30 * 2 ^ unat (qm_retry_count m)) \<and>
   (qm_status m = QInFlight \<and> unat (qm_retry_count m) < 9 \<and> 0 \<le> now \<and> now < 2 ^ 62 \<longrightarrow>
      is_due (now + 3600) (settle now False m) \<and> \<not> is_due (now + 29) (settle now False m))"
proof -
  have le: "30 \<le> next_retry_delay_secs x" "next_retry_delay_secs x \<le> 3600" for x
    by (simp_all add: next_retry_delay_secs_def)
  have exact: "next_retry_delay_secs m = 30 * 2 ^ unat (qm_retry_count m)" if "unat (qm_retry_count m) \<le> 6"
  proof -
    have "(2 :: int) ^ unat (qm_retry_count m) \<le> 2 ^ 6" using that by (intro power_increasing) auto
    then show ?thesis using that by (simp add: next_retry_delay_secs_def min_def)
  qed
  have "is_due (now + 3600) (settle now False m) \<and> \<not> is_due (now + 29) (settle now False m)"
    if h: "unat (qm_retry_count m) < 9" "0 \<le> now" "now < 2 ^ 62"
  proof -
    let ?m = "m\<lparr>qm_retry_count := qm_retry_count m + 1\<rparr>"
    have "\<not> max_retries \<le> qm_retry_count m + 1"
      using h(1) retry_succ [of "qm_retry_count m"] by (simp add: word_le_nat_alt max_retries_def)
    moreover have "i64_wrap (now + next_retry_delay_secs ?m) = now + next_retry_delay_secs ?m"
      using h le [of ?m] by (intro i64_wrap_id) (auto simp: is_i64_def i64_bound_defs)
    ultimately show ?thesis using le [of ?m]
      by (simp add: is_due_def settle_def Let_def)
  qed
  then show ?thesis using le exact by blast
qed

theorem retry_delay_bounds_witness:
  "is_due 3700 (settle 100 False (mark (new_message ''a'' ''ev'' 100))) \<and>
   next_retry_delay_secs (new_message ''a'' ''ev'' 100) = 30"
  using retry_delay_bounds [of "mark (new_message ''a'' ''ev'' 100)" 100]
    retry_delay_bounds [of "new_message ''a'' ''ev'' 100" 100]
  by (simp add: mark_def new_message_def)

end
