(* ===== verification/Order_Book.thy ===== *)
theory Order_Book
  imports Order_Status
begin

text \<open>
  The order book of \<open>rust/src/api/orders.rs\<close> (\<open>BookState\<close>, \<open>OrderBook\<close>, \<open>DedupWindow\<close>,
  \<open>with_bond_window\<close>): the public orders by id with a revision, the two broadcast channels it
  feeds, and the notes of the daemon's public view from which a lost take is settled. A channel
  is the list of what was sent on it. The critical section of an operation and the send that
  follows it are one step. The asynchronous window of \<open>schedule_publish\<close> is the flag and the
  step \<open>window_closes\<close> of its task.
\<close>

section \<open>The book and its changes\<close>

datatype book_delta =
    BUpserted u64 order_info
  | BRemoved u64 string
  | BReset
  | BLoaded

record book_state =
  bs_orders :: "(string, order_info) fmap"
  bs_revision :: u64
  bs_loaded :: bool

definition bs_upsert :: "order_info \<Rightarrow> book_state \<Rightarrow> book_state \<times> book_delta list" where
  "bs_upsert order b =
     (if (case fmlookup (bs_orders b) (oi_id order) of Some old \<Rightarrow> order_info_eq old order | None \<Rightarrow> False)
      then (b, [])
      else let r = bs_revision b + 1 in
        (b\<lparr>bs_revision := r, bs_orders := fmupd (oi_id order) order (bs_orders b)\<rparr>,
         [BUpserted r order]))"

definition bs_remove :: "string \<Rightarrow> book_state \<Rightarrow> bool \<times> book_state \<times> book_delta list" where
  "bs_remove order_id b = (case fmlookup (bs_orders b) order_id of
      None \<Rightarrow> (False, b, [])
    | Some _ \<Rightarrow> let r = bs_revision b + 1 in
        (True, b\<lparr>bs_orders := fmdrop order_id (bs_orders b), bs_revision := r\<rparr>, [BRemoved r order_id]))"

definition bs_replace_all :: "order_info list \<Rightarrow> book_state \<Rightarrow> book_state \<times> book_delta list" where
  "bs_replace_all os b =
     (b\<lparr>bs_orders := fold (\<lambda>ord. fmupd (oi_id ord) ord) os fmempty, bs_revision := bs_revision b + 1\<rparr>, [BReset])"

definition bs_snapshot :: "book_state \<Rightarrow> order_info list" where
  "bs_snapshot b = map snd (sorted_list_of_fmap (bs_orders b))"

section \<open>The shared book\<close>

record order_book =
  bk_state :: book_state
  bk_tx :: "order_info list list"
  bk_deltas :: "book_delta list"
  bk_armed :: bool
  bk_wire :: "(string, order_info) fmap"
  bk_touched :: "string list"

definition new_book :: order_book where
  "new_book = \<lparr>bk_state = \<lparr>bs_orders = fmempty, bs_revision = 0, bs_loaded = False\<rparr>,
     bk_tx = [], bk_deltas = [], bk_armed = False, bk_wire = fmempty, bk_touched = []\<rparr>"

definition commit :: "book_state \<times> book_delta list \<Rightarrow> order_book \<Rightarrow> order_book" where
  "commit r k = k\<lparr>bk_state := fst r, bk_deltas := bk_deltas k @ snd r\<rparr>"

definition publish :: "order_book \<Rightarrow> order_book" where
  "publish k = k\<lparr>bk_tx := bk_tx k @ [bs_snapshot (bk_state k)]\<rparr>"

definition touch_trade :: "string \<Rightarrow> order_book \<Rightarrow> order_book" where
  "touch_trade order_id k = k\<lparr>bk_touched := bk_touched k @ [order_id]\<rparr>"

definition set_orders :: "order_info list \<Rightarrow> order_book \<Rightarrow> order_book" where
  "set_orders os k = publish (commit (bs_replace_all os (bk_state k)) k)"

definition clear_book :: "order_book \<Rightarrow> order_book" where
  "clear_book k = (let (b, ds) = bs_replace_all [] (bk_state k) in
     (commit (b\<lparr>bs_loaded := False\<rparr>, ds) k)\<lparr>bk_tx := bk_tx k @ [[]]\<rparr>)"

definition upsert_order :: "order_info \<Rightarrow> order_book \<Rightarrow> order_book" where
  "upsert_order order k = publish (commit (bs_upsert order (bk_state k)) k)"

definition upsert_order_deferred :: "order_info \<Rightarrow> order_book \<Rightarrow> order_book" where
  "upsert_order_deferred order k = commit (bs_upsert order (bk_state k)) k"

definition schedule_publish :: "order_book \<Rightarrow> order_book" where
  "schedule_publish k = k\<lparr>bk_armed := True\<rparr>"

definition window_closes :: "order_book \<Rightarrow> order_book" where
  "window_closes k = (if bk_armed k then publish (k\<lparr>bk_armed := False\<rparr>) else k)"

definition upsert_order_coalesced :: "order_info \<Rightarrow> order_book \<Rightarrow> order_book" where
  "upsert_order_coalesced order k = schedule_publish (upsert_order_deferred order k)"

definition publish_on_stored_events_end :: "bool \<Rightarrow> order_book \<Rightarrow> bool \<times> order_book" where
  "publish_on_stored_events_end is_orders_feed k =
     (if \<not> is_orders_feed then (False, k)
      else let k1 = publish k in
        (True, commit ((bk_state k1)\<lparr>bs_loaded := True\<rparr>, [BLoaded]) k1))"

text \<open>Deltas carry a \<open>u64\<close> revision; the bridge reports it as a \<open>u32\<close> while it fits.\<close>

definition bridge_revision :: "u64 \<Rightarrow> u32 option" where
  "bridge_revision r = (if unat r < 2 ^ 32 - 1 then Some (of_nat (unat r)) else None)"

definition bridge_snapshot :: "order_book \<Rightarrow> order_book_snapshot" where
  "bridge_snapshot k = \<lparr>
     obs_revision = (case bridge_revision (bs_revision (bk_state k)) of Some r \<Rightarrow> r | None \<Rightarrow> u32_max),
     obs_orders = bs_snapshot (bk_state k), obs_loaded = bs_loaded (bk_state k)\<rparr>"

definition update_order_status :: "string \<Rightarrow> order_status \<Rightarrow> order_book \<Rightarrow> order_book" where
  "update_order_status order_id status k = (case fmlookup (bs_orders (bk_state k)) order_id of
      None \<Rightarrow> k
    | Some order \<Rightarrow> touch_trade order_id
        (publish (commit (bs_upsert (order\<lparr>oi_status := status\<rparr>) (bk_state k)) k)))"

definition get_order :: "string \<Rightarrow> order_book \<Rightarrow> order_info option" where
  "get_order order_id k = fmlookup (bs_orders (bk_state k)) order_id"

definition remove_order_deferred :: "string \<Rightarrow> order_book \<Rightarrow> bool \<times> order_book" where
  "remove_order_deferred order_id k =
     (let (removed, r) = bs_remove order_id (bk_state k) in (removed, commit r k))"

definition remove_order :: "string \<Rightarrow> order_book \<Rightarrow> order_book" where
  "remove_order order_id k = (let (removed, k') = remove_order_deferred order_id k in
     if removed then publish k' else k')"

datatype publish_mode = Coalesced | WhenBatchEnds

definition apply_ingested_order :: "order_info \<Rightarrow> bool \<Rightarrow> publish_mode \<Rightarrow> order_book \<Rightarrow> order_book" where
  "apply_ingested_order order ours mode k =
     (if \<not> ours \<and> is_hard_terminal (oi_status order)
      then let (removed, k') = remove_order_deferred (oi_id order) k in
        (if removed \<and> mode = Coalesced then schedule_publish k' else k')
      else let k' = (case mode of Coalesced \<Rightarrow> upsert_order_coalesced order k
                     | WhenBatchEnds \<Rightarrow> upsert_order_deferred order k) in
        (if ours then touch_trade (oi_id order) k' else k'))"

section \<open>The notes of the daemon's public view\<close>

definition note_wire_order :: "order_info \<Rightarrow> order_book \<Rightarrow> order_book" where
  "note_wire_order order k = k\<lparr>bk_wire := fmupd (oi_id order) order (bk_wire k)\<rparr>"

definition refresh_wire_order :: "order_info \<Rightarrow> order_book \<Rightarrow> order_book" where
  "refresh_wire_order order k = (case fmlookup (bk_wire k) (oi_id order) of
      Some _ \<Rightarrow> k\<lparr>bk_wire := fmupd (oi_id order) order (bk_wire k)\<rparr> | None \<Rightarrow> k)"

definition forget_wire_order :: "string \<Rightarrow> order_book \<Rightarrow> order_book" where
  "forget_wire_order order_id k = k\<lparr>bk_wire := fmdrop order_id (bk_wire k)\<rparr>"

definition settle_after_lost_take :: "string \<Rightarrow> order_book \<Rightarrow> order_book" where
  "settle_after_lost_take order_id k =
     (let noted = fmlookup (bk_wire k) order_id; k1 = forget_wire_order order_id k;
          public_status = (case noted of Some ord \<Rightarrow> Some (oi_status ord)
                           | None \<Rightarrow> map_option oi_status (get_order order_id k1))
      in (case (noted, public_status) of
            (Some ord, Some Pending) \<Rightarrow> upsert_order ord k1
          | (None, Some Pending) \<Rightarrow> k1
          | (None, None) \<Rightarrow> k1
          | _ \<Rightarrow> remove_order order_id k1))"

section \<open>Reading the book\<close>

record order_filters =
  of_kind :: "order_kind option"
  of_fiat_code :: "string option"
  of_payment_method :: "string option"

fun is_infix :: "string \<Rightarrow> string \<Rightarrow> bool" where
  "is_infix needle [] \<longleftrightarrow> needle = []"
| "is_infix needle (c # cs) \<longleftrightarrow> take (length needle) (c # cs) = needle \<or> is_infix needle cs"

text \<open>\<open>lower\<close> is \<open>str::to_lowercase\<close>, the Unicode tables of the standard library.\<close>

definition filter_accepts :: "(string \<Rightarrow> string) \<Rightarrow> order_filters option \<Rightarrow> order_info \<Rightarrow> bool" where
  "filter_accepts lower filters ord \<longleftrightarrow> (case filters of None \<Rightarrow> True | Some f \<Rightarrow>
     (case of_kind f of Some kind \<Rightarrow> oi_kind ord = kind | None \<Rightarrow> True) \<and>
     (case of_fiat_code f of Some code \<Rightarrow> code = [] \<or> oi_fiat_code ord = code | None \<Rightarrow> True) \<and>
     (case of_payment_method f of Some pm \<Rightarrow> pm = [] \<or> is_infix (lower pm) (lower (oi_payment_method ord))
      | None \<Rightarrow> True))"

text \<open>The comparator of the list: \<open>order_before a b\<close> is that it does not answer \<open>Greater\<close>.\<close>

definition order_before :: "order_info \<Rightarrow> order_info \<Rightarrow> bool" where
  "order_before a b = (case (oi_expires_at a, oi_expires_at b) of
      (Some ea, Some eb) \<Rightarrow> ea \<le> eb
    | (Some _, None) \<Rightarrow> True
    | (None, Some _) \<Rightarrow> False
    | (None, None) \<Rightarrow> oi_created_at b \<le> oi_created_at a)"

fun order_insert :: "order_info \<Rightarrow> order_info list \<Rightarrow> order_info list" where
  "order_insert a [] = [a]"
| "order_insert a (b # bs) = (if order_before a b then a # b # bs else b # order_insert a bs)"

text \<open>\<open>vals\<close> is the book in the order in which the hash map is iterated; the sort is stable.\<close>

definition get_orders :: "(string \<Rightarrow> string) \<Rightarrow> order_filters option \<Rightarrow> order_info list \<Rightarrow> order_info list" where
  "get_orders lower filters vals =
     foldr order_insert (filter (\<lambda>ord. oi_status ord = Pending \<and> filter_accepts lower filters ord) vals) []"

definition with_bond_window :: "order_info \<Rightarrow> order_status option \<Rightarrow> order_info" where
  "with_bond_window ord local_st = (if oi_status ord = Pending
     then (case local_st of Some st \<Rightarrow> ord\<lparr>oi_status := st\<rparr> | None \<Rightarrow> ord) else ord)"

section \<open>The window of processed messages\<close>

record dedup_window =
  dw_seen :: "string fset"
  dw_order :: "string list"

definition dedup_max_entries :: nat where "dedup_max_entries = 512"

definition empty_window :: dedup_window where
  "empty_window = \<lparr>dw_seen = {||}, dw_order = []\<rparr>"

definition dedup_record :: "string \<Rightarrow> dedup_window \<Rightarrow> bool \<times> dedup_window" where
  "dedup_record event_id w =
     (if event_id |\<in>| dw_seen w then (True, w)
      else let seen = finsert event_id (dw_seen w); queue = dw_order w @ [event_id] in
        if length queue > dedup_max_entries
        then (False, \<lparr>dw_seen = seen |-| {|hd queue|}, dw_order = tl queue\<rparr>)
        else (False, \<lparr>dw_seen = seen, dw_order = queue\<rparr>))"

section \<open>Every operation is one move of the book\<close>

inductive book_move :: "book_state \<Rightarrow> book_delta list \<Rightarrow> book_state \<Rightarrow> bool" where
  Quiet: "book_move b [] b"
| Upserted: "book_move b [BUpserted (bs_revision b + 1) ord]
     (b\<lparr>bs_revision := bs_revision b + 1, bs_orders := fmupd (oi_id ord) ord (bs_orders b)\<rparr>)"
| Removed: "book_move b [BRemoved (bs_revision b + 1) i]
     (b\<lparr>bs_orders := fmdrop i (bs_orders b), bs_revision := bs_revision b + 1\<rparr>)"
| Replaced: "(\<And>i ord. fmlookup m i = Some ord \<Longrightarrow> oi_id ord = i) \<Longrightarrow> l \<longrightarrow> bs_loaded b \<Longrightarrow>
     book_move b [BReset] (b\<lparr>bs_orders := m, bs_revision := bs_revision b + 1, bs_loaded := l\<rparr>)"
| Confirmed: "book_move b [BLoaded] (b\<lparr>bs_loaded := True\<rparr>)"

inductive_cases book_moveE: "book_move b ds b'"

definition keyed :: "(string, order_info) fmap \<Rightarrow> bool" where
  "keyed m \<longleftrightarrow> (\<forall>i ord. fmlookup m i = Some ord \<longrightarrow> oi_id ord = i)"

definition book_ok :: "book_state \<Rightarrow> bool" where
  "book_ok b \<longleftrightarrow> keyed (bs_orders b)"

lemma keyed_simps [simp]:
  "keyed fmempty" "keyed m \<Longrightarrow> keyed (fmupd (oi_id ord) ord m)" "keyed m \<Longrightarrow> keyed (fmdrop i m)"
  by (auto simp: keyed_def split: if_splits)

lemma keyed_fold: "keyed m \<Longrightarrow> keyed (fold (\<lambda>ord. fmupd (oi_id ord) ord) os m)"
  by (induction os arbitrary: m) auto

lemma book_move_ok: "book_move b ds b' \<Longrightarrow> book_ok b \<Longrightarrow> book_ok b'"
  by (induction rule: book_move.induct) (auto simp: book_ok_def keyed_def split: if_splits)

lemma bs_upsert_move: "book_move b (snd (bs_upsert ord b)) (fst (bs_upsert ord b))"
  by (auto simp: bs_upsert_def Let_def intro: book_move.intros)

lemma bs_remove_move: "book_move b (snd (snd (bs_remove i b))) (fst (snd (bs_remove i b)))"
  by (auto simp: bs_remove_def Let_def intro: book_move.intros split: option.splits)

lemma bs_replace_move: "book_move b (snd (bs_replace_all os b)) (fst (bs_replace_all os b))"
  using book_move.Replaced [of "fold (\<lambda>ord. fmupd (oi_id ord) ord) os fmempty" "bs_loaded b" b]
    keyed_fold [of fmempty os]
  by (simp add: bs_replace_all_def keyed_def)

lemma map_of_rev_distinct: "distinct (map fst xs) \<Longrightarrow> map_of (rev xs) = map_of xs"
proof (induction xs)
  case (Cons x xs)
  then have "map_of xs (fst x) = None" by (auto simp: map_of_eq_None_iff)
  with Cons show ?case by (cases x) (auto simp: map_add_def fun_eq_iff split: option.splits)
qed simp

text \<open>The snapshot rebuilds the map when every order is filed under its id.\<close>

lemma snapshot_rebuilds:
  assumes "book_ok b"
  shows "fold (\<lambda>ord. fmupd (oi_id ord) (f ord)) (bs_snapshot b) fmempty = fmmap f (bs_orders b)"
proof -
  have upd: "fmlookup (fold (\<lambda>ord. fmupd (oi_id ord) (f ord)) os m) i =
      (case map_of (rev (map (\<lambda>ord. (oi_id ord, f ord)) os)) i of Some v \<Rightarrow> Some v | None \<Rightarrow> fmlookup m i)" for os m i
    by (induction os arbitrary: m) (auto simp: map_add_def split: option.splits)
  let ?kv = "sorted_list_of_fmap (bs_orders b)"
  have key: "map (\<lambda>ord. (oi_id ord, f ord)) (bs_snapshot b) = map (\<lambda>(i, ord). (i, f ord)) ?kv"
    using assms by (auto simp: bs_snapshot_def book_ok_def keyed_def sorted_list_of_fmap_def)
  have "distinct (map fst ?kv)" by (simp add: sorted_list_of_fmap_def comp_def sorted_list_of_fset.rep_eq)
  then have dist: "distinct (map fst (map (\<lambda>(i, ord). (i, f ord)) ?kv))"
    by (simp add: comp_def case_prod_beta)
  have "map_of (rev (map (\<lambda>ord. (oi_id ord, f ord)) (bs_snapshot b))) i = fmlookup (fmmap f (bs_orders b)) i" for i
    unfolding key using dist by (simp add: map_of_map map_of_rev_distinct)
  then show ?thesis by (intro fmap_ext) (simp add: upd split: option.splits)
qed

datatype book_op =
    OSet "order_info list" | OClear | OUpsert order_info | ODeferred order_info | OCoalesced order_info
  | OWindow | OStoredEnd bool | OStatus string order_status | ORemove string | ORemoveDeferred string
  | OIngest order_info bool publish_mode | ONote order_info | ORefresh order_info | OForget string
  | OSettle string

fun book_step :: "book_op \<Rightarrow> order_book \<Rightarrow> order_book" where
  "book_step (OSet os) k = set_orders os k"
| "book_step OClear k = clear_book k"
| "book_step (OUpsert ord) k = upsert_order ord k"
| "book_step (ODeferred ord) k = upsert_order_deferred ord k"
| "book_step (OCoalesced ord) k = upsert_order_coalesced ord k"
| "book_step OWindow k = window_closes k"
| "book_step (OStoredEnd orders_feed) k = snd (publish_on_stored_events_end orders_feed k)"
| "book_step (OStatus i st) k = update_order_status i st k"
| "book_step (ORemove i) k = remove_order i k"
| "book_step (ORemoveDeferred i) k = snd (remove_order_deferred i k)"
| "book_step (OIngest ord ours mode) k = apply_ingested_order ord ours mode k"
| "book_step (ONote ord) k = note_wire_order ord k"
| "book_step (ORefresh ord) k = refresh_wire_order ord k"
| "book_step (OForget i) k = forget_wire_order i k"
| "book_step (OSettle i) k = settle_after_lost_take i k"

definition moves :: "order_book \<Rightarrow> order_book \<Rightarrow> bool" where
  "moves k k' \<longleftrightarrow> (\<exists>ds. bk_deltas k' = bk_deltas k @ ds \<and> book_move (bk_state k) ds (bk_state k'))"

lemma moves_same: "bk_deltas k' = bk_deltas k \<Longrightarrow> bk_state k' = bk_state k \<Longrightarrow> moves k k'"
  by (auto simp: moves_def intro: book_move.Quiet)

lemma same_moves [simp]:
  "moves k (publish k') \<longleftrightarrow> moves k k'" "moves k (touch_trade i k') \<longleftrightarrow> moves k k'"
  "moves k (schedule_publish k') \<longleftrightarrow> moves k k'"
  "moves (k\<lparr>bk_wire := w\<rparr>) k' \<longleftrightarrow> moves k k'" "moves k (k'\<lparr>bk_tx := t\<rparr>) \<longleftrightarrow> moves k k'"
  "moves (publish k) k' \<longleftrightarrow> moves k k'" "moves (forget_wire_order i k) k' \<longleftrightarrow> moves k k'"
  by (auto simp: moves_def publish_def touch_trade_def schedule_publish_def forget_wire_order_def)

lemma commit_moves: "book_move (bk_state k) (snd r) (fst r) \<Longrightarrow> moves k (commit r k)"
  by (auto simp: moves_def commit_def)

lemma commit_state [simp]: "bk_state (commit r k) = fst r" "bk_deltas (commit r k) = bk_deltas k @ snd r"
  "bk_wire (commit r k) = bk_wire k" "bk_armed (commit r k) = bk_armed k" "bk_tx (commit r k) = bk_tx k"
  by (simp_all add: commit_def)

lemma publish_state [simp]: "bk_state (publish k) = bk_state k" "bk_deltas (publish k) = bk_deltas k"
  "bk_wire (publish k) = bk_wire k" "bk_armed (publish k) = bk_armed k"
  "bk_tx (publish k) = bk_tx k @ [bs_snapshot (bk_state k)]"
  by (simp_all add: publish_def)

lemma upsert_moves: "moves k (commit (bs_upsert ord (bk_state k)) k)"
  by (intro commit_moves bs_upsert_move)

lemma remove_deferred_moves: "moves k (snd (remove_order_deferred i k))"
  using bs_remove_move [of "bk_state k" i]
  by (auto simp: remove_order_deferred_def split: prod.splits intro: commit_moves)

lemma remove_moves: "moves k (remove_order i k)"
  using remove_deferred_moves [of k i] by (auto simp: remove_order_def split: prod.splits)

lemma clear_moves: "moves k (clear_book k)"
proof -
  let ?b = "bk_state k"
  have "book_move ?b [BReset] (?b\<lparr>bs_orders := fmempty, bs_revision := bs_revision ?b + 1, bs_loaded := False\<rparr>)"
    by (rule book_move.Replaced) auto
  then have "moves k (commit ((fst (bs_replace_all [] ?b))\<lparr>bs_loaded := False\<rparr>, [BReset]) k)"
    by (intro commit_moves) (simp add: bs_replace_all_def)
  then show ?thesis by (simp add: clear_book_def bs_replace_all_def)
qed

lemma stored_end_moves: "moves k (snd (publish_on_stored_events_end feed k))"
proof (cases feed)
  case True
  have "moves (publish k) (commit ((bk_state k)\<lparr>bs_loaded := True\<rparr>, [BLoaded]) (publish k))"
    by (intro commit_moves) (simp add: book_move.Confirmed)
  then show ?thesis using True by (simp add: publish_on_stored_events_end_def Let_def)
qed (simp add: publish_on_stored_events_end_def moves_same)

lemma settle_moves: "moves k (settle_after_lost_take i k)"
  using upsert_moves [of "forget_wire_order i k"] remove_moves [of "forget_wire_order i k" i]
    moves_same [of "forget_wire_order i k" k]
  by (auto simp: settle_after_lost_take_def Let_def upsert_order_def forget_wire_order_def
      split: option.splits order_status.splits)

lemma book_step_moves: "moves k (book_step op k)"
proof (cases op)
  case (OIngest ord ours mode)
  then show ?thesis using remove_deferred_moves [of k "oi_id ord"] upsert_moves [of k ord]
    by (auto simp: apply_ingested_order_def upsert_order_coalesced_def upsert_order_deferred_def Let_def
        split: prod.splits publish_mode.splits)
next
  case (OSet os)
  then show ?thesis using commit_moves [OF bs_replace_move, of k os] by (simp add: set_orders_def)
next
  case (OStatus i st)
  then show ?thesis using upsert_moves [of k]
    by (auto simp: update_order_status_def moves_same split: option.splits)
qed (auto simp: clear_moves remove_moves remove_deferred_moves settle_moves stored_end_moves upsert_moves moves_same
    upsert_order_def upsert_order_deferred_def upsert_order_coalesced_def window_closes_def
    note_wire_order_def refresh_wire_order_def forget_wire_order_def split: option.splits)

section \<open>Histories of the book\<close>

lemma keyed_upd: "oi_id ord = i \<Longrightarrow> keyed m \<Longrightarrow> keyed (fmupd i ord m)"
  by (auto simp: keyed_def split: if_splits)

lemma wire_state [simp]: "bk_state (forget_wire_order i k) = bk_state k"
  "bk_wire (forget_wire_order i k) = fmdrop i (bk_wire k)" "bk_tx (forget_wire_order i k) = bk_tx k"
  "bk_armed (forget_wire_order i k) = bk_armed k" "bk_wire (touch_trade i k) = bk_wire k"
  "bk_state (touch_trade i k) = bk_state k" "bk_tx (touch_trade i k) = bk_tx k" "bk_armed (touch_trade i k) = bk_armed k"
  "bk_wire (schedule_publish k) = bk_wire k" "bk_state (schedule_publish k) = bk_state k"
  "bk_armed (schedule_publish k) = True" "bk_tx (schedule_publish k) = bk_tx k"
  by (simp_all add: forget_wire_order_def touch_trade_def schedule_publish_def)

lemma remove_wire [simp]: "bk_wire (snd (remove_order_deferred i k)) = bk_wire k"
  "bk_wire (remove_order i k) = bk_wire k"
  by (auto simp: remove_order_def remove_order_deferred_def split: prod.splits)

lemma upsert_wire [simp]: "bk_wire (upsert_order ord k) = bk_wire k"
  by (simp add: upsert_order_def)

lemma settle_wire: "bk_wire (settle_after_lost_take i k) = fmdrop i (bk_wire k)"
  by (simp add: settle_after_lost_take_def upsert_order_def Let_def split: option.splits order_status.splits)

lemma ingest_wire: "bk_wire (apply_ingested_order ord ours mode k) = bk_wire k"
  using remove_wire(1) [of "oi_id ord" k]
  by (auto simp del: remove_wire simp: apply_ingested_order_def Let_def upsert_order_coalesced_def upsert_order_deferred_def
      split: prod.splits publish_mode.splits)

lemma notes_keyed_step: "keyed (bk_wire k) \<Longrightarrow> keyed (bk_wire (book_step op k))"
  by (cases op) (auto simp: settle_wire ingest_wire set_orders_def clear_book_def bs_replace_all_def upsert_order_def
      upsert_order_deferred_def upsert_order_coalesced_def window_closes_def publish_on_stored_events_end_def
      update_order_status_def note_wire_order_def refresh_wire_order_def Let_def split: option.splits)

lemma notes_keyed: "keyed (bk_wire (fold book_step ops new_book))"
  by (induction ops rule: rev_induct) (auto simp: new_book_def notes_keyed_step)

lemma get_order_upsert: "get_order j (upsert_order ord k) = (if j = oi_id ord then Some ord else get_order j k)"
  by (auto simp: get_order_def upsert_order_def bs_upsert_def Let_def dest: order_info_eq_imp_eq split: option.splits)

lemma get_order_remove: "get_order j (remove_order i k) = (if j = i then None else get_order j k)"
  by (auto simp: get_order_def remove_order_def remove_order_deferred_def bs_remove_def Let_def split: option.splits)

lemma get_order_forget [simp]: "get_order j (forget_wire_order i k) = get_order j k"
  by (simp add: get_order_def)

text \<open>What the snapshot stream shows: the last snapshot, unless a window is still open.\<close>

fun publishing :: "book_op \<Rightarrow> bool" where
  "publishing (ODeferred _) = False"
| "publishing (ORemoveDeferred _) = False"
| "publishing (OIngest _ _ WhenBatchEnds) = False"
| "publishing _ = True"

definition shown_is_current :: "order_book \<Rightarrow> bool" where
  "shown_is_current k \<longleftrightarrow> (if bk_tx k = [] then bs_orders (bk_state k) = fmempty
     else last (bk_tx k) = bs_snapshot (bk_state k))"

lemma shown_publish [simp]: "shown_is_current (publish k)"
  by (simp add: shown_is_current_def)

lemma shown_same [simp]: "shown_is_current (touch_trade i k) = shown_is_current k"
  "shown_is_current (forget_wire_order i k) = shown_is_current k"
  by (simp_all add: shown_is_current_def)

lemma shown_remove: "bk_armed k \<or> shown_is_current k \<Longrightarrow> bk_armed (remove_order i k) \<or> shown_is_current (remove_order i k)"
  by (auto simp: remove_order_def remove_order_deferred_def bs_remove_def shown_is_current_def Let_def
      split: option.splits prod.splits)

lemma shown_upsert [simp]: "shown_is_current (upsert_order ord k)"
  by (simp add: upsert_order_def)

lemma shown_settle: "bk_armed k \<or> shown_is_current k \<Longrightarrow>
    bk_armed (settle_after_lost_take i k) \<or> shown_is_current (settle_after_lost_take i k)"
  using shown_remove [of "forget_wire_order i k" i]
  by (auto simp: settle_after_lost_take_def Let_def split: option.splits order_status.splits)

lemma shown_ingest: "bk_armed k \<or> shown_is_current k \<Longrightarrow>
    bk_armed (apply_ingested_order ord ours Coalesced k) \<or> shown_is_current (apply_ingested_order ord ours Coalesced k)"
  by (auto simp: apply_ingested_order_def upsert_order_coalesced_def Let_def remove_order_deferred_def bs_remove_def
      shown_is_current_def split: prod.splits option.splits)

lemma shown_clear: "shown_is_current (clear_book k)"
  by (simp add: shown_is_current_def clear_book_def bs_replace_all_def bs_snapshot_def
      sorted_list_of_fmap_def sorted_list_of_fset.rep_eq)

lemma shown_wire: "shown_is_current (k\<lparr>bk_wire := w\<rparr>) = shown_is_current k"
  by (simp add: shown_is_current_def)

lemma shown_confirm: "shown_is_current (commit ((bk_state k)\<lparr>bs_loaded := l\<rparr>, ds) (publish k))"
  by (simp add: shown_is_current_def bs_snapshot_def)

lemma shown_step:
  assumes "publishing op" "bk_armed k \<or> shown_is_current k"
  shows "bk_armed (book_step op k) \<or> shown_is_current (book_step op k)"
  using assms
proof (cases op)
  case (OIngest ord ours mode)
  with assms show ?thesis using shown_ingest [of k ord ours] by (cases mode) auto
qed (use assms(2) in \<open>auto simp: shown_clear shown_wire shown_confirm shown_remove shown_settle set_orders_def
    upsert_order_coalesced_def window_closes_def publish_on_stored_events_end_def update_order_status_def
    note_wire_order_def refresh_wire_order_def shown_publish Let_def split: option.splits\<close>)

section \<open>Properties\<close>

text \<open>
  a lost take hands its order back to the public book. Whatever happened before, after the
  take is settled the book shows the order as the daemon's latest public view when that view is
  pending, and otherwise not at all or as pending: the dead trade's status never stays. The note
  is spent, and no other order is touched.
\<close>

theorem lost_take_is_public_again:
  assumes "k = fold book_step ops new_book"
  shows "(\<forall>ord. get_order i (settle_after_lost_take i k) = Some ord \<longrightarrow> oi_status ord = Pending) \<and>
    (\<forall>ord. fmlookup (bk_wire k) i = Some ord \<and> oi_status ord = Pending \<longrightarrow>
       get_order i (settle_after_lost_take i k) = Some ord) \<and>
    fmlookup (bk_wire (settle_after_lost_take i k)) i = None \<and>
    (j \<noteq> i \<longrightarrow> get_order j (settle_after_lost_take i k) = get_order j k)"
proof -
  have key: "oi_id ord = i" if "fmlookup (bk_wire k) i = Some ord" for ord
    using notes_keyed [of ops] that unfolding assms keyed_def by blast
  show ?thesis
    by (auto simp: settle_wire settle_after_lost_take_def Let_def get_order_upsert get_order_remove key
        split: option.splits order_status.splits)
qed

definition demo_order :: order_info where
  "demo_order = \<lparr>oi_id = ''o'', oi_kind = Sell, oi_status = Pending, oi_amount_sats = None,
     oi_fiat_amount = None, oi_fiat_amount_min = None, oi_fiat_amount_max = None, oi_fiat_code = ''USD'',
     oi_payment_method = ''cash'', oi_premium = F64_fin 0, oi_creator_pubkey = ''pk'', oi_created_at = 1,
     oi_expires_at = None, oi_is_mine = False, oi_rating = F64_fin 0, oi_total_reviews = 0, oi_days_active = 0\<rparr>"

theorem lost_take_is_public_again_witness:
  "get_order ''o'' (settle_after_lost_take ''o''
     (fold book_step [OUpsert (demo_order\<lparr>oi_id := ''o'', oi_status := WaitingPayment\<rparr>),
        ONote (demo_order\<lparr>oi_id := ''o'', oi_status := Pending\<rparr>)] new_book)) =
   Some (demo_order\<lparr>oi_id := ''o'', oi_status := Pending\<rparr>)"
  using lost_take_is_public_again [OF refl, of "''o''" "[OUpsert (demo_order\<lparr>oi_id := ''o'', oi_status := WaitingPayment\<rparr>),
        ONote (demo_order\<lparr>oi_id := ''o'', oi_status := Pending\<rparr>)]" "''p''"]
  by (simp add: note_wire_order_def)

text \<open>
  no change stays off the snapshot stream. Over every history of the operations that publish
  (the batch of a refetch publishes at its end), whenever no coalescing window is open the last
  snapshot sent is the book as it is, and when the window closes it is.
\<close>

theorem snapshot_stream_is_current:
  assumes "\<forall>op \<in> set ops. publishing op"
  shows "(bk_armed (fold book_step ops new_book) \<or> shown_is_current (fold book_step ops new_book)) \<and>
    shown_is_current (window_closes (fold book_step ops new_book))"
proof -
  have "bk_armed (fold book_step ops new_book) \<or> shown_is_current (fold book_step ops new_book)"
    using assms
  proof (induction ops rule: rev_induct)
    case Nil
    then show ?case by (simp add: new_book_def shown_is_current_def)
  next
    case (snoc op ops)
    then show ?case using shown_step [of op "fold book_step ops new_book"] by simp
  qed
  then show ?thesis by (auto simp: window_closes_def)
qed

theorem snapshot_stream_is_current_witness:
  "shown_is_current (window_closes (fold book_step [OCoalesced demo_order, ORemove ''p'', OSettle ''p''] new_book))"
  using snapshot_stream_is_current [of "[OCoalesced demo_order, ORemove ''p'', OSettle ''p'']"] by simp

section \<open>The window of processed messages\<close>

definition dedup_run :: "string list \<Rightarrow> dedup_window \<Rightarrow> dedup_window" where
  "dedup_run ids w = fold (\<lambda>e w. snd (dedup_record e w)) ids w"

text \<open>How many of the messages were handled, that is, not seen before.\<close>

fun handled :: "string list \<Rightarrow> dedup_window \<Rightarrow> nat" where
  "handled [] w = 0"
| "handled (e # ids) w = (if fst (dedup_record e w) then 0 else 1) + handled ids (snd (dedup_record e w))"

definition dedup_ok :: "dedup_window \<Rightarrow> bool" where
  "dedup_ok w \<longleftrightarrow> fset (dw_seen w) = set (dw_order w) \<and> distinct (dw_order w) \<and>
     length (dw_order w) \<le> dedup_max_entries"

lemma dedup_record_cases:
  assumes "dedup_ok w"
  shows "dedup_ok (snd (dedup_record e w)) \<and> (fst (dedup_record e w) \<longleftrightarrow> e \<in> set (dw_order w)) \<and>
    dw_order (snd (dedup_record e w)) =
      (if e \<in> set (dw_order w) then dw_order w
       else if length (dw_order w) < dedup_max_entries then dw_order w @ [e] else tl (dw_order w) @ [e])"
proof (cases "dw_order w")
  case Nil
  then show ?thesis using assms
    by (auto simp: dedup_ok_def dedup_record_def Let_def dedup_max_entries_def)
next
  case (Cons x xs)
  then show ?thesis using assms
    by (auto simp: dedup_ok_def dedup_record_def Let_def)
qed

lemma dedup_keeps:
  "dedup_ok w \<Longrightarrow> dw_order w = pre @ e # post \<Longrightarrow> length post + handled ids w < dedup_max_entries \<Longrightarrow>
     dedup_ok (dedup_run ids w) \<and> e \<in> set (dw_order (dedup_run ids w))"
proof (induction ids arbitrary: w pre post)
  case (Cons d ids)
  note c = dedup_record_cases [OF Cons.prems(1), of d]
  have run: "dedup_run (d # ids) w = dedup_run ids (snd (dedup_record d w))" by (simp add: dedup_run_def)
  show ?case
  proof (cases "d \<in> set (dw_order w)")
    case True
    then show ?thesis unfolding run using c Cons.prems by (intro Cons.IH [of _ pre post]) auto
  next
    case False
    then have room: "Suc (length post) + handled ids (snd (dedup_record d w)) < dedup_max_entries"
      using c Cons.prems by simp
    show ?thesis
    proof (cases "length (dw_order w) < dedup_max_entries")
      case True
      then show ?thesis unfolding run using False c Cons.prems room
        by (intro Cons.IH [of _ pre "post @ [d]"]) auto
    next
      case full: False
      then have "pre \<noteq> []" using Cons.prems room by auto
      then show ?thesis unfolding run using False full c Cons.prems room
        by (intro Cons.IH [of _ "tl pre" "post @ [d]"]) (auto simp: tl_append split: list.splits)
    qed
  qed
qed (auto simp: dedup_run_def)

lemma dedup_ok_run: "dedup_ok w \<Longrightarrow> dedup_ok (dedup_run ids w)"
  unfolding dedup_run_def using dedup_record_cases by (induction ids arbitrary: w) auto

text \<open>
  a daemon message delivered by several subscriptions is handled once: after it was handled
  it is recognised however often it comes again, as long as fewer than 512 other messages were
  handled in between; and the window never holds more than 512 ids.
\<close>

theorem message_handled_once:
  assumes "w = dedup_run before empty_window" and "dedup_record e w = (False, w')" and "handled ids w' < 512"
  shows "fst (dedup_record e (dedup_run ids w')) \<and> fcard (dw_seen (dedup_run ids w')) \<le> 512"
proof -
  have "dedup_ok empty_window" by (simp add: dedup_ok_def empty_window_def)
  then have w: "dedup_ok w" unfolding assms(1) by (rule dedup_ok_run)
  have c: "dedup_ok w'" "\<exists>pre. dw_order w' = pre @ e # []"
    using dedup_record_cases [OF w, of e] assms(2) by auto
  have ok: "dedup_ok (dedup_run ids w')" by (rule dedup_ok_run [OF c(1)])
  have "e \<in> set (dw_order (dedup_run ids w'))"
    using dedup_keeps [OF c(1), of _ e "[]" ids] c(2) assms(3) by (auto simp: dedup_max_entries_def)
  moreover have "card (fset (dw_seen (dedup_run ids w'))) \<le> 512"
    using ok by (simp add: dedup_ok_def dedup_max_entries_def distinct_card)
  ultimately show ?thesis using dedup_record_cases [OF ok, of e] by (simp add: fcard.rep_eq)
qed

theorem message_handled_once_witness:
  "fst (dedup_record ''a'' (dedup_run [''b'', ''a'', ''c''] (snd (dedup_record ''a'' empty_window))))"
  using message_handled_once [of empty_window "[]" "''a''" "snd (dedup_record ''a'' empty_window)" "[''b'', ''a'', ''c'']"]
  by (simp add: dedup_run_def dedup_record_def empty_window_def dedup_max_entries_def Let_def)

section \<open>The list of open orders\<close>

lemma order_before_total: "order_before a b \<or> order_before b a"
  by (auto simp: order_before_def split: option.splits)

lemma order_before_trans: "order_before a b \<Longrightarrow> order_before b c \<Longrightarrow> order_before a c"
  by (auto simp: order_before_def split: option.splits)

lemma order_insert_set [simp]: "set (order_insert a bs) = insert a (set bs)"
  by (induction bs) auto

lemma order_insert_sorted: "sorted_wrt order_before bs \<Longrightarrow> sorted_wrt order_before (order_insert a bs)"
proof (induction bs)
  case (Cons b bs)
  show ?case
  proof (cases "order_before a b")
    case True
    with Cons.prems show ?thesis by (auto intro: order_before_trans)
  next
    case False
    with order_before_total have "order_before b a" by blast
    with Cons False show ?thesis by auto
  qed
qed simp

lemma get_orders_correct:
  "set (get_orders lower filters vals) =
     {ord \<in> set vals. oi_status ord = Pending \<and> filter_accepts lower filters ord} \<and>
   sorted_wrt order_before (get_orders lower filters vals) \<and>
   length (get_orders lower filters vals) =
     length (filter (\<lambda>ord. oi_status ord = Pending \<and> filter_accepts lower filters ord) vals)"
proof -
  have "set (foldr order_insert xs []) = set xs \<and> sorted_wrt order_before (foldr order_insert xs []) \<and>
      length (foldr order_insert xs []) = length xs" for xs
  proof (induction xs)
    case (Cons x xs)
    moreover have "length (order_insert x ys) = Suc (length ys)" for ys by (induction ys) auto
    ultimately show ?case by (auto intro: order_insert_sorted)
  qed simp
  then show ?thesis unfolding get_orders_def by auto
qed

end
