(* ===== verification/Book_Feed.thy ===== *)
theory Book_Feed
  imports Order_Book
begin

text \<open>
  The way of the book's changes to the screen: the broadcast channel with its lag and
  \<open>OrderDeltaStream::next\<close> of \<open>rust/src/api/orders.rs\<close>, and its consumer \<open>OrderBookFeed\<close>
  (\<open>lib/features/home/providers/order_book_feed.dart\<close>), which keeps a copy by the rule that
  \<open>OrderDelta\<close> states. What it promises rests on the book only through the interface
  \<open>book_source\<close>: each operation is one move of the book, sent on the channel as it happens.
\<close>

section \<open>The stream\<close>

definition bridge_delta :: "book_delta \<Rightarrow> order_delta" where
  "bridge_delta d = (case d of
      BUpserted r ord \<Rightarrow> (case bridge_revision r of Some n \<Rightarrow> DeltaUpserted n ord | None \<Rightarrow> DeltaResync)
    | BRemoved r i \<Rightarrow> (case bridge_revision r of Some n \<Rightarrow> DeltaRemoved n i | None \<Rightarrow> DeltaResync)
    | BReset \<Rightarrow> DeltaResync
    | BLoaded \<Rightarrow> DeltaLoaded)"

definition order_delta_capacity :: nat where "order_delta_capacity = 4096"

text \<open>
  A receiver is the position of what it reads next; \<open>None\<close> is waiting. A receiver further behind
  than the capacity is told so once and goes on with the oldest message retained.
\<close>

definition delta_next :: "book_delta list \<Rightarrow> nat \<Rightarrow> (order_delta \<times> nat) option" where
  "delta_next sent pos =
     (if length sent \<le> pos then None
      else if order_delta_capacity < length sent - pos
        then Some (DeltaResync, length sent - order_delta_capacity)
      else Some (bridge_delta (sent ! pos), pos + 1))"

section \<open>The feed\<close>

text \<open>\<open>Restarting b\<close> awaits a snapshot after a resync; \<open>b\<close> is \<open>wasShowing\<close>.\<close>

datatype feed_phase = Starting | Running | Restarting bool

record 't feed =
  fd_pos :: nat
  fd_phase :: feed_phase
  fd_by_id :: "(string, 't) fmap"
  fd_revision :: u32
  fd_shown :: bool
  fd_flush :: bool
  fd_emitted :: "(string, 't) fmap list"

definition feed_start :: "order_book \<Rightarrow> 't feed" where
  "feed_start k = \<lparr>fd_pos = length (bk_deltas k), fd_phase = Starting, fd_by_id = fmempty,
     fd_revision = 0, fd_shown = False, fd_flush = False, fd_emitted = []\<rparr>"

definition feed_emit :: "'t feed \<Rightarrow> 't feed" where
  "feed_emit f = f\<lparr>fd_shown := True, fd_emitted := fd_emitted f @ [fd_by_id f]\<rparr>"

definition schedule_flush :: "'t feed \<Rightarrow> 't feed" where
  "schedule_flush f = f\<lparr>fd_flush := True\<rparr>"

definition flush_fires :: "'t feed \<Rightarrow> 't feed" where
  "flush_fires f = (if fd_flush f then feed_emit (f\<lparr>fd_flush := False\<rparr>) else f)"

definition feed_restart :: "(order_info \<Rightarrow> 't) \<Rightarrow> order_book_snapshot \<Rightarrow> 't feed \<Rightarrow> bool \<times> 't feed" where
  "feed_restart mp snap f =
     (let by_id = fold (\<lambda>ord. fmupd (oi_id ord) (mp ord)) (obs_orders snap) fmempty
      in (by_id \<noteq> fmempty \<or> obs_loaded snap, f\<lparr>fd_by_id := by_id, fd_revision := obs_revision snap\<rparr>))"

definition snapshot_arrives :: "(order_info \<Rightarrow> 't) \<Rightarrow> order_book_snapshot \<Rightarrow> 't feed \<Rightarrow> 't feed" where
  "snapshot_arrives mp snap f = (case fd_phase f of
      Starting \<Rightarrow> let (worth, f1) = feed_restart mp snap (f\<lparr>fd_phase := Running\<rparr>)
                  in (if worth then feed_emit f1 else f1)
    | Restarting was_showing \<Rightarrow> let (worth, f1) = feed_restart mp snap (f\<lparr>fd_phase := Running\<rparr>)
                  in (if was_showing \<or> worth then schedule_flush f1 else f1)
    | Running \<Rightarrow> f)"

definition on_delta :: "(order_info \<Rightarrow> 't) \<Rightarrow> order_delta \<Rightarrow> 't feed \<Rightarrow> 't feed" where
  "on_delta mp d f = (case d of
      DeltaUpserted r ord \<Rightarrow>
        if r \<le> fd_revision f then f
        else schedule_flush (f\<lparr>fd_revision := r, fd_by_id := fmupd (oi_id ord) (mp ord) (fd_by_id f)\<rparr>)
    | DeltaRemoved r i \<Rightarrow>
        if r \<le> fd_revision f then f
        else let f1 = f\<lparr>fd_revision := r, fd_by_id := fmdrop i (fd_by_id f)\<rparr>
          in (if fmlookup (fd_by_id f) i \<noteq> None then schedule_flush f1 else f1)
    | DeltaResync \<Rightarrow> f\<lparr>fd_phase := Restarting (fd_shown f)\<rparr>
    | DeltaLoaded \<Rightarrow> if fd_shown f then f else schedule_flush f)"

definition feed_next :: "(order_info \<Rightarrow> 't) \<Rightarrow> book_delta list \<Rightarrow> 't feed \<Rightarrow> 't feed" where
  "feed_next mp sent f = (if fd_phase f \<noteq> Running then f
     else case delta_next sent (fd_pos f) of None \<Rightarrow> f
     | Some (d, pos) \<Rightarrow> on_delta mp d (f\<lparr>fd_pos := pos\<rparr>))"

text \<open>
  The book and its feed, interleaved. A snapshot is read and arrives in one step: between the
  two the feed handles no delta.
\<close>

datatype feed_event = FOp book_op | FNext | FSnapshot | FFlush

fun feed_step :: "(order_info \<Rightarrow> 't) \<Rightarrow> feed_event \<Rightarrow> order_book \<times> 't feed \<Rightarrow> order_book \<times> 't feed" where
  "feed_step mp (FOp op) (k, f) = (book_step op k, f)"
| "feed_step mp FNext (k, f) = (k, feed_next mp (bk_deltas k) f)"
| "feed_step mp FSnapshot (k, f) = (k, snapshot_arrives mp (bridge_snapshot k) f)"
| "feed_step mp FFlush (k, f) = (k, flush_fires f)"

definition feed_run :: "(order_info \<Rightarrow> 't) \<Rightarrow> feed_event list \<Rightarrow> order_book \<times> 't feed \<Rightarrow> order_book \<times> 't feed" where
  "feed_run mp evs s = fold (feed_step mp) evs s"

section \<open>Replaying deltas\<close>

fun delta_revision :: "order_delta \<Rightarrow> u32 option" where
  "delta_revision (DeltaUpserted r _) = Some r"
| "delta_revision (DeltaRemoved r _) = Some r"
| "delta_revision _ = None"

definition revs_upto :: "u32 \<Rightarrow> order_delta list \<Rightarrow> bool" where
  "revs_upto t ds \<longleftrightarrow> (\<forall>d \<in> set ds. \<forall>r. delta_revision d = Some r \<longrightarrow> r \<le> t)"

fun play :: "(order_info \<Rightarrow> 't) \<Rightarrow> order_delta \<Rightarrow> (string, 't) fmap \<times> u32 \<Rightarrow> (string, 't) fmap \<times> u32" where
  "play mp (DeltaUpserted r ord) (m, seen) =
     (if r \<le> seen then (m, seen) else (fmupd (oi_id ord) (mp ord) m, r))"
| "play mp (DeltaRemoved r i) (m, seen) = (if r \<le> seen then (m, seen) else (fmdrop i m, r))"
| "play mp _ s = s"

definition replay :: "(order_info \<Rightarrow> 't) \<Rightarrow> order_delta list \<Rightarrow> (string, 't) fmap \<times> u32 \<Rightarrow> (string, 't) fmap \<times> u32" where
  "replay mp ds = fold (play mp) ds"

lemma replay_simps [simp]:
  "replay mp [] s = s" "replay mp (d # ds) s = replay mp ds (play mp d s)"
  "replay mp (ds @ es) s = replay mp es (replay mp ds s)"
  by (simp_all add: replay_def)

lemma revs_upto_simps [simp]: "revs_upto t []"
  "revs_upto t (d # ds) \<longleftrightarrow> (\<forall>r. delta_revision d = Some r \<longrightarrow> r \<le> t) \<and> revs_upto t ds"
  "revs_upto t (ds @ es) \<longleftrightarrow> revs_upto t ds \<and> revs_upto t es"
  by (auto simp: revs_upto_def)

lemma revs_upto_mono: "revs_upto t ds \<Longrightarrow> t \<le> t' \<Longrightarrow> revs_upto t' ds"
  unfolding revs_upto_def by force

lemma revs_upto_drop: "revs_upto t ds \<Longrightarrow> revs_upto t (drop n ds)"
  unfolding revs_upto_def by (blast dest: in_set_dropD)

lemma replay_seen: "revs_upto t ds \<Longrightarrow> snd s \<le> t \<Longrightarrow> snd (replay mp ds s) \<le> t"
proof (induction ds arbitrary: s)
  case (Cons d ds)
  from Cons.prems have "snd (play mp d s) \<le> t" by (cases d; cases s) auto
  with Cons show ?case by simp
qed simp

lemma replay_old: "revs_upto (snd s) ds \<Longrightarrow> replay mp ds s = s"
proof (induction ds)
  case (Cons d ds)
  then have "play mp d s = s" by (cases d; cases s) auto
  with Cons show ?case by simp
qed simp

section \<open>The interface to the book\<close>

definition snapshot_revision :: "book_state \<Rightarrow> u32" where
  "snapshot_revision b = (case bridge_revision (bs_revision b) of Some r \<Rightarrow> r | None \<Rightarrow> u32_max)"

definition feed_inv :: "(order_info \<Rightarrow> 't) \<Rightarrow> book_delta list \<Rightarrow> book_state \<Rightarrow> 't feed \<Rightarrow> bool" where
  "feed_inv mp sent b f \<longleftrightarrow>
     (let rest = drop (fd_pos f) (map bridge_delta sent); quiet = (\<not> fd_shown f \<and> \<not> fd_flush f) in
       fd_pos f \<le> length sent \<and> book_ok b \<and> revs_upto (snapshot_revision b) (map bridge_delta sent) \<and>
       fd_revision f \<le> snapshot_revision b \<and>
       (fd_phase f = Running \<longrightarrow>
          (DeltaResync \<notin> set rest \<longrightarrow>
             fst (replay mp rest (fd_by_id f, fd_revision f)) = fmmap mp (bs_orders b)) \<and>
          (quiet \<longrightarrow> fd_by_id f = fmempty) \<and>
          (quiet \<and> bs_loaded b \<longrightarrow> DeltaLoaded \<in> set rest \<or> DeltaResync \<in> set rest)))"

text \<open>One move appends at most one delta, newer than everything sent, which replays the move.\<close>

lemma unat_narrow: "unat (r :: u64) < 2 ^ 32 - 1 \<Longrightarrow> unat (ucast r :: u32) = unat r"
  by (simp add: unsigned_ucast_eq take_bit_nat_eq_self)

lemma unat_snapshot_revision: "unat (snapshot_revision b) = min (unat (bs_revision b)) (2 ^ 32 - 1)"
  by (simp add: snapshot_revision_def bridge_revision_def unat_narrow)

lemma bridge_revision_Some:
  "bridge_revision r = Some n \<longleftrightarrow> unat r < 2 ^ 32 - 1 \<and> unat n = unat r"
  by (auto simp: bridge_revision_def unat_narrow word_unat_eq_iff)

lemma revision_succ: "unat (r :: u64) < 2 ^ 64 - 1 \<Longrightarrow> unat (r + 1) = unat r + 1"
  by (simp add: unat_word_ariths)

lemma snapshot_revision_grows:
  assumes "book_move b ds b'" "unat (bs_revision b) < 2 ^ 64 - 1"
  shows "snapshot_revision b \<le> snapshot_revision b'"
  using assms by (cases rule: book_move.cases)
    (auto simp: word_le_nat_alt unat_snapshot_revision revision_succ)

lemma move_upto:
  assumes "book_move b ds b'" "unat (bs_revision b) < 2 ^ 64 - 1"
  shows "revs_upto (snapshot_revision b') (map bridge_delta ds)"
  using assms by (cases rule: book_move.cases)
    (auto simp: bridge_delta_def word_le_nat_alt unat_snapshot_revision revision_succ bridge_revision_Some
      split: option.splits)

lemma move_replay:
  assumes "book_move b ds b'" "unat (bs_revision b) < 2 ^ 64 - 1" "DeltaResync \<notin> set (map bridge_delta ds)"
    and "fst s = fmmap mp (bs_orders b)" "snd s \<le> snapshot_revision b"
  shows "fst (replay mp (map bridge_delta ds) s) = fmmap mp (bs_orders b')"
proof -
  have new: "\<not> n \<le> snd s" if "bridge_revision (bs_revision b + 1) = Some n" for n
    using that assms(2,5)
    by (auto simp: word_le_nat_alt unat_snapshot_revision revision_succ bridge_revision_Some)
  show ?thesis using assms(1,3,4) new
    by (cases s; cases rule: book_move.cases)
      (auto simp: bridge_delta_def fmmap_fmupd split: option.splits)
qed

lemma feed_inv_move:
  assumes inv: "feed_inv mp sent b f" and mv: "book_move b ds b'" and rev: "unat (bs_revision b) < 2 ^ 64 - 1"
  shows "feed_inv mp (sent @ ds) b' f"
proof -
  let ?L = "map bridge_delta sent" and ?N = "map bridge_delta ds"
  let ?rest = "drop (fd_pos f) ?L"
  note I = inv [unfolded feed_inv_def Let_def]
  have pos: "fd_pos f \<le> length sent" using I by blast
  have rest: "drop (fd_pos f) (map bridge_delta (sent @ ds)) = ?rest @ ?N" using pos by simp
  have le: "snapshot_revision b \<le> snapshot_revision b'" by (rule snapshot_revision_grows [OF mv rev])
  have old: "revs_upto (snapshot_revision b) ?L" "fd_revision f \<le> snapshot_revision b" using I by blast+
  have "revs_upto (snapshot_revision b') (map bridge_delta (sent @ ds))"
    using revs_upto_mono [OF old(1) le] move_upto [OF mv rev] by simp
  moreover have "fst (replay mp (?rest @ ?N) (fd_by_id f, fd_revision f)) = fmmap mp (bs_orders b')"
    if "fd_phase f = Running" "DeltaResync \<notin> set (?rest @ ?N)"
    using that I replay_seen [OF revs_upto_drop [OF old(1)], of "(fd_by_id f, fd_revision f)" mp "fd_pos f"] old(2)
    by (simp add: move_replay [OF mv rev])
  moreover have "DeltaLoaded \<in> set (?rest @ ?N) \<or> DeltaResync \<in> set (?rest @ ?N)"
    if "fd_phase f = Running" "\<not> fd_shown f" "\<not> fd_flush f" "bs_loaded b'"
    using mv that I by (cases rule: book_move.cases) (auto simp: bridge_delta_def)
  moreover have "fd_revision f \<le> snapshot_revision b'" using old(2) le by simp
  ultimately show ?thesis
    unfolding feed_inv_def Let_def rest using I pos book_move_ok [OF mv] by auto
qed

locale book_source =
  fixes apply_op :: "'op \<Rightarrow> 'k \<Rightarrow> 'k"
    and state :: "'k \<Rightarrow> book_state"
    and sent :: "'k \<Rightarrow> book_delta list"
  assumes one_move: "\<exists>ds. sent (apply_op op k) = sent k @ ds \<and> book_move (state k) ds (state (apply_op op k))"
begin

lemma inv_apply:
  "feed_inv mp (sent k) (state k) f \<Longrightarrow> unat (bs_revision (state k)) < 2 ^ 64 - 1 \<Longrightarrow>
     feed_inv mp (sent (apply_op op k)) (state (apply_op op k)) f"
  using one_move [of op k] feed_inv_move by metis

lemma revision_apply:
  "unat (bs_revision (state k)) < 2 ^ 64 - 1 \<Longrightarrow>
     unat (bs_revision (state (apply_op op k))) \<le> unat (bs_revision (state k)) + 1"
  using one_move [of op k] by (auto elim!: book_moveE simp: revision_succ)

lemma ok_apply: "book_ok (state k) \<Longrightarrow> book_ok (state (apply_op op k))"
  using one_move [of op k] book_move_ok by blast

lemma revision_sent_apply:
  assumes "unat (bs_revision (state k)) < 2 ^ 64 - 1" "revs_upto (snapshot_revision (state k)) (map bridge_delta (sent k))"
  shows "revs_upto (snapshot_revision (state (apply_op op k))) (map bridge_delta (sent (apply_op op k)))"
proof -
  obtain ds where ds: "sent (apply_op op k) = sent k @ ds" "book_move (state k) ds (state (apply_op op k))"
    using one_move by blast
  show ?thesis
    using revs_upto_mono [OF assms(2) snapshot_revision_grows [OF ds(2) assms(1)]] move_upto [OF ds(2) assms(1)]
    by (simp add: ds(1))
qed

end

interpretation live_book: book_source book_step bk_state bk_deltas
  using book_step_moves by unfold_locales (auto simp: moves_def)

section \<open>The feed keeps the invariant\<close>

lemma feed_inv_flush: "feed_inv mp sent b f \<Longrightarrow> feed_inv mp sent b (flush_fires f)"
  by (auto simp: feed_inv_def flush_fires_def feed_emit_def Let_def)

lemma feed_inv_snapshot:
  assumes "feed_inv mp (bk_deltas k) (bk_state k) f"
  shows "feed_inv mp (bk_deltas k) (bk_state k) (snapshot_arrives mp (bridge_snapshot k) f)"
proof -
  let ?b = "bk_state k" and ?L = "map bridge_delta (bk_deltas k)"
  note I = assms [unfolded feed_inv_def Let_def]
  have re: "fold (\<lambda>ord. fmupd (oi_id ord) (mp ord)) (bs_snapshot ?b) fmempty = fmmap mp (bs_orders ?b)"
    using I by (intro snapshot_rebuilds) blast
  have top: "obs_revision (bridge_snapshot k) = snapshot_revision ?b"
      "obs_orders (bridge_snapshot k) = bs_snapshot ?b" "obs_loaded (bridge_snapshot k) = bs_loaded ?b"
    by (simp_all add: bridge_snapshot_def snapshot_revision_def)
  have rep: "replay mp (drop n ?L) (m, snapshot_revision ?b) = (m, snapshot_revision ?b)" for n m
    using I by (intro replay_old) (auto intro: revs_upto_drop)
  show ?thesis
    using I by (cases "fd_phase f")
      (auto simp: feed_inv_def snapshot_arrives_def feed_restart_def Let_def feed_emit_def schedule_flush_def
        re top rep)
qed

lemma feed_inv_next:
  assumes "feed_inv mp sent b f"
  shows "feed_inv mp sent b (feed_next mp sent f)"
proof (cases "fd_phase f = Running \<and> fd_pos f < length sent")
  case False
  then show ?thesis using assms by (auto simp: feed_next_def delta_next_def)
next
  case run: True
  let ?L = "map bridge_delta sent"
  note I = assms [unfolded feed_inv_def Let_def]
  show ?thesis
  proof (cases "order_delta_capacity < length sent - fd_pos f")
    case True
    then show ?thesis using I run
      by (auto simp: feed_next_def delta_next_def on_delta_def feed_inv_def Let_def)
  next
    case False
    let ?d = "bridge_delta (sent ! fd_pos f)" and ?rest = "drop (Suc (fd_pos f)) ?L"
    have rest: "drop (fd_pos f) ?L = ?d # ?rest"
      using run by (simp add: Cons_nth_drop_Suc [symmetric])
    have "?d \<in> set ?L" using run by simp
    then have d: "\<And>r. delta_revision ?d = Some r \<Longrightarrow> r \<le> snapshot_revision b" using I by (auto simp: revs_upto_def)
    have next_is: "feed_next mp sent f = on_delta mp ?d (f\<lparr>fd_pos := Suc (fd_pos f)\<rparr>)"
      using run False by (simp add: feed_next_def delta_next_def)
    have J: "DeltaResync \<notin> set (?d # ?rest) \<Longrightarrow>
          fst (replay mp (?d # ?rest) (fd_by_id f, fd_revision f)) = fmmap mp (bs_orders b)"
      "\<not> fd_shown f \<and> \<not> fd_flush f \<Longrightarrow> fd_by_id f = fmempty"
      "\<not> fd_shown f \<and> \<not> fd_flush f \<and> bs_loaded b \<Longrightarrow> DeltaLoaded \<in> set (?d # ?rest) \<or> DeltaResync \<in> set (?d # ?rest)"
      using I run unfolding rest by blast+
    show ?thesis
    proof (cases "?d")
      case (DeltaUpserted r ord)
      with I J d run show ?thesis unfolding next_is feed_inv_def Let_def
        by (auto simp: on_delta_def schedule_flush_def)
    next
      case (DeltaRemoved r i)
      with I J d run show ?thesis unfolding next_is feed_inv_def Let_def
        by (auto simp: on_delta_def schedule_flush_def Let_def)
    next
      case DeltaResync
      with I J d run show ?thesis unfolding next_is feed_inv_def Let_def
        by (auto simp: on_delta_def)
    next
      case DeltaLoaded
      with I J d run show ?thesis unfolding next_is feed_inv_def Let_def
        by (auto simp: on_delta_def schedule_flush_def)
    qed
  qed
qed

lemma feed_inv_step:
  assumes "feed_inv mp (bk_deltas k) (bk_state k) f" "unat (bs_revision (bk_state k)) < 2 ^ 64 - 1"
    and "feed_step mp ev (k, f) = (k', f')"
  shows "feed_inv mp (bk_deltas k') (bk_state k') f' \<and>
    unat (bs_revision (bk_state k')) \<le> unat (bs_revision (bk_state k)) + 1"
  using assms live_book.revision_apply [OF assms(2)] by (cases ev)
    (auto intro: feed_inv_flush feed_inv_snapshot feed_inv_next live_book.inv_apply)

lemma feed_inv_run:
  assumes "feed_inv mp (bk_deltas k) (bk_state k) f"
    and "unat (bs_revision (bk_state k)) + length evs < 2 ^ 64"
    and "feed_run mp evs (k, f) = (k', f')"
  shows "feed_inv mp (bk_deltas k') (bk_state k') f'"
  using assms
proof (induction evs arbitrary: k f)
  case (Cons ev evs)
  obtain k1 f1 where s: "feed_step mp ev (k, f) = (k1, f1)" by (cases "feed_step mp ev (k, f)")
  have "unat (bs_revision (bk_state k)) < 2 ^ 64 - 1" using Cons.prems(2) by simp
  note one = feed_inv_step [OF Cons.prems(1) this s]
  show ?case
  proof (rule Cons.IH)
    show "feed_inv mp (bk_deltas k1) (bk_state k1) f1" using one ..
    show "unat (bs_revision (bk_state k1)) + length evs < 2 ^ 64" using one Cons.prems(2) by simp
    show "feed_run mp evs (k1, f1) = (k', f')" using Cons.prems(3) s by (simp add: feed_run_def)
  qed
qed (simp add: feed_run_def)

lemma book_history:
  assumes "length ops < 2 ^ 64"
  defines "k \<equiv> fold book_step ops new_book"
  shows "book_ok (bk_state k) \<and> revs_upto (snapshot_revision (bk_state k)) (map bridge_delta (bk_deltas k)) \<and>
    unat (bs_revision (bk_state k)) \<le> length ops"
  using assms(1) unfolding k_def
proof (induction ops rule: rev_induct)
  case Nil
  then show ?case by (simp add: new_book_def book_ok_def)
next
  case (snoc op ops)
  let ?k = "fold book_step ops new_book"
  have IH: "book_ok (bk_state ?k)" "revs_upto (snapshot_revision (bk_state ?k)) (map bridge_delta (bk_deltas ?k))"
    "unat (bs_revision (bk_state ?k)) \<le> length ops" using snoc by auto
  then have "unat (bs_revision (bk_state ?k)) < 2 ^ 64 - 1" using snoc.prems by simp
  note step = live_book.revision_apply [OF this, of op] live_book.revision_sent_apply [OF this IH(2), of op]
    live_book.ok_apply [OF IH(1), of op]
  show ?case using step IH(3) by simp
qed

lemma feed_inv_start:
  "length ops < 2 ^ 64 \<Longrightarrow> feed_inv mp (bk_deltas (fold book_step ops new_book))
     (bk_state (fold book_step ops new_book)) (feed_start (fold book_step ops new_book))"
  using book_history [of ops] by (auto simp: feed_inv_def feed_start_def Let_def)

lemma feed_reaches_inv:
  assumes "length ops + length evs < 2 ^ 64" "k0 = fold book_step ops new_book"
    and "feed_run mp evs (k0, feed_start k0) = (k, f)"
  shows "feed_inv mp (bk_deltas k) (bk_state k) f"
  by (rule feed_inv_run [OF _ _ assms(3)])
    (use assms(1) book_history [of ops] feed_inv_start [of ops mp] in \<open>auto simp: assms(2)\<close>)

text \<open>Left alone, the feed reads on: one round restarts if it must and reads one message.\<close>

definition feed_rounds :: "nat \<Rightarrow> feed_event list" where
  "feed_rounds n = concat (replicate n [FSnapshot, FNext]) @ [FSnapshot]"

lemma snapshot_arrives_runs [simp]: "fd_phase (snapshot_arrives mp snap f) = Running"
  "fd_pos (snapshot_arrives mp snap f) = fd_pos f"
  by (cases "fd_phase f"; simp add: snapshot_arrives_def feed_restart_def feed_emit_def schedule_flush_def Let_def)+

lemma on_delta_pos [simp]: "fd_pos (on_delta mp d f) = fd_pos f"
  by (auto simp: on_delta_def schedule_flush_def Let_def split: order_delta.split)

lemma feed_next_reads:
  assumes "fd_phase f = Running" "fd_pos f \<le> length sent"
  shows "length sent - fd_pos (feed_next mp sent f) \<le> length sent - fd_pos f - 1 \<and>
    fd_pos (feed_next mp sent f) \<le> length sent"
  using assms by (auto simp: feed_next_def delta_next_def)

lemma feed_reads_on:
  assumes "fd_pos f \<le> length (bk_deltas k)" "length (bk_deltas k) - fd_pos f \<le> n"
  shows "\<exists>f'. feed_run mp (feed_rounds n) (k, f) = (k, f') \<and>
    fd_phase f' = Running \<and> fd_pos f' = length (bk_deltas k)"
  using assms
proof (induction n arbitrary: f)
  case 0
  then show ?case by (simp add: feed_rounds_def feed_run_def)
next
  case (Suc n)
  let ?g = "feed_next mp (bk_deltas k) (snapshot_arrives mp (bridge_snapshot k) f)"
  have "fd_pos ?g \<le> length (bk_deltas k) \<and> length (bk_deltas k) - fd_pos ?g \<le> n"
    using feed_next_reads [of "snapshot_arrives mp (bridge_snapshot k) f" "bk_deltas k" mp] Suc.prems
    by (auto simp del: One_nat_def)
  with Suc.IH [of ?g] show ?case by (simp add: feed_rounds_def feed_run_def)
qed

text \<open>A run: an order arrives after the subscription, then it leaves while the feed is showing it.\<close>

definition demo_events :: "feed_event list" where
  "demo_events = [FOp (OUpsert demo_order), FSnapshot, FNext, FOp (ORemove ''o''), FNext]"

definition demo_run :: "order_book \<times> string feed" where
  "demo_run = feed_run oi_id demo_events (new_book, feed_start new_book)"

lemmas demo_defs = feed_run_def upsert_order_def bs_upsert_def Let_def commit_def publish_def
  new_book_def feed_start_def demo_order_def snapshot_arrives_def feed_restart_def bridge_snapshot_def
  feed_emit_def feed_next_def delta_next_def order_delta_capacity_def bridge_delta_def bridge_revision_def
  on_delta_def schedule_flush_def remove_order_def remove_order_deferred_def bs_remove_def
  publish_on_stored_events_end_def flush_fires_def clear_book_def bs_replace_all_def

lemma demo_run_facts:
  "fd_phase (snd demo_run) = Running \<and> fd_pos (snd demo_run) = 2 \<and> length (bk_deltas (fst demo_run)) = 2"
  by (simp add: demo_run_def demo_events_def demo_defs)

section \<open>Properties\<close>

text \<open>
  the feed is a faithful copy of the book. Whatever happened before it subscribed, and
  however operations on the book, deltas, lags, resyncs, snapshots and flushes interleave
  afterwards: when the feed has read everything that was sent, what it holds is exactly the book,
  order by order. No change is lost between the subscription and the snapshot, and none is
  undone by a delta that the snapshot already contained.
\<close>

theorem feed_follows_book:
  assumes "length ops + length evs < 2 ^ 64" and "k0 = fold book_step ops new_book"
    and "feed_run mp evs (k0, feed_start k0) = (k, f)"
    and "fd_phase f = Running" and "fd_pos f = length (bk_deltas k)"
  shows "fd_by_id f = fmmap mp (bs_orders (bk_state k))"
  using feed_reaches_inv [OF assms(1-3)] assms(4,5) by (auto simp: feed_inv_def Let_def)

theorem feed_follows_book_witness:
  "fd_by_id (snd demo_run) = fmmap oi_id (bs_orders (bk_state (fst demo_run))) \<and>
   length (bk_deltas (fst demo_run)) = 2"
  using feed_follows_book [of "[]" demo_events new_book oi_id "fst demo_run" "snd demo_run"] demo_run_facts
  by (simp add: demo_run_def demo_events_def)

text \<open>
  left alone, the feed always catches up: from every state it can be in, after as many rounds
  of reading as deltas are outstanding it holds exactly the book, whatever lags and resyncs it
  meets on the way.
\<close>

theorem feed_catches_up:
  assumes "length ops + length evs < 2 ^ 63" and "k0 = fold book_step ops new_book"
    and "feed_run mp evs (k0, feed_start k0) = (k, f)"
    and "length (bk_deltas k) - fd_pos f \<le> n" and "n < 2 ^ 60"
  shows "\<exists>f'. feed_run mp (feed_rounds n) (k, f) = (k, f') \<and>
     fd_phase f' = Running \<and> fd_by_id f' = fmmap mp (bs_orders (bk_state k))"
proof -
  have bound: "length ops + length evs < 2 ^ 64" using assms(1) by simp
  note I = feed_reaches_inv [OF bound assms(2,3)]
  then have "fd_pos f \<le> length (bk_deltas k)" by (simp add: feed_inv_def Let_def)
  from feed_reads_on [OF this assms(4)] obtain f' where
    f': "feed_run mp (feed_rounds n) (k, f) = (k, f')" "fd_phase f' = Running" "fd_pos f' = length (bk_deltas k)"
    by blast
  have "length ops + length (evs @ feed_rounds n) < 2 ^ 64"
    using assms(1,5) by (simp add: feed_rounds_def sum_list_replicate length_concat)
  moreover have "feed_run mp (evs @ feed_rounds n) (k0, feed_start k0) = (k, f')"
    using assms(3) f'(1) by (simp add: feed_run_def)
  ultimately show ?thesis using feed_follows_book [OF _ assms(2)] f' by blast
qed

theorem feed_catches_up_witness:
  "\<exists>f'. feed_run oi_id (feed_rounds 1) (feed_run oi_id [FOp (OUpsert demo_order)] (new_book, feed_start new_book)) =
     (upsert_order demo_order new_book, f') \<and>
     fd_by_id f' = fmmap oi_id (bs_orders (bk_state (upsert_order demo_order new_book)))"
  using feed_catches_up [of "[]" "[FOp (OUpsert demo_order)]" new_book oi_id
      "upsert_order demo_order new_book" "feed_start new_book" 1]
  by (auto simp: demo_defs)

text \<open>
  a screen waiting for the book does not wait for ever. Once the feed has read everything
  and the relay confirmed the book or there is an order to show, the list was handed out or its
  flush is scheduled, also on a node without orders and on a feed created after the confirmation.
\<close>

theorem feed_leaves_loading:
  assumes "length ops + length evs < 2 ^ 64" and "k0 = fold book_step ops new_book"
    and "feed_run mp evs (k0, feed_start k0) = (k, f)"
    and "fd_phase f = Running" and "fd_pos f = length (bk_deltas k)"
    and "bs_loaded (bk_state k) \<or> bs_orders (bk_state k) \<noteq> fmempty"
  shows "fd_shown f \<or> fd_flush f"
proof -
  note I = feed_reaches_inv [OF assms(1-3), unfolded feed_inv_def Let_def]
  have "fd_by_id f = fmmap mp (bs_orders (bk_state k))" using I assms(4,5) by auto
  moreover have "fmmap mp m \<noteq> fmempty" if m: "m \<noteq> fmempty" for m
  proof -
    obtain i x where "fmlookup m i = Some x" using m by (metis fmap_ext fmempty_lookup not_None_eq)
    then have "fmlookup (fmmap mp m) i \<noteq> None" by simp
    then show ?thesis by fastforce
  qed
  ultimately show ?thesis using I assms(4-6) by auto
qed

theorem feed_leaves_loading_witness:
  "fd_flush (snd (feed_run oi_id [FSnapshot, FOp (OStoredEnd True), FNext] (new_book, feed_start new_book)))"
  using feed_leaves_loading [of "[]" "[FSnapshot, FOp (OStoredEnd True), FNext]" new_book oi_id
      "fst (feed_run oi_id [FSnapshot, FOp (OStoredEnd True), FNext] (new_book, feed_start new_book))"
      "snd (feed_run oi_id [FSnapshot, FOp (OStoredEnd True), FNext] (new_book, feed_start new_book))"]
  by (auto simp: demo_defs bs_snapshot_def sorted_list_of_fmap_def sorted_list_of_fset.rep_eq)

text \<open>
  A flush that fires while the feed awaits the snapshot of a resync shows the old copy, and
  nothing schedules the new, empty one: \<open>wasShowing\<close> was read before. The screen keeps an order
  of the node that was left.
\<close>

lemma flush_during_restart_keeps_old_list:
  "let (k, f) = feed_run oi_id [FSnapshot, FOp (OUpsert demo_order), FNext, FOp OClear, FNext, FFlush, FSnapshot]
                  (new_book, feed_start new_book)
   in fd_phase f = Running \<and> fd_pos f = length (bk_deltas k) \<and> \<not> fd_flush f \<and>
      fd_by_id f = fmempty \<and> last (fd_emitted f) = fmupd ''o'' ''o'' fmempty"
  by (simp add: demo_defs bs_snapshot_def sorted_list_of_fmap_def sorted_list_of_fset.rep_eq)

end
