(* ===== verification/Trade_Store.thy ===== *)
theory Trade_Store
  imports Order_Status
begin

text \<open>
  The tables of \<open>db/sqlite.rs\<close> the trade flows write: the trade rows, the settings and the
  trade-key bindings. A table is the list of its rows in the order of their row ids; a replaced
  row gets a new one, so it moves to the end. A row is found by the order id inside it
  (\<open>json_extract(data, '$.order.id')\<close>), which is not the key of the table, so two rows can carry
  the same one; the lookup answers the first. The statements that can meet a database error do so
  in the theories that call them.
\<close>

record trade_db =
  td_rows :: "trade_info list"
  td_settings :: "(string \<times> string) list"
  td_keys :: "(string \<times> u32) list"

definition order_of :: "trade_info \<Rightarrow> string" where
  "order_of t = oi_id (ti_order t)"

section \<open>Trade rows\<close>

definition save_trade :: "trade_info \<Rightarrow> trade_db \<Rightarrow> trade_db" where
  "save_trade t db = db\<lparr>td_rows := filter (\<lambda>r. ti_id r \<noteq> ti_id t) (td_rows db) @ [t]\<rparr>"

definition get_trade :: "string \<Rightarrow> trade_db \<Rightarrow> trade_info option" where
  "get_trade i db = find (\<lambda>r. ti_id r = i) (td_rows db)"

definition get_trade_by_order_id :: "string \<Rightarrow> trade_db \<Rightarrow> trade_info option" where
  "get_trade_by_order_id order_id db = find (\<lambda>r. order_of r = order_id) (td_rows db)"

definition list_trades :: "trade_db \<Rightarrow> trade_info list" where
  "list_trades db = sort_key (\<lambda>r. - ti_started_at r) (td_rows db)"

definition delete_trade_by_order_id :: "string \<Rightarrow> trade_db \<Rightarrow> trade_db" where
  "delete_trade_by_order_id order_id db = db\<lparr>td_rows := filter (\<lambda>r. order_of r \<noteq> order_id) (td_rows db)\<rparr>"

text \<open>\<open>UPDATE trades SET data = json_set(\<dots>) WHERE order.id = ?\<close>: every row of the order.\<close>

definition update_rows :: "string \<Rightarrow> (trade_info \<Rightarrow> trade_info) \<Rightarrow> trade_db \<Rightarrow> trade_db" where
  "update_rows order_id f db =
     db\<lparr>td_rows := map (\<lambda>r. if order_of r = order_id then f r else r) (td_rows db)\<rparr>"

definition update_trade_order_id :: "string \<Rightarrow> string \<Rightarrow> trade_db \<Rightarrow> trade_db" where
  "update_trade_order_id old_id new_id =
     update_rows old_id (\<lambda>r. r\<lparr>ti_order := (ti_order r)\<lparr>oi_id := new_id\<rparr>\<rparr>)"

definition set_fields :: "order_status option \<Rightarrow> string option \<Rightarrow> u64 option \<Rightarrow> trade_info \<Rightarrow> trade_info" where
  "set_fields status hold_invoice amount_sats r =
     (let r1 = (case status of Some s \<Rightarrow> r\<lparr>ti_order := (ti_order r)\<lparr>oi_status := s\<rparr>\<rparr> | None \<Rightarrow> r);
          r2 = (case hold_invoice of Some inv' \<Rightarrow> r1\<lparr>ti_hold_invoice := Some inv'\<rparr> | None \<Rightarrow> r1)
      in (case amount_sats of Some a \<Rightarrow> r2\<lparr>ti_order := (ti_order r2)\<lparr>oi_amount_sats := Some a\<rparr>\<rparr>
          | None \<Rightarrow> r2))"

definition update_trade_fields ::
  "string \<Rightarrow> order_status option \<Rightarrow> string option \<Rightarrow> u64 option \<Rightarrow> trade_db \<Rightarrow> trade_db" where
  "update_trade_fields order_id status hold_invoice amount_sats =
     update_rows order_id (set_fields status hold_invoice amount_sats)"

text \<open>A rating that is no JSON number (NaN, an infinity) fails the statement.\<close>

definition json_number :: "f64 \<Rightarrow> bool" where
  "json_number x \<longleftrightarrow> (case x of F64_fin _ \<Rightarrow> True | _ \<Rightarrow> False)"

definition update_trade_peer_reputation :: "string \<Rightarrow> f64 \<Rightarrow> u32 \<Rightarrow> u32 \<Rightarrow> trade_db \<Rightarrow> trade_db" where
  "update_trade_peer_reputation order_id rating reviews days db =
     (if json_number rating
      then update_rows order_id (\<lambda>r. r\<lparr>ti_peer_rating := Some rating, ti_peer_reviews := Some reviews,
             ti_peer_days := Some days\<rparr>) db
      else db)"

definition update_trade_bond :: "string \<Rightarrow> bond_info \<Rightarrow> trade_db \<Rightarrow> trade_db" where
  "update_trade_bond order_id bond = update_rows order_id (\<lambda>r. r\<lparr>ti_bond := Some bond\<rparr>)"

definition mark_trade_rated :: "string \<Rightarrow> i64 \<Rightarrow> trade_db \<Rightarrow> trade_db" where
  "mark_trade_rated order_id rated_at = update_rows order_id (\<lambda>r. r\<lparr>ti_rated_at := Some rated_at\<rparr>)"

definition set_cooperative_cancel_state :: "string \<Rightarrow> coop_cancel_state \<Rightarrow> trade_db \<Rightarrow> trade_db" where
  "set_cooperative_cancel_state order_id st =
     update_rows order_id (\<lambda>r. r\<lparr>ti_cooperative_cancel_state := Some st\<rparr>)"

text \<open>An empty counterparty is refused before the statement runs.\<close>

definition update_trade_counterparty :: "string \<Rightarrow> string \<Rightarrow> trade_db \<Rightarrow> trade_db" where
  "update_trade_counterparty order_id pubkey db =
     (if pubkey = [] then db
      else update_rows order_id (\<lambda>r. r\<lparr>ti_counterparty_pubkey := pubkey\<rparr>) db)"

section \<open>Settings and trade keys\<close>

definition get_setting :: "string \<Rightarrow> trade_db \<Rightarrow> string option" where
  "get_setting k db = map_of (td_settings db) k"

definition set_setting :: "string \<Rightarrow> string \<Rightarrow> trade_db \<Rightarrow> trade_db" where
  "set_setting k v db = db\<lparr>td_settings := filter (\<lambda>(k', _). k' \<noteq> k) (td_settings db) @ [(k, v)]\<rparr>"

definition delete_setting :: "string \<Rightarrow> trade_db \<Rightarrow> trade_db" where
  "delete_setting k db = db\<lparr>td_settings := filter (\<lambda>(k', _). k' \<noteq> k) (td_settings db)\<rparr>"

definition save_trade_key :: "string \<Rightarrow> u32 \<Rightarrow> trade_db \<Rightarrow> trade_db" where
  "save_trade_key order_id index db =
     db\<lparr>td_keys := filter (\<lambda>(k, _). k \<noteq> order_id) (td_keys db) @ [(order_id, index)]\<rparr>"

definition db_trade_key :: "string \<Rightarrow> trade_db \<Rightarrow> u32 option" where
  "db_trade_key order_id db = map_of (td_keys db) order_id"

definition get_order_id_by_trade_index :: "u32 \<Rightarrow> trade_db \<Rightarrow> string option" where
  "get_order_id_by_trade_index index db = map_option fst (find (\<lambda>(_, i). i = index) (td_keys db))"

definition delete_trade_key :: "string \<Rightarrow> trade_db \<Rightarrow> trade_db" where
  "delete_trade_key order_id db = db\<lparr>td_keys := filter (\<lambda>(k, _). k \<noteq> order_id) (td_keys db)\<rparr>"

definition clear_trade_keys :: "trade_db \<Rightarrow> trade_db" where
  "clear_trade_keys db = db\<lparr>td_keys := []\<rparr>"

text \<open>The keys of the settings (\<open>db::settings_keys\<close>).\<close>

definition status_cursor_key :: "string \<Rightarrow> string" where
  "status_cursor_key order_id = ''status_cursor:'' @ order_id"

definition trade_wiped_key :: "string \<Rightarrow> string" where
  "trade_wiped_key order_id = ''trade_wiped:'' @ order_id"

definition invoice_step_start_key :: "string \<Rightarrow> string" where
  "invoice_step_start_key order_id = ''invoice_step_start:'' @ order_id"

lemma settings_keys_apart [simp]:
  "status_cursor_key a = status_cursor_key b \<longleftrightarrow> a = b"
  "trade_wiped_key a = trade_wiped_key b \<longleftrightarrow> a = b"
  "invoice_step_start_key a = invoice_step_start_key b \<longleftrightarrow> a = b"
  "status_cursor_key a \<noteq> trade_wiped_key b" "trade_wiped_key b \<noteq> status_cursor_key a"
  "status_cursor_key a \<noteq> invoice_step_start_key b" "invoice_step_start_key b \<noteq> status_cursor_key a"
  "trade_wiped_key a \<noteq> invoice_step_start_key b" "invoice_step_start_key b \<noteq> trade_wiped_key a"
  by (simp_all add: status_cursor_key_def trade_wiped_key_def invoice_step_start_key_def)

section \<open>What the operations leave\<close>

named_theorems store_simps \<open>reads after writes of the tables\<close>

lemma order_of_set_fields [simp]: "order_of (set_fields st inv' a r) = order_of r"
  by (simp add: set_fields_def order_of_def Let_def split: option.split)

lemma set_fields_kept [simp]:
  "ti_id (set_fields st inv' a r) = ti_id r" "ti_bond (set_fields st inv' a r) = ti_bond r"
  "ti_trade_key_index (set_fields st inv' a r) = ti_trade_key_index r"
  "oi_is_mine (ti_order (set_fields st inv' a r)) = oi_is_mine (ti_order r)"
  "ti_role (set_fields st inv' a r) = ti_role r"
  by (simp_all add: set_fields_def Let_def split: option.split)

lemma status_set_fields [simp]:
  "oi_status (ti_order (set_fields st inv' a r)) = (case st of Some s \<Rightarrow> s | None \<Rightarrow> oi_status (ti_order r))"
  by (simp add: set_fields_def Let_def split: option.split)

lemma find_map_same:
  assumes "\<And>r. order_of (f r) = order_of r"
  shows "find (\<lambda>r. order_of r = k) (map (\<lambda>r. if order_of r = i then f r else r) rows) =
    (if k = i then map_option f (find (\<lambda>r. order_of r = k) rows) else find (\<lambda>r. order_of r = k) rows)"
  by (induction rows) (auto simp: assms)

lemma find_filter_order:
  "find (\<lambda>r. order_of r = k) (filter (\<lambda>r. order_of r \<noteq> i) rows) =
    (if k = i then None else find (\<lambda>r. order_of r = k) rows)"
  by (induction rows) auto

lemma get_update_rows [store_simps]:
  assumes "\<And>r. order_of (f r) = order_of r"
  shows "get_trade_by_order_id k (update_rows i f db) =
    (if k = i then map_option f (get_trade_by_order_id k db) else get_trade_by_order_id k db)"
  using find_map_same [of f k i "td_rows db"] assms
  by (simp add: get_trade_by_order_id_def update_rows_def)

lemma get_update_fields [store_simps]:
  "get_trade_by_order_id k (update_trade_fields i st inv' a db) =
    (if k = i then map_option (set_fields st inv' a) (get_trade_by_order_id k db) else get_trade_by_order_id k db)"
  by (simp add: update_trade_fields_def get_update_rows)

lemma get_update_bond [store_simps]:
  "get_trade_by_order_id k (update_trade_bond i b db) =
    (if k = i then map_option (\<lambda>r. r\<lparr>ti_bond := Some b\<rparr>) (get_trade_by_order_id k db)
     else get_trade_by_order_id k db)"
  by (simp add: update_trade_bond_def get_update_rows order_of_def)

lemma get_update_coop [store_simps]:
  "get_trade_by_order_id k (set_cooperative_cancel_state i st db) =
    (if k = i then map_option (\<lambda>r. r\<lparr>ti_cooperative_cancel_state := Some st\<rparr>) (get_trade_by_order_id k db)
     else get_trade_by_order_id k db)"
  by (simp add: set_cooperative_cancel_state_def get_update_rows order_of_def)

lemma get_update_counterparty [store_simps]:
  "get_trade_by_order_id k (update_trade_counterparty i p db) =
    (if k = i \<and> p \<noteq> [] then map_option (\<lambda>r. r\<lparr>ti_counterparty_pubkey := p\<rparr>) (get_trade_by_order_id k db)
     else get_trade_by_order_id k db)"
  by (simp add: update_trade_counterparty_def get_update_rows order_of_def)

lemma get_update_reputation [store_simps]:
  "get_trade_by_order_id k (update_trade_peer_reputation i x n d db) =
    (if k = i \<and> json_number x
     then map_option (\<lambda>r. r\<lparr>ti_peer_rating := Some x, ti_peer_reviews := Some n, ti_peer_days := Some d\<rparr>)
            (get_trade_by_order_id k db)
     else get_trade_by_order_id k db)"
  by (simp add: update_trade_peer_reputation_def get_update_rows order_of_def)

lemma get_delete [store_simps]:
  "get_trade_by_order_id k (delete_trade_by_order_id i db) = (if k = i then None else get_trade_by_order_id k db)"
  by (simp add: get_trade_by_order_id_def delete_trade_by_order_id_def find_filter_order)

lemma get_setting_set [store_simps]:
  "get_setting k (set_setting k' v db) = (if k = k' then Some v else get_setting k db)"
proof -
  have "map_of (filter (\<lambda>(a, _). a \<noteq> k') xs @ [(k', v)]) k = (if k = k' then Some v else map_of xs k)"
    for xs :: "(string \<times> string) list"
    by (induction xs) auto
  then show ?thesis by (simp add: get_setting_def set_setting_def)
qed

lemma get_setting_delete [store_simps]:
  "get_setting k (delete_setting k' db) = (if k = k' then None else get_setting k db)"
proof -
  have "map_of (filter (\<lambda>(a, _). a \<noteq> k') xs) k = (if k = k' then None else map_of xs k)"
    for xs :: "(string \<times> string) list"
    by (induction xs) auto
  then show ?thesis by (simp add: get_setting_def delete_setting_def)
qed

lemma db_trade_key_save [store_simps]:
  "db_trade_key k (save_trade_key k' v db) = (if k = k' then Some v else db_trade_key k db)"
proof -
  have "map_of (filter (\<lambda>(a, _). a \<noteq> k') xs @ [(k', v)]) k = (if k = k' then Some v else map_of xs k)"
    for xs :: "(string \<times> u32) list"
    by (induction xs) auto
  then show ?thesis by (simp add: db_trade_key_def save_trade_key_def)
qed

lemma settings_of_row_writes [store_simps]:
  "get_setting k (update_rows i f db) = get_setting k db"
  "get_setting k (update_trade_fields i st inv' a db) = get_setting k db"
  "get_setting k (update_trade_bond i b db) = get_setting k db"
  "get_setting k (set_cooperative_cancel_state i c db) = get_setting k db"
  "get_setting k (update_trade_counterparty i p db) = get_setting k db"
  "get_setting k (update_trade_peer_reputation i x n d db) = get_setting k db"
  "get_setting k (delete_trade_by_order_id i db) = get_setting k db"
  "get_setting k (save_trade t db) = get_setting k db"
  "get_setting k (save_trade_key i v db) = get_setting k db"
  "get_setting k (delete_trade_key i db) = get_setting k db"
  "get_setting k (update_trade_order_id i j db) = get_setting k db"
  by (simp_all add: get_setting_def update_rows_def update_trade_fields_def update_trade_bond_def
      set_cooperative_cancel_state_def update_trade_counterparty_def update_trade_peer_reputation_def
      delete_trade_by_order_id_def save_trade_def save_trade_key_def delete_trade_key_def update_trade_order_id_def)

lemma rows_of_setting_writes [simp]:
  "td_rows (set_setting k v db) = td_rows db" "td_rows (delete_setting k db) = td_rows db"
  "td_rows (save_trade_key i n db) = td_rows db" "td_rows (delete_trade_key i db) = td_rows db"
  by (simp_all add: set_setting_def delete_setting_def save_trade_key_def delete_trade_key_def)

lemma get_of_setting_writes [store_simps]:
  "get_trade_by_order_id i (set_setting k v db) = get_trade_by_order_id i db"
  "get_trade_by_order_id i (delete_setting k db) = get_trade_by_order_id i db"
  "get_trade_by_order_id i (save_trade_key j n db) = get_trade_by_order_id i db"
  "get_trade_by_order_id i (delete_trade_key j db) = get_trade_by_order_id i db"
  by (simp_all add: get_trade_by_order_id_def)

end
