(* ===== verification/Trade_Rows.thy ===== *)
theory Trade_Rows
  imports Trade_Store Order_Book Sessions Bond_Claims
begin

text \<open>
  What the daemon's messages and the user's actions share when they touch a trade: the key
  bindings, the guards against replays (the status cursor, the terminal statuses and the tombstone
  of a wiped row), the writes of the row, the wipe of a trade that never went active and the
  updates that tell the user interface (\<open>api/orders.rs\<close>).

  \<open>world\<close> is everything these operations read and write. \<open>w_db\<close> is absent until the store is
  open; \<open>w_down\<close> says which statements fail, which may change from one message to the next but
  not within one. Tasks the code spawns, and calls into components of their own, are entries of
  \<open>w_effects\<close>. The code serialises the operations of one order with a lock, so each is one step.
\<close>

datatype db_call =
    CGetTrade | CSaveTrade | CDeleteTrade | CRenameTrade | CUpdateFields | CUpdateReputation
  | CUpdateBond | CCoopCancel | CCounterparty | CGetSetting string | CSetSetting string
  | CDeleteSetting string | CSaveKey | CGetKey | CKeyByIndex | CDeleteKey | CListTrades | CMarkRated

record bond_slashed_event =
  be_event_id :: string
  be_order_id :: string
  be_amount_sats :: u64
  be_fiat_code :: string
  be_fiat_amount :: i64
  be_payment_method :: string
  be_is_dispute :: bool

datatype effect =
    EReleaseSubscriptions string "u32 option"
  | EPushReconcile
  | EConfirmPayout string
  | ESubscribeChat string string u32
  | ELateDispute string "string option"
  | EAdminTookDispute string string
  | EBondSlashed bond_slashed_event

record world =
  w_db :: "trade_db option"
  w_down :: "db_call \<Rightarrow> bool"
  w_now :: i64
  w_mostro :: string
  w_book :: order_book
  w_sessions :: sessions
  w_key_map :: "(string, u32) fmap"
  w_key_misses :: "string fset"
  w_pending :: pending_map
  w_wakes :: "(waiter \<times> daemon_reply) list"
  w_user_cancels :: "string fset"
  w_claims :: claim_env
  w_claim_faults :: claim_faults
  w_updates :: "trade_update list"
  w_effects :: "effect list"

definition db_error :: string where "db_error = ''database error''"

definition db_read :: "db_call \<Rightarrow> (trade_db \<Rightarrow> 'a) \<Rightarrow> world \<Rightarrow> (string, 'a) result" where
  "db_read c f w = (case w_db w of None \<Rightarrow> Inl db_error
     | Some db \<Rightarrow> if w_down w c then Inl db_error else Inr (f db))"

definition db_write :: "db_call \<Rightarrow> (trade_db \<Rightarrow> trade_db) \<Rightarrow> world \<Rightarrow> (string, unit) result \<times> world" where
  "db_write c f w = (case w_db w of None \<Rightarrow> (Inl db_error, w)
     | Some db \<Rightarrow> if w_down w c then (Inl db_error, w) else (Inr (), w\<lparr>w_db := Some (f db)\<rparr>))"

definition db_try :: "db_call \<Rightarrow> (trade_db \<Rightarrow> trade_db) \<Rightarrow> world \<Rightarrow> world" where
  "db_try c f w = snd (db_write c f w)"

definition has_db :: "world \<Rightarrow> bool" where "has_db w \<longleftrightarrow> w_db w \<noteq> None"

definition read_trade :: "string \<Rightarrow> world \<Rightarrow> (string, trade_info option) result" where
  "read_trade order_id = db_read CGetTrade (get_trade_by_order_id order_id)"

definition read_setting :: "string \<Rightarrow> world \<Rightarrow> (string, string option) result" where
  "read_setting k = db_read (CGetSetting k) (get_setting k)"

definition on_book :: "(order_book \<Rightarrow> order_book) \<Rightarrow> world \<Rightarrow> world" where
  "on_book f w = w\<lparr>w_book := f (w_book w)\<rparr>"

definition touch :: "string \<Rightarrow> world \<Rightarrow> world" where
  "touch order_id = on_book (touch_trade order_id)"

definition perform :: "effect \<Rightarrow> world \<Rightarrow> world" where
  "perform e w = w\<lparr>w_effects := w_effects w @ [e]\<rparr>"

definition book_order :: "string \<Rightarrow> world \<Rightarrow> order_info option" where
  "book_order order_id w = get_order order_id (w_book w)"

section \<open>The trade key of an order\<close>

definition trade_key_miss_capacity :: nat where "trade_key_miss_capacity = 4096"

definition record_miss :: "string \<Rightarrow> string fset \<Rightarrow> string fset" where
  "record_miss order_id misses =
     finsert order_id (if fcard misses \<ge> trade_key_miss_capacity then {||} else misses)"

definition store_trade_key_index :: "string \<Rightarrow> u32 \<Rightarrow> world \<Rightarrow> world" where
  "store_trade_key_index order_id index w =
     db_try CSaveKey (save_trade_key order_id index)
       (w\<lparr>w_key_map := fmupd order_id index (w_key_map w),
          w_key_misses := w_key_misses w |-| {|order_id|}\<rparr>)"

definition lookup_trade_key_index :: "string \<Rightarrow> world \<Rightarrow> u32 option \<times> world" where
  "lookup_trade_key_index order_id w = (case fmlookup (w_key_map w) order_id of
      Some idx \<Rightarrow> (Some idx, w)
    | None \<Rightarrow>
        if order_id |\<in>| w_key_misses w then (None, w)
        else (case db_read CGetKey (db_trade_key order_id) w of
            Inr (Some idx) \<Rightarrow> (Some idx, w\<lparr>w_key_map := fmupd order_id idx (w_key_map w)\<rparr>)
          | Inr None \<Rightarrow> (None, w\<lparr>w_key_misses := record_miss order_id (w_key_misses w)\<rparr>)
          | Inl _ \<Rightarrow> (None, w)))"

section \<open>Updates for the user interface\<close>

definition release_finished_trade_subscriptions :: "string \<Rightarrow> u32 option \<Rightarrow> world \<Rightarrow> world" where
  "release_finished_trade_subscriptions order_id known_index =
     perform (EReleaseSubscriptions order_id known_index)"

definition emit_trade_update_at ::
  "string \<Rightarrow> order_status \<Rightarrow> trade_update_reason option \<Rightarrow> i64 \<Rightarrow> world \<Rightarrow> world" where
  "emit_trade_update_at order_id status reason occurred_at w =
     (let w1 = (if is_hard_terminal status then release_finished_trade_subscriptions order_id None w else w);
          w2 = w1\<lparr>w_updates := w_updates w1 @ [\<lparr>tu_order_id = order_id, tu_status = status,
                   tu_reason = reason, tu_occurred_at = occurred_at\<rparr>]\<rparr>
      in perform EPushReconcile (touch order_id w2))"

definition emit_trade_update_with ::
  "string \<Rightarrow> order_status \<Rightarrow> trade_update_reason option \<Rightarrow> world \<Rightarrow> world" where
  "emit_trade_update_with order_id status reason w = emit_trade_update_at order_id status reason (w_now w) w"

definition emit_trade_update :: "string \<Rightarrow> order_status \<Rightarrow> world \<Rightarrow> world" where
  "emit_trade_update order_id status = emit_trade_update_with order_id status None"

definition trade_is_over :: "trade_info option \<Rightarrow> bool" where
  "trade_is_over row \<longleftrightarrow> (case row of None \<Rightarrow> True | Some t \<Rightarrow> is_hard_terminal (oi_status (ti_order t)))"

text \<open>
  What the spawned release decides when it gets the lock: nothing, or whether it took the claim of
  the d-tag task (\<open>tasks\<close>, the orders with one) and the key whose subscriptions it closes.
\<close>

definition claim_finished_trade_release ::
  "string \<Rightarrow> u32 option \<Rightarrow> world \<Rightarrow> string fset \<Rightarrow> (bool \<times> u32 option) option \<times> string fset" where
  "claim_finished_trade_release order_id known_index w tasks = (case read_trade order_id w of
      Inl _ \<Rightarrow> (None, tasks)
    | Inr row \<Rightarrow>
        if \<not> trade_is_over row then (None, tasks)
        else (Some (order_id |\<in>| tasks, opt_or (map_option ti_trade_key_index row) known_index),
              tasks |-| {|order_id|}))"

section \<open>The replay cursor\<close>

definition max_clock_skew_secs :: i64 where "max_clock_skew_secs = 60"

definition load_status_cursor :: "string \<Rightarrow> world \<Rightarrow> i64 option" where
  "load_status_cursor order_id w = (case read_setting (status_cursor_key order_id) w of
      Inr (Some v) \<Rightarrow> parse_i64 v | _ \<Rightarrow> None)"

definition record_status_event :: "string \<Rightarrow> i64 \<Rightarrow> world \<Rightarrow> world" where
  "record_status_event order_id event_created_at w =
     (let horizon = i64_saturating_add (w_now w) max_clock_skew_secs in
      if event_created_at > horizon then w
      else if (case load_status_cursor order_id w of Some c \<Rightarrow> c \<ge> event_created_at | None \<Rightarrow> False) then w
      else db_try (CSetSetting (status_cursor_key order_id))
             (set_setting (status_cursor_key order_id) (int_to_string event_created_at)) w)"

definition current_local_status :: "string \<Rightarrow> world \<Rightarrow> order_status option" where
  "current_local_status order_id w = (case read_trade order_id w of
      Inr (Some t) \<Rightarrow> Some (oi_status (ti_order t))
    | _ \<Rightarrow> map_option oi_status (book_order order_id w))"

definition local_trade_status :: "string \<Rightarrow> world \<Rightarrow> order_status option" where
  "local_trade_status order_id w = (case read_trade order_id w of
      Inr (Some t) \<Rightarrow> Some (oi_status (ti_order t))
    | _ \<Rightarrow> map_option oi_status (book_order order_id w))"

definition status_sync_blocked_by_terminal :: "string \<Rightarrow> core_action \<Rightarrow> world \<Rightarrow> bool" where
  "status_sync_blocked_by_terminal order_id action w = (case current_local_status order_id w of
      None \<Rightarrow> False
    | Some local \<Rightarrow> if admin_verdict_refines local action then False else is_hard_terminal local)"

definition status_write_blocked :: "string \<Rightarrow> core_action \<Rightarrow> i64 \<Rightarrow> world \<Rightarrow> bool" where
  "status_write_blocked order_id action event_created_at w \<longleftrightarrow>
     status_sync_blocked_by_terminal order_id action w \<or>
     (case load_status_cursor order_id w of Some cursor \<Rightarrow> event_created_at < cursor | None \<Rightarrow> False)"

section \<open>The row and its tombstone\<close>

datatype row_state = RowExists trade_info | RowWiped | RowNeverWritten | RowUnknown

definition rs_trade :: "row_state \<Rightarrow> trade_info option" where
  "rs_trade rs = (case rs of RowExists t \<Rightarrow> Some t | _ \<Rightarrow> None)"

definition tombstone_covers :: "string \<Rightarrow> u32 \<Rightarrow> bool" where
  "tombstone_covers v trade_index =
     (let wiped_index = (case Option.bind (nth_opt (split_on (CHR '':'') v) 1) parse_u32 of
            Some i \<Rightarrow> i | None \<Rightarrow> u32_max)
      in trade_index \<le> wiped_index)"

definition trade_row_state :: "string \<Rightarrow> u32 \<Rightarrow> world \<Rightarrow> row_state" where
  "trade_row_state order_id trade_index w = (case read_trade order_id w of
      Inr (Some t) \<Rightarrow> RowExists t
    | Inr None \<Rightarrow> (case read_setting (trade_wiped_key order_id) w of
        Inr (Some v) \<Rightarrow> if tombstone_covers v trade_index then RowWiped else RowNeverWritten
      | Inr None \<Rightarrow> RowNeverWritten
      | Inl _ \<Rightarrow> RowUnknown)
    | Inl _ \<Rightarrow> RowUnknown)"

definition status_arm_gate :: "row_state \<Rightarrow> bool" where
  "status_arm_gate rs \<longleftrightarrow> (case rs of RowWiped \<Rightarrow> True | _ \<Rightarrow> False)"

definition tombstone_value :: "i64 \<Rightarrow> u32 \<Rightarrow> string" where
  "tombstone_value wiped_at wiped_index = int_to_string wiped_at @ '':'' @ u32_to_string wiped_index"

definition wipe_trade_row :: "string \<Rightarrow> i64 \<Rightarrow> u32 \<Rightarrow> world \<Rightarrow> (string, unit) result \<times> world" where
  "wipe_trade_row order_id wiped_at wiped_index w =
     (case db_write CDeleteTrade (delete_trade_by_order_id order_id) w of
        (Inl e, w1) \<Rightarrow> (Inl e, w1)
      | (Inr _, w1) \<Rightarrow>
          let w2 = db_try (CSetSetting (trade_wiped_key order_id))
                     (set_setting (trade_wiped_key order_id) (tombstone_value wiped_at wiped_index))
                     (touch order_id w1)
          in (Inr (), release_finished_trade_subscriptions order_id (Some wiped_index) w2))"

definition persist_trade_row :: "trade_info \<Rightarrow> world \<Rightarrow> (string, unit) result \<times> world" where
  "persist_trade_row t w =
     (let k = trade_wiped_key (order_of t);
          (saved, w1) = db_write CSaveTrade (save_trade t) (db_try (CDeleteSetting k) (delete_setting k) w)
      in (saved, perform EPushReconcile (touch (order_of t) w1)))"

definition sync_trade_fields_if_changed ::
  "string \<Rightarrow> trade_info option \<Rightarrow> order_status option \<Rightarrow> string option \<Rightarrow> u64 option \<Rightarrow> world \<Rightarrow> bool \<times> world" where
  "sync_trade_fields_if_changed order_id current status hold_invoice amount_sats w =
     (if (case current of None \<Rightarrow> False | Some t \<Rightarrow>
            (case status of None \<Rightarrow> True | Some s \<Rightarrow> s = oi_status (ti_order t)) \<and>
            (case hold_invoice of None \<Rightarrow> True | Some i \<Rightarrow> ti_hold_invoice t = Some i) \<and>
            (case amount_sats of None \<Rightarrow> True | Some a \<Rightarrow> oi_amount_sats (ti_order t) = Some a))
      then (False, w)
      else (True, touch order_id
              (db_try CUpdateFields (update_trade_fields order_id status hold_invoice amount_sats) w)))"

text \<open>\<open>match db() { Some(db) => sync(...), None => true }\<close>, the idiom of the dispatch arms.\<close>

definition sync_or_emit ::
  "string \<Rightarrow> row_state \<Rightarrow> order_status \<Rightarrow> string option \<Rightarrow> u64 option \<Rightarrow> world \<Rightarrow> bool \<times> world" where
  "sync_or_emit order_id rs status hold_invoice amount_sats w =
     (if has_db w
      then sync_trade_fields_if_changed order_id (rs_trade rs) (Some status) hold_invoice amount_sats w
      else (True, w))"

definition persist_confirmed_take :: "trade_info \<Rightarrow> world \<Rightarrow> world" where
  "persist_confirmed_take t w =
     (if \<not> has_db w then w
      else snd (persist_trade_row t (db_try CDeleteTrade (delete_trade_by_order_id (order_of t)) w)))"

section \<open>Ending a trade that never went active\<close>

definition wipe_never_active_trade ::
  "string \<Rightarrow> bool \<Rightarrow> i64 \<Rightarrow> u32 \<Rightarrow> world \<Rightarrow> (string, unit) result \<times> world" where
  "wipe_never_active_trade order_id was_take wiped_at wiped_index w =
     (case (if has_db w then wipe_trade_row order_id wiped_at wiped_index w else (Inr (), w)) of
        (Inl e, w1) \<Rightarrow> (Inl e, w1)
      | (Inr _, w1) \<Rightarrow>
          let w2 = w1\<lparr>w_sessions := remove_session order_id (w_sessions w1)\<rparr>
          in (Inr (), if was_take then on_book (settle_after_lost_take order_id) w2
                      else on_book (forget_wire_order order_id) w2))"

definition wipe_on_public_cancel :: "string \<Rightarrow> order_status \<Rightarrow> world \<Rightarrow> bool \<times> world" where
  "wipe_on_public_cancel order_id wire w =
     (if \<not> (wire = Canceled \<or> wire = Expired \<or> wire = CanceledByAdmin) then (False, w)
      else (case read_trade order_id w of
          Inr (Some t) \<Rightarrow>
            if \<not> cancellation_wipes_history (oi_status (ti_order t)) then (False, w)
            else (case wipe_never_active_trade order_id (\<not> oi_is_mine (ti_order t)) (w_now w)
                         (ti_trade_key_index t) w of
                (Inr _, w1) \<Rightarrow> (True, emit_trade_update order_id Canceled w1)
              | (Inl _, w1) \<Rightarrow> (False, w1))
        | _ \<Rightarrow> (False, w)))"

definition apply_local_cancel :: "string \<Rightarrow> world \<Rightarrow> world" where
  "apply_local_cancel order_id w =
     (let w1 = on_book (remove_order order_id) w in
      (case read_trade order_id w1 of
         Inr (Some t) \<Rightarrow>
           if cancellation_wipes_history (oi_status (ti_order t)) then w1
           else touch order_id
                  (db_try CCoopCancel (set_cooperative_cancel_state order_id CoopRequestedByMe) w1)
       | _ \<Rightarrow> w1))"

definition waiting_bond_status :: "string \<Rightarrow> world \<Rightarrow> order_status option" where
  "waiting_bond_status order_id w = (case read_trade order_id w of
      Inr (Some t) \<Rightarrow> if oi_status (ti_order t) \<in> {WaitingTakerBond, WaitingMakerBond}
                       then Some (oi_status (ti_order t)) else None
    | _ \<Rightarrow> None)"

end
