(* ===== verification/Row_Recovery.thy ===== *)
theory Row_Recovery
  imports Trade_Rows Floats
begin

text \<open>
  Rows created or moved by a daemon message instead of a local action (\<open>api/orders.rs\<close>): the
  remainder of a range order, a trade rebuilt from the message that proves it, a create whose
  confirmation came late, and a maker's order the daemon put back on the book.

  \<open>daemon_kind\<close> is the inner \<open>MessageKind\<close>. \<open>trade_pk\<close> and \<open>trade_index\<close> are the key that
  decrypted the message.
\<close>

record daemon_kind =
  dk_action :: core_action
  dk_id :: "string option"
  dk_request_id :: "u64 option"
  dk_trade_index :: "i64 option"
  dk_payload :: "core_payload option"

definition f64_of_i64 :: "i64 \<Rightarrow> f64" where
  "f64_of_i64 i = f64_of_rat (of_int i)"

definition role_of_kind :: "order_kind \<Rightarrow> trade_role" where
  "role_of_kind k = (case k of Sell \<Rightarrow> Seller | Buy \<Rightarrow> Buyer)"

definition trade_row_from_small_order ::
  "i64 \<Rightarrow> string \<Rightarrow> small_order \<Rightarrow> trade_role \<Rightarrow> bool \<Rightarrow> u32 \<Rightarrow> string \<Rightarrow> string \<Rightarrow> order_status
     \<Rightarrow> trade_info option" where
  "trade_row_from_small_order now order_id so role is_mine trade_index counterparty creator status =
     (case so_kind so of None \<Rightarrow> None
      | Some kind \<Rightarrow>
        let is_range = so_min_amount so \<noteq> None \<and> so_max_amount so \<noteq> None;
            info = \<lparr>oi_id = order_id, oi_kind = kind, oi_status = status,
                oi_amount_sats = positive_sats (so_amount so),
                oi_fiat_amount = (if is_range then None else Some (f64_of_i64 (so_fiat_amount so))),
                oi_fiat_amount_min = map_option f64_of_i64 (so_min_amount so),
                oi_fiat_amount_max = map_option f64_of_i64 (so_max_amount so),
                oi_fiat_code = so_fiat_code so, oi_payment_method = so_payment_method so,
                oi_premium = f64_of_i64 (so_premium so), oi_creator_pubkey = creator,
                oi_created_at = (case so_created_at so of Some t \<Rightarrow> t | None \<Rightarrow> now),
                oi_expires_at = so_expires_at so, oi_is_mine = is_mine,
                oi_rating = F64_fin 0, oi_total_reviews = 0, oi_days_active = 0\<rparr>
        in Some \<lparr>ti_id = order_id, ti_order = info, ti_role = role,
                 ti_counterparty_pubkey = counterparty,
                 ti_current_step = (case role of Seller \<Rightarrow> StepSeller SOrderPublished
                                    | Buyer \<Rightarrow> StepBuyer BOrderTaken),
                 ti_hold_invoice = None, ti_buyer_invoice = None, ti_trade_key_index = trade_index,
                 ti_cooperative_cancel_state = None, ti_timeout_at = None,
                 ti_started_at = (case opt_filter (\<lambda>t. t > 0) (so_created_at so) of Some t \<Rightarrow> t | None \<Rightarrow> now),
                 ti_completed_at = None, ti_outcome = None, ti_peer_rating = None,
                 ti_peer_reviews = None, ti_peer_days = None, ti_rated_at = None, ti_bond = None\<rparr>)"

section \<open>The remainder of a range order\<close>

definition adopt_range_remainder ::
  "string \<Rightarrow> daemon_kind \<Rightarrow> string \<Rightarrow> u32 \<Rightarrow> i64 \<Rightarrow> world \<Rightarrow> bool \<times> world" where
  "adopt_range_remainder order_id kind trade_pk trade_index event_ts w = (case dk_payload kind of
      Some (P_Order so) \<Rightarrow>
        if so_status so \<noteq> Some S_Pending \<or> dk_trade_index kind \<noteq> Some (uint trade_index) then (False, w)
        else (case map_option role_of_kind (so_kind so) of
            None \<Rightarrow> (False, w)
          | Some role \<Rightarrow>
              if \<not> has_db w then (False, w)
              else if (case read_trade order_id w of Inr (Some _) \<Rightarrow> True | _ \<Rightarrow> False) then (False, w)
              else if (case read_setting (trade_wiped_key order_id) w of
                         Inr (Some v) \<Rightarrow> tombstone_covers v trade_index | _ \<Rightarrow> False) then (False, w)
              else if status_write_blocked order_id (dk_action kind) event_ts w then (False, w)
              else (case trade_row_from_small_order (w_now w) order_id so role True trade_index [] trade_pk Pending of
                  None \<Rightarrow> (False, w)
                | Some trade \<Rightarrow>
                    (case persist_trade_row trade (store_trade_key_index order_id trade_index w) of
                       (Inl _, w1) \<Rightarrow> (False, w1)
                     | (Inr _, w1) \<Rightarrow> (True, emit_trade_update_at order_id Pending None event_ts w1))))
    | _ \<Rightarrow> (False, w))"

section \<open>A trade rebuilt from its message\<close>

definition payload_order :: "core_payload option \<Rightarrow> small_order option" where
  "payload_order p = (case p of
      Some (P_Order so) \<Rightarrow> Some so
    | Some (P_PaymentRequest so _ _) \<Rightarrow> so
    | _ \<Rightarrow> None)"

definition describes_no_trade :: "core_action \<Rightarrow> bool" where
  "describes_no_trade a \<longleftrightarrow>
     a \<in> {A_NewOrder, A_Canceled, A_CantDo, A_BondSlashed, A_PayBondInvoice, A_RestoreSession, A_AdminTookDispute}"

definition proven_role :: "core_action \<Rightarrow> small_order \<Rightarrow> string \<Rightarrow> trade_role option" where
  "proven_role a so trade_pk =
     (let is_ours = (\<lambda>k. case k of Some pk \<Rightarrow> eq_ignore_ascii_case pk trade_pk | None \<Rightarrow> False) in
      if is_ours (so_buyer_trade_pubkey so) then Some Buyer
      else if is_ours (so_seller_trade_pubkey so) then Some Seller
      else if so_buyer_trade_pubkey so = None \<and> so_seller_trade_pubkey so = None
      then (case a of A_AddInvoice \<Rightarrow> Some Buyer | A_PayInvoice \<Rightarrow> Some Seller | _ \<Rightarrow> None)
      else None)"

definition is_maker_of :: "order_kind option \<Rightarrow> trade_role \<Rightarrow> bool" where
  "is_maker_of kind role \<longleftrightarrow> (kind = Some Sell \<and> role = Seller) \<or> (kind = Some Buy \<and> role = Buyer)"

definition rebuild_trade_from_dm ::
  "daemon_kind \<Rightarrow> string \<Rightarrow> string \<Rightarrow> u32 \<Rightarrow> i64 \<Rightarrow> world \<Rightarrow> trade_info option \<times> world" where
  "rebuild_trade_from_dm kind order_id trade_pk trade_index occurred_at w =
     (if describes_no_trade (dk_action kind) then (None, w)
      else (case payload_order (dk_payload kind) of
          None \<Rightarrow> (None, w)
        | Some so \<Rightarrow> (case proven_role (dk_action kind) so trade_pk of
            None \<Rightarrow> (None, w)
          | Some role \<Rightarrow>
              let counterparty = (case (case role of Buyer \<Rightarrow> so_seller_trade_pubkey so
                                        | Seller \<Rightarrow> so_buyer_trade_pubkey so) of Some k \<Rightarrow> k | None \<Rightarrow> [])
              in (case opt_or (Option.bind (so_status so) map_core_status) (status_for_action (dk_action kind)) of
                  None \<Rightarrow> (None, w)
                | Some status \<Rightarrow>
                    if \<not> has_db w then (None, w)
                    else (case trade_row_from_small_order (w_now w) order_id so role
                                 (is_maker_of (so_kind so) role) trade_index counterparty [] status of
                        None \<Rightarrow> (None, w)
                      | Some trade \<Rightarrow>
                          (case persist_trade_row trade (store_trade_key_index order_id trade_index w) of
                             (Inl _, w1) \<Rightarrow> (None, w1)
                           | (Inr _, w1) \<Rightarrow>
                               (Some trade, emit_trade_update_at order_id status None occurred_at w1)))))))"

definition persist_late_create_confirmation ::
  "string \<Rightarrow> daemon_kind \<Rightarrow> string \<Rightarrow> u32 \<Rightarrow> i64 \<Rightarrow> world \<Rightarrow> world" where
  "persist_late_create_confirmation daemon_id kind trade_pk trade_index occurred_at w =
     (case dk_payload kind of
        Some (P_Order so) \<Rightarrow> (case map_option role_of_kind (so_kind so) of
            None \<Rightarrow> w
          | Some role \<Rightarrow>
              let status = (case Option.bind (so_status so) map_core_status of Some s \<Rightarrow> s | None \<Rightarrow> Pending)
              in (case trade_row_from_small_order (w_now w) daemon_id so role True trade_index [] trade_pk status of
                  None \<Rightarrow> w
                | Some trade \<Rightarrow>
                    if \<not> has_db w then w
                    else (case persist_trade_row trade w of
                        (Inl _, w1) \<Rightarrow> w1
                      | (Inr _, w1) \<Rightarrow> emit_trade_update_at daemon_id status None occurred_at w1)))
      | _ \<Rightarrow> w)"

section \<open>A maker's order back on the book\<close>

definition resync_republished_maker_order :: "string \<Rightarrow> daemon_kind \<Rightarrow> i64 \<Rightarrow> world \<Rightarrow> bool \<times> world" where
  "resync_republished_maker_order order_id kind event_ts w =
     (if \<not> (case dk_payload kind of Some (P_Order so) \<Rightarrow> so_status so = Some S_Pending | _ \<Rightarrow> False) then (False, w)
      else (case current_local_status order_id w of
          None \<Rightarrow> (False, w)
        | Some local \<Rightarrow>
            if local \<notin> {WaitingPayment, WaitingBuyerInvoice, InProgress} then (False, w)
            else if status_write_blocked order_id (dk_action kind) event_ts w then (False, w)
            else let w1 = on_book (update_order_status order_id Pending) (record_status_event order_id event_ts w);
                     w2 = db_try CUpdateFields (update_trade_fields order_id (Some Pending) None None) w1
                 in (True, emit_trade_update_at order_id Pending None event_ts w2)))"

end
