(* ===== verification/Bond_Rows.thy ===== *)
theory Bond_Rows
  imports Row_Recovery Trade_Index
begin

text \<open>
  The bond on a trade row (\<open>api/orders.rs\<close>): its request, lock, release and expiry, the maker's
  bond on a create, and the rows a restore rebuilds for orders parked on a bond.

  \<open>crypto\<close> collects what other components and third-party crates answer: the keys of a trade
  index (\<open>identity::get_active_trade_keys\<close>), public keys, ECDH, the expiry of a bolt11 and the payout
  claim window of a node's cached bond policy.
\<close>

record 'k crypto =
  cr_trade_keys :: "u32 \<Rightarrow> 'k option"
  cr_pubkey :: "'k \<Rightarrow> string"
  cr_parse_pubkey :: "string \<Rightarrow> string option"
  cr_shared_key :: "'k \<Rightarrow> string \<Rightarrow> u8 list option"
  cr_valid_secret :: "u8 list \<Rightarrow> bool"
  cr_chat_keys :: "'k \<Rightarrow> string \<Rightarrow> bool"
  cr_bolt11_expiry :: "string \<Rightarrow> i64 option"
  cr_claim_window :: "string \<Rightarrow> u32 option"

definition bond_requested :: "'k crypto \<Rightarrow> bond_role \<Rightarrow> bond_request \<Rightarrow> i64 \<Rightarrow> bond_info" where
  "bond_requested cr role req requested_at =
     \<lparr>bi_role = role, bi_amount_sats = br_amount_sats req, bi_invoice = Some (br_invoice req),
      bi_state = BondRequested, bi_requested_at = requested_at,
      bi_expires_at = cr_bolt11_expiry cr (br_invoice req), bi_locked_at = None\<rparr>"

definition persist_bond :: "string \<Rightarrow> bond_info \<Rightarrow> world \<Rightarrow> world" where
  "persist_bond order_id bond w =
     (if \<not> has_db w then w
      else touch order_id (db_try CUpdateBond (update_trade_bond order_id bond) w))"

definition note_bond_locked :: "row_state \<Rightarrow> string \<Rightarrow> world \<Rightarrow> world" where
  "note_bond_locked rs order_id w = (case rs_trade rs of
      None \<Rightarrow> w
    | Some trade \<Rightarrow>
        if oi_status (ti_order trade) \<noteq> WaitingTakerBond then w
        else (case ti_bond trade of
            None \<Rightarrow> w
          | Some existing \<Rightarrow>
              if bi_state existing \<noteq> BondRequested then w
              else persist_bond order_id
                     (existing\<lparr>bi_state := BondLocked, bi_locked_at := Some (w_now w)\<rparr>) w))"

definition note_bond_released :: "row_state \<Rightarrow> string \<Rightarrow> world \<Rightarrow> world" where
  "note_bond_released rs order_id w = (case Option.bind (rs_trade rs) ti_bond of
      None \<Rightarrow> w
    | Some existing \<Rightarrow>
        if bi_state existing \<notin> {BondRequested, BondLocked} then w
        else persist_bond order_id (existing\<lparr>bi_state := BondReleased\<rparr>) w)"

definition note_user_cancel :: "string \<Rightarrow> world \<Rightarrow> world" where
  "note_user_cancel order_id w = w\<lparr>w_user_cancels := finsert order_id (w_user_cancels w)\<rparr>"

definition take_user_cancel :: "string \<Rightarrow> world \<Rightarrow> bool \<times> world" where
  "take_user_cancel order_id w =
     (order_id |\<in>| w_user_cancels w, w\<lparr>w_user_cancels := w_user_cancels w |-| {|order_id|}\<rparr>)"

definition bond_cancel_reason :: "string \<Rightarrow> world \<Rightarrow> trade_update_reason option \<times> world" where
  "bond_cancel_reason order_id w =
     (let (own, w1) = take_user_cancel order_id w in
      if own then (Some UserCanceled, w1)
      else (case map_option oi_status (book_order order_id w1) of
          None \<Rightarrow> (None, w1)
        | Some s \<Rightarrow>
            if s \<in> {Canceled, CanceledByAdmin, Expired} then (Some MakerCanceled, w1)
            else if s \<in> {Pending, InProgress} then (Some BondLostRace, w1)
            else (None, w1)))"

section \<open>The window of an unpaid bond\<close>

definition bond_refresh_is_stale :: "bond_info \<Rightarrow> i64 \<Rightarrow> bool" where
  "bond_refresh_is_stale existing event_ts \<longleftrightarrow>
     i64_saturating_add event_ts max_clock_skew_secs < bi_requested_at existing"

definition bond_deadline :: "trade_info \<Rightarrow> i64 option" where
  "bond_deadline t =
     (if (case ti_bond t of Some b \<Rightarrow> bi_state b \<noteq> BondRequested | None \<Rightarrow> False) then None
      else let invoice_expiry = Option.bind (ti_bond t) bi_expires_at in
        (case oi_status (ti_order t) of
           WaitingTakerBond \<Rightarrow> invoice_expiry
         | WaitingMakerBond \<Rightarrow> (case (invoice_expiry, oi_expires_at (ti_order t)) of
               (Some a, Some b) \<Rightarrow> Some (min a b)
             | (a, b) \<Rightarrow> opt_or a b)
         | _ \<Rightarrow> None))"

definition bond_expired :: "trade_info \<Rightarrow> i64 \<Rightarrow> bool" where
  "bond_expired t now \<longleftrightarrow> (case bond_deadline t of Some at' \<Rightarrow> now > at' | None \<Rightarrow> False)"

definition maker_order_is_published :: "string \<Rightarrow> world \<Rightarrow> bool" where
  "maker_order_is_published order_id w \<longleftrightarrow>
     map_option oi_status (book_order order_id w) \<in> {Some Pending, Some InProgress}"

section \<open>The maker's bond locks\<close>

definition lock_maker_bond :: "string \<Rightarrow> trade_info \<Rightarrow> u32 \<Rightarrow> world \<Rightarrow> bool \<times> world" where
  "lock_maker_bond order_id trade trade_index w =
     (if oi_status (ti_order trade) \<noteq> WaitingMakerBond \<or> \<not> oi_is_mine (ti_order trade) \<or>
         ti_trade_key_index trade \<noteq> trade_index then (False, w)
      else let w1 = (case ti_bond trade of
                 Some existing \<Rightarrow>
                   if bi_state existing = BondRequested
                   then persist_bond order_id
                          (existing\<lparr>bi_state := BondLocked, bi_locked_at := Some (w_now w)\<rparr>) w
                   else w
               | None \<Rightarrow> w);
               w2 = db_try CUpdateFields (update_trade_fields order_id (Some Pending) None None) w1
           in (True, emit_trade_update order_id Pending w2))"

definition is_restored_maker_placeholder :: "trade_info \<Rightarrow> bool" where
  "is_restored_maker_placeholder t \<longleftrightarrow>
     oi_status (ti_order t) = WaitingMakerBond \<and> oi_is_mine (ti_order t) \<and>
     oi_fiat_code (ti_order t) = [] \<and>
     (case ti_bond t of Some b \<Rightarrow> bi_invoice b = None | None \<Rightarrow> False)"

definition fill_restored_maker_row :: "i64 \<Rightarrow> trade_info \<Rightarrow> small_order \<Rightarrow> string \<Rightarrow> trade_info option" where
  "fill_restored_maker_row now t published creator =
     (case map_option role_of_kind (so_kind published) of
        None \<Rightarrow> None
      | Some role \<Rightarrow>
          map_option (\<lambda>filled. filled\<lparr>ti_id := ti_id t, ti_bond := ti_bond t, ti_started_at := ti_started_at t\<rparr>)
            (trade_row_from_small_order now (oi_id (ti_order t)) published role True (ti_trade_key_index t)
               [] creator (oi_status (ti_order t))))"

definition confirm_maker_bond ::
  "string \<Rightarrow> row_state \<Rightarrow> u32 \<Rightarrow> (daemon_kind \<times> string) option \<Rightarrow> world \<Rightarrow> bool \<times> world" where
  "confirm_maker_bond order_id rs trade_index published w = (case rs_trade rs of
      None \<Rightarrow> (False, w)
    | Some trade \<Rightarrow>
        (case (if is_restored_maker_placeholder trade then
                 (case published of
                    Some (kind, creator) \<Rightarrow> (case dk_payload kind of
                        Some (P_Order so) \<Rightarrow>
                          (if has_db w then fill_restored_maker_row (w_now w) trade so creator else None)
                      | _ \<Rightarrow> None)
                  | None \<Rightarrow> None)
               else None) of
           Some filled \<Rightarrow> lock_maker_bond order_id filled trade_index (snd (persist_trade_row filled w))
         | None \<Rightarrow> lock_maker_bond order_id trade trade_index w))"

definition close_expired_bond_trade :: "trade_info \<Rightarrow> i64 \<Rightarrow> world \<Rightarrow> bool \<times> world" where
  "close_expired_bond_trade trade now w =
     (if \<not> bond_expired trade now then (False, w)
      else let oid = order_of trade in
        (case (if has_db w then (case read_trade oid w of Inr (Some row) \<Rightarrow> Some row | _ \<Rightarrow> None)
               else Some trade) of
           None \<Rightarrow> (False, w)
         | Some current \<Rightarrow>
             if \<not> bond_expired current now then (False, w)
             else if oi_status (ti_order current) = WaitingMakerBond \<and> maker_order_is_published oid w
             then (let (locked, w1) = lock_maker_bond oid current (ti_trade_key_index current) w in (\<not> locked, w1))
             else let w1 = emit_trade_update_with oid Expired (Some BondExpired) w in
               (case wipe_never_active_trade oid (\<not> oi_is_mine (ti_order current)) now
                       (ti_trade_key_index current) w1 of
                  (Inr _, w2) \<Rightarrow> (True, w2)
                | (Inl _, w2) \<Rightarrow> (False, w2))))"

definition wake :: "waiter \<Rightarrow> daemon_reply \<Rightarrow> world \<Rightarrow> world" where
  "wake tx reply w = w\<lparr>w_wakes := w_wakes w @ [(tx, reply)]\<rparr>"

definition handle_create_bond_reply ::
  "'k crypto \<Rightarrow> string \<Rightarrow> daemon_kind \<Rightarrow> string \<Rightarrow> create_bond_claim \<Rightarrow> i64 \<Rightarrow> world \<Rightarrow> world" where
  "handle_create_bond_reply cr order_id kind trade_pk claim event_ts w = (case dk_payload kind of
      Some (P_PaymentRequest so invoice amount) \<Rightarrow>
        let w1 = store_trade_key_index order_id (cbc_trade_index claim) w;
            request = \<lparr>br_amount_sats =
                (case opt_or (Option.bind amount u64_of_i64) (Option.bind so (\<lambda>o'. u64_of_i64 (so_amount o'))) of
                   Some v \<Rightarrow> v | None \<Rightarrow> 0),
              br_invoice = invoice\<rparr>
        in (case cbc_tx claim of
            Some tx \<Rightarrow> wake tx (BondRequestedReply order_id request) w1
          | None \<Rightarrow> (case so of
              None \<Rightarrow> w1
            | Some ord \<Rightarrow> (case map_option role_of_kind (so_kind ord) of
                None \<Rightarrow> w1
              | Some role \<Rightarrow> (case trade_row_from_small_order (w_now w1) order_id ord role True
                                   (cbc_trade_index claim) [] trade_pk WaitingMakerBond of
                  None \<Rightarrow> w1
                | Some row \<Rightarrow>
                    let trade = row\<lparr>ti_order := (ti_order row)\<lparr>oi_amount_sats := None\<rparr>,
                                    ti_bond := Some (bond_requested cr BondMaker request event_ts)\<rparr>
                    in if \<not> has_db w1 then w1
                       else (case persist_trade_row trade w1 of
                           (Inl _, w2) \<Rightarrow> w2
                         | (Inr _, w2) \<Rightarrow> emit_trade_update order_id WaitingMakerBond w2)))))
    | _ \<Rightarrow> w)"

definition abandon_maker_bond :: "'k crypto \<Rightarrow> string \<Rightarrow> world \<Rightarrow> (string, unit) result \<times> world" where
  "abandon_maker_bond cr order_id w =
     (if \<not> has_db w then (Inl ''StorageUnavailable'', w)
      else (case read_trade order_id w of
          Inl e \<Rightarrow> (Inl e, w)
        | Inr None \<Rightarrow> (Inl ''TradeNotFound'', w)
        | Inr (Some trade) \<Rightarrow>
            if oi_status (ti_order trade) \<noteq> WaitingMakerBond \<or> \<not> oi_is_mine (ti_order trade) \<or>
               (case ti_bond trade of Some b \<Rightarrow> bi_role b \<noteq> BondMaker | None \<Rightarrow> False)
            then (Inl ''NotWaitingBond'', w)
            else let w1 = emit_trade_update_with order_id Canceled (Some UserCanceled) w in
              (case wipe_never_active_trade order_id False (w_now w) (ti_trade_key_index trade) w1 of
                 (Inl e, w2) \<Rightarrow> (Inl e, w2)
               | (Inr _, w2) \<Rightarrow> (Inr (), (case cr_trade_keys cr (ti_trade_key_index trade) of
                     Some ks \<Rightarrow> w2\<lparr>w_pending := purge_detached_pending_request (cr_pubkey cr ks) (w_pending w2)\<rparr>
                   | None \<Rightarrow> w2)))))"

section \<open>Rows rebuilt by a restore\<close>

definition restored_bond_row ::
  "string \<Rightarrow> string \<Rightarrow> u32 \<Rightarrow> order_status \<Rightarrow> order_info option \<Rightarrow> i64 \<Rightarrow> trade_info" where
  "restored_bond_row active_node order_id trade_index status book now =
     (let maker = (status = WaitingMakerBond);
          role = (if maker then Seller else (case map_option oi_kind book of
                    Some Sell \<Rightarrow> Buyer | Some Buy \<Rightarrow> Seller | None \<Rightarrow> Buyer));
          ord = (case book of Some b \<Rightarrow> b
                 | None \<Rightarrow> \<lparr>oi_id = order_id, oi_kind = Sell, oi_status = status, oi_amount_sats = None,
                     oi_fiat_amount = None, oi_fiat_amount_min = None, oi_fiat_amount_max = None,
                     oi_fiat_code = [], oi_payment_method = [], oi_premium = F64_fin 0,
                     oi_creator_pubkey = active_node, oi_created_at = now, oi_expires_at = None,
                     oi_is_mine = maker, oi_rating = F64_fin 0, oi_total_reviews = 0, oi_days_active = 0\<rparr>)
      in \<lparr>ti_id = order_id, ti_order = ord\<lparr>oi_status := status, oi_is_mine := maker\<rparr>, ti_role = role,
          ti_counterparty_pubkey = [],
          ti_current_step = (case role of Buyer \<Rightarrow> StepBuyer BOrderTaken | Seller \<Rightarrow> StepSeller STakerFound),
          ti_hold_invoice = None, ti_buyer_invoice = None, ti_trade_key_index = trade_index,
          ti_cooperative_cancel_state = None, ti_timeout_at = None, ti_started_at = now,
          ti_completed_at = None, ti_outcome = None, ti_peer_rating = None, ti_peer_reviews = None,
          ti_peer_days = None, ti_rated_at = None,
          ti_bond = Some \<lparr>bi_role = (if maker then BondMaker else BondTaker), bi_amount_sats = 0,
            bi_invoice = None, bi_state = BondRequested, bi_requested_at = now,
            bi_expires_at = None, bi_locked_at = None\<rparr>\<rparr>)"

text \<open>\<open>fetch\<close> is the relay query for the daemon's public order, made outside the lock.\<close>

definition restore_bond_row :: "(string \<Rightarrow> order_info option) \<Rightarrow> restored_order \<Rightarrow> world \<Rightarrow> world" where
  "restore_bond_row fetch restored w =
     (case (if ro_status restored = ''waiting-taker-bond'' then Some WaitingTakerBond
            else if ro_status restored = ''waiting-maker-bond'' then Some WaitingMakerBond else None) of
        None \<Rightarrow> w
      | Some status \<Rightarrow> (case sanitize_trade_index (ro_trade_index restored) of
          None \<Rightarrow> w
        | Some trade_index \<Rightarrow>
            let order_id = ro_order_id restored;
                book = (if status = WaitingTakerBond
                        then (case book_order order_id w of Some ord \<Rightarrow> Some ord | None \<Rightarrow> fetch order_id)
                        else None)
            in if status = WaitingTakerBond \<and> book = None then w
               else if (case read_trade order_id w of Inr (Some _) \<Rightarrow> True | _ \<Rightarrow> False) then w
               else let row = restored_bond_row (w_mostro w) order_id trade_index status book (w_now w) in
                 (case persist_trade_row row (store_trade_key_index order_id trade_index w) of
                    (Inl _, w1) \<Rightarrow> w1
                  | (Inr _, w1) \<Rightarrow> emit_trade_update order_id status w1)))"

definition persist_restored_bond_rows ::
  "(string \<Rightarrow> order_info option) \<Rightarrow> restore_session_info \<Rightarrow> world \<Rightarrow> world" where
  "persist_restored_bond_rows fetch info w =
     (if \<not> has_db w then w else fold (restore_bond_row fetch) (rsi_orders info) w)"

end
