(* ===== verification/Dispatch.thy ===== *)
theory Dispatch
  imports Bond_Rows
begin

text \<open>
  \<open>dispatch_mostro_message\<close> of \<open>api/orders.rs\<close>: the whole path of a decrypted daemon message,
  from the authentication of its sender over the generation gate, the reconciliation of a created
  order's id, the classification of the row, the peer capture, the waiters and the rebuild of a
  lost row to the arm of its action. One definition per stage and per arm, composed in the order
  of the code; an early return is a branch that stops there.

  The lock of the order is held for the whole of it, so a message is one step of the world.
  Reading the invoice step of \<open>api/invoice.rs\<close> is here because two arms record it.
\<close>

record daemon_message =
  dm_event_id :: string
  dm_sender :: string
  dm_created_at :: i64
  dm_valid :: bool      \<comment> \<open>\<open>validate_response\<close> accepted it, or answered \<open>MostroCantDo\<close>\<close>
  dm_kind :: daemon_kind
  dm_trade_pk :: string
  dm_trade_index :: u32

section \<open>The start of an invoice step\<close>

definition status_debug :: "order_status \<Rightarrow> string" where
  "status_debug s = (case s of
      Pending \<Rightarrow> ''Pending'' | WaitingBuyerInvoice \<Rightarrow> ''WaitingBuyerInvoice''
    | WaitingPayment \<Rightarrow> ''WaitingPayment'' | Active \<Rightarrow> ''Active'' | FiatSent \<Rightarrow> ''FiatSent''
    | SettledHoldInvoice \<Rightarrow> ''SettledHoldInvoice'' | Success \<Rightarrow> ''Success'' | Canceled \<Rightarrow> ''Canceled''
    | Expired \<Rightarrow> ''Expired'' | CooperativelyCanceled \<Rightarrow> ''CooperativelyCanceled''
    | CanceledByAdmin \<Rightarrow> ''CanceledByAdmin'' | SettledByAdmin \<Rightarrow> ''SettledByAdmin''
    | CompletedByAdmin \<Rightarrow> ''CompletedByAdmin'' | Dispute \<Rightarrow> ''Dispute'' | InProgress \<Rightarrow> ''InProgress''
    | WaitingTakerBond \<Rightarrow> ''WaitingTakerBond'' | WaitingMakerBond \<Rightarrow> ''WaitingMakerBond'')"

text \<open>\<open>rsplit_once(':')\<close>: what stands before and after the last separator.\<close>

definition rsplit_once :: "char \<Rightarrow> string \<Rightarrow> (string \<times> string) option" where
  "rsplit_once c s =
     (if c \<in> set s
      then Some (rev (tl (dropWhile (\<lambda>x. x \<noteq> c) (rev s))), rev (takeWhile (\<lambda>x. x \<noteq> c) (rev s)))
      else None)"

definition parse_step_start :: "string \<Rightarrow> (string \<times> i64) option" where
  "parse_step_start v = Option.bind (rsplit_once (CHR '':'') v)
     (\<lambda>(status, ts). map_option (Pair status) (parse_i64 ts))"

definition next_step_start :: "string option \<Rightarrow> string \<Rightarrow> i64 \<Rightarrow> string option" where
  "next_step_start existing status event_ts =
     (if (case Option.bind existing parse_step_start of
            Some (stored_status, stored_ts) \<Rightarrow> stored_status = status \<and> stored_ts \<le> event_ts
          | None \<Rightarrow> False)
      then None else Some (status @ '':'' @ int_to_string event_ts))"

definition record_invoice_step_start :: "string \<Rightarrow> string \<Rightarrow> i64 \<Rightarrow> world \<Rightarrow> world" where
  "record_invoice_step_start order_id status event_ts w =
     (if event_ts > i64_saturating_add (w_now w) max_clock_skew_secs then w
      else if \<not> has_db w then w
      else let k = invoice_step_start_key order_id;
               existing = (case read_setting k w of Inr v \<Rightarrow> v | Inl _ \<Rightarrow> None)
           in (case next_step_start existing status event_ts of
               None \<Rightarrow> w
             | Some v \<Rightarrow> db_try (CSetSetting k) (set_setting k v) w))"

definition trade_step_started_at :: "string \<Rightarrow> world \<Rightarrow> i64 option" where
  "trade_step_started_at order_id w = (case read_setting (invoice_step_start_key order_id) w of
      Inr (Some v) \<Rightarrow> map_option snd (parse_step_start v) | _ \<Rightarrow> None)"

section \<open>Capturing the peer\<close>

definition peer_reveal_pubkeys :: "core_payload option \<Rightarrow> (string \<times> string) option" where
  "peer_reveal_pubkeys payload = (case payload_order payload of
      None \<Rightarrow> None
    | Some so \<Rightarrow> (case (so_buyer_trade_pubkey so, so_seller_trade_pubkey so) of
        (Some b, Some s) \<Rightarrow> if b \<noteq> [] \<and> s \<noteq> [] then Some (b, s) else None
      | _ \<Rightarrow> None))"

definition resolve_peer_side :: "string \<Rightarrow> string \<Rightarrow> string \<Rightarrow> (string \<times> trade_role) option" where
  "resolve_peer_side my_pk buyer_pk seller_pk =
     (if my_pk = buyer_pk then Some (seller_pk, Buyer)
      else if my_pk = seller_pk then Some (buyer_pk, Seller) else None)"

definition apply_peer_reveal :: "'k crypto \<Rightarrow> string \<Rightarrow> string \<Rightarrow> 'k \<Rightarrow> u32 \<Rightarrow> trade_role \<Rightarrow> world \<Rightarrow> world" where
  "apply_peer_reveal cr order_id peer_hex trade_keys trade_index role w =
     (case cr_parse_pubkey cr peer_hex of
        None \<Rightarrow> w
      | Some peer \<Rightarrow> (case cr_shared_key cr trade_keys peer of
          None \<Rightarrow> w
        | Some key \<Rightarrow>
            if \<not> cr_valid_secret cr key then w
            else let order_info = (case read_trade order_id w of
                       Inr (Some t) \<Rightarrow> Some (ti_order t) | _ \<Rightarrow> book_order order_id w);
                     (s, m) = reveal_read order_id role trade_index order_info (w_now w) (w_sessions w);
                     w1 = w\<lparr>w_sessions := reveal_write order_id peer_hex key s m\<rparr>
                 in if cr_chat_keys cr trade_keys peer
                    then perform (ESubscribeChat order_id peer trade_index) w1 else w1))"

definition maybe_capture_peer_reveal ::
  "'k crypto \<Rightarrow> string \<Rightarrow> core_action \<Rightarrow> core_payload option \<Rightarrow> u32 \<Rightarrow> world \<Rightarrow> world" where
  "maybe_capture_peer_reveal cr order_id action payload trade_index w =
     (case peer_reveal_pubkeys payload of
        None \<Rightarrow> w
      | Some (buyer_hex, seller_hex) \<Rightarrow>
          if (case get_session order_id (w_sessions w) of
                Some s \<Rightarrow> se_shared_key s \<noteq> None \<and>
                  (se_peer_pubkey s = Some buyer_hex \<or> se_peer_pubkey s = Some seller_hex)
              | None \<Rightarrow> False) then w
          else (case (cr_parse_pubkey cr buyer_hex, cr_parse_pubkey cr seller_hex) of
              (Some buyer_pk, Some seller_pk) \<Rightarrow>
                if status_sync_blocked_by_terminal order_id action w then w
                else (case cr_trade_keys cr trade_index of
                    None \<Rightarrow> w
                  | Some ks \<Rightarrow> (case resolve_peer_side (cr_pubkey cr ks) buyer_pk seller_pk of
                      None \<Rightarrow> w
                    | Some (peer_hex, role) \<Rightarrow>
                        let w1 = (if has_db w
                              then touch order_id (db_try CCounterparty (update_trade_counterparty order_id peer_hex) w)
                              else w)
                        in apply_peer_reveal cr order_id peer_hex ks trade_index role w1))
            | _ \<Rightarrow> w))"

section \<open>Before the arms\<close>

definition sender_accepted :: "'k crypto \<Rightarrow> daemon_message \<Rightarrow> world \<Rightarrow> bool" where
  "sender_accepted cr m w \<longleftrightarrow> (case cr_parse_pubkey cr (w_mostro w) of
      None \<Rightarrow> False
    | Some expected \<Rightarrow> expected = dm_sender m \<or>
        (is_claim_node (dm_sender m) (w_now w) (w_claims w) \<and> is_claim_action (dk_action (dm_kind m))))"

definition generation_exempt :: "core_action \<Rightarrow> bool" where
  "generation_exempt a \<longleftrightarrow>
     a \<in> {A_BondSlashed, A_AddBondInvoice, A_BondInvoiceAccepted, A_BondPayoutCompleted}"

definition generation_gate :: "core_action \<Rightarrow> string \<Rightarrow> u32 \<Rightarrow> world \<Rightarrow> bool \<times> world" where
  "generation_gate action order_id trade_index w =
     (if generation_exempt action then (True, w)
      else (case lookup_trade_key_index order_id w of
          (Some bound, w1) \<Rightarrow> (\<not> trade_index < bound, w1)
        | (None, w1) \<Rightarrow> (True, w1)))"

definition reconcile_order_id :: "string \<Rightarrow> string \<Rightarrow> u32 \<Rightarrow> world \<Rightarrow> world" where
  "reconcile_order_id did trade_pk trade_index w =
     (if book_order did w \<noteq> None then w
      else (case db_read CKeyByIndex (get_order_id_by_trade_index trade_index) w of
          Inr (Some local_id) \<Rightarrow>
            if \<not> may_reconcile_stored_id local_id did (pending_local_uuid_for trade_pk (w_pending w)) then w
            else let w1 = (case book_order local_id w of
                       Some info \<Rightarrow> on_book (\<lambda>k. upsert_order (info\<lparr>oi_id := did\<rparr>) (remove_order local_id k)) w
                     | None \<Rightarrow> w);
                     w2 = touch did (touch local_id (db_try CRenameTrade (update_trade_order_id local_id did) w1));
                     w3 = db_try CSaveKey (save_trade_key did trade_index)
                            (db_try CDeleteKey (delete_trade_key local_id) w2)
                 in store_trade_key_index did trade_index
                      (w3\<lparr>w_key_map := fmdrop local_id (w_key_map w3)\<rparr>)
        | _ \<Rightarrow> w))"

text \<open>A message a waiting \<open>take_order\<close> gets is consumed: that caller applies its effects itself.\<close>

definition intercept_take :: "daemon_kind \<Rightarrow> string \<Rightarrow> world \<Rightarrow> bool \<times> world" where
  "intercept_take kind trade_pk w =
     (case take_matching_take trade_pk (dk_request_id kind) (w_pending w) of
        (None, _) \<Rightarrow> (False, w)
      | (Some pending, p') \<Rightarrow>
          let w1 = w\<lparr>w_pending := p'\<rparr> in
          (True, case pr_tx pending of
             Some tx \<Rightarrow> wake tx (classify_take_reply (dk_action kind) (dk_payload kind)) w1
           | None \<Rightarrow> w1))"

definition acknowledge :: "(pending_map \<Rightarrow> pending_request option \<times> pending_map) \<Rightarrow> world \<Rightarrow> world" where
  "acknowledge taker w = (case taker (w_pending w) of
      (None, _) \<Rightarrow> w
    | (Some pending, p') \<Rightarrow>
        let w1 = w\<lparr>w_pending := p'\<rparr> in
        (case pr_tx pending of Some tx \<Rightarrow> wake tx Acknowledged w1 | None \<Rightarrow> w1))"

definition acknowledge_claim_submit :: "daemon_kind \<Rightarrow> string \<Rightarrow> world \<Rightarrow> world" where
  "acknowledge_claim_submit kind trade_pk w =
     (if dk_action kind \<in> {A_BondInvoiceAccepted, A_BondPayoutCompleted}
      then acknowledge (take_matching_claim_submit trade_pk (dk_request_id kind)) w else w)"

definition dispute_id_from_payload :: "core_payload option \<Rightarrow> string option" where
  "dispute_id_from_payload p = (case p of Some (P_Dispute i) \<Rightarrow> Some i | _ \<Rightarrow> None)"

definition accept_dispute :: "daemon_kind \<Rightarrow> string \<Rightarrow> world \<Rightarrow> world" where
  "accept_dispute kind trade_pk w =
     (if dk_action kind \<noteq> A_DisputeInitiatedByYou then w
      else let (found, p') = take_matching_dispute trade_pk (dk_request_id kind) (w_pending w);
               w1 = w\<lparr>w_pending := p'\<rparr>
           in (case found of
               Some (Waiting tx) \<Rightarrow> wake tx (DisputeAccepted (dispute_id_from_payload (dk_payload kind))) w1
             | Some Late \<Rightarrow> (case dk_id kind of
                   Some oid \<Rightarrow> perform (ELateDispute oid (dispute_id_from_payload (dk_payload kind))) w1
                 | None \<Rightarrow> w1)
             | None \<Rightarrow> w1))"

definition rebuild_never_written ::
  "daemon_kind \<Rightarrow> string \<Rightarrow> u32 \<Rightarrow> i64 \<Rightarrow> row_state \<Rightarrow> world \<Rightarrow> row_state \<times> world" where
  "rebuild_never_written kind trade_pk trade_index event_ts rs w = (case (rs, dk_id kind) of
      (RowNeverWritten, Some oid) \<Rightarrow>
        if status_write_blocked oid (dk_action kind) event_ts w then (rs, w)
        else (case rebuild_trade_from_dm kind oid trade_pk trade_index event_ts w of
            (Some t, w1) \<Rightarrow> (RowExists t, w1) | (None, w1) \<Rightarrow> (rs, w1))
    | _ \<Rightarrow> (rs, w))"

section \<open>The arms\<close>

definition arm_new_order :: "daemon_kind \<Rightarrow> string \<Rightarrow> u32 \<Rightarrow> i64 \<Rightarrow> row_state \<Rightarrow> world \<Rightarrow> world" where
  "arm_new_order kind trade_pk trade_index event_ts rs w = (case dk_id kind of
      None \<Rightarrow> w
    | Some daemon_id \<Rightarrow> (case take_matching_request trade_pk (dk_request_id kind) (w_pending w) of
        (Some pending, p') \<Rightarrow>
          let w1 = store_trade_key_index daemon_id (pr_trade_index pending) (w\<lparr>w_pending := p'\<rparr>) in
          (case pr_kind pending of
             KCreate local_uuid with_bond \<Rightarrow>
               if with_bond
               then snd (confirm_maker_bond daemon_id rs trade_index (Some (kind, trade_pk)) w1)
               else (case pr_tx pending of
                   Some tx \<Rightarrow> wake tx (Confirmed daemon_id) w1
                 | None \<Rightarrow> persist_late_create_confirmation daemon_id kind trade_pk
                             (pr_trade_index pending) event_ts w1)
           | _ \<Rightarrow> w1)
      | (None, _) \<Rightarrow>
          let (confirmed, w1) = confirm_maker_bond daemon_id rs trade_index (Some (kind, trade_pk)) w in
          if confirmed then w1
          else let (adopted, w2) = adopt_range_remainder daemon_id kind trade_pk trade_index event_ts w1 in
            if adopted then w2
            else if rs \<noteq> RowWiped then snd (resync_republished_maker_order daemon_id kind event_ts w2)
            else w2))"

definition arm_restore_session :: "daemon_kind \<Rightarrow> string \<Rightarrow> i64 \<Rightarrow> world \<Rightarrow> world" where
  "arm_restore_session kind trade_pk event_ts w = (case dk_payload kind of
      Some (P_RestoreData info) \<Rightarrow>
        (case take_matching_restore trade_pk event_ts (w_pending w) of
           (Some pending, p') \<Rightarrow>
             let w1 = w\<lparr>w_pending := p'\<rparr> in
             (case pr_tx pending of Some tx \<Rightarrow> wake tx (Restored info) w1 | None \<Rightarrow> w1)
         | (None, _) \<Rightarrow> w)
    | _ \<Rightarrow> w)"

definition keep_canceled_history :: "string \<Rightarrow> i64 \<Rightarrow> row_state \<Rightarrow> world \<Rightarrow> world" where
  "keep_canceled_history oid event_ts rs w =
     (let w1 = note_bond_released rs oid (on_book (forget_wire_order oid) w);
          (changed, w2) = sync_or_emit oid rs Canceled None None w1
      in if changed then emit_trade_update_at oid Canceled None event_ts w2 else w2)"

definition wipe_canceled :: "string \<Rightarrow> i64 \<Rightarrow> trade_info \<Rightarrow> world \<Rightarrow> world" where
  "wipe_canceled oid event_ts trade w =
     (let (reason, w1) = (if oi_status (ti_order trade) = WaitingTakerBond
            then bond_cancel_reason oid w else (None, w));
          w2 = snd (wipe_never_active_trade oid (\<not> oi_is_mine (ti_order trade)) event_ts
                      (ti_trade_key_index trade) w1)
      in emit_trade_update_at oid Canceled reason event_ts w2)"

definition arm_canceled :: "daemon_kind \<Rightarrow> i64 \<Rightarrow> row_state \<Rightarrow> world \<Rightarrow> world" where
  "arm_canceled kind event_ts rs w = (case dk_id kind of
      None \<Rightarrow> w
    | Some oid \<Rightarrow>
        if status_arm_gate rs then w
        else if status_write_blocked oid (dk_action kind) event_ts w then w
        else let w1 = record_status_event oid event_ts w in
          (case rs of
             RowExists trade \<Rightarrow>
               if cancellation_wipes_history (oi_status (ti_order trade))
               then wipe_canceled oid event_ts trade w1
               else keep_canceled_history oid event_ts rs w1
           | RowNeverWritten \<Rightarrow> emit_trade_update_at oid Canceled None event_ts w1
           | _ \<Rightarrow> keep_canceled_history oid event_ts rs w1))"

definition arm_escrow_locked :: "daemon_kind \<Rightarrow> i64 \<Rightarrow> row_state \<Rightarrow> world \<Rightarrow> world" where
  "arm_escrow_locked kind event_ts rs w = (case dk_id kind of
      None \<Rightarrow> w
    | Some oid \<Rightarrow>
        if status_arm_gate rs then w
        else if status_write_blocked oid (dk_action kind) event_ts w then w
        else let w1 = note_bond_locked rs oid (record_status_event oid event_ts w) in
          (case dk_payload kind of
             Some (P_Order so) \<Rightarrow>
               (case opt_or (Option.bind (so_status so) map_core_status) (status_for_action (dk_action kind)) of
                  Some new_status \<Rightarrow>
                    let w2 = on_book (update_order_status oid new_status) w1;
                        (changed, w3) = sync_or_emit oid rs new_status None None w2
                    in if changed then emit_trade_update_at oid new_status None event_ts w3 else w3
                | None \<Rightarrow> w1)
           | _ \<Rightarrow> w1))"

definition persist_peer_reputation :: "string \<Rightarrow> f64 \<Rightarrow> u32 \<Rightarrow> u32 \<Rightarrow> i64 \<Rightarrow> world \<Rightarrow> world" where
  "persist_peer_reputation order_id rating reviews days occurred_at w =
     (let w1 = db_try CUpdateReputation (update_trade_peer_reputation order_id rating reviews days) w in
      case book_order order_id w1 of
        Some info \<Rightarrow> emit_trade_update_at order_id (oi_status info) None occurred_at w1
      | None \<Rightarrow> w1)"

definition arm_add_invoice :: "daemon_kind \<Rightarrow> i64 \<Rightarrow> row_state \<Rightarrow> world \<Rightarrow> world" where
  "arm_add_invoice kind event_ts rs w = (case dk_id kind of
      None \<Rightarrow> w
    | Some oid \<Rightarrow>
        if status_arm_gate rs then w
        else let w1 = note_bond_locked rs oid w in
          (case add_invoice_sync (dk_payload kind) of
             None \<Rightarrow> (case peer_reputation (dk_payload kind) of
                 Some (rating, reviews, days) \<Rightarrow> persist_peer_reputation oid rating reviews days event_ts w1
               | None \<Rightarrow> w1)
           | Some (new_status, amount) \<Rightarrow>
               if status_write_blocked oid (dk_action kind) event_ts w1 then w1
               else let w2 = record_invoice_step_start oid (status_debug new_status) event_ts
                               (record_status_event oid event_ts w1);
                        w3 = (case book_order oid w2 of
                            Some info \<Rightarrow> on_book (upsert_order (info\<lparr>oi_status := new_status,
                                oi_amount_sats := (if amount \<noteq> None then amount else oi_amount_sats info)\<rparr>)) w2
                          | None \<Rightarrow> w2);
                        (changed, w4) = sync_or_emit oid rs new_status None amount w3
                    in if changed then emit_trade_update_at oid new_status None event_ts w4 else w4))"

definition pay_invoice_amount :: "small_order option \<Rightarrow> i64 option \<Rightarrow> u64 option" where
  "pay_invoice_amount so amt =
     opt_or (Option.bind amt u64_of_i64) (Option.bind so (\<lambda>o'. positive_sats (so_amount o')))"

definition arm_pay_invoice :: "daemon_kind \<Rightarrow> i64 \<Rightarrow> row_state \<Rightarrow> world \<Rightarrow> world" where
  "arm_pay_invoice kind event_ts rs w = (case dk_id kind of
      None \<Rightarrow> w
    | Some oid \<Rightarrow>
        if status_arm_gate rs then w
        else let w1 = note_bond_locked rs oid w in
          (case dk_payload kind of
             Some (P_PaymentRequest so bolt11 amt) \<Rightarrow>
               if status_write_blocked oid (dk_action kind) event_ts w1 then w1
               else let w2 = record_invoice_step_start oid ''WaitingPayment'' event_ts
                               (record_status_event oid event_ts w1);
                        w3 = on_book (update_order_status oid WaitingPayment) w2;
                        (changed, w4) = sync_or_emit oid rs WaitingPayment (Some bolt11)
                                          (pay_invoice_amount so amt) w3
                    in if changed then emit_trade_update_at oid WaitingPayment None event_ts w4 else w4
           | p \<Rightarrow> (case peer_reputation p of
                 Some (rating, reviews, days) \<Rightarrow> persist_peer_reputation oid rating reviews days event_ts w1
               | None \<Rightarrow> w1)))"

definition arm_status_update :: "daemon_kind \<Rightarrow> i64 \<Rightarrow> row_state \<Rightarrow> world \<Rightarrow> world" where
  "arm_status_update kind event_ts rs w = (case dk_id kind of
      None \<Rightarrow> w
    | Some oid \<Rightarrow>
        if status_arm_gate rs then w
        else (case status_for_action (dk_action kind) of
            None \<Rightarrow> w
          | Some status \<Rightarrow>
              if status_write_blocked oid (dk_action kind) event_ts w then w
              else let w1 = record_status_event oid event_ts w;
                       w2 = (if is_hard_terminal status \<or> status = SettledHoldInvoice
                             then note_bond_released rs oid w1 else note_bond_locked rs oid w1);
                       w3 = on_book (update_order_status oid status) w2;
                       (changed, w4) = sync_or_emit oid rs status None None w3;
                       w5 = (if is_hard_terminal status then on_book (forget_wire_order oid) w4 else w4);
                       w6 = (if changed then emit_trade_update_at oid status None event_ts w5 else w5)
                   in if status = SettledHoldInvoice then perform (EConfirmPayout oid) w6 else w6))"

definition arm_cooperative_cancel :: "daemon_kind \<Rightarrow> i64 \<Rightarrow> row_state \<Rightarrow> world \<Rightarrow> world" where
  "arm_cooperative_cancel kind event_ts rs w = (case dk_id kind of
      None \<Rightarrow> w
    | Some oid \<Rightarrow>
        if status_arm_gate rs then w
        else if status_write_blocked oid (dk_action kind) event_ts w then w
        else let w1 = record_status_event oid event_ts w;
                 (st, reason) = (if dk_action kind = A_CooperativeCancelInitiatedByYou
                   then (CoopRequestedByMe, CooperativeCancelRequestedByMe)
                   else (CoopRequestedByPeer, CooperativeCancelRequestedByPeer));
                 w2 = db_try CCoopCancel (set_cooperative_cancel_state oid st) w1;
                 status = (case current_local_status oid w2 of Some s \<Rightarrow> s | None \<Rightarrow> Active)
             in emit_trade_update_at oid status (Some reason) event_ts w2)"

definition admin_pubkey_from_payload :: "core_payload option \<Rightarrow> string option" where
  "admin_pubkey_from_payload p = (case p of Some (P_Peer peer) \<Rightarrow> Some (cp_pubkey peer) | _ \<Rightarrow> None)"

definition arm_admin_took_dispute :: "daemon_kind \<Rightarrow> world \<Rightarrow> world" where
  "arm_admin_took_dispute kind w = (case dk_id kind of
      None \<Rightarrow> w
    | Some oid \<Rightarrow> (case admin_pubkey_from_payload (dk_payload kind) of
        Some pk \<Rightarrow> perform (EAdminTookDispute oid pk) w | None \<Rightarrow> w))"

definition cant_do_reason :: "core_payload option \<Rightarrow> string" where
  "cant_do_reason p = (case p of Some (P_CantDo (Some r)) \<Rightarrow> r | _ \<Rightarrow> ''unknown'')"

definition cant_do_message :: "string \<Rightarrow> string" where
  "cant_do_message reason =
     (if reason = ''OutOfRangeSatsAmount'' then ''Order rejected: sats amount is out of the allowed range.''
      else if reason = ''OutOfRangeFiatAmount'' then ''Order rejected: fiat amount is out of the allowed range.''
      else if reason = ''InvalidAmount'' then ''Order rejected: invalid amount.''
      else if reason = ''InvalidInvoice'' then ''Order rejected: invalid Lightning invoice.''
      else if reason = ''IsNotYourOrder'' then ''Order rejected: this order does not belong to you.''
      else if reason = ''NotAllowedByStatus'' then ''Action rejected: not allowed in the current order status.''
      else if reason = ''OrderAlreadyCanceled'' then ''Order is already canceled.''
      else if reason = ''MaintenanceMode'' then ''MaintenanceMode''
      else if reason = invalid_trade_index then invalid_trade_index
      else ''Order rejected by Mostro: '' @ reason)"

definition arm_cant_do :: "daemon_kind \<Rightarrow> string \<Rightarrow> i64 \<Rightarrow> world \<Rightarrow> world" where
  "arm_cant_do kind trade_pk event_ts w =
     (let reason = cant_do_reason (dk_payload kind);
          (matched, p') = (case take_matching_restore trade_pk event_ts (w_pending w) of
             (Some p, q) \<Rightarrow> (Some p, q)
           | (None, q) \<Rightarrow> take_matching_request trade_pk (dk_request_id kind) q);
          w1 = w\<lparr>w_pending := p'\<rparr>
      in (case Option.bind matched pr_tx of
            Some tx \<Rightarrow> wake tx (Rejected reason (cant_do_message reason)) w1
          | None \<Rightarrow> w1))"

definition arm_add_bond_invoice :: "'k crypto \<Rightarrow> daemon_kind \<Rightarrow> string \<Rightarrow> u32 \<Rightarrow> world \<Rightarrow> world" where
  "arm_add_bond_invoice cr kind sender trade_index w = (case (dk_id kind, dk_payload kind) of
      (Some oid, Some (P_BondPayoutRequest so slashed_at)) \<Rightarrow>
        (case u64_of_i64 (so_amount so) of
           Some v \<Rightarrow>
             if v > 0
             then w\<lparr>w_claims := apply_payout_request (w_claim_faults w) (w_now w) (cr_claim_window cr sender)
                 \<lparr>pq_order_id = oid, pq_node_pubkey = sender, pq_trade_index = Some trade_index,
                  pq_amount_sats = v, pq_slashed_at = slashed_at, pq_fiat_code = so_fiat_code so,
                  pq_fiat_amount = (if so_fiat_amount so \<noteq> 0 then Some (f64_of_i64 (so_fiat_amount so)) else None),
                  pq_payment_method = so_payment_method so\<rparr> (w_claims w)\<rparr>
             else w
         | None \<Rightarrow> w)
    | _ \<Rightarrow> w)"

definition arm_claim_ack :: "daemon_kind \<Rightarrow> string \<Rightarrow> world \<Rightarrow> world" where
  "arm_claim_ack kind sender w = (case dk_id kind of
      None \<Rightarrow> w
    | Some oid \<Rightarrow>
        let phase = (if dk_action kind = A_BondInvoiceAccepted then ClaimAcknowledged else ClaimCompleted)
        in w\<lparr>w_claims := advance_claim_phase (w_claim_faults w) (w_now w) sender oid phase (w_claims w)\<rparr>)"

definition arm_bond_slashed :: "daemon_kind \<Rightarrow> string \<Rightarrow> world \<Rightarrow> world" where
  "arm_bond_slashed kind event_id w = (case (dk_id kind, dk_payload kind) of
      (Some oid, Some (P_Order so)) \<Rightarrow> (case u64_of_i64 (so_amount so) of
          None \<Rightarrow> w
        | Some amount \<Rightarrow>
            let trade = (case read_trade oid w of Inr t \<Rightarrow> t | Inl _ \<Rightarrow> None);
                w1 = (case Option.bind trade ti_bond of
                    Some bond \<Rightarrow> if bi_state bond \<noteq> BondSlashed
                      then persist_bond oid (bond\<lparr>bi_state := BondSlashed\<rparr>) w else w
                  | None \<Rightarrow> w)
            in perform (EBondSlashed \<lparr>be_event_id = event_id, be_order_id = oid, be_amount_sats = amount,
                  be_fiat_code = so_fiat_code so, be_fiat_amount = so_fiat_amount so,
                  be_payment_method = so_payment_method so,
                  be_is_dispute = infer_slash_cause_is_dispute
                    (map_option (\<lambda>t. oi_status (ti_order t)) trade)\<rparr>) w1)
    | _ \<Rightarrow> w)"

definition refresh_taker_bond ::
  "'k crypto \<Rightarrow> string \<Rightarrow> trade_info \<Rightarrow> core_payload option \<Rightarrow> i64 \<Rightarrow> world \<Rightarrow> world" where
  "refresh_taker_bond cr oid trade payload event_ts w = (case payload of
      Some (P_PaymentRequest so invoice amount) \<Rightarrow>
        let amount_sats = (case opt_or (Option.bind amount u64_of_i64)
               (opt_or (Option.bind so (\<lambda>o'. u64_of_i64 (so_amount o'))) (map_option bi_amount_sats (ti_bond trade)))
               of Some v \<Rightarrow> v | None \<Rightarrow> 0);
            bond = bond_requested cr BondTaker \<lparr>br_amount_sats = amount_sats, br_invoice = invoice\<rparr> event_ts
        in if (case ti_bond trade of None \<Rightarrow> False
               | Some existing \<Rightarrow> bi_invoice existing = Some invoice \<or> bond_refresh_is_stale existing event_ts)
           then w
           else emit_trade_update_at oid WaitingTakerBond None event_ts (persist_bond oid bond w)
    | _ \<Rightarrow> w)"

definition arm_pay_bond_invoice ::
  "'k crypto \<Rightarrow> daemon_kind \<Rightarrow> string \<Rightarrow> i64 \<Rightarrow> row_state \<Rightarrow> world \<Rightarrow> world" where
  "arm_pay_bond_invoice cr kind trade_pk event_ts rs w = (case dk_id kind of
      None \<Rightarrow> w
    | Some oid \<Rightarrow> (case claim_create_bond trade_pk (dk_request_id kind) (w_pending w) of
        (Some claim, p') \<Rightarrow> handle_create_bond_reply cr oid kind trade_pk claim event_ts (w\<lparr>w_pending := p'\<rparr>)
      | (None, _) \<Rightarrow> (case rs_trade rs of
          None \<Rightarrow> w
        | Some trade \<Rightarrow>
            if oi_status (ti_order trade) \<noteq> WaitingTakerBond then w
            else refresh_taker_bond cr oid trade (dk_payload kind) event_ts w)))"

text \<open>The match on the action; an action without an arm of its own does nothing.\<close>

definition dispatch_arm :: "'k crypto \<Rightarrow> daemon_message \<Rightarrow> row_state \<Rightarrow> world \<Rightarrow> world" where
  "dispatch_arm cr m rs =
     (let kind = dm_kind m; ts = dm_created_at m; pk = dm_trade_pk m; idx = dm_trade_index m in
      case dk_action kind of
        A_NewOrder \<Rightarrow> arm_new_order kind pk idx ts rs
      | A_RestoreSession \<Rightarrow> arm_restore_session kind pk ts
      | A_Canceled \<Rightarrow> arm_canceled kind ts rs
      | A_BuyerTookOrder \<Rightarrow> arm_escrow_locked kind ts rs
      | A_HoldInvoicePaymentAccepted \<Rightarrow> arm_escrow_locked kind ts rs
      | A_AddInvoice \<Rightarrow> arm_add_invoice kind ts rs
      | A_PayInvoice \<Rightarrow> arm_pay_invoice kind ts rs
      | A_WaitingSellerToPay \<Rightarrow> arm_status_update kind ts rs
      | A_WaitingBuyerInvoice \<Rightarrow> arm_status_update kind ts rs
      | A_BuyerInvoiceAccepted \<Rightarrow> arm_status_update kind ts rs
      | A_FiatSentOk \<Rightarrow> arm_status_update kind ts rs
      | A_HoldInvoicePaymentSettled \<Rightarrow> arm_status_update kind ts rs
      | A_HoldInvoicePaymentCanceled \<Rightarrow> arm_status_update kind ts rs
      | A_Released \<Rightarrow> arm_status_update kind ts rs
      | A_PurchaseCompleted \<Rightarrow> arm_status_update kind ts rs
      | A_CooperativeCancelAccepted \<Rightarrow> arm_status_update kind ts rs
      | A_DisputeInitiatedByYou \<Rightarrow> arm_status_update kind ts rs
      | A_DisputeInitiatedByPeer \<Rightarrow> arm_status_update kind ts rs
      | A_AdminSettled \<Rightarrow> arm_status_update kind ts rs
      | A_AdminCanceled \<Rightarrow> arm_status_update kind ts rs
      | A_InvoiceUpdated \<Rightarrow> arm_status_update kind ts rs
      | A_Rate \<Rightarrow> arm_status_update kind ts rs
      | A_RateUser \<Rightarrow> arm_status_update kind ts rs
      | A_RateReceived \<Rightarrow> arm_status_update kind ts rs
      | A_PaymentFailed \<Rightarrow> arm_status_update kind ts rs
      | A_CooperativeCancelInitiatedByYou \<Rightarrow> arm_cooperative_cancel kind ts rs
      | A_CooperativeCancelInitiatedByPeer \<Rightarrow> arm_cooperative_cancel kind ts rs
      | A_AdminTookDispute \<Rightarrow> arm_admin_took_dispute kind
      | A_CantDo \<Rightarrow> arm_cant_do kind pk ts
      | A_AddBondInvoice \<Rightarrow> arm_add_bond_invoice cr kind (dm_sender m) idx
      | A_BondInvoiceAccepted \<Rightarrow> arm_claim_ack kind (dm_sender m)
      | A_BondPayoutCompleted \<Rightarrow> arm_claim_ack kind (dm_sender m)
      | A_BondSlashed \<Rightarrow> arm_bond_slashed kind (dm_event_id m)
      | A_PayBondInvoice \<Rightarrow> arm_pay_bond_invoice cr kind pk ts rs
      | _ \<Rightarrow> (\<lambda>w. w))"

section \<open>The dispatcher\<close>

text \<open>From the classification of the row on.\<close>

definition dispatch_classified :: "'k crypto \<Rightarrow> daemon_message \<Rightarrow> world \<Rightarrow> world" where
  "dispatch_classified cr m w =
     (let kind = dm_kind m; action = dk_action kind; pk = dm_trade_pk m;
          rs = (case dk_id kind of Some oid \<Rightarrow> trade_row_state oid (dm_trade_index m) w | None \<Rightarrow> RowUnknown);
          w1 = (case dk_id kind of
              Some oid \<Rightarrow> if action \<noteq> A_BondSlashed \<and> rs \<noteq> RowWiped
                then maybe_capture_peer_reveal cr oid action (dk_payload kind) (dm_trade_index m) w else w
            | None \<Rightarrow> w);
          (consumed, w2) = (if action \<noteq> A_CantDo then intercept_take kind pk w1 else (False, w1))
      in if consumed then w2
         else let w3 = (if action \<noteq> A_CantDo
                then accept_dispute kind pk
                       (acknowledge (take_matching_add_invoice pk (dk_request_id kind))
                         (acknowledge_claim_submit kind pk w2))
                else w2);
              (rs', w4) = rebuild_never_written kind pk (dm_trade_index m) (dm_created_at m) rs w3
           in dispatch_arm cr m rs' w4)"

definition dispatch_mostro_message :: "'k crypto \<Rightarrow> daemon_message \<Rightarrow> world \<Rightarrow> world" where
  "dispatch_mostro_message cr m w =
     (if \<not> sender_accepted cr m w then w
      else if \<not> dm_valid m then w
      else (case dk_id (dm_kind m) of
          None \<Rightarrow> dispatch_classified cr m w
        | Some oid \<Rightarrow>
            let (current, w1) = generation_gate (dk_action (dm_kind m)) oid (dm_trade_index m) w in
            if \<not> current then w1
            else dispatch_classified cr m (reconcile_order_id oid (dm_trade_pk m) (dm_trade_index m) w1)))"

end
