(* ===== verification/Row_Lifecycle.thy ===== *)
theory Row_Lifecycle
  imports Dispatch
begin

text \<open>
  What a daemon message may do to the stored state of its order, as an abstract specification: a
  step relation \<open>row_move\<close> on the tables, one rule per kind of write, each with the guard under
  which it is allowed. It knows nothing of the arms, the waiters or the order book. The theory
  \<open>Dispatch_Refinement\<close> shows that the dispatcher only ever makes such moves; here is what
  follows for every sequence of them.

  \<open>a\<close>, \<open>ts\<close>, \<open>idx\<close> and \<open>i\<close> are the action of the message, its timestamp, the index of the key
  it arrived on and its order.
\<close>

definition cursor_of :: "string \<Rightarrow> trade_db \<Rightarrow> i64 option" where
  "cursor_of i db = Option.bind (get_setting (status_cursor_key i) db) parse_i64"

definition covered :: "string \<Rightarrow> u32 \<Rightarrow> trade_db \<Rightarrow> bool" where
  "covered i idx db \<longleftrightarrow> (case get_setting (trade_wiped_key i) db of
     Some v \<Rightarrow> tombstone_covers v idx | None \<Rightarrow> False)"

definition status_of :: "string \<Rightarrow> trade_db \<Rightarrow> order_status option" where
  "status_of i db = map_option (\<lambda>t. oi_status (ti_order t)) (get_trade_by_order_id i db)"

definition not_older :: "i64 \<Rightarrow> string \<Rightarrow> trade_db \<Rightarrow> bool" where
  "not_older ts i db \<longleftrightarrow> (case cursor_of i db of Some c \<Rightarrow> c \<le> ts | None \<Rightarrow> True)"

definition may_become :: "core_action \<Rightarrow> order_status \<Rightarrow> order_status \<Rightarrow> bool" where
  "may_become a st s \<longleftrightarrow>
     \<not> is_hard_terminal st \<or> (admin_verdict_refines st a \<and> status_for_action a = Some s)"

text \<open>An update that touches neither the identity nor the status of a row.\<close>

definition annotates :: "(trade_info \<Rightarrow> trade_info) \<Rightarrow> bool" where
  "annotates f \<longleftrightarrow> (\<forall>r. ti_id (f r) = ti_id r \<and> order_of (f r) = order_of r \<and>
     oi_status (ti_order (f r)) = oi_status (ti_order r) \<and>
     ti_trade_key_index (f r) = ti_trade_key_index r)"

inductive row_move :: "core_action \<Rightarrow> i64 \<Rightarrow> u32 \<Rightarrow> string \<Rightarrow> trade_db \<Rightarrow> trade_db \<Rightarrow> bool"
  for a :: core_action and ts :: i64 and idx :: u32 and i :: string where
  rm_cursor: "is_i64 ts \<Longrightarrow> (case cursor_of i db of Some c \<Rightarrow> c < ts | None \<Rightarrow> True) \<Longrightarrow>
    row_move a ts idx i db (set_setting (status_cursor_key i) (int_to_string ts) db)"
| rm_step: "row_move a ts idx i db (set_setting (invoice_step_start_key i) v db)"
| rm_key: "row_move a ts idx i db (save_trade_key i n db)"
| rm_annotate: "annotates f \<Longrightarrow> row_move a ts idx i db (update_rows i f db)"
| rm_status: "status_of i db = Some st \<Longrightarrow> may_become a st s \<Longrightarrow> not_older ts i db \<Longrightarrow>
    row_move a ts idx i db (update_trade_fields i (Some s) inv' amt db)"
| rm_nothing: "status_of i db = None \<Longrightarrow> row_move a ts idx i db (update_trade_fields i s inv' amt db)"
| rm_lock: "status_of i db = Some WaitingMakerBond \<Longrightarrow> a = A_NewOrder \<Longrightarrow>
    row_move a ts idx i db (update_trade_fields i (Some Pending) None None db)"
| rm_wipe: "get_trade_by_order_id i db = Some t \<Longrightarrow> cancellation_wipes_history (oi_status (ti_order t)) \<Longrightarrow>
    a = A_Canceled \<Longrightarrow> not_older ts i db \<Longrightarrow>
    row_move a ts idx i db (set_setting (trade_wiped_key i) (tombstone_value ts (ti_trade_key_index t))
      (delete_trade_by_order_id i db))"
| rm_create: "get_trade_by_order_id i db = None \<Longrightarrow> \<not> covered i idx db \<Longrightarrow> not_older ts i db \<Longrightarrow>
    ti_id t = i \<Longrightarrow> order_of t = i \<Longrightarrow> ti_trade_key_index t = idx \<Longrightarrow>
    row_move a ts idx i db (save_trade t (delete_setting (trade_wiped_key i) db))"
| rm_fill: "get_trade_by_order_id i db = Some t \<Longrightarrow> oi_status (ti_order t) = WaitingMakerBond \<Longrightarrow>
    a = A_NewOrder \<Longrightarrow> ti_id t' = ti_id t \<Longrightarrow> order_of t' = i \<Longrightarrow>
    oi_status (ti_order t') = WaitingMakerBond \<Longrightarrow> ti_trade_key_index t' = ti_trade_key_index t \<Longrightarrow>
    row_move a ts idx i db (save_trade t' (delete_setting (trade_wiped_key i) db))"

inductive_cases row_moveE: "row_move a ts idx i db db'"

abbreviation row_moves :: "core_action \<Rightarrow> i64 \<Rightarrow> u32 \<Rightarrow> string \<Rightarrow> trade_db \<Rightarrow> trade_db \<Rightarrow> bool" where
  "row_moves a ts idx i \<equiv> (row_move a ts idx i)\<^sup>*\<^sup>*"

section \<open>The shape of the tables\<close>

text \<open>
  The primary key of the trade rows, one row per order, and row ids that are no other order's id
  (a row is created under a fresh UUID or under its own order's id). \<open>ids\<close> are the ids of orders.
\<close>

definition tables_ok :: "string set \<Rightarrow> trade_db \<Rightarrow> bool" where
  "tables_ok ids db \<longleftrightarrow> distinct (map ti_id (td_rows db)) \<and> distinct (map order_of (td_rows db)) \<and>
     (\<forall>r \<in> set (td_rows db). ti_id r = order_of r \<or> ti_id r \<notin> ids)"

lemma get_trade_mem: "get_trade_by_order_id i db = Some t \<Longrightarrow> t \<in> set (td_rows db) \<and> order_of t = i"
  by (auto simp: get_trade_by_order_id_def find_Some_iff in_set_conv_nth)

lemma get_trade_None: "get_trade_by_order_id i db = None \<longleftrightarrow> (\<forall>r \<in> set (td_rows db). order_of r \<noteq> i)"
  by (auto simp: get_trade_by_order_id_def find_None_iff)

lemma get_trade_Some_iff:
  assumes "tables_ok ids db"
  shows "get_trade_by_order_id i db = Some t \<longleftrightarrow> t \<in> set (td_rows db) \<and> order_of t = i"
proof
  assume t: "t \<in> set (td_rows db) \<and> order_of t = i"
  then obtain u where u: "get_trade_by_order_id i db = Some u"
    using get_trade_None [of i db] by fastforce
  with get_trade_mem have "u \<in> set (td_rows db)" "order_of u = i" by auto
  with t assms have "u = t" by (auto simp: tables_ok_def distinct_map inj_on_def)
  with u show "get_trade_by_order_id i db = Some t" by simp
qed (use get_trade_mem in auto)

lemma update_rows_maps:
  assumes "\<And>r. ti_id (f r) = ti_id r" and "\<And>r. order_of (f r) = order_of r"
  shows "map ti_id (td_rows (update_rows i f db)) = map ti_id (td_rows db)"
    and "map order_of (td_rows (update_rows i f db)) = map order_of (td_rows db)"
  using assms by (simp_all add: update_rows_def o_def cong: map_cong)

lemma tables_ok_update:
  assumes "tables_ok ids db" and f: "\<And>r. ti_id (f r) = ti_id r" "\<And>r. order_of (f r) = order_of r"
  shows "tables_ok ids (update_rows i f db)"
proof -
  have "ti_id r = order_of r \<or> ti_id r \<notin> ids" if r: "r \<in> set (td_rows (update_rows i f db))" for r
  proof -
    obtain r0 where "r0 \<in> set (td_rows db)" "r = (if order_of r0 = i then f r0 else r0)"
      using r by (auto simp: update_rows_def)
    then show ?thesis using assms by (auto simp: tables_ok_def)
  qed
  then show ?thesis
    using assms(1) update_rows_maps [of f i db, OF f] by (simp add: tables_ok_def)
qed

lemma save_trade_rows: "td_rows (save_trade t db) = filter (\<lambda>r. ti_id r \<noteq> ti_id t) (td_rows db) @ [t]"
  by (simp add: save_trade_def)

text \<open>A saved row takes the place of the order's row, if there is one, and of nothing else.\<close>

lemma tables_ok_save:
  assumes ok: "tables_ok ids db" and own: "\<And>r. r \<in> set (td_rows db) \<Longrightarrow> order_of r = order_of t \<Longrightarrow> ti_id r = ti_id t"
    and ids: "ti_id t = order_of t \<or> ti_id t \<notin> ids"
  shows "tables_ok ids (save_trade t db)"
proof -
  let ?rows = "filter (\<lambda>r. ti_id r \<noteq> ti_id t) (td_rows db)"
  have "distinct (map ti_id ?rows)" "distinct (map order_of ?rows)"
    using ok by (auto simp: tables_ok_def intro: distinct_map_filter)
  moreover have "ti_id t \<notin> ti_id ` set ?rows" "order_of t \<notin> order_of ` set ?rows"
    using own by auto
  ultimately show ?thesis
    using ok ids unfolding tables_ok_def save_trade_rows by auto
qed

lemma get_save:
  assumes "\<And>r. r \<in> set (td_rows db) \<Longrightarrow> order_of r = order_of t \<Longrightarrow> ti_id r = ti_id t"
    and "\<And>r. r \<in> set (td_rows db) \<Longrightarrow> ti_id r = ti_id t \<Longrightarrow> order_of r = order_of t"
  shows "get_trade_by_order_id k (save_trade t db) = (if k = order_of t then Some t else get_trade_by_order_id k db)"
proof -
  have "find (\<lambda>r. order_of r = k) (filter (\<lambda>r. ti_id r \<noteq> ti_id t) rows @ [t]) =
      (if k = order_of t then Some t else find (\<lambda>r. order_of r = k) rows)"
    if "set rows \<subseteq> set (td_rows db)" for rows
    using that by (induction rows) (auto dest: assms)
  then show ?thesis by (simp add: get_trade_by_order_id_def save_trade_rows)
qed

text \<open>The two saves of the moves meet those conditions.\<close>

lemma save_own:
  assumes ok: "tables_ok ids db" and i: "i \<in> ids" "order_of t = i"
    and t: "(get_trade_by_order_id i db = None \<and> ti_id t = i) \<or>
      (\<exists>t0. get_trade_by_order_id i db = Some t0 \<and> ti_id t = ti_id t0)"
    and r: "r \<in> set (td_rows db)"
  shows "order_of r = order_of t \<Longrightarrow> ti_id r = ti_id t"
    and "ti_id r = ti_id t \<Longrightarrow> order_of r = order_of t"
proof -
  have mem: "get_trade_by_order_id i db = Some r" if "order_of r = i"
    using get_trade_Some_iff [OF ok] r that by blast
  show "ti_id r = ti_id t" if "order_of r = order_of t" using mem that t i by auto
  show "order_of r = order_of t" if "ti_id r = ti_id t"
    using t
  proof
    assume "get_trade_by_order_id i db = None \<and> ti_id t = i"
    then show ?thesis using ok r i that by (auto simp: tables_ok_def)
  next
    assume "\<exists>t0. get_trade_by_order_id i db = Some t0 \<and> ti_id t = ti_id t0"
    then obtain t0 where "t0 \<in> set (td_rows db)" "order_of t0 = i" "ti_id t = ti_id t0"
      using get_trade_mem by blast
    then show ?thesis using ok r i that by (auto simp: tables_ok_def distinct_map inj_on_def)
  qed
qed

section \<open>What one move does\<close>

lemma annotatesD:
  assumes "annotates f"
  shows "ti_id (f r) = ti_id r" "order_of (f r) = order_of r"
    "oi_status (ti_order (f r)) = oi_status (ti_order r)" "ti_trade_key_index (f r) = ti_trade_key_index r"
  using assms by (auto simp: annotates_def)

lemma delete_tables_ok: "tables_ok ids db \<Longrightarrow> tables_ok ids (delete_trade_by_order_id i db)"
  by (auto simp: tables_ok_def delete_trade_by_order_id_def intro: distinct_map_filter)

lemma setting_tables_ok [simp]:
  "tables_ok ids (set_setting k v db) = tables_ok ids db"
  "tables_ok ids (delete_setting k db) = tables_ok ids db"
  "tables_ok ids (save_trade_key j n db) = tables_ok ids db"
  "tables_ok ids (delete_trade_key j db) = tables_ok ids db"
  by (simp_all add: tables_ok_def)

text \<open>Both saves, on the tables with the tombstone lifted.\<close>

lemma move_save:
  assumes ok: "tables_ok ids db" and i: "i \<in> ids" "order_of t = i"
    and t: "(get_trade_by_order_id i db = None \<and> ti_id t = i) \<or>
      (\<exists>t0. get_trade_by_order_id i db = Some t0 \<and> ti_id t = ti_id t0)"
  shows "tables_ok ids (save_trade t (delete_setting k db))"
    and "get_trade_by_order_id o' (save_trade t (delete_setting k db)) =
      (if o' = i then Some t else get_trade_by_order_id o' db)"
proof -
  let ?db = "delete_setting k db"
  note own = save_own [OF ok i t]
  have id: "ti_id t = order_of t \<or> ti_id t \<notin> ids"
    using t i ok get_trade_mem by (auto simp: tables_ok_def) (metis get_trade_mem)+
  show "tables_ok ids (save_trade t ?db)"
    by (rule tables_ok_save) (use ok own(1) id in auto)
  show "get_trade_by_order_id o' (save_trade t ?db) = (if o' = i then Some t else get_trade_by_order_id o' db)"
    by (subst get_save) (use own i in \<open>auto simp: get_of_setting_writes\<close>)
qed

lemma move_tables_ok:
  assumes "row_move a ts idx i db db'" and ok: "tables_ok ids db" and i: "i \<in> ids"
  shows "tables_ok ids db'"
  using assms(1)
proof cases
  case (rm_annotate f)
  then show ?thesis using ok by (simp add: tables_ok_update annotatesD)
next
  case (rm_create t)
  show ?thesis unfolding rm_create by (rule move_save(1) [OF ok i]) (use rm_create in auto)
next
  case (rm_fill t t')
  show ?thesis unfolding rm_fill by (rule move_save(1) [OF ok i]) (use rm_fill in auto)
qed (use ok in \<open>simp_all add: update_trade_fields_def tables_ok_update delete_tables_ok\<close>)

text \<open>Other orders are left alone.\<close>

lemma move_frame:
  assumes "row_move a ts idx i db db'" and ok: "tables_ok ids db" and i: "i \<in> ids" and o': "o' \<noteq> i"
  shows "get_trade_by_order_id o' db' = get_trade_by_order_id o' db \<and>
    get_setting (status_cursor_key o') db' = get_setting (status_cursor_key o') db \<and>
    get_setting (trade_wiped_key o') db' = get_setting (trade_wiped_key o') db"
  using assms(1)
proof cases
  case (rm_annotate f)
  then show ?thesis using o' by (simp add: store_simps annotatesD)
next
  case (rm_create t)
  have "get_trade_by_order_id o' db' = get_trade_by_order_id o' db"
    unfolding rm_create by (subst move_save(2) [OF ok i]) (use rm_create o' in auto)
  then show ?thesis using rm_create(1) o' by (simp add: store_simps)
next
  case (rm_fill t t')
  have "get_trade_by_order_id o' db' = get_trade_by_order_id o' db"
    unfolding rm_fill by (subst move_save(2) [OF ok i]) (use rm_fill o' in auto)
  then show ?thesis using rm_fill(1) o' by (simp add: store_simps)
qed (use o' in \<open>simp_all add: store_simps\<close>)

text \<open>The status of the message's own order.\<close>

lemma move_status:
  assumes "row_move a ts idx i db db'" and ok: "tables_ok ids db" and i: "i \<in> ids"
  obtains "status_of i db' = status_of i db"
  | (moved) st s where "status_of i db = Some st" "status_of i db' = Some s" "may_become a st s" "not_older ts i db"
  | (locked) "status_of i db = Some WaitingMakerBond" "status_of i db' = Some Pending" "a = A_NewOrder"
  | (wiped) st where "status_of i db = Some st" "cancellation_wipes_history st" "status_of i db' = None"
      "not_older ts i db"
  | (created) "status_of i db = None" "\<not> covered i idx db" "not_older ts i db"
  using assms(1)
proof cases
  case (rm_status st s inv' amt)
  then show ?thesis by (intro moved [of st s]) (auto simp: status_of_def store_simps)
next
  case (rm_lock)
  then show ?thesis by (intro locked) (auto simp: status_of_def store_simps)
next
  case (rm_wipe t)
  then show ?thesis by (intro wiped [of "oi_status (ti_order t)"]) (auto simp: status_of_def store_simps)
next
  case (rm_create t)
  then show ?thesis by (intro created) (auto simp: status_of_def)
next
  case (rm_fill t t')
  have "get_trade_by_order_id i db' = Some t'"
    unfolding rm_fill by (subst move_save(2) [OF ok i]) (use rm_fill in auto)
  then show ?thesis using rm_fill that(1) by (simp add: status_of_def)
next
  case (rm_annotate f)
  then show ?thesis using that(1)
    by (simp add: status_of_def store_simps annotatesD option.map_comp o_def)
qed (use that(1) in \<open>auto simp: status_of_def store_simps\<close>)

lemma move_cursor:
  assumes "row_move a ts idx i db db'"
  shows "cursor_of i db' = cursor_of i db \<or>
    (cursor_of i db' = Some ts \<and> (case cursor_of i db of Some c \<Rightarrow> c < ts | None \<Rightarrow> True))"
  using assms
proof cases
  case rm_cursor
  then show ?thesis by (auto simp: cursor_of_def store_simps parse_i64_to_string)
qed (simp_all add: cursor_of_def store_simps)

section \<open>What every sequence of moves does\<close>

lemma moves_tables_ok:
  "row_moves a ts idx i db db' \<Longrightarrow> tables_ok ids db \<Longrightarrow> i \<in> ids \<Longrightarrow> tables_ok ids db'"
  by (induction rule: rtranclp_induct) (auto intro: move_tables_ok)

lemma moves_frame:
  assumes "row_moves a ts idx i db db'" "tables_ok ids db" "i \<in> ids" "o' \<noteq> i"
  shows "get_trade_by_order_id o' db' = get_trade_by_order_id o' db \<and>
    get_setting (status_cursor_key o') db' = get_setting (status_cursor_key o') db \<and>
    get_setting (trade_wiped_key o') db' = get_setting (trade_wiped_key o') db"
  using assms(1)
proof (induction rule: rtranclp_induct)
  case (step db1 db2)
  then show ?case using move_frame [OF step.hyps(2)] moves_tables_ok [OF step.hyps(1)] assms by metis
qed simp

lemma moves_cursor:
  assumes "row_moves a ts idx i db db'" and "cursor_of i db = Some c"
  shows "\<exists>c' \<ge> c. cursor_of i db' = Some c'"
  using assms(1)
proof (induction rule: rtranclp_induct)
  case (step db1 db2)
  then show ?case using move_cursor [OF step.hyps(2)] by (auto intro: order_trans)
qed (use assms(2) in auto)

definition settled_as :: "order_status \<Rightarrow> order_status \<Rightarrow> bool" where
  "settled_as st s \<longleftrightarrow> s = st \<or> (st = Canceled \<and> s = CanceledByAdmin) \<or> (st = Success \<and> s = SettledByAdmin)"

lemma settled_may_become:
  "is_hard_terminal st \<Longrightarrow> settled_as st s \<Longrightarrow> may_become a s s' \<Longrightarrow> settled_as st s'"
  by (auto simp: settled_as_def may_become_def is_hard_terminal_def admin_verdict_refines_def
      status_for_action_def)

lemma moves_terminal:
  assumes "row_moves a ts idx i db db'" and ok: "tables_ok ids db" and i: "i \<in> ids"
    and st: "status_of i db = Some s0" "is_hard_terminal st" "settled_as st s0"
  shows "\<exists>s. status_of i db' = Some s \<and> settled_as st s"
  using assms(1)
proof (induction rule: rtranclp_induct)
  case (step db1 db2)
  then obtain s1 where s1: "status_of i db1 = Some s1" "settled_as st s1" by auto
  have end': "is_hard_terminal s1" using s1(2) st(2) by (auto simp: settled_as_def is_hard_terminal_def)
  from step.hyps(2) moves_tables_ok [OF step.hyps(1) ok i] i show ?case
    by (cases rule: move_status)
      (use s1 end' settled_may_become [OF st(2)] in \<open>auto simp: is_hard_terminal_def cancellation_wipes_history_def\<close>)
qed (use st in simp)

text \<open>A message older than the cursor moves the status only by locking the maker's bond.\<close>

definition only_locked :: "core_action \<Rightarrow> order_status option \<Rightarrow> order_status option \<Rightarrow> bool" where
  "only_locked a before after \<longleftrightarrow>
     after = before \<or> (a = A_NewOrder \<and> before = Some WaitingMakerBond \<and> after = Some Pending)"

lemma moves_stale:
  assumes "row_moves a ts idx i db db'" and ok: "tables_ok ids db" and i: "i \<in> ids"
    and c: "cursor_of i db = Some c" "ts < c"
  shows "cursor_of i db' = Some c \<and> only_locked a (status_of i db) (status_of i db')"
  using assms(1)
proof (induction rule: rtranclp_induct)
  case (step db1 db2)
  have c2: "cursor_of i db2 = Some c" using move_cursor [OF step.hyps(2)] step.IH c by auto
  from step.hyps(2) moves_tables_ok [OF step.hyps(1) ok i] i
  have "only_locked a (status_of i db) (status_of i db2)"
    by (cases rule: move_status) (use step.IH c in \<open>auto simp: not_older_def only_locked_def\<close>)
  with c2 show ?case by simp
qed (use c in \<open>simp add: only_locked_def\<close>)

text \<open>A wiped row stays away from every message of the generation its tombstone covers.\<close>

lemma moves_wiped:
  assumes "row_moves a ts idx i db db'" and ok: "tables_ok ids db" and i: "i \<in> ids"
    and "get_trade_by_order_id i db = None" and "covered i idx db"
  shows "get_trade_by_order_id i db' = None \<and>
    get_setting (trade_wiped_key i) db' = get_setting (trade_wiped_key i) db"
  using assms(1)
proof (induction rule: rtranclp_induct)
  case (step db1 db2)
  from step.hyps(2) show ?case
    by cases (use step.IH assms(5) in \<open>auto simp: store_simps annotatesD covered_def status_of_def\<close>)
qed (use assms in simp)

end
