(* ===== verification/Dispatch_Refinement.thy ===== *)
theory Dispatch_Refinement
  imports Row_Lifecycle
begin

text \<open>
  The dispatcher refines the lifecycle of \<open>Row_Lifecycle\<close>: while the store answers and no create
  is waiting in the registry (after a restart, when the node's whole history is replayed, it is
  empty), every message changes the tables only by \<open>row_moves\<close> of its own order and only emits
  updates of that order. \<open>leads\<close> is that statement for one stage of the dispatcher; \<open>calm\<close> is a
  stage that in addition leaves the status alone and does not put the message behind the cursor,
  so a guard checked before it still holds after it.
\<close>

definition answers :: "world \<Rightarrow> bool" where
  "answers w \<longleftrightarrow> w_db w \<noteq> None \<and> (\<forall>c. \<not> w_down w c)"

definition no_create :: "pending_map \<Rightarrow> bool" where
  "no_create p \<longleftrightarrow> (\<forall>k r u b. fmlookup p k = Some r \<longrightarrow> pr_kind r \<noteq> KCreate u b)"

definition good :: "world \<Rightarrow> bool" where
  "good w \<longleftrightarrow> answers w \<and> no_create (w_pending w)"

abbreviation tables :: "world \<Rightarrow> trade_db" where
  "tables w \<equiv> the (w_db w)"

definition leads :: "core_action \<Rightarrow> i64 \<Rightarrow> u32 \<Rightarrow> string \<Rightarrow> world \<Rightarrow> world \<Rightarrow> bool" where
  "leads a ts idx i w w' \<longleftrightarrow> good w' \<and> row_moves a ts idx i (tables w) (tables w') \<and>
     (\<exists>us. w_updates w' = w_updates w @ us \<and> (\<forall>u \<in> set us. tu_order_id u = i))"

text \<open>What the moves know of a row, and what a calm stage keeps of an order.\<close>

definition row_core :: "trade_info \<Rightarrow> string \<times> string \<times> order_status \<times> u32" where
  "row_core t = (ti_id t, order_of t, oi_status (ti_order t), ti_trade_key_index t)"

definition core_of :: "string \<Rightarrow> trade_db \<Rightarrow> (string \<times> string \<times> order_status \<times> u32) option \<times> string option" where
  "core_of i db = (map_option row_core (get_trade_by_order_id i db), get_setting (trade_wiped_key i) db)"

definition calm :: "core_action \<Rightarrow> i64 \<Rightarrow> u32 \<Rightarrow> string \<Rightarrow> world \<Rightarrow> world \<Rightarrow> bool" where
  "calm a ts idx i w w' \<longleftrightarrow> leads a ts idx i w w' \<and>
     core_of i (tables w') = core_of i (tables w) \<and>
     (not_older ts i (tables w) \<longrightarrow> not_older ts i (tables w'))"

named_theorems stages \<open>stages of the dispatcher that are calm\<close>

lemma leads_good: "leads a ts idx i w w' \<Longrightarrow> good w'" by (simp add: leads_def)
lemma calm_leads: "calm a ts idx i w w' \<Longrightarrow> leads a ts idx i w w'" by (simp add: calm_def)
lemma calm_good: "calm a ts idx i w w' \<Longrightarrow> good w'" by (simp add: calm_def leads_def)
lemma leads_refl: "good w \<Longrightarrow> leads a ts idx i w w" by (simp add: leads_def)
lemma calm_refl: "good w \<Longrightarrow> calm a ts idx i w w" by (simp add: calm_def leads_refl)

lemma leads_trans:
  assumes "leads a ts idx i w w1" "leads a ts idx i w1 w2"
  shows "leads a ts idx i w w2"
proof -
  have "row_moves a ts idx i (tables w) (tables w2)"
    using assms by (auto simp: leads_def)
  moreover obtain us us' where "w_updates w1 = w_updates w @ us" "\<forall>u \<in> set us. tu_order_id u = i"
    "w_updates w2 = w_updates w1 @ us'" "\<forall>u \<in> set us'. tu_order_id u = i"
    using assms by (auto simp: leads_def)
  ultimately show ?thesis using assms(2) unfolding leads_def
    by (intro conjI exI [of _ "us @ us'"]) auto
qed

lemma calm_trans: "calm a ts idx i w w1 \<Longrightarrow> calm a ts idx i w1 w2 \<Longrightarrow> calm a ts idx i w w2"
  by (auto simp: calm_def intro: leads_trans)

lemma calm_leads_trans: "calm a ts idx i w w1 \<Longrightarrow> leads a ts idx i w1 w2 \<Longrightarrow> leads a ts idx i w w2"
  by (auto simp: calm_def intro: leads_trans)

lemma leads_calm_trans: "leads a ts idx i w w1 \<Longrightarrow> calm a ts idx i w1 w2 \<Longrightarrow> leads a ts idx i w w2"
  by (auto simp: calm_def intro: leads_trans)

text \<open>Chains of calm stages: each is applied to a world that is good.\<close>

lemma calm_chain: "calm a ts idx i w w1 \<Longrightarrow> (good w1 \<Longrightarrow> calm a ts idx i w1 w2) \<Longrightarrow> calm a ts idx i w w2"
  by (blast intro: calm_trans calm_good)

lemma leads_chain: "leads a ts idx i w w1 \<Longrightarrow> (good w1 \<Longrightarrow> calm a ts idx i w1 w2) \<Longrightarrow> leads a ts idx i w w2"
  by (blast intro: leads_calm_trans leads_good)

section \<open>The store when it answers\<close>

lemma answers_read [simp]:
  "good w \<Longrightarrow> db_read c f w = Inr (f (tables w))"
  by (auto simp: good_def answers_def db_read_def)

lemma answers_write:
  "good w \<Longrightarrow> db_write c f w = (Inr (), w\<lparr>w_db := Some (f (tables w))\<rparr>)"
  by (auto simp: good_def answers_def db_write_def)

lemma answers_try: "good w \<Longrightarrow> db_try c f w = w\<lparr>w_db := Some (f (tables w))\<rparr>"
  by (simp add: db_try_def answers_write)

lemma answers_has [simp]: "good w \<Longrightarrow> has_db w"
  by (auto simp: good_def answers_def has_db_def)

lemma answers_trade [simp]: "good w \<Longrightarrow> read_trade i w = Inr (get_trade_by_order_id i (tables w))"
  by (simp add: read_trade_def)

lemma answers_setting [simp]: "good w \<Longrightarrow> read_setting k w = Inr (get_setting k (tables w))"
  by (simp add: read_setting_def)

lemma answers_cursor [simp]: "good w \<Longrightarrow> load_status_cursor i w = cursor_of i (tables w)"
  by (simp add: load_status_cursor_def cursor_of_def split: option.split)

lemma good_db [simp]: "good w \<Longrightarrow> good (w\<lparr>w_db := Some d\<rparr>)"
  by (simp add: good_def answers_def)

lemma good_book [simp]: "good (w\<lparr>w_book := k\<rparr>) \<longleftrightarrow> good w"
  by (simp add: good_def answers_def)

text \<open>A message that is not blocked may write the status.\<close>

lemma not_blocked:
  assumes "good w" "\<not> status_write_blocked i a ts w"
  shows "not_older ts i (tables w)"
    and "status_of i (tables w) = Some st \<Longrightarrow> \<not> is_hard_terminal st \<or> admin_verdict_refines st a"
  using assms by (auto simp: status_write_blocked_def not_older_def status_of_def
      status_sync_blocked_by_terminal_def current_local_status_def split: option.splits if_splits)

section \<open>Single stages\<close>

lemma calm_same:
  assumes "good w" "w_db w' = w_db w" "w_down w' = w_down w" "no_create (w_pending w')"
    "w_updates w' = w_updates w"
  shows "calm a ts idx i w w'"
  using assms by (auto simp: calm_def leads_def good_def answers_def)

lemma calm_db:
  assumes "good w" "row_move a ts idx i (tables w) (f (tables w))"
    and "core_of i (f (tables w)) = core_of i (tables w)"
    and "not_older ts i (tables w) \<Longrightarrow> not_older ts i (f (tables w))"
  shows "calm a ts idx i w (db_try c f w)"
  using assms by (auto simp: calm_def leads_def answers_try)

lemma leads_db:
  assumes "good w" "row_move a ts idx i (tables w) (f (tables w))"
  shows "leads a ts idx i w (db_try c f w)"
  using assms by (auto simp: leads_def answers_try)

lemma good_no_create: "good w \<Longrightarrow> no_create (w_pending w)" by (simp add: good_def)

lemma calm_touch [stages]: "good w \<Longrightarrow> calm a ts idx i w (touch j w)"
  by (rule calm_same) (simp_all add: touch_def on_book_def good_no_create)

lemma calm_book [stages]: "good w \<Longrightarrow> calm a ts idx i w (on_book f w)"
  by (rule calm_same) (simp_all add: on_book_def good_no_create)

lemma calm_perform [stages]: "good w \<Longrightarrow> calm a ts idx i w (perform e w)"
  by (rule calm_same) (simp_all add: perform_def good_no_create)

lemma calm_wake [stages]: "good w \<Longrightarrow> calm a ts idx i w (wake tx r w)"
  by (rule calm_same) (simp_all add: wake_def good_no_create)

lemma calm_sessions [stages]: "good w \<Longrightarrow> calm a ts idx i w (w\<lparr>w_sessions := s\<rparr>)"
  by (rule calm_same) (simp_all add: good_no_create)

lemma calm_claims [stages]: "good w \<Longrightarrow> calm a ts idx i w (w\<lparr>w_claims := s\<rparr>)"
  by (rule calm_same) (simp_all add: good_no_create)

lemma calm_cancels [stages]: "good w \<Longrightarrow> calm a ts idx i w (w\<lparr>w_user_cancels := s\<rparr>)"
  by (rule calm_same) (simp_all add: good_no_create)

lemma calm_pending [stages]: "good w \<Longrightarrow> no_create p \<Longrightarrow> calm a ts idx i w (w\<lparr>w_pending := p\<rparr>)"
  by (rule calm_same) simp_all

lemma calm_keys [stages]:
  "good w \<Longrightarrow> calm a ts idx i w (w\<lparr>w_key_map := m\<rparr>)"
  "good w \<Longrightarrow> calm a ts idx i w (w\<lparr>w_key_misses := x\<rparr>)"
  "good w \<Longrightarrow> calm a ts idx i w (w\<lparr>w_key_map := m, w_key_misses := x\<rparr>)"
  by (rule calm_same; simp add: good_no_create)+

lemma calm_emit [stages]: "good w \<Longrightarrow> calm a ts idx i w (emit_trade_update_at i s r t w)"
  by (auto simp: calm_def leads_def good_def answers_def emit_trade_update_at_def Let_def touch_def
      on_book_def perform_def release_finished_trade_subscriptions_def)

lemma row_core_annotates: "annotates f \<Longrightarrow> row_core (f r) = row_core r"
  by (simp add: row_core_def annotatesD)

lemma calm_annotate:
  assumes "good w" "annotates f"
  shows "calm a ts idx i w (db_try c (update_rows i f) w)"
  by (rule calm_db)
     (use assms in \<open>auto simp: core_of_def store_simps annotatesD row_core_annotates option.map_comp comp_def not_older_def
        cursor_of_def intro: rm_annotate\<close>)

lemma annotates_bond [simp]: "annotates (\<lambda>r. r\<lparr>ti_bond := b\<rparr>)"
  and annotates_peer [simp]: "annotates (\<lambda>r. r\<lparr>ti_counterparty_pubkey := p\<rparr>)"
  and annotates_coop [simp]: "annotates (\<lambda>r. r\<lparr>ti_cooperative_cancel_state := c\<rparr>)"
  and annotates_rep [simp]: "annotates (\<lambda>r. r\<lparr>ti_peer_rating := x, ti_peer_reviews := n, ti_peer_days := d\<rparr>)"
  by (simp_all add: annotates_def order_of_def)

lemma calm_persist_bond [stages]:
  assumes "good w"
  shows "calm a ts idx i w (persist_bond i b w)"
proof -
  have "calm a ts idx i w (touch i (db_try CUpdateBond (update_trade_bond i b) w))"
    by (rule calm_chain [OF _ calm_touch]) (simp_all add: assms update_trade_bond_def calm_annotate)
  then show ?thesis using assms by (simp add: persist_bond_def)
qed

lemma calm_coop [stages]: "good w \<Longrightarrow> calm a ts idx i w (db_try c (set_cooperative_cancel_state i st) w)"
  by (simp add: set_cooperative_cancel_state_def calm_annotate)

lemma calm_id: "good w \<Longrightarrow> calm a ts idx i w (db_try c (\<lambda>db. db) w)"
  by (auto simp: calm_def leads_def answers_try)

lemma calm_counterparty [stages]:
  assumes "good w"
  shows "calm a ts idx i w (db_try c (update_trade_counterparty i p) w)"
proof -
  have "update_trade_counterparty i p =
      (if p = [] then (\<lambda>db. db) else update_rows i (\<lambda>r. r\<lparr>ti_counterparty_pubkey := p\<rparr>))"
    by (auto simp: update_trade_counterparty_def fun_eq_iff)
  then show ?thesis using assms by (simp add: calm_annotate calm_id)
qed

lemma calm_reputation [stages]:
  assumes "good w"
  shows "calm a ts idx i w (db_try c (update_trade_peer_reputation i x n d) w)"
proof -
  have "update_trade_peer_reputation i x n d = (if json_number x
      then update_rows i (\<lambda>r. r\<lparr>ti_peer_rating := Some x, ti_peer_reviews := Some n, ti_peer_days := Some d\<rparr>)
      else (\<lambda>db. db))"
    by (auto simp: update_trade_peer_reputation_def fun_eq_iff)
  then show ?thesis using assms by (simp add: calm_annotate calm_id)
qed

lemma calm_save_key [stages]: "good w \<Longrightarrow> calm a ts idx i w (db_try c (save_trade_key i n) w)"
  by (rule calm_db) (auto simp: core_of_def store_simps not_older_def cursor_of_def intro: rm_key)

lemma calm_store_key [stages]: "good w \<Longrightarrow> calm a ts idx i w (store_trade_key_index i n w)"
  unfolding store_trade_key_index_def by (rule calm_chain [OF calm_keys(3) calm_save_key])

lemma calm_lookup [stages]: "good w \<Longrightarrow> calm a ts idx i w (snd (lookup_trade_key_index j w))"
  by (auto simp: lookup_trade_key_index_def calm_refl calm_keys split: option.split)

lemma calm_cursor [stages]:
  assumes "good w" "is_i64 ts"
  shows "calm a ts idx i w (record_status_event i ts w)"
proof -
  have "calm a ts idx i w (db_try c (set_setting (status_cursor_key i) (int_to_string ts)) w)"
    if "\<not> (case cursor_of i (tables w) of Some c \<Rightarrow> c \<ge> ts | None \<Rightarrow> False)" for c
    by (rule calm_db) (use assms that in \<open>auto simp: core_of_def store_simps not_older_def cursor_of_def
        parse_i64_to_string split: option.splits intro!: rm_cursor\<close>)
  then show ?thesis using assms
    by (auto simp: record_status_event_def Let_def calm_refl split: option.splits)
qed

lemma calm_step_start [stages]:
  assumes "good w"
  shows "calm a ts idx i w (record_invoice_step_start i s t w)"
proof -
  have "calm a ts idx i w (db_try c (set_setting (invoice_step_start_key i) v) w)" for c v
    by (rule calm_db) (use assms in \<open>auto simp: core_of_def store_simps not_older_def cursor_of_def
        intro: rm_step\<close>)
  then show ?thesis using assms
    by (auto simp: record_invoice_step_start_def Let_def calm_refl split: option.splits)
qed

lemma calm_bond_notes [stages]:
  "good w \<Longrightarrow> calm a ts idx i w (note_bond_locked rs i w)"
  "good w \<Longrightarrow> calm a ts idx i w (note_bond_released rs i w)"
  by (auto simp: note_bond_locked_def note_bond_released_def calm_refl calm_persist_bond split: option.split)

text \<open>The same stages at the end of a chain that leads on.\<close>

lemma leads_then:
  "leads a ts idx i w w1 \<Longrightarrow> leads a ts idx i w (touch j w1)"
  "leads a ts idx i w w1 \<Longrightarrow> leads a ts idx i w (on_book f w1)"
  "leads a ts idx i w w1 \<Longrightarrow> leads a ts idx i w (perform e w1)"
  "leads a ts idx i w w1 \<Longrightarrow> leads a ts idx i w (w1\<lparr>w_sessions := m\<rparr>)"
  "leads a ts idx i w w1 \<Longrightarrow> leads a ts idx i w (emit_trade_update_at i s r t w1)"
  by (erule leads_chain, erule stages)+

section \<open>Writes of the status\<close>

lemma status_of_core: "status_of i db = map_option (\<lambda>(_, _, s, _). s) (fst (core_of i db))"
  by (simp add: status_of_def core_of_def row_core_def option.map_comp o_def)

lemma calm_core: "calm a ts idx i w w' \<Longrightarrow> core_of i (tables w') = core_of i (tables w)"
  by (simp add: calm_def)

lemma calm_status: "calm a ts idx i w w' \<Longrightarrow> status_of i (tables w') = status_of i (tables w)"
  by (simp add: status_of_core calm_core)

lemma calm_not_older: "calm a ts idx i w w' \<Longrightarrow> not_older ts i (tables w) \<Longrightarrow> not_older ts i (tables w')"
  by (simp add: calm_def)

definition permit :: "core_action \<Rightarrow> i64 \<Rightarrow> string \<Rightarrow> order_status \<Rightarrow> world \<Rightarrow> bool" where
  "permit a ts i s w \<longleftrightarrow> not_older ts i (tables w) \<and>
     (\<forall>st. status_of i (tables w) = Some st \<longrightarrow> may_become a st s)"

lemma calm_permit: "calm a ts idx i w w' \<Longrightarrow> permit a ts i s w \<Longrightarrow> permit a ts i s w'"
  by (simp add: permit_def calm_status calm_not_older)

lemma guard_permit:
  assumes "good w" "\<not> status_write_blocked i a ts w"
    and "a = A_AdminCanceled \<or> a = A_AdminSettled \<Longrightarrow> status_for_action a = Some s"
  shows "permit a ts i s w"
  using not_blocked [OF assms(1,2)] assms(3)
  by (auto simp: permit_def may_become_def admin_verdict_refines_def)

lemma leads_fields:
  assumes "good w" "permit a ts i s w"
  shows "leads a ts idx i w (db_try c (update_trade_fields i (Some s) h amt) w)"
proof (rule leads_db [OF assms(1)])
  show "row_move a ts idx i (tables w) (update_trade_fields i (Some s) h amt (tables w))"
  proof (cases "status_of i (tables w)")
    case (Some st)
    then show ?thesis using assms(2) by (intro rm_status [of _ _ st]) (auto simp: permit_def)
  qed (rule rm_nothing)
qed

lemma leads_sync:
  assumes "good w" "permit a ts i s w"
  shows "leads a ts idx i w (snd (sync_or_emit i rs s h amt w))"
proof -
  have "leads a ts idx i w (touch i (db_try CUpdateFields (update_trade_fields i (Some s) h amt) w))"
    by (rule leads_chain [OF leads_fields calm_touch]) (use assms in auto)
  then show ?thesis using assms(1)
    by (auto simp: sync_or_emit_def sync_trade_fields_if_changed_def leads_refl)
qed

text \<open>\<open>if changed { emit }\<close> after a write of the status.\<close>

lemma leads_sync_emit:
  assumes "good w" "permit a ts i s w"
  shows "leads a ts idx i w (case sync_or_emit i rs s h amt w of (changed, w3) \<Rightarrow>
     if changed then emit_trade_update_at i s r t w3 else w3)"
  using leads_sync [OF assms, where idx = idx and rs = rs and h = h and amt = amt]
  by (cases "sync_or_emit i rs s h amt w") (simp add: leads_then(5))

section \<open>Rows created, wiped and locked\<close>

lemma leads_create:
  assumes "good w" "get_trade_by_order_id i (tables w) = None" "\<not> covered i idx (tables w)"
    and "not_older ts i (tables w)" "ti_id t = i" "order_of t = i" "ti_trade_key_index t = idx"
  shows "leads a ts idx i w (snd (persist_trade_row t w))" and "fst (persist_trade_row t w) = Inr ()"
proof -
  have m: "row_move a ts idx i (tables w) (save_trade t (delete_setting (trade_wiped_key i) (tables w)))"
    by (rule rm_create) (use assms in auto)
  have "leads a ts idx i w (w\<lparr>w_db := Some (save_trade t (delete_setting (trade_wiped_key i) (tables w)))\<rparr>)"
    using assms(1) m by (simp add: leads_def r_into_rtranclp)
  then have l: "leads a ts idx i w (perform EPushReconcile (touch i
      (w\<lparr>w_db := Some (save_trade t (delete_setting (trade_wiped_key i) (tables w)))\<rparr>)))"
    by (rule leads_then(3) [OF leads_then(1)])
  have eq: "persist_trade_row t w = (Inr (), perform EPushReconcile (touch i
      (w\<lparr>w_db := Some (save_trade t (delete_setting (trade_wiped_key i) (tables w)))\<rparr>)))"
    using assms(1,6) by (simp add: persist_trade_row_def Let_def answers_try answers_write)
  show "leads a ts idx i w (snd (persist_trade_row t w))" "fst (persist_trade_row t w) = Inr ()"
    using l by (simp_all add: eq)
qed

lemma book_then_db: "w\<lparr>w_book := b, w_db := d\<rparr> = w\<lparr>w_db := d, w_book := b\<rparr>" for w :: world
  by (cases w) simp

lemma leads_wipe:
  assumes "good w" "get_trade_by_order_id i (tables w) = Some t0"
    and "cancellation_wipes_history (oi_status (ti_order t0))" "not_older ts i (tables w)"
    and "n = ti_trade_key_index t0"
  shows "leads A_Canceled ts idx i w (snd (wipe_never_active_trade i b ts n w))"
proof -
  let ?w = "w\<lparr>w_db := Some (set_setting (trade_wiped_key i) (tombstone_value ts n)
      (delete_trade_by_order_id i (tables w)))\<rparr>"
  have m: "row_move A_Canceled ts idx i (tables w) (set_setting (trade_wiped_key i) (tombstone_value ts n)
      (delete_trade_by_order_id i (tables w)))"
    unfolding assms(5) by (rule rm_wipe) (use assms in auto)
  have "leads A_Canceled ts idx i w ?w"
    using assms(1) m by (simp add: leads_def r_into_rtranclp)
  then have l: "leads A_Canceled ts idx i w (perform (EReleaseSubscriptions i (Some n)) (touch i ?w))"
    by (rule leads_then(3) [OF leads_then(1)])
  have eq: "wipe_trade_row i ts n w = (Inr (), perform (EReleaseSubscriptions i (Some n)) (touch i ?w))"
    using assms(1) by (simp add: wipe_trade_row_def answers_write answers_try Let_def
        release_finished_trade_subscriptions_def touch_def on_book_def book_then_db)
  show ?thesis
    using assms(1) leads_then(2) [OF leads_then(4) [OF l]]
    by (simp add: wipe_never_active_trade_def eq Let_def)
qed

lemma leads_emit_now: "leads a ts idx i w w1 \<Longrightarrow> leads a ts idx i w (emit_trade_update i s w1)"
  by (simp add: emit_trade_update_def emit_trade_update_with_def leads_then)

lemma leads_lock:
  assumes "good w" "status_of i (tables w) = Some WaitingMakerBond"
  shows "leads A_NewOrder ts idx i w (snd (lock_maker_bond i t n w))"
proof -
  define w1 where "w1 = (case ti_bond t of
      Some existing \<Rightarrow> if bi_state existing = BondRequested
        then persist_bond i (existing\<lparr>bi_state := BondLocked, bi_locked_at := Some (w_now w)\<rparr>) w else w
    | None \<Rightarrow> w)"
  have c1: "calm A_NewOrder ts idx i w w1"
    using assms(1) by (auto simp: w1_def calm_refl calm_persist_bond split: option.split)
  have "leads A_NewOrder ts idx i w1 (db_try CUpdateFields (update_trade_fields i (Some Pending) None None) w1)"
    by (rule leads_db [OF calm_good [OF c1]]) (use assms calm_status [OF c1] in \<open>auto intro: rm_lock\<close>)
  then have "leads A_NewOrder ts idx i w
      (emit_trade_update i Pending (db_try CUpdateFields (update_trade_fields i (Some Pending) None None) w1))"
    by (rule leads_emit_now [OF calm_leads_trans [OF c1]])
  then show ?thesis
    using assms(1) by (simp add: lock_maker_bond_def w1_def Let_def leads_refl)
qed

section \<open>The row state of the prologue\<close>

definition fits :: "row_state \<Rightarrow> string \<Rightarrow> u32 \<Rightarrow> world \<Rightarrow> bool" where
  "fits rs i idx w \<longleftrightarrow> (case rs of
      RowExists t \<Rightarrow> fst (core_of i (tables w)) = Some (row_core t)
    | RowWiped \<Rightarrow> get_trade_by_order_id i (tables w) = None \<and> covered i idx (tables w)
    | RowNeverWritten \<Rightarrow> get_trade_by_order_id i (tables w) = None \<and> \<not> covered i idx (tables w)
    | RowUnknown \<Rightarrow> False)"

lemma fits_core:
  assumes "core_of i (tables w') = core_of i (tables w)"
  shows "fits rs i idx w' \<longleftrightarrow> fits rs i idx w"
proof -
  have "(get_trade_by_order_id i (tables w') = None) = (get_trade_by_order_id i (tables w) = None)"
    using assms by (auto simp: core_of_def)
  then show ?thesis using assms by (auto simp: fits_def covered_def core_of_def split: row_state.split)
qed

lemma calm_fits: "calm a ts idx i w w' \<Longrightarrow> fits rs i idx w' \<longleftrightarrow> fits rs i idx w"
  by (rule fits_core) (rule calm_core)

lemma row_state_fits: "good w \<Longrightarrow> fits (trade_row_state i idx w) i idx w"
  by (auto simp: trade_row_state_def fits_def core_of_def covered_def split: option.splits)

lemma fits_ExistsD:
  assumes "fits (RowExists t) i idx w"
  obtains t0 where "get_trade_by_order_id i (tables w) = Some t0" "ti_id t0 = ti_id t" "order_of t = i"
    "oi_status (ti_order t0) = oi_status (ti_order t)" "ti_trade_key_index t0 = ti_trade_key_index t"
    "status_of i (tables w) = Some (oi_status (ti_order t))"
  using assms get_trade_mem by (fastforce simp: fits_def core_of_def row_core_def status_of_def)

section \<open>The registry of pending requests\<close>

lemma no_create_drop [simp]: "no_create p \<Longrightarrow> no_create (fmdrop k p)"
  by (auto simp: no_create_def split: if_splits)

lemma take_if_no_create: "take_if P k p = (r, p') \<Longrightarrow> no_create p \<Longrightarrow> no_create p'"
  by (auto simp: take_if_def split: option.splits if_splits)

lemma taken_no_create:
  "take_matching_restore k t p = (r, p') \<Longrightarrow> no_create p \<Longrightarrow> no_create p'"
  "take_matching_request k q p = (r, p') \<Longrightarrow> no_create p \<Longrightarrow> no_create p'"
  "take_matching_take k q p = (r, p') \<Longrightarrow> no_create p \<Longrightarrow> no_create p'"
  "take_matching_add_invoice k q p = (r, p') \<Longrightarrow> no_create p \<Longrightarrow> no_create p'"
  "take_matching_claim_submit k q p = (r, p') \<Longrightarrow> no_create p \<Longrightarrow> no_create p'"
  by (auto simp: take_matching_restore_def take_matching_take_def take_matching_add_invoice_def
      take_matching_claim_submit_def take_matching_request_def
      split: option.splits if_splits dest: take_if_no_create)

lemma dispute_no_create: "take_matching_dispute k q p = (r, p') \<Longrightarrow> no_create p \<Longrightarrow> no_create p'"
  by (auto simp: take_matching_dispute_def no_create_def split: option.splits pending_kind.splits if_splits)

lemma no_create_claim: "no_create p \<Longrightarrow> claim_create_bond k q p = (None, p)"
  by (auto simp: claim_create_bond_def no_create_def split: option.splits pending_kind.splits)

lemma no_create_request:
  "take_matching_request k q p = (Some r, p') \<Longrightarrow> no_create p \<Longrightarrow> pr_kind r \<noteq> KCreate u b"
  by (auto simp: take_matching_request_def no_create_def split: option.splits if_splits)

lemma no_create_local: "no_create p \<Longrightarrow> pending_local_uuid_for k p = None"
  by (auto simp: pending_local_uuid_for_def no_create_def split: option.splits pending_kind.splits)

section \<open>The stages before the arms\<close>

lemma calm_reveal [stages]:
  assumes "good w"
  shows "calm a ts idx i w (apply_peer_reveal cr i p ks n r w)"
proof -
  have "calm a ts idx i w (w\<lparr>w_sessions := m\<rparr>)" "calm a ts idx i w (perform e (w\<lparr>w_sessions := m\<rparr>))" for m e
    using assms by (auto intro: calm_sessions calm_chain [OF calm_sessions calm_perform])
  then show ?thesis using assms
    by (simp add: apply_peer_reveal_def Let_def calm_refl split: option.split prod.split)
qed

lemma calm_capture [stages]:
  assumes "good w"
  shows "calm a ts idx i w (maybe_capture_peer_reveal cr i b p n w)"
proof -
  have "calm a ts idx i w (apply_peer_reveal cr i q ks n r
      (touch i (db_try CCounterparty (update_trade_counterparty i q) w)))" for q ks r
    by (rule calm_chain [OF calm_chain [OF calm_counterparty calm_touch] calm_reveal]) (rule assms)
  then show ?thesis using assms
    by (simp add: maybe_capture_peer_reveal_def Let_def calm_refl split: option.split prod.split)
qed

lemma reconcile_nothing:
  assumes "good w"
  shows "reconcile_order_id i pk n w = w"
  using assms by (simp add: reconcile_order_id_def may_reconcile_stored_id_def good_def no_create_local
      split: option.split sum.split)

lemma calm_intercept [stages]: "good w \<Longrightarrow> calm a ts idx i w (snd (intercept_take k pk w))"
  by (auto simp: intercept_take_def Let_def calm_refl good_no_create taken_no_create
      intro: calm_chain [OF calm_pending calm_wake] calm_pending split: prod.split option.split)

lemma calm_ack:
  assumes "good w" "\<And>r p p'. taker p = (r, p') \<Longrightarrow> no_create p \<Longrightarrow> no_create p'"
  shows "calm a ts idx i w (acknowledge taker w)"
  using assms by (auto simp: acknowledge_def Let_def calm_refl good_no_create
      intro: calm_chain [OF calm_pending calm_wake] calm_pending split: prod.split option.split)

lemma calm_acks [stages]:
  "good w \<Longrightarrow> calm a ts idx i w (acknowledge_claim_submit k pk w)"
  "good w \<Longrightarrow> calm a ts idx i w (acknowledge (take_matching_add_invoice pk q) w)"
  by (auto simp: acknowledge_claim_submit_def calm_refl intro: calm_ack taken_no_create)

lemma calm_dispute [stages]:
  assumes "good w"
  shows "calm a ts idx i w (accept_dispute k pk w)"
proof -
  obtain f p' where t: "take_matching_dispute pk (dk_request_id k) (w_pending w) = (f, p')" by fastforce
  have p: "calm a ts idx i w (w\<lparr>w_pending := p'\<rparr>)"
    by (rule calm_pending [OF assms dispute_no_create [OF t good_no_create [OF assms]]])
  show ?thesis
    using assms p by (auto simp: accept_dispute_def Let_def t calm_refl
        intro: calm_chain [OF p calm_wake] calm_chain [OF p calm_perform]
        split: option.split dispute_match.split)
qed

lemma small_order_row:
  assumes "trade_row_from_small_order now i so role mine n cp creator st = Some t"
  shows "ti_id t = i" "order_of t = i" "ti_trade_key_index t = n" "oi_status (ti_order t) = st"
    "oi_is_mine (ti_order t) = mine"
  using assms by (auto simp: trade_row_from_small_order_def order_of_def Let_def split: option.splits)

lemma find_snoc: "\<forall>x \<in> set xs. \<not> P x \<Longrightarrow> P t \<Longrightarrow> find P (xs @ [t]) = Some t"
  by (induction xs) auto

lemma get_save_new: "get_trade_by_order_id i db = None \<Longrightarrow> order_of t = i \<Longrightarrow>
    get_trade_by_order_id i (save_trade t (delete_setting k db)) = Some t"
  unfolding get_trade_None by (simp add: get_trade_by_order_id_def save_trade_rows find_snoc)

lemma persist_tables:
  "good w \<Longrightarrow> tables (snd (persist_trade_row t w)) = save_trade t (delete_setting (trade_wiped_key (order_of t)) (tables w))"
  by (simp add: persist_trade_row_def Let_def answers_try answers_write perform_def touch_def on_book_def)

lemma emit_tables [simp]: "tables (emit_trade_update_at i s r t w) = tables w"
  by (simp add: emit_trade_update_at_def Let_def perform_def touch_def on_book_def
      release_finished_trade_subscriptions_def)

text \<open>A row of the message's own order and key, bound, created and announced.\<close>

lemma leads_new_row:
  assumes w: "good w" "get_trade_by_order_id i (tables w) = None" "\<not> covered i idx (tables w)" "not_older ts i (tables w)"
    and row: "trade_row_from_small_order now i so role mine idx cp creator st = Some t"
  obtains w2 where "persist_trade_row t (store_trade_key_index i idx w) = (Inr (), w2)"
    and "leads a ts idx i w (emit_trade_update_at i s r u w2)"
    and "get_trade_by_order_id i (tables (emit_trade_update_at i s r u w2)) = Some t"
proof -
  let ?w1 = "store_trade_key_index i idx w"
  have c: "calm a ts idx i w ?w1" by (rule calm_store_key [OF w(1)])
  then have g: "good ?w1" by (rule calm_good)
  have "fits RowNeverWritten i idx ?w1" using w(2,3) calm_fits [OF c, of RowNeverWritten] by (simp add: fits_def)
  then have n: "get_trade_by_order_id i (tables ?w1) = None" "\<not> covered i idx (tables ?w1)"
    by (simp_all add: fits_def)
  note l = leads_create(1) [OF g n calm_not_older [OF c w(4)] small_order_row(1-3) [OF row], where a = a]
    and p = leads_create(2) [OF g n calm_not_older [OF c w(4)] small_order_row(1-3) [OF row]]
  obtain w2 where w2: "persist_trade_row t ?w1 = (Inr (), w2)"
    using p by (cases "persist_trade_row t ?w1") auto
  have "get_trade_by_order_id i (tables w2) = Some t"
    using persist_tables [OF g, of t] w2 get_save_new [OF n(1)] small_order_row(2) [OF row] by simp
  moreover have "leads a ts idx i w (emit_trade_update_at i s r u w2)"
    using l w2 leads_then(5) [OF calm_leads_trans [OF c]] by simp
  ultimately show thesis using that w2 by simp
qed

lemma rebuild_cases:
  assumes "good w"
  obtains "rebuild_trade_from_dm kind i pk idx ts w = (None, w)"
  | so role mine cp st t where
    "trade_row_from_small_order (w_now w) i so role mine idx cp [] st = Some t"
    "rebuild_trade_from_dm kind i pk idx ts w = (case persist_trade_row t (store_trade_key_index i idx w) of
       (Inl _, w1) \<Rightarrow> (None, w1) | (Inr _, w1) \<Rightarrow> (Some t, emit_trade_update_at i st None ts w1))"
proof (cases "describes_no_trade (dk_action kind)")
  case False
  show thesis
  proof (cases "payload_order (dk_payload kind)")
    case (Some so)
    show thesis
    proof (cases "proven_role (dk_action kind) so pk")
      case role: (Some role)
      show thesis
      proof (cases "opt_or (Option.bind (so_status so) map_core_status) (status_for_action (dk_action kind))")
        case st: (Some st)
        define cp where "cp = (case (case role of Buyer \<Rightarrow> so_seller_trade_pubkey so
            | Seller \<Rightarrow> so_buyer_trade_pubkey so) of Some k \<Rightarrow> k | None \<Rightarrow> [])"
        show thesis
        proof (cases "trade_row_from_small_order (w_now w) i so role (is_maker_of (so_kind so) role) idx cp [] st")
          case t: (Some t)
          then show thesis using that(2) [of so role "is_maker_of (so_kind so) role" cp st t] False Some role st assms
            by (simp add: rebuild_trade_from_dm_def cp_def)
        qed (use that(1) False Some role st assms in \<open>simp add: rebuild_trade_from_dm_def cp_def\<close>)
      qed (use that(1) False Some role in \<open>simp add: rebuild_trade_from_dm_def\<close>)
    qed (use that(1) False Some in \<open>simp add: rebuild_trade_from_dm_def\<close>)
  qed (use that(1) False in \<open>simp add: rebuild_trade_from_dm_def\<close>)
qed (use that(1) in \<open>simp add: rebuild_trade_from_dm_def\<close>)

lemma leads_rebuild:
  assumes w: "good w" "fits rs i idx w" and i: "dk_id kind = Some i"
  shows "leads (dk_action kind) ts idx i w (snd (rebuild_never_written kind pk idx ts rs w)) \<and>
    fits (fst (rebuild_never_written kind pk idx ts rs w)) i idx (snd (rebuild_never_written kind pk idx ts rs w))"
proof (cases "rs = RowNeverWritten \<and> \<not> status_write_blocked i (dk_action kind) ts w")
  case False
  then show ?thesis using w i by (auto simp: rebuild_never_written_def leads_refl split: row_state.split)
next
  case True
  have n: "get_trade_by_order_id i (tables w) = None" "\<not> covered i idx (tables w)"
    using True w(2) by (auto simp: fits_def)
  have no: "not_older ts i (tables w)" using not_blocked(1) [OF w(1)] True by blast
  from w(1) show ?thesis
  proof (cases rule: rebuild_cases [of w kind i pk idx ts])
    case 1
    then show ?thesis using w i True by (simp add: rebuild_never_written_def leads_refl)
  next
    case (2 so role mine cp st t)
    obtain w2 where "persist_trade_row t (store_trade_key_index i idx w) = (Inr (), w2)"
      "leads (dk_action kind) ts idx i w (emit_trade_update_at i st None ts w2)"
      "get_trade_by_order_id i (tables (emit_trade_update_at i st None ts w2)) = Some t"
      by (rule leads_new_row [OF w(1) n no 2(1)])
    then show ?thesis using 2(2) True i
      by (simp add: rebuild_never_written_def fits_def core_of_def)
  qed
qed

section \<open>The arms\<close>

lemma leads_adopt:
  assumes "good w"
  shows "leads (dk_action kind) ts idx i w (snd (adopt_range_remainder i kind pk idx ts w))"
proof (cases "\<exists>so role t. dk_payload kind = Some (P_Order so) \<and> map_option role_of_kind (so_kind so) = Some role \<and>
    get_trade_by_order_id i (tables w) = None \<and> \<not> covered i idx (tables w) \<and>
    \<not> status_write_blocked i (dk_action kind) ts w \<and>
    trade_row_from_small_order (w_now w) i so role True idx [] pk Pending = Some t")
  case True
  then obtain so role t where k: "dk_payload kind = Some (P_Order so)" "map_option role_of_kind (so_kind so) = Some role"
    and n: "get_trade_by_order_id i (tables w) = None" "\<not> covered i idx (tables w)"
    and b: "\<not> status_write_blocked i (dk_action kind) ts w"
    and t: "trade_row_from_small_order (w_now w) i so role True idx [] pk Pending = Some t" by blast
  obtain w2 where "persist_trade_row t (store_trade_key_index i idx w) = (Inr (), w2)"
    "leads (dk_action kind) ts idx i w (emit_trade_update_at i Pending None ts w2)"
    by (rule leads_new_row [OF assms n not_blocked(1) [OF assms b] t])
  then show ?thesis using assms k n b t
    by (simp add: adopt_range_remainder_def leads_refl covered_def split: option.splits)
next
  case False
  then have "snd (adopt_range_remainder i kind pk idx ts w) = w"
    using assms by (auto simp: adopt_range_remainder_def covered_def split: option.splits core_payload.splits prod.splits)
  then show ?thesis using assms by (simp add: leads_refl)
qed

lemma leads_resync:
  assumes w: "good w" "is_i64 ts" and a: "dk_action kind = A_NewOrder"
  shows "leads A_NewOrder ts idx i w (snd (resync_republished_maker_order i kind ts w))"
proof (cases "status_write_blocked i A_NewOrder ts w")
  case False
  let ?w1 = "on_book (update_order_status i Pending) (record_status_event i ts w)"
  have c: "calm A_NewOrder ts idx i w ?w1"
    by (rule calm_chain [OF calm_cursor calm_book]) (use w in auto)
  have "permit A_NewOrder ts i Pending w" by (rule guard_permit [OF w(1) False]) auto
  then have "leads A_NewOrder ts idx i ?w1
      (db_try CUpdateFields (update_trade_fields i (Some Pending) None None) ?w1)"
    by (intro leads_fields calm_good [OF c] calm_permit [OF c])
  then have "leads A_NewOrder ts idx i w (emit_trade_update_at i Pending None ts
      (db_try CUpdateFields (update_trade_fields i (Some Pending) None None) ?w1))"
    by (rule leads_then(5) [OF calm_leads_trans [OF c]])
  then show ?thesis using w a False
    by (auto simp: resync_republished_maker_order_def Let_def leads_refl split: option.split)
qed (use w a in \<open>auto simp: resync_republished_maker_order_def Let_def leads_refl split: option.split\<close>)

lemma leads_fill:
  assumes w: "good w" and t: "get_trade_by_order_id i (tables w) = Some t" "oi_status (ti_order t) = WaitingMakerBond"
    and t': "ti_id t' = ti_id t" "order_of t' = i" "oi_status (ti_order t') = WaitingMakerBond"
      "ti_trade_key_index t' = ti_trade_key_index t"
  shows "leads A_NewOrder ts idx i w (snd (persist_trade_row t' w))"
proof -
  have m: "row_move A_NewOrder ts idx i (tables w) (save_trade t' (delete_setting (trade_wiped_key i) (tables w)))"
    by (rule rm_fill [OF t]) (use t' in auto)
  have "leads A_NewOrder ts idx i w (w\<lparr>w_db := Some (save_trade t' (delete_setting (trade_wiped_key i) (tables w)))\<rparr>)"
    using w m by (simp add: leads_def r_into_rtranclp)
  then have "leads A_NewOrder ts idx i w (perform EPushReconcile (touch i
      (w\<lparr>w_db := Some (save_trade t' (delete_setting (trade_wiped_key i) (tables w)))\<rparr>)))"
    by (rule leads_then(3) [OF leads_then(1)])
  then show ?thesis using w t'(2) by (simp add: persist_trade_row_def Let_def answers_try answers_write)
qed

lemma fill_row:
  assumes "fill_restored_maker_row now t so creator = Some t'"
  shows "ti_id t' = ti_id t" "order_of t' = order_of t" "oi_status (ti_order t') = oi_status (ti_order t)"
    "ti_trade_key_index t' = ti_trade_key_index t"
proof -
  obtain role r where "trade_row_from_small_order now (oi_id (ti_order t)) so role True (ti_trade_key_index t)
      [] creator (oi_status (ti_order t)) = Some r"
    and t': "t' = r\<lparr>ti_id := ti_id t, ti_bond := ti_bond t, ti_started_at := ti_started_at t\<rparr>"
    using assms unfolding fill_restored_maker_row_def
    by (cases "map_option role_of_kind (so_kind so)") auto
  note r = small_order_row [OF this(1)]
  show "ti_id t' = ti_id t" "order_of t' = order_of t" "oi_status (ti_order t') = oi_status (ti_order t)"
    "ti_trade_key_index t' = ti_trade_key_index t"
    using r by (simp_all add: t' order_of_def)
qed

lemma leads_confirm:
  assumes w: "good w" "fits rs i idx w" and ok: "tables_ok ids (tables w)" "i \<in> ids"
  shows "leads A_NewOrder ts idx i w (snd (confirm_maker_bond i rs n pub w))"
proof (cases rs)
  case (RowExists t)
  obtain t0 where t0: "get_trade_by_order_id i (tables w) = Some t0" "ti_id t0 = ti_id t" "order_of t = i"
    "oi_status (ti_order t0) = oi_status (ti_order t)" "ti_trade_key_index t0 = ti_trade_key_index t"
    "status_of i (tables w) = Some (oi_status (ti_order t))"
    by (rule fits_ExistsD [OF w(2) [unfolded RowExists]])
  have lock: "leads A_NewOrder ts idx i w (snd (lock_maker_bond i t n w))"
  proof (cases "oi_status (ti_order t) = WaitingMakerBond")
    case True
    then show ?thesis by (intro leads_lock w(1)) (simp add: t0(6))
  qed (simp add: lock_maker_bond_def leads_refl w(1))
  have fill: "leads A_NewOrder ts idx i w (snd (lock_maker_bond i t' n (snd (persist_trade_row t' w))))"
    if t': "fill_restored_maker_row now t so creator = Some t'" "oi_status (ti_order t) = WaitingMakerBond" for now so creator t'
  proof -
    note f = fill_row [OF t'(1)]
    have l: "leads A_NewOrder ts idx i w (snd (persist_trade_row t' w))"
      by (rule leads_fill [OF w(1) t0(1)]) (use f t0 t'(2) in auto)
    have "get_trade_by_order_id i (tables (snd (persist_trade_row t' w))) = Some t'"
      using persist_tables [OF w(1), of t'] move_save(2) [OF ok, of t' i "trade_wiped_key i"] f t0 by simp
    then have "status_of i (tables (snd (persist_trade_row t' w))) = Some WaitingMakerBond"
      using f t'(2) by (simp add: status_of_def)
    then show ?thesis by (rule leads_trans [OF l leads_lock [OF leads_good [OF l]]])
  qed
  show ?thesis
    using lock fill w(1) unfolding RowExists
    by (auto simp: confirm_maker_bond_def rs_trade_def is_restored_maker_placeholder_def
        split: option.split core_payload.split)
qed (use w in \<open>simp_all add: confirm_maker_bond_def rs_trade_def leads_refl fits_def\<close>)

lemma leads_new_order:
  assumes w: "good w" "fits rs i idx w" "is_i64 ts" and ok: "tables_ok ids (tables w)" "i \<in> ids"
    and k: "dk_id kind = Some i" "dk_action kind = A_NewOrder"
  shows "leads A_NewOrder ts idx i w (arm_new_order kind pk idx ts rs w)"
proof (cases "take_matching_request pk (dk_request_id kind) (w_pending w)")
  case (Pair r p')
  show ?thesis
  proof (cases r)
    case (Some p)
    have "\<And>u b. pr_kind p \<noteq> KCreate u b"
      using no_create_request [OF Pair [unfolded Some]] good_no_create [OF w(1)] by blast
    then have "arm_new_order kind pk idx ts rs w = store_trade_key_index i (pr_trade_index p) (w\<lparr>w_pending := p'\<rparr>)"
      using Pair Some k by (simp add: arm_new_order_def Let_def split: pending_kind.split)
    moreover have "calm A_NewOrder ts idx i w (store_trade_key_index i (pr_trade_index p) (w\<lparr>w_pending := p'\<rparr>))"
      by (rule calm_chain [OF calm_pending calm_store_key])
         (use w Pair Some taken_no_create(2) good_no_create in auto)
    ultimately show ?thesis by (simp add: calm_leads)
  next
    case None
    obtain c w1 where c: "confirm_maker_bond i rs idx (Some (kind, pk)) w = (c, w1)" by fastforce
    have l1: "leads A_NewOrder ts idx i w w1"
      using leads_confirm [OF w(1,2) ok, where n = idx and pub = "Some (kind, pk)"] by (simp add: c)
    obtain d w2 where d: "adopt_range_remainder i kind pk idx ts w1 = (d, w2)" by fastforce
    have "leads A_NewOrder ts idx i w1 w2"
      using leads_adopt [OF leads_good [OF l1], where kind = kind and pk = pk and ts = ts and idx = idx and i = i] k(2) d
      by simp
    with l1 have l2: "leads A_NewOrder ts idx i w w2" by (rule leads_trans)
    have "leads A_NewOrder ts idx i w (snd (resync_republished_maker_order i kind ts w2))"
      by (rule leads_trans [OF l2 leads_resync [OF leads_good [OF l2] w(3) k(2)]])
    then show ?thesis using l1 l2 k Pair None c d by (simp add: arm_new_order_def)
  qed
qed

lemma leads_canceled:
  assumes w: "good w" "fits rs i idx w" "is_i64 ts" and k: "dk_id kind = Some i" "dk_action kind = A_Canceled"
  shows "leads A_Canceled ts idx i w (arm_canceled kind ts rs w)"
proof (cases "status_write_blocked i A_Canceled ts w")
  case False
  let ?w1 = "record_status_event i ts w"
  have c1: "calm A_Canceled ts idx i w ?w1" by (rule calm_cursor [OF w(1,3)])
  note g1 = calm_good [OF c1]
  have no: "not_older ts i (tables ?w1)" by (rule calm_not_older [OF c1 not_blocked(1) [OF w(1) False]])
  have wipe: "leads A_Canceled ts idx i w (wipe_canceled i ts t ?w1)"
    if rs: "rs = RowExists t" "cancellation_wipes_history (oi_status (ti_order t))" for t
  proof -
    define w2 where "w2 = (if oi_status (ti_order t) = WaitingTakerBond then snd (bond_cancel_reason i ?w1) else ?w1)"
    have c2: "calm A_Canceled ts idx i ?w1 w2"
      using g1 by (auto simp: w2_def bond_cancel_reason_def take_user_cancel_def Let_def calm_refl calm_cancels
          split: option.split)
    have "fits (RowExists t) i idx w2" using w(2) rs calm_fits [OF c1] calm_fits [OF c2] by simp
    then obtain t0 where t0: "get_trade_by_order_id i (tables w2) = Some t0"
      "oi_status (ti_order t0) = oi_status (ti_order t)" "ti_trade_key_index t0 = ti_trade_key_index t"
      by (rule fits_ExistsD)
    have "leads A_Canceled ts idx i w2
        (snd (wipe_never_active_trade i (\<not> oi_is_mine (ti_order t)) ts (ti_trade_key_index t) w2))"
      by (rule leads_wipe [OF calm_good [OF c2] t0(1)]) (use rs t0 calm_not_older [OF c2 no] in auto)
    then have "leads A_Canceled ts idx i w
        (snd (wipe_never_active_trade i (\<not> oi_is_mine (ti_order t)) ts (ti_trade_key_index t) w2))"
      by (rule calm_leads_trans [OF calm_trans [OF c1 c2]])
    then show ?thesis
      by (cases "bond_cancel_reason i ?w1") (auto simp: wipe_canceled_def w2_def Let_def intro: leads_then(5))
  qed
  have keep: "leads A_Canceled ts idx i w (keep_canceled_history i ts rs ?w1)" for rs
  proof -
    let ?w2 = "note_bond_released rs i (on_book (forget_wire_order i) ?w1)"
    have c2: "calm A_Canceled ts idx i w ?w2"
      by (rule calm_chain [OF calm_chain [OF c1 calm_book] calm_bond_notes(2)])
    have "permit A_Canceled ts i Canceled ?w2"
      by (rule calm_permit [OF c2 guard_permit [OF w(1) False]]) auto
    then show ?thesis
      using calm_leads_trans [OF c2 leads_sync_emit [OF calm_good [OF c2], where s = Canceled and r = None and t = ts
            and rs = rs and h = None and amt = None]]
      by (simp add: keep_canceled_history_def Let_def)
  qed
  show ?thesis
    using w(1) k False wipe keep calm_leads [OF calm_chain [OF c1 calm_emit]] calm_leads [OF c1]
    by (auto simp: arm_canceled_def Let_def leads_refl split: row_state.split)
qed (use w k in \<open>simp add: arm_canceled_def leads_refl\<close>)

lemma leads_escrow_locked:
  assumes w: "good w" "is_i64 ts" and k: "dk_id kind = Some i"
    "dk_action kind = A_BuyerTookOrder \<or> dk_action kind = A_HoldInvoicePaymentAccepted"
  shows "leads (dk_action kind) ts idx i w (arm_escrow_locked kind ts rs w)"
proof (cases "status_write_blocked i (dk_action kind) ts w")
  case False
  let ?w1 = "note_bond_locked rs i (record_status_event i ts w)"
  have c1: "calm (dk_action kind) ts idx i w ?w1"
    by (rule calm_chain [OF calm_cursor calm_bond_notes(1)]) (use w in auto)
  have p: "permit (dk_action kind) ts i s w" for s
    by (rule guard_permit [OF w(1) False]) (use k in auto)
  have "leads (dk_action kind) ts idx i w (case sync_or_emit i rs s None None (on_book (update_order_status i s) ?w1) of
      (changed, w3) \<Rightarrow> if changed then emit_trade_update_at i s None ts w3 else w3)" for s
    by (rule calm_leads_trans [OF _ leads_sync_emit])
       (use c1 p calm_permit calm_good calm_chain [OF c1 calm_book] in blast)+
  then show ?thesis
    using w k False calm_leads [OF c1]
    by (auto simp: arm_escrow_locked_def Let_def leads_refl split: option.split core_payload.split)
qed (use w k in \<open>simp add: arm_escrow_locked_def leads_refl\<close>)

lemma calm_peer_reputation: "good w \<Longrightarrow> calm a ts idx i w (persist_peer_reputation i x n d t w)"
  unfolding persist_peer_reputation_def Let_def
  by (auto split: option.split intro: calm_reputation calm_chain [OF calm_reputation calm_emit])

lemma leads_add_invoice:
  assumes w: "good w" "is_i64 ts" and k: "dk_id kind = Some i" "dk_action kind = A_AddInvoice"
  shows "leads A_AddInvoice ts idx i w (arm_add_invoice kind ts rs w)"
proof -
  let ?w1 = "note_bond_locked rs i w"
  have c1: "calm A_AddInvoice ts idx i w ?w1" by (rule calm_bond_notes(1) [OF w(1)])
  note g1 = calm_good [OF c1]
  have status: "leads A_AddInvoice ts idx i w (case sync_or_emit i rs s None amt w3 of
      (changed, w4) \<Rightarrow> if changed then emit_trade_update_at i s None ts w4 else w4)"
    if b: "\<not> status_write_blocked i A_AddInvoice ts ?w1"
      and w3: "w3 = (case book_order i w2 of Some info \<Rightarrow> on_book (f info) w2 | None \<Rightarrow> w2)"
      and w2: "w2 = record_invoice_step_start i d ts (record_status_event i ts ?w1)" for s amt w2 w3 f d
  proof -
    have c2: "calm A_AddInvoice ts idx i ?w1 w2"
      unfolding w2 by (rule calm_chain [OF calm_cursor calm_step_start]) (use g1 w in auto)
    have c3: "calm A_AddInvoice ts idx i ?w1 w3"
      unfolding w3 by (auto split: option.split intro: c2 calm_chain [OF c2 calm_book])
    have "permit A_AddInvoice ts i s ?w1" by (rule guard_permit [OF g1 b]) auto
    then show ?thesis
      by (intro calm_leads_trans [OF calm_trans [OF c1 c3]] leads_sync_emit calm_good [OF c3] calm_permit [OF c3])
  qed
  show ?thesis
    using w(1) k calm_leads [OF c1] calm_leads [OF calm_chain [OF c1 calm_peer_reputation]]
    by (auto simp: arm_add_invoice_def Let_def leads_refl status split: option.split)
qed

lemma leads_pay_invoice:
  assumes w: "good w" "is_i64 ts" and k: "dk_id kind = Some i" "dk_action kind = A_PayInvoice"
  shows "leads A_PayInvoice ts idx i w (arm_pay_invoice kind ts rs w)"
proof -
  let ?w1 = "note_bond_locked rs i w"
  have c1: "calm A_PayInvoice ts idx i w ?w1" by (rule calm_bond_notes(1) [OF w(1)])
  note g1 = calm_good [OF c1]
  have status: "leads A_PayInvoice ts idx i w (case sync_or_emit i rs WaitingPayment h amt w3 of
      (changed, w4) \<Rightarrow> if changed then emit_trade_update_at i WaitingPayment None ts w4 else w4)"
    if b: "\<not> status_write_blocked i A_PayInvoice ts ?w1"
      and w3: "w3 = on_book f (record_invoice_step_start i d ts (record_status_event i ts ?w1))" for h amt w3 f d
  proof -
    have c3: "calm A_PayInvoice ts idx i ?w1 w3"
      unfolding w3 by (rule calm_chain [OF calm_chain [OF calm_cursor calm_step_start] calm_book]) (use g1 w in auto)
    have "permit A_PayInvoice ts i WaitingPayment ?w1" by (rule guard_permit [OF g1 b]) auto
    then show ?thesis
      by (intro calm_leads_trans [OF calm_trans [OF c1 c3]] leads_sync_emit calm_good [OF c3] calm_permit [OF c3])
  qed
  show ?thesis
    using w(1) k calm_leads [OF c1] calm_leads [OF calm_chain [OF c1 calm_peer_reputation]]
    by (auto simp: arm_pay_invoice_def Let_def leads_refl status split: option.split core_payload.split)
qed

lemma leads_status_update:
  assumes w: "good w" "is_i64 ts" and k: "dk_id kind = Some i"
  shows "leads (dk_action kind) ts idx i w (arm_status_update kind ts rs w)"
proof (cases "status_arm_gate rs \<or> status_for_action (dk_action kind) = None \<or>
    status_write_blocked i (dk_action kind) ts w")
  case False
  then obtain s where s: "status_for_action (dk_action kind) = Some s"
    and b: "\<not> status_write_blocked i (dk_action kind) ts w" by auto
  define w1 where "w1 = record_status_event i ts w"
  define w2 where "w2 = (if is_hard_terminal s \<or> s = SettledHoldInvoice
    then note_bond_released rs i w1 else note_bond_locked rs i w1)"
  define w3 where "w3 = on_book (update_order_status i s) w2"
  obtain ch w4 where w4: "sync_or_emit i rs s None None w3 = (ch, w4)" by fastforce
  have c1: "calm (dk_action kind) ts idx i w w1" unfolding w1_def by (rule calm_cursor [OF w])
  have c2: "calm (dk_action kind) ts idx i w w2"
    unfolding w2_def by (auto intro: calm_chain [OF c1 calm_bond_notes(1)] calm_chain [OF c1 calm_bond_notes(2)])
  have c3: "calm (dk_action kind) ts idx i w w3" unfolding w3_def by (rule calm_chain [OF c2 calm_book])
  have "permit (dk_action kind) ts i s w" by (rule guard_permit [OF w(1) b]) (use s in auto)
  then have l4: "leads (dk_action kind) ts idx i w w4"
    using calm_leads_trans [OF c3 leads_sync [OF calm_good [OF c3] calm_permit [OF c3]]] w4 by (metis snd_conv)
  show ?thesis
    using k False s l4
    by (auto simp: arm_status_update_def Let_def w4 w1_def [symmetric] w2_def [symmetric] w3_def [symmetric] intro!: leads_then)
qed (use w k in \<open>auto simp: arm_status_update_def leads_refl split: option.split\<close>)

lemma leads_cooperative_cancel:
  assumes w: "good w" "is_i64 ts" and k: "dk_id kind = Some i"
  shows "leads (dk_action kind) ts idx i w (arm_cooperative_cancel kind ts rs w)"
proof -
  have "leads a ts idx i w (emit_trade_update_at i s r ts
      (db_try CCoopCancel (set_cooperative_cancel_state i st) (record_status_event i ts w)))" for a s r st
    by (intro leads_then(5) calm_leads calm_chain [OF calm_cursor calm_coop]) (use w in auto)
  then show ?thesis using w(1) k
    by (simp add: arm_cooperative_cancel_def Let_def leads_refl)
qed

lemma calm_bond_slashed: "good w \<Longrightarrow> dk_id kind = Some i \<Longrightarrow> calm a ts idx i w (arm_bond_slashed kind e w)"
  by (auto simp: arm_bond_slashed_def Let_def calm_refl
      intro: calm_perform calm_chain [OF calm_persist_bond calm_perform] split: option.split core_payload.split)

lemma calm_pay_bond:
  assumes "good w" "dk_id kind = Some i"
  shows "calm a ts idx i w (arm_pay_bond_invoice cr kind pk t rs w)"
  using assms by (auto simp: arm_pay_bond_invoice_def refresh_taker_bond_def Let_def calm_refl
      no_create_claim [OF good_no_create] intro: calm_chain [OF calm_persist_bond calm_emit]
      split: option.split core_payload.split)

lemma calm_other_arms:
  "good w \<Longrightarrow> calm a ts idx i w (arm_restore_session kind pk t w)"
  "good w \<Longrightarrow> calm a ts idx i w (arm_cant_do kind pk t w)"
  "good w \<Longrightarrow> calm a ts idx i w (arm_admin_took_dispute kind w)"
  "good w \<Longrightarrow> calm a ts idx i w (arm_add_bond_invoice cr kind sender n w)"
  "good w \<Longrightarrow> calm a ts idx i w (arm_claim_ack kind sender w)"
proof -
  assume w: "good w"
  show "calm a ts idx i w (arm_restore_session kind pk t w)"
    using w by (auto simp: arm_restore_session_def Let_def calm_refl good_no_create taken_no_create
        intro: calm_pending calm_chain [OF calm_pending calm_wake]
        split: option.split core_payload.split prod.split)
  obtain m p' where t: "(case take_matching_restore pk t (w_pending w) of
      (Some p, q) \<Rightarrow> (Some p, q)
    | (None, q) \<Rightarrow> take_matching_request pk (dk_request_id kind) q) = (m, p')" by fastforce
  then have "no_create p'"
    using good_no_create [OF w] taken_no_create(1) [of pk t "w_pending w"] taken_no_create(2)
    by (cases "take_matching_restore pk t (w_pending w)") (auto split: option.splits)
  then have "calm a ts idx i w (w\<lparr>w_pending := p'\<rparr>)" by (rule calm_pending [OF w])
  then show "calm a ts idx i w (arm_cant_do kind pk t w)"
    by (auto simp: arm_cant_do_def Let_def t intro: calm_chain calm_wake split: option.split)
  show "calm a ts idx i w (arm_admin_took_dispute kind w)"
    "calm a ts idx i w (arm_add_bond_invoice cr kind sender n w)" "calm a ts idx i w (arm_claim_ack kind sender w)"
    using w by (auto simp: arm_admin_took_dispute_def arm_add_bond_invoice_def arm_claim_ack_def Let_def calm_refl
        intro: calm_perform calm_claims split: option.split core_payload.split)
qed

section \<open>The dispatcher\<close>

lemma leads_arm:
  assumes w: "good w" "fits rs i idx w" "is_i64 (dm_created_at m)" and ok: "tables_ok ids (tables w)" "i \<in> ids"
    and k: "dk_id (dm_kind m) = Some i" "dm_trade_index m = idx"
  shows "leads (dk_action (dm_kind m)) (dm_created_at m) idx i w (dispatch_arm cr m rs w)"
proof (cases "dk_action (dm_kind m)")
  case A_NewOrder then show ?thesis using leads_new_order [OF w ok k(1)] k by (simp add: dispatch_arm_def)
next
  case A_Canceled then show ?thesis using leads_canceled [OF w k(1)] by (simp add: dispatch_arm_def)
next
  case A_BuyerTookOrder
  then show ?thesis using leads_escrow_locked [OF w(1,3) k(1), of idx rs] by (simp add: dispatch_arm_def)
next
  case A_HoldInvoicePaymentAccepted
  then show ?thesis using leads_escrow_locked [OF w(1,3) k(1), of idx rs] by (simp add: dispatch_arm_def)
next
  case A_AddInvoice then show ?thesis using leads_add_invoice [OF w(1,3) k(1)] by (simp add: dispatch_arm_def)
next
  case A_PayInvoice then show ?thesis using leads_pay_invoice [OF w(1,3) k(1)] by (simp add: dispatch_arm_def)
next
  case A_CooperativeCancelInitiatedByYou
  then show ?thesis using leads_cooperative_cancel [OF w(1,3) k(1), of idx rs] by (simp add: dispatch_arm_def)
next
  case A_CooperativeCancelInitiatedByPeer
  then show ?thesis using leads_cooperative_cancel [OF w(1,3) k(1), of idx rs] by (simp add: dispatch_arm_def)
qed (use leads_status_update [OF w(1,3) k(1), of idx rs] w(1) k(1) in
  \<open>simp_all add: dispatch_arm_def leads_refl calm_leads calm_other_arms calm_bond_slashed calm_pay_bond\<close>)

lemma leads_classified:
  assumes w: "good w" "is_i64 (dm_created_at m)" and ok: "tables_ok ids (tables w)" "i \<in> ids"
    and k: "dk_id (dm_kind m) = Some i"
  shows "leads (dk_action (dm_kind m)) (dm_created_at m) (dm_trade_index m) i w (dispatch_classified cr m w)"
proof -
  let ?a = "dk_action (dm_kind m)" and ?ts = "dm_created_at m" and ?idx = "dm_trade_index m"
  let ?pk = "dm_trade_pk m" and ?k = "dm_kind m"
  define rs where "rs = trade_row_state i ?idx w"
  define w1 where "w1 = (if ?a \<noteq> A_BondSlashed \<and> rs \<noteq> RowWiped
    then maybe_capture_peer_reveal cr i ?a (dk_payload ?k) ?idx w else w)"
  obtain c w2 where w2: "(if ?a \<noteq> A_CantDo then intercept_take ?k ?pk w1 else (False, w1)) = (c, w2)"
    by fastforce
  define w3 where "w3 = (if ?a \<noteq> A_CantDo
    then accept_dispute ?k ?pk (acknowledge (take_matching_add_invoice ?pk (dk_request_id ?k))
           (acknowledge_claim_submit ?k ?pk w2)) else w2)"
  obtain rs' w4 where w4: "rebuild_never_written ?k ?pk ?idx ?ts rs w3 = (rs', w4)" by fastforce
  have c1: "calm ?a ?ts ?idx i w w1" using w(1) by (simp add: w1_def calm_capture calm_refl)
  have "calm ?a ?ts ?idx i w1 w2"
    using w2 calm_intercept [OF calm_good [OF c1], of ?a ?ts ?idx i ?k ?pk] calm_refl [OF calm_good [OF c1]]
    by (auto split: if_splits)
  then have c2: "calm ?a ?ts ?idx i w w2" by (rule calm_trans [OF c1])
  have c3: "calm ?a ?ts ?idx i w w3"
    using c2 calm_chain [OF calm_chain [OF calm_chain [OF c2 calm_acks(1)] calm_acks(2)] calm_dispute]
    by (cases "?a = A_CantDo") (simp_all add: w3_def)
  have "fits rs i ?idx w3" using row_state_fits [OF w(1), of i ?idx] calm_fits [OF c3] by (simp add: rs_def)
  from leads_rebuild [OF calm_good [OF c3] this k, of ?ts ?pk]
  have l4: "leads ?a ?ts ?idx i w w4" and f4: "fits rs' i ?idx w4"
    using calm_leads_trans [OF c3] by (simp_all add: w4)
  have "tables_ok ids (tables w4)" using l4 moves_tables_ok ok by (auto simp: leads_def)
  then have "leads ?a ?ts ?idx i w (dispatch_arm cr m rs' w4)"
    by (intro leads_trans [OF l4 leads_arm [OF leads_good [OF l4] f4 w(2)]]) (use ok k in auto)
  moreover have "dispatch_classified cr m w = (if c then w2 else dispatch_arm cr m rs' w4)"
    unfolding dispatch_classified_def Let_def k option.case rs_def [symmetric] w1_def [symmetric] w2
      prod.case w3_def [symmetric] w4 ..
  ultimately show ?thesis using calm_leads [OF c2] by simp
qed

lemma leads_dispatch:
  assumes w: "good w" "is_i64 (dm_created_at m)" and ok: "tables_ok ids (tables w)" "i \<in> ids"
    and k: "dk_id (dm_kind m) = Some i"
  shows "leads (dk_action (dm_kind m)) (dm_created_at m) (dm_trade_index m) i w (dispatch_mostro_message cr m w)"
proof -
  let ?a = "dk_action (dm_kind m)" and ?ts = "dm_created_at m" and ?idx = "dm_trade_index m"
  obtain c w1 where g: "generation_gate ?a i ?idx w = (c, w1)" by fastforce
  have c1: "calm ?a ?ts ?idx i w w1"
    using g calm_lookup [OF w(1), of ?a ?ts ?idx i i] w(1)
    by (cases "lookup_trade_key_index i w") (auto simp: generation_gate_def calm_refl split: if_splits option.splits)
  have ok1: "tables_ok ids (tables w1)"
    using calm_leads [OF c1] moves_tables_ok ok by (auto simp: leads_def)
  have "leads ?a ?ts ?idx i w (dispatch_classified cr m w1)"
    by (rule calm_leads_trans [OF c1 leads_classified [OF calm_good [OF c1] w(2) ok1 ok(2) k]])
  then show ?thesis
    using w(1) k g calm_leads [OF c1] reconcile_nothing [OF calm_good [OF c1]]
    by (simp add: dispatch_mostro_message_def leads_refl)
qed

text \<open>A message without an order touches neither the tables nor the updates.\<close>

definition quiet :: "world \<Rightarrow> world \<Rightarrow> bool" where
  "quiet w w' \<longleftrightarrow> w_db w' = w_db w \<and> w_down w' = w_down w \<and> w_updates w' = w_updates w \<and>
     (no_create (w_pending w) \<longrightarrow> no_create (w_pending w'))"

lemma quiet_simps [simp]:
  "quiet w w" "quiet w (wake tx r w1) = quiet w w1" "quiet w (perform e w1) = quiet w w1"
  "quiet w (w1\<lparr>w_claims := c\<rparr>) = quiet w w1"
  by (auto simp: quiet_def wake_def perform_def)

lemma quiet_trans: "quiet w w1 \<Longrightarrow> quiet w1 w2 \<Longrightarrow> quiet w w2"
  by (auto simp: quiet_def)

lemma quiet_pending: "(no_create (w_pending w) \<Longrightarrow> no_create p) \<Longrightarrow> quiet w (w\<lparr>w_pending := p\<rparr>)"
  by (simp add: quiet_def)

lemma quiet_stages:
  "quiet w (snd (intercept_take k pk w))"
  "quiet w (acknowledge_claim_submit k pk w)"
  "quiet w (acknowledge (take_matching_add_invoice pk q) w)"
  "quiet w (accept_dispute k pk w)"
  "quiet w (arm_restore_session k pk t w)"
  by (auto simp: intercept_take_def acknowledge_claim_submit_def acknowledge_def accept_dispute_def
      arm_restore_session_def Let_def intro!: quiet_pending dest: taken_no_create dispute_no_create
      split: option.split prod.split dispute_match.split core_payload.split)

lemma quiet_cant_do: "quiet w (arm_cant_do k pk t w)"
proof -
  obtain m p' where t: "(case take_matching_restore pk t (w_pending w) of
      (Some p, q) \<Rightarrow> (Some p, q)
    | (None, q) \<Rightarrow> take_matching_request pk (dk_request_id k) q) = (m, p')" by fastforce
  then have "no_create (w_pending w) \<Longrightarrow> no_create p'"
    using taken_no_create(1) [of pk t "w_pending w"] taken_no_create(2)
    by (cases "take_matching_restore pk t (w_pending w)") (auto split: option.splits)
  then have "quiet w (w\<lparr>w_pending := p'\<rparr>)" by (rule quiet_pending)
  then show ?thesis by (auto simp: arm_cant_do_def Let_def t split: option.split)
qed

lemma quiet_arm: "dk_id (dm_kind m) = None \<Longrightarrow> quiet w (dispatch_arm cr m rs w)"
  by (cases "dk_action (dm_kind m)")
     (simp_all add: dispatch_arm_def quiet_stages quiet_cant_do arm_new_order_def arm_canceled_def
       arm_escrow_locked_def arm_add_invoice_def arm_pay_invoice_def arm_status_update_def
       arm_cooperative_cancel_def arm_admin_took_dispute_def arm_add_bond_invoice_def arm_claim_ack_def
       arm_bond_slashed_def arm_pay_bond_invoice_def)

lemma dispatch_no_order:
  assumes k: "dk_id (dm_kind m) = None"
  shows "quiet w (dispatch_mostro_message cr m w)"
proof -
  obtain c w2 where w2: "(if dk_action (dm_kind m) \<noteq> A_CantDo then intercept_take (dm_kind m) (dm_trade_pk m) w
      else (False, w)) = (c, w2)" by fastforce
  have q2: "quiet w w2" using w2 quiet_stages(1) [of w "dm_kind m" "dm_trade_pk m"] by (auto split: if_splits)
  have r: "rebuild_never_written (dm_kind m) pk n t rs v = (rs, v)" for pk n t rs v
    using k by (cases rs) (simp_all add: rebuild_never_written_def)
  let ?w3 = "if dk_action (dm_kind m) \<noteq> A_CantDo
    then accept_dispute (dm_kind m) (dm_trade_pk m)
      (acknowledge (take_matching_add_invoice (dm_trade_pk m) (dk_request_id (dm_kind m)))
        (acknowledge_claim_submit (dm_kind m) (dm_trade_pk m) w2)) else w2"
  have "quiet w2 ?w3"
    by (simp add: quiet_trans [OF quiet_trans [OF quiet_stages(2) quiet_stages(3)] quiet_stages(4)])
  then have "quiet w (dispatch_arm cr m RowUnknown ?w3)"
    by (rule quiet_trans [OF quiet_trans [OF q2] quiet_arm [OF k]])
  moreover have "dispatch_classified cr m w = (if c then w2 else dispatch_arm cr m RowUnknown ?w3)"
    unfolding dispatch_classified_def Let_def k option.case w2 prod.case r ..
  ultimately have "quiet w (dispatch_classified cr m w)" using q2 by (cases c) (simp_all only: if_True if_False)
  then show ?thesis using k by (simp add: dispatch_mostro_message_def)
qed

end
