(* ===== verification/Dispatch_Safety.thy ===== *)
theory Dispatch_Safety
  imports Dispatch_Refinement
begin

text \<open>
  What the refinement gives for whole histories of daemon messages. \<open>backlog\<close> handles messages
  one after the other, each at its own local time: a live feed, or the full history a relay
  replays after a start, in whatever order it delivers it.
\<close>

definition receive :: "'k crypto \<Rightarrow> i64 \<times> daemon_message \<Rightarrow> world \<Rightarrow> world" where
  "receive cr nm w = dispatch_mostro_message cr (snd nm) (w\<lparr>w_now := fst nm\<rparr>)"

definition backlog :: "'k crypto \<Rightarrow> (i64 \<times> daemon_message) list \<Rightarrow> world \<Rightarrow> world" where
  "backlog cr ms w = fold (receive cr) ms w"

text \<open>The store answers, no create is pending and the tables are in shape.\<close>

definition restarted :: "string set \<Rightarrow> world \<Rightarrow> bool" where
  "restarted ids w \<longleftrightarrow> good w \<and> tables_ok ids (tables w)"

text \<open>Messages as they come off the wire: 64-bit timestamps and orders of \<open>ids\<close>.\<close>

definition wire_ok :: "string set \<Rightarrow> daemon_message \<Rightarrow> bool" where
  "wire_ok ids m \<longleftrightarrow> is_i64 (dm_created_at m) \<and>
     (case dk_id (dm_kind m) of Some i \<Rightarrow> i \<in> ids | None \<Rightarrow> True)"

lemma good_now [simp]: "good (w\<lparr>w_now := n\<rparr>) \<longleftrightarrow> good w"
  by (simp add: good_def answers_def)

lemma receive_own:
  assumes "restarted ids w" "wire_ok ids m" "dk_id (dm_kind m) = Some i"
  shows "leads (dk_action (dm_kind m)) (dm_created_at m) (dm_trade_index m) i (w\<lparr>w_now := n\<rparr>) (receive cr (n, m) w)"
  unfolding receive_def snd_conv fst_conv
  by (rule leads_dispatch [where ids = ids]) (use assms in \<open>auto simp: restarted_def wire_ok_def\<close>)

lemma receive_none:
  assumes "dk_id (dm_kind m) = None"
  shows "quiet (w\<lparr>w_now := n\<rparr>) (receive cr (n, m) w)"
  unfolding receive_def snd_conv fst_conv by (rule dispatch_no_order [OF assms])

lemma receive_restarted:
  assumes "restarted ids w" "wire_ok ids m"
  shows "restarted ids (receive cr (n, m) w)"
proof (cases "dk_id (dm_kind m)")
  case None
  then show ?thesis using receive_none [OF None, where w = w and n = n and cr = cr] assms(1)
    by (auto simp: quiet_def restarted_def good_def answers_def)
next
  case (Some i)
  from receive_own [OF assms Some] assms Some show ?thesis
    by (auto simp: restarted_def leads_def wire_ok_def intro: moves_tables_ok)
qed

lemma backlog_restarted:
  "restarted ids w \<Longrightarrow> \<forall>(n, m) \<in> set ms. wire_ok ids m \<Longrightarrow> restarted ids (backlog cr ms w)"
  unfolding backlog_def by (induction ms arbitrary: w) (auto intro: receive_restarted)

lemma backlog_simps [simp]:
  "backlog cr [] w = w" "backlog cr ((n, m) # ms) w = backlog cr ms (receive cr (n, m) w)"
  by (simp_all add: backlog_def)

text \<open>What a message does to an order of its own or another's.\<close>

lemma receive_frame:
  assumes "restarted ids w" "wire_ok ids m" "dk_id (dm_kind m) \<noteq> Some k"
  shows "get_trade_by_order_id k (tables (receive cr (n, m) w)) = get_trade_by_order_id k (tables w) \<and>
    get_setting (status_cursor_key k) (tables (receive cr (n, m) w)) = get_setting (status_cursor_key k) (tables w) \<and>
    get_setting (trade_wiped_key k) (tables (receive cr (n, m) w)) = get_setting (trade_wiped_key k) (tables w) \<and>
    (\<exists>us. w_updates (receive cr (n, m) w) = w_updates w @ us \<and> (\<forall>u \<in> set us. tu_order_id u \<noteq> k))"
proof (cases "dk_id (dm_kind m)")
  case None
  then show ?thesis using receive_none [OF None, where w = w and n = n and cr = cr] by (simp add: quiet_def)
next
  case (Some i)
  then have i: "k \<noteq> i" using assms(3) by simp
  have l: "leads (dk_action (dm_kind m)) (dm_created_at m) (dm_trade_index m) i (w\<lparr>w_now := n\<rparr>) (receive cr (n, m) w)"
    by (rule receive_own [OF assms(1,2) Some])
  then have "row_moves (dk_action (dm_kind m)) (dm_created_at m) (dm_trade_index m) i (tables w) (tables (receive cr (n, m) w))"
    by (simp add: leads_def)
  from moves_frame [OF this, of ids k] assms Some i l show ?thesis
    by (auto simp: restarted_def wire_ok_def leads_def)
qed

lemma receive_moves:
  assumes "restarted ids w" "wire_ok ids m" "dk_id (dm_kind m) = Some i"
  shows "row_moves (dk_action (dm_kind m)) (dm_created_at m) (dm_trade_index m) i (tables w)
    (tables (receive cr (n, m) w))" "tables_ok ids (tables w)" "i \<in> ids"
  using receive_own [OF assms, where n = n and cr = cr] assms by (auto simp: leads_def restarted_def wire_ok_def)

section \<open>A sample world\<close>

text \<open>A store with one trade of order \<open>o\<close>, in a given status and with a given cursor.\<close>

definition sample_row :: "order_status \<Rightarrow> bool \<Rightarrow> bond_info option \<Rightarrow> trade_info" where
  "sample_row st mine bond = \<lparr>ti_id = ''o'', ti_order = demo_order\<lparr>oi_id := ''o'', oi_status := st, oi_is_mine := mine\<rparr>,
     ti_role = Buyer, ti_counterparty_pubkey = [], ti_current_step = StepBuyer BOrderTaken,
     ti_hold_invoice = None, ti_buyer_invoice = None, ti_trade_key_index = 4,
     ti_cooperative_cancel_state = None, ti_timeout_at = None, ti_started_at = 1, ti_completed_at = None,
     ti_outcome = None, ti_peer_rating = None, ti_peer_reviews = None, ti_peer_days = None,
     ti_rated_at = None, ti_bond = bond\<rparr>"

definition sample_db :: "trade_info list \<Rightarrow> (string \<times> string) list \<Rightarrow> trade_db" where
  "sample_db rows settings = \<lparr>td_rows = rows, td_settings = settings, td_keys = []\<rparr>"

definition sample_world2 :: "trade_db \<Rightarrow> world" where
  "sample_world2 db = \<lparr>w_db = Some db, w_down = (\<lambda>_. False), w_now = 100, w_mostro = ''node'',
     w_book = new_book, w_sessions = fmempty, w_key_map = fmempty, w_key_misses = {||},
     w_pending = fmempty, w_wakes = [], w_user_cancels = {||}, w_claims = sample_claim_env [],
     w_claim_faults = no_faults, w_updates = [], w_effects = []\<rparr>"

definition sample_crypto :: "string crypto" where
  "sample_crypto = \<lparr>cr_trade_keys = (\<lambda>_. Some ''key''), cr_pubkey = (\<lambda>k. k), cr_parse_pubkey = Some,
     cr_shared_key = (\<lambda>_ _. Some [7]), cr_valid_secret = (\<lambda>_. True), cr_chat_keys = (\<lambda>_ _. True),
     cr_bolt11_expiry = (\<lambda>_. None), cr_claim_window = (\<lambda>_. None)\<rparr>"

definition sample_message :: "core_action \<Rightarrow> i64 \<Rightarrow> core_payload option \<Rightarrow> daemon_message" where
  "sample_message a ts payload = \<lparr>dm_event_id = ''e'', dm_sender = ''node'', dm_created_at = ts, dm_valid = True,
     dm_kind = \<lparr>dk_action = a, dk_id = Some ''o'', dk_request_id = None, dk_trade_index = None, dk_payload = payload\<rparr>,
     dm_trade_pk = ''key'', dm_trade_index = 4\<rparr>"

lemmas sample_defs = sample_row_def sample_db_def sample_world2_def sample_crypto_def sample_message_def demo_order_def

lemma good_sample [simp]: "good (sample_world2 db)"
  by (simp add: good_def answers_def no_create_def sample_world2_def)

lemma tables_sample [simp]: "tables (sample_world2 db) = db"
  by (simp add: sample_world2_def)

lemma restarted_sample [simp]: "restarted ids (sample_world2 (sample_db [sample_row st mine b] ss))"
  "restarted ids (sample_world2 (sample_db [] ss))"
  by (simp_all add: restarted_def tables_ok_def sample_db_def sample_row_def order_of_def)

lemma wire_ok_sample [simp]: "is_i64 ts \<Longrightarrow> wire_ok {''o''} (sample_message a ts p)"
  by (simp add: wire_ok_def sample_message_def)

lemma id_sample [simp]: "dk_id (dm_kind (sample_message a ts p)) = Some ''o''"
  by (simp add: sample_message_def)

lemma status_sample [simp]: "status_of ''o'' (sample_db [sample_row st mine b] ss) = Some st"
  by (simp add: status_of_def get_trade_by_order_id_def sample_db_def sample_row_def order_of_def)

lemma i64_small [simp]: "0 \<le> n \<Longrightarrow> n < 1000 \<Longrightarrow> is_i64 n"
  by (simp add: is_i64_def i64_bound_defs)

section \<open>The dispatcher refines the lifecycle of its order\<close>

text \<open>
  C1: the dispatcher implements the abstract lifecycle of a trade row. As long as every statement of
  the store succeeds and no create of ours is pending, whatever a daemon message carries, the tables move only by the
  allowed moves of the message's own order (no status behind the cursor, none over a finished
  trade, no row deleted but a never-active one, none created over a row or its tombstone), they
  stay in shape with one row per order, and every update it emits is of that order. The
  confirmation of a create that is still pending renames its provisional row first
  (\<open>reconcile_order_id\<close>) and is outside this statement.
\<close>

theorem dispatch_refines_lifecycle:
  assumes "restarted ids w" and "wire_ok ids m" and "dk_id (dm_kind m) = Some i"
  shows "row_moves (dk_action (dm_kind m)) (dm_created_at m) (dm_trade_index m) i (tables w)
      (tables (dispatch_mostro_message cr m w)) \<and> restarted ids (dispatch_mostro_message cr m w) \<and>
    (\<exists>us. w_updates (dispatch_mostro_message cr m w) = w_updates w @ us \<and> (\<forall>u \<in> set us. tu_order_id u = i))"
proof -
  have "leads (dk_action (dm_kind m)) (dm_created_at m) (dm_trade_index m) i w (dispatch_mostro_message cr m w)"
    by (rule leads_dispatch [where ids = ids]) (use assms in \<open>auto simp: restarted_def wire_ok_def\<close>)
  then show ?thesis
    using assms by (auto simp: leads_def restarted_def wire_ok_def intro: moves_tables_ok)
qed

theorem dispatch_refines_lifecycle_witness:
  "row_moves A_Canceled 9 4 ''o'' (sample_db [sample_row Pending False None] [])
     (tables (dispatch_mostro_message sample_crypto (sample_message A_Canceled 9 None)
        (sample_world2 (sample_db [sample_row Pending False None] []))))"
  using dispatch_refines_lifecycle [of "{''o''}" "sample_world2 (sample_db [sample_row Pending False None] [])"
      "sample_message A_Canceled 9 None" "''o''" sample_crypto]
  by (simp add: sample_message_def wire_ok_def)

section \<open>A finished trade survives every backlog\<close>




section \<open>A wiped trade stays wiped\<close>

text \<open>One message of a wiped order, of a generation its tombstone covers: no update, no row.\<close>

lemma updates_try [simp]: "w_updates (db_try c f w) = w_updates w"
  by (simp add: db_try_def db_write_def split: option.split)

lemma updates_stages [simp]:
  "w_updates (touch j w) = w_updates w" "w_updates (perform e w) = w_updates w"
  "w_updates (on_book f w) = w_updates w" "w_updates (wake tx r w) = w_updates w"
  "w_updates (store_trade_key_index j n w) = w_updates w"
  "w_updates (persist_bond j b w) = w_updates w"
  by (simp_all add: touch_def perform_def on_book_def wake_def store_trade_key_index_def persist_bond_def)

lemma updates_lookup [simp]: "w_updates (snd (lookup_trade_key_index j w)) = w_updates w"
  by (simp add: lookup_trade_key_index_def split: option.split sum.split)

lemma wiped_arm_silent:
  assumes w: "good w" "get_trade_by_order_id i (tables w) = None" "covered i (dm_trade_index m) (tables w)"
    and k: "dk_id (dm_kind m) = Some i"
  shows "w_updates (dispatch_arm cr m RowWiped w) = w_updates w"
proof -
  have adopt: "adopt_range_remainder i (dm_kind m) pk (dm_trade_index m) ts w = (False, w)" for pk ts
    using w by (auto simp: adopt_range_remainder_def covered_def split: option.splits core_payload.splits)
  have q: "w_updates (arm_restore_session (dm_kind m) pk t w) = w_updates w"
    "w_updates (arm_cant_do (dm_kind m) pk t w) = w_updates w" for pk t
    using quiet_stages(5) [of w] quiet_cant_do [of w] by (simp_all add: quiet_def)
  have n: "w_updates (arm_new_order (dm_kind m) pk (dm_trade_index m) ts RowWiped w) = w_updates w" for pk ts
    using k adopt no_create_request [OF _ good_no_create [OF w(1)]]
    by (fastforce simp: arm_new_order_def Let_def confirm_maker_bond_def rs_trade_def
        split: option.split prod.split pending_kind.split)
  have b: "w_updates (arm_bond_slashed (dm_kind m) e w) = w_updates w" for e
    using k w by (simp add: arm_bond_slashed_def Let_def split: option.split core_payload.split)
  have p: "w_updates (arm_pay_bond_invoice cr (dm_kind m) pk t RowWiped w) = w_updates w" for pk t
    using k w by (simp add: arm_pay_bond_invoice_def no_create_claim [OF good_no_create] rs_trade_def)
  show ?thesis
    by (cases "dk_action (dm_kind m)")
       (simp_all add: dispatch_arm_def n q b p k arm_canceled_def arm_escrow_locked_def arm_add_invoice_def
         arm_pay_invoice_def arm_status_update_def arm_cooperative_cancel_def status_arm_gate_def
         arm_admin_took_dispute_def arm_add_bond_invoice_def arm_claim_ack_def Let_def
         split: option.split core_payload.split)
qed

lemma wiped_classified_silent:
  assumes w: "good w" "get_trade_by_order_id i (tables w) = None" "covered i (dm_trade_index m) (tables w)"
    and k: "dk_id (dm_kind m) = Some i"
  shows "w_updates (dispatch_classified cr m w) = w_updates w"
proof -
  let ?k = "dm_kind m" and ?pk = "dm_trade_pk m"
  have rs: "trade_row_state i (dm_trade_index m) w = RowWiped"
    using w by (auto simp: trade_row_state_def covered_def split: option.splits)
  obtain c w2 where w2: "(if dk_action ?k \<noteq> A_CantDo then intercept_take ?k ?pk w else (False, w)) = (c, w2)"
    by fastforce
  define w3 where "w3 = (if dk_action ?k \<noteq> A_CantDo
    then accept_dispute ?k ?pk (acknowledge (take_matching_add_invoice ?pk (dk_request_id ?k))
           (acknowledge_claim_submit ?k ?pk w2)) else w2)"
  have c2: "calm A_Canceled 0 (dm_trade_index m) i w w2"
    using w2 calm_intercept [OF w(1), of A_Canceled 0 "dm_trade_index m" i ?k ?pk] calm_refl [OF w(1)]
    by (auto split: if_splits)
  have c3: "calm A_Canceled 0 (dm_trade_index m) i w w3"
    using c2 calm_chain [OF calm_chain [OF calm_chain [OF c2 calm_acks(1)] calm_acks(2)] calm_dispute]
    by (simp add: w3_def)
  have "fits RowWiped i (dm_trade_index m) w3" using w calm_fits [OF c3, of RowWiped] by (simp add: fits_def)
  then have arm: "w_updates (dispatch_arm cr m RowWiped w3) = w_updates w3"
    using wiped_arm_silent [OF calm_good [OF c3] _ _ k] by (simp add: fits_def)
  have u2: "w_updates w2 = w_updates w"
    using w2 quiet_stages(1) [of w ?k ?pk] by (auto simp: quiet_def split: if_splits)
  have "quiet w2 w3"
    by (simp add: w3_def quiet_trans [OF quiet_trans [OF quiet_stages(2) quiet_stages(3)] quiet_stages(4)])
  then have u3: "w_updates w3 = w_updates w" using u2 by (simp add: quiet_def)
  have r: "rebuild_never_written ?k ?pk (dm_trade_index m) (dm_created_at m) RowWiped v = (RowWiped, v)" for v
    by (simp add: rebuild_never_written_def split: option.split)
  have "dispatch_classified cr m w = (if c then w2 else dispatch_arm cr m RowWiped w3)"
    unfolding dispatch_classified_def Let_def k option.case rs
    by (simp only: simp_thms if_False w2 prod.case r w3_def [symmetric])
  then show ?thesis using arm u2 u3 by simp
qed

lemma wiped_receive_silent:
  assumes w: "restarted ids w" "wire_ok ids m" and k: "dk_id (dm_kind m) = Some i"
    and n: "get_trade_by_order_id i (tables w) = None" "covered i (dm_trade_index m) (tables w)"
  shows "w_updates (receive cr (t, m) w) = w_updates w"
proof -
  let ?w = "w\<lparr>w_now := t\<rparr>"
  have g: "good ?w" using w(1) by (simp add: restarted_def)
  obtain c w1 where gate: "generation_gate (dk_action (dm_kind m)) i (dm_trade_index m) ?w = (c, w1)" by fastforce
  have c1: "calm A_Canceled 0 (dm_trade_index m) i ?w w1"
    using gate calm_lookup [OF g, of A_Canceled 0 "dm_trade_index m" i i] calm_refl [OF g]
    by (cases "lookup_trade_key_index i ?w") (auto simp: generation_gate_def split: if_splits option.splits)
  have u1: "w_updates w1 = w_updates w"
    using gate updates_lookup [of i ?w]
    by (cases "lookup_trade_key_index i ?w") (auto simp: generation_gate_def split: if_splits option.splits)
  have "fits RowWiped i (dm_trade_index m) w1" using n calm_fits [OF c1, of RowWiped] by (simp add: fits_def)
  then have "w_updates (dispatch_classified cr m w1) = w_updates w1"
    using wiped_classified_silent [OF calm_good [OF c1] _ _ k] by (simp add: fits_def)
  then show ?thesis
    using u1 k gate reconcile_nothing [OF calm_good [OF c1]]
    by (simp add: receive_def dispatch_mostro_message_def)
qed

text \<open>
  C3: a trade deleted on purpose never comes back while the store answers every statement and no
  create of ours is pending. Once its row is gone and the tombstone is set, no sequence of messages
  for the generations the tombstone covers (the order's whole replayed history, mixed with the
  messages of other orders) creates a row for it, lifts the tombstone or tells the user interface
  anything about it. The condition is needed: with a failing read of the tombstone the remainder of
  a range brings the order back (\<open>unread_tombstone_revives\<close>).
\<close>

theorem wiped_trade_stays_wiped:
  assumes "restarted ids w" and "\<forall>(n, m) \<in> set ms. wire_ok ids m"
    and "get_trade_by_order_id i (tables w) = None"
    and "\<forall>(n, m) \<in> set ms. dk_id (dm_kind m) = Some i \<longrightarrow> covered i (dm_trade_index m) (tables w)"
  shows "get_trade_by_order_id i (tables (backlog cr ms w)) = None \<and>
    get_setting (trade_wiped_key i) (tables (backlog cr ms w)) = get_setting (trade_wiped_key i) (tables w) \<and>
    filter (\<lambda>u. tu_order_id u = i) (w_updates (backlog cr ms w)) = filter (\<lambda>u. tu_order_id u = i) (w_updates w)"
  using assms
proof (induction ms arbitrary: w)
  case (Cons nm ms)
  obtain n m where nm: "nm = (n, m)" by fastforce
  have ok: "wire_ok ids m" using Cons.prems(2) nm by simp
  let ?w = "receive cr (n, m) w"
  have r: "restarted ids ?w" by (rule receive_restarted [OF Cons.prems(1) ok])
  have "get_trade_by_order_id i (tables ?w) = None \<and>
      get_setting (trade_wiped_key i) (tables ?w) = get_setting (trade_wiped_key i) (tables w) \<and>
      filter (\<lambda>u. tu_order_id u = i) (w_updates ?w) = filter (\<lambda>u. tu_order_id u = i) (w_updates w)"
  proof (cases "dk_id (dm_kind m) = Some i")
    case True
    have cov: "covered i (dm_trade_index m) (tables w)" using Cons.prems(4) nm True by simp
    note rm = receive_moves(1) [OF Cons.prems(1) ok True, where n = n and cr = cr]
      receive_moves(2,3) [OF Cons.prems(1) ok True]
    show ?thesis
      using moves_wiped [OF rm(1) rm(2) rm(3) Cons.prems(3) cov]
        wiped_receive_silent [OF Cons.prems(1) ok True Cons.prems(3) cov, of cr n] by simp
  next
    case False
    then show ?thesis using receive_frame [OF Cons.prems(1) ok False, of cr n] Cons.prems(3)
      by (auto simp: filter_empty_conv)
  qed
  then show ?case
    using Cons.IH [OF r] Cons.prems nm by (simp add: covered_def split_beta)
qed simp

theorem wiped_trade_stays_wiped_witness:
  "get_trade_by_order_id ''o'' (tables (backlog sample_crypto
     [(200, sample_message A_BuyerTookOrder 50 None), (201, sample_message A_NewOrder 60 None)]
     (sample_world2 (sample_db [] [(trade_wiped_key ''o'', ''9:4'')])))) = None"
proof -
  let ?db = "sample_db [] [(trade_wiped_key ''o'', ''9:4'')]"
  have cov: "covered ''o'' 4 ?db"
    by (simp add: covered_def sample_db_def get_setting_def tombstone_covers_def nth_opt_def parse_u32_def
        parse_nat_def parse_digits_def digit_val_def)
  have none: "get_trade_by_order_id ''o'' ?db = None" by (simp add: get_trade_by_order_id_def sample_db_def)
  have idx: "dm_trade_index (sample_message a ts p) = 4" for a ts p by (simp add: sample_message_def)
  show ?thesis
    using wiped_trade_stays_wiped [of "{''o''}" "sample_world2 ?db"
        "[(200, sample_message A_BuyerTookOrder 50 None), (201, sample_message A_NewOrder 60 None)]" "''o''" sample_crypto]
    by (simp add: cov none idx)
qed

text \<open>What a failed read does to the adoption of a remainder: a wiped order comes back, a row is doubled.\<close>

definition remainder_kind :: daemon_kind where
  "remainder_kind = (dm_kind (sample_message A_NewOrder 60 (Some (P_Order
     \<lparr>so_kind = Some Sell, so_status = Some S_Pending, so_amount = 0, so_fiat_code = ''VES'', so_min_amount = None,
      so_max_amount = None, so_fiat_amount = 10, so_payment_method = ''cash'', so_premium = 0,
      so_buyer_trade_pubkey = None, so_seller_trade_pubkey = None, so_created_at = Some 60,
      so_expires_at = None\<rparr>))))\<lparr>dk_trade_index := Some 4\<rparr>"

definition sample_fault :: "db_call \<Rightarrow> trade_db \<Rightarrow> world" where
  "sample_fault c db = (sample_world2 db)\<lparr>w_down := (\<lambda>d. d = c)\<rparr>"

lemmas remainder_defs = remainder_kind_def sample_fault_def adopt_range_remainder_def has_db_def db_read_def
  read_trade_def read_setting_def get_setting_def status_write_blocked_def status_sync_blocked_by_terminal_def
  current_local_status_def load_status_cursor_def trade_row_from_small_order_def book_order_def get_order_def
  new_book_def trade_wiped_key_def status_cursor_key_def role_of_kind_def persist_trade_row_def
  emit_trade_update_at_def store_trade_key_index_def db_try_def db_write_def release_finished_trade_subscriptions_def
  perform_def touch_def on_book_def save_trade_def delete_setting_def save_trade_key_def is_hard_terminal_def
  get_trade_by_order_id_def order_of_def

lemma unread_tombstone_revives:
  "let w = sample_fault (CGetSetting (trade_wiped_key ''o'')) (sample_db [] [(trade_wiped_key ''o'', ''9:4'')])
   in get_trade_by_order_id ''o'' (tables w) = None \<and>
      get_trade_by_order_id ''o'' (tables (snd (adopt_range_remainder ''o'' remainder_kind ''key'' 4 60 w))) \<noteq> None"
  by (simp add: Let_def remainder_defs sample_defs)

lemma unread_row_is_doubled:
  "let w = sample_fault CGetTrade (sample_db [(sample_row Pending True None)\<lparr>ti_id := ''fresh''\<rparr>] [])
   in map order_of (td_rows (tables (snd (adopt_range_remainder ''o'' remainder_kind ''key'' 4 60 w)))) = [''o'', ''o'']"
  by (simp add: Let_def remainder_defs sample_defs)


section \<open>Newest first\<close>



text \<open>
  The replay cursor of an order never goes back: whatever arrives, in whatever order, the
  timestamp below which messages are refused only grows.
\<close>

theorem cursor_never_recedes:
  assumes "restarted ids w" and "\<forall>(n, m) \<in> set ms. wire_ok ids m" and "cursor_of i (tables w) = Some c"
  shows "\<exists>c' \<ge> c. cursor_of i (tables (backlog cr ms w)) = Some c'"
  using assms
proof (induction ms arbitrary: w c)
  case (Cons nm ms)
  obtain n m where nm: "nm = (n, m)" by fastforce
  have ok: "wire_ok ids m" using Cons.prems(2) nm by simp
  have "\<exists>c' \<ge> c. cursor_of i (tables (receive cr (n, m) w)) = Some c'"
  proof (cases "dk_id (dm_kind m) = Some i")
    case True
    from moves_cursor [OF receive_moves(1) [OF Cons.prems(1) ok True] Cons.prems(3)] show ?thesis .
  next
    case False
    then show ?thesis using receive_frame [OF Cons.prems(1) ok False, of cr n] Cons.prems(3)
      by (auto simp: cursor_of_def)
  qed
  then obtain c' where "c \<le> c'" "cursor_of i (tables (receive cr (n, m) w)) = Some c'" by blast
  with Cons.IH [OF receive_restarted [OF Cons.prems(1) ok] _ this(2)] Cons.prems(2) nm show ?case
    by (auto intro: order_trans)
qed auto

end
