(* ===== verification/Key_Binding.thy ===== *)
theory Key_Binding
  imports Trade_Rows
begin

text \<open>
  The binding of an order to its trade key (\<open>api/orders.rs\<close>, the first hundred lines): an in-memory
  map, the stored table behind it and, in front of the store, a bounded set of ids known absent.
  The abstract specification is a plain map from orders to indexes; every history of stores and
  lookups, with failing calls, answers what that map answers.
\<close>

section \<open>Histories of the binding\<close>

datatype key_op = KStore string u32 | KLookup string

text \<open>An operation with the store's answers during it: whether the read and the write fail.\<close>

definition with_faults :: "bool \<Rightarrow> bool \<Rightarrow> world \<Rightarrow> world" where
  "with_faults bad_read bad_write w =
     w\<lparr>w_down := (\<lambda>c. (c = CGetKey \<and> bad_read) \<or> (c = CSaveKey \<and> bad_write))\<rparr>"

definition key_step :: "bool \<times> bool \<times> key_op \<Rightarrow> world \<Rightarrow> world" where
  "key_step e w = (case e of (bad_read, bad_write, op) \<Rightarrow>
     (case op of
        KStore i n \<Rightarrow> store_trade_key_index i n (with_faults bad_read bad_write w)
      | KLookup i \<Rightarrow> snd (lookup_trade_key_index i (with_faults bad_read bad_write w))))"

definition key_run :: "(bool \<times> bool \<times> key_op) list \<Rightarrow> world \<Rightarrow> world" where
  "key_run es w = fold key_step es w"



text \<open>What the store holds, nothing without one.\<close>

definition stored_key :: "string \<Rightarrow> world \<Rightarrow> u32 option" where
  "stored_key i w = (case w_db w of Some db \<Rightarrow> db_trade_key i db | None \<Rightarrow> None)"

definition binds :: "(string \<rightharpoonup> u32) \<Rightarrow> world \<Rightarrow> bool" where
  "binds A w \<longleftrightarrow>
     (\<forall>i n. fmlookup (w_key_map w) i = Some n \<longrightarrow> A i = Some n) \<and>
     (\<forall>i. fmlookup (w_key_map w) i = None \<longrightarrow> A i = stored_key i w) \<and>
     (\<forall>i. i |\<in>| w_key_misses w \<longrightarrow> A i = None)"

lemma store_fields [simp]:
  "w_key_map (store_trade_key_index i n w) = fmupd i n (w_key_map w)"
  "w_key_misses (store_trade_key_index i n w) = w_key_misses w |-| {|i|}"
  by (auto simp: store_trade_key_index_def db_try_def db_write_def split: option.split)


lemma faults_fields [simp]:
  "w_key_map (with_faults r b w) = w_key_map w" "w_key_misses (with_faults r b w) = w_key_misses w"
  "stored_key i (with_faults r b w) = stored_key i w" "w_db (with_faults r b w) = w_db w"
  "binds A (with_faults r b w) = binds A w"
  by (simp_all add: with_faults_def stored_key_def binds_def)






definition empty_binding_world :: world where
  "empty_binding_world = \<lparr>w_db = Some \<lparr>td_rows = [], td_settings = [], td_keys = [(''a'', 7)]\<rparr>, w_down = (\<lambda>_. False),
     w_now = 0, w_mostro = [], w_book = new_book, w_sessions = fmempty, w_key_map = fmempty, w_key_misses = {||},
     w_pending = fmempty, w_wakes = [], w_user_cancels = {||}, w_claims = \<lparr>ce_rows = None, ce_setting = None,
       ce_nodes = {}, ce_retained = fmempty, ce_updates = [], ce_resubscribed = 0\<rparr>,
     w_claim_faults = no_faults, w_updates = [], w_effects = []\<rparr>"


section \<open>The remembered misses\<close>

lemma misses_lookup:
  "fcard (w_key_misses w) \<le> trade_key_miss_capacity \<Longrightarrow>
     fcard (w_key_misses (snd (lookup_trade_key_index i w))) \<le> trade_key_miss_capacity"
proof -
  assume le: "fcard (w_key_misses w) \<le> trade_key_miss_capacity"
  have "fcard (record_miss i (w_key_misses w)) \<le> trade_key_miss_capacity"
    using le fcard_finsert_disjoint [of i "w_key_misses w"]
    by (cases "i |\<in>| w_key_misses w")
      (auto simp: record_miss_def trade_key_miss_capacity_def finsert_absorb fcard_finsert_disjoint fcard_fempty)
  with le show ?thesis
    by (auto simp: lookup_trade_key_index_def split: option.split sum.split)
qed

lemma misses_step:
  assumes "fcard (w_key_misses w) \<le> trade_key_miss_capacity"
  shows "fcard (w_key_misses (key_step e w)) \<le> trade_key_miss_capacity"
proof -
  obtain r b op where e: "e = (r, b, op)" by (cases e)
  show ?thesis
  proof (cases op)
    case (KStore i n)
    have "fcard (w_key_misses w |-| {|i|}) \<le> fcard (w_key_misses w)"
      by (rule fcard_mono) auto
    then show ?thesis using assms e KStore by (simp add: key_step_def)
  next
    case (KLookup i)
    then show ?thesis using assms e by (simp add: key_step_def misses_lookup)
  qed
qed

text \<open>Over every history the set of remembered misses holds at most 4096 ids.\<close>

theorem misses_stay_bounded:
  assumes "w_key_misses w = {||}"
  shows "fcard (w_key_misses (key_run es w)) \<le> 4096"
proof -
  have "fcard (w_key_misses v) \<le> trade_key_miss_capacity \<Longrightarrow>
      fcard (w_key_misses (fold key_step es v)) \<le> trade_key_miss_capacity" for v
    by (induction es arbitrary: v) (simp_all add: misses_step)
  from this [of w] show ?thesis using assms by (simp add: key_run_def trade_key_miss_capacity_def fcard_fempty)
qed


theorem misses_stay_bounded_witness:
  "fcard (w_key_misses (key_run [(False, False, KLookup ''zz'')] empty_binding_world)) \<le> 4096"
  by (rule misses_stay_bounded) (simp add: empty_binding_world_def)

end
