(* ===== verification/Row_Endings.thy ===== *)
theory Row_Endings
  imports Dispatch_Safety
begin

text \<open>
  The rows outside the dispatcher: the confirmed take that creates one, the cancels, the expired
  bond and the abandoned maker order that end one, the restore that rebuilds the parked ones. They
  share their tables with the dispatcher; \<open>row_event\<close> mixes all of them in one history.
\<close>

section \<open>Worlds whose tables are in shape\<close>

lemma restarted_pure [simp]:
  "restarted ids (touch j w) = restarted ids w" "restarted ids (perform e w) = restarted ids w"
  "restarted ids (on_book f w) = restarted ids w" "restarted ids (w\<lparr>w_sessions := s\<rparr>) = restarted ids w"
  "restarted ids (w\<lparr>w_updates := us\<rparr>) = restarted ids w" "restarted ids (w\<lparr>w_key_map := km\<rparr>) = restarted ids w"
  "restarted ids (w\<lparr>w_key_misses := ms\<rparr>) = restarted ids w" "restarted ids (w\<lparr>w_now := n\<rparr>) = restarted ids w"
  by (simp_all add: restarted_def good_def answers_def touch_def perform_def on_book_def)

lemma restarted_try:
  assumes "restarted ids w" and "tables_ok ids (f (tables w))"
  shows "restarted ids (db_try c f w)"
  using assms by (simp add: restarted_def answers_try)

lemma restarted_emit [simp]:
  "restarted ids (emit_trade_update_at i s r t w) = restarted ids w"
  "restarted ids (emit_trade_update_with i s r w) = restarted ids w"
  "restarted ids (emit_trade_update i s w) = restarted ids w"
  by (simp_all add: emit_trade_update_at_def emit_trade_update_with_def emit_trade_update_def Let_def
      release_finished_trade_subscriptions_def)

lemma restarted_setting:
  assumes "restarted ids w"
  shows "restarted ids (db_try c (set_setting k v) w)" "restarted ids (db_try c (save_trade_key i n) w)"
  by (rule restarted_try [OF assms], use assms in \<open>simp add: restarted_def\<close>)+

lemma restarted_store_key: "restarted ids w \<Longrightarrow> restarted ids (store_trade_key_index i n w)"
  by (simp add: store_trade_key_index_def restarted_setting)

lemma restarted_annotate:
  assumes "restarted ids w" "annotates f"
  shows "restarted ids (db_try c (update_rows i f) w)"
  by (rule restarted_try) (use assms in \<open>simp_all add: restarted_def tables_ok_update annotatesD\<close>)

lemma restarted_fields: "restarted ids w \<Longrightarrow> restarted ids (db_try c (update_trade_fields i s h amt) w)"
  by (rule restarted_try) (simp_all add: restarted_def update_trade_fields_def tables_ok_update)

lemma restarted_bond: "restarted ids w \<Longrightarrow> restarted ids (persist_bond i b w)"
  by (simp add: persist_bond_def update_trade_bond_def restarted_annotate)

lemma restarted_wipe_row:
  assumes "restarted ids w"
  shows "restarted ids (snd (wipe_trade_row i ts n w))" "fst (wipe_trade_row i ts n w) = Inr ()"
proof -
  let ?w = "w\<lparr>w_db := Some (delete_trade_by_order_id i (tables w))\<rparr>"
  have r: "restarted ids ?w" using assms by (simp add: restarted_def delete_tables_ok)
  have "restarted ids (db_try c (set_setting k v) (touch i ?w))" for c k v
    by (rule restarted_setting) (use r in simp)
  then show "restarted ids (snd (wipe_trade_row i ts n w))" "fst (wipe_trade_row i ts n w) = Inr ()"
    using assms by (simp_all add: wipe_trade_row_def restarted_def [of ids w] answers_write Let_def
        release_finished_trade_subscriptions_def)
qed

lemma restarted_wipe:
  assumes "restarted ids w"
  shows "restarted ids (snd (wipe_never_active_trade i b ts n w))"
    "fst (wipe_never_active_trade i b ts n w) = Inr ()"
  using restarted_wipe_row [OF assms, of i ts n] assms
  by (cases "wipe_trade_row i ts n w"; simp add: wipe_never_active_trade_def restarted_def [of ids w] Let_def)+

lemma restarted_save:
  assumes "restarted ids w"
    and own: "\<And>r. r \<in> set (td_rows (tables w)) \<Longrightarrow> order_of r = order_of t \<Longrightarrow> ti_id r = ti_id t"
    and "ti_id t = order_of t \<or> ti_id t \<notin> ids"
  shows "restarted ids (snd (persist_trade_row t w))" "fst (persist_trade_row t w) = Inr ()"
proof -
  have "tables_ok ids (save_trade t (delete_setting k (tables w)))" for k
    by (rule tables_ok_save) (use assms in \<open>auto simp: restarted_def\<close>)
  then show "restarted ids (snd (persist_trade_row t w))" "fst (persist_trade_row t w) = Inr ()"
    using assms(1) by (simp_all add: persist_trade_row_def Let_def restarted_def answers_try answers_write
        good_def answers_def perform_def touch_def on_book_def)
qed

lemma restarted_lock: "restarted ids w \<Longrightarrow> restarted ids (snd (lock_maker_bond i t n w))"
  by (simp add: lock_maker_bond_def Let_def restarted_fields restarted_bond split: option.split)

section \<open>Every history of the rows\<close>

datatype row_event =
    RMessage i64 daemon_message
  | RTake trade_info
  | RLocalCancel string
  | RPublicCancel string order_status
  | RBondExpiry trade_info i64
  | RAbandon string
  | RRestore "string \<Rightarrow> order_info option" restore_session_info

definition row_step :: "'k crypto \<Rightarrow> row_event \<Rightarrow> world \<Rightarrow> world" where
  "row_step cr e w = (case e of
      RMessage n m \<Rightarrow> receive cr (n, m) w
    | RTake t \<Rightarrow> persist_confirmed_take t w
    | RLocalCancel i \<Rightarrow> apply_local_cancel i w
    | RPublicCancel i s \<Rightarrow> snd (wipe_on_public_cancel i s w)
    | RBondExpiry t now \<Rightarrow> snd (close_expired_bond_trade t now w)
    | RAbandon i \<Rightarrow> snd (abandon_maker_bond cr i w)
    | RRestore fetch info \<Rightarrow> persist_restored_bond_rows fetch info w)"

text \<open>
  What the environment guarantees: wire messages, a fresh row id for a take (a UUID), and public
  orders that carry the id they were asked for.
\<close>

definition answers_id :: "(string \<Rightarrow> order_info option) \<Rightarrow> bool" where
  "answers_id f \<longleftrightarrow> (\<forall>i ord. f i = Some ord \<longrightarrow> oi_id ord = i)"

definition row_event_ok :: "string set \<Rightarrow> world \<Rightarrow> row_event \<Rightarrow> bool" where
  "row_event_ok ids w e \<longleftrightarrow> (case e of
      RMessage n m \<Rightarrow> wire_ok ids m
    | RTake t \<Rightarrow> ti_id t \<notin> ids \<and> ti_id t \<notin> ti_id ` set (td_rows (tables w))
    | RRestore fetch info \<Rightarrow> answers_id fetch \<and> answers_id (\<lambda>i. book_order i w)
    | _ \<Rightarrow> True)"

fun row_run :: "'k crypto \<Rightarrow> row_event list \<Rightarrow> world \<Rightarrow> world" where
  "row_run cr [] w = w"
| "row_run cr (e # es) w = row_run cr es (row_step cr e w)"

fun row_run_ok :: "string set \<Rightarrow> 'k crypto \<Rightarrow> row_event list \<Rightarrow> world \<Rightarrow> bool" where
  "row_run_ok ids cr [] w \<longleftrightarrow> True"
| "row_run_ok ids cr (e # es) w \<longleftrightarrow> row_event_ok ids w e \<and> row_run_ok ids cr es (row_step cr e w)"

lemma restarted_take:
  assumes "restarted ids w" "ti_id t \<notin> ids" "ti_id t \<notin> ti_id ` set (td_rows (tables w))"
  shows "restarted ids (persist_confirmed_take t w)"
proof -
  let ?w = "db_try CDeleteTrade (delete_trade_by_order_id (order_of t)) w"
  have w: "restarted ids ?w"
    by (rule restarted_try) (use assms(1) in \<open>simp_all add: restarted_def delete_tables_ok\<close>)
  have rows: "td_rows (tables ?w) = filter (\<lambda>r. order_of r \<noteq> order_of t) (td_rows (tables w))"
    using assms(1) by (simp add: restarted_def answers_try delete_trade_by_order_id_def)
  have "restarted ids (snd (persist_trade_row t ?w))"
    by (rule restarted_save [OF w]) (use assms(2) in \<open>auto simp: rows\<close>)
  then show ?thesis using assms(1) by (simp add: persist_confirmed_take_def restarted_def)
qed

lemma restarted_local_cancel: "restarted ids w \<Longrightarrow> restarted ids (apply_local_cancel i w)"
  by (simp add: apply_local_cancel_def Let_def set_cooperative_cancel_state_def restarted_annotate annotates_def
      order_of_def split: sum.split option.split)

lemma restarted_public_cancel: "restarted ids w \<Longrightarrow> restarted ids (snd (wipe_on_public_cancel i s w))"
  using restarted_wipe [of ids w]
  by (auto simp: wipe_on_public_cancel_def split: sum.split option.split prod.split) (metis snd_conv)+

lemma restarted_expiry: "restarted ids w \<Longrightarrow> restarted ids (snd (close_expired_bond_trade t now w))"
proof -
  assume w: "restarted ids w"
  have wipe: "restarted ids (snd (wipe_never_active_trade i b ts n (emit_trade_update_with i s r w)))" for i b ts n s r
    by (rule restarted_wipe(1)) (use w in simp)
  have lock: "restarted ids (snd (lock_maker_bond i c n w))" for i c n by (rule restarted_lock [OF w])
  show ?thesis
    using w wipe lock
    by (simp add: close_expired_bond_trade_def Let_def split_beta split: option.split sum.split)
qed


lemma restarted_abandon: "restarted ids w \<Longrightarrow> restarted ids (snd (abandon_maker_bond cr i w))"
proof -
  assume w: "restarted ids w"
  have wipe: "restarted ids (snd (wipe_never_active_trade i b ts n (emit_trade_update_with i s r w)))" for b ts n s r
    by (rule restarted_wipe(1)) (use w in simp)
  have purge: "restarted ids (v\<lparr>w_pending := purge_detached_pending_request k (w_pending v)\<rparr>)"
    if "restarted ids v" for v k
    using that by (auto simp: restarted_def good_def answers_def no_create_def purge_detached_pending_request_def
        split: option.splits if_splits)
  show ?thesis
    using w wipe purge
    by (simp add: abandon_maker_bond_def Let_def split_beta split: option.split sum.split)
qed

lemma restored_row_ids:
  assumes "\<And>ord. book = Some ord \<Longrightarrow> oi_id ord = i"
  shows "ti_id (restored_bond_row node i n st book now) = i" "order_of (restored_bond_row node i n st book now) = i"
  using assms by (auto simp: restored_bond_row_def order_of_def Let_def split: option.split)

lemma restarted_restored:
  assumes w: "restarted ids w" and none: "get_trade_by_order_id i (tables w) = None"
    and id: "\<And>ord. book = Some ord \<Longrightarrow> oi_id ord = i"
  shows "restarted ids (snd (persist_trade_row (restored_bond_row node i n s book now) (store_trade_key_index i n w)))"
proof (rule restarted_save(1) [OF restarted_store_key [OF w]])
  fix row
  assume "row \<in> set (td_rows (tables (store_trade_key_index i n w)))"
    "order_of row = order_of (restored_bond_row node i n s book now)"
  then show "ti_id row = ti_id (restored_bond_row node i n s book now)"
    using none w by (auto simp: restored_row_ids [OF id] get_trade_None store_trade_key_index_def restarted_def
        answers_try good_def answers_def save_trade_key_def)
qed (simp add: restored_row_ids [OF id])

lemma restarted_restore_row:
  assumes w: "restarted ids w" and b: "answers_id fetch" "answers_id (\<lambda>i. book_order i w)"
  shows "restarted ids (restore_bond_row fetch r w)"
  using w b by (auto simp: restore_bond_row_def Let_def restarted_def [of ids w] split_beta answers_id_def
      split: option.split sum.split intro!: restarted_restored [OF w])


lemma book_order_pure [simp]:
  "book_order j (touch i w) = book_order j w" "book_order j (perform e w) = book_order j w"
  "book_order j (w\<lparr>w_db := d\<rparr>) = book_order j w" "book_order j (w\<lparr>w_updates := us\<rparr>) = book_order j w"
  "book_order j (w\<lparr>w_key_map := km, w_key_misses := ms\<rparr>) = book_order j w"
  by (simp_all add: book_order_def touch_def perform_def on_book_def get_order_def touch_trade_def)

lemma book_order_stages [simp]:
  "book_order j (db_try c f w) = book_order j w"
  "book_order j (snd (persist_trade_row t w)) = book_order j w"
  "book_order j (emit_trade_update_at i s r ts w) = book_order j w"
  "book_order j (store_trade_key_index i n w) = book_order j w"
  by (auto simp: db_try_def db_write_def persist_trade_row_def Let_def emit_trade_update_at_def
      release_finished_trade_subscriptions_def store_trade_key_index_def split: option.split)

lemma book_order_restore [simp]: "book_order j (restore_bond_row fetch r w) = book_order j w"
  by (auto simp: restore_bond_row_def Let_def split_beta emit_trade_update_def emit_trade_update_with_def
      split: option.split sum.split)

lemma restarted_restore:
  assumes "restarted ids w" "answers_id fetch" "answers_id (\<lambda>i. book_order i w)"
  shows "restarted ids (persist_restored_bond_rows fetch info w)"
proof -
  have "restarted ids (fold (restore_bond_row fetch) rs w)" for rs
    using assms by (induction rs arbitrary: w) (simp_all add: restarted_restore_row)
  then show ?thesis using assms(1) by (simp add: persist_restored_bond_rows_def)
qed

lemma restarted_row_step:
  "restarted ids w \<Longrightarrow> row_event_ok ids w e \<Longrightarrow> restarted ids (row_step cr e w)"
  by (cases e)
     (simp_all add: row_step_def row_event_ok_def receive_restarted restarted_take restarted_local_cancel
        restarted_public_cancel restarted_expiry restarted_abandon restarted_restore)

lemma restarted_row_run:
  "restarted ids w \<Longrightarrow> row_run_ok ids cr es w \<Longrightarrow> restarted ids (row_run cr es w)"
  by (induction es arbitrary: w) (simp_all add: restarted_row_step)

text \<open>
  C26: One row per order, whatever happens: confirmed takes, daemon messages in any order, cancels from
  either side, expired bonds, abandoned orders and restored rows never leave two rows of an order
  or two rows under one primary key, as long as every statement of the store succeeds, no create of
  ours is pending, and each event is well formed (\<open>row_run_ok\<close>): message timestamps are 64-bit, a
  take's row has a fresh primary key, and restored orders answer to their own ids. A failed read of
  the row is enough for a second one (\<open>unread_row_is_doubled\<close>).
\<close>

theorem one_row_per_order:
  assumes "restarted ids w" and "row_run_ok ids cr es w"
  shows "distinct (map ti_id (td_rows (tables (row_run cr es w)))) \<and>
    distinct (map order_of (td_rows (tables (row_run cr es w))))"
  using restarted_row_run [OF assms] by (simp add: restarted_def tables_ok_def)

theorem one_row_per_order_witness:
  "distinct (map order_of (td_rows (tables (row_run sample_crypto
      [RTake ((sample_row WaitingPayment False None)\<lparr>ti_id := ''fresh''\<rparr>), RMessage 200 (sample_message A_Canceled 50 None),
       RPublicCancel ''o'' Canceled]
      (sample_world2 (sample_db [sample_row Pending False None] []))))))"
proof -
  have "row_run_ok {''o''} sample_crypto
      [RTake ((sample_row WaitingPayment False None)\<lparr>ti_id := ''fresh''\<rparr>), RMessage 200 (sample_message A_Canceled 50 None),
       RPublicCancel ''o'' Canceled]
      (sample_world2 (sample_db [sample_row Pending False None] []))"
    by (simp add: row_event_ok_def) (simp add: sample_db_def sample_row_def)
  from one_row_per_order [OF restarted_sample(1) this] show ?thesis by simp
qed

end
