(* ===== verification/Row_Outcomes.thy ===== *)
theory Row_Outcomes
  imports Row_Endings
begin

text \<open>
  What the operations on a trade row come to: a rebuilt row holds only what its message proves,
  what a cancel wipes over each of its channels, an unpaid bond ends when its window does and
  an abandoned maker order answers each failure by name.
\<close>

section \<open>A rebuilt row\<close>

lemma get_trade_save [simp]: "get_trade (ti_id t) (save_trade t db) = Some t"
proof -
  have "find (\<lambda>r. ti_id r = ti_id t) (filter (\<lambda>r. ti_id r \<noteq> ti_id t) rows @ [t]) = Some t" for rows
    by (induction rows) auto
  then show ?thesis by (simp add: get_trade_def save_trade_def)
qed

text \<open>A save that reports success has written the row, and touched nothing but the store and the doorbell.\<close>

lemma persistedD:
  assumes "persist_trade_row t w = (Inr r, w')"
  shows "\<exists>db. w_db w' = Some db \<and> get_trade (ti_id t) db = Some t"
    "w_key_map w' = w_key_map w" "w_updates w' = w_updates w" "w_now w' = w_now w"
  using assms
  by (auto simp: persist_trade_row_def Let_def db_write_def db_try_def perform_def touch_def on_book_def
      split: option.splits if_splits)

lemma updates_of_emit [simp]:
  "w_updates (emit_trade_update_at i s r ts w) =
     w_updates w @ [\<lparr>tu_order_id = i, tu_status = s, tu_reason = r, tu_occurred_at = ts\<rparr>]"
  "w_db (emit_trade_update_at i s r ts w) = w_db w" "w_key_map (emit_trade_update_at i s r ts w) = w_key_map w"
  "w_sessions (emit_trade_update_at i s r ts w) = w_sessions w"
  by (simp_all add: emit_trade_update_at_def Let_def release_finished_trade_subscriptions_def
      perform_def touch_def on_book_def)

lemma store_key_map [simp]:
  "w_key_map (store_trade_key_index i n w) = fmupd i n (w_key_map w)"
  "w_updates (store_trade_key_index i n w) = w_updates w" "w_now (store_trade_key_index i n w) = w_now w"
  by (auto simp: store_trade_key_index_def db_try_def db_write_def split: option.split)

lemma row_of_small_order:
  assumes "trade_row_from_small_order now i so role mine idx cp creator st = Some t"
  shows "ti_id t = i" "order_of t = i" "ti_role t = role" "oi_is_mine (ti_order t) = mine"
    "ti_trade_key_index t = idx" "ti_counterparty_pubkey t = cp" "oi_status (ti_order t) = st"
    "so_kind so = Some (oi_kind (ti_order t))"
  using assms by (auto simp: trade_row_from_small_order_def Let_def order_of_def split: option.splits)

text \<open>The party a payload or the protocol proves this client to be.\<close>

definition names :: "string option \<Rightarrow> string \<Rightarrow> bool" where
  "names key pk \<longleftrightarrow> (\<exists>k. key = Some k \<and> eq_ignore_ascii_case k pk)"

lemma proven_role_party:
  assumes "proven_role a so pk = Some role"
  shows "(role = Buyer \<and> names (so_buyer_trade_pubkey so) pk) \<or> (role = Seller \<and> names (so_seller_trade_pubkey so) pk) \<or>
    (so_buyer_trade_pubkey so = None \<and> so_seller_trade_pubkey so = None \<and>
      (a = A_AddInvoice \<and> role = Buyer \<or> a = A_PayInvoice \<and> role = Seller))"
  using assms by (auto simp: proven_role_def names_def Let_def split: if_splits option.splits core_action.splits)

lemma rebuilt_row_is_written:
  assumes "rebuild_trade_from_dm kind i pk idx ts w = (Some t, w')"
  shows "\<exists>db. w_db w' = Some db \<and> get_trade i db = Some t"
proof -
  obtain st r w1 so role mine cp where
    row: "trade_row_from_small_order (w_now w) i so role mine idx cp [] st = Some t"
    and "persist_trade_row t (store_trade_key_index i idx w) = (Inr r, w1)" "w' = emit_trade_update_at i st None ts w1"
    using assms by (auto simp: rebuild_trade_from_dm_def Let_def split: if_splits option.splits sum.splits prod.splits)
  then show ?thesis using persistedD(1) row_of_small_order(1) [OF row] by fastforce
qed

text \<open>
  A trade rebuilt from a daemon message claims only what the message proves: the role is that of
  the party whose trade key decrypted it (or the one the action addresses when no party is named),
  the counterparty is the other named key, the trade is ours as maker exactly when role and kind
  say so; the row is stored under that key's index, the key is bound to the order, and the user
  interface gets one update, dated by the message.
\<close>

theorem rebuilt_row_is_proven:
  assumes "rebuild_trade_from_dm kind i pk idx ts w = (Some t, w')"
  shows "\<exists>so. payload_order (dk_payload kind) = Some so \<and> \<not> describes_no_trade (dk_action kind) \<and>
    order_of t = i \<and> ti_trade_key_index t = idx \<and>
    ((ti_role t = Buyer \<and> names (so_buyer_trade_pubkey so) pk) \<or> (ti_role t = Seller \<and> names (so_seller_trade_pubkey so) pk) \<or>
     (so_buyer_trade_pubkey so = None \<and> so_seller_trade_pubkey so = None \<and>
      (dk_action kind = A_AddInvoice \<and> ti_role t = Buyer \<or> dk_action kind = A_PayInvoice \<and> ti_role t = Seller))) \<and>
    ti_counterparty_pubkey t = (case (if ti_role t = Buyer then so_seller_trade_pubkey so else so_buyer_trade_pubkey so)
      of Some k \<Rightarrow> k | None \<Rightarrow> []) \<and>
    oi_is_mine (ti_order t) = (oi_kind (ti_order t) = Sell \<and> ti_role t = Seller \<or> oi_kind (ti_order t) = Buy \<and> ti_role t = Buyer) \<and>
    (\<exists>db. w_db w' = Some db \<and> get_trade i db = Some t) \<and> fmlookup (w_key_map w') i = Some idx \<and>
    w_updates w' = w_updates w @ [\<lparr>tu_order_id = i, tu_status = oi_status (ti_order t), tu_reason = None, tu_occurred_at = ts\<rparr>]"
proof -
  obtain so role st where so: "payload_order (dk_payload kind) = Some so" "proven_role (dk_action kind) so pk = Some role"
    and act: "\<not> describes_no_trade (dk_action kind)"
    and row: "trade_row_from_small_order (w_now w) i so role (is_maker_of (so_kind so) role) idx
      (case (case role of Buyer \<Rightarrow> so_seller_trade_pubkey so | Seller \<Rightarrow> so_buyer_trade_pubkey so) of Some k \<Rightarrow> k | None \<Rightarrow> [])
      [] st = Some t"
    and saved: "\<exists>r w1. persist_trade_row t (store_trade_key_index i idx w) = (Inr r, w1) \<and>
      w' = emit_trade_update_at i st None ts w1"
    using assms by (auto simp: rebuild_trade_from_dm_def Let_def split: if_splits option.splits sum.splits prod.splits)
  obtain r w1 where w1: "persist_trade_row t (store_trade_key_index i idx w) = (Inr r, w1)"
    "w' = emit_trade_update_at i st None ts w1" using saved by blast
  note r = row_of_small_order [OF row]
  show ?thesis
    using so act r proven_role_party [OF so(2)] persistedD [OF w1(1)] w1(2)
    by (intro exI [of _ so]) (auto simp: is_maker_of_def split: trade_role.splits)
qed


text \<open>A message of the daemon, for the witnesses: \<open>add-invoice\<close> with an order that names both keys.\<close>

definition sample_small :: "string option \<Rightarrow> string option \<Rightarrow> small_order" where
  "sample_small buyer seller = \<lparr>so_kind = Some Sell, so_status = Some S_WaitingBuyerInvoice, so_amount = 1000,
     so_fiat_code = ''EUR'', so_min_amount = None, so_max_amount = None, so_fiat_amount = 10,
     so_payment_method = ''cash'', so_premium = 0, so_buyer_trade_pubkey = buyer, so_seller_trade_pubkey = seller,
     so_created_at = Some 5, so_expires_at = None\<rparr>"

definition sample_add_invoice :: daemon_kind where
  "sample_add_invoice = dm_kind (sample_message A_AddInvoice 50 (Some (P_Order (sample_small (Some ''KEY'') (Some ''other'')))))"

lemma sample_keys: "eq_ignore_ascii_case ''KEY'' ''key''" "\<not> eq_ignore_ascii_case ''other'' ''key''"
  by (simp_all add: eq_ignore_ascii_case_def to_ascii_lowercase_def ascii_lower_char_def char_of_def bit_Suc bit_0)

lemma sample_rebuild:
  "\<exists>t w'. rebuild_trade_from_dm sample_add_invoice ''o'' ''key'' 4 50 (sample_world2 (sample_db [] [])) = (Some t, w')"
  by (simp add: rebuild_trade_from_dm_def sample_add_invoice_def sample_message_def describes_no_trade_def
      payload_order_def proven_role_def sample_small_def sample_keys
      trade_row_from_small_order_def map_core_status_def persist_trade_row_def Let_def db_write_def
      db_try_def store_trade_key_index_def sample_world2_def has_db_def perform_def touch_def on_book_def)

theorem rebuilt_row_is_proven_witness:
  "\<exists>t. ti_role t = Buyer \<and> ti_counterparty_pubkey t = ''other'' \<and> ti_trade_key_index t = 4 \<and>
     get_trade ''o'' (tables (snd (rebuild_trade_from_dm sample_add_invoice ''o'' ''key'' 4 50
       (sample_world2 (sample_db [] []))))) = Some t"
proof -
  obtain t w' where r: "rebuild_trade_from_dm sample_add_invoice ''o'' ''key'' 4 50 (sample_world2 (sample_db [] [])) = (Some t, w')"
    using sample_rebuild by blast
  have so: "payload_order (dk_payload sample_add_invoice) = Some (sample_small (Some ''KEY'') (Some ''other''))"
    by (simp add: sample_add_invoice_def sample_message_def payload_order_def)
  have "\<not> names (Some ''other'') ''key''"
    by (simp add: names_def sample_keys)
  then have "ti_role t = Buyer"
    using rebuilt_row_is_proven [OF r] so by (auto simp: sample_small_def)
  then show ?thesis
    using rebuilt_row_is_proven [OF r] so r by (auto simp: sample_small_def)
qed

section \<open>Both ends of a cancel\<close>

text \<open>What a cancel changes for the user: the rows, the sessions and the book.\<close>

definition outcome ::
  "world \<Rightarrow> trade_info list \<times> sessions \<times> (string, order_info) fmap \<times> (string, order_info) fmap" where
  "outcome w = (td_rows (tables w), w_sessions w, bs_orders (bk_state (w_book w)), bk_wire (w_book w))"

lemma outcome_pure [simp]:
  "outcome (touch j w) = outcome w" "outcome (perform e w) = outcome w"
  "outcome (w\<lparr>w_updates := us\<rparr>) = outcome w" "outcome (w\<lparr>w_user_cancels := uc\<rparr>) = outcome w"
  "outcome (emit_trade_update_at i s r t w) = outcome w"
  by (simp_all add: outcome_def touch_def perform_def on_book_def touch_trade_def emit_trade_update_at_def
      release_finished_trade_subscriptions_def Let_def)

lemma outcome_setting [simp]: "outcome (db_try c (set_setting k v) w) = outcome w"
  by (simp add: outcome_def db_try_def db_write_def set_setting_def split: option.split)

lemma outcome_cursor [simp]: "outcome (record_status_event i t w) = outcome w"
  by (simp add: record_status_event_def Let_def)

lemma outcome_reason [simp]: "outcome (snd (bond_cancel_reason i w)) = outcome w"
  by (simp add: bond_cancel_reason_def take_user_cancel_def split: option.split)

definition book_view :: "order_book \<Rightarrow> (string, order_info) fmap \<times> (string, order_info) fmap" where
  "book_view k = (bs_orders (bk_state k), bk_wire k)"

lemma same_upd: "fmlookup m k = Some v \<Longrightarrow> fmupd k v m = m"
  by (rule fmap_ext) auto

lemma idle_drop: "fmlookup m k = None \<Longrightarrow> fmdrop k m = m"
  by (rule fmap_ext) auto

lemma settle_view:
  assumes "book_view k = book_view k'"
  shows "book_view (settle_after_lost_take i k) = book_view (settle_after_lost_take i k')"
    "book_view (forget_wire_order i k) = book_view (forget_wire_order i k')"
proof -
  have a: "bs_orders (bk_state k) = bs_orders (bk_state k')" "bk_wire k = bk_wire k'" using assms by (simp_all add: book_view_def)
  have u: "book_view (upsert_order x j) = (fmupd (oi_id x) x (bs_orders (bk_state j)), bk_wire j)" for x j
    using order_info_eq_imp_eq
    by (auto simp: book_view_def upsert_order_def commit_def publish_def bs_upsert_def Let_def split_beta same_upd split: option.splits)
  have r: "book_view (remove_order x j) = (fmdrop x (bs_orders (bk_state j)), bk_wire j)" for x j
    by (simp add: book_view_def remove_order_def remove_order_deferred_def commit_def publish_def bs_remove_def Let_def split_beta idle_drop split: option.split)
  show "book_view (settle_after_lost_take i k) = book_view (settle_after_lost_take i k')"
    "book_view (forget_wire_order i k) = book_view (forget_wire_order i k')"
    using a u r by (auto simp: Let_def settle_after_lost_take_def forget_wire_order_def get_order_def book_view_def split: option.split order_status.split)
qed

lemma outcome_book:
  "outcome w = outcome w' \<longleftrightarrow> td_rows (tables w) = td_rows (tables w') \<and> w_sessions w = w_sessions w' \<and>
     book_view (w_book w) = book_view (w_book w')"
  by (auto simp: outcome_def book_view_def)

lemma sender_accepted_cong:
  "w_mostro w = w_mostro v \<Longrightarrow> w_now w = w_now v \<Longrightarrow> w_claims w = w_claims v \<Longrightarrow>
     sender_accepted cr m w = sender_accepted cr m v"
  by (simp add: sender_accepted_def split: option.split)

text \<open>The wipe, with the store answering: the row and the session go, the book is settled.\<close>

lemma wiped_world:
  assumes "good w"
  shows "fst (wipe_never_active_trade i b t n w) = Inr ()"
    "get_trade_by_order_id j (tables (snd (wipe_never_active_trade i b t n w))) =
       (if j = i then None else get_trade_by_order_id j (tables w))"
    "get_setting (trade_wiped_key i) (tables (snd (wipe_never_active_trade i b t n w))) = Some (tombstone_value t n)"
    "good (snd (wipe_never_active_trade i b t n w))"
    "w_updates (snd (wipe_never_active_trade i b t n w)) = w_updates w"
    "w_pending (snd (wipe_never_active_trade i b t n w)) = w_pending w"
    "w_key_map (snd (wipe_never_active_trade i b t n w)) = w_key_map w"
    "sender_accepted cr m (snd (wipe_never_active_trade i b t n w)) = sender_accepted cr m w"
    "outcome (snd (wipe_never_active_trade i b t n w)) =
       (filter (\<lambda>r. order_of r \<noteq> i) (td_rows (tables w)), remove_session i (w_sessions w),
        book_view (if b then settle_after_lost_take i (w_book w) else forget_wire_order i (w_book w)))"
proof -
  let ?d = "set_setting (trade_wiped_key i) (tombstone_value t n) (delete_trade_by_order_id i (tables w))"
  have eq: "wipe_trade_row i t n w = (Inr (), perform (EReleaseSubscriptions i (Some n)) (touch i (w\<lparr>w_db := Some ?d\<rparr>)))"
    using assms by (simp add: wipe_trade_row_def answers_write answers_try Let_def
        release_finished_trade_subscriptions_def touch_def on_book_def book_then_db)
  have w: "wipe_never_active_trade i b t n w = (Inr (),
      (let w2 = (perform (EReleaseSubscriptions i (Some n)) (touch i (w\<lparr>w_db := Some ?d\<rparr>)))
           \<lparr>w_sessions := remove_session i (w_sessions w)\<rparr>
       in if b then on_book (settle_after_lost_take i) w2 else on_book (forget_wire_order i) w2))"
    using assms by (simp add: wipe_never_active_trade_def eq perform_def touch_def on_book_def Let_def)
  have v: "book_view (settle_after_lost_take i (touch_trade i k)) = book_view (settle_after_lost_take i k)"
    "book_view (forget_wire_order i (touch_trade i k)) = book_view (forget_wire_order i k)" for k
    by (rule settle_view; simp add: book_view_def touch_trade_def)+
  show "fst (wipe_never_active_trade i b t n w) = Inr ()"
    "get_trade_by_order_id j (tables (snd (wipe_never_active_trade i b t n w))) =
       (if j = i then None else get_trade_by_order_id j (tables w))"
    "get_setting (trade_wiped_key i) (tables (snd (wipe_never_active_trade i b t n w))) = Some (tombstone_value t n)"
    "good (snd (wipe_never_active_trade i b t n w))"
    "w_updates (snd (wipe_never_active_trade i b t n w)) = w_updates w"
    "w_pending (snd (wipe_never_active_trade i b t n w)) = w_pending w"
    "w_key_map (snd (wipe_never_active_trade i b t n w)) = w_key_map w"
    using assms by (simp_all add: w Let_def perform_def touch_def on_book_def store_simps good_def answers_def)
  show "sender_accepted cr m (snd (wipe_never_active_trade i b t n w)) = sender_accepted cr m w"
    by (rule sender_accepted_cong) (simp_all add: w Let_def perform_def touch_def on_book_def)
  show "outcome (snd (wipe_never_active_trade i b t n w)) =
       (filter (\<lambda>r. order_of r \<noteq> i) (td_rows (tables w)), remove_session i (w_sessions w),
        book_view (if b then settle_after_lost_take i (w_book w) else forget_wire_order i (w_book w)))"
    using v [of "w_book w"] by (simp add: w Let_def perform_def touch_def on_book_def outcome_def book_view_def
        delete_trade_by_order_id_def set_setting_def)
qed


text \<open>A \<open>canceled\<close> on the key bound to the order, with no call waiting on that key, reaches its arm.\<close>

definition cancel_of :: "'k crypto \<Rightarrow> string \<Rightarrow> daemon_message \<Rightarrow> world \<Rightarrow> bool" where
  "cancel_of cr i m w \<longleftrightarrow> sender_accepted cr m w \<and> dm_valid m \<and> dk_action (dm_kind m) = A_Canceled \<and>
     dk_payload (dm_kind m) = None \<and> dk_id (dm_kind m) = Some i \<and>
     fmlookup (w_key_map w) i = Some (dm_trade_index m) \<and> fmlookup (w_pending w) (dm_trade_pk m) = None"

lemma canceled_arrives:
  assumes w: "good w" and c: "cancel_of cr i m w"
  shows "dispatch_mostro_message cr m w =
    arm_canceled (dm_kind m) (dm_created_at m) (trade_row_state i (dm_trade_index m) w) w"
proof -
  have act: "dk_action (dm_kind m) = A_Canceled" and k: "dk_id (dm_kind m) = Some i"
    and p: "dk_payload (dm_kind m) = None" and none: "fmlookup (w_pending w) (dm_trade_pk m) = None"
    using c by (simp_all add: cancel_of_def)
  have gate: "generation_gate A_Canceled i (dm_trade_index m) w = (True, w)"
    using c by (simp add: cancel_of_def generation_gate_def generation_exempt_def lookup_trade_key_index_def)
  have rebuild: "rebuild_never_written (dm_kind m) pk n ts rs v = (rs, v)" for pk n ts rs v
    using act by (simp add: rebuild_never_written_def rebuild_trade_from_dm_def describes_no_trade_def
        split: row_state.split option.split)
  have "intercept_take (dm_kind m) (dm_trade_pk m) w = (False, w)"
    "acknowledge (take_matching_add_invoice (dm_trade_pk m) q) w = w" for q
    using none by (simp_all add: intercept_take_def acknowledge_def take_matching_take_def
        take_matching_add_invoice_def take_if_def)
  then have "dispatch_classified cr m w = dispatch_arm cr m (trade_row_state i (dm_trade_index m) w) w"
    using act k p rebuild
    by (simp add: dispatch_classified_def Let_def maybe_capture_peer_reveal_def peer_reveal_pubkeys_def
        payload_order_def acknowledge_claim_submit_def accept_dispute_def)
  then show ?thesis
    using c gate act k reconcile_nothing [OF w]
    by (simp add: dispatch_mostro_message_def cancel_of_def dispatch_arm_def)
qed

lemma cursor_world [simp]:
  "w_updates (record_status_event i t w) = w_updates w" "w_sessions (record_status_event i t w) = w_sessions w"
  "w_book (record_status_event i t w) = w_book w"
  by (simp_all add: record_status_event_def Let_def db_try_def db_write_def split: option.split)

lemma message_wipes:
  assumes w: "good w" "is_i64 (dm_created_at m)" and c: "cancel_of cr i m w"
    and t: "get_trade_by_order_id i (tables w) = Some t" "cancellation_wipes_history (oi_status (ti_order t))"
    and new: "\<not> status_write_blocked i A_Canceled (dm_created_at m) w"
  shows "outcome (dispatch_mostro_message cr m w) =
      (filter (\<lambda>r. order_of r \<noteq> i) (td_rows (tables w)), remove_session i (w_sessions w),
       book_view (if \<not> oi_is_mine (ti_order t) then settle_after_lost_take i (w_book w)
         else forget_wire_order i (w_book w))) \<and>
    get_trade_by_order_id i (tables (dispatch_mostro_message cr m w)) = None \<and>
    good (dispatch_mostro_message cr m w) \<and>
    (\<exists>r. w_updates (dispatch_mostro_message cr m w) = w_updates w @
      [\<lparr>tu_order_id = i, tu_status = Canceled, tu_reason = r, tu_occurred_at = dm_created_at m\<rparr>])"
proof -
  let ?ts = "dm_created_at m"
  define w1 where "w1 = record_status_event i ?ts w"
  obtain r w2 where w2: "(if oi_status (ti_order t) = WaitingTakerBond then bond_cancel_reason i w1 else (None, w1)) = (r, w2)"
    by fastforce
  have g1: "calm A_Canceled ?ts (dm_trade_index m) i w w1"
    unfolding w1_def by (rule calm_cursor) (use w in auto)
  have o2: "outcome w2 = outcome w1" "w_updates w2 = w_updates w1" "w_db w2 = w_db w1" "good w2"
    using w2 outcome_reason [of i w1] calm_good [OF g1]
    by (auto simp: bond_cancel_reason_def take_user_cancel_def good_def answers_def split: if_splits option.splits)
  have rows: "td_rows (tables w1) = td_rows (tables w)"
    using outcome_cursor [unfolded outcome_book, of i ?ts w] by (simp add: w1_def)
  have "dispatch_mostro_message cr m w = arm_canceled (dm_kind m) ?ts (RowExists t) w"
    using canceled_arrives [OF w(1) c] w(1) t(1) by (simp add: trade_row_state_def)
  also have "\<dots> = wipe_canceled i ?ts t w1"
    using c new t(2) by (simp add: arm_canceled_def cancel_of_def status_arm_gate_def w1_def)
  also have "\<dots> = emit_trade_update_at i Canceled r ?ts
      (snd (wipe_never_active_trade i (\<not> oi_is_mine (ti_order t)) ?ts (ti_trade_key_index t) w2))"
    unfolding wipe_canceled_def w2 by simp
  finally have d: "dispatch_mostro_message cr m w = emit_trade_update_at i Canceled r ?ts
      (snd (wipe_never_active_trade i (\<not> oi_is_mine (ti_order t)) ?ts (ti_trade_key_index t) w2))" .
  have same: "td_rows (tables w2) = td_rows (tables w)" "w_sessions w2 = w_sessions w"
    "book_view (w_book w2) = book_view (w_book w)"
    using o2(1) rows by (simp_all add: outcome_book w1_def)
  have good: "good (emit_trade_update_at i s q u v)" if "good v" for s q u v
    using calm_good [OF calm_emit [OF that]] .
  show ?thesis
    using wiped_world [OF o2(4), where i = i] settle_view [OF same(3), of i] same(1,2) o2(2)
    by (auto simp: d good w1_def)
qed


lemma tombstone_covers_own: "tombstone_covers (tombstone_value t n) n"
proof -
  have sep: "CHR '':'' \<notin> set (nat_digits k)" for k
    using nat_digits_chars [of "CHR '':''" k] by auto
  have "CHR '':'' \<notin> set (int_to_string t)" "CHR '':'' \<notin> set (u32_to_string n)"
    using sep by (auto simp: int_to_string_def u32_to_string_def)
  then show ?thesis
    by (simp add: tombstone_covers_def tombstone_value_def split_on_append_sep split_on_no_sep nth_opt_def)
qed

lemma event_wipes:
  assumes w: "good w" and s: "s \<in> {Canceled, Expired, CanceledByAdmin}"
    and t: "get_trade_by_order_id i (tables w) = Some t" "cancellation_wipes_history (oi_status (ti_order t))"
  defines "w' \<equiv> snd (wipe_on_public_cancel i s w)"
  shows "fst (wipe_on_public_cancel i s w)"
    "outcome w' = (filter (\<lambda>r. order_of r \<noteq> i) (td_rows (tables w)), remove_session i (w_sessions w),
       book_view (if \<not> oi_is_mine (ti_order t) then settle_after_lost_take i (w_book w)
         else forget_wire_order i (w_book w)))"
    "get_trade_by_order_id i (tables w') = None" "covered i (ti_trade_key_index t) (tables w')" "good w'"
    "w_updates w' = w_updates w @ [\<lparr>tu_order_id = i, tu_status = Canceled, tu_reason = None,
       tu_occurred_at = w_now (snd (wipe_never_active_trade i (\<not> oi_is_mine (ti_order t)) (w_now w) (ti_trade_key_index t) w))\<rparr>]"
    "cancel_of cr i m w' = cancel_of cr i m w"
proof -
  let ?v = "snd (wipe_never_active_trade i (\<not> oi_is_mine (ti_order t)) (w_now w) (ti_trade_key_index t) w)"
  note v = wiped_world [OF w, where i = i and b = "\<not> oi_is_mine (ti_order t)" and t = "w_now w" and n = "ti_trade_key_index t"]
  have eq: "wipe_on_public_cancel i s w = (True, emit_trade_update i Canceled ?v)"
    using s t w v(1) by (cases "wipe_never_active_trade i (\<not> oi_is_mine (ti_order t)) (w_now w) (ti_trade_key_index t) w")
      (auto simp: wipe_on_public_cancel_def)
  then have w': "w' = emit_trade_update_at i Canceled None (w_now ?v) ?v"
    by (simp add: w'_def emit_trade_update_def emit_trade_update_with_def)
  show "fst (wipe_on_public_cancel i s w)" by (simp add: eq)
  show "outcome w' = (filter (\<lambda>r. order_of r \<noteq> i) (td_rows (tables w)), remove_session i (w_sessions w),
       book_view (if \<not> oi_is_mine (ti_order t) then settle_after_lost_take i (w_book w)
         else forget_wire_order i (w_book w)))"
    using v by (simp add: w')
  show "get_trade_by_order_id i (tables w') = None" "covered i (ti_trade_key_index t) (tables w')"
    "w_updates w' = w_updates w @ [\<lparr>tu_order_id = i, tu_status = Canceled, tu_reason = None, tu_occurred_at = w_now ?v\<rparr>]"
    using v by (simp_all add: w' covered_def tombstone_covers_own)
  show "good w'" unfolding w' by (rule calm_good [OF calm_emit [OF v(4)]])
  have "w_mostro w' = w_mostro ?v" "w_now w' = w_now ?v" "w_claims w' = w_claims ?v" "w_pending w' = w_pending ?v"
    "w_key_map w' = w_key_map ?v"
    by (simp_all add: w' emit_trade_update_at_def Let_def release_finished_trade_subscriptions_def
        perform_def touch_def on_book_def)
  then show "cancel_of cr i m w' = cancel_of cr i m w"
    using v(6,7) wiped_world(8) [OF w, where cr = cr and m = m] sender_accepted_cong [of w' ?v cr m]
    by (simp add: cancel_of_def)
qed

section \<open>The window of an unpaid bond\<close>

lemma bond_expiredD:
  assumes "bond_expired t now"
  shows "oi_status (ti_order t) \<in> {WaitingTakerBond, WaitingMakerBond}" "cancellation_wipes_history (oi_status (ti_order t))"
    "\<And>b. ti_bond t = Some b \<Longrightarrow> bi_state b = BondRequested"
    "\<exists>d < now. Some d = Option.bind (ti_bond t) bi_expires_at \<or> Some d = oi_expires_at (ti_order t)"
  using assms
  by (auto simp: bond_expired_def bond_deadline_def Let_def cancellation_wipes_history_def min_def opt_or_def
      split: option.splits order_status.splits if_splits)

lemma status_of_lock:
  assumes "good w"
  shows "status_of i (tables (snd (lock_maker_bond j t n w))) = None \<longleftrightarrow> status_of i (tables w) = None"
proof -
  have rows: "status_of i (tables (db_try c (update_rows j f) v)) = None \<longleftrightarrow> status_of i (tables v) = None"
    if "good v" and f: "\<And>r. order_of (f r) = order_of r" for c f v
  proof -
    have "(\<forall>q \<in> set (map (\<lambda>r. if order_of r = j then f r else r) xs). order_of q \<noteq> i) \<longleftrightarrow>
        (\<forall>r \<in> set xs. order_of r \<noteq> i)" for xs
      by (induction xs) (use f in simp_all)
    then show ?thesis
      using that(1) by (simp add: answers_try status_of_def get_trade_None update_rows_def del: set_map)
  qed
  have f: "status_of i (tables (db_try c (update_trade_fields j s h a) v)) = None \<longleftrightarrow> status_of i (tables v) = None"
    if "good v" for c s h a v
    using rows [OF that, of "set_fields s h a" c] by (simp add: update_trade_fields_def)
  have b: "status_of i (tables (persist_bond j b w)) = None \<longleftrightarrow> status_of i (tables w) = None" for b
    using rows [OF assms, of "\<lambda>r. r\<lparr>ti_bond := Some b\<rparr>" CUpdateBond] assms
    by (simp add: persist_bond_def update_trade_bond_def touch_def on_book_def order_of_def)
  have g: "good (persist_bond j b w)" for b using calm_good [OF calm_persist_bond [OF assms]] .
  show ?thesis
    using assms by (auto simp: lock_maker_bond_def Let_def emit_trade_update_def emit_trade_update_with_def
        f b g split: option.split)
qed

lemma expiry_of_row:
  assumes w: "good w"
    and r: "bond_expired trade now" "get_trade_by_order_id (order_of trade) (tables w) = Some r" "bond_expired r now"
      "\<not> (oi_status (ti_order r) = WaitingMakerBond \<and> maker_order_is_published (order_of trade) w)"
  shows "close_expired_bond_trade trade now w = (True,
    snd (wipe_never_active_trade (order_of trade) (\<not> oi_is_mine (ti_order r)) now (ti_trade_key_index r)
      (emit_trade_update_with (order_of trade) Expired (Some BondExpired) w)))"
proof -
  have g: "good (emit_trade_update_with (order_of trade) Expired (Some BondExpired) w)"
    unfolding emit_trade_update_with_def by (rule calm_good [OF calm_emit [OF w]])
  show ?thesis
    using w r wiped_world(1) [OF g, of "order_of trade" "\<not> oi_is_mine (ti_order r)" now "ti_trade_key_index r"]
    by (auto simp: close_expired_bond_trade_def Let_def split_beta split: sum.split)
qed

text \<open>
  The sweep of the bond window deletes a trade exactly when, under the lock, its row still waits
  for an unpaid bond whose deadline has passed and the public book does not show the order as
  published: then the row and the session go and one \<open>Expired\<close> update with its reason is sent. A bond
  locked, released or slashed meanwhile, a row that moved on or a maker's order already on the
  book is never deleted.
\<close>

theorem only_unpaid_bonds_expire:
  assumes "good w" and "get_trade_by_order_id (order_of trade) (tables w) = Some r"
  shows "(get_trade_by_order_id (order_of trade) (tables (snd (close_expired_bond_trade trade now w))) = None) =
      (bond_expired trade now \<and> bond_expired r now \<and>
       \<not> (oi_status (ti_order r) = WaitingMakerBond \<and> maker_order_is_published (order_of trade) w)) \<and>
    (get_trade_by_order_id (order_of trade) (tables (snd (close_expired_bond_trade trade now w))) = None \<longrightarrow>
      (\<forall>b. ti_bond r = Some b \<longrightarrow> bi_state b = BondRequested) \<and>
      (\<exists>d < now. Some d = Option.bind (ti_bond r) bi_expires_at \<or> Some d = oi_expires_at (ti_order r)) \<and>
      w_sessions (snd (close_expired_bond_trade trade now w)) = remove_session (order_of trade) (w_sessions w) \<and>
      w_updates (snd (close_expired_bond_trade trade now w)) = w_updates w @
        [\<lparr>tu_order_id = order_of trade, tu_status = Expired, tu_reason = Some BondExpired, tu_occurred_at = w_now w\<rparr>])"
proof (cases "bond_expired trade now \<and> bond_expired r now \<and>
    \<not> (oi_status (ti_order r) = WaitingMakerBond \<and> maker_order_is_published (order_of trade) w)")
  case True
  let ?e = "emit_trade_update_with (order_of trade) Expired (Some BondExpired) w"
  have g: "good ?e" unfolding emit_trade_update_with_def by (rule calm_good [OF calm_emit [OF assms(1)]])
  note v = wiped_world [OF g, where i = "order_of trade" and b = "\<not> oi_is_mine (ti_order r)" and t = now
      and n = "ti_trade_key_index r"]
  show ?thesis
    using True bond_expiredD(3,4) [of r now] v(2,5) v(9) [unfolded outcome_def]
    by (simp add: expiry_of_row [OF assms(1) _ assms(2)] emit_trade_update_with_def)
next
  case False
  obtain y where l: "get_trade_by_order_id (order_of trade)
      (tables (snd (lock_maker_bond (order_of trade) r (ti_trade_key_index r) w))) = Some y"
    using status_of_lock [OF assms(1), of "order_of trade" "order_of trade" r "ti_trade_key_index r"] assms(2)
    by (auto simp: status_of_def)
  then have "get_trade_by_order_id (order_of trade) (tables (snd (close_expired_bond_trade trade now w))) \<noteq> None"
    using False assms
    by (auto simp: close_expired_bond_trade_def Let_def split_beta)
  then show ?thesis using False by auto
qed


theorem only_unpaid_bonds_expire_witness:
  "get_trade_by_order_id ''o'' (tables (snd (close_expired_bond_trade
      (sample_row WaitingTakerBond False (Some (bond_requested (sample_crypto\<lparr>cr_bolt11_expiry := \<lambda>_. Some 50\<rparr>) BondTaker
         \<lparr>br_amount_sats = 1, br_invoice = ''lnbc''\<rparr> 1))) 100
      (sample_world2 (sample_db [sample_row WaitingTakerBond False (Some (bond_requested
        (sample_crypto\<lparr>cr_bolt11_expiry := \<lambda>_. Some 50\<rparr>) BondTaker \<lparr>br_amount_sats = 1, br_invoice = ''lnbc''\<rparr> 1))] []))))) = None"
proof -
  let ?r = "sample_row WaitingTakerBond False (Some (bond_requested (sample_crypto\<lparr>cr_bolt11_expiry := \<lambda>_. Some 50\<rparr>)
    BondTaker \<lparr>br_amount_sats = 1, br_invoice = ''lnbc''\<rparr> 1))"
  have o: "order_of ?r = ''o''" by (simp add: sample_row_def order_of_def)
  have "get_trade_by_order_id (order_of ?r) (tables (sample_world2 (sample_db [?r] []))) = Some ?r"
    by (simp add: get_trade_by_order_id_def sample_db_def)
  from only_unpaid_bonds_expire [OF good_sample this, of 100] show ?thesis
    by (simp add: o) (simp add: bond_expired_def bond_deadline_def bond_requested_def sample_row_def)
qed

section \<open>Walking away from a maker bond\<close>

text \<open>
  Abandoning a maker bond answers every refusal by name and changes nothing then: not without a
  store, not on a failed read, not for an order without a row, not for one that is not waiting for
  this maker's bond; a failed delete leaves row, session, registry and book in place too (the one
  update already sent excepted). Success means row and session are gone and one \<open>Canceled\<close> update
  says that the user did it.
\<close>

theorem abandon_maker_bond_outcomes:
  "case abandon_maker_bond cr i w of
     (Inl e, w') \<Rightarrow> w_db w' = w_db w \<and> w_sessions w' = w_sessions w \<and> w_pending w' = w_pending w \<and>
       book_view (w_book w') = book_view (w_book w) \<and>
       (e = ''StorageUnavailable'' \<and> w_db w = None \<and> w' = w \<or>
        e = db_error \<and> w_down w CGetTrade \<and> w' = w \<or>
        e = ''TradeNotFound'' \<and> read_trade i w = Inr None \<and> w' = w \<or>
        e = ''NotWaitingBond'' \<and> w' = w \<and> (\<exists>t. read_trade i w = Inr (Some t) \<and>
          \<not> (oi_status (ti_order t) = WaitingMakerBond \<and> oi_is_mine (ti_order t) \<and>
            (case ti_bond t of Some b \<Rightarrow> bi_role b = BondMaker | None \<Rightarrow> True))) \<or>
        e = db_error \<and> w_down w CDeleteTrade)
   | (Inr _, w') \<Rightarrow> (\<exists>t. read_trade i w = Inr (Some t) \<and> oi_status (ti_order t) = WaitingMakerBond \<and>
         oi_is_mine (ti_order t)) \<and>
       get_trade_by_order_id i (tables w') = None \<and> w_sessions w' = remove_session i (w_sessions w) \<and>
       w_updates w' = w_updates w @
         [\<lparr>tu_order_id = i, tu_status = Canceled, tu_reason = Some UserCanceled, tu_occurred_at = w_now w\<rparr>]"
proof -
  have "get_trade_by_order_id i (set_setting k v (delete_trade_by_order_id i db)) = None"
    "get_trade_by_order_id i (delete_trade_by_order_id i db) = None" for k v db
    by (simp_all add: store_simps)
  then show ?thesis
    by (auto simp: abandon_maker_bond_def Let_def read_trade_def db_read_def has_db_def emit_trade_update_with_def
        wipe_never_active_trade_def wipe_trade_row_def db_write_def db_try_def emit_trade_update_at_def
        release_finished_trade_subscriptions_def touch_def on_book_def perform_def book_view_def touch_trade_def
        is_hard_terminal_def split: option.splits if_splits)
qed

end
