(* ===== verification/Dispatch_Gates.thy ===== *)
theory Dispatch_Gates
  imports Row_Outcomes
begin

text \<open>
  The gates of the dispatcher: what a node heard only for an open payout claim can do to a trade,
  and the binding of an order to its trade key that the generation gate consults (the in-memory
  map, the stored table and the bounded set of remembered misses in front of them).
\<close>

section \<open>Nodes that may speak about claims only\<close>

text \<open>Neither the tables, the updates, the sessions nor the book.\<close>

definition untouched :: "world \<Rightarrow> world \<Rightarrow> bool" where
  "untouched w w' \<longleftrightarrow> quiet w w' \<and> w_sessions w' = w_sessions w \<and> w_book w' = w_book w"

lemma untouched_trans: "untouched w w1 \<Longrightarrow> untouched w1 w2 \<Longrightarrow> untouched w w2"
  by (auto simp: untouched_def intro: quiet_trans)

lemma untouched_stages:
  "untouched w w" "untouched w (snd (intercept_take k pk w))"
  "untouched w (acknowledge_claim_submit k pk w)"
  "untouched w (acknowledge (take_matching_add_invoice pk q) w)"
  "untouched w (accept_dispute k pk w)"
  by (simp_all add: untouched_def quiet_stages)
     (auto simp: intercept_take_def acknowledge_claim_submit_def acknowledge_def accept_dispute_def
       wake_def perform_def Let_def split: option.split prod.split dispute_match.split)

lemma untouched_cant_do: "untouched w (arm_cant_do k pk t w)"
  unfolding untouched_def using quiet_cant_do [of w k pk t]
  by (simp add: arm_cant_do_def wake_def Let_def split: option.split prod.split)

lemma untouched_claims: "untouched w (arm_add_bond_invoice cr k s n w)" "untouched w (arm_claim_ack k s w)"
  by (auto simp: untouched_def quiet_def arm_add_bond_invoice_def arm_claim_ack_def Let_def
      split: option.split core_payload.split)

lemma untouched_lookup: "good w \<Longrightarrow> untouched w (snd (lookup_trade_key_index i w))"
  by (auto simp: untouched_def quiet_def lookup_trade_key_index_def split: option.split sum.split)

lemma claim_arm:
  assumes "is_claim_action (dk_action (dm_kind m))"
  shows "untouched w (dispatch_arm cr m rs w)"
  using assms by (auto simp: is_claim_action_def dispatch_arm_def untouched_claims untouched_cant_do)

lemma no_order_no_trade:
  assumes "payload_order (dk_payload k) = None"
  shows "maybe_capture_peer_reveal cr i a (dk_payload k) n w = w" "rebuild_never_written k pk n ts rs w = (rs, w)"
  using assms by (auto simp: maybe_capture_peer_reveal_def peer_reveal_pubkeys_def rebuild_never_written_def
      rebuild_trade_from_dm_def split: row_state.split option.split)

lemma claim_classified:
  assumes "is_claim_action (dk_action (dm_kind m))" and p: "payload_order (dk_payload (dm_kind m)) = None"
  shows "untouched w (dispatch_classified cr m w)"
proof -
  let ?k = "dm_kind m" and ?pk = "dm_trade_pk m"
  define rs where "rs = (case dk_id ?k of Some oid \<Rightarrow> trade_row_state oid (dm_trade_index m) w | None \<Rightarrow> RowUnknown)"
  obtain c w2 where w2: "(if dk_action ?k \<noteq> A_CantDo then intercept_take ?k ?pk w else (False, w)) = (c, w2)" by fastforce
  define w3 where "w3 = (if dk_action ?k \<noteq> A_CantDo
    then accept_dispute ?k ?pk (acknowledge (take_matching_add_invoice ?pk (dk_request_id ?k))
           (acknowledge_claim_submit ?k ?pk w2)) else w2)"
  have u2: "untouched w w2" using w2 untouched_stages(1) [of w] untouched_stages(2) [of w ?k ?pk] by (auto split: if_splits)
  have "untouched w2 w3"
    by (simp add: w3_def untouched_stages(1) untouched_trans [OF untouched_trans [OF untouched_stages(3) untouched_stages(4)] untouched_stages(5)])
  then have "untouched w (dispatch_arm cr m rs w3)"
    by (rule untouched_trans [OF untouched_trans [OF u2] claim_arm [OF assms(1)]])
  moreover have "dispatch_classified cr m w = (if c then w2 else dispatch_arm cr m rs w3)"
  proof -
    have cap: "(case dk_id ?k of Some oid \<Rightarrow> if dk_action ?k \<noteq> A_BondSlashed \<and> rs \<noteq> RowWiped
        then maybe_capture_peer_reveal cr oid (dk_action ?k) (dk_payload ?k) (dm_trade_index m) w else w | None \<Rightarrow> w) = w"
      by (simp add: no_order_no_trade [OF p] split: option.split)
    show ?thesis
      unfolding dispatch_classified_def Let_def rs_def [symmetric] cap w2 prod.case w3_def [symmetric]
        no_order_no_trade(2) [OF p] ..
  qed
  ultimately show ?thesis using u2 by (cases c) simp_all
qed

text \<open>
  A node that is not the active one is heard only while it owes or may owe a payout, and then, as
  long as its message carries no order, it reaches nothing but the claims and the calls waiting on
  them: no table, no session, no entry of the book and no update changes, whatever the action, the
  order id and the key it is sent to.
\<close>

theorem claim_node_touches_no_trade:
  assumes "good w" and "cr_parse_pubkey cr (w_mostro w) = Some node" and "dm_sender m \<noteq> node"
    and "payload_order (dk_payload (dm_kind m)) = None"
  shows "w_db (dispatch_mostro_message cr m w) = w_db w \<and>
    w_updates (dispatch_mostro_message cr m w) = w_updates w \<and>
    w_sessions (dispatch_mostro_message cr m w) = w_sessions w \<and>
    w_book (dispatch_mostro_message cr m w) = w_book w"
proof (cases "sender_accepted cr m w \<and> dm_valid m")
  case True
  then have act: "is_claim_action (dk_action (dm_kind m))" using assms(2,3) by (simp add: sender_accepted_def)
  have "untouched w (dispatch_mostro_message cr m w)"
  proof (cases "dk_id (dm_kind m)")
    case None
    then show ?thesis using True claim_classified [OF act assms(4)] by (simp add: dispatch_mostro_message_def)
  next
    case (Some i)
    obtain c w1 where g: "generation_gate (dk_action (dm_kind m)) i (dm_trade_index m) w = (c, w1)" by fastforce
    have u1: "untouched w w1"
      using g untouched_lookup [OF assms(1), of i]
      by (cases "lookup_trade_key_index i w") (auto simp: generation_gate_def untouched_stages split: if_splits option.splits)
    have "good w1" using u1 assms(1) by (auto simp: untouched_def quiet_def good_def answers_def)
    then show ?thesis
      using True Some g u1 untouched_trans [OF u1 claim_classified [OF act assms(4)]] reconcile_nothing
      by (auto simp: dispatch_mostro_message_def)
  qed
  then show ?thesis by (simp add: untouched_def quiet_def)
qed (auto simp: dispatch_mostro_message_def)

theorem claim_node_touches_no_trade_witness:
  "w_db (dispatch_mostro_message sample_crypto ((sample_message A_BondPayoutCompleted 50 None)\<lparr>dm_sender := ''old''\<rparr>)
     ((sample_world2 (sample_db [sample_row Pending False None] []))\<lparr>w_claims := (sample_claim_env [])\<lparr>ce_nodes := {''old''}\<rparr>\<rparr>)) =
   Some (sample_db [sample_row Pending False None] [])"
  using claim_node_touches_no_trade [of "(sample_world2 (sample_db [sample_row Pending False None] []))
        \<lparr>w_claims := (sample_claim_env [])\<lparr>ce_nodes := {''old''}\<rparr>\<rparr>" sample_crypto "''node''"
      "(sample_message A_BondPayoutCompleted 50 None)\<lparr>dm_sender := ''old''\<rparr>"]
  by (simp add: sample_crypto_def sample_world2_def sample_message_def payload_order_def good_def answers_def no_create_def)

text \<open>
  The exclusion needs the payload: a payout confirmation from such a node that carries an order
  naming our key rebuilds a trade row of an order never seen here.
\<close>

lemma claim_node_with_order_rebuilds:
  "td_rows (tables (dispatch_mostro_message sample_crypto
     ((sample_message A_BondPayoutCompleted 50 (Some (P_Order \<lparr>so_kind = Some Sell, so_status = Some S_Active,
         so_amount = 1, so_fiat_code = ''EUR'', so_min_amount = None, so_max_amount = None, so_fiat_amount = 1,
         so_payment_method = ''x'', so_premium = 0, so_buyer_trade_pubkey = Some ''key'',
         so_seller_trade_pubkey = None, so_created_at = None, so_expires_at = None\<rparr>)))\<lparr>dm_sender := ''old''\<rparr>)
     ((sample_world2 (sample_db [] []))\<lparr>w_claims := (sample_claim_env [])\<lparr>ce_nodes := {''old''}\<rparr>\<rparr>))) \<noteq> []"
proof -
  let ?so = "\<lparr>so_kind = Some Sell, so_status = Some S_Active,
         so_amount = 1, so_fiat_code = ''EUR'', so_min_amount = None, so_max_amount = None, so_fiat_amount = 1,
         so_payment_method = ''x'', so_premium = 0, so_buyer_trade_pubkey = Some ''key'',
         so_seller_trade_pubkey = None, so_created_at = None, so_expires_at = None\<rparr>"
  let ?k = "dm_kind (sample_message A_BondPayoutCompleted 50 (Some (P_Order ?so)))"
  let ?m = "(sample_message A_BondPayoutCompleted 50 (Some (P_Order ?so)))\<lparr>dm_sender := ''old''\<rparr>"
  let ?w = "(sample_world2 (sample_db [] []))\<lparr>w_claims := (sample_claim_env [])\<lparr>ce_nodes := {''old''}\<rparr>\<rparr>"
  have g: "good ?w" using good_sample by (simp add: good_def answers_def)
  have s: "sender_accepted sample_crypto ?m ?w"
    by (simp add: sender_accepted_def sample_defs is_claim_node_def is_claim_action_def)
  have ci: "eq_ignore_ascii_case ''key'' ''key''" by code_simp
  have rs: "trade_row_state ''o'' 4 ?w = RowNeverWritten"
    using g by (simp add: trade_row_state_def get_trade_by_order_id_def get_setting_def) (simp add: sample_defs get_setting_def)
  have k: "dk_action (?k) = A_BondPayoutCompleted" "dk_id (?k) = Some ''o''" "dm_valid ?m"
    "dk_payload (?k) = Some (P_Order ?so)" "dm_trade_index ?m = 4" "dm_trade_pk ?m = ''key''"
    "dk_request_id (?k) = None"
    by (simp_all add: sample_message_def)
  have m: "dm_kind ?m = ?k" "dm_created_at ?m = 50" by (simp_all add: sample_message_def)
  have p: "w_pending ?w = fmempty" by (simp add: sample_world2_def)
  have cap: "maybe_capture_peer_reveal sample_crypto ''o'' a (Some (P_Order ?so)) n ?w = ?w" for a n
    by (simp add: maybe_capture_peer_reveal_def peer_reveal_pubkeys_def payload_order_def)
  have calls: "intercept_take (?k) ''key'' ?w = (False, ?w)" "acknowledge_claim_submit (?k) ''key'' ?w = ?w"
    "acknowledge (take_matching_add_invoice ''key'' None) ?w = ?w" "accept_dispute (?k) ''key'' ?w = ?w"
    using p k by (simp_all add: intercept_take_def acknowledge_claim_submit_def acknowledge_def accept_dispute_def
        take_matching_take_def take_matching_claim_submit_def take_matching_add_invoice_def take_if_def)
  have open': "\<not> status_write_blocked ''o'' A_BondPayoutCompleted 50 ?w"
    using g by (simp add: status_write_blocked_def status_sync_blocked_by_terminal_def current_local_status_def
        cursor_of_def get_setting_def get_trade_by_order_id_def)
      (simp add: sample_defs book_order_def get_order_def new_book_def)
  obtain t w1 where r: "rebuild_trade_from_dm (?k) ''o'' ''key'' 4 50 ?w = (Some t, w1)"
    by (simp add: rebuild_trade_from_dm_def k describes_no_trade_def payload_order_def proven_role_def ci
        trade_row_from_small_order_def map_core_status_def persist_trade_row_def Let_def db_write_def db_try_def
        store_trade_key_index_def sample_world2_def has_db_def perform_def touch_def on_book_def)
  have "td_rows (tables w1) \<noteq> []"
    using rebuilt_row_is_written [OF r] by (auto simp: get_trade_def)
  moreover have "dispatch_mostro_message sample_crypto ?m ?w = arm_claim_ack (?k) (dm_sender ?m) w1"
    using s reconcile_nothing [OF g] k calls cap open' r rs m
    by (simp add: dispatch_mostro_message_def generation_gate_def generation_exempt_def dispatch_classified_def Let_def
        rebuild_never_written_def dispatch_arm_def)
  ultimately show ?thesis by (simp add: arm_claim_ack_def k Let_def)
qed

end
