(* ===== verification/Public_Orders.thy ===== *)
theory Public_Orders
  imports Row_Outcomes
begin

text \<open>
  The public side of an order: decoding a Kind 38383 event (\<open>nostr/order_events.rs\<close>), its ingest
  into the book and the row (\<open>ingest_order_event_with\<close>), the per-order subscription of a trade
  (\<open>apply_single_order_update\<close> and the registry of its tasks) and the newest of fetched events.

  \<open>json\<close> is the reading \<open>serde_json::Value\<close>; the JSON reader itself is a parameter.
\<close>

section \<open>Decoding\<close>

datatype json =
    J_null | J_bool bool | J_int int | J_float f64 | J_str string
  | J_arr "json list" | J_obj "(string \<times> json) list"

definition json_f64 :: "json \<Rightarrow> f64 option" where
  "json_f64 v = (case v of J_int i \<Rightarrow> Some (f64_of_rat (of_int i)) | J_float x \<Rightarrow> Some x | _ \<Rightarrow> None)"

definition json_u64 :: "json \<Rightarrow> int option" where
  "json_u64 v = (case v of J_int i \<Rightarrow> if 0 \<le> i \<and> i < 2 ^ 64 then Some i else None | _ \<Rightarrow> None)"

definition kind_order :: nat where "kind_order = 38383"

record order_event =
  oe_kind :: nat
  oe_pubkey :: string
  oe_created_at :: u64
  oe_tags :: tag_list

definition parse_status :: "string \<Rightarrow> order_status option" where
  "parse_status s =
     (if s = ''pending'' then Some Pending
      else if s = ''waiting-buyer-invoice'' then Some WaitingBuyerInvoice
      else if s = ''waiting-payment'' then Some WaitingPayment
      else if s = ''active'' then Some Active
      else if s = ''fiat-sent'' then Some FiatSent
      else if s = ''settled-hold-invoice'' then Some SettledHoldInvoice
      else if s = ''success'' then Some Success
      else if s = ''canceled'' then Some Canceled
      else if s = ''cooperatively-canceled'' then Some Canceled
      else if s = ''expired'' then Some Expired
      else if s = ''canceled-by-admin'' then Some CanceledByAdmin
      else if s = ''settled-by-admin'' then Some SettledByAdmin
      else if s = ''completed-by-admin'' then Some CompletedByAdmin
      else if s = ''dispute'' then Some Dispute
      else if s = ''in-progress'' then Some InProgress
      else None)"

definition parse_range :: "string \<Rightarrow> string \<Rightarrow> f64 option \<times> f64 option \<times> f64 option" where
  "parse_range mn mx = (case (parse_f64 mn, parse_f64 mx) of
      (Some a, Some b) \<Rightarrow> (None, Some a, Some b) | _ \<Rightarrow> (None, None, None))"

fun split_once :: "char \<Rightarrow> string \<Rightarrow> (string \<times> string) option" where
  "split_once c [] = None"
| "split_once c (x # xs) = (if x = c then Some ([], xs)
     else map_option (\<lambda>(a, b). (x # a, b)) (split_once c xs))"

definition parse_fiat_amounts :: "string list \<Rightarrow> f64 option \<times> f64 option \<times> f64 option" where
  "parse_fiat_amounts values = (case values of
      [] \<Rightarrow> (None, None, None)
    | [single] \<Rightarrow> (case split_once (CHR '':'') single of
        Some (mn, mx) \<Rightarrow> parse_range mn mx
      | None \<Rightarrow> (parse_f64 single, None, None))
    | mn # mx # _ \<Rightarrow> parse_range mn mx)"

definition rating_object :: "json \<Rightarrow> (string \<times> json) list option" where
  "rating_object v = (case v of
      J_obj m \<Rightarrow> Some m
    | J_arr (J_str r # J_obj m # _) \<Rightarrow> if r = ''rating'' then Some m else None
    | _ \<Rightarrow> None)"

definition json_u32_field :: "string \<Rightarrow> (string \<times> json) list \<Rightarrow> u32" where
  "json_u32_field name m = (case Option.bind (Option.bind (map_of m name) json_u64) u32_of_i64 of
      Some n \<Rightarrow> n | None \<Rightarrow> 0)"

definition parse_rating_tag :: "(string \<Rightarrow> json option) \<Rightarrow> string option \<Rightarrow> f64 \<times> u32 \<times> u32" where
  "parse_rating_tag from_str v = (case v of
      None \<Rightarrow> (F64_fin 0, 0, 0)
    | Some raw \<Rightarrow>
        if raw = ''none'' then (F64_fin 0, 0, 0)
        else (case Option.bind (from_str raw) rating_object of
            None \<Rightarrow> (F64_fin 0, 0, 0)
          | Some m \<Rightarrow>
              ((case opt_filter (\<lambda>r. f64_le (F64_fin 0) r \<and> f64_le r (F64_fin 5))
                      (Option.bind (map_of m ''total_rating'') json_f64) of
                  Some r \<Rightarrow> r | None \<Rightarrow> F64_fin 0),
               json_u32_field ''total_reviews'' m, json_u32_field ''days'' m)))"

fun join_comma :: "string list \<Rightarrow> string" where
  "join_comma [] = []"
| "join_comma [s] = s"
| "join_comma (s # ss) = s @ '', '' @ join_comma ss"

definition tag_values :: "tag_list \<Rightarrow> string \<Rightarrow> string list option" where
  "tag_values tags name = map_option tl (find_tag tags name)"

definition parse_order_kind :: "string \<Rightarrow> order_kind option" where
  "parse_order_kind s = (if s = ''buy'' then Some Buy else if s = ''sell'' then Some Sell else None)"

definition parse_order_event :: "(string \<Rightarrow> json option) \<Rightarrow> order_event \<Rightarrow> order_info option" where
  "parse_order_event from_str e =
     (if oe_kind e \<noteq> kind_order then None
      else let get = tag_value (oe_tags e) in
        (case (get ''d'', Option.bind (get ''k'') parse_order_kind, Option.bind (get ''s'') parse_status, get ''f'') of
           (Some i, Some kind, Some status, Some fiat_code) \<Rightarrow>
             let payment_method = (case tag_values (oe_tags e) ''pm'' of Some vs \<Rightarrow> join_comma vs | None \<Rightarrow> []);
                 premium = (case Option.bind (get ''premium'') parse_f64 of Some p \<Rightarrow> p | None \<Rightarrow> F64_fin 0);
                 (fixed, mn, mx) = parse_fiat_amounts (case tag_values (oe_tags e) ''fa'' of Some vs \<Rightarrow> vs | None \<Rightarrow> []);
                 (rating, reviews, days) = parse_rating_tag from_str (get ''rating'')
             in Some \<lparr>oi_id = i, oi_kind = kind, oi_status = status,
                 oi_amount_sats = Option.bind (get ''amt'') parse_u64,
                 oi_fiat_amount = fixed, oi_fiat_amount_min = mn, oi_fiat_amount_max = mx,
                 oi_fiat_code = fiat_code, oi_payment_method = payment_method, oi_premium = premium,
                 oi_creator_pubkey = oe_pubkey e, oi_created_at = i64_wrap (uint (oe_created_at e)),
                 oi_expires_at = Option.bind (get ''expiration'') parse_i64, oi_is_mine = False,
                 oi_rating = rating, oi_total_reviews = reviews, oi_days_active = days\<rparr>
         | _ \<Rightarrow> None))"

section \<open>The ingest\<close>

text \<open>
  The part for a status other than \<open>pending\<close>: it ends a never-active trade, or moves the row where
  the wire may, or keeps the private status on the entry.
\<close>

definition sync_ingested :: "order_info \<Rightarrow> world \<Rightarrow> order_info \<times> world" where
  "sync_ingested info w =
     (if oi_status info = Pending then (info, w)
      else let (wiped, w1) = wipe_on_public_cancel (oi_id info) (oi_status info) w in
        if wiped then (info, w1)
        else let local = local_trade_status (oi_id info) w1;
                 applies = wire_status_applies local (oi_status info);
                 w2 = (if oi_is_mine info \<and> applies \<and> has_db w1
                   then snd (sync_trade_fields_if_changed (oi_id info)
                          (case read_trade (oi_id info) w1 of Inr r \<Rightarrow> r | Inl _ \<Rightarrow> None)
                          (Some (oi_status info)) None (oi_amount_sats info) w1)
                   else w1)
             in (if applies then info
                 else (case local of Some s \<Rightarrow> info\<lparr>oi_status := s\<rparr> | None \<Rightarrow> info), w2))"

definition restore_is_mine :: "order_info \<Rightarrow> world \<Rightarrow> order_info \<times> world" where
  "restore_is_mine info w =
     (if oi_is_mine info then (info, w)
      else (case lookup_trade_key_index (oi_id info) w of
          (None, w1) \<Rightarrow> (info, w1)
        | (Some _, w1) \<Rightarrow> (case read_trade (oi_id info) w1 of
            Inr (Some t) \<Rightarrow> (info\<lparr>oi_is_mine := oi_is_mine (ti_order t)\<rparr>, w1)
          | _ \<Rightarrow> (info, w1))))"

definition is_ours :: "order_info \<Rightarrow> world \<Rightarrow> bool \<times> world" where
  "is_ours info w =
     (if oi_is_mine info then (True, w)
      else if is_hard_terminal (oi_status info)
      then (let (bound, w1) = lookup_trade_key_index (oi_id info) w in (bound \<noteq> None, w1))
      else (False, w))"

definition ingest_order :: "publish_mode \<Rightarrow> order_info \<Rightarrow> world \<Rightarrow> world" where
  "ingest_order mode parsed w =
     (let (info, w1) = restore_is_mine parsed w;
          w2 = on_book (refresh_wire_order info) w1;
          (info', w3) = sync_ingested info w2;
          w4 = (if is_hard_terminal (oi_status info) then on_book (forget_wire_order (oi_id info')) w3 else w3);
          (ours, w5) = is_ours info' w4
      in on_book (apply_ingested_order info' ours mode) w5)"

definition ingest_order_event :: "(string \<Rightarrow> json option) \<Rightarrow> publish_mode \<Rightarrow> order_event \<Rightarrow> world \<Rightarrow> world" where
  "ingest_order_event from_str mode e w = (case parse_order_event from_str e of
      Some info \<Rightarrow> ingest_order mode info w | None \<Rightarrow> w)"

section \<open>The subscription of a single order\<close>

definition apply_single_order_update :: "order_info \<Rightarrow> world \<Rightarrow> world" where
  "apply_single_order_update order w =
     (let w1 = on_book (note_wire_order order) w;
          (wiped, w2) = wipe_on_public_cancel (oi_id order) (oi_status order) w1
      in if wiped then w2
         else let w3 = (if is_hard_terminal (oi_status order) then on_book (forget_wire_order (oi_id order)) w2 else w2);
                  local = local_trade_status (oi_id order) w3;
                  applies = wire_status_applies local (oi_status order);
                  w4 = (if applies \<and> has_db w3
                    then snd (sync_trade_fields_if_changed (oi_id order)
                           (case read_trade (oi_id order) w3 of Inr r \<Rightarrow> r | Inl _ \<Rightarrow> None)
                           (Some (oi_status order)) None (oi_amount_sats order) w3)
                    else w3);
                  order' = (if applies then order
                    else (case local of Some s \<Rightarrow> order\<lparr>oi_status := s\<rparr> | None \<Rightarrow> order))
              in touch (oi_id order) (on_book (upsert_order order') w4))"

datatype single_order_event = Ignored | Applied | NodeChanged

definition handle_single_order_event ::
  "(string \<Rightarrow> json option) \<Rightarrow> order_event \<Rightarrow> string \<Rightarrow> string \<Rightarrow> string \<Rightarrow> world \<Rightarrow> single_order_event \<times> world" where
  "handle_single_order_event from_str e order_id watched active w =
     (if oe_pubkey e \<noteq> watched then (Ignored, w)
      else (case parse_order_event from_str e of
          None \<Rightarrow> (Ignored, w)
        | Some order \<Rightarrow>
            if oi_id order \<noteq> order_id then (Ignored, w)
            else if active \<noteq> watched then (NodeChanged, w)
            else (Applied, apply_single_order_update order w)))"

text \<open>The registry of the tasks: the last generation handed out and the owner of each order.\<close>

record single_tasks =
  st_generation :: nat
  st_owner :: "(string, nat) fmap"

definition claim_single_order_task :: "string \<Rightarrow> single_tasks \<Rightarrow> (nat \<times> bool) \<times> single_tasks" where
  "claim_single_order_task order_id s =
     (let generation = st_generation s + 1 in
      ((generation, fmlookup (st_owner s) order_id \<noteq> None),
       s\<lparr>st_generation := generation, st_owner := fmupd order_id generation (st_owner s)\<rparr>))"

definition single_order_task_is_current :: "string \<Rightarrow> nat \<Rightarrow> single_tasks \<Rightarrow> bool" where
  "single_order_task_is_current order_id generation s \<longleftrightarrow> fmlookup (st_owner s) order_id = Some generation"

definition release_single_order_task :: "string \<Rightarrow> nat \<Rightarrow> single_tasks \<Rightarrow> bool \<times> single_tasks" where
  "release_single_order_task order_id generation s =
     (if fmlookup (st_owner s) order_id = Some generation
      then (True, s\<lparr>st_owner := fmdrop order_id (st_owner s)\<rparr>) else (False, s))"

section \<open>The newest public event of an order\<close>

fun max_by_stamp :: "(u64 \<times> order_info) list \<Rightarrow> (u64 \<times> order_info) option" where
  "max_by_stamp [] = None"
| "max_by_stamp (e # es) = (case max_by_stamp es of
     None \<Rightarrow> Some e | Some b \<Rightarrow> if fst e \<le> fst b then Some b else Some e)"

definition newest_book_order :: "(string \<Rightarrow> json option) \<Rightarrow> order_event list \<Rightarrow> string \<Rightarrow> string \<Rightarrow> order_info option" where
  "newest_book_order from_str events node order_id =
     map_option snd (max_by_stamp (List.map_filter (\<lambda>e.
        map_option (Pair (oe_created_at e)) (opt_filter (\<lambda>ord. oi_id ord = order_id) (parse_order_event from_str e)))
        (filter (\<lambda>e. oe_pubkey e = node) events)))"

definition newest_book_status :: "(string \<Rightarrow> json option) \<Rightarrow> order_event list \<Rightarrow> string \<Rightarrow> string \<Rightarrow> order_status option" where
  "newest_book_status from_str events node order_id =
     map_option oi_status (newest_book_order from_str events node order_id)"

end
