(* ===== verification/Public_Safety.thy ===== *)
theory Public_Safety
  imports Public_Orders
begin

text \<open>
  What a public event may do: the row of its order moves only where \<open>wire_status_applies\<close> lets the
  wire in, a never-active trade is wiped by a public cancel, no other order is touched, and the
  book shows the private status wherever the wire was refused.
\<close>

section \<open>Decoded orders\<close>

lemma parse_range_shape:
  "parse_range mn mx \<in> {(a, b, c). a = None \<and> (b = None \<longleftrightarrow> c = None)}"
  by (simp add: parse_range_def split: option.split)

lemma fiat_shape:
  assumes "parse_fiat_amounts vs = (a, b, c)"
  shows "(b = None \<longleftrightarrow> c = None) \<and> (a = None \<or> b = None)"
proof -
  have r: "parse_range mn mx = (a, b, c) \<Longrightarrow> (b = None \<longleftrightarrow> c = None) \<and> a = None" for mn mx
    using parse_range_shape [of mn mx] by simp
  show ?thesis
    using assms r by (auto simp: parse_fiat_amounts_def split: list.splits option.splits)
qed

lemma rating_range:
  assumes "parse_rating_tag from_str v = (r, n, d)"
  shows "f64_le (F64_fin 0) r \<and> f64_le r (F64_fin 5)"
  using assms
  by (auto simp: parse_rating_tag_def f64_le_def f64_eq_def opt_filter_def
      split: option.splits if_splits)

lemma parse_status_public:
  "parse_status s = Some st \<Longrightarrow> st \<notin> {WaitingTakerBond, WaitingMakerBond, CooperativelyCanceled}"
  by (auto simp: parse_status_def split: if_splits)

text \<open>
  C40: An order decoded from a public event is well formed whatever the event carries: it names the
  event's author, its \<open>d\<close> tag, its currency and its date, and is never ours yet, its status is one a daemon
  publishes, its fiat amount is fixed or a whole range or absent (never both, never half; an event
  without an amount tag decodes to none), and its rating lies within 0 and 5.
\<close>

theorem public_order_well_formed:
  assumes "parse_order_event from_str e = Some info"
  shows "oe_kind e = 38383 \<and> tag_value (oe_tags e) ''d'' = Some (oi_id info) \<and> oi_creator_pubkey info = oe_pubkey e \<and>
    oi_created_at info = i64_wrap (uint (oe_created_at e)) \<and> tag_value (oe_tags e) ''f'' = Some (oi_fiat_code info) \<and>
    (tag_values (oe_tags e) ''fa'' = None \<longrightarrow> oi_fiat_amount info = None \<and> oi_fiat_amount_min info = None) \<and>
    \<not> oi_is_mine info \<and> oi_status info \<notin> {WaitingTakerBond, WaitingMakerBond, CooperativelyCanceled} \<and>
    (oi_fiat_amount_min info = None \<longleftrightarrow> oi_fiat_amount_max info = None) \<and>
    (oi_fiat_amount info = None \<or> oi_fiat_amount_min info = None) \<and>
    f64_le (F64_fin 0) (oi_rating info) \<and> f64_le (oi_rating info) (F64_fin 5)"
proof -
  obtain a b c r n d where f: "parse_fiat_amounts (case tag_values (oe_tags e) ''fa'' of Some vs \<Rightarrow> vs | None \<Rightarrow> []) = (a, b, c)"
    and r: "parse_rating_tag from_str (tag_value (oe_tags e) ''rating'') = (r, n, d)"
    by (metis prod_cases3)
  obtain kind where k: "oe_kind e = kind_order" "tag_value (oe_tags e) ''d'' = Some (oi_id info)"
    "Option.bind (tag_value (oe_tags e) ''s'') parse_status = Some (oi_status info)"
    "oi_creator_pubkey info = oe_pubkey e" "\<not> oi_is_mine info"
    "oi_created_at info = i64_wrap (uint (oe_created_at e))" "tag_value (oe_tags e) ''f'' = Some (oi_fiat_code info)"
    "oi_fiat_amount info = a" "oi_fiat_amount_min info = b" "oi_fiat_amount_max info = c" "oi_rating info = r"
    using assms f r by (auto simp: parse_order_event_def Let_def split: if_splits option.splits)
  have none: "tag_values (oe_tags e) ''fa'' = None \<longrightarrow> a = None \<and> b = None"
    using f by (auto simp: parse_fiat_amounts_def)
  show ?thesis
    using k none fiat_shape [OF f] rating_range [OF r] parse_status_public
    by (auto simp: kind_order_def bind_eq_Some_conv)
qed

definition sample_event :: "string \<Rightarrow> order_event" where
  "sample_event s = \<lparr>oe_kind = 38383, oe_pubkey = ''node'', oe_created_at = 50,
     oe_tags = [[''d'', ''o''], [''k'', ''sell''], [''s'', s], [''f'', ''EUR''], [''pm'', ''cash'', ''card'']]\<rparr>"

lemma sample_event_parses:
  "\<exists>info. parse_order_event (\<lambda>_. None) (sample_event ''canceled'') = Some info \<and> oi_id info = ''o'' \<and> oi_status info = Canceled"
  by (simp add: parse_order_event_def sample_event_def kind_order_def nth_opt_def parse_order_kind_def parse_status_def
      tag_values_def find_tag_def parse_fiat_amounts_def parse_rating_tag_def)

theorem public_order_well_formed_witness:
  "\<exists>info. parse_order_event (\<lambda>_. None) (sample_event ''canceled'') = Some info \<and> oi_creator_pubkey info = ''node''"
proof -
  obtain info where i: "parse_order_event (\<lambda>_. None) (sample_event ''canceled'') = Some info"
    using sample_event_parses by blast
  from public_order_well_formed [OF i] i show ?thesis by (simp add: sample_event_def)
qed

section \<open>One event on the row\<close>

definition same_rows :: "world \<Rightarrow> world \<Rightarrow> bool" where
  "same_rows w w' \<longleftrightarrow> good w' \<and> tables w' = tables w \<and> w_updates w' = w_updates w"

lemma same_rows_stages:
  "good w \<Longrightarrow> same_rows w (on_book f w)" "good w \<Longrightarrow> same_rows w (touch i w)"
  "good w \<Longrightarrow> same_rows w (snd (lookup_trade_key_index i w))" "good w \<Longrightarrow> same_rows w w"
  by (auto simp: same_rows_def touch_def good_def answers_def on_book_def lookup_trade_key_index_def
      split: option.split sum.split)


lemma restored_mine_id [simp]:
  "oi_id (fst (restore_is_mine info w)) = oi_id info" "oi_status (fst (restore_is_mine info w)) = oi_status info"
  "oi_amount_sats (fst (restore_is_mine info w)) = oi_amount_sats info"
  by (auto simp: restore_is_mine_def split: prod.split option.split sum.split)

text \<open>\<open>s\<close> is the status on the wire: the row stays, takes it where it applies, or is wiped.\<close>

definition wire_move :: "string \<Rightarrow> order_status \<Rightarrow> world \<Rightarrow> world \<Rightarrow> bool" where
  "wire_move i s w w' \<longleftrightarrow> good w' \<and>
     (\<forall>ids. tables_ok ids (tables w) \<longrightarrow> tables_ok ids (tables w')) \<and>
     (\<forall>j. j \<noteq> i \<longrightarrow> get_trade_by_order_id j (tables w') = get_trade_by_order_id j (tables w)) \<and>
     (\<forall>j. j \<noteq> i \<longrightarrow> get_setting (trade_wiped_key j) (tables w') = get_setting (trade_wiped_key j) (tables w)) \<and>
     ((status_of i (tables w') = status_of i (tables w) \<or>
       (\<exists>l. status_of i (tables w) = Some l \<and> wire_status_applies (Some l) s \<and> status_of i (tables w') = Some s)) \<and>
        w_updates w' = w_updates w \<or>
      (\<exists>l t. status_of i (tables w) = Some l \<and> cancellation_wipes_history l \<and> s \<in> {Canceled, Expired, CanceledByAdmin} \<and>
        status_of i (tables w') = None \<and>
        w_updates w' = w_updates w @ [\<lparr>tu_order_id = i, tu_status = Canceled, tu_reason = None, tu_occurred_at = t\<rparr>]))"

lemma wire_move_same: "same_rows w w1 \<Longrightarrow> wire_move i s w w1"
  by (auto simp: wire_move_def same_rows_def)



lemma wire_sync:
  assumes w: "good w" and a: "wire_status_applies (local_trade_status i w) s"
  shows "wire_move i s w (snd (sync_trade_fields_if_changed i row (Some s) None amt w))"
proof (cases "status_of i (tables w)")
  case None
  have "update_trade_fields i st h amt (tables w) = tables w" for st h amt
  proof -
    have "\<forall>r \<in> set (td_rows (tables w)). order_of r \<noteq> i" using None by (simp add: status_of_def get_trade_None)
    then have "map (\<lambda>r. if order_of r = i then f r else r) (td_rows (tables w)) = td_rows (tables w)" for f
      by (simp add: map_idI)
    then show ?thesis by (simp add: update_trade_fields_def update_rows_def)
  qed
  then show ?thesis
    using w by (intro wire_move_same) (auto simp: sync_trade_fields_if_changed_def same_rows_def answers_try touch_def
        on_book_def good_def answers_def)
next
  case (Some l)
  then have "wire_status_applies (Some l) s"
    using a w by (auto simp: local_trade_status_def status_of_def split: option.splits)
  then show ?thesis
    using w Some
    by (auto simp: sync_trade_fields_if_changed_def wire_move_def answers_try touch_def on_book_def good_def answers_def
        update_trade_fields_def tables_ok_update store_simps status_of_def)
qed


lemma wire_wipe:
  assumes w: "good w"
  shows "fst (wipe_on_public_cancel i s w) \<Longrightarrow> wire_move i s w (snd (wipe_on_public_cancel i s w))"
    and "\<not> fst (wipe_on_public_cancel i s w) \<Longrightarrow> snd (wipe_on_public_cancel i s w) = w"
proof -
  have "if s \<in> {Canceled, Expired, CanceledByAdmin} \<and> (\<exists>t. get_trade_by_order_id i (tables w) = Some t \<and>
        cancellation_wipes_history (oi_status (ti_order t)))
      then fst (wipe_on_public_cancel i s w) \<and> wire_move i s w (snd (wipe_on_public_cancel i s w))
      else wipe_on_public_cancel i s w = (False, w)"
  proof (cases "s \<in> {Canceled, Expired, CanceledByAdmin} \<and> (\<exists>t. get_trade_by_order_id i (tables w) = Some t \<and>
        cancellation_wipes_history (oi_status (ti_order t)))")
    case True
    then obtain t where t: "s \<in> {Canceled, Expired, CanceledByAdmin}" "get_trade_by_order_id i (tables w) = Some t"
      "cancellation_wipes_history (oi_status (ti_order t))" by blast
    note ev = event_wipes [OF w t]
    let ?v = "snd (wipe_never_active_trade i (\<not> oi_is_mine (ti_order t)) (w_now w) (ti_trade_key_index t) w)"
    note v = wiped_world [OF w, where i = i and b = "\<not> oi_is_mine (ti_order t)" and t = "w_now w" and n = "ti_trade_key_index t"]
    have eq: "wipe_on_public_cancel i s w = (True, emit_trade_update i Canceled ?v)"
      using t w v(1) by (cases "wipe_never_active_trade i (\<not> oi_is_mine (ti_order t)) (w_now w) (ti_trade_key_index t) w")
        (auto simp: wipe_on_public_cancel_def)
    have tb: "tables (snd (wipe_on_public_cancel i s w)) = tables ?v"
      by (simp add: eq emit_trade_update_def emit_trade_update_with_def)
    have "tables ?v = set_setting (trade_wiped_key i) (tombstone_value (w_now w) (ti_trade_key_index t))
        (delete_trade_by_order_id i (tables w))"
      using w by (simp add: wipe_never_active_trade_def wipe_trade_row_def answers_write answers_try Let_def
          release_finished_trade_subscriptions_def perform_def touch_def on_book_def good_def answers_def)
    then have "\<forall>ids. tables_ok ids (tables w) \<longrightarrow> tables_ok ids (tables ?v)"
      "\<forall>j. j \<noteq> i \<longrightarrow> get_setting (trade_wiped_key j) (tables ?v) = get_setting (trade_wiped_key j) (tables w)"
      "\<forall>j. j \<noteq> i \<longrightarrow> get_trade_by_order_id j (tables ?v) = get_trade_by_order_id j (tables w)"
      by (simp_all add: delete_tables_ok store_simps)
    then show ?thesis using True ev t by (auto simp: wire_move_def tb status_of_def)
  next
    case False
    then show ?thesis using w by (auto simp: wipe_on_public_cancel_def split: option.split)
  qed
  then show "fst (wipe_on_public_cancel i s w) \<Longrightarrow> wire_move i s w (snd (wipe_on_public_cancel i s w))"
    "\<not> fst (wipe_on_public_cancel i s w) \<Longrightarrow> snd (wipe_on_public_cancel i s w) = w"
    by (auto split: if_splits)
qed

text \<open>
  The row of the order in full: wiped exactly by a cancel before it went active, else as it was or, only where the
  status on the wire applies, with that status and the amount of the event.
\<close>

definition ends_unstarted :: "order_status \<Rightarrow> trade_info \<Rightarrow> bool" where
  "ends_unstarted s t \<longleftrightarrow> s \<in> {Canceled, Expired, CanceledByAdmin} \<and> cancellation_wipes_history (oi_status (ti_order t))"

definition wire_row :: "string \<Rightarrow> order_status \<Rightarrow> u64 option \<Rightarrow> world \<Rightarrow> world \<Rightarrow> bool" where
  "wire_row i s amt w w' \<longleftrightarrow> (case get_trade_by_order_id i (tables w) of
      None \<Rightarrow> get_trade_by_order_id i (tables w') = None \<and> w_updates w' = w_updates w
    | Some t \<Rightarrow>
        if ends_unstarted s t
        then get_trade_by_order_id i (tables w') = None \<and> covered i (ti_trade_key_index t) (tables w') \<and>
          (\<exists>at'. w_updates w' = w_updates w @
             [\<lparr>tu_order_id = i, tu_status = Canceled, tu_reason = None, tu_occurred_at = at'\<rparr>])
        else w_updates w' = w_updates w \<and>
          (get_trade_by_order_id i (tables w') = Some t \<or>
           wire_status_applies (Some (oi_status (ti_order t))) s \<and>
           get_trade_by_order_id i (tables w') = Some (set_fields (Some s) None amt t)))"

definition wire_synced :: "string \<Rightarrow> order_status \<Rightarrow> u64 option \<Rightarrow> world \<Rightarrow> world \<Rightarrow> bool" where
  "wire_synced i s amt w w' \<longleftrightarrow> (\<forall>t. get_trade_by_order_id i (tables w) = Some t \<longrightarrow> \<not> ends_unstarted s t \<longrightarrow>
     wire_status_applies (Some (oi_status (ti_order t))) s \<longrightarrow>
     get_trade_by_order_id i (tables w') = Some (set_fields (Some s) None amt t))"

lemma row_kept:
  "same_rows w w1 \<Longrightarrow> \<forall>t. get_trade_by_order_id i (tables w) = Some t \<longrightarrow> \<not> ends_unstarted s t \<Longrightarrow> wire_row i s amt w w1"
  by (auto simp: wire_row_def same_rows_def split: option.split)

lemma row_before: "same_rows w w1 \<Longrightarrow> wire_row i s amt w1 w2 \<Longrightarrow> wire_row i s amt w w2"
  "same_rows w w1 \<Longrightarrow> wire_synced i s amt w1 w2 \<Longrightarrow> wire_synced i s amt w w2"
  by (auto simp: wire_row_def wire_synced_def same_rows_def split: option.splits)

lemma row_after: "wire_row i s amt w w1 \<Longrightarrow> same_rows w1 w2 \<Longrightarrow> wire_row i s amt w w2"
  "wire_synced i s amt w w1 \<Longrightarrow> same_rows w1 w2 \<Longrightarrow> wire_synced i s amt w w2"
  by (auto simp: wire_row_def wire_synced_def same_rows_def split: option.splits)

lemma row_wipe:
  assumes w: "good w"
  shows "fst (wipe_on_public_cancel i s w) \<longleftrightarrow> (\<exists>t. get_trade_by_order_id i (tables w) = Some t \<and> ends_unstarted s t)"
    and "fst (wipe_on_public_cancel i s w) \<Longrightarrow> wire_row i s amt w (snd (wipe_on_public_cancel i s w))"
proof -
  have wipes: "fst (wipe_on_public_cancel i s w) \<and> wire_row i s amt w (snd (wipe_on_public_cancel i s w))"
    if t: "get_trade_by_order_id i (tables w) = Some t" "ends_unstarted s t" for t
    using event_wipes(1,3,4,6) [OF w _ t(1), of s] t by (simp add: ends_unstarted_def wire_row_def)
  have "\<not> fst (wipe_on_public_cancel i s w)"
    if "\<forall>t. get_trade_by_order_id i (tables w) = Some t \<longrightarrow> \<not> ends_unstarted s t"
    using that w by (auto simp: wipe_on_public_cancel_def ends_unstarted_def split: option.split)
  with wipes show "fst (wipe_on_public_cancel i s w) \<longleftrightarrow> (\<exists>t. get_trade_by_order_id i (tables w) = Some t \<and> ends_unstarted s t)"
    "fst (wipe_on_public_cancel i s w) \<Longrightarrow> wire_row i s amt w (snd (wipe_on_public_cancel i s w))" by blast+
qed

lemma row_sync:
  assumes w: "good w" and n: "\<forall>t. get_trade_by_order_id i (tables w) = Some t \<longrightarrow> \<not> ends_unstarted s t"
    and a: "wire_status_applies (local_trade_status i w) s"
    and w'_def: "w' = snd (sync_trade_fields_if_changed i (case read_trade i w of Inr r \<Rightarrow> r | Inl _ \<Rightarrow> None) (Some s) None amt w)"
  shows "wire_row i s amt w w' \<and> wire_synced i s amt w w'"
proof (cases "get_trade_by_order_id i (tables w)")
  case None
  then have "get_trade_by_order_id i (tables w') = None \<and> w_updates w' = w_updates w"
    using w by (auto simp: w'_def sync_trade_fields_if_changed_def answers_try touch_def on_book_def good_def answers_def store_simps)
  then show ?thesis using None by (simp add: wire_row_def wire_synced_def)
next
  case (Some t)
  have r: "read_trade i w = Inr (Some t)" using w Some by simp
  have same: "set_fields (Some s) None amt t = t"
    if "s = oi_status (ti_order t)" "case amt of None \<Rightarrow> True | Some x \<Rightarrow> oi_amount_sats (ti_order t) = Some x"
    using that by (auto simp: set_fields_def split: option.splits)
  have "get_trade_by_order_id i (tables w') = Some (set_fields (Some s) None amt t) \<and> w_updates w' = w_updates w"
    using w Some same
    by (auto simp: w'_def r sync_trade_fields_if_changed_def answers_try touch_def on_book_def good_def answers_def store_simps)
  moreover have "wire_status_applies (Some (oi_status (ti_order t))) s" using a r by (simp add: local_trade_status_def)
  ultimately show ?thesis using n Some by (simp add: wire_row_def wire_synced_def)
qed

lemma same_rows_trans: "same_rows w w1 \<Longrightarrow> same_rows w1 w2 \<Longrightarrow> same_rows w w2"
  by (simp add: same_rows_def)

lemma same_rows_good: "same_rows w w1 \<Longrightarrow> good w1" by (simp add: same_rows_def)
lemma wire_move_good: "wire_move i s w w1 \<Longrightarrow> good w1" by (simp add: wire_move_def)





lemma row_single:
  assumes w: "good w"
  shows "wire_row (oi_id ord) (oi_status ord) (oi_amount_sats ord) w (apply_single_order_update ord w) \<and>
    wire_synced (oi_id ord) (oi_status ord) (oi_amount_sats ord) w (apply_single_order_update ord w)"
proof -
  let ?i = "oi_id ord" and ?s = "oi_status ord" and ?a = "oi_amount_sats ord"
  let ?w1 = "on_book (note_wire_order ord) w"
  have s1: "same_rows w ?w1" by (rule same_rows_stages(1) [OF w])
  note g1 = same_rows_good [OF s1]
  show ?thesis
  proof (cases "fst (wipe_on_public_cancel ?i ?s ?w1)")
    case True
    have "wire_synced ?i ?s ?a ?w1 w2" for w2 using True row_wipe(1) [OF g1] by (auto simp: wire_synced_def)
    then show ?thesis using True row_before [OF s1] row_wipe(2) [OF g1 True]
      by (simp add: apply_single_order_update_def split_beta Let_def)
  next
    case False
    have eq: "wipe_on_public_cancel ?i ?s ?w1 = (False, ?w1)"
      using wire_wipe(2) [OF g1 False] False by (simp add: prod_eq_iff)
    define w3 where "w3 = (if is_hard_terminal ?s then on_book (forget_wire_order ?i) ?w1 else ?w1)"
    have s3: "same_rows w w3" using s1 same_rows_trans [OF s1 same_rows_stages(1) [OF g1]] by (simp add: w3_def)
    note g3 = same_rows_good [OF s3]
    have n: "\<forall>t. get_trade_by_order_id ?i (tables w3) = Some t \<longrightarrow> \<not> ends_unstarted ?s t"
      using row_wipe(1) [OF g1] False s1 s3 by (auto simp: same_rows_def)
    define applies where "applies = wire_status_applies (local_trade_status ?i w3) ?s"
    define w4 where "w4 = (if applies \<and> has_db w3
      then snd (sync_trade_fields_if_changed ?i (case read_trade ?i w3 of Inr r \<Rightarrow> r | Inl _ \<Rightarrow> None) (Some ?s) None ?a w3) else w3)"
    have h: "has_db w3" using g3 by (simp add: good_def answers_def has_db_def)
    have "wire_row ?i ?s ?a w3 w4 \<and> wire_synced ?i ?s ?a w3 w4"
    proof (cases applies)
      case True
      then show ?thesis using row_sync [OF g3 n] h by (simp add: w4_def applies_def)
    next
      case False
      then have "wire_synced ?i ?s ?a w3 w3" using g3 by (auto simp: wire_synced_def applies_def local_trade_status_def)
      then show ?thesis using False row_kept [OF same_rows_stages(4) [OF g3] n] by (simp add: w4_def)
    qed
    then have m4: "wire_row ?i ?s ?a w w4" "wire_synced ?i ?s ?a w w4" using row_before [OF s3] by blast+
    have "wire_move ?i ?s w3 w4" using wire_sync [OF g3] wire_move_same [OF same_rows_stages(4) [OF g3]]
      by (simp add: w4_def applies_def)
    then have g4: "good w4" by (rule wire_move_good)
    have s5: "same_rows w4 (touch ?i (on_book f w4))" for f
      by (rule same_rows_trans [OF same_rows_stages(1) same_rows_stages(2)]) (use g4 in \<open>auto simp: on_book_def\<close>)
    have "\<exists>f. apply_single_order_update ord w = touch ?i (on_book f w4)"
      by (auto simp: apply_single_order_update_def Let_def eq w3_def w4_def applies_def)
    then show ?thesis using row_after(1) [OF m4(1) s5] row_after(2) [OF m4(2) s5] by auto
  qed
qed



section \<open>Histories of public events and messages\<close>













section \<open>A cancel over both of its channels\<close>

lemma upsert_view: "book_view (upsert_order x k) = (fmupd (oi_id x) x (bs_orders (bk_state k)), bk_wire k)"
  using order_info_eq_imp_eq
  by (auto simp: book_view_def upsert_order_def commit_def publish_def bs_upsert_def Let_def split_beta same_upd
      split: option.splits)

lemma remove_view: "book_view (remove_order i k) = (fmdrop i (bs_orders (bk_state k)), bk_wire k)"
  by (simp add: book_view_def remove_order_def remove_order_deferred_def commit_def publish_def bs_remove_def
      Let_def split_beta idle_drop split: option.split)

lemma view_parts:
  "book_view k = (a, b) \<longleftrightarrow> bs_orders (bk_state k) = a \<and> bk_wire k = b"
  by (auto simp: book_view_def)

lemma fmdrop_fmupd_same: "fmdrop i (fmupd i x m) = fmdrop i m"
  by (rule fmap_ext) auto

lemma settle_others:
  assumes "\<forall>x. fmlookup (bk_wire k) i = Some x \<longrightarrow> oi_id x = i"
  shows "bk_wire (settle_after_lost_take i k) = fmdrop i (bk_wire k) \<and>
    fmdrop i (bs_orders (bk_state (settle_after_lost_take i k))) = fmdrop i (bs_orders (bk_state k))"
  using assms upsert_view [unfolded view_parts] remove_view [unfolded view_parts]
  by (auto simp: settle_after_lost_take_def Let_def forget_wire_order_def fmdrop_fmupd_same idle_drop
      split: option.split order_status.split)

lemma settle_noted:
  assumes "oi_id ord = i" and "oi_status ord \<noteq> Pending"
  shows "book_view (settle_after_lost_take i (note_wire_order ord k)) =
      (fmdrop i (bs_orders (bk_state k)), fmdrop i (bk_wire k))"
  using assms remove_view [of i "forget_wire_order i (note_wire_order ord k)"]
  by (auto simp: settle_after_lost_take_def Let_def note_wire_order_def forget_wire_order_def fmdrop_fmupd_same
      split: order_status.split)

text \<open>A cancel on the order's own subscription when the row is gone already: the book takes the entry.\<close>

lemma single_rowless:
  assumes w: "good w" and none: "get_trade_by_order_id (oi_id ord) (tables w) = None"
    and s: "is_hard_terminal (oi_status ord)"
  shows "outcome (apply_single_order_update ord w) = (td_rows (tables w), w_sessions w,
      fmupd (oi_id ord) ord (bs_orders (bk_state (w_book w))), fmdrop (oi_id ord) (bk_wire (w_book w)))"
proof -
  let ?i = "oi_id ord" and ?w1 = "on_book (note_wire_order ord) w"
  let ?w3 = "on_book (forget_wire_order ?i) ?w1"
  let ?w4 = "snd (sync_trade_fields_if_changed ?i (case read_trade ?i ?w3 of Inr r \<Rightarrow> r | Inl _ \<Rightarrow> None)
     (Some (oi_status ord)) None (oi_amount_sats ord) ?w3)"
  have g: "good ?w1" "good ?w3" using w by (simp_all add: good_def answers_def on_book_def)
  have t: "tables ?w1 = tables w" "tables ?w3 = tables w" by (simp_all add: on_book_def)
  have r: "read_trade ?i ?w1 = Inr None" "read_trade ?i ?w3 = Inr None"
    using g none by (simp_all add: t)
  have wipe: "wipe_on_public_cancel ?i (oi_status ord) ?w1 = (False, ?w1)"
    by (simp add: wipe_on_public_cancel_def r)
  have l: "wire_status_applies (local_trade_status ?i ?w3) (oi_status ord)"
    using s by (auto simp: wire_status_applies_def is_terminal_status_def is_hard_terminal_def split: option.split)
  have h: "has_db ?w3" using g by (simp add: good_def answers_def has_db_def)
  have rows: "td_rows (update_trade_fields ?i st hi am (tables w)) = td_rows (tables w)" for st hi am
    using none by (simp add: update_trade_fields_def update_rows_def get_trade_None map_idI)
  have w4: "?w4 = touch ?i (db_try CUpdateFields (update_trade_fields ?i (Some (oi_status ord)) None (oi_amount_sats ord)) ?w3)"
    by (simp add: sync_trade_fields_if_changed_def r)
  have o4: "outcome ?w4 = outcome ?w3"
    unfolding w4 using g(2) rows by (simp add: answers_try outcome_def t touch_def on_book_def touch_trade_def)
  have "apply_single_order_update ord w = touch ?i (on_book (upsert_order ord) ?w4)"
    using s l h by (simp add: apply_single_order_update_def Let_def wipe)
  then have "outcome (apply_single_order_update ord w) = outcome (on_book (upsert_order ord) ?w4)" by simp
  also have "\<dots> = (td_rows (tables w), w_sessions w,
      fmupd ?i ord (bs_orders (bk_state (w_book w))), fmdrop ?i (bk_wire (w_book w)))"
    using o4 upsert_view [of ord "w_book ?w4", unfolded view_parts]
    by (simp add: outcome_def on_book_def note_wire_order_def forget_wire_order_def fmdrop_fmupd_same)
  finally show ?thesis .
qed

text \<open>
  C25: The daemon reports the end of a trade that never went active twice, over two subscriptions: its
  \<open>canceled\<close> on the trade key and the order's own public event. Whichever arrives first wipes the trade and the
  other finds nothing to wipe: the rows, the sessions, the noted public orders and the book entries of all other orders
  end up the same, the row is gone, and the user interface hears of the cancel exactly once. Only the order's own book
  entry tells the two apart: with the message first the public event puts its canceled order there; with the event first
  a taken order has no entry and an own order keeps the one it had. Conditions: the store answers and no create is pending;
  the message is accepted, valid, without payload, on the key bound to the order with no call waiting, of the trade's
  generation and not behind the cursor; the order noted under the identifier, if any, carries it; and the
  subscription of the order is still watched when the event comes second.
\<close>

theorem both_ends_of_a_cancel_agree:
  assumes w: "good w" "is_i64 (dm_created_at m)" and c: "cancel_of cr i m w"
    and ord: "oi_id ord = i" "oi_status ord \<in> {Canceled, Expired, CanceledByAdmin}"
    and t: "get_trade_by_order_id i (tables w) = Some t" "cancellation_wipes_history (oi_status (ti_order t))"
      "ti_trade_key_index t = dm_trade_index m"
    and new: "\<not> status_write_blocked i A_Canceled (dm_created_at m) w"
    and noted: "\<forall>x. fmlookup (bk_wire (w_book w)) i = Some x \<longrightarrow> oi_id x = i"
  shows "let message_first = apply_single_order_update ord (dispatch_mostro_message cr m w);
       event_first = dispatch_mostro_message cr m (apply_single_order_update ord w);
       book = (\<lambda>v. bs_orders (bk_state (w_book v)))
     in td_rows (tables message_first) = td_rows (tables event_first) \<and>
        get_trade_by_order_id i (tables event_first) = None \<and>
        w_sessions message_first = w_sessions event_first \<and>
        bk_wire (w_book message_first) = bk_wire (w_book event_first) \<and>
        fmdrop i (book message_first) = fmdrop i (book event_first) \<and>
        fmlookup (book message_first) i = Some ord \<and>
        fmlookup (book event_first) i = (if oi_is_mine (ti_order t) then fmlookup (book w) i else None) \<and>
        (\<exists>r at'. w_updates message_first =
           w_updates w @ [\<lparr>tu_order_id = i, tu_status = Canceled, tu_reason = r, tu_occurred_at = at'\<rparr>]) \<and>
        (\<exists>r at'. w_updates event_first =
           w_updates w @ [\<lparr>tu_order_id = i, tu_status = Canceled, tu_reason = r, tu_occurred_at = at'\<rparr>])"
proof -
  let ?m = "dispatch_mostro_message cr m w" and ?w1 = "on_book (note_wire_order ord) w"
  let ?e = "snd (wipe_on_public_cancel i (oi_status ord) ?w1)" and ?mine = "oi_is_mine (ti_order t)"
  have h: "is_hard_terminal (oi_status ord)" "oi_status ord \<noteq> Pending" using ord(2) by (auto simp: is_hard_terminal_def)
  have g1: "good ?w1" and t1: "get_trade_by_order_id i (tables ?w1) = Some t"
    and u1: "w_updates ?w1 = w_updates w" "td_rows (tables ?w1) = td_rows (tables w)" "w_sessions ?w1 = w_sessions w"
    using w(1) t(1) by (simp_all add: good_def answers_def on_book_def)
  note msg = message_wipes [OF w c t(1,2) new] and ev = event_wipes [OF g1 ord(2) t1 t(2)]
  have e: "apply_single_order_update ord w = ?e"
    using ev(1) ord(1) by (simp add: apply_single_order_update_def split_beta Let_def)
  have "cancel_of cr i m ?w1 = cancel_of cr i m w"
    using sender_accepted_cong [of ?w1 w cr m] by (simp add: cancel_of_def on_book_def)
  then have c': "cancel_of cr i m ?e" using ev(7) c by blast
  have still: "dispatch_mostro_message cr m ?e = ?e"
  proof -
    have "trade_row_state i (dm_trade_index m) ?e = RowWiped"
      using ev(3-5) t(3) by (auto simp: trade_row_state_def covered_def split: option.splits)
    then show ?thesis
      using canceled_arrives [OF ev(5) c'] c by (simp add: arm_canceled_def status_arm_gate_def split: option.split)
  qed
  have eb: "bs_orders (bk_state (w_book ?e)) = (if ?mine then bs_orders (bk_state (w_book w))
        else fmdrop i (bs_orders (bk_state (w_book w)))) \<and> bk_wire (w_book ?e) = fmdrop i (bk_wire (w_book w))"
    using ev(2) settle_noted [OF ord(1) h(2), of "w_book w"] ord(1)
    by (auto simp: outcome_def book_view_def on_book_def forget_wire_order_def note_wire_order_def fmdrop_fmupd_same
        split: if_splits)
  have er: "td_rows (tables ?e) = filter (\<lambda>r. order_of r \<noteq> i) (td_rows (tables w)) \<and>
      w_sessions ?e = remove_session i (w_sessions w)"
    using ev(2) u1 by (simp add: outcome_def book_view_def)
  have mb: "fmdrop i (bs_orders (bk_state (w_book ?m))) = fmdrop i (bs_orders (bk_state (w_book w))) \<and>
      fmdrop i (bk_wire (w_book ?m)) = fmdrop i (bk_wire (w_book w))"
    using msg settle_others [OF noted]
    by (auto simp: outcome_def book_view_def forget_wire_order_def idle_drop split: if_splits)
  have gone: "get_trade_by_order_id (oi_id ord) (tables ?m) = None" and gm: "good ?m" using msg ord(1) by simp_all
  note after = single_rowless [OF gm gone h(1)]
  have quiet: "w_updates (apply_single_order_update ord ?m) = w_updates ?m"
    using row_single [OF gm, of ord] gone by (simp add: wire_row_def)
  show ?thesis
    unfolding Let_def e still using after quiet mb eb er ev(3,6) msg ord(1) u1
    by (auto simp: outcome_def fmdrop_fmupd_same)
qed

theorem both_ends_of_a_cancel_agree_witness:
  "let w = (sample_world2 (sample_db [sample_row WaitingPayment False None] []))\<lparr>w_key_map := fmupd ''o'' 4 fmempty\<rparr>;
       ord = demo_order\<lparr>oi_id := ''o'', oi_status := Canceled\<rparr>; m = sample_message A_Canceled 50 None
   in td_rows (tables (apply_single_order_update ord (dispatch_mostro_message sample_crypto m w))) =
        td_rows (tables (dispatch_mostro_message sample_crypto m (apply_single_order_update ord w))) \<and>
      fmlookup (bs_orders (bk_state (w_book (apply_single_order_update ord (dispatch_mostro_message sample_crypto m w))))) ''o''
        = Some ord"
proof -
  let ?w = "(sample_world2 (sample_db [sample_row WaitingPayment False None] []))\<lparr>w_key_map := fmupd ''o'' 4 fmempty\<rparr>"
  let ?m = "sample_message A_Canceled 50 None" and ?ord = "demo_order\<lparr>oi_id := ''o'', oi_status := Canceled\<rparr>"
  have g: "good ?w" using good_sample by (simp add: good_def answers_def)
  have d: "is_i64 (dm_created_at ?m)" by (simp add: sample_message_def)
  have c: "cancel_of sample_crypto ''o'' ?m ?w"
    by (simp add: cancel_of_def sender_accepted_def sample_defs)
  have t: "get_trade_by_order_id ''o'' (tables ?w) = Some (sample_row WaitingPayment False None)"
    "cancellation_wipes_history (oi_status (ti_order (sample_row WaitingPayment False None)))"
    "ti_trade_key_index (sample_row WaitingPayment False None) = dm_trade_index ?m"
    by (simp_all add: get_trade_by_order_id_def sample_defs order_of_def cancellation_wipes_history_def)
  have new: "\<not> status_write_blocked ''o'' A_Canceled (dm_created_at ?m) ?w"
    using g t by (simp add: status_write_blocked_def status_sync_blocked_by_terminal_def current_local_status_def
        cursor_of_def get_setting_def) (simp add: sample_defs is_hard_terminal_def)
  have noted: "\<forall>x. fmlookup (bk_wire (w_book ?w)) ''o'' = Some x \<longrightarrow> oi_id x = ''o''"
    by (simp add: sample_world2_def new_book_def)
  show ?thesis
    using both_ends_of_a_cancel_agree [OF g d c _ _ t new noted, of ?ord] unfolding Let_def by simp
qed

end
