(* ===== verification/Live_Subs.thy ===== *)
theory Live_Subs
  imports Prelude
begin

text \<open>
  The registry of long-lived relay subscriptions (\<open>nostr/live_subs.rs\<close>) and the coalescing of
  refresh requests (\<open>nostr/coalesce.rs\<close>).

  The relay side of a subscription is kept by nostr-sdk, which is not part of the repository. It
  is the parameter \<open>relay_lib\<close>: what one relay of the pool holds, and what a REQ and a CLOSE do to
  it. What the module comment of \<open>live_subs.rs\<close> relies on is the hypothesis \<open>relay_lib_ok\<close>: a REQ
  whose id is held is refused and keeps the old filters, a REQ that fails leaves nothing behind, a
  CLOSE drops the id. Every operation runs under the lock of \<open>desired\<close>, so it is one step; a repair
  takes the lock once per subscription, so each of its subscriptions is a step of its own.
\<close>

section \<open>The pool and one REQ\<close>

record ('r, 'f) relay_lib =
  rl_connected :: "'r \<Rightarrow> bool"
  rl_held :: "'r \<Rightarrow> string \<Rightarrow> 'f list option"
  rl_subscribe :: "'r \<Rightarrow> string \<Rightarrow> 'f \<Rightarrow> bool \<times> 'r"
  rl_unsubscribe :: "'r \<Rightarrow> string \<Rightarrow> 'r"

datatype issued = Live | Deferred

record ('r, 'f) live_subs =
  ls_desired :: "(string, 'f) fmap"
  ls_attempts :: "(string \<times> string, nat) fmap"
  ls_pool :: "(string \<times> 'r) list"

definition pool_subscribe :: "('r, 'f) relay_lib \<Rightarrow> string \<Rightarrow> 'f \<Rightarrow> (string \<times> 'r) list \<Rightarrow> (string \<times> 'r) list" where
  "pool_subscribe lib sid f pool = map (\<lambda>(url, r). (url, snd (rl_subscribe lib r sid f))) pool"

definition pool_unsubscribe :: "('r, 'f) relay_lib \<Rightarrow> string \<Rightarrow> (string \<times> 'r) list \<Rightarrow> (string \<times> 'r) list" where
  "pool_unsubscribe lib sid pool = map (\<lambda>(url, r). (url, rl_unsubscribe lib r sid)) pool"

text \<open>\<open>err\<close> is the error \<open>client.subscribe\<close> itself may give before any relay was asked.\<close>

definition issue ::
  "('r, 'f) relay_lib \<Rightarrow> string option \<Rightarrow> string \<Rightarrow> 'f \<Rightarrow> (string \<times> 'r) list \<Rightarrow> (string + issued) \<times> (string \<times> 'r) list" where
  "issue lib err sid f pool = (case err of
      Some e \<Rightarrow> (Inl (''subscribe '' @ sid @ '' failed: '' @ e), pool)
    | None \<Rightarrow>
        (Inr (if \<exists>(url, r) \<in> set pool. fst (rl_subscribe lib r sid f) then Live else Deferred),
         pool_subscribe lib sid f pool))"

section \<open>Open, replace, close\<close>

definition open_sub ::
  "('r, 'f) relay_lib \<Rightarrow> string option \<Rightarrow> string \<Rightarrow> 'f \<Rightarrow> ('r, 'f) live_subs \<Rightarrow> (string + unit) \<times> ('r, 'f) live_subs" where
  "open_sub lib err sid f s = (case issue lib err sid f (ls_pool s) of
      (Inl e, pool) \<Rightarrow> (Inl e, s\<lparr>ls_pool := pool\<rparr>)
    | (Inr Deferred, pool) \<Rightarrow> (Inl (''subscribe '' @ sid @ '' rejected by every relay''), s\<lparr>ls_pool := pool\<rparr>)
    | (Inr Live, pool) \<Rightarrow> (Inr (), s\<lparr>ls_pool := pool, ls_desired := fmupd sid f (ls_desired s)\<rparr>))"

definition replace_sub ::
  "('r, 'f) relay_lib \<Rightarrow> bool \<Rightarrow> string option \<Rightarrow> string \<Rightarrow> 'f \<Rightarrow> ('r, 'f) live_subs \<Rightarrow> (string + issued) \<times> ('r, 'f) live_subs" where
  "replace_sub lib unsub_fails err sid f s =
     (let pool = (if unsub_fails then ls_pool s else pool_unsubscribe lib sid (ls_pool s));
          (res, pool') = issue lib err sid f pool
      in (res, s\<lparr>ls_desired := fmupd sid f (ls_desired s), ls_pool := pool'\<rparr>))"

definition close_sub :: "('r, 'f) relay_lib \<Rightarrow> bool \<Rightarrow> string \<Rightarrow> ('r, 'f) live_subs \<Rightarrow> ('r, 'f) live_subs" where
  "close_sub lib unsub_fails sid s =
     s\<lparr>ls_desired := fmdrop sid (ls_desired s),
       ls_pool := (if unsub_fails then ls_pool s else pool_unsubscribe lib sid (ls_pool s))\<rparr>"

section \<open>Repair\<close>

definition missing_on :: "(string, 'f) fmap \<Rightarrow> (string \<Rightarrow> 'f list option) \<Rightarrow> string \<Rightarrow> bool" where
  "missing_on desired present sid = (case fmlookup desired sid of
      None \<Rightarrow> False | Some f \<Rightarrow> present sid \<noteq> Some [f])"

datatype repair = Skipped | Stopped | Attempted bool

definition set_relay :: "string \<Rightarrow> 'r \<Rightarrow> (string \<times> 'r) list \<Rightarrow> (string \<times> 'r) list" where
  "set_relay url r pool = map (\<lambda>(u, x). (u, if u = url then r else x)) pool"

text \<open>
  The body of the loop, for one candidate: it reads what is recorded and what the relay holds now.
  A REQ that runs into \<open>REPAIR_TIMEOUT\<close> is one the relay did not accept.
\<close>

definition repair_one ::
  "('r, 'f) relay_lib \<Rightarrow> string \<Rightarrow> string \<Rightarrow> ('r, 'f) live_subs \<Rightarrow> repair \<times> ('r, 'f) live_subs" where
  "repair_one lib url sid s = (case fmlookup (ls_desired s) sid of
      None \<Rightarrow> (Skipped, s)
    | Some f \<Rightarrow> (case map_of (ls_pool s) url of
        None \<Rightarrow> (Stopped, s)
      | Some r \<Rightarrow>
          if \<not> rl_connected lib r then (Stopped, s)
          else if rl_held lib r sid = Some [f] then (Skipped, s)
          else (let r1 = (if rl_held lib r sid = None then r else rl_unsubscribe lib r sid);
                    (ok, r2) = rl_subscribe lib r1 sid f
                in (Attempted ok, s\<lparr>ls_pool := set_relay url r2 (ls_pool s)\<rparr>))))"

fun repair_loop ::
  "('r, 'f) relay_lib \<Rightarrow> string \<Rightarrow> string list \<Rightarrow> ('r, 'f) live_subs \<Rightarrow> nat \<times> ('r, 'f) live_subs" where
  "repair_loop lib url [] s = (0, s)"
| "repair_loop lib url (sid # ids) s = (case repair_one lib url sid s of
     (Skipped, s') \<Rightarrow> repair_loop lib url ids s'
   | (Stopped, s') \<Rightarrow> (0, s')
   | (Attempted ok, s') \<Rightarrow>
       (let (n, s'') = repair_loop lib url ids s' in ((if ok then n + 1 else n), s'')))"

text \<open>\<open>order\<close> is the order in which the hash map yields the recorded ids.\<close>

definition repair_relay ::
  "('r, 'f) relay_lib \<Rightarrow> string list \<Rightarrow> string \<Rightarrow> ('r, 'f) live_subs \<Rightarrow> nat \<times> ('r, 'f) live_subs" where
  "repair_relay lib order url s = (case map_of (ls_pool s) url of
      None \<Rightarrow> (0, s)
    | Some r \<Rightarrow>
        if ls_desired s = fmempty \<or> \<not> rl_connected lib r then (0, s)
        else repair_loop lib url (filter (missing_on (ls_desired s) (rl_held lib r)) order) s)"

fun repair_urls ::
  "('r, 'f) relay_lib \<Rightarrow> string list \<Rightarrow> string list \<Rightarrow> ('r, 'f) live_subs \<Rightarrow> nat \<times> ('r, 'f) live_subs" where
  "repair_urls lib order [] s = (0, s)"
| "repair_urls lib order (url # urls) s =
     (let (n, s1) = repair_relay lib order url s; (m, s2) = repair_urls lib order urls s1 in (n + m, s2))"

definition repair_all :: "('r, 'f) relay_lib \<Rightarrow> string list \<Rightarrow> ('r, 'f) live_subs \<Rightarrow> nat \<times> ('r, 'f) live_subs" where
  "repair_all lib order s = repair_urls lib order (map fst (ls_pool s)) s"

section \<open>The budget of repairs after a relay's CLOSED\<close>

definition closed_repair_delays :: "nat list" where
  "closed_repair_delays = [30, 120, 600]"

definition next_delay ::
  "string \<Rightarrow> string \<Rightarrow> (string \<times> string, nat) fmap \<Rightarrow> nat option \<times> (string \<times> string, nat) fmap" where
  "next_delay url sid attempts =
     (let spent = (case fmlookup attempts (url, sid) of Some n \<Rightarrow> n | None \<Rightarrow> 0);
          delay = nth_opt closed_repair_delays spent
      in (delay, fmupd (url, sid) (if delay = None then spent else spent + 1) attempts))"

definition reset_relay :: "string \<Rightarrow> (string \<times> string, nat) fmap \<Rightarrow> (string \<times> string, nat) fmap" where
  "reset_relay url attempts = fmfilter (\<lambda>(relay, _). relay \<noteq> url) attempts"

text \<open>The delay of the repair it schedules, or \<open>None\<close> when it schedules none.\<close>

definition on_closed :: "string \<Rightarrow> string \<Rightarrow> ('r, 'f) live_subs \<Rightarrow> nat option \<times> ('r, 'f) live_subs" where
  "on_closed url sid s =
     (if fmlookup (ls_desired s) sid = None then (None, s)
      else (let (delay, attempts) = next_delay url sid (ls_attempts s)
            in (delay, s\<lparr>ls_attempts := attempts\<rparr>)))"

text \<open>The loop of \<open>spawn_repair\<close>, for one report of the status monitor.\<close>

datatype status_report = Connected string | OtherStatus | Lagged

definition on_status :: "('r, 'f) relay_lib \<Rightarrow> string list \<Rightarrow> status_report \<Rightarrow> ('r, 'f) live_subs \<Rightarrow> ('r, 'f) live_subs" where
  "on_status lib order report s = (case report of
      Connected url \<Rightarrow> snd (repair_relay lib order url (s\<lparr>ls_attempts := reset_relay url (ls_attempts s)\<rparr>))
    | OtherStatus \<Rightarrow> s
    | Lagged \<Rightarrow> snd (repair_all lib order s))"

section \<open>Coalesced refreshes\<close>

text \<open>
  \<open>cw_armed\<close> is the atomic flag, \<open>cw_timers\<close> the windows running: a request that finds the flag
  set rides along, a window that ends disarms before its run reads the input.
\<close>

record coalesced =
  cw_armed :: bool
  cw_timers :: nat

definition request :: "coalesced \<Rightarrow> coalesced" where
  "request c = (if cw_armed c then c else c\<lparr>cw_armed := True, cw_timers := cw_timers c + 1\<rparr>)"

definition window_closes :: "coalesced \<Rightarrow> coalesced" where
  "window_closes c = c\<lparr>cw_armed := False, cw_timers := cw_timers c - 1\<rparr>"

section \<open>What is relied on\<close>

definition relay_lib_ok :: "('r, 'f) relay_lib \<Rightarrow> bool" where
  "relay_lib_ok lib \<longleftrightarrow>
     (\<forall>r sid f. rl_held lib r sid \<noteq> None \<longrightarrow> rl_subscribe lib r sid f = (False, r)) \<and>
     (\<forall>r sid f ok r'. rl_held lib r sid = None \<and> rl_subscribe lib r sid f = (ok, r') \<longrightarrow>
        rl_held lib r' = (rl_held lib r)(sid := (if ok then Some [f] else None)) \<and>
        rl_connected lib r' = rl_connected lib r) \<and>
     (\<forall>r sid. rl_held lib (rl_unsubscribe lib r sid) = (rl_held lib r)(sid := None) \<and>
        rl_connected lib (rl_unsubscribe lib r sid) = rl_connected lib r)"

end
