(* ===== verification/Live_Subs_Safety.thy ===== *)
theory Live_Subs_Safety
  imports Live_Subs
begin

text \<open>
  What the subscription registry guarantees over every history of opens, replaces, closes, repairs
  and changes on the relay side: nothing is held that nobody wants, a reconnect brings back exactly
  what is wanted, a closed subscription stays closed, and repairs after a CLOSED are bounded.
\<close>

section \<open>Relays after each call\<close>

lemma map_of_subscribe [simp]:
  "map_of (pool_subscribe lib sid f pool) url = map_option (\<lambda>r. snd (rl_subscribe lib r sid f)) (map_of pool url)"
  by (induction pool) (auto simp: pool_subscribe_def)

lemma map_of_unsubscribe [simp]:
  "map_of (pool_unsubscribe lib sid pool) url = map_option (\<lambda>r. rl_unsubscribe lib r sid) (map_of pool url)"
  by (induction pool) (auto simp: pool_unsubscribe_def)

lemma map_of_set_relay [simp]:
  "map_of (set_relay u r pool) url = (if url = u then map_option (\<lambda>_. r) (map_of pool url) else map_of pool url)"
  by (induction pool) (auto simp: set_relay_def)

lemma held_subscribe:
  assumes "relay_lib_ok lib"
  shows "rl_held lib (snd (rl_subscribe lib r sid f)) j =
    (if j = sid then (if rl_held lib r sid = None then (if fst (rl_subscribe lib r sid f) then Some [f] else None)
       else rl_held lib r sid) else rl_held lib r j)"
proof (cases "rl_held lib r sid")
  case None
  obtain ok r' where e: "rl_subscribe lib r sid f = (ok, r')" by fastforce
  have "rl_held lib r' = (rl_held lib r)(sid := (if ok then Some [f] else None))"
    using assms None e unfolding relay_lib_ok_def by blast
  then show ?thesis using None e by simp
next
  case (Some fs)
  then have "rl_subscribe lib r sid f = (False, r)" using assms unfolding relay_lib_ok_def by blast
  then show ?thesis using Some by simp
qed

lemma connected_subscribe:
  assumes "relay_lib_ok lib"
  shows "rl_connected lib (snd (rl_subscribe lib r sid f)) = rl_connected lib r"
proof (cases "rl_held lib r sid")
  case None
  then show ?thesis using assms unfolding relay_lib_ok_def by (metis prod.collapse)
next
  case (Some fs)
  then have "rl_subscribe lib r sid f = (False, r)" using assms unfolding relay_lib_ok_def by blast
  then show ?thesis by simp
qed

lemma held_unsubscribe:
  assumes "relay_lib_ok lib"
  shows "rl_held lib (rl_unsubscribe lib r sid) = (rl_held lib r)(sid := None)"
    and "rl_connected lib (rl_unsubscribe lib r sid) = rl_connected lib r"
  using assms unfolding relay_lib_ok_def by blast+

definition held_at :: "('r, 'f) relay_lib \<Rightarrow> ('r, 'f) live_subs \<Rightarrow> string \<Rightarrow> string \<Rightarrow> 'f list option" where
  "held_at lib s url sid = (case map_of (ls_pool s) url of None \<Rightarrow> None | Some r \<Rightarrow> rl_held lib r sid)"

section \<open>Nothing is held that nobody wants\<close>

definition subs_ok :: "('r, 'f) relay_lib \<Rightarrow> ('r, 'f) live_subs \<Rightarrow> bool" where
  "subs_ok lib s \<longleftrightarrow> (\<forall>url r sid fs. map_of (ls_pool s) url = Some r \<and> rl_held lib r sid = Some fs \<longrightarrow>
     fmlookup (ls_desired s) sid \<noteq> None \<and> (\<exists>f. fs = [f]))"

named_theorems subs_intros \<open>operations keep \<open>subs_ok\<close>\<close>

lemma subs_ok_open [subs_intros]:
  assumes lib: "relay_lib_ok lib" and s: "subs_ok lib s"
  shows "subs_ok lib (snd (open_sub lib err sid f s))"
proof (cases err)
  case (Some e)
  then show ?thesis using s by (simp add: open_sub_def issue_def)
next
  case None
  let ?live = "\<exists>(url, r) \<in> set (ls_pool s). fst (rl_subscribe lib r sid f)"
  have refused: "\<not> ?live \<Longrightarrow> map_of (ls_pool s) url = Some r \<Longrightarrow> \<not> fst (rl_subscribe lib r sid f)" for url r
    by (auto dest: map_of_SomeD)
  have "subs_ok lib (s\<lparr>ls_pool := pool_subscribe lib sid f (ls_pool s), ls_desired := d\<rparr>)"
    if "d = (if ?live then fmupd sid f (ls_desired s) else ls_desired s)" for d
    using s refused unfolding subs_ok_def that by (auto simp: held_subscribe [OF lib] split: if_splits)
  from this [OF refl] show ?thesis
    using None by (auto simp: open_sub_def issue_def split: if_splits)
qed

lemma subs_ok_replace [subs_intros]:
  assumes lib: "relay_lib_ok lib" and s: "subs_ok lib s"
  shows "subs_ok lib (snd (replace_sub lib False err sid f s))"
proof (cases err)
  case (Some e)
  then show ?thesis
    using s unfolding subs_ok_def
    by (auto simp: replace_sub_def issue_def Let_def held_unsubscribe(1) [OF lib] split: if_splits)
next
  case None
  then show ?thesis
    using s unfolding subs_ok_def
    by (auto simp: replace_sub_def issue_def Let_def held_unsubscribe(1) [OF lib] held_subscribe [OF lib] split: if_splits)
qed

lemma subs_ok_close [subs_intros]:
  assumes lib: "relay_lib_ok lib" and s: "subs_ok lib s"
  shows "subs_ok lib (close_sub lib False sid s)"
  using s unfolding subs_ok_def by (auto simp: close_sub_def held_unsubscribe(1) [OF lib] split: if_splits)

text \<open>
  One step of a repair, however old the snapshot it works on: it changes one id on one relay, and
  only to the filter recorded at that moment; an id nobody records is left alone.
\<close>

lemma repair_one_result:
  assumes lib: "relay_lib_ok lib"
  shows "ls_desired (snd (repair_one lib url sid s)) = ls_desired s"
    and "ls_attempts (snd (repair_one lib url sid s)) = ls_attempts s"
    and "u \<noteq> url \<or> j \<noteq> sid \<Longrightarrow> held_at lib (snd (repair_one lib url sid s)) u j = held_at lib s u j"
    and "fmlookup (ls_desired s) sid = None \<Longrightarrow> snd (repair_one lib url sid s) = s"
    and "fmlookup (ls_desired s) sid = Some f \<Longrightarrow>
      held_at lib (snd (repair_one lib url sid s)) url sid \<in> {held_at lib s url sid, Some [f], None}"
  by (auto simp: repair_one_def held_at_def Let_def split_beta held_subscribe [OF lib] held_unsubscribe(1) [OF lib]
      split: option.split)

lemma subs_ok_alt:
  "subs_ok lib s \<longleftrightarrow> (\<forall>url sid fs. held_at lib s url sid = Some fs \<longrightarrow>
     fmlookup (ls_desired s) sid \<noteq> None \<and> (\<exists>f. fs = [f]))"
  by (auto simp: subs_ok_def held_at_def split: option.splits)

lemma subs_ok_repair [subs_intros]:
  assumes lib: "relay_lib_ok lib" and s: "subs_ok lib s"
  shows "subs_ok lib (snd (repair_one lib url sid s))"
proof (cases "fmlookup (ls_desired s) sid")
  case None
  then show ?thesis using s repair_one_result(4) [OF lib] by metis
next
  case (Some f)
  show ?thesis
    unfolding subs_ok_alt
  proof (intro allI impI)
    fix u j fs assume h: "held_at lib (snd (repair_one lib url sid s)) u j = Some fs"
    show "fmlookup (ls_desired (snd (repair_one lib url sid s))) j \<noteq> None \<and> (\<exists>f. fs = [f])"
    proof (cases "u = url \<and> j = sid")
      case True
      then have "Some fs \<in> {held_at lib s url sid, Some [f], None}" using h repair_one_result(5) [OF lib Some] by metis
      then show ?thesis
        using s Some True unfolding subs_ok_alt by (auto simp: repair_one_result(1) [OF lib])
    next
      case False
      then show ?thesis
        using h s repair_one_result(3) [OF lib, of u url j sid s] unfolding subs_ok_alt
        by (auto simp: repair_one_result(1) [OF lib])
    qed
  qed
qed

text \<open>A repair of any shape is a sequence of such steps.\<close>

inductive repaired :: "('r, 'f) relay_lib \<Rightarrow> ('r, 'f) live_subs \<Rightarrow> ('r, 'f) live_subs \<Rightarrow> bool" for lib where
  repaired_refl: "repaired lib s s"
| repaired_step: "repaired lib s s1 \<Longrightarrow> repaired lib s (snd (repair_one lib url sid s1))"

lemma repaired_trans: "repaired lib s1 s2 \<Longrightarrow> repaired lib s s1 \<Longrightarrow> repaired lib s s2"
  by (induction rule: repaired.induct) (auto intro: repaired.intros)

lemma repaired_loop: "repaired lib s (snd (repair_loop lib url ids s))"
proof (induction ids arbitrary: s)
  case (Cons sid ids)
  obtain a s' where a: "repair_one lib url sid s = (a, s')" by fastforce
  then have "repaired lib s s'" using repaired_step [OF repaired_refl, where url = url and sid = sid] by (metis snd_conv)
  then show ?case
    using a Cons.IH [of s'] repaired_trans by (auto simp: split_beta Let_def split: repair.split)
qed (simp add: repaired_refl)

lemma repaired_relay: "repaired lib s (snd (repair_relay lib order url s))"
  by (auto simp: repair_relay_def repaired_loop repaired_refl split: option.split)

lemma repaired_urls: "repaired lib s (snd (repair_urls lib order urls s))"
  by (induction urls arbitrary: s)
    (auto simp: split_beta Let_def repaired_refl intro: repaired_trans [OF _ repaired_relay])

lemma repaired_keeps:
  assumes "relay_lib_ok lib" "repaired lib s s'"
  shows "ls_desired s' = ls_desired s \<and> (subs_ok lib s \<longrightarrow> subs_ok lib s')"
  using assms(2) by (induction rule: repaired.induct)
    (auto simp: repair_one_result(1) [OF assms(1)] subs_ok_repair [OF assms(1)])

section \<open>Histories\<close>

text \<open>
  A repair under way may run its next step at any moment (\<open>SubRepair\<close>); a relay may change on its
  own side, connect, go away or close a subscription (\<open>SubRelay\<close>), or leave the pool.
\<close>

datatype ('r, 'f) sub_event =
    SubOpen string 'f "string option"
  | SubReplace string 'f bool "string option"
  | SubClose string bool
  | SubRepair string string
  | SubStatus "string list" status_report
  | SubClosed string string
  | SubRelay string 'r
  | SubGone string

definition sub_step :: "('r, 'f) relay_lib \<Rightarrow> ('r, 'f) sub_event \<Rightarrow> ('r, 'f) live_subs \<Rightarrow> ('r, 'f) live_subs" where
  "sub_step lib e s = (case e of
      SubOpen sid f err \<Rightarrow> snd (open_sub lib err sid f s)
    | SubReplace sid f bad err \<Rightarrow> snd (replace_sub lib bad err sid f s)
    | SubClose sid bad \<Rightarrow> close_sub lib bad sid s
    | SubRepair url sid \<Rightarrow> snd (repair_one lib url sid s)
    | SubStatus order report \<Rightarrow> on_status lib order report s
    | SubClosed url sid \<Rightarrow> snd (on_closed url sid s)
    | SubRelay url r \<Rightarrow> s\<lparr>ls_pool := (if map_of (ls_pool s) url = None then (url, r) # ls_pool s
        else set_relay url r (ls_pool s))\<rparr>
    | SubGone url \<Rightarrow> s\<lparr>ls_pool := filter (\<lambda>(u, _). u \<noteq> url) (ls_pool s)\<rparr>)"

text \<open>
  The calm events: a CLOSE reaches the registry of the SDK, and a relay on its own drops
  subscriptions but does not invent them.
\<close>

definition calm_event :: "('r, 'f) relay_lib \<Rightarrow> ('r, 'f) sub_event \<Rightarrow> ('r, 'f) live_subs \<Rightarrow> bool" where
  "calm_event lib e s \<longleftrightarrow> (case e of
      SubReplace _ _ bad _ \<Rightarrow> \<not> bad
    | SubClose _ bad \<Rightarrow> \<not> bad
    | SubRelay url r \<Rightarrow> (\<forall>sid. rl_held lib r sid = None \<or> rl_held lib r sid = held_at lib s url sid)
    | _ \<Rightarrow> True)"

fun calm_run :: "('r, 'f) relay_lib \<Rightarrow> ('r, 'f) sub_event list \<Rightarrow> ('r, 'f) live_subs \<Rightarrow> bool" where
  "calm_run lib [] s \<longleftrightarrow> True"
| "calm_run lib (e # es) s \<longleftrightarrow> calm_event lib e s \<and> calm_run lib es (sub_step lib e s)"

definition no_subs :: "('r, 'f) live_subs" where
  "no_subs = \<lparr>ls_desired = fmempty, ls_attempts = fmempty, ls_pool = []\<rparr>"

lemma subs_ok_attempts [simp]: "subs_ok lib (s\<lparr>ls_attempts := a\<rparr>) = subs_ok lib s"
  by (simp add: subs_ok_def)

lemma status_keeps:
  assumes "relay_lib_ok lib"
  shows "ls_desired (on_status lib order report s) = ls_desired s"
    and "subs_ok lib s \<Longrightarrow> subs_ok lib (on_status lib order report s)"
proof -
  have "ls_desired (on_status lib order report s) = ls_desired s \<and>
      (subs_ok lib s \<longrightarrow> subs_ok lib (on_status lib order report s))"
  proof (cases report)
    case (Connected url)
    then show ?thesis
      using repaired_keeps [OF assms repaired_relay [where order = order and url = url and
          s = "s\<lparr>ls_attempts := reset_relay url (ls_attempts s)\<rparr>"]]
      by (simp add: on_status_def)
  next
    case Lagged
    then show ?thesis
      using repaired_keeps [OF assms repaired_urls [where order = order and urls = "map fst (ls_pool s)" and s = s]]
      by (simp add: on_status_def repair_all_def)
  qed (simp add: on_status_def)
  then show "ls_desired (on_status lib order report s) = ls_desired s"
    "subs_ok lib s \<Longrightarrow> subs_ok lib (on_status lib order report s)" by blast+
qed

lemma map_of_gone: "map_of (filter (\<lambda>(u, _). u \<noteq> url) pool) u = (if u = url then None else map_of pool u)"
  by (induction pool) auto

lemma subs_ok_step:
  assumes lib: "relay_lib_ok lib" and s: "subs_ok lib s" and c: "calm_event lib e s"
  shows "subs_ok lib (sub_step lib e s)"
proof (cases e)
  case (SubRelay url r)
  have "held_at lib (sub_step lib e s) u j = Some fs \<Longrightarrow> held_at lib s u j = Some fs" for u j fs
    using c [unfolded SubRelay calm_event_def sub_event.case, rule_format, of j] SubRelay
    by (auto simp: sub_step_def held_at_def split: if_splits option.splits)
  moreover have "ls_desired (sub_step lib e s) = ls_desired s" using SubRelay by (simp add: sub_step_def)
  ultimately show ?thesis using s unfolding subs_ok_alt by metis
next
  case (SubGone url)
  then show ?thesis using s unfolding subs_ok_def by (auto simp: sub_step_def map_of_gone split: if_splits)
next
  case (SubClosed url sid)
  then show ?thesis using s by (simp add: sub_step_def on_closed_def split_beta Let_def)
qed (use s c lib in \<open>simp_all add: sub_step_def calm_event_def status_keeps subs_intros\<close>)

lemma subs_ok_run:
  "relay_lib_ok lib \<Longrightarrow> subs_ok lib s \<Longrightarrow> calm_run lib es s \<Longrightarrow> subs_ok lib (fold (sub_step lib) es s)"
  by (induction es arbitrary: s) (simp_all add: subs_ok_step)

lemma subs_ok_start: "subs_ok lib no_subs"
  by (simp add: subs_ok_def no_subs_def)

section \<open>A closed subscription stays closed\<close>

definition reopens :: "string \<Rightarrow> ('r, 'f) sub_event \<Rightarrow> bool" where
  "reopens sid e \<longleftrightarrow> (case e of SubOpen j _ _ \<Rightarrow> j = sid | SubReplace j _ _ _ \<Rightarrow> j = sid | _ \<Rightarrow> False)"

lemma unwanted_step:
  assumes lib: "relay_lib_ok lib" and "\<not> reopens sid e" "fmlookup (ls_desired s) sid = None"
  shows "fmlookup (ls_desired (sub_step lib e s)) sid = None"
proof (cases e)
  case (SubOpen j f err)
  then show ?thesis
    using assms by (auto simp: sub_step_def reopens_def open_sub_def issue_def split: option.split)
next
  case (SubReplace j f bad err)
  then show ?thesis using assms by (simp add: sub_step_def reopens_def replace_sub_def split_beta Let_def)
next
  case (SubClosed url j)
  then show ?thesis using assms by (simp add: sub_step_def on_closed_def split_beta Let_def)
qed (use assms in \<open>simp_all add: sub_step_def close_sub_def repair_one_result(1) [OF lib] status_keeps(1) [OF lib]\<close>)

lemma unwanted_run:
  assumes "relay_lib_ok lib" "\<forall>e \<in> set es. \<not> reopens sid e" "fmlookup (ls_desired s) sid = None"
  shows "fmlookup (ls_desired (fold (sub_step lib) es s)) sid = None"
  using assms by (induction es arbitrary: s) (simp_all add: unwanted_step)

lemma unwanted_not_held:
  "subs_ok lib s \<Longrightarrow> fmlookup (ls_desired s) sid = None \<Longrightarrow> held_at lib s url sid = None"
  unfolding subs_ok_alt by (cases "held_at lib s url sid") fastforce+

text \<open>
  C30: A subscription closed on purpose stays closed on every relay: repairs working on an older snapshot,
  reconnects, lagged status reports and CLOSED messages do not bring it back; only a new open or
  replace of its id does.
\<close>

theorem closed_stays_closed:
  assumes lib: "relay_lib_ok lib" and run: "calm_run lib (es @ SubClose sid bad # es') no_subs"
    and no: "\<forall>e \<in> set es'. \<not> reopens sid e"
  shows "held_at lib (fold (sub_step lib) (es @ SubClose sid bad # es') no_subs) url sid = None"
proof (rule unwanted_not_held)
  show "subs_ok lib (fold (sub_step lib) (es @ SubClose sid bad # es') no_subs)"
    by (rule subs_ok_run [OF lib subs_ok_start run])
  have "fmlookup (ls_desired (sub_step lib (SubClose sid bad) (fold (sub_step lib) es no_subs))) sid = None"
    by (simp add: sub_step_def close_sub_def)
  then show "fmlookup (ls_desired (fold (sub_step lib) (es @ SubClose sid bad # es') no_subs)) sid = None"
    using unwanted_run [OF lib no] by simp
qed

section \<open>A reconnect brings back what is wanted\<close>

definition accepts :: "('r, 'f) relay_lib \<Rightarrow> bool" where
  "accepts lib \<longleftrightarrow> (\<forall>r sid f. rl_connected lib r \<and> rl_held lib r sid = None \<longrightarrow> fst (rl_subscribe lib r sid f))"

lemma repair_one_accepted:
  assumes lib: "relay_lib_ok lib" and acc: "accepts lib"
    and r: "map_of (ls_pool s) url = Some r" "rl_connected lib r" and f: "fmlookup (ls_desired s) sid = Some f"
  shows "fst (repair_one lib url sid s) \<noteq> Stopped \<and>
    (\<exists>r'. map_of (ls_pool (snd (repair_one lib url sid s))) url = Some r' \<and> rl_connected lib r' \<and>
      rl_held lib r' = (rl_held lib r)(sid := Some [f]))"
proof -
  have ok: "fst (rl_subscribe lib r1 sid f)" if "rl_connected lib r1" "rl_held lib r1 sid = None" for r1
    using acc that unfolding accepts_def by blast
  show ?thesis
    using r f ok
    by (auto simp: repair_one_def Let_def split_beta fun_eq_iff held_subscribe [OF lib] held_unsubscribe [OF lib]
        connected_subscribe [OF lib] split: option.split)
qed

lemma repair_loop_accepted:
  assumes lib: "relay_lib_ok lib" and acc: "accepts lib"
    and r: "map_of (ls_pool s) url = Some r" "rl_connected lib r"
    and ids: "\<forall>sid \<in> set ids. fmlookup (ls_desired s) sid \<noteq> None"
  shows "\<exists>r'. map_of (ls_pool (snd (repair_loop lib url ids s))) url = Some r' \<and>
    rl_held lib r' = (\<lambda>sid. if sid \<in> set ids then map_option (\<lambda>f. [f]) (fmlookup (ls_desired s) sid) else rl_held lib r sid)"
  using r ids
proof (induction ids arbitrary: s r)
  case (Cons sid ids)
  obtain f where f: "fmlookup (ls_desired s) sid = Some f" using Cons.prems(3) by auto
  obtain a s' where a: "repair_one lib url sid s = (a, s')" by fastforce
  obtain r' where r': "a \<noteq> Stopped" "map_of (ls_pool s') url = Some r'" "rl_connected lib r'"
    "rl_held lib r' = (rl_held lib r)(sid := Some [f])"
    using repair_one_accepted [OF lib acc Cons.prems(1,2) f] a by auto
  have d: "ls_desired s' = ls_desired s" using repair_one_result(1) [OF lib, of url sid s] a by simp
  have ids: "\<forall>j \<in> set ids. fmlookup (ls_desired s') j \<noteq> None" using Cons.prems(3) d by simp
  obtain r2 where "map_of (ls_pool (snd (repair_loop lib url ids s'))) url = Some r2"
    "rl_held lib r2 = (\<lambda>j. if j \<in> set ids then map_option (\<lambda>f. [f]) (fmlookup (ls_desired s) j) else rl_held lib r' j)"
    using Cons.IH [OF r'(2,3) ids] unfolding d by blast
  then show ?case
    using a r' f by (cases a) (auto simp: split_beta Let_def fun_eq_iff)
qed (use r in auto)

text \<open>
  C29: Whatever happened before, failing CLOSEs included, once a relay that takes REQs and CLOSEs is
  reported connected, it holds every recorded subscription under the recorded filter, so that what was
  refused, lost or superseded while it was down is back, and what nobody records is left as it was;
  when every CLOSE of a replace or close so far reached the SDK and the relay invented no subscription of
  its own (\<open>calm_run\<close>), nothing else is held at all.
\<close>

theorem reconnect_restores_subscriptions:
  assumes lib: "relay_lib_ok lib" and acc: "accepts lib"
    and s: "s = fold (sub_step lib) es no_subs"
    and r: "map_of (ls_pool s) url = Some r" "rl_connected lib r"
    and order: "set order = fset (fmdom (ls_desired s))"
  shows "(\<forall>sid. held_at lib (on_status lib order (Connected url) s) url sid =
      (case fmlookup (ls_desired s) sid of Some f \<Rightarrow> Some [f] | None \<Rightarrow> held_at lib s url sid)) \<and>
    (calm_run lib es no_subs \<longrightarrow>
      held_at lib (on_status lib order (Connected url) s) url = (\<lambda>sid. map_option (\<lambda>f. [f]) (fmlookup (ls_desired s) sid)))"
proof -
  define t where "t = s\<lparr>ls_attempts := reset_relay url (ls_attempts s)\<rparr>"
  define ids where "ids = filter (missing_on (ls_desired s) (rl_held lib r)) order"
  have t: "map_of (ls_pool t) url = Some r" "ls_desired t = ls_desired s" using r by (simp_all add: t_def)
  have at': "held_at lib s url sid = rl_held lib r sid" for sid using r by (simp add: held_at_def)
  have held: "rl_held lib r sid = (case fmlookup (ls_desired s) sid of Some f \<Rightarrow> Some [f] | None \<Rightarrow> rl_held lib r sid)"
    if "sid \<notin> set ids" for sid
  proof (cases "fmlookup (ls_desired s) sid")
    case (Some f)
    then have "sid \<in> set order" using order by (simp add: fmdomI)
    then show ?thesis using that Some by (simp add: ids_def missing_on_def)
  qed simp
  have on: "on_status lib order (Connected url) s = snd (repair_relay lib order url t)"
    by (simp add: on_status_def t_def)
  have all: "held_at lib (on_status lib order (Connected url) s) url sid =
      (case fmlookup (ls_desired s) sid of Some f \<Rightarrow> Some [f] | None \<Rightarrow> held_at lib s url sid)" for sid
  proof (cases "ls_desired s = fmempty")
    case True
    then show ?thesis using t at' by (simp add: on repair_relay_def held_at_def)
  next
    case False
    have want: "\<forall>sid \<in> set ids. fmlookup (ls_desired t) sid \<noteq> None" by (auto simp: ids_def missing_on_def t split: option.splits)
    from repair_loop_accepted [OF lib acc t(1) r(2) this] obtain r' where
      r': "map_of (ls_pool (snd (repair_loop lib url ids t))) url = Some r'"
      "rl_held lib r' sid = (if sid \<in> set ids then map_option (\<lambda>f. [f]) (fmlookup (ls_desired s) sid) else rl_held lib r sid)"
      by (auto simp: t)
    have "held_at lib (on_status lib order (Connected url) s) url sid = rl_held lib r' sid"
      using False r(2) t r' by (simp add: on repair_relay_def held_at_def ids_def)
    then show ?thesis using r'(2) held [of sid] want t(2) at' by (cases "sid \<in> set ids") (auto split: option.splits)
  qed
  have "held_at lib (on_status lib order (Connected url) s) url sid = map_option (\<lambda>f. [f]) (fmlookup (ls_desired s) sid)"
    if run: "calm_run lib es no_subs" for sid
    using all [of sid] unwanted_not_held [OF subs_ok_run [OF lib subs_ok_start run], of sid url] s
    by (cases "fmlookup (ls_desired s) sid") simp_all
  then show ?thesis using all by blast
qed

section \<open>Repairs after a CLOSED are bounded\<close>

fun scheduled :: "('r, 'f) relay_lib \<Rightarrow> string \<Rightarrow> string \<Rightarrow> ('r, 'f) sub_event list \<Rightarrow> ('r, 'f) live_subs \<Rightarrow> nat" where
  "scheduled lib url sid [] s = 0"
| "scheduled lib url sid (e # es) s =
     (if e = SubClosed url sid \<and> fst (on_closed url sid s) \<noteq> None then 1 else 0) +
     scheduled lib url sid es (sub_step lib e s)"

definition connects :: "string \<Rightarrow> ('r, 'f) sub_event list \<Rightarrow> nat" where
  "connects url es = length (filter (\<lambda>e. case e of SubStatus _ (Connected u) \<Rightarrow> u = url | _ \<Rightarrow> False) es)"

definition spent_on :: "string \<Rightarrow> string \<Rightarrow> ('r, 'f) live_subs \<Rightarrow> nat" where
  "spent_on url sid s = (case fmlookup (ls_attempts s) (url, sid) of Some n \<Rightarrow> n | None \<Rightarrow> 0)"

lemma repaired_attempts:
  "relay_lib_ok lib \<Longrightarrow> repaired lib s s' \<Longrightarrow> ls_attempts s' = ls_attempts s"
  by (rotate_tac 1, induction rule: repaired.induct) (auto simp: repair_one_result(2))

lemma fmlookup_reset: "fmlookup (reset_relay u a) (url, sid) = (if url = u then None else fmlookup a (url, sid))"
  by (simp add: reset_relay_def)

lemma spent_step:
  assumes lib: "relay_lib_ok lib"
  shows "(if e = SubClosed url sid \<and> fst (on_closed url sid s) \<noteq> None then 1 else 0) + (3 - spent_on url sid (sub_step lib e s))
    \<le> 3 - spent_on url sid s + 3 * connects url [e]"
proof (cases e)
  case (SubClosed u j)
  then show ?thesis
    by (auto simp: sub_step_def on_closed_def next_delay_def Let_def spent_on_def nth_opt_def closed_repair_delays_def
        split: option.splits if_splits)
next
  case (SubStatus order report)
  have "ls_attempts (sub_step lib e s) = (case report of Connected u \<Rightarrow> reset_relay u (ls_attempts s) | _ \<Rightarrow> ls_attempts s)"
    using SubStatus repaired_attempts [OF lib repaired_relay] repaired_attempts [OF lib repaired_urls]
    by (cases report) (simp_all add: sub_step_def on_status_def repair_all_def)
  then show ?thesis
    using SubStatus by (auto simp: spent_on_def connects_def fmlookup_reset split: status_report.split option.split)
next
  case (SubOpen j f err)
  then show ?thesis
    by (auto simp: sub_step_def open_sub_def issue_def spent_on_def split: option.split)
next
  case (SubReplace j f bad err)
  then show ?thesis by (simp add: sub_step_def replace_sub_def split_beta Let_def spent_on_def)
qed (simp_all add: sub_step_def close_sub_def spent_on_def repair_one_result(2) [OF lib])

lemma connects_Cons: "connects url (e # es) = connects url [e] + connects url es"
  by (simp add: connects_def)

lemma scheduled_bound:
  "relay_lib_ok lib \<Longrightarrow> scheduled lib url sid es s \<le> 3 - spent_on url sid s + 3 * connects url es"
proof (induction es arbitrary: s)
  case (Cons e es)
  show ?case
    using Cons.IH [OF Cons.prems, of "sub_step lib e s"] spent_step [OF Cons.prems, of e url sid s]
    by (simp add: connects_Cons [of url e es])
qed simp

text \<open>
  However often a relay closes a subscription, at most three repairs are scheduled for it between two
  connects of the relay.
\<close>

theorem closed_repairs_are_bounded:
  assumes "relay_lib_ok lib"
  shows "scheduled lib url sid es s \<le> 3 * (connects url es + 1)"
  using scheduled_bound [OF assms, of url sid es s] by simp

section \<open>A concrete relay\<close>

text \<open>A relay as the pair of its connection and what it holds; it accepts every new id while connected.\<close>

type_synonym sample_relay = "bool \<times> (string \<Rightarrow> string list option)"

definition sample_relay_lib :: "(sample_relay, string) relay_lib" where
  "sample_relay_lib = \<lparr>rl_connected = fst, rl_held = snd,
     rl_subscribe = (\<lambda>(c, h) sid f. if h sid \<noteq> None then (False, (c, h))
       else if c then (True, (c, h(sid := Some [f]))) else (False, (c, h(sid := None)))),
     rl_unsubscribe = (\<lambda>(c, h) sid. (c, h(sid := None)))\<rparr>"

lemma sample_relay_lib_ok: "relay_lib_ok sample_relay_lib" "accepts sample_relay_lib"
  by (auto simp: relay_lib_ok_def accepts_def sample_relay_lib_def)

definition sample_subs_run :: "(sample_relay, string) sub_event list" where
  "sample_subs_run = [SubRelay ''wss'' (True, \<lambda>_. None), SubOpen ''dm'' ''f'' None, SubRelay ''wss'' (False, \<lambda>_. None),
     SubReplace ''dm'' ''g'' False None, SubRelay ''wss'' (True, \<lambda>_. None)]"

lemma sample_subs_calm: "calm_run sample_relay_lib sample_subs_run no_subs"
  by (simp add: sample_subs_run_def calm_event_def no_subs_def sample_relay_lib_def)

theorem closed_stays_closed_witness:
  "held_at sample_relay_lib (fold (sub_step sample_relay_lib)
     (sample_subs_run @ SubClose ''dm'' False # [SubRepair ''wss'' ''dm'', SubStatus [''dm''] (Connected ''wss'')]) no_subs)
     ''wss'' ''dm'' = None"
  by (rule closed_stays_closed [OF sample_relay_lib_ok(1)])
    (simp_all add: sample_subs_run_def calm_event_def no_subs_def sample_relay_lib_def reopens_def)

theorem reconnect_restores_subscriptions_witness:
  "held_at sample_relay_lib (on_status sample_relay_lib [''dm''] (Connected ''wss'')
     (fold (sub_step sample_relay_lib) sample_subs_run no_subs)) ''wss'' ''dm'' = Some [''g'']"
proof -
  let ?s = "fold (sub_step sample_relay_lib) sample_subs_run no_subs"
  have s: "ls_desired ?s = fmupd ''dm'' ''g'' fmempty" "map_of (ls_pool ?s) ''wss'' = Some (True, \<lambda>_. None)"
    by (simp_all add: sample_subs_run_def sub_step_def no_subs_def open_sub_def replace_sub_def issue_def Let_def
        sample_relay_lib_def set_relay_def pool_subscribe_def pool_unsubscribe_def)
  show ?thesis
    using reconnect_restores_subscriptions [OF sample_relay_lib_ok refl s(2), of "[''dm'']"] s(1)
    by (simp add: sample_relay_lib_def)
qed

theorem closed_repairs_are_bounded_witness:
  "scheduled sample_relay_lib ''wss'' ''dm'' (sample_subs_run @ replicate 5 (SubClosed ''wss'' ''dm'')) no_subs \<le> 3"
  using closed_repairs_are_bounded [OF sample_relay_lib_ok(1), of "''wss''" "''dm''"
      "sample_subs_run @ replicate 5 (SubClosed ''wss'' ''dm'')" no_subs]
  by (simp add: connects_def sample_subs_run_def numeral_eq_Suc)

end
