(* ===== verification/Trade_Subs.thy ===== *)
theory Trade_Subs
  imports Pending_Requests
begin

text \<open>
  The single-owner registry of the per-trade daemon-message subscriptions
  (\<open>nostr/subscriptions.rs\<close>) and the tasks of \<open>subscribe_daemon_messages\<close> (\<open>api/orders.rs\<close>) that
  use it. Every operation runs under the registry lock; a claim that finds a setup under way parks
  on the gate of that entry and is woken by it. An \<open>Arc\<close> of the code is a number handed out once.
  The relay side is reduced to which trade keys have their REQ recorded.
\<close>

section \<open>The registry\<close>

datatype sub_state = InSetup | LiveSub bool

record entry =
  en_state :: sub_state
  en_index :: u32
  en_gate :: nat

text \<open>
  A caller of \<open>claim\<close>: it tries, has cloned a gate, has enabled its notification (and whether it was
  notified since), awaits it; then it bounced, or owns the setup (and whether its REQ was accepted),
  or watches.
\<close>

datatype phase =
    Claiming
  | Cloned nat
  | Registered nat bool
  | Asleep nat bool
  | SettingUp bool
  | Watching
  | Bounced
  | Done

record claimant =
  cl_key :: string
  cl_index :: u32
  cl_phase :: phase

record trade_subs =
  ts_map :: "(string, entry) fmap"
  ts_next_gate :: nat
  ts_tasks :: "(nat, claimant) fmap"
  ts_reqs :: "string fset"
  ts_pending :: pending_map

definition no_trade_subs :: trade_subs where
  "no_trade_subs = \<lparr>ts_map = fmempty, ts_next_gate = 0, ts_tasks = fmempty, ts_reqs = {||}, ts_pending = fmempty\<rparr>"

definition set_phase :: "nat \<Rightarrow> phase \<Rightarrow> trade_subs \<Rightarrow> trade_subs" where
  "set_phase t p s = (case fmlookup (ts_tasks s) t of
      Some c \<Rightarrow> s\<lparr>ts_tasks := fmupd t (c\<lparr>cl_phase := p\<rparr>) (ts_tasks s)\<rparr> | None \<Rightarrow> s)"

text \<open>\<open>notify_waiters\<close>: every caller registered on the gate, awaiting it or about to, is notified.\<close>

fun wake_phase :: "nat \<Rightarrow> phase \<Rightarrow> phase" where
  "wake_phase g (Registered h b) = Registered h (b \<or> g = h)"
| "wake_phase g (Asleep h b) = Asleep h (b \<or> g = h)"
| "wake_phase g p = p"

definition notify_waiters :: "nat \<Rightarrow> trade_subs \<Rightarrow> trade_subs" where
  "notify_waiters g s = s\<lparr>ts_tasks := fmmap (\<lambda>c. c\<lparr>cl_phase := wake_phase g (cl_phase c)\<rparr>) (ts_tasks s)\<rparr>"

section \<open>Operations\<close>

definition daemon_message_subscription_id :: "string \<Rightarrow> string" where
  "daemon_message_subscription_id key = ''mostro-daemon-'' @ (if 32 \<le> length key then take 32 key else key)"

text \<open>The critical section of \<open>claim\<close>: the new phase of the caller and the entry it leaves.\<close>

definition claim_locked :: "string \<Rightarrow> u32 \<Rightarrow> trade_subs \<Rightarrow> phase \<times> trade_subs" where
  "claim_locked key index s = (case fmlookup (ts_map s) key of
      None \<Rightarrow> (SettingUp False,
        s\<lparr>ts_map := fmupd key \<lparr>en_state = InSetup, en_index = index, en_gate = ts_next_gate s\<rparr> (ts_map s),
          ts_next_gate := ts_next_gate s + 1\<rparr>)
    | Some e \<Rightarrow> (case en_state e of
        LiveSub _ \<Rightarrow> (Bounced, s\<lparr>ts_map := fmupd key (e\<lparr>en_state := LiveSub True\<rparr>) (ts_map s)\<rparr>)
      | InSetup \<Rightarrow> (Cloned (en_gate e), s)))"

definition parked_on_current_setup :: "string \<Rightarrow> nat \<Rightarrow> trade_subs \<Rightarrow> bool" where
  "parked_on_current_setup key gate s = (case fmlookup (ts_map s) key of
      Some e \<Rightarrow> en_state e = InSetup \<and> en_gate e = gate | None \<Rightarrow> False)"

definition remove_and_wake :: "string \<Rightarrow> trade_subs \<Rightarrow> trade_subs" where
  "remove_and_wake key s = (case fmlookup (ts_map s) key of
      Some e \<Rightarrow> notify_waiters (en_gate e) (s\<lparr>ts_map := fmdrop key (ts_map s)\<rparr>)
    | None \<Rightarrow> s)"

definition mark_live :: "string \<Rightarrow> trade_subs \<Rightarrow> trade_subs" where
  "mark_live key s = (case fmlookup (ts_map s) key of
      Some e \<Rightarrow> notify_waiters (en_gate e) (s\<lparr>ts_map := fmupd key (e\<lparr>en_state := LiveSub False\<rparr>) (ts_map s)\<rparr>)
    | None \<Rightarrow> s)"

definition dismantle :: "string \<Rightarrow> trade_subs \<Rightarrow> trade_subs" where
  "dismantle key s =
     remove_and_wake key (s\<lparr>ts_reqs := ts_reqs s |-| {|key|},
       ts_pending := purge_detached_pending_request key (ts_pending s)\<rparr>)"

definition teardown_or_rearm :: "string \<Rightarrow> trade_subs \<Rightarrow> bool \<times> trade_subs" where
  "teardown_or_rearm key s = (case fmlookup (ts_map s) key of
      Some e \<Rightarrow> (case en_state e of
          LiveSub True \<Rightarrow> (True, s\<lparr>ts_map := fmupd key (e\<lparr>en_state := LiveSub False\<rparr>) (ts_map s)\<rparr>)
        | _ \<Rightarrow> (False, dismantle key s))
    | None \<Rightarrow> (False, dismantle key s))"

section \<open>The tasks\<close>

text \<open>
  The steps of the callers of \<open>subscribe_daemon_messages\<close>. With \<open>ext\<close>, the release of a finished
  trade may tear a key down at any moment (\<open>release_finished_trade_subscriptions\<close>), without being
  the task that watches it.
\<close>

inductive ts_step :: "bool \<Rightarrow> trade_subs \<Rightarrow> trade_subs \<Rightarrow> bool" for ext where
  ts_call: "fmlookup (ts_tasks s) t = None \<Longrightarrow>
     ts_step ext s (s\<lparr>ts_tasks := fmupd t \<lparr>cl_key = key, cl_index = index, cl_phase = Claiming\<rparr> (ts_tasks s)\<rparr>)"
| ts_claim: "fmlookup (ts_tasks s) t = Some c \<Longrightarrow> cl_phase c = Claiming \<Longrightarrow>
     claim_locked (cl_key c) (cl_index c) s = (p, s') \<Longrightarrow> ts_step ext s (set_phase t p s')"
| ts_enable: "fmlookup (ts_tasks s) t = Some c \<Longrightarrow> cl_phase c = Cloned g \<Longrightarrow>
     ts_step ext s (set_phase t (Registered g False) s)"
| ts_recheck: "fmlookup (ts_tasks s) t = Some c \<Longrightarrow> cl_phase c = Registered g b \<Longrightarrow>
     ts_step ext s (set_phase t (if parked_on_current_setup (cl_key c) g s then Asleep g b else Claiming) s)"
| ts_wake: "fmlookup (ts_tasks s) t = Some c \<Longrightarrow> cl_phase c = Asleep g True \<Longrightarrow>
     ts_step ext s (set_phase t Claiming s)"
| ts_subscribe: "fmlookup (ts_tasks s) t = Some c \<Longrightarrow> cl_phase c = SettingUp False \<Longrightarrow>
     ts_step ext s (set_phase t (SettingUp True) (s\<lparr>ts_reqs := finsert (cl_key c) (ts_reqs s)\<rparr>))"
| ts_mark_live: "fmlookup (ts_tasks s) t = Some c \<Longrightarrow> cl_phase c = SettingUp True \<Longrightarrow>
     ts_step ext s (set_phase t Watching (mark_live (cl_key c) s))"
| ts_release: "fmlookup (ts_tasks s) t = Some c \<Longrightarrow> cl_phase c = SettingUp b \<Longrightarrow>
     ts_step ext s (set_phase t Done (remove_and_wake (cl_key c) s))"
| ts_idle: "fmlookup (ts_tasks s) t = Some c \<Longrightarrow> cl_phase c = Watching \<Longrightarrow>
     teardown_or_rearm (cl_key c) s = (rearmed, s') \<Longrightarrow>
     ts_step ext s (if rearmed then s' else set_phase t Done s')"
| ts_shutdown: "fmlookup (ts_tasks s) t = Some c \<Longrightarrow> cl_phase c = Watching \<Longrightarrow>
     ts_step ext s (set_phase t Done (dismantle (cl_key c) s))"
| ts_finished_trade: "ext \<Longrightarrow> ts_step ext s (dismantle key s)"

inductive ts_reachable :: "bool \<Rightarrow> trade_subs \<Rightarrow> bool" for ext where
  ts_start: "ts_reachable ext no_trade_subs"
| ts_next: "ts_reachable ext s \<Longrightarrow> ts_step ext s s' \<Longrightarrow> ts_reachable ext s'"

section \<open>Lookups after each operation\<close>

lemma tasks_set_phase: "fmlookup (ts_tasks (set_phase t p s)) u =
    (if u = t then map_option (\<lambda>c. c\<lparr>cl_phase := p\<rparr>) (fmlookup (ts_tasks s) u) else fmlookup (ts_tasks s) u)"
  by (simp add: set_phase_def split: option.split)

lemma set_phase_keeps [simp]:
  "ts_map (set_phase t p s) = ts_map s" "ts_reqs (set_phase t p s) = ts_reqs s"
  "ts_next_gate (set_phase t p s) = ts_next_gate s"
  by (simp_all add: set_phase_def split: option.split)

lemma tasks_notify: "fmlookup (ts_tasks (notify_waiters g s)) u =
    map_option (\<lambda>c. c\<lparr>cl_phase := wake_phase g (cl_phase c)\<rparr>) (fmlookup (ts_tasks s) u)"
  by (simp add: notify_waiters_def)

lemma notify_keeps [simp]: "ts_map (notify_waiters g s) = ts_map s" "ts_reqs (notify_waiters g s) = ts_reqs s"
  by (simp_all add: notify_waiters_def)

lemma wake_phase_simps [simp]:
  "wake_phase g p = Claiming \<longleftrightarrow> p = Claiming" "wake_phase g p = SettingUp b \<longleftrightarrow> p = SettingUp b"
  "wake_phase g p = Watching \<longleftrightarrow> p = Watching" "wake_phase g p = Bounced \<longleftrightarrow> p = Bounced"
  "wake_phase g p = Asleep h c \<longleftrightarrow> (\<exists>d. p = Asleep h d \<and> (c \<longleftrightarrow> d \<or> g = h))"
  by (cases p; auto)+

lemma map_after [simp]:
  "ts_map (remove_and_wake key s) = fmdrop key (ts_map s)"
  "ts_map (dismantle key s) = fmdrop key (ts_map s)"
  "fmlookup (ts_map (mark_live key s)) k =
     (if k = key then map_option (\<lambda>e. e\<lparr>en_state := LiveSub False\<rparr>) (fmlookup (ts_map s) k) else fmlookup (ts_map s) k)"
proof -
  show r: "ts_map (remove_and_wake key s) = fmdrop key (ts_map s)" for s
    by (auto simp: remove_and_wake_def intro!: fmap_ext split: option.split)
  show "ts_map (dismantle key s) = fmdrop key (ts_map s)" by (simp add: dismantle_def r)
  show "fmlookup (ts_map (mark_live key s)) k =
     (if k = key then map_option (\<lambda>e. e\<lparr>en_state := LiveSub False\<rparr>) (fmlookup (ts_map s) k) else fmlookup (ts_map s) k)"
    by (simp add: mark_live_def split: option.split)
qed

lemma reqs_after [simp]:
  "ts_reqs (remove_and_wake key s) = ts_reqs s" "ts_reqs (mark_live key s) = ts_reqs s"
  "ts_reqs (dismantle key s) = ts_reqs s |-| {|key|}"
  by (simp_all add: remove_and_wake_def mark_live_def dismantle_def split: option.split)

text \<open>The phase of a caller through an operation: notified where it waited on the gate of the entry.\<close>

lemma tasks_after:
  "fmlookup (ts_tasks (remove_and_wake key s)) u = (case fmlookup (ts_map s) key of None \<Rightarrow> fmlookup (ts_tasks s) u
     | Some e \<Rightarrow> map_option (\<lambda>c. c\<lparr>cl_phase := wake_phase (en_gate e) (cl_phase c)\<rparr>) (fmlookup (ts_tasks s) u))"
  "fmlookup (ts_tasks (mark_live key s)) u = (case fmlookup (ts_map s) key of None \<Rightarrow> fmlookup (ts_tasks s) u
     | Some e \<Rightarrow> map_option (\<lambda>c. c\<lparr>cl_phase := wake_phase (en_gate e) (cl_phase c)\<rparr>) (fmlookup (ts_tasks s) u))"
  "fmlookup (ts_tasks (dismantle key s)) u = (case fmlookup (ts_map s) key of None \<Rightarrow> fmlookup (ts_tasks s) u
     | Some e \<Rightarrow> map_option (\<lambda>c. c\<lparr>cl_phase := wake_phase (en_gate e) (cl_phase c)\<rparr>) (fmlookup (ts_tasks s) u))"
  by (simp_all add: remove_and_wake_def mark_live_def dismantle_def tasks_notify split: option.split)

section \<open>No claim sleeps forever\<close>

definition asleep_ok :: "trade_subs \<Rightarrow> bool" where
  "asleep_ok s \<longleftrightarrow> (\<forall>t c g. fmlookup (ts_tasks s) t = Some c \<and> cl_phase c = Asleep g False \<longrightarrow>
     (\<exists>e. fmlookup (ts_map s) (cl_key c) = Some e \<and> en_state e = InSetup \<and> en_gate e = g))"

definition setup_owned :: "trade_subs \<Rightarrow> bool" where
  "setup_owned s \<longleftrightarrow> (\<forall>key e. fmlookup (ts_map s) key = Some e \<and> en_state e = InSetup \<longrightarrow>
     (\<exists>t c b. fmlookup (ts_tasks s) t = Some c \<and> cl_key c = key \<and> cl_phase c = SettingUp b))"

lemma asleep_okD: "asleep_ok s \<Longrightarrow> fmlookup (ts_tasks s) t = Some c \<Longrightarrow> cl_phase c = Asleep g False \<Longrightarrow>
    \<exists>e. fmlookup (ts_map s) (cl_key c) = Some e \<and> en_state e = InSetup \<and> en_gate e = g"
  unfolding asleep_ok_def by blast

lemma asleep_remove: "asleep_ok s \<Longrightarrow> asleep_ok (remove_and_wake key s)"
  unfolding asleep_ok_def by (fastforce simp: tasks_after split: option.splits)

lemma asleep_dismantle: "asleep_ok s \<Longrightarrow> asleep_ok (dismantle key s)"
  unfolding asleep_ok_def by (fastforce simp: tasks_after split: option.splits)

lemma asleep_mark: "asleep_ok s \<Longrightarrow> asleep_ok (mark_live key s)"
  unfolding asleep_ok_def by (fastforce simp: tasks_after split: option.splits)

lemma asleep_phase: "asleep_ok s \<Longrightarrow> (\<And>g. p \<noteq> Asleep g False) \<Longrightarrow> asleep_ok (set_phase t p s)"
  unfolding asleep_ok_def by (auto simp: tasks_set_phase split: if_splits)

lemma asleep_claim:
  assumes "asleep_ok s" "claim_locked key index s = (p, s')"
  shows "asleep_ok s'" "ts_tasks s' = ts_tasks s" "p \<noteq> Asleep g b"
  using assms unfolding asleep_ok_def claim_locked_def
  by (fastforce split: option.splits sub_state.splits)+

lemma asleep_rearm: "asleep_ok s \<Longrightarrow> asleep_ok (snd (teardown_or_rearm key s))"
  unfolding teardown_or_rearm_def
  by (auto simp: asleep_dismantle split: option.split sub_state.split bool.split) (fastforce simp: asleep_ok_def)

lemma asleep_step:
  assumes "ts_step ext s s'" "asleep_ok s"
  shows "asleep_ok s'"
  using assms
proof (cases rule: ts_step.cases)
  case (ts_call t key index)
  then show ?thesis using assms(2) by (auto simp: asleep_ok_def)
next
  case (ts_claim t c p s1)
  then show ?thesis using asleep_claim [OF assms(2) ts_claim(4)] by (simp add: asleep_phase)
next
  case (ts_recheck t c g b)
  then show ?thesis
    using assms(2) unfolding asleep_ok_def
    by (auto simp: tasks_set_phase parked_on_current_setup_def split: if_splits option.splits)
next
  case (ts_subscribe t c)
  have "asleep_ok (s\<lparr>ts_reqs := finsert (cl_key c) (ts_reqs s)\<rparr>)" using assms(2) by (simp add: asleep_ok_def)
  then show ?thesis using ts_subscribe by (simp add: asleep_phase)
next
  case (ts_idle t c rearmed s1)
  then show ?thesis using asleep_rearm [OF assms(2), of "cl_key c"] by (simp add: asleep_phase)
qed (simp_all add: asleep_phase asleep_remove asleep_dismantle asleep_mark)

text \<open>A caller that sets up leaves that phase only by advancing or removing the entry of its key.\<close>

definition setup_by :: "trade_subs \<Rightarrow> string \<Rightarrow> nat \<Rightarrow> bool" where
  "setup_by s key t \<longleftrightarrow> (\<exists>c b. fmlookup (ts_tasks s) t = Some c \<and> cl_key c = key \<and> cl_phase c = SettingUp b)"

lemma setup_by_set_phase: "setup_by (set_phase t p s) key u \<longleftrightarrow>
    (if u = t then (\<exists>c b. fmlookup (ts_tasks s) t = Some c \<and> cl_key c = key \<and> p = SettingUp b) else setup_by s key u)"
  by (auto simp: setup_by_def tasks_set_phase)

lemma setup_by_after [simp]:
  "setup_by (notify_waiters g s) key u = setup_by s key u" "setup_by (remove_and_wake k s) key u = setup_by s key u"
  "setup_by (mark_live k s) key u = setup_by s key u" "setup_by (dismantle k s) key u = setup_by s key u"
  by (auto simp: setup_by_def tasks_notify tasks_after split: option.splits)

lemma setup_by_fields [simp]:
  "setup_by (s\<lparr>ts_map := m\<rparr>) key u = setup_by s key u" "setup_by (s\<lparr>ts_reqs := r\<rparr>) key u = setup_by s key u"
  "setup_by (s\<lparr>ts_map := m, ts_next_gate := n\<rparr>) key u = setup_by s key u"
  by (simp_all add: setup_by_def)

lemma setup_owned_alt:
  "setup_owned s \<longleftrightarrow> (\<forall>key e. fmlookup (ts_map s) key = Some e \<and> en_state e = InSetup \<longrightarrow> (\<exists>t. setup_by s key t))"
  by (auto simp: setup_owned_def setup_by_def)

lemma setup_by_phase: "fmlookup (ts_tasks s) t = Some c \<Longrightarrow> setup_by s key t \<Longrightarrow> cl_key c = key \<and> (\<exists>b. cl_phase c = SettingUp b)"
  by (auto simp: setup_by_def)

lemma setup_by_other:
  "fmlookup (ts_tasks s) t = Some c \<Longrightarrow> setup_by s key u \<Longrightarrow> (\<And>b. cl_phase c \<noteq> SettingUp b) \<Longrightarrow>
    setup_by (set_phase t p s) key u"
  using setup_by_phase by (fastforce simp: setup_by_set_phase)

lemma owned_step:
  assumes "ts_step ext s s'" "setup_owned s"
  shows "setup_owned s'"
  unfolding setup_owned_alt
proof (intro allI impI)
  fix key e assume h: "fmlookup (ts_map s') key = Some e \<and> en_state e = InSetup"
  have own: "\<exists>u. setup_by s key u" if "fmlookup (ts_map s) key = Some e" using that h assms(2) unfolding setup_owned_alt by blast
  show "\<exists>t. setup_by s' key t"
    using assms(1)
  proof (cases rule: ts_step.cases)
    case (ts_call t k index)
    then obtain u where "setup_by s key u" using h own by auto
    then show ?thesis using ts_call by (intro exI [of _ u]) (auto simp: setup_by_def)
  next
    case (ts_claim t c p s1)
    show ?thesis
    proof (cases "fmlookup (ts_map s) key = Some e")
      case True
      then obtain u where u: "setup_by s key u" using own by blast
      then have "u \<noteq> t" using ts_claim(2,3) setup_by_phase by fastforce
      moreover have "setup_by s1 key u" using u ts_claim(4)
        by (auto simp: claim_locked_def split: option.splits sub_state.splits)
      ultimately show ?thesis using ts_claim(1) by (intro exI [of _ u]) (simp add: setup_by_set_phase)
    next
      case False
      then have "cl_key c = key \<and> p = SettingUp False \<and> ts_tasks s1 = ts_tasks s"
        using h ts_claim(1,4) by (auto simp: claim_locked_def split: option.splits sub_state.splits if_splits)
      then show ?thesis using ts_claim(1,2) by (intro exI [of _ t]) (auto simp: setup_by_set_phase)
    qed
  next
    case (ts_subscribe t c)
    then obtain u where "setup_by s key u" using h own by auto
    then show ?thesis using ts_subscribe setup_by_phase by (intro exI [of _ u]) (fastforce simp: setup_by_set_phase)
  next
    case (ts_mark_live t c)
    then have "cl_key c \<noteq> key \<and> fmlookup (ts_map s) key = Some e" using h by (auto split: if_splits)
    moreover from this obtain u where "setup_by s key u" using own by blast
    ultimately show ?thesis using ts_mark_live setup_by_phase by (intro exI [of _ u]) (fastforce simp: setup_by_set_phase)
  next
    case (ts_release t c b)
    then have "cl_key c \<noteq> key \<and> fmlookup (ts_map s) key = Some e" using h by (auto split: if_splits)
    moreover from this obtain u where "setup_by s key u" using own by blast
    ultimately show ?thesis using ts_release setup_by_phase by (intro exI [of _ u]) (fastforce simp: setup_by_set_phase)
  next
    case (ts_idle t c rearmed s1)
    then have "fmlookup (ts_map s) key = Some e" using h
      by (auto simp: teardown_or_rearm_def split: if_splits option.splits sub_state.splits bool.splits)
    then obtain u where u: "setup_by s key u" using own by blast
    then have "setup_by s1 key u" using ts_idle(4)
      by (auto simp: teardown_or_rearm_def split: option.splits sub_state.splits bool.splits)
    then show ?thesis using u ts_idle setup_by_phase by (intro exI [of _ u]) (fastforce simp: setup_by_set_phase)
  next
    case (ts_shutdown t c)
    then have "fmlookup (ts_map s) key = Some e" using h by (auto split: if_splits)
    then obtain u where "setup_by s key u" using own by blast
    then show ?thesis using ts_shutdown setup_by_phase by (intro exI [of _ u]) (fastforce simp: setup_by_set_phase)
  next
    case (ts_finished_trade k)
    then have "fmlookup (ts_map s) key = Some e" using h by (auto split: if_splits)
    then show ?thesis using own ts_finished_trade by auto
  next
    case (ts_enable t c g)
    then show ?thesis using h own setup_by_other [OF ts_enable(2), of key] by auto
  next
    case (ts_recheck t c g b)
    then show ?thesis using h own setup_by_other [OF ts_recheck(2), of key] by auto
  next
    case (ts_wake t c g)
    then show ?thesis using h own setup_by_other [OF ts_wake(2), of key] by auto
  qed
qed

lemma reachable_sleepers: "ts_reachable ext s \<Longrightarrow> asleep_ok s \<and> setup_owned s"
  by (induction rule: ts_reachable.induct)
    (auto simp: asleep_step owned_step, auto simp: asleep_ok_def setup_owned_def no_trade_subs_def)

text \<open>
  A claim that sleeps has an owner to wake it: the entry it sleeps on is the current one of its key,
  a caller is setting that key up, and whichever way that caller ends its setup (its REQ is live, or
  it gives up, or it is dropped), the sleeping claim is notified. This holds under every interleaving,
  the release of finished trades included.
\<close>

theorem sleeping_claim_is_woken:
  assumes "ts_reachable ext s" and "fmlookup (ts_tasks s) t = Some c" and "cl_phase c = Asleep g False"
  shows "\<exists>u d b. fmlookup (ts_tasks s) u = Some d \<and> cl_key d = cl_key c \<and> cl_phase d = SettingUp b \<and>
    (\<forall>s' \<in> {set_phase u Watching (mark_live (cl_key d) s), set_phase u Done (remove_and_wake (cl_key d) s)}.
       fmlookup (ts_tasks s') t = Some (c\<lparr>cl_phase := Asleep g True\<rparr>))"
proof -
  obtain e where e: "fmlookup (ts_map s) (cl_key c) = Some e" "en_state e = InSetup" "en_gate e = g"
    using reachable_sleepers [OF assms(1)] asleep_okD [OF _ assms(2,3)] by blast
  then obtain u d b where u: "fmlookup (ts_tasks s) u = Some d" "cl_key d = cl_key c" "cl_phase d = SettingUp b"
    using reachable_sleepers [OF assms(1)] unfolding setup_owned_def by blast
  then have "t \<noteq> u" using assms(2,3) by auto
  then show ?thesis
    using u e assms(2,3)
    by (intro exI [of _ u] exI [of _ d] exI [of _ b]) (simp add: tasks_set_phase tasks_after)
qed

section \<open>A bounced claim is covered\<close>

definition is_owner :: "phase \<Rightarrow> bool" where
  "is_owner p \<longleftrightarrow> (case p of SettingUp _ \<Rightarrow> True | Watching \<Rightarrow> True | _ \<Rightarrow> False)"

definition owner_of :: "trade_subs \<Rightarrow> string \<Rightarrow> nat \<Rightarrow> phase \<Rightarrow> bool" where
  "owner_of s key t p \<longleftrightarrow> is_owner p \<and> (\<exists>c. fmlookup (ts_tasks s) t = Some c \<and> cl_key c = key \<and> cl_phase c = p)"

text \<open>
  A free key has no owner. An entry has exactly one, which sets up while the entry does and watches
  once it is live; once its REQ was accepted it stays recorded.
\<close>

definition key_ok :: "trade_subs \<Rightarrow> string \<Rightarrow> bool" where
  "key_ok s key \<longleftrightarrow> (case fmlookup (ts_map s) key of
      None \<Rightarrow> (\<forall>t p. \<not> owner_of s key t p)
    | Some e \<Rightarrow> (\<exists>t p. (\<forall>u q. owner_of s key u q \<longleftrightarrow> u = t \<and> q = p) \<and> (en_state e = InSetup \<longleftrightarrow> p \<noteq> Watching) \<and>
        (p \<noteq> SettingUp False \<longrightarrow> key |\<in>| ts_reqs s)))"

lemma is_owner_simps [simp]:
  "is_owner (SettingUp b)" "is_owner Watching" "\<not> is_owner Claiming" "\<not> is_owner (Cloned g)"
  "\<not> is_owner (Registered g b)" "\<not> is_owner (Asleep g b)" "\<not> is_owner Bounced" "\<not> is_owner Done"
  by (simp_all add: is_owner_def)

lemma wake_owner: "is_owner (wake_phase g p) = is_owner p" "is_owner p \<Longrightarrow> wake_phase g p = p"
  by (cases p; simp)+

lemma owner_of_set_phase: "owner_of (set_phase t p s) key u q \<longleftrightarrow>
    (if u = t then is_owner p \<and> q = p \<and> (\<exists>c. fmlookup (ts_tasks s) t = Some c \<and> cl_key c = key) else owner_of s key u q)"
  by (auto simp: owner_of_def tasks_set_phase)

lemma owner_of_notify [simp]: "owner_of (notify_waiters g s) key u q = owner_of s key u q"
  using wake_owner by (fastforce simp: owner_of_def tasks_notify)

lemma owner_of_fields [simp]:
  "owner_of (s\<lparr>ts_map := m\<rparr>) key u q = owner_of s key u q" "owner_of (s\<lparr>ts_reqs := r\<rparr>) key u q = owner_of s key u q"
  "owner_of (s\<lparr>ts_map := m, ts_next_gate := n\<rparr>) key u q = owner_of s key u q"
  "owner_of (s\<lparr>ts_reqs := r, ts_pending := x\<rparr>) key u q = owner_of s key u q"
  by (simp_all add: owner_of_def)

lemma owner_of_after [simp]:
  "owner_of (remove_and_wake k s) key u q = owner_of s key u q" "owner_of (mark_live k s) key u q = owner_of s key u q"
  "owner_of (dismantle k s) key u q = owner_of s key u q"
  by (simp_all add: remove_and_wake_def mark_live_def dismantle_def split: option.split)

lemma owner_of_task: "fmlookup (ts_tasks s) t = Some c \<Longrightarrow> owner_of s key t p \<longleftrightarrow> cl_key c = key \<and> cl_phase c = p \<and> is_owner p"
  by (auto simp: owner_of_def)

text \<open>A step about another key leaves a key as it is.\<close>

lemma key_ok_other:
  assumes "key_ok s key" "fmlookup (ts_map s') key = fmlookup (ts_map s) key" "key |\<in>| ts_reqs s' \<longleftrightarrow> key |\<in>| ts_reqs s"
    and "\<And>u q. owner_of s' key u q \<longleftrightarrow> owner_of s key u q"
  shows "key_ok s' key"
proof -
  have "owner_of s' key = owner_of s key" by (intro ext) (rule assms(4))
  then show ?thesis using assms(1-3) unfolding key_ok_def by (cases "fmlookup (ts_map s) key") simp_all
qed

lemma key_ok_leave:
  assumes "key_ok s key" "fmlookup (ts_tasks s) t = Some c" "cl_key c = key" "is_owner (cl_phase c)"
    and "fmlookup (ts_map s') key = None" "\<And>u q. owner_of s' key u q \<longleftrightarrow> u \<noteq> t \<and> owner_of s key u q"
  shows "key_ok s' key"
proof -
  have "owner_of s key t (cl_phase c)" using assms(2-4) by (auto simp: owner_of_def)
  then have "u = t" if "owner_of s key u q" for u q
    using assms(1) that unfolding key_ok_def by (auto split: option.splits)
  then show ?thesis using assms(5,6) by (auto simp: key_ok_def)
qed

lemma key_ok_claim:
  assumes k: "key_ok s key" and t: "fmlookup (ts_tasks s) t = Some c" "cl_phase c = Claiming"
    and cl: "claim_locked (cl_key c) (cl_index c) s = (p, s1)"
  shows "key_ok (set_phase t p s1) key"
proof (cases "cl_key c = key")
  case False
  then show ?thesis
    using t cl by (intro key_ok_other [OF k])
      (auto simp: claim_locked_def owner_of_set_phase owner_of_task split: option.splits sub_state.splits)
next
  case True
  show ?thesis
  proof (cases "fmlookup (ts_map s) key")
    case None
    then have "\<not> owner_of s key u q" for u q using k by (simp add: key_ok_def)
    then show ?thesis
      using t cl True None
      by (auto simp: claim_locked_def key_ok_def owner_of_set_phase intro!: exI [of _ t] exI [of _ "SettingUp False"])
  next
    case (Some e)
    have "owner_of (set_phase t p s1) key u q \<longleftrightarrow> owner_of s key u q" for u q
      using t cl True Some by (auto simp: claim_locked_def owner_of_set_phase owner_of_task split: sub_state.splits)
    moreover obtain e' where "fmlookup (ts_map s1) key = Some e'" "en_state e' = InSetup \<longleftrightarrow> en_state e = InSetup"
      "ts_reqs s1 = ts_reqs s"
      using cl True Some by (auto simp: claim_locked_def split: sub_state.splits)
    ultimately show ?thesis using k Some by (simp add: key_ok_def)
  qed
qed

lemma key_ok_phase:
  assumes "key_ok s key" "fmlookup (ts_tasks s) t = Some c" "\<not> is_owner (cl_phase c)" "\<not> is_owner p"
  shows "key_ok (set_phase t p s) key"
  using assms by (intro key_ok_other [OF assms(1)]) (auto simp: owner_of_set_phase owner_of_task)

lemma key_ok_step:
  assumes st: "ts_step False s s'" and k: "key_ok s key"
  shows "key_ok s' key"
  using st
proof (cases rule: ts_step.cases)
  case (ts_call t k index)
  then show ?thesis by (intro key_ok_other [OF k]) (auto simp: owner_of_def)
next
  case (ts_claim t c p s1)
  then show ?thesis using key_ok_claim [OF k] by simp
next
  case (ts_subscribe t c)
  show ?thesis
  proof (cases "cl_key c = key")
    case True
    have o: "owner_of s key t (SettingUp False)" using ts_subscribe True by (simp add: owner_of_task)
    then obtain e where e: "fmlookup (ts_map s) key = Some e" using k by (cases "fmlookup (ts_map s) key") (auto simp: key_ok_def)
    then have "\<forall>u q. owner_of s key u q \<longleftrightarrow> u = t \<and> q = SettingUp False" "en_state e = InSetup"
      using k o unfolding key_ok_def by auto
    then show ?thesis
      using ts_subscribe e True
      by (auto simp: key_ok_def owner_of_set_phase intro!: exI [of _ t] exI [of _ "SettingUp True"])
  next
    case False
    then show ?thesis
      using ts_subscribe by (intro key_ok_other [OF k]) (auto simp: owner_of_set_phase owner_of_task)
  qed
next
  case (ts_mark_live t c)
  show ?thesis
  proof (cases "cl_key c = key")
    case True
    have o: "owner_of s key t (SettingUp True)" using ts_mark_live True by (simp add: owner_of_task)
    then obtain e where e: "fmlookup (ts_map s) key = Some e" using k by (cases "fmlookup (ts_map s) key") (auto simp: key_ok_def)
    then have "\<forall>u q. owner_of s key u q \<longleftrightarrow> u = t \<and> q = SettingUp True" "key |\<in>| ts_reqs s"
      using k o unfolding key_ok_def by auto
    moreover have "fmlookup (ts_tasks (mark_live key s)) t \<noteq> None" using ts_mark_live e by (simp add: tasks_after)
    moreover have "\<exists>d. fmlookup (ts_tasks (mark_live key s)) t = Some d \<and> cl_key d = key"
      using ts_mark_live e True by (simp add: tasks_after)
    ultimately show ?thesis
      using ts_mark_live e True
      by (auto simp: key_ok_def owner_of_set_phase intro!: exI [of _ t] exI [of _ Watching])
  next
    case False
    then have "\<nexists>d. fmlookup (ts_tasks (mark_live (cl_key c) s)) t = Some d \<and> cl_key d = key"
      using ts_mark_live by (auto simp: tasks_after split: option.splits)
    then show ?thesis
      using ts_mark_live False by (intro key_ok_other [OF k]) (auto simp: owner_of_set_phase owner_of_task)
  qed
next
  case (ts_release t c b)
  show ?thesis
  proof (cases "cl_key c = key")
    case True
    then show ?thesis
      using ts_release by (intro key_ok_leave [OF k ts_release(2) True]) (auto simp: owner_of_set_phase)
  next
    case False
    then show ?thesis using ts_release by (intro key_ok_other [OF k]) (auto simp: owner_of_set_phase owner_of_task)
  qed
next
  case (ts_idle t c rearmed s1)
  have o: "owner_of s (cl_key c) t Watching" using ts_idle by (simp add: owner_of_task)
  show ?thesis
  proof (cases "cl_key c = key")
    case True
    show ?thesis
    proof (cases rearmed)
      case True
      then obtain e where e: "fmlookup (ts_map s) (cl_key c) = Some e" "en_state e = LiveSub True"
        "s1 = s\<lparr>ts_map := fmupd (cl_key c) (e\<lparr>en_state := LiveSub False\<rparr>) (ts_map s)\<rparr>"
        using ts_idle(4) by (auto simp: teardown_or_rearm_def split: option.splits sub_state.splits bool.splits)
      then show ?thesis using k ts_idle(1) True \<open>cl_key c = key\<close> by (simp add: key_ok_def)
    next
      case False
      then have "s1 = dismantle (cl_key c) s"
        using ts_idle(4) by (auto simp: teardown_or_rearm_def split: option.splits sub_state.splits bool.splits)
      then show ?thesis
        using ts_idle False \<open>cl_key c = key\<close> by (intro key_ok_leave [OF k ts_idle(2) \<open>cl_key c = key\<close>]) (auto simp: owner_of_set_phase)
    qed
  next
    case False
    then show ?thesis
      using ts_idle by (intro key_ok_other [OF k])
        (auto simp: owner_of_set_phase owner_of_task teardown_or_rearm_def split: option.splits sub_state.splits bool.splits)
  qed
next
  case (ts_shutdown t c)
  show ?thesis
  proof (cases "cl_key c = key")
    case True
    then show ?thesis
      using ts_shutdown by (intro key_ok_leave [OF k ts_shutdown(2) True]) (auto simp: owner_of_set_phase)
  next
    case False
    then show ?thesis using ts_shutdown by (intro key_ok_other [OF k]) (auto simp: owner_of_set_phase owner_of_task)
  qed
qed (simp_all add: key_ok_phase [OF k])

lemma reachable_keys: "ts_reachable False s \<Longrightarrow> key_ok s key"
  by (induction rule: ts_reachable.induct) (auto simp: key_ok_step, simp add: key_ok_def owner_of_def no_trade_subs_def)

text \<open>
  Without the release of finished trades, a claim that bounces is covered: the REQ of its key is
  recorded, exactly one task watches it, and the next idle exit of that task, instead of dismantling,
  only clears the mark: the entry, the REQ and the task stay.
\<close>

theorem bounced_claim_is_covered:
  assumes "ts_reachable False s" and "claim_locked key index s = (Bounced, s')"
  shows "key |\<in>| ts_reqs s' \<and> (\<exists>t. \<forall>u q. owner_of s' key u q \<longleftrightarrow> u = t \<and> q = Watching) \<and>
    fst (teardown_or_rearm key s') \<and> ts_reqs (snd (teardown_or_rearm key s')) = ts_reqs s' \<and>
    ts_tasks (snd (teardown_or_rearm key s')) = ts_tasks s' \<and>
    fmlookup (ts_map (snd (teardown_or_rearm key s'))) key = map_option (\<lambda>e. e\<lparr>en_state := LiveSub False\<rparr>) (fmlookup (ts_map s) key)"
proof -
  obtain e b where e: "fmlookup (ts_map s) key = Some e" "en_state e = LiveSub b"
    "s' = s\<lparr>ts_map := fmupd key (e\<lparr>en_state := LiveSub True\<rparr>) (ts_map s)\<rparr>"
    using assms(2) by (auto simp: claim_locked_def split: option.splits sub_state.splits)
  moreover obtain t where "\<forall>u q. owner_of s key u q \<longleftrightarrow> u = t \<and> q = Watching" "key |\<in>| ts_reqs s"
    using reachable_keys [OF assms(1), of key] e unfolding key_ok_def by auto
  ultimately show ?thesis by (auto simp: teardown_or_rearm_def)
qed

section \<open>Concrete runs\<close>

lemma ts_nextI: "ts_reachable ext s \<Longrightarrow> ts_step ext s s' \<Longrightarrow> s' = s2 \<Longrightarrow> ts_reachable ext s2"
  using ts_next by blast

text \<open>One caller of a key that reaches the watch, from any state where the key is free.\<close>

definition watch :: "nat \<Rightarrow> string \<Rightarrow> trade_subs \<Rightarrow> trade_subs" where
  "watch t key s = (let s1 = s\<lparr>ts_tasks := fmupd t \<lparr>cl_key = key, cl_index = 1, cl_phase = Claiming\<rparr> (ts_tasks s)\<rparr>;
      s2 = set_phase t (SettingUp False) (snd (claim_locked key 1 s1));
      s3 = set_phase t (SettingUp True) (s2\<lparr>ts_reqs := finsert key (ts_reqs s2)\<rparr>)
    in set_phase t Watching (mark_live key s3))"

lemma watch_reachable:
  assumes r: "ts_reachable ext s" and t: "fmlookup (ts_tasks s) t = None" and k: "fmlookup (ts_map s) key = None"
  shows "ts_reachable ext (watch t key s)"
proof -
  let ?c = "\<lparr>cl_key = key, cl_index = 1, cl_phase = Claiming\<rparr>"
  define s1 where "s1 = s\<lparr>ts_tasks := fmupd t ?c (ts_tasks s)\<rparr>"
  define s2 where "s2 = set_phase t (SettingUp False) (snd (claim_locked key 1 s1))"
  define s3 where "s3 = set_phase t (SettingUp True) (s2\<lparr>ts_reqs := finsert key (ts_reqs s2)\<rparr>)"
  have cl: "claim_locked key 1 s1 = (SettingUp False, snd (claim_locked key 1 s1))"
    using k by (simp add: claim_locked_def s1_def)
  have r1: "ts_reachable ext s1" using ts_next [OF r ts_call [OF t]] by (simp add: s1_def)
  have r2: "ts_reachable ext s2"
    using ts_next [OF r1 ts_claim [of s1 t ?c "SettingUp False" "snd (claim_locked key 1 s1)"]] cl by (simp add: s1_def s2_def)
  have t2: "fmlookup (ts_tasks s2) t = Some (?c\<lparr>cl_phase := SettingUp False\<rparr>)"
    using k by (simp add: s2_def tasks_set_phase claim_locked_def s1_def)
  have r3: "ts_reachable ext s3"
    using ts_next [OF r2 ts_subscribe [OF t2]] by (simp add: s3_def)
  have t3: "fmlookup (ts_tasks s3) t = Some (?c\<lparr>cl_phase := SettingUp True\<rparr>)"
    using t2 by (simp add: s3_def tasks_set_phase)
  show ?thesis
    using ts_next [OF r3 ts_mark_live [OF t3]] by (simp add: watch_def Let_def s1_def s2_def s3_def)
qed

lemma watch_result:
  assumes "fmlookup (ts_map s) key = None"
  shows "fmlookup (ts_map (watch t key s)) k = (if k = key then Some \<lparr>en_state = LiveSub False, en_index = 1, en_gate = ts_next_gate s\<rparr>
      else fmlookup (ts_map s) k)"
    and "ts_reqs (watch t key s) = finsert key (ts_reqs s)"
    and "fmlookup (ts_tasks (watch t key s)) t = Some \<lparr>cl_key = key, cl_index = 1, cl_phase = Watching\<rparr>"
  using assms by (simp_all add: watch_def Let_def claim_locked_def tasks_set_phase tasks_after)

theorem bounced_claim_is_covered_witness:
  "''key'' |\<in>| ts_reqs (snd (claim_locked ''key'' 1 (watch 0 ''key'' no_trade_subs)))"
proof -
  have f: "fmlookup (ts_map no_trade_subs) k = None" "fmlookup (ts_tasks no_trade_subs) t = None" for k t
    by (simp_all add: no_trade_subs_def)
  have "claim_locked ''key'' 1 (watch 0 ''key'' no_trade_subs) =
      (Bounced, snd (claim_locked ''key'' 1 (watch 0 ''key'' no_trade_subs)))"
    by (simp add: claim_locked_def watch_result(1) [OF f(1)])
  then show ?thesis using bounced_claim_is_covered [OF watch_reachable [OF ts_start f(2,1)]] by blast
qed

text \<open>Two callers of one key: the second sleeps on the gate of the first.\<close>

definition sleepers_state :: trade_subs where
  "sleepers_state = \<lparr>ts_map = fmupd ''key'' \<lparr>en_state = InSetup, en_index = 1, en_gate = 0\<rparr> fmempty, ts_next_gate = 1,
     ts_tasks = fmupd 1 \<lparr>cl_key = ''key'', cl_index = 1, cl_phase = Asleep 0 False\<rparr>
       (fmupd 0 \<lparr>cl_key = ''key'', cl_index = 1, cl_phase = SettingUp False\<rparr> fmempty), ts_reqs = {||}, ts_pending = fmempty\<rparr>"

lemma sleepers_reachable: "ts_reachable ext sleepers_state"
proof -
  let ?c = "\<lparr>cl_key = ''key'', cl_index = 1, cl_phase = Claiming\<rparr>" and ?e = "\<lparr>en_state = InSetup, en_index = 1, en_gate = 0\<rparr>"
  let ?s = "\<lambda>tasks. \<lparr>ts_map = fmupd ''key'' ?e fmempty, ts_next_gate = 1, ts_tasks = tasks, ts_reqs = {||}, ts_pending = fmempty\<rparr>"
  let ?t0 = "fmupd 0 (?c\<lparr>cl_phase := SettingUp False\<rparr>) fmempty"
  have r1: "ts_reachable ext (no_trade_subs\<lparr>ts_tasks := fmupd 0 ?c fmempty\<rparr>)"
    using ts_next [OF ts_start ts_call [of no_trade_subs 0 ext "''key''" 1]] by (simp add: no_trade_subs_def)
  have r2: "ts_reachable ext (?s ?t0)"
    by (rule ts_nextI [OF r1 ts_claim [where t = 0 and c = ?c]])
      (auto simp: no_trade_subs_def claim_locked_def set_phase_def intro: fmap_ext)
  have r3: "ts_reachable ext (?s (fmupd 1 ?c ?t0))"
    by (rule ts_nextI [OF r2 ts_call [where t = 1 and key = "''key''" and index = 1]]) simp_all
  have r4: "ts_reachable ext (?s (fmupd 1 (?c\<lparr>cl_phase := Cloned 0\<rparr>) ?t0))"
    by (rule ts_nextI [OF r3 ts_claim [where t = 1 and c = ?c]])
      (auto simp: claim_locked_def set_phase_def intro: fmap_ext)
  have r5: "ts_reachable ext (?s (fmupd 1 (?c\<lparr>cl_phase := Registered 0 False\<rparr>) ?t0))"
    by (rule ts_nextI [OF r4 ts_enable [where t = 1 and g = 0]]) (auto simp: set_phase_def intro: fmap_ext)
  show ?thesis
    by (rule ts_nextI [OF r5 ts_recheck [where t = 1 and g = 0 and b = False]])
      (auto simp: set_phase_def parked_on_current_setup_def sleepers_state_def intro: fmap_ext)
qed

theorem sleeping_claim_is_woken_witness:
  "\<exists>u d b. fmlookup (ts_tasks sleepers_state) u = Some d \<and> cl_phase d = SettingUp b"
  using sleeping_claim_is_woken [OF sleepers_reachable, of 1 _ 0] by (fastforce simp: sleepers_state_def)

text \<open>
  The release of a finished trade frees a key whose task still runs. A later caller watches the key
  again, and the idle exit of the old task then closes the REQ under it.
\<close>

lemma released_key_loses_its_next_watcher:
  "\<exists>s t. ts_reachable True s \<and> owner_of s ''key'' t Watching \<and> ''key'' |\<notin>| ts_reqs s"
proof -
  have f: "fmlookup (ts_map no_trade_subs) k = None" "fmlookup (ts_tasks no_trade_subs) t = None" for k t
    by (simp_all add: no_trade_subs_def)
  define s1 where "s1 = dismantle ''key'' (watch 0 ''key'' no_trade_subs)"
  have r1: "ts_reachable True s1"
    unfolding s1_def by (rule ts_next [OF watch_reachable [OF ts_start f(2,1)] ts_finished_trade]) simp
  have t1: "fmlookup (ts_tasks s1) 0 = Some \<lparr>cl_key = ''key'', cl_index = 1, cl_phase = Watching\<rparr>"
    "fmlookup (ts_tasks s1) 1 = None"
    using watch_result [OF f(1)]
    by (simp_all add: s1_def tasks_after) (simp add: watch_def Let_def claim_locked_def tasks_set_phase tasks_after no_trade_subs_def)
  define s2 where "s2 = watch 1 ''key'' s1"
  have k1: "fmlookup (ts_map s1) ''key'' = None" by (simp add: s1_def)
  have r2: "ts_reachable True s2" unfolding s2_def by (rule watch_reachable [OF r1 t1(2) k1])
  have t2: "fmlookup (ts_tasks s2) 0 = Some \<lparr>cl_key = ''key'', cl_index = 1, cl_phase = Watching\<rparr>"
    using t1(1) k1 by (simp add: s2_def watch_def Let_def claim_locked_def tasks_set_phase tasks_after)
  have td: "teardown_or_rearm ''key'' s2 = (False, dismantle ''key'' s2)"
    using watch_result(1) [OF k1, of 1] by (simp add: teardown_or_rearm_def s2_def)
  have "ts_reachable True (set_phase 0 Done (dismantle ''key'' s2))"
    using ts_next [OF r2 ts_idle [where rearmed = False, OF t2]] td by simp
  moreover have "owner_of s2 ''key'' 1 Watching" using watch_result(3) [OF k1, of 1] by (simp add: owner_of_def s2_def)
  then have "owner_of (set_phase 0 Done (dismantle ''key'' s2)) ''key'' 1 Watching" by (simp add: owner_of_set_phase)
  moreover have "''key'' |\<notin>| ts_reqs (set_phase 0 Done (dismantle ''key'' s2))" by simp
  ultimately show ?thesis by blast
qed

text \<open>A subscription id stays within the 64 characters of NIP-01.\<close>

lemma daemon_message_subscription_id_bound:
  "length (daemon_message_subscription_id key) \<le> 46"
  by (simp add: daemon_message_subscription_id_def)

end
