(* ===== verification/Push.thy ===== *)
theory Push
  imports Trade_Store Bond_Claims
begin

text \<open>
  Push registration: the rules of \<open>mostro/push.rs\<close> (which trade keys the push server should hold
  a token for, when each is registered again, when it is let go) and the reconcile of
  \<open>api/push.rs\<close> that applies them, with the settings it persists, the coalescing of its triggers and
  the wake of a peer.

  The push server, SHA-256 and the JSON codec of the persisted maps are not part of the repository:
  the server is the list of its answers to come with the log of the calls made, the other two are
  fields of \<open>push_lib\<close>. Hex strings are ASCII, so \<open>to_lowercase\<close> is its ASCII part.
\<close>

section \<open>Rules\<close>

definition refresh_secs :: i64 where "refresh_secs = 12 * 3600"
definition grace_secs :: i64 where "grace_secs = 24 * 3600"
definition node_refusal_secs :: i64 where "node_refusal_secs = 24 * 3600"
definition notify_debounce_secs :: i64 where "notify_debounce_secs = 10"

record push_registration =
  pr_trade_pubkey :: string
  pr_registered_at :: i64
  pr_token_hash :: string
  pr_mostro_pubkey :: string
  pr_unwanted_since :: "i64 option"
  pr_attempts :: u32
  pr_next_attempt_at :: i64

definition backoff_secs :: "u32 \<Rightarrow> i64" where
  "backoff_secs attempts = (let n = unat attempts in
     if n \<le> 1 then 60 else if n = 2 then 5 * 60 else if n = 3 then 30 * 60 else 2 * 3600)"

definition note_accepted :: "string \<Rightarrow> string \<Rightarrow> i64 \<Rightarrow> push_registration \<Rightarrow> push_registration" where
  "note_accepted mostro_pubkey token_hash now r =
     r\<lparr>pr_registered_at := now, pr_token_hash := token_hash, pr_mostro_pubkey := mostro_pubkey,
       pr_attempts := 0, pr_next_attempt_at := 0\<rparr>"

definition note_failed :: "i64 \<Rightarrow> i64 option \<Rightarrow> push_registration \<Rightarrow> push_registration" where
  "note_failed now retry_after r =
     (let attempts = (if pr_attempts r = u32_max then u32_max else pr_attempts r + 1);
          wait = (case retry_after of Some s \<Rightarrow> s | None \<Rightarrow> backoff_secs attempts)
      in r\<lparr>pr_attempts := attempts, pr_next_attempt_at := i64_saturating_add now wait\<rparr>)"

definition pending :: "string \<Rightarrow> string \<Rightarrow> push_registration" where
  "pending trade_pubkey mostro_pubkey = \<lparr>pr_trade_pubkey = trade_pubkey, pr_registered_at = 0,
     pr_token_hash = [], pr_mostro_pubkey = mostro_pubkey, pr_unwanted_since = None, pr_attempts = 0,
     pr_next_attempt_at = 0\<rparr>"

definition is_registered :: "push_registration \<Rightarrow> bool" where
  "is_registered r \<longleftrightarrow> 0 < pr_registered_at r \<and> pr_token_hash r \<noteq> []"

type_synonym registrations = "(string, push_registration) fmap"
type_synonym refusals = "(string, i64) fmap"
type_synonym wanted = "(string, string) fmap"

definition want_trade :: "string \<Rightarrow> (u32 \<Rightarrow> string option) \<Rightarrow> trade_info \<Rightarrow> wanted \<Rightarrow> wanted" where
  "want_trade active_node key_for t w =
     (if is_hard_terminal (oi_status (ti_order t)) then w
      else (case key_for (ti_trade_key_index t) of None \<Rightarrow> w
        | Some pubkey \<Rightarrow>
            (let creator = oi_creator_pubkey (ti_order t); node = (if creator = [] then active_node else creator)
             in fmupd (to_ascii_lowercase pubkey) (to_ascii_lowercase node) w)))"

definition want_claim ::
  "(string, u32) fmap \<Rightarrow> (u32 \<Rightarrow> string option) \<Rightarrow> bond_claim \<Rightarrow> wanted \<Rightarrow> wanted" where
  "want_claim key_of_order key_for c w =
     (if bond_claim_is_terminal (bc_phase c) then w
      else (case Option.bind (opt_or (bc_trade_index c) (fmlookup key_of_order (bc_order_id c))) key_for of
          None \<Rightarrow> w
        | Some pubkey \<Rightarrow>
            (if fmlookup w (to_ascii_lowercase pubkey) \<noteq> None then w
             else fmupd (to_ascii_lowercase pubkey) (to_ascii_lowercase (bc_node_pubkey c)) w)))"

definition key_of_order :: "trade_info list \<Rightarrow> (string, u32) fmap" where
  "key_of_order trades = fold (\<lambda>t. fmupd (order_of t) (ti_trade_key_index t)) trades fmempty"

definition wanted_pubkeys ::
  "trade_info list \<Rightarrow> bond_claim list \<Rightarrow> string \<Rightarrow> (u32 \<Rightarrow> string option) \<Rightarrow> wanted" where
  "wanted_pubkeys trades claims active_node key_for =
     fold (want_claim (key_of_order trades) key_for) claims (fold (want_trade active_node key_for) trades fmempty)"

datatype push_action =
    Register string string
  | Unregister string
  | NoteUnwanted string
  | NoteWanted string
  | Forget string

definition refusal_active :: "i64 \<Rightarrow> i64 \<Rightarrow> bool" where
  "refusal_active refused_at now \<longleftrightarrow> now < i64_saturating_add refused_at node_refusal_secs"

definition backing_off :: "push_registration \<Rightarrow> i64 \<Rightarrow> bool" where
  "backing_off r now \<longleftrightarrow> pr_attempts r > 0 \<and> now < pr_next_attempt_at r"

definition due :: "string \<Rightarrow> string \<Rightarrow> push_registration option \<Rightarrow> i64 \<Rightarrow> bool" where
  "due node token_hash reg now \<longleftrightarrow> (case reg of None \<Rightarrow> True
     | Some r \<Rightarrow> \<not> is_registered r \<or> pr_token_hash r \<noteq> token_hash \<or> pr_mostro_pubkey r \<noteq> node \<or>
         now < pr_registered_at r \<or> now - pr_registered_at r \<ge> refresh_secs \<or> pr_attempts r > 0)"

definition node_refused :: "string \<Rightarrow> refusals \<Rightarrow> i64 \<Rightarrow> bool" where
  "node_refused node refusals now \<longleftrightarrow> (case fmlookup refusals node of
     Some t0 \<Rightarrow> refusal_active t0 now | None \<Rightarrow> False)"

definition plan_wanted ::
  "wanted \<Rightarrow> registrations \<Rightarrow> string \<Rightarrow> refusals \<Rightarrow> i64 \<Rightarrow> string \<Rightarrow> push_action list" where
  "plan_wanted wanted regs token_hash refusals now pubkey =
     (let node = the (fmlookup wanted pubkey); reg = fmlookup regs pubkey in
      (if \<exists>r. reg = Some r \<and> pr_unwanted_since r \<noteq> None then [NoteWanted pubkey] else []) @
      (if node_refused node refusals now then []
       else if due node token_hash reg now \<and> \<not> (\<exists>r. reg = Some r \<and> backing_off r now)
       then [Register pubkey node] else []))"

definition plan_stale :: "i64 \<Rightarrow> push_registration \<Rightarrow> push_action list" where
  "plan_stale now reg =
     (if \<not> is_registered reg then [Forget (pr_trade_pubkey reg)]
      else (case pr_unwanted_since reg of
          None \<Rightarrow> [NoteUnwanted (pr_trade_pubkey reg)]
        | Some since \<Rightarrow>
            if now - since > grace_secs
            then (if backing_off reg now then [] else [Unregister (pr_trade_pubkey reg)]) else []))"

text \<open>\<open>HashMap::values\<close> in the order of the keys; \<open>plan\<close> then sorts them by their own key field.\<close>

definition reg_values :: "registrations \<Rightarrow> push_registration list" where
  "reg_values regs = map (\<lambda>k. the (fmlookup regs k)) (sorted_list_of_fset (fmdom regs))"

definition plan :: "wanted \<Rightarrow> registrations \<Rightarrow> string \<Rightarrow> refusals \<Rightarrow> i64 \<Rightarrow> push_action list" where
  "plan wanted regs token_hash refusals now =
     concat (map (plan_wanted wanted regs token_hash refusals now) (sorted_list_of_fset (fmdom wanted))) @
     concat (map (plan_stale now)
       (sort_key pr_trade_pubkey (filter (\<lambda>r. fmlookup wanted (pr_trade_pubkey r) = None) (reg_values regs))))"

definition notify_allowed :: "i64 option \<Rightarrow> i64 \<Rightarrow> bool" where
  "notify_allowed last_at now \<longleftrightarrow> (case last_at of None \<Rightarrow> True
     | Some l \<Rightarrow> now - l \<ge> notify_debounce_secs \<or> now < l)"

section \<open>The server\<close>

datatype push_platform = Android | Ios | Web

definition as_wire :: "push_platform \<Rightarrow> string" where
  "as_wire p = (case p of Android \<Rightarrow> ''android'' | Ios \<Rightarrow> ''ios'' | Web \<Rightarrow> ''web'')"

definition from_wire :: "string \<Rightarrow> push_platform option" where
  "from_wire v = (if v = ''android'' then Some Android else if v = ''ios'' then Some Ios
     else if v = ''web'' then Some Web else None)"

datatype server_outcome =
    Accepted
  | Refused
  | RateLimited "i64 option"
  | BadRequest string
  | Failed string

text \<open>\<open>message\<close> reads the \<open>message\<close> field of a JSON body.\<close>

definition classify :: "(string \<Rightarrow> string option) \<Rightarrow> nat \<Rightarrow> i64 option \<Rightarrow> string \<Rightarrow> server_outcome" where
  "classify message status retry_after body =
     (let msg = (case message body of Some m \<Rightarrow> m | None \<Rightarrow> take 120 body) in
      if status \<in> {200, 202} then Accepted
      else if status = 403 then Refused
      else if status = 429 then RateLimited retry_after
      else if status = 400 then BadRequest msg
      else Failed (''HTTP '' @ nat_digits status @ '': '' @ msg))"

datatype push_call =
    CallRegister string string push_platform string
  | CallUnregister string
  | CallNotify string

record push_io =
  io_answers :: "server_outcome list"
  io_log :: "(push_call \<times> server_outcome) list"

definition call :: "push_call \<Rightarrow> push_io \<Rightarrow> server_outcome \<times> push_io" where
  "call c io = (let a = (case io_answers io of [] \<Rightarrow> Failed ''timeout'' | a # _ \<Rightarrow> a)
     in (a, io\<lparr>io_answers := tl (io_answers io), io_log := io_log io @ [(c, a)]\<rparr>))"

section \<open>Reconcile\<close>

record push_state =
  pt_enabled :: bool
  pt_token :: "string option"
  pt_platform :: "push_platform option"
  pt_registrations :: registrations
  pt_refusals :: refusals

record reconcile_report =
  rr_registered :: u32
  rr_unregistered :: u32
  rr_failed :: u32
  rr_refused :: u32
  rr_last_error :: "string option"

definition no_report :: reconcile_report where
  "no_report = \<lparr>rr_registered = 0, rr_unregistered = 0, rr_failed = 0, rr_refused = 0, rr_last_error = None\<rparr>"

text \<open>What a reconcile threads through its actions: the state, its report, and the server.\<close>

type_synonym reconciling = "push_state \<times> reconcile_report \<times> push_io"

definition update_reg :: "string \<Rightarrow> (push_registration \<Rightarrow> push_registration) \<Rightarrow> push_state \<Rightarrow> push_state" where
  "update_reg k f st = (case fmlookup (pt_registrations st) k of
      Some r \<Rightarrow> st\<lparr>pt_registrations := fmupd k (f r) (pt_registrations st)\<rparr> | None \<Rightarrow> st)"

definition forget_reg :: "string \<Rightarrow> push_state \<Rightarrow> push_state" where
  "forget_reg k st = st\<lparr>pt_registrations := fmdrop k (pt_registrations st)\<rparr>"

definition ensure_reg :: "string \<Rightarrow> string \<Rightarrow> push_state \<Rightarrow> push_state" where
  "ensure_reg k node st = (if fmlookup (pt_registrations st) k \<noteq> None then st
     else st\<lparr>pt_registrations := fmupd k (pending k node) (pt_registrations st)\<rparr>)"

definition note_failure ::
  "string \<Rightarrow> server_outcome \<Rightarrow> i64 \<Rightarrow> push_state \<times> reconcile_report \<Rightarrow> push_state \<times> reconcile_report" where
  "note_failure k outcome now sr =
     (let fail = (\<lambda>retry_after marker. (update_reg k (note_failed now retry_after) (fst sr),
            (snd sr)\<lparr>rr_failed := rr_failed (snd sr) + 1, rr_last_error := Some marker\<rparr>)) in
      case outcome of
        RateLimited retry_after \<Rightarrow> fail retry_after ''PushRateLimited''
      | BadRequest _ \<Rightarrow> fail None ''PushBadRequest''
      | Failed _ \<Rightarrow> fail None ''PushServerUnreachable''
      | Accepted \<Rightarrow> sr
      | Refused \<Rightarrow> sr)"

definition unregister_key :: "i64 \<Rightarrow> string \<Rightarrow> reconciling \<Rightarrow> reconciling" where
  "unregister_key now k rec = (case rec of (st, rep, io) \<Rightarrow>
     (case call (CallUnregister k) io of (a, io') \<Rightarrow>
        if a = Accepted
        then (forget_reg k st, rep\<lparr>rr_unregistered := rr_unregistered rep + 1\<rparr>, io')
        else (let (st', rep') = note_failure k a now (st, rep) in (st', rep', io'))))"

definition register_key ::
  "string \<Rightarrow> string \<Rightarrow> push_platform \<Rightarrow> i64 \<Rightarrow> string \<Rightarrow> string \<Rightarrow> reconciling \<Rightarrow> reconciling" where
  "register_key token token_hash platform now k node rec = (case rec of (st, rep, io) \<Rightarrow>
     (case call (CallRegister k token platform node) io of (a, io') \<Rightarrow>
        (case a of
           Accepted \<Rightarrow> (update_reg k (note_accepted node token_hash now) (ensure_reg k node st),
              rep\<lparr>rr_registered := rr_registered rep + 1\<rparr>, io')
         | Refused \<Rightarrow> (st\<lparr>pt_refusals := fmupd node now (pt_refusals st)\<rparr>,
              rep\<lparr>rr_refused := rr_refused rep + 1, rr_last_error := Some ''PushNodeRefused''\<rparr>, io')
         | _ \<Rightarrow> (let (st', rep') = note_failure k a now (ensure_reg k node st, rep) in (st', rep', io')))))"

definition apply_action ::
  "string \<Rightarrow> string \<Rightarrow> push_platform \<Rightarrow> i64 \<Rightarrow> push_action \<Rightarrow> reconciling \<Rightarrow> reconciling" where
  "apply_action token token_hash platform now a rec = (case a of
      Register k node \<Rightarrow> register_key token token_hash platform now k node rec
    | Unregister k \<Rightarrow> unregister_key now k rec
    | NoteUnwanted k \<Rightarrow> (case rec of (st, rest) \<Rightarrow> (update_reg k (\<lambda>r. r\<lparr>pr_unwanted_since := Some now\<rparr>) st, rest))
    | NoteWanted k \<Rightarrow> (case rec of (st, rest) \<Rightarrow> (update_reg k (\<lambda>r. r\<lparr>pr_unwanted_since := None\<rparr>) st, rest))
    | Forget k \<Rightarrow> (case rec of (st, rest) \<Rightarrow> (forget_reg k st, rest)))"

text \<open>Disabled, or without a device token: the server should hold nothing.\<close>

definition release_key :: "i64 \<Rightarrow> string \<Rightarrow> reconciling \<Rightarrow> reconciling" where
  "release_key now k rec = (case fmlookup (pt_registrations (fst rec)) k of
      Some r \<Rightarrow> if is_registered r then unregister_key now k rec
        else (case rec of (st, rest) \<Rightarrow> (forget_reg k st, rest))
    | None \<Rightarrow> rec)"

definition reconcile_core :: "(string \<Rightarrow> string) \<Rightarrow> wanted \<Rightarrow> i64 \<Rightarrow> push_state \<Rightarrow> push_io \<Rightarrow> reconciling" where
  "reconcile_core sha256_hex wanted now st io =
     (case (pt_token st, pt_platform st, pt_enabled st) of
        (Some token, Some platform, True) \<Rightarrow>
          (let token_hash = sha256_hex token;
               (st', rep, io') = fold (apply_action token token_hash platform now)
                 (plan wanted (pt_registrations st) token_hash (pt_refusals st) now) (st, no_report, io)
           in (st'\<lparr>pt_refusals := fmretain (\<lambda>_ t0. now - t0 < 2 * node_refusal_secs) (pt_refusals st')\<rparr>, rep, io'))
      | _ \<Rightarrow> fold (release_key now) (sorted_list_of_fset (fmdom (pt_registrations st))) (st, no_report, io))"

section \<open>Persisted state\<close>

text \<open>
  What the repository relies on: SHA-256 in hexadecimal, the JSON codec of the two maps (\<open>None\<close>
  where it does not parse), and the URL of the server.
\<close>

record push_lib =
  pl_sha256_hex :: "string \<Rightarrow> string"
  pl_regs_json :: "registrations \<Rightarrow> string"
  pl_regs_of_json :: "string \<Rightarrow> registrations option"
  pl_refusals_json :: "refusals \<Rightarrow> string"
  pl_refusals_of_json :: "string \<Rightarrow> refusals option"
  pl_server_url :: string

record mirror_file =
  mf_server_url :: string
  mf_token :: string
  mf_platform :: "string option"
  mf_registrations :: "(string \<times> string) list"

record push_status =
  pst_enabled :: bool
  pst_has_token :: bool
  pst_registered :: nat
  pst_wanted :: nat
  pst_last_success_at :: "i64 option"
  pst_last_error :: "string option"
  pst_node_refused_until :: "i64 option"

text \<open>
  The world of \<open>api/push.rs\<close>. \<open>px_down\<close> and \<open>px_unread\<close> say of which settings a write and a read
  fail; \<open>px_trades_down\<close> and \<open>px_claims_down\<close> that the lists do.
\<close>

record push_world =
  px_db :: "trade_db option"
  px_claims :: "bond_claim list"
  px_down :: "string \<Rightarrow> bool"
  px_unread :: "string \<Rightarrow> bool"
  px_trades_down :: bool
  px_claims_down :: bool
  px_keys :: "u32 \<Rightarrow> string option"
  px_active :: string
  px_now :: i64
  px_io :: push_io
  px_last_report :: "(reconcile_report \<times> nat) option"
  px_mirror :: "mirror_file option"
  px_statuses :: "push_status list"

definition push_enabled_key :: string where "push_enabled_key = ''push_enabled''"
definition push_token_key :: string where "push_token_key = ''push_token''"
definition push_platform_key :: string where "push_platform_key = ''push_platform''"
definition push_registrations_key :: string where "push_registrations_key = ''push_registrations''"
definition push_node_refusals_key :: string where "push_node_refusals_key = ''push_node_refusals''"

lemmas push_keys_def = push_enabled_key_def push_token_key_def push_platform_key_def push_registrations_key_def
  push_node_refusals_key_def

definition px_get :: "string \<Rightarrow> push_world \<Rightarrow> string option" where
  "px_get k w = (case px_db w of Some db \<Rightarrow> if px_unread w k then None else get_setting k db | None \<Rightarrow> None)"

definition px_set :: "string \<Rightarrow> string \<Rightarrow> push_world \<Rightarrow> bool \<times> push_world" where
  "px_set k v w = (if px_down w k then (False, w) else (True, w\<lparr>px_db := map_option (set_setting k v) (px_db w)\<rparr>))"

definition px_delete :: "string \<Rightarrow> push_world \<Rightarrow> bool \<times> push_world" where
  "px_delete k w = (if px_down w k then (False, w) else (True, w\<lparr>px_db := map_option (delete_setting k) (px_db w)\<rparr>))"

definition load_state :: "push_lib \<Rightarrow> push_world \<Rightarrow> push_state" where
  "load_state lib w = \<lparr>pt_enabled = (px_get push_enabled_key w \<noteq> Some ''false''),
     pt_token = opt_filter (\<lambda>t. t \<noteq> []) (px_get push_token_key w),
     pt_platform = Option.bind (px_get push_platform_key w) from_wire,
     pt_registrations = (case Option.bind (px_get push_registrations_key w) (pl_regs_of_json lib) of
        Some m \<Rightarrow> m | None \<Rightarrow> fmempty),
     pt_refusals = (case Option.bind (px_get push_node_refusals_key w) (pl_refusals_of_json lib) of
        Some m \<Rightarrow> m | None \<Rightarrow> fmempty)\<rparr>"

definition write_mirror :: "push_lib \<Rightarrow> push_state \<Rightarrow> push_world \<Rightarrow> push_world" where
  "write_mirror lib st w =
     (let live = filter is_registered (reg_values (pt_registrations st)) in
      w\<lparr>px_mirror := (case (pt_token st, pt_enabled st, live = []) of
          (Some token, True, False) \<Rightarrow> Some \<lparr>mf_server_url = pl_server_url lib, mf_token = token,
             mf_platform = map_option as_wire (pt_platform st),
             mf_registrations = map (\<lambda>r. (pr_trade_pubkey r, pr_mostro_pubkey r)) live\<rparr>
        | _ \<Rightarrow> None)\<rparr>)"

definition save_registrations :: "push_lib \<Rightarrow> push_state \<Rightarrow> push_world \<Rightarrow> push_world" where
  "save_registrations lib st w =
     (let w1 = snd (px_set push_registrations_key (pl_regs_json lib (pt_registrations st)) w);
          w2 = snd (px_set push_node_refusals_key (pl_refusals_json lib (pt_refusals st)) w1)
      in write_mirror lib st w2)"

definition current_wanted :: "push_world \<Rightarrow> wanted" where
  "current_wanted w = (case px_db w of None \<Rightarrow> fmempty | Some db \<Rightarrow>
     wanted_pubkeys (if px_trades_down w then [] else list_trades db) (if px_claims_down w then [] else px_claims w)
       (px_active w) (px_keys w))"

definition issuing_nodes_of_live_trades :: "push_world \<Rightarrow> string set" where
  "issuing_nodes_of_live_trades w = (case px_db w of None \<Rightarrow> {} | Some db \<Rightarrow>
     set (map (\<lambda>t. to_ascii_lowercase (oi_creator_pubkey (ti_order t)))
       (filter (\<lambda>t. oi_creator_pubkey (ti_order t) \<noteq> [])
         (filter (\<lambda>t. \<not> is_hard_terminal (oi_status (ti_order t))) (if px_trades_down w then [] else list_trades db)))))"

fun max_opt :: "i64 list \<Rightarrow> i64 option" where
  "max_opt [] = None"
| "max_opt (x # xs) = (case max_opt xs of None \<Rightarrow> Some x | Some m \<Rightarrow> Some (max x m))"

definition status_of :: "push_state \<Rightarrow> reconcile_report \<Rightarrow> nat \<Rightarrow> string \<Rightarrow> i64 \<Rightarrow> push_status" where
  "status_of st rep wanted active now =
     (let live = filter is_registered (reg_values (pt_registrations st)) in
      \<lparr>pst_enabled = pt_enabled st, pst_has_token = (pt_token st \<noteq> None), pst_registered = length live,
       pst_wanted = wanted, pst_last_success_at = max_opt (map pr_registered_at live),
       pst_last_error = rr_last_error rep,
       pst_node_refused_until = map_option (\<lambda>t0. t0 + node_refusal_secs)
         (opt_filter (\<lambda>t0. refusal_active t0 now) (fmlookup (pt_refusals st) (to_ascii_lowercase active)))\<rparr>)"

definition reconcile_with :: "push_lib \<Rightarrow> push_world \<Rightarrow> push_world" where
  "reconcile_with lib w = (if px_db w = None then w
     else (let st = load_state lib w;
               wanted = (if pt_enabled st \<and> pt_token st \<noteq> None then current_wanted w else fmempty);
               (st', rep, io) = reconcile_core (pl_sha256_hex lib) wanted (px_now w) st (px_io w);
               w1 = save_registrations lib st' (w\<lparr>px_io := io\<rparr>)
           in w1\<lparr>px_last_report := Some (rep, fmlen wanted),
                 px_statuses := px_statuses w1 @ [status_of st' rep (fmlen wanted) (px_active w) (px_now w)]\<rparr>))"

text \<open>
  The single-flight loop: \<open>env\<close> lists what happened during each pass that found the dirty flag set
  again, so each of its elements is followed by one more pass.
\<close>

fun reconcile_push :: "push_lib \<Rightarrow> (push_world \<Rightarrow> push_world) list \<Rightarrow> push_world \<Rightarrow> push_world" where
  "reconcile_push lib [] w = reconcile_with lib w"
| "reconcile_push lib (e # env) w = reconcile_push lib env (e (reconcile_with lib w))"

section \<open>The calls of the user interface\<close>

definition set_push_token ::
  "push_lib \<Rightarrow> (push_world \<Rightarrow> push_world) list \<Rightarrow> string \<Rightarrow> push_platform \<Rightarrow> push_world \<Rightarrow> (string + unit) \<times> push_world" where
  "set_push_token lib env token platform w =
     (if px_db w = None then (Inl ''StorageUnavailable'', w)
      else if str_trim token = [] then (Inl ''InvalidToken'', w)
      else (case px_set push_token_key (str_trim token) w of
          (False, w1) \<Rightarrow> (Inl ''storage error'', w1)
        | (True, w1) \<Rightarrow> (case px_set push_platform_key (as_wire platform) w1 of
            (False, w2) \<Rightarrow> (Inl ''storage error'', w2)
          | (True, w2) \<Rightarrow> (Inr (), reconcile_push lib env w2))))"

definition clear_push_token ::
  "push_lib \<Rightarrow> (push_world \<Rightarrow> push_world) list \<Rightarrow> push_world \<Rightarrow> (string + unit) \<times> push_world" where
  "clear_push_token lib env w =
     (if px_db w = None then (Inl ''StorageUnavailable'', w)
      else (case px_delete push_token_key w of
          (False, w1) \<Rightarrow> (Inl ''storage error'', w1)
        | (True, w1) \<Rightarrow> (Inr (), reconcile_push lib env w1)))"

definition set_push_enabled ::
  "push_lib \<Rightarrow> (push_world \<Rightarrow> push_world) list \<Rightarrow> bool \<Rightarrow> push_world \<Rightarrow> (string + unit) \<times> push_world" where
  "set_push_enabled lib env enabled w =
     (if px_db w = None then (Inl ''StorageUnavailable'', w)
      else (case px_set push_enabled_key (if enabled then ''true'' else ''false'') w of
          (False, w1) \<Rightarrow> (Inl ''storage error'', w1)
        | (True, w1) \<Rightarrow>
            (case (if enabled then px_delete push_node_refusals_key w1 else (True, w1)) of
               (False, w2) \<Rightarrow> (Inl ''storage error'', w2)
             | (True, w2) \<Rightarrow> (Inr (), reconcile_push lib env w2))))"

definition get_push_status :: "push_lib \<Rightarrow> push_world \<Rightarrow> string + push_status" where
  "get_push_status lib w =
     (if px_db w = None then Inl ''StorageUnavailable''
      else (let (rep, wanted) = (case px_last_report w of Some r \<Rightarrow> r | None \<Rightarrow> (no_report, 0))
            in Inr (status_of (load_state lib w) rep wanted (px_active w) (px_now w))))"

text \<open>The request for a reconcile that ends it is a step of the coalescing below.\<close>

definition clear_node_refusal :: "push_lib \<Rightarrow> string \<Rightarrow> push_world \<Rightarrow> push_world" where
  "clear_node_refusal lib node w =
     (if px_db w = None then w
      else (let refusals = pt_refusals (load_state lib w); node = to_ascii_lowercase node in
        if fmlookup refusals node = None then w
        else snd (px_set push_node_refusals_key (pl_refusals_json lib (fmdrop node refusals)) w)))"

definition unregister_all :: "push_lib \<Rightarrow> push_world \<Rightarrow> push_world" where
  "unregister_all lib w =
     (if px_db w = None then w
      else (let st = (load_state lib w)\<lparr>pt_enabled := False\<rparr>;
                (st', rep, io) = reconcile_core (pl_sha256_hex lib) fmempty (px_now w) st (px_io w)
            in save_registrations lib (st'\<lparr>pt_registrations := fmempty, pt_refusals := fmempty\<rparr>) (w\<lparr>px_io := io\<rparr>)))"

section \<open>Coalesced triggers\<close>

text \<open>
  The flags \<open>DIRTY\<close> and \<open>SCHEDULED\<close> and the reconcile lock. \<open>pg_changes\<close> counts the changes of what is
  wanted, \<open>pg_read\<close> how many of them the last pass started with could read.
\<close>

record push_gate =
  pg_dirty :: bool
  pg_scheduled :: bool
  pg_waiting :: nat
  pg_running :: bool
  pg_changes :: nat
  pg_read :: nat

datatype gate_event = ChangeAndRequest | TimerEnds | PassStarts | PassEnds

definition request_reconcile :: "push_gate \<Rightarrow> push_gate" where
  "request_reconcile g = g\<lparr>pg_dirty := True, pg_scheduled := True\<rparr>"

definition gate_step :: "gate_event \<Rightarrow> push_gate \<Rightarrow> push_gate" where
  "gate_step e g = (case e of
      ChangeAndRequest \<Rightarrow> request_reconcile (g\<lparr>pg_changes := pg_changes g + 1\<rparr>)
    | TimerEnds \<Rightarrow> if pg_scheduled g then g\<lparr>pg_scheduled := False, pg_waiting := pg_waiting g + 1\<rparr> else g
    | PassStarts \<Rightarrow> if 0 < pg_waiting g \<and> \<not> pg_running g
        then g\<lparr>pg_waiting := pg_waiting g - 1, pg_running := True, pg_dirty := False, pg_read := pg_changes g\<rparr> else g
    | PassEnds \<Rightarrow> if \<not> pg_running g then g
        else if pg_dirty g then g\<lparr>pg_dirty := False, pg_read := pg_changes g\<rparr>
        else g\<lparr>pg_running := False\<rparr>)"

section \<open>Waking a peer\<close>

datatype notify_outcome = Sent | Debounced | InvalidPeer | NotDelivered

definition is_hex_char :: "char \<Rightarrow> bool" where
  "is_hex_char c \<longleftrightarrow> (let n = of_char c :: nat in 48 \<le> n \<and> n \<le> 57 \<or> 97 \<le> n \<and> n \<le> 102 \<or> 65 \<le> n \<and> n \<le> 70)"

definition notify_peer ::
  "string \<Rightarrow> i64 \<Rightarrow> (string, i64) fmap \<times> push_io \<Rightarrow> notify_outcome \<times> (string, i64) fmap \<times> push_io" where
  "notify_peer peer_trade_pubkey now s = (case s of (last_at, io) \<Rightarrow>
     (let peer = to_ascii_lowercase peer_trade_pubkey in
      if length peer \<noteq> 64 \<or> \<not> list_all is_hex_char peer then (InvalidPeer, last_at, io)
      else if \<not> notify_allowed (fmlookup last_at peer) now then (Debounced, last_at, io)
      else (let last_at' = fmretain (\<lambda>_ t0. now - t0 < 3600) (fmupd peer now last_at);
                (a, io') = call (CallNotify peer) io
            in ((if a = Accepted then Sent else NotDelivered), last_at', io'))))"

end
