(* ===== verification/Push_Safety.thy ===== *)
theory Push_Safety
  imports Push
begin

text \<open>
  What the push reconcile guarantees: its record is exactly what the server holds, whatever the
  server answers; what a plan may contain; a reconcile with a server that answers brings the server
  in step, and empties it after an opt-out; no change is missed by the coalescing; peers are woken
  at most once per window.
\<close>

section \<open>What the server holds\<close>

text \<open>
  What the server makes of the calls. It carries out what it accepts; a request whose answer was lost (a
  timeout, a broken connection) may have been carried out too: \<open>app i\<close> says so of the \<open>i\<close>-th call of the log.
\<close>

definition entries :: "(nat \<Rightarrow> bool) \<Rightarrow> push_io \<Rightarrow> (bool \<times> push_call \<times> server_outcome) list" where
  "entries app io = map (\<lambda>(i, c, a). (app i, c, a)) (enumerate 0 (io_log io))"

definition carried_out :: "bool \<Rightarrow> server_outcome \<Rightarrow> bool" where
  "carried_out lost a = (case a of Accepted \<Rightarrow> True | Failed _ \<Rightarrow> lost | _ \<Rightarrow> False)"

definition server_step ::
  "bool \<times> push_call \<times> server_outcome \<Rightarrow> (string, string \<times> string) fmap \<Rightarrow> (string, string \<times> string) fmap" where
  "server_step e held = (case e of (lost, c, a) \<Rightarrow> if \<not> carried_out lost a then held
     else (case c of CallRegister k token _ node \<Rightarrow> fmupd k (token, node) held
       | CallUnregister k \<Rightarrow> fmdrop k held | CallNotify _ \<Rightarrow> held))"

definition server_holds :: "(nat \<Rightarrow> bool) \<Rightarrow> push_io \<Rightarrow> (string, string \<times> string) fmap" where
  "server_holds app io = fold server_step (entries app io) fmempty"

text \<open>
  The app has heard of all the server did about a key: no request about it was carried out with its
  answer lost since the last one that was accepted.
\<close>

definition heard_step :: "string \<Rightarrow> bool \<times> push_call \<times> server_outcome \<Rightarrow> bool \<Rightarrow> bool" where
  "heard_step k e h = (case e of (lost, c, a) \<Rightarrow>
     if (case c of CallRegister j _ _ _ \<Rightarrow> j \<noteq> k | CallUnregister j \<Rightarrow> j \<noteq> k | CallNotify _ \<Rightarrow> True) then h
     else if a = Accepted then True else h \<and> \<not> carried_out lost a)"

definition heard_of :: "(nat \<Rightarrow> bool) \<Rightarrow> push_io \<Rightarrow> string \<Rightarrow> bool" where
  "heard_of app io k = fold (heard_step k) (entries app io) True"

lemma entries_call: "entries app (snd (call c io)) = entries app io @ [(app (length (io_log io)), c, fst (call c io))]"
  by (simp add: entries_def call_def Let_def enumerate_append_eq)

lemma server_holds_call:
  "server_holds app (snd (call c io)) = server_step (app (length (io_log io)), c, fst (call c io)) (server_holds app io)"
  "heard_of app (snd (call c io)) k = heard_step k (app (length (io_log io)), c, fst (call c io)) (heard_of app io k)"
  by (simp_all add: server_holds_def heard_of_def entries_call)

text \<open>
  The record agrees with the server on one key: a record filed under its own key and, where the app has heard
  of all the server did, the key held exactly when the record says registered, under that node and with a
  token of that hash.
\<close>

definition agrees :: "(string \<Rightarrow> string) \<Rightarrow> (nat \<Rightarrow> bool) \<Rightarrow> push_state \<Rightarrow> push_io \<Rightarrow> string \<Rightarrow> bool" where
  "agrees hash app st io k \<longleftrightarrow> (case fmlookup (pt_registrations st) k of
      None \<Rightarrow> heard_of app io k \<longrightarrow> fmlookup (server_holds app io) k = None
    | Some r \<Rightarrow> pr_trade_pubkey r = k \<and> (heard_of app io k \<longrightarrow>
        (if is_registered r then \<exists>token. fmlookup (server_holds app io) k = Some (token, pr_mostro_pubkey r) \<and> pr_token_hash r = hash token
         else fmlookup (server_holds app io) k = None)))"

definition in_step :: "(string \<Rightarrow> string) \<Rightarrow> (nat \<Rightarrow> bool) \<Rightarrow> push_state \<Rightarrow> push_io \<Rightarrow> bool" where
  "in_step hash app st io \<longleftrightarrow> (\<forall>k. agrees hash app st io k)"

lemma in_step_keys:
  assumes "in_step hash app st io" "fmlookup (pt_registrations st) k = Some r"
  shows "pr_trade_pubkey r = k"
  using assms(1) [unfolded in_step_def agrees_def, rule_format, of k] assms(2) by simp

section \<open>One action\<close>

lemma lookup_update_reg: "fmlookup (pt_registrations (update_reg k f st)) j =
    (if j = k then map_option f (fmlookup (pt_registrations st) j) else fmlookup (pt_registrations st) j)"
  by (simp add: update_reg_def split: option.split)

lemma lookup_ensure_reg: "fmlookup (pt_registrations (ensure_reg k n st)) j =
    (if j = k then Some (case fmlookup (pt_registrations st) k of Some r \<Rightarrow> r | None \<Rightarrow> pending k n)
     else fmlookup (pt_registrations st) j)"
  by (auto simp: ensure_reg_def split: option.split)

lemma lookup_forget_reg: "fmlookup (pt_registrations (forget_reg k st)) j =
    (if j = k then None else fmlookup (pt_registrations st) j)"
  by (simp add: forget_reg_def)

lemmas reg_lookups = lookup_update_reg lookup_ensure_reg lookup_forget_reg

lemma note_kept [simp]:
  "is_registered (note_failed now a r) = is_registered r" "pr_trade_pubkey (note_failed now a r) = pr_trade_pubkey r"
  "pr_mostro_pubkey (note_failed now a r) = pr_mostro_pubkey r" "pr_token_hash (note_failed now a r) = pr_token_hash r"
  "is_registered (r\<lparr>pr_unwanted_since := u\<rparr>) = is_registered r"
  by (simp_all add: note_failed_def is_registered_def Let_def)

lemma note_accepted_kept [simp]:
  "pr_trade_pubkey (note_accepted n h now r) = pr_trade_pubkey r" "pr_mostro_pubkey (note_accepted n h now r) = n"
  "pr_token_hash (note_accepted n h now r) = h" "pr_registered_at (note_accepted n h now r) = now"
  "pr_attempts (note_accepted n h now r) = 0" "pr_unwanted_since (note_accepted n h now r) = pr_unwanted_since r"
  by (simp_all add: note_accepted_def)

lemma pending_simps [simp]: "pr_trade_pubkey (pending k n) = k" "\<not> is_registered (pending k n)"
  "pr_unwanted_since (pending k n) = None"
  by (simp_all add: pending_def is_registered_def)

fun action_key :: "push_action \<Rightarrow> string" where
  "action_key (Register k _) = k"
| "action_key (Unregister k) = k"
| "action_key (NoteUnwanted k) = k"
| "action_key (NoteWanted k) = k"
| "action_key (Forget k) = k"

lemma note_failure_lookup:
  "fmlookup (pt_registrations (fst (note_failure k a now (st, rep)))) j =
     (case a of RateLimited s \<Rightarrow> fmlookup (pt_registrations (update_reg k (note_failed now s) st)) j
      | BadRequest _ \<Rightarrow> fmlookup (pt_registrations (update_reg k (note_failed now None) st)) j
      | Failed _ \<Rightarrow> fmlookup (pt_registrations (update_reg k (note_failed now None) st)) j
      | _ \<Rightarrow> fmlookup (pt_registrations st) j)"
  by (simp add: note_failure_def Let_def split: server_outcome.split)

text \<open>A request about one key changes the record and the server at that key only, and keeps them agreed.\<close>

lemma unregister_agrees:
  assumes "unregister_key now k (st, rep, io) = (st', rep', io')" "agrees hash app st io j"
  shows "agrees hash app st' io' j"
proof -
  obtain a io1 where c: "call (CallUnregister k) io = (a, io1)" by fastforce
  have h: "server_holds app io1 = server_step (app (length (io_log io)), CallUnregister k, a) (server_holds app io)"
    and g: "heard_of app io1 j = heard_step j (app (length (io_log io)), CallUnregister k, a) (heard_of app io j)"
    using server_holds_call [of app "CallUnregister k" io] c by simp_all
  show ?thesis
  proof (cases "a = Accepted")
    case True
    then show ?thesis
      using assms c h g
      by (auto simp: unregister_key_def agrees_def server_step_def heard_step_def carried_out_def reg_lookups split: option.splits if_splits)
  next
    case False
    then have "io' = io1" "\<And>i. fmlookup (pt_registrations st') i = fmlookup (pt_registrations (fst (note_failure k a now (st, rep)))) i"
      using assms(1) c by (auto simp: unregister_key_def split_beta)
    then show ?thesis
      using False assms(2) h g unfolding agrees_def
      by (cases a) (auto simp: note_failure_lookup reg_lookups server_step_def heard_step_def carried_out_def split: option.splits if_splits)
  qed
qed

lemma register_agrees:
  assumes r: "register_key token (hash token) platform now k node (st, rep, io) = (st', rep', io')" "agrees hash app st io j"
    and "0 < now" "hash token \<noteq> []"
  shows "agrees hash app st' io' j"
proof -
  obtain a io1 where c: "call (CallRegister k token platform node) io = (a, io1)" by fastforce
  have h: "server_holds app io1 = server_step (app (length (io_log io)), CallRegister k token platform node, a) (server_holds app io)"
    and g: "heard_of app io1 j = heard_step j (app (length (io_log io)), CallRegister k token platform node, a) (heard_of app io j)"
    using server_holds_call [of app "CallRegister k token platform node" io] c by simp_all
  have reg: "is_registered (note_accepted node (hash token) now r)" for r
    using assms(3,4) by (simp add: is_registered_def)
  have io: "io' = io1" using r(1) c by (auto simp: register_key_def split_beta split: server_outcome.splits)
  consider "a = Accepted" | "a = Refused" |
    "\<And>i. fmlookup (pt_registrations st') i = fmlookup (pt_registrations (fst (note_failure k a now (ensure_reg k node st, rep)))) i"
    "a \<noteq> Accepted" "a \<noteq> Refused"
    using r(1) c by (cases a) (auto simp: register_key_def split_beta)
  then show ?thesis
  proof cases
    case 1
    then show ?thesis
      using r c h g reg io unfolding agrees_def
      by (auto simp: register_key_def server_step_def heard_step_def carried_out_def reg_lookups split: option.splits if_splits)
  next
    case 2
    then show ?thesis
      using r c h g io unfolding agrees_def
      by (auto simp: register_key_def server_step_def heard_step_def carried_out_def split: option.splits if_splits)
  next
    case 3
    then show ?thesis
      using r(2) h g io unfolding agrees_def
      by (cases a) (auto simp: note_failure_lookup reg_lookups server_step_def heard_step_def carried_out_def split: option.splits if_splits)
  qed
qed

text \<open>Only a Register makes a key registered.\<close>

definition reg_at :: "push_state \<Rightarrow> string \<Rightarrow> bool" where
  "reg_at st k \<longleftrightarrow> (\<exists>r. fmlookup (pt_registrations st) k = Some r \<and> is_registered r)"

lemma reg_at_unregister:
  "reg_at (fst (unregister_key now k (st, rep, io))) j \<Longrightarrow> reg_at st j"
  unfolding reg_at_def
  by (cases "call (CallUnregister k) io"; cases "fst (call (CallUnregister k) io)")
    (auto simp: unregister_key_def note_failure_lookup reg_lookups split_beta split: if_splits)

lemma reg_at_register:
  "reg_at (fst (register_key token h platform now k node (st, rep, io))) j \<Longrightarrow> reg_at st j \<or> j = k"
  unfolding reg_at_def
  by (cases "call (CallRegister k token platform node) io"; cases "fst (call (CallRegister k token platform node) io)")
    (auto simp: register_key_def note_failure_lookup reg_lookups split_beta split: if_splits)

lemma reg_at_action:
  assumes "reg_at (fst (apply_action token h platform now a rec)) j"
  shows "reg_at (fst rec) j \<or> (\<exists>node. a = Register j node)"
proof -
  obtain st rep io where rec: "rec = (st, rep, io)" by (cases rec)
  show ?thesis
  proof (cases a)
    case (Register k node)
    then show ?thesis using assms reg_at_register rec by (fastforce simp: apply_action_def)
  next
    case (Unregister k)
    then show ?thesis using assms reg_at_unregister rec by (fastforce simp: apply_action_def)
  qed (use assms rec in \<open>auto simp: apply_action_def reg_at_def reg_lookups split: if_splits\<close>)
qed

lemma action_agrees:
  assumes step: "apply_action token (hash token) platform now a (st, rep, io) = (st', rep', io')"
    and ok: "in_step hash app st io" and pos: "0 < now" "hash token \<noteq> []"
    and f: "\<And>k. a = Forget k \<Longrightarrow> \<not> reg_at st k"
  shows "in_step hash app st' io'"
  unfolding in_step_def
proof
  fix j
  have j: "agrees hash app st io j" using ok by (simp add: in_step_def)
  show "agrees hash app st' io' j"
  proof (cases a)
    case (Register k node)
    then show ?thesis using register_agrees [OF _ j pos] step by (simp add: apply_action_def)
  next
    case (Unregister k)
    then show ?thesis using unregister_agrees [OF _ j] step by (simp add: apply_action_def)
  next
    case (Forget k)
    then show ?thesis
      using step j f [OF Forget] by (auto simp: apply_action_def agrees_def reg_lookups reg_at_def split: option.splits if_splits)
  qed (use step j in \<open>auto simp: apply_action_def agrees_def reg_lookups split: option.splits if_splits\<close>)
qed

section \<open>A whole pass\<close>

text \<open>The keys of a plan: requests for wanted keys, ends for keys nobody wants any more.\<close>

lemma plan_wanted_mem:
  assumes "a \<in> set (plan wanted regs h refusals now)" "fmlookup wanted (action_key a) \<noteq> None \<or> (\<exists>k n. a = Register k n)"
    and keys: "\<And>k r. fmlookup regs k = Some r \<Longrightarrow> pr_trade_pubkey r = k"
  shows "\<exists>node. fmlookup wanted (action_key a) = Some node \<and> a \<in> set (plan_wanted wanted regs h refusals now (action_key a))"
  using assms
  by (auto simp: plan_def plan_wanted_def plan_stale_def Let_def fmlookup_dom_iff split: if_splits option.splits)

lemma plan_stale_mem:
  assumes "a \<in> set (plan wanted regs h refusals now)" "fmlookup wanted (action_key a) = None"
    and keys: "\<And>k r. fmlookup regs k = Some r \<Longrightarrow> pr_trade_pubkey r = k"
  shows "\<exists>r. fmlookup regs (action_key a) = Some r \<and> a \<in> set (plan_stale now r)"
proof -
  have "a \<notin> set (plan_wanted wanted regs h refusals now k)" if "fmlookup wanted k \<noteq> None" for k
    using assms(2) that by (auto simp: plan_wanted_def Let_def split: if_splits)
  then obtain k r where r: "fmlookup regs k = Some r" "a \<in> set (plan_stale now r)"
    using assms(1) by (auto simp: plan_def reg_values_def fmlookup_dom_iff)
  moreover have "action_key a = pr_trade_pubkey r"
    using r(2) by (auto simp: plan_stale_def split: if_splits option.splits)
  ultimately show ?thesis using keys by auto
qed

lemma plan_forget:
  assumes ok: "in_step hash app st io" and mem: "Forget k \<in> set (plan wanted (pt_registrations st) h refusals now)"
  shows "\<not> reg_at st k" "Register k node \<notin> set (plan wanted (pt_registrations st) h refusals now)"
proof -
  have keys: "\<And>k r. fmlookup (pt_registrations st) k = Some r \<Longrightarrow> pr_trade_pubkey r = k"
    using in_step_keys [OF ok] .
  have w: "fmlookup wanted k = None"
    using plan_wanted_mem [OF mem _ keys] by (fastforce simp: plan_wanted_def Let_def split: if_splits)
  then show "\<not> reg_at st k"
    using plan_stale_mem [OF mem _ keys] by (auto simp: plan_stale_def reg_at_def split: if_splits option.splits)
  show "Register k node \<notin> set (plan wanted (pt_registrations st) h refusals now)"
    using w plan_wanted_mem [of "Register k node" wanted "pt_registrations st" h refusals now, OF _ _ keys] by auto
qed

lemma actions_agree:
  assumes "in_step hash app st io" "0 < now" "hash token \<noteq> []"
    and "\<And>k. Forget k \<in> set acts \<Longrightarrow> \<not> reg_at st k \<and> (\<forall>node. Register k node \<notin> set acts)"
    and "fold (apply_action token (hash token) platform now) acts (st, rep, io) = (st', rep', io')"
  shows "in_step hash app st' io'"
  using assms
proof (induction acts arbitrary: st rep io)
  case (Cons a acts)
  obtain st1 rep1 io1 where s1: "apply_action token (hash token) platform now a (st, rep, io) = (st1, rep1, io1)"
    by (cases "apply_action token (hash token) platform now a (st, rep, io)")
  have "in_step hash app st1 io1"
    using action_agrees [OF s1 Cons.prems(1,2,3)] Cons.prems(4) by simp
  moreover have "\<not> reg_at st1 k \<and> (\<forall>node. Register k node \<notin> set acts)" if "Forget k \<in> set acts" for k
    using reg_at_action [of token "hash token" platform now a "(st, rep, io)" k] Cons.prems(4) [of k] that s1 by auto
  ultimately show ?case using Cons.IH [of st1 io1 rep1] Cons.prems(2,3,5) s1 by simp
qed simp

lemma release_agrees:
  assumes "in_step hash app st io" "release_key now k (st, rep, io) = (st', rep', io')"
  shows "in_step hash app st' io'"
proof -
  have "agrees hash app st' io' j" if "agrees hash app st io j" for j
    using that assms(2) unregister_agrees [OF _ that, of now k rep]
    by (auto simp: release_key_def agrees_def reg_lookups split: option.splits if_splits)
  then show ?thesis using assms(1) by (simp add: in_step_def)
qed

lemma releases_agree:
  "in_step hash app st io \<Longrightarrow> fold (release_key now) ks (st, rep, io) = (st', rep', io') \<Longrightarrow> in_step hash app st' io'"
proof (induction ks arbitrary: st rep io)
  case (Cons k ks)
  obtain st1 rep1 io1 where "release_key now k (st, rep, io) = (st1, rep1, io1)" by (cases "release_key now k (st, rep, io)")
  then show ?case using Cons release_agrees by fastforce
qed simp

lemma in_step_fields [simp]:
  "in_step hash app (st\<lparr>pt_refusals := x\<rparr>) io = in_step hash app st io"
  "in_step hash app (st\<lparr>pt_enabled := b, pt_token := t, pt_platform := p\<rparr>) io = in_step hash app st io"
  by (simp_all add: in_step_def agrees_def)

lemma reconcile_agrees:
  assumes "in_step hash app st io" "0 < now" "\<And>t. hash t \<noteq> []"
    and "reconcile_core hash wanted now st io = (st', rep, io')"
  shows "in_step hash app st' io'"
proof (cases "\<exists>token platform. (pt_token st, pt_platform st, pt_enabled st) = (Some token, Some platform, True)")
  case True
  then obtain token platform where t: "pt_token st = Some token" "pt_platform st = Some platform" "pt_enabled st" by auto
  obtain st1 rep1 io1 where f: "fold (apply_action token (hash token) platform now)
      (plan wanted (pt_registrations st) (hash token) (pt_refusals st) now) (st, no_report, io) = (st1, rep1, io1)"
    by (cases "fold (apply_action token (hash token) platform now)
      (plan wanted (pt_registrations st) (hash token) (pt_refusals st) now) (st, no_report, io)")
  then have "in_step hash app st1 io1"
    using actions_agree [OF assms(1,2,3) _ f] plan_forget [OF assms(1)] by blast
  then show ?thesis using assms(4) t f by (auto simp: reconcile_core_def)
next
  case False
  then have "reconcile_core hash wanted now st io =
      fold (release_key now) (sorted_list_of_fset (fmdom (pt_registrations st))) (st, no_report, io)"
    by (auto simp: reconcile_core_def split: option.splits bool.splits)
  then show ?thesis using releases_agree [OF assms(1)] assms(4) by metis
qed

section \<open>Histories\<close>

text \<open>
  One reconcile of a history: what was wanted at its clock, the toggle, token and platform then set,
  the answers the server gives, and the refusals the user cleared before it.
\<close>

record pass =
  ps_wanted :: wanted
  ps_now :: i64
  ps_enabled :: bool
  ps_token :: "string option"
  ps_platform :: "push_platform option"
  ps_answers :: "server_outcome list"
  ps_cleared :: "string fset"

definition run_pass :: "(string \<Rightarrow> string) \<Rightarrow> pass \<Rightarrow> push_state \<times> push_io \<Rightarrow> push_state \<times> push_io" where
  "run_pass hash p s = (case s of (st, io) \<Rightarrow>
     (case reconcile_core hash (ps_wanted p) (ps_now p)
         (st\<lparr>pt_enabled := ps_enabled p, pt_token := ps_token p, pt_platform := ps_platform p,
            pt_refusals := fmdrop_fset (ps_cleared p) (pt_refusals st)\<rparr>) (io\<lparr>io_answers := ps_answers p\<rparr>) of
      (st', _, io') \<Rightarrow> (st', io')))"

definition fresh_push :: "push_state \<times> push_io" where
  "fresh_push = (\<lparr>pt_enabled = True, pt_token = None, pt_platform = None, pt_registrations = fmempty, pt_refusals = fmempty\<rparr>,
     \<lparr>io_answers = [], io_log = []\<rparr>)"

lemma server_holds_answers [simp]:
  "server_holds app (io\<lparr>io_answers := a\<rparr>) = server_holds app io" "heard_of app (io\<lparr>io_answers := a\<rparr>) = heard_of app io"
  by (simp_all add: server_holds_def heard_of_def entries_def fun_eq_iff)

lemma in_step_same:
  assumes "in_step hash app st io" "pt_registrations st' = pt_registrations st" "server_holds app io' = server_holds app io"
    "heard_of app io' = heard_of app io"
  shows "in_step hash app st' io'"
  using assms(1) unfolding in_step_def agrees_def assms(2-4) .

lemma run_pass_agrees:
  assumes "in_step hash app (fst s) (snd s)" "0 < ps_now p" "\<And>t. hash t \<noteq> []"
  shows "in_step hash app (fst (run_pass hash p s)) (snd (run_pass hash p s))"
proof -
  obtain st io where s: "s = (st, io)" by fastforce
  let ?st = "st\<lparr>pt_enabled := ps_enabled p, pt_token := ps_token p, pt_platform := ps_platform p,
            pt_refusals := fmdrop_fset (ps_cleared p) (pt_refusals st)\<rparr>"
  have "in_step hash app ?st (io\<lparr>io_answers := ps_answers p\<rparr>)" using assms(1) s by (auto intro: in_step_same)
  then show ?thesis
    using reconcile_agrees [OF _ assms(2,3), where st = ?st and io = "io\<lparr>io_answers := ps_answers p\<rparr>" and wanted = "ps_wanted p"] s
    by (auto simp: run_pass_def split: prod.split)
qed

text \<open>
  C28: Whatever was wanted, toggled and answered over any history of reconciles, and whichever of the requests
  whose answer was lost the server carried out all the same: of every key about which the server did nothing
  unheard since the last request it accepted, the server holds a token exactly when the record says it is
  registered, the recorded hash is that token's, and the node is the one it is filed under. The record is the
  one the reconciles hand on in memory: a failed load or save of it and \<open>unregister_all\<close> are not part of the
  history. The clock is past 1970 and no hash is empty.
\<close>

theorem record_is_what_the_server_holds:
  assumes "\<forall>p \<in> set ps. 0 < ps_now p" and "\<forall>t. hash t \<noteq> []"
    and "fold (run_pass hash) ps fresh_push = (st, io)"
    and "heard_of app io k"
  shows "case fmlookup (pt_registrations st) k of
      None \<Rightarrow> fmlookup (server_holds app io) k = None
    | Some r \<Rightarrow> pr_trade_pubkey r = k \<and>
        (if is_registered r then \<exists>token. fmlookup (server_holds app io) k = Some (token, pr_mostro_pubkey r) \<and> pr_token_hash r = hash token
         else fmlookup (server_holds app io) k = None)"
proof -
  have "in_step hash app (fst (fold (run_pass hash) ps s)) (snd (fold (run_pass hash) ps s))"
    if "in_step hash app (fst s) (snd s)" for s
    using that assms(1)
  proof (induction ps arbitrary: s)
    case (Cons p ps)
    then show ?case using run_pass_agrees [of hash app s p] assms(2) by simp
  qed simp
  moreover have "in_step hash app (fst fresh_push) (snd fresh_push)"
    by (simp add: fresh_push_def in_step_def agrees_def server_holds_def entries_def)
  ultimately have "in_step hash app st io" using assms(3) by (metis fst_conv snd_conv)
  then have "agrees hash app st io k" by (simp add: in_step_def)
  then show ?thesis using assms(4) by (simp add: agrees_def split: option.splits)
qed

section \<open>A pass whose requests are accepted\<close>

definition accepting :: "nat \<Rightarrow> push_io \<Rightarrow> bool" where
  "accepting n io \<longleftrightarrow> n \<le> length (io_answers io) \<and> set (io_answers io) \<subseteq> {Accepted}"

lemma accepting_call: "accepting (Suc n) io \<Longrightarrow> fst (call c io) = Accepted \<and> accepting n (snd (call c io))"
  by (cases "io_answers io") (auto simp: accepting_def call_def Let_def)

lemma accepting_mono: "accepting n io \<Longrightarrow> m \<le> n \<Longrightarrow> accepting m io"
  by (simp add: accepting_def)

text \<open>What an accepted action makes of the record at its key.\<close>

fun effect :: "string \<Rightarrow> i64 \<Rightarrow> push_action \<Rightarrow> push_registration option \<Rightarrow> push_registration option" where
  "effect h now (Register k node) ro =
     Some (note_accepted node h now (case ro of Some r \<Rightarrow> r | None \<Rightarrow> pending k node))"
| "effect h now (Unregister k) ro = None"
| "effect h now (NoteUnwanted k) ro = map_option (\<lambda>r. r\<lparr>pr_unwanted_since := Some now\<rparr>) ro"
| "effect h now (NoteWanted k) ro = map_option (\<lambda>r. r\<lparr>pr_unwanted_since := None\<rparr>) ro"
| "effect h now (Forget k) ro = None"

lemma action_effect:
  assumes "accepting (Suc n) io" "apply_action token h platform now a (st, rep, io) = (st', rep', io')"
  shows "accepting n io' \<and> fmlookup (pt_registrations st') k =
    (if action_key a = k then effect h now a (fmlookup (pt_registrations st) k) else fmlookup (pt_registrations st) k)"
proof (cases a)
  case (Register j node)
  have c: "fst (call (CallRegister j token platform node) io) = Accepted \<and> accepting n (snd (call (CallRegister j token platform node) io))"
    using accepting_call [OF assms(1)] by blast
  then have "io' = snd (call (CallRegister j token platform node) io)"
    "st' = update_reg j (note_accepted node h now) (ensure_reg j node st)"
    using assms(2) Register by (auto simp: apply_action_def register_key_def split_beta)
  then show ?thesis using c Register by (auto simp: reg_lookups split: option.split)
next
  case (Unregister j)
  have c: "fst (call (CallUnregister j) io) = Accepted \<and> accepting n (snd (call (CallUnregister j) io))"
    using accepting_call [OF assms(1)] by blast
  then have "io' = snd (call (CallUnregister j) io)" "st' = forget_reg j st"
    using assms(2) Unregister by (auto simp: apply_action_def unregister_key_def split_beta)
  then show ?thesis using c Unregister by (auto simp: reg_lookups)
qed (use assms accepting_mono [OF assms(1), of n] in \<open>auto simp: apply_action_def reg_lookups\<close>)

lemma actions_effect:
  assumes "accepting (length acts) io" "fold (apply_action token h platform now) acts (st, rep, io) = (st', rep', io')"
  shows "fmlookup (pt_registrations st') k =
    fold (effect h now) (filter (\<lambda>a. action_key a = k) acts) (fmlookup (pt_registrations st) k)"
  using assms
proof (induction acts arbitrary: st rep io)
  case (Cons a acts)
  obtain st1 rep1 io1 where s1: "apply_action token h platform now a (st, rep, io) = (st1, rep1, io1)"
    by (cases "apply_action token h platform now a (st, rep, io)")
  have "accepting (length acts) io1 \<and> fmlookup (pt_registrations st1) k =
      (if action_key a = k then effect h now a (fmlookup (pt_registrations st) k) else fmlookup (pt_registrations st) k)"
    using action_effect [OF _ s1] Cons.prems(1) by simp
  then show ?case using Cons.IH [of io1 st1 rep1] Cons.prems(2) s1 by simp
qed simp

text \<open>The actions of a plan about one key, read off the rules.\<close>

lemma filter_keyed:
  assumes "distinct (map g xs)" "\<And>x a. x \<in> set xs \<Longrightarrow> a \<in> set (f x) \<Longrightarrow> action_key a = g x"
  shows "filter (\<lambda>a. action_key a = k) (concat (map f xs)) = (case find (\<lambda>x. g x = k) xs of Some x \<Rightarrow> f x | None \<Rightarrow> [])"
  using assms
proof (induction xs)
  case (Cons x xs)
  have a: "action_key a = g x" if "a \<in> set (f x)" for a using Cons.prems(2) that by simp
  have x: "filter (\<lambda>a. action_key a = k) (f x) = (if g x = k then f x else [])"
    by (auto simp: filter_id_conv filter_empty_conv a)
  have "find (\<lambda>y. g y = k) xs = None" if "g x = k"
  proof -
    have "k \<notin> g ` set xs" using Cons.prems(1) that by simp
    then show ?thesis unfolding find_None_iff by blast
  qed
  then show ?case using Cons x by (auto split: option.split)
qed simp

lemma find_unique: "distinct (map g xs) \<Longrightarrow> x \<in> set xs \<Longrightarrow> g x = k \<Longrightarrow> find (\<lambda>y. g y = k) xs = Some x"
  by (induction xs) auto

lemma plan_at:
  assumes keys: "\<And>k r. fmlookup regs k = Some r \<Longrightarrow> pr_trade_pubkey r = k"
  shows "filter (\<lambda>a. action_key a = k) (plan wanted regs h refusals now) =
    (if fmlookup wanted k \<noteq> None then plan_wanted wanted regs h refusals now k
     else (case fmlookup regs k of Some r \<Rightarrow> plan_stale now r | None \<Rightarrow> []))"
proof -
  let ?vals = "sort_key pr_trade_pubkey (filter (\<lambda>r. fmlookup wanted (pr_trade_pubkey r) = None) (reg_values regs))"
  have mem: "r \<in> set (reg_values regs) \<longleftrightarrow> fmlookup regs (pr_trade_pubkey r) = Some r" for r
  proof
    assume "r \<in> set (reg_values regs)"
    then obtain j where "fmlookup regs j = Some r" by (auto simp: reg_values_def fmlookup_dom_iff)
    then show "fmlookup regs (pr_trade_pubkey r) = Some r" using keys by metis
  next
    assume "fmlookup regs (pr_trade_pubkey r) = Some r"
    then show "r \<in> set (reg_values regs)"
      unfolding reg_values_def by (auto intro!: image_eqI [of _ _ "pr_trade_pubkey r"] simp: fmdomI)
  qed
  have "map pr_trade_pubkey (reg_values regs) = sorted_list_of_fset (fmdom regs)"
    unfolding reg_values_def map_map by (rule map_idI) (use keys in \<open>auto simp: fmlookup_dom_iff\<close>)
  then have "distinct (map pr_trade_pubkey (reg_values regs))" by (simp add: sorted_list_of_fset.rep_eq)
  then have "distinct (map pr_trade_pubkey (filter (\<lambda>r. fmlookup wanted (pr_trade_pubkey r) = None) (reg_values regs)))"
    by (rule distinct_map_filter)
  then have d: "distinct (map pr_trade_pubkey ?vals)"
    by (auto simp: distinct_map inj_on_def)
  have stale: "filter (\<lambda>a. action_key a = k) (concat (map (plan_stale now) ?vals)) =
      (if fmlookup wanted k \<noteq> None then [] else (case fmlookup regs k of Some r \<Rightarrow> plan_stale now r | None \<Rightarrow> []))"
  proof (cases "fmlookup wanted k = None \<and> fmlookup regs k \<noteq> None")
    case True
    then obtain r where r: "fmlookup regs k = Some r" by blast
    have k: "pr_trade_pubkey r = k" by (rule keys [OF r])
    then have "r \<in> set ?vals" using True r by (simp add: mem)
    then show ?thesis
      using True r k find_unique [OF d, of r k]
      by (subst filter_keyed [OF d]) (auto simp: plan_stale_def split: if_splits option.splits)
  next
    case False
    then have "find (\<lambda>r. pr_trade_pubkey r = k) ?vals = None" by (auto simp: find_None_iff mem)
    then show ?thesis
      using False by (subst filter_keyed [OF d]) (auto simp: plan_stale_def split: if_splits option.splits)
  qed
  have "filter (\<lambda>a. action_key a = k)
      (concat (map (plan_wanted wanted regs h refusals now) (sorted_list_of_fset (fmdom wanted)))) =
      (if fmlookup wanted k \<noteq> None then plan_wanted wanted regs h refusals now k else [])"
  proof (cases "fmlookup wanted k")
    case None
    then have "find (\<lambda>x. x = k) (sorted_list_of_fset (fmdom wanted)) = None" by (auto simp: find_None_iff fmlookup_dom_iff)
    then show ?thesis
      using None by (subst filter_keyed [where g = "\<lambda>x. x"]) (auto simp: sorted_list_of_fset.rep_eq plan_wanted_def Let_def split: if_splits)
  next
    case (Some node)
    then have "find (\<lambda>x. x = k) (sorted_list_of_fset (fmdom wanted)) = Some k"
      by (intro find_unique) (auto simp: fmdomI sorted_list_of_fset.rep_eq)
    then show ?thesis
      using Some by (subst filter_keyed [where g = "\<lambda>x. x"]) (auto simp: sorted_list_of_fset.rep_eq plan_wanted_def Let_def split: if_splits)
  qed
  then show ?thesis using stale by (simp add: plan_def)
qed

text \<open>The record and the server after an accepted pass, key by key.\<close>

definition settled_key :: "wanted \<Rightarrow> string \<Rightarrow> i64 \<Rightarrow> push_state \<Rightarrow> push_state \<Rightarrow> string \<Rightarrow> bool" where
  "settled_key wanted h now st st' k \<longleftrightarrow> (case fmlookup wanted k of
      Some node \<Rightarrow> (\<exists>r. fmlookup (pt_registrations st') k = Some r \<and> is_registered r \<and> pr_token_hash r = h \<and>
        pr_mostro_pubkey r = node \<and> pr_unwanted_since r = None \<and> pr_registered_at r \<le> now \<and>
        now - pr_registered_at r < refresh_secs)
    | None \<Rightarrow> fmlookup (pt_registrations st') k = (case fmlookup (pt_registrations st) k of
          None \<Rightarrow> None
        | Some r \<Rightarrow> if \<not> is_registered r then None
            else (case pr_unwanted_since r of
                None \<Rightarrow> Some (r\<lparr>pr_unwanted_since := Some now\<rparr>)
              | Some since \<Rightarrow> if now - since > grace_secs then None else Some r)))"

lemma note_unwanted_kept [simp]:
  "pr_registered_at (r\<lparr>pr_unwanted_since := u\<rparr>) = pr_registered_at r" "pr_attempts (r\<lparr>pr_unwanted_since := u\<rparr>) = pr_attempts r"
  by simp_all

lemma registered_accepted: "0 < now \<Longrightarrow> h \<noteq> [] \<Longrightarrow> is_registered (note_accepted node h now r)"
  by (simp add: is_registered_def)

text \<open>
  A pass with push on, whose requests are accepted, while no wanted node is refused and nothing is
  backing off, brings everything in step at once: every wanted key is registered with the present
  token under its own node, freshly enough not to lapse, and its grace clock is cleared; a key that
  is no longer wanted starts its clock, keeps its registration for the grace period and is released
  after it; a record the server never accepted is dropped.
\<close>

theorem accepted_pass_converges:
  assumes ok: "in_step hash app st io" and on: "pt_enabled st" "pt_token st = Some token" "pt_platform st = Some platform"
    and now: "0 < now" and h: "hash token \<noteq> []"
    and acc: "accepting (length (plan wanted (pt_registrations st) (hash token) (pt_refusals st) now)) io"
    and refused: "\<forall>k node. fmlookup wanted k = Some node \<longrightarrow> \<not> node_refused node (pt_refusals st) now"
    and idle: "\<forall>k r. fmlookup (pt_registrations st) k = Some r \<longrightarrow> \<not> backing_off r now"
    and run: "reconcile_core hash wanted now st io = (st', rep, io')"
  shows "settled_key wanted (hash token) now st st' k"
proof -
  let ?regs = "pt_registrations st" and ?h = "hash token"
  let ?acts = "plan wanted ?regs ?h (pt_refusals st) now"
  have keys: "\<And>k r. fmlookup ?regs k = Some r \<Longrightarrow> pr_trade_pubkey r = k"
    using in_step_keys [OF ok] .
  obtain st1 rep1 io1 where f: "fold (apply_action token ?h platform now) ?acts (st, no_report, io) = (st1, rep1, io1)"
    by (cases "fold (apply_action token ?h platform now) ?acts (st, no_report, io)")
  have st': "pt_registrations st' = pt_registrations st1" using run on f by (auto simp: reconcile_core_def)
  have k: "fmlookup (pt_registrations st') k = fold (effect ?h now)
      (if fmlookup wanted k \<noteq> None then plan_wanted wanted ?regs ?h (pt_refusals st) now k
       else (case fmlookup ?regs k of Some r \<Rightarrow> plan_stale now r | None \<Rightarrow> [])) (fmlookup ?regs k)"
    unfolding st' using actions_effect [OF acc f, of k] plan_at [OF keys, where k = k and wanted = wanted] by simp
  show ?thesis
  proof (cases "fmlookup wanted k")
    case (Some node)
    have "\<not> node_refused node (pt_refusals st) now" using refused Some by blast
    moreover have "\<not> backing_off r now" if "fmlookup ?regs k = Some r" for r using idle that by blast
    ultimately show ?thesis
      using k Some registered_accepted [OF now h]
      by (cases "fmlookup ?regs k")
        (auto simp: settled_key_def plan_wanted_def Let_def due_def refresh_secs_def)
  next
    case None
    have "\<not> backing_off r now" if "fmlookup ?regs k = Some r" for r using idle that by blast
    then show ?thesis
      using k None by (cases "fmlookup ?regs k") (auto simp: settled_key_def plan_stale_def split: option.splits)
  qed
qed

lemma release_effect:
  assumes "accepting (Suc n) io" "release_key now k (st, rep, io) = (st', rep', io')"
  shows "accepting n io' \<and> fmlookup (pt_registrations st') j = (if j = k then None else fmlookup (pt_registrations st) j)"
proof -
  have c: "fst (call (CallUnregister k) io) = Accepted \<and> accepting n (snd (call (CallUnregister k) io))"
    using accepting_call [OF assms(1)] by blast
  then show ?thesis
    using assms(2) accepting_mono [OF assms(1), of n]
    by (auto simp: release_key_def unregister_key_def split_beta reg_lookups split: option.splits if_splits)
qed

lemma releases_effect:
  assumes "accepting (length ks) io" "fold (release_key now) ks (st, rep, io) = (st', rep', io')"
  shows "fmlookup (pt_registrations st') j = (if j \<in> set ks then None else fmlookup (pt_registrations st) j)"
  using assms
proof (induction ks arbitrary: st rep io)
  case (Cons k ks)
  obtain st1 rep1 io1 where s1: "release_key now k (st, rep, io) = (st1, rep1, io1)" by (cases "release_key now k (st, rep, io)")
  have "accepting (length ks) io1" "fmlookup (pt_registrations st1) j = (if j = k then None else fmlookup (pt_registrations st) j)" for j
    using release_effect [OF _ s1] Cons.prems(1) by simp_all
  then show ?case using Cons.IH [of io1 st1 rep1] Cons.prems(2) s1 by auto
qed simp

text \<open>
  An opt-out is complete: with push off, or without a token, one pass whose requests are accepted
  leaves nothing recorded and, of the keys about which no answer was lost, nothing held by the server,
  whichever earlier run registered it.
\<close>

theorem opt_out_is_complete:
  assumes ok: "in_step hash app st io" and off: "\<not> pt_enabled st \<or> pt_token st = None"
    and acc: "accepting (fmlen (pt_registrations st)) io"
    and now: "0 < now" "\<forall>t. hash t \<noteq> []"
    and run: "reconcile_core hash wanted now st io = (st', rep, io')"
  shows "fmlookup (pt_registrations st') k = None \<and> (heard_of app io' k \<longrightarrow> fmlookup (server_holds app io') k = None)"
proof -
  let ?ks = "sorted_list_of_fset (fmdom (pt_registrations st))"
  have "reconcile_core hash wanted now st io = fold (release_key now) ?ks (st, no_report, io)"
    using off by (auto simp: reconcile_core_def split: option.split bool.split)
  moreover have "length ?ks = fmlen (pt_registrations st)"
    by (simp add: fmlen_def sorted_list_of_fset.rep_eq fcard.rep_eq)
  ultimately have none: "fmlookup (pt_registrations st') k = None"
    using releases_effect [of ?ks io now st no_report st' rep io' k] acc run by (auto simp: fmlookup_dom_iff)
  have "in_step hash app st' io'" using reconcile_agrees [OF ok now(1) _ run] now(2) by blast
  then have "agrees hash app st' io' k" by (simp add: in_step_def)
  then show ?thesis using none by (simp add: agrees_def)
qed

section \<open>No change is missed\<close>

definition idle_gate :: push_gate where
  "idle_gate = \<lparr>pg_dirty = False, pg_scheduled = False, pg_waiting = 0, pg_running = False, pg_changes = 0, pg_read = 0\<rparr>"

definition gate_ok :: "push_gate \<Rightarrow> bool" where
  "gate_ok g \<longleftrightarrow> pg_read g = pg_changes g \<or> pg_scheduled g \<or> 0 < pg_waiting g \<or> pg_running g \<and> pg_dirty g"

text \<open>
  Requests ride along with a window already open and passes never overlap, yet no change is missed:
  whenever no window is open, no pass waits and none runs, the last pass started after the last change.
\<close>

theorem no_change_is_missed:
  "let g = fold gate_step es idle_gate in
     pg_scheduled g \<or> 0 < pg_waiting g \<or> pg_running g \<or> pg_read g = pg_changes g"
proof -
  have "gate_ok (gate_step e g)" if "gate_ok g" for e g
    using that by (cases e) (auto simp: gate_ok_def gate_step_def request_reconcile_def)
  then have "gate_ok (fold gate_step es g)" if "gate_ok g" for g
    using that by (induction es arbitrary: g) simp_all
  moreover have "gate_ok idle_gate" by (simp add: gate_ok_def idle_gate_def)
  ultimately show ?thesis unfolding Let_def gate_ok_def by metis
qed

section \<open>A peer is woken once per window\<close>

text \<open>The clock readings at which a peer was rung, over a list of wakes with their clock readings.\<close>

fun rung_at :: "string \<Rightarrow> (string \<times> i64) list \<Rightarrow> (string, i64) fmap \<times> push_io \<Rightarrow> i64 list" where
  "rung_at peer [] s = []"
| "rung_at peer ((p, now) # ws) s = (case notify_peer p now s of (out, s') \<Rightarrow>
     (if to_ascii_lowercase p = peer \<and> (out = Sent \<or> out = NotDelivered) then [now] else []) @ rung_at peer ws s')"

lemma notify_memory:
  assumes "notify_peer p now (last_at, io) = (out, last_at', io')"
  shows "out = Sent \<or> out = NotDelivered \<Longrightarrow> notify_allowed (fmlookup last_at (to_ascii_lowercase p)) now \<and>
      fmlookup last_at' (to_ascii_lowercase p) = Some now"
    and "\<not> (to_ascii_lowercase p = q \<and> (out = Sent \<or> out = NotDelivered)) \<Longrightarrow>
      fmlookup last_at' q = fmlookup last_at q \<or> fmlookup last_at' q = None \<and> (\<exists>t. fmlookup last_at q = Some t \<and> now - t \<ge> 3600)"
  using assms
  by (auto simp: notify_peer_def Let_def split_beta opt_filter_def split: if_splits option.splits)

text \<open>
  Over any sequence of chat messages with a clock that does not run backwards, two rings of one peer
  are at least ten seconds apart, although the memory of old rings is pruned.
\<close>

theorem peer_is_woken_once_per_window:
  assumes "sorted (map snd ws)"
  shows "sorted_wrt (\<lambda>s t. s + 10 \<le> t) (rung_at peer ws (fmempty, io))"
proof -
  have "sorted_wrt (\<lambda>s t. s + 10 \<le> t) (rung_at peer ws (last_at, io)) \<and>
      (\<forall>t \<in> set (rung_at peer ws (last_at, io)). t \<in> snd ` set ws \<and> (\<forall>l. prev = Some l \<longrightarrow> l + 10 \<le> t))"
    if "sorted (map snd ws)" "\<forall>l. prev = Some l \<longrightarrow> (\<forall>w \<in> set ws. l \<le> snd w) \<and>
      (fmlookup last_at peer = Some l \<or> fmlookup last_at peer = None \<and> (\<forall>w \<in> set ws. l + 3600 \<le> snd w))" for prev last_at io
    using that
  proof (induction ws arbitrary: last_at io prev)
    case (Cons w ws)
    obtain p now where w: "w = (p, now)" by fastforce
    obtain out last_at' io' where n: "notify_peer p now (last_at, io) = (out, last_at', io')"
      by (cases "notify_peer p now (last_at, io)")
    show ?case
    proof (cases "to_ascii_lowercase p = peer \<and> (out = Sent \<or> out = NotDelivered)")
      case True
      then have m: "notify_allowed (fmlookup last_at peer) now" "fmlookup last_at' peer = Some now"
        using notify_memory(1) [OF n] by auto
      have "sorted_wrt (\<lambda>s t. s + 10 \<le> t) (rung_at peer ws (last_at', io')) \<and>
          (\<forall>t \<in> set (rung_at peer ws (last_at', io')). t \<in> snd ` set ws \<and> (\<forall>l. Some now = Some l \<longrightarrow> l + 10 \<le> t))"
        by (rule Cons.IH) (use Cons.prems(1) m(2) w in auto)
      moreover have "\<forall>l. prev = Some l \<longrightarrow> l + 10 \<le> now"
        using Cons.prems(2) m(1) w by (auto simp: notify_allowed_def notify_debounce_secs_def)
      ultimately show ?thesis
        using n True w by (fastforce split: prod.splits)
    next
      case False
      have "sorted_wrt (\<lambda>s t. s + 10 \<le> t) (rung_at peer ws (last_at', io')) \<and>
          (\<forall>t \<in> set (rung_at peer ws (last_at', io')). t \<in> snd ` set ws \<and> (\<forall>l. prev = Some l \<longrightarrow> l + 10 \<le> t))"
      proof (rule Cons.IH)
        show "sorted (map snd ws)" using Cons.prems(1) by simp
        show "\<forall>l. prev = Some l \<longrightarrow> (\<forall>w \<in> set ws. l \<le> snd w) \<and>
            (fmlookup last_at' peer = Some l \<or> fmlookup last_at' peer = None \<and> (\<forall>w \<in> set ws. l + 3600 \<le> snd w))"
          using Cons.prems notify_memory(2) [OF n False] w by fastforce
      qed
      then show ?thesis using n False w by (auto split: prod.splits)
    qed
  qed simp
  from this [of None fmempty io] show ?thesis using assms by simp
qed

section \<open>Concrete runs\<close>

lemma plan_wanted_code [code]:
  "plan_wanted wanted regs token_hash refusals now pubkey =
     (let node = the (fmlookup wanted pubkey); reg = fmlookup regs pubkey in
      (if (case reg of Some r \<Rightarrow> \<not> Option.is_none (pr_unwanted_since r) | None \<Rightarrow> False) then [NoteWanted pubkey] else []) @
      (if node_refused node refusals now then []
       else if due node token_hash reg now \<and> \<not> (case reg of Some r \<Rightarrow> backing_off r now | None \<Rightarrow> False)
       then [Register pubkey node] else []))"
  by (simp add: plan_wanted_def Let_def Option.is_none_def split: option.split)

text \<open>The answer to the first registration is lost, the second one is accepted.\<close>

definition lost_pass :: pass where
  "lost_pass = \<lparr>ps_wanted = fmupd ''k'' ''node'' fmempty, ps_now = 100, ps_enabled = True, ps_token = Some ''t'',
     ps_platform = Some Ios, ps_answers = [Failed ''timeout''], ps_cleared = {||}\<rparr>"

definition sample_passes :: "pass list" where
  "sample_passes = [lost_pass, lost_pass\<lparr>ps_now := 200, ps_answers := [Accepted]\<rparr>]"

definition sample_hash :: "string \<Rightarrow> string" where "sample_hash t = CHR ''h'' # t"

lemma sample_heard: "heard_of (\<lambda>i. i = 0) (snd (fold (run_pass sample_hash) sample_passes fresh_push)) ''k''"
  by code_simp

theorem record_is_what_the_server_holds_witness:
  "case fold (run_pass sample_hash) sample_passes fresh_push of (st, io) \<Rightarrow>
     case fmlookup (pt_registrations st) ''k'' of None \<Rightarrow> fmlookup (server_holds (\<lambda>i. i = 0) io) ''k'' = None
     | Some r \<Rightarrow> is_registered r \<or> fmlookup (server_holds (\<lambda>i. i = 0) io) ''k'' = None"
proof -
  obtain st io where r: "fold (run_pass sample_hash) sample_passes fresh_push = (st, io)" by fastforce
  have h: "heard_of (\<lambda>i. i = 0) io ''k''" using sample_heard unfolding r by simp
  show ?thesis
    using record_is_what_the_server_holds [OF _ _ r h] r
    by (auto simp: sample_passes_def lost_pass_def sample_hash_def split: option.splits if_splits)
qed

text \<open>
  The other side of a lost answer: the server carried out the registration, the record says it never did, and
  after an opt-out the key is forgotten without an unregister.
\<close>

lemma lost_answer_leaves_a_token:
  "case fold (run_pass sample_hash) [lost_pass, lost_pass\<lparr>ps_now := 200, ps_enabled := False\<rparr>] fresh_push of (st, io) \<Rightarrow>
     fmlookup (pt_registrations st) ''k'' = None \<and> fmlookup (server_holds (\<lambda>i. i = 0) io) ''k'' = Some (''t'', ''node'')"
  by code_simp

definition sample_push :: push_state where
  "sample_push = \<lparr>pt_enabled = True, pt_token = Some ''t'', pt_platform = Some Web,
     pt_registrations = fmupd ''k'' (note_accepted ''node'' ''ht'' 5 (pending ''k'' ''node'')) fmempty, pt_refusals = fmempty\<rparr>"

definition sample_io :: "nat \<Rightarrow> push_io" where
  "sample_io n = \<lparr>io_answers = replicate n Accepted, io_log = [(CallRegister ''k'' ''t'' Web ''node'', Accepted)]\<rparr>"

lemma sample_in_step: "in_step (\<lambda>t. CHR ''h'' # t) app sample_push (sample_io n)"
  by (simp add: in_step_def agrees_def sample_push_def sample_io_def server_holds_def
      entries_def server_step_def carried_out_def registered_accepted)

lemma sample_accepting: "accepting n (sample_io n)"
  by (auto simp: accepting_def sample_io_def)

theorem accepted_pass_converges_witness:
  "let n = length (plan (fmupd ''q'' ''node'' fmempty) (pt_registrations sample_push) ''ht'' fmempty 100);
       st' = fst (reconcile_core (\<lambda>t. CHR ''h'' # t) (fmupd ''q'' ''node'' fmempty) 100 sample_push (sample_io n))
   in (\<exists>r. fmlookup (pt_registrations st') ''q'' = Some r \<and> is_registered r \<and> pr_token_hash r = ''ht'') \<and>
      fmlookup (pt_registrations st') ''k'' \<noteq> None"
proof -
  let ?h = "\<lambda>t. CHR ''h'' # t" and ?w = "fmupd ''q'' ''node'' fmempty"
  let ?io = "sample_io (length (plan ?w (pt_registrations sample_push) ''ht'' fmempty 100))"
  obtain st' rep io' where r: "reconcile_core ?h ?w 100 sample_push ?io = (st', rep, io')"
    by (cases "reconcile_core ?h ?w 100 sample_push ?io")
  have "settled_key ?w (?h ''t'') 100 sample_push st' j" for j
    by (rule accepted_pass_converges [OF sample_in_step, where token = "''t''" and platform = Web])
      (use r sample_accepting in \<open>auto simp: sample_push_def node_refused_def backing_off_def\<close>)
  from this [of "''q''"] this [of "''k''"] show ?thesis
    using r by (auto simp: settled_key_def sample_push_def registered_accepted)
qed

theorem opt_out_is_complete_witness:
  "fmlookup (pt_registrations (fst (reconcile_core (\<lambda>t. CHR ''h'' # t) fmempty 100 (sample_push\<lparr>pt_enabled := False\<rparr>)
     (sample_io (fmlen (pt_registrations sample_push)))))) ''k'' = None"
proof -
  let ?h = "\<lambda>t. CHR ''h'' # t" and ?st = "sample_push\<lparr>pt_enabled := False\<rparr>"
  let ?io = "sample_io (fmlen (pt_registrations sample_push))"
  obtain st' rep io' where r: "reconcile_core ?h fmempty 100 ?st ?io = (st', rep, io')"
    by (cases "reconcile_core ?h fmempty 100 ?st ?io")
  have "in_step ?h (\<lambda>_. False) ?st ?io" by (rule in_step_same [OF sample_in_step]) simp_all
  from opt_out_is_complete [OF this _ _ _ _ r, of "''k''"] show ?thesis
    using r sample_accepting by simp
qed

theorem peer_is_woken_once_per_window_witness:
  "sorted_wrt (\<lambda>s t. s + 10 \<le> t) (rung_at (replicate 64 CHR ''a'')
     [(replicate 64 CHR ''a'', 5), (replicate 64 CHR ''a'', 9), (replicate 64 CHR ''a'', 15)] (fmempty, sample_io 2))"
  by (rule peer_is_woken_once_per_window) simp

text \<open>
  A 400 is retried on its own: once its backoff has passed, the next plan asks for the key again.
\<close>

lemma bad_request_is_retried:
  assumes "fmlookup regs k = Some (note_failed now None r)" "fmlookup wanted k = Some node" "0 \<le> now" "now + 7200 \<le> i64_max"
    and "\<not> node_refused node refusals (now + 7200)"
  shows "Register k node \<in> set (plan_wanted wanted regs h refusals (now + 7200) k)"
proof -
  have "0 < pr_attempts (note_failed now None r)"
    by (auto simp: note_failed_def Let_def u32_max_def word_gt_0) (metis add.commute minus_add_cancel add_uminus_conv_diff add_eq_0_iff)
  moreover have "i64_saturating_add now (backoff_secs n) \<le> now + 7200" for n
  proof -
    have "backoff_secs n \<le> 7200" by (simp add: backoff_secs_def Let_def)
    then show ?thesis using assms(3) by (auto simp: i64_sat_defs)
  qed
  then have "pr_next_attempt_at (note_failed now None r) \<le> now + 7200" by (simp add: note_failed_def Let_def)
  ultimately show ?thesis
    using assms by (auto simp: plan_wanted_def Let_def due_def backing_off_def)
qed

end
