(* ===== verification/Sweep.thy ===== *)
theory Sweep
  imports Public_Orders
begin

text \<open>
  What settles a trade without a daemon message (\<open>api/orders.rs\<close>): the stale sweep, the bounded check
  of a payout, and the filing of the history a restore replayed. All of them ask the daemon's public
  view, so each awaits the relays between what it read and what it writes; a \<open>lookup\<close> holds the answer
  together with what happened to the world before and during it.
\<close>

section \<open>The public status of one order\<close>

record lookup =
  lk_before :: "world \<Rightarrow> world"
  lk_during :: "world \<Rightarrow> world"
  lk_answer :: "order_status option"

text \<open>The answer of \<open>fetch_public_order_status\<close>, from what the relays returned (\<open>None\<close> when they failed).\<close>

definition fetch_public_order_status ::
  "(string \<Rightarrow> json option) \<Rightarrow> order_event list option \<Rightarrow> string \<Rightarrow> string \<Rightarrow> order_status option" where
  "fetch_public_order_status from_str fetched node order_id =
     Option.bind fetched (\<lambda>events. newest_book_status from_str events node order_id)"

section \<open>The payout of a settled trade\<close>

definition apply_payout_completed :: "string \<Rightarrow> world \<Rightarrow> world" where
  "apply_payout_completed order_id w =
     (if local_trade_status order_id w \<noteq> Some SettledHoldInvoice then w
      else (let w1 = on_book (update_order_status order_id Success) w in
        if has_db w1
        then (case db_write CUpdateFields (update_trade_fields order_id (Some Success) None None) w1 of
            (Inl _, w2) \<Rightarrow> w2
          | (Inr _, w2) \<Rightarrow> emit_trade_update order_id Success w2)
        else emit_trade_update order_id Success w1))"

definition payout_attempts :: nat where "payout_attempts = 12"

text \<open>The lookups made and the world left; \<open>obs k\<close> is the lookup of the \<open>k\<close>-th attempt still to come.\<close>

fun confirm_payout_loop :: "nat \<Rightarrow> string \<Rightarrow> (nat \<Rightarrow> lookup) \<Rightarrow> world \<Rightarrow> nat \<times> world" where
  "confirm_payout_loop 0 order_id obs w = (0, w)"
| "confirm_payout_loop (Suc n) order_id obs w =
     (let w1 = lk_before (obs 0) w in
      if local_trade_status order_id w1 \<noteq> Some SettledHoldInvoice then (0, w1)
      else (let w2 = lk_during (obs 0) w1 in
        if lk_answer (obs 0) = Some Success then (1, apply_payout_completed order_id w2)
        else (let (k, w3) = confirm_payout_loop n order_id (\<lambda>j. obs (Suc j)) w2 in (k + 1, w3))))"

definition confirm_payout_completion :: "string \<Rightarrow> (nat \<Rightarrow> lookup) \<Rightarrow> world \<Rightarrow> nat \<times> world" where
  "confirm_payout_completion = confirm_payout_loop payout_attempts"

section \<open>The history a restore replayed\<close>

definition snapshot_key :: string where "snapshot_key = ''restore_snapshot''"

definition history_step ::
  "restore_snapshot \<Rightarrow> (string \<Rightarrow> lookup) \<Rightarrow> trade_info \<Rightarrow> string fset \<times> world \<Rightarrow> string fset \<times> world" where
  "history_step snapshot public trade s = (case s of (looked_up, w) \<Rightarrow>
     (let oid = order_of trade in
      if \<not> reads_in_progress (oi_status (ti_order trade)) \<or> \<not> is_history snapshot oid (ti_trade_key_index trade)
      then (looked_up, w)
      else (finsert oid looked_up,
        (let w1 = lk_during (public oid) (lk_before (public oid) w) in
         case decide_history (lk_answer (public oid)) of
           MarkSuccess \<Rightarrow> (case db_write CUpdateFields (update_trade_fields oid (Some Success) None None) w1 of
               (Inl _, w2) \<Rightarrow> w2
             | (Inr _, w2) \<Rightarrow> touch oid (on_book (update_order_status oid Success) w2))
         | Wipe \<Rightarrow> snd (wipe_never_active_trade oid False (w_now w1) (ti_trade_key_index trade) w1)
         | Retry \<Rightarrow> w1))))"

definition reconcile_history_with ::
  "restore_snapshot \<Rightarrow> (string \<Rightarrow> lookup) \<Rightarrow> world \<Rightarrow> string fset \<times> world" where
  "reconcile_history_with snapshot public w = (case db_read CListTrades list_trades w of
      Inl _ \<Rightarrow> ({||}, w)
    | Inr trades \<Rightarrow> fold (history_step snapshot public) trades ({||}, w))"

definition reconcile_restored_history ::
  "(string \<Rightarrow> restore_snapshot option) \<Rightarrow> (string \<Rightarrow> lookup) \<Rightarrow> world \<Rightarrow> string fset \<times> world" where
  "reconcile_restored_history of_json public w = (case read_setting snapshot_key w of
      Inr (Some json) \<Rightarrow> (case of_json json of
          Some snapshot \<Rightarrow> reconcile_history_with snapshot public w
        | None \<Rightarrow> ({||}, w))
    | _ \<Rightarrow> ({||}, w))"

definition restore_history_pass_delays_secs :: "nat list" where
  "restore_history_pass_delays_secs = [15, 45]"

text \<open>The delays of the passes it spawns, none when the snapshot was not stored.\<close>

definition record_restore_snapshot ::
  "(restore_snapshot \<Rightarrow> string option) \<Rightarrow> u32 \<Rightarrow> restore_session_info \<Rightarrow> world \<Rightarrow> nat list \<times> world" where
  "record_restore_snapshot to_json index_floor info w =
     (let snapshot = \<lparr>rs_floor = index_floor, rs_live = fset_of_list
            (map ro_order_id (rsi_orders info) @ map rd_order_id (rsi_disputes info))\<rparr> in
      case to_json snapshot of
        None \<Rightarrow> ([], w)
      | Some json \<Rightarrow> (case db_write (CSetSetting snapshot_key) (set_setting snapshot_key json) w of
            (Inl _, w1) \<Rightarrow> ([], w1)
          | (Inr _, w1) \<Rightarrow> (restore_history_pass_delays_secs, w1)))"

section \<open>The stale sweep\<close>

definition sweep_min_age_secs :: i64 where "sweep_min_age_secs = 900"
definition sweep_session_ttl_secs :: i64 where "sweep_session_ttl_secs = 24 * 3600"

datatype sweep_action = SweepWipe | SyncPending | SyncSuccess | Keep

definition sweep_action :: "bool \<Rightarrow> order_status \<Rightarrow> order_status option \<Rightarrow> sweep_action" where
  "sweep_action is_mine local book =
     (if local = SettledHoldInvoice then (if book = Some Success then SyncSuccess else Keep)
      else if book = Some Pending then (if is_mine then SyncPending else SweepWipe)
      else if book \<in> {Some Canceled, Some Expired, Some CanceledByAdmin} then SweepWipe
      else Keep)"

definition sweep_deadline :: "trade_info \<Rightarrow> i64" where
  "sweep_deadline t = (case ti_timeout_at t of Some d \<Rightarrow> d | None \<Rightarrow> i64_wrap (ti_started_at t + sweep_min_age_secs))"

definition sweep_due :: "string fset \<Rightarrow> i64 \<Rightarrow> trade_info \<Rightarrow> bool" where
  "sweep_due looked_up now t \<longleftrightarrow> order_of t |\<notin>| looked_up \<and>
     (oi_status (ti_order t) = SettledHoldInvoice \<or>
      oi_status (ti_order t) \<in> {WaitingBuyerInvoice, WaitingPayment} \<and> now > sweep_deadline t)"

definition apply_sweep :: "trade_info \<Rightarrow> sweep_action \<Rightarrow> world \<Rightarrow> world" where
  "apply_sweep t a w = (let oid = order_of t in case a of
      SyncSuccess \<Rightarrow> apply_payout_completed oid w
    | SweepWipe \<Rightarrow> (case wipe_never_active_trade oid (\<not> oi_is_mine (ti_order t)) (w_now w) (ti_trade_key_index t) w of
          (Inr _, w1) \<Rightarrow> emit_trade_update oid Canceled w1
        | (Inl _, w1) \<Rightarrow> w1)
    | SyncPending \<Rightarrow> (case db_write CUpdateFields (update_trade_fields oid (Some Pending) None None) w of
          (Inr _, w1) \<Rightarrow> emit_trade_update oid Pending w1
        | (Inl _, w1) \<Rightarrow> w1)
    | Keep \<Rightarrow> w)"

text \<open>One row of the list: \<open>t\<close> as it was listed, \<open>w\<close> the world when its turn comes.\<close>

definition sweep_trade :: "string fset \<Rightarrow> i64 \<Rightarrow> (string \<Rightarrow> lookup) \<Rightarrow> trade_info \<Rightarrow> world \<Rightarrow> world" where
  "sweep_trade looked_up now public t w =
     (let oid = order_of t; status = oi_status (ti_order t); w0 = lk_before (public oid) w in
      if status \<in> {WaitingTakerBond, WaitingMakerBond} then snd (close_expired_bond_trade t now w0)
      else if \<not> sweep_due looked_up now t then w0
      else (let (book_status, w1) = (case book_order oid w0 of
                Some ord \<Rightarrow> (Some (oi_status ord), w0)
              | None \<Rightarrow> (lk_answer (public oid), lk_during (public oid) w0))
            in apply_sweep t (sweep_action (oi_is_mine (ti_order t)) status book_status) w1))"

definition run_stale_sweep_once ::
  "(string \<Rightarrow> restore_snapshot option) \<Rightarrow> (string \<Rightarrow> lookup) \<Rightarrow> (string \<Rightarrow> lookup) \<Rightarrow> world \<Rightarrow> world" where
  "run_stale_sweep_once of_json history public w0 =
     (let (looked_up, w) = reconcile_restored_history of_json history w0 in
      case db_read CListTrades list_trades w of
        Inl _ \<Rightarrow> w
      | Inr trades \<Rightarrow>
          (let w1 = fold (sweep_trade looked_up (w_now w) public) trades w
           in w1\<lparr>w_sessions := snd (cleanup_stale_sessions sweep_session_ttl_secs (w_now w1) (w_sessions w1))\<rparr>))"

end
