(* ===== verification/Sweep_Safety.thy ===== *)
theory Sweep_Safety
  imports Sweep Public_Safety
begin

text \<open>
  What the sweep, the payout check and the history passes may do: every one ends, and a row moves
  only on a positive word of the daemon's public view, the row of an unpaid bond excepted, which goes
  by the clock. A lookup during which nothing else happens is a \<open>still\<close> one; the theorem on the sweep
  lets the world move before and during it.
\<close>

definition still :: "order_status option \<Rightarrow> lookup" where
  "still a = \<lparr>lk_before = (\<lambda>w. w), lk_during = (\<lambda>w. w), lk_answer = a\<rparr>"

lemma still_simps [simp]: "lk_before (still a) w = w" "lk_during (still a) w = w" "lk_answer (still a) = a"
  by (simp_all add: still_def)

section \<open>Moves of one row\<close>

text \<open>Only the row and the tombstone of \<open>i\<close> may differ.\<close>

definition only_row :: "string \<Rightarrow> world \<Rightarrow> world \<Rightarrow> bool" where
  "only_row i w w' \<longleftrightarrow> good w' \<and> (\<forall>ids. tables_ok ids (tables w) \<longrightarrow> tables_ok ids (tables w')) \<and>
     (\<forall>j. j \<noteq> i \<longrightarrow> get_trade_by_order_id j (tables w') = get_trade_by_order_id j (tables w) \<and>
        get_setting (trade_wiped_key j) (tables w') = get_setting (trade_wiped_key j) (tables w))"

lemma only_row_refl: "good w \<Longrightarrow> only_row i w w"
  by (simp add: only_row_def)

lemma wiped_only:
  assumes w: "good w"
  shows "only_row i w (snd (wipe_never_active_trade i b t n w))"
    and "covered i n (tables (snd (wipe_never_active_trade i b t n w)))"
    and "status_of i (tables (snd (wipe_never_active_trade i b t n w))) = None"
    and "w_sessions (snd (wipe_never_active_trade i b t n w)) = remove_session i (w_sessions w)"
proof -
  have tb: "tables (snd (wipe_never_active_trade i b t n w)) =
      set_setting (trade_wiped_key i) (tombstone_value t n) (delete_trade_by_order_id i (tables w))"
    using w by (simp add: wipe_never_active_trade_def wipe_trade_row_def answers_write answers_try Let_def
        release_finished_trade_subscriptions_def perform_def touch_def on_book_def good_def answers_def)
  show "only_row i w (snd (wipe_never_active_trade i b t n w))"
    using wiped_world(4) [OF w] by (auto simp: only_row_def tb delete_tables_ok store_simps)
  show "covered i n (tables (snd (wipe_never_active_trade i b t n w)))"
    using wiped_world(3) [OF w] by (simp add: covered_def tombstone_covers_own)
  show "status_of i (tables (snd (wipe_never_active_trade i b t n w))) = None"
    using wiped_world(2) [OF w] by (simp add: status_of_def)
  show "w_sessions (snd (wipe_never_active_trade i b t n w)) = remove_session i (w_sessions w)"
    using wiped_world(9) [OF w] by (simp add: outcome_def)
qed

definition set_status :: "string \<Rightarrow> order_status \<Rightarrow> world \<Rightarrow> world" where
  "set_status i s w = w\<lparr>w_db := Some (update_trade_fields i (Some s) None None (tables w))\<rparr>"

lemma set_status_only:
  assumes "good w"
  shows "only_row i w (set_status i s w)" "good (set_status i s w)" "w_updates (set_status i s w) = w_updates w"
    "status_of i (tables (set_status i s w)) = map_option (\<lambda>_. s) (status_of i (tables w))"
  using assms
  by (auto simp: set_status_def only_row_def update_trade_fields_def tables_ok_update store_simps status_of_def
      option.map_comp comp_def)

lemma same_rows_only: "only_row i w w1 \<Longrightarrow> same_rows w1 w2 \<Longrightarrow> only_row i w w2"
  by (simp add: only_row_def same_rows_def)

lemma emitted_rows:
  assumes "good w"
  shows "good (emit_trade_update i s w)" "tables (emit_trade_update i s w) = tables w"
    "w_sessions (emit_trade_update i s w) = w_sessions w"
    "\<exists>t. w_updates (emit_trade_update i s w) =
       w_updates w @ [\<lparr>tu_order_id = i, tu_status = s, tu_reason = None, tu_occurred_at = t\<rparr>]"
  using assms
  by (auto simp: emit_trade_update_def emit_trade_update_with_def emit_trade_update_at_def Let_def perform_def touch_def
      on_book_def good_def answers_def release_finished_trade_subscriptions_def)

lemma emitted_only: "only_row i w w1 \<Longrightarrow> only_row i w (emit_trade_update j s w1)"
  using emitted_rows [of w1 j s] by (simp add: only_row_def)

section \<open>The payout of a settled trade\<close>

lemma payout_local:
  fixes i :: string
  assumes w: "good w"
  defines "w' \<equiv> apply_payout_completed i w"
  shows "local_trade_status i w \<noteq> Some SettledHoldInvoice \<Longrightarrow> w' = w"
    "local_trade_status i w = Some SettledHoldInvoice \<Longrightarrow> only_row i w w' \<and>
       status_of i (tables w') = map_option (\<lambda>_. Success) (status_of i (tables w)) \<and>
       (\<exists>t. w_updates w' = w_updates w @ [\<lparr>tu_order_id = i, tu_status = Success, tu_reason = None, tu_occurred_at = t\<rparr>])"
proof -
  show "local_trade_status i w \<noteq> Some SettledHoldInvoice \<Longrightarrow> w' = w" by (simp add: w'_def apply_payout_completed_def)
  assume loc: "local_trade_status i w = Some SettledHoldInvoice"
  define k where "k = on_book (update_order_status i Success) w"
  have k: "good k" "tables k = tables w" "w_updates k = w_updates w" using w by (simp_all add: k_def on_book_def)
  have eq: "w' = emit_trade_update i Success (set_status i Success k)"
    using loc k(1) by (simp add: w'_def apply_payout_completed_def set_status_def answers_write Let_def flip: k_def)
  show "only_row i w w' \<and> status_of i (tables w') = map_option (\<lambda>_. Success) (status_of i (tables w)) \<and>
       (\<exists>t. w_updates w' = w_updates w @ [\<lparr>tu_order_id = i, tu_status = Success, tu_reason = None, tu_occurred_at = t\<rparr>])"
    using emitted_rows(2,4) [OF set_status_only(2) [OF k(1), of i Success], of i Success] set_status_only(3,4) [OF k(1), of i Success]
      emitted_only [OF set_status_only(1) [OF k(1), of i Success], of i Success] k
    unfolding eq by (simp add: only_row_def)
qed

lemma payout_applied:
  assumes w: "good w" and s: "status_of i (tables w) = Some l"
  defines "w' \<equiv> apply_payout_completed i w"
  shows "l \<noteq> SettledHoldInvoice \<Longrightarrow> w' = w"
    "l = SettledHoldInvoice \<Longrightarrow> only_row i w w' \<and> status_of i (tables w') = Some Success \<and>
       (\<exists>t. w_updates w' = w_updates w @ [\<lparr>tu_order_id = i, tu_status = Success, tu_reason = None, tu_occurred_at = t\<rparr>])"
proof -
  have "local_trade_status i w = Some l"
    using s w by (auto simp: local_trade_status_def status_of_def split: option.splits)
  then show "l \<noteq> SettledHoldInvoice \<Longrightarrow> w' = w"
    "l = SettledHoldInvoice \<Longrightarrow> only_row i w w' \<and> status_of i (tables w') = Some Success \<and>
       (\<exists>t. w_updates w' = w_updates w @ [\<lparr>tu_order_id = i, tu_status = Success, tu_reason = None, tu_occurred_at = t\<rparr>])"
    using payout_local [OF w, of i] s by (simp_all add: w'_def)
qed

lemma loop_bounded: "fst (confirm_payout_loop n i obs w) \<le> n"
proof (induction n arbitrary: obs w)
  case (Suc n)
  show ?case
    using Suc [of "\<lambda>j. obs (Suc j)" "lk_during (obs 0) (lk_before (obs 0) w)"]
    by (auto simp: Let_def split: prod.split)
qed simp

lemma find_shift: "find P [0..<Suc n] = (if P 0 then Some 0 else map_option Suc (find (\<lambda>k. P (Suc k)) [0..<n]))"
proof -
  have "find P (map Suc xs) = map_option Suc (find (\<lambda>k. P (Suc k)) xs)" for xs by (induction xs) simp_all
  then show ?thesis by (simp add: upt_conv_Cons map_Suc_upt [symmetric] del: upt_Suc)
qed

lemma loop_quiet:
  assumes "good w" "status_of i (tables w) = Some SettledHoldInvoice"
  shows "confirm_payout_loop n i (\<lambda>k. still (a k)) w =
    (case find (\<lambda>k. a k = Some Success) [0..<n] of Some k \<Rightarrow> (k + 1, apply_payout_completed i w) | None \<Rightarrow> (n, w))"
proof (induction n arbitrary: a)
  case (Suc n)
  have "local_trade_status i w = Some SettledHoldInvoice"
    using assms by (auto simp: local_trade_status_def status_of_def split: option.splits)
  then show ?case
    using Suc [of "\<lambda>j. a (Suc j)"] by (simp add: find_shift del: upt_Suc split: option.split)
qed simp

text \<open>
  C8: The payout check of a settled trade always ends, within twelve lookups of the public view,
  whatever happens between and during them. On a quiet row it makes exactly as many lookups as it
  takes to see \<open>success\<close>, then completes the trade, its row and one update; when no lookup shows
  \<open>success\<close> it stops after the twelfth and leaves the row for the sweep.
\<close>

theorem payout_confirmation_ends:
  assumes "good w" and "status_of i (tables w) = Some SettledHoldInvoice"
  shows "fst (confirm_payout_completion j obs v) \<le> 12 \<and>
    (case find (\<lambda>k. a k = Some Success) [0..<12] of
       None \<Rightarrow> confirm_payout_completion i (\<lambda>k. still (a k)) w = (12, w)
     | Some k \<Rightarrow> fst (confirm_payout_completion i (\<lambda>k. still (a k)) w) = k + 1 \<and>
         (let w' = snd (confirm_payout_completion i (\<lambda>k. still (a k)) w) in
          status_of i (tables w') = Some Success \<and>
          (\<forall>j. j \<noteq> i \<longrightarrow> status_of j (tables w') = status_of j (tables w)) \<and>
          (\<exists>t. w_updates w' = w_updates w @ [\<lparr>tu_order_id = i, tu_status = Success, tu_reason = None, tu_occurred_at = t\<rparr>])))"
  using loop_bounded [of payout_attempts j obs v] loop_quiet [OF assms, of payout_attempts a]
    payout_applied(2) [OF assms refl]
  by (auto simp: confirm_payout_completion_def payout_attempts_def only_row_def status_of_def Let_def split: option.split)

theorem payout_confirmation_ends_witness:
  "status_of ''o'' (tables (snd (confirm_payout_completion ''o'' (\<lambda>k. still (if k = 3 then Some Success else None))
     (sample_world2 (sample_db [sample_row SettledHoldInvoice False None] []))))) = Some Success"
  using payout_confirmation_ends [of "sample_world2 (sample_db [sample_row SettledHoldInvoice False None] [])" "''o''"
      "''o''" "\<lambda>_. still None" "sample_world2 (sample_db [] [])" "\<lambda>k. if k = 3 then Some Success else None"]
  by (simp add: status_of_def get_trade_by_order_id_def sample_row_def sample_db_def order_of_def upt_rec Let_def)

section \<open>One listed row\<close>

definition swept_as :: "string \<Rightarrow> sweep_action \<Rightarrow> u32 \<Rightarrow> world \<Rightarrow> world \<Rightarrow> bool" where
  "swept_as i act n w w' \<longleftrightarrow> only_row i w w' \<and>
     (case act of
        SyncSuccess \<Rightarrow> if local_trade_status i w = Some SettledHoldInvoice
          then status_of i (tables w') = map_option (\<lambda>_. Success) (status_of i (tables w)) \<and>
            map tu_status (w_updates w') = map tu_status (w_updates w) @ [Success]
          else w' = w
      | SyncPending \<Rightarrow> status_of i (tables w') = map_option (\<lambda>_. Pending) (status_of i (tables w)) \<and>
          map tu_status (w_updates w') = map tu_status (w_updates w) @ [Pending]
      | SweepWipe \<Rightarrow> status_of i (tables w') = None \<and> covered i n (tables w') \<and>
          map tu_status (w_updates w') = map tu_status (w_updates w) @ [Canceled]
      | Keep \<Rightarrow> w' = w)"

lemma applied_sweep:
  assumes w: "good w" and t: "order_of t = i"
  shows "swept_as i act (ti_trade_key_index t) w (apply_sweep t act w)"
proof (cases act)
  case SweepWipe
  define v where "v = snd (wipe_never_active_trade i (\<not> oi_is_mine (ti_order t)) (w_now w) (ti_trade_key_index t) w)"
  have eq: "apply_sweep t act w = emit_trade_update i Canceled v"
    using wiped_world(1) [OF w, of i "\<not> oi_is_mine (ti_order t)" "w_now w" "ti_trade_key_index t"] t SweepWipe
    by (cases "wipe_never_active_trade i (\<not> oi_is_mine (ti_order t)) (w_now w) (ti_trade_key_index t) w")
      (simp add: apply_sweep_def v_def)
  note o = wiped_only [OF w, where i = i and b = "\<not> oi_is_mine (ti_order t)" and t = "w_now w"
      and n = "ti_trade_key_index t", folded v_def]
  have g: "good v" using o(1) by (simp add: only_row_def)
  have u: "w_updates v = w_updates w" unfolding v_def by (rule wiped_world(5) [OF w])
  show ?thesis
    using SweepWipe o emitted_rows [OF g, of i Canceled] emitted_only [OF o(1), of i Canceled] u
    unfolding eq swept_as_def by auto
next
  case SyncPending
  have eq: "apply_sweep t act w = emit_trade_update i Pending (set_status i Pending w)"
    using w t SyncPending by (simp add: apply_sweep_def answers_write set_status_def)
  show ?thesis
    using SyncPending set_status_only(3,4) [OF w, of i Pending] emitted_only [OF set_status_only(1) [OF w, of i Pending], of i Pending]
      emitted_rows(2,4) [OF set_status_only(2) [OF w, of i Pending], of i Pending]
    unfolding eq swept_as_def by auto
next
  case SyncSuccess
  show ?thesis
    using payout_local [OF w, of i] SyncSuccess w t
    by (auto simp: apply_sweep_def swept_as_def only_row_refl)
next
  case Keep
  then show ?thesis using w by (simp add: apply_sweep_def swept_as_def only_row_refl)
qed

text \<open>A bond window that closed: the row goes to pending when the book shows the maker's order as published.\<close>

lemma emit_with_rows:
  assumes "good w"
  shows "good (emit_trade_update_with i s r w)" "tables (emit_trade_update_with i s r w) = tables w"
    "map tu_status (w_updates (emit_trade_update_with i s r w)) = map tu_status (w_updates w) @ [s]"
  using assms by (auto simp: emit_trade_update_with_def emit_trade_update_at_def Let_def perform_def touch_def on_book_def
      good_def answers_def release_finished_trade_subscriptions_def)

lemma bond_only:
  assumes w: "good w"
  shows "only_row i w (persist_bond i b w)" "good (persist_bond i b w)"
    "w_updates (persist_bond i b w) = w_updates w"
    "status_of i (tables (persist_bond i b w)) = status_of i (tables w)"
proof -
  have eq: "persist_bond i b w = touch i (w\<lparr>w_db := Some (update_rows i (ti_bond_update (\<lambda>_. Some b)) (tables w))\<rparr>)"
    using w by (simp add: persist_bond_def update_trade_bond_def answers_try)
  have o: "order_of (ti_bond_update (\<lambda>_. Some b) r) = order_of r" for r by (simp add: order_of_def)
  have "tables_ok ids (update_rows i (ti_bond_update (\<lambda>_. Some b)) (tables w))" if "tables_ok ids (tables w)" for ids
    by (rule tables_ok_update [OF that]) (simp_all add: order_of_def)
  then show "only_row i w (persist_bond i b w)" "good (persist_bond i b w)"
    "w_updates (persist_bond i b w) = w_updates w"
    "status_of i (tables (persist_bond i b w)) = status_of i (tables w)"
    using w get_update_rows [of "ti_bond_update (\<lambda>_. Some b)", OF o]
    by (auto simp: eq only_row_def touch_def on_book_def good_def answers_def status_of_def store_simps option.map_comp comp_def)
qed

lemma only_row_trans: "only_row i w w1 \<Longrightarrow> only_row i w1 w2 \<Longrightarrow> only_row i w w2"
  by (auto simp: only_row_def)

lemma locked_row:
  assumes w: "good w" and r: "oi_status (ti_order r) = WaitingMakerBond" "status_of i (tables w) = Some s"
  defines "w' \<equiv> snd (lock_maker_bond i r (ti_trade_key_index r) w)"
  shows "only_row i w w'" "\<not> oi_is_mine (ti_order r) \<Longrightarrow> w' = w"
    "oi_is_mine (ti_order r) \<Longrightarrow> status_of i (tables w') = Some Pending \<and>
       map tu_status (w_updates w') = map tu_status (w_updates w) @ [Pending]"
proof -
  define v where "v = (case ti_bond r of
      Some b \<Rightarrow> if bi_state b = BondRequested
        then persist_bond i (b\<lparr>bi_state := BondLocked, bi_locked_at := Some (w_now w)\<rparr>) w else w
    | None \<Rightarrow> w)"
  have v: "only_row i w v" "good v" "w_updates v = w_updates w" "status_of i (tables v) = Some s"
    using w r(2) bond_only [OF w] by (auto simp: v_def only_row_refl split: option.split)
  have eq: "w' = (if oi_is_mine (ti_order r) then emit_trade_update_with i Pending None (set_status i Pending v) else w)"
    using r(1) v(2) unfolding w'_def lock_maker_bond_def
    by (simp add: Let_def set_status_def answers_try emit_trade_update_def flip: v_def)
  note p = set_status_only [OF v(2), of i Pending] and e = emit_with_rows [OF set_status_only(2) [OF v(2), of i Pending], of i Pending None]
  have "only_row i w (set_status i Pending v)" by (rule only_row_trans [OF v(1) p(1)])
  then show "only_row i w w'" using e w by (auto simp: eq only_row_refl only_row_def)
  show "\<not> oi_is_mine (ti_order r) \<Longrightarrow> w' = w" by (simp add: eq)
  show "oi_is_mine (ti_order r) \<Longrightarrow> status_of i (tables w') = Some Pending \<and>
      map tu_status (w_updates w') = map tu_status (w_updates w) @ [Pending]"
    using e p v by (simp add: eq)
qed

definition bond_closed :: "trade_info \<Rightarrow> i64 \<Rightarrow> world \<Rightarrow> world \<Rightarrow> bool" where
  "bond_closed t now w w' \<longleftrightarrow> (case get_trade_by_order_id (order_of t) (tables w) of
      None \<Rightarrow> w' = w
    | Some r \<Rightarrow>
        if \<not> (bond_expired t now \<and> bond_expired r now) then w' = w
        else if oi_status (ti_order r) = WaitingMakerBond \<and> maker_order_is_published (order_of t) w
        then (if oi_is_mine (ti_order r) then status_of (order_of t) (tables w') = Some Pending \<and>
                map tu_status (w_updates w') = map tu_status (w_updates w) @ [Pending]
              else w' = w)
        else status_of (order_of t) (tables w') = None \<and> covered (order_of t) (ti_trade_key_index r) (tables w') \<and>
          map tu_status (w_updates w') = map tu_status (w_updates w) @ [Expired])"

lemma bond_window_closes:
  fixes t :: trade_info and now :: i64
  assumes w: "good w"
  defines "w' \<equiv> snd (close_expired_bond_trade t now w)"
  shows "only_row (order_of t) w w' \<and> bond_closed t now w w'"
proof (cases "get_trade_by_order_id (order_of t) (tables w)")
  case None
  then have "w' = w" using w by (auto simp: w'_def close_expired_bond_trade_def Let_def)
  then show ?thesis using w None by (simp add: bond_closed_def only_row_refl)
next
  case (Some r)
  let ?i = "order_of t"
  consider (quiet) "\<not> (bond_expired t now \<and> bond_expired r now)"
    | (published) "bond_expired t now" "bond_expired r now"
        "oi_status (ti_order r) = WaitingMakerBond \<and> maker_order_is_published ?i w"
    | (closed_now) "bond_expired t now" "bond_expired r now"
        "\<not> (oi_status (ti_order r) = WaitingMakerBond \<and> maker_order_is_published ?i w)"
    by blast
  then show ?thesis
  proof cases
    case quiet
    then have "w' = w" using w Some by (auto simp: w'_def close_expired_bond_trade_def Let_def)
    then show ?thesis using w Some quiet by (simp add: bond_closed_def only_row_refl)
  next
    case published
    then have "w' = snd (lock_maker_bond ?i r (ti_trade_key_index r) w)"
      using w Some by (simp add: w'_def close_expired_bond_trade_def Let_def split_beta)
    moreover have "status_of ?i (tables w) = Some (oi_status (ti_order r))" using Some by (simp add: status_of_def)
    ultimately show ?thesis
      using locked_row [OF w, of r ?i] published Some by (simp add: bond_closed_def)
  next
    case closed_now
    let ?e = "emit_trade_update_with ?i Expired (Some BondExpired) w"
    note e = emit_with_rows [OF w, of ?i Expired "Some BondExpired"]
    note v = wiped_only [OF e(1), where i = ?i and b = "\<not> oi_is_mine (ti_order r)" and t = now and n = "ti_trade_key_index r"]
      wiped_world(5) [OF e(1), where i = ?i and b = "\<not> oi_is_mine (ti_order r)" and t = now and n = "ti_trade_key_index r"]
    have "w' = snd (wipe_never_active_trade ?i (\<not> oi_is_mine (ti_order r)) now (ti_trade_key_index r) ?e)"
      using expiry_of_row [OF w closed_now(1) Some closed_now(2,3)] by (simp add: w'_def)
    then have "only_row ?i w w'" "status_of ?i (tables w') = None" "covered ?i (ti_trade_key_index r) (tables w')"
      "map tu_status (w_updates w') = map tu_status (w_updates w) @ [Expired]"
      using v e by (simp_all add: only_row_def)
    then show ?thesis using Some closed_now by (simp only: bond_closed_def option.case) simp
  qed
qed

lemma sweep_table:
  assumes "swept_as i (sweep_action mine st pub) n w w'"
    and "settled \<longleftrightarrow> st = SettledHoldInvoice" "waiting \<longleftrightarrow> st \<in> {WaitingBuyerInvoice, WaitingPayment}"
  shows "if settled \<and> pub = Some Success \<and> local_trade_status i w = Some SettledHoldInvoice
     then status_of i (tables w') = map_option (\<lambda>_. Success) (status_of i (tables w)) \<and>
       map tu_status (w_updates w') = map tu_status (w_updates w) @ [Success]
     else if waiting \<and> mine \<and> pub = Some Pending
     then status_of i (tables w') = map_option (\<lambda>_. Pending) (status_of i (tables w)) \<and>
       map tu_status (w_updates w') = map tu_status (w_updates w) @ [Pending]
     else if waiting \<and> (pub \<in> {Some Canceled, Some Expired, Some CanceledByAdmin} \<or> \<not> mine \<and> pub = Some Pending)
     then status_of i (tables w') = None \<and> covered i n (tables w') \<and>
       map tu_status (w_updates w') = map tu_status (w_updates w) @ [Canceled]
     else settled \<or> waiting \<longrightarrow> w' = w"
  using assms by (cases "sweep_action mine st pub") (auto simp: sweep_action_def swept_as_def split: if_splits)

text \<open>
  C7: One listed row in the stale sweep, as it was listed, whatever happens before and while its
  order is looked up; every statement succeeds and no create request waits. A row that waits for a
  bond goes by the clock alone: only when the listed row and the current one are both past an unpaid
  bond's deadline, and then a maker's row whose order the book shows as published goes to pending
  instead. Every other row moves only on a positive word of the daemon's public view, the book's
  entry or else the relays' answer: a settled row, still settled after the lookup, completes on
  \<open>success\<close>; a maker's row past its window goes back to pending when the daemon republished the order;
  a waiting row past its window goes, under a tombstone covering its key and with one update, when
  its order was canceled or, for a taker, is pending again. A row inside its window, one not
  waiting, one a history pass just looked up and one whose order has no such word change nothing,
  and no other order's row or tombstone ever changes.
\<close>

theorem sweep_only_follows_the_daemon:
  fixes looked_up :: "string fset" and now :: i64 and public :: "string \<Rightarrow> lookup"
  assumes "good (lk_before (public (order_of t)) w)"
    and "good (lk_during (public (order_of t)) (lk_before (public (order_of t)) w))"
  shows "let i = order_of t; st = oi_status (ti_order t); mine = oi_is_mine (ti_order t);
      bonded = (st \<in> {WaitingTakerBond, WaitingMakerBond});
      waiting = (st \<in> {WaitingBuyerInvoice, WaitingPayment} \<and> i |\<notin>| looked_up \<and>
        now > (case ti_timeout_at t of Some d \<Rightarrow> d | None \<Rightarrow> i64_wrap (ti_started_at t + 900)));
      settled = (st = SettledHoldInvoice \<and> i |\<notin>| looked_up);
      w0 = lk_before (public i) w;
      w1 = (if (waiting \<or> settled) \<and> book_order i w0 = None then lk_during (public i) w0 else w0);
      pub = (case book_order i w0 of Some ord \<Rightarrow> Some (oi_status ord) | None \<Rightarrow> lk_answer (public i));
      w' = sweep_trade looked_up now public t w in
    (\<forall>j. j \<noteq> i \<longrightarrow> get_trade_by_order_id j (tables w') = get_trade_by_order_id j (tables w1) \<and>
      get_setting (trade_wiped_key j) (tables w') = get_setting (trade_wiped_key j) (tables w1)) \<and>
    (if bonded then bond_closed t now w1 w'
     else if settled \<and> pub = Some Success \<and> local_trade_status i w1 = Some SettledHoldInvoice
     then status_of i (tables w') = map_option (\<lambda>_. Success) (status_of i (tables w1)) \<and>
       map tu_status (w_updates w') = map tu_status (w_updates w1) @ [Success]
     else if waiting \<and> mine \<and> pub = Some Pending
     then status_of i (tables w') = map_option (\<lambda>_. Pending) (status_of i (tables w1)) \<and>
       map tu_status (w_updates w') = map tu_status (w_updates w1) @ [Pending]
     else if waiting \<and> (pub \<in> {Some Canceled, Some Expired, Some CanceledByAdmin} \<or> \<not> mine \<and> pub = Some Pending)
     then status_of i (tables w') = None \<and> covered i (ti_trade_key_index t) (tables w') \<and>
       map tu_status (w_updates w') = map tu_status (w_updates w1) @ [Canceled]
     else w' = w1)"
proof -
  let ?i = "order_of t" and ?mine = "oi_is_mine (ti_order t)" and ?st = "oi_status (ti_order t)"
  let ?w0 = "lk_before (public ?i) w"
  let ?w1 = "if sweep_due looked_up now t \<and> book_order ?i ?w0 = None then lk_during (public ?i) ?w0 else ?w0"
  let ?pub = "case book_order ?i ?w0 of Some ord \<Rightarrow> Some (oi_status ord) | None \<Rightarrow> lk_answer (public ?i)"
  have g: "good ?w1" using assms by simp
  have plain: "sweep_trade looked_up now public t w =
      (if sweep_due looked_up now t then apply_sweep t (sweep_action ?mine ?st ?pub) ?w1 else ?w0)"
    if "?st \<notin> {WaitingTakerBond, WaitingMakerBond}"
    using that by (auto simp: sweep_trade_def Let_def split: option.split)
  have bond: "sweep_trade looked_up now public t w = snd (close_expired_bond_trade t now ?w0)"
    if "?st \<in> {WaitingTakerBond, WaitingMakerBond}"
    using that by (simp add: sweep_trade_def Let_def)
  show ?thesis
  proof (cases "?st \<in> {WaitingTakerBond, WaitingMakerBond}")
    case True
    then have "\<not> sweep_due looked_up now t" by (auto simp: sweep_due_def)
    then show ?thesis
      using True bond [OF True] bond_window_closes [OF assms(1), of t now] True
      unfolding Let_def by (auto simp: only_row_def)
  next
    case False
    note swept = applied_sweep [OF g refl, of t "sweep_action ?mine ?st ?pub"]
    show ?thesis
    proof (cases "sweep_due looked_up now t")
      case True
      define settled waiting where "settled \<longleftrightarrow> ?st = SettledHoldInvoice"
        and "waiting \<longleftrightarrow> ?st \<in> {WaitingBuyerInvoice, WaitingPayment}"
      define v pub where "v = ?w1" and "pub = ?pub"
      have table: "swept_as ?i (sweep_action ?mine ?st pub) (ti_trade_key_index t) v (sweep_trade looked_up now public t w)"
        using swept plain [OF False] True by (simp add: v_def pub_def)
      have due: "settled \<or> waiting" "?i |\<notin>| looked_up"
        "waiting \<Longrightarrow> now > (case ti_timeout_at t of Some d \<Rightarrow> d | None \<Rightarrow> i64_wrap (ti_started_at t + 900))"
        using True
        by (auto simp: sweep_due_def sweep_deadline_def sweep_min_age_secs_def settled_def waiting_def split: option.splits)
      have frame: "\<forall>j. j \<noteq> ?i \<longrightarrow>
          get_trade_by_order_id j (tables (sweep_trade looked_up now public t w)) = get_trade_by_order_id j (tables v) \<and>
          get_setting (trade_wiped_key j) (tables (sweep_trade looked_up now public t w)) = get_setting (trade_wiped_key j) (tables v)"
        using table by (simp add: swept_as_def only_row_def)
      have v: "(if (waiting \<or> settled) \<and> book_order ?i ?w0 = None then lk_during (public ?i) ?w0 else ?w0) = v"
        using True due(1) by (auto simp: v_def)
      have w: "waiting \<and> ?i |\<notin>| looked_up \<and>
          now > (case ti_timeout_at t of Some d \<Rightarrow> d | None \<Rightarrow> i64_wrap (ti_started_at t + 900)) \<longleftrightarrow> waiting"
        "settled \<and> ?i |\<notin>| looked_up \<longleftrightarrow> settled" using due by blast+
      show ?thesis
        unfolding Let_def using frame sweep_table [OF table settled_def waiting_def] False due(1)
        unfolding settled_def [symmetric] waiting_def [symmetric] pub_def [symmetric] w v
        by (simp only: simp_thms if_False)
    next
      case no: False
      have idle: "\<not> (?st \<in> {WaitingBuyerInvoice, WaitingPayment} \<and> ?i |\<notin>| looked_up \<and>
          now > (case ti_timeout_at t of Some d \<Rightarrow> d | None \<Rightarrow> i64_wrap (ti_started_at t + 900)))"
        "\<not> (?st = SettledHoldInvoice \<and> ?i |\<notin>| looked_up)"
        using no by (auto simp: sweep_due_def sweep_deadline_def sweep_min_age_secs_def split: option.splits)
      have "sweep_trade looked_up now public t w = ?w0" using plain [OF False] no by simp
      then show ?thesis
        unfolding Let_def using False idle by (simp only: simp_thms if_False)
    qed
  qed
qed

text \<open>The row moved on during the lookup, and the word about the listed row still deletes it.\<close>

theorem sweep_only_follows_the_daemon_witness:
  "status_of ''o'' (tables (sweep_trade {||} 2000
     (\<lambda>j. \<lparr>lk_before = (\<lambda>w. w), lk_during = set_status ''o'' Active, lk_answer = Some Pending\<rparr>)
     (sample_row WaitingPayment False None) (sample_world2 (sample_db [sample_row WaitingPayment False None] [])))) = None"
proof -
  let ?t = "sample_row WaitingPayment False None" and ?w = "sample_world2 (sample_db [sample_row WaitingPayment False None] [])"
  let ?l = "\<lparr>lk_before = (\<lambda>w. w), lk_during = set_status ''o'' Active, lk_answer = Some Pending\<rparr>"
  have o: "order_of ?t = ''o''" and b: "book_order ''o'' ?w = None"
    by (simp_all add: order_of_def sample_defs book_order_def get_order_def new_book_def)
  have f: "oi_status (ti_order ?t) = WaitingPayment" "oi_is_mine (ti_order ?t) = False" "ti_timeout_at ?t = None"
    "i64_wrap (ti_started_at ?t + 900) = 901"
    by (simp_all add: sample_row_def i64_wrap_def)
  have g: "good (lk_before ?l ?w)" "good (lk_during ?l (lk_before ?l ?w))"
    using good_sample set_status_only(2) [OF good_sample] by simp_all
  show ?thesis
    using sweep_only_follows_the_daemon [where public = "\<lambda>_. ?l" and t = ?t and w = ?w and looked_up = "{||}" and now = 2000, OF g]
    unfolding o f Let_def by (simp add: b)
qed

section \<open>The history a restore replayed\<close>

definition filed :: "history_action \<Rightarrow> trade_info \<Rightarrow> world \<Rightarrow> world \<Rightarrow> bool" where
  "filed act t w w' \<longleftrightarrow> (case act of
      MarkSuccess \<Rightarrow> status_of (order_of t) (tables w') = Some Success
    | Wipe \<Rightarrow> status_of (order_of t) (tables w') = None \<and> covered (order_of t) (ti_trade_key_index t) (tables w')
    | Retry \<Rightarrow> get_trade_by_order_id (order_of t) (tables w') = get_trade_by_order_id (order_of t) (tables w))"

definition is_due :: "restore_snapshot \<Rightarrow> trade_info \<Rightarrow> bool" where
  "is_due snapshot t \<longleftrightarrow> reads_in_progress (oi_status (ti_order t)) \<and>
     is_history snapshot (order_of t) (ti_trade_key_index t)"

lemma history_step_files:
  assumes w: "good w" and t: "get_trade_by_order_id (order_of t) (tables w) = Some t"
    and s: "history_step snapshot (\<lambda>j. still (answer j)) t (l, w) = (l', w')"
  shows "only_row (order_of t) w w'" "w_updates w' = w_updates w"
    "l' = (if is_due snapshot t then finsert (order_of t) l else l)"
    "filed (if is_due snapshot t then decide_history (answer (order_of t)) else Retry) t w w'"
proof -
  let ?i = "order_of t"
  consider (idle) "\<not> is_due snapshot t \<or> decide_history (answer ?i) = Retry" "w' = w"
    | (completed) "is_due snapshot t" "decide_history (answer ?i) = MarkSuccess"
        "w' = touch ?i (on_book (update_order_status ?i Success) (set_status ?i Success w))"
    | (gone) "is_due snapshot t" "decide_history (answer ?i) = Wipe"
        "w' = snd (wipe_never_active_trade ?i False (w_now w) (ti_trade_key_index t) w)"
    using s w by (cases "decide_history (answer ?i)")
      (auto simp: history_step_def is_due_def Let_def answers_write set_status_def split: if_splits)
  then have "only_row ?i w w' \<and> w_updates w' = w_updates w \<and>
    filed (if is_due snapshot t then decide_history (answer ?i) else Retry) t w w'"
  proof cases
    case idle
    then show ?thesis using w by (auto simp: only_row_refl filed_def)
  next
    case completed
    have "same_rows (set_status ?i Success w) w'"
      unfolding completed by (rule same_rows_trans [OF same_rows_stages(1) same_rows_stages(2)])
        (use set_status_only(2) [OF w] in \<open>auto simp: on_book_def\<close>)
    then show ?thesis
      using completed set_status_only [OF w, of ?i Success] same_rows_only [of ?i w "set_status ?i Success w" w'] t
      by (simp add: filed_def same_rows_def status_of_def)
  next
    case gone
    show ?thesis
      using gone(1,2) wiped_only [OF w, where i = ?i and b = False and t = "w_now w" and n = "ti_trade_key_index t"]
        wiped_world(5) [OF w, where i = ?i and b = False and t = "w_now w" and n = "ti_trade_key_index t"]
      unfolding gone(3) by (simp add: filed_def)
  qed
  then show "only_row ?i w w'" "w_updates w' = w_updates w"
    "filed (if is_due snapshot t then decide_history (answer ?i) else Retry) t w w'" by simp_all
  show "l' = (if is_due snapshot t then finsert ?i l else l)"
    using s by (auto simp: history_step_def is_due_def Let_def split: if_splits)
qed

lemma filed_frame:
  "filed act t w w1 \<Longrightarrow> only_row j w1 w2 \<Longrightarrow> j \<noteq> order_of t \<Longrightarrow> filed act t w w2"
  "only_row j w w1 \<Longrightarrow> filed act t w1 w2 \<Longrightarrow> j \<noteq> order_of t \<Longrightarrow> filed act t w w2"
  by (auto simp: filed_def only_row_def status_of_def covered_def split: history_action.splits)

lemma filed_stays:
  assumes "filed act t w w1" and "get_trade_by_order_id (order_of t) (tables w2) = get_trade_by_order_id (order_of t) (tables w1)"
    and "get_setting (trade_wiped_key (order_of t)) (tables w2) = get_setting (trade_wiped_key (order_of t)) (tables w1)"
  shows "filed act t w w2"
  using assms by (cases act) (simp_all add: filed_def status_of_def covered_def)

lemma history_files:
  assumes "good w" "distinct (map order_of xs)"
    "\<forall>t \<in> set xs. get_trade_by_order_id (order_of t) (tables w) = Some t"
    "fold (history_step snapshot (\<lambda>j. still (answer j))) xs (l, w) = (l', w')"
  shows "good w' \<and> w_updates w' = w_updates w \<and>
    (\<forall>j. j \<notin> order_of ` set xs \<longrightarrow> get_trade_by_order_id j (tables w') = get_trade_by_order_id j (tables w) \<and>
        get_setting (trade_wiped_key j) (tables w') = get_setting (trade_wiped_key j) (tables w)) \<and>
    (\<forall>t \<in> set xs. filed (if is_due snapshot t then decide_history (answer (order_of t)) else Retry) t w w') \<and>
    (\<forall>j. j |\<in>| l' \<longleftrightarrow> j |\<in>| l \<or> (\<exists>t \<in> set xs. is_due snapshot t \<and> order_of t = j))"
  using assms
proof (induction xs arbitrary: w l)
  case (Cons t xs)
  obtain l1 w1 where s: "history_step snapshot (\<lambda>j. still (answer j)) t (l, w) = (l1, w1)" by fastforce
  have t: "get_trade_by_order_id (order_of t) (tables w) = Some t" using Cons.prems(3) by simp
  note st = history_step_files [OF Cons.prems(1) t s]
  have g: "good w1" using st(1) by (simp add: only_row_def)
  have rest: "fold (history_step snapshot (\<lambda>j. still (answer j))) xs (l1, w1) = (l', w')" using Cons.prems(4) s by simp
  have rows: "\<forall>r \<in> set xs. get_trade_by_order_id (order_of r) (tables w1) = Some r"
  proof
    fix r assume "r \<in> set xs"
    moreover have "order_of t \<notin> order_of ` set xs" using Cons.prems(2) by simp
    ultimately have "order_of r \<noteq> order_of t" by (metis image_eqI)
    moreover have "get_trade_by_order_id (order_of r) (tables w) = Some r"
      using bspec [OF Cons.prems(3), of r] \<open>r \<in> set xs\<close> by simp
    ultimately show "get_trade_by_order_id (order_of r) (tables w1) = Some r" using st(1) by (simp add: only_row_def)
  qed
  have d: "distinct (map order_of xs)" "order_of t \<notin> order_of ` set xs" using Cons.prems(2) by auto
  note ih = Cons.IH [OF g d(1) rows rest]
  have this_row: "filed (if is_due snapshot t then decide_history (answer (order_of t)) else Retry) t w w'"
    by (rule filed_stays [OF st(4)]) (use ih d(2) in simp_all)
  have others: "filed (if is_due snapshot r then decide_history (answer (order_of r)) else Retry) r w w'"
    if "r \<in> set xs" for r
  proof (rule filed_frame(2) [OF st(1)])
    show "filed (if is_due snapshot r then decide_history (answer (order_of r)) else Retry) r w1 w'" using ih that by blast
    show "order_of t \<noteq> order_of r" using d(2) that by auto
  qed
  have frame: "get_trade_by_order_id j (tables w') = get_trade_by_order_id j (tables w) \<and>
      get_setting (trade_wiped_key j) (tables w') = get_setting (trade_wiped_key j) (tables w)"
    if "j \<notin> order_of ` set (t # xs)" for j
    using that ih st(1) unfolding only_row_def by simp
  have looked: "j |\<in>| l' \<longleftrightarrow> j |\<in>| l \<or> (\<exists>r \<in> set (t # xs). is_due snapshot r \<and> order_of r = j)" for j
    using ih st(3) by auto
  show ?case
  proof (intro conjI)
    show "\<forall>r \<in> set (t # xs). filed (if is_due snapshot r then decide_history (answer (order_of r)) else Retry) r w w'"
      using this_row others by simp
    show "\<forall>j. j \<notin> order_of ` set (t # xs) \<longrightarrow>
        get_trade_by_order_id j (tables w') = get_trade_by_order_id j (tables w) \<and>
        get_setting (trade_wiped_key j) (tables w') = get_setting (trade_wiped_key j) (tables w)"
      using frame by blast
    show "\<forall>j. j |\<in>| l' \<longleftrightarrow> j |\<in>| l \<or> (\<exists>r \<in> set (t # xs). is_due snapshot r \<and> order_of r = j)"
      using looked by blast
  qed (use ih st(2) in simp_all)
qed simp

text \<open>
  Filing the history a restore replayed is silent and exact: no trade update is sent; a row that
  is neither in progress nor history keeps everything; a history row becomes a completed trade on
  \<open>success\<close>, goes under a tombstone covering its key on any other public status, and stays for the next pass
  when the relays gave no answer. The orders looked up are exactly the history rows.
\<close>

theorem history_is_filed_silently:
  assumes "good w" and "tables_ok ids (tables w)"
    and "reconcile_history_with snapshot (\<lambda>j. still (answer j)) w = (looked_up, w')"
  shows "w_updates w' = w_updates w \<and>
    (\<forall>i. i |\<in>| looked_up \<longleftrightarrow> (\<exists>t. get_trade_by_order_id i (tables w) = Some t \<and> is_due snapshot t)) \<and>
    (\<forall>i. case get_trade_by_order_id i (tables w) of
        None \<Rightarrow> get_trade_by_order_id i (tables w') = None
      | Some t \<Rightarrow> (if \<not> is_due snapshot t then get_trade_by_order_id i (tables w') = Some t
          else case decide_history (answer i) of
            MarkSuccess \<Rightarrow> status_of i (tables w') = Some Success
          | Wipe \<Rightarrow> status_of i (tables w') = None \<and> covered i (ti_trade_key_index t) (tables w')
          | Retry \<Rightarrow> get_trade_by_order_id i (tables w') = Some t))"
proof -
  have f: "fold (history_step snapshot (\<lambda>j. still (answer j))) (list_trades (tables w)) ({||}, w) = (looked_up, w')"
    using assms(1,3) by (simp add: reconcile_history_with_def)
  have rows: "t \<in> set (list_trades (tables w)) \<longleftrightarrow> get_trade_by_order_id (order_of t) (tables w) = Some t" for t
    using get_trade_Some_iff [OF assms(2), of "order_of t" t] by (simp add: list_trades_def)
  have d: "distinct (map order_of (list_trades (tables w)))"
    using assms(2) by (simp add: tables_ok_def list_trades_def distinct_map)
  have all: "\<forall>t \<in> set (list_trades (tables w)). get_trade_by_order_id (order_of t) (tables w) = Some t"
    using rows by blast
  note files = history_files [OF assms(1) d all f]
  have here: "order_of t = i" "t \<in> set (list_trades (tables w))" if "get_trade_by_order_id i (tables w) = Some t" for i t
    using that rows [of t] get_trade_mem [OF that] by auto
  have gone: "get_trade_by_order_id i (tables w') = None" if "get_trade_by_order_id i (tables w) = None" for i
  proof -
    have "i \<notin> order_of ` set (list_trades (tables w))" using that all by auto
    then show ?thesis using files that by simp
  qed
  have row: "filed (if is_due snapshot t then decide_history (answer i) else Retry) t w w'"
    if "get_trade_by_order_id i (tables w) = Some t" for i t
    using files here [OF that] by blast
  have looked: "i |\<in>| looked_up \<longleftrightarrow> (\<exists>t. get_trade_by_order_id i (tables w) = Some t \<and> is_due snapshot t)" for i
  proof -
    have "i |\<in>| looked_up \<longleftrightarrow> (\<exists>t \<in> set (list_trades (tables w)). is_due snapshot t \<and> order_of t = i)"
      using files by simp
    then show ?thesis using here rows by metis
  qed
  have shape: "case get_trade_by_order_id i (tables w) of
        None \<Rightarrow> get_trade_by_order_id i (tables w') = None
      | Some t \<Rightarrow> (if \<not> is_due snapshot t then get_trade_by_order_id i (tables w') = Some t
          else case decide_history (answer i) of
            MarkSuccess \<Rightarrow> status_of i (tables w') = Some Success
          | Wipe \<Rightarrow> status_of i (tables w') = None \<and> covered i (ti_trade_key_index t) (tables w')
          | Retry \<Rightarrow> get_trade_by_order_id i (tables w') = Some t)" for i
  proof (cases "get_trade_by_order_id i (tables w)")
    case None
    then show ?thesis using gone by simp
  next
    case (Some t)
    then show ?thesis
      using row [OF Some] here(1) [OF Some] by (simp add: filed_def split: history_action.splits if_splits)
  qed
  show ?thesis using files looked shape by simp
qed

definition sample_snapshot :: restore_snapshot where
  "sample_snapshot = \<lparr>rs_floor = 9, rs_live = {|''live''|}\<rparr>"

theorem history_is_filed_silently_witness:
  "\<exists>looked_up w'. reconcile_history_with sample_snapshot (\<lambda>j. still (Some Success))
      (sample_world2 (sample_db [sample_row FiatSent False None] [])) = (looked_up, w') \<and>
    w_updates w' = [] \<and> status_of ''o'' (tables w') = Some Success"
proof -
  let ?w = "sample_world2 (sample_db [sample_row FiatSent False None] [])"
  obtain l w' where r: "reconcile_history_with sample_snapshot (\<lambda>j. still (Some Success)) ?w = (l, w')" by fastforce
  have ok: "tables_ok {} (tables ?w)" by (simp add: tables_ok_def sample_db_def)
  have t: "get_trade_by_order_id ''o'' (tables ?w) = Some (sample_row FiatSent False None)"
    "is_due sample_snapshot (sample_row FiatSent False None)"
    by (simp_all add: get_trade_by_order_id_def order_of_def sample_defs is_due_def reads_in_progress_def is_history_def
        sample_snapshot_def)
  from history_is_filed_silently [where answer = "\<lambda>_. Some Success", OF good_sample ok r] have
    "w_updates w' = w_updates ?w \<and> status_of ''o'' (tables w') = Some Success"
    by (auto dest!: spec [of _ "''o''"] simp: t [unfolded tables_sample] decide_history_def)
  then show ?thesis using r by (auto simp: sample_world2_def)
qed

section \<open>A lookup that takes time\<close>

text \<open>
  The wipe of the sweep neither holds the order's lock nor looks at the row again: whatever the row of
  the order has become during the lookup (here any row \<open>r\<close>, an active trade or a new take), it
  is deleted on a word about the row that was listed.
\<close>

lemma stale_answer_wipes_the_new_row:
  assumes "sweep_due looked_up now t" and "oi_status (ti_order t) \<in> {WaitingBuyerInvoice, WaitingPayment}"
    and "book_order (order_of t) (lk_before (public (order_of t)) w) = None"
    and "lk_answer (public (order_of t)) \<in> {Some Canceled, Some Expired, Some CanceledByAdmin}"
    and w1: "w1 = lk_during (public (order_of t)) (lk_before (public (order_of t)) w)" "good w1"
    and "get_trade_by_order_id (order_of t) (tables w1) = Some r"
  shows "status_of (order_of t) (tables (sweep_trade looked_up now public t w)) = None"
proof -
  define v where "v = wipe_never_active_trade (order_of t) (\<not> oi_is_mine (ti_order t)) (w_now w1) (ti_trade_key_index t) w1"
  have v: "fst v = Inr ()" "status_of (order_of t) (tables (snd v)) = None" "good (snd v)"
    unfolding v_def using wiped_world(1,4) [OF w1(2)] wiped_only(3) [OF w1(2)] by simp_all
  have "sweep_trade looked_up now public t w = apply_sweep t SweepWipe w1"
    using assms(1-4) w1(1) by (auto simp: sweep_trade_def Let_def sweep_action_def)
  also have "\<dots> = emit_trade_update (order_of t) Canceled (snd v)"
    using v(1) by (cases v) (simp add: apply_sweep_def v_def)
  finally show ?thesis using emitted_rows(2) [OF v(3)] v(2) by simp
qed

end
