(* ===== verification/Invoices.thy ===== *)
theory Invoices
  imports Api_Types
begin

text \<open>
  \<open>rust/src/api/invoice.rs\<close>: what a Lightning payment destination is, and whether the daemon would
  accept it for a trade. The decoder of the \<open>lightning-invoice\<close> crate is the argument \<open>decode\<close>. The
  start of an invoice step, which the same file records, is in \<open>Dispatch\<close>.
\<close>

datatype currency = Bitcoin | BitcoinTestnet | Regtest | Signet | Simnet

record bolt11_invoice =
  b11_created :: u64
  b11_expiry :: u64
  b11_amount_msat :: "u64 option"
  b11_currency :: currency

type_synonym bolt11_decoder = "string \<Rightarrow> bolt11_invoice option"

record bolt11_summary =
  bs_amount_msat :: "u64 option"
  bs_expires_at :: i64
  bs_network :: string

datatype payment_destination =
    DestEmpty | DestBolt11 bolt11_summary | DestMalformedBolt11 | DestLightningAddress string | DestUnknown

datatype invoice_problem =
    Unrecognized | Malformed | WrongAmount | InvoiceExpired | ExpiresTooSoon | WrongNetwork

record rejection =
  rj_problem :: invoice_problem
  rj_actual_msat :: "u64 option"
  rj_expected_sats :: "u64 option"
  rj_invoice_network :: "string option"
  rj_node_network :: "string option"
  rj_min_remaining_secs :: "u64 option"

datatype invoice_verdict =
    VerdictEmpty | VerdictUnverified | VerdictAddress | VerdictValid u64 u64 | VerdictRejected rejection

definition uri_scheme :: string where "uri_scheme = ''lightning:''"
definition bolt11_prefixes :: "string list" where "bolt11_prefixes = [''lnbc'', ''lntb'', ''lnsb'']"

definition starts_with :: "string \<Rightarrow> string \<Rightarrow> bool" where
  "starts_with p s \<longleftrightarrow> take (length p) s = p"

definition normalize :: "string \<Rightarrow> string" where
  "normalize input = (let trimmed = str_trim input; n = length uri_scheme in
     if length trimmed \<ge> n \<and> eq_ignore_ascii_case (take n trimmed) uri_scheme
     then str_trim (drop n trimmed) else trimmed)"

definition lnd_network_name :: "currency \<Rightarrow> string" where
  "lnd_network_name c = (case c of Bitcoin \<Rightarrow> ''mainnet'' | BitcoinTestnet \<Rightarrow> ''testnet'' | Regtest \<Rightarrow> ''regtest''
     | Signet \<Rightarrow> ''signet'' | Simnet \<Rightarrow> ''simnet'')"

definition u64_saturating_add :: "u64 \<Rightarrow> u64 \<Rightarrow> u64" where
  "u64_saturating_add a b = (if uint a + uint b < 2 ^ 64 then a + b else - 1)"

definition summarize :: "bolt11_decoder \<Rightarrow> string \<Rightarrow> bolt11_summary option" where
  "summarize decode input = map_option (\<lambda>parsed.
     \<lparr>bs_amount_msat = b11_amount_msat parsed,
      bs_expires_at = min i64_max (uint (u64_saturating_add (b11_created parsed) (b11_expiry parsed))),
      bs_network = lnd_network_name (b11_currency parsed)\<rparr>)
     (decode (to_ascii_lowercase (normalize input)))"

definition split_once :: "char \<Rightarrow> string \<Rightarrow> (string \<times> string) option" where
  "split_once c s = (if c \<in> set s then Some (takeWhile (\<lambda>x. x \<noteq> c) s, tl (dropWhile (\<lambda>x. x \<noteq> c) s)) else None)"

definition is_ascii_lower :: "char \<Rightarrow> bool" where "is_ascii_lower c \<longleftrightarrow> CHR ''a'' \<le> c \<and> c \<le> CHR ''z''"
definition is_ascii_digit :: "char \<Rightarrow> bool" where "is_ascii_digit c \<longleftrightarrow> CHR ''0'' \<le> c \<and> c \<le> CHR ''9''"

definition label_ok :: "string \<Rightarrow> bool" where
  "label_ok label \<longleftrightarrow> label \<noteq> [] \<and> hd label \<noteq> CHR ''-'' \<and> last label \<noteq> CHR ''-'' \<and>
     (\<forall>b \<in> set label. is_ascii_lower b \<or> is_ascii_digit b \<or> b = CHR ''-'')"

definition is_lightning_address :: "string \<Rightarrow> bool" where
  "is_lightning_address lower = (case split_once (CHR ''@'') lower of
      None \<Rightarrow> False
    | Some (user, domain) \<Rightarrow>
        if user = [] \<or> \<not> (\<forall>b \<in> set user. is_ascii_lower b \<or> is_ascii_digit b \<or> b \<in> set ''._+-'') then False
        else (let labels = split_on (CHR ''.'') domain in
          if length labels < 2 then False
          else if \<not> list_all label_ok labels then False
          else (let tld = last labels in length tld \<ge> 2 \<and> list_all is_ascii_lower tld)))"

definition classify :: "bolt11_decoder \<Rightarrow> string \<Rightarrow> payment_destination" where
  "classify decode input = (let bare = normalize input in
     if bare = [] then DestEmpty
     else (let lower = to_ascii_lowercase bare in
       if list_ex (\<lambda>p. starts_with p lower) bolt11_prefixes
       then (case summarize decode bare of Some summary \<Rightarrow> DestBolt11 summary | None \<Rightarrow> DestMalformedBolt11)
       else if is_lightning_address lower then DestLightningAddress lower
       else DestUnknown))"

definition family :: "string \<Rightarrow> string" where
  "family name = (let lower = to_ascii_lowercase (str_trim name) in
     if starts_with ''testnet'' lower then ''testnet'' else lower)"

definition network_matches :: "string \<Rightarrow> string list \<Rightarrow> bool" where
  "network_matches invoice_network node_networks \<longleftrightarrow>
     list_ex (\<lambda>n. family n = family invoice_network) node_networks"

definition u64_checked_mul :: "u64 \<Rightarrow> nat \<Rightarrow> u64 option" where
  "u64_checked_mul a k = (if unat a * k < 2 ^ 64 then Some (a * of_nat k) else None)"

definition rejected_with ::
  "invoice_problem \<Rightarrow> u64 option \<Rightarrow> u64 option \<Rightarrow> string option \<Rightarrow> string option \<Rightarrow> u64 option \<Rightarrow> invoice_verdict" where
  "rejected_with problem actual_msat expected_sats invoice_network node_network min_remaining_secs =
     VerdictRejected \<lparr>rj_problem = problem, rj_actual_msat = actual_msat, rj_expected_sats = expected_sats,
       rj_invoice_network = invoice_network, rj_node_network = node_network,
       rj_min_remaining_secs = min_remaining_secs\<rparr>"

definition u64_or_zero :: "i64 \<Rightarrow> u64" where
  "u64_or_zero i = (case u64_of_i64 i of Some v \<Rightarrow> v | None \<Rightarrow> 0)"

definition check ::
  "payment_destination \<Rightarrow> u64 option \<Rightarrow> string list \<Rightarrow> u64 option \<Rightarrow> i64 \<Rightarrow> invoice_verdict" where
  "check destination expected_sats node_networks min_remaining_secs now = (case destination of
      DestEmpty \<Rightarrow> VerdictEmpty
    | DestUnknown \<Rightarrow> rejected_with Unrecognized None None None None None
    | DestMalformedBolt11 \<Rightarrow> rejected_with Malformed None None None None None
    | DestLightningAddress _ \<Rightarrow> VerdictAddress
    | DestBolt11 summary \<Rightarrow>
        if node_networks \<noteq> [] \<and> \<not> network_matches (bs_network summary) node_networks
        then rejected_with WrongNetwork None None (Some (bs_network summary))
               (Some (str_trim (hd node_networks))) None
        else if bs_expires_at summary \<le> now then rejected_with InvoiceExpired None None None None None
        else (let remaining = i64_clamp (bs_expires_at summary - now) in
          case opt_filter (\<lambda>m. u64_or_zero remaining < m) min_remaining_secs of
            Some m \<Rightarrow> rejected_with ExpiresTooSoon None None None None (Some m)
          | None \<Rightarrow> (case (bs_amount_msat summary, expected_sats) of
              (Some actual, Some expected) \<Rightarrow>
                if Some actual \<noteq> u64_checked_mul expected 1000
                then rejected_with WrongAmount (Some actual) (Some expected) None None None
                else VerdictValid expected (u64_or_zero (bs_expires_at summary))
            | _ \<Rightarrow> VerdictUnverified)))"

definition decode_bolt11 :: "bolt11_decoder \<Rightarrow> string \<Rightarrow> bolt11_summary option" where
  "decode_bolt11 decode invoice = summarize decode invoice"

definition classify_payment_destination :: "bolt11_decoder \<Rightarrow> string \<Rightarrow> payment_destination" where
  "classify_payment_destination decode input = classify decode input"

definition check_buyer_invoice ::
  "bolt11_decoder \<Rightarrow> string \<Rightarrow> u64 option \<Rightarrow> string list \<Rightarrow> u64 option \<Rightarrow> i64 \<Rightarrow> invoice_verdict" where
  "check_buyer_invoice decode input expected_sats node_networks min_remaining_secs now =
     check (classify decode input) expected_sats node_networks min_remaining_secs now"

text \<open>\<open>orders::resolve_add_invoice_destination\<close>: what \<open>send_invoice\<close> publishes for the buyer's input.\<close>

definition resolve_add_invoice_destination ::
  "bolt11_decoder \<Rightarrow> string \<Rightarrow> u64 \<Rightarrow> (string, string \<times> u64 option) result" where
  "resolve_add_invoice_destination decode input amount_sats = (case classify decode input of
      DestBolt11 _ \<Rightarrow> Inr (normalize input, None)
    | DestLightningAddress address \<Rightarrow> Inr (address, if amount_sats > 0 then Some amount_sats else None)
    | _ \<Rightarrow> Inl ''InvalidInvoice'')"

section \<open>Laws\<close>

lemma i64_remaining:
  "\<lbrakk>e \<le> i64_max; now < e; i64_min \<le> now\<rbrakk> \<Longrightarrow> u64_of_i64 (i64_clamp (e - now)) = Some (word_of_int (min i64_max (e - now)))"
  by (auto simp: u64_of_i64_def i64_clamp_def i64_bound_defs)

lemma checked_mul_eq: "Some a = u64_checked_mul e k \<longleftrightarrow> unat a = unat e * k"
proof -
  have "unat (e * of_nat k) = unat e * k" if "unat e * k < 2 ^ 64"
    using that by (simp add: unat_mult_lem [symmetric] unat_word_ariths unat_of_nat mod_mult_right_eq)
  then show ?thesis using unsigned_less [of a, where 'a = nat] by (auto simp: u64_checked_mul_def word_unat_eq_iff)
qed

lemma summary_expiry: "summarize decode s = Some b \<Longrightarrow> bs_expires_at b \<le> i64_max"
  by (auto simp: summarize_def)

text \<open>
  C39: The local verdict on a buyer's invoice is exact: an invoice is declared valid precisely when
  it decodes, asks for exactly the trade's amount to the millisatoshi, has not expired, keeps the
  lifetime the node demands and is for a chain the node lists (when it lists any). A rejection for
  any other reason, or none, never hides one of these failures.
\<close>

theorem valid_verdict_is_exact:
  assumes "i64_min \<le> now" and "0 \<le> now"
  shows "(\<exists>e. check_buyer_invoice decode input expected networks lifetime now = VerdictValid sats e) \<longleftrightarrow>
    (\<exists>b msat. classify decode input = DestBolt11 b \<and> expected = Some sats \<and> bs_amount_msat b = Some msat \<and>
       unat msat = unat sats * 1000 \<and> now < bs_expires_at b \<and>
       (\<forall>m. lifetime = Some m \<longrightarrow> uint m \<le> bs_expires_at b - now) \<and>
       (networks = [] \<or> (\<exists>n \<in> set networks. family n = family (bs_network b))))"
proof (cases "classify decode input")
  case (DestBolt11 b)
  have e: "bs_expires_at b \<le> i64_max"
    using DestBolt11 summary_expiry by (auto simp: classify_def Let_def split: if_splits option.splits)
  have life: "u64_or_zero (i64_clamp (bs_expires_at b - now)) < m \<longleftrightarrow> bs_expires_at b - now < uint m"
    if "now < bs_expires_at b" for m
  proof -
    define r where "r = bs_expires_at b - now"
    have r: "0 \<le> r" "r \<le> i64_max" using that e assms by (auto simp: r_def)
    then have "i64_clamp r = r" by (simp add: i64_clamp_def i64_bound_defs)
    moreover have "uint (word_of_int r :: u64) = r"
      using r by (simp add: uint_word_of_int_eq take_bit_int_eq_self i64_bound_defs)
    ultimately show ?thesis
      using r by (simp add: r_def [symmetric] u64_or_zero_def u64_of_i64_def word_less_def i64_bound_defs)
  qed
  show ?thesis
    using DestBolt11 life
    by (auto simp: check_buyer_invoice_def check_def Let_def rejected_with_def network_matches_def list_ex_iff checked_mul_eq
        opt_filter_def split: option.splits if_splits)
qed (auto simp: check_buyer_invoice_def check_def rejected_with_def)

definition sample_decoder :: bolt11_decoder where
  "sample_decoder s = (if s = ''lnbc1x'' then Some \<lparr>b11_created = 100, b11_expiry = 60,
     b11_amount_msat = Some 2000, b11_currency = Bitcoin\<rparr> else None)"

lemma sample_bolt11:
  "classify sample_decoder ''LIGHTNING:LNBC1X '' =
     DestBolt11 \<lparr>bs_amount_msat = Some 2000, bs_expires_at = 160, bs_network = ''mainnet''\<rparr>"
  by code_simp

theorem valid_verdict_is_exact_witness:
  "\<exists>e. check_buyer_invoice sample_decoder ''LIGHTNING:LNBC1X '' (Some 2) [''mainnet''] (Some 30) 120 = VerdictValid 2 e"
  using valid_verdict_is_exact [of 120 sample_decoder "''LIGHTNING:LNBC1X ''" "Some 2" "[''mainnet'']" "Some 30" 2]
  by (simp add: sample_bolt11 i64_bound_defs)

text \<open>
  What \<open>send_invoice\<close> publishes is again what its input was: an invoice that decodes, with no amount,
  or a Lightning address in lower case, with the trade's amount when it is known.
\<close>

lemma address_shape: "is_lightning_address s \<Longrightarrow> CHR ''@'' \<in> set s \<and> s \<noteq> []"
  by (auto simp: is_lightning_address_def split_once_def split: option.splits if_splits)

lemma published_destination:
  assumes "resolve_add_invoice_destination decode input sats = Inr (dest, amount)"
  shows "(amount = None \<or> amount = Some sats \<and> 0 < sats \<and> CHR ''@'' \<in> set dest) \<and>
    (is_lightning_address dest \<or> (\<exists>b. summarize decode (normalize input) = Some b) \<and> dest = normalize input)"
  using assms address_shape
  by (auto simp: resolve_add_invoice_destination_def classify_def Let_def split: if_splits option.splits)

end
