(* ===== verification/Actions.thy ===== *)
theory Actions
  imports Node_Capabilities Identity_Keys Order_Status
begin

text \<open>
  \<open>rust/src/mostro/actions.rs\<close>: the messages the client sends to a node, and their wrapping.

  A built event is a \<open>sent_event\<close>: the keys that sign it, the node it is for, the difficulty it is
  mined at and the message inside. UUID parsing and the transport (\<open>transport::wrap_mostro_message\<close>,
  encryption and mining) are third-party calls: \<open>wx_parse_uuid\<close> and \<open>wx_wrap\<close>. What the capability
  store shows while a call waits for it are the lists of snapshots of \<open>Node_Capabilities\<close>.
\<close>

record out_message =
  om_restore :: bool
  om_id :: "string option"
  om_request_id :: "u64 option"
  om_trade_index :: "i64 option"
  om_action :: core_action
  om_payload :: "core_payload option"

record 'k sent_event =
  ev_identity :: 'k
  ev_trade :: 'k
  ev_node :: string
  ev_pow :: u8
  ev_message :: out_message

record 'k wrap_env =
  wx_parse_uuid :: "string \<Rightarrow> (string, string) result"
  wx_versions :: "advertised option list"
  wx_caps :: "capabilities option list"
  wx_caps_now :: "capabilities option"
  wx_wrap :: "'k sent_event \<Rightarrow> (string, unit) result"

record new_order_params =
  np_kind :: order_kind
  np_fiat_amount :: "f64 option"
  np_fiat_amount_min :: "f64 option"
  np_fiat_amount_max :: "f64 option"
  np_fiat_code :: string
  np_payment_method :: string
  np_premium :: f64
  np_amount_sats :: "u64 option"

text \<open>\<open>x as i64\<close> for an \<open>f64\<close>: towards zero, saturating, NaN to 0.\<close>

definition f64_as_i64 :: "f64 \<Rightarrow> i64" where
  "f64_as_i64 x = (case x of
      F64_fin q \<Rightarrow> i64_clamp (if q < 0 then - \<lfloor>- q\<rfloor> else \<lfloor>q\<rfloor>)
    | F64_inf neg \<Rightarrow> if neg then i64_min else i64_max
    | F64_nan \<Rightarrow> 0)"

definition u64_as_i64 :: "u64 \<Rightarrow> i64" where "u64_as_i64 w = i64_wrap (uint w)"
definition u32_as_i64 :: "u32 \<Rightarrow> i64" where "u32_as_i64 w = uint w"

section \<open>Wrapping\<close>

definition wrap_message_at ::
  "'k wrap_env \<Rightarrow> 'k \<Rightarrow> 'k \<Rightarrow> string \<Rightarrow> out_message \<Rightarrow> u8 \<Rightarrow> (string, 'k sent_event) result" where
  "wrap_message_at env identity_keys trade_keys mostro_pubkey msg pow =
     and_then (ensure_supported_within mostro_pubkey (wx_versions env)) (\<lambda>_.
       let event = \<lparr>ev_identity = identity_keys, ev_trade = trade_keys, ev_node = mostro_pubkey,
                    ev_pow = pow, ev_message = msg\<rparr>
       in and_then (wx_wrap env event) (\<lambda>_. Inr event))"

definition wrap_message ::
  "'k wrap_env \<Rightarrow> 'k \<Rightarrow> 'k \<Rightarrow> string \<Rightarrow> out_message \<Rightarrow> (string, 'k sent_event) result" where
  "wrap_message env identity_keys trade_keys mostro_pubkey msg =
     wrap_message_at env identity_keys trade_keys mostro_pubkey msg (get_pow (wx_caps_now env))"

definition wrap_message_first_contact ::
  "'k wrap_env \<Rightarrow> 'k \<Rightarrow> 'k \<Rightarrow> string \<Rightarrow> out_message \<Rightarrow> (string, 'k sent_event) result" where
  "wrap_message_first_contact env identity_keys trade_keys mostro_pubkey msg =
     and_then (first_contact_pow_within mostro_pubkey (wx_caps env))
       (wrap_message_at env identity_keys trade_keys mostro_pubkey msg)"

section \<open>Messages\<close>

text \<open>\<open>Message::new_order\<close>, for the order messages.\<close>

definition order_message ::
  "string option \<Rightarrow> u64 option \<Rightarrow> i64 option \<Rightarrow> core_action \<Rightarrow> core_payload option \<Rightarrow> out_message" where
  "order_message i request_id trade_index action payload =
     \<lparr>om_restore = False, om_id = i, om_request_id = request_id, om_trade_index = trade_index,
      om_action = action, om_payload = payload\<rparr>"

definition new_order_message :: "new_order_params \<Rightarrow> u32 \<Rightarrow> u64 \<Rightarrow> i64 option \<Rightarrow> out_message" where
  "new_order_message params trade_index request_id expire_at =
     (let small_order = \<lparr>so_kind = Some (np_kind params), so_status = Some S_Pending,
            so_amount = u64_as_i64 (case np_amount_sats params of Some a \<Rightarrow> a | None \<Rightarrow> 0),
            so_fiat_code = np_fiat_code params,
            so_min_amount = map_option f64_as_i64 (np_fiat_amount_min params),
            so_max_amount = map_option f64_as_i64 (np_fiat_amount_max params),
            so_fiat_amount = f64_as_i64 (case np_fiat_amount params of Some a \<Rightarrow> a | None \<Rightarrow> F64_fin 0),
            so_payment_method = np_payment_method params, so_premium = f64_as_i64 (np_premium params),
            so_buyer_trade_pubkey = None, so_seller_trade_pubkey = None,
            so_created_at = None, so_expires_at = expire_at\<rparr>
      in order_message None (Some request_id) (Some (u32_as_i64 trade_index)) A_NewOrder (Some (P_Order small_order)))"

definition new_order ::
  "'k wrap_env \<Rightarrow> 'k \<Rightarrow> 'k \<Rightarrow> string \<Rightarrow> new_order_params \<Rightarrow> u32 \<Rightarrow> u64 \<Rightarrow> i64 option \<Rightarrow> (string, 'k sent_event) result" where
  "new_order env identity_keys trade_keys mostro_pubkey params trade_index request_id expire_at =
     wrap_message_first_contact env identity_keys trade_keys mostro_pubkey
       (new_order_message params trade_index request_id expire_at)"

definition take_payload :: "f64 option \<Rightarrow> string option \<Rightarrow> core_payload option" where
  "take_payload amount ln_address = (case (amount, ln_address) of
      (amt, Some addr) \<Rightarrow> Some (P_PaymentRequest None addr (map_option f64_as_i64 amt))
    | (Some amt, None) \<Rightarrow> Some (P_Amount (f64_as_i64 amt))
    | (None, None) \<Rightarrow> None)"

definition take_order_impl ::
  "'k wrap_env \<Rightarrow> 'k \<Rightarrow> 'k \<Rightarrow> string \<Rightarrow> string \<Rightarrow> u32 \<Rightarrow> f64 option \<Rightarrow> string option \<Rightarrow> core_action \<Rightarrow> u64
     \<Rightarrow> (string, 'k sent_event) result" where
  "take_order_impl env identity_keys trade_keys mostro_pubkey order_id trade_index amount ln_address action request_id =
     and_then (wx_parse_uuid env order_id) (\<lambda>i.
       wrap_message_first_contact env identity_keys trade_keys mostro_pubkey
         (order_message (Some i) (Some request_id) (Some (u32_as_i64 trade_index)) action
            (take_payload amount ln_address)))"

definition take_buy ::
  "'k wrap_env \<Rightarrow> 'k \<Rightarrow> 'k \<Rightarrow> string \<Rightarrow> string \<Rightarrow> u32 \<Rightarrow> f64 option \<Rightarrow> u64 \<Rightarrow> (string, 'k sent_event) result" where
  "take_buy env identity_keys trade_keys mostro_pubkey order_id trade_index amount request_id =
     take_order_impl env identity_keys trade_keys mostro_pubkey order_id trade_index amount None A_TakeBuy request_id"

definition take_sell ::
  "'k wrap_env \<Rightarrow> 'k \<Rightarrow> 'k \<Rightarrow> string \<Rightarrow> string \<Rightarrow> u32 \<Rightarrow> f64 option \<Rightarrow> string option \<Rightarrow> u64 \<Rightarrow> (string, 'k sent_event) result" where
  "take_sell env identity_keys trade_keys mostro_pubkey order_id trade_index amount ln_address request_id =
     take_order_impl env identity_keys trade_keys mostro_pubkey order_id trade_index amount ln_address A_TakeSell request_id"

definition action_message ::
  "'k wrap_env \<Rightarrow> string \<Rightarrow> u32 \<Rightarrow> core_action \<Rightarrow> (string \<times> u32) option \<Rightarrow> (string, out_message) result" where
  "action_message env order_id trade_index action next_trade =
     and_then (wx_parse_uuid env order_id) (\<lambda>i.
       Inr (order_message (Some i) None (Some (u32_as_i64 trade_index)) action
              (map_option (\<lambda>(pubkey, index). P_NextTrade pubkey index) next_trade)))"

definition release_message ::
  "'k wrap_env \<Rightarrow> string \<Rightarrow> u32 \<Rightarrow> (string \<times> u32) option \<Rightarrow> (string, out_message) result" where
  "release_message env order_id trade_index next_trade = action_message env order_id trade_index A_Release next_trade"

definition fiat_sent ::
  "'k wrap_env \<Rightarrow> 'k \<Rightarrow> 'k \<Rightarrow> string \<Rightarrow> string \<Rightarrow> u32 \<Rightarrow> (string \<times> u32) option \<Rightarrow> (string, 'k sent_event) result" where
  "fiat_sent env identity_keys trade_keys mostro_pubkey order_id trade_index next_trade =
     and_then (action_message env order_id trade_index A_FiatSent next_trade)
       (wrap_message env identity_keys trade_keys mostro_pubkey)"

definition release ::
  "'k wrap_env \<Rightarrow> 'k \<Rightarrow> 'k \<Rightarrow> string \<Rightarrow> string \<Rightarrow> u32 \<Rightarrow> (string \<times> u32) option \<Rightarrow> (string, 'k sent_event) result" where
  "release env identity_keys trade_keys mostro_pubkey order_id trade_index next_trade =
     and_then (release_message env order_id trade_index next_trade)
       (wrap_message env identity_keys trade_keys mostro_pubkey)"

definition simple_action ::
  "'k wrap_env \<Rightarrow> 'k \<Rightarrow> 'k \<Rightarrow> string \<Rightarrow> string \<Rightarrow> u32 \<Rightarrow> core_action \<Rightarrow> (string, 'k sent_event) result" where
  "simple_action env identity_keys trade_keys mostro_pubkey order_id trade_index action =
     and_then (wx_parse_uuid env order_id) (\<lambda>i.
       wrap_message env identity_keys trade_keys mostro_pubkey
         (order_message (Some i) None (Some (u32_as_i64 trade_index)) action None))"

definition cancel ::
  "'k wrap_env \<Rightarrow> 'k \<Rightarrow> 'k \<Rightarrow> string \<Rightarrow> string \<Rightarrow> u32 \<Rightarrow> (string, 'k sent_event) result" where
  "cancel env identity_keys trade_keys mostro_pubkey order_id trade_index =
     simple_action env identity_keys trade_keys mostro_pubkey order_id trade_index A_Cancel"

definition dispute ::
  "'k wrap_env \<Rightarrow> 'k \<Rightarrow> 'k \<Rightarrow> string \<Rightarrow> string \<Rightarrow> u32 \<Rightarrow> u64 \<Rightarrow> (string, 'k sent_event) result" where
  "dispute env identity_keys trade_keys mostro_pubkey order_id trade_index request_id =
     and_then (wx_parse_uuid env order_id) (\<lambda>i.
       wrap_message env identity_keys trade_keys mostro_pubkey
         (order_message (Some i) (Some request_id) (Some (u32_as_i64 trade_index)) A_Dispute None))"

definition rate_user ::
  "'k wrap_env \<Rightarrow> 'k \<Rightarrow> 'k \<Rightarrow> string \<Rightarrow> string \<Rightarrow> u32 \<Rightarrow> u8 \<Rightarrow> (string, 'k sent_event) result" where
  "rate_user env identity_keys trade_keys mostro_pubkey order_id trade_index score =
     and_then (wx_parse_uuid env order_id) (\<lambda>i.
       wrap_message env identity_keys trade_keys mostro_pubkey
         (order_message (Some i) None (Some (u32_as_i64 trade_index)) A_RateUser (Some (P_RatingUser score))))"

definition add_bond_invoice ::
  "'k wrap_env \<Rightarrow> 'k \<Rightarrow> 'k \<Rightarrow> string \<Rightarrow> string \<Rightarrow> u32 \<Rightarrow> string \<Rightarrow> u64 \<Rightarrow> (string, 'k sent_event) result" where
  "add_bond_invoice env identity_keys trade_keys node_pubkey order_id trade_index invoice request_id =
     and_then (wx_parse_uuid env order_id) (\<lambda>i.
       wrap_message env identity_keys trade_keys node_pubkey
         (order_message (Some i) (Some request_id) (Some (u32_as_i64 trade_index)) A_AddBondInvoice
            (Some (P_PaymentRequest None invoice None))))"

definition add_invoice ::
  "'k wrap_env \<Rightarrow> 'k \<Rightarrow> 'k \<Rightarrow> string \<Rightarrow> string \<Rightarrow> u32 \<Rightarrow> string \<Rightarrow> u64 option \<Rightarrow> u64 \<Rightarrow> (string, 'k sent_event) result" where
  "add_invoice env identity_keys trade_keys mostro_pubkey order_id trade_index invoice amount_sats request_id =
     and_then (wx_parse_uuid env order_id) (\<lambda>i.
       let amount_field = (if CHR ''@'' \<in> set invoice then map_option u64_as_i64 amount_sats else None) in
       wrap_message env identity_keys trade_keys mostro_pubkey
         (order_message (Some i) (Some request_id) (Some (u32_as_i64 trade_index)) A_AddInvoice
            (Some (P_PaymentRequest None invoice amount_field))))"

definition restore_session :: "'k wrap_env \<Rightarrow> 'k \<Rightarrow> 'k \<Rightarrow> string \<Rightarrow> (string, 'k sent_event) result" where
  "restore_session env identity_keys trade_keys mostro_pubkey =
     wrap_message_first_contact env identity_keys trade_keys mostro_pubkey
       \<lparr>om_restore = True, om_id = None, om_request_id = None, om_trade_index = None,
        om_action = A_RestoreSession, om_payload = None\<rparr>"

definition last_trade_index_request ::
  "'k wrap_env \<Rightarrow> 'k \<Rightarrow> 'k \<Rightarrow> string \<Rightarrow> u64 \<Rightarrow> (string, 'k sent_event) result" where
  "last_trade_index_request env identity_keys trade_keys mostro_pubkey request_id =
     wrap_message_first_contact env identity_keys trade_keys mostro_pubkey
       \<lparr>om_restore = True, om_id = None, om_request_id = Some request_id, om_trade_index = None,
        om_action = A_LastTradeIndex, om_payload = None\<rparr>"

section \<open>Laws\<close>

lemma wrapped_at:
  "wrap_message_at env idk tk node msg pow = Inr ev \<longleftrightarrow>
     ensure_supported_within node (wx_versions env) = Inr () \<and> wx_wrap env ev = Inr () \<and>
     ev = \<lparr>ev_identity = idk, ev_trade = tk, ev_node = node, ev_pow = pow, ev_message = msg\<rparr>"
  by (auto simp: wrap_message_at_def and_then_Inr_iff Let_def)

lemma wrapped:
  "wrap_message env idk tk node msg = Inr ev \<longleftrightarrow>
     ensure_supported_within node (wx_versions env) = Inr () \<and> wx_wrap env ev = Inr () \<and>
     ev = \<lparr>ev_identity = idk, ev_trade = tk, ev_node = node, ev_pow = get_pow (wx_caps_now env), ev_message = msg\<rparr>"
  by (simp add: wrap_message_def wrapped_at)

lemma wrapped_first:
  "wrap_message_first_contact env idk tk node msg = Inr ev \<longleftrightarrow>
     (\<exists>pow. first_contact_pow_within node (wx_caps env) = Inr pow \<and>
        ensure_supported_within node (wx_versions env) = Inr () \<and> wx_wrap env ev = Inr () \<and>
        ev = \<lparr>ev_identity = idk, ev_trade = tk, ev_node = node, ev_pow = pow, ev_message = msg\<rparr>)"
  by (auto simp: wrap_message_first_contact_def and_then_Inr_iff wrapped_at)

lemma whole_part:
  assumes "0 \<le> q" "q < 2 ^ 63"
  shows "f64_as_i64 (F64_fin q) = \<lfloor>q\<rfloor>"
proof -
  have "\<lfloor>q\<rfloor> < 2 ^ 63" using assms(2) by (metis floor_less_iff of_int_numeral of_int_power)
  moreover have "0 \<le> \<lfloor>q\<rfloor>" using assms(1) by simp
  ultimately show ?thesis
    using assms(1) by (simp add: f64_as_i64_def i64_clamp_def i64_max_def i64_min_def)
qed

end
