(* ===== verification/User_Flows.thy ===== *)
theory User_Flows
  imports Actions Invoices Dispatch
begin

text \<open>
  What the user asks of the daemon (\<open>api/orders.rs\<close>): creating and taking an order, the invoice, fiat
  sent, release, cancel and the re-request of a bond invoice.

  A flow runs in two halves around the wait for the daemon's answer. \<open>flow\<close> is the state they touch: the
  world of the dispatcher, the identity, the events a relay accepted and the subscriptions asked
  for. \<open>attempt_env\<close> holds what one attempt meets: the identifiers it draws, the answers of stores,
  relays and capability waits, and \<open>ae_wait\<close>, everything that happens to the world while it waits at
  most ten seconds. An answer has arrived when the dispatcher sent one to the attempt's waiter.
\<close>

text \<open>\<open>fl_marks\<close> logs the order in which keys were covered, watched and events accepted; nothing reads it.\<close>

datatype flow_mark = MarkCovered string u32 | MarkWatched string u32 | MarkSent

record 'k flow =
  fl_world :: world
  fl_identity :: "'k identity_env"
  fl_sent :: "'k sent_event list"
  fl_covered :: "(string \<times> u32) list"
  fl_watched :: "(string \<times> u32) list"
  fl_watched_orders :: "string list"
  fl_marks :: "flow_mark list"

record ('seed, 'x, 'k) attempt_env =
  ae_lib :: "('seed, 'x, 'k) key_lib"
  ae_crypto :: "'k crypto"
  ae_wrap :: "'k wrap_env"
  ae_decoder :: bolt11_decoder
  ae_uuid :: string
  ae_save :: "string option"
  ae_privacy :: bool
  ae_request_id :: u64
  ae_tx :: waiter
  ae_dropped :: "waiter set"
  ae_order_expiry :: "u64 option"
  ae_ln_address :: "string option"
  ae_publish :: "string option"
  ae_wait :: "world \<Rightarrow> world"

definition on_world :: "(world \<Rightarrow> world) \<Rightarrow> 'k flow \<Rightarrow> 'k flow" where
  "on_world f fl = fl\<lparr>fl_world := f (fl_world fl)\<rparr>"

definition ensure_global_dm_coverage :: "string \<Rightarrow> u32 \<Rightarrow> 'k flow \<Rightarrow> 'k flow" where
  "ensure_global_dm_coverage pk index fl = fl\<lparr>fl_covered := fl_covered fl @ [(pk, index)],
     fl_marks := fl_marks fl @ [MarkCovered pk index]\<rparr>"

definition subscribe_daemon_messages :: "string \<Rightarrow> u32 \<Rightarrow> 'k flow \<Rightarrow> 'k flow" where
  "subscribe_daemon_messages pk index fl = fl\<lparr>fl_watched := fl_watched fl @ [(pk, index)],
     fl_marks := fl_marks fl @ [MarkWatched pk index]\<rparr>"

definition publish_event_json ::
  "('seed, 'x, 'k) attempt_env \<Rightarrow> 'k sent_event \<Rightarrow> 'k flow \<Rightarrow> (string, unit) result \<times> 'k flow" where
  "publish_event_json env event fl = (case ae_publish env of
      Some e \<Rightarrow> (Inl e, fl)
    | None \<Rightarrow> (Inr (), fl\<lparr>fl_sent := fl_sent fl @ [event], fl_marks := fl_marks fl @ [MarkSent]\<rparr>))"

definition insert_pending :: "string \<Rightarrow> pending_request \<Rightarrow> world \<Rightarrow> world" where
  "insert_pending pk request w = w\<lparr>w_pending := fmupd pk request (w_pending w)\<rparr>"

definition drop_pending :: "string \<Rightarrow> u64 \<Rightarrow> world \<Rightarrow> world" where
  "drop_pending pk request_id w = w\<lparr>w_pending := remove_pending_request pk request_id (w_pending w)\<rparr>"

definition detach_waiter :: "string \<Rightarrow> u64 \<Rightarrow> world \<Rightarrow> world" where
  "detach_waiter pk request_id w = w\<lparr>w_pending := detach_request_waiter pk request_id (w_pending w)\<rparr>"

text \<open>
  \<open>timeout(10s, conf_rx)\<close> with the detach that follows it: the answer sent to this waiter, or
  \<open>None\<close> when none came in time or the record was dropped.
\<close>

definition await_reply :: "('seed, 'x, 'k) attempt_env \<Rightarrow> string \<Rightarrow> world \<Rightarrow> daemon_reply option \<times> world" where
  "await_reply env pk w = (let w1 = ae_wait env w in
     case map_of (w_wakes w1) (ae_tx env) of
       Some reply \<Rightarrow> (Some reply, w1)
     | None \<Rightarrow> (None, detach_waiter pk (ae_request_id env) w1))"

text \<open>The keys a message of an existing trade is signed with, and the key of the node.\<close>

definition node_key :: "('seed, 'x, 'k) attempt_env \<Rightarrow> world \<Rightarrow> (string, string) result" where
  "node_key env w = (case cr_parse_pubkey (ae_crypto env) (w_mostro w) of
      Some pk \<Rightarrow> Inr pk | None \<Rightarrow> Inl ''invalid public key'')"

definition trade_keys_of ::
  "('seed, 'x, 'k) attempt_env \<Rightarrow> u32 \<Rightarrow> 'k flow \<Rightarrow> (string, 'k \<times> 'k \<times> string) result" where
  "trade_keys_of env index fl =
     and_then (get_active_trade_keys (ae_lib env) index (fl_identity fl)) (\<lambda>sender_keys.
     and_then (get_transport_identity_keys (ae_privacy env) sender_keys (fl_identity fl)) (\<lambda>identity_keys.
     and_then (node_key env (fl_world fl)) (\<lambda>node. Inr (sender_keys, identity_keys, node))))"

definition lookup_key :: "string \<Rightarrow> 'k flow \<Rightarrow> u32 option \<times> 'k flow" where
  "lookup_key order_id fl = (let (idx, w) = lookup_trade_key_index order_id (fl_world fl) in (idx, fl\<lparr>fl_world := w\<rparr>))"

section \<open>Creating an order\<close>

definition validate_new_order :: "new_order_params \<Rightarrow> string option" where
  "validate_new_order p =
     (let has_fixed = np_fiat_amount p \<noteq> None;
          has_range = np_fiat_amount_min p \<noteq> None \<and> np_fiat_amount_max p \<noteq> None in
      if has_fixed = has_range
      then Some ''Must provide either fiat_amount or both fiat_amount_min and fiat_amount_max''
      else case (case np_fiat_amount p of
             Some a \<Rightarrow> if f64_le a (F64_fin 0) \<or> \<not> f64_is_finite a then Some ''fiat_amount must be > 0'' else None
           | None \<Rightarrow> None) of
        Some e \<Rightarrow> Some e
      | None \<Rightarrow> (case (case (has_range, np_fiat_amount_min p, np_fiat_amount_max p) of
             (True, Some mn, Some mx) \<Rightarrow>
               if \<not> f64_is_finite mn \<or> \<not> f64_is_finite mx
               then Some ''fiat_amount_min and fiat_amount_max must be finite''
               else if f64_le mn (F64_fin 0) \<or> f64_le mx mn
               then Some ''fiat_amount_min must be > 0 and < fiat_amount_max'' else None
           | _ \<Rightarrow> None) of
          Some e \<Rightarrow> Some e
        | None \<Rightarrow>
            if str_trim (np_fiat_code p) = [] then Some ''fiat_code must not be empty''
            else if str_trim (np_payment_method p) = [] then Some ''payment_method must not be empty''
            else None))"

definition requested_expiry :: "u64 option \<Rightarrow> i64 \<Rightarrow> i64 option" where
  "requested_expiry override now = map_option (\<lambda>secs. i64_saturating_add now (uint secs))
     (opt_filter (\<lambda>secs. uint secs \<le> i64_max) override)"

definition new_local_order :: "('seed, 'x, 'k) attempt_env \<Rightarrow> new_order_params \<Rightarrow> world \<Rightarrow> order_info" where
  "new_local_order env p w =
     \<lparr>oi_id = ae_uuid env, oi_kind = np_kind p, oi_status = Pending, oi_amount_sats = np_amount_sats p,
      oi_fiat_amount = np_fiat_amount p, oi_fiat_amount_min = np_fiat_amount_min p,
      oi_fiat_amount_max = np_fiat_amount_max p, oi_fiat_code = np_fiat_code p,
      oi_payment_method = np_payment_method p, oi_premium = np_premium p, oi_creator_pubkey = w_mostro w,
      oi_created_at = w_now w,
      oi_expires_at = Some (case requested_expiry (ae_order_expiry env) (w_now w) of
          Some e \<Rightarrow> e | None \<Rightarrow> w_now w + 24 * 3600),
      oi_is_mine = True, oi_rating = F64_fin 0, oi_total_reviews = 0, oi_days_active = 0\<rparr>"

text \<open>A fresh trade key: derived, and its keys.\<close>

definition derive_fresh ::
  "('seed, 'x, 'k) attempt_env \<Rightarrow> 'k flow \<Rightarrow> (string, u32) result \<times> 'k flow" where
  "derive_fresh env fl = (let (r, ident) = derive_trade_key (ae_lib env) (ae_save env) (fl_identity fl) in
     (and_then r (\<lambda>info. Inr (tki_index info)), fl\<lparr>fl_identity := ident\<rparr>))"

text \<open>Registering the attempt, watching its key, and publishing; what a failed publish undoes is \<open>undo\<close>.\<close>

definition register_and_publish ::
  "('seed, 'x, 'k) attempt_env \<Rightarrow> 'k \<Rightarrow> u32 \<Rightarrow> pending_kind \<Rightarrow> 'k sent_event \<Rightarrow> (world \<Rightarrow> world) \<Rightarrow> 'k flow
     \<Rightarrow> (string, string) result \<times> 'k flow" where
  "register_and_publish env sender_keys trade_index kind event undo fl =
     (let pk = kl_pubkey_hex (ae_lib env) sender_keys;
          fl1 = subscribe_daemon_messages pk trade_index (on_world (insert_pending pk
                  \<lparr>pr_request_id = ae_request_id env, pr_trade_index = trade_index, pr_kind = kind,
                   pr_tx = Some (ae_tx env)\<rparr>) fl)
      in case publish_event_json env event fl1 of
           (Inl e, fl2) \<Rightarrow> (Inl e, on_world (\<lambda>w. drop_pending pk (ae_request_id env) (undo w)) fl2)
         | (Inr _, fl2) \<Rightarrow> (Inr pk, fl2))"

definition create_send ::
  "('seed, 'x, 'k) attempt_env \<Rightarrow> new_order_params \<Rightarrow> 'k flow
     \<Rightarrow> (string, order_info \<times> u32 \<times> string) result \<times> 'k flow" where
  "create_send env params fl = (case validate_new_order params of
      Some e \<Rightarrow> (Inl e, fl)
    | None \<Rightarrow>
        let w = fl_world fl; order = new_local_order env params w in
        (case ensure_supported_within (w_mostro w) (wx_versions (ae_wrap env)) of
           Inl e \<Rightarrow> (Inl e, fl)
         | Inr _ \<Rightarrow> (case derive_fresh env fl of
             (Inl e, fl1) \<Rightarrow> (Inl e, fl1)
           | (Inr trade_index, fl1) \<Rightarrow> (case get_active_trade_keys (ae_lib env) trade_index (fl_identity fl1) of
               Inl e \<Rightarrow> (Inl e, fl1)
             | Inr sender_keys \<Rightarrow>
                 let pk = kl_pubkey_hex (ae_lib env) sender_keys;
                     fl2 = on_world (store_trade_key_index (oi_id order) trade_index)
                             (ensure_global_dm_coverage pk trade_index fl1) in
                 (case and_then (node_key env (fl_world fl2)) (\<lambda>node.
                       and_then (get_transport_identity_keys (ae_privacy env) sender_keys (fl_identity fl2)) (\<lambda>identity_keys.
                         new_order (ae_wrap env) identity_keys sender_keys node params trade_index (ae_request_id env)
                           (requested_expiry (ae_order_expiry env) (w_now w)))) of
                    Inl e \<Rightarrow> (Inl e, fl2)
                  | Inr event \<Rightarrow>
                      (case register_and_publish env sender_keys trade_index (KCreate (oi_id order) False) event
                              (\<lambda>w. w\<lparr>w_key_map := fmdrop (oi_id order) (w_key_map w)\<rparr>) fl2 of
                         (Inl e, fl3) \<Rightarrow> (Inl e, fl3)
                       | (Inr pk, fl3) \<Rightarrow> (Inr (order, trade_index, pk), fl3)))))))"

definition maker_trade :: "order_info \<Rightarrow> bond_info option \<Rightarrow> u32 \<Rightarrow> i64 \<Rightarrow> trade_info" where
  "maker_trade order bond trade_index now =
     \<lparr>ti_id = oi_id order, ti_order = order, ti_role = role_of_kind (oi_kind order), ti_counterparty_pubkey = [],
      ti_current_step = (case role_of_kind (oi_kind order) of
          Seller \<Rightarrow> StepSeller SOrderPublished | Buyer \<Rightarrow> StepBuyer BOrderTaken),
      ti_hold_invoice = None, ti_buyer_invoice = None, ti_trade_key_index = trade_index,
      ti_cooperative_cancel_state = None, ti_timeout_at = None, ti_started_at = now, ti_completed_at = None,
      ti_outcome = None, ti_peer_rating = None, ti_peer_reviews = None, ti_peer_days = None,
      ti_rated_at = None, ti_bond = bond\<rparr>"

text \<open>The daemon's verdict: its id for the order and the maker's bond, or the error shown.\<close>

definition create_verdict :: "daemon_reply option \<Rightarrow> (string, string \<times> bond_request option) result" where
  "create_verdict reply = (case reply of
      Some (Confirmed daemon_id) \<Rightarrow> Inr (daemon_id, None)
    | Some (BondRequestedReply daemon_id bond) \<Rightarrow> Inr (daemon_id, Some bond)
    | Some (Rejected reason message) \<Rightarrow> Inl message
    | _ \<Rightarrow> Inl no_daemon_response)"

definition create_settle ::
  "('seed, 'x, 'k) attempt_env \<Rightarrow> order_info \<Rightarrow> u32 \<Rightarrow> i64 \<Rightarrow> daemon_reply option \<Rightarrow> world
     \<Rightarrow> (string, order_info) result \<times> world" where
  "create_settle env order trade_index now reply w = (case create_verdict reply of
      Inl e \<Rightarrow> (Inl e, w)
    | Inr (daemon_id, maker_bond) \<Rightarrow>
        let order1 = order\<lparr>oi_id := daemon_id\<rparr>;
            order2 = (if maker_bond = None then order1 else order1\<lparr>oi_status := WaitingMakerBond\<rparr>);
            bond = map_option (\<lambda>request. bond_requested (ae_crypto env) BondMaker request now) maker_bond;
            trade = maker_trade order2 bond trade_index now
        in (Inr order2, if has_db w then snd (persist_trade_row trade w) else w))"

definition create_order_once ::
  "('seed, 'x, 'k) attempt_env \<Rightarrow> new_order_params \<Rightarrow> 'k flow \<Rightarrow> (string, order_info) result \<times> 'k flow" where
  "create_order_once env params fl = (case create_send env params fl of
      (Inl e, fl1) \<Rightarrow> (Inl e, fl1)
    | (Inr (order, trade_index, pk), fl1) \<Rightarrow>
        let (reply, w1) = await_reply env pk (fl_world fl1);
            (result, w2) = create_settle env order trade_index (oi_created_at order) reply w1
        in (result, fl1\<lparr>fl_world := w2\<rparr>))"

text \<open>At most two attempts, each with what it meets; a state without attempts left does not occur.\<close>

definition next_attempt ::
  "(('seed, 'x, 'k) attempt_env \<Rightarrow> 'k flow \<Rightarrow> (string, 'a) result \<times> 'k flow) \<Rightarrow>
     ('seed, 'x, 'k) attempt_env list \<times> 'k flow \<Rightarrow> (string, 'a) result \<times> ('seed, 'x, 'k) attempt_env list \<times> 'k flow" where
  "next_attempt once s = (case s of
      ([], fl) \<Rightarrow> (Inl no_daemon_response, [], fl)
    | (env # envs, fl) \<Rightarrow> (let (r, fl1) = once env fl in (r, envs, fl1)))"

definition with_identity ::
  "('k identity_env \<Rightarrow> (string, u32 option) result \<times> 'k identity_env) \<Rightarrow>
     'e \<times> 'k flow \<Rightarrow> (string, u32 option) result \<times> 'e \<times> 'k flow" where
  "with_identity resync s = (case s of (envs, fl) \<Rightarrow>
     (let (r, ident) = resync (fl_identity fl) in (r, envs, fl\<lparr>fl_identity := ident\<rparr>)))"

definition create_order ::
  "('k identity_env \<Rightarrow> (string, u32 option) result \<times> 'k identity_env) \<Rightarrow> new_order_params \<Rightarrow>
     ('seed, 'x, 'k) attempt_env list \<times> 'k flow \<Rightarrow>
     (string, order_info) result \<times> ('seed, 'x, 'k) attempt_env list \<times> 'k flow" where
  "create_order resync params =
     retry_after_resync (next_attempt (\<lambda>env. create_order_once env params)) (with_identity resync)"

section \<open>Taking an order\<close>

definition expected_role :: "order_kind \<Rightarrow> trade_role" where
  "expected_role k = (case k of Buy \<Rightarrow> Seller | Sell \<Rightarrow> Buyer)"

definition validate_take :: "string \<Rightarrow> trade_role \<Rightarrow> f64 option \<Rightarrow> world \<Rightarrow> (string, order_info) result" where
  "validate_take order_id role fiat_amount w = (case book_order order_id w of
      None \<Rightarrow> Inl ''OrderNotFound''
    | Some order \<Rightarrow>
        if oi_is_mine order then Inl ''CannotTakeOwnOrder''
        else if oi_status order \<noteq> Pending then Inl ''OrderAlreadyTaken''
        else case (case (oi_fiat_amount_min order, oi_fiat_amount_max order) of
               (Some mn, Some mx) \<Rightarrow> (case fiat_amount of
                   None \<Rightarrow> Some ''FiatAmountRequired''
                 | Some amt \<Rightarrow>
                     if \<not> f64_is_finite amt \<or> f64_le amt (F64_fin 0) then Some ''fiat_amount must be positive and finite''
                     else if f64_less amt mn \<or> f64_less mx amt then Some ''OutOfRange'' else None)
             | _ \<Rightarrow> None) of
          Some e \<Rightarrow> Inl e
        | None \<Rightarrow> if role \<noteq> expected_role (oi_kind order) then Inl ''InvalidRole'' else Inr order)"

definition take_event ::
  "('seed, 'x, 'k) attempt_env \<Rightarrow> 'k \<Rightarrow> 'k \<Rightarrow> string \<Rightarrow> string \<Rightarrow> trade_role \<Rightarrow> u32 \<Rightarrow> f64 option
     \<Rightarrow> (string, 'k sent_event) result" where
  "take_event env identity_keys sender_keys node order_id role trade_index fiat_amount = (case role of
      Buyer \<Rightarrow> take_sell (ae_wrap env) identity_keys sender_keys node order_id trade_index fiat_amount
                (ae_ln_address env) (ae_request_id env)
    | Seller \<Rightarrow> take_buy (ae_wrap env) identity_keys sender_keys node order_id trade_index fiat_amount
                (ae_request_id env))"

definition take_send ::
  "('seed, 'x, 'k) attempt_env \<Rightarrow> string \<Rightarrow> trade_role \<Rightarrow> f64 option \<Rightarrow> 'k flow
     \<Rightarrow> (string, order_info \<times> u32 \<times> string) result \<times> 'k flow" where
  "take_send env order_id role fiat_amount fl = (case validate_take order_id role fiat_amount (fl_world fl) of
      Inl e \<Rightarrow> (Inl e, fl)
    | Inr order \<Rightarrow> (case derive_fresh env fl of
        (Inl e, fl1) \<Rightarrow> (Inl e, fl1)
      | (Inr trade_index, fl1) \<Rightarrow> (case get_active_trade_keys (ae_lib env) trade_index (fl_identity fl1) of
          Inl e \<Rightarrow> (Inl e, fl1)
        | Inr sender_keys \<Rightarrow>
            let fl2 = ensure_global_dm_coverage (kl_pubkey_hex (ae_lib env) sender_keys) trade_index fl1 in
            (case and_then (node_key env (fl_world fl2)) (\<lambda>node.
                  and_then (get_transport_identity_keys (ae_privacy env) sender_keys (fl_identity fl2)) (\<lambda>identity_keys.
                    take_event env identity_keys sender_keys node order_id role trade_index fiat_amount)) of
               Inl e \<Rightarrow> (Inl e, fl2)
             | Inr event \<Rightarrow>
                 (case register_and_publish env sender_keys trade_index KTake event (\<lambda>w. w) fl2 of
                    (Inl e, fl3) \<Rightarrow> (Inl e, fl3)
                  | (Inr pk, fl3) \<Rightarrow> (Inr (order, trade_index, pk), fl3))))))"

record take_terms =
  tt_status :: "order_status option"
  tt_amount_sats :: "u64 option"
  tt_hold_invoice :: "string option"
  tt_bond :: "bond_request option"

definition take_verdict :: "daemon_reply option \<Rightarrow> (string, take_terms) result" where
  "take_verdict reply = (case reply of
      Some (TakeAccepted action status amount_sats hold_invoice bond) \<Rightarrow>
        Inr \<lparr>tt_status = status, tt_amount_sats = amount_sats, tt_hold_invoice = hold_invoice, tt_bond = bond\<rparr>
    | Some (Rejected reason message) \<Rightarrow> Inl message
    | Some (Confirmed _) \<Rightarrow> Inr \<lparr>tt_status = None, tt_amount_sats = None, tt_hold_invoice = None, tt_bond = None\<rparr>
    | _ \<Rightarrow> Inl no_daemon_response)"

definition taken_order :: "order_info \<Rightarrow> take_terms \<Rightarrow> f64 option \<Rightarrow> order_info" where
  "taken_order order terms fiat_amount =
     (let o1 = (case tt_status terms of Some s \<Rightarrow> order\<lparr>oi_status := s\<rparr> | None \<Rightarrow> order);
          o2 = (if tt_amount_sats terms \<noteq> None then o1\<lparr>oi_amount_sats := tt_amount_sats terms\<rparr> else o1)
      in if fiat_amount \<noteq> None then o2\<lparr>oi_fiat_amount := fiat_amount\<rparr> else o2)"

definition taken_trade ::
  "('seed, 'x, 'k) attempt_env \<Rightarrow> order_info \<Rightarrow> trade_role \<Rightarrow> f64 option \<Rightarrow> take_terms \<Rightarrow> u32 \<Rightarrow> i64 \<Rightarrow> trade_info" where
  "taken_trade env order role fiat_amount terms trade_index now =
     \<lparr>ti_id = ae_uuid env, ti_order = taken_order order terms fiat_amount, ti_role = role,
      ti_counterparty_pubkey = [],
      ti_current_step = (case role of Buyer \<Rightarrow> StepBuyer BOrderTaken | Seller \<Rightarrow> StepSeller STakerFound),
      ti_hold_invoice = tt_hold_invoice terms, ti_buyer_invoice = None, ti_trade_key_index = trade_index,
      ti_cooperative_cancel_state = None,
      ti_timeout_at = (if tt_bond terms \<noteq> None then None else Some (now + 900)),
      ti_started_at = now, ti_completed_at = None, ti_outcome = None, ti_peer_rating = None,
      ti_peer_reviews = None, ti_peer_days = None, ti_rated_at = None,
      ti_bond = map_option (\<lambda>b. bond_requested (ae_crypto env) BondTaker b now) (tt_bond terms)\<rparr>"

definition sync_taken_book :: "string \<Rightarrow> take_terms \<Rightarrow> world \<Rightarrow> world" where
  "sync_taken_book order_id terms w =
     (if tt_bond terms = None \<and> (tt_status terms \<noteq> None \<or> tt_amount_sats terms \<noteq> None)
      then (case book_order order_id w of
          Some info \<Rightarrow> on_book (upsert_order (taken_order info terms None)) w
        | None \<Rightarrow> w)
      else w)"

definition install_taken :: "string \<Rightarrow> trade_info \<Rightarrow> world \<Rightarrow> world" where
  "install_taken order_id trade w = w\<lparr>w_sessions := snd (install_session order_id (ti_role trade)
      (ti_trade_key_index trade) (ti_order trade) (w_now w) (w_sessions w))\<rparr>"

definition known_peer :: "string \<Rightarrow> world \<Rightarrow> string option" where
  "known_peer order_id w = Option.bind (get_session order_id (w_sessions w))
     (\<lambda>s. opt_filter (\<lambda>p. p \<noteq> []) (se_peer_pubkey s))"

definition take_settle ::
  "('seed, 'x, 'k) attempt_env \<Rightarrow> string \<Rightarrow> order_info \<Rightarrow> trade_role \<Rightarrow> f64 option \<Rightarrow> u32 \<Rightarrow> daemon_reply option
     \<Rightarrow> world \<Rightarrow> (string, trade_info) result \<times> world" where
  "take_settle env order_id order role fiat_amount trade_index reply w = (case take_verdict reply of
      Inl e \<Rightarrow> (Inl e, w)
    | Inr terms \<Rightarrow>
        let trade = taken_trade env order role fiat_amount terms trade_index (w_now w);
            w1 = persist_confirmed_take trade
                   (sync_taken_book order_id terms (store_trade_key_index order_id trade_index w));
            w2 = install_taken order_id trade w1
        in (case known_peer order_id w2 of
              None \<Rightarrow> (Inr trade, w2)
            | Some peer \<Rightarrow> (Inr (trade\<lparr>ti_counterparty_pubkey := peer\<rparr>),
                db_try CCounterparty (update_trade_counterparty order_id peer) w2)))"

definition take_order_once ::
  "('seed, 'x, 'k) attempt_env \<Rightarrow> string \<Rightarrow> trade_role \<Rightarrow> f64 option \<Rightarrow> 'k flow
     \<Rightarrow> (string, trade_info) result \<times> 'k flow" where
  "take_order_once env order_id role fiat_amount fl = (case take_send env order_id role fiat_amount fl of
      (Inl e, fl1) \<Rightarrow> (Inl e, fl1)
    | (Inr (order, trade_index, pk), fl1) \<Rightarrow>
        let (reply, w1) = await_reply env pk (fl_world fl1);
            (result, w2) = take_settle env order_id order role fiat_amount trade_index reply w1;
            fl2 = fl1\<lparr>fl_world := w2\<rparr>
        in (case result of
              Inl e \<Rightarrow> (Inl e, fl2)
            | Inr trade \<Rightarrow> (Inr trade, fl2\<lparr>fl_watched_orders := fl_watched_orders fl2 @ [order_id]\<rparr>)))"

definition take_order ::
  "('k identity_env \<Rightarrow> (string, u32 option) result \<times> 'k identity_env) \<Rightarrow> string \<Rightarrow> trade_role \<Rightarrow> f64 option \<Rightarrow>
     ('seed, 'x, 'k) attempt_env list \<times> 'k flow \<Rightarrow>
     (string, trade_info) result \<times> ('seed, 'x, 'k) attempt_env list \<times> 'k flow" where
  "take_order resync order_id role fiat_amount =
     retry_after_resync (next_attempt (\<lambda>env. take_order_once env order_id role fiat_amount)) (with_identity resync)"

section \<open>Steps of a trade\<close>

definition send_invoice ::
  "('seed, 'x, 'k) attempt_env \<Rightarrow> string \<Rightarrow> string \<Rightarrow> u64 \<Rightarrow> 'k flow \<Rightarrow> (string, unit) result \<times> 'k flow" where
  "send_invoice env order_id invoice_or_address amount_sats fl =
     (case resolve_add_invoice_destination (ae_decoder env) invoice_or_address amount_sats of
        Inl e \<Rightarrow> (Inl e, fl)
      | Inr (destination, amount_opt) \<Rightarrow> (case lookup_key order_id fl of
          (None, fl1) \<Rightarrow> (Inl ''TradeNotFound'', fl1)
        | (Some trade_index, fl1) \<Rightarrow> (case trade_keys_of env trade_index fl1 of
            Inl e \<Rightarrow> (Inl e, fl1)
          | Inr (sender_keys, identity_keys, node) \<Rightarrow>
              (case add_invoice (ae_wrap env) identity_keys sender_keys node order_id trade_index destination
                      amount_opt (ae_request_id env) of
                 Inl e \<Rightarrow> (Inl e, fl1)
               | Inr event \<Rightarrow>
                   let pk = kl_pubkey_hex (ae_lib env) sender_keys in
                   (case register_add_invoice_request (ae_dropped env) (ae_tx env) pk (ae_request_id env) trade_index
                           (w_pending (fl_world fl1)) of
                      (None, _) \<Rightarrow> (Inl ''InvoiceSubmitInFlight'', fl1)
                    | (Some _, p) \<Rightarrow>
                        (case publish_event_json env event (on_world (\<lambda>w. w\<lparr>w_pending := p\<rparr>) fl1) of
                           (Inl e, fl2) \<Rightarrow> (Inl e, on_world (drop_pending pk (ae_request_id env)) fl2)
                         | (Inr _, fl2) \<Rightarrow>
                             (let (reply, w1) = await_reply env pk (fl_world fl2); fl3 = fl2\<lparr>fl_world := w1\<rparr> in
                              case reply of
                                Some (Rejected reason message) \<Rightarrow> (Inl message, fl3)
                              | Some _ \<Rightarrow> (Inr (), fl3)
                              | None \<Rightarrow> (Inl no_daemon_response, fl3))))))))"

definition no_trade_key :: "string \<Rightarrow> string" where
  "no_trade_key order_id = ''no persisted trade key for order '' @ order_id"

definition next_trade_for_range_remainder ::
  "('seed, 'x, 'k) attempt_env \<Rightarrow> string \<Rightarrow> trade_role \<Rightarrow> 'k flow
     \<Rightarrow> (string, (string \<times> u32) option) result \<times> 'k flow" where
  "next_trade_for_range_remainder env order_id maker_role fl =
     (if \<not> has_db (fl_world fl)
      then (Inl (''no trade store: cannot tell whether order '' @ order_id @ '' leaves a remainder''), fl)
      else (case read_trade order_id (fl_world fl) of
          Inl e \<Rightarrow> (Inl e, fl)
        | Inr None \<Rightarrow> (Inl (''no trade row for order '' @ order_id @ '': cannot tell whether it leaves a remainder''), fl)
        | Inr (Some trade) \<Rightarrow>
            if oi_fiat_amount_min (ti_order trade) = None \<or> oi_fiat_amount_max (ti_order trade) = None \<or>
               \<not> oi_is_mine (ti_order trade) \<or> ti_role trade \<noteq> maker_role then (Inr None, fl)
            else (case derive_fresh env fl of
                (Inl e, fl1) \<Rightarrow> (Inl e, fl1)
              | (Inr index, fl1) \<Rightarrow> (case get_active_trade_keys (ae_lib env) index (fl_identity fl1) of
                  Inl e \<Rightarrow> (Inl e, fl1)
                | Inr next_keys \<Rightarrow>
                    let pk = kl_pubkey_hex (ae_lib env) next_keys in
                    (Inr (Some (pk, index)),
                     subscribe_daemon_messages pk index (ensure_global_dm_coverage pk index fl1))))))"

text \<open>\<open>send_fiat_sent\<close> and \<open>release_order\<close> share every line but the action and the role it belongs to.\<close>

definition send_step ::
  "('k wrap_env \<Rightarrow> 'k \<Rightarrow> 'k \<Rightarrow> string \<Rightarrow> string \<Rightarrow> u32 \<Rightarrow> (string \<times> u32) option \<Rightarrow> (string, 'k sent_event) result) \<Rightarrow>
     trade_role \<Rightarrow> ('seed, 'x, 'k) attempt_env \<Rightarrow> string \<Rightarrow> 'k flow \<Rightarrow> (string, unit) result \<times> 'k flow" where
  "send_step build maker_role env order_id fl = (case lookup_key order_id fl of
      (None, fl1) \<Rightarrow> (Inl (no_trade_key order_id), fl1)
    | (Some trade_index, fl1) \<Rightarrow> (case trade_keys_of env trade_index fl1 of
        Inl e \<Rightarrow> (Inl e, fl1)
      | Inr (sender_keys, identity_keys, node) \<Rightarrow> (case next_trade_for_range_remainder env order_id maker_role fl1 of
          (Inl e, fl2) \<Rightarrow> (Inl e, fl2)
        | (Inr next_trade, fl2) \<Rightarrow>
            (case build (ae_wrap env) identity_keys sender_keys node order_id trade_index next_trade of
               Inl e \<Rightarrow> (Inl e, fl2)
             | Inr event \<Rightarrow> publish_event_json env event fl2))))"

definition send_fiat_sent ::
  "('seed, 'x, 'k) attempt_env \<Rightarrow> string \<Rightarrow> 'k flow \<Rightarrow> (string, unit) result \<times> 'k flow" where
  "send_fiat_sent = send_step fiat_sent Buyer"

definition release_order ::
  "('seed, 'x, 'k) attempt_env \<Rightarrow> string \<Rightarrow> 'k flow \<Rightarrow> (string, unit) result \<times> 'k flow" where
  "release_order = send_step release Seller"

text \<open>\<open>ae_wait\<close> is here what happens between the publish and the local side of the cancel.\<close>

definition cancel_order ::
  "('seed, 'x, 'k) attempt_env \<Rightarrow> string \<Rightarrow> 'k flow \<Rightarrow> (string, unit) result \<times> 'k flow" where
  "cancel_order env order_id fl =
     (if waiting_bond_status order_id (fl_world fl) = Some WaitingMakerBond then (Inl ''BondCancelNotAllowed'', fl)
      else (case lookup_key order_id fl of
          (None, fl1) \<Rightarrow> (Inl (no_trade_key order_id), fl1)
        | (Some trade_index, fl1) \<Rightarrow> (case trade_keys_of env trade_index fl1 of
            Inl e \<Rightarrow> (Inl e, fl1)
          | Inr (sender_keys, identity_keys, node) \<Rightarrow>
              (case cancel (ae_wrap env) identity_keys sender_keys node order_id trade_index of
                 Inl e \<Rightarrow> (Inl e, fl1)
               | Inr event \<Rightarrow>
                   let guarded = (waiting_bond_status order_id (fl_world fl1) = Some WaitingTakerBond) in
                   (case publish_event_json env event fl1 of
                      (Inl e, fl2) \<Rightarrow> (Inl e, fl2)
                    | (Inr _, fl2) \<Rightarrow> (Inr (), on_world (\<lambda>w. apply_local_cancel order_id
                         (ae_wait env (if guarded then note_user_cancel order_id w else w))) fl2))))))"

definition request_bond_invoice_again ::
  "('seed, 'x, 'k) attempt_env \<Rightarrow> string \<Rightarrow> 'k flow \<Rightarrow> (string, trade_info) result \<times> 'k flow" where
  "request_bond_invoice_again env order_id fl =
     (if \<not> has_db (fl_world fl) then (Inl ''StorageUnavailable'', fl)
      else (case read_trade order_id (fl_world fl) of
          Inl e \<Rightarrow> (Inl e, fl)
        | Inr None \<Rightarrow> (Inl ''TradeNotFound'', fl)
        | Inr (Some trade) \<Rightarrow>
            if oi_status (ti_order trade) \<noteq> WaitingTakerBond \<or> oi_is_mine (ti_order trade)
            then (Inl ''NotWaitingBond'', fl)
            else let trade_index = ti_trade_key_index trade in
              (case and_then (get_active_trade_keys (ae_lib env) trade_index (fl_identity fl)) (\<lambda>sender_keys.
                    and_then (node_key env (fl_world fl)) (\<lambda>node.
                    and_then (get_transport_identity_keys (ae_privacy env) sender_keys (fl_identity fl)) (\<lambda>identity_keys.
                    and_then (take_event env identity_keys sender_keys node order_id (ti_role trade) trade_index
                                (oi_fiat_amount (ti_order trade))) (\<lambda>event. Inr (sender_keys, event))))) of
                 Inl e \<Rightarrow> (Inl e, fl)
               | Inr (sender_keys, event) \<Rightarrow>
                   (case register_and_publish env sender_keys trade_index KTake event (\<lambda>w. w) fl of
                      (Inl e, fl1) \<Rightarrow> (Inl e, fl1)
                    | (Inr pk, fl1) \<Rightarrow>
                        (let (reply, w1) = await_reply env pk (fl_world fl1); fl2 = fl1\<lparr>fl_world := w1\<rparr> in
                         case reply of
                           Some (TakeAccepted action status amount hold (Some request)) \<Rightarrow>
                             (case read_trade order_id w1 of
                                Inl e \<Rightarrow> (Inl e, fl2)
                              | Inr None \<Rightarrow> (Inl ''TradeNotFound'', fl2)
                              | Inr (Some current) \<Rightarrow>
                                  if oi_status (ti_order current) \<noteq> WaitingTakerBond \<or>
                                     (case ti_bond current of Some b \<Rightarrow> bi_state b \<noteq> BondRequested | None \<Rightarrow> False)
                                  then (Inr current, fl2)
                                  else let bond = bond_requested (ae_crypto env) BondTaker request (w_now w1) in
                                    (Inr (current\<lparr>ti_bond := Some bond\<rparr>),
                                     on_world (\<lambda>w. emit_trade_update order_id WaitingTakerBond (persist_bond order_id bond w)) fl2))
                         | Some (TakeAccepted action status amount hold None) \<Rightarrow> (Inl ''NotWaitingBond'', fl2)
                         | Some (Rejected reason message) \<Rightarrow> (Inl message, fl2)
                         | _ \<Rightarrow> (Inl no_daemon_response, fl2))))))"

section \<open>Reads of the user interface\<close>

definition with_bond_window :: "order_info \<Rightarrow> order_status option \<Rightarrow> order_info" where
  "with_bond_window order local =
     (if oi_status order = Pending then (case local of Some s \<Rightarrow> order\<lparr>oi_status := s\<rparr> | None \<Rightarrow> order) else order)"

definition api_get_order :: "string \<Rightarrow> world \<Rightarrow> order_info option" where
  "api_get_order order_id w =
     map_option (\<lambda>order. with_bond_window order (waiting_bond_status order_id w)) (book_order order_id w)"

definition api_list_trades :: "world \<Rightarrow> (string, trade_info list) result" where
  "api_list_trades w = (if \<not> has_db w then Inr []
     else and_then (db_read CListTrades list_trades w) (\<lambda>ts. Inr (sort_key (\<lambda>t. - ti_started_at t) ts)))"

definition get_trade_role :: "string \<Rightarrow> world \<Rightarrow> trade_role option" where
  "get_trade_role order_id w = (case read_trade order_id w of Inr (Some t) \<Rightarrow> Some (ti_role t) | _ \<Rightarrow> None)"

end
