(* ===== verification/User_Flow_Safety.thy ===== *)
theory User_Flow_Safety
  imports User_Flows Row_Outcomes
begin

text \<open>
  What the flows of the user guarantee: nothing is shown before the daemon's word, a request is in
  the registry exactly while it can be answered, an accepted take is its order's only trade, every
  event is for the active, supported node, and the release of a range names the next key.
\<close>

section \<open>Nothing is shown before the daemon's word\<close>

text \<open>What the user can see of the trades: rows, book, sessions and the updates sent.\<close>

definition shown :: "world \<Rightarrow> trade_info list option \<times> order_book \<times> sessions \<times> trade_update list" where
  "shown w = (map_option td_rows (w_db w), w_book w, w_sessions w, w_updates w)"

lemma shown_stages [simp]:
  "shown (w\<lparr>w_pending := p\<rparr>) = shown w" "shown (w\<lparr>w_key_map := k\<rparr>) = shown w"
  "shown (insert_pending pk r w) = shown w" "shown (drop_pending pk i w) = shown w"
  "shown (detach_waiter pk i w) = shown w"
  by (simp_all add: shown_def insert_pending_def drop_pending_def detach_waiter_def)

lemma shown_store_key [simp]: "shown (store_trade_key_index i n w) = shown w"
  by (simp add: shown_def store_trade_key_index_def db_try_def db_write_def save_trade_key_def split: option.split)

lemma shown_lookup [simp]: "shown (snd (lookup_trade_key_index i w)) = shown w"
  by (simp add: shown_def lookup_trade_key_index_def split: option.split sum.split)

lemma flow_world [simp]:
  "fl_world (ensure_global_dm_coverage pk n fl) = fl_world fl" "fl_world (subscribe_daemon_messages pk n fl) = fl_world fl"
  "fl_world (snd (publish_event_json env ev fl)) = fl_world fl" "fl_world (on_world f fl) = f (fl_world fl)"
  "fl_world (snd (derive_fresh env fl)) = fl_world fl"
  by (simp_all add: ensure_global_dm_coverage_def subscribe_daemon_messages_def publish_event_json_def on_world_def
      derive_fresh_def split_beta split: option.split)

lemma shown_register:
  assumes "\<And>w. shown (undo w) = shown w"
  shows "shown (fl_world (snd (register_and_publish env ks n k ev undo fl))) = shown (fl_world fl)"
  using assms by (simp add: register_and_publish_def publish_event_json_def Let_def split: option.split)

lemma shown_create_send: "shown (fl_world (snd (create_send env p fl))) = shown (fl_world fl)"
  by (simp add: create_send_def Let_def split_beta shown_register split: option.split sum.split)

lemma shown_take_send: "shown (fl_world (snd (take_send env i role amt fl))) = shown (fl_world fl)"
  by (simp add: take_send_def Let_def split_beta shown_register split: option.split sum.split)

lemma shown_await: "shown (snd (await_reply env pk w)) = shown (ae_wait env w)"
  by (simp add: await_reply_def Let_def split: option.split)

text \<open>
  C10: A create or a take that fails shows nothing of its own: rows, book, sessions and updates are what
  they were, or what everything else made of them while the attempt waited for the daemon. Whether
  the input was refused, the key or the event failed, no relay accepted it, the daemon rejected it
  or stayed silent, no phantom order or trade is left behind.
\<close>

theorem failed_request_shows_nothing:
  assumes "create_order_once env params fl = (Inl e, fl') \<or> take_order_once env i role amt fl = (Inl e, fl')"
  shows "shown (fl_world fl') = shown (fl_world fl) \<or>
    (\<exists>w. shown w = shown (fl_world fl) \<and> shown (fl_world fl') = shown (ae_wait env w))"
proof -
  have create: ?thesis if c: "create_order_once env params fl = (Inl e, fl')"
  proof (cases "create_send env params fl")
    case (Pair r fl1)
    have s: "shown (fl_world fl1) = shown (fl_world fl)" using shown_create_send [of env params fl] Pair by simp
    show ?thesis
    proof (cases r)
      case (Inl e1)
      then show ?thesis using c s Pair by (simp add: create_order_once_def)
    next
      case (Inr v)
      obtain ord n pk where v: "v = (ord, n, pk)" by (cases v)
      obtain reply w1 where a: "await_reply env pk (fl_world fl1) = (reply, w1)" by fastforce
      have "fl_world fl' = w1"
        using c Inr v a Pair
        by (auto simp: create_order_once_def create_settle_def Let_def split: sum.splits prod.splits)
      then show ?thesis using s shown_await [of env pk "fl_world fl1"] a by auto
    qed
  qed
  have take: ?thesis if t: "take_order_once env i role amt fl = (Inl e, fl')"
  proof (cases "take_send env i role amt fl")
    case (Pair r fl1)
    have s: "shown (fl_world fl1) = shown (fl_world fl)" using shown_take_send [of env i role amt fl] Pair by simp
    show ?thesis
    proof (cases r)
      case (Inl e1)
      then show ?thesis using t s Pair by (simp add: take_order_once_def)
    next
      case (Inr v)
      obtain ord n pk where v: "v = (ord, n, pk)" by (cases v)
      obtain reply w1 where a: "await_reply env pk (fl_world fl1) = (reply, w1)" by fastforce
      have "fl_world fl' = w1"
        using t Inr v a Pair
        by (auto simp: take_order_once_def take_settle_def Let_def split: sum.splits prod.splits option.splits)
      then show ?thesis using s shown_await [of env pk "fl_world fl1"] a by auto
    qed
  qed
  show ?thesis using assms create take by blast
qed

section \<open>What a send leaves behind\<close>

lemma registered:
  assumes "register_and_publish env ks n k ev undo fl = (Inr pk, fl1)"
  shows "pk = kl_pubkey_hex (ae_lib env) ks" "ae_publish env = None" "fl_sent fl1 = fl_sent fl @ [ev]"
    "fl_watched fl1 = fl_watched fl @ [(pk, n)]" "fl_covered fl1 = fl_covered fl" "fl_identity fl1 = fl_identity fl"
    "fl_world fl1 = insert_pending pk \<lparr>pr_request_id = ae_request_id env, pr_trade_index = n, pr_kind = k,
       pr_tx = Some (ae_tx env)\<rparr> (fl_world fl)"
  using assms
  by (auto simp: register_and_publish_def publish_event_json_def Let_def subscribe_daemon_messages_def on_world_def
      split: option.splits)

lemma derived:
  assumes "derive_fresh env fl = (Inr n, fl1)"
  obtains st where "ie_state (fl_identity fl) = Some st" "n = ii_trade_key_index (is_info st) + 1" "n \<noteq> 0"
    "fl_world fl1 = fl_world fl" "fl_sent fl1 = fl_sent fl" "fl_covered fl1 = fl_covered fl"
    "fl_watched fl1 = fl_watched fl" "fl_marks fl1 = fl_marks fl"
    "\<exists>st1. ie_state (fl_identity fl1) = Some st1 \<and> ii_trade_key_index (is_info st1) = n"
proof (cases rule: derive_trade_key_cases [of "ae_lib env" "ae_save env" "fl_identity fl"])
  case (Handed t st i keys)
  then show ?thesis using assms that by (auto simp: derive_fresh_def)
qed (use assms in \<open>auto simp: derive_fresh_def\<close>)

lemma take_event_built:
  assumes "take_event env idk ks node i role n amt = Inr ev"
  shows "ev_node ev = node" "ev_trade ev = ks" "ev_identity ev = idk"
    "om_request_id (ev_message ev) = Some (ae_request_id env)" "om_trade_index (ev_message ev) = Some (uint n)"
    "om_action (ev_message ev) = (case role of Buyer \<Rightarrow> A_TakeSell | Seller \<Rightarrow> A_TakeBuy)"
    "wx_parse_uuid (ae_wrap env) i = Inr (the (om_id (ev_message ev)))"
    "om_payload (ev_message ev) = take_payload amt (if role = Buyer then ae_ln_address env else None)"
    "ensure_supported_within node (wx_versions (ae_wrap env)) = Inr ()"
    "first_contact_pow_within node (wx_caps (ae_wrap env)) = Inr (ev_pow ev)"
  using assms
  by (cases role; auto simp: take_event_def take_sell_def take_buy_def take_order_impl_def and_then_Inr_iff wrapped_first
      order_message_def u32_as_i64_def)+

lemma take_sent:
  assumes "take_send env i role amt fl = (Inr (order, n, pk), fl1)"
  obtains ks ev where
    "validate_take i role amt (fl_world fl) = Inr order" "pk = kl_pubkey_hex (ae_lib env) ks"
    "get_active_trade_keys (ae_lib env) n (fl_identity fl1) = Inr ks"
    "\<exists>st. ie_state (fl_identity fl) = Some st \<and> n = ii_trade_key_index (is_info st) + 1" "n \<noteq> 0"
    "fl_sent fl1 = fl_sent fl @ [ev]" "fl_watched fl1 = fl_watched fl @ [(pk, n)]" "fl_covered fl1 = fl_covered fl @ [(pk, n)]"
    "fl_world fl1 = insert_pending pk \<lparr>pr_request_id = ae_request_id env, pr_trade_index = n, pr_kind = KTake,
       pr_tx = Some (ae_tx env)\<rparr> (fl_world fl)"
    "\<exists>idk. take_event env idk ks (ev_node ev) i role n amt = Inr ev \<and> node_key env (fl_world fl) = Inr (ev_node ev)"
proof -
  obtain ord where v: "validate_take i role amt (fl_world fl) = Inr ord"
    using assms by (auto simp: take_send_def split: sum.splits)
  obtain d f1 where d: "derive_fresh env fl = (d, f1)" by fastforce
  obtain m where m: "d = Inr m" using assms v d by (auto simp: take_send_def split: sum.splits)
  obtain ks where ks: "get_active_trade_keys (ae_lib env) m (fl_identity f1) = Inr ks"
    using assms v d m by (auto simp: take_send_def split: sum.splits)
  let ?f2 = "ensure_global_dm_coverage (kl_pubkey_hex (ae_lib env) ks) m f1"
  obtain ev where ev: "and_then (node_key env (fl_world ?f2)) (\<lambda>node.
                  and_then (get_transport_identity_keys (ae_privacy env) ks (fl_identity ?f2)) (\<lambda>identity_keys.
                    take_event env identity_keys ks node i role m amt)) = Inr ev"
    using assms v d m ks by (auto simp: take_send_def Let_def split: sum.splits)
  have r: "register_and_publish env ks m KTake ev (\<lambda>w. w) ?f2 = (Inr pk, fl1)" "order = ord" "n = m"
    using assms v d m ks ev by (auto simp: take_send_def Let_def split: prod.splits sum.splits)
  obtain idk node where e: "node_key env (fl_world ?f2) = Inr node" "take_event env idk ks node i role m amt = Inr ev"
    using ev by (auto simp: and_then_Inr_iff)
  show ?thesis
  proof (rule derived [OF d [unfolded m]])
    fix st assume st: "ie_state (fl_identity fl) = Some st" "m = ii_trade_key_index (is_info st) + 1" "m \<noteq> 0"
      "fl_world f1 = fl_world fl" "fl_sent f1 = fl_sent fl" "fl_covered f1 = fl_covered fl" "fl_watched f1 = fl_watched fl"
    show ?thesis
      by (rule that [of ks ev])
        (use v r registered [OF r(1)] e st ks take_event_built(1) [OF e(2)] in
          \<open>auto simp: ensure_global_dm_coverage_def\<close>)
  qed
qed

section \<open>The answer of the daemon reaches the take\<close>

definition untouched :: "string \<Rightarrow> world \<Rightarrow> world \<Rightarrow> bool" where
  "untouched i w w' \<longleftrightarrow> good w' \<and> w_pending w' = w_pending w \<and> w_wakes w' = w_wakes w \<and>
     (\<forall>j. book_order j w' = book_order j w) \<and> w_now w' = w_now w \<and>
     map ti_id (td_rows (tables w')) = map ti_id (td_rows (tables w)) \<and>
     filter (\<lambda>r. order_of r \<noteq> i) (td_rows (tables w')) = filter (\<lambda>r. order_of r \<noteq> i) (td_rows (tables w))"

lemma untouched_flow_stages:
  "good w \<Longrightarrow> untouched i w w" "good w \<Longrightarrow> untouched i w (snd (generation_gate a j n w))"
  "untouched i w w1 \<Longrightarrow> untouched i w1 w2 \<Longrightarrow> untouched i w w2"
  by (auto simp: untouched_def generation_gate_def lookup_trade_key_index_def good_def answers_def book_order_def
      split: option.split)

lemma counterparty_rows:
  "map ti_id (td_rows (update_trade_counterparty i p db)) = map ti_id (td_rows db)"
  "filter (\<lambda>r. order_of r \<noteq> i) (td_rows (update_trade_counterparty i p db)) = filter (\<lambda>r. order_of r \<noteq> i) (td_rows db)"
proof -
  have "map ti_id (map (\<lambda>r. if order_of r = i then r\<lparr>ti_counterparty_pubkey := p\<rparr> else r) xs) = map ti_id xs \<and>
    filter (\<lambda>r. order_of r \<noteq> i) (map (\<lambda>r. if order_of r = i then r\<lparr>ti_counterparty_pubkey := p\<rparr> else r) xs) =
      filter (\<lambda>r. order_of r \<noteq> i) xs" for xs
    by (induction xs) (auto simp: order_of_def)
  then show "map ti_id (td_rows (update_trade_counterparty i p db)) = map ti_id (td_rows db)"
    "filter (\<lambda>r. order_of r \<noteq> i) (td_rows (update_trade_counterparty i p db)) = filter (\<lambda>r. order_of r \<noteq> i) (td_rows db)"
    by (auto simp: update_trade_counterparty_def update_rows_def)
qed

lemma untouched_write:
  "good w \<Longrightarrow> untouched i w (touch i (db_try CCounterparty (update_trade_counterparty i q) w))"
  by (simp del: filter_map add: answers_try untouched_def touch_def on_book_def book_order_def get_order_def touch_trade_def counterparty_rows)

lemma untouched_reveal: "good w \<Longrightarrow> untouched i w (apply_peer_reveal cr i p ks n r w)"
  by (simp add: apply_peer_reveal_def Let_def split_beta untouched_def perform_def good_def answers_def book_order_def
      split: option.split)

lemma untouched_capture:
  assumes w: "good w"
  shows "untouched i w (maybe_capture_peer_reveal cr i a p n w)"
proof -
  have "untouched i w (apply_peer_reveal cr i q ks n r (touch i (db_try CCounterparty (update_trade_counterparty i q) w)))" for q ks r
    by (rule untouched_flow_stages(3) [OF untouched_write [OF w] untouched_reveal])
      (use untouched_write [OF w] in \<open>simp add: untouched_def\<close>)
  then show ?thesis
    using w untouched_flow_stages(1) [OF w]
    by (simp add: maybe_capture_peer_reveal_def Let_def split: option.split prod.split)
qed

lemma reply_reaches_take:
  assumes w: "good w" and p: "fmlookup (w_pending w) (dm_trade_pk m) = Some \<lparr>pr_request_id = nonce, pr_trade_index = n,
       pr_kind = KTake, pr_tx = Some tx\<rparr>"
    and m: "sender_accepted cr m w" "dm_valid m" "dk_id (dm_kind m) = Some i" "dk_request_id (dm_kind m) = Some nonce"
      "dk_action (dm_kind m) \<noteq> A_CantDo" "book_order i w \<noteq> None"
      "fst (generation_gate (dk_action (dm_kind m)) i (dm_trade_index m) w)"
  shows "\<exists>v. untouched i w v \<and> dispatch_mostro_message cr m w =
    v\<lparr>w_pending := fmdrop (dm_trade_pk m) (w_pending w),
      w_wakes := w_wakes w @ [(tx, classify_take_reply (dk_action (dm_kind m)) (dk_payload (dm_kind m)))]\<rparr>"
proof -
  define g where "g = snd (generation_gate (dk_action (dm_kind m)) i (dm_trade_index m) w)"
  have g: "untouched i w g" unfolding g_def by (rule untouched_flow_stages(2) [OF w])
  have rec: "reconcile_order_id i (dm_trade_pk m) (dm_trade_index m) g = g"
    using g m(6) by (simp add: reconcile_order_id_def untouched_def)
  have eq: "dispatch_mostro_message cr m w = dispatch_classified cr m g"
    using m rec by (simp add: dispatch_mostro_message_def split_beta g_def)
  let ?rs = "trade_row_state i (dm_trade_index m) g"
  define v where "v = (if dk_action (dm_kind m) \<noteq> A_BondSlashed \<and> ?rs \<noteq> RowWiped
    then maybe_capture_peer_reveal cr i (dk_action (dm_kind m)) (dk_payload (dm_kind m)) (dm_trade_index m) g else g)"
  have v: "untouched i w v"
  proof -
    have "good g" using g by (simp add: untouched_def)
    then show ?thesis using g untouched_flow_stages(3) [OF g untouched_capture [where cr = cr]] by (simp add: v_def)
  qed
  have t: "take_matching_take (dm_trade_pk m) (Some nonce) (w_pending v) =
      (Some \<lparr>pr_request_id = nonce, pr_trade_index = n, pr_kind = KTake, pr_tx = Some tx\<rparr>, fmdrop (dm_trade_pk m) (w_pending w))"
    using v p by (simp add: untouched_def take_matching_take_def take_if_def request_id_matches_def)
  have "intercept_take (dm_kind m) (dm_trade_pk m) v = (True, v\<lparr>w_pending := fmdrop (dm_trade_pk m) (w_pending w),
      w_wakes := w_wakes w @ [(tx, classify_take_reply (dk_action (dm_kind m)) (dk_payload (dm_kind m)))]\<rparr>)"
    using t m(4) v by (simp add: intercept_take_def wake_def untouched_def)
  then have "dispatch_classified cr m g = v\<lparr>w_pending := fmdrop (dm_trade_pk m) (w_pending w),
      w_wakes := w_wakes w @ [(tx, classify_take_reply (dk_action (dm_kind m)) (dk_payload (dm_kind m)))]\<rparr>"
    using m(3,5) by (simp add: dispatch_classified_def Let_def v_def [symmetric])
  then show ?thesis using v eq by auto
qed

section \<open>A confirmed take\<close>

lemma on_book_same [simp]:
  "tables (on_book f w) = tables w" "good (on_book f w) = good w" "w_sessions (on_book f w) = w_sessions w"
  "w_key_map (on_book f w) = w_key_map w" "w_now (on_book f w) = w_now w"
  by (simp_all add: on_book_def good_def answers_def)

lemma stored_key:
  assumes "good w"
  shows "good (store_trade_key_index i n w)" "fmlookup (w_key_map (store_trade_key_index i n w)) i = Some n"
    "td_rows (tables (store_trade_key_index i n w)) = td_rows (tables w)"
    "w_sessions (store_trade_key_index i n w) = w_sessions w" "w_now (store_trade_key_index i n w) = w_now w"
  using assms by (simp_all add: store_trade_key_index_def db_try_def db_write_def good_def answers_def save_trade_key_def
      split: option.split)

lemma persisted_take:
  assumes w: "good w" and fresh: "ti_id t \<notin> ti_id ` set (td_rows (tables w))"
  defines "w' \<equiv> persist_confirmed_take t w"
  shows "good w'" "td_rows (tables w') = filter (\<lambda>r. order_of r \<noteq> order_of t) (td_rows (tables w)) @ [t]"
    "w_key_map w' = w_key_map w" "w_sessions w' = w_sessions w" "w_now w' = w_now w"
proof -
  have f: "filter (\<lambda>r. ti_id r \<noteq> ti_id t \<and> order_of r \<noteq> i) xs = filter (\<lambda>r. order_of r \<noteq> i) xs"
    if "ti_id t \<notin> ti_id ` set xs" for xs i
    using that by (induction xs) auto
  have eq: "w' = perform EPushReconcile (touch (order_of t)
      (w\<lparr>w_db := Some (save_trade t (delete_setting (trade_wiped_key (order_of t)) (delete_trade_by_order_id (order_of t) (tables w))))\<rparr>))"
    using w by (simp add: w'_def persist_confirmed_take_def persist_trade_row_def Let_def answers_try answers_write)
  show "good w'" "w_key_map w' = w_key_map w" "w_sessions w' = w_sessions w" "w_now w' = w_now w"
    using w unfolding eq by (simp_all add: perform_def touch_def on_book_def good_def answers_def)
  show "td_rows (tables w') = filter (\<lambda>r. order_of r \<noteq> order_of t) (td_rows (tables w)) @ [t]"
    using f [OF fresh, of "order_of t"] unfolding eq
    by (simp add: perform_def touch_def save_trade_def delete_setting_def delete_trade_by_order_id_def conj_commute)
qed

text \<open>The trade the take returns is the one stored.\<close>

lemma take_settled:
  assumes w: "good w" and v: "take_verdict reply = Inr terms" and fresh: "ae_uuid env \<notin> ti_id ` set (td_rows (tables w))"
    and o': "oi_id order = i" and s: "take_settle env i order role amt n reply w = (result, w')"
  shows "\<exists>t p. result = Inr t \<and> t = (taken_trade env order role amt terms n (w_now w))\<lparr>ti_counterparty_pubkey := p\<rparr> \<and>
    td_rows (tables w') = filter (\<lambda>r. order_of r \<noteq> i) (td_rows (tables w)) @ [t] \<and>
    fmlookup (w_key_map w') i = Some n \<and> (\<exists>ss. get_session i (w_sessions w') = Some ss \<and> se_trade_key_index ss = n)"
proof -
  let ?t = "taken_trade env order role amt terms n (w_now w)"
  define w1 where "w1 = store_trade_key_index i n w"
  define w2 where "w2 = sync_taken_book i terms w1"
  define w3 where "w3 = persist_confirmed_take ?t w2"
  define w4 where "w4 = install_taken i ?t w3"
  have b: "\<exists>f. w2 = on_book f w1"
    unfolding w2_def sync_taken_book_def by (auto simp: on_book_def intro: exI [of _ "\<lambda>k. k"] split: option.split)
  note k = stored_key [OF w, of i n, folded w1_def]
  have w2: "good w2" "td_rows (tables w2) = td_rows (tables w)" "fmlookup (w_key_map w2) i = Some n" "w_sessions w2 = w_sessions w"
    using b k by auto
  have t: "ti_id ?t = ae_uuid env" "order_of ?t = i" "ti_trade_key_index ?t = n" "ti_counterparty_pubkey ?t = []"
    using o' by (simp_all add: taken_trade_def order_of_def taken_order_def Let_def split: option.split)
  have fr: "ti_id ?t \<notin> ti_id ` set (td_rows (tables w2))" using fresh t w2 by simp
  note r = persisted_take [OF w2(1) fr, folded w3_def]
  have w4: "good w4" "tables w4 = tables w3" "w_key_map w4 = w_key_map w3"
    "\<exists>ss. get_session i (w_sessions w4) = Some ss \<and> se_trade_key_index ss = n"
    using r(1) t(2,3) by (auto simp: w4_def install_taken_def install_session_def get_session_def order_of_def new_session_def
        good_def answers_def Let_def split: option.split)
  have eq: "take_settle env i order role amt n reply w = (case known_peer i w4 of None \<Rightarrow> (Inr ?t, w4)
      | Some peer \<Rightarrow> (Inr (?t\<lparr>ti_counterparty_pubkey := peer\<rparr>), db_try CCounterparty (update_trade_counterparty i peer) w4))"
    unfolding take_settle_def v w1_def w2_def w3_def w4_def by (simp only: sum.case Let_def)
  have rows: "td_rows (tables w4) = filter (\<lambda>r. order_of r \<noteq> i) (td_rows (tables w)) @ [?t]" using w4(2) r(2) t(2) w2(2) by simp
  show ?thesis
  proof (cases "known_peer i w4")
    case None
    then show ?thesis using s eq rows w4 r(3) w2(3) t(4) by (intro exI [of _ ?t] exI [of _ "[]"]) simp
  next
    case (Some peer)
    have "peer \<noteq> []" using Some by (auto simp: known_peer_def opt_filter_def bind_eq_Some_conv split: option.splits if_splits)
    moreover have "map (\<lambda>r. if order_of r = i then f r else r) (filter (\<lambda>r. order_of r \<noteq> i) xs) = filter (\<lambda>r. order_of r \<noteq> i) xs" for f xs
      by (induction xs) auto
    ultimately show ?thesis
      using Some s eq rows w4 r(3) w2(3) t(2)
      by (intro exI [of _ "?t\<lparr>ti_counterparty_pubkey := peer\<rparr>"] exI [of _ peer])
        (auto simp: answers_try update_trade_counterparty_def update_rows_def)
  qed
qed

text \<open>A message that answers the request \<open>nonce\<close> waiting on the key \<open>pk\<close> of index \<open>n\<close> for the order \<open>i\<close>.\<close>

definition answers_take :: "'k crypto \<Rightarrow> string \<Rightarrow> string \<Rightarrow> u32 \<Rightarrow> u64 \<Rightarrow> daemon_message \<Rightarrow> world \<Rightarrow> bool" where
  "answers_take cr i pk n nonce m w \<longleftrightarrow> sender_accepted cr m w \<and> dm_valid m \<and> dm_trade_pk m = pk \<and> dm_trade_index m = n \<and>
     dk_id (dm_kind m) = Some i \<and> dk_request_id (dm_kind m) = Some nonce \<and> dk_action (dm_kind m) \<noteq> A_CantDo"

lemma validated: "validate_take i role amt w = Inr order \<Longrightarrow> book_order i w = Some order"
  by (auto simp: validate_take_def split: option.splits if_splits)

text \<open>
  C9: A take the daemon accepts becomes the order's trade, end to end. When the daemon's answer to the
  published take, on its fresh key and with its nonce, is dispatched during the wait, the dispatcher
  consumes the request and wakes the caller, and the take succeeds: the trade it returns is stored
  as the only row of the order whatever earlier takes left, with the daemon's terms and the fresh key,
  to which the order and its session are bound. No other order's row changes.
\<close>

theorem accepted_take_is_the_orders_trade:
  assumes sent: "take_send env i role amt fl = (Inr (order, n, pk), fl1)"
    and wait: "ae_wait env (fl_world fl1) = receive cr (now, m) (fl_world fl1)"
    and answer: "answers_take cr i pk n (ae_request_id env) m (fl_world fl\<lparr>w_now := now\<rparr>)"
    and terms: "take_verdict (Some (classify_take_reply (dk_action (dm_kind m)) (dk_payload (dm_kind m)))) = Inr terms"
    and w: "good (fl_world fl)" "ae_tx env \<notin> fst ` set (w_wakes (fl_world fl))"
      "ae_uuid env \<notin> ti_id ` set (td_rows (tables (fl_world fl)))" "oi_id order = i"
    and bound: "case fst (lookup_trade_key_index i (fl_world fl)) of Some b \<Rightarrow> b \<le> n | None \<Rightarrow> True"
  shows "\<exists>t p fl'. take_order_once env i role amt fl = (Inr t, fl') \<and>
    t = (taken_trade env order role amt terms n now)\<lparr>ti_counterparty_pubkey := p\<rparr> \<and>
    td_rows (tables (fl_world fl')) = filter (\<lambda>r. order_of r \<noteq> i) (td_rows (tables (fl_world fl))) @ [t] \<and>
    fmlookup (w_key_map (fl_world fl')) i = Some n \<and>
    (\<exists>ss. get_session i (w_sessions (fl_world fl')) = Some ss \<and> se_trade_key_index ss = n) \<and>
    fl_watched_orders fl' = fl_watched_orders fl1 @ [i]"
proof (rule take_sent [OF sent])
  fix ks ev
  assume v: "validate_take i role amt (fl_world fl) = Inr order"
    and w1: "fl_world fl1 = insert_pending pk \<lparr>pr_request_id = ae_request_id env, pr_trade_index = n, pr_kind = KTake,
       pr_tx = Some (ae_tx env)\<rparr> (fl_world fl)"
  let ?w = "fl_world fl1\<lparr>w_now := now\<rparr>"
  let ?reply = "classify_take_reply (dk_action (dm_kind m)) (dk_payload (dm_kind m))"
  have m: "dm_trade_pk m = pk" "dm_trade_index m = n" "dm_valid m" "dk_id (dm_kind m) = Some i"
    "dk_request_id (dm_kind m) = Some (ae_request_id env)" "dk_action (dm_kind m) \<noteq> A_CantDo"
    using answer by (simp_all add: answers_take_def)
  have g: "good ?w" using w(1) w1 by (auto simp: insert_pending_def good_def answers_def no_create_def split: if_splits)
  have acc: "sender_accepted cr m ?w"
    using answer sender_accepted_cong [of "fl_world fl\<lparr>w_now := now\<rparr>" ?w cr m] by (simp add: answers_take_def w1 insert_pending_def)
  have look: "fst (lookup_trade_key_index i ?w) = fst (lookup_trade_key_index i (fl_world fl))"
    by (simp add: w1 insert_pending_def lookup_trade_key_index_def db_read_def split: option.split sum.split)
  have gate: "fst (generation_gate (dk_action (dm_kind m)) i (dm_trade_index m) ?w)"
    using bound m(2) unfolding generation_gate_def look [symmetric]
    by (auto simp: not_less split: prod.splits option.splits)
  have book: "book_order i ?w \<noteq> None" using validated [OF v] by (simp add: w1 insert_pending_def book_order_def)
  have p: "fmlookup (w_pending ?w) (dm_trade_pk m) = Some \<lparr>pr_request_id = ae_request_id env, pr_trade_index = n,
       pr_kind = KTake, pr_tx = Some (ae_tx env)\<rparr>"
    by (simp add: w1 insert_pending_def m(1))
  obtain x where x: "untouched i ?w x" and d: "dispatch_mostro_message cr m ?w =
      x\<lparr>w_pending := fmdrop (dm_trade_pk m) (w_pending ?w), w_wakes := w_wakes ?w @ [(ae_tx env, ?reply)]\<rparr>"
    using reply_reaches_take [OF g p acc m(3-6) book gate] by blast
  define x1 where "x1 = x\<lparr>w_pending := fmdrop (dm_trade_pk m) (w_pending ?w), w_wakes := w_wakes ?w @ [(ae_tx env, ?reply)]\<rparr>"
  have wakes: "map_of (w_wakes x1) (ae_tx env) = Some ?reply"
  proof -
    have "map_of (w_wakes (fl_world fl)) (ae_tx env) = None" using w(2) by (simp add: map_of_eq_None_iff)
    then show ?thesis by (simp add: x1_def w1 insert_pending_def map_add_def)
  qed
  have await: "await_reply env pk (fl_world fl1) = (Some ?reply, x1)"
  proof -
    have "ae_wait env (fl_world fl1) = x1" by (simp only: wait receive_def fst_conv snd_conv d x1_def)
    then show ?thesis using wakes by (simp add: await_reply_def)
  qed
  have x1: "good x1" "w_now x1 = now" "map ti_id (td_rows (tables x1)) = map ti_id (td_rows (tables (fl_world fl)))"
    "filter (\<lambda>r. order_of r \<noteq> i) (td_rows (tables x1)) = filter (\<lambda>r. order_of r \<noteq> i) (td_rows (tables (fl_world fl)))"
    using x g by (auto simp: x1_def untouched_def w1 insert_pending_def good_def answers_def no_create_def)
  have fresh: "ae_uuid env \<notin> ti_id ` set (td_rows (tables x1))"
    using w(3) arg_cong [OF x1(3), of set] by simp
  obtain result w' where s: "take_settle env i order role amt n (Some ?reply) x1 = (result, w')" by fastforce
  from take_settled [OF x1(1) terms fresh w(4) s] obtain t q where t: "result = Inr t"
    "t = (taken_trade env order role amt terms n now)\<lparr>ti_counterparty_pubkey := q\<rparr>"
    "td_rows (tables w') = filter (\<lambda>r. order_of r \<noteq> i) (td_rows (tables (fl_world fl))) @ [t]"
    "fmlookup (w_key_map w') i = Some n" "\<exists>ss. get_session i (w_sessions w') = Some ss \<and> se_trade_key_index ss = n"
    unfolding x1(2,4) by blast
  have "take_order_once env i role amt fl = (Inr t, fl1\<lparr>fl_world := w', fl_watched_orders := fl_watched_orders fl1 @ [i]\<rparr>)"
    by (simp add: take_order_once_def sent await s t(1) Let_def)
  then show ?thesis using t(2-5) by (intro exI [of _ t] exI [of _ q]
      exI [of _ "fl1\<lparr>fl_world := w', fl_watched_orders := fl_watched_orders fl1 @ [i]\<rparr>"]) simp
qed

section \<open>A flow to evaluate\<close>

definition flow_lib :: "(string, string, string) key_lib" where
  "flow_lib = sample_lib\<lparr>kl_secret := (\<lambda>_. Inr ''key'')\<rparr>"

definition sample_wrap :: "string wrap_env" where
  "sample_wrap = \<lparr>wx_parse_uuid = Inr, wx_versions = [None, Some \<lparr>adv_node = ''node'', adv_version = Some 2\<rparr>],
     wx_caps = [Some \<lparr>cap_node = ''node'', cap_pow = 1, cap_first_contact = Some 5\<rparr>], wx_caps_now = None,
     wx_wrap = (\<lambda>_. Inr ())\<rparr>"

definition sample_attempt :: "(world \<Rightarrow> world) \<Rightarrow> (string, string, string) attempt_env" where
  "sample_attempt wait = \<lparr>ae_lib = flow_lib, ae_crypto = sample_crypto, ae_wrap = sample_wrap, ae_decoder = sample_decoder,
     ae_uuid = ''uuid'', ae_save = None, ae_privacy = True, ae_request_id = 9, ae_tx = 1, ae_dropped = {},
     ae_order_expiry = None, ae_ln_address = None, ae_publish = None, ae_wait = wait\<rparr>"

lemma sample_attempt_simps [simp]:
  "ae_lib (sample_attempt f) = flow_lib" "ae_crypto (sample_attempt f) = sample_crypto" "ae_wrap (sample_attempt f) = sample_wrap"
  "ae_uuid (sample_attempt f) = ''uuid''" "ae_save (sample_attempt f) = None" "ae_privacy (sample_attempt f)"
  "ae_request_id (sample_attempt f) = 9" "ae_tx (sample_attempt f) = 1" "ae_publish (sample_attempt f) = None"
  "ae_wait (sample_attempt f) = f" "ae_ln_address (sample_attempt f) = None" "ae_order_expiry (sample_attempt f) = None"
  by (simp_all add: sample_attempt_def)

definition sample_flow :: "world \<Rightarrow> string flow" where
  "sample_flow w = \<lparr>fl_world = w, fl_identity = \<lparr>ie_state = Some \<lparr>is_mnemonic_words = [''a''], is_keys = ''id'',
       is_info = fresh_info ''id'' False 3 1000\<rparr>, ie_db = Some None, ie_trade_key_rows = fmempty, ie_published = []\<rparr>,
     fl_sent = [], fl_covered = [], fl_watched = [], fl_watched_orders = [], fl_marks = []\<rparr>"

definition take_world :: world where
  "take_world = (sample_world2 (sample_db [sample_row Canceled False None] []))\<lparr>w_book := upsert_order demo_order new_book\<rparr>"

lemma sample_derived:
  "\<exists>ident. derive_fresh (sample_attempt wait) (sample_flow w) = (Inr 4, (sample_flow w)\<lparr>fl_identity := ident\<rparr>) \<and>
     get_active_trade_keys flow_lib 4 ident = Inr ''key''"
  by (simp add: derive_fresh_def sample_attempt_def sample_flow_def derive_trade_key_def derive_trade_key_with_def
      require_durable_storage_def key_ops_derive_trade_key_def derive_at_index_def derive_bip39_seed_def keys_from_xprv_def
      flow_lib_def sample_lib_def Let_def publish_index_def get_active_trade_keys_def fresh_info_def with_index_def)

lemma sample_take_valid: "validate_take ''o'' Buyer None take_world = Inr demo_order"
  by (simp add: validate_take_def take_world_def book_order_def get_order_def upsert_order_def commit_def publish_def
      bs_upsert_def new_book_def demo_order_def Let_def expected_role_def)

lemma sample_take_event:
  "\<exists>ev. take_event (sample_attempt wait) ''key'' ''key'' ''node'' ''o'' Buyer 4 None = Inr ev"
  by (simp add: take_event_def take_sell_def take_order_impl_def sample_attempt_def sample_wrap_def
      wrap_message_first_contact_def wrap_message_at_def first_contact_pow_within_def ready_first_contact_def
      ensure_supported_within_def fetched_version_def is_supported_def supported_version_def opt_filter_def)

lemma sample_take_sent:
  "\<exists>fl1. take_send (sample_attempt wait) ''o'' Buyer None (sample_flow take_world) = (Inr (demo_order, 4, ''key''), fl1)"
proof -
  obtain ident where d: "derive_fresh (sample_attempt wait) (sample_flow take_world) =
      (Inr 4, (sample_flow take_world)\<lparr>fl_identity := ident\<rparr>)" "get_active_trade_keys flow_lib 4 ident = Inr ''key''"
    using sample_derived by blast
  obtain ev where ev: "take_event (sample_attempt wait) ''key'' ''key'' ''node'' ''o'' Buyer 4 None = Inr ev"
    using sample_take_event by blast
  have l: "ae_lib (sample_attempt wait) = flow_lib" "kl_pubkey_hex flow_lib = (\<lambda>k. k)" "ae_privacy (sample_attempt wait)"
    "ae_publish (sample_attempt wait) = None" "fl_world (sample_flow take_world) = take_world"
    "node_key (sample_attempt wait) take_world = Inr ''node''"
    by (simp_all add: sample_attempt_def flow_lib_def sample_lib_def sample_flow_def node_key_def sample_crypto_def
        take_world_def sample_world2_def id_def)
  show ?thesis
    by (simp add: take_send_def sample_take_valid l d ev ensure_global_dm_coverage_def get_transport_identity_keys_def
        register_and_publish_def publish_event_json_def Let_def)
qed

theorem failed_request_shows_nothing_witness:
  "\<exists>fl'. take_order_once (sample_attempt (\<lambda>w. w)) ''o'' Buyer None (sample_flow take_world) = (Inl no_daemon_response, fl') \<and>
     shown (fl_world fl') = shown take_world"
proof -
  obtain fl1 where s: "take_send (sample_attempt (\<lambda>w. w)) ''o'' Buyer None (sample_flow take_world) = (Inr (demo_order, 4, ''key''), fl1)"
    using sample_take_sent by blast
  have "w_wakes (fl_world fl1) = []"
    by (rule take_sent [OF s]) (simp add: insert_pending_def sample_flow_def take_world_def sample_world2_def)
  then have r: "\<exists>fl'. take_order_once (sample_attempt (\<lambda>w. w)) ''o'' Buyer None (sample_flow take_world) = (Inl no_daemon_response, fl')"
    by (simp add: take_order_once_def s await_reply_def take_settle_def take_verdict_def)
  then obtain fl' where r: "take_order_once (sample_attempt (\<lambda>w. w)) ''o'' Buyer None (sample_flow take_world) = (Inl no_daemon_response, fl')"
    by blast
  from failed_request_shows_nothing [OF disjI2 [OF r]] have "shown (fl_world fl') = shown take_world"
    by (auto simp: sample_flow_def)
  then show ?thesis using r by blast
qed

definition take_answer :: daemon_message where
  "take_answer = (sample_message A_PayInvoice 50 None)
     \<lparr>dm_kind := \<lparr>dk_action = A_PayInvoice, dk_id = Some ''o'', dk_request_id = Some 9, dk_trade_index = None,
        dk_payload = Some (P_PaymentRequest (Some ((sample_small None None)\<lparr>so_status := Some S_WaitingPayment\<rparr>))
          ''lnbc'' (Some 2000))\<rparr>\<rparr>"

theorem accepted_take_is_the_orders_trade_witness:
  "\<exists>t fl'. take_order_once (sample_attempt (receive sample_crypto (200, take_answer))) ''o'' Buyer None (sample_flow take_world)
     = (Inr t, fl') \<and> td_rows (tables (fl_world fl')) = [t] \<and> oi_status (ti_order t) = WaitingPayment \<and>
     ti_hold_invoice t = Some ''lnbc'' \<and> ti_trade_key_index t = 4"
proof -
  let ?env = "sample_attempt (receive sample_crypto (200, take_answer))"
  obtain fl1 where s: "take_send ?env ''o'' Buyer None (sample_flow take_world) = (Inr (demo_order, 4, ''key''), fl1)"
    using sample_take_sent by blast
  have v: "take_verdict (Some (classify_take_reply (dk_action (dm_kind take_answer)) (dk_payload (dm_kind take_answer)))) =
      Inr \<lparr>tt_status = Some WaitingPayment, tt_amount_sats = Some 2000, tt_hold_invoice = Some ''lnbc'', tt_bond = None\<rparr>"
    by (simp add: take_answer_def take_verdict_def classify_take_reply_def map_core_status_def u64_of_i64_def opt_or_def)
  have a: "answers_take sample_crypto ''o'' ''key'' 4 (ae_request_id ?env) take_answer (fl_world (sample_flow take_world)\<lparr>w_now := 200\<rparr>)"
    by (simp add: answers_take_def take_answer_def sample_message_def sender_accepted_def sample_crypto_def
        sample_flow_def take_world_def sample_world2_def)
  have w: "good (fl_world (sample_flow take_world))" "ae_tx ?env \<notin> fst ` set (w_wakes (fl_world (sample_flow take_world)))"
    "ae_uuid ?env \<notin> ti_id ` set (td_rows (tables (fl_world (sample_flow take_world))))" "oi_id demo_order = ''o''"
  proof -
    show "good (fl_world (sample_flow take_world))" by (simp add: sample_flow_def take_world_def)
    show "ae_tx ?env \<notin> fst ` set (w_wakes (fl_world (sample_flow take_world)))"
      by (simp add: sample_flow_def take_world_def sample_world2_def)
    show "ae_uuid ?env \<notin> ti_id ` set (td_rows (tables (fl_world (sample_flow take_world))))"
      by (simp add: sample_flow_def take_world_def sample_world2_def sample_db_def sample_row_def)
    show "oi_id demo_order = ''o''" by (simp add: demo_order_def)
  qed
  have b: "fst (lookup_trade_key_index ''o'' (fl_world (sample_flow take_world))) = None"
    by (simp add: sample_flow_def take_world_def sample_world2_def sample_db_def lookup_trade_key_index_def db_read_def db_trade_key_def)
  from accepted_take_is_the_orders_trade [OF s _ a v w] b show ?thesis
    by (auto simp: sample_flow_def take_world_def sample_db_def sample_row_def order_of_def
        taken_trade_def taken_order_def demo_order_def)
qed

end
