(* ===== verification/Disputes.thy ===== *)
theory Disputes
  imports User_Flows
begin

text \<open>
  Disputes (\<open>rust/src/api/disputes.rs\<close>): the store of dispute records, opening a dispute, the daemon's
  word that a solver took it, the resolution, and the rebuild of records after a restart.

  \<open>desk\<close> joins the state of the user's flows with the store (\<open>DISPUTE_STORE\<close>), what its broadcast sent,
  the trades with an \<open>open_dispute\<close> in flight (\<open>PENDING_OPENS\<close>) and the dispute chats whose listener
  was started. \<open>open_dispute\<close> is split at its wait for the daemon, as the flows are; each lock scope of
  the store is one step. A uuid drawn is an argument.
\<close>

datatype dispute_status = DisputeOpen | DisputeInReview | DisputeResolved

datatype dispute_resolution = FundsToBuyer | FundsToSeller | CooperativeCancel

record dispute_record =
  di_id :: string
  di_trade_id :: string
  di_status :: dispute_status
  di_initiated_by_me :: bool
  di_reason :: "string option"
  di_admin_pubkey :: "string option"
  di_resolution :: "dispute_resolution option"
  di_opened_at :: i64
  di_resolved_at :: "i64 option"
  di_is_read :: bool

record 'k desk =
  dk_flow :: "'k flow"
  dk_store :: "(string, dispute_record) fmap"
  dk_updates :: "dispute_record list"
  dk_opening :: "string fset"
  dk_chats :: "(string \<times> u32 \<times> string) list"

abbreviation dk_world :: "'k desk \<Rightarrow> world" where "dk_world d \<equiv> fl_world (dk_flow d)"

definition at_desk :: "('k flow \<Rightarrow> 'k flow) \<Rightarrow> 'k desk \<Rightarrow> 'k desk" where
  "at_desk f d = d\<lparr>dk_flow := f (dk_flow d)\<rparr>"

section \<open>The store\<close>

definition put_dispute :: "string \<Rightarrow> dispute_record \<Rightarrow> 'k desk \<Rightarrow> 'k desk" where
  "put_dispute trade_id x d =
     d\<lparr>dk_store := fmupd trade_id x (dk_store d), dk_updates := dk_updates d @ [x]\<rparr>"

definition is_peer_placeholder :: "dispute_record \<Rightarrow> bool" where
  "is_peer_placeholder x \<longleftrightarrow> di_status x = DisputeInReview \<and> \<not> di_initiated_by_me x \<and> di_reason x = None \<and>
     di_admin_pubkey x \<noteq> None"

definition update_conditional ::
  "string \<Rightarrow> (dispute_record \<Rightarrow> (string, dispute_record) result) \<Rightarrow> 'k desk \<Rightarrow> (string, unit) result \<times> 'k desk" where
  "update_conditional trade_id f d = (case fmlookup (dk_store d) trade_id of
      None \<Rightarrow> (Inl (''DisputeNotFound: no dispute for trade '' @ trade_id), d)
    | Some x \<Rightarrow> (case f x of Inl e \<Rightarrow> (Inl e, d) | Inr y \<Rightarrow> (Inr (), put_dispute trade_id y d)))"

definition try_insert_if_absent_or_resolved ::
  "dispute_record \<Rightarrow> 'k desk \<Rightarrow> (string, dispute_record) result \<times> 'k desk" where
  "try_insert_if_absent_or_resolved x d =
     (let trade_id = di_trade_id x in
      case fmlookup (dk_store d) trade_id of
        None \<Rightarrow> (Inr x, put_dispute trade_id x d)
      | Some existing \<Rightarrow>
          if is_peer_placeholder existing \<and> trade_id |\<in>| dk_opening d
          then let stored = existing\<lparr>di_id := di_id x, di_initiated_by_me := True, di_reason := di_reason x\<rparr>
               in (Inr stored, put_dispute trade_id stored d)
          else if di_status existing \<noteq> DisputeResolved
          then (Inl (''DisputeAlreadyOpen: dispute already exists for trade '' @ trade_id), d)
          else (Inr x, put_dispute trade_id x d))"

definition upsert_or_update ::
  "string \<Rightarrow> dispute_record \<Rightarrow> (dispute_record \<Rightarrow> (string, dispute_record) result) \<Rightarrow> 'k desk
     \<Rightarrow> (string, unit) result \<times> 'k desk" where
  "upsert_or_update trade_id fresh_record update d = (case fmlookup (dk_store d) trade_id of
      Some x \<Rightarrow> (case update x of Inl e \<Rightarrow> (Inl e, d) | Inr y \<Rightarrow> (Inr (), put_dispute trade_id y d))
    | None \<Rightarrow> (Inr (), put_dispute trade_id fresh_record d))"

section \<open>What is persisted\<close>

definition dispute_admin_key :: "string \<Rightarrow> string" where "dispute_admin_key order_id = ''dispute_admin:'' @ order_id"
definition dispute_mine_key :: "string \<Rightarrow> string" where "dispute_mine_key order_id = ''dispute_mine:'' @ order_id"

definition persist_setting :: "string \<Rightarrow> string \<Rightarrow> 'k desk \<Rightarrow> 'k desk" where
  "persist_setting k v = at_desk (on_world (db_try (CSetSetting k) (set_setting k v)))"

definition persist_admin_pubkey :: "string \<Rightarrow> string \<Rightarrow> 'k desk \<Rightarrow> 'k desk" where
  "persist_admin_pubkey order_id admin = persist_setting (dispute_admin_key order_id) admin"

definition persist_dispute_origin :: "string \<Rightarrow> 'k desk \<Rightarrow> 'k desk" where
  "persist_dispute_origin order_id = persist_setting (dispute_mine_key order_id) ''1''"

definition clear_dispute_keys :: "string \<Rightarrow> 'k desk \<Rightarrow> 'k desk" where
  "clear_dispute_keys order_id = at_desk (on_world (\<lambda>w.
     db_try (CDeleteSetting (dispute_mine_key order_id)) (delete_setting (dispute_mine_key order_id))
       (db_try (CDeleteSetting (dispute_admin_key order_id)) (delete_setting (dispute_admin_key order_id)) w)))"

definition is_order_finished :: "order_status \<Rightarrow> bool" where
  "is_order_finished s = (case s of
      SettledByAdmin \<Rightarrow> True | CanceledByAdmin \<Rightarrow> True | CompletedByAdmin \<Rightarrow> True | Success \<Rightarrow> True
    | Canceled \<Rightarrow> True | CooperativelyCanceled \<Rightarrow> True | Expired \<Rightarrow> True
    | Pending \<Rightarrow> False | WaitingBuyerInvoice \<Rightarrow> False | WaitingPayment \<Rightarrow> False | Active \<Rightarrow> False
    | FiatSent \<Rightarrow> False | SettledHoldInvoice \<Rightarrow> False | Dispute \<Rightarrow> False | InProgress \<Rightarrow> False
    | WaitingTakerBond \<Rightarrow> False | WaitingMakerBond \<Rightarrow> False)"

definition persisted_order_is_finished :: "string \<Rightarrow> 'k desk \<Rightarrow> bool" where
  "persisted_order_is_finished order_id d = (case read_trade order_id (dk_world d) of
      Inr (Some t) \<Rightarrow> is_order_finished (oi_status (ti_order t)) | _ \<Rightarrow> False)"

definition has_dispute_keys :: "string \<Rightarrow> 'k desk \<Rightarrow> bool" where
  "has_dispute_keys order_id d \<longleftrightarrow>
     read_setting (dispute_admin_key order_id) (dk_world d) \<noteq> Inr None \<or>
     read_setting (dispute_mine_key order_id) (dk_world d) \<noteq> Inr None"

section \<open>Opening a dispute\<close>

definition status_allows_dispute :: "order_status \<Rightarrow> bool" where
  "status_allows_dispute s \<longleftrightarrow> s \<in> {Active, FiatSent, InProgress}"

definition not_disputable :: "string \<Rightarrow> string" where "not_disputable why = ''TradeNotDisputable: '' @ why"

text \<open>What is checked before the marker is claimed.\<close>

definition open_refusal :: "string \<Rightarrow> 'k desk \<Rightarrow> string option" where
  "open_refusal trade_id d =
     (if str_trim trade_id = [] then Some (not_disputable ''trade_id must not be empty'')
      else if (case fmlookup (dk_store d) trade_id of Some x \<Rightarrow> di_status x \<noteq> DisputeResolved | None \<Rightarrow> False)
      then Some (''DisputeAlreadyOpen: dispute already exists for trade '' @ trade_id)
      else case local_trade_status trade_id (dk_world d) of
          Some s \<Rightarrow> if \<not> status_allows_dispute s
            then Some (not_disputable (''trade '' @ trade_id @ '' is '' @ status_debug s))
            else if trade_id |\<in>| dk_opening d
            then Some (''DisputeAlreadyOpen: an open_dispute for trade '' @ trade_id @ '' is already in flight'')
            else None
        | None \<Rightarrow> if trade_id |\<in>| dk_opening d
            then Some (''DisputeAlreadyOpen: an open_dispute for trade '' @ trade_id @ '' is already in flight'')
            else None)"

definition drop_guard :: "string \<Rightarrow> 'k desk \<Rightarrow> 'k desk" where
  "drop_guard trade_id d = d\<lparr>dk_opening := dk_opening d |-| {|trade_id|}\<rparr>"

definition dispute_event ::
  "('seed, 'x, 'k) attempt_env \<Rightarrow> string \<Rightarrow> u32 \<Rightarrow> 'k flow \<Rightarrow> (string, string \<times> 'k sent_event) result" where
  "dispute_event env trade_id trade_index fl =
     (case and_then (trade_keys_of env trade_index fl) (\<lambda>(sender_keys, identity_keys, node).
         and_then (dispute (ae_wrap env) identity_keys sender_keys node trade_id trade_index (ae_request_id env)) (\<lambda>event.
           Inr (kl_pubkey_hex (ae_lib env) sender_keys, event))) of
        Inl e \<Rightarrow> Inl (''ProtocolError: could not build Dispute message: '' @ e) | Inr x \<Rightarrow> Inr x)"

text \<open>From the marker to the publish: the trade key the reply comes in on, or the error with the marker dropped.\<close>

definition open_send ::
  "('seed, 'x, 'k) attempt_env \<Rightarrow> string \<Rightarrow> 'k desk \<Rightarrow> (string, string) result \<times> 'k desk" where
  "open_send env trade_id d = (case open_refusal trade_id d of
      Some e \<Rightarrow> (Inl e, d)
    | None \<Rightarrow>
        let d1 = d\<lparr>dk_opening := finsert trade_id (dk_opening d)\<rparr>;
            (key, fl) = lookup_key trade_id (dk_flow d1);
            d2 = d1\<lparr>dk_flow := fl\<rparr>
        in case key of
             None \<Rightarrow> (Inl (not_disputable (''no trade key for trade '' @ trade_id)), drop_guard trade_id d2)
           | Some trade_index \<Rightarrow> (case dispute_event env trade_id trade_index fl of
               Inl e \<Rightarrow> (Inl e, drop_guard trade_id d2)
             | Inr (pk, event) \<Rightarrow>
                 let fl1 = on_world (\<lambda>w. w\<lparr>w_pending := snd (register_dispute_request (ae_tx env) pk
                             (ae_request_id env) trade_index (w_pending w))\<rparr>) fl
                 in (case publish_event_json env event fl1 of
                       (Inl e, fl2) \<Rightarrow> (Inl (''ProtocolError: publish failed: '' @ e), drop_guard trade_id
                          (d2\<lparr>dk_flow := on_world (\<lambda>w. w\<lparr>w_pending :=
                             roll_back_dispute_request pk (ae_request_id env) (w_pending w)\<rparr>) fl2\<rparr>))
                     | (Inr _, fl2) \<Rightarrow> (Inr pk, d2\<lparr>dk_flow := fl2\<rparr>))))"

definition open_verdict :: "daemon_reply option \<Rightarrow> (string, string) result" where
  "open_verdict reply = (case reply of
      Some (DisputeAccepted (Some dispute_id)) \<Rightarrow> Inr dispute_id
    | Some (DisputeAccepted None) \<Rightarrow> Inl ''ProtocolError: daemon accepted the dispute without a dispute id''
    | Some (Rejected reason message) \<Rightarrow> Inl message
    | Some _ \<Rightarrow> Inl ''ProtocolError: unexpected daemon reply to Dispute''
    | None \<Rightarrow> Inl no_daemon_response)"

definition opened_dispute :: "string \<Rightarrow> string \<Rightarrow> string option \<Rightarrow> i64 \<Rightarrow> bool \<Rightarrow> dispute_record" where
  "opened_dispute dispute_id trade_id reason now is_read =
     \<lparr>di_id = dispute_id, di_trade_id = trade_id, di_status = DisputeOpen, di_initiated_by_me = True,
      di_reason = reason, di_admin_pubkey = None, di_resolution = None, di_opened_at = now,
      di_resolved_at = None, di_is_read = is_read\<rparr>"

text \<open>What follows the wait; \<open>PendingOpenGuard\<close> goes out of scope on every path.\<close>

definition open_settle ::
  "string \<Rightarrow> string option \<Rightarrow> daemon_reply option \<Rightarrow> 'k desk \<Rightarrow> (string, dispute_record) result \<times> 'k desk" where
  "open_settle trade_id reason reply d = (case open_verdict reply of
      Inl e \<Rightarrow> (Inl e, drop_guard trade_id d)
    | Inr dispute_id \<Rightarrow>
        (case try_insert_if_absent_or_resolved
                (opened_dispute dispute_id trade_id reason (w_now (dk_world d)) True) d of
           (Inl e, d1) \<Rightarrow> (Inl e, drop_guard trade_id d1)
         | (Inr stored, d1) \<Rightarrow> (Inr stored, drop_guard trade_id (persist_dispute_origin trade_id d1))))"

definition open_dispute ::
  "('seed, 'x, 'k) attempt_env \<Rightarrow> ('k desk \<Rightarrow> 'k desk) \<Rightarrow> string \<Rightarrow> string option \<Rightarrow> 'k desk
     \<Rightarrow> (string, dispute_record) result \<times> 'k desk" where
  "open_dispute env wait trade_id reason d = (case open_send env trade_id d of
      (Inl e, d1) \<Rightarrow> (Inl e, d1)
    | (Inr pk, d1) \<Rightarrow>
        let d2 = wait d1; reply = map_of (w_wakes (dk_world d2)) (ae_tx env);
            d3 = (if reply = None then at_desk (on_world (detach_waiter pk (ae_request_id env))) d2 else d2)
        in open_settle trade_id reason reply d3)"

section \<open>What the daemon says\<close>

definition record_late_acceptance :: "string \<Rightarrow> string option \<Rightarrow> 'k desk \<Rightarrow> 'k desk" where
  "record_late_acceptance trade_id dispute_id d = (case dispute_id of
      None \<Rightarrow> d
    | Some i \<Rightarrow>
        (case upsert_or_update trade_id (opened_dispute i trade_id None (w_now (dk_world d)) False)
                (\<lambda>x. Inr (if is_peer_placeholder x then x\<lparr>di_id := i, di_initiated_by_me := True\<rparr> else x)) d of
           (Inl e, d1) \<Rightarrow> d1
         | (Inr _, d1) \<Rightarrow> persist_dispute_origin trade_id d1))"

definition derive_admin_shared_key ::
  "('seed, 'x, 'k) attempt_env \<Rightarrow> string \<Rightarrow> string \<Rightarrow> 'k desk \<Rightarrow> 'k desk" where
  "derive_admin_shared_key env trade_id admin d =
     (let (key, fl) = lookup_key trade_id (dk_flow d); d1 = d\<lparr>dk_flow := fl\<rparr> in
      case key of
        None \<Rightarrow> d1
      | Some trade_index \<Rightarrow> (case get_active_trade_keys (ae_lib env) trade_index (fl_identity fl) of
          Inl _ \<Rightarrow> d1
        | Inr trade_keys \<Rightarrow> (case cr_parse_pubkey (ae_crypto env) admin of
            None \<Rightarrow> d1
          | Some admin_pk \<Rightarrow>
              if cr_chat_keys (ae_crypto env) trade_keys admin_pk
              then d1\<lparr>dk_chats := dk_chats d1 @ [(trade_id, trade_index, admin_pk)]\<rparr> else d1)))"

definition reviewed_dispute :: "string \<Rightarrow> string \<Rightarrow> bool \<Rightarrow> string \<Rightarrow> i64 \<Rightarrow> dispute_record" where
  "reviewed_dispute uuid trade_id mine admin now =
     \<lparr>di_id = uuid, di_trade_id = trade_id, di_status = DisputeInReview, di_initiated_by_me = mine,
      di_reason = None, di_admin_pubkey = Some admin, di_resolution = None, di_opened_at = now,
      di_resolved_at = None, di_is_read = False\<rparr>"

definition dispute_status_debug :: "dispute_status \<Rightarrow> string" where
  "dispute_status_debug s = (case s of DisputeOpen \<Rightarrow> ''Open'' | DisputeInReview \<Rightarrow> ''InReview'' | DisputeResolved \<Rightarrow> ''Resolved'')"

definition assign_solver :: "string \<Rightarrow> dispute_record \<Rightarrow> (string, dispute_record) result" where
  "assign_solver admin x =
     (if di_status x = DisputeInReview
      then Inr (if di_admin_pubkey x \<noteq> Some admin then x\<lparr>di_admin_pubkey := Some admin, di_is_read := False\<rparr> else x)
      else if di_status x \<noteq> DisputeOpen
      then Inl (''InvalidState: dispute is not open (current: '' @ dispute_status_debug (di_status x) @ '')'')
      else Inr (x\<lparr>di_status := DisputeInReview, di_admin_pubkey := Some admin, di_is_read := False\<rparr>))"

definition handle_admin_took_dispute ::
  "('seed, 'x, 'k) attempt_env \<Rightarrow> string \<Rightarrow> string \<Rightarrow> 'k desk \<Rightarrow> (string, unit) result \<times> 'k desk" where
  "handle_admin_took_dispute env trade_id admin d =
     (if persisted_order_is_finished trade_id d then (Inr (), clear_dispute_keys trade_id d)
      else (case upsert_or_update trade_id
                  (reviewed_dispute (ae_uuid env) trade_id False admin (w_now (dk_world d))) (assign_solver admin) d of
          (Inl e, d1) \<Rightarrow> (Inl e, d1)
        | (Inr _, d1) \<Rightarrow> (Inr (), derive_admin_shared_key env trade_id admin (persist_admin_pubkey trade_id admin d1))))"

definition resolve_dispute ::
  "string \<Rightarrow> dispute_resolution \<Rightarrow> 'k desk \<Rightarrow> (string, unit) result \<times> 'k desk" where
  "resolve_dispute trade_id resolution d =
     (case update_conditional trade_id (\<lambda>x.
             if di_status x = DisputeResolved then Inl ''InvalidState: dispute is already resolved''
             else Inr (x\<lparr>di_status := DisputeResolved, di_resolution := Some resolution,
                        di_resolved_at := Some (w_now (dk_world d)), di_is_read := False\<rparr>)) d of
        (Inl e, d1) \<Rightarrow> (Inl e, d1)
      | (Inr _, d1) \<Rightarrow> (Inr (), clear_dispute_keys trade_id d1))"

definition handle_admin_settled :: "string \<Rightarrow> 'k desk \<Rightarrow> (string, unit) result \<times> 'k desk" where
  "handle_admin_settled trade_id = resolve_dispute trade_id FundsToBuyer"

definition handle_admin_canceled :: "string \<Rightarrow> 'k desk \<Rightarrow> (string, unit) result \<times> 'k desk" where
  "handle_admin_canceled trade_id = resolve_dispute trade_id FundsToSeller"

section \<open>After a restart\<close>

text \<open>
  One trade of the rebuild. \<open>fresh\<close> draws the id of a rebuilt record. Other tasks may run between the reads
  and the commit: \<open>rehydrate_commit\<close> is the lock scope that decides.
\<close>

definition rehydrate_commit :: "string \<Rightarrow> string \<Rightarrow> string \<Rightarrow> bool \<Rightarrow> 'k desk \<Rightarrow> 'k desk" where
  "rehydrate_commit uuid order_id admin mine d =
     snd (upsert_or_update order_id (reviewed_dispute uuid order_id mine admin (w_now (dk_world d))) Inr d)"

definition rehydrate_trade :: "(string \<Rightarrow> string) \<Rightarrow> trade_info \<Rightarrow> 'k desk \<Rightarrow> 'k desk" where
  "rehydrate_trade fresh trade d =
     (let order_id = oi_id (ti_order trade) in
      if fmlookup (dk_store d) order_id \<noteq> None then d
      else if is_order_finished (oi_status (ti_order trade))
      then (if has_dispute_keys order_id d then clear_dispute_keys order_id d else d)
      else (case read_setting (dispute_admin_key order_id) (dk_world d) of
          Inl _ \<Rightarrow> d
        | Inr None \<Rightarrow> d
        | Inr (Some admin) \<Rightarrow>
            let mine = (case read_setting (dispute_mine_key order_id) (dk_world d) of
                Inr marker \<Rightarrow> marker \<noteq> None | Inl _ \<Rightarrow> False)
            in rehydrate_commit (fresh order_id) order_id admin mine d))"

definition rehydrate_disputes_from_storage :: "(string \<Rightarrow> string) \<Rightarrow> 'k desk \<Rightarrow> 'k desk" where
  "rehydrate_disputes_from_storage fresh d = (case db_read CListTrades list_trades (dk_world d) of
      Inl _ \<Rightarrow> d | Inr trades \<Rightarrow> fold (rehydrate_trade fresh) trades d)"

text \<open>The records come out of the store in any order, \<open>order\<close>: a list of its keys.\<close>

definition resubscribe_dispute ::
  "('seed, 'x, 'k) attempt_env \<Rightarrow> string \<Rightarrow> 'k desk \<Rightarrow> 'k desk" where
  "resubscribe_dispute env trade_id d = (case fmlookup (dk_store d) trade_id of
      None \<Rightarrow> d
    | Some x \<Rightarrow> if di_status x \<noteq> DisputeInReview then d
        else (case di_admin_pubkey x of None \<Rightarrow> d | Some admin \<Rightarrow> derive_admin_shared_key env (di_trade_id x) admin d))"

definition resubscribe_active_dispute_chats ::
  "('seed, 'x, 'k) attempt_env \<Rightarrow> (string \<Rightarrow> string) \<Rightarrow> string list \<Rightarrow> 'k desk \<Rightarrow> 'k desk" where
  "resubscribe_active_dispute_chats env fresh order d =
     fold (resubscribe_dispute env) order (rehydrate_disputes_from_storage fresh d)"

section \<open>Evidence\<close>

text \<open>The checks of \<open>submit_evidence\<close>: to whom and with which key the text is sent.\<close>

definition evidence_target ::
  "('seed, 'x, 'k) attempt_env \<Rightarrow> string \<Rightarrow> string \<Rightarrow> 'k desk \<Rightarrow> (string, u32 \<times> string) result \<times> 'k desk" where
  "evidence_target env trade_id text d =
     (if str_trim text = [] then (Inl ''EvidenceEmpty: text must not be empty'', d)
      else (case fmlookup (dk_store d) trade_id of
          None \<Rightarrow> (Inl (''NoOpenDispute: no dispute for trade '' @ trade_id), d)
        | Some x \<Rightarrow>
            if di_status x = DisputeResolved
            then (Inl (''NoOpenDispute: dispute for trade '' @ trade_id @ '' is already resolved''), d)
            else (case di_admin_pubkey x of
                None \<Rightarrow> (Inl ''AdminNotAssigned: dispute has no admin yet'', d)
              | Some admin \<Rightarrow> (case cr_parse_pubkey (ae_crypto env) admin of
                  None \<Rightarrow> (Inl ''invalid admin pubkey'', d)
                | Some pk \<Rightarrow>
                    (let (key, fl) = lookup_key trade_id (dk_flow d); d1 = d\<lparr>dk_flow := fl\<rparr> in
                     case key of
                       None \<Rightarrow> (Inl (''TradeNotFound: no trade key for '' @ trade_id), d1)
                     | Some trade_index \<Rightarrow> (Inr (trade_index, pk), d1))))))"

section \<open>The stream of one trade\<close>

fun dispute_stream_next :: "string \<Rightarrow> dispute_record list \<Rightarrow> (dispute_record \<times> dispute_record list) option" where
  "dispute_stream_next trade_id [] = None"
| "dispute_stream_next trade_id (x # xs) =
     (if di_trade_id x = trade_id then Some (x, xs) else dispute_stream_next trade_id xs)"

end
