(* ===== verification/Dispute_Safety.thy ===== *)
theory Dispute_Safety
  imports Disputes User_Flow_Safety
begin

text \<open>
  What the dispute store keeps: the shape of its records, whose dispute a record says it is, the race
  between an open and the solver's assignment, and what a restart brings back.
\<close>

section \<open>What the operations leave\<close>

abbreviation rows_of :: "'k desk \<Rightarrow> trade_info list" where "rows_of d \<equiv> td_rows (tables (dk_world d))"

abbreviation sett :: "string \<Rightarrow> 'k desk \<Rightarrow> string option" where "sett k d \<equiv> get_setting k (tables (dk_world d))"

lemma dispute_keys_apart [simp]:
  "dispute_admin_key a = dispute_admin_key b \<longleftrightarrow> a = b" "dispute_mine_key a = dispute_mine_key b \<longleftrightarrow> a = b"
  "dispute_admin_key a \<noteq> dispute_mine_key b" "dispute_mine_key b \<noteq> dispute_admin_key a"
  by (simp_all add: dispute_admin_key_def dispute_mine_key_def)

lemma put_keeps [simp]:
  "dk_flow (put_dispute k x d) = dk_flow d" "dk_opening (put_dispute k x d) = dk_opening d"
  "dk_store (put_dispute k x d) = fmupd k x (dk_store d)"
  by (simp_all add: put_dispute_def)

lemma guard_keeps [simp]:
  "dk_flow (drop_guard k d) = dk_flow d" "dk_store (drop_guard k d) = dk_store d"
  "dk_opening (drop_guard k d) = dk_opening d |-| {|k|}"
  by (simp_all add: drop_guard_def)

lemma persist_keeps [simp]:
  "dk_store (persist_setting k v d) = dk_store d" "dk_opening (persist_setting k v d) = dk_opening d"
  "dk_store (clear_dispute_keys i d) = dk_store d" "dk_opening (clear_dispute_keys i d) = dk_opening d"
  by (simp_all add: persist_setting_def clear_dispute_keys_def at_desk_def)

lemma lookup_same:
  "w_db (snd (lookup_trade_key_index i w)) = w_db w" "w_down (snd (lookup_trade_key_index i w)) = w_down w"
  "w_now (snd (lookup_trade_key_index i w)) = w_now w"
  by (simp_all add: lookup_trade_key_index_def split: option.split sum.split)

lemma derive_keeps [simp]:
  "dk_store (derive_admin_shared_key env i a d) = dk_store d" "dk_opening (derive_admin_shared_key env i a d) = dk_opening d"
  "w_db (dk_world (derive_admin_shared_key env i a d)) = w_db (dk_world d)"
  "w_down (dk_world (derive_admin_shared_key env i a d)) = w_down (dk_world d)"
  "w_now (dk_world (derive_admin_shared_key env i a d)) = w_now (dk_world d)"
  by (simp_all add: derive_admin_shared_key_def lookup_key_def lookup_same split_beta Let_def split: option.split sum.split)

lemma persist_world:
  assumes "answers (dk_world d)"
  shows "answers (dk_world (persist_setting k v d))" "rows_of (persist_setting k v d) = rows_of d"
    "sett j (persist_setting k v d) = (if j = k then Some v else sett j d)"
    "w_now (dk_world (persist_setting k v d)) = w_now (dk_world d)"
  using assms by (auto simp: persist_setting_def at_desk_def on_world_def answers_def db_try_def db_write_def store_simps
      set_setting_def get_setting_set [unfolded set_setting_def] split: option.splits)

lemma clear_world:
  assumes "answers (dk_world d)"
  shows "answers (dk_world (clear_dispute_keys i d))" "rows_of (clear_dispute_keys i d) = rows_of d"
    "sett j (clear_dispute_keys i d) = (if j = dispute_admin_key i \<or> j = dispute_mine_key i then None else sett j d)"
    "w_now (dk_world (clear_dispute_keys i d)) = w_now (dk_world d)"
  using assms by (auto simp: clear_dispute_keys_def at_desk_def on_world_def answers_def db_try_def db_write_def
      delete_setting_def get_setting_delete [unfolded delete_setting_def] split: option.splits)

section \<open>Histories\<close>

text \<open>
  The steps of every task that reaches the store, in any order; \<open>RehydrateCommit\<close> is the commit of a rebuild
  whose reads are as old as they may be, \<open>Restart\<close> loses the memory, and \<open>Elsewhere\<close> is anything the
  rest of the program does to the world (faults come and go with it).
\<close>

datatype ('seed, 'x, 'k) desk_event =
    OpenSend "('seed, 'x, 'k) attempt_env" string
  | OpenSettle string "string option" "daemon_reply option"
  | LateAcceptance string "string option"
  | AdminTook "('seed, 'x, 'k) attempt_env" string string
  | AdminSettled string
  | AdminCanceled string
  | RehydrateCommit string string string bool
  | RehydrateTrade "string \<Rightarrow> string" trade_info
  | Resubscribe "('seed, 'x, 'k) attempt_env" string
  | Restart
  | Elsewhere "world \<Rightarrow> world"

definition restart_desk :: "'k desk \<Rightarrow> 'k desk" where
  "restart_desk d = d\<lparr>dk_store := fmempty, dk_updates := [], dk_opening := {||}, dk_chats := []\<rparr>"

fun desk_step :: "('seed, 'x, 'k) desk_event \<Rightarrow> 'k desk \<Rightarrow> 'k desk" where
  "desk_step (OpenSend env t) d = snd (open_send env t d)"
| "desk_step (OpenSettle t reason reply) d = snd (open_settle t reason reply d)"
| "desk_step (LateAcceptance t i) d = record_late_acceptance t i d"
| "desk_step (AdminTook env t admin) d = snd (handle_admin_took_dispute env t admin d)"
| "desk_step (AdminSettled t) d = snd (handle_admin_settled t d)"
| "desk_step (AdminCanceled t) d = snd (handle_admin_canceled t d)"
| "desk_step (RehydrateCommit uuid t admin mine) d = rehydrate_commit uuid t admin mine d"
| "desk_step (RehydrateTrade fresh trade) d = rehydrate_trade fresh trade d"
| "desk_step (Resubscribe env t) d = resubscribe_dispute env t d"
| "desk_step Restart d = restart_desk d"
| "desk_step (Elsewhere f) d = at_desk (on_world f) d"

definition desk_run :: "('seed, 'x, 'k) desk_event list \<Rightarrow> 'k desk \<Rightarrow> 'k desk" where
  "desk_run es d = fold desk_step es d"

lemma sent_store [simp]: "dk_store (snd (open_send env t d)) = dk_store d"
  by (simp add: open_send_def Let_def split_beta split: option.split sum.split)

text \<open>The shape of a record.\<close>

definition record_shape :: "string \<Rightarrow> dispute_record \<Rightarrow> bool" where
  "record_shape k x \<longleftrightarrow> di_trade_id x = k \<and> (case di_status x of
      DisputeOpen \<Rightarrow> di_initiated_by_me x \<and> di_admin_pubkey x = None \<and> di_resolution x = None \<and> di_resolved_at x = None
    | DisputeInReview \<Rightarrow> di_admin_pubkey x \<noteq> None \<and> di_resolution x = None \<and> di_resolved_at x = None
    | DisputeResolved \<Rightarrow> di_resolution x \<noteq> None \<and> di_resolved_at x \<noteq> None)"

definition shaped :: "'k desk \<Rightarrow> bool" where
  "shaped d \<longleftrightarrow> (\<forall>k x. fmlookup (dk_store d) k = Some x \<longrightarrow> record_shape k x)"

lemma shaped_put: "shaped d \<Longrightarrow> record_shape k x \<Longrightarrow> shaped (put_dispute k x d)"
  by (simp add: shaped_def)

lemma shaped_same [simp]:
  "shaped (persist_setting k v d) = shaped d" "shaped (drop_guard t d) = shaped d" "shaped (clear_dispute_keys t d) = shaped d"
  "shaped (derive_admin_shared_key env t a d) = shaped d" "shaped (snd (open_send env t d)) = shaped d"
  "shaped (at_desk f d) = shaped d"
  by (simp_all add: shaped_def at_desk_def)

lemma new_shapes [simp]:
  "record_shape k (opened_dispute i k r n b)" "record_shape k (reviewed_dispute u k m a n)"
  by (simp_all add: record_shape_def opened_dispute_def reviewed_dispute_def)

lemma shaped_insert:
  assumes "shaped d" "record_shape (di_trade_id x) x"
  shows "shaped (snd (try_insert_if_absent_or_resolved x d))"
proof -
  have "record_shape (di_trade_id x) (y\<lparr>di_id := i, di_initiated_by_me := True, di_reason := r\<rparr>)"
    if "fmlookup (dk_store d) (di_trade_id x) = Some y" for y i r
    using assms(1) that by (auto simp: shaped_def record_shape_def split: dispute_status.splits)
  then show ?thesis using assms
    by (auto simp: try_insert_if_absent_or_resolved_def Let_def intro!: shaped_put split: option.split)
qed

lemma shaped_upsert:
  assumes "shaped d" "record_shape k x" "\<And>y z. record_shape k y \<Longrightarrow> f y = Inr z \<Longrightarrow> record_shape k z"
  shows "shaped (snd (upsert_or_update k x f d))"
  using assms by (auto simp: upsert_or_update_def intro!: shaped_put split: option.split sum.split)
    (auto simp: shaped_def)

lemma shaped_commit: "shaped d \<Longrightarrow> shaped (rehydrate_commit u t a m d)"
  by (auto simp: rehydrate_commit_def intro!: shaped_upsert)

lemma shaped_resolve: "shaped d \<Longrightarrow> shaped (snd (resolve_dispute t r d))"
  by (auto simp: resolve_dispute_def update_conditional_def shaped_def record_shape_def split: option.splits sum.splits if_splits)

lemma shaped_took: "shaped d \<Longrightarrow> shaped (snd (handle_admin_took_dispute env t a d))"
proof -
  assume d: "shaped d"
  have "shaped (snd (upsert_or_update t (reviewed_dispute u t False a n) (assign_solver a) d))" for u n
    by (rule shaped_upsert [OF d new_shapes(2)])
      (auto simp: assign_solver_def record_shape_def split: if_splits dispute_status.splits)
  then show ?thesis using d
    by (auto simp: handle_admin_took_dispute_def persist_admin_pubkey_def split_beta split: sum.split)
qed

lemma shaped_step: "shaped d \<Longrightarrow> shaped (desk_step e d)"
proof (cases e)
  case (OpenSettle t reason reply)
  assume d: "shaped d"
  have "shaped (snd (try_insert_if_absent_or_resolved (opened_dispute i t reason (w_now (dk_world d)) True) d))" for i
    using shaped_insert [OF d, of "opened_dispute i t reason (w_now (dk_world d)) True"] new_shapes(1) [of t]
    by (simp add: opened_dispute_def)
  then show ?thesis using d
    by (auto simp: OpenSettle open_settle_def persist_dispute_origin_def split_beta split: sum.split)
next
  case (LateAcceptance t i)
  assume d: "shaped d"
  have "shaped (snd (upsert_or_update t (opened_dispute j t None (w_now (dk_world d)) False)
      (\<lambda>x. Inr (if is_peer_placeholder x then x\<lparr>di_id := j, di_initiated_by_me := True\<rparr> else x)) d))" for j
    by (rule shaped_upsert [OF d new_shapes(1)])
      (auto simp: record_shape_def is_peer_placeholder_def split: if_splits dispute_status.splits)
  then show ?thesis using d
    by (auto simp: LateAcceptance record_late_acceptance_def persist_dispute_origin_def split_beta
        split: sum.split option.split)
next
  case (RehydrateTrade fresh trade)
  assume "shaped d"
  then show ?thesis
    by (auto simp: RehydrateTrade rehydrate_trade_def Let_def shaped_commit split: sum.split option.split)
next
  case (Resubscribe env t)
  assume "shaped d"
  then show ?thesis
    by (auto simp: Resubscribe resubscribe_dispute_def split: option.split)
next
  case Restart
  then show ?thesis by (simp add: shaped_def restart_desk_def)
qed (auto simp: shaped_took handle_admin_settled_def handle_admin_canceled_def shaped_resolve shaped_commit)

text \<open>
  Every dispute record is of a piece. Over any history of opens, late acceptances, solver
  assignments, resolutions, rebuilds and restarts, with the rest of the program and storage faults
  in between, a record stands under its trade; an open one is this side's and has no solver, one in
  review has a solver and no outcome, and one resolved has both its outcome and its time.
\<close>

theorem dispute_records_are_well_formed:
  "shaped (desk_run es (d\<lparr>dk_store := fmempty\<rparr>))"
proof -
  have "shaped (desk_run es c)" if "shaped c" for c
    using that by (induction es arbitrary: c) (simp_all add: desk_run_def shaped_step)
  moreover have "shaped (d\<lparr>dk_store := fmempty\<rparr>)" by (simp add: shaped_def)
  ultimately show ?thesis by blast
qed

section \<open>Whose dispute it is\<close>

fun accepts :: "('seed, 'x, 'k) desk_event \<Rightarrow> string set" where
  "accepts (OpenSettle t reason (Some (DisputeAccepted (Some i)))) = {t}"
| "accepts (LateAcceptance t (Some i)) = {t}"
| "accepts e = {}"

definition accepted :: "('seed, 'x, 'k) desk_event list \<Rightarrow> string set" where
  "accepted es = (\<Union>e \<in> set es. accepts e)"

definition marked :: "world \<Rightarrow> string set" where
  "marked w = {t. case w_db w of None \<Rightarrow> False | Some db \<Rightarrow> get_setting (dispute_mine_key t) db \<noteq> None}"

text \<open>The rest of the program writes no origin marker, and a rebuild read the origin it commits.\<close>

fun honest :: "string set \<Rightarrow> ('seed, 'x, 'k) desk_event list \<Rightarrow> bool" where
  "honest A [] = True"
| "honest A (e # es) \<longleftrightarrow> (case e of Elsewhere f \<Rightarrow> \<forall>w. marked (f w) \<subseteq> marked w
     | RehydrateCommit u t a mine \<Rightarrow> mine \<longrightarrow> t \<in> A | _ \<Rightarrow> True) \<and> honest (A \<union> accepts e) es"

definition owned :: "string set \<Rightarrow> 'k desk \<Rightarrow> bool" where
  "owned A d \<longleftrightarrow> (\<forall>k x. fmlookup (dk_store d) k = Some x \<longrightarrow> di_initiated_by_me x \<longrightarrow> k \<in> A) \<and> marked (dk_world d) \<subseteq> A"

lemma marked_same [simp]:
  "marked (dk_world (put_dispute k x d)) = marked (dk_world d)" "marked (dk_world (drop_guard k d)) = marked (dk_world d)"
  "marked (dk_world (derive_admin_shared_key env t a d)) = marked (dk_world d)"
  by (simp_all add: marked_def)

lemma marked_try: "marked (db_try c (set_setting k v) w) \<subseteq> marked w \<union> {t. k = dispute_mine_key t}"
  "marked (db_try c (delete_setting k) w) \<subseteq> marked w"
  by (auto simp: marked_def db_try_def db_write_def store_simps split: option.splits if_splits)

lemma marked_persist:
  "marked (dk_world (persist_setting k v d)) \<subseteq> marked (dk_world d) \<union> {t. k = dispute_mine_key t}"
  "marked (dk_world (clear_dispute_keys t d)) \<subseteq> marked (dk_world d)"
  using marked_try by (auto simp: persist_setting_def clear_dispute_keys_def at_desk_def on_world_def) (meson marked_try subsetD)+

lemma owned_put:
  assumes "owned A d" "di_initiated_by_me x \<longrightarrow> k \<in> A"
  shows "owned A (put_dispute k x d)"
  using assms by (auto simp: owned_def)

lemma owned_same [simp]:
  "owned A (drop_guard t d) = owned A d" "owned A (derive_admin_shared_key env t a d) = owned A d"
  by (simp_all add: owned_def)

lemma owned_persist:
  "owned A d \<Longrightarrow> owned A (persist_admin_pubkey t a d)" "owned A d \<Longrightarrow> t \<in> A \<Longrightarrow> owned A (persist_dispute_origin t d)"
  "owned A d \<Longrightarrow> owned A (clear_dispute_keys t d)"
  using marked_persist(1) [of "dispute_admin_key t" a d] marked_persist(1) [of "dispute_mine_key t" "''1''" d]
    marked_persist(2) [of t d]
  by (auto simp: owned_def persist_admin_pubkey_def persist_dispute_origin_def)

lemma owned_mono: "owned A d \<Longrightarrow> A \<subseteq> B \<Longrightarrow> owned B d"
  by (auto simp: owned_def)

lemma owned_sent: "owned A d \<Longrightarrow> owned A (snd (open_send env t d))"
proof -
  have "w_db (dk_world (snd (open_send env t d))) = w_db (dk_world d)"
    by (auto simp: open_send_def Let_def split_beta lookup_key_def lookup_same publish_event_json_def on_world_def
        split: option.split sum.split)
  then show "owned A d \<Longrightarrow> owned A (snd (open_send env t d))" by (simp add: owned_def marked_def)
qed

lemma owned_upsert:
  assumes "owned A d" "di_initiated_by_me x \<longrightarrow> k \<in> A"
    "\<And>y z. fmlookup (dk_store d) k = Some y \<Longrightarrow> f y = Inr z \<Longrightarrow> di_initiated_by_me z \<longrightarrow> di_initiated_by_me y \<or> k \<in> A"
  shows "owned A (snd (upsert_or_update k x f d))"
proof -
  have "di_initiated_by_me y \<longrightarrow> k \<in> A" if "fmlookup (dk_store d) k = Some y" for y
    using assms(1) that by (auto simp: owned_def)
  then show ?thesis using assms
    by (auto simp: upsert_or_update_def intro!: owned_put split: option.split sum.split)
qed

lemma owned_settle:
  assumes "owned A d"
  shows "owned (A \<union> accepts (OpenSettle t reason reply :: ('seed, 'x, 'k) desk_event)) (snd (open_settle t reason reply d))"
    (is "owned (A \<union> ?B) _")
proof (cases "open_verdict reply")
  case (Inl e)
  then show ?thesis using owned_mono [OF assms, of "A \<union> ?B"] by (simp add: open_settle_def)
next
  case (Inr i)
  then have B: "?B = {t}" by (auto simp: open_verdict_def split: option.splits daemon_reply.splits)
  have o: "owned (insert t A) d" using assms by (rule owned_mono) auto
  then have "owned (insert t A) (snd (try_insert_if_absent_or_resolved (opened_dispute i t reason n True) d))" for n
    by (auto simp: try_insert_if_absent_or_resolved_def opened_dispute_def Let_def intro!: owned_put split: option.split)
  then show ?thesis using o Inr B
    by (auto simp: open_settle_def split_beta split: sum.split intro!: owned_persist)
qed

lemma owned_late:
  assumes "owned A d"
  shows "owned (A \<union> accepts (LateAcceptance t i :: ('seed, 'x, 'k) desk_event)) (record_late_acceptance t i d)"
proof (cases i)
  case (Some j)
  have o: "owned (insert t A) d" using assms by (rule owned_mono) auto
  then have "owned (insert t A) (snd (upsert_or_update t (opened_dispute j t None n False)
      (\<lambda>x. Inr (if is_peer_placeholder x then x\<lparr>di_id := j, di_initiated_by_me := True\<rparr> else x)) d))" for n
    by (rule owned_upsert) auto
  then show ?thesis using Some
    by (auto simp: record_late_acceptance_def split_beta split: sum.split intro!: owned_persist)
qed (use assms in \<open>simp add: record_late_acceptance_def\<close>)

lemma owned_took:
  assumes "owned A d"
  shows "owned A (snd (handle_admin_took_dispute env t a d))"
proof -
  have "owned A (snd (upsert_or_update t (reviewed_dispute u t False a n) (assign_solver a) d))" for u n
    using assms by (rule owned_upsert) (auto simp: reviewed_dispute_def assign_solver_def split: if_splits)
  then show ?thesis using assms
    by (auto simp: handle_admin_took_dispute_def split_beta split: sum.split intro!: owned_persist)
qed

lemma owned_resolve: "owned A d \<Longrightarrow> owned A (snd (resolve_dispute t r d))"
  by (auto simp: resolve_dispute_def update_conditional_def split: option.split sum.split if_splits
      intro!: owned_persist owned_put) (auto simp: owned_def)

lemma owned_commit: "owned A d \<Longrightarrow> mine \<longrightarrow> t \<in> A \<Longrightarrow> owned A (rehydrate_commit u t a mine d)"
  by (auto simp: rehydrate_commit_def reviewed_dispute_def intro!: owned_upsert)

lemma owned_rehydrate:
  assumes "owned A d"
  shows "owned A (rehydrate_trade fresh trade d)"
proof -
  have "read_setting (dispute_mine_key t) (dk_world d) = Inr (Some v) \<Longrightarrow> t \<in> A" for t v
    using assms by (auto simp: owned_def marked_def read_setting_def db_read_def split: option.splits if_splits)
  then show ?thesis using assms
    by (auto simp: rehydrate_trade_def Let_def split: sum.split option.split intro!: owned_commit owned_persist)
qed

lemma owned_desk_step:
  assumes "owned A d" "honest A [e]"
  shows "owned (A \<union> accepts e) (desk_step e d)"
proof (cases e)
  case (Elsewhere f)
  then show ?thesis using assms by (auto simp: owned_def at_desk_def on_world_def) blast
next
  case (Resubscribe env t)
  then show ?thesis using assms by (simp add: resubscribe_dispute_def split: option.split)
next
  case Restart
  then show ?thesis using assms by (simp add: owned_def restart_desk_def)
qed (use assms owned_settle [OF assms(1)] owned_late [OF assms(1)] in \<open>auto simp: owned_sent owned_took owned_resolve
  handle_admin_settled_def handle_admin_canceled_def owned_commit owned_rehydrate\<close>)

lemma owned_desk_run: "owned A d \<Longrightarrow> honest A es \<Longrightarrow> owned (A \<union> accepted es) (desk_run es d)"
proof (induction es arbitrary: A d)
  case (Cons e es)
  have "owned (A \<union> accepts e) (desk_step e d)" using Cons.prems by (intro owned_desk_step) auto
  from Cons.IH [OF this] Cons.prems show ?case by (simp add: desk_run_def accepted_def Un_assoc)
qed (simp add: desk_run_def accepted_def)

text \<open>
  C14: A record says that this side opened the dispute only when the daemon accepted this side's
  request for that trade, in time or late. No race with a solver's assignment, no placeholder of a
  dispute the peer opened, and no restart or rebuild from the stored markers turns the peer's
  dispute into ours.
\<close>

theorem claimed_disputes_were_accepted:
  assumes "dk_store d = fmempty" "marked (dk_world d) = {}" "honest {} es"
    and "fmlookup (dk_store (desk_run es d)) t = Some x" "di_initiated_by_me x"
  shows "t \<in> accepted es"
  using owned_desk_run [of "{}" d es] assms by (auto simp: owned_def)

section \<open>The open and the assignment race\<close>

definition took :: "('seed, 'x, 'k) attempt_env \<Rightarrow> string \<Rightarrow> string \<Rightarrow> 'k desk \<Rightarrow> 'k desk" where
  "took env t a d = snd (handle_admin_took_dispute env t a d)"

text \<open>
  Solvers assigned while the open waits, its acceptance (with the id, the reason), and solvers assigned
  after it; a dispute of the peer has no acceptance.
\<close>

definition dispute_story ::
  "('seed, 'x, 'k) attempt_env \<Rightarrow> string \<Rightarrow> string list \<Rightarrow> (string \<times> string option) option \<Rightarrow> string list \<Rightarrow> 'k desk \<Rightarrow> 'k desk" where
  "dispute_story env t before acc after d =
     (let d1 = fold (took env t) before d;
          d2 = (case acc of None \<Rightarrow> d1 | Some (i, reason) \<Rightarrow> snd (open_settle t reason (Some (DisputeAccepted (Some i))) d1))
      in fold (took env t) after d2)"

text \<open>The desk of an unfinished trade whose store answers, and what it must hold of the dispute.\<close>

definition live_desk :: "string \<Rightarrow> 'k desk \<Rightarrow> bool" where
  "live_desk t d \<longleftrightarrow> answers (dk_world d) \<and> \<not> persisted_order_is_finished t d"

definition tells :: "string \<Rightarrow> (string \<times> string option) option \<Rightarrow> string option \<Rightarrow> 'k desk \<Rightarrow> bool" where
  "tells t acc solver d \<longleftrightarrow> (case fmlookup (dk_store d) t of
      None \<Rightarrow> acc = None \<and> solver = None
    | Some x \<Rightarrow> (acc \<noteq> None \<or> solver \<noteq> None) \<and> di_trade_id x = t \<and> di_initiated_by_me x = (acc \<noteq> None) \<and>
        di_status x = (if solver = None then DisputeOpen else DisputeInReview) \<and> di_admin_pubkey x = solver \<and>
        di_reason x = Option.bind acc snd \<and> (acc \<noteq> None \<longrightarrow> di_id x = fst (the acc)) \<and> di_resolution x = None) \<and>
     sett (dispute_admin_key t) d = solver \<and> (sett (dispute_mine_key t) d \<noteq> None) = (acc \<noteq> None)"

lemma finished_cong:
  "w_db (dk_world d') = w_db (dk_world d) \<Longrightarrow> w_down (dk_world d') = w_down (dk_world d) \<Longrightarrow>
   persisted_order_is_finished t d' = persisted_order_is_finished t d"
  by (simp add: persisted_order_is_finished_def read_trade_def db_read_def split: option.split sum.split)

lemma live_iff: "live_desk t d \<longleftrightarrow> answers (dk_world d) \<and>
    (\<forall>r. get_trade_by_order_id t (tables (dk_world d)) = Some r \<longrightarrow> \<not> is_order_finished (oi_status (ti_order r)))"
  by (auto simp: live_desk_def persisted_order_is_finished_def read_trade_def db_read_def answers_def split: option.splits)

lemma live_persist: "live_desk t d \<Longrightarrow> live_desk t (persist_setting k v d)"
  using persist_world [of d k v] by (simp add: live_iff get_trade_by_order_id_def)

lemma live_same [simp]:
  "live_desk t (put_dispute k x d) = live_desk t d" "live_desk t (drop_guard k d) = live_desk t d"
  "live_desk t (derive_admin_shared_key env k a d) = live_desk t d"
  by (simp_all add: live_iff answers_def)

lemma took_tells:
  assumes "live_desk t d" "tells t acc solver d"
  shows "live_desk t (took env t a d)" "tells t acc (Some a) (took env t a d)"
    "dk_opening (took env t a d) = dk_opening d" "rows_of (took env t a d) = rows_of d"
proof -
  have nf: "\<not> persisted_order_is_finished t d" and ans: "answers (dk_world d)" using assms(1) by (auto simp: live_desk_def)
  obtain y where u: "snd (upsert_or_update t (reviewed_dispute (ae_uuid env) t False a (w_now (dk_world d))) (assign_solver a) d)
      = put_dispute t y d"
    "fst (upsert_or_update t (reviewed_dispute (ae_uuid env) t False a (w_now (dk_world d))) (assign_solver a) d) = Inr ()"
    and y: "di_trade_id y = t" "di_initiated_by_me y = (acc \<noteq> None)" "di_status y = DisputeInReview"
      "di_admin_pubkey y = Some a" "di_reason y = Option.bind acc snd" "acc \<noteq> None \<longrightarrow> di_id y = fst (the acc)"
      "di_resolution y = None"
  proof (cases "fmlookup (dk_store d) t")
    case None
    then show ?thesis using assms(2)
      by (intro that [of "reviewed_dispute (ae_uuid env) t False a (w_now (dk_world d))"])
        (auto simp: upsert_or_update_def tells_def reviewed_dispute_def)
  next
    case (Some x)
    obtain z where z: "assign_solver a x = Inr z"
      using Some assms(2) by (auto simp: assign_solver_def tells_def split: if_splits)
    show ?thesis
      by (rule that [of z]) (use Some z assms(2) in \<open>auto simp: upsert_or_update_def tells_def assign_solver_def split: if_splits\<close>)
  qed
  let ?d1 = "put_dispute t y d"
  have t: "took env t a d = derive_admin_shared_key env t a (persist_setting (dispute_admin_key t) a ?d1)"
    using nf u by (simp add: took_def handle_admin_took_dispute_def persist_admin_pubkey_def split_beta)
  show "live_desk t (took env t a d)" using assms(1) by (simp add: t live_persist)
  show "dk_opening (took env t a d) = dk_opening d" by (simp add: t)
  show "rows_of (took env t a d) = rows_of d"
    using persist_world(2) [of ?d1 "dispute_admin_key t" a] ans by (simp add: t)
  show "tells t acc (Some a) (took env t a d)"
    using assms(2) y ans persist_world(3) [of ?d1 _ "dispute_admin_key t" a]
    by (auto simp: t tells_def split: option.splits)
qed

lemma took_run:
  assumes "live_desk t d" "tells t acc solver d"
  shows "live_desk t (fold (took env t) as d)" "dk_opening (fold (took env t) as d) = dk_opening d"
    "tells t acc (if as = [] then solver else Some (last as)) (fold (took env t) as d)"
    "rows_of (fold (took env t) as d) = rows_of d"
proof -
  have "live_desk t (fold (took env t) as d) \<and> dk_opening (fold (took env t) as d) = dk_opening d \<and>
    tells t acc (if as = [] then solver else Some (last as)) (fold (took env t) as d) \<and>
    rows_of (fold (took env t) as d) = rows_of d"
    using assms
  proof (induction as arbitrary: d solver)
    case (Cons a as)
    from Cons.IH [OF took_tells(1,2) [OF Cons.prems, where env = env and a = a]] took_tells(3,4) [OF Cons.prems, where env = env and a = a] show ?case by (auto split: if_splits)
  qed simp
  then show "live_desk t (fold (took env t) as d)" "dk_opening (fold (took env t) as d) = dk_opening d"
    "tells t acc (if as = [] then solver else Some (last as)) (fold (took env t) as d)"
    "rows_of (fold (took env t) as d) = rows_of d" by auto
qed

lemma settle_tells:
  fixes d :: "'k desk" and i :: string and reason :: "string option"
  assumes "live_desk t d" "tells t None solver d" "t |\<in>| dk_opening d"
  defines "d' \<equiv> snd (open_settle t reason (Some (DisputeAccepted (Some i))) d)"
  shows "live_desk t d'" "tells t (Some (i, reason)) solver d'" "rows_of d' = rows_of d"
proof -
  let ?x = "opened_dispute i t reason (w_now (dk_world d)) True"
  have ans: "answers (dk_world d)" using assms(1) by (simp add: live_desk_def)
  obtain y where u: "try_insert_if_absent_or_resolved ?x d = (Inr y, put_dispute t y d)"
    and y: "di_trade_id y = t" "di_initiated_by_me y" "di_status y = (if solver = None then DisputeOpen else DisputeInReview)"
      "di_admin_pubkey y = solver" "di_reason y = reason" "di_id y = i" "di_resolution y = None"
    using assms(2,3)
    by (auto simp: try_insert_if_absent_or_resolved_def opened_dispute_def tells_def is_peer_placeholder_def Let_def
        split: option.splits)
  have d': "d' = drop_guard t (persist_setting (dispute_mine_key t) ''1'' (put_dispute t y d))"
    by (simp add: d'_def open_settle_def open_verdict_def u persist_dispute_origin_def)
  show "live_desk t d'" using assms(1) by (simp add: d' live_persist)
  show "rows_of d' = rows_of d"
    using persist_world(2) [of "put_dispute t y d" "dispute_mine_key t" "''1''"] ans by (simp add: d')
  show "tells t (Some (i, reason)) solver d'"
    using assms(2) y ans persist_world(3) [of "put_dispute t y d" _ "dispute_mine_key t" "''1''"]
    by (auto simp: d' tells_def split: option.splits)
qed

lemma story:
  assumes "live_desk t d" "tells t None None d" "acc \<noteq> None \<longrightarrow> t |\<in>| dk_opening d"
  shows "tells t acc (if before @ after = [] then None else Some (last (before @ after)))
      (dispute_story env t before acc after d)"
    and "live_desk t (dispute_story env t before acc after d)" "rows_of (dispute_story env t before acc after d) = rows_of d"
proof -
  note b = took_run [OF assms(1,2), where env = env and as = before]
  let ?s = "if before = [] then None else Some (last before)"
  define d2 where "d2 = (case acc of None \<Rightarrow> fold (took env t) before d
    | Some (i, reason) \<Rightarrow> snd (open_settle t reason (Some (DisputeAccepted (Some i))) (fold (took env t) before d)))"
  have d2: "live_desk t d2 \<and> tells t acc ?s d2 \<and> rows_of d2 = rows_of d"
    using b assms(3) settle_tells [OF b(1,3)] by (auto simp: d2_def split: option.split)
  then show "tells t acc (if before @ after = [] then None else Some (last (before @ after)))
      (dispute_story env t before acc after d)"
    "live_desk t (dispute_story env t before acc after d)" "rows_of (dispute_story env t before acc after d) = rows_of d"
    using took_run [where t = t and d = d2 and acc = acc and solver = ?s and env = env and as = after]
    by (auto simp: dispute_story_def d2_def [symmetric] split: if_splits)
qed

text \<open>
  C13: An open and the solver's assignment may race in any order without a loss. However many solvers
  the daemon assigns before and after it accepts this side's dispute, the record ends up ours, with
  the daemon's id and our reason, under review exactly when a solver was assigned, and with the last
  of them; without an acceptance it is the peer's. Solver and origin are persisted accordingly.
\<close>

theorem open_and_assignment_never_clobber:
  assumes "live_desk t d" "tells t None None d" "acc \<noteq> None \<longrightarrow> t |\<in>| dk_opening d"
  shows "tells t acc (if before @ after = [] then None else Some (last (before @ after)))
    (dispute_story env t before acc after d)"
  using assms by (rule story)

section \<open>After a restart\<close>

definition row_finished :: "trade_info \<Rightarrow> bool" where "row_finished r \<longleftrightarrow> is_order_finished (oi_status (ti_order r))"

text \<open>The record a trade gets back, from what is stored for it.\<close>

definition restored :: "(string \<Rightarrow> string) \<Rightarrow> 'k desk \<Rightarrow> trade_info \<Rightarrow> dispute_record \<Rightarrow> bool" where
  "restored fresh d r x \<longleftrightarrow> \<not> row_finished r \<and> (\<exists>a. sett (dispute_admin_key (order_of r)) d = Some a \<and>
     x = reviewed_dispute (fresh (order_of r)) (order_of r) (sett (dispute_mine_key (order_of r)) d \<noteq> None) a (w_now (dk_world d)))"

lemma setting_read: "answers (dk_world d) \<Longrightarrow> read_setting k (dk_world d) = Inr (sett k d)"
  by (auto simp: read_setting_def db_read_def answers_def)

lemma rehydrated_trade:
  fixes d :: "'k desk" and fresh :: "string \<Rightarrow> string" and r :: trade_info
  assumes ans: "answers (dk_world d)" and new: "fmlookup (dk_store d) (order_of r) = None"
  defines "d' \<equiv> rehydrate_trade fresh r d"
  shows "answers (dk_world d')" "w_now (dk_world d') = w_now (dk_world d)"
    "fmlookup (dk_store d') k = Some x \<longleftrightarrow> fmlookup (dk_store d) k = Some x \<or> (k = order_of r \<and> restored fresh d r x)"
    "sett j d' = (if row_finished r \<and> j \<in> {dispute_admin_key (order_of r), dispute_mine_key (order_of r)} then None else sett j d)"
proof -
  let ?k = "order_of r"
  have i: "oi_id (ti_order r) = ?k" by (simp add: order_of_def)
  consider (gone) "row_finished r" "has_dispute_keys ?k d" | (clean) "row_finished r" "\<not> has_dispute_keys ?k d"
    | (none) "\<not> row_finished r" "sett (dispute_admin_key ?k) d = None"
    | (some) a where "\<not> row_finished r" "sett (dispute_admin_key ?k) d = Some a"
    by fastforce
  then have "answers (dk_world d') \<and> w_now (dk_world d') = w_now (dk_world d) \<and>
    (fmlookup (dk_store d') k = Some x \<longleftrightarrow> fmlookup (dk_store d) k = Some x \<or> (k = order_of r \<and> restored fresh d r x)) \<and>
    sett j d' = (if row_finished r \<and> j \<in> {dispute_admin_key (order_of r), dispute_mine_key (order_of r)} then None else sett j d)"
  proof cases
    case gone
    then have d': "d' = clear_dispute_keys ?k d"
      using new by (simp add: d'_def rehydrate_trade_def i Let_def row_finished_def)
    show ?thesis using gone clear_world [OF ans, where i = ?k] by (auto simp: d' restored_def)
  next
    case clean
    then have d': "d' = d" using new by (simp add: d'_def rehydrate_trade_def i Let_def row_finished_def)
    show ?thesis using clean ans by (auto simp: d' restored_def has_dispute_keys_def setting_read)
  next
    case none
    then have d': "d' = d" using new ans by (simp add: d'_def rehydrate_trade_def i Let_def row_finished_def setting_read)
    show ?thesis using none ans by (auto simp: d' restored_def)
  next
    case (some a)
    then have d': "d' = put_dispute ?k (reviewed_dispute (fresh ?k) ?k (sett (dispute_mine_key ?k) d \<noteq> None) a (w_now (dk_world d))) d"
      using new ans by (simp add: d'_def rehydrate_trade_def i Let_def row_finished_def setting_read rehydrate_commit_def
          upsert_or_update_def)
    show ?thesis using some ans new by (auto simp: d' restored_def)
  qed
  then show "answers (dk_world d')" "w_now (dk_world d') = w_now (dk_world d)"
    "fmlookup (dk_store d') k = Some x \<longleftrightarrow> fmlookup (dk_store d) k = Some x \<or> (k = order_of r \<and> restored fresh d r x)"
    "sett j d' = (if row_finished r \<and> j \<in> {dispute_admin_key (order_of r), dispute_mine_key (order_of r)} then None else sett j d)"
    by blast+
qed

lemma rehydrated_trades:
  assumes "answers (dk_world d)" "distinct (map order_of ts)" "\<And>r. r \<in> set ts \<Longrightarrow> fmlookup (dk_store d) (order_of r) = None"
  shows "fmlookup (dk_store (fold (rehydrate_trade fresh) ts d)) k = Some x \<longleftrightarrow>
      fmlookup (dk_store d) k = Some x \<or> (\<exists>r \<in> set ts. order_of r = k \<and> restored fresh d r x)" (is ?A)
    and "sett j (fold (rehydrate_trade fresh) ts d) =
      (if \<exists>r \<in> set ts. row_finished r \<and> j \<in> {dispute_admin_key (order_of r), dispute_mine_key (order_of r)} then None else sett j d)" (is ?B)
proof -
  have "?A \<and> ?B" using assms
  proof (induction ts arbitrary: d)
    case (Cons r ts)
    let ?d = "rehydrate_trade fresh r d"
    have new: "fmlookup (dk_store d) (order_of r) = None" using Cons.prems(3) by simp
    note s = rehydrated_trade [OF Cons.prems(1) new, where fresh = fresh]
    have absent: "fmlookup (dk_store ?d) (order_of q) = None" if "q \<in> set ts" for q
    proof -
      have "order_of q \<noteq> order_of r" using Cons.prems(2) that by (auto simp: image_iff)
      moreover have "fmlookup (dk_store d) (order_of q) = None" using Cons.prems(3) that by simp
      ultimately show ?thesis using s(3) [of "order_of q"] by (cases "fmlookup (dk_store ?d) (order_of q)") auto
    qed
    have same: "restored fresh ?d q y = restored fresh d q y" if "q \<in> set ts" for q y
    proof -
      have "order_of q \<noteq> order_of r" using Cons.prems(2) that by (auto simp: image_iff)
      then show ?thesis by (simp add: restored_def s(2,4))
    qed
    from Cons.IH [OF s(1) _ absent] Cons.prems(2) have ih:
      "fmlookup (dk_store (fold (rehydrate_trade fresh) ts ?d)) k = Some x \<longleftrightarrow>
        fmlookup (dk_store ?d) k = Some x \<or> (\<exists>r \<in> set ts. order_of r = k \<and> restored fresh ?d r x)"
      "sett j (fold (rehydrate_trade fresh) ts ?d) =
        (if \<exists>r \<in> set ts. row_finished r \<and> j \<in> {dispute_admin_key (order_of r), dispute_mine_key (order_of r)} then None else sett j ?d)"
      by auto
    show ?case using ih s(3) [of k x] s(4) [of j] same by auto
  qed simp
  then show ?A ?B by auto
qed

lemma rehydrated_store:
  assumes "answers (dk_world d)" "dk_store d = fmempty" "distinct (map order_of (rows_of d))"
  shows "fmlookup (dk_store (rehydrate_disputes_from_storage fresh d)) t = Some x \<longleftrightarrow>
      (\<exists>r \<in> set (rows_of d). order_of r = t \<and> restored fresh d r x)"
    and "sett j (rehydrate_disputes_from_storage fresh d) =
      (if \<exists>r \<in> set (rows_of d). row_finished r \<and> j \<in> {dispute_admin_key (order_of r), dispute_mine_key (order_of r)}
       then None else sett j d)"
proof -
  let ?ts = "list_trades (tables (dk_world d))"
  have t: "distinct (map order_of ?ts)" using assms(3) by (simp add: list_trades_def distinct_map)
  have u: "set ?ts = set (rows_of d)" by (simp add: list_trades_def)
  have r: "rehydrate_disputes_from_storage fresh d = fold (rehydrate_trade fresh) ?ts d"
    using assms(1) by (auto simp: rehydrate_disputes_from_storage_def db_read_def answers_def)
  show "fmlookup (dk_store (rehydrate_disputes_from_storage fresh d)) t = Some x \<longleftrightarrow>
      (\<exists>r \<in> set (rows_of d). order_of r = t \<and> restored fresh d r x)"
    using rehydrated_trades(1) [OF assms(1) t, where fresh = fresh and k = t and x = x] assms(2) by (simp add: r u)
  show "sett j (rehydrate_disputes_from_storage fresh d) =
      (if \<exists>r \<in> set (rows_of d). row_finished r \<and> j \<in> {dispute_admin_key (order_of r), dispute_mine_key (order_of r)}
       then None else sett j d)"
    using rehydrated_trades(2) [OF assms(1) t, where fresh = fresh and j = j] assms(2) by (simp add: r u)
qed

text \<open>
  The rebuild after a restart is exact: a trade gets a dispute back precisely when it is unfinished
  and a solver is stored for it, with that solver and the stored origin, and every key left for a
  finished trade is removed, so that no later restart resurrects its dispute. Nothing else stored changes.
\<close>

theorem rehydration_is_exact:
  assumes "answers (dk_world d)" "dk_store d = fmempty" "distinct (map order_of (rows_of d))"
  shows "(fmlookup (dk_store (rehydrate_disputes_from_storage fresh d)) t = Some x \<longleftrightarrow>
      (\<exists>r \<in> set (rows_of d). order_of r = t \<and> restored fresh d r x)) \<and>
    sett j (rehydrate_disputes_from_storage fresh d) =
      (if \<exists>r \<in> set (rows_of d). row_finished r \<and> j \<in> {dispute_admin_key (order_of r), dispute_mine_key (order_of r)}
       then None else sett j d)"
  using rehydrated_store [OF assms] by blast

text \<open>
  A dispute under review survives a restart. Whatever the order of acceptance and assignments, the
  record rebuilt from the store after the memory is lost has the same trade, side, status and solver
  as the one that was lost; its id is drawn anew and its reason is gone.
\<close>

theorem dispute_survives_restart:
  assumes "live_desk t d" "tells t None None d" "acc \<noteq> None \<longrightarrow> t |\<in>| dk_opening d" "before @ after \<noteq> []"
    and "distinct (map order_of (rows_of d))" "t \<in> order_of ` set (rows_of d)"
  shows "\<exists>x y. fmlookup (dk_store (dispute_story env t before acc after d)) t = Some x \<and>
    fmlookup (dk_store (rehydrate_disputes_from_storage fresh (restart_desk (dispute_story env t before acc after d)))) t = Some y \<and>
    di_trade_id y = di_trade_id x \<and> di_initiated_by_me y = di_initiated_by_me x \<and> di_status y = di_status x \<and>
    di_admin_pubkey y = di_admin_pubkey x \<and> di_id y = fresh t \<and> di_reason y = None"
proof -
  let ?d = "dispute_story env t before acc after d" and ?s = "Some (last (before @ after))"
  have s: "live_desk t ?d" "rows_of ?d = rows_of d" "tells t acc ?s ?d" using story [OF assms(1-3), where env = env and before = before and after = after] assms(4) by auto
  obtain x where x: "fmlookup (dk_store ?d) t = Some x" "di_trade_id x = t" "di_initiated_by_me x = (acc \<noteq> None)"
    "di_status x = DisputeInReview" "di_admin_pubkey x = ?s"
    using s(3) by (auto simp: tells_def split: option.splits)
  let ?c = "restart_desk ?d"
  obtain r where r: "r \<in> set (rows_of d)" "order_of r = t" using assms(6) by auto
  have "get_trade_by_order_id t (tables (dk_world ?d)) \<noteq> None"
    using r s(2) by (auto simp: get_trade_by_order_id_def find_None_iff)
  then obtain q where q: "get_trade_by_order_id t (tables (dk_world ?d)) = Some q" by auto
  have "q \<in> set (rows_of ?d)" "order_of q = t"
    using q by (auto simp: get_trade_by_order_id_def find_Some_iff)
  moreover have "\<not> row_finished q" using s(1) q by (auto simp: live_iff row_finished_def)
  ultimately have "restored fresh ?c q (reviewed_dispute (fresh t) t (acc \<noteq> None) (last (before @ after)) (w_now (dk_world ?d)))"
    using s(3) by (simp add: restored_def tells_def restart_desk_def)
  then have "fmlookup (dk_store (rehydrate_disputes_from_storage fresh ?c)) t =
      Some (reviewed_dispute (fresh t) t (acc \<noteq> None) (last (before @ after)) (w_now (dk_world ?d)))"
    using rehydrated_store(1) [where d = ?c and fresh = fresh and t = t] s(1,2) assms(5) \<open>q \<in> set (rows_of ?d)\<close> \<open>order_of q = t\<close>
    by (auto simp: live_desk_def restart_desk_def)
  then show ?thesis using x by (auto simp: reviewed_dispute_def)
qed

section \<open>An open that fails\<close>

lemma sent_guard: "open_send env t d = (Inl e, d1) \<Longrightarrow> open_refusal t d = Some e \<and> d1 = d \<or> t |\<notin>| dk_opening d1"
  by (auto simp: open_send_def Let_def split_beta split: option.splits sum.splits)

lemma settle_failed:
  assumes "open_settle t reason reply d = (Inl e, d1)"
  shows "t |\<notin>| dk_opening d1 \<and> dk_store d1 = dk_store d"
proof (cases "open_verdict reply")
  case (Inr i)
  obtain r c where c: "try_insert_if_absent_or_resolved (opened_dispute i t reason (w_now (dk_world d)) True) d = (r, c)"
    by fastforce
  then have "r = Inl e" and d1: "d1 = drop_guard t c"
    using assms Inr by (auto simp: open_settle_def split: sum.splits)
  then have "c = d" using c by (auto simp: try_insert_if_absent_or_resolved_def Let_def split: option.splits if_splits)
  then show ?thesis by (simp add: d1)
qed (use assms in \<open>auto simp: open_settle_def\<close>)

text \<open>
  C15: An open that fails leaves no dispute behind and can be tried again: refused at the door it
  changes nothing at all; after that, whether the key, the message, the publish or the daemon's word
  fails or the daemon stays silent, the store is what it was or what the other tasks made of it
  during the wait, and the in-flight marker is gone.
\<close>

theorem failed_open_leaves_no_dispute:
  assumes "open_dispute env wait t reason d = (Inl e, d')"
  shows "open_refusal t d = Some e \<and> d' = d \<or>
    t |\<notin>| dk_opening d' \<and> (dk_store d' = dk_store d \<or> (\<exists>c. dk_store c = dk_store d \<and> dk_store d' = dk_store (wait c)))"
proof (cases "open_send env t d")
  case (Pair r d1)
  have s: "dk_store d1 = dk_store d" using sent_store [of env t d] by (simp add: Pair)
  show ?thesis
  proof (cases r)
    case (Inl e1)
    then show ?thesis using assms Pair sent_guard [of env t d e1 d1] s by (auto simp: open_dispute_def)
  next
    case (Inr pk)
    then obtain reply d3 where "open_settle t reason reply d3 = (Inl e, d')" "dk_store d3 = dk_store (wait d1)"
      using assms Pair by (auto simp: open_dispute_def Let_def at_desk_def split: if_splits)
    then show ?thesis using settle_failed s by metis
  qed
qed

section \<open>Instances\<close>

definition sample_desk :: "world \<Rightarrow> string fset \<Rightarrow> string desk" where
  "sample_desk w opening = \<lparr>dk_flow = sample_flow w, dk_store = fmempty, dk_updates = [], dk_opening = opening, dk_chats = []\<rparr>"

definition active_world :: "(string \<times> string) list \<Rightarrow> world" where
  "active_world settings = sample_world2 (sample_db [sample_row Active True None] settings)"

lemma sample_desk_simps [simp]:
  "dk_world (sample_desk w o') = w" "dk_store (sample_desk w o') = fmempty" "dk_opening (sample_desk w o') = o'"
  by (simp_all add: sample_desk_def sample_flow_def)

lemma active_world_simps [simp]:
  "answers (active_world s)" "td_rows (tables (active_world s)) = [sample_row Active True None]"
  "get_setting k (tables (active_world s)) = map_of s k" "order_of (sample_row Active True None) = ''o''"
  by (simp_all add: active_world_def sample_world2_def sample_db_def answers_def get_setting_def order_of_def sample_row_def)

lemma active_live: "live_desk ''o'' (sample_desk (active_world s) o')"
  by (simp add: live_iff get_trade_by_order_id_def sample_row_def is_order_finished_def)

lemma active_tells: "tells ''o'' None None (sample_desk (active_world []) o')"
  by (simp add: tells_def)

theorem failed_open_leaves_no_dispute_witness:
  "\<exists>e d'. open_dispute (sample_attempt (\<lambda>w. w)) (\<lambda>d. d) ''o'' None (sample_desk (active_world []) {||}) = (Inl e, d') \<and>
     dk_store d' = fmempty"
proof -
  have "\<exists>e d'. open_dispute (sample_attempt (\<lambda>w. w)) (\<lambda>d. d) ''o'' None (sample_desk (active_world []) {||}) = (Inl e, d')"
    by (simp add: open_dispute_def open_send_def open_refusal_def str_trim_def trim_start_def is_ws_def lookup_key_def
        lookup_trade_key_index_def active_world_def sample_world2_def sample_db_def sample_row_def local_trade_status_def
        read_trade_def db_read_def get_trade_by_order_id_def order_of_def status_allows_dispute_def db_trade_key_def
        sample_desk_def sample_flow_def Let_def)
  then obtain e d' where o: "open_dispute (sample_attempt (\<lambda>w. w)) (\<lambda>d. d) ''o'' None (sample_desk (active_world []) {||}) = (Inl e, d')"
    by blast
  from failed_open_leaves_no_dispute [OF o] have "dk_store d' = fmempty" by auto
  then show ?thesis using o by blast
qed

theorem claimed_disputes_were_accepted_witness:
  "''o'' \<in> accepted [OpenSettle ''o'' None (Some (DisputeAccepted (Some ''d''))) :: (string, string, string) desk_event]"
proof -
  let ?es = "[OpenSettle ''o'' None (Some (DisputeAccepted (Some ''d''))) :: (string, string, string) desk_event]"
  let ?d = "sample_desk (active_world []) {|''o''|}"
  have "\<exists>x. fmlookup (dk_store (desk_run ?es ?d)) ''o'' = Some x \<and> di_initiated_by_me x"
    by (simp add: desk_run_def open_settle_def open_verdict_def try_insert_if_absent_or_resolved_def opened_dispute_def
        persist_dispute_origin_def)
  then show ?thesis
    using claimed_disputes_were_accepted [of ?d ?es] by (auto simp: marked_def active_world_def sample_world2_def sample_db_def get_setting_def)
qed

theorem open_and_assignment_never_clobber_witness:
  "tells ''o'' (Some (''d'', Some ''late'')) (Some ''s2'')
     (dispute_story (sample_attempt (\<lambda>w. w)) ''o'' [''s1''] (Some (''d'', Some ''late'')) [''s2''] (sample_desk (active_world []) {|''o''|}))"
  using open_and_assignment_never_clobber [OF active_live [where o' = "{|''o''|}"] active_tells [where o' = "{|''o''|}"], where acc = "Some (''d'', Some ''late'')" and
      before = "[''s1'']" and after = "[''s2'']" and env = "sample_attempt (\<lambda>w. w)"]
  by simp

theorem dispute_survives_restart_witness:
  "\<exists>y. fmlookup (dk_store (rehydrate_disputes_from_storage (\<lambda>_. ''new'') (restart_desk
     (dispute_story (sample_attempt (\<lambda>w. w)) ''o'' [''s1''] (Some (''d'', Some ''late'')) [''s2''] (sample_desk (active_world []) {|''o''|}))))) ''o'' = Some y \<and>
     di_id y = ''new''"
  using dispute_survives_restart [OF active_live [where o' = "{|''o''|}"] active_tells [where o' = "{|''o''|}"], where acc = "Some (''d'', Some ''late'')" and
      before = "[''s1'']" and after = "[''s2'']" and env = "sample_attempt (\<lambda>w. w)" and fresh = "\<lambda>_. ''new''"]
  by auto

theorem rehydration_is_exact_witness:
  "\<exists>x. fmlookup (dk_store (rehydrate_disputes_from_storage (\<lambda>_. ''new'')
     (sample_desk (active_world [(dispute_admin_key ''o'', ''s'')]) {||}))) ''o'' = Some x \<and> di_admin_pubkey x = Some ''s'' \<and>
     \<not> di_initiated_by_me x"
proof -
  let ?d = "sample_desk (active_world [(dispute_admin_key ''o'', ''s'')]) {||}"
  let ?x = "reviewed_dispute ''new'' ''o'' False ''s'' (w_now (dk_world ?d))"
  have "restored (\<lambda>_. ''new'') ?d (sample_row Active True None) ?x"
    by (simp add: restored_def row_finished_def sample_row_def is_order_finished_def dispute_admin_key_def dispute_mine_key_def
        order_of_def)
  then have "fmlookup (dk_store (rehydrate_disputes_from_storage (\<lambda>_. ''new'') ?d)) ''o'' = Some ?x"
    using rehydration_is_exact [where d = ?d and fresh = "\<lambda>_. ''new''" and t = "''o''" and x = ?x] by simp
  then show ?thesis by (simp add: reviewed_dispute_def)
qed

end
