(* ===== verification/Chat_Envelope.thy ===== *)
theory Chat_Envelope
  imports Actions Trade_Index "HOL-Library.Countable"
begin

text \<open>
  The envelope of the chat (\<open>mostro_wrap\<close> and \<open>mostro_unwrap\<close> of \<open>rust/src/nostr/transport.rs\<close>): a kind 14
  event signed with the conversation's signing key, carrying the encrypted kind 1 event the sender
  signed with its trade key.

  Signatures, NIP-44, the mining of NIP-13 and the JSON of an event are calls of the nostr crate: the
  fields of \<open>envelope_lib\<close>. A tag is the list of its parts. The reason a signature fails for is left out.
\<close>

record nostr_event =
  ne_id :: string
  ne_pubkey :: string
  ne_created_at :: u64
  ne_kind :: nat
  ne_tags :: tag_list
  ne_content :: string

record 'k envelope_lib =
  el_pubkey :: "'k \<Rightarrow> string"
  el_finalize :: "'k \<Rightarrow> nostr_event \<Rightarrow> (string, nostr_event) result"
  el_verify :: "nostr_event \<Rightarrow> bool"
  el_encrypt :: "'k \<Rightarrow> string \<Rightarrow> (string, string) result"
  el_decrypt :: "'k \<Rightarrow> string \<Rightarrow> (string, string) result"
  el_to_json :: "nostr_event \<Rightarrow> string"
  el_from_json :: "string \<Rightarrow> (string, nostr_event) result"
  el_mine :: "u8 \<Rightarrow> nostr_event \<Rightarrow> (string, nostr_event) result"

definition text_note :: nat where "text_note = 1"

definition envelope_clock_skew_secs :: nat where "envelope_clock_skew_secs = 60"
definition max_content_bytes :: nat where "max_content_bytes = 64 * 1024"
definition max_outer_tags :: nat where "max_outer_tags = 8"

definition map_error :: "(string \<Rightarrow> string) \<Rightarrow> (string, 'a) result \<Rightarrow> (string, 'a) result" where
  "map_error f r = (case r of Inl e \<Rightarrow> Inl (f e) | Inr x \<Rightarrow> Inr x)"

text \<open>An event that waits for its id and signature; the builder leaves the id empty.\<close>

definition unsigned_event :: "string \<Rightarrow> u64 \<Rightarrow> nat \<Rightarrow> tag_list \<Rightarrow> string \<Rightarrow> nostr_event" where
  "unsigned_event pk now kind tags content =
     \<lparr>ne_id = [], ne_pubkey = pk, ne_created_at = now, ne_kind = kind, ne_tags = tags, ne_content = content\<rparr>"

definition message_too_large :: "nat \<Rightarrow> string" where
  "message_too_large n = ''MessageTooLarge: encrypted payload is '' @ nat_digits n @ '' bytes, limit '' @ nat_digits max_content_bytes"

definition mostro_wrap ::
  "'k envelope_lib \<Rightarrow> u8 \<Rightarrow> string \<Rightarrow> u64 \<Rightarrow> 'k \<Rightarrow> 'k \<Rightarrow> 'k \<Rightarrow> string \<Rightarrow> (string, nostr_event \<times> nostr_event) result" where
  "mostro_wrap lib pow nonce now sender_trade conv sign message =
     and_then (map_error (\<lambda>e. ''inner event sign failed: '' @ e)
         (el_finalize lib sender_trade
            (unsigned_event (el_pubkey lib sender_trade) now text_note [[''u'', nonce]] message))) (\<lambda>inner.
     and_then (map_error (\<lambda>e. ''NIP-44 encrypt failed: '' @ e) (el_encrypt lib conv (el_to_json lib inner))) (\<lambda>content.
       if length content > max_content_bytes then Inl (message_too_large (length content))
       else
         let unsigned = unsigned_event (el_pubkey lib sign) now private_direct_message [[''p'', el_pubkey lib conv]] content in
         and_then (if pow = 0 then Inr unsigned
                   else map_error (\<lambda>e. ''outer event PoW failed: '' @ e) (el_mine lib pow unsigned)) (\<lambda>mined.
         and_then (map_error (\<lambda>e. ''outer event sign failed: '' @ e) (el_finalize lib sign mined)) (\<lambda>outer.
           Inr (outer, inner)))))"

text \<open>Exactly one \<open>p\<close> tag, and its content is the address of the conversation.\<close>

definition addressed_to :: "string \<Rightarrow> tag_list \<Rightarrow> bool" where
  "addressed_to address tags = (case filter (\<lambda>t. nth_opt t 0 = Some ''p'') tags of
      [t] \<Rightarrow> nth_opt t 1 = Some address | _ \<Rightarrow> False)"

definition abs_diff :: "nat \<Rightarrow> nat \<Rightarrow> nat" where "abs_diff a b = (if a < b then b - a else a - b)"

definition mostro_unwrap ::
  "'k envelope_lib \<Rightarrow> 'k \<Rightarrow> string \<Rightarrow> string list \<Rightarrow> nostr_event \<Rightarrow> u64 \<Rightarrow> (string, nostr_event) result" where
  "mostro_unwrap lib conv sign_pubkey allowed_signers outer now =
     (if ne_pubkey outer \<noteq> sign_pubkey then Inl ''outer event is not authored by the conversation signing key''
      else if ne_kind outer \<noteq> private_direct_message then Inl ''outer event is not kind 14''
      else if length (ne_tags outer) > max_outer_tags then
        Inl (''outer event carries '' @ nat_digits (length (ne_tags outer)) @ '' tags, limit '' @ nat_digits max_outer_tags)
      else if \<not> addressed_to (el_pubkey lib conv) (ne_tags outer)
      then Inl ''outer event must carry exactly one p tag for this conversation''
      else if unat (ne_created_at outer) > min (2 ^ 64 - 1) (unat now + envelope_clock_skew_secs)
      then Inl ''outer event is dated too far in the future''
      else if length (ne_content outer) > max_content_bytes then Inl ''encrypted payload exceeds the accepted size''
      else if \<not> el_verify lib outer then Inl ''outer signature invalid''
      else and_then (map_error (\<lambda>e. ''NIP-44 decrypt failed: '' @ e) (el_decrypt lib conv (ne_content outer))) (\<lambda>decrypted.
        and_then (map_error (\<lambda>e. ''inner event parse failed: '' @ e) (el_from_json lib decrypted)) (\<lambda>inner.
          if \<not> el_verify lib inner then Inl ''inner signature invalid''
          else if ne_pubkey inner \<notin> set allowed_signers
          then Inl ''inner event is signed by a key that is not a party to this order''
          else if ne_kind inner \<noteq> text_note then Inl ''inner event is not kind 1''
          else if abs_diff (unat (ne_created_at inner)) (unat (ne_created_at outer)) > envelope_clock_skew_secs
          then Inl (''inner and outer timestamps disagree '' @ em_dash @ '' stale re-wrap'')
          else Inr inner)))"

section \<open>What is accepted, and that what is sent is accepted\<close>

lemma map_error_Inr [simp]: "map_error f r = Inr y \<longleftrightarrow> r = Inr y"
  by (simp add: map_error_def split: sum.split)

lemma unwrapped:
  assumes "mostro_unwrap lib conv pk allowed outer now = Inr inner"
  shows "ne_pubkey outer = pk" "el_verify lib outer" "el_verify lib inner" "ne_pubkey inner \<in> set allowed"
    "ne_kind inner = text_note" "addressed_to (el_pubkey lib conv) (ne_tags outer)"
    "unat (ne_created_at outer) \<le> unat now + envelope_clock_skew_secs"
    "abs_diff (unat (ne_created_at inner)) (unat (ne_created_at outer)) \<le> envelope_clock_skew_secs"
    "\<exists>plain. el_decrypt lib conv (ne_content outer) = Inr plain \<and> el_from_json lib plain = Inr inner"
  using assms by (auto simp: mostro_unwrap_def and_then_Inr_iff not_less split: if_splits)

text \<open>
  What the nostr crate documents of these calls: signing keeps the fields, gives a valid signature of
  the signer, decryption inverts encryption, parsing inverts printing, and mining adds a \<open>nonce\<close> tag
  and moves the time by no more than it took.
\<close>

definition envelope_laws :: "'k envelope_lib \<Rightarrow> bool" where
  "envelope_laws lib \<longleftrightarrow>
     (\<forall>k e f. el_finalize lib k e = Inr f \<longrightarrow> el_verify lib f \<and> ne_pubkey f = ne_pubkey e \<and>
        ne_created_at f = ne_created_at e \<and> ne_kind f = ne_kind e \<and> ne_tags f = ne_tags e \<and> ne_content f = ne_content e) \<and>
     (\<forall>k s c. el_encrypt lib k s = Inr c \<longrightarrow> el_decrypt lib k c = Inr s) \<and>
     (\<forall>e. el_from_json lib (el_to_json lib e) = Inr e) \<and>
     (\<forall>p e f. el_mine lib p e = Inr f \<longrightarrow> (\<exists>v ts. f = e\<lparr>ne_tags := ne_tags e @ [''nonce'' # v], ne_created_at := ts\<rparr> \<and>
        abs_diff (unat (ne_created_at e)) (unat ts) \<le> envelope_clock_skew_secs))"

text \<open>
  What a party sends, the other party reads back. If an envelope is made at all, then a receiver of
  the same conversation whose list of parties has the sender, and whose clock is not more than a
  minute behind the envelope, accepts it and gets the very event that was signed, whose id both
  sides then know the message by. A text too long for the receiver is refused before it is sent.
\<close>

theorem sent_envelope_is_read:
  assumes "envelope_laws lib" and "mostro_wrap lib pow nonce now sender_trade conv sign message = Inr (outer, inner)"
    and "el_pubkey lib sender_trade \<in> set allowed" and "unat (ne_created_at outer) \<le> unat later + envelope_clock_skew_secs"
  shows "mostro_unwrap lib conv (el_pubkey lib sign) allowed outer later = Inr inner \<and> ne_content inner = message"
proof -
  obtain content mined where i: "el_finalize lib sender_trade
      (unsigned_event (el_pubkey lib sender_trade) now text_note [[''u'', nonce]] message) = Inr inner"
    and c: "el_encrypt lib conv (el_to_json lib inner) = Inr content" "length content \<le> max_content_bytes"
    and m: "(let u = unsigned_event (el_pubkey lib sign) now private_direct_message [[''p'', el_pubkey lib conv]] content in
        if pow = 0 then Inr u else map_error (\<lambda>e. ''outer event PoW failed: '' @ e) (el_mine lib pow u)) = Inr mined"
    and o: "el_finalize lib sign mined = Inr outer"
    using assms(2) by (auto simp: mostro_wrap_def and_then_Inr_iff Let_def not_less split: if_splits)
  have inner: "el_verify lib inner" "ne_pubkey inner = el_pubkey lib sender_trade" "ne_created_at inner = now"
    "ne_kind inner = text_note" "ne_content inner = message"
    using assms(1) i unfolding envelope_laws_def by (force simp: unsigned_event_def)+
  have outer: "el_verify lib outer" "ne_pubkey outer = ne_pubkey mined" "ne_created_at outer = ne_created_at mined"
    "ne_kind outer = ne_kind mined" "ne_tags outer = ne_tags mined" "ne_content outer = ne_content mined"
    using assms(1) o unfolding envelope_laws_def by blast+
  have mined: "ne_pubkey mined = el_pubkey lib sign" "ne_kind mined = private_direct_message" "ne_content mined = content"
    "length (ne_tags mined) \<le> 2" "addressed_to (el_pubkey lib conv) (ne_tags mined)"
    "abs_diff (unat now) (unat (ne_created_at mined)) \<le> envelope_clock_skew_secs"
  proof -
    let ?u = "unsigned_event (el_pubkey lib sign) now private_direct_message [[''p'', el_pubkey lib conv]] content"
    have law: "\<exists>v ts. f = e\<lparr>ne_tags := ne_tags e @ [''nonce'' # v], ne_created_at := ts\<rparr> \<and>
        abs_diff (unat (ne_created_at e)) (unat ts) \<le> envelope_clock_skew_secs" if "el_mine lib p e = Inr f" for p e f
      using assms(1) that by (simp only: envelope_laws_def)
    have "mined = ?u \<or> el_mine lib pow ?u = Inr mined"
      using m by (auto simp: Let_def split: if_splits)
    then have "mined = ?u \<or> (\<exists>v ts. mined = ?u\<lparr>ne_tags := ne_tags ?u @ [''nonce'' # v], ne_created_at := ts\<rparr> \<and>
        abs_diff (unat (ne_created_at ?u)) (unat ts) \<le> envelope_clock_skew_secs)"
      using law [of pow ?u mined] by argo
    then show "ne_pubkey mined = el_pubkey lib sign" "ne_kind mined = private_direct_message" "ne_content mined = content"
      "length (ne_tags mined) \<le> 2" "addressed_to (el_pubkey lib conv) (ne_tags mined)"
      "abs_diff (unat now) (unat (ne_created_at mined)) \<le> envelope_clock_skew_secs"
      by (auto simp: unsigned_event_def addressed_to_def nth_opt_def abs_diff_def)
  qed
  have plain: "el_decrypt lib conv content = Inr (el_to_json lib inner)" "el_from_json lib (el_to_json lib inner) = Inr inner"
    using assms(1) c(1) unfolding envelope_laws_def by blast+
  have late: "\<not> unat (ne_created_at mined) > min (2 ^ 64 - 1) (unat later + envelope_clock_skew_secs)"
    using assms(4) outer(3) unsigned_less [of "ne_created_at mined", where ?'a = nat] by (auto simp: min_def not_less)
  have few: "\<not> length (ne_tags mined) > max_outer_tags" using mined(4) by (simp add: max_outer_tags_def)
  show ?thesis
    using c(2) assms(3) late few mined(6) [THEN leD]
    by (simp add: mostro_unwrap_def outer inner mined plain map_error_def and_then_def)
qed

text \<open>
  An instance: a signature always holds, the JSON of an event is a code of its fields, and the cipher has
  one word, for the one plaintext it is asked to carry.
\<close>

definition code_event :: "nostr_event \<Rightarrow> string" where
  "code_event e = replicate (to_nat (ne_id e, ne_pubkey e, unat (ne_created_at e), ne_kind e, ne_tags e, ne_content e)) (CHR ''x'')"

definition decode_event :: "string \<Rightarrow> nostr_event" where
  "decode_event s = (case from_nat (length s) of (i, pk, t, k, tags, c) \<Rightarrow>
     \<lparr>ne_id = i, ne_pubkey = pk, ne_created_at = of_nat t, ne_kind = k, ne_tags = tags, ne_content = c\<rparr>)"

lemma decode_code: "decode_event (code_event e) = e"
  by (cases e) (simp add: decode_event_def code_event_def)

definition sample_note :: nostr_event where
  "sample_note = (unsigned_event ''alice'' 100 text_note [[''u'', ''n'']] ''hi'')\<lparr>ne_id := ''id''\<rparr>"

definition sample_envelope_lib :: "string envelope_lib" where
  "sample_envelope_lib = \<lparr>el_pubkey = (\<lambda>k. k), el_finalize = (\<lambda>k e. Inr (e\<lparr>ne_id := ''id''\<rparr>)), el_verify = (\<lambda>_. True),
     el_encrypt = (\<lambda>k s. if s = code_event sample_note then Inr ''c'' else Inl ''one word only''),
     el_decrypt = (\<lambda>k s. Inr (code_event sample_note)), el_to_json = code_event, el_from_json = (\<lambda>s. Inr (decode_event s)),
     el_mine = (\<lambda>_ _. Inl ''none'')\<rparr>"

theorem sent_envelope_is_read_witness:
  "\<exists>outer. mostro_wrap sample_envelope_lib 0 ''n'' 100 ''alice'' ''conv'' ''sign'' ''hi'' = Inr (outer, sample_note) \<and>
     mostro_unwrap sample_envelope_lib ''conv'' ''sign'' [''alice'', ''bob''] outer 100 = Inr sample_note"
proof -
  have laws: "envelope_laws sample_envelope_lib"
    by (auto simp: envelope_laws_def sample_envelope_lib_def decode_code split: if_splits)
  define outer where "outer = (unsigned_event ''sign'' 100 private_direct_message [[''p'', ''conv'']] ''c'')\<lparr>ne_id := ''id''\<rparr>"
  have w: "mostro_wrap sample_envelope_lib 0 ''n'' 100 ''alice'' ''conv'' ''sign'' ''hi'' = Inr (outer, sample_note)"
    by (simp add: mostro_wrap_def sample_envelope_lib_def sample_note_def outer_def max_content_bytes_def and_then_def map_error_def)
  have "unat (ne_created_at outer) \<le> unat (100 :: u64) + envelope_clock_skew_secs"
    by (simp add: outer_def unsigned_event_def)
  from sent_envelope_is_read [OF laws w _ this, of "[''alice'', ''bob'']"]
  have "mostro_unwrap sample_envelope_lib ''conv'' ''sign'' [''alice'', ''bob''] outer 100 = Inr sample_note"
    by (simp add: sample_envelope_lib_def)
  then show ?thesis using w by blast
qed

end
