(* ===== verification/Reputation.thy ===== *)
theory Reputation
  imports Dispute_Safety Chat_Envelope
begin

text \<open>
  The ratings of finished trades (\<open>rust/src/api/reputation.rs\<close>): the store with the two sides of each trade,
  the submission with its reservation and rollback, and the marker on the trade row that survives a
  restart.
\<close>

record rating_info =
  rt_trade_id :: string
  rt_score :: u8
  rt_is_mine :: bool
  rt_created_at :: i64

record trade_ratings =
  tr_mine :: "rating_info option"
  tr_peer :: "rating_info option"

record rating_received =
  rr_trade_id :: string
  rr_score :: u8
  rr_from_pubkey :: string

record rating_store =
  rs_ratings :: "(string, trade_ratings) fmap"
  rs_privacy :: bool
  rs_events :: "rating_received list"

section \<open>The store\<close>

definition ratings_of :: "string \<Rightarrow> rating_store \<Rightarrow> trade_ratings" where
  "ratings_of trade_id s = (case fmlookup (rs_ratings s) trade_id of Some r \<Rightarrow> r | None \<Rightarrow> \<lparr>tr_mine = None, tr_peer = None\<rparr>)"

definition put_ratings :: "string \<Rightarrow> trade_ratings \<Rightarrow> rating_store \<Rightarrow> rating_store" where
  "put_ratings trade_id r s = s\<lparr>rs_ratings := fmupd trade_id r (rs_ratings s)\<rparr>"

definition get_rating :: "string \<Rightarrow> rating_store \<Rightarrow> rating_info option" where
  "get_rating trade_id s = Option.bind (fmlookup (rs_ratings s) trade_id)
     (\<lambda>r. case tr_mine r of Some m \<Rightarrow> Some m | None \<Rightarrow> tr_peer r)"

definition already_rated :: "string \<Rightarrow> string" where
  "already_rated trade_id = ''AlreadyRated: a rating has already been submitted for trade '' @ trade_id"

definition try_insert_mine :: "rating_info \<Rightarrow> rating_store \<Rightarrow> (string, unit) result \<times> rating_store" where
  "try_insert_mine info s = (let r = ratings_of (rt_trade_id info) s in
     if tr_mine r \<noteq> None then (Inl (already_rated (rt_trade_id info)), s)
     else (Inr (), put_ratings (rt_trade_id info) (r\<lparr>tr_mine := Some info\<rparr>) s))"

definition remove_mine :: "string \<Rightarrow> rating_store \<Rightarrow> rating_store" where
  "remove_mine trade_id s = (case fmlookup (rs_ratings s) trade_id of
      None \<Rightarrow> s
    | Some r \<Rightarrow> if tr_peer r = None then s\<lparr>rs_ratings := fmdrop trade_id (rs_ratings s)\<rparr>
        else put_ratings trade_id (r\<lparr>tr_mine := None\<rparr>) s)"

definition insert_peer :: "rating_info \<Rightarrow> rating_store \<Rightarrow> rating_store" where
  "insert_peer info s = put_ratings (rt_trade_id info) ((ratings_of (rt_trade_id info) s)\<lparr>tr_peer := Some info\<rparr>) s"

definition has_mine :: "string \<Rightarrow> rating_store \<Rightarrow> bool" where
  "has_mine trade_id s \<longleftrightarrow> (case fmlookup (rs_ratings s) trade_id of Some r \<Rightarrow> tr_mine r \<noteq> None | None \<Rightarrow> False)"

definition hydrate_mine :: "rating_info \<Rightarrow> rating_store \<Rightarrow> rating_store" where
  "hydrate_mine info s = (let r = ratings_of (rt_trade_id info) s in
     put_ratings (rt_trade_id info) (if tr_mine r = None then r\<lparr>tr_mine := Some info\<rparr> else r) s)"

definition hydrate_mine_from_db :: "string \<Rightarrow> world \<Rightarrow> rating_store \<Rightarrow> rating_store" where
  "hydrate_mine_from_db trade_id w s =
     (if has_mine trade_id s \<or> \<not> has_db w then s
      else (case read_trade trade_id w of
          Inr (Some trade) \<Rightarrow> (case ti_rated_at trade of
              Some t \<Rightarrow> hydrate_mine \<lparr>rt_trade_id = trade_id, rt_score = 0, rt_is_mine = True, rt_created_at = t\<rparr> s
            | None \<Rightarrow> s)
        | _ \<Rightarrow> s))"

section \<open>Submitting\<close>

text \<open>
  A submission up to its reservation, and from the lookup of the key to its end: other tasks may run in between.
\<close>

definition valid_score :: "u8 \<Rightarrow> bool" where "valid_score score \<longleftrightarrow> 1 \<le> score \<and> score \<le> 5"

definition reserve_rating ::
  "string \<Rightarrow> u8 \<Rightarrow> world \<Rightarrow> rating_store \<Rightarrow> (string, unit) result \<times> rating_store" where
  "reserve_rating trade_id score w s =
     (if \<not> valid_score score then (Inl (''InvalidScore: score must be between 1 and 5, got '' @ nat_digits (unat score)), s)
      else if rs_privacy s then (Inl ''PrivacyModeEnabled: cannot submit rating while privacy mode is active'', s)
      else try_insert_mine \<lparr>rt_trade_id = trade_id, rt_score = score, rt_is_mine = True, rt_created_at = w_now w\<rparr>
             (hydrate_mine_from_db trade_id w s))"

definition rate_user_event ::
  "('seed, 'x, 'k) attempt_env \<Rightarrow> bool \<Rightarrow> u32 \<Rightarrow> string \<Rightarrow> u8 \<Rightarrow> 'k flow \<Rightarrow> (string, 'k sent_event) result" where
  "rate_user_event env privacy index trade_id score fl =
     and_then (get_active_trade_keys (ae_lib env) index (fl_identity fl)) (\<lambda>sender_keys.
     and_then (get_transport_identity_keys privacy sender_keys (fl_identity fl)) (\<lambda>identity_keys.
     and_then (map_error (\<lambda>e. ''invalid mostro pubkey: '' @ e) (node_key env (fl_world fl))) (\<lambda>node.
       rate_user (ae_wrap env) identity_keys sender_keys node trade_id index score)))"

text \<open>
  The send, up to the answer of the publish, and what follows it, the marker or the roll back: a wait lies in between.
\<close>

datatype rating_outcome = RatingUnkeyed | RatingSent | RatingFailed string

definition publish_rating ::
  "('seed, 'x, 'k) attempt_env \<Rightarrow> string \<Rightarrow> u8 \<Rightarrow> bool \<Rightarrow> 'k flow \<Rightarrow> rating_outcome \<times> 'k flow" where
  "publish_rating env trade_id score privacy fl = (case lookup_key trade_id fl of
      (None, fl1) \<Rightarrow> (RatingUnkeyed, fl1)
    | (Some index, fl1) \<Rightarrow> (case rate_user_event env privacy index trade_id score fl1 of
        Inl e \<Rightarrow> (RatingFailed e, fl1)
      | Inr event \<Rightarrow> (case publish_event_json env event fl1 of
          (Inr _, fl2) \<Rightarrow> (RatingSent, fl2) | (Inl e, fl2) \<Rightarrow> (RatingFailed e, fl2))))"

definition finish_rating ::
  "string \<Rightarrow> rating_outcome \<Rightarrow> 'k flow \<times> rating_store \<Rightarrow> (string, unit) result \<times> 'k flow \<times> rating_store" where
  "finish_rating trade_id answer st = (case st of (fl, s) \<Rightarrow> (case answer of
      RatingUnkeyed \<Rightarrow> (Inr (), fl, s)
    | RatingSent \<Rightarrow> (Inr (), on_world (\<lambda>w. if has_db w
          then db_try CMarkRated (Trade_Store.mark_trade_rated trade_id (w_now w)) w else w) fl, s)
    | RatingFailed e \<Rightarrow> (Inl (''RateUserDispatchFailed: '' @ e), fl, remove_mine trade_id s)))"

text \<open>The whole call; \<open>meanwhile\<close> is what other tasks do while the publish is awaited.\<close>

definition submit_rating ::
  "('seed, 'x, 'k) attempt_env \<Rightarrow> string \<Rightarrow> u8 \<Rightarrow> ('k flow \<times> rating_store \<Rightarrow> 'k flow \<times> rating_store) \<Rightarrow> 'k flow \<times> rating_store
     \<Rightarrow> (string, unit) result \<times> 'k flow \<times> rating_store" where
  "submit_rating env trade_id score meanwhile st = (case st of (fl, s) \<Rightarrow>
     (case reserve_rating trade_id score (fl_world fl) s of
        (Inl e, s1) \<Rightarrow> (Inl e, fl, s1)
      | (Inr _, s1) \<Rightarrow> (case publish_rating env trade_id score (rs_privacy s1) fl of
          (answer, fl1) \<Rightarrow> finish_rating trade_id answer (meanwhile (fl1, s1)))))"

definition set_privacy_mode :: "bool \<Rightarrow> rating_store \<Rightarrow> rating_store" where
  "set_privacy_mode enabled s = s\<lparr>rs_privacy := enabled\<rparr>"

definition get_rating_for_trade :: "string \<Rightarrow> world \<Rightarrow> rating_store \<Rightarrow> rating_info option \<times> rating_store" where
  "get_rating_for_trade trade_id w s = (let s1 = hydrate_mine_from_db trade_id w s in (get_rating trade_id s1, s1))"

definition handle_rating_received ::
  "string \<Rightarrow> u8 \<Rightarrow> string \<Rightarrow> i64 \<Rightarrow> rating_store \<Rightarrow> (string, unit) result \<times> rating_store" where
  "handle_rating_received trade_id score from_pubkey now s =
     (if \<not> valid_score score
      then (Inl (''InvalidScore: received invalid score '' @ nat_digits (unat score) @ '' for trade '' @ trade_id), s)
      else if rs_privacy s then (Inr (), s)
      else (Inr (), (insert_peer \<lparr>rt_trade_id = trade_id, rt_score = score, rt_is_mine = False, rt_created_at = now\<rparr> s)
        \<lparr>rs_events := rs_events s @ [\<lparr>rr_trade_id = trade_id, rr_score = score, rr_from_pubkey = from_pubkey\<rparr>]\<rparr>))"

section \<open>Histories\<close>

text \<open>
  \<open>rd_open\<close>: the submissions that hold a reservation and have not published, with their scores; \<open>rd_answered\<close>: those whose
  publish was answered and that have not finished. \<open>rd_rated\<close> is the log of published ratings and \<open>rd_unmarked\<close> counts the
  restarts that fell between the publish of a trade's rating and its marker. What other tasks do to the rest of the
  world is any function.
\<close>

record 'k rating_desk =
  rd_flow :: "'k flow"
  rd_store :: rating_store
  rd_open :: "(string, u8) fmap"
  rd_answered :: "(string, rating_outcome) fmap"
  rd_rated :: "string list"
  rd_unmarked :: "string \<Rightarrow> nat"

datatype ('seed, 'x, 'k) rating_event =
    RateBegins string u8
  | RatePublishes "('seed, 'x, 'k) attempt_env" string
  | RateFinishes string
  | PeerRates string u8 string
  | AsksRating string
  | SetsPrivacy bool
  | AppRestarts
  | OtherTasks "world \<Rightarrow> world"

definition rd_world :: "'k rating_desk \<Rightarrow> world" where "rd_world d = fl_world (rd_flow d)"

lemma rd_world_simps [simp]:
  "rd_world (d\<lparr>rd_store := s\<rparr>) = rd_world d" "rd_world (d\<lparr>rd_store := s, rd_open := o'\<rparr>) = rd_world d"
  "rd_world (d\<lparr>rd_flow := fl\<rparr>) = fl_world fl"
  "rd_world (d\<lparr>rd_flow := fl, rd_open := o', rd_answered := a, rd_rated := l\<rparr>) = fl_world fl"
  "rd_world (d\<lparr>rd_flow := fl, rd_store := s, rd_answered := a\<rparr>) = fl_world fl"
  "rd_world (d\<lparr>rd_store := s, rd_open := o', rd_answered := a, rd_unmarked := u\<rparr>) = rd_world d"
  by (simp_all add: rd_world_def)

definition empty_ratings :: rating_store where "empty_ratings = \<lparr>rs_ratings = fmempty, rs_privacy = False, rs_events = []\<rparr>"

fun rating_step :: "('seed, 'x, 'k) rating_event \<Rightarrow> 'k rating_desk \<Rightarrow> 'k rating_desk" where
  "rating_step (RateBegins i score) d = (case reserve_rating i score (rd_world d) (rd_store d) of
      (Inr _, s) \<Rightarrow> d\<lparr>rd_store := s, rd_open := fmupd i score (rd_open d)\<rparr>
    | (Inl _, s) \<Rightarrow> d\<lparr>rd_store := s\<rparr>)"
| "rating_step (RatePublishes env i) d = (case fmlookup (rd_open d) i of
      None \<Rightarrow> d
    | Some score \<Rightarrow> (case publish_rating env i score (rs_privacy (rd_store d)) (rd_flow d) of (answer, fl) \<Rightarrow>
        d\<lparr>rd_flow := fl, rd_open := fmdrop i (rd_open d), rd_answered := fmupd i answer (rd_answered d),
          rd_rated := rd_rated d @ replicate (length (fl_sent fl) - length (fl_sent (rd_flow d))) i\<rparr>))"
| "rating_step (RateFinishes i) d = (case fmlookup (rd_answered d) i of
      None \<Rightarrow> d
    | Some answer \<Rightarrow> (case finish_rating i answer (rd_flow d, rd_store d) of (r, fl, s) \<Rightarrow>
        d\<lparr>rd_flow := fl, rd_store := s, rd_answered := fmdrop i (rd_answered d)\<rparr>))"
| "rating_step (PeerRates i score from_pubkey) d =
     d\<lparr>rd_store := snd (handle_rating_received i score from_pubkey (w_now (rd_world d)) (rd_store d))\<rparr>"
| "rating_step (AsksRating i) d = d\<lparr>rd_store := snd (get_rating_for_trade i (rd_world d) (rd_store d))\<rparr>"
| "rating_step (SetsPrivacy b) d = d\<lparr>rd_store := set_privacy_mode b (rd_store d)\<rparr>"
| "rating_step AppRestarts d = d\<lparr>rd_store := empty_ratings, rd_open := fmempty, rd_answered := fmempty,
     rd_unmarked := (\<lambda>i. rd_unmarked d i + (if fmlookup (rd_answered d) i = Some RatingSent then 1 else 0))\<rparr>"
| "rating_step (OtherTasks f) d = d\<lparr>rd_flow := on_world f (rd_flow d)\<rparr>"

definition rating_run :: "('seed, 'x, 'k) rating_event list \<Rightarrow> 'k rating_desk \<Rightarrow> 'k rating_desk" where
  "rating_run es d = fold rating_step es d"

definition steady :: "string \<Rightarrow> world \<Rightarrow> bool" where
  "steady k w \<longleftrightarrow> \<not> w_down w CGetTrade \<and> \<not> w_down w CMarkRated \<and> (\<exists>db r. w_db w = Some db \<and> get_trade_by_order_id k db = Some r)"

definition is_marked :: "string \<Rightarrow> world \<Rightarrow> bool" where
  "is_marked k w \<longleftrightarrow> (\<exists>db r. w_db w = Some db \<and> get_trade_by_order_id k db = Some r \<and> ti_rated_at r \<noteq> None)"

text \<open>The row of the trade stays readable and writable, and the rest of the app leaves its marker alone.\<close>

fun steady_history :: "string \<Rightarrow> ('seed, 'x, 'k) rating_event list \<Rightarrow> 'k rating_desk \<Rightarrow> bool" where
  "steady_history k [] d = True"
| "steady_history k (e # es) d \<longleftrightarrow> steady k (rd_world d) \<and>
     (case e of OtherTasks f \<Rightarrow> is_marked k (rd_world d) \<longrightarrow> is_marked k (f (rd_world d)) | _ \<Rightarrow> True) \<and>
     steady_history k es (rating_step e d)"

definition rating_times :: "string \<Rightarrow> 'k rating_desk \<Rightarrow> nat" where
  "rating_times k d = length (filter (\<lambda>i. i = k) (rd_rated d))"

definition once_rated :: "string \<Rightarrow> 'k rating_desk \<Rightarrow> bool" where
  "once_rated k d \<longleftrightarrow> rating_times k d \<le> Suc (rd_unmarked d k) \<and>
     (\<not> is_marked k (rd_world d) \<and> fmlookup (rd_answered d) k \<noteq> Some RatingSent \<longrightarrow> rating_times k d \<le> rd_unmarked d k) \<and>
     (fmlookup (rd_open d) k \<noteq> None \<longrightarrow> has_mine k (rd_store d) \<and> rating_times k d \<le> rd_unmarked d k \<and>
        fmlookup (rd_answered d) k = None) \<and>
     (fmlookup (rd_answered d) k \<noteq> None \<longrightarrow> has_mine k (rd_store d))"

lemma put_mine [simp]: "has_mine k (put_ratings i r s) = (if i = k then tr_mine r \<noteq> None else has_mine k s)"
  by (simp add: has_mine_def put_ratings_def)

lemma has_mine_of: "has_mine k s = (tr_mine (ratings_of k s) \<noteq> None)"
  by (simp add: has_mine_def ratings_of_def split: option.split)

lemma mine_kept:
  "has_mine k s \<Longrightarrow> has_mine k (hydrate_mine_from_db i w s)" "has_mine k s \<Longrightarrow> has_mine k (insert_peer info s)"
  "i \<noteq> k \<Longrightarrow> has_mine k (remove_mine i s) = has_mine k s"
  "has_mine k (s\<lparr>rs_events := x\<rparr>) = has_mine k s" "has_mine k (s\<lparr>rs_privacy := b\<rparr>) = has_mine k s"
  by (auto simp: hydrate_mine_from_db_def hydrate_mine_def insert_peer_def remove_mine_def has_mine_of Let_def
      put_ratings_def ratings_of_def split: option.splits sum.splits if_splits)

lemma reserved:
  assumes "reserve_rating i score w s = (Inr (), s')"
  shows "has_mine i s'" "\<not> has_mine i (hydrate_mine_from_db i w s)"
  using assms by (auto simp: reserve_rating_def try_insert_mine_def Let_def has_mine_of put_ratings_def ratings_of_def split: if_splits)

lemma reserve_keeps: "reserve_rating i score w s = (r, s') \<Longrightarrow> has_mine k s \<Longrightarrow> has_mine k s'"
  by (auto simp: reserve_rating_def try_insert_mine_def Let_def mine_kept split: if_splits)

lemma marked_hydrates:
  assumes "steady k w" "is_marked k w"
  shows "has_mine k (hydrate_mine_from_db k w s)"
proof (cases "has_mine k s")
  case False
  from assms obtain db r t where "w_db w = Some db" "get_trade_by_order_id k db = Some r" "ti_rated_at r = Some t" "\<not> w_down w CGetTrade"
    by (auto simp: steady_def is_marked_def)
  then show ?thesis using False
    by (simp add: hydrate_mine_from_db_def read_trade_def db_read_def has_db_def hydrate_mine_def Let_def)
qed (rule mine_kept(1))

lemma mark_marks:
  assumes "steady k w"
  shows "is_marked k (db_try CMarkRated (Trade_Store.mark_trade_rated k t) w)"
proof -
  from assms obtain db r where d: "w_db w = Some db" "get_trade_by_order_id k db = Some r" "\<not> w_down w CMarkRated"
    by (auto simp: steady_def)
  have f: "find P (map (\<lambda>r. if P r then g r else r) rs) = map_option g (find P rs)" if "\<And>r. P (g r) = P r" for P g and rs :: "trade_info list"
    using that by (induction rs) auto
  have "get_trade_by_order_id k (Trade_Store.mark_trade_rated k t db) = Some (r\<lparr>ti_rated_at := Some t\<rparr>)"
    using d(2) f [of "\<lambda>r. order_of r = k" "\<lambda>r. r\<lparr>ti_rated_at := Some t\<rparr>" "td_rows db"]
    by (simp add: get_trade_by_order_id_def Trade_Store.mark_trade_rated_def update_rows_def order_of_def)
  then show ?thesis using d by (simp add: is_marked_def db_try_def db_write_def)
qed

lemma mark_other:
  assumes "is_marked k w"
  shows "is_marked k (db_try CMarkRated (Trade_Store.mark_trade_rated i t) w)"
proof -
  from assms obtain db r where d: "w_db w = Some db" "get_trade_by_order_id k db = Some r" "ti_rated_at r \<noteq> None"
    by (auto simp: is_marked_def)
  have f: "find P (map g rs) = map_option g (find P rs)" if "\<And>r. P (g r) = P r" for P g and rs :: "trade_info list"
    using that by (induction rs) auto
  let ?g = "\<lambda>r. if order_of r = i then r\<lparr>ti_rated_at := Some t\<rparr> else r"
  have "get_trade_by_order_id k (Trade_Store.mark_trade_rated i t db) = Some (?g r)"
    using d(2) f [of "\<lambda>r. order_of r = k" ?g "td_rows db"]
    by (simp add: get_trade_by_order_id_def Trade_Store.mark_trade_rated_def update_rows_def order_of_def)
  then show ?thesis using d by (auto simp: is_marked_def db_try_def db_write_def)
qed

lemma rating_marked_same: "w_db w' = w_db w \<Longrightarrow> is_marked k w' = is_marked k w"
  by (simp add: is_marked_def)

lemma published:
  assumes "publish_rating env i score privacy fl = (answer, fl')"
  shows "w_db (fl_world fl') = w_db (fl_world fl)" "w_down (fl_world fl') = w_down (fl_world fl)"
    "length (fl_sent fl') - length (fl_sent fl) = (if answer = RatingSent then 1 else 0)"
proof -
  obtain idx fl1 where l: "lookup_key i fl = (idx, fl1)" by fastforce
  have w: "w_db (fl_world fl1) = w_db (fl_world fl)" "w_down (fl_world fl1) = w_down (fl_world fl)" "fl_sent fl1 = fl_sent fl"
    using l lookup_same [of i "fl_world fl"] by (auto simp: lookup_key_def split_beta Let_def)
  show "w_db (fl_world fl') = w_db (fl_world fl)" "w_down (fl_world fl') = w_down (fl_world fl)"
    "length (fl_sent fl') - length (fl_sent fl) = (if answer = RatingSent then 1 else 0)"
    using assms w
    by (auto simp: publish_rating_def l publish_event_json_def on_world_def split: option.splits sum.splits)
qed

lemma once_step_rated:
  assumes "once_rated k d" "steady k (rd_world d)"
    "case e of OtherTasks f \<Rightarrow> is_marked k (rd_world d) \<longrightarrow> is_marked k (f (rd_world d)) | _ \<Rightarrow> True"
  shows "once_rated k (rating_step e d)"
proof (cases e)
  case (RateBegins i score)
  obtain r s where r: "reserve_rating i score (rd_world d) (rd_store d) = (r, s)" by fastforce
  have keep: "has_mine k (rd_store d) \<Longrightarrow> has_mine k s" by (rule reserve_keeps [OF r])
  show ?thesis
  proof (cases r)
    case (Inl x)
    then show ?thesis using assms(1) keep by (auto simp: RateBegins r once_rated_def rating_times_def)
  next
    case (Inr u)
    then have ok: "has_mine i s" "\<not> has_mine i (hydrate_mine_from_db i (rd_world d) (rd_store d))"
      using reserved [of i score "rd_world d" "rd_store d" s] r by auto
    have "i = k \<Longrightarrow> \<not> is_marked k (rd_world d)" using ok(2) marked_hydrates [OF assms(2)] by auto
    moreover have "i = k \<Longrightarrow> fmlookup (rd_answered d) k = None"
      using ok(2) mine_kept(1) [of k "rd_store d" k "rd_world d"] assms(1) by (auto simp: once_rated_def)
    ultimately have "i = k \<Longrightarrow> rating_times k d \<le> rd_unmarked d k \<and> fmlookup (rd_answered d) k = None"
      using assms(1) by (auto simp: once_rated_def)
    then show ?thesis using assms(1) keep ok(1) Inr
      by (auto simp: RateBegins r once_rated_def rating_times_def)
  qed
next
  case (RatePublishes env i)
  show ?thesis
  proof (cases "fmlookup (rd_open d) i")
    case None
    then show ?thesis using assms(1) by (simp add: RatePublishes)
  next
    case (Some score)
    obtain answer fl where r: "publish_rating env i score (rs_privacy (rd_store d)) (rd_flow d) = (answer, fl)" by fastforce
    note p = published [OF r]
    have "is_marked k (fl_world fl) = is_marked k (rd_world d)" using rating_marked_same [OF p(1)] by (simp add: rd_world_def)
    then show ?thesis using Some assms(1) p(3)
      by (auto simp: RatePublishes r once_rated_def rating_times_def)
  qed
next
  case (RateFinishes i)
  show ?thesis
  proof (cases "fmlookup (rd_answered d) i")
    case None
    then show ?thesis using assms(1) by (simp add: RateFinishes)
  next
    case (Some answer)
    obtain r fl s where r: "finish_rating i answer (rd_flow d, rd_store d) = (r, fl, s)" by (metis prod_cases3)
    have mine: "k \<noteq> i \<Longrightarrow> has_mine k s = has_mine k (rd_store d)"
      using r by (auto simp: finish_rating_def mine_kept split: rating_outcome.splits)
    have h: "has_db (rd_world d)" using assms(2) by (auto simp: steady_def has_db_def)
    have step: "rating_step e d = d\<lparr>rd_flow := fl, rd_store := s, rd_answered := fmdrop i (rd_answered d)\<rparr>"
      by (simp add: RateFinishes Some r)
    have sent: "fl_world fl = db_try CMarkRated (Trade_Store.mark_trade_rated i (w_now (rd_world d))) (rd_world d)"
      if "answer = RatingSent" using r h that by (auto simp: finish_rating_def on_world_def rd_world_def)
    have unsent: "fl_world fl = rd_world d" if "answer \<noteq> RatingSent"
      using r that by (auto simp: finish_rating_def rd_world_def split: rating_outcome.splits)
    have keeps: "is_marked k (rd_world d) \<Longrightarrow> is_marked k (fl_world fl)"
      using sent unsent mark_other by (cases "answer = RatingSent") auto
    have marks: "is_marked k (fl_world fl)" if "answer = RatingSent" "k = i"
      unfolding sent [OF that(1)] using mark_marks [OF assms(2)] that(2) by simp
    show ?thesis
    proof (cases "k = i")
      case True
      then show ?thesis using assms(1) Some keeps marks unsent
        by (cases "answer = RatingSent") (simp_all add: step once_rated_def rating_times_def)
    next
      case False
      then show ?thesis using assms(1) Some keeps mine
        by (simp add: step once_rated_def rating_times_def) blast
    qed
  qed
next
  case (PeerRates i score p)
  then show ?thesis using assms(1)
    by (auto simp: once_rated_def rating_times_def handle_rating_received_def mine_kept)
next
  case (AsksRating i)
  then show ?thesis using assms(1)
    by (auto simp: once_rated_def rating_times_def get_rating_for_trade_def Let_def mine_kept)
next
  case (SetsPrivacy b)
  then show ?thesis using assms(1)
    by (auto simp: once_rated_def rating_times_def set_privacy_mode_def mine_kept)
next
  case AppRestarts
  then show ?thesis using assms(1) by (auto simp: once_rated_def rating_times_def)
next
  case (OtherTasks f)
  then show ?thesis using assms(1,3)
    by (simp add: once_rated_def rating_times_def on_world_def rd_world_def [symmetric]) blast
qed

definition fresh_ratings :: "'k flow \<Rightarrow> 'k rating_desk" where
  "fresh_ratings fl = \<lparr>rd_flow = fl, rd_store = empty_ratings, rd_open = fmempty, rd_answered = fmempty, rd_rated = [],
     rd_unmarked = (\<lambda>_. 0)\<rparr>"

text \<open>
  C35: A trade is rated at most once, up to restarts at one place. Over any history of submissions for any trades,
  overlapping, failing and retried, of the peer's ratings, queries, privacy switches and restarts, the ratings of a trade
  that are published are at most one more than the restarts that fell between such a publish and the write of the
  marker, as long as the row of the trade is there, can be read and written, and the other tasks leave its marker alone.
\<close>

theorem trade_is_rated_once:
  assumes "steady_history k es (fresh_ratings fl)"
  shows "let d = rating_run es (fresh_ratings fl) in
    length (filter (\<lambda>i. i = k) (rd_rated d)) \<le> 1 + rd_unmarked d k"
proof -
  have "once_rated k (rating_run es d)" if "once_rated k d" "steady_history k es d" for d :: "'c rating_desk"
    using that
  proof (induction es arbitrary: d)
    case (Cons e es)
    then show ?case using once_step_rated [of k d e] by (simp add: rating_run_def)
  qed (simp add: rating_run_def)
  moreover have "once_rated k (fresh_ratings fl)" by (simp add: once_rated_def fresh_ratings_def rating_times_def)
  ultimately show ?thesis using assms by (simp add: once_rated_def rating_times_def Let_def)
qed

text \<open>After a restart the guard rests on a read that may fail, and then lets the second submission through.\<close>

lemma failed_read_forgets_the_rating:
  assumes "w_down w CGetTrade" "valid_score score"
  shows "\<exists>s. reserve_rating k score w empty_ratings = (Inr (), s)"
  using assms by (auto simp: reserve_rating_def hydrate_mine_from_db_def read_trade_def db_read_def has_mine_def empty_ratings_def
      try_insert_mine_def ratings_of_def Let_def split: option.split)

section \<open>An instance\<close>

lemma steady_mark: "steady k w \<Longrightarrow> steady k (db_try CMarkRated (Trade_Store.mark_trade_rated i t) w)"
proof -
  assume s: "steady k w"
  then obtain db r where d: "w_db w = Some db" "get_trade_by_order_id k db = Some r" "\<not> w_down w CMarkRated"
    by (auto simp: steady_def)
  have f: "find P (map g rs) = map_option g (find P rs)" if "\<And>r. P (g r) = P r" for P g and rs :: "trade_info list"
    using that by (induction rs) auto
  let ?g = "\<lambda>r. if order_of r = i then r\<lparr>ti_rated_at := Some t\<rparr> else r"
  have "get_trade_by_order_id k (Trade_Store.mark_trade_rated i t db) = Some (?g r)"
    using d(2) f [of "\<lambda>r. order_of r = k" ?g "td_rows db"]
    by (simp add: get_trade_by_order_id_def Trade_Store.mark_trade_rated_def update_rows_def order_of_def)
  then show ?thesis using s d by (auto simp: steady_def db_try_def db_write_def)
qed

lemma steady_step:
  assumes s: "steady k (rd_world d)" and e: "\<And>f. e \<noteq> OtherTasks f"
  shows "steady k (rd_world (rating_step e d))"
proof (cases e)
  case (RateBegins i score)
  then show ?thesis using s by (auto split: prod.split sum.split)
next
  case (RatePublishes env i)
  then show ?thesis using s published [of env i _ _ "rd_flow d"]
    by (auto simp: steady_def rd_world_def split: option.split prod.split)
next
  case (RateFinishes i)
  show ?thesis
  proof (cases "fmlookup (rd_answered d) i")
    case (Some answer)
    then show ?thesis using s steady_mark [OF s]
      by (auto simp: RateFinishes finish_rating_def on_world_def rd_world_def split: rating_outcome.split)
  qed (use s RateFinishes in simp)
qed (use s e in \<open>auto simp: rd_world_def\<close>)

lemma steady_runs: "steady k (rd_world d) \<Longrightarrow> list_all (\<lambda>e. \<forall>f. e \<noteq> OtherTasks f) es \<Longrightarrow> steady_history k es d"
proof (induction es arbitrary: d)
  case (Cons e es)
  then show ?case using steady_step [of k d e] by (auto split: rating_event.split)
qed simp

theorem trade_is_rated_once_witness:
  "let d = rating_run
     [RateBegins ''o'' 5, RatePublishes (sample_attempt (\<lambda>w. w)) ''o'', RateFinishes ''o'', AppRestarts, RateBegins ''o'' 4,
      RatePublishes (sample_attempt (\<lambda>w. w)) ''o'']
     (fresh_ratings (sample_flow (sample_world2 (sample_db [sample_row Success True None] []))))
   in length (filter (\<lambda>i. i = ''o'') (rd_rated d)) \<le> 1 + rd_unmarked d ''o''"
proof (rule trade_is_rated_once, rule steady_runs)
  show "steady ''o'' (rd_world (fresh_ratings (sample_flow (sample_world2 (sample_db [sample_row Success True None] [])))))"
    by (simp add: steady_def rd_world_def fresh_ratings_def sample_flow_def sample_world2_def sample_db_def get_trade_by_order_id_def
        order_of_def sample_row_def)
qed simp

end
