(* ===== verification/Flow_Events.thy ===== *)
theory Flow_Events
  imports Reputation
begin

text \<open>
  What the flows put on the wire: at most one event each, for the active node when it speaks the
  client's protocol, mined at the difficulty a first contact costs where the key is new, under the
  nonce the registry waits for; and the key a range order's maker names for what is left of it.
\<close>

section \<open>One event, for the active node\<close>

definition proper_event :: "('seed, 'x, 'k) attempt_env \<Rightarrow> world \<Rightarrow> 'k sent_event \<Rightarrow> bool" where
  "proper_event env w ev \<longleftrightarrow> node_key env w = Inr (ev_node ev) \<and>
     ensure_supported_within (ev_node ev) (wx_versions (ae_wrap env)) = Inr () \<and>
     (if om_action (ev_message ev) \<in> {A_NewOrder, A_TakeBuy, A_TakeSell}
      then first_contact_pow_within (ev_node ev) (wx_caps (ae_wrap env)) = Inr (ev_pow ev)
      else ev_pow ev = get_pow (wx_caps_now (ae_wrap env)))"

definition one_event :: "('seed, 'x, 'k) attempt_env \<Rightarrow> 'k flow \<Rightarrow> 'k flow \<Rightarrow> bool" where
  "one_event env fl fl' \<longleftrightarrow> fl_sent fl' = fl_sent fl \<or>
     (\<exists>ev. fl_sent fl' = fl_sent fl @ [ev] \<and> proper_event env (fl_world fl) ev)"

lemma node_key_stages [simp]:
  "node_key env (store_trade_key_index i n w) = node_key env w"
  "node_key env (snd (lookup_trade_key_index i w)) = node_key env w"
  by (simp_all add: node_key_def store_trade_key_index_def lookup_trade_key_index_def db_try_def db_write_def
      split: option.split sum.split)

lemma sent_stages [simp]:
  "fl_sent (ensure_global_dm_coverage pk n fl) = fl_sent fl" "fl_sent (subscribe_daemon_messages pk n fl) = fl_sent fl"
  "fl_sent (on_world f fl) = fl_sent fl" "fl_sent (snd (derive_fresh env fl)) = fl_sent fl"
  "fl_sent (snd (lookup_key i fl)) = fl_sent fl" "fl_world (snd (lookup_key i fl)) = snd (lookup_trade_key_index i (fl_world fl))"
  "fst (lookup_key i fl) = fst (lookup_trade_key_index i (fl_world fl))" "fl_identity (snd (lookup_key i fl)) = fl_identity fl"
  "fl_marks (snd (lookup_key i fl)) = fl_marks fl" "fl_covered (snd (lookup_key i fl)) = fl_covered fl"
  "fl_watched (snd (lookup_key i fl)) = fl_watched fl"
  by (simp_all add: ensure_global_dm_coverage_def subscribe_daemon_messages_def on_world_def derive_fresh_def lookup_key_def
      split_beta)

lemma sent_publish: "fl_sent (snd (publish_event_json env ev fl)) = (if ae_publish env = None then fl_sent fl @ [ev] else fl_sent fl)"
  by (simp add: publish_event_json_def split: option.split)






lemma one_event_world [simp]:
  "one_event env fl (fl'\<lparr>fl_world := w\<rparr>) = one_event env fl fl'" "one_event env fl (on_world f fl') = one_event env fl fl'"
  "one_event env fl (fl'\<lparr>fl_watched_orders := ws\<rparr>) = one_event env fl fl'"
  by (simp_all add: one_event_def)


lemma one_event_publish:
  assumes "\<And>ev. x = Inr ev \<Longrightarrow> proper_event env (fl_world fl) ev" "fl_sent fl1 = fl_sent fl"
  shows "case x of Inr ev \<Rightarrow> one_event env fl (snd (publish_event_json env ev fl1)) | Inl e \<Rightarrow> True"
  using assms by (auto simp: one_event_def sent_publish split: sum.split)


lemma sent_range [simp]:
  "fl_sent (snd (next_trade_for_range_remainder env i role fl)) = fl_sent fl"
  by (simp add: next_trade_for_range_remainder_def Let_def split_beta split: sum.split option.split)

lemma lookup_node [simp]:
  "lookup_key i fl = (x, fl1) \<Longrightarrow> node_key env (fl_world fl1) = node_key env (fl_world fl)"
  "lookup_key i fl = (x, fl1) \<Longrightarrow> fl_sent fl1 = fl_sent fl"
  using sent_stages(6,5) [of i fl] by auto














section \<open>The next key of a range order\<close>

text \<open>The order leaves a remainder to this maker: a range of his own, in the role the step belongs to.\<close>

definition leaves_remainder :: "trade_role \<Rightarrow> trade_info \<Rightarrow> bool" where
  "leaves_remainder role t \<longleftrightarrow> oi_fiat_amount_min (ti_order t) \<noteq> None \<and> oi_fiat_amount_max (ti_order t) \<noteq> None \<and>
     oi_is_mine (ti_order t) \<and> ti_role t = role"

lemma remainder_key:
  assumes "next_trade_for_range_remainder env i role fl = (Inr nt, fl1)"
  obtains t where "read_trade i (fl_world fl) = Inr (Some t)"
    "\<not> leaves_remainder role t \<longrightarrow> nt = None \<and> fl1 = fl"
    "leaves_remainder role t \<longrightarrow> (\<exists>k m st. nt = Some (kl_pubkey_hex (ae_lib env) k, m) \<and>
       get_active_trade_keys (ae_lib env) m (fl_identity fl1) = Inr k \<and>
       fl_marks fl1 = fl_marks fl @ [MarkCovered (kl_pubkey_hex (ae_lib env) k) m, MarkWatched (kl_pubkey_hex (ae_lib env) k) m] \<and>
       fl_sent fl1 = fl_sent fl \<and> ie_state (fl_identity fl) = Some st \<and> m = ii_trade_key_index (is_info st) + 1)"
proof -
  obtain t where t: "has_db (fl_world fl)" "read_trade i (fl_world fl) = Inr (Some t)"
    using assms by (auto simp: next_trade_for_range_remainder_def split: if_splits sum.splits option.splits)
  show ?thesis
  proof (cases "leaves_remainder role t")
    case False
    then show ?thesis using assms t by (intro that [of t]) (auto simp: next_trade_for_range_remainder_def leaves_remainder_def
      split: if_splits)
  next
    case True
    obtain d f1 where d: "derive_fresh env fl = (d, f1)" by fastforce
    have r: "(case d of Inl e \<Rightarrow> (Inl e, f1) | Inr m \<Rightarrow> (case get_active_trade_keys (ae_lib env) m (fl_identity f1) of
        Inl e \<Rightarrow> (Inl e, f1) | Inr k \<Rightarrow> (Inr (Some (kl_pubkey_hex (ae_lib env) k, m)),
          subscribe_daemon_messages (kl_pubkey_hex (ae_lib env) k) m
            (ensure_global_dm_coverage (kl_pubkey_hex (ae_lib env) k) m f1)))) = (Inr nt, fl1)"
      using assms t True d
      by (cases d) (auto simp: next_trade_for_range_remainder_def leaves_remainder_def Let_def split: sum.splits)
    then obtain m where m: "d = Inr m" by (auto split: sum.splits)
    show ?thesis
      by (rule derived [OF d [unfolded m]], rule that [OF t(2)])
        (use r m True in \<open>auto simp: ensure_global_dm_coverage_def subscribe_daemon_messages_def split: sum.splits\<close>)
  qed
qed

lemma lookup_reads [simp]: "read_trade i (snd (lookup_trade_key_index j w)) = read_trade i w"
  by (simp add: lookup_trade_key_index_def read_trade_def db_read_def split: option.split sum.split)

lemma lookup_parts:
  assumes "lookup_key i fl = (x, fl1)"
  shows "read_trade j (fl_world fl1) = read_trade j (fl_world fl)" "fl_sent fl1 = fl_sent fl"
    "fl_marks fl1 = fl_marks fl" "fl_identity fl1 = fl_identity fl"
  using sent_stages(5-11) [of i fl] lookup_reads [of j i "fl_world fl"] by (simp_all add: assms)

lemma step_message:
  assumes "build = fiat_sent \<and> act = A_FiatSent \<or> build = release \<and> act = A_Release"
    "build env idk ks node i n nt = Inr ev"
  shows "om_action (ev_message ev) = act \<and> om_payload (ev_message ev) = map_option (\<lambda>(pk, m). P_NextTrade pk m) nt \<and>
    om_trade_index (ev_message ev) = Some (uint n)"
  using assms
  by (auto simp: fiat_sent_def release_def release_message_def action_message_def and_then_Inr_iff wrapped order_message_def
      u32_as_i64_def)

lemma step_sent:
  assumes sent: "send_step build role env i fl = (Inr (), fl')"
    and build: "build = fiat_sent \<and> act = A_FiatSent \<or> build = release \<and> act = A_Release"
  shows "\<exists>t ev. read_trade i (fl_world fl) = Inr (Some t) \<and> fl_sent fl' = fl_sent fl @ [ev] \<and>
    om_action (ev_message ev) = act \<and>
    (if leaves_remainder role t
     then \<exists>k m st. ie_state (fl_identity fl) = Some st \<and> m = ii_trade_key_index (is_info st) + 1 \<and>
       get_active_trade_keys (ae_lib env) m (fl_identity fl') = Inr k \<and>
       om_payload (ev_message ev) = Some (P_NextTrade (kl_pubkey_hex (ae_lib env) k) m) \<and>
       fl_marks fl' = fl_marks fl @
         [MarkCovered (kl_pubkey_hex (ae_lib env) k) m, MarkWatched (kl_pubkey_hex (ae_lib env) k) m, MarkSent]
     else om_payload (ev_message ev) = None \<and> fl_marks fl' = fl_marks fl @ [MarkSent])"
proof -
  obtain n f1 where f1: "lookup_key i fl = (Some n, f1)"
    using sent by (cases "lookup_key i fl") (auto simp: send_step_def split: option.splits)
  obtain ks idk node where k: "trade_keys_of env n f1 = Inr (ks, idk, node)"
    using sent f1 by (auto simp: send_step_def split: sum.splits)
  obtain nt f2 where nt: "next_trade_for_range_remainder env i role f1 = (Inr nt, f2)"
    using sent f1 k by (cases "next_trade_for_range_remainder env i role f1") (auto simp: send_step_def split: sum.splits)
  obtain ev where ev: "build (ae_wrap env) idk ks node i n nt = Inr ev" and "publish_event_json env ev f2 = (Inr (), fl')"
    using sent f1 k nt by (auto simp: send_step_def split: sum.splits)
  then have p: "fl' = f2\<lparr>fl_sent := fl_sent f2 @ [ev], fl_marks := fl_marks f2 @ [MarkSent]\<rparr>" by (auto simp: publish_event_json_def split: option.splits)
  note m = step_message [OF build ev]
  obtain t where t: "read_trade i (fl_world f1) = Inr (Some t)"
    "\<not> leaves_remainder role t \<longrightarrow> nt = None \<and> f2 = f1"
    "leaves_remainder role t \<longrightarrow> (\<exists>k m st. nt = Some (kl_pubkey_hex (ae_lib env) k, m) \<and>
       get_active_trade_keys (ae_lib env) m (fl_identity f2) = Inr k \<and>
       fl_marks f2 = fl_marks f1 @ [MarkCovered (kl_pubkey_hex (ae_lib env) k) m, MarkWatched (kl_pubkey_hex (ae_lib env) k) m] \<and>
       fl_sent f2 = fl_sent f1 \<and> ie_state (fl_identity f1) = Some st \<and> m = ii_trade_key_index (is_info st) + 1)"
    by (rule remainder_key [OF nt])
  show ?thesis
  proof (cases "leaves_remainder role t")
    case True
    from t(3) [rule_format, OF True] t(1) True m show ?thesis by (auto simp: lookup_parts [OF f1] p intro!: exI [of _ t] exI [of _ ev])
  next
    case False
    from t(2) [rule_format, OF False] t(1) False m show ?thesis by (auto simp: lookup_parts [OF f1] p intro!: exI [of _ t] exI [of _ ev])
  qed
qed

text \<open>
  C12: the step that closes a maker's trade of a range order (fiat sent by a buying maker, release by
  a selling one) names a trade key for the rest: the public key derived at the index after the last
  one handed out, and the standing subscription covers it and the daemon's messages to it are watched
  before the message goes out. Every other step names none, and a row that cannot be read stops the
  step instead of guessing.
\<close>

theorem range_step_names_the_next_key:
  assumes "send_fiat_sent env order_id fl = (Inr (), fl') \<and> role = Buyer \<and> action = A_FiatSent \<or>
    release_order env order_id fl = (Inr (), fl') \<and> role = Seller \<and> action = A_Release"
  shows "\<exists>t ev. read_trade order_id (fl_world fl) = Inr (Some t) \<and> fl_sent fl' = fl_sent fl @ [ev] \<and>
    om_action (ev_message ev) = action \<and>
    (if leaves_remainder role t
     then \<exists>k m st. ie_state (fl_identity fl) = Some st \<and> m = ii_trade_key_index (is_info st) + 1 \<and>
       get_active_trade_keys (ae_lib env) m (fl_identity fl') = Inr k \<and>
       om_payload (ev_message ev) = Some (P_NextTrade (kl_pubkey_hex (ae_lib env) k) m) \<and>
       fl_marks fl' = fl_marks fl @
         [MarkCovered (kl_pubkey_hex (ae_lib env) k) m, MarkWatched (kl_pubkey_hex (ae_lib env) k) m, MarkSent]
     else om_payload (ev_message ev) = None \<and> fl_marks fl' = fl_marks fl @ [MarkSent])"
  using assms
proof (elim disjE conjE)
  assume "send_fiat_sent env order_id fl = (Inr (), fl')" "role = Buyer" "action = A_FiatSent"
  then show ?thesis by (intro step_sent [where build = fiat_sent]) (simp_all add: send_fiat_sent_def)
next
  assume "release_order env order_id fl = (Inr (), fl')" "role = Seller" "action = A_Release"
  then show ?thesis by (intro step_sent [where build = release]) (simp_all add: release_order_def)
qed

definition range_world :: world where
  "range_world = (let w = sample_world2 (sample_db [(sample_row FiatSent True None)\<lparr>ti_role := Seller,
        ti_order := demo_order\<lparr>oi_fiat_amount_min := Some (F64_fin 10), oi_fiat_amount_max := Some (F64_fin 20), oi_is_mine := True\<rparr>\<rparr>] [])
     in w\<lparr>w_key_map := fmupd ''o'' 2 (w_key_map w)\<rparr>)"

lemma range_reads: "lookup_key ''o'' (sample_flow range_world) = (Some 2, sample_flow range_world)"
  by (simp add: lookup_key_def lookup_trade_key_index_def sample_flow_def range_world_def sample_world2_def)

lemma range_keys: "trade_keys_of (sample_attempt wait) 2 (sample_flow range_world) = Inr (''key'', ''key'', ''node'')"
  by (simp add: trade_keys_of_def get_active_trade_keys_def sample_attempt_def sample_flow_def flow_lib_def sample_lib_def
      get_transport_identity_keys_def node_key_def sample_crypto_def range_world_def sample_world2_def Let_def
      key_ops_derive_trade_key_def derive_at_index_def derive_bip39_seed_def keys_from_xprv_def)

lemma range_row:
  "read_trade ''o'' range_world = Inr (Some ((sample_row FiatSent True None)\<lparr>ti_role := Seller,
     ti_order := demo_order\<lparr>oi_fiat_amount_min := Some (F64_fin 10), oi_fiat_amount_max := Some (F64_fin 20), oi_is_mine := True\<rparr>\<rparr>))"
  by (simp add: read_trade_def db_read_def range_world_def sample_world2_def sample_db_def get_trade_by_order_id_def
      order_of_def demo_order_def sample_row_def)

theorem range_step_names_the_next_key_witness:
  "\<exists>fl' ev pk. release_order (sample_attempt (\<lambda>w. w)) ''o'' (sample_flow range_world) = (Inr (), fl') \<and>
     fl_sent fl' = [ev] \<and> om_payload (ev_message ev) = Some (P_NextTrade pk 4) \<and>
     fl_marks fl' = [MarkCovered pk 4, MarkWatched pk 4, MarkSent]"
proof -
  let ?env = "sample_attempt (\<lambda>w. w)"
  obtain ident where d: "derive_fresh ?env (sample_flow range_world) = (Inr 4, (sample_flow range_world)\<lparr>fl_identity := ident\<rparr>)"
    "get_active_trade_keys flow_lib 4 ident = Inr ''key''"
    using sample_derived by blast
  have "has_db range_world" "fl_world (sample_flow range_world) = range_world" "kl_pubkey_hex flow_lib = (\<lambda>k. k)"
    by (simp_all add: range_world_def sample_world2_def sample_flow_def has_db_def flow_lib_def sample_lib_def id_def)
  then have "\<exists>fl2. next_trade_for_range_remainder ?env ''o'' Seller (sample_flow range_world) = (Inr (Some (''key'', 4)), fl2)"
    by (simp add: next_trade_for_range_remainder_def range_row d Let_def)
  then obtain fl2 where n: "next_trade_for_range_remainder ?env ''o'' Seller (sample_flow range_world) = (Inr (Some (''key'', 4)), fl2)"
    by blast
  have "\<exists>ev. release sample_wrap ''key'' ''key'' ''node'' ''o'' 2 (Some (''key'', 4)) = Inr ev"
    by (simp add: release_def release_message_def action_message_def sample_wrap_def wrap_message_def wrap_message_at_def
        ensure_supported_within_def fetched_version_def is_supported_def supported_version_def)
  then have "\<exists>fl'. release_order ?env ''o'' (sample_flow range_world) = (Inr (), fl')"
    by (auto simp: release_order_def send_step_def range_reads range_keys n publish_event_json_def)
  then obtain fl' where r: "release_order ?env ''o'' (sample_flow range_world) = (Inr (), fl')" by blast
  from range_step_names_the_next_key [OF disjI2 [OF conjI [OF r conjI [OF refl refl]]]] show ?thesis
    using r by (auto simp: range_row sample_flow_def leaves_remainder_def fresh_info_def)
qed

section \<open>Amounts on the wire\<close>

text \<open>
  The message carries whole numbers where the client lets the user enter, validates and stores
  fractions: \<open>as i64\<close> cuts them. An amount below one unit goes out as the zero that means "no fixed
  amount", and two bounds of a range may become equal.
\<close>

definition half_unit :: new_order_params where
  "half_unit = \<lparr>np_kind = Sell, np_fiat_amount = Some (F64_fin (1 / 2)), np_fiat_amount_min = None, np_fiat_amount_max = None,
     np_fiat_code = ''USD'', np_payment_method = ''cash'', np_premium = F64_fin (3 / 2), np_amount_sats = None\<rparr>"

lemma cut_parts: "\<lfloor>1 / 2 :: rat\<rfloor> = 0" "\<lfloor>3 / 2 :: rat\<rfloor> = 1" "\<lfloor>51 / 5 :: rat\<rfloor> = 10" "\<lfloor>54 / 5 :: rat\<rfloor> = 10"
  by (simp_all add: floor_eq_iff)

lemma fractions_are_cut:
  "validate_new_order half_unit = None"
  "validate_new_order (half_unit\<lparr>np_fiat_amount := None, np_fiat_amount_min := Some (F64_fin (51 / 5)),
     np_fiat_amount_max := Some (F64_fin (54 / 5))\<rparr>) = None"
  "\<exists>s. om_payload (new_order_message half_unit 4 9 None) = Some (P_Order s) \<and> so_fiat_amount s = 0 \<and> so_premium s = 1"
  "\<exists>s. om_payload (new_order_message (half_unit\<lparr>np_fiat_amount := None, np_fiat_amount_min := Some (F64_fin (51 / 5)),
     np_fiat_amount_max := Some (F64_fin (54 / 5))\<rparr>) 4 9 None) = Some (P_Order s) \<and>
     so_min_amount s = Some 10 \<and> so_max_amount s = Some 10"
  "take_payload (Some (F64_fin (51 / 5))) None = Some (P_Amount 10)"
  by (simp_all add: half_unit_def validate_new_order_def f64_le_def f64_is_finite_def str_trim_def Let_def
      new_order_message_def order_message_def whole_part take_payload_def cut_parts
      trim_start_def is_ws_def f64_eq_def)

text \<open>
  A confirmation is not handed the order's lock, as a bond request is: whatever another task stored
  for the order between the confirmation and this write is replaced by the fresh row.
\<close>

lemma confirmation_overwrites_the_row:
  "td_rows (tables (snd (create_settle (sample_attempt (\<lambda>w. w)) demo_order 4 100 (Some (Confirmed ''o''))
     (sample_world2 (sample_db [sample_row Canceled True None] []))))) = [maker_trade demo_order None 4 100]"
  by (simp add: create_settle_def create_verdict_def persist_trade_row_def db_write_def db_try_def sample_world2_def
      sample_db_def save_trade_def delete_setting_def Let_def maker_trade_def order_of_def sample_row_def demo_order_def
      perform_def touch_def has_db_def)

end
