(* ===== verification/Chat_Store.thy ===== *)
theory Chat_Store
  imports Prelude
begin

text \<open>
  The message store of the chat (\<open>MessageStore\<close> of \<open>rust/src/api/messages.rs\<close>) over the messages table
  (\<open>db/sqlite.rs\<close>).

  \<open>cs_db\<close> is the table in insertion order, absent while no store is open; \<open>cs_down\<close> says which statements
  fail. \<open>cs_cursors\<close> holds the settings of the \<open>since\<close> cursors. The three broadcasts are logs. The values of
  the hash map of messages are visited in the order of their keys; no result depends on it.
\<close>

datatype message_type = MsgPeer | MsgAdmin | MsgSystem
datatype file_type = FileImage | FileDocument | FileVideo
datatype download_status = DlPending | DlDownloading | DlDownloaded | DlFailed

record attachment_info =
  at_file_name :: string
  at_mime_type :: string
  at_file_size :: u64
  at_file_type :: file_type
  at_download_status :: download_status
  at_local_path :: "string option"

record chat_message =
  cm_id :: string
  cm_trade_id :: string
  cm_sender_pubkey :: string
  cm_content :: string
  cm_message_type :: message_type
  cm_is_mine :: bool
  cm_is_read :: bool
  cm_has_attachment :: bool
  cm_attachment :: "attachment_info option"
  cm_created_at :: i64

datatype chat_call = CListMessages | CSaveMessage | CMessageExists | CMarkRead | CListUnread | CGetCursor | CSetCursor

record chat_store =
  cs_db :: "chat_message list option"
  cs_cursors :: "(string, string) fmap"
  cs_down :: "chat_call \<Rightarrow> bool"
  cs_messages :: "(string, chat_message list) fmap"
  cs_hydrated :: "string fset"
  cs_non_durable :: "string fset"
  cs_new :: "chat_message list"
  cs_unread :: "u32 list"

section \<open>The table\<close>

definition save_message :: "chat_message \<Rightarrow> chat_message list \<Rightarrow> chat_message list" where
  "save_message m rows = filter (\<lambda>r. cm_id r \<noteq> cm_id m) rows @ [m]"

definition list_messages :: "string \<Rightarrow> chat_message list \<Rightarrow> chat_message list" where
  "list_messages trade_id rows = sort_key cm_created_at (filter (\<lambda>r. cm_trade_id r = trade_id) rows)"

definition list_unread_messages :: "chat_message list \<Rightarrow> chat_message list" where
  "list_unread_messages rows = sort_key cm_created_at (sort_key cm_id (filter (\<lambda>r. \<not> cm_is_read r) rows))"

definition message_exists :: "string \<Rightarrow> chat_message list \<Rightarrow> bool" where
  "message_exists i rows \<longleftrightarrow> i \<in> cm_id ` set rows"

definition mark_messages_read :: "string \<Rightarrow> chat_message list \<Rightarrow> chat_message list" where
  "mark_messages_read trade_id rows =
     map (\<lambda>r. if cm_trade_id r = trade_id \<and> \<not> cm_is_read r then r\<lparr>cm_is_read := True\<rparr> else r) rows"

definition chat_db_error :: string where "chat_db_error = ''database error''"

text \<open>A write when the store is open and the statement works; \<open>None\<close> when no store is open.\<close>

definition chat_write ::
  "chat_call \<Rightarrow> (chat_message list \<Rightarrow> chat_message list) \<Rightarrow> chat_store \<Rightarrow> (string, unit) result option \<times> chat_store" where
  "chat_write c f s = (case cs_db s of
      None \<Rightarrow> (None, s)
    | Some rows \<Rightarrow> if cs_down s c then (Some (Inl chat_db_error), s)
        else (Some (Inr ()), s\<lparr>cs_db := Some (f rows)\<rparr>))"

section \<open>The cache\<close>

definition cached :: "string \<Rightarrow> chat_store \<Rightarrow> chat_message list" where
  "cached trade_id s = (case fmlookup (cs_messages s) trade_id of Some ms \<Rightarrow> ms | None \<Rightarrow> [])"

definition all_cached :: "chat_store \<Rightarrow> chat_message list" where
  "all_cached s = concat (map (\<lambda>k. cached k s) (sorted_list_of_fset (fmdom (cs_messages s))))"

definition merge_history :: "chat_message list \<Rightarrow> chat_message list \<Rightarrow> chat_message list" where
  "merge_history persisted entry =
     fold (\<lambda>m es. if cm_id m \<in> cm_id ` set es then es else es @ [m]) persisted entry"

definition ensure_hydrated :: "string \<Rightarrow> chat_store \<Rightarrow> chat_store" where
  "ensure_hydrated trade_id s = (if trade_id |\<in>| cs_hydrated s then s
     else let persisted = (case cs_db s of None \<Rightarrow> []
              | Some rows \<Rightarrow> if cs_down s CListMessages then [] else list_messages trade_id rows)
          in s\<lparr>cs_messages := fmupd trade_id (merge_history persisted (cached trade_id s)) (cs_messages s),
               cs_hydrated := finsert trade_id (cs_hydrated s)\<rparr>)"

definition unread_count_inner :: "chat_store \<Rightarrow> u32" where
  "unread_count_inner s = of_nat (length (filter (\<lambda>m. \<not> cm_is_read m \<and> \<not> cm_is_mine m) (all_cached s)))"

definition push_cached :: "chat_message \<Rightarrow> chat_store \<Rightarrow> chat_store" where
  "push_cached m s = s\<lparr>cs_messages := fmupd (cm_trade_id m) (cached (cm_trade_id m) s @ [m]) (cs_messages s)\<rparr>"

definition add_message :: "chat_message \<Rightarrow> chat_store \<Rightarrow> bool \<times> chat_store" where
  "add_message m s =
     (let s1 = push_cached m (ensure_hydrated (cm_trade_id m) s);
          (written, s2) = chat_write CSaveMessage (save_message m) s1;
          stored = (written \<noteq> Some (Inl chat_db_error));
          s3 = s2\<lparr>cs_non_durable := (if stored then cs_non_durable s2 |-| {|cm_id m|} else finsert (cm_id m) (cs_non_durable s2)),
                  cs_new := cs_new s2 @ [m]\<rparr>
      in (stored, s3\<lparr>cs_unread := cs_unread s3 @ [unread_count_inner s3]\<rparr>))"

definition is_known :: "string \<Rightarrow> string \<Rightarrow> chat_store \<Rightarrow> (string, bool) result" where
  "is_known trade_id i s =
     (if i \<in> cm_id ` set (cached trade_id s) then Inr True
      else case cs_db s of
          None \<Rightarrow> Inr False
        | Some rows \<Rightarrow> if cs_down s CMessageExists then Inl (''dedup lookup failed: '' @ chat_db_error)
            else Inr (message_exists i rows))"

definition ensure_durable :: "string \<Rightarrow> string \<Rightarrow> chat_store \<Rightarrow> bool \<times> chat_store" where
  "ensure_durable trade_id i s = (if i |\<notin>| cs_non_durable s then (True, s)
     else case find (\<lambda>m. cm_id m = i) (cached trade_id s) of
         None \<Rightarrow> (False, s)
       | Some m \<Rightarrow> (case chat_write CSaveMessage (save_message m) s of
           (Some (Inr _), s1) \<Rightarrow> (True, s1\<lparr>cs_non_durable := cs_non_durable s1 |-| {|i|}\<rparr>)
         | (_, s1) \<Rightarrow> (False, s1)))"

definition max_stored_messages_per_trade :: nat where "max_stored_messages_per_trade = 1000"
definition max_stored_bytes_per_trade :: nat where "max_stored_bytes_per_trade = 5 * 1024 * 1024"

definition content_bytes :: "chat_message list \<Rightarrow> nat" where
  "content_bytes ms = sum_list (map (\<lambda>m. length (cm_content m)) ms)"

definition quota_exceeded :: "string \<Rightarrow> nat \<Rightarrow> chat_store \<Rightarrow> bool \<times> chat_store" where
  "quota_exceeded trade_id incoming_bytes s =
     (let s1 = ensure_hydrated trade_id s in
      (case fmlookup (cs_messages s1) trade_id of
         None \<Rightarrow> False
       | Some ms \<Rightarrow> length ms \<ge> max_stored_messages_per_trade \<or>
           content_bytes ms + incoming_bytes > max_stored_bytes_per_trade, s1))"

definition get_messages :: "string \<Rightarrow> chat_store \<Rightarrow> chat_message list \<times> chat_store" where
  "get_messages trade_id s = (let s1 = ensure_hydrated trade_id s in (sort_key cm_created_at (cached trade_id s1), s1))"

definition mark_as_read :: "string \<Rightarrow> chat_store \<Rightarrow> chat_store" where
  "mark_as_read trade_id s =
     (let s1 = ensure_hydrated trade_id s;
          s2 = (case fmlookup (cs_messages s1) trade_id of
              None \<Rightarrow> s1
            | Some ms \<Rightarrow> s1\<lparr>cs_messages := fmupd trade_id (map (\<lambda>m. m\<lparr>cm_is_read := True\<rparr>) ms) (cs_messages s1)\<rparr>);
          s3 = snd (chat_write CMarkRead (mark_messages_read trade_id) s2)
      in s3\<lparr>cs_unread := cs_unread s3 @ [unread_count_inner s3]\<rparr>)"

text \<open>A download marks the attachment in memory; the table is not told.\<close>

definition mark_downloaded :: "string \<Rightarrow> string \<Rightarrow> chat_store \<Rightarrow> chat_store" where
  "mark_downloaded message_id path s = s\<lparr>cs_messages := fmmap (map (\<lambda>m. if cm_id m = message_id
      then m\<lparr>cm_attachment := map_option (\<lambda>a. a\<lparr>at_download_status := DlDownloaded, at_local_path := Some path\<rparr>) (cm_attachment m)\<rparr>
      else m)) (cs_messages s)\<rparr>"

section \<open>Notifications\<close>

definition notification_candidate :: "chat_message \<Rightarrow> bool" where
  "notification_candidate m \<longleftrightarrow> \<not> cm_is_mine m \<and> \<not> cm_is_read m \<and> cm_message_type m \<noteq> MsgSystem"

text \<open>\<open>by_id\<close>, the map from id to message, is the list of its entries.\<close>

definition put_by_id :: "chat_message \<Rightarrow> chat_message list \<Rightarrow> chat_message list" where
  "put_by_id m ms = (if notification_candidate m then filter (\<lambda>x. cm_id x \<noteq> cm_id m) ms @ [m]
     else filter (\<lambda>x. cm_id x \<noteq> cm_id m) ms)"

definition notification_backlog :: "chat_store \<Rightarrow> (string, chat_message list) result" where
  "notification_backlog s =
     (case (case cs_db s of None \<Rightarrow> Inr []
        | Some rows \<Rightarrow> if cs_down s CListUnread then Inl chat_db_error else Inr (list_unread_messages rows)) of
        Inl e \<Rightarrow> Inl e
      | Inr persisted \<Rightarrow> Inr (sort_key cm_created_at (sort_key cm_id
          (filter notification_candidate (fold put_by_id (all_cached s) persisted)))))"

definition notification_candidate_now :: "chat_message \<Rightarrow> chat_store \<Rightarrow> chat_message option" where
  "notification_candidate_now m s =
     (let current = (case find (\<lambda>x. cm_id x = cm_id m) (cached (cm_trade_id m) s) of Some x \<Rightarrow> x | None \<Rightarrow> m)
      in if notification_candidate current then Some current else None)"

text \<open>
  One round of the stream of all messages: what its channel had for it (\<open>None\<close> for the minute that
  passed, \<open>Some None\<close> for a lag), and whether the minute was over when it looked.
\<close>

record any_stream =
  as_pending :: "chat_message list"
  as_due :: bool

fun stream_pending :: "chat_message list \<Rightarrow> chat_store \<Rightarrow> chat_message option \<times> chat_message list" where
  "stream_pending [] s = (None, [])"
| "stream_pending (m # ms) s = (case notification_candidate_now m s of
      Some x \<Rightarrow> (Some x, ms) | None \<Rightarrow> stream_pending ms s)"

definition stream_round ::
  "chat_message option option \<Rightarrow> chat_store \<Rightarrow> any_stream \<Rightarrow> chat_message option \<times> any_stream" where
  "stream_round received s a = (case stream_pending (as_pending a) s of
      (Some m, rest) \<Rightarrow> (Some m, a\<lparr>as_pending := rest\<rparr>)
    | (None, _) \<Rightarrow>
        let backlog = (if as_due a then (case notification_backlog s of Inr ms \<Rightarrow> ms | Inl _ \<Rightarrow> []) else []) in
        (case stream_pending backlog s of
           (Some m, rest) \<Rightarrow> (Some m, a\<lparr>as_pending := rest, as_due := False\<rparr>)
         | (None, _) \<Rightarrow> (case received of
             Some (Some m) \<Rightarrow> (notification_candidate_now m s, a\<lparr>as_pending := [], as_due := False\<rparr>)
           | _ \<Rightarrow> (None, a\<lparr>as_pending := [], as_due := True\<rparr>))))"

end
