(* ===== verification/Chat.thy ===== *)
theory Chat
  imports Chat_Store Chat_Envelope Disputes
begin

text \<open>
  The chat (\<open>rust/src/api/messages.rs\<close>): what becomes of a received envelope, the tasks that listen, the
  messages sent and the sessions and listeners rebuilt after a restart.

  Every arrival carries the clocks it meets: the wall clock in seconds and the monotonic one as a rational
  number of seconds, in which the tokens of the rate limit are counted too. The JSON parser of
  attachment pointers is an argument.
\<close>

section \<open>Limits\<close>

definition chat_backlog_limit :: nat where "chat_backlog_limit = 500"
definition rate_capacity :: rat where "rate_capacity = 60"
definition rate_per_sec :: rat where "rate_per_sec = 1 / 2"
definition flood_trip_rejections :: nat where "flood_trip_rejections = 180"
definition outer_lru_cap :: nat where "outer_lru_cap = 512"

datatype chat_channel = PeerChat | DisputeChat

definition id_prefix :: "chat_channel \<Rightarrow> string" where
  "id_prefix c = (case c of PeerChat \<Rightarrow> '''' | DisputeChat \<Rightarrow> ''dispute-'')"

definition guard_key :: "chat_channel \<Rightarrow> string \<Rightarrow> string" where "guard_key c order_id = id_prefix c @ order_id"

definition channel_message_type :: "chat_channel \<Rightarrow> message_type" where
  "channel_message_type c = (case c of PeerChat \<Rightarrow> MsgPeer | DisputeChat \<Rightarrow> MsgAdmin)"

definition cursor_key :: "chat_channel \<Rightarrow> string \<Rightarrow> string" where
  "cursor_key c order_id = ''chat_cursor:'' @ id_prefix c @ order_id"

definition chat_subscription_id :: "chat_channel \<Rightarrow> string \<Rightarrow> string" where
  "chat_subscription_id c order_id = ''mostro-chat-'' @ id_prefix c @ order_id"

text \<open>The bounded set of outer ids.\<close>

record bounded_ids =
  oid_set :: "string fset"
  oid_order :: "string list"
  oid_cap :: nat

definition new_bounded_ids :: "nat \<Rightarrow> bounded_ids" where
  "new_bounded_ids cap = \<lparr>oid_set = {||}, oid_order = [], oid_cap = cap\<rparr>"

definition insert_id :: "string \<Rightarrow> bounded_ids \<Rightarrow> bool \<times> bounded_ids" where
  "insert_id i b = (if i |\<in>| oid_set b then (False, b)
     else let b1 = (if length (oid_order b) \<ge> oid_cap b
              then (case oid_order b of [] \<Rightarrow> b
                | evicted # rest \<Rightarrow> b\<lparr>oid_order := rest, oid_set := oid_set b |-| {|evicted|}\<rparr>)
              else b)
          in (True, b1\<lparr>oid_set := finsert i (oid_set b1), oid_order := oid_order b1 @ [i]\<rparr>))"

text \<open>
  The token bucket. The source counts tokens and seconds as \<open>f64\<close>; here they are exact rationals, so
  what is shown of the bucket holds of the code up to the rounding of its sums.
\<close>

record token_bucket =
  tb_tokens :: rat
  tb_last :: rat

definition new_bucket :: "rat \<Rightarrow> token_bucket" where
  "new_bucket now = \<lparr>tb_tokens = rate_capacity, tb_last = now\<rparr>"

definition try_take :: "rat \<Rightarrow> token_bucket \<Rightarrow> bool \<times> token_bucket" where
  "try_take now b =
     (let elapsed = max 0 (now - tb_last b);
          tokens = min (tb_tokens b + elapsed * rate_per_sec) rate_capacity
      in if tokens \<ge> 1 then (True, \<lparr>tb_tokens = tokens - 1, tb_last = now\<rparr>)
         else (False, \<lparr>tb_tokens = tokens, tb_last = now\<rparr>))"

section \<open>Cursor and payload\<close>

definition load_chat_cursor :: "chat_channel \<Rightarrow> string \<Rightarrow> chat_store \<Rightarrow> i64 option" where
  "load_chat_cursor c order_id s =
     (if cs_db s = None \<or> cs_down s CGetCursor then None
      else Option.bind (fmlookup (cs_cursors s) (cursor_key c order_id)) parse_i64)"

definition store_chat_cursor :: "chat_channel \<Rightarrow> string \<Rightarrow> i64 \<Rightarrow> chat_store \<Rightarrow> chat_store" where
  "store_chat_cursor c order_id ts s =
     (if cs_db s = None \<or> cs_down s CSetCursor then s
      else s\<lparr>cs_cursors := fmupd (cursor_key c order_id) (int_to_string ts) (cs_cursors s)\<rparr>)"

datatype json_value = JString string | JNumber "u64 option" | JObject "(string \<times> json_value) list" | JOther

definition json_get :: "string \<Rightarrow> json_value \<Rightarrow> json_value option" where
  "json_get k v = (case v of JObject members \<Rightarrow> map_of members k | _ \<Rightarrow> None)"

definition json_str :: "json_value \<Rightarrow> string option" where
  "json_str v = (case v of JString s \<Rightarrow> Some s | _ \<Rightarrow> None)"

definition json_as_u64 :: "json_value \<Rightarrow> u64 option" where
  "json_as_u64 v = (case v of JNumber n \<Rightarrow> n | _ \<Rightarrow> None)"

definition is_supported_mime_type :: "string \<Rightarrow> bool" where
  "is_supported_mime_type mime \<longleftrightarrow> starts_with ''image/'' mime \<or> starts_with ''video/'' mime \<or>
     starts_with ''text/'' mime \<or> mime = ''application/pdf''"

definition mime_to_file_type :: "string \<Rightarrow> file_type" where
  "mime_to_file_type mime = (if starts_with ''image/'' mime then FileImage
     else if starts_with ''video/'' mime then FileVideo else FileDocument)"

definition parse_chat_payload :: "(string \<Rightarrow> json_value option) \<Rightarrow> string \<Rightarrow> string \<times> attachment_info option" where
  "parse_chat_payload parse payload = (case parse payload of
      None \<Rightarrow> (payload, None)
    | Some v \<Rightarrow>
        if Option.bind (json_get ''type'' v) json_str \<noteq> Some ''file'' then (payload, None)
        else (case (Option.bind (json_get ''url'' v) json_str, Option.bind (json_get ''name'' v) json_str,
                    Option.bind (json_get ''mime_type'' v) json_str) of
            (Some url, Some name, Some mime) \<Rightarrow> (url, Some
               \<lparr>at_file_name = name, at_mime_type = mime,
                at_file_size = (case Option.bind (json_get ''size'' v) json_as_u64 of Some n \<Rightarrow> n | None \<Rightarrow> 0),
                at_file_type = mime_to_file_type mime, at_download_status = DlPending, at_local_path = None\<rparr>)
          | _ \<Rightarrow> (payload, None)))"

section \<open>One arrival\<close>

record chat_rx =
  rx_outer_seen :: bounded_ids
  rx_bucket :: token_bucket
  rx_rejected :: nat
  rx_live :: bool
  rx_cursor :: i64
  rx_flooded :: bool

definition new_rx :: "rat \<Rightarrow> i64 \<Rightarrow> chat_rx" where
  "new_rx now cursor = \<lparr>rx_outer_seen = new_bounded_ids outer_lru_cap, rx_bucket = new_bucket now, rx_rejected = 0,
     rx_live = False, rx_cursor = cursor, rx_flooded = False\<rparr>"

definition rx_reject :: "chat_rx \<Rightarrow> chat_rx" where
  "rx_reject r = (let n = rx_rejected r + 1 in
     r\<lparr>rx_rejected := n, rx_flooded := (if n \<ge> flood_trip_rejections then True else rx_flooded r)\<rparr>)"

definition budget_ok :: "rat \<Rightarrow> chat_rx \<Rightarrow> bool \<times> chat_rx" where
  "budget_ok now r = (if \<not> rx_live r then (True, r)
     else let (ok, b) = try_take now (rx_bucket r); r1 = r\<lparr>rx_bucket := b\<rparr> in
       if ok then (True, r1) else (False, rx_reject r1))"

text \<open>A conversation: its channel, order, parties and keys.\<close>

record 'k conversation =
  cv_channel :: chat_channel
  cv_order_id :: string
  cv_allowed :: "string list"
  cv_conv :: 'k
  cv_sign_pubkey :: string
  cv_my_pubkey :: string

record chat_arrival =
  ca_event :: nostr_event
  ca_now :: u64
  ca_instant :: rat

definition advance_cursor :: "'k conversation \<Rightarrow> i64 \<Rightarrow> i64 \<Rightarrow> chat_rx \<times> chat_store \<Rightarrow> chat_rx \<times> chat_store" where
  "advance_cursor cv now event_ts st = (case st of (r, s) \<Rightarrow>
     (let accepted = min event_ts now in
      if accepted > rx_cursor r
      then (r\<lparr>rx_cursor := accepted\<rparr>, store_chat_cursor (cv_channel cv) (cv_order_id cv) accepted s)
      else (r, s)))"

definition received_message :: "'k conversation \<Rightarrow> (string \<Rightarrow> json_value option) \<Rightarrow> nostr_event \<Rightarrow> chat_message" where
  "received_message cv parse inner =
     (let is_echo = (ne_pubkey inner = cv_my_pubkey cv); (content, attachment) = parse_chat_payload parse (ne_content inner) in
      \<lparr>cm_id = ne_id inner, cm_trade_id = cv_order_id cv, cm_sender_pubkey = ne_pubkey inner, cm_content = content,
       cm_message_type = channel_message_type (cv_channel cv), cm_is_mine = is_echo, cm_is_read = is_echo,
       cm_has_attachment = (attachment \<noteq> None), cm_attachment = attachment, cm_created_at = u64_as_i64 (ne_created_at inner)\<rparr>)"

text \<open>What follows the validation: the replay check, the quota and the store.\<close>

definition store_received ::
  "'k conversation \<Rightarrow> (string \<Rightarrow> json_value option) \<Rightarrow> nostr_event \<Rightarrow> i64 \<Rightarrow> i64 \<Rightarrow> chat_rx \<times> chat_store \<Rightarrow> chat_rx \<times> chat_store" where
  "store_received cv parse inner now event_ts st = (case st of (r, s) \<Rightarrow>
     (case is_known (cv_order_id cv) (ne_id inner) s of
        Inl e \<Rightarrow> (r, s)
      | Inr True \<Rightarrow> (let (durable, s1) = ensure_durable (cv_order_id cv) (ne_id inner) s in
          if durable then advance_cursor cv now event_ts (r, s1) else (r, s1))
      | Inr False \<Rightarrow> (let (full, s1) = quota_exceeded (cv_order_id cv) (length (ne_content inner)) s in
          if full then (r, s1)
          else let (stored, s2) = add_message (received_message cv parse inner) s1 in
            if stored then advance_cursor cv now event_ts (r, s2) else (r, s2))))"

definition handle_chat_event ::
  "'k envelope_lib \<Rightarrow> (string \<Rightarrow> json_value option) \<Rightarrow> 'k conversation \<Rightarrow> chat_arrival \<Rightarrow> chat_rx \<times> chat_store
     \<Rightarrow> chat_rx \<times> chat_store" where
  "handle_chat_event lib parse cv a st = (case st of (r, s) \<Rightarrow>
     (let event = ca_event a in
      if ne_kind event \<noteq> private_direct_message then (r, s)
      else if ne_pubkey event \<noteq> cv_sign_pubkey cv then (r, s)
      else let (fresh, seen) = insert_id (ne_id event) (rx_outer_seen r); r1 = r\<lparr>rx_outer_seen := seen\<rparr> in
        if \<not> fresh then (r1, s)
        else let (ok, r2) = budget_ok (ca_instant a) r1 in
          if \<not> ok then (r2, s)
          else (case mostro_unwrap lib (cv_conv cv) (cv_sign_pubkey cv) (cv_allowed cv) event (ca_now a) of
              Inl e \<Rightarrow> (rx_reject r2, s)
            | Inr inner \<Rightarrow> store_received cv parse inner (u64_as_i64 (ca_now a)) (u64_as_i64 (ne_created_at event))
                (r2\<lparr>rx_rejected := 0\<rparr>, s))))"

section \<open>The task of a conversation\<close>

datatype chat_note = NoteEvent string chat_arrival | NoteEose string | NoteOther | NoteEnd

text \<open>The loop over the notifications, each with whether the task still owned the chat when it looked.\<close>

fun run_chat_subscription ::
  "'k envelope_lib \<Rightarrow> (string \<Rightarrow> json_value option) \<Rightarrow> 'k conversation \<Rightarrow> (bool \<times> chat_note) list \<Rightarrow> chat_rx \<times> chat_store
     \<Rightarrow> chat_rx \<times> chat_store" where
  "run_chat_subscription lib parse cv [] st = st"
| "run_chat_subscription lib parse cv ((current, n) # ns) st =
     (if \<not> current then st
      else case n of
          NoteEvent sub a \<Rightarrow>
            (let st1 = (if sub = chat_subscription_id (cv_channel cv) (cv_order_id cv)
                 then handle_chat_event lib parse cv a st else st) in
             if rx_flooded (fst st1) then st1 else run_chat_subscription lib parse cv ns st1)
        | NoteEose sub \<Rightarrow> run_chat_subscription lib parse cv ns
            (if sub = chat_subscription_id (cv_channel cv) (cv_order_id cv)
             then ((fst st)\<lparr>rx_live := True\<rparr>, snd st) else st)
        | NoteOther \<Rightarrow> run_chat_subscription lib parse cv ns st
        | NoteEnd \<Rightarrow> st)"

text \<open>The owners of the running tasks, the source of their generations and the REQs open under their ids.\<close>

record chat_tasks =
  ct_active :: "(string, u64) fmap"
  ct_generation :: u64
  ct_reqs :: "string fset"

definition claim_chat :: "chat_channel \<Rightarrow> string \<Rightarrow> chat_tasks \<Rightarrow> u64 option \<times> chat_tasks" where
  "claim_chat c order_id t = (if fmlookup (ct_active t) (guard_key c order_id) \<noteq> None then (None, t)
     else let g = ct_generation t + 1 in
       (Some g, t\<lparr>ct_generation := g, ct_active := fmupd (guard_key c order_id) g (ct_active t)\<rparr>))"

definition chat_is_current :: "chat_channel \<Rightarrow> string \<Rightarrow> u64 \<Rightarrow> chat_tasks \<Rightarrow> bool" where
  "chat_is_current c order_id g t \<longleftrightarrow> fmlookup (ct_active t) (guard_key c order_id) = Some g"

definition release_chat :: "chat_channel \<Rightarrow> string \<Rightarrow> u64 \<Rightarrow> chat_tasks \<Rightarrow> bool \<times> chat_tasks" where
  "release_chat c order_id g t = (if fmlookup (ct_active t) (guard_key c order_id) = Some g
     then (True, t\<lparr>ct_active := fmdrop (guard_key c order_id) (ct_active t)\<rparr>) else (False, t))"

definition open_chat_req :: "chat_channel \<Rightarrow> string \<Rightarrow> chat_tasks \<Rightarrow> chat_tasks" where
  "open_chat_req c order_id t = t\<lparr>ct_reqs := finsert (chat_subscription_id c order_id) (ct_reqs t)\<rparr>"

definition close_chat_req :: "chat_channel \<Rightarrow> string \<Rightarrow> chat_tasks \<Rightarrow> chat_tasks" where
  "close_chat_req c order_id t = t\<lparr>ct_reqs := ct_reqs t |-| {|chat_subscription_id c order_id|}\<rparr>"

text \<open>
  A listener starts from the stored cursor, \<open>chat_since\<close> is what its REQ asks for (\<open>CHAT_BACKLOG_LIMIT\<close> caps
  it), and on its way out it gives up the chat and then, in a second step, closes the REQ.
\<close>

definition chat_cursor :: "chat_channel \<Rightarrow> string \<Rightarrow> chat_store \<Rightarrow> i64" where
  "chat_cursor c order_id s = (case load_chat_cursor c order_id s of Some ts \<Rightarrow> ts | None \<Rightarrow> 0)"

definition chat_since :: "chat_channel \<Rightarrow> string \<Rightarrow> chat_store \<Rightarrow> i64 option" where
  "chat_since c order_id s = (if chat_cursor c order_id s > 0 then Some (chat_cursor c order_id s) else None)"

definition exit_chat :: "bool \<Rightarrow> chat_channel \<Rightarrow> string \<Rightarrow> u64 \<Rightarrow> chat_tasks \<Rightarrow> chat_tasks" where
  "exit_chat pool c order_id g t = (let (had, t1) = release_chat c order_id g t in
     if had \<and> pool then close_chat_req c order_id t1 else t1)"

text \<open>
  \<open>subscribe_incoming_chat\<close> as one task alone: claim, listen and exit. \<open>pool\<close> tells whether there is a pool
  and \<open>issued\<close> whether the REQ went out.
\<close>

definition subscribe_incoming_chat ::
  "'k envelope_lib \<Rightarrow> (string \<Rightarrow> json_value option) \<Rightarrow> 'k conversation \<Rightarrow> bool \<Rightarrow> bool \<Rightarrow> rat \<Rightarrow> (bool \<times> chat_note) list
     \<Rightarrow> chat_store \<times> chat_tasks \<Rightarrow> chat_store \<times> chat_tasks" where
  "subscribe_incoming_chat lib parse cv pool issued now notes st = (case st of (s, t) \<Rightarrow>
     (case claim_chat (cv_channel cv) (cv_order_id cv) t of
        (None, t1) \<Rightarrow> (s, t1)
      | (Some g, t1) \<Rightarrow>
          let (s1, t2) = (if \<not> pool \<or> \<not> issued then (s, t1)
            else (snd (run_chat_subscription lib parse cv notes (new_rx now (chat_cursor (cv_channel cv) (cv_order_id cv) s), s)),
                  open_chat_req (cv_channel cv) (cv_order_id cv) t1))
          in (s1, exit_chat pool (cv_channel cv) (cv_order_id cv) g t2)))"

definition stop_chat_subscriptions :: "string \<Rightarrow> chat_tasks \<Rightarrow> chat_channel list \<times> chat_tasks" where
  "stop_chat_subscriptions order_id t =
     (let stopped = filter (\<lambda>c. fmlookup (ct_active t) (guard_key c order_id) \<noteq> None) [PeerChat, DisputeChat];
          t1 = t\<lparr>ct_active := fold (\<lambda>c. fmdrop (guard_key c order_id)) stopped (ct_active t)\<rparr>
      in (stopped, fold (\<lambda>c. close_chat_req c order_id) stopped t1))"

section \<open>Sessions and listeners after a restart\<close>

definition chat_still_relevant :: "string \<Rightarrow> trade_info \<Rightarrow> bool" where
  "chat_still_relevant active_node trade \<longleftrightarrow> ti_outcome trade = None \<and> ti_counterparty_pubkey trade \<noteq> [] \<and>
     ti_counterparty_pubkey trade \<noteq> oi_creator_pubkey (ti_order trade) \<and> ti_counterparty_pubkey trade \<noteq> active_node \<and>
     oi_status (ti_order trade) \<in> {Pending, WaitingBuyerInvoice, WaitingPayment, Active, FiatSent, SettledHoldInvoice,
       Dispute, InProgress}"

definition rebuild_session :: "'k crypto \<Rightarrow> trade_info \<Rightarrow> 'k \<Rightarrow> world \<Rightarrow> session option \<times> world" where
  "rebuild_session cr trade trade_keys w = (case cr_parse_pubkey cr (ti_counterparty_pubkey trade) of
      None \<Rightarrow> (None, w)
    | Some peer \<Rightarrow> (case cr_shared_key cr trade_keys peer of
        None \<Rightarrow> (None, w)
      | Some key \<Rightarrow>
          let order_id = oi_id (ti_order trade);
              (r, m) = create_session_with_peer order_id (ti_role trade) (ti_trade_key_index trade) (ti_order trade)
                         (ti_counterparty_pubkey trade) key (w_now w) (w_sessions w);
              w1 = w\<lparr>w_sessions := m\<rparr>
          in (case r of Inr s \<Rightarrow> (Some s, w1) | Inl _ \<Rightarrow> (get_session order_id m, w1))))"

definition session_or_rebuild ::
  "('seed, 'x, 'k) attempt_env \<Rightarrow> string \<Rightarrow> 'k flow \<Rightarrow> session option \<times> 'k flow" where
  "session_or_rebuild env trade_id fl = (case get_session trade_id (w_sessions (fl_world fl)) of
      Some s \<Rightarrow> (Some s, fl)
    | None \<Rightarrow> (case read_trade trade_id (fl_world fl) of
        Inl _ \<Rightarrow> (None, fl)
      | Inr None \<Rightarrow> (None, fl)
      | Inr (Some trade) \<Rightarrow>
          if \<not> chat_still_relevant (w_mostro (fl_world fl)) trade then (None, fl)
          else (case get_active_trade_keys (ae_lib env) (ti_trade_key_index trade) (fl_identity fl) of
              Inl _ \<Rightarrow> (None, fl)
            | Inr keys \<Rightarrow> (let (s, w) = rebuild_session (ae_crypto env) trade keys (fl_world fl) in
                (s, fl\<lparr>fl_world := w\<rparr>)))))"

text \<open>The conversations whose listener is started: order, key index and peer.\<close>

definition resubscribe_active_chats ::
  "('seed, 'x, 'k) attempt_env \<Rightarrow> 'k flow \<Rightarrow> (string \<times> u32 \<times> string) list" where
  "resubscribe_active_chats env fl = (case db_read CListTrades Trade_Store.list_trades (fl_world fl) of
      Inl _ \<Rightarrow> []
    | Inr trades \<Rightarrow> List.map_filter (\<lambda>trade.
        if \<not> chat_still_relevant (w_mostro (fl_world fl)) trade then None
        else (case get_active_trade_keys (ae_lib env) (ti_trade_key_index trade) (fl_identity fl) of
            Inl _ \<Rightarrow> None
          | Inr keys \<Rightarrow> (case cr_parse_pubkey (ae_crypto env) (ti_counterparty_pubkey trade) of
              None \<Rightarrow> None
            | Some peer \<Rightarrow> if cr_chat_keys (ae_crypto env) keys peer
                then Some (oi_id (ti_order trade), ti_trade_key_index trade, peer) else None))) trades)"

section \<open>Sending\<close>

text \<open>What a send meets: keys, clocks, the answer of the pool (whether some relay accepted) and the id drawn.\<close>

record 'k chat_env =
  ce_lib :: "'k envelope_lib"
  ce_derive :: "'k \<Rightarrow> string \<Rightarrow> (string, 'k \<times> 'k) result"
  ce_pow :: u8
  ce_nonce :: string
  ce_now :: u64
  ce_pool :: bool
  ce_send :: "nostr_event \<Rightarrow> (string, bool) result"
  ce_uuid :: string

record 'k chat_desk =
  cd_flow :: "'k flow"
  cd_store :: chat_store
  cd_sent :: "nostr_event list"
  cd_wakes :: "string list"
  cd_progress :: "(string \<times> f64) list"
  cd_files :: "(string \<times> u8 list) list"

definition chat_context ::
  "('seed, 'x, 'k) attempt_env \<Rightarrow> 'k chat_env \<Rightarrow> u32 \<Rightarrow> string \<Rightarrow> 'k flow \<Rightarrow> (string, 'k \<times> 'k \<times> 'k) result" where
  "chat_context env ce index peer_hex fl =
     and_then (map_error (\<lambda>e. ''key retrieval failed: '' @ e) (get_active_trade_keys (ae_lib env) index (fl_identity fl))) (\<lambda>trade_keys.
       (case cr_parse_pubkey (ae_crypto env) peer_hex of
          None \<Rightarrow> Inl ''invalid peer pubkey''
        | Some peer \<Rightarrow> and_then (ce_derive ce trade_keys peer) (\<lambda>(conv, sign). Inr (trade_keys, conv, sign))))"

definition publish_chat_payload ::
  "'k chat_env \<Rightarrow> 'k \<times> 'k \<times> 'k \<Rightarrow> string \<Rightarrow> (string, nostr_event \<times> nostr_event \<times> bool) result" where
  "publish_chat_payload ce ctx payload = (case ctx of (trade_keys, conv, sign) \<Rightarrow>
     and_then (mostro_wrap (ce_lib ce) (ce_pow ce) (ce_nonce ce) (ce_now ce) trade_keys conv sign payload) (\<lambda>(outer, inner).
       if \<not> ce_pool ce then Inl ''relay pool not ready''
       else and_then (map_error (\<lambda>e. ''publish failed: '' @ e) (ce_send ce outer)) (\<lambda>delivered. Inr (outer, inner, delivered))))"

definition peer_to_wake :: "bool \<Rightarrow> string \<Rightarrow> string option" where
  "peer_to_wake delivered peer_hex = (if delivered then Some peer_hex else None)"

definition contains_str :: "string \<Rightarrow> string \<Rightarrow> bool" where
  "contains_str sub s \<longleftrightarrow> list_ex (\<lambda>n. take (length sub) (drop n s) = sub) [0 ..< Suc (length s)]"

definition sent_message :: "string \<Rightarrow> string \<Rightarrow> string \<Rightarrow> string \<Rightarrow> message_type \<Rightarrow> i64 \<Rightarrow> chat_message" where
  "sent_message i trade_id sender content kind created_at =
     \<lparr>cm_id = i, cm_trade_id = trade_id, cm_sender_pubkey = sender, cm_content = content, cm_message_type = kind,
      cm_is_mine = True, cm_is_read = True, cm_has_attachment = False, cm_attachment = None, cm_created_at = created_at\<rparr>"

text \<open>The publish of \<open>send_message\<close>: the identity of the message, or its refusal as too large.\<close>

definition try_publish ::
  "('seed, 'x, 'k) attempt_env \<Rightarrow> 'k chat_env \<Rightarrow> session option \<Rightarrow> string \<Rightarrow> 'k chat_desk
     \<Rightarrow> (string, string \<times> i64 \<times> string) result \<times> 'k chat_desk" where
  "try_publish env ce s content d =
     (let local = (ce_uuid ce, u64_as_i64 (ce_now ce)) in
      case s of
        None \<Rightarrow> (Inr (fst local, snd local, []), d)
      | Some s \<Rightarrow> (case se_peer_pubkey s of
          None \<Rightarrow> (Inr (fst local, snd local, []), d)
        | Some peer_hex \<Rightarrow> (case chat_context env ce (se_trade_key_index s) peer_hex (cd_flow d) of
            Inl _ \<Rightarrow> (Inr (fst local, snd local, []), d)
          | Inr (trade_keys, conv, sign) \<Rightarrow>
              let sender = el_pubkey (ce_lib ce) trade_keys in
              (case publish_chat_payload ce (trade_keys, conv, sign) content of
                 Inl e \<Rightarrow> if contains_str ''MessageTooLarge'' e then (Inl e, d)
                   else (Inr (fst local, snd local, sender), d)
               | Inr (outer, inner, delivered) \<Rightarrow>
                   (Inr (ne_id inner, u64_as_i64 (ne_created_at inner), sender),
                    d\<lparr>cd_sent := cd_sent d @ [outer],
                      cd_wakes := cd_wakes d @ (case peer_to_wake delivered peer_hex of Some p \<Rightarrow> [p] | None \<Rightarrow> [])\<rparr>)))))"

definition send_message ::
  "('seed, 'x, 'k) attempt_env \<Rightarrow> 'k chat_env \<Rightarrow> string \<Rightarrow> string \<Rightarrow> 'k chat_desk
     \<Rightarrow> (string, chat_message) result \<times> 'k chat_desk" where
  "send_message env ce trade_id content d =
     (if str_trim content = [] then (Inl ''MessageEmpty: content must not be empty'', d)
      else if str_trim trade_id = [] then (Inl ''TradeNotFound: trade_id must not be empty'', d)
      else if length content > max_content_bytes
      then (Inl (''MessageTooLarge: '' @ nat_digits (length content) @ '' bytes exceeds the maximum message size''), d)
      else let (s, fl) = session_or_rebuild env trade_id (cd_flow d) in
        (case try_publish env ce s content (d\<lparr>cd_flow := fl\<rparr>) of
           (Inl e, d1) \<Rightarrow> (Inl e, d1)
         | (Inr (i, created_at, sender), d1) \<Rightarrow>
             let m = sent_message i trade_id sender content MsgPeer created_at in
             (Inr m, d1\<lparr>cd_store := snd (add_message m (cd_store d1))\<rparr>)))"

text \<open>\<open>submit_evidence\<close> of the disputes: the solver is the peer of the conversation.\<close>

definition submit_evidence ::
  "('seed, 'x, 'k) attempt_env \<Rightarrow> 'k chat_env \<Rightarrow> string \<Rightarrow> string \<Rightarrow> 'k desk \<Rightarrow> chat_store
     \<Rightarrow> (string, nostr_event) result \<times> 'k desk \<times> chat_store" where
  "submit_evidence env ce trade_id text d s = (case evidence_target env trade_id text d of
      (Inl e, d1) \<Rightarrow> (Inl e, d1, s)
    | (Inr (index, admin), d1) \<Rightarrow> (case chat_context env ce index admin (dk_flow d1) of
        Inl e \<Rightarrow> (Inl e, d1, s)
      | Inr (trade_keys, conv, sign) \<Rightarrow> (case publish_chat_payload ce (trade_keys, conv, sign) text of
          Inl e \<Rightarrow> (Inl e, d1, s)
        | Inr (outer, inner, delivered) \<Rightarrow> (Inr outer, d1, snd (add_message
            (sent_message (ne_id inner) trade_id (el_pubkey (ce_lib ce) trade_keys) text MsgAdmin
               (u64_as_i64 (ne_created_at inner))) s)))))"

section \<open>Attachments\<close>

text \<open>
  \<open>safe_filename\<close>: the last component of a Unix path. \<open>Path::file_name\<close> skips empty and \<open>.\<close> components and
  has none for a path that ends in \<open>..\<close>.
\<close>

fun path_components :: "string \<Rightarrow> string \<Rightarrow> string list" where
  "path_components acc [] = [rev acc]"
| "path_components acc (c # cs) = (if c = CHR ''/'' then rev acc # path_components [] cs else path_components (c # acc) cs)"

definition path_file_name :: "string \<Rightarrow> string option" where
  "path_file_name s = (case filter (\<lambda>c. c \<noteq> [] \<and> c \<noteq> ''.'') (path_components [] s) of
      [] \<Rightarrow> None | cs \<Rightarrow> if last cs = ''..'' then None else Some (last cs))"

definition safe_filename :: "string \<Rightarrow> string" where
  "safe_filename s = (case opt_filter (\<lambda>n. n \<noteq> []) (path_file_name s) of Some n \<Rightarrow> n | None \<Rightarrow> ''attachment'')"

definition find_message :: "string \<Rightarrow> chat_store \<Rightarrow> chat_message option" where
  "find_message message_id s = find (\<lambda>m. cm_id m = message_id) (all_cached s)"

definition get_attachment_status :: "string \<Rightarrow> chat_store \<Rightarrow> download_status option" where
  "get_attachment_status message_id s =
     Option.bind (find_message message_id s) (\<lambda>m. map_option at_download_status (cm_attachment m))"

end
