(* ===== verification/Chat_Safety.thy ===== *)
theory Chat_Safety
  imports Chat Dispute_Safety "HOL-Library.Multiset"
begin

text \<open>
  What the chat keeps whatever arrives: only the parties speak, each message is stored once, the store
  survives a restart, and a flood is bounded in rate and in size.
\<close>

section \<open>The store\<close>

lemma cached_push [simp]:
  "cached k (push_cached m s) = (if k = cm_trade_id m then cached k s @ [m] else cached k s)"
  by (simp add: push_cached_def cached_def)

lemma push_keeps [simp]:
  "cs_db (push_cached m s) = cs_db s" "cs_down (push_cached m s) = cs_down s" "cs_hydrated (push_cached m s) = cs_hydrated s"
  "cs_non_durable (push_cached m s) = cs_non_durable s"
  by (simp_all add: push_cached_def)

lemma hydrate_keeps [simp]:
  "cs_db (ensure_hydrated k s) = cs_db s" "cs_down (ensure_hydrated k s) = cs_down s"
  "cs_non_durable (ensure_hydrated k s) = cs_non_durable s" "k |\<in>| cs_hydrated (ensure_hydrated k s)"
  "cs_hydrated (ensure_hydrated k s) = finsert k (cs_hydrated s)"
  by (auto simp: ensure_hydrated_def Let_def)

lemma hydrate_idle [simp]: "k |\<in>| cs_hydrated s \<Longrightarrow> ensure_hydrated k s = s"
  by (simp add: ensure_hydrated_def)

definition history :: "string \<Rightarrow> chat_store \<Rightarrow> chat_message list" where
  "history k s = (case cs_db s of None \<Rightarrow> [] | Some rows \<Rightarrow> if cs_down s CListMessages then [] else list_messages k rows)"

lemma cached_hydrate:
  "cached j (ensure_hydrated k s) =
     (if j = k \<and> k |\<notin>| cs_hydrated s then merge_history (history k s) (cached k s) else cached j s)"
  by (simp add: ensure_hydrated_def cached_def history_def Let_def)

lemma history_ids: "m \<in> set (history k s) \<Longrightarrow> \<exists>rows. cs_db s = Some rows \<and> m \<in> set rows \<and> cm_trade_id m = k"
  by (cases "cs_db s") (auto simp: history_def list_messages_def split: if_splits)

lemma merge_Cons [simp]:
  "merge_history (m # p) e = merge_history p (if cm_id m \<in> cm_id ` set e then e else e @ [m])" "merge_history [] e = e"
  by (simp_all add: merge_history_def)

lemma merge_set: "set (merge_history p e) \<subseteq> set p \<union> set e" "set e \<subseteq> set (merge_history p e)"
proof -
  have "set (merge_history p e) \<subseteq> set p \<union> set e \<and> set e \<subseteq> set (merge_history p e)"
  proof (induction p arbitrary: e)
    case (Cons m p)
    from Cons [of "if cm_id m \<in> cm_id ` set e then e else e @ [m]"] show ?case by (auto split: if_splits)
  qed simp
  then show "set (merge_history p e) \<subseteq> set p \<union> set e" "set e \<subseteq> set (merge_history p e)" by auto
qed

lemma merge_distinct: "distinct (map cm_id e) \<Longrightarrow> distinct (map cm_id (merge_history p e))"
  by (induction p arbitrary: e) auto


lemma write_parts:
  "cs_messages (snd (chat_write c f s)) = cs_messages s" "cs_hydrated (snd (chat_write c f s)) = cs_hydrated s"
  "cs_down (snd (chat_write c f s)) = cs_down s" "cs_non_durable (snd (chat_write c f s)) = cs_non_durable s"
  "cs_db (snd (chat_write c f s)) = (if cs_down s c then cs_db s else map_option f (cs_db s))"
  by (simp_all add: chat_write_def split: option.split)

lemma cached_write [simp]: "cached k (snd (chat_write c f s)) = cached k s"
  by (simp add: cached_def write_parts)

lemma add_parts:
  "cs_db (snd (add_message m s)) = (if cs_down s CSaveMessage then cs_db s else map_option (save_message m) (cs_db s))"
  "cached k (snd (add_message m s)) =
     (if k = cm_trade_id m then cached k (ensure_hydrated k s) @ [m] else cached k s)"
  "cs_hydrated (snd (add_message m s)) = finsert (cm_trade_id m) (cs_hydrated s)" "cs_down (snd (add_message m s)) = cs_down s"
proof -
  let ?s = "push_cached m (ensure_hydrated (cm_trade_id m) s)"
  obtain w t where w: "chat_write CSaveMessage (save_message m) ?s = (w, t)" by fastforce
  then have t: "t = snd (chat_write CSaveMessage (save_message m) ?s)" by simp
  note p = write_parts [of CSaveMessage "save_message m" ?s, folded t] cached_write [of _ CSaveMessage "save_message m" ?s, folded t]
  show "cs_db (snd (add_message m s)) = (if cs_down s CSaveMessage then cs_db s else map_option (save_message m) (cs_db s))"
    by (simp add: add_message_def w Let_def p)
  have "cached k (snd (add_message m s)) = cached k t" by (simp add: add_message_def w Let_def cached_def)
  then show "cached k (snd (add_message m s)) =
     (if k = cm_trade_id m then cached k (ensure_hydrated k s) @ [m] else cached k s)"
    by (simp add: p cached_hydrate)
  show "cs_hydrated (snd (add_message m s)) = finsert (cm_trade_id m) (cs_hydrated s)"
    "cs_down (snd (add_message m s)) = cs_down s"
    by (simp_all add: add_message_def w Let_def p)
qed

lemma durable_parts [simp]:
  "cached k (snd (ensure_durable j i s)) = cached k s" "cs_hydrated (snd (ensure_durable j i s)) = cs_hydrated s"
  "cs_down (snd (ensure_durable j i s)) = cs_down s"
  by (auto simp: ensure_durable_def chat_write_def cached_def split: option.split)

lemma durable_db: "cs_db (snd (ensure_durable j i s)) = cs_db s \<or>
    (\<exists>m rows. m \<in> set (cached j s) \<and> cm_id m = i \<and> cs_db s = Some rows \<and> cs_db (snd (ensure_durable j i s)) = Some (save_message m rows))"
  by (auto simp: ensure_durable_def chat_write_def find_Some_iff split: option.split) (metis nth_mem)

lemma quota_parts [simp]: "snd (quota_exceeded k n s) = ensure_hydrated k s"
  by (simp add: quota_exceeded_def Let_def)

lemma cursor_store [simp]:
  "cs_db (snd (advance_cursor cv now ts (r, s))) = cs_db s" "cached k (snd (advance_cursor cv now ts (r, s))) = cached k s"
  "cs_hydrated (snd (advance_cursor cv now ts (r, s))) = cs_hydrated s" "cs_down (snd (advance_cursor cv now ts (r, s))) = cs_down s"
  "cs_non_durable (snd (advance_cursor cv now ts (r, s))) = cs_non_durable s"
  by (simp_all add: advance_cursor_def store_chat_cursor_def cached_def Let_def)

text \<open>Hence the three things an arrival may do to the store, up to the cursors.\<close>

definition same_store :: "chat_store \<Rightarrow> chat_store \<Rightarrow> bool" where
  "same_store s s' \<longleftrightarrow> cs_db s' = cs_db s \<and> (\<forall>k. cached k s' = cached k s) \<and> cs_hydrated s' = cs_hydrated s \<and>
     cs_down s' = cs_down s \<and> cs_non_durable s' = cs_non_durable s"

lemma same_refl [simp]: "same_store s s"
  by (simp add: same_store_def)

lemma same_cursor [simp]: "same_store s (snd (advance_cursor cv now ts (r, t))) = same_store s t"
  by (simp add: same_store_def)

definition accepted_inner :: "'k envelope_lib \<Rightarrow> 'k conversation \<Rightarrow> chat_arrival \<Rightarrow> nostr_event \<Rightarrow> bool" where
  "accepted_inner lib cv a inner \<longleftrightarrow> ne_kind (ca_event a) = private_direct_message \<and>
     mostro_unwrap lib (cv_conv cv) (cv_sign_pubkey cv) (cv_allowed cv) (ca_event a) (ca_now a) = Inr inner"

lemma received_parts [simp]:
  "cm_id (received_message cv parse inner) = ne_id inner" "cm_trade_id (received_message cv parse inner) = cv_order_id cv"
  "cm_sender_pubkey (received_message cv parse inner) = ne_pubkey inner"
  "cm_is_mine (received_message cv parse inner) = (ne_pubkey inner = cv_my_pubkey cv)"
  "cm_is_read (received_message cv parse inner) = (ne_pubkey inner = cv_my_pubkey cv)"
  by (simp_all add: received_message_def Let_def split: prod.split)

lemma arrival_cases:
  obtains (Same) "same_store s (snd (handle_chat_event lib parse cv a (r, s)))"
  | (Again) i where "same_store (snd (ensure_durable (cv_order_id cv) i s)) (snd (handle_chat_event lib parse cv a (r, s)))"
  | (Full) "same_store (ensure_hydrated (cv_order_id cv) s) (snd (handle_chat_event lib parse cv a (r, s)))"
  | (Stored) inner where "accepted_inner lib cv a inner" "is_known (cv_order_id cv) (ne_id inner) s = Inr False"
      "\<not> fst (quota_exceeded (cv_order_id cv) (length (ne_content inner)) s)"
      "same_store (snd (add_message (received_message cv parse inner) (ensure_hydrated (cv_order_id cv) s)))
         (snd (handle_chat_event lib parse cv a (r, s)))"
proof -
  let ?r = "snd (handle_chat_event lib parse cv a (r, s))"
  show ?thesis
  proof (cases "\<exists>inner r2. accepted_inner lib cv a inner \<and> handle_chat_event lib parse cv a (r, s) =
      store_received cv parse inner (u64_as_i64 (ca_now a)) (u64_as_i64 (ne_created_at (ca_event a))) (r2, s)")
    case False
    then have "?r = s"
      by (auto simp: handle_chat_event_def accepted_inner_def Let_def split: prod.splits sum.splits if_splits)
    then show ?thesis by (intro Same) simp
  next
    case True
    then obtain inner r2 where i: "accepted_inner lib cv a inner" and h: "handle_chat_event lib parse cv a (r, s) =
      store_received cv parse inner (u64_as_i64 (ca_now a)) (u64_as_i64 (ne_created_at (ca_event a))) (r2, s)" by blast
    obtain known where k: "is_known (cv_order_id cv) (ne_id inner) s = known" by simp
    consider e where "known = Inl e" | "known = Inr True" | "known = Inr False" by (cases known) auto
    then show ?thesis
    proof cases
      case 1
      then show ?thesis by (intro Same) (simp add: h store_received_def k)
    next
      case 2
      then show ?thesis by (intro Again [of "ne_id inner"]) (simp add: h store_received_def k split_beta Let_def)
    next
      case 3
      show ?thesis
      proof (cases "fst (quota_exceeded (cv_order_id cv) (length (ne_content inner)) s)")
        case True
        then show ?thesis using 3 by (intro Full) (simp add: h store_received_def k split_beta Let_def)
      next
        case False
        then show ?thesis using 3 i k
          by (intro Stored [of inner]) (simp_all add: h store_received_def split_beta Let_def)
      qed
    qed
  qed
qed

lemma get_store [simp]: "snd (get_messages k s) = ensure_hydrated k s"
  by (simp add: get_messages_def Let_def)

section \<open>Only the parties speak\<close>

definition receive_all ::
  "'k envelope_lib \<Rightarrow> (string \<Rightarrow> json_value option) \<Rightarrow> 'k conversation \<Rightarrow> chat_arrival list \<Rightarrow> chat_rx \<times> chat_store \<Rightarrow> chat_rx \<times> chat_store" where
  "receive_all lib parse cv as st = fold (handle_chat_event lib parse cv) as st"

definition genuine :: "'k envelope_lib \<Rightarrow> (string \<Rightarrow> json_value option) \<Rightarrow> 'k conversation \<Rightarrow> chat_arrival list \<Rightarrow> chat_message \<Rightarrow> bool" where
  "genuine lib parse cv as m \<longleftrightarrow> (\<exists>a \<in> set as. \<exists>inner. m = received_message cv parse inner \<and>
     el_verify lib (ca_event a) \<and> ne_pubkey (ca_event a) = cv_sign_pubkey cv \<and> el_verify lib inner \<and>
     ne_pubkey inner \<in> set (cv_allowed cv) \<and>
     (\<exists>plain. el_decrypt lib (cv_conv cv) (ne_content (ca_event a)) = Inr plain \<and> el_from_json lib plain = Inr inner) \<and>
     abs_diff (unat (ne_created_at inner)) (unat (ne_created_at (ca_event a))) \<le> envelope_clock_skew_secs \<and>
     unat (ne_created_at (ca_event a)) \<le> unat (ca_now a) + envelope_clock_skew_secs)"

lemma accepted_genuine:
  assumes "accepted_inner lib cv a inner" "a \<in> set as"
  shows "genuine lib parse cv as (received_message cv parse inner)"
  using assms(2) unwrapped [of lib "cv_conv cv" "cv_sign_pubkey cv" "cv_allowed cv" "ca_event a" "ca_now a" inner] assms(1)
  unfolding genuine_def accepted_inner_def by blast

lemma arrival_hydrated:
  assumes "cv_order_id cv |\<in>| cs_hydrated s"
  shows "cv_order_id cv |\<in>| cs_hydrated (snd (handle_chat_event lib parse cv a (r, s)))"
    "m \<in> set (cached k (snd (handle_chat_event lib parse cv a (r, s)))) \<Longrightarrow> m \<in> set (cached k s) \<or>
       k = cv_order_id cv \<and> genuine lib parse cv [a] m"
proof -
  let ?s = "snd (handle_chat_event lib parse cv a (r, s))"
  have "cv_order_id cv |\<in>| cs_hydrated ?s \<and> (m \<in> set (cached k ?s) \<longrightarrow> m \<in> set (cached k s) \<or>
       k = cv_order_id cv \<and> genuine lib parse cv [a] m)"
  proof (cases rule: arrival_cases [of s lib parse cv a r])
    case (Stored inner)
    then show ?thesis using assms accepted_genuine [OF Stored(1), of "[a]" parse]
      by (auto simp: same_store_def add_parts split: if_splits)
  qed (use assms in \<open>auto simp: same_store_def\<close>)
  then show "cv_order_id cv |\<in>| cs_hydrated ?s" "m \<in> set (cached k ?s) \<Longrightarrow> m \<in> set (cached k s) \<or>
       k = cv_order_id cv \<and> genuine lib parse cv [a] m" by auto
qed

lemma genuine_mono: "genuine lib parse cv as m \<Longrightarrow> set as \<subseteq> set bs \<Longrightarrow> genuine lib parse cv bs m"
  unfolding genuine_def by blast

text \<open>What arrivals may do: append to their own conversation what the table held of it and what was accepted.\<close>

definition stored_rows :: "chat_store \<Rightarrow> chat_message set" where
  "stored_rows s = (case cs_db s of Some rows \<Rightarrow> set rows | None \<Rightarrow> {})"

definition heard :: "'k envelope_lib \<Rightarrow> (string \<Rightarrow> json_value option) \<Rightarrow> 'k conversation \<Rightarrow> chat_arrival list
    \<Rightarrow> chat_store \<Rightarrow> chat_store \<Rightarrow> bool" where
  "heard lib parse cv as s s' \<longleftrightarrow> (\<forall>k. k \<noteq> cv_order_id cv \<longrightarrow> cached k s' = cached k s) \<and>
     cs_hydrated s |\<subseteq>| cs_hydrated s' \<and> stored_rows s' \<subseteq> stored_rows s \<union> set (cached (cv_order_id cv) s') \<and>
     (\<exists>new. cached (cv_order_id cv) s' = cached (cv_order_id cv) s @ new \<and> (\<forall>m \<in> set new. genuine lib parse cv as m \<or>
        cv_order_id cv |\<notin>| cs_hydrated s \<and> m \<in> stored_rows s \<and> cm_trade_id m = cv_order_id cv \<and> m \<notin> set (cached (cv_order_id cv) s)))"

lemma heard_trans:
  assumes a: "heard lib parse cv as s s1" and b: "heard lib parse cv bs s1 s2"
  shows "heard lib parse cv (as @ bs) s s2"
proof -
  let ?o = "cv_order_id cv"
  obtain n1 where n1: "cached ?o s1 = cached ?o s @ n1" "\<forall>m \<in> set n1. genuine lib parse cv as m \<or>
      ?o |\<notin>| cs_hydrated s \<and> m \<in> stored_rows s \<and> cm_trade_id m = ?o \<and> m \<notin> set (cached ?o s)"
    using a by (auto simp: heard_def)
  obtain n2 where n2: "cached ?o s2 = cached ?o s1 @ n2" "\<forall>m \<in> set n2. genuine lib parse cv bs m \<or>
      ?o |\<notin>| cs_hydrated s1 \<and> m \<in> stored_rows s1 \<and> cm_trade_id m = ?o \<and> m \<notin> set (cached ?o s1)"
    using b by (auto simp: heard_def)
  have rows: "stored_rows s1 \<subseteq> stored_rows s \<union> set (cached ?o s1)" "cs_hydrated s |\<subseteq>| cs_hydrated s1"
    using a by (auto simp: heard_def)
  have "\<forall>m \<in> set (n1 @ n2). genuine lib parse cv (as @ bs) m \<or>
      ?o |\<notin>| cs_hydrated s \<and> m \<in> stored_rows s \<and> cm_trade_id m = ?o \<and> m \<notin> set (cached ?o s)"
  proof
    fix m assume "m \<in> set (n1 @ n2)"
    then consider "m \<in> set n1" | "m \<in> set n2" by auto
    then show "genuine lib parse cv (as @ bs) m \<or>
      ?o |\<notin>| cs_hydrated s \<and> m \<in> stored_rows s \<and> cm_trade_id m = ?o \<and> m \<notin> set (cached ?o s)"
    proof cases
      case 1
      then show ?thesis using n1(2) genuine_mono [of lib parse cv as m "as @ bs"] by auto
    next
      case 2
      then show ?thesis
        using n2(2) genuine_mono [of lib parse cv bs m "as @ bs"] rows fsubsetD [OF rows(2), of ?o] n1(1) by auto
    qed
  qed
  moreover have "cached ?o s2 = cached ?o s @ (n1 @ n2)" using n1(1) n2(1) by simp
  moreover have "stored_rows s2 \<subseteq> stored_rows s \<union> set (cached ?o s2)" using b rows(1) n2(1) unfolding heard_def by auto
  ultimately show ?thesis using a b unfolding heard_def by (metis fsubset_trans)
qed

lemma heard_same:
  assumes "same_store t s'"
  shows "heard lib parse cv as s s' = heard lib parse cv as s t"
  using assms by (simp add: heard_def same_store_def stored_rows_def)

lemma merge_appends: "\<exists>new. merge_history p e = e @ new \<and> set new \<subseteq> set p - set e"
proof (induction p arbitrary: e)
  case (Cons m p)
  obtain new where new: "merge_history p (if cm_id m \<in> cm_id ` set e then e else e @ [m]) =
      (if cm_id m \<in> cm_id ` set e then e else e @ [m]) @ new"
    "set new \<subseteq> set p - set (if cm_id m \<in> cm_id ` set e then e else e @ [m])" using Cons by blast
  show ?case
  proof (cases "cm_id m \<in> cm_id ` set e")
    case True
    then show ?thesis using new by (intro exI [of _ new]) auto
  next
    case False
    then show ?thesis using new by (intro exI [of _ "m # new"]) auto
  qed
qed simp

lemma heard_hydrate: "heard lib parse cv as s (ensure_hydrated (cv_order_id cv) s)"
proof (cases "cv_order_id cv |\<in>| cs_hydrated s")
  case True
  then show ?thesis by (simp add: heard_def)
next
  case False
  obtain new where "merge_history (history (cv_order_id cv) s) (cached (cv_order_id cv) s) = cached (cv_order_id cv) s @ new"
    "set new \<subseteq> set (history (cv_order_id cv) s) - set (cached (cv_order_id cv) s)" using merge_appends by blast
  moreover have "m \<in> stored_rows s \<and> cm_trade_id m = cv_order_id cv" if "m \<in> set (history (cv_order_id cv) s)" for m
    using history_ids [OF that] by (auto simp: stored_rows_def)
  ultimately show ?thesis using False
    unfolding heard_def cached_hydrate hydrate_keeps stored_rows_def
    by (intro conjI exI [of _ new]) (simp_all, blast+)
qed

lemma heard_arrival: "heard lib parse cv [a] s (snd (handle_chat_event lib parse cv a (r, s)))"
proof (cases rule: arrival_cases [of s lib parse cv a r])
  case Same
  then show ?thesis unfolding heard_same [OF Same] by (simp add: heard_def)
next
  case (Again i)
  have "stored_rows (snd (ensure_durable (cv_order_id cv) i s)) \<subseteq> stored_rows s \<union> set (cached (cv_order_id cv) s)"
    using durable_db [of "cv_order_id cv" i s] by (auto simp: stored_rows_def save_message_def)
  then show ?thesis unfolding heard_same [OF Again] by (simp add: heard_def)
next
  case Full
  show ?thesis unfolding heard_same [OF Full] by (rule heard_hydrate)
next
  case (Stored inner)
  let ?h = "ensure_hydrated (cv_order_id cv) s" and ?m = "received_message cv parse inner"
  have "heard lib parse cv [a] ?h (snd (add_message ?m ?h))"
    using accepted_genuine [OF Stored(1), of "[a]" parse]
    by (auto simp: heard_def add_parts stored_rows_def save_message_def split: option.splits)
  from heard_trans [OF heard_hydrate [where as = "[]"] this] show ?thesis by (simp add: heard_same [OF Stored(4)])
qed

text \<open>
  C16: Only the parties of an order speak in its chat. Whatever envelopes arrive, in any order and number,
  forged, replayed, padded or misdated, whatever statements fail, the conversation in memory keeps every
  message it showed, in place and unchanged, and only gains at its end: besides its own history, which
  a first look loads from the messages table, each new message was decrypted from an arrival whose outer
  signature is the conversation's and whose inner signature is that of a party's trade key, with both
  dates within a minute of each other and not ahead of the clock by more; it is shown as ours exactly
  when our key signed it. The conversations of other trades in memory are exactly as before.
\<close>

theorem only_the_parties_speak:
  "(\<forall>k. k \<noteq> cv_order_id cv \<longrightarrow> cached k (snd (receive_all lib parse cv as (r, s))) = cached k s) \<and>
   (\<exists>new. cached (cv_order_id cv) (snd (receive_all lib parse cv as (r, s))) = cached (cv_order_id cv) s @ new \<and>
     (\<forall>m \<in> set new.
        (cv_order_id cv |\<notin>| cs_hydrated s \<and> cm_trade_id m = cv_order_id cv \<and> (\<exists>rows. cs_db s = Some rows \<and> m \<in> set rows)) \<or>
        genuine lib parse cv as m \<and> cm_sender_pubkey m \<in> set (cv_allowed cv) \<and>
        cm_is_mine m = (cm_sender_pubkey m = cv_my_pubkey cv)))"
proof -
  have "heard lib parse cv as s (snd (receive_all lib parse cv as (r, s)))"
  proof (induction as arbitrary: r s)
    case (Cons a as)
    let ?st = "handle_chat_event lib parse cv a (r, s)"
    have "heard lib parse cv ([a] @ as) s (snd (receive_all lib parse cv as (fst ?st, snd ?st)))"
      by (rule heard_trans [OF heard_arrival Cons.IH])
    then show ?case by (simp add: receive_all_def)
  qed (simp add: receive_all_def heard_def)
  moreover have "cm_sender_pubkey m \<in> set (cv_allowed cv) \<and> cm_is_mine m = (cm_sender_pubkey m = cv_my_pubkey cv)"
    if "genuine lib parse cv as m" for m using that by (auto simp: genuine_def)
  ultimately show ?thesis unfolding heard_def stored_rows_def by (fastforce split: option.splits)
qed

section \<open>Once each\<close>

text \<open>What happens to the store, in any order: arrivals in any state of their task, reads, own messages, downloads, faults, restarts.\<close>

datatype 'k chat_event =
    Arrives "'k envelope_lib" "string \<Rightarrow> json_value option" "'k conversation" chat_rx chat_arrival
  | Own chat_message
  | Looks string
  | MarksRead string
  | Downloads string string
  | Fails "chat_call \<Rightarrow> bool"
  | Restarts

definition restart_chat :: "chat_store \<Rightarrow> chat_store" where
  "restart_chat s = s\<lparr>cs_messages := fmempty, cs_hydrated := {||}, cs_non_durable := {||}, cs_new := [], cs_unread := []\<rparr>"

fun chat_step :: "'k chat_event \<Rightarrow> chat_store \<Rightarrow> chat_store" where
  "chat_step (Arrives lib parse cv r a) s = snd (handle_chat_event lib parse cv a (r, s))"
| "chat_step (Own m) s = snd (add_message m s)"
| "chat_step (Looks k) s = snd (get_messages k s)"
| "chat_step (MarksRead k) s = mark_as_read k s"
| "chat_step (Downloads i path) s = mark_downloaded i path s"
| "chat_step (Fails f) s = s\<lparr>cs_down := f\<rparr>"
| "chat_step Restarts s = restart_chat s"

definition chat_run :: "'k chat_event list \<Rightarrow> chat_store \<Rightarrow> chat_store" where
  "chat_run es s = fold chat_step es s"

definition unseen :: "chat_message \<Rightarrow> chat_store \<Rightarrow> bool" where
  "unseen m s \<longleftrightarrow> cm_id m \<notin> cm_id ` set (cached (cm_trade_id m) s) \<and>
     (\<forall>rows. cs_db s = Some rows \<longrightarrow> \<not> message_exists (cm_id m) rows)"

text \<open>Own messages are recorded before their echo (see \<open>echo_before_the_record_doubles\<close>).\<close>

fun echoes_follow :: "'k chat_event list \<Rightarrow> chat_store \<Rightarrow> bool" where
  "echoes_follow [] s = True"
| "echoes_follow (e # es) s \<longleftrightarrow> (case e of Own m \<Rightarrow> unseen m s | _ \<Rightarrow> True) \<and> echoes_follow es (chat_step e s)"

definition once_each :: "chat_store \<Rightarrow> bool" where
  "once_each s \<longleftrightarrow> (\<forall>k. distinct (map cm_id (cached k s))) \<and> (\<forall>rows. cs_db s = Some rows \<longrightarrow> distinct (map cm_id rows))"

lemma saved_distinct: "distinct (map cm_id rows) \<Longrightarrow> distinct (map cm_id (save_message m rows))"
  by (auto simp: save_message_def distinct_map inj_on_def)

lemma once_same: "same_store s s' \<Longrightarrow> once_each s \<Longrightarrow> once_each s'"
  by (auto simp: same_store_def once_each_def)

lemma once_hydrate: "once_each s \<Longrightarrow> once_each (ensure_hydrated k s)"
  by (auto simp: once_each_def cached_hydrate merge_distinct)

lemma history_unseen: "unseen m s \<Longrightarrow> x \<in> set (history k s) \<Longrightarrow> cm_id x \<noteq> cm_id m"
  using history_ids [of x k s] unfolding unseen_def message_exists_def by (metis imageI)

lemma unseen_hydrate:
  assumes u: "unseen m s"
  shows "unseen m (ensure_hydrated k s)"
proof -
  let ?k = "cm_trade_id m"
  have "cm_id x \<noteq> cm_id m" if "x \<in> set (merge_history (history ?k s) (cached ?k s))" for x
  proof -
    from that merge_set(1) [of "history ?k s" "cached ?k s"] have "x \<in> set (history ?k s) \<or> x \<in> set (cached ?k s)" by blast
    then show ?thesis
    proof
      assume "x \<in> set (history ?k s)"
      then show ?thesis by (rule history_unseen [OF u])
    next
      assume "x \<in> set (cached ?k s)"
      then show ?thesis using u unfolding unseen_def by (metis imageI)
    qed
  qed
  then have "cm_id m \<notin> cm_id ` set (merge_history (history ?k s) (cached ?k s))" by (metis imageE)
  then show ?thesis using u by (cases "k = cm_trade_id m") (simp_all add: unseen_def cached_hydrate)
qed

lemma once_add:
  assumes "once_each s" "unseen m s"
  shows "once_each (snd (add_message m s))"
proof -
  have "distinct (map cm_id (cached k (snd (add_message m s))))" for k
    using once_hydrate [OF assms(1), of "cm_trade_id m"] unseen_hydrate [OF assms(2), of "cm_trade_id m"] assms(1)
    by (cases "k = cm_trade_id m") (simp_all add: once_each_def add_parts(2) unseen_def)
  moreover have "distinct (map cm_id rows)" if "cs_db (snd (add_message m s)) = Some rows" for rows
    using that assms(1) saved_distinct by (auto simp: once_each_def add_parts(1) split: if_splits)
  ultimately show ?thesis by (simp add: once_each_def)
qed

lemma known_unseen:
  assumes "is_known (cv_order_id cv) (ne_id inner) s = Inr False"
  shows "unseen (received_message cv parse inner) s"
  using assms by (auto simp: is_known_def unseen_def split: option.splits if_splits)

lemma once_durable: "once_each s \<Longrightarrow> once_each (snd (ensure_durable k i s))"
  using durable_db [of k i s] by (auto simp: once_each_def intro: saved_distinct)

lemma mark_parts:
  "cached j (mark_as_read k s) = (if j = k then map (\<lambda>m. m\<lparr>cm_is_read := True\<rparr>) (cached k (ensure_hydrated k s)) else cached j s)"
  "cs_db (mark_as_read k s) = (if cs_down s CMarkRead then cs_db s else map_option (mark_messages_read k) (cs_db s))"
  "cs_hydrated (mark_as_read k s) = finsert k (cs_hydrated s)" "cs_down (mark_as_read k s) = cs_down s"
  "cs_non_durable (mark_as_read k s) = cs_non_durable s"
proof -
  define t where "t = (case fmlookup (cs_messages (ensure_hydrated k s)) k of None \<Rightarrow> ensure_hydrated k s
    | Some ms \<Rightarrow> (ensure_hydrated k s)\<lparr>cs_messages := fmupd k (map (\<lambda>m. m\<lparr>cm_is_read := True\<rparr>) ms) (cs_messages (ensure_hydrated k s))\<rparr>)"
  have t: "cs_db t = cs_db s" "cs_hydrated t = finsert k (cs_hydrated s)" "cs_down t = cs_down s" "cs_non_durable t = cs_non_durable s"
    "cached j t = (if j = k then map (\<lambda>m. m\<lparr>cm_is_read := True\<rparr>) (cached k (ensure_hydrated k s)) else cached j (ensure_hydrated k s))"
    by (simp_all add: t_def cached_def split: option.split)
  have m: "cs_db (mark_as_read k s) = cs_db (snd (chat_write CMarkRead (mark_messages_read k) t))"
    "cached j (mark_as_read k s) = cached j (snd (chat_write CMarkRead (mark_messages_read k) t))"
    "cs_hydrated (mark_as_read k s) = cs_hydrated (snd (chat_write CMarkRead (mark_messages_read k) t))"
    "cs_down (mark_as_read k s) = cs_down (snd (chat_write CMarkRead (mark_messages_read k) t))"
    "cs_non_durable (mark_as_read k s) = cs_non_durable (snd (chat_write CMarkRead (mark_messages_read k) t))"
    by (simp_all add: mark_as_read_def t_def Let_def cached_def)
  show "cached j (mark_as_read k s) = (if j = k then map (\<lambda>m. m\<lparr>cm_is_read := True\<rparr>) (cached k (ensure_hydrated k s)) else cached j s)"
    by (simp add: m t cached_hydrate)
  show "cs_db (mark_as_read k s) = (if cs_down s CMarkRead then cs_db s else map_option (mark_messages_read k) (cs_db s))"
    "cs_hydrated (mark_as_read k s) = finsert k (cs_hydrated s)" "cs_down (mark_as_read k s) = cs_down s"
    "cs_non_durable (mark_as_read k s) = cs_non_durable s"
    by (simp_all add: m t write_parts)
qed

lemma cached_downloaded: "cached k (mark_downloaded i path s) = map (\<lambda>m. if cm_id m = i
    then m\<lparr>cm_attachment := map_option (\<lambda>a. a\<lparr>at_download_status := DlDownloaded, at_local_path := Some path\<rparr>) (cm_attachment m)\<rparr>
    else m) (cached k s)"
  by (simp add: cached_def mark_downloaded_def split: option.split)

lemma downloaded_keeps [simp]:
  "cs_db (mark_downloaded i path s) = cs_db s" "cs_hydrated (mark_downloaded i path s) = cs_hydrated s"
  "cs_down (mark_downloaded i path s) = cs_down s" "cs_non_durable (mark_downloaded i path s) = cs_non_durable s"
  by (simp_all add: mark_downloaded_def)

lemma once_downloaded: "once_each (mark_downloaded i path s) = once_each s"
proof -
  have "map cm_id (cached k (mark_downloaded i path s)) = map cm_id (cached k s)" for k
    by (simp add: cached_downloaded)
  then show ?thesis unfolding once_each_def by simp
qed

lemma once_step:
  assumes "once_each s" "case e of Own m \<Rightarrow> unseen m s | _ \<Rightarrow> True"
  shows "once_each (chat_step e s)"
proof (cases e)
  case (Arrives lib parse cv r a)
  show ?thesis
  proof (cases rule: arrival_cases [of s lib parse cv a r])
    case (Stored inner)
    have "once_each (snd (add_message (received_message cv parse inner) (ensure_hydrated (cv_order_id cv) s)))"
      by (intro once_add once_hydrate assms(1) unseen_hydrate known_unseen Stored)
    then show ?thesis using Stored(4) Arrives by (auto intro: once_same)
  qed (use assms(1) Arrives in \<open>auto intro: once_same once_durable once_hydrate\<close>)
next
  case (MarksRead k)
  have "map cm_id (map (\<lambda>m. m\<lparr>cm_is_read := True\<rparr>) ms) = map cm_id ms"
    "map cm_id (mark_messages_read k ms) = map cm_id ms" for ms
    by (simp_all add: mark_messages_read_def)
  then show ?thesis using assms(1) once_hydrate [OF assms(1), of k]
    by (auto simp: MarksRead once_each_def mark_parts simp del: map_map split: if_splits)
next
  case (Looks k)
  then show ?thesis using once_hydrate [OF assms(1), of k] by simp
next
  case (Downloads i path)
  then show ?thesis using assms(1) once_downloaded by simp
next
  case (Own m)
  then show ?thesis using assms once_add by simp
qed (use assms(1) in \<open>simp_all add: once_each_def restart_chat_def cached_def\<close>)

text \<open>
  C17: Every message is kept once. Over any history of arrivals (the same envelope from several relays, an
  inner message wrapped anew, several listeners), reads, own messages, failing statements and restarts,
  no conversation in memory and no table holds two messages of one id, as long as each own message is
  recorded before its echo arrives.
\<close>

theorem messages_are_kept_once:
  assumes "once_each s" "echoes_follow es s"
  shows "once_each (chat_run es s)"
  using assms
proof (induction es arbitrary: s)
  case (Cons e es)
  then show ?case using once_step [of s e] by (auto simp: chat_run_def)
qed (simp add: chat_run_def)

text \<open>The other order: the echo of an own message is stored as unknown, and the record of the send is put beside it.\<close>

lemma echo_before_the_record_doubles:
  assumes "once_each s" "unseen m s"
  shows "length (filter (\<lambda>x. cm_id x = cm_id m) (cached (cm_trade_id m) (snd (add_message m (snd (add_message m s)))))) = 2"
proof -
  have "filter (\<lambda>x. cm_id x = cm_id m) (cached (cm_trade_id m) (ensure_hydrated (cm_trade_id m) s)) = []"
    using unseen_hydrate [OF assms(2), of "cm_trade_id m"] by (auto simp: unseen_def filter_empty_conv image_iff)
  then show ?thesis by (simp add: add_parts)
qed

section \<open>A flood\<close>

lemma taken:
  assumes "try_take now b = (ok, b')" "0 \<le> tb_tokens b" "tb_last b \<le> now"
  shows "0 \<le> tb_tokens b'" "tb_last b' = now"
    "(if ok then 1 else 0) + tb_tokens b' \<le> tb_tokens b + (now - tb_last b) * rate_per_sec"
proof -
  have e: "max 0 (now - tb_last b) = now - tb_last b" using assms(3) by simp
  have p: "0 \<le> (now - tb_last b) * rate_per_sec" using assms(3) by (simp add: rate_per_sec_def)
  show "0 \<le> tb_tokens b'" "tb_last b' = now"
    "(if ok then 1 else 0) + tb_tokens b' \<le> tb_tokens b + (now - tb_last b) * rate_per_sec"
    using assms(1,2) p unfolding try_take_def e by (auto simp: Let_def rate_capacity_def split: if_splits)
qed

lemma cursor_rx [simp]:
  "rx_bucket (fst (advance_cursor cv now ts (r, s))) = rx_bucket r" "rx_live (fst (advance_cursor cv now ts (r, s))) = rx_live r"
  by (simp_all add: advance_cursor_def Let_def)

lemma store_received_rx [simp]:
  "rx_bucket (fst (store_received cv parse inner now ts (r, s))) = rx_bucket r"
  "rx_live (fst (store_received cv parse inner now ts (r, s))) = rx_live r"
  by (simp_all add: store_received_def split_beta Let_def split: sum.split bool.split)

lemma arrival_budget:
  assumes "rx_live r" and h: "handle_chat_event lib parse cv a (r, s) = (r', s')"
  shows "rx_live r' \<and> (rx_bucket r' = rx_bucket r \<and> s' = s \<or>
    (\<exists>ok. try_take (ca_instant a) (rx_bucket r) = (ok, rx_bucket r') \<and> (\<not> ok \<longrightarrow> s' = s)))"
proof -
  obtain fresh seen where i: "insert_id (ne_id (ca_event a)) (rx_outer_seen r) = (fresh, seen)" by fastforce
  obtain ok b where t: "try_take (ca_instant a) (rx_bucket r) = (ok, b)" by fastforce
  have store: "rx_live r' \<and> rx_bucket r' = b"
    if "store_received cv parse inner now ts (q, s) = (r', s')" "rx_bucket q = b" "rx_live q" for inner now ts q
    using that store_received_rx [of cv parse inner now ts q s] by simp
  show ?thesis using assms t
    by (auto simp: handle_chat_event_def i budget_ok_def rx_reject_def Let_def dest!: store split: if_splits sum.splits)
qed

lemma arrival_growth:
  assumes "cv_order_id cv |\<in>| cs_hydrated s"
  shows "length (cached k (snd (handle_chat_event lib parse cv a (r, s)))) \<le> Suc (length (cached k s))"
    "length (cached k (snd (handle_chat_event lib parse cv a (r, s)))) \<le> max max_stored_messages_per_trade (length (cached k s))"
proof -
  let ?s = "snd (handle_chat_event lib parse cv a (r, s))"
  have "length (cached k ?s) \<le> Suc (length (cached k s)) \<and> length (cached k ?s) \<le> max max_stored_messages_per_trade (length (cached k s))"
  proof (cases rule: arrival_cases [of s lib parse cv a r])
    case (Stored inner)
    have "k = cv_order_id cv \<Longrightarrow> length (cached k s) < max_stored_messages_per_trade"
      using Stored(3) assms
      by (auto simp: quota_exceeded_def cached_def Let_def max_stored_messages_per_trade_def split: option.splits)
    then show ?thesis using Stored(4) assms by (auto simp: same_store_def add_parts)
  qed (use assms in \<open>auto simp: same_store_def\<close>)
  then show "length (cached k ?s) \<le> Suc (length (cached k s))"
    "length (cached k ?s) \<le> max max_stored_messages_per_trade (length (cached k s))" by auto
qed

text \<open>
  C19: A flood is bounded in rate and in size. Once a conversation is live, whoever holds its keys and whatever
  they send, by a time \<open>T\<close> after the bucket was last looked at no more messages have been added than the
  tokens it held and half of \<open>T\<close> in seconds; and arrivals alone never take a conversation beyond a
  thousand messages.
\<close>

theorem flood_is_bounded:
  assumes "rx_live r" "0 \<le> tb_tokens (rx_bucket r)" "cv_order_id cv |\<in>| cs_hydrated s"
    "sorted (tb_last (rx_bucket r) # map ca_instant as @ [until])"
  shows "of_nat (length (cached k (snd (receive_all lib parse cv as (r, s))))) \<le>
      of_nat (length (cached k s)) + tb_tokens (rx_bucket r) + (until - tb_last (rx_bucket r)) * rate_per_sec \<and>
    length (cached k (snd (receive_all lib parse cv as (r, s)))) \<le> max max_stored_messages_per_trade (length (cached k s))"
  using assms
proof (induction as arbitrary: r s)
  case Nil
  then have "0 \<le> (until - tb_last (rx_bucket r)) * rate_per_sec" by (simp add: rate_per_sec_def)
  then show ?case using Nil by (simp add: receive_all_def)
next
  case (Cons a as)
  obtain r' s' where h: "handle_chat_event lib parse cv a (r, s) = (r', s')" by fastforce
  from arrival_budget [OF Cons.prems(1) h] have live: "rx_live r'" by simp
  have now: "tb_last (rx_bucket r) \<le> ca_instant a" and rest: "sorted (ca_instant a # map ca_instant as @ [until])"
    using Cons.prems(4) by auto
  have grow: "length (cached k s') \<le> Suc (length (cached k s))"
    "length (cached k s') \<le> max max_stored_messages_per_trade (length (cached k s))"
    and hyd: "cv_order_id cv |\<in>| cs_hydrated s'"
    using arrival_growth [OF Cons.prems(3), of k lib parse a r] arrival_hydrated(1) [OF Cons.prems(3), of lib parse a r] h by simp_all
  have step: "0 \<le> tb_tokens (rx_bucket r') \<and> sorted (tb_last (rx_bucket r') # map ca_instant as @ [until]) \<and>
    of_nat (length (cached k s')) + tb_tokens (rx_bucket r') - tb_last (rx_bucket r') * rate_per_sec \<le>
    of_nat (length (cached k s)) + tb_tokens (rx_bucket r) - tb_last (rx_bucket r) * rate_per_sec"
    using arrival_budget [OF Cons.prems(1) h]
  proof (elim conjE disjE exE)
    assume "rx_bucket r' = rx_bucket r" "s' = s"
    then show ?thesis using Cons.prems(2,4) by simp
  next
    fix ok assume t: "try_take (ca_instant a) (rx_bucket r) = (ok, rx_bucket r')" and o: "\<not> ok \<longrightarrow> s' = s"
    have "length (cached k s') \<le> length (cached k s) + (if ok then 1 else 0)"
      using grow(1) o by (cases ok) simp_all
    then have "(of_nat (length (cached k s')) :: rat) \<le> of_nat (length (cached k s) + (if ok then 1 else 0))"
      by (rule of_nat_mono)
    then have "of_nat (length (cached k s')) \<le> of_nat (length (cached k s)) + (if ok then 1 else 0 :: rat)"
      by (cases ok) simp_all
    from this taken [OF t Cons.prems(2) now] show ?thesis using rest by (simp add: left_diff_distrib)
  qed
  from Cons.IH [OF live _ hyd] step have "of_nat (length (cached k (snd (receive_all lib parse cv as (r', s'))))) \<le>
      of_nat (length (cached k s')) + tb_tokens (rx_bucket r') + (until - tb_last (rx_bucket r')) * rate_per_sec \<and>
    length (cached k (snd (receive_all lib parse cv as (r', s')))) \<le> max max_stored_messages_per_trade (length (cached k s'))"
    by blast
  then show ?case using step grow(2)
    by (auto simp: receive_all_def h left_diff_distrib max_def split: if_splits)
qed

section \<open>A restart\<close>















definition faultless :: "'k chat_event \<Rightarrow> bool" where
  "faultless e \<longleftrightarrow> (case e of Fails f \<Rightarrow> False | _ \<Rightarrow> True)"





section \<open>Instances\<close>

text \<open>Bob reads Alice's note, sent over the sample library of the envelope.\<close>

definition sample_conversation :: "string conversation" where
  "sample_conversation = \<lparr>cv_channel = PeerChat, cv_order_id = ''t'', cv_allowed = [''alice'', ''bob''], cv_conv = ''conv'',
     cv_sign_pubkey = ''sign'', cv_my_pubkey = ''bob''\<rparr>"

definition sample_arrival :: chat_arrival where
  "sample_arrival = \<lparr>ca_event = (unsigned_event ''sign'' 100 private_direct_message [[''p'', ''conv'']] ''c'')\<lparr>ne_id := ''id''\<rparr>,
     ca_now = 100, ca_instant = 1\<rparr>"

definition sample_chat_store :: chat_store where
  "sample_chat_store = \<lparr>cs_db = Some [], cs_cursors = fmempty, cs_down = (\<lambda>_. False), cs_messages = fmempty,
     cs_hydrated = {|''t''|}, cs_non_durable = {||}, cs_new = [], cs_unread = []\<rparr>"

definition no_json :: "string \<Rightarrow> json_value option" where "no_json s = None"

definition sample_rx :: chat_rx where "sample_rx = (new_rx 0 0)\<lparr>rx_live := True\<rparr>"

definition sample_chat_message :: chat_message where
  "sample_chat_message = received_message sample_conversation no_json sample_note"

lemma sample_unwrap:
  "mostro_unwrap sample_envelope_lib ''conv'' ''sign'' [''alice'', ''bob''] (ca_event sample_arrival) 100 = Inr sample_note"
  by (simp add: mostro_unwrap_def sample_envelope_lib_def sample_arrival_def unsigned_event_def decode_code sample_note_def
      private_direct_message_def text_note_def max_outer_tags_def max_content_bytes_def addressed_to_def nth_opt_def abs_diff_def map_error_def and_then_def
      min_def envelope_clock_skew_secs_def)

lemma sample_received:
  "cached ''t'' (snd (receive_all sample_envelope_lib no_json sample_conversation [sample_arrival] (sample_rx, sample_chat_store))) =
     [sample_chat_message]"
proof -
  have u: "mostro_unwrap sample_envelope_lib (cv_conv sample_conversation) (cv_sign_pubkey sample_conversation)
      (cv_allowed sample_conversation) (ca_event sample_arrival) (ca_now sample_arrival) = Inr sample_note"
    using sample_unwrap by (simp add: sample_conversation_def sample_arrival_def)
  have i: "is_known ''t'' (ne_id sample_note) sample_chat_store = Inr False"
    by (simp add: is_known_def sample_chat_store_def cached_def message_exists_def)
  have q: "quota_exceeded ''t'' n sample_chat_store = (False, sample_chat_store)" for n
    by (simp add: quota_exceeded_def sample_chat_store_def ensure_hydrated_def)
  have b: "insert_id (ne_id (ca_event sample_arrival)) (rx_outer_seen sample_rx) =
      (True, snd (insert_id (ne_id (ca_event sample_arrival)) (rx_outer_seen sample_rx)))"
    by (simp add: insert_id_def sample_rx_def new_rx_def new_bounded_ids_def outer_lru_cap_def)
  have t: "try_take (ca_instant sample_arrival) (rx_bucket sample_rx) =
      (True, snd (try_take (ca_instant sample_arrival) (rx_bucket sample_rx)))"
    by (simp add: try_take_def sample_rx_def new_rx_def new_bucket_def sample_arrival_def rate_capacity_def rate_per_sec_def)
  have e: "ne_kind (ca_event sample_arrival) = private_direct_message"
    "ne_pubkey (ca_event sample_arrival) = cv_sign_pubkey sample_conversation" "cv_order_id sample_conversation = ''t''" "rx_live sample_rx"
    "cm_trade_id sample_chat_message = ''t''" "cached ''t'' sample_chat_store = []" "''t'' |\<in>| cs_hydrated sample_chat_store"
    by (simp_all add: sample_arrival_def unsigned_event_def sample_conversation_def sample_rx_def sample_chat_message_def
        sample_chat_store_def cached_def)
  show ?thesis
    apply (simp add: receive_all_def handle_chat_event_def e Let_def)
    apply (subst b)
    apply (simp add: budget_ok_def e Let_def)
    apply (subst t)
    apply (simp add: u store_received_def i e q Let_def split_beta add_parts flip: sample_chat_message_def)
    done
qed

theorem only_the_parties_speak_witness:
  "genuine sample_envelope_lib no_json sample_conversation [sample_arrival] sample_chat_message \<and>
   cm_sender_pubkey sample_chat_message \<in> {''alice'', ''bob''} \<and> \<not> cm_is_mine sample_chat_message"
proof -
  have start: "cv_order_id sample_conversation = ''t''" "''t'' |\<in>| cs_hydrated sample_chat_store"
    "cached ''t'' sample_chat_store = []"
    by (simp_all add: sample_conversation_def sample_chat_store_def cached_def)
  have g: "genuine sample_envelope_lib no_json sample_conversation [sample_arrival] sample_chat_message"
    "cm_sender_pubkey sample_chat_message \<in> set (cv_allowed sample_conversation)"
    "cm_is_mine sample_chat_message = (cm_sender_pubkey sample_chat_message = cv_my_pubkey sample_conversation)"
    using only_the_parties_speak [of sample_conversation sample_envelope_lib no_json "[sample_arrival]" sample_rx sample_chat_store]
    by (simp_all add: start sample_received)
  moreover have "cm_sender_pubkey sample_chat_message = ''alice''"
    by (simp add: sample_chat_message_def sample_note_def unsigned_event_def)
  ultimately show ?thesis by (simp add: sample_conversation_def)
qed

definition sample_chat_history :: "string chat_event list" where
  "sample_chat_history =
     [Arrives sample_envelope_lib no_json sample_conversation sample_rx sample_arrival, Restarts, Looks ''t'', MarksRead ''t'', Downloads ''m'' ''path'',
      Arrives sample_envelope_lib no_json sample_conversation sample_rx sample_arrival]"

lemma sample_history_follows: "echoes_follow sample_chat_history sample_chat_store" "\<forall>e \<in> set sample_chat_history. faultless e"
  by (simp_all add: sample_chat_history_def faultless_def)

lemma sample_once: "once_each sample_chat_store"
  by (simp add: once_each_def sample_chat_store_def cached_def)

theorem messages_are_kept_once_witness: "once_each (chat_run sample_chat_history sample_chat_store)"
  by (rule messages_are_kept_once [OF sample_once sample_history_follows(1)])

theorem flood_is_bounded_witness:
  "length (cached ''t'' (snd (receive_all sample_envelope_lib no_json sample_conversation
     (replicate 500 sample_arrival) (sample_rx\<lparr>rx_bucket := \<lparr>tb_tokens = 5, tb_last = 0\<rparr>\<rparr>, sample_chat_store)))) \<le> 6"
proof -
  have l: "rx_live (sample_rx\<lparr>rx_bucket := \<lparr>tb_tokens = 5, tb_last = 0\<rparr>\<rparr>)"
    "0 \<le> tb_tokens (rx_bucket (sample_rx\<lparr>rx_bucket := \<lparr>tb_tokens = 5, tb_last = 0\<rparr>\<rparr>))"
    "cv_order_id sample_conversation |\<in>| cs_hydrated sample_chat_store"
    "sorted (tb_last (rx_bucket (sample_rx\<lparr>rx_bucket := \<lparr>tb_tokens = 5, tb_last = 0\<rparr>\<rparr>)) #
       map ca_instant (replicate 500 sample_arrival) @ [2])"
    by (simp_all add: sample_rx_def sample_conversation_def sample_chat_store_def sample_arrival_def sorted_append)
  from flood_is_bounded [OF l, of "''t''" sample_envelope_lib no_json, THEN conjunct1]
  have "of_nat (length (cached ''t'' (snd (receive_all sample_envelope_lib no_json sample_conversation
     (replicate 500 sample_arrival) (sample_rx\<lparr>rx_bucket := \<lparr>tb_tokens = 5, tb_last = 0\<rparr>\<rparr>, sample_chat_store))))) \<le> (of_nat 6 :: rat)"
    by (simp add: sample_chat_store_def cached_def rate_per_sec_def)
  then show ?thesis by (simp only: of_nat_le_iff)
qed


section \<open>What the cursor and the exit do not keep\<close>

text \<open>
  A message whose write fails is only in memory; the next one that is stored moves the cursor past it, so after
  a restart the relay is not asked for it again.
\<close>

lemma cursor_passes_a_lost_message:
  assumes "cs_db s = Some []" "cs_messages s = fmempty" "cs_hydrated s = {|cv_order_id cv|}" "cs_cursors s = fmempty"
    "rx_cursor r = 0" "0 < ts" "ts < ts'" "ts' \<le> now" "ne_id lost \<noteq> ne_id kept"
    "length (ne_content lost) \<le> max_content_bytes" "length (ne_content kept) \<le> max_content_bytes" "parse = no_json"
    "st = store_received cv parse kept now ts' ((\<lambda>(r, s). (r, s\<lparr>cs_down := (\<lambda>_. False)\<rparr>))
       (store_received cv parse lost now ts (r, s\<lparr>cs_down := (\<lambda>c. c = CSaveMessage)\<rparr>)))"
  shows "rx_cursor (fst st) = ts' \<and> (\<forall>rows. cs_db (snd st) = Some rows \<longrightarrow> \<not> message_exists (ne_id lost) rows) \<and>
    fmlookup (cs_cursors (snd st)) (cursor_key (cv_channel cv) (cv_order_id cv)) = Some (int_to_string ts')"
proof -
  define s1 where "s1 = s\<lparr>cs_down := (\<lambda>c. c = CSaveMessage)\<rparr>"
  define m where "m = received_message cv parse lost"
  define m' where "m' = received_message cv parse kept"
  define s2 where "s2 = snd (add_message m s1)"
  define s3 where "s3 = s2\<lparr>cs_down := (\<lambda>_. False)\<rparr>"
  have m: "cm_id m = ne_id lost" "cm_trade_id m = cv_order_id cv" "cm_content m = ne_content lost"
    "cm_id m' = ne_id kept" "cm_trade_id m' = cv_order_id cv"
    by (simp_all add: m_def m'_def assms(12) received_message_def parse_chat_payload_def no_json_def Let_def)
  have h: "cv_order_id cv |\<in>| cs_hydrated s1" "cached (cv_order_id cv) s1 = []" "cs_db s1 = Some []" "cs_cursors s1 = fmempty"
    by (simp_all add: s1_def assms cached_def)
  have c2: "cached (cv_order_id cv) s2 = [m]" "cs_db s2 = Some []" "cv_order_id cv |\<in>| cs_hydrated s2"
    using h by (simp_all add: s2_def add_parts m, simp add: s1_def)
  have f2: "fst (add_message m s1) = False"
    using h m by (simp add: add_message_def chat_write_def Let_def) (simp add: s1_def)
  have one: "store_received cv parse lost now ts (r, s1) = (r, s2)"
    using h f2 by (simp add: store_received_def is_known_def message_exists_def quota_exceeded_def cached_def
        s1_def assms(2) Let_def split_beta s2_def m_def)
  have c3: "cached (cv_order_id cv) s3 = [m]" "cs_db s3 = Some []" "cv_order_id cv |\<in>| cs_hydrated s3" "\<not> cs_down s3 c" for c
    using c2 by (simp_all add: s3_def cached_def)
  have q3: "quota_exceeded (cv_order_id cv) n s3 = (False, s3)" if "n \<le> max_content_bytes" for n
    using c3 that assms(10)
    by (auto simp: quota_exceeded_def cached_def content_bytes_def m max_stored_messages_per_trade_def max_stored_bytes_per_trade_def
        max_content_bytes_def split: option.split)
  have add: "fst (add_message m' s3) = True" "cs_db (snd (add_message m' s3)) = Some [m']" "cs_down (snd (add_message m' s3)) c = False"
    for c using c3 m by (simp_all add: add_message_def chat_write_def Let_def chat_db_error_def save_message_def)
  have two: "store_received cv parse kept now ts' (r, s3) = advance_cursor cv now ts' (r, snd (add_message m' s3))"
    using c3 assms(9) q3 [OF assms(11)] add(1)
    by (simp add: store_received_def is_known_def message_exists_def m Let_def split_beta flip: m'_def)
  have "st = advance_cursor cv now ts' (r, snd (add_message m' s3))"
    by (simp add: assms(13) one two flip: s1_def s3_def)
  then show ?thesis using add assms(5-9)
    by (simp add: advance_cursor_def store_chat_cursor_def Let_def message_exists_def m min_def)
qed

text \<open>
  The exit gives up the chat and closes its REQ in two steps; a successor that starts between the two loses
  the REQ it just opened and waits on nothing.
\<close>

lemma exit_closes_the_successor:
  assumes "chat_is_current c k g t" "release_chat c k g t = (had, t1)" "claim_chat c k t1 = (Some g', t2)"
    "t3 = close_chat_req c k (open_chat_req c k t2)"
  shows "had \<and> chat_is_current c k g' t3 \<and> chat_subscription_id c k |\<notin>| ct_reqs t3"
  using assms by (auto simp: chat_is_current_def release_chat_def claim_chat_def close_chat_req_def open_chat_req_def Let_def split: if_splits)

text \<open>A failed read of the history counts as loaded: the conversation stays empty until the next start.\<close>

lemma failed_history_counts_as_loaded:
  assumes "k |\<notin>| cs_hydrated s" "cached k s = []" "cs_down s CListMessages"
  shows "fst (get_messages k ((ensure_hydrated k s)\<lparr>cs_down := (\<lambda>_. False)\<rparr>)) = []"
proof -
  have "cached k ((ensure_hydrated k s)\<lparr>cs_down := (\<lambda>_. False)\<rparr>) = []"
    using assms cached_hydrate [of k k s] by (simp add: cached_def history_def split: option.splits)
  then show ?thesis by (simp add: get_messages_def Let_def)
qed

section \<open>File names\<close>

lemma components_plain: "CHR ''/'' \<notin> set acc \<Longrightarrow> c \<in> set (path_components acc s) \<Longrightarrow> CHR ''/'' \<notin> set c"
  by (induction acc s arbitrary: c rule: path_components.induct) (auto split: if_splits)

text \<open>
  A name a peer gives to a file stays in the directory. Whatever string arrives, the name the file is saved
  under is one component of a path: not empty, without a slash, and neither of the two that point
  elsewhere.
\<close>

theorem file_name_stays_in_its_directory:
  "safe_filename s \<noteq> [] \<and> CHR ''/'' \<notin> set (safe_filename s) \<and> safe_filename s \<noteq> ''.'' \<and> safe_filename s \<noteq> ''..''"
proof (cases "filter (\<lambda>c. c \<noteq> [] \<and> c \<noteq> ''.'') (path_components [] s)" rule: rev_cases)
  case Nil
  then show ?thesis by (simp add: safe_filename_def path_file_name_def opt_filter_def)
next
  case (snoc cs c)
  then have "c \<in> set (filter (\<lambda>c. c \<noteq> [] \<and> c \<noteq> ''.'') (path_components [] s))" by simp
  then have "c \<noteq> []" "c \<noteq> ''.''" "CHR ''/'' \<notin> set c" using components_plain [of "[]" c s] by auto
  moreover have "path_file_name s = (if c = ''..'' then None else Some c)"
    unfolding path_file_name_def snoc by (cases cs) simp_all
  ultimately show ?thesis by (auto simp: safe_filename_def opt_filter_def)
qed

end
