(* ===== verification/Chat_Files.thy ===== *)
theory Chat_Files
  imports Chat_Safety Floats
begin

text \<open>
  Files in the chat: \<open>send_file\<close> and \<open>download_attachment\<close> of \<open>api/messages.rs\<close>, the Blossom client
  (\<open>nostr/blossom.rs\<close>) and the file encryption (\<open>crypto/file_enc.rs\<close>) around the ChaCha20-Poly1305 of its
  crate.

  The HTTP requests of a run are functions from the request to its answer, a status code or the error of
  the client (reason phrases are left out of the messages). \<open>cd_progress\<close> and \<open>cd_files\<close> of the desk are what
  was broadcast and what was written to disk.
\<close>

record upload_request =
  ur_url :: string
  ur_mime :: string
  ur_auth :: "string option"
  ur_body :: "u8 list"

record http_blob =
  hb_status :: nat
  hb_length :: "u64 option"
  hb_body :: "(string, u8 list) result"

record file_env =
  fe_seal :: "u8 list \<Rightarrow> u8 list \<Rightarrow> u8 list \<Rightarrow> (string, u8 list) result"
  fe_unseal :: "u8 list \<Rightarrow> u8 list \<Rightarrow> u8 list \<Rightarrow> (string, u8 list) result"
  fe_nonce :: "u8 list"
  fe_sha256 :: "u8 list \<Rightarrow> string"
  fe_base64 :: "string \<Rightarrow> string"
  fe_put :: "upload_request \<Rightarrow> (string, nat) result"
  fe_get :: "string \<Rightarrow> (string, http_blob) result"
  fe_to_json :: "json_value \<Rightarrow> string"
  fe_temp_dir :: string
  fe_write :: "string \<Rightarrow> u8 list \<Rightarrow> (string, unit) result"

section \<open>Encryption\<close>

definition encrypt_file :: "file_env \<Rightarrow> u8 list \<Rightarrow> u8 list \<Rightarrow> (string, u8 list) result" where
  "encrypt_file fe bytes key =
     and_then (map_error (\<lambda>e. ''file encryption failed: '' @ e) (fe_seal fe key (fe_nonce fe) bytes)) (\<lambda>ciphertext.
       Inr (fe_nonce fe @ ciphertext))"

definition decrypt_file :: "file_env \<Rightarrow> u8 list \<Rightarrow> u8 list \<Rightarrow> (string, u8 list) result" where
  "decrypt_file fe encrypted key =
     (if length encrypted < 12 + 16
      then Inl (''encrypted data too short: '' @ nat_digits (length encrypted) @ '' bytes (minimum 28)'')
      else map_error (\<lambda>e. ''file decryption failed: '' @ e) (fe_unseal fe key (take 12 encrypted) (drop 12 encrypted)))"

section \<open>Blossom\<close>

definition max_blob_size :: nat where "max_blob_size = 25 * 1024 * 1024"

definition blossom_servers :: "string list" where
  "blossom_servers = [''https://blossom.primal.net'', ''https://blossom.band'', ''https://nostr.media'',
     ''https://blossom.sector01.com'', ''https://24242.io'', ''https://nosto.re'']"

definition is_success :: "nat \<Rightarrow> bool" where "is_success status \<longleftrightarrow> 200 \<le> status \<and> status < 300"

definition upload_auth ::
  "'k envelope_lib \<Rightarrow> file_env \<Rightarrow> u64 \<Rightarrow> (string, 'k) result \<Rightarrow> string \<Rightarrow> (string, string option) result" where
  "upload_auth lib fe now keys sha256 = (case keys of
      Inl e \<Rightarrow> Inr None
    | Inr k \<Rightarrow> and_then (el_finalize lib k (unsigned_event (el_pubkey lib k) now 24242
          [[''t'', ''upload''], [''x'', sha256], [''expiration'', nat_digits (unat (now + 600))]] (''Upload '' @ sha256)))
        (\<lambda>event. Inr (Some (''Nostr '' @ fe_base64 fe (el_to_json lib event)))))"

definition try_upload ::
  "'k envelope_lib \<Rightarrow> file_env \<Rightarrow> u64 \<Rightarrow> (string, 'k) result \<Rightarrow> u8 list \<Rightarrow> string \<Rightarrow> string \<Rightarrow> (string, string) result" where
  "try_upload lib fe now keys bytes mime_type server =
     (let sha256 = fe_sha256 fe bytes; url = server @ ''/'' @ sha256 in
      and_then (upload_auth lib fe now keys sha256) (\<lambda>auth.
      and_then (map_error (\<lambda>e. ''PUT '' @ url @ '' failed: '' @ e)
          (fe_put fe \<lparr>ur_url = url, ur_mime = mime_type, ur_auth = auth, ur_body = bytes\<rparr>)) (\<lambda>status.
        if is_success status then Inr url
        else Inl (''server returned '' @ nat_digits status @ '' for PUT '' @ url))))"

fun first_upload :: "(string \<Rightarrow> (string, string) result) \<Rightarrow> string list \<Rightarrow> string \<Rightarrow> (string, string) result" where
  "first_upload try_server [] last_err = Inl (''UploadFailed: all servers rejected upload '' @ em_dash @ '' last error: '' @ last_err)"
| "first_upload try_server (server # servers) last_err = (case try_server server of
      Inr url \<Rightarrow> Inr url
    | Inl e \<Rightarrow> first_upload try_server servers (server @ '': '' @ e))"

definition file_too_large :: "nat \<Rightarrow> string" where
  "file_too_large n = ''FileTooLarge: '' @ nat_digits n @ '' bytes exceeds 25 MB limit''"

definition upload_blob ::
  "'k envelope_lib \<Rightarrow> file_env \<Rightarrow> u64 \<Rightarrow> (string, 'k) result \<Rightarrow> u8 list \<Rightarrow> string \<Rightarrow> string option \<Rightarrow> (string, string) result" where
  "upload_blob lib fe now keys bytes mime_type server_url =
     (if length bytes > max_blob_size then Inl (file_too_large (length bytes))
      else first_upload (try_upload lib fe now keys bytes mime_type)
        (case server_url of Some url \<Rightarrow> [url] | None \<Rightarrow> blossom_servers) [])"

definition download_blob :: "file_env \<Rightarrow> string \<Rightarrow> (string, u8 list) result" where
  "download_blob fe url =
     (if url = [] then Inl ''DownloadFailed: URL must not be empty''
      else and_then (map_error (\<lambda>e. ''DownloadFailed: '' @ e) (fe_get fe url)) (\<lambda>response.
        if \<not> is_success (hb_status response) then Inl (''DownloadFailed: server returned '' @ nat_digits (hb_status response))
        else case hb_length response of
            Some len \<Rightarrow> if unat len > max_blob_size
              then Inl (''DownloadFailed: Content-Length '' @ nat_digits (unat len) @ '' exceeds 25 MB limit'')
              else and_then (map_error (\<lambda>e. ''DownloadFailed: reading body: '' @ e) (hb_body response)) (\<lambda>bytes.
                if length bytes > max_blob_size
                then Inl (''DownloadFailed: '' @ nat_digits (length bytes) @ '' bytes exceeds 25 MB limit'') else Inr bytes)
          | None \<Rightarrow> and_then (map_error (\<lambda>e. ''DownloadFailed: reading body: '' @ e) (hb_body response)) (\<lambda>bytes.
                if length bytes > max_blob_size
                then Inl (''DownloadFailed: '' @ nat_digits (length bytes) @ '' bytes exceeds 25 MB limit'') else Inr bytes)))"

section \<open>Sending\<close>

text \<open>The key of the file: the session's, or derived anew from the trade key and the peer.\<close>

definition file_key :: "('seed, 'x, 'k) attempt_env \<Rightarrow> string \<Rightarrow> session \<Rightarrow> 'k flow \<Rightarrow> (string, u8 list) result" where
  "file_key env unknown s fl = (case se_shared_key s of
      Some k \<Rightarrow> Inr k
    | None \<Rightarrow> and_then (get_active_trade_keys (ae_lib env) (se_trade_key_index s) (fl_identity fl)) (\<lambda>keys.
        case se_peer_pubkey s of
          None \<Rightarrow> Inl unknown
        | Some peer_hex \<Rightarrow> (case cr_parse_pubkey (ae_crypto env) peer_hex of
            None \<Rightarrow> Inl ''invalid peer pubkey''
          | Some peer \<Rightarrow> (case cr_shared_key (ae_crypto env) keys peer of
              None \<Rightarrow> Inl ''invalid secret scalar''
            | Some k \<Rightarrow> Inr k))))"

definition file_payload :: "file_env \<Rightarrow> string \<Rightarrow> string \<Rightarrow> string \<Rightarrow> u64 \<Rightarrow> string" where
  "file_payload fe url file_name mime_type file_size = fe_to_json fe (JObject
     [(''mime_type'', JString mime_type), (''name'', JString file_name), (''size'', JNumber (Some file_size)),
      (''type'', JString ''file''), (''url'', JString url)])"

definition report_progress :: "string \<Rightarrow> rat \<Rightarrow> 'k chat_desk \<Rightarrow> 'k chat_desk" where
  "report_progress i p d = d\<lparr>cd_progress := cd_progress d @ [(i, f64_of_rat p)]\<rparr>"

text \<open>The pointer is published if the peer is known; a failure leaves the message under its local identity.\<close>

definition publish_pointer ::
  "('seed, 'x, 'k) attempt_env \<Rightarrow> 'k chat_env \<Rightarrow> session \<Rightarrow> string \<Rightarrow> 'k chat_desk \<Rightarrow> (string \<times> i64) \<times> 'k chat_desk" where
  "publish_pointer env ce s payload d =
     (let local = (ce_uuid ce, u64_as_i64 (ce_now ce)) in
      case se_peer_pubkey s of
        None \<Rightarrow> (local, d)
      | Some peer_hex \<Rightarrow> (case chat_context env ce (se_trade_key_index s) peer_hex (cd_flow d) of
          Inl _ \<Rightarrow> (local, d)
        | Inr ctx \<Rightarrow> (case publish_chat_payload ce ctx payload of
            Inl _ \<Rightarrow> (local, d)
          | Inr (outer, inner, delivered) \<Rightarrow> ((ne_id inner, u64_as_i64 (ne_created_at inner)),
              d\<lparr>cd_sent := cd_sent d @ [outer],
                cd_wakes := cd_wakes d @ (case peer_to_wake delivered peer_hex of Some p \<Rightarrow> [p] | None \<Rightarrow> [])\<rparr>))))"

definition sent_file_message ::
  "string \<Rightarrow> string \<Rightarrow> string \<Rightarrow> string \<Rightarrow> string \<Rightarrow> string \<Rightarrow> u64 \<Rightarrow> i64 \<Rightarrow> chat_message" where
  "sent_file_message i trade_id sender url file_name mime_type file_size created_at =
     \<lparr>cm_id = i, cm_trade_id = trade_id, cm_sender_pubkey = sender, cm_content = url, cm_message_type = MsgPeer,
      cm_is_mine = True, cm_is_read = True, cm_has_attachment = True,
      cm_attachment = Some \<lparr>at_file_name = file_name, at_mime_type = mime_type, at_file_size = file_size,
        at_file_type = mime_to_file_type mime_type, at_download_status = DlDownloaded, at_local_path = None\<rparr>,
      cm_created_at = created_at\<rparr>"

definition send_file ::
  "('seed, 'x, 'k) attempt_env \<Rightarrow> 'k chat_env \<Rightarrow> file_env \<Rightarrow> string \<Rightarrow> u8 list \<Rightarrow> string \<Rightarrow> string \<Rightarrow> 'k chat_desk
     \<Rightarrow> (string, chat_message) result \<times> 'k chat_desk" where
  "send_file env ce fe trade_id file_bytes file_name mime_type d =
     (if str_trim trade_id = [] then (Inl ''TradeNotFound: trade_id must not be empty'', d)
      else if length file_bytes > max_blob_size then (Inl (file_too_large (length file_bytes)), d)
      else if \<not> is_supported_mime_type mime_type then (Inl (''UnsupportedFileType: '' @ mime_type), d)
      else (case session_or_rebuild env trade_id (cd_flow d) of
         (None, fl) \<Rightarrow> (Inl (''SessionNotFound: '' @ trade_id), d\<lparr>cd_flow := fl\<rparr>)
       | (Some s, fl) \<Rightarrow>
         let d1 = d\<lparr>cd_flow := fl\<rparr> in
         (case file_key env ''PeerUnknown: cannot encrypt attachment without peer pubkey'' s fl of
            Inl e \<Rightarrow> (Inl e, d1)
          | Inr key \<Rightarrow> (case encrypt_file fe file_bytes key of
              Inl e \<Rightarrow> (Inl (''FileEncryptionFailed: '' @ e), d1)
            | Inr encrypted \<Rightarrow>
              let d2 = report_progress (ce_uuid ce) (1 / 10) d1; file_size = of_nat (length file_bytes) in
              (case upload_blob (ce_lib ce) fe (ce_now ce) (get_active_keys (fl_identity fl)) encrypted mime_type None of
                 Inl e \<Rightarrow> (Inl (''UploadFailed: '' @ e), d2)
               | Inr url \<Rightarrow>
                 let d3 = report_progress (ce_uuid ce) 1 d2 in
                 (case get_active_trade_keys (ae_lib env) (se_trade_key_index s) (fl_identity fl) of
                    Inl e \<Rightarrow> (Inl e, d3)
                  | Inr keys \<Rightarrow>
                    let ((i, created_at), d4) = publish_pointer env ce s (file_payload fe url file_name mime_type file_size) d3;
                        m = sent_file_message i trade_id (el_pubkey (ce_lib ce) keys) url file_name mime_type file_size created_at
                    in (Inr m, d4\<lparr>cd_store := snd (add_message m (cd_store d4))\<rparr>)))))))"

section \<open>Downloading\<close>

definition path_join :: "string \<Rightarrow> string \<Rightarrow> string" where
  "path_join dir name = (if starts_with ''/'' name then name
     else if dir = [] \<or> last dir = CHR ''/'' then dir @ name else dir @ ''/'' @ name)"

definition persist_decrypted_attachment ::
  "file_env \<Rightarrow> string \<Rightarrow> string \<Rightarrow> u8 list \<Rightarrow> 'k chat_desk \<Rightarrow> (string, string) result \<times> 'k chat_desk" where
  "persist_decrypted_attachment fe message_id file_name content d =
     (let local_path = path_join (fe_temp_dir fe) (message_id @ ''_'' @ safe_filename file_name) in
      (case fe_write fe local_path content of
         Inl e \<Rightarrow> (Inl (''WriteFailed: '' @ e), d)
       | Inr _ \<Rightarrow> (Inr local_path, d\<lparr>cd_files := cd_files d @ [(local_path, content)]\<rparr>)))"

record file_download_result =
  fr_local_path :: string
  fr_file_name :: string
  fr_mime_type :: string
  fr_file_size :: u64

definition download_attachment ::
  "('seed, 'x, 'k) attempt_env \<Rightarrow> file_env \<Rightarrow> string \<Rightarrow> 'k chat_desk \<Rightarrow> (string, file_download_result) result \<times> 'k chat_desk" where
  "download_attachment env fe message_id d = (case find_message message_id (cd_store d) of
      None \<Rightarrow> (Inl (''AttachmentNotFound: message '' @ message_id), d)
    | Some m \<Rightarrow> (case cm_attachment m of
        None \<Rightarrow> (Inl ''AttachmentNotFound: message has no attachment'', d)
      | Some attachment \<Rightarrow>
        let url = cm_content m in
        if url = [] \<or> \<not> starts_with ''http://'' url \<and> \<not> starts_with ''https://'' url
        then (Inl ''AttachmentNotFound: message has no valid Blossom URL in content'', d)
        else (case session_or_rebuild env (cm_trade_id m) (cd_flow d) of
            (None, fl) \<Rightarrow> (Inl ''SessionNotFound: cannot decrypt attachment without session'', d\<lparr>cd_flow := fl\<rparr>)
          | (Some s, fl) \<Rightarrow>
            let d1 = d\<lparr>cd_flow := fl\<rparr> in
            (case file_key env ''PeerUnknown: cannot derive key without peer pubkey'' s fl of
               Inl e \<Rightarrow> (Inl e, d1)
             | Inr key \<Rightarrow>
               let d2 = report_progress message_id (1 / 10) d1 in
               (case download_blob fe url of
                  Inl e \<Rightarrow> (Inl (''DownloadFailed: '' @ e), d2)
                | Inr encrypted \<Rightarrow> (case decrypt_file fe encrypted key of
                    Inl e \<Rightarrow> (Inl (''DecryptionFailed: '' @ e), d2)
                  | Inr content \<Rightarrow> (case persist_decrypted_attachment fe message_id (at_file_name attachment) content d2 of
                      (Inl e, d3) \<Rightarrow> (Inl e, d3)
                    | (Inr path, d3) \<Rightarrow>
                      (Inr \<lparr>fr_local_path = path, fr_file_name = at_file_name attachment,
                            fr_mime_type = at_mime_type attachment, fr_file_size = of_nat (length content)\<rparr>,
                       (report_progress message_id 1 d3)\<lparr>cd_store := mark_downloaded message_id path (cd_store d3)\<rparr>))))))))"

section \<open>What is sent is what is downloaded\<close>

text \<open>
  What the crates document: the cipher adds a tag of 16 bytes and opens what it sealed, the nonce has 12,
  and a pointer that was written as JSON, its keys sorted, is read back as it was. \<open>serves\<close>: the
  receiver's requests find what the sender's put.
\<close>

definition file_pointer :: "string \<Rightarrow> string \<Rightarrow> string \<Rightarrow> u64 \<Rightarrow> json_value" where
  "file_pointer url name mime file_size = JObject [(''mime_type'', JString mime), (''name'', JString name),
     (''size'', JNumber (Some file_size)), (''type'', JString ''file''), (''url'', JString url)]"

definition file_laws :: "file_env \<Rightarrow> (string \<Rightarrow> json_value option) \<Rightarrow> bool" where
  "file_laws fe parse \<longleftrightarrow> length (fe_nonce fe) = 12 \<and>
     (\<forall>url name mime n. parse (fe_to_json fe (file_pointer url name mime n)) = Some (file_pointer url name mime n)) \<and>
     (\<forall>k n x c. fe_seal fe k n x = Inr c \<longrightarrow> length c = length x + 16)"

definition opens :: "file_env \<Rightarrow> file_env \<Rightarrow> bool" where
  "opens fe fe' \<longleftrightarrow> (\<forall>k n x c. fe_seal fe k n x = Inr c \<longrightarrow> fe_unseal fe' k n c = Inr x)"

definition serves :: "file_env \<Rightarrow> file_env \<Rightarrow> bool" where
  "serves fe fe' \<longleftrightarrow> (\<forall>r status. fe_put fe r = Inr status \<and> is_success status \<longrightarrow>
     (\<exists>len. fe_get fe' (ur_url r) = Inr \<lparr>hb_status = 200, hb_length = len, hb_body = Inr (ur_body r)\<rparr> \<and>
        len \<in> {None, Some (of_nat (length (ur_body r)))}))"

lemma uploaded:
  assumes "upload_blob lib fe now keys bytes mime url_opt = Inr url"
  shows "length bytes \<le> max_blob_size"
    "\<exists>server auth status. server \<in> set (case url_opt of Some u \<Rightarrow> [u] | None \<Rightarrow> blossom_servers) \<and> url = server @ ''/'' @ fe_sha256 fe bytes \<and>
       fe_put fe \<lparr>ur_url = url, ur_mime = mime, ur_auth = auth, ur_body = bytes\<rparr> = Inr status \<and> is_success status"
proof -
  have first: "\<exists>server \<in> set servers. t server = Inr url" if "first_upload t servers e = Inr url" for t servers e
    using that by (induction t servers e rule: first_upload.induct) (auto split: sum.splits)
  show "length bytes \<le> max_blob_size" using assms by (simp add: upload_blob_def split: if_splits)
  from assms first obtain server where s: "server \<in> set (case url_opt of Some u \<Rightarrow> [u] | None \<Rightarrow> blossom_servers)"
    "try_upload lib fe now keys bytes mime server = Inr url"
    unfolding upload_blob_def by (metis sum.distinct(1))
  from s(2) have "\<exists>auth status. url = server @ ''/'' @ fe_sha256 fe bytes \<and>
      fe_put fe \<lparr>ur_url = url, ur_mime = mime, ur_auth = auth, ur_body = bytes\<rparr> = Inr status \<and> is_success status"
    by (auto simp: try_upload_def Let_def and_then_Inr_iff split: if_splits)
  with s(1) show "\<exists>server auth status. server \<in> set (case url_opt of Some u \<Rightarrow> [u] | None \<Rightarrow> blossom_servers) \<and>
      url = server @ ''/'' @ fe_sha256 fe bytes \<and>
      fe_put fe \<lparr>ur_url = url, ur_mime = mime, ur_auth = auth, ur_body = bytes\<rparr> = Inr status \<and> is_success status" by blast
qed

lemma served:
  assumes "serves fe fe'" "upload_blob lib fe now keys bytes mime url_opt = Inr url" "url \<noteq> []"
  shows "download_blob fe' url = Inr bytes"
proof -
  from uploaded(2) [OF assms(2)] obtain auth status where
    p: "fe_put fe \<lparr>ur_url = url, ur_mime = mime, ur_auth = auth, ur_body = bytes\<rparr> = Inr status" "is_success status" by blast
  from assms(1) [unfolded serves_def, rule_format, OF conjI [OF p]] obtain len
    where g: "fe_get fe' url = Inr \<lparr>hb_status = 200, hb_length = len, hb_body = Inr bytes\<rparr>"
      "len \<in> {None, Some (of_nat (length bytes))}" by auto
  have n: "length bytes \<le> max_blob_size" using uploaded(1) [OF assms(2)] .
  then have "unat (of_nat (length bytes) :: u64) = length bytes"
    by (simp add: max_blob_size_def unat_of_nat take_bit_nat_eq_self)
  then show ?thesis using g n assms(3)
    by (auto simp: download_blob_def is_success_def map_error_def and_then_def)
qed

lemma opened:
  assumes "length (fe_nonce fe) = 12" "\<And>c. fe_seal fe key (fe_nonce fe) bytes = Inr c \<Longrightarrow> length c = length bytes + 16"
    "opens fe fe'" "encrypt_file fe bytes key = Inr encrypted"
  shows "decrypt_file fe' encrypted key = Inr bytes" "length encrypted = length bytes + 28"
proof -
  from assms(4) obtain c where c: "fe_seal fe key (fe_nonce fe) bytes = Inr c" "encrypted = fe_nonce fe @ c"
    by (auto simp: encrypt_file_def and_then_Inr_iff)
  then show "decrypt_file fe' encrypted key = Inr bytes" "length encrypted = length bytes + 28"
    using assms(1,3) assms(2) [OF c(1)] by (simp_all add: decrypt_file_def opens_def map_error_def)
qed

lemma server_url: "server \<in> set blossom_servers \<Longrightarrow> starts_with ''https://'' (server @ rest)"
  by (auto simp: blossom_servers_def starts_with_def)

lemma pointer_is_read:
  assumes "file_laws fe parse"
  shows "parse_chat_payload parse (file_payload fe url name mime si) = (url, Some
     \<lparr>at_file_name = name, at_mime_type = mime, at_file_size = si, at_file_type = mime_to_file_type mime,
      at_download_status = DlPending, at_local_path = None\<rparr>)"
proof -
  have "parse (file_payload fe url name mime si) = Some (file_pointer url name mime si)"
    using assms by (simp add: file_laws_def file_payload_def flip: file_pointer_def)
  then show ?thesis
    by (simp add: parse_chat_payload_def file_pointer_def json_get_def json_str_def json_as_u64_def)
qed

text \<open>The session knows its peer, and its secret, where it keeps one, is the one its trade key has with that peer.\<close>

definition holds_secret :: "('seed, 'x, 'k) attempt_env \<Rightarrow> session \<Rightarrow> 'k flow \<Rightarrow> u8 list \<Rightarrow> bool" where
  "holds_secret env s fl k \<longleftrightarrow> se_shared_key s \<in> {None, Some k} \<and>
     (case get_active_trade_keys (ae_lib env) (se_trade_key_index s) (fl_identity fl) of Inl _ \<Rightarrow> False
      | Inr keys \<Rightarrow> Option.bind (Option.bind (se_peer_pubkey s) (cr_parse_pubkey (ae_crypto env)))
          (cr_shared_key (ae_crypto env) keys) = Some k)"

lemma secret_file_key: "holds_secret env s fl k \<Longrightarrow> file_key env e s fl = Inr k"
  by (auto simp: holds_secret_def file_key_def and_then_def split: sum.splits option.splits)

lemma file_sent:
  assumes "send_file env ce fe trade_id bytes name mime d = (Inr m, d1)"
  obtains s fl key encrypted where "session_or_rebuild env trade_id (cd_flow d) = (Some s, fl)"
    "file_key env ''PeerUnknown: cannot encrypt attachment without peer pubkey'' s fl = Inr key"
    "encrypt_file fe bytes key = Inr encrypted"
    "upload_blob (ce_lib ce) fe (ce_now ce) (get_active_keys (fl_identity fl)) encrypted mime None = Inr (cm_content m)"
proof -
  obtain so fl where s: "session_or_rebuild env trade_id (cd_flow d) = (so, fl)" by fastforce
  have *: "cm_content (sent_file_message i t se u n mi si cr) = u" for i t se u n mi si cr by (simp add: sent_file_message_def)
  show thesis using assms that s
    by (cases so) (auto simp: send_file_def s Let_def * split: if_splits sum.splits prod.splits)
qed

text \<open>
  C20: The file downloaded is the file sent. The sender's \<open>send_file\<close> succeeded; the receiver's message is
  what its listener made of an event with the pointer as its content; both sessions hold the secret of
  their trade key with their peer, and the two secrets agree (what a Diffie-Hellman exchange promises of
  a pair of keys); the blob is served where it was put and the disk takes the file. Then the download
  decrypts to the very bytes, writes them under a path of its directory and reports the name, type and
  size the sender gave, whichever of the servers took the blob.
\<close>

theorem sent_file_is_downloaded:
  assumes laws: "file_laws fe parse" "opens fe fe'" "serves fe fe'" "\<And>p x. fe_write fe' p x = Inr ()"
    and sent: "send_file env ce fe trade_id bytes name mime d = (Inr m, d1)"
    and key: "\<And>s fl. session_or_rebuild env trade_id (cd_flow d) = (Some s, fl) \<Longrightarrow> holds_secret env s fl k"
    and received: "find_message i (cd_store e) = Some (received_message cv parse inner)"
        "ne_content inner = file_payload fe (cm_content m) name mime (of_nat (length bytes))"
    and session: "session_or_rebuild env' (cv_order_id cv) (cd_flow e) = (Some s', fl')" "holds_secret env' s' fl' k"
  shows "\<exists>path. fst (download_attachment env' fe' i e) = Inr \<lparr>fr_local_path = path, fr_file_name = name, fr_mime_type = mime,
        fr_file_size = of_nat (length bytes)\<rparr> \<and>
      cd_files (snd (download_attachment env' fe' i e)) = cd_files e @ [(path, bytes)]"
proof -
  from file_sent [OF sent] obtain s fl key' encrypted where f: "session_or_rebuild env trade_id (cd_flow d) = (Some s, fl)"
    "file_key env ''PeerUnknown: cannot encrypt attachment without peer pubkey'' s fl = Inr key'"
    "encrypt_file fe bytes key' = Inr encrypted"
    "upload_blob (ce_lib ce) fe (ce_now ce) (get_active_keys (fl_identity fl)) encrypted mime None = Inr (cm_content m)" .
  have k: "key' = k" using f(2) secret_file_key [OF key [OF f(1)]] by simp
  from uploaded(2) [OF f(4)] obtain server rest where u: "server \<in> set blossom_servers" "cm_content m = server @ rest" by auto
  then have https: "starts_with ''https://'' (cm_content m)" using server_url by simp
  then have ne: "cm_content m \<noteq> []" by (auto simp: starts_with_def)
  define r where "r = received_message cv parse inner"
  have r: "find_message i (cd_store e) = Some r" "cm_trade_id r = cv_order_id cv"
    "cm_content r = cm_content m" "cm_attachment r = Some \<lparr>at_file_name = name, at_mime_type = mime,
      at_file_size = of_nat (length bytes), at_file_type = mime_to_file_type mime, at_download_status = DlPending,
      at_local_path = None\<rparr>"
    using received by (simp_all add: r_def received_message_def pointer_is_read [OF laws(1)] Let_def)
  have x: "download_blob fe' (cm_content m) = Inr encrypted" by (rule served [OF laws(3) f(4) ne])
  have y: "decrypt_file fe' encrypted k = Inr bytes"
    using opened(1) [OF _ _ laws(2) f(3)] laws(1) k by (simp add: file_laws_def)
  show ?thesis
    by (simp add: download_attachment_def r https ne session(1) secret_file_key [OF session(2)] x y
        persist_decrypted_attachment_def laws(4) report_progress_def Let_def)
qed

text \<open>The check of the size is on the plain bytes, that of the upload on the 28 bytes more of the sealed ones.\<close>

lemma largest_files_are_refused:
  assumes "file_laws fe parse" "max_blob_size - 28 < length bytes" "length bytes \<le> max_blob_size"
  shows "\<exists>e. fst (send_file env ce fe trade_id bytes name mime d) = Inl e"
proof (cases "fst (send_file env ce fe trade_id bytes name mime d)")
  case (Inr m)
  then obtain d1 where "send_file env ce fe trade_id bytes name mime d = (Inr m, d1)" by (metis prod.collapse)
  from file_sent [OF this] obtain s fl key encrypted where f: "session_or_rebuild env trade_id (cd_flow d) = (Some s, fl)"
    "file_key env ''PeerUnknown: cannot encrypt attachment without peer pubkey'' s fl = Inr key"
    "encrypt_file fe bytes key = Inr encrypted"
    "upload_blob (ce_lib ce) fe (ce_now ce) (get_active_keys (fl_identity fl)) encrypted mime None = Inr (cm_content m)" .
  from f(3) assms(1) have "length encrypted = length bytes + 28"
    by (auto simp: encrypt_file_def and_then_Inr_iff file_laws_def)
  then show ?thesis using uploaded(1) [OF f(4)] assms(2) by simp
qed simp

section \<open>An instance\<close>

instance json_value :: countable
  by countable_datatype

definition code_json :: "json_value \<Rightarrow> string" where "code_json v = replicate (to_nat v) (CHR ''x'')"

definition decode_json :: "string \<Rightarrow> json_value option" where "decode_json s = Some (from_nat (length s))"

definition sample_blob :: "u8 list" where "sample_blob = replicate 12 0 @ [1, 2, 3] @ replicate 16 0"

definition sample_files :: file_env where
  "sample_files = \<lparr>fe_seal = (\<lambda>k n x. Inr (x @ replicate 16 0)), fe_unseal = (\<lambda>k n c. Inr (take (length c - 16) c)),
     fe_nonce = replicate 12 0, fe_sha256 = (\<lambda>_. ''h''), fe_base64 = (\<lambda>s. s),
     fe_put = (\<lambda>r. Inr (if ur_body r = sample_blob then 201 else 500)),
     fe_get = (\<lambda>_. Inr \<lparr>hb_status = 200, hb_length = None, hb_body = Inr sample_blob\<rparr>), fe_to_json = code_json,
     fe_temp_dir = ''/tmp'', fe_write = (\<lambda>_ _. Inr ())\<rparr>"

definition sample_chat_env :: "string chat_env" where
  "sample_chat_env = \<lparr>ce_lib = sample_envelope_lib, ce_derive = (\<lambda>_ _. Inl ''none''), ce_pow = 0, ce_nonce = ''n'', ce_now = 100,
     ce_pool = False, ce_send = (\<lambda>_. Inl ''off''), ce_uuid = ''m''\<rparr>"

definition file_world :: world where
  "file_world = (sample_world2 (sample_db [] []))\<lparr>w_sessions :=
     fmupd ''t'' ((new_session ''t'' Buyer 0 demo_order 1)\<lparr>se_shared_key := Some [7], se_peer_pubkey := Some ''alice''\<rparr>) fmempty\<rparr>"

definition file_desk :: "chat_message list \<Rightarrow> string chat_desk" where
  "file_desk ms = \<lparr>cd_flow = sample_flow file_world, cd_store = sample_chat_store\<lparr>cs_messages := fmupd ''t'' ms fmempty\<rparr>, cd_sent = [],
     cd_wakes = [], cd_progress = [], cd_files = []\<rparr>"

definition file_note :: "string \<Rightarrow> nostr_event" where
  "file_note url = (unsigned_event ''alice'' 100 text_note [] (file_payload sample_files url ''a.png'' ''image/png'' 3))\<lparr>ne_id := ''i''\<rparr>"

lemma file_session:
  "session_or_rebuild (sample_attempt (\<lambda>w. w)) ''t'' (cd_flow (file_desk ms)) =
     (Some ((new_session ''t'' Buyer 0 demo_order 1)\<lparr>se_shared_key := Some [7], se_peer_pubkey := Some ''alice''\<rparr>), cd_flow (file_desk ms))"
  by (simp add: session_or_rebuild_def file_desk_def sample_flow_def file_world_def get_session_def)

lemma file_secret:
  "holds_secret (sample_attempt (\<lambda>w. w)) ((new_session ''t'' Buyer 0 demo_order 1)\<lparr>se_shared_key := Some [7], se_peer_pubkey := Some ''alice''\<rparr>)
     (cd_flow (file_desk ms)) [7]"
  by (simp add: holds_secret_def new_session_def get_active_trade_keys_def file_desk_def sample_flow_def sample_crypto_def)

lemmas file_key_sample = secret_file_key [OF file_secret]

lemma sample_file_laws: "file_laws sample_files decode_json" "opens sample_files sample_files" "serves sample_files sample_files"
  "fe_write sample_files p x = Inr ()"
  by (auto simp: file_laws_def opens_def serves_def sample_files_def code_json_def decode_json_def is_success_def split: if_splits)

lemma sample_file_sent:
  "\<exists>m d1. send_file (sample_attempt (\<lambda>w. w)) sample_chat_env sample_files ''t'' [1, 2, 3] ''a.png'' ''image/png'' (file_desk []) = (Inr m, d1)"
proof -
  have u: "upload_blob (ce_lib sample_chat_env) sample_files (ce_now sample_chat_env) keys sample_blob ''image/png'' None =
      Inr ''https://blossom.primal.net/h''" for keys
    by (cases keys) (simp_all add: upload_blob_def blossom_servers_def try_upload_def upload_auth_def sample_files_def sample_blob_def
        max_blob_size_def sample_envelope_lib_def sample_chat_env_def is_success_def map_error_def and_then_def)
  have e: "encrypt_file sample_files [1, 2, 3] [7] = Inr sample_blob"
    by (simp add: encrypt_file_def sample_files_def sample_blob_def and_then_def map_error_def)
  have k: "get_active_trade_keys flow_lib 0 (fl_identity (cd_flow (file_desk []))) = Inr ''id''"
    by (simp add: get_active_trade_keys_def file_desk_def sample_flow_def)
  have t: "str_trim ''t'' \<noteq> []" "is_supported_mime_type ''image/png''" by code_simp+
  have i: "se_trade_key_index ((new_session ''t'' Buyer 0 demo_order 1)\<lparr>se_shared_key := Some [7], se_peer_pubkey := Some ''alice''\<rparr>) = 0"
    by (simp add: new_session_def)
  show ?thesis
    using t by (simp add: send_file_def file_session file_key_sample max_blob_size_def i u e k Let_def split_beta)
qed

theorem sent_file_is_downloaded_witness:
  "\<exists>m d1 path. send_file (sample_attempt (\<lambda>w. w)) sample_chat_env sample_files ''t'' [1, 2, 3] ''a.png'' ''image/png'' (file_desk []) =
      (Inr m, d1) \<and>
     cd_files (snd (download_attachment (sample_attempt (\<lambda>w. w)) sample_files ''i''
        (file_desk [received_message sample_conversation decode_json (file_note (cm_content m))]))) = [(path, [1, 2, 3])]"
proof -
  obtain m d1 where s: "send_file (sample_attempt (\<lambda>w. w)) sample_chat_env sample_files ''t'' [1, 2, 3] ''a.png'' ''image/png''
      (file_desk []) = (Inr m, d1)" using sample_file_sent by blast
  let ?r = "received_message sample_conversation decode_json (file_note (cm_content m))"
  have f: "find_message ''i'' (cd_store (file_desk [?r])) = Some ?r"
    by (simp add: find_message_def file_desk_def all_cached_def cached_def file_note_def sorted_list_of_fset.rep_eq)
  have p: "ne_content (file_note (cm_content m)) =
      file_payload sample_files (cm_content m) ''a.png'' ''image/png'' (of_nat (length [1, 2, 3 :: u8]))"
    by (simp add: file_note_def unsigned_event_def)
  have t: "cv_order_id sample_conversation = ''t''" by (simp add: sample_conversation_def)
  have "\<exists>path. fst (download_attachment (sample_attempt (\<lambda>w. w)) sample_files ''i'' (file_desk [?r])) =
        Inr \<lparr>fr_local_path = path, fr_file_name = ''a.png'', fr_mime_type = ''image/png'', fr_file_size = of_nat (length [1, 2, 3 :: u8])\<rparr> \<and>
      cd_files (snd (download_attachment (sample_attempt (\<lambda>w. w)) sample_files ''i'' (file_desk [?r]))) =
        cd_files (file_desk [?r]) @ [(path, [1, 2, 3])]"
    by (rule sent_file_is_downloaded [OF sample_file_laws s _ f p, where k = "[7]"])
      (use t file_session file_secret in \<open>auto\<close>)
  then show ?thesis using s by (auto simp: file_desk_def)
qed

end
