(* ===== verification/Node_Stats.thy ===== *)
theory Node_Stats
  imports Public_Orders Escrow_Mode
begin

text \<open>
  What the node selector shows of each node (\<open>rust/src/api/node_stats.rs\<close>): its settings from the newest kind
  38385 event, cached between starts, and its open orders counted from kind 38383 events.

  Hash maps are \<open>fmap\<close>s; where one is turned into a list the source leaves the order open, the model takes
  that of the keys or of insertion, and the result does not depend on it. The cache is stored as its
  value, or as corrupt JSON.
\<close>

section \<open>Rows\<close>

record fiat_order_count =
  fc_fiat_code :: string
  fc_count :: u32

record node_stats =
  sn_pubkey :: string
  sn_info_seen_at :: "i64 option"
  sn_latest_order_at :: "i64 option"
  sn_fee_pct :: "f64 option"
  sn_min_order_amount :: "u64 option"
  sn_max_order_amount :: "u64 option"
  sn_accepted_currencies :: "string list"
  sn_escrow_mode :: string
  sn_cashu_mint_url :: "string option"
  sn_bond :: bond_policy_info
  sn_bond_required :: "bool option"
  sn_bond_pct :: "f64 option"
  sn_orders_by_fiat :: "fiat_order_count list"
  sn_total_orders :: u32

definition empty_stats :: "string \<Rightarrow> node_stats" where
  "empty_stats pubkey = \<lparr>sn_pubkey = pubkey, sn_info_seen_at = None, sn_latest_order_at = None, sn_fee_pct = None,
     sn_min_order_amount = None, sn_max_order_amount = None, sn_accepted_currencies = [],
     sn_escrow_mode = as_marker EMUnknown, sn_cashu_mint_url = None, sn_bond = default_bond_policy BPUnsupported, sn_bond_required = None,
     sn_bond_pct = None, sn_orders_by_fiat = [], sn_total_orders = 0\<rparr>"

definition trimmed_tag :: "tag_list \<Rightarrow> string \<Rightarrow> string option" where
  "trimmed_tag tags name = opt_filter (\<lambda>v. v \<noteq> []) (map_option str_trim (tag_value tags name))"

definition to_ascii_uppercase :: "string \<Rightarrow> string" where
  "to_ascii_uppercase s = map ascii_upper_char s"

definition parse_accepted_currencies :: "string option \<Rightarrow> string list" where
  "parse_accepted_currencies raw =
     fold (\<lambda>piece out. let code = to_ascii_uppercase (str_trim piece) in
         if code \<noteq> [] \<and> code \<notin> set out then out @ [code] else out)
       (split_on (CHR '','') (case raw of Some s \<Rightarrow> s | None \<Rightarrow> [])) []"

definition fraction_to_pct :: "string option \<Rightarrow> f64 option" where
  "fraction_to_pct raw = map_option (\<lambda>v. f64_mul v (F64_fin 100))
     (opt_filter (\<lambda>v. f64_is_finite v \<and> f64_le (F64_fin 0) v) (Option.bind raw parse_f64))"

definition apply_info_tags :: "tag_list \<Rightarrow> i64 \<Rightarrow> node_stats \<Rightarrow> node_stats" where
  "apply_info_tags tags seen_at stats =
     (let (mode, cashu) = escrow_parse_tags tags; bond = bond_parse_tags tags in
      stats\<lparr>sn_info_seen_at := Some seen_at,
        sn_fee_pct := fraction_to_pct (trimmed_tag tags ''fee''),
        sn_min_order_amount := Option.bind (trimmed_tag tags ''min_order_amount'') parse_u64,
        sn_max_order_amount := Option.bind (trimmed_tag tags ''max_order_amount'') parse_u64,
        sn_accepted_currencies := parse_accepted_currencies (trimmed_tag tags ''fiat_currencies_accepted''),
        sn_escrow_mode := as_marker mode,
        sn_cashu_mint_url := (if is_cashu mode then cn_mint_url cashu else None),
        sn_bond := bond,
        sn_bond_required := (case bp_policy bond of BPUnsupported \<Rightarrow> None | BPDisabled \<Rightarrow> Some False | BPEnabled \<Rightarrow> Some True),
        sn_bond_pct := map_option (\<lambda>f. f64_mul f (F64_fin 100)) (bp_amount_pct bond)\<rparr>)"

section \<open>Open orders\<close>

definition same_order :: "order_info \<Rightarrow> order_info \<Rightarrow> bool" where
  "same_order a b \<longleftrightarrow> oi_creator_pubkey a = oi_creator_pubkey b \<and> oi_id a = oi_id b"

definition put_latest :: "order_info \<Rightarrow> order_info list \<Rightarrow> order_info list" where
  "put_latest order latest = (case find (same_order order) latest of
      None \<Rightarrow> latest @ [order]
    | Some existing \<Rightarrow> if oi_created_at existing \<ge> oi_created_at order then latest
        else map (\<lambda>x. if same_order order x then order else x) latest)"

definition dedup_latest :: "order_info list \<Rightarrow> order_info list" where
  "dedup_latest orders = fold put_latest orders []"

definition is_open :: "order_info \<Rightarrow> i64 \<Rightarrow> bool" where
  "is_open order now \<longleftrightarrow> oi_status order = Pending \<and> (case oi_expires_at order of None \<Rightarrow> True | Some e \<Rightarrow> e > now)"

type_synonym node_liquidity = "(string, u32) fmap \<times> i64 option"

definition count_order :: "order_info \<Rightarrow> node_liquidity \<Rightarrow> node_liquidity" where
  "count_order order l = (case l of (by_fiat, latest) \<Rightarrow>
     (let code = to_ascii_uppercase (oi_fiat_code order) in
      (fmupd code ((case fmlookup by_fiat code of Some n \<Rightarrow> n | None \<Rightarrow> 0) + 1) by_fiat,
       Some (case latest of Some t \<Rightarrow> max t (oi_created_at order) | None \<Rightarrow> oi_created_at order))))"

definition liquidity_of :: "(string, node_liquidity) fmap \<Rightarrow> string \<Rightarrow> node_liquidity" where
  "liquidity_of per_node p = (case fmlookup per_node p of Some l \<Rightarrow> l | None \<Rightarrow> (fmempty, None))"

definition count_open_orders :: "order_info list \<Rightarrow> i64 \<Rightarrow> (string, node_liquidity) fmap" where
  "count_open_orders orders now =
     fold (\<lambda>order per_node. if is_open order now
         then fmupd (oi_creator_pubkey order) (count_order order (liquidity_of per_node (oi_creator_pubkey order))) per_node
         else per_node)
       (dedup_latest orders) fmempty"

definition apply_order_counts :: "node_liquidity \<Rightarrow> node_stats \<Rightarrow> node_stats" where
  "apply_order_counts l stats = (case l of (by_fiat, latest) \<Rightarrow>
     (let codes = sorted_list_of_fset (fmdom by_fiat); count = (\<lambda>c. case fmlookup by_fiat c of Some n \<Rightarrow> n | None \<Rightarrow> 0) in
      stats\<lparr>sn_total_orders := sum_list (map count codes),
        sn_orders_by_fiat := map (\<lambda>c. \<lparr>fc_fiat_code = c, fc_count = count c\<rparr>) codes,
        sn_latest_order_at := latest\<rparr>))"

section \<open>The settings of a node and their cache\<close>

record cached_node_info =
  ci_created_at :: i64
  ci_event_id :: "string option"
  ci_tags :: tag_list

definition supersedes :: "cached_node_info \<Rightarrow> cached_node_info \<Rightarrow> bool" where
  "supersedes info held \<longleftrightarrow>
     (if ci_created_at info > ci_created_at held then True
      else if ci_created_at info < ci_created_at held then False
      else (case (ci_event_id info, ci_event_id held) of
          (Some i, Some h) \<Rightarrow> i < h | (Some _, None) \<Rightarrow> True | (None, _) \<Rightarrow> False))"

text \<open>A kind 38385 event, whose signature the relay client has checked.\<close>

record info_event =
  ev_id :: string
  ev_pubkey :: string
  ev_created_at :: u64
  ev_tags :: tag_list

definition info_of :: "info_event \<Rightarrow> cached_node_info" where
  "info_of e = \<lparr>ci_created_at = i64_wrap (uint (ev_created_at e)), ci_event_id = Some (ev_id e), ci_tags = ev_tags e\<rparr>"

definition put_newest :: "string \<Rightarrow> cached_node_info \<Rightarrow> (string, cached_node_info) fmap \<Rightarrow> (string, cached_node_info) fmap" where
  "put_newest p info m = (case fmlookup m p of
      Some prev \<Rightarrow> if \<not> supersedes info prev then m else fmupd p info m
    | None \<Rightarrow> fmupd p info m)"

definition newest_info :: "string list \<Rightarrow> info_event list \<Rightarrow> (string, cached_node_info) fmap" where
  "newest_info pubkeys events =
     fold (\<lambda>e m. if ev_pubkey e \<notin> set pubkeys then m
         else if trimmed_tag (ev_tags e) ''d'' \<noteq> Some (ev_pubkey e) then m
         else put_newest (ev_pubkey e) (info_of e) m)
       events fmempty"

definition merge_info ::
  "(string, cached_node_info) fmap \<Rightarrow> (string, cached_node_info) fmap \<Rightarrow> bool \<times> (string, cached_node_info) fmap" where
  "merge_info fresh cache =
     fold (\<lambda>p (changed, c). case fmlookup fresh p of
         None \<Rightarrow> (changed, c)
       | Some info \<Rightarrow> (case fmlookup c p of
           Some prev \<Rightarrow> if \<not> supersedes info prev then (changed, c) else (True, fmupd p info c)
         | None \<Rightarrow> (True, fmupd p info c)))
       (sorted_list_of_fset (fmdom fresh)) (False, cache)"

definition rows_from_cache :: "string list \<Rightarrow> (string, cached_node_info) fmap \<Rightarrow> node_stats list" where
  "rows_from_cache pubkeys cache = map (\<lambda>p. case fmlookup cache p of
      Some info \<Rightarrow> apply_info_tags (ci_tags info) (ci_created_at info) (empty_stats p)
    | None \<Rightarrow> empty_stats p) pubkeys"

text \<open>The index of a key is its last place: a later duplicate takes it over.\<close>

definition row_index :: "string list \<Rightarrow> string \<Rightarrow> nat option" where
  "row_index pubkeys p = fold (\<lambda>i found. if pubkeys ! i = p then Some i else found) [0 ..< length pubkeys] None"

definition update_row :: "string list \<Rightarrow> string \<Rightarrow> (node_stats \<Rightarrow> node_stats) \<Rightarrow> node_stats list \<Rightarrow> node_stats list" where
  "update_row pubkeys p f rows = (case row_index pubkeys p of None \<Rightarrow> rows | Some i \<Rightarrow> rows[i := f (rows ! i)])"

definition summarize_stats ::
  "(string \<Rightarrow> json option) \<Rightarrow> string list \<Rightarrow> info_event list \<Rightarrow> order_event list \<Rightarrow> i64 \<Rightarrow> node_stats list" where
  "summarize_stats from_str pubkeys info_events order_events now =
     (let newest = newest_info pubkeys info_events;
          rows = fold (\<lambda>p. case fmlookup newest p of
              Some info \<Rightarrow> update_row pubkeys p (apply_info_tags (ci_tags info) (ci_created_at info)) | None \<Rightarrow> (\<lambda>rows. rows))
            (sorted_list_of_fset (fmdom newest)) (map empty_stats pubkeys);
          liquidity = count_open_orders (List.map_filter (parse_order_event from_str) order_events) now
      in fold (\<lambda>p. update_row pubkeys p (apply_order_counts (liquidity_of liquidity p)))
           (sorted_list_of_fset (fmdom liquidity)) rows)"

section \<open>The stored cache\<close>

datatype 'a blob = Missing | Corrupt | Stored 'a

text \<open>\<open>None\<close>: no store is open. \<open>is_reads\<close> and \<open>is_writes\<close> say whether its statements work.\<close>

record info_store =
  is_cache :: "(string, cached_node_info) fmap blob option"
  is_reads :: bool
  is_writes :: bool

definition stats_db_error :: string where "stats_db_error = ''database error''"

definition blob_value :: "(string, 'v) fmap blob \<Rightarrow> (string, 'v) fmap" where
  "blob_value b = (case b of Stored m \<Rightarrow> m | _ \<Rightarrow> fmempty)"

definition load_info_cache :: "info_store \<Rightarrow> (string, (string, cached_node_info) fmap) result" where
  "load_info_cache s = (case is_cache s of
      None \<Rightarrow> Inr fmempty
    | Some b \<Rightarrow> if \<not> is_reads s then Inl stats_db_error else Inr (blob_value b))"

definition store_info_best_effort ::
  "(string, cached_node_info) fmap \<Rightarrow> string list option \<Rightarrow> info_store \<Rightarrow> info_store" where
  "store_info_best_effort fresh keep s = (if is_cache s = None then s
     else case load_info_cache s of
       Inl _ \<Rightarrow> s
     | Inr cache \<Rightarrow>
         let (changed, merged) = merge_info fresh cache;
             kept = (case keep of None \<Rightarrow> merged | Some ps \<Rightarrow> fmfilter (\<lambda>p. p \<in> set ps) merged);
             dirty = changed \<or> size (fmdom kept) \<noteq> size (fmdom merged)
         in if dirty \<and> is_writes s then s\<lparr>is_cache := Some (Stored kept)\<rparr> else s)"

definition normalize_pubkeys :: "string list \<Rightarrow> string list" where
  "normalize_pubkeys pubkeys = map (\<lambda>p. to_ascii_lowercase (str_trim p)) pubkeys"

definition cached_mostro_node_stats :: "string list \<Rightarrow> info_store \<Rightarrow> (string, node_stats list) result" where
  "cached_mostro_node_stats pubkeys s =
     and_then (load_info_cache s) (\<lambda>cache. Inr (rows_from_cache (normalize_pubkeys pubkeys) cache))"

text \<open>
  The two downloads. A query is its events or its error; \<open>parse\<close> is the reading of a hexadecimal key. The
  registry is listed before and after the round trip.
\<close>

definition parse_authors :: "(string \<Rightarrow> string option) \<Rightarrow> string list \<Rightarrow> (string, string list) result" where
  "parse_authors parse pubkeys = (if \<exists>p \<in> set pubkeys. parse p = None then Inl ''InvalidPubkey''
     else Inr (List.map_filter parse pubkeys))"

definition refresh_mostro_node_info_cache ::
  "(string \<Rightarrow> string option) \<Rightarrow> (string, string list) result \<Rightarrow> bool \<Rightarrow> (string, info_event list) result
     \<Rightarrow> (string, string list) result \<Rightarrow> info_store \<Rightarrow> (string, unit) result \<times> info_store" where
  "refresh_mostro_node_info_cache parse listed pool answer listed_after s =
     (case and_then listed (\<lambda>pubkeys. and_then (parse_authors parse pubkeys) (\<lambda>_. Inr pubkeys)) of
        Inl e \<Rightarrow> (Inl e, s)
      | Inr pubkeys \<Rightarrow>
          if \<not> pool then (Inl ''relay pool not initialized'', s)
          else (case answer of
              Inl e \<Rightarrow> (Inl (''fetch_events (38385) failed: '' @ e), s)
            | Inr events \<Rightarrow> (Inr (), store_info_best_effort (newest_info pubkeys events)
                (Some (case listed_after of Inr ps \<Rightarrow> ps | Inl _ \<Rightarrow> pubkeys)) s)))"

definition fetch_mostro_node_stats ::
  "(string \<Rightarrow> json option) \<Rightarrow> (string \<Rightarrow> string option) \<Rightarrow> bool \<Rightarrow> (string, info_event list) result
     \<Rightarrow> (string, order_event list) result \<Rightarrow> (string, order_event list) result \<Rightarrow> i64 \<Rightarrow> string list \<Rightarrow> info_store
     \<Rightarrow> (string, node_stats list) result \<times> info_store" where
  "fetch_mostro_node_stats from_str parse pool info pending recent now requested s =
     (let pubkeys = normalize_pubkeys requested in
      if pubkeys = [] then (Inr [], s)
      else (case parse_authors parse pubkeys of
          Inl e \<Rightarrow> (Inl e, s)
        | Inr _ \<Rightarrow> if \<not> pool then (Inl ''relay pool not initialized'', s)
          else (case (info, pending, recent) of
              (Inl e, _) \<Rightarrow> (Inl (''fetch_events (38385) failed: '' @ e), s)
            | (_, Inl e, _) \<Rightarrow> (Inl (''fetch_events (38383 pending) failed: '' @ e), s)
            | (_, _, Inl e) \<Rightarrow> (Inl (''fetch_events (38383 recent) failed: '' @ e), s)
            | (Inr i, Inr p, Inr r) \<Rightarrow>
                (Inr (summarize_stats from_str pubkeys i (p @ r) now), store_info_best_effort (newest_info pubkeys i) None s))))"

section \<open>The cache does not depend on the order of arrival\<close>

definition genuine_infos :: "cached_node_info set \<Rightarrow> bool" where
  "genuine_infos S \<longleftrightarrow> (\<forall>i \<in> S. ci_event_id i \<noteq> None) \<and> (\<forall>i \<in> S. \<forall>j \<in> S. ci_event_id i = ci_event_id j \<longrightarrow> i = j)"

definition is_newest :: "cached_node_info set \<Rightarrow> cached_node_info option \<Rightarrow> bool" where
  "is_newest S x \<longleftrightarrow> (case x of None \<Rightarrow> S = {} | Some i \<Rightarrow> i \<in> S \<and> (\<forall>j \<in> S. j = i \<or> supersedes i j))"

definition newer_of :: "cached_node_info option \<Rightarrow> cached_node_info option \<Rightarrow> cached_node_info option" where
  "newer_of x y = (case (x, y) of (None, _) \<Rightarrow> y | (Some i, Some prev) \<Rightarrow> if \<not> supersedes i prev then y else x | (Some i, None) \<Rightarrow> x)"

lemma genuine_sub: "genuine_infos T \<Longrightarrow> S \<subseteq> T \<Longrightarrow> genuine_infos S"
  unfolding genuine_infos_def by blast

lemma supersedes_irrefl: "\<not> supersedes i i"
  by (simp add: supersedes_def split: option.split)

lemma supersedes_asym: "supersedes i j \<Longrightarrow> \<not> supersedes j i"
  by (auto simp: supersedes_def split: if_splits option.splits)

lemma supersedes_trans: "supersedes i j \<Longrightarrow> supersedes j k \<Longrightarrow> supersedes i k"
  by (auto simp: supersedes_def split: if_splits option.splits)

lemma supersedes_total: "genuine_infos S \<Longrightarrow> i \<in> S \<Longrightarrow> j \<in> S \<Longrightarrow> i = j \<or> supersedes i j \<or> supersedes j i"
proof -
  assume g: "genuine_infos S" "i \<in> S" "j \<in> S"
  then obtain a b where ab: "ci_event_id i = Some a" "ci_event_id j = Some b" unfolding genuine_infos_def by blast
  show ?thesis
  proof (cases "a = b")
    case True
    then show ?thesis using g ab unfolding genuine_infos_def by metis
  next
    case False
    then show ?thesis using ab by (auto simp: supersedes_def)
  qed
qed

lemma newest_unique: "is_newest S x \<Longrightarrow> is_newest S y \<Longrightarrow> x = y"
proof -
  assume x: "is_newest S x" and y: "is_newest S y"
  show "x = y"
  proof (cases x)
    case None
    then show ?thesis using x y by (cases y) (auto simp: is_newest_def)
  next
    case (Some i)
    then obtain j where j: "y = Some j" using x y by (cases y) (auto simp: is_newest_def)
    have "j = i \<or> supersedes i j" "i = j \<or> supersedes j i" using x y Some j by (auto simp: is_newest_def)
    then show ?thesis using supersedes_asym [of i j] Some j by auto
  qed
qed

lemma newest_union:
  assumes "genuine_infos (S \<union> T)" "is_newest S x" "is_newest T y"
  shows "is_newest (S \<union> T) (newer_of x y)"
proof (cases x)
  case None
  then show ?thesis using assms(2,3) by (simp add: is_newest_def newer_of_def)
next
  case (Some i)
  show ?thesis
  proof (cases y)
    case None
    then show ?thesis using assms(2,3) Some by (simp add: is_newest_def newer_of_def)
  next
    case (Some j)
    have i: "i \<in> S" "\<And>k. k \<in> S \<Longrightarrow> k = i \<or> supersedes i k" using assms(2) \<open>x = Some i\<close> by (auto simp: is_newest_def)
    have j: "j \<in> T" "\<And>k. k \<in> T \<Longrightarrow> k = j \<or> supersedes j k" using assms(3) \<open>y = Some j\<close> by (auto simp: is_newest_def)
    show ?thesis
    proof (cases "supersedes i j")
      case True
      then show ?thesis using i j supersedes_trans [of i j] \<open>x = Some i\<close> \<open>y = Some j\<close>
        by (auto simp: is_newest_def newer_of_def)
    next
      case False
      then have "i = j \<or> supersedes j i" using supersedes_total [OF assms(1), of i j] i(1) j(1) by auto
      then show ?thesis using False i j supersedes_trans [of j i] \<open>x = Some i\<close> \<open>y = Some j\<close>
        by (auto simp: is_newest_def newer_of_def)
    qed
  qed
qed

definition info_valid :: "string list \<Rightarrow> info_event \<Rightarrow> bool" where
  "info_valid pubkeys e \<longleftrightarrow> ev_pubkey e \<in> set pubkeys \<and> trimmed_tag (ev_tags e) ''d'' = Some (ev_pubkey e)"

definition infos_of :: "string \<Rightarrow> info_event set \<Rightarrow> cached_node_info set" where
  "infos_of k E = info_of ` {e \<in> E. ev_pubkey e = k}"

lemma infos_parts [simp]:
  "infos_of k {} = {}" "infos_of k (E \<union> F) = infos_of k E \<union> infos_of k F"
  "infos_of k (insert e E) = (if ev_pubkey e = k then insert (info_of e) (infos_of k E) else infos_of k E)"
  by (auto simp: infos_of_def)

lemma infos_genuine: "(\<And>e f. e \<in> E \<Longrightarrow> f \<in> E \<Longrightarrow> ev_id e = ev_id f \<Longrightarrow> e = f) \<Longrightarrow> genuine_infos (infos_of k E)"
  by (auto simp: genuine_infos_def infos_of_def info_of_def)

lemma put_newest_lookup:
  "fmlookup (put_newest p i m) k = (if k = p then newer_of (Some i) (fmlookup m p) else fmlookup m k)"
  by (simp add: put_newest_def newer_of_def split: option.split)

lemma newest_info_is_newest:
  assumes "genuine_infos (infos_of k {e \<in> set es. info_valid ps e})"
  shows "is_newest (infos_of k {e \<in> set es. info_valid ps e}) (fmlookup (newest_info ps es) k)"
  using assms
proof (induction es rule: rev_induct)
  case Nil
  then show ?case by (simp add: newest_info_def is_newest_def)
next
  case (snoc e es)
  let ?S = "infos_of k {e \<in> set es. info_valid ps e}"
  have add: "{x \<in> set (es @ [e]). info_valid ps x} = (if info_valid ps e then insert e {x \<in> set es. info_valid ps x}
      else {x \<in> set es. info_valid ps x})" by auto
  have step: "newest_info ps (es @ [e]) = (if info_valid ps e then put_newest (ev_pubkey e) (info_of e) (newest_info ps es)
      else newest_info ps es)" by (simp add: newest_info_def info_valid_def)
  have "?S \<subseteq> infos_of k {x \<in> set (es @ [e]). info_valid ps x}" by (auto simp: infos_of_def)
  then have "genuine_infos ?S" using genuine_sub snoc.prems by blast
  then have ih: "is_newest ?S (fmlookup (newest_info ps es) k)" by (rule snoc.IH)
  show ?case
  proof (cases "info_valid ps e \<and> ev_pubkey e = k")
    case True
    then have "{info_of e} \<union> ?S \<subseteq> infos_of k {x \<in> set (es @ [e]). info_valid ps x}" by (auto simp: infos_of_def)
    then have "genuine_infos ({info_of e} \<union> ?S)" using genuine_sub snoc.prems by blast
    from newest_union [OF this _ ih, of "Some (info_of e)"]
    have "is_newest ({info_of e} \<union> ?S) (newer_of (Some (info_of e)) (fmlookup (newest_info ps es) k))"
      by (simp add: is_newest_def [of "{info_of e}"])
    then show ?thesis using True unfolding add step by (simp add: put_newest_lookup)
  next
    case False
    then show ?thesis using ih unfolding add step by (auto simp: put_newest_lookup)
  qed
qed

lemma merge_info_lookup: "fmlookup (snd (merge_info fresh cache)) k = newer_of (fmlookup fresh k) (fmlookup cache k)"
proof -
  have "fmlookup (snd (fold (\<lambda>p (changed, c). case fmlookup fresh p of
         None \<Rightarrow> (changed, c)
       | Some info \<Rightarrow> (case fmlookup c p of
           Some prev \<Rightarrow> if \<not> supersedes info prev then (changed, c) else (True, fmupd p info c)
         | None \<Rightarrow> (True, fmupd p info c))) ps (ch, c))) k =
      (if k \<in> set ps then newer_of (fmlookup fresh k) (fmlookup c k) else fmlookup c k)" if "distinct ps" for ps ch c
    using that
    by (induction ps arbitrary: ch c) (auto simp: newer_of_def split: option.splits)
  from this [of "sorted_list_of_fset (fmdom fresh)" False cache] show ?thesis
    by (cases "fmlookup fresh k") (auto simp: merge_info_def sorted_list_of_fset.rep_eq newer_of_def fmdomI)
qed

definition cache_after :: "(string list \<times> info_event list) list \<Rightarrow> (string, cached_node_info) fmap" where
  "cache_after batches = fold (\<lambda>(ps, es) c. snd (merge_info (newest_info ps es) c)) batches fmempty"

definition heard :: "(string list \<times> info_event list) list \<Rightarrow> info_event set" where
  "heard batches = {e. \<exists>(ps, es) \<in> set batches. e \<in> set es \<and> info_valid ps e}"

lemma cache_after_newest:
  assumes "genuine_infos (infos_of k (heard batches))"
  shows "is_newest (infos_of k (heard batches)) (fmlookup (cache_after batches) k)"
  using assms
proof (induction batches rule: rev_induct)
  case Nil
  then show ?case by (simp add: cache_after_def heard_def is_newest_def infos_of_def)
next
  case (snoc b batches)
  obtain ps es where b: "b = (ps, es)" by fastforce
  have h: "heard (batches @ [b]) = {e \<in> set es. info_valid ps e} \<union> heard batches" by (auto simp: heard_def b)
  have g: "genuine_infos (infos_of k {e \<in> set es. info_valid ps e} \<union> infos_of k (heard batches))"
    using snoc.prems by (simp add: h)
  from newest_union [OF g newest_info_is_newest snoc.IH] genuine_sub [OF g]
  show ?case unfolding h by (simp add: cache_after_def b merge_info_lookup)
qed

text \<open>
  C36: The settings shown for a node do not depend on the relays. However the genuine events of any number of
  downloads (no two under one id) are ordered, repeated or split over downloads and requests, the cache ends the same: for
  each node it holds the newest event heard of it, by the signed date the client keeps, and within one second the one of
  the lowest id; for a node never heard of it holds nothing.
\<close>

theorem node_cache_ignores_arrival_order:
  assumes "\<forall>e \<in> heard batches. \<forall>f \<in> heard batches. ev_id e = ev_id f \<longrightarrow> e = f" "heard batches = heard batches'"
  shows "cache_after batches = cache_after batches' \<and>
    (case fmlookup (cache_after batches) k of
       None \<Rightarrow> \<forall>f \<in> heard batches. ev_pubkey f \<noteq> k
     | Some c \<Rightarrow> \<exists>e \<in> heard batches. ev_pubkey e = k \<and> ci_tags c = ev_tags e \<and> ci_event_id c = Some (ev_id e) \<and>
         ci_created_at c = i64_wrap (uint (ev_created_at e)) \<and>
         (\<forall>f \<in> heard batches. ev_pubkey f = k \<and> f \<noteq> e \<longrightarrow>
            i64_wrap (uint (ev_created_at f)) < i64_wrap (uint (ev_created_at e)) \<or>
            i64_wrap (uint (ev_created_at f)) = i64_wrap (uint (ev_created_at e)) \<and> ev_id e < ev_id f))"
proof
  have g: "genuine_infos (infos_of k (heard batches))" for k using assms(1) by (intro infos_genuine) blast
  show "cache_after batches = cache_after batches'"
    using newest_unique cache_after_newest [OF g] cache_after_newest [of _ batches'] g assms(2) by (intro fmap_ext) metis
  note n = cache_after_newest [OF g, of k]
  show "case fmlookup (cache_after batches) k of
       None \<Rightarrow> \<forall>f \<in> heard batches. ev_pubkey f \<noteq> k
     | Some c \<Rightarrow> \<exists>e \<in> heard batches. ev_pubkey e = k \<and> ci_tags c = ev_tags e \<and> ci_event_id c = Some (ev_id e) \<and>
         ci_created_at c = i64_wrap (uint (ev_created_at e)) \<and>
         (\<forall>f \<in> heard batches. ev_pubkey f = k \<and> f \<noteq> e \<longrightarrow>
            i64_wrap (uint (ev_created_at f)) < i64_wrap (uint (ev_created_at e)) \<or>
            i64_wrap (uint (ev_created_at f)) = i64_wrap (uint (ev_created_at e)) \<and> ev_id e < ev_id f)"
  proof (cases "fmlookup (cache_after batches) k")
    case None
    then show ?thesis using n by (auto simp: is_newest_def infos_of_def)
  next
    case (Some c)
    then obtain e where e: "e \<in> heard batches" "ev_pubkey e = k" "c = info_of e"
      using n by (auto simp: is_newest_def infos_of_def)
    have "supersedes c (info_of f)" if "f \<in> heard batches" "ev_pubkey f = k" "f \<noteq> e" for f
    proof -
      have "info_of f \<noteq> c" using assms(1) that(1,3) e(1,3) by (auto simp: info_of_def)
      then show ?thesis using n Some that(1,2) by (auto simp: is_newest_def infos_of_def)
    qed
    moreover have "supersedes (info_of e) (info_of f) \<longleftrightarrow>
        i64_wrap (uint (ev_created_at f)) < i64_wrap (uint (ev_created_at e)) \<or>
        i64_wrap (uint (ev_created_at f)) = i64_wrap (uint (ev_created_at e)) \<and> ev_id e < ev_id f" for f
      by (auto simp: supersedes_def info_of_def)
    moreover have "ci_tags c = ev_tags e \<and> ci_event_id c = Some (ev_id e) \<and> ci_created_at c = i64_wrap (uint (ev_created_at e))"
      using e(3) by (simp add: info_of_def)
    ultimately show ?thesis using e unfolding Some by auto
  qed
qed

theorem node_cache_ignores_arrival_order_witness:
  "let a = \<lparr>ev_id = ''a'', ev_pubkey = ''k'', ev_created_at = 5, ev_tags = [[''d'', ''k'']]\<rparr>;
       b = \<lparr>ev_id = ''b'', ev_pubkey = ''k'', ev_created_at = 5, ev_tags = [[''d'', ''k''], [''fee'', ''1'']]\<rparr>
   in cache_after [([''k''], [a, b, a])] = cache_after [([''k''], [b]), ([''k'', ''l''], [a])]"
proof -
  let ?a = "\<lparr>ev_id = ''a'', ev_pubkey = ''k'', ev_created_at = 5, ev_tags = [[''d'', ''k'']]\<rparr>"
  let ?b = "\<lparr>ev_id = ''b'', ev_pubkey = ''k'', ev_created_at = 5, ev_tags = [[''d'', ''k''], [''fee'', ''1'']]\<rparr>"
  have t: "str_trim ''k'' = ''k''" by code_simp
  have "info_valid [''k''] ?a" "info_valid [''k''] ?b" "info_valid [''k'', ''l''] ?a"
    by (simp_all add: info_valid_def trimmed_tag_def nth_opt_def opt_filter_def t)
  then have h: "heard [([''k''], [?a, ?b, ?a])] = {?a, ?b}" "heard [([''k''], [?b]), ([''k'', ''l''], [?a])] = {?a, ?b}"
    by (auto simp: heard_def)
  have "cache_after [([''k''], [?a, ?b, ?a])] = cache_after [([''k''], [?b]), ([''k'', ''l''], [?a])]"
    by (rule node_cache_ignores_arrival_order [THEN conjunct1]) (simp_all add: h)
  then show ?thesis by (simp only: Let_def)
qed

section \<open>Every open order is counted once\<close>

lemma same_order_refl [simp]: "same_order a a"
  by (simp add: same_order_def)

definition keeps_newest :: "order_info list \<Rightarrow> order_info list \<Rightarrow> bool" where
  "keeps_newest orders ds \<longleftrightarrow> distinct (map (\<lambda>o'. (oi_creator_pubkey o', oi_id o')) ds) \<and> set ds \<subseteq> set orders \<and>
     (\<forall>x \<in> set orders. \<exists>d \<in> set ds. same_order x d \<and> oi_created_at x \<le> oi_created_at d)"

lemma put_latest_keys:
  "map (\<lambda>o'. (oi_creator_pubkey o', oi_id o')) (put_latest x ds) =
     (if \<exists>d \<in> set ds. same_order x d then map (\<lambda>o'. (oi_creator_pubkey o', oi_id o')) ds
      else map (\<lambda>o'. (oi_creator_pubkey o', oi_id o')) ds @ [(oi_creator_pubkey x, oi_id x)])"
  by (auto simp: put_latest_def same_order_def find_None_iff find_Some_iff split: option.splits if_splits)

lemma dedup_step:
  assumes "keeps_newest orders ds"
  shows "keeps_newest (orders @ [x]) (put_latest x ds)"
proof -
  have d: "distinct (map (\<lambda>o'. (oi_creator_pubkey o', oi_id o')) (put_latest x ds))"
    using assms unfolding put_latest_keys by (auto simp: keeps_newest_def same_order_def image_iff)
  have s: "set (put_latest x ds) \<subseteq> insert x (set ds)"
    by (auto simp: put_latest_def split: option.splits)
  have m: "\<exists>d \<in> set (put_latest x ds). same_order y d \<and> oi_created_at y \<le> oi_created_at d"
    if "y = x \<or> y \<in> set orders" for y
  proof (cases "find (same_order x) ds")
    case None
    then have p: "put_latest x ds = ds @ [x]" by (simp add: put_latest_def)
    from that assms show ?thesis by (auto simp: p keeps_newest_def)
  next
    case (Some e)
    then have e: "e \<in> set ds" "same_order x e" by (auto simp: find_Some_iff)
    show ?thesis
    proof (cases "oi_created_at e \<ge> oi_created_at x")
      case True
      then have p: "put_latest x ds = ds" using Some by (simp add: put_latest_def)
      from that assms e True show ?thesis by (auto simp: p keeps_newest_def)
    next
      case False
      then have p: "put_latest x ds = map (\<lambda>d. if same_order x d then x else d) ds" using Some by (simp add: put_latest_def)
      have x: "x \<in> set (put_latest x ds)" using e by (force simp: p)
      from that show ?thesis
      proof
        assume "y = x"
        then show ?thesis using x same_order_refl by blast
      next
        assume "y \<in> set orders"
        then obtain d where d: "d \<in> set ds" "same_order y d" "oi_created_at y \<le> oi_created_at d"
          using assms unfolding keeps_newest_def by blast
        show ?thesis
        proof (cases "same_order x d")
          case True
          have "d = e" using assms d(1) e True
            by (auto simp: keeps_newest_def same_order_def distinct_map dest: inj_onD)
          then have "same_order y x \<and> oi_created_at y \<le> oi_created_at x" using d False True by (simp add: same_order_def)
          then show ?thesis using x by blast
        next
          case False
          then show ?thesis using d by (force simp: p)
        qed
      qed
    qed
  qed
  from d s m assms show ?thesis unfolding keeps_newest_def by auto
qed

lemma dedup_latest_ok: "keeps_newest orders (dedup_latest orders)"
proof (induction orders rule: rev_induct)
  case (snoc x xs)
  then show ?case using dedup_step [of xs "dedup_latest xs" x] by (simp add: dedup_latest_def)
qed (simp add: dedup_latest_def keeps_newest_def)

definition fiat_count :: "node_liquidity \<Rightarrow> string \<Rightarrow> u32" where
  "fiat_count l c = (case fmlookup (fst l) c of Some n \<Rightarrow> n | None \<Rightarrow> 0)"

definition fiat_total :: "node_liquidity \<Rightarrow> u32" where
  "fiat_total l = sum (fiat_count l) (fset (fmdom (fst l)))"

lemma count_order_parts:
  "fiat_count (count_order x l) c = fiat_count l c + (if c = to_ascii_uppercase (oi_fiat_code x) then 1 else 0)"
  "fmdom (fst (count_order x l)) = finsert (to_ascii_uppercase (oi_fiat_code x)) (fmdom (fst l))"
  "snd (count_order x l) = Some (case snd l of Some t \<Rightarrow> max t (oi_created_at x) | None \<Rightarrow> oi_created_at x)"
  by (auto simp: count_order_def fiat_count_def Let_def split: prod.split)

lemma count_order_total: "fiat_total (count_order x l) = fiat_total l + 1"
proof -
  let ?c = "to_ascii_uppercase (oi_fiat_code x)" and ?D = "fset (fmdom (fst l))"
  have out: "fiat_count l ?c = 0" if "?c \<notin> ?D" using that by (simp add: fiat_count_def fmdom_notD)
  have "fiat_total (count_order x l) = sum (\<lambda>c. fiat_count l c + (if c = ?c then 1 else 0)) (insert ?c ?D)"
    by (simp add: fiat_total_def count_order_parts)
  also have "\<dots> = sum (fiat_count l) (insert ?c ?D) + 1" by (simp add: sum.distrib)
  also have "sum (fiat_count l) (insert ?c ?D) = sum (fiat_count l) ?D"
    using out by (cases "?c \<in> ?D") (simp_all add: insert_absorb)
  finally show ?thesis by (simp add: fiat_total_def)
qed

definition counted :: "i64 \<Rightarrow> string \<Rightarrow> order_info list \<Rightarrow> order_info list" where
  "counted now p ds = filter (\<lambda>x. is_open x now \<and> oi_creator_pubkey x = p) ds"

definition tallies :: "node_liquidity \<Rightarrow> order_info list \<Rightarrow> bool" where
  "tallies l ds \<longleftrightarrow> fiat_total l = of_nat (length ds) \<and>
     (\<forall>c. fiat_count l c = of_nat (length (filter (\<lambda>x. to_ascii_uppercase (oi_fiat_code x) = c) ds))) \<and>
     fset (fmdom (fst l)) = (\<lambda>x. to_ascii_uppercase (oi_fiat_code x)) ` set ds \<and>
     snd l = (if ds = [] then None else Some (Max (oi_created_at ` set ds)))"

lemma tallies_step: "tallies l ds \<Longrightarrow> tallies (count_order x l) (ds @ [x])"
  by (auto simp: tallies_def count_order_parts count_order_total Max_insert max.commute)

lemma count_tallies: "tallies (liquidity_of (count_open_orders orders now) p) (counted now p (dedup_latest orders))"
proof -
  have "tallies (liquidity_of (fold (\<lambda>order per_node. if is_open order now
         then fmupd (oi_creator_pubkey order) (count_order order (liquidity_of per_node (oi_creator_pubkey order))) per_node
         else per_node) ds fmempty) p) (counted now p ds)" for ds
  proof (induction ds rule: rev_induct)
    case Nil
    then show ?case by (simp add: liquidity_of_def counted_def tallies_def fiat_total_def fiat_count_def)
  next
    case (snoc x ds)
    then show ?case using tallies_step by (auto simp: liquidity_of_def counted_def)
  qed
  then show ?thesis by (simp add: count_open_orders_def)
qed

text \<open>
  C37: The order count of a node is honest. It is the number of the node's orders whose kept revision is
  pending and not expired, by currency and in total, with the newest date among them; whatever the
  relays repeat, each order is kept once, and no revision that arrived is newer than the kept one.
\<close>

theorem open_orders_are_counted_once:
  "let row = apply_order_counts (liquidity_of (count_open_orders orders now) p) stats;
       open_orders = filter (\<lambda>x. is_open x now \<and> oi_creator_pubkey x = p) (dedup_latest orders)
   in sn_total_orders row = of_nat (length open_orders) \<and>
      sn_orders_by_fiat row = map (\<lambda>c. \<lparr>fc_fiat_code = c, fc_count =
          of_nat (length (filter (\<lambda>x. to_ascii_uppercase (oi_fiat_code x) = c) open_orders))\<rparr>)
        (sorted_list_of_set ((\<lambda>x. to_ascii_uppercase (oi_fiat_code x)) ` set open_orders)) \<and>
      sn_latest_order_at row = (if open_orders = [] then None else Some (Max (oi_created_at ` set open_orders))) \<and>
      keeps_newest orders (dedup_latest orders)"
proof -
  define row where "row = apply_order_counts (liquidity_of (count_open_orders orders now) p) stats"
  define open_orders where "open_orders = filter (\<lambda>x. is_open x now \<and> oi_creator_pubkey x = p) (dedup_latest orders)"
  define l where "l = liquidity_of (count_open_orders orders now) p"
  have t: "tallies l open_orders" using count_tallies unfolding l_def open_orders_def counted_def .
  have c: "(case fmlookup (fst l) c of Some n \<Rightarrow> n | None \<Rightarrow> 0) = fiat_count l c" for c by (simp add: fiat_count_def)
  have "sum_list (map (fiat_count l) (sorted_list_of_set (fset (fmdom (fst l))))) = fiat_total l"
    by (simp add: fiat_total_def sum_list_distinct_conv_sum_set)
  then have "sn_total_orders row = fiat_total l"
    "sn_orders_by_fiat row = map (\<lambda>c. \<lparr>fc_fiat_code = c, fc_count = fiat_count l c\<rparr>) (sorted_list_of_set (fset (fmdom (fst l))))"
    "sn_latest_order_at row = snd l"
    unfolding row_def l_def [symmetric]
    by (simp_all add: apply_order_counts_def split_beta c sorted_list_of_fset.rep_eq)
  then have "sn_total_orders row = of_nat (length open_orders)"
    "sn_orders_by_fiat row = map (\<lambda>c. \<lparr>fc_fiat_code = c, fc_count =
        of_nat (length (filter (\<lambda>x. to_ascii_uppercase (oi_fiat_code x) = c) open_orders))\<rparr>)
      (sorted_list_of_set ((\<lambda>x. to_ascii_uppercase (oi_fiat_code x)) ` set open_orders))"
    "sn_latest_order_at row = (if open_orders = [] then None else Some (Max (oi_created_at ` set open_orders)))"
    using t by (simp_all add: tallies_def)
  then show ?thesis using dedup_latest_ok by (simp add: row_def open_orders_def)
qed

text \<open>Two revisions of one second: the one that arrives first is kept, unlike the settings' rule.\<close>

lemma same_second_revisions_depend_on_arrival:
  assumes "same_order a b" "a \<noteq> b" "oi_created_at a = oi_created_at b"
  shows "dedup_latest [a, b] = [a]" "dedup_latest [b, a] = [b]"
  using assms by (auto simp: dedup_latest_def put_latest_def same_order_def)

end
