(* ===== verification/Nodes.thy ===== *)
theory Nodes
  imports Node_Stats Invoices
begin

text \<open>
  The registry of nodes behind the selector (\<open>rust/src/api/nodes.rs\<close>), the choice of the active node
  (\<open>api/settings.rs\<close>, \<open>config.rs\<close>) and the user's settings.

  The registry lock makes each read and write of the lists one step; what a function read before it took
  the lock is an argument. The parsing of keys and of kind 0 profiles is a parameter. Region labels are
  written without their flags and accents.
\<close>

section \<open>The registry\<close>

definition default_mostro_pubkey :: string where
  "default_mostro_pubkey = ''82fa8cb978b43c79b2156585bac2c011176a21d2aead6d9f7c575c005be88390''"

definition trusted_mostro_nodes :: "(string \<times> string) list" where
  "trusted_mostro_nodes =
     [(''00000235a3e904cfe1213a8a54d6f1ec1bef7cc6bfaabd6193e82931ccf1366a'', ''Cuba''),
      (''0000cc02101ec29eea9ce623258752b9d7da66c27845ed26846dd0b0fc736b40'', ''Espana''),
      (''00000978acc594c506976c655b6decbf2d4af25ffdaa6680f2a9568b0a88441b'', ''Colombia''),
      (''00007cb3305fb972f5cc83f83a8fbca1e64e93c9d1369880a9fd62ef95d23f91'', ''Bolivia''),
      (''000009ee1e4b1dc7add19ab30e4ef854d7b562e208b62686fd9002b50b24dabb'', ''Venezuela''),
      (''b3626fe91b602bdbca3673bec0855221f41dc8f6d0e4027e51eaa525d68d87f2'', ''Argentina''),
      (''00037abd44e7a846689e230d5446abcd0d56a344fa81fff85c09d1929feda486'', ''Brasil''),
      (''da23a31d75572138ab8149911a04224812a34bda679caba7cb1824fdf7c592ec'', ''Europa''),
      (default_mostro_pubkey, ''World'')]"

record custom_node =
  cu_pubkey :: string
  cu_name :: "string option"
  cu_added_at :: i64

record node_metadata =
  nm_name :: "string option"
  nm_picture :: "string option"
  nm_about :: "string option"
  nm_website :: "string option"

record node_entry =
  mn_pubkey :: string
  mn_region :: "string option"
  mn_is_trusted :: bool
  mn_is_active :: bool
  mn_name :: "string option"
  mn_picture :: "string option"
  mn_about :: "string option"
  mn_website :: "string option"

text \<open>\<open>rg_open\<close>: a store is open; \<open>rg_reads\<close> and \<open>rg_writes\<close>: its statements work. \<open>rg_override\<close> is the active key in memory.\<close>

record registry =
  rg_open :: bool
  rg_reads :: bool
  rg_writes :: bool
  rg_custom :: "custom_node list blob"
  rg_meta :: "(string, node_metadata) fmap blob"
  rg_active_stored :: "string option"
  rg_override :: "string option"
  rg_now :: i64

definition active_mostro_pubkey :: "registry \<Rightarrow> string" where
  "active_mostro_pubkey d = (case rg_override d of Some p \<Rightarrow> p | None \<Rightarrow> default_mostro_pubkey)"

definition parse_node_pubkey :: "(string \<Rightarrow> string option) \<Rightarrow> string \<Rightarrow> (string, string) result" where
  "parse_node_pubkey parse input = (let trimmed = str_trim input in
     if starts_with ''nsec'' (to_ascii_lowercase trimmed) then Inl ''PrivateKeyNotAllowed: expected a public key, got an nsec''
     else case parse trimmed of None \<Rightarrow> Inl ''InvalidPubkey'' | Some hex \<Rightarrow> Inr hex)"

definition sanitize_https_url :: "string option \<Rightarrow> string option" where
  "sanitize_https_url url = opt_filter (starts_with ''https://'') (map_option str_trim url)"

definition normalize_name :: "string option \<Rightarrow> string option" where
  "normalize_name name = opt_filter (\<lambda>n. n \<noteq> []) (map_option str_trim name)"

definition is_trusted_pubkey :: "string \<Rightarrow> bool" where
  "is_trusted_pubkey pubkey \<longleftrightarrow> pubkey \<in> set (map fst trusted_mostro_nodes)"

definition drop_promoted_customs :: "custom_node list \<Rightarrow> bool \<times> custom_node list" where
  "drop_promoted_customs custom = (let kept = filter (\<lambda>n. \<not> is_trusted_pubkey (cu_pubkey n)) custom in
     (length kept \<noteq> length custom, kept))"

definition needs_auto_import :: "custom_node list \<Rightarrow> string \<Rightarrow> bool" where
  "needs_auto_import custom active \<longleftrightarrow> \<not> is_trusted_pubkey active \<and> active \<notin> cu_pubkey ` set custom"

definition entry_from ::
  "string \<Rightarrow> string option \<Rightarrow> bool \<Rightarrow> string option \<Rightarrow> node_metadata option \<Rightarrow> string \<Rightarrow> node_entry" where
  "entry_from pubkey region is_trusted custom_name meta active =
     \<lparr>mn_pubkey = pubkey, mn_region = region, mn_is_trusted = is_trusted, mn_is_active = (pubkey = active),
      mn_name = (case custom_name of Some n \<Rightarrow> Some n | None \<Rightarrow> Option.bind meta nm_name),
      mn_picture = Option.bind meta nm_picture, mn_about = Option.bind meta nm_about,
      mn_website = Option.bind meta nm_website\<rparr>"

definition registry_error :: string where "registry_error = ''database error''"

definition load_custom_nodes :: "registry \<Rightarrow> (string, custom_node list) result" where
  "load_custom_nodes d = (if \<not> rg_reads d then Inl registry_error
     else Inr (case rg_custom d of Stored ns \<Rightarrow> ns | _ \<Rightarrow> []))"

definition save_custom_nodes :: "custom_node list \<Rightarrow> registry \<Rightarrow> (string, unit) result \<times> registry" where
  "save_custom_nodes ns d = (if \<not> rg_writes d then (Inl registry_error, d) else (Inr (), d\<lparr>rg_custom := Stored ns\<rparr>))"

definition load_metadata_cache :: "registry \<Rightarrow> (string, (string, node_metadata) fmap) result" where
  "load_metadata_cache d = (if \<not> rg_reads d then Inl registry_error else Inr (blob_value (rg_meta d)))"

definition save_metadata_cache :: "(string, node_metadata) fmap \<Rightarrow> registry \<Rightarrow> (string, unit) result \<times> registry" where
  "save_metadata_cache m d = (if \<not> rg_writes d then (Inl registry_error, d) else (Inr (), d\<lparr>rg_meta := Stored m\<rparr>))"

definition auto_import :: "string \<Rightarrow> i64 \<Rightarrow> custom_node list \<Rightarrow> bool \<times> custom_node list" where
  "auto_import active now custom = (if needs_auto_import custom active
     then (True, custom @ [\<lparr>cu_pubkey = active, cu_name = None, cu_added_at = now\<rparr>]) else (False, custom))"

definition entries_of :: "string \<Rightarrow> custom_node list \<Rightarrow> (string, node_metadata) fmap \<Rightarrow> node_entry list" where
  "entries_of active custom cache =
     map (\<lambda>(p, region). entry_from p (Some region) True None (fmlookup cache p) active) trusted_mostro_nodes @
     map (\<lambda>n. entry_from (cu_pubkey n) None False (cu_name n) (fmlookup cache (cu_pubkey n)) active) custom"

text \<open>\<open>active\<close> is read before the lock.\<close>

definition list_mostro_nodes :: "string \<Rightarrow> registry \<Rightarrow> (string, node_entry list) result \<times> registry" where
  "list_mostro_nodes active d =
     (if \<not> rg_open d then (Inr (entries_of active (snd (auto_import active (rg_now d) [])) fmempty), d)
      else case load_custom_nodes d of
          Inl e \<Rightarrow> (Inl e, d)
        | Inr custom0 \<Rightarrow>
            let (dropped, custom1) = drop_promoted_customs custom0;
                (imported, custom) = auto_import active (rg_now d) custom1;
                (saved, d1) = (if dropped \<or> imported then save_custom_nodes custom d else (Inr (), d))
            in (and_then saved (\<lambda>_. and_then (load_metadata_cache d1) (\<lambda>cache. Inr (entries_of active custom cache))), d1))"

definition add_custom_mostro_node ::
  "(string \<Rightarrow> string option) \<Rightarrow> string \<Rightarrow> string option \<Rightarrow> registry \<Rightarrow> (string, node_entry) result \<times> registry" where
  "add_custom_mostro_node parse input name0 d = (case parse_node_pubkey parse input of
      Inl e \<Rightarrow> (Inl e, d)
    | Inr pubkey \<Rightarrow>
        let name = normalize_name name0 in
        if \<not> rg_open d then (Inl ''NotInitialized: storage is not ready'', d)
        else if is_trusted_pubkey pubkey then (Inl (''NodeAlreadyExists: '' @ pubkey @ '' is a trusted node''), d)
        else (case load_custom_nodes d of
            Inl e \<Rightarrow> (Inl e, d)
          | Inr custom \<Rightarrow>
              if pubkey \<in> cu_pubkey ` set custom then (Inl (''NodeAlreadyExists: '' @ pubkey @ '' was already added''), d)
              else let (saved, d1) = save_custom_nodes
                    (custom @ [\<lparr>cu_pubkey = pubkey, cu_name = name, cu_added_at = rg_now d\<rparr>]) d
                in (and_then saved (\<lambda>_. and_then (load_metadata_cache d1) (\<lambda>cache.
                     Inr (entry_from pubkey None False name (fmlookup cache pubkey) (active_mostro_pubkey d1)))), d1)))"

definition remove_custom_mostro_node :: "string \<Rightarrow> registry \<Rightarrow> (string, unit) result \<times> registry" where
  "remove_custom_mostro_node input d = (let pubkey = to_ascii_lowercase input in
     if is_trusted_pubkey pubkey then (Inl ''NodeIsTrusted: compiled-in nodes cannot be removed'', d)
     else if \<not> rg_open d then (Inl ''NotInitialized: storage is not ready'', d)
     else if pubkey = active_mostro_pubkey d then (Inl ''CannotRemoveActiveNode: select another node first'', d)
     else (case load_custom_nodes d of
         Inl e \<Rightarrow> (Inl e, d)
       | Inr custom \<Rightarrow> save_custom_nodes (filter (\<lambda>n. cu_pubkey n \<noteq> pubkey) custom) d))"

text \<open>A kind 0 event: its author and the profile its content parses to, if any.\<close>

record profile_metadata =
  pm_name :: "string option"
  pm_display_name :: "string option"
  pm_picture :: "string option"
  pm_about :: "string option"
  pm_website :: "string option"

definition metadata_of :: "profile_metadata \<Rightarrow> node_metadata" where
  "metadata_of m = \<lparr>nm_name = normalize_name (case pm_name m of Some n \<Rightarrow> Some n | None \<Rightarrow> pm_display_name m),
     nm_picture = sanitize_https_url (pm_picture m),
     nm_about = opt_filter (\<lambda>a. a \<noteq> []) (map_option str_trim (pm_about m)),
     nm_website = sanitize_https_url (pm_website m)\<rparr>"

definition merge_profiles ::
  "string list \<Rightarrow> (string \<times> profile_metadata option) list \<Rightarrow> (string, node_metadata) fmap \<Rightarrow> (string, node_metadata) fmap" where
  "merge_profiles pubkeys events cache =
     snd (fold (\<lambda>(author, meta) (seen, c).
         if author \<notin> set pubkeys \<or> author \<in> set seen then (seen, c)
         else (author # seen, case meta of None \<Rightarrow> c | Some m \<Rightarrow> fmupd author (metadata_of m) c))
       events ([], cache))"

text \<open>The fetch: who is asked, and after the answer the merge and the fresh list.\<close>

definition known_pubkeys :: "registry \<Rightarrow> (string, string list) result" where
  "known_pubkeys d = (if \<not> rg_open d then Inr (map fst trusted_mostro_nodes)
     else and_then (load_custom_nodes d) (\<lambda>ns. Inr (map fst trusted_mostro_nodes @ map cu_pubkey ns)))"

definition refresh_mostro_node_metadata ::
  "string list \<Rightarrow> (string \<times> profile_metadata option) list \<Rightarrow> registry \<Rightarrow> (string, node_entry list) result \<times> registry" where
  "refresh_mostro_node_metadata pubkeys events d =
     (if \<not> rg_open d then list_mostro_nodes (active_mostro_pubkey d) d
      else case load_metadata_cache d of
          Inl e \<Rightarrow> (Inl e, d)
        | Inr cache \<Rightarrow> (case save_metadata_cache (merge_profiles pubkeys events cache) d of
            (Inl e, d1) \<Rightarrow> (Inl e, d1)
          | (Inr _, d1) \<Rightarrow> list_mostro_nodes (active_mostro_pubkey d1) d1))"

text \<open>
  The selection, up to the end of its lock; the retained claims of the previous node, the subscriptions and the
  push refusal follow (\<open>Bond_Claims\<close>, \<open>Escrow_Mode\<close>, \<open>Push\<close>).
\<close>

definition set_active_mostro_node :: "(string \<Rightarrow> string option) \<Rightarrow> string \<Rightarrow> registry \<Rightarrow> (string, unit) result \<times> registry" where
  "set_active_mostro_node parse input d = (let pubkey = to_ascii_lowercase input in
     case parse pubkey of
       None \<Rightarrow> (Inl ''InvalidPubkey'', d)
     | Some _ \<Rightarrow>
         if rg_open d then
           if \<not> rg_writes d then (Inl registry_error, d)
           else (Inr (), d\<lparr>rg_active_stored := Some pubkey, rg_override := Some pubkey\<rparr>)
         else (Inr (), d\<lparr>rg_override := Some pubkey\<rparr>))"

definition rehydrate_active_mostro_node :: "registry \<Rightarrow> (string, unit) result \<times> registry" where
  "rehydrate_active_mostro_node d =
     (if \<not> rg_open d then (Inr (), d)
      else if \<not> rg_reads d then (Inl registry_error, d)
      else (Inr (), case rg_active_stored d of Some p \<Rightarrow> d\<lparr>rg_override := Some p\<rparr> | None \<Rightarrow> d))"

section \<open>What the registry keeps\<close>

definition customs :: "registry \<Rightarrow> custom_node list" where
  "customs d = (case rg_custom d of Stored ns \<Rightarrow> ns | _ \<Rightarrow> [])"

definition registry_ok :: "registry \<Rightarrow> bool" where
  "registry_ok d \<longleftrightarrow> distinct (map cu_pubkey (customs d)) \<and> (\<forall>n \<in> set (customs d). \<not> is_trusted_pubkey (cu_pubkey n))"

text \<open>What happens to it: any call with any input and any view of the active node, restarts and faults.\<close>

datatype selector_event =
    ListNodes string
  | AddNode "string \<Rightarrow> string option" string "string option"
  | RemoveNode string
  | RefreshNodes "string list" "(string \<times> profile_metadata option) list"
  | SelectNode "string \<Rightarrow> string option" string
  | StartNodes
  | NodeFaults bool bool bool i64

fun selector_step :: "selector_event \<Rightarrow> registry \<Rightarrow> registry" where
  "selector_step (ListNodes active) d = snd (list_mostro_nodes active d)"
| "selector_step (AddNode parse input name) d = snd (add_custom_mostro_node parse input name d)"
| "selector_step (RemoveNode input) d = snd (remove_custom_mostro_node input d)"
| "selector_step (RefreshNodes ps es) d = snd (refresh_mostro_node_metadata ps es d)"
| "selector_step (SelectNode parse input) d = snd (set_active_mostro_node parse input d)"
| "selector_step StartNodes d = snd (rehydrate_active_mostro_node (d\<lparr>rg_override := None\<rparr>))"
| "selector_step (NodeFaults o' r w now) d = d\<lparr>rg_open := o', rg_reads := r, rg_writes := w, rg_now := now\<rparr>"

definition nodes_run :: "selector_event list \<Rightarrow> registry \<Rightarrow> registry" where
  "nodes_run es d = fold selector_step es d"

lemma customs_simps [simp]:
  "customs (d\<lparr>rg_custom := Stored ns\<rparr>) = ns" "customs (d\<lparr>rg_meta := m\<rparr>) = customs d" "customs (d\<lparr>rg_override := a\<rparr>) = customs d"
  "customs (d\<lparr>rg_active_stored := b\<rparr>) = customs d"
  "customs (d\<lparr>rg_open := o', rg_reads := r, rg_writes := w, rg_now := now\<rparr>) = customs d"
  by (simp_all add: customs_def)

lemma load_customs: "load_custom_nodes d = Inr ns \<longleftrightarrow> rg_reads d \<and> ns = customs d"
  by (auto simp: load_custom_nodes_def customs_def)

lemma list_customs:
  "customs (snd (list_mostro_nodes active d)) = customs d \<or>
   customs (snd (list_mostro_nodes active d)) =
     snd (auto_import active (rg_now d) (filter (\<lambda>n. \<not> is_trusted_pubkey (cu_pubkey n)) (customs d)))"
  by (auto simp: list_mostro_nodes_def load_custom_nodes_def save_custom_nodes_def drop_promoted_customs_def customs_def
      split_beta Let_def split: blob.splits)

lemma step_customs:
  obtains (Same) "customs (selector_step e d) = customs d"
  | (Filtered) P where "customs (selector_step e d) = filter P (customs d)"
      "\<And>n. n \<in> set (customs d) \<Longrightarrow> \<not> P n \<Longrightarrow> is_trusted_pubkey (cu_pubkey n) \<or> e = RemoveNode (cu_pubkey n) \<or>
         (\<exists>i. e = RemoveNode i \<and> to_ascii_lowercase i = cu_pubkey n)"
  | (Grown) P n where "customs (selector_step e d) = filter P (customs d) @ [n]" "\<And>x. P x = (\<not> is_trusted_pubkey (cu_pubkey x)) \<or> P x = True"
      "\<not> is_trusted_pubkey (cu_pubkey n)" "cu_pubkey n \<notin> cu_pubkey ` set (filter P (customs d))"
proof -
  let ?F = "\<lambda>n. \<not> is_trusted_pubkey (cu_pubkey n)"
  have listed: thesis if "customs (selector_step e d) = customs d \<or>
      customs (selector_step e d) = snd (auto_import active now (filter ?F (customs d)))" for active now
    using that
  proof
    assume "customs (selector_step e d) = customs d"
    then show thesis by (rule Same)
  next
    assume i: "customs (selector_step e d) = snd (auto_import active now (filter ?F (customs d)))"
    show thesis
    proof (cases "needs_auto_import (filter ?F (customs d)) active")
      case True
      then show thesis using i
        by (intro Grown [of ?F "\<lparr>cu_pubkey = active, cu_name = None, cu_added_at = now\<rparr>"])
          (auto simp: auto_import_def needs_auto_import_def)
    next
      case False
      then show thesis using i by (intro Filtered [of ?F]) (auto simp: auto_import_def)
    qed
  qed
  show thesis
  proof (cases e)
    case (ListNodes active)
    then show thesis using list_customs [of active d] by (intro listed [of active "rg_now d"]) simp
  next
    case (AddNode parse input name)
    show thesis
    proof (cases "customs (selector_step e d) = customs d")
      case False
      then obtain n where "customs (selector_step e d) = customs d @ [n]" "\<not> is_trusted_pubkey (cu_pubkey n)"
        "cu_pubkey n \<notin> cu_pubkey ` set (customs d)"
        by (auto simp: AddNode add_custom_mostro_node_def save_custom_nodes_def load_custom_nodes_def Let_def
            simp flip: customs_def split: sum.splits if_splits)
      then show thesis by (intro Grown [of "\<lambda>_. True" n]) auto
    qed (rule Same)
  next
    case (RemoveNode input)
    show thesis
    proof (cases "customs (selector_step e d) = customs d")
      case False
      then have "customs (selector_step e d) = filter (\<lambda>n. cu_pubkey n \<noteq> to_ascii_lowercase input) (customs d)"
        by (auto simp: RemoveNode remove_custom_mostro_node_def save_custom_nodes_def load_custom_nodes_def Let_def
            simp flip: customs_def split: sum.splits if_splits)
      then show thesis using RemoveNode by (intro Filtered) auto
    qed (rule Same)
  next
    case (RefreshNodes ps es)
    have "\<exists>d1 active. customs d1 = customs d \<and> rg_now d1 = rg_now d \<and>
        (selector_step e d = d \<or> selector_step e d = d1 \<or> selector_step e d = snd (list_mostro_nodes active d1))"
      by (auto simp: RefreshNodes refresh_mostro_node_metadata_def save_metadata_cache_def Let_def split: sum.splits if_splits)
        (metis customs_simps(2) registry.select_convs(8) registry.surjective registry.update_convs(5))+
    then obtain d1 active where d1: "customs d1 = customs d"
      "selector_step e d = d \<or> selector_step e d = d1 \<or> selector_step e d = snd (list_mostro_nodes active d1)" by blast
    then show thesis using list_customs [of active d1] by (intro listed [of active "rg_now d1"]) auto
  next
    case (SelectNode parse input)
    then show thesis by (intro Same) (auto simp: set_active_mostro_node_def Let_def split: option.split)
  next
    case StartNodes
    then show thesis by (intro Same) (auto simp: rehydrate_active_mostro_node_def split: option.split)
  next
    case (NodeFaults o' r w now)
    then show thesis by (intro Same) simp
  qed
qed

lemma ok_step: "registry_ok d \<Longrightarrow> registry_ok (selector_step e d)"
  by (cases rule: step_customs [of e d]) (auto simp: registry_ok_def distinct_map inj_on_def)

text \<open>
  C38: The registry of nodes keeps what the user put there. Over any history of listings with any view of the active
  node, additions, removals, refreshes, selections, restarts and faults, no key is listed twice and none
  that the app ships; and a node the user added stays, under its name, unless it is removed by its key.
\<close>

theorem registry_keeps_user_nodes:
  assumes "registry_ok d"
  shows "registry_ok (nodes_run es d) \<and>
    (\<forall>n \<in> set (customs d). (\<forall>i. RemoveNode i \<in> set es \<longrightarrow> to_ascii_lowercase i \<noteq> cu_pubkey n \<and> i \<noteq> cu_pubkey n) \<longrightarrow>
       n \<in> set (customs (nodes_run es d)))"
  using assms
proof (induction es arbitrary: d)
  case (Cons e es)
  have kept: "n \<in> set (customs (selector_step e d))" if "n \<in> set (customs d)"
    "\<forall>i. e = RemoveNode i \<longrightarrow> to_ascii_lowercase i \<noteq> cu_pubkey n \<and> i \<noteq> cu_pubkey n" for n
  proof (cases rule: step_customs [of e d])
    case (Filtered P)
    then show ?thesis using that Cons.prems by (auto simp: registry_ok_def)
  next
    case (Grown P x)
    then show ?thesis using that Cons.prems by (auto simp: registry_ok_def)
  qed (use that in simp)
  have "registry_ok (nodes_run es (selector_step e d)) \<and> (\<forall>n \<in> set (customs (selector_step e d)).
      (\<forall>i. RemoveNode i \<in> set es \<longrightarrow> to_ascii_lowercase i \<noteq> cu_pubkey n \<and> i \<noteq> cu_pubkey n) \<longrightarrow>
       n \<in> set (customs (nodes_run es (selector_step e d))))"
    by (rule Cons.IH [OF ok_step [OF Cons.prems]])
  then show ?case using kept by (simp add: nodes_run_def)
qed (simp add: nodes_run_def)

lemma trusted_distinct: "distinct (map fst trusted_mostro_nodes)"
  unfolding trusted_mostro_nodes_def default_mostro_pubkey_def by code_simp

lemma entries_pubkeys: "map mn_pubkey (entries_of active ns m) = map fst trusted_mostro_nodes @ map cu_pubkey ns"
  by (simp add: entries_of_def entry_from_def split_beta comp_def)

lemma entries_active: "e \<in> set (entries_of active ns m) \<Longrightarrow> mn_is_active e = (mn_pubkey e = active)"
  by (auto simp: entries_of_def entry_from_def)

lemma distinct_filter_eq: "distinct xs \<Longrightarrow> a \<in> set xs \<Longrightarrow> filter (\<lambda>p. p = a) xs = [a]"
  by (induction xs) (auto simp: filter_empty_conv)

text \<open>
  The selector shows the node the app uses. A listing that succeeds has no key twice, begins with the shipped
  nodes in their order and marks exactly one entry as active, that of the active key, which is imported
  if nobody knew it.
\<close>

theorem selector_shows_the_active_node:
  assumes "distinct (map cu_pubkey (customs d))" "fst (list_mostro_nodes active d) = Inr entries"
  shows "distinct (map mn_pubkey entries) \<and> take (length trusted_mostro_nodes) (map mn_pubkey entries) = map fst trusted_mostro_nodes \<and>
    map mn_pubkey (filter mn_is_active entries) = [active]"
proof -
  define ns where "ns = snd (auto_import active (rg_now d)
    (if rg_open d then filter (\<lambda>n. \<not> is_trusted_pubkey (cu_pubkey n)) (customs d) else []))"
  obtain m where e: "entries = entries_of active ns m"
    using assms(2) by (auto simp: list_mostro_nodes_def ns_def load_customs drop_promoted_customs_def Let_def split_beta
        and_then_Inr_iff split: if_splits sum.splits)
  have d: "distinct (map cu_pubkey ns)" "\<forall>n \<in> set ns. \<not> is_trusted_pubkey (cu_pubkey n)"
    "is_trusted_pubkey active \<or> active \<in> cu_pubkey ` set ns"
    using distinct_map_filter [OF assms(1), of "\<lambda>n. \<not> is_trusted_pubkey (cu_pubkey n)"]
    by (auto simp: ns_def auto_import_def needs_auto_import_def)
  have dist: "distinct (map mn_pubkey entries)"
  proof -
    have "set (map fst trusted_mostro_nodes) \<inter> set (map cu_pubkey ns) = {}"
    proof -
      have "x \<notin> set (map fst trusted_mostro_nodes)" if "x \<in> set (map cu_pubkey ns)" for x
      proof -
        from that obtain n where "n \<in> set ns" "x = cu_pubkey n" by auto
        then show ?thesis using d(2) unfolding is_trusted_pubkey_def by blast
      qed
      then show ?thesis by blast
    qed
    then show ?thesis using d(1) trusted_distinct by (simp only: e entries_pubkeys distinct_append)
  qed
  have mem: "active \<in> set (map mn_pubkey entries)"
    using d(3) by (auto simp: e entries_pubkeys is_trusted_pubkey_def)
  have "filter mn_is_active entries = filter (\<lambda>x. mn_pubkey x = active) entries"
    by (intro filter_cong refl) (simp add: e entries_active)
  then have "map mn_pubkey (filter mn_is_active entries) = filter (\<lambda>p. p = active) (map mn_pubkey entries)"
    by (simp add: filter_map comp_def)
  also have "\<dots> = [active]"
    using dist mem by (rule distinct_filter_eq)
  finally show ?thesis using dist by (simp add: e entries_pubkeys)
qed

text \<open>
  The active key is read before the lock: a listing that waits for it while the user selects another node and removes
  this one brings the removed node back, without its name.
\<close>

lemma stale_listing_resurrects_a_removed_node:
  assumes "registry_ok d" "rg_open d" "rg_reads d" "rg_writes d" "n \<in> set (customs d)" "cu_pubkey n = p" "to_ascii_lowercase p = p"
    "parse q = Some x" "to_ascii_lowercase q = q" "q \<noteq> p"
    "d1 = snd (set_active_mostro_node parse q d)" "remove_custom_mostro_node p d1 = (r, d2)"
  shows "r = Inr () \<and> p \<notin> cu_pubkey ` set (customs d2) \<and>
    (\<exists>n' \<in> set (customs (snd (list_mostro_nodes p d2))). cu_pubkey n' = p \<and> cu_name n' = None)"
proof -
  have t: "\<not> is_trusted_pubkey p" using assms(1,5,6) by (auto simp: registry_ok_def)
  have d1: "rg_open d1" "rg_reads d1" "rg_writes d1" "customs d1 = customs d" "active_mostro_pubkey d1 = q"
    using assms(2-4,8,9,11) by (simp_all add: set_active_mostro_node_def Let_def active_mostro_pubkey_def)
  then have r: "r = Inr ()" "d2 = d1\<lparr>rg_custom := Stored (filter (\<lambda>n. cu_pubkey n \<noteq> p) (customs d))\<rparr>"
    using assms(7,10,12) t by (auto simp: remove_custom_mostro_node_def Let_def load_custom_nodes_def save_custom_nodes_def customs_def)
  then have c: "customs d2 = filter (\<lambda>n. cu_pubkey n \<noteq> p) (customs d)" "rg_open d2" "rg_reads d2" "rg_writes d2"
    using d1 by simp_all
  have k: "filter (\<lambda>n. \<not> is_trusted_pubkey (cu_pubkey n)) (customs d2) = customs d2"
    using assms(1) by (auto simp: c registry_ok_def intro: filter_cong)
  have "needs_auto_import (customs d2) p" using t by (auto simp: needs_auto_import_def c)
  then have "customs (snd (list_mostro_nodes p d2)) = customs d2 @ [\<lparr>cu_pubkey = p, cu_name = None, cu_added_at = rg_now d2\<rparr>]"
    using c(2-4) k by (simp add: list_mostro_nodes_def load_custom_nodes_def customs_def [symmetric] drop_promoted_customs_def
        auto_import_def save_custom_nodes_def Let_def)
  then show ?thesis using r(1) c(1) by auto
qed

section \<open>Instances\<close>

definition sample_registry :: registry where
  "sample_registry = \<lparr>rg_open = True, rg_reads = True, rg_writes = True,
     rg_custom = Stored [\<lparr>cu_pubkey = ''ab'', cu_name = Some ''mine'', cu_added_at = 1\<rparr>], rg_meta = Missing,
     rg_active_stored = None, rg_override = Some ''cd'', rg_now = 5\<rparr>"

lemma sample_untrusted: "\<not> is_trusted_pubkey ''ab''" "\<not> is_trusted_pubkey ''cd''"
  by (simp_all add: is_trusted_pubkey_def trusted_mostro_nodes_def default_mostro_pubkey_def)

theorem registry_keeps_user_nodes_witness:
  "\<lparr>cu_pubkey = ''ab'', cu_name = Some ''mine'', cu_added_at = 1\<rparr> \<in>
     set (customs (nodes_run [ListNodes ''cd'', SelectNode Some ''ab'', RemoveNode ''cd'', StartNodes] sample_registry))"
proof -
  have ok: "registry_ok sample_registry"
    by (simp add: registry_ok_def customs_def sample_registry_def sample_untrusted)
  have l: "to_ascii_lowercase ''cd'' = ''cd''" by code_simp
  have m: "\<lparr>cu_pubkey = ''ab'', cu_name = Some ''mine'', cu_added_at = 1\<rparr> \<in> set (customs sample_registry)"
    by (simp add: customs_def sample_registry_def)
  show ?thesis
    by (rule registry_keeps_user_nodes [OF ok, THEN conjunct2, THEN bspec, OF m, THEN mp]) (simp add: l)
qed

theorem selector_shows_the_active_node_witness:
  "\<exists>entries. fst (list_mostro_nodes ''cd'' sample_registry) = Inr entries \<and> map mn_pubkey (filter mn_is_active entries) = [''cd'']"
proof -
  let ?n = "\<lparr>cu_pubkey = ''ab'', cu_name = Some ''mine'', cu_added_at = 1\<rparr>"
  let ?ns = "[?n, \<lparr>cu_pubkey = ''cd'', cu_name = None, cu_added_at = rg_now sample_registry\<rparr>]"
  have l: "load_custom_nodes sample_registry = Inr [?n]" "rg_open sample_registry"
    by (simp_all add: load_custom_nodes_def sample_registry_def)
  have a: "drop_promoted_customs [?n] = (False, [?n])" by (simp add: drop_promoted_customs_def sample_untrusted)
  have i: "auto_import ''cd'' (rg_now sample_registry) [?n] = (True, ?ns)"
    by (simp add: auto_import_def needs_auto_import_def sample_untrusted)
  have w: "save_custom_nodes ?ns sample_registry = (Inr (), sample_registry\<lparr>rg_custom := Stored ?ns\<rparr>)"
    "load_metadata_cache (sample_registry\<lparr>rg_custom := Stored ?ns\<rparr>) = Inr fmempty"
    by (simp_all add: save_custom_nodes_def load_metadata_cache_def sample_registry_def blob_value_def)
  have e: "fst (list_mostro_nodes ''cd'' sample_registry) = Inr (entries_of ''cd'' ?ns fmempty)"
    unfolding list_mostro_nodes_def by (simp only: l a i w sum.case prod.case Let_def and_then_def fst_conv if_True if_False simp_thms not_True_eq_False)
  have "distinct (map cu_pubkey (customs sample_registry))" by (simp add: customs_def sample_registry_def)
  from selector_shows_the_active_node [OF this e, THEN conjunct2, THEN conjunct2] e
  show ?thesis by (intro exI conjI)
qed

end
