(* ===== verification/Settings.thy ===== *)
theory Settings
  imports Reputation Invoices
begin

text \<open>
  The user's settings (\<open>rust/src/api/settings.rs\<close>): the store, its validated setters and the snapshots they
  broadcast. The privacy switch lives in the rating store and is mirrored into every snapshot.
\<close>

datatype theme_mode = ThemeSystem | ThemeDark | ThemeLight

record app_settings =
  st_theme :: theme_mode
  st_language :: string
  st_default_fiat_code :: "string option"
  st_default_lightning_address :: "string option"
  st_logging_enabled :: bool
  st_privacy_mode :: bool

record settings_store =
  ss_settings :: app_settings
  ss_snapshots :: "app_settings list"

definition new_settings :: settings_store where
  "new_settings = \<lparr>ss_settings = \<lparr>st_theme = ThemeDark, st_language = ''en'', st_default_fiat_code = None,
       st_default_lightning_address = None, st_logging_enabled = False, st_privacy_mode = False\<rparr>, ss_snapshots = []\<rparr>"

definition get_settings :: "rating_store \<Rightarrow> settings_store \<Rightarrow> app_settings" where
  "get_settings ratings s = (ss_settings s)\<lparr>st_privacy_mode := rs_privacy ratings\<rparr>"

definition write_and_notify :: "rating_store \<Rightarrow> (app_settings \<Rightarrow> app_settings) \<Rightarrow> settings_store \<Rightarrow> settings_store" where
  "write_and_notify ratings f s = (let t = f (ss_settings s) in
     \<lparr>ss_settings = t, ss_snapshots = ss_snapshots s @ [t\<lparr>st_privacy_mode := rs_privacy ratings\<rparr>]\<rparr>)"

section \<open>Validation\<close>

definition supported_locales :: "string list" where
  "supported_locales = [''en'', ''es'', ''it'', ''fr'', ''de'']"

definition quoted :: "string \<Rightarrow> string" where "quoted s = [CHR 0x27] @ s @ [CHR 0x27]"

definition validate_locale :: "string \<Rightarrow> (string, unit) result" where
  "validate_locale locale = (if locale \<in> set supported_locales then Inr ()
     else Inl (''UnsupportedLocale: '' @ quoted locale @ '' is not supported''))"

definition is_ascii_uppercase :: "char \<Rightarrow> bool" where
  "is_ascii_uppercase c \<longleftrightarrow> (let n = of_char c :: nat in 65 \<le> n \<and> n \<le> 90)"

definition is_ascii_alphanumeric :: "char \<Rightarrow> bool" where
  "is_ascii_alphanumeric c \<longleftrightarrow> (let n = of_char c :: nat in 48 \<le> n \<and> n \<le> 57 \<or> 65 \<le> n \<and> n \<le> 90 \<or> 97 \<le> n \<and> n \<le> 122)"

definition validate_fiat_code :: "string \<Rightarrow> (string, unit) result" where
  "validate_fiat_code code = (if length code = 3 \<and> list_all is_ascii_uppercase code then Inr ()
     else Inl (''InvalidFiatCode: '' @ quoted code @ '' must be exactly 3 uppercase ASCII letters (ISO 4217)''))"

definition valid_label :: "string \<Rightarrow> bool" where
  "valid_label label \<longleftrightarrow> label \<noteq> [] \<and> length label \<le> 63 \<and> list_all (\<lambda>c. is_ascii_alphanumeric c \<or> c = CHR ''-'') label \<and>
     hd label \<noteq> CHR ''-'' \<and> last label \<noteq> CHR ''-''"

definition valid_lightning_address :: "string \<Rightarrow> bool" where
  "valid_lightning_address trimmed \<longleftrightarrow> (case split_on (CHR ''@'') trimmed of
      [local, domain] \<Rightarrow> local \<noteq> [] \<and> domain \<noteq> [] \<and>
        (let labels = split_on (CHR ''.'') domain in length labels \<ge> 2 \<and> list_all valid_label labels)
    | _ \<Rightarrow> False)"

definition validate_lightning_address :: "string \<Rightarrow> (string, unit) result" where
  "validate_lightning_address address = (if valid_lightning_address (str_trim address) then Inr ()
     else Inl (''InvalidLightningAddress: '' @ quoted address @ '' must be in user@domain.tld format''))"

section \<open>The setters\<close>

definition set_theme :: "theme_mode \<Rightarrow> rating_store \<Rightarrow> settings_store \<Rightarrow> settings_store" where
  "set_theme theme ratings = write_and_notify ratings (\<lambda>s. s\<lparr>st_theme := theme\<rparr>)"

definition set_language :: "string \<Rightarrow> rating_store \<Rightarrow> settings_store \<Rightarrow> (string, unit) result \<times> settings_store" where
  "set_language locale ratings s = (case validate_locale locale of
      Inl e \<Rightarrow> (Inl e, s)
    | Inr _ \<Rightarrow> (Inr (), write_and_notify ratings (\<lambda>t. t\<lparr>st_language := locale\<rparr>) s))"

definition set_default_fiat_code ::
  "string option \<Rightarrow> rating_store \<Rightarrow> settings_store \<Rightarrow> (string, unit) result \<times> settings_store" where
  "set_default_fiat_code code ratings s = (case (case code of Some c \<Rightarrow> validate_fiat_code c | None \<Rightarrow> Inr ()) of
      Inl e \<Rightarrow> (Inl e, s)
    | Inr _ \<Rightarrow> (Inr (), write_and_notify ratings (\<lambda>t. t\<lparr>st_default_fiat_code := code\<rparr>) s))"

definition set_default_lightning_address ::
  "string option \<Rightarrow> rating_store \<Rightarrow> settings_store \<Rightarrow> (string, unit) result \<times> settings_store" where
  "set_default_lightning_address address ratings s = (let normalized = map_option str_trim address in
     (case (case normalized of Some a \<Rightarrow> validate_lightning_address a | None \<Rightarrow> Inr ()) of
        Inl e \<Rightarrow> (Inl e, s)
      | Inr _ \<Rightarrow> (Inr (), write_and_notify ratings (\<lambda>t. t\<lparr>st_default_lightning_address := normalized\<rparr>) s)))"

text \<open>With a runtime the flag is written by a spawned task, else at once and without a snapshot.\<close>

definition set_logging_enabled :: "bool \<Rightarrow> bool \<Rightarrow> rating_store \<Rightarrow> settings_store \<Rightarrow> settings_store" where
  "set_logging_enabled enabled runtime ratings s =
     (if runtime then write_and_notify ratings (\<lambda>t. t\<lparr>st_logging_enabled := enabled\<rparr>) s
      else s\<lparr>ss_settings := (ss_settings s)\<lparr>st_logging_enabled := enabled\<rparr>\<rparr>)"

definition set_test_order_expiry :: "u64 option \<Rightarrow> u64 option" where
  "set_test_order_expiry secs = opt_filter (\<lambda>s. s > 0 \<and> unat s < 2 ^ 63) secs"

section \<open>Only valid settings\<close>

datatype settings_event =
    SetTheme theme_mode
  | SetLanguage string
  | SetFiat "string option"
  | SetAddress "string option"
  | SetLogging bool bool

fun settings_step :: "rating_store \<times> settings_event \<Rightarrow> settings_store \<Rightarrow> settings_store" where
  "settings_step (r, SetTheme t) s = set_theme t r s"
| "settings_step (r, SetLanguage l) s = snd (set_language l r s)"
| "settings_step (r, SetFiat c) s = snd (set_default_fiat_code c r s)"
| "settings_step (r, SetAddress a) s = snd (set_default_lightning_address a r s)"
| "settings_step (r, SetLogging b runtime) s = set_logging_enabled b runtime r s"

definition settings_ok :: "app_settings \<Rightarrow> bool" where
  "settings_ok t \<longleftrightarrow> st_language t \<in> set supported_locales \<and>
     (case st_default_fiat_code t of Some c \<Rightarrow> length c = 3 \<and> list_all is_ascii_uppercase c | None \<Rightarrow> True) \<and>
     (case st_default_lightning_address t of Some a \<Rightarrow> valid_lightning_address (str_trim a) | None \<Rightarrow> True)"

definition store_ok :: "settings_store \<Rightarrow> bool" where
  "store_ok s \<longleftrightarrow> settings_ok (ss_settings s) \<and> list_all settings_ok (ss_snapshots s)"

lemma ok_mirror [simp]:
  "settings_ok (t\<lparr>st_privacy_mode := b\<rparr>) = settings_ok t" "settings_ok (t\<lparr>st_theme := m\<rparr>) = settings_ok t"
  "settings_ok (t\<lparr>st_logging_enabled := b\<rparr>) = settings_ok t"
  by (simp_all add: settings_ok_def)

lemma write_ok: "store_ok s \<Longrightarrow> settings_ok (f (ss_settings s)) \<Longrightarrow> store_ok (write_and_notify r f s)"
  by (simp add: store_ok_def write_and_notify_def Let_def)

lemma store_okD: "store_ok s \<Longrightarrow> settings_ok (ss_settings s)"
  by (simp add: store_ok_def)

lemma settings_step_ok:
  assumes "store_ok s"
  shows "store_ok (settings_step (r, e) s)"
proof (cases e)
  case (SetTheme t)
  then show ?thesis using assms store_okD [OF assms] by (simp add: set_theme_def write_ok)
next
  case (SetLanguage l)
  have "l \<in> set supported_locales \<Longrightarrow> settings_ok ((ss_settings s)\<lparr>st_language := l\<rparr>)"
    using store_okD [OF assms] by (simp add: settings_ok_def)
  then show ?thesis using assms by (simp add: SetLanguage set_language_def validate_locale_def write_ok)
next
  case (SetFiat c)
  have "validate_fiat_code (the c) = Inr () \<or> c = None \<Longrightarrow> settings_ok ((ss_settings s)\<lparr>st_default_fiat_code := c\<rparr>)"
    using store_okD [OF assms] by (auto simp: settings_ok_def validate_fiat_code_def split: option.split if_splits)
  then show ?thesis using assms
    by (auto simp: SetFiat set_default_fiat_code_def intro!: write_ok split: option.split sum.split)
next
  case (SetAddress a)
  have "validate_lightning_address (the x) = Inr () \<or> x = None \<Longrightarrow> settings_ok ((ss_settings s)\<lparr>st_default_lightning_address := x\<rparr>)" for x
    using store_okD [OF assms] by (auto simp: settings_ok_def validate_lightning_address_def split: option.split if_splits)
  then show ?thesis using assms
    by (auto simp: SetAddress set_default_lightning_address_def Let_def intro!: write_ok split: option.split sum.split)
next
  case (SetLogging b runtime)
  then show ?thesis using assms store_okD [OF assms] by (auto simp: set_logging_enabled_def write_ok) (simp add: store_ok_def)
qed

text \<open>
  Only valid settings are kept or shown. Over any history of setters, whatever they are given and however the privacy
  switch moves, the language is a supported one, the currency three capital letters and the lightning
  address of the form \<open>user@domain.tld\<close>, in the store and in every snapshot.
\<close>

theorem settings_stay_valid: "store_ok (fold settings_step es new_settings)"
proof (induction es rule: rev_induct)
  case Nil
  then show ?case by (simp add: store_ok_def new_settings_def settings_ok_def supported_locales_def)
next
  case (snoc e es)
  then show ?case by (cases e) (simp add: settings_step_ok)
qed

end
