(* ===== verification/Cashu_Wallet.thy ===== *)
theory Cashu_Wallet
  imports Escrow_Mode Chat_Files
begin

text \<open>
  The Cashu wallet: \<open>rust/src/cashu/wallet.rs\<close> (connect, probe, send, receive, sweep) and the wallet the user interface
  holds, \<open>rust/src/api/cashu.rs\<close>. The wallet of the \<open>cdk\<close> crate, its proof store and the mint are parameters: the
  answers of their calls, or functions on a state of theirs where a law relates two calls. The web stub of
  \<open>cashu/mod.rs\<close>, which refuses every call, is left out; the stream is the log of what was sent to it.
\<close>

section \<open>What a mint must support\<close>

record mint_capabilities =
  mc_nut07_state_check :: bool
  mc_nut11_p2pk :: bool
  mc_nut12_dleq :: bool
  mc_has_sat_keyset :: bool

definition mint_usable :: "mint_capabilities \<Rightarrow> bool" where
  "mint_usable c \<longleftrightarrow> mc_nut07_state_check c \<and> mc_nut11_p2pk c \<and> mc_nut12_dleq c \<and> mc_has_sat_keyset c"

definition missing_capabilities :: "mint_capabilities \<Rightarrow> string list" where
  "missing_capabilities c =
     (if \<not> mc_nut07_state_check c then [''nut07''] else []) @
     (if \<not> mc_nut11_p2pk c then [''nut11''] else []) @
     (if \<not> mc_nut12_dleq c then [''nut12''] else []) @
     (if \<not> mc_has_sat_keyset c then [''sat_keyset''] else [])"

lemma missing_none: "missing_capabilities c = [] \<longleftrightarrow> mint_usable c"
  by (simp add: missing_capabilities_def mint_usable_def)

text \<open>The unit of a token or keyset: satoshis, or another with its name as \<open>cdk\<close> prints it.\<close>

datatype currency_unit = UnitSat | UnitOther string

text \<open>What the store, the wallet and the mint answer during a connect; the support flags are NUT-07, 11 and 12.\<close>

record connect_answers =
  ca_store :: "(string, unit) result"
  ca_wallet :: "(string, unit) result"
  ca_info :: "(string, (bool \<times> bool \<times> bool) option) result"
  ca_keysets :: "(string, currency_unit list) result"

definition unreachable_mint :: "string \<Rightarrow> string" where "unreachable_mint e = ''CashuMintUnreachable: '' @ e"

definition probe_mint :: "connect_answers \<Rightarrow> (string, mint_capabilities) result" where
  "probe_mint a =
     and_then (map_error unreachable_mint (ca_info a)) (\<lambda>published. case published of
         None \<Rightarrow> Inl (unreachable_mint ''mint published no info'')
       | Some (nut07, nut11, nut12) \<Rightarrow>
           and_then (map_error unreachable_mint (ca_keysets a)) (\<lambda>keysets.
             Inr \<lparr>mc_nut07_state_check = nut07, mc_nut11_p2pk = nut11, mc_nut12_dleq = nut12,
                  mc_has_sat_keyset = (UnitSat \<in> set keysets)\<rparr>))"

record cashu_wallet =
  wl_mint_url :: string
  wl_capabilities :: mint_capabilities

definition commas :: "string list \<Rightarrow> string" where
  "commas ms = concat (case ms of [] \<Rightarrow> [] | m # ms' \<Rightarrow> m # map (\<lambda>x. '','' @ x) ms')"

definition wallet_connect :: "string \<Rightarrow> connect_answers \<Rightarrow> (string, cashu_wallet) result" where
  "wallet_connect mint_url a =
     and_then (map_error (\<lambda>e. ''CashuStoreUnavailable: '' @ e) (ca_store a)) (\<lambda>_.
     and_then (map_error (\<lambda>e. ''CashuWalletInit: '' @ e) (ca_wallet a)) (\<lambda>_.
     and_then (probe_mint a) (\<lambda>capabilities.
       if \<not> mint_usable capabilities then Inl (''CashuMintUnusable: '' @ commas (missing_capabilities capabilities))
       else Inr \<lparr>wl_mint_url = mint_url, wl_capabilities = capabilities\<rparr>)))"

lemma connected_wallet:
  "wallet_connect m a = Inr w \<Longrightarrow> wl_mint_url w = m \<and> mint_usable (wl_capabilities w)"
  by (auto simp: wallet_connect_def and_then_Inr_iff split: if_splits)

section \<open>Sending and receiving\<close>

text \<open>The strip of white space and of the scheme; \<open>strip_prefix\<close> is Rust's.\<close>

definition strip_prefix :: "string \<Rightarrow> string \<Rightarrow> string option" where
  "strip_prefix p s = (if starts_with p s then Some (drop (length p) s) else None)"

definition normalize_token :: "string \<Rightarrow> string" where
  "normalize_token encoded = (let trimmed = str_trim encoded in
     str_trim (case strip_prefix ''cashu://'' trimmed of
         Some rest \<Rightarrow> rest
       | None \<Rightarrow> (case strip_prefix ''cashu:'' trimmed of Some rest \<Rightarrow> rest | None \<Rightarrow> trimmed)))"

text \<open>
  A send over the state \<open>'w\<close> of the wallet and the mint: \<open>prepare_send\<close> reserves proofs under an operation, \<open>confirm\<close>
  makes the token, \<open>revoke_send\<close> takes the reservation back. \<open>'c\<close> is the type of spending conditions.
\<close>

record ('w, 'o, 'c) send_lib =
  sd_prepare :: "u64 \<Rightarrow> 'c option \<Rightarrow> 'w \<Rightarrow> (string, 'o) result \<times> 'w"
  sd_confirm :: "'o \<Rightarrow> 'w \<Rightarrow> (string, string) result \<times> 'w"
  sd_revoke :: "'o \<Rightarrow> 'w \<Rightarrow> (string, u64) result \<times> 'w"

definition send_with_conditions ::
  "('w, 'o, 'c) send_lib \<Rightarrow> u64 \<Rightarrow> 'c option \<Rightarrow> 'w \<Rightarrow> (string, string) result \<times> 'w" where
  "send_with_conditions lib amount_sats conditions w =
     (if amount_sats = 0 then (Inl ''CashuAmountZero'', w)
      else (case sd_prepare lib amount_sats conditions w of
          (Inl e, w1) \<Rightarrow> (Inl (''CashuSendFailed: '' @ e), w1)
        | (Inr op', w1) \<Rightarrow> (case sd_confirm lib op' w1 of
            (Inr token, w2) \<Rightarrow> (Inr token, w2)
          | (Inl e, w2) \<Rightarrow> (case sd_revoke lib op' w2 of
              (Inr reclaimed, w3) \<Rightarrow>
                (Inl (''CashuSendFailed: '' @ e @ '' (reclaimed '' @ nat_digits (unat reclaimed) @ '' sat)''), w3)
            | (Inl _, w3) \<Rightarrow> (Inl (''CashuSendUnresolved: '' @ e), w3)))))"

definition create_token :: "('w, 'o, 'c) send_lib \<Rightarrow> u64 \<Rightarrow> 'w \<Rightarrow> (string, string) result \<times> 'w" where
  "create_token lib amount_sats w = send_with_conditions lib amount_sats None w"

text \<open>Why the mint's DLEQ proofs did not verify: \<open>IncorrectWallet\<close> for a token of another mint.\<close>

datatype dleq_error = IncorrectWallet string | DleqError string

definition receive_token ::
  "(string \<Rightarrow> (string, 't) result) \<Rightarrow> ('t \<Rightarrow> (dleq_error, unit) result) \<Rightarrow> (string \<Rightarrow> (string, u64) result) \<Rightarrow> string
     \<Rightarrow> (string, u64) result" where
  "receive_token parse verify_dleq swap encoded = (let normalized = normalize_token encoded in
     and_then (map_error (\<lambda>e. ''CashuReceiveFailed: '' @ e) (parse normalized)) (\<lambda>token.
       case verify_dleq token of
         Inl (IncorrectWallet detail) \<Rightarrow> Inl (''CashuReceiveFailed: '' @ detail)
       | Inl (DleqError other) \<Rightarrow> Inl (''CashuTokenUnverified: '' @ other)
       | Inr _ \<Rightarrow> map_error (\<lambda>e. ''CashuReceiveFailed: '' @ e) (swap normalized)))"

definition wallet_balance :: "(string, u64) result \<Rightarrow> (string, u64) result" where
  "wallet_balance answer = map_error (\<lambda>e. ''CashuBalance: '' @ e) answer"

definition sweep_spent_proofs :: "(string, u64) result \<Rightarrow> (string, unit) result" where
  "sweep_spent_proofs answer = and_then (map_error (\<lambda>e. ''CashuStateCheckFailed: '' @ e) answer) (\<lambda>_. Inr ())"

section \<open>The wallet of the process\<close>

text \<open>
  \<open>cu_slot\<close> is the wallet, \<open>cu_escrow\<close> the cached resolution of the escrow mode, \<open>cu_waiting\<close> the connects past the gate
  that wait for the lifecycle lock and \<open>cu_phase\<close> the one that holds it; \<open>cu_gated\<close> are the calls past the gate that
  wait for the slot and \<open>cu_holding\<close> those that took a wallet from it. \<open>cu_sent\<close> logs the statuses broadcast, \<open>cu_calls\<close>
  the wallets handed out for a call of the mint and \<open>cu_probed\<close> the mints a connect talked to.
\<close>

record cashu_status =
  st_connected :: bool
  st_mint_url :: "string option"
  st_balance_sats :: "u64 option"
  st_missing_capabilities :: "string list"

datatype connect_phase = Unlocked | Locked | Talking string

record cashu_desk =
  cu_slot :: "cashu_wallet option"
  cu_escrow :: escrow_globals
  cu_waiting :: nat
  cu_phase :: connect_phase
  cu_gated :: "nat fset"
  cu_holding :: "(nat, cashu_wallet) fmap"
  cu_sent :: "cashu_status list"
  cu_calls :: "cashu_wallet list"
  cu_probed :: "string list"

definition trim_slashes :: "string \<Rightarrow> string" where
  "trim_slashes s = rev (dropWhile (\<lambda>c. c = CHR ''/'') (rev s))"

text \<open>The parent of a path, as \<open>std::path\<close> has it for paths without a \<open>.\<close> component.\<close>

definition path_parent :: "string \<Rightarrow> string option" where
  "path_parent path = (let p = trim_slashes path in
     if p = [] then None
     else let d = rev (dropWhile (\<lambda>c. c \<noteq> CHR ''/'') (rev p)) in
       Some (if d \<noteq> [] \<and> trim_slashes d = [] then ''/'' else trim_slashes d))"

definition sibling_store_path :: "string option \<Rightarrow> (string, string) result" where
  "sibling_store_path app_db = (case app_db of
      None \<Rightarrow> Inl ''CashuStoreUnavailable''
    | Some p \<Rightarrow> (case opt_filter (\<lambda>d. d \<noteq> []) (path_parent p) of
        Some dir \<Rightarrow> Inr (path_join dir ''cashu.sqlite'')
      | None \<Rightarrow> Inr ''cashu.sqlite''))"

definition same_mint :: "string \<Rightarrow> string option \<Rightarrow> bool" where
  "same_mint bound_to resolved_now \<longleftrightarrow> (case resolved_now of
      Some current \<Rightarrow> trim_slashes current = trim_slashes bound_to | None \<Rightarrow> False)"

definition resolved_mint :: "escrow_globals \<Rightarrow> string option" where
  "resolved_mint g = cn_mint_url (re_config (get_resolved g))"

definition ensure_enabled :: "escrow_globals \<Rightarrow> (string, unit) result" where
  "ensure_enabled g = (if \<not> is_cashu_mode g then Inl ''CashuNotEnabled'' else Inr ())"

text \<open>
  A call takes its handle in three looks: the gate, the slot behind its lock, and the resolution again; other tasks
  run in between (\<open>during 0\<close> and \<open>during 1\<close>).
\<close>

definition read_slot :: "cashu_desk \<Rightarrow> (string, cashu_wallet) result" where
  "read_slot d = (case cu_slot d of None \<Rightarrow> Inl ''CashuNotConnected'' | Some wallet \<Rightarrow> Inr wallet)"

definition check_mint :: "cashu_wallet \<Rightarrow> cashu_desk \<Rightarrow> (string, cashu_wallet) result" where
  "check_mint wallet d = (if \<not> same_mint (wl_mint_url wallet) (resolved_mint (cu_escrow d)) then Inl ''CashuMintChanged''
     else Inr wallet)"

definition active_wallet ::
  "(nat \<Rightarrow> cashu_desk \<Rightarrow> cashu_desk) \<Rightarrow> cashu_desk \<Rightarrow> (string, cashu_wallet) result \<times> cashu_desk" where
  "active_wallet during d = (case ensure_enabled (cu_escrow d) of
      Inl e \<Rightarrow> (Inl e, d)
    | Inr _ \<Rightarrow> let d1 = during 0 d in
        (case read_slot d1 of
           Inl e \<Rightarrow> (Inl e, d1)
         | Inr wallet \<Rightarrow> let d2 = during 1 d1 in (check_mint wallet d2, d2)))"

definition cashu_snapshot :: "(string, u64) result \<Rightarrow> cashu_desk \<Rightarrow> cashu_status" where
  "cashu_snapshot balance d = (case cu_slot d of
      Some wallet \<Rightarrow> \<lparr>st_connected = True, st_mint_url = Some (wl_mint_url wallet),
        st_balance_sats = (case wallet_balance balance of Inr b \<Rightarrow> Some b | Inl _ \<Rightarrow> None),
        st_missing_capabilities = missing_capabilities (wl_capabilities wallet)\<rparr>
    | None \<Rightarrow> \<lparr>st_connected = False, st_mint_url = None, st_balance_sats = Some 0, st_missing_capabilities = []\<rparr>)"

definition cashu_notify :: "(string, u64) result \<Rightarrow> cashu_desk \<Rightarrow> cashu_desk" where
  "cashu_notify balance d = d\<lparr>cu_sent := cu_sent d @ [cashu_snapshot balance d]\<rparr>"

text \<open>
  A connect, once it has the lifecycle lock: the live wallet is reused, or dropped because the node pins another mint;
  then the mint is resolved anew. With the seed, the path and the replies of the mint, the check before it is installed.
\<close>

definition connect_begin :: "cashu_desk \<Rightarrow> bool \<times> cashu_desk" where
  "connect_begin d = (case cu_slot d of
      Some wallet \<Rightarrow> if same_mint (wl_mint_url wallet) (resolved_mint (cu_escrow d)) then (True, d)
        else (False, d\<lparr>cu_slot := None\<rparr>)
    | None \<Rightarrow> (False, d))"

definition connect_mint :: "cashu_desk \<Rightarrow> (string, string) result" where
  "connect_mint d = (case resolved_mint (cu_escrow d) of None \<Rightarrow> Inl ''CashuNotEnabled'' | Some mint_url \<Rightarrow> Inr mint_url)"

text \<open>The mint is asked once the seed, the path, the store and the wallet of the crate are there.\<close>

definition reaches_mint :: "(string, unit) result \<Rightarrow> string option \<Rightarrow> connect_answers \<Rightarrow> bool" where
  "reaches_mint seed app_db replies \<longleftrightarrow> seed = Inr () \<and> (case sibling_store_path app_db of Inr _ \<Rightarrow> True | Inl _ \<Rightarrow> False) \<and>
     ca_store replies = Inr () \<and> ca_wallet replies = Inr ()"

definition connect_end ::
  "string \<Rightarrow> (string, unit) result \<Rightarrow> string option \<Rightarrow> connect_answers \<Rightarrow> (string, u64) result \<Rightarrow> cashu_desk
     \<Rightarrow> (string, cashu_status) result \<times> cashu_desk" where
  "connect_end mint_url seed app_db replies balance d =
     (let d0 = (if reaches_mint seed app_db replies then d\<lparr>cu_probed := cu_probed d @ [mint_url]\<rparr> else d) in
      case and_then seed (\<lambda>_. and_then (sibling_store_path app_db) (\<lambda>_. wallet_connect mint_url replies)) of
        Inl e \<Rightarrow> (Inl e, d0)
      | Inr wallet \<Rightarrow>
          if \<not> same_mint mint_url (resolved_mint (cu_escrow d0)) then (Inl ''CashuNotEnabled'', d0)
          else let d1 = cashu_notify balance (if cu_slot d0 = None then d0\<lparr>cu_slot := Some wallet\<rparr> else d0)
            in (Inr (cashu_snapshot balance d1), d1))"

text \<open>
  The whole call; other tasks run while it waits for the lock, before it resolves the mint and while it talks to it
  (\<open>during 0\<close> to \<open>during 2\<close>).
\<close>

definition cashu_connect ::
  "(nat \<Rightarrow> cashu_desk \<Rightarrow> cashu_desk) \<Rightarrow> (string, unit) result \<Rightarrow> string option \<Rightarrow> connect_answers
     \<Rightarrow> (string, u64) result \<Rightarrow> cashu_desk \<Rightarrow> (string, cashu_status) result \<times> cashu_desk" where
  "cashu_connect during seed app_db replies balance d = (case ensure_enabled (cu_escrow d) of
      Inl e \<Rightarrow> (Inl e, d)
    | Inr _ \<Rightarrow> (case connect_begin (during 0 d) of
        (True, d1) \<Rightarrow> (Inr (cashu_snapshot balance d1), d1)
      | (False, d1) \<Rightarrow> let d2 = during 1 d1 in
          (case connect_mint d2 of
             Inl e \<Rightarrow> (Inl e, d2)
           | Inr mint_url \<Rightarrow> connect_end mint_url seed app_db replies balance (during 2 d2))))"

definition cashu_disconnect :: "(string, u64) result \<Rightarrow> cashu_desk \<Rightarrow> cashu_desk" where
  "cashu_disconnect balance d = cashu_notify balance (d\<lparr>cu_slot := None\<rparr>)"

text \<open>
  A call that needs the mint: it takes the handle, runs \<open>use\<close> on it while other tasks run (\<open>during 2\<close>), and reports the
  change when it succeeded. Receive, create and sweep report, the balance does not.
\<close>

definition with_wallet ::
  "bool \<Rightarrow> (nat \<Rightarrow> cashu_desk \<Rightarrow> cashu_desk) \<Rightarrow> (cashu_wallet \<Rightarrow> (string, 'a) result) \<Rightarrow> (string, u64) result \<Rightarrow> cashu_desk
     \<Rightarrow> (string, 'a) result \<times> cashu_desk" where
  "with_wallet reports during use balance d = (case active_wallet during d of
      (Inl e, d1) \<Rightarrow> (Inl e, d1)
    | (Inr wallet, d1) \<Rightarrow>
        let d2 = during 2 (d1\<lparr>cu_calls := cu_calls d1 @ [wallet]\<rparr>) in
        (case use wallet of
           Inl e \<Rightarrow> (Inl e, d2)
         | Inr x \<Rightarrow> (Inr x, if reports then cashu_notify balance d2 else d2)))"

definition cashu_get_balance ::
  "(nat \<Rightarrow> cashu_desk \<Rightarrow> cashu_desk) \<Rightarrow> (cashu_wallet \<Rightarrow> (string, u64) result) \<Rightarrow> cashu_desk \<Rightarrow> (string, u64) result \<times> cashu_desk" where
  "cashu_get_balance during answer d = with_wallet False during (\<lambda>w. wallet_balance (answer w)) (Inr 0) d"

definition cashu_receive_token ::
  "(nat \<Rightarrow> cashu_desk \<Rightarrow> cashu_desk) \<Rightarrow> (cashu_wallet \<Rightarrow> string \<Rightarrow> (string, u64) result) \<Rightarrow> string \<Rightarrow> (string, u64) result \<Rightarrow> cashu_desk
     \<Rightarrow> (string, u64) result \<times> cashu_desk" where
  "cashu_receive_token during redeem encoded balance d = with_wallet True during (\<lambda>w. redeem w encoded) balance d"

definition cashu_create_token ::
  "(nat \<Rightarrow> cashu_desk \<Rightarrow> cashu_desk) \<Rightarrow> (cashu_wallet \<Rightarrow> u64 \<Rightarrow> (string, string) result) \<Rightarrow> u64 \<Rightarrow> (string, u64) result \<Rightarrow> cashu_desk
     \<Rightarrow> (string, string) result \<times> cashu_desk" where
  "cashu_create_token during make_token amount_sats balance d =
     with_wallet True during (\<lambda>w. make_token w amount_sats) balance d"

definition cashu_sweep_spent_proofs ::
  "(nat \<Rightarrow> cashu_desk \<Rightarrow> cashu_desk) \<Rightarrow> (cashu_wallet \<Rightarrow> (string, u64) result) \<Rightarrow> (string, u64) result \<Rightarrow> cashu_desk
     \<Rightarrow> (string, unit) result \<times> cashu_desk" where
  "cashu_sweep_spent_proofs during answer balance d =
     with_wallet True during (\<lambda>w. sweep_spent_proofs (answer w)) balance d"

section \<open>A failed send\<close>

text \<open>
  What the code relies on in the reservations of the wallet: a prepared send reserves under a fresh operation, a
  confirm that fails keeps the reservation or rolls it back, a revoke that succeeds takes it back.
\<close>

definition reservation_laws :: "('w, 'o, 'c) send_lib \<Rightarrow> ('w \<Rightarrow> 'o set) \<Rightarrow> bool" where
  "reservation_laws lib reserved \<longleftrightarrow>
     (\<forall>a c w. case sd_prepare lib a c w of
        (Inl _, w') \<Rightarrow> reserved w' = reserved w
      | (Inr op', w') \<Rightarrow> op' \<notin> reserved w \<and> reserved w' = insert op' (reserved w)) \<and>
     (\<forall>op' w. case sd_confirm lib op' w of
        (Inl _, w') \<Rightarrow> reserved w' = reserved w \<or> reserved w' = reserved w - {op'}
      | (Inr _, w') \<Rightarrow> reserved w' = reserved w) \<and>
     (\<forall>op' w. case sd_revoke lib op' w of
        (Inl _, w') \<Rightarrow> reserved w' = reserved w
      | (Inr _, w') \<Rightarrow> reserved w' = reserved w - {op'})"

lemma reservation_lawsD:
  assumes "reservation_laws lib reserved"
  shows "sd_prepare lib a c w = (Inl e, w') \<Longrightarrow> reserved w' = reserved w"
    "sd_prepare lib a c w = (Inr op', w') \<Longrightarrow> op' \<notin> reserved w \<and> reserved w' = insert op' (reserved w)"
    "sd_confirm lib op' w = (Inl e, w') \<Longrightarrow> reserved w' = reserved w \<or> reserved w' = reserved w - {op'}"
    "sd_confirm lib op' w = (Inr t, w') \<Longrightarrow> reserved w' = reserved w"
    "sd_revoke lib op' w = (Inl e, w') \<Longrightarrow> reserved w' = reserved w"
    "sd_revoke lib op' w = (Inr n, w') \<Longrightarrow> reserved w' = reserved w - {op'}"
proof -
  have p: "case sd_prepare lib a c w of (Inl _, w') \<Rightarrow> reserved w' = reserved w
      | (Inr op', w') \<Rightarrow> op' \<notin> reserved w \<and> reserved w' = insert op' (reserved w)"
    and q: "case sd_confirm lib op' w of (Inl _, w') \<Rightarrow> reserved w' = reserved w \<or> reserved w' = reserved w - {op'}
      | (Inr _, w') \<Rightarrow> reserved w' = reserved w"
    and r: "case sd_revoke lib op' w of (Inl _, w') \<Rightarrow> reserved w' = reserved w
      | (Inr _, w') \<Rightarrow> reserved w' = reserved w - {op'}"
    using assms by (simp_all add: reservation_laws_def)
  show "sd_prepare lib a c w = (Inl e, w') \<Longrightarrow> reserved w' = reserved w"
    "sd_prepare lib a c w = (Inr op', w') \<Longrightarrow> op' \<notin> reserved w \<and> reserved w' = insert op' (reserved w)"
    using p by simp_all
  show "sd_confirm lib op' w = (Inl e, w') \<Longrightarrow> reserved w' = reserved w \<or> reserved w' = reserved w - {op'}"
    "sd_confirm lib op' w = (Inr t, w') \<Longrightarrow> reserved w' = reserved w"
    using q by simp_all
  show "sd_revoke lib op' w = (Inl e, w') \<Longrightarrow> reserved w' = reserved w"
    "sd_revoke lib op' w = (Inr n, w') \<Longrightarrow> reserved w' = reserved w - {op'}"
    using r by simp_all
qed

text \<open>
  C24: A send never hides money without saying so. A token that is handed out holds one fresh reservation; after
  an error nothing more is reserved than before the send, unless the error is the one that says the outcome is
  unresolved, and then at most the one operation of this send is.
\<close>

theorem failed_send_reserves_nothing:
  assumes "reservation_laws lib reserved" "send_with_conditions lib amount_sats conditions w = (r, w')"
  shows "case r of
      Inr token \<Rightarrow> amount_sats \<noteq> 0 \<and> (\<exists>op'. op' \<notin> reserved w \<and> reserved w' = insert op' (reserved w))
    | Inl e \<Rightarrow> reserved w' = reserved w \<or>
        (\<exists>e' op'. e = ''CashuSendUnresolved: '' @ e' \<and> op' \<notin> reserved w \<and> reserved w' = insert op' (reserved w))"
proof (cases "sd_prepare lib amount_sats conditions w")
  case (Pair p w1)
  show ?thesis
  proof (cases "amount_sats = 0")
    case True
    then show ?thesis using assms(2) by (auto simp: send_with_conditions_def)
  next
    case False
    show ?thesis
    proof (cases p)
      case (Inl e)
      then show ?thesis using assms False Pair reservation_lawsD(1) [OF assms(1)]
        by (auto simp: send_with_conditions_def)
    next
      case (Inr op')
      note prep = reservation_lawsD(2) [OF assms(1) Pair [unfolded Inr]]
      obtain c w2 where c: "sd_confirm lib op' w1 = (c, w2)" by fastforce
      obtain v w3 where v: "sd_revoke lib op' w2 = (v, w3)" by fastforce
      note conf = reservation_lawsD(3,4) [OF assms(1)] and rev' = reservation_lawsD(5,6) [OF assms(1)]
      show ?thesis
      proof (cases c)
        case (Inr token)
        then show ?thesis using assms(2) False Pair \<open>p = Inr op'\<close> c prep conf(2) [OF c [unfolded Inr]]
          by (auto simp: send_with_conditions_def)
      next
        case (Inl e)
        note k = conf(1) [OF c [unfolded Inl]]
        show ?thesis
        proof (cases v)
          case (Inl e')
          then show ?thesis using assms(2) False Pair \<open>p = Inr op'\<close> c \<open>c = Inl e\<close> v prep k rev'(1) [OF v [unfolded Inl]]
            by (auto simp: send_with_conditions_def)
        next
          case (Inr n)
          then show ?thesis using assms(2) False Pair \<open>p = Inr op'\<close> c \<open>c = Inl e\<close> v prep k rev'(2) [OF v [unfolded Inr]]
            by (auto simp: send_with_conditions_def)
        qed
      qed
    qed
  qed
qed

section \<open>Which wallet is used\<close>

text \<open>
  A history of the process. Connects and disconnects take the lifecycle lock (a connect holds it while it talks to the
  mint), the resolution may change at any time, and the looks of any number of calls and connects interleave.
\<close>

datatype cashu_event =
    ConnectAsked
  | ConnectBegins
  | ConnectResolves
  | ConnectEnds "(string, unit) result" "string option" connect_answers "(string, u64) result"
  | Disconnects "(string, u64) result"
  | NodeMoves escrow_globals
  | CallAsked nat
  | CallReadsSlot nat
  | CallChecks nat
  | ReportsChange "(string, u64) result"

fun cashu_step :: "cashu_event \<Rightarrow> cashu_desk \<Rightarrow> cashu_desk" where
  "cashu_step ConnectAsked d = (if ensure_enabled (cu_escrow d) = Inr () then d\<lparr>cu_waiting := Suc (cu_waiting d)\<rparr> else d)"
| "cashu_step ConnectBegins d = (if cu_waiting d = 0 \<or> cu_phase d \<noteq> Unlocked then d
     else (case connect_begin (d\<lparr>cu_waiting := cu_waiting d - 1\<rparr>) of
       (True, d1) \<Rightarrow> d1 | (False, d1) \<Rightarrow> d1\<lparr>cu_phase := Locked\<rparr>))"
| "cashu_step ConnectResolves d = (if cu_phase d \<noteq> Locked then d
     else (case connect_mint d of Inl _ \<Rightarrow> d\<lparr>cu_phase := Unlocked\<rparr> | Inr m \<Rightarrow> d\<lparr>cu_phase := Talking m\<rparr>))"
| "cashu_step (ConnectEnds seed app_db replies balance) d = (case cu_phase d of
      Talking m \<Rightarrow> (snd (connect_end m seed app_db replies balance d))\<lparr>cu_phase := Unlocked\<rparr> | _ \<Rightarrow> d)"
| "cashu_step (Disconnects balance) d = (if cu_phase d \<noteq> Unlocked then d else cashu_disconnect balance d)"
| "cashu_step (NodeMoves g) d = d\<lparr>cu_escrow := g\<rparr>"
| "cashu_step (CallAsked k) d = (if ensure_enabled (cu_escrow d) = Inr () then d\<lparr>cu_gated := finsert k (cu_gated d)\<rparr> else d)"
| "cashu_step (CallReadsSlot k) d = (if k |\<notin>| cu_gated d then d
     else let d1 = d\<lparr>cu_gated := cu_gated d |-| {|k|}\<rparr> in
       (case read_slot d of Inl _ \<Rightarrow> d1 | Inr wallet \<Rightarrow> d1\<lparr>cu_holding := fmupd k wallet (cu_holding d)\<rparr>))"
| "cashu_step (CallChecks k) d = (case fmlookup (cu_holding d) k of
      None \<Rightarrow> d
    | Some wallet \<Rightarrow> let d1 = d\<lparr>cu_holding := fmdrop k (cu_holding d)\<rparr> in
        (case check_mint wallet d of Inl _ \<Rightarrow> d1 | Inr w \<Rightarrow> d1\<lparr>cu_calls := cu_calls d @ [w]\<rparr>))"
| "cashu_step (ReportsChange balance) d = cashu_notify balance d"

definition cashu_run :: "cashu_event list \<Rightarrow> cashu_desk \<Rightarrow> cashu_desk" where
  "cashu_run es d = fold cashu_step es d"

definition new_cashu_desk :: "escrow_globals \<Rightarrow> cashu_desk" where
  "new_cashu_desk g = \<lparr>cu_slot = None, cu_escrow = g, cu_waiting = 0, cu_phase = Unlocked, cu_gated = {||},
     cu_holding = fmempty, cu_sent = [], cu_calls = [], cu_probed = []\<rparr>"

text \<open>An earlier event of the history at a moment of which \<open>P\<close> holds.\<close>

definition earlier :: "escrow_globals \<Rightarrow> cashu_event list \<Rightarrow> cashu_event \<Rightarrow> (escrow_globals \<Rightarrow> bool) \<Rightarrow> bool" where
  "earlier g0 es e P \<longleftrightarrow> (\<exists>a b. es = a @ e # b \<and> P (cu_escrow (cashu_run a (new_cashu_desk g0))))"

lemma earlier_snoc:
  "earlier g0 es e P \<Longrightarrow> earlier g0 (es @ [e']) e P"
  "P (cu_escrow (cashu_run es (new_cashu_desk g0))) \<Longrightarrow> earlier g0 (es @ [e]) e P"
  unfolding earlier_def by (metis append.assoc append_Cons, blast)

definition cashu_ok :: "escrow_globals \<Rightarrow> cashu_event list \<Rightarrow> cashu_desk \<Rightarrow> bool" where
  "cashu_ok g0 es d \<longleftrightarrow>
     (\<forall>w. cu_slot d = Some w \<longrightarrow> mint_usable (wl_capabilities w)) \<and>
     (cu_phase d \<noteq> Unlocked \<longrightarrow> cu_slot d = None) \<and>
     (\<forall>st \<in> set (cu_sent d). st_missing_capabilities st = []) \<and>
     (\<forall>k w. fmlookup (cu_holding d) k = Some w \<longrightarrow> mint_usable (wl_capabilities w)) \<and>
     (\<forall>k. k |\<in>| cu_gated d \<or> fmlookup (cu_holding d) k \<noteq> None \<longrightarrow> earlier g0 es (CallAsked k) is_cashu_mode) \<and>
     (cu_waiting d > 0 \<or> cu_phase d \<noteq> Unlocked \<longrightarrow> earlier g0 es ConnectAsked is_cashu_mode) \<and>
     (\<forall>m. cu_phase d = Talking m \<longrightarrow> earlier g0 es ConnectResolves (\<lambda>g. resolved_mint g = Some m))"

lemma snapshot_missing: "cashu_ok g0 es d \<Longrightarrow> st_missing_capabilities (cashu_snapshot b d) = []"
  by (auto simp: cashu_ok_def cashu_snapshot_def missing_none split: option.split)

lemma notify_ok: "cashu_ok g0 es d \<Longrightarrow> cashu_ok g0 es (cashu_notify b d)"
  using snapshot_missing [of g0 es d b] by (auto simp: cashu_notify_def cashu_ok_def)

lemma connected_ok:
  assumes "cashu_ok g0 es d" "cu_phase d = Talking m"
  shows "cashu_ok g0 es ((snd (connect_end m seed app_db replies balance d))\<lparr>cu_phase := Unlocked\<rparr>)"
proof -
  have free: "cashu_ok g0 es (d'\<lparr>cu_phase := Unlocked\<rparr>)" if "cashu_ok g0 es d'" for d'
    using that unfolding cashu_ok_def by simp
  have probed: "cashu_ok g0 es (d\<lparr>cu_probed := ps\<rparr>)" for ps using assms(1) by (simp add: cashu_ok_def)
  have comm: "(cashu_notify balance d')\<lparr>cu_phase := Unlocked\<rparr> = cashu_notify balance (d'\<lparr>cu_phase := Unlocked\<rparr>)" for d'
    by (simp add: cashu_notify_def cashu_snapshot_def)
  have slot: "cashu_ok g0 es (d'\<lparr>cu_slot := Some w, cu_phase := Unlocked\<rparr>)"
    if "mint_usable (wl_capabilities w)" "cashu_ok g0 es d'" for w d'
    using that unfolding cashu_ok_def by simp
  show ?thesis using assms free [OF assms(1)] free [OF probed] probed connected_wallet [of m replies]
    by (auto simp: connect_end_def Let_def comm and_then_Inr_iff intro!: notify_ok slot split: sum.splits)
qed

lemma gate_open: "ensure_enabled g = Inr () \<longleftrightarrow> is_cashu_mode g"
  by (simp add: ensure_enabled_def)

lemma cashu_step_ok:
  assumes ok: "cashu_ok g0 es d" and d: "d = cashu_run es (new_cashu_desk g0)"
  shows "cashu_ok g0 (es @ [e]) (cashu_step e d)"
proof -
  have ok': "cashu_ok g0 (es @ [e]) d" using ok earlier_snoc(1) [of g0 es] unfolding cashu_ok_def by blast
  show ?thesis
  proof (cases e)
    case ConnectAsked
    then show ?thesis using ok' earlier_snoc(2) [of is_cashu_mode es g0 ConnectAsked]
      by (auto simp: cashu_ok_def gate_open d)
  next
    case ConnectBegins
    then show ?thesis using ok' by (auto simp: connect_begin_def cashu_ok_def split: option.splits)
  next
    case ConnectResolves
    then show ?thesis using ok' earlier_snoc(2) [of _ es g0 ConnectResolves]
      by (auto simp: cashu_ok_def connect_mint_def d split: option.splits)
  next
    case (ConnectEnds seed app_db replies balance)
    then show ?thesis using ok' connected_ok [OF ok'] by (simp split: connect_phase.split)
  next
    case (Disconnects b)
    have "cashu_ok g0 (es @ [e]) (d\<lparr>cu_slot := None\<rparr>)" using ok' by (simp add: cashu_ok_def)
    then show ?thesis using ok' by (simp add: Disconnects cashu_disconnect_def notify_ok)
  next
    case (NodeMoves g)
    then show ?thesis using ok' by (simp add: cashu_ok_def)
  next
    case (CallAsked k)
    then show ?thesis using ok' earlier_snoc(2) [of is_cashu_mode es g0 "CallAsked k"]
      by (auto simp: cashu_ok_def gate_open d)
  next
    case (CallReadsSlot k)
    then show ?thesis using ok' by (auto simp: cashu_ok_def read_slot_def Let_def split: option.splits if_splits)
  next
    case (CallChecks k)
    then show ?thesis using ok' by (auto simp: cashu_ok_def check_mint_def Let_def split: option.splits if_splits)
  next
    case (ReportsChange b)
    then show ?thesis using ok' by (simp add: notify_ok)
  qed
qed

lemma cashu_run_ok: "cashu_ok g0 es (cashu_run es (new_cashu_desk g0))"
proof (induction es rule: rev_induct)
  case Nil
  show ?case by (simp add: cashu_run_def cashu_ok_def new_cashu_desk_def)
next
  case (snoc e es)
  from cashu_step_ok [OF snoc refl, of e] show ?case by (simp add: cashu_run_def)
qed

text \<open>
  C23: The wallet of one node's mint never serves another. Over any history of connects, disconnects, node changes
  and calls, however their looks interleave: a wallet is handed out for a call of the mint only to a call that
  found the gate open before (the resolution named a usable Cashu node then), and its mint is the one the cached
  resolution of the escrow names at the moment of its last look; a connect talks only to a mint that the resolution
  named after its gate. Every wallet handed out is of a mint that supports all the escrow needs, and while a connect
  holds the lock no wallet is held. (The resolution itself may lag behind a change of the active node.)
\<close>

theorem wallet_serves_only_the_active_mint:
  "let d = cashu_run es (new_cashu_desk g0); d' = cashu_step e d in
     (\<exists>new. cu_calls d' = cu_calls d @ new \<and> (\<forall>w \<in> set new. \<exists>k. e = CallChecks k \<and>
        earlier g0 es (CallAsked k) is_cashu_mode \<and>
        same_mint (wl_mint_url w) (resolved_mint (cu_escrow d)) \<and> mint_usable (wl_capabilities w))) \<and>
     (\<exists>new. cu_probed d' = cu_probed d @ new \<and> (\<forall>m \<in> set new.
        earlier g0 es ConnectAsked is_cashu_mode \<and> earlier g0 es ConnectResolves (\<lambda>g. resolved_mint g = Some m))) \<and>
     (cu_phase d' \<noteq> Unlocked \<longrightarrow> cu_slot d' = None) \<and>
     (\<forall>st \<in> set (cu_sent d'). st_missing_capabilities st = [])"
proof -
  define d where "d = cashu_run es (new_cashu_desk g0)"
  note ok = cashu_run_ok [of g0 es, folded d_def]
  have ok': "cashu_ok g0 (es @ [e]) (cashu_step e d)" by (rule cashu_step_ok [OF ok d_def])
  have calls: "\<exists>new. cu_calls (cashu_step e d) = cu_calls d @ new \<and> (\<forall>w \<in> set new. \<exists>k. e = CallChecks k \<and>
      earlier g0 es (CallAsked k) is_cashu_mode \<and> same_mint (wl_mint_url w) (resolved_mint (cu_escrow d)) \<and>
      mint_usable (wl_capabilities w))"
    using ok by (cases e) (auto simp: cashu_ok_def connect_begin_def connect_end_def cashu_notify_def cashu_disconnect_def
        check_mint_def Let_def split: option.splits sum.splits connect_phase.splits)
  have probes: "\<exists>new. cu_probed (cashu_step e d) = cu_probed d @ new \<and> (\<forall>m \<in> set new.
      earlier g0 es ConnectAsked is_cashu_mode \<and> earlier g0 es ConnectResolves (\<lambda>g. resolved_mint g = Some m))"
    using ok by (cases e) (auto simp: cashu_ok_def connect_begin_def connect_end_def cashu_notify_def cashu_disconnect_def
        check_mint_def Let_def split: option.splits sum.splits connect_phase.splits)
  show ?thesis using calls probes ok' unfolding Let_def d_def [symmetric] cashu_ok_def by blast
qed

text \<open>A connect that drops the wallet of the previous node and then fails tells no listener.\<close>

lemma failed_reconnect_is_not_reported:
  assumes "is_cashu_mode (cu_escrow d)" "cu_slot d = Some w" "\<not> same_mint (wl_mint_url w) (resolved_mint (cu_escrow d))"
  shows "\<exists>d'. cashu_connect (\<lambda>_ d. d) (Inl e) app_db replies balance d = (Inl e, d') \<and>
    cu_slot d' = None \<and> cu_sent d' = cu_sent d"
proof -
  obtain m where "resolved_mint (cu_escrow d) = Some m"
    using assms(1) by (auto simp: is_cashu_mode_def is_cashu_usable_def is_usable_def resolved_mint_def split: option.splits)
  then show ?thesis using assms
    by (simp add: cashu_connect_def ensure_enabled_def connect_begin_def connect_mint_def connect_end_def and_then_def
        reaches_mint_def)
qed

text \<open>After a switch to a Lightning node the status still reads as connected, to the mint of the previous node.\<close>

lemma stale_wallet_reads_as_connected:
  assumes "cu_slot d = Some w" "\<not> is_cashu_mode (cu_escrow d)"
  shows "st_connected (cashu_snapshot b d)" "st_mint_url (cashu_snapshot b d) = Some (wl_mint_url w)"
    "active_wallet during d = (Inl ''CashuNotEnabled'', d)"
  using assms by (simp_all add: cashu_snapshot_def active_wallet_def ensure_enabled_def)

text \<open>
  The gate is not looked at again: a node that turns to Lightning and keeps naming the mint during the wait for the slot
  still gets its call.
\<close>

lemma gate_may_close_behind_a_call:
  assumes "is_cashu_mode (cu_escrow d)" "cu_slot d = Some w" "same_mint (wl_mint_url w) (resolved_mint g)"
  shows "fst (active_wallet (\<lambda>n d. if n = 0 then d\<lparr>cu_escrow := g\<rparr> else d) d) = Inr w"
  using assms by (simp add: active_wallet_def ensure_enabled_def read_slot_def check_mint_def)

section \<open>Instances\<close>

definition sample_send :: "(nat list, nat, unit) send_lib" where
  "sample_send = \<lparr>sd_prepare = (\<lambda>a c w. (Inr (Suc (sum_list w)), Suc (sum_list w) # w)),
     sd_confirm = (\<lambda>op' w. (Inl ''timeout'', w)), sd_revoke = (\<lambda>op' w. (Inr 8, removeAll op' w))\<rparr>"

lemma sample_send_fails:
  "fst (send_with_conditions sample_send 8 None [2]) = Inl ''CashuSendFailed: timeout (reclaimed 8 sat)''"
  by code_simp

theorem failed_send_reserves_nothing_witness:
  "fst (send_with_conditions sample_send 8 None [2]) = Inl ''CashuSendFailed: timeout (reclaimed 8 sat)'' \<and>
     set (snd (send_with_conditions sample_send 8 None [2])) = {2}"
proof -
  have fresh: "Suc (sum_list w) \<notin> set w" for w :: "nat list"
    using member_le_sum_list [of "Suc (sum_list w)" w] by auto
  have laws: "reservation_laws sample_send set"
    using fresh by (auto simp: reservation_laws_def sample_send_def)
  have r: "send_with_conditions sample_send 8 None [2] =
      (Inl ''CashuSendFailed: timeout (reclaimed 8 sat)'', snd (send_with_conditions sample_send 8 None [2]))"
    by (rule prod_eqI) (simp_all only: fst_conv snd_conv sample_send_fails)
  show ?thesis using failed_send_reserves_nothing [OF laws r] r sample_send_fails by simp
qed

definition sample_cashu_node :: escrow_globals where
  "sample_cashu_node = \<lparr>eg_tags = Some (EMCashu, no_config\<lparr>cn_mint_url := Some ''https://m''\<rparr>),
     eg_overrides = \<lparr>eo_mode = OvAuto, eo_mint_url = None\<rparr>\<rparr>"

definition sample_mint :: connect_answers where
  "sample_mint = \<lparr>ca_store = Inr (), ca_wallet = Inr (), ca_info = Inr (Some (True, True, True)), ca_keysets = Inr [UnitSat]\<rparr>"

theorem wallet_serves_only_the_active_mint_witness:
  "let d = cashu_run [ConnectAsked, ConnectBegins, ConnectResolves, ConnectEnds (Inr ()) (Some ''db'') sample_mint (Inr 0),
       CallAsked 1, CallReadsSlot 1, CallChecks 1] (new_cashu_desk sample_cashu_node)
   in length (cu_calls d) = 1 \<and> (\<forall>w \<in> set (cu_calls d). same_mint (wl_mint_url w) (Some ''https://m''))"
proof -
  let ?es = "[ConnectAsked, ConnectBegins, ConnectResolves, ConnectEnds (Inr ()) (Some ''db'') sample_mint (Inr 0),
       CallAsked 1, CallReadsSlot 1]"
  have c: "length (cu_calls (cashu_run (?es @ [CallChecks 1]) (new_cashu_desk sample_cashu_node))) = 1"
    "cu_calls (cashu_run ?es (new_cashu_desk sample_cashu_node)) = []"
    "resolved_mint (cu_escrow (cashu_run ?es (new_cashu_desk sample_cashu_node))) = Some ''https://m''" by code_simp+
  have "cashu_run (?es @ [CallChecks 1]) (new_cashu_desk sample_cashu_node) =
      cashu_step (CallChecks 1) (cashu_run ?es (new_cashu_desk sample_cashu_node))" by (simp only: cashu_run_def fold_append) simp
  with wallet_serves_only_the_active_mint [of ?es sample_cashu_node "CallChecks 1"] c show ?thesis by (auto simp: Let_def)
qed

end
