(* ===== verification/Cashu_Escrow.thy ===== *)
theory Cashu_Escrow
  imports Cashu_Wallet Push
begin

text \<open>
  The Cashu escrow (\<open>rust/src/cashu/escrow.rs\<close>): tokens locked two of three to the seller, the buyer and the node,
  with a refund to the seller after a locktime; the checks before anything is paid or signed, the signatures handed over,
  and the redemption by both.

  Keys, tokens, secrets and signatures belong to the \<open>cdk\<close> crate: the fields of \<open>cdk_lib\<close>. What the mint answers during
  a verification is a \<open>mint_view\<close>. Where an error prints a string with Rust's \<open>Debug\<close> the escapes are left out.
\<close>

section \<open>The condition\<close>

datatype sig_flag = SigInputs | SigAll

record 'p p2pk_conditions =
  pc_locktime :: "u64 option"
  pc_pubkeys :: "'p list option"
  pc_refund_keys :: "'p list option"
  pc_num_sigs :: "u64 option"
  pc_sig_flag :: sig_flag
  pc_num_sigs_refund :: "u64 option"

datatype 'p spending_conditions =
    P2PKConditions 'p "'p p2pk_conditions option"
  | HTLCConditions string "'p p2pk_conditions option"

datatype cashu_witness = P2PKWitness "string list" | OtherWitness string

record 'x cashu_proof =
  pf_secret :: string
  pf_body :: 'x
  pf_witness :: "cashu_witness option"

text \<open>
  \<open>lc_conditions\<close> is \<open>Conditions::new\<close> with its arguments in order; \<open>lc_proofs\<close> reads the proofs of a token with the keysets
  of the mint.
\<close>

record ('p, 's, 't, 'k, 'x) cdk_lib =
  lc_pubkey :: "string \<Rightarrow> (string, 'p) result"
  lc_conditions :: "u64 option \<Rightarrow> 'p list option \<Rightarrow> 'p list option \<Rightarrow> u64 option \<Rightarrow> sig_flag option \<Rightarrow> u64 option
    \<Rightarrow> (string, 'p p2pk_conditions) result"
  lc_parse :: "string \<Rightarrow> (string, 't) result"
  lc_mint :: "'t \<Rightarrow> (string, string) result"
  lc_unit :: "'t \<Rightarrow> currency_unit option"
  lc_value :: "'t \<Rightarrow> (string, u64) result"
  lc_proofs :: "'k \<Rightarrow> 't \<Rightarrow> (string, 'x cashu_proof list) result"
  lc_read_secret :: "string \<Rightarrow> (string, 'p spending_conditions) result"
  lc_sign :: "'s \<Rightarrow> 'x cashu_proof \<Rightarrow> (string, 'x cashu_proof) result"
  lc_add_signatures :: "string list \<Rightarrow> cashu_witness \<Rightarrow> cashu_witness"

record 'p escrow_parties =
  ep_buyer :: 'p
  ep_seller :: 'p
  ep_mostro :: 'p

definition ensure_distinct :: "'p escrow_parties \<Rightarrow> (string, unit) result" where
  "ensure_distinct p =
     (if ep_buyer p = ep_seller p \<or> ep_buyer p = ep_mostro p \<or> ep_seller p = ep_mostro p
      then Inl ''InvalidEscrowParties: buyer, seller and Mostro must be three different keys'' else Inr ())"

definition xonly_to_cashu_pubkey :: "('p, 's, 't, 'k, 'x) cdk_lib \<Rightarrow> string \<Rightarrow> (string, 'p) result" where
  "xonly_to_cashu_pubkey lib xonly_hex = (let hex = str_trim xonly_hex in
     if length hex \<noteq> 64 \<or> \<not> list_all is_hex_char hex
     then Inl (''InvalidTradeKey: expected 64 hex characters, got '' @ [CHR 0x22] @ hex @ [CHR 0x22])
     else map_error (\<lambda>e. ''InvalidTradeKey: '' @ hex @ '' is not a valid point ('' @ e @ '')'') (lc_pubkey lib (''02'' @ hex)))"

definition from_xonly_hex ::
  "('p, 's, 't, 'k, 'x) cdk_lib \<Rightarrow> string \<Rightarrow> string \<Rightarrow> string \<Rightarrow> (string, 'p escrow_parties) result" where
  "from_xonly_hex lib buyer seller mostro =
     and_then (xonly_to_cashu_pubkey lib buyer) (\<lambda>b.
     and_then (xonly_to_cashu_pubkey lib seller) (\<lambda>s.
     and_then (xonly_to_cashu_pubkey lib mostro) (\<lambda>m.
       let parties = \<lparr>ep_buyer = b, ep_seller = s, ep_mostro = m\<rparr>
       in and_then (ensure_distinct parties) (\<lambda>_. Inr parties))))"

definition escrow_conditions ::
  "('p, 's, 't, 'k, 'x) cdk_lib \<Rightarrow> 'p escrow_parties \<Rightarrow> u64 \<Rightarrow> (string, 'p spending_conditions) result" where
  "escrow_conditions lib parties locktime =
     and_then (ensure_distinct parties) (\<lambda>_.
     and_then (map_error (\<lambda>e. ''InvalidEscrowConditions: '' @ e)
         (lc_conditions lib (Some locktime) (Some [ep_buyer parties, ep_mostro parties]) (Some [ep_seller parties])
            (Some 2) (Some SigInputs) (Some 1))) (\<lambda>conditions.
       Inr (P2PKConditions (ep_seller parties) (Some conditions))))"

definition fee_conditions :: "'p \<Rightarrow> 'p spending_conditions" where
  "fee_conditions mostro = P2PKConditions mostro None"

definition bad_escrow :: "string \<Rightarrow> (string, 'a) result" where
  "bad_escrow reason = Inl (''InvalidEscrowToken: '' @ reason)"

definition debug_u64 :: "u64 option \<Rightarrow> string" where
  "debug_u64 n = (case n of Some k \<Rightarrow> ''Some('' @ nat_digits (unat k) @ '')'' | None \<Rightarrow> ''None'')"

definition verify_conditions :: "'p spending_conditions \<Rightarrow> 'p escrow_parties \<Rightarrow> u64 \<Rightarrow> (string, unit) result" where
  "verify_conditions conditions parties min_locktime =
     and_then (ensure_distinct parties) (\<lambda>_. case conditions of
       HTLCConditions _ _ \<Rightarrow> bad_escrow ''not a P2PK secret''
     | P2PKConditions data conds \<Rightarrow>
         if data \<noteq> ep_seller parties then bad_escrow ''locked to the wrong seller key''
         else (case conds of
           None \<Rightarrow> bad_escrow ''no spending conditions''
         | Some c \<Rightarrow> (case pc_pubkeys c of
             None \<Rightarrow> bad_escrow ''no additional pubkeys''
           | Some pubkeys \<Rightarrow>
               if length pubkeys \<noteq> 2
               then bad_escrow (''expected exactly 2 additional pubkeys, got '' @ nat_digits (length pubkeys))
               else if ep_buyer parties \<notin> set pubkeys \<or> ep_mostro parties \<notin> set pubkeys
               then bad_escrow ''buyer or Mostro key missing''
               else if pc_num_sigs c \<noteq> Some 2 then bad_escrow (''n_sigs must be 2, got '' @ debug_u64 (pc_num_sigs c))
               else if pc_sig_flag c \<noteq> SigInputs then bad_escrow ''sigflag must be SIG_INPUTS''
               else (case pc_locktime c of
                   None \<Rightarrow> bad_escrow ''no locktime''
                 | Some l \<Rightarrow>
                     if l < min_locktime
                     then bad_escrow (''locktime '' @ nat_digits (unat l) @ '' is before '' @ nat_digits (unat min_locktime))
                     else if pc_refund_keys c \<noteq> Some [ep_seller parties]
                     then bad_escrow ''refund key must be the seller alone''
                     else if (case pc_num_sigs_refund c of Some n \<Rightarrow> n | None \<Rightarrow> 1) \<noteq> 1
                     then bad_escrow ''n_sigs_refund must be 1''
                     else Inr ()))))"

section \<open>Tokens\<close>

definition build_locked_token ::
  "('w, 'o, 'p spending_conditions) send_lib \<Rightarrow> u64 \<Rightarrow> 'p spending_conditions \<Rightarrow> 'w \<Rightarrow> (string, string) result \<times> 'w" where
  "build_locked_token send amount_sats conditions w = send_with_conditions send amount_sats (Some conditions) w"

definition build_escrow_token ::
  "('p, 's, 't, 'k, 'x) cdk_lib \<Rightarrow> ('w, 'o, 'p spending_conditions) send_lib \<Rightarrow> u64 \<Rightarrow> 'p escrow_parties \<Rightarrow> u64 \<Rightarrow> 'w
     \<Rightarrow> (string, string) result \<times> 'w" where
  "build_escrow_token lib send amount_sats parties locktime w = (case escrow_conditions lib parties locktime of
      Inl e \<Rightarrow> (Inl e, w) | Inr c \<Rightarrow> build_locked_token send amount_sats c w)"

definition build_fee_token ::
  "('w, 'o, 'p spending_conditions) send_lib \<Rightarrow> u64 \<Rightarrow> 'p \<Rightarrow> 'w \<Rightarrow> (string, string) result \<times> 'w" where
  "build_fee_token send amount_sats mostro w = build_locked_token send amount_sats (fee_conditions mostro) w"

definition parse_token :: "('p, 's, 't, 'k, 'x) cdk_lib \<Rightarrow> string \<Rightarrow> (string, 't) result" where
  "parse_token lib encoded =
     map_error (\<lambda>e. ''InvalidEscrowToken: unparseable ('' @ e @ '')'') (lc_parse lib (normalize_token encoded))"

definition proofs_of ::
  "('p, 's, 't, 'k, 'x) cdk_lib \<Rightarrow> (string, 'k) result \<Rightarrow> 't \<Rightarrow> (string, 'x cashu_proof list) result" where
  "proofs_of lib keysets token = and_then (map_error unreachable_mint keysets) (\<lambda>ks.
     map_error (\<lambda>e. ''InvalidEscrowToken: unreadable proofs ('' @ e @ '')'') (lc_proofs lib ks token))"

datatype proof_state = Unspent | Spent | OtherState string

record ('t, 'k, 'x) mint_view =
  mv_keysets :: "(string, 'k) result"
  mv_dleq :: "'t \<Rightarrow> (string, unit) result"
  mv_states :: "'x cashu_proof list \<Rightarrow> (string, proof_state list) result"

text \<open>A loop that stops at the first error.\<close>

fun check_all :: "('a \<Rightarrow> (string, unit) result) \<Rightarrow> 'a list \<Rightarrow> (string, unit) result" where
  "check_all f [] = Inr ()"
| "check_all f (x # xs) = and_then (f x) (\<lambda>_. check_all f xs)"

lemma check_all_ok: "check_all f xs = Inr () \<longleftrightarrow> (\<forall>x \<in> set xs. f x = Inr ())"
  by (induction xs) (auto simp: and_then_Inr_iff)

definition check_secret ::
  "('p, 's, 't, 'k, 'x) cdk_lib \<Rightarrow> 'p escrow_parties \<Rightarrow> u64 \<Rightarrow> 'x cashu_proof \<Rightarrow> (string, unit) result" where
  "check_secret lib parties min_locktime proof' =
     and_then (map_error (\<lambda>e. ''InvalidEscrowToken: unreadable secret ('' @ e @ '')'') (lc_read_secret lib (pf_secret proof')))
       (\<lambda>conditions. verify_conditions conditions parties min_locktime)"

definition check_state :: "proof_state \<Rightarrow> (string, unit) result" where
  "check_state s = (case s of
      Unspent \<Rightarrow> Inr ()
    | Spent \<Rightarrow> Inl ''CashuEscrowSpent: the mint reports a proof as spent''
    | OtherState other \<Rightarrow> Inl (''CashuEscrowPending: the mint reports a proof as '' @ other))"

definition verify_escrow_token ::
  "('p, 's, 't, 'k, 'x) cdk_lib \<Rightarrow> ('t, 'k, 'x) mint_view \<Rightarrow> cashu_wallet \<Rightarrow> string \<Rightarrow> 'p escrow_parties \<Rightarrow> u64 \<Rightarrow> u64
     \<Rightarrow> (string, unit) result" where
  "verify_escrow_token lib view wallet encoded parties expected_amount min_locktime =
     and_then (parse_token lib encoded) (\<lambda>token.
     and_then (map_error (\<lambda>e. ''InvalidEscrowToken: no mint ('' @ e @ '')'') (lc_mint lib token)) (\<lambda>token_mint.
       if trim_slashes token_mint \<noteq> trim_slashes (wl_mint_url wallet)
       then bad_escrow (''wrong mint ('' @ token_mint @ '')'')
       else (case lc_unit lib token of
           None \<Rightarrow> bad_escrow ''expected sat, got None''
         | Some (UnitOther other) \<Rightarrow> bad_escrow (''expected sat, got Some('' @ other @ '')'')
         | Some UnitSat \<Rightarrow>
             and_then (map_error (\<lambda>e. ''InvalidEscrowToken: unreadable amount ('' @ e @ '')'') (lc_value lib token)) (\<lambda>value'.
               if value' \<noteq> expected_amount
               then bad_escrow (''expected '' @ nat_digits (unat expected_amount) @ '' sat, got '' @ nat_digits (unat value'))
               else
                 and_then (proofs_of lib (mv_keysets view) token) (\<lambda>proofs.
                 and_then (check_all (check_secret lib parties min_locktime) proofs) (\<lambda>_.
                 and_then (map_error (\<lambda>e. ''CashuTokenUnverified: '' @ e) (mv_dleq view token)) (\<lambda>_.
                 and_then (map_error (\<lambda>e. ''CashuMintUnreachable: state check failed ('' @ e @ '')'') (mv_states view proofs))
                   (\<lambda>states. check_all check_state states))))))))"

section \<open>Signatures\<close>

record proof_signature =
  sg_secret :: string
  sg_signature :: string

definition last_signature :: "'x cashu_proof \<Rightarrow> (string, string) result" where
  "last_signature proof' = (case pf_witness proof' of
      Some (P2PKWitness signatures) \<Rightarrow>
        if signatures = [] then Inl ''CashuSignFailed: witness carries no signature'' else Inr (last signatures)
    | _ \<Rightarrow> Inl ''CashuSignFailed: proof has no P2PK witness'')"

definition sign_proof :: "('p, 's, 't, 'k, 'x) cdk_lib \<Rightarrow> 's \<Rightarrow> 'x cashu_proof \<Rightarrow> (string, 'x cashu_proof) result" where
  "sign_proof lib key proof' = map_error (\<lambda>e. ''CashuSignFailed: '' @ e) (lc_sign lib key proof')"

text \<open>The keysets are loaded once for the verification (in \<open>view\<close>) and once for the signing.\<close>

definition sign_proofs ::
  "('p, 's, 't, 'k, 'x) cdk_lib \<Rightarrow> ('t, 'k, 'x) mint_view \<Rightarrow> (string, 'k) result \<Rightarrow> cashu_wallet \<Rightarrow> string \<Rightarrow> 's
     \<Rightarrow> 'p escrow_parties \<Rightarrow> u64 \<Rightarrow> u64 \<Rightarrow> (string, proof_signature list) result" where
  "sign_proofs lib view keysets wallet encoded key parties expected_amount min_locktime =
     and_then (verify_escrow_token lib view wallet encoded parties expected_amount min_locktime) (\<lambda>_.
     and_then (parse_token lib encoded) (\<lambda>token.
     and_then (proofs_of lib keysets token) (\<lambda>proofs.
       collect_results (map (\<lambda>p.
         and_then (sign_proof lib key p) (\<lambda>signed.
         and_then (last_signature signed) (\<lambda>signature.
           Inr \<lparr>sg_secret = pf_secret p, sg_signature = signature\<rparr>))) proofs))))"

fun index_into ::
  "(string, proof_signature) fmap \<Rightarrow> proof_signature list \<Rightarrow> (string, (string, proof_signature) fmap) result" where
  "index_into m [] = Inr m"
| "index_into m (s # ss) =
     (if fmlookup m (sg_secret s) \<noteq> None
      then Inl (''DuplicatePeerSignature: secret '' @ sg_secret s @ '' appears more than once'')
      else index_into (fmupd (sg_secret s) s m) ss)"

definition index_signatures :: "proof_signature list \<Rightarrow> (string, (string, proof_signature) fmap) result" where
  "index_signatures signatures = index_into fmempty signatures"

definition cosign ::
  "('p, 's, 't, 'k, 'x) cdk_lib \<Rightarrow> 's \<Rightarrow> (string, proof_signature) fmap \<Rightarrow> 'x cashu_proof \<Rightarrow> (string, 'x cashu_proof) result" where
  "cosign lib own_key by_secret proof' = (case fmlookup by_secret (pf_secret proof') of
      None \<Rightarrow> Inl (''MissingPeerSignature: none for proof '' @ pf_secret proof')
    | Some peer \<Rightarrow> and_then (sign_proof lib own_key proof') (\<lambda>signed. case pf_witness signed of
          Some witness \<Rightarrow> Inr (signed\<lparr>pf_witness := Some (lc_add_signatures lib [sg_signature peer] witness)\<rparr>)
        | None \<Rightarrow> Inl ''CashuSignFailed: signing left no witness''))"

text \<open>\<open>swap\<close> is the swap at the mint of the proofs it is given.\<close>

definition combine_and_redeem ::
  "('p, 's, 't, 'k, 'x) cdk_lib \<Rightarrow> (string, 'k) result \<Rightarrow> ('x cashu_proof list \<Rightarrow> (string, u64) result) \<Rightarrow> string \<Rightarrow> 's
     \<Rightarrow> proof_signature list \<Rightarrow> (string, u64) result" where
  "combine_and_redeem lib keysets swap encoded own_key peer_signatures =
     and_then (index_signatures peer_signatures) (\<lambda>by_secret.
     and_then (parse_token lib encoded) (\<lambda>token.
     and_then (proofs_of lib keysets token) (\<lambda>proofs.
     and_then (collect_results (map (cosign lib own_key by_secret) proofs)) (\<lambda>signed.
       map_error (\<lambda>e. ''CashuRedeemFailed: '' @ e) (swap signed)))))"

definition refund_proof ::
  "('p, 's, 't, 'k, 'x) cdk_lib \<Rightarrow> u64 \<Rightarrow> 's \<Rightarrow> 'x cashu_proof \<Rightarrow> (string, 'x cashu_proof) result" where
  "refund_proof lib now seller_key proof' =
     (let locktime = (case lc_read_secret lib (pf_secret proof') of
          Inr (P2PKConditions _ (Some c)) \<Rightarrow> pc_locktime c | _ \<Rightarrow> None)
      in (case locktime of
          Some l \<Rightarrow> if l > now then Inl (''CashuLocktimeNotReached: '' @ nat_digits (unat (l - now)) @ '' seconds remain'')
            else sign_proof lib seller_key proof'
        | None \<Rightarrow> sign_proof lib seller_key proof'))"

definition reclaim_after_locktime ::
  "('p, 's, 't, 'k, 'x) cdk_lib \<Rightarrow> (string, 'k) result \<Rightarrow> ('x cashu_proof list \<Rightarrow> (string, u64) result) \<Rightarrow> u64 \<Rightarrow> string \<Rightarrow> 's
     \<Rightarrow> (string, u64) result" where
  "reclaim_after_locktime lib keysets swap now encoded seller_key =
     and_then (parse_token lib encoded) (\<lambda>token.
     and_then (proofs_of lib keysets token) (\<lambda>proofs.
     and_then (collect_results (map (refund_proof lib now seller_key) proofs)) (\<lambda>signed.
       map_error (\<lambda>e. ''CashuReclaimFailed: '' @ e) (swap signed))))"

section \<open>What a verified token guarantees\<close>

definition condition_keys :: "'p \<Rightarrow> 'p p2pk_conditions \<Rightarrow> 'p list" where
  "condition_keys data c = data # (case pc_pubkeys c of Some ps \<Rightarrow> ps | None \<Rightarrow> [])"

text \<open>
  NUT-11 for a P2PK secret with conditions: enough of the main keys, or after the locktime enough of the refund keys,
  and anybody when there are none. What happens with repeated keys it does not settle.
\<close>

definition nut11_unlocks :: "u64 \<Rightarrow> 'p \<Rightarrow> 'p p2pk_conditions \<Rightarrow> 'p set \<Rightarrow> bool" where
  "nut11_unlocks now data c signers \<longleftrightarrow>
     (case pc_num_sigs c of Some n \<Rightarrow> unat n | None \<Rightarrow> 1) \<le> card (signers \<inter> set (condition_keys data c)) \<or>
     (case pc_locktime c of None \<Rightarrow> False | Some l \<Rightarrow> l \<le> now \<and>
        (case pc_refund_keys c of None \<Rightarrow> True | Some rs \<Rightarrow> rs = [] \<or>
          (case pc_num_sigs_refund c of Some n \<Rightarrow> unat n | None \<Rightarrow> 1) \<le> card (signers \<inter> set rs)))"

definition mint_follows_nut11 :: "(u64 \<Rightarrow> 'p spending_conditions \<Rightarrow> 'p set \<Rightarrow> bool) \<Rightarrow> bool" where
  "mint_follows_nut11 spends \<longleftrightarrow> (\<forall>now data c signers. distinct (condition_keys data c) \<longrightarrow>
     spends now (P2PKConditions data (Some c)) signers \<longrightarrow> nut11_unlocks now data c signers)"

definition two_of :: "'p escrow_parties \<Rightarrow> 'p set \<Rightarrow> bool" where
  "two_of parties signers \<longleftrightarrow> 2 \<le> card (signers \<inter> {ep_buyer parties, ep_seller parties, ep_mostro parties})"

lemma verified_conditions:
  assumes "verify_conditions sc parties min_locktime = Inr ()"
  obtains c ps l where "sc = P2PKConditions (ep_seller parties) (Some c)"
    "ps = [ep_buyer parties, ep_mostro parties] \<or> ps = [ep_mostro parties, ep_buyer parties]"
    "pc_pubkeys c = Some ps" "pc_num_sigs c = Some 2" "pc_locktime c = Some l" "min_locktime \<le> l"
    "pc_refund_keys c = Some [ep_seller parties]" "pc_num_sigs_refund c = Some 1 \<or> pc_num_sigs_refund c = None"
    "distinct [ep_seller parties, ep_buyer parties, ep_mostro parties]"
proof -
  have "\<exists>c ps l. sc = P2PKConditions (ep_seller parties) (Some c) \<and>
      length ps = 2 \<and> ep_buyer parties \<in> set ps \<and> ep_mostro parties \<in> set ps \<and> pc_pubkeys c = Some ps \<and>
      pc_num_sigs c = Some 2 \<and> pc_locktime c = Some l \<and> min_locktime \<le> l \<and> pc_refund_keys c = Some [ep_seller parties] \<and>
      (pc_num_sigs_refund c = Some 1 \<or> pc_num_sigs_refund c = None) \<and>
      distinct [ep_seller parties, ep_buyer parties, ep_mostro parties]"
    using assms
    by (auto simp: verify_conditions_def bad_escrow_def ensure_distinct_def and_then_Inr_iff not_less
        split: spending_conditions.splits option.splits if_splits)
  then obtain c ps l where c: "sc = P2PKConditions (ep_seller parties) (Some c)" "length ps = 2" "ep_buyer parties \<in> set ps"
    "ep_mostro parties \<in> set ps" "pc_pubkeys c = Some ps" "pc_num_sigs c = Some 2" "pc_locktime c = Some l" "min_locktime \<le> l"
    "pc_refund_keys c = Some [ep_seller parties]" "pc_num_sigs_refund c = Some 1 \<or> pc_num_sigs_refund c = None"
    "distinct [ep_seller parties, ep_buyer parties, ep_mostro parties]" by blast
  have "ps = [ep_buyer parties, ep_mostro parties] \<or> ps = [ep_mostro parties, ep_buyer parties]"
    using c(2-4,11) by (auto simp: length_Suc_conv numeral_2_eq_2)
  then show thesis by (rule that [OF c(1)]) (use c in auto)
qed

lemma verified_unlock:
  assumes "verify_conditions sc parties min_locktime = Inr ()"
  obtains c where "sc = P2PKConditions (ep_seller parties) (Some c)" "distinct (condition_keys (ep_seller parties) c)"
    "\<And>now signers. two_of parties signers \<Longrightarrow> nut11_unlocks now (ep_seller parties) c signers"
    "\<And>now signers. nut11_unlocks now (ep_seller parties) c signers \<Longrightarrow>
       two_of parties signers \<or> min_locktime \<le> now \<and> ep_seller parties \<in> signers"
proof -
  obtain c ps l where c: "sc = P2PKConditions (ep_seller parties) (Some c)"
    "ps = [ep_buyer parties, ep_mostro parties] \<or> ps = [ep_mostro parties, ep_buyer parties]"
    "pc_pubkeys c = Some ps" "pc_num_sigs c = Some 2" "pc_locktime c = Some l" "min_locktime \<le> l"
    "pc_refund_keys c = Some [ep_seller parties]" "pc_num_sigs_refund c = Some 1 \<or> pc_num_sigs_refund c = None"
    "distinct [ep_seller parties, ep_buyer parties, ep_mostro parties]"
    using verified_conditions [OF assms] .
  have keys: "set (condition_keys (ep_seller parties) c) = {ep_buyer parties, ep_seller parties, ep_mostro parties}"
    "distinct (condition_keys (ep_seller parties) c)"
    using c by (auto simp: condition_keys_def)
  have refund: "(case pc_num_sigs_refund c of Some n \<Rightarrow> unat n | None \<Rightarrow> 1) = 1"
    using c(8) by auto
  have one: "1 \<le> card (signers \<inter> {ep_seller parties}) \<longleftrightarrow> ep_seller parties \<in> signers" for signers
    by (cases "ep_seller parties \<in> signers") simp_all
  have "nut11_unlocks now (ep_seller parties) c signers \<longleftrightarrow>
      two_of parties signers \<or> l \<le> now \<and> ep_seller parties \<in> signers" for now signers
    using one [of signers] by (simp add: nut11_unlocks_def two_of_def keys c refund)
  then show thesis using that [OF c(1) keys(2)] c(6) by fastforce
qed

lemma check_secret_ok:
  "check_secret lib parties min_locktime p = Inr () \<longleftrightarrow>
     (\<exists>sc. lc_read_secret lib (pf_secret p) = Inr sc \<and> verify_conditions sc parties min_locktime = Inr ())"
  by (auto simp: check_secret_def and_then_Inr_iff)

lemma check_secretE:
  assumes "\<forall>p \<in> set ps. check_secret lib parties min_locktime p = Inr ()" "p \<in> set ps"
  obtains sc where "lc_read_secret lib (pf_secret p) = Inr sc" "verify_conditions sc parties min_locktime = Inr ()"
proof -
  have "check_secret lib parties min_locktime p = Inr ()" using assms by (rule bspec)
  then show thesis using that unfolding check_secret_ok by auto
qed

lemma check_states_ok: "check_all check_state states = Inr () \<longleftrightarrow> set states \<subseteq> {Unspent}"
proof -
  have "check_state s = Inr () \<longleftrightarrow> s = Unspent" for s by (cases s) (simp_all add: check_state_def)
  then show ?thesis by (auto simp: check_all_ok)
qed

lemma verify_escrow_tokenD:
  assumes "verify_escrow_token lib view wallet encoded parties amount min_locktime = Inr ()"
  obtains token m proofs states where "parse_token lib encoded = Inr token"
    "lc_mint lib token = Inr m" "trim_slashes m = trim_slashes (wl_mint_url wallet)"
    "lc_unit lib token = Some UnitSat" "lc_value lib token = Inr amount" "proofs_of lib (mv_keysets view) token = Inr proofs"
    "\<forall>p \<in> set proofs. check_secret lib parties min_locktime p = Inr ()" "mv_dleq view token = Inr ()"
    "mv_states view proofs = Inr states" "set states \<subseteq> {Unspent}"
proof -
  have secrets: "check_all f ps = Inr () \<longleftrightarrow> (\<forall>p \<in> set ps. f p = Inr ())" for f and ps :: "'e cashu_proof list"
    by (rule check_all_ok)
  show thesis
    using assms that
    by (auto simp: verify_escrow_token_def and_then_Inr_iff bad_escrow_def secrets check_states_ok
        split: if_splits option.splits currency_unit.splits)
qed

text \<open>
  C21: A verified escrow token needs two parties. When the verification accepts a token, it is worth the agreed
  amount at the wallet's mint, its proofs are issued by the mint and reported unspent, and if the mint obeys NUT-11
  for secrets without repeated keys, no proof can be spent by fewer than two of the buyer, the seller and the node
  before the demanded locktime, and afterwards by nobody else without the seller.
\<close>

theorem escrow_needs_two_parties:
  assumes "verify_escrow_token lib view wallet encoded parties amount min_locktime = Inr ()"
    "mint_follows_nut11 spends"
  shows "\<exists>token proofs m states. parse_token lib encoded = Inr token \<and>
    lc_mint lib token = Inr m \<and> trim_slashes m = trim_slashes (wl_mint_url wallet) \<and>
    lc_unit lib token = Some UnitSat \<and> lc_value lib token = Inr amount \<and>
    proofs_of lib (mv_keysets view) token = Inr proofs \<and> mv_dleq view token = Inr () \<and>
    mv_states view proofs = Inr states \<and> set states \<subseteq> {Unspent} \<and>
    (\<forall>p \<in> set proofs. \<exists>condition. lc_read_secret lib (pf_secret p) = Inr condition \<and>
       (\<forall>now signers. spends now condition signers \<longrightarrow>
          two_of parties signers \<or> min_locktime \<le> now \<and> ep_seller parties \<in> signers))"
proof -
  obtain token m proofs states where t: "parse_token lib encoded = Inr token"
    "lc_mint lib token = Inr m" "trim_slashes m = trim_slashes (wl_mint_url wallet)"
    "lc_unit lib token = Some UnitSat" "lc_value lib token = Inr amount" "proofs_of lib (mv_keysets view) token = Inr proofs"
    "\<forall>p \<in> set proofs. check_secret lib parties min_locktime p = Inr ()" "mv_dleq view token = Inr ()"
    "mv_states view proofs = Inr states" "set states \<subseteq> {Unspent}"
    using verify_escrow_tokenD [OF assms(1)] .
  have "\<exists>condition. lc_read_secret lib (pf_secret p) = Inr condition \<and>
      (\<forall>now signers. spends now condition signers \<longrightarrow>
        two_of parties signers \<or> min_locktime \<le> now \<and> ep_seller parties \<in> signers)" if p: "p \<in> set proofs" for p
  proof -
    obtain sc where sc: "lc_read_secret lib (pf_secret p) = Inr sc" "verify_conditions sc parties min_locktime = Inr ()"
      using check_secretE [OF t(7) p] .
    obtain c where c: "sc = P2PKConditions (ep_seller parties) (Some c)" "distinct (condition_keys (ep_seller parties) c)"
      "\<And>now signers. nut11_unlocks now (ep_seller parties) c signers \<Longrightarrow>
         two_of parties signers \<or> min_locktime \<le> now \<and> ep_seller parties \<in> signers"
      using verified_unlock [OF sc(2)] by blast
    have "nut11_unlocks now (ep_seller parties) c signers" if "spends now sc signers" for now signers
      using assms(2) c(2) that unfolding mint_follows_nut11_def c(1) by blast
    with c(3) sc(1) show ?thesis by blast
  qed
  with t show ?thesis by blast
qed

section \<open>The life of an escrow\<close>

text \<open>What \<open>Conditions::new\<close> does when it accepts: it keeps what it is given.\<close>

definition conditions_law :: "('p, 's, 't, 'k, 'x) cdk_lib \<Rightarrow> bool" where
  "conditions_law lib \<longleftrightarrow> (\<forall>l ps rs n f r c. lc_conditions lib (Some l) (Some ps) (Some rs) (Some n) (Some f) (Some r) = Inr c \<longrightarrow>
     c = \<lparr>pc_locktime = Some l, pc_pubkeys = Some ps, pc_refund_keys = Some rs, pc_num_sigs = Some n, pc_sig_flag = f,
       pc_num_sigs_refund = Some r\<rparr>)"

text \<open>The escrow a seller builds is the one the other side accepts, up to the locktime; a fee token is never taken for one.\<close>

lemma built_escrow_verifies:
  assumes "conditions_law lib" "escrow_conditions lib parties locktime = Inr sc"
  shows "verify_conditions sc parties min_locktime = Inr () \<longleftrightarrow> min_locktime \<le> locktime"
proof -
  obtain c where c: "sc = P2PKConditions (ep_seller parties) (Some c)" "ensure_distinct parties = Inr ()"
    "lc_conditions lib (Some locktime) (Some [ep_buyer parties, ep_mostro parties]) (Some [ep_seller parties])
       (Some 2) (Some SigInputs) (Some 1) = Inr c"
    using assms(2) by (auto simp: escrow_conditions_def and_then_Inr_iff)
  then have "c = \<lparr>pc_locktime = Some locktime, pc_pubkeys = Some [ep_buyer parties, ep_mostro parties],
      pc_refund_keys = Some [ep_seller parties], pc_num_sigs = Some 2, pc_sig_flag = SigInputs, pc_num_sigs_refund = Some 1\<rparr>"
    using assms(1) unfolding conditions_law_def by blast
  moreover have "locktime < min_locktime \<longleftrightarrow> \<not> min_locktime \<le> locktime" by auto
  ultimately show ?thesis using c(1,2) by (simp add: verify_conditions_def and_then_def bad_escrow_def)
qed

lemma fee_token_is_no_escrow: "verify_conditions (fee_conditions mostro) parties min_locktime \<noteq> Inr ()"
  by (auto simp: fee_conditions_def elim: verified_conditions)

text \<open>
  What \<open>Proof::sign_p2pk\<close> and \<open>add_signatures\<close> do to a proof without a witness of another kind: a signature of the
  secret, valid for the public key of the signer, is appended. \<open>valid\<close> is the check of a signature.
\<close>

definition plain_proof :: "'x cashu_proof \<Rightarrow> bool" where
  "plain_proof p \<longleftrightarrow> (case pf_witness p of Some (OtherWitness _) \<Rightarrow> False | _ \<Rightarrow> True)"

definition signatures_of :: "'x cashu_proof \<Rightarrow> string list" where
  "signatures_of p = (case pf_witness p of Some (P2PKWitness ss) \<Rightarrow> ss | _ \<Rightarrow> [])"

definition signing_law ::
  "('p, 's, 't, 'k, 'x) cdk_lib \<Rightarrow> ('s \<Rightarrow> 'p) \<Rightarrow> ('p \<Rightarrow> string \<Rightarrow> string \<Rightarrow> bool) \<Rightarrow> bool" where
  "signing_law lib public valid \<longleftrightarrow>
     (\<forall>k p. plain_proof p \<longrightarrow> (\<exists>sg. lc_sign lib k p = Inr (p\<lparr>pf_witness := Some (P2PKWitness (signatures_of p @ [sg]))\<rparr>) \<and>
        valid (public k) (pf_secret p) sg)) \<and>
     (\<forall>new old. lc_add_signatures lib new (P2PKWitness old) = P2PKWitness (old @ new))"

definition signers_of :: "('p \<Rightarrow> string \<Rightarrow> string \<Rightarrow> bool) \<Rightarrow> 'x cashu_proof \<Rightarrow> 'p set" where
  "signers_of valid p = {k. \<exists>sg \<in> set (signatures_of p). valid k (pf_secret p) sg}"

lemma index_into_ok:
  assumes "distinct (map sg_secret ss)" "\<forall>s \<in> set ss. fmlookup m (sg_secret s) = None"
  shows "\<exists>m'. index_into m ss = Inr m' \<and> (\<forall>s \<in> set ss. fmlookup m' (sg_secret s) = Some s) \<and>
    (\<forall>k. k \<notin> sg_secret ` set ss \<longrightarrow> fmlookup m' k = fmlookup m k)"
  using assms
proof (induction ss arbitrary: m)
  case (Cons s ss)
  have "\<forall>x \<in> set ss. fmlookup (fmupd (sg_secret s) s m) (sg_secret x) = None"
    using Cons.prems by (auto simp: image_iff)
  with Cons.IH [of "fmupd (sg_secret s) s m"] Cons.prems(1) obtain m' where
    m': "index_into (fmupd (sg_secret s) s m) ss = Inr m'" "\<forall>x \<in> set ss. fmlookup m' (sg_secret x) = Some x"
    "\<forall>k. k \<notin> sg_secret ` set ss \<longrightarrow> fmlookup m' k = fmlookup (fmupd (sg_secret s) s m) k" by auto
  have "fmlookup m' (sg_secret s) = Some s" using m'(3) Cons.prems(1) by auto
  with m' Cons.prems show ?case by auto
qed simp

text \<open>A signature is only given for a token that was verified, one for each of its proofs.\<close>

lemma signatures_only_for_the_escrow:
  assumes "sign_proofs lib view keysets wallet encoded key parties amount min_locktime = Inr sigs"
  shows "verify_escrow_token lib view wallet encoded parties amount min_locktime = Inr ()"
    "\<exists>token proofs. parse_token lib encoded = Inr token \<and> proofs_of lib keysets token = Inr proofs \<and>
       list_all2 (\<lambda>p s. \<exists>signed. sign_proof lib key p = Inr signed \<and> sg_secret s = pf_secret p \<and>
         last_signature signed = Inr (sg_signature s)) proofs sigs"
proof -
  obtain token proofs where t: "verify_escrow_token lib view wallet encoded parties amount min_locktime = Inr ()"
    "parse_token lib encoded = Inr token" "proofs_of lib keysets token = Inr proofs"
    "map (\<lambda>p. and_then (sign_proof lib key p) (\<lambda>signed. and_then (last_signature signed) (\<lambda>signature.
       Inr \<lparr>sg_secret = pf_secret p, sg_signature = signature\<rparr>))) proofs = map Inr sigs"
    using assms by (auto simp: sign_proofs_def and_then_Inr_iff collect_results_Inr_iff)
  show "verify_escrow_token lib view wallet encoded parties amount min_locktime = Inr ()" by (rule t)
  have "list_all2 (=) (map (\<lambda>p. and_then (sign_proof lib key p) (\<lambda>signed. and_then (last_signature signed) (\<lambda>signature.
       Inr \<lparr>sg_secret = pf_secret p, sg_signature = signature\<rparr>))) proofs) (map Inr sigs)"
    unfolding t(4) by (simp add: list.rel_eq)
  then have "list_all2 (\<lambda>p s. \<exists>signed. sign_proof lib key p = Inr signed \<and> sg_secret s = pf_secret p \<and>
      last_signature signed = Inr (sg_signature s)) proofs sigs"
    unfolding list.rel_map by (rule list_all2_mono) (auto simp: and_then_Inr_iff)
  with t(2,3) show "\<exists>token proofs. parse_token lib encoded = Inr token \<and> proofs_of lib keysets token = Inr proofs \<and>
      list_all2 (\<lambda>p s. \<exists>signed. sign_proof lib key p = Inr signed \<and> sg_secret s = pf_secret p \<and>
        last_signature signed = Inr (sg_signature s)) proofs sigs" by blast
qed

lemma sign_proof_law:
  assumes "signing_law lib public valid" "plain_proof p"
  obtains sg where "sign_proof lib k p = Inr (p\<lparr>pf_witness := Some (P2PKWitness (signatures_of p @ [sg]))\<rparr>)"
    "valid (public k) (pf_secret p) sg"
proof -
  obtain sg where "lc_sign lib k p = Inr (p\<lparr>pf_witness := Some (P2PKWitness (signatures_of p @ [sg]))\<rparr>)"
    "valid (public k) (pf_secret p) sg"
    using assms unfolding signing_law_def by blast
  then show thesis using that [of sg] by (simp add: sign_proof_def map_error_def)
qed

lemma cosigned_proof:
  assumes "signing_law lib public valid" "plain_proof p" "sign_proof lib seller_key p = Inr peer_signed"
    "last_signature peer_signed = Inr (sg_signature s)" "fmlookup by_secret (pf_secret p) = Some s"
  shows "\<exists>q. cosign lib own_key by_secret p = Inr q \<and> pf_secret q = pf_secret p \<and> pf_body q = pf_body p \<and>
    {public own_key, public seller_key} \<subseteq> signers_of valid q"
proof -
  obtain a where a: "sign_proof lib own_key p = Inr (p\<lparr>pf_witness := Some (P2PKWitness (signatures_of p @ [a]))\<rparr>)"
    "valid (public own_key) (pf_secret p) a" using sign_proof_law [OF assms(1,2)] .
  obtain b where b: "sign_proof lib seller_key p = Inr (p\<lparr>pf_witness := Some (P2PKWitness (signatures_of p @ [b]))\<rparr>)"
    "valid (public seller_key) (pf_secret p) b" using sign_proof_law [OF assms(1,2)] .
  have "peer_signed = p\<lparr>pf_witness := Some (P2PKWitness (signatures_of p @ [b]))\<rparr>" using b(1) assms(3) by simp
  then have s: "sg_signature s = b" using assms(4) by (simp add: last_signature_def)
  have add: "lc_add_signatures lib new (P2PKWitness old) = P2PKWitness (old @ new)" for new old
    using assms(1) by (simp add: signing_law_def)
  show ?thesis using a b(2) s assms(5) by (auto simp: cosign_def and_then_def add signers_of_def signatures_of_def)
qed

text \<open>
  C22: A released escrow pays the buyer. When the seller's release signs a token and the buyer redeems the same token
  with the signatures it was handed, the mint is given every proof of the token, unchanged but for its witness, and each
  satisfies its own condition under NUT-11 at any time, so the outcome is what the mint answers to the swap.
\<close>

theorem release_pays_the_buyer:
  assumes "signing_law lib public valid"
    "sign_proofs lib view keysets wallet encoded seller_key parties amount min_locktime = Inr sigs"
    "public seller_key = ep_seller parties" "public buyer_key = ep_buyer parties"
    "parse_token lib encoded = Inr token" "\<forall>ks \<in> {mv_keysets view, keysets, keysets'}. proofs_of lib ks token = Inr proofs"
    "distinct (map pf_secret proofs)" "\<forall>p \<in> set proofs. plain_proof p"
  shows "\<exists>signed. combine_and_redeem lib keysets' swap encoded buyer_key sigs =
      map_error (\<lambda>e. ''CashuRedeemFailed: '' @ e) (swap signed) \<and>
    map (\<lambda>p. (pf_secret p, pf_body p)) signed = map (\<lambda>p. (pf_secret p, pf_body p)) proofs \<and>
    (\<forall>p \<in> set signed. \<exists>data c. lc_read_secret lib (pf_secret p) = Inr (P2PKConditions data (Some c)) \<and>
       (\<forall>now. nut11_unlocks now data c (signers_of valid p)))"
proof -
  note v = signatures_only_for_the_escrow [OF assms(2)]
  have sig: "list_all2 (\<lambda>p s. \<exists>signed. sign_proof lib seller_key p = Inr signed \<and> sg_secret s = pf_secret p \<and>
      last_signature signed = Inr (sg_signature s)) proofs sigs"
    using v(2) assms(5,6) by auto
  then have secrets: "map sg_secret sigs = map pf_secret proofs"
    by (auto simp: list_all2_conv_all_nth list_eq_iff_nth_eq)
  obtain m where m: "index_signatures sigs = Inr m" "\<forall>s \<in> set sigs. fmlookup m (sg_secret s) = Some s"
    using index_into_ok [of sigs fmempty] assms(7) secrets by (auto simp: index_signatures_def)
  have "\<exists>q. cosign lib buyer_key m p = Inr q \<and> pf_secret q = pf_secret p \<and> pf_body q = pf_body p \<and>
      {ep_buyer parties, ep_seller parties} \<subseteq> signers_of valid q" if p: "p \<in> set proofs" for p
  proof -
    obtain s signed where s: "s \<in> set sigs" "sign_proof lib seller_key p = Inr signed" "sg_secret s = pf_secret p"
      "last_signature signed = Inr (sg_signature s)"
    proof -
      obtain i where i: "i < length proofs" "p = proofs ! i" using p by (auto simp: in_set_conv_nth)
      with list_all2_nthD [OF sig i(1)] list_all2_lengthD [OF sig] show thesis using that [of "sigs ! i"] by auto
    qed
    from cosigned_proof [OF assms(1) _ s(2,4), of m buyer_key] m(2) s(1,3) assms(3,4,8) p show ?thesis by metis
  qed
  then obtain q where q: "\<And>p. p \<in> set proofs \<Longrightarrow> cosign lib buyer_key m p = Inr (q p) \<and> pf_secret (q p) = pf_secret p \<and>
      pf_body (q p) = pf_body p \<and> {ep_buyer parties, ep_seller parties} \<subseteq> signers_of valid (q p)" by metis
  then have collected: "collect_results (map (cosign lib buyer_key m) proofs) = Inr (map q proofs)"
    by (auto simp: collect_results_Inr_iff)
  have run: "combine_and_redeem lib keysets' swap encoded buyer_key sigs =
      map_error (\<lambda>e. ''CashuRedeemFailed: '' @ e) (swap (map q proofs))"
    using m(1) assms(5,6) collected by (simp add: combine_and_redeem_def and_then_def)
  have checked: "\<forall>p \<in> set proofs. check_secret lib parties min_locktime p = Inr ()"
    using verify_escrow_tokenD [OF v(1)] assms(5,6) by (metis (no_types, lifting) insertCI sum.inject(2))
  have "\<exists>data c. lc_read_secret lib (pf_secret (q p)) = Inr (P2PKConditions data (Some c)) \<and>
      (\<forall>now. nut11_unlocks now data c (signers_of valid (q p)))" if p: "p \<in> set proofs" for p
  proof -
    obtain sc where sc: "lc_read_secret lib (pf_secret p) = Inr sc" "verify_conditions sc parties min_locktime = Inr ()"
      using check_secretE [OF checked p] .
    have "ep_buyer parties \<noteq> ep_seller parties"
      using sc(2) by (auto elim: verified_conditions)
    then have "card {ep_buyer parties, ep_seller parties} = 2" by simp
    moreover have "{ep_buyer parties, ep_seller parties} \<subseteq>
        signers_of valid (q p) \<inter> {ep_buyer parties, ep_seller parties, ep_mostro parties}" using q [OF p] by blast
    ultimately have "two_of parties (signers_of valid (q p))"
      unfolding two_of_def by (metis card_mono finite.emptyI finite.insertI finite_Int)
    then show ?thesis using verified_unlock [OF sc(2)] sc(1) q [OF p] by metis
  qed
  then have ok: "\<forall>p \<in> set (map q proofs). \<exists>data c. lc_read_secret lib (pf_secret p) = Inr (P2PKConditions data (Some c)) \<and>
      (\<forall>now. nut11_unlocks now data c (signers_of valid p))" by auto
  show ?thesis by (rule exI [of _ "map q proofs"]) (use run ok q in simp)
qed

text \<open>Before the locktime the refund of a verified escrow stops at home: the mint is not asked.\<close>

lemma early_reclaim_is_refused:
  assumes "verify_escrow_token lib view wallet encoded parties amount min_locktime = Inr ()" "now < min_locktime"
    "parse_token lib encoded = Inr token" "proofs_of lib (mv_keysets view) token = Inr (p # proofs)"
  shows "\<exists>n. 0 < n \<and> reclaim_after_locktime lib (mv_keysets view) swap now encoded seller_key =
    Inl (''CashuLocktimeNotReached: '' @ nat_digits n @ '' seconds remain'')"
proof -
  have checked: "\<forall>q \<in> set (p # proofs). check_secret lib parties min_locktime q = Inr ()"
    using verify_escrow_tokenD [OF assms(1)] assms(3,4) by (metis (no_types, lifting) sum.inject(2))
  obtain sc where sc: "lc_read_secret lib (pf_secret p) = Inr sc" "verify_conditions sc parties min_locktime = Inr ()"
    using check_secretE [OF checked list.set_intros(1)] .
  obtain c l where c: "sc = P2PKConditions (ep_seller parties) (Some c)" "pc_locktime c = Some l" "min_locktime \<le> l"
    using verified_conditions [OF sc(2)] by metis
  have l: "now < l" using assms(2) c(3) by simp
  then have "0 < unat (l - now)" by (simp add: unat_gt_0)
  moreover have "refund_proof lib now seller_key p =
      Inl (''CashuLocktimeNotReached: '' @ nat_digits (unat (l - now)) @ '' seconds remain'')"
    using sc(1) c(1,2) l by (simp add: refund_proof_def)
  ultimately show ?thesis using assms(3,4)
    by (intro exI [of _ "unat (l - now)"]) (simp add: reclaim_after_locktime_def and_then_def)
qed

section \<open>Instances\<close>

definition sample_parties :: "string escrow_parties" where
  "sample_parties = \<lparr>ep_buyer = ''b'', ep_seller = ''s'', ep_mostro = ''m''\<rparr>"

definition sample_condition :: "string spending_conditions" where
  "sample_condition = P2PKConditions ''s'' (Some \<lparr>pc_locktime = Some 100, pc_pubkeys = Some [''b'', ''m''],
     pc_refund_keys = Some [''s''], pc_num_sigs = Some 2, pc_sig_flag = SigInputs, pc_num_sigs_refund = Some 1\<rparr>)"

definition sample_proof :: "unit cashu_proof" where
  "sample_proof = \<lparr>pf_secret = ''x'', pf_body = (), pf_witness = None\<rparr>"

text \<open>A toy library: a signature is the name of the signer.\<close>

definition sample_cdk :: "(string, string, unit, unit, unit) cdk_lib" where
  "sample_cdk = \<lparr>lc_pubkey = Inr, lc_conditions = (\<lambda>l ps rs n f r. Inr \<lparr>pc_locktime = l, pc_pubkeys = ps,
       pc_refund_keys = rs, pc_num_sigs = n, pc_sig_flag = (case f of Some g \<Rightarrow> g | None \<Rightarrow> SigInputs), pc_num_sigs_refund = r\<rparr>),
     lc_parse = (\<lambda>_. Inr ()), lc_mint = (\<lambda>_. Inr ''https://m/''), lc_unit = (\<lambda>_. Some UnitSat), lc_value = (\<lambda>_. Inr 8),
     lc_proofs = (\<lambda>_ _. Inr [sample_proof]), lc_read_secret = (\<lambda>_. Inr sample_condition),
     lc_sign = (\<lambda>k p. Inr (p\<lparr>pf_witness := Some (P2PKWitness (signatures_of p @ [k]))\<rparr>)),
     lc_add_signatures = (\<lambda>new w. case w of P2PKWitness old \<Rightarrow> P2PKWitness (old @ new) | OtherWitness t \<Rightarrow> OtherWitness t)\<rparr>"

definition sample_view :: "(unit, unit, unit) mint_view" where
  "sample_view = \<lparr>mv_keysets = Inr (), mv_dleq = (\<lambda>_. Inr ()), mv_states = (\<lambda>ps. Inr (map (\<lambda>_. Unspent) ps))\<rparr>"

definition sample_cashu_wallet :: cashu_wallet where
  "sample_cashu_wallet = \<lparr>wl_mint_url = ''https://m'',
     wl_capabilities = \<lparr>mc_nut07_state_check = True, mc_nut11_p2pk = True, mc_nut12_dleq = True, mc_has_sat_keyset = True\<rparr>\<rparr>"

lemma sample_conditions_law: "conditions_law sample_cdk"
  by (simp add: conditions_law_def sample_cdk_def)

lemma sample_signing_law: "signing_law sample_cdk (\<lambda>k. k) (\<lambda>k secret sg. sg = k)"
  by (simp add: signing_law_def sample_cdk_def)

lemma sample_token:
  "parse_token sample_cdk ''t'' = Inr ()" "proofs_of sample_cdk (Inr ()) () = Inr [sample_proof]"
  by (simp_all add: parse_token_def proofs_of_def sample_cdk_def map_error_def and_then_def)

lemma sample_verified: "verify_escrow_token sample_cdk sample_view sample_cashu_wallet ''t'' sample_parties 8 100 = Inr ()"
  by code_simp

definition nut11_mint :: "u64 \<Rightarrow> string spending_conditions \<Rightarrow> string set \<Rightarrow> bool" where
  "nut11_mint now sc signers = (case sc of P2PKConditions data (Some c) \<Rightarrow> nut11_unlocks now data c signers | _ \<Rightarrow> False)"

theorem escrow_needs_two_parties_witness:
  "verify_escrow_token sample_cdk sample_view sample_cashu_wallet ''t'' sample_parties 8 100 = Inr () \<and>
     \<not> nut11_mint 99 sample_condition {''s''}"
proof -
  have mint: "mint_follows_nut11 nut11_mint" by (simp add: mint_follows_nut11_def nut11_mint_def)
  have r: "lc_read_secret sample_cdk secret = Inr sample_condition" for secret by (simp add: sample_cdk_def)
  have k: "mv_keysets sample_view = Inr ()" by (simp add: sample_view_def)
  have "\<forall>now signers. nut11_mint now sample_condition signers \<longrightarrow>
      two_of sample_parties signers \<or> 100 \<le> now \<and> ep_seller sample_parties \<in> signers"
    using escrow_needs_two_parties [OF sample_verified mint] by (auto simp: r k sample_token)
  then have "nut11_mint 99 sample_condition {''s''} \<longrightarrow>
      two_of sample_parties {''s''} \<or> (100::u64) \<le> 99 \<and> ep_seller sample_parties \<in> {''s''}" by blast
  moreover have "\<not> two_of sample_parties {''s''}" by (simp add: two_of_def sample_parties_def)
  ultimately show ?thesis using sample_verified by simp
qed

theorem release_pays_the_buyer_witness:
  "\<exists>sigs. sign_proofs sample_cdk sample_view (Inr ()) sample_cashu_wallet ''t'' ''s'' sample_parties 8 100 = Inr sigs \<and>
     combine_and_redeem sample_cdk (Inr ()) (\<lambda>ps. Inr (of_nat (length ps))) ''t'' ''b'' sigs = Inr 1"
proof -
  let ?sigs = "[\<lparr>sg_secret = ''x'', sg_signature = ''s''\<rparr>]"
  have s: "sign_proofs sample_cdk sample_view (Inr ()) sample_cashu_wallet ''t'' ''s'' sample_parties 8 100 = Inr ?sigs"
    by code_simp
  have "\<exists>signed. combine_and_redeem sample_cdk (Inr ()) (\<lambda>ps. Inr (of_nat (length ps))) ''t'' ''b'' ?sigs =
      map_error (\<lambda>e. ''CashuRedeemFailed: '' @ e) (Inr (of_nat (length signed))) \<and>
      map (\<lambda>p. (pf_secret p, pf_body p)) signed = map (\<lambda>p. (pf_secret p, pf_body p)) [sample_proof] \<and>
      (\<forall>p \<in> set signed. \<exists>data c. lc_read_secret sample_cdk (pf_secret p) = Inr (P2PKConditions data (Some c)) \<and>
        (\<forall>now. nut11_unlocks now data c (signers_of (\<lambda>k secret sg. sg = k) p)))"
    by (rule release_pays_the_buyer [OF sample_signing_law s])
      (simp_all add: sample_parties_def sample_token sample_view_def sample_proof_def plain_proof_def)
  then obtain signed :: "unit cashu_proof list" where c:
    "combine_and_redeem sample_cdk (Inr ()) (\<lambda>ps. Inr (of_nat (length ps))) ''t'' ''b'' ?sigs =
      map_error (\<lambda>e. ''CashuRedeemFailed: '' @ e) (Inr (of_nat (length signed)))"
    and n: "map (\<lambda>p. (pf_secret p, pf_body p)) signed = map (\<lambda>p. (pf_secret p, pf_body p)) [sample_proof]" by blast
  have "length signed = 1" using arg_cong [OF n, of length] by simp
  with c s show ?thesis by (auto simp: map_error_def)
qed

end
