(* ===== verification/Spec2Isabelle.thy ===== *)
theory Spec2Isabelle
  imports Order_Status Order_Fsm Pending_Requests Identity_Keys Trade_Index Sessions Node_Capabilities
    Escrow_Mode Bond_Claims Outbox Order_Book Book_Feed Trade_Store Trade_Rows Row_Recovery Bond_Rows
    Dispatch Row_Lifecycle Dispatch_Refinement Dispatch_Safety Key_Binding Row_Endings Row_Outcomes
    Dispatch_Gates Public_Orders Public_Safety Live_Subs Live_Subs_Safety Trade_Subs Push Push_Safety Sweep
    Sweep_Safety Invoices Actions User_Flows User_Flow_Safety Flow_Events Disputes Dispute_Safety Chat_Store
    Chat_Envelope Chat Chat_Safety Chat_Files Node_Stats Nodes Reputation Settings Cashu_Wallet Cashu_Escrow
begin

text \<open>
  \<^bold>\<open>A verification library of the Rust core of the Mostro mobile client\<close> (\<open>rust/src\<close>).

  The client trades bitcoin against fiat with a peer it never sees: a Mostro node (``the daemon'') keeps
  the order book and the escrow, Nostr relays carry every message, and the client holds its own keys, its
  trade rows and the conversation with the peer. Relays repeat, delay, reorder and withhold messages,
  several tasks run at once, the store may refuse any statement, and the process may stop at any moment.
  The library models the parts that must be right under these conditions, each from its source.

  \<^bold>\<open>How the parts interact.\<close> A user's request (\<open>User_Flows\<close>) derives a trade key (\<open>Identity_Keys\<close>), has it
  watched (\<open>Trade_Subs\<close>, \<open>Live_Subs\<close>), builds a message under a nonce (\<open>Actions\<close>), registers the nonce
  (\<open>Pending_Requests\<close>), publishes and waits. The daemon's answers, and everything it says unasked, pass
  \<open>Dispatch\<close>: sender, generation of the key, replay guards, then one arm per action, which consumes the
  pending request or writes the trade row (\<open>Trade_Rows\<close>, \<open>Row_Recovery\<close>, \<open>Bond_Rows\<close>), the session
  (\<open>Sessions\<close>), the claim store (\<open>Bond_Claims\<close>) and the updates the user interface sees. Public order
  events enter through \<open>Public_Orders\<close> and write the book (\<open>Order_Book\<close>), from which \<open>Book_Feed\<close> replays, and
  where the private status allows it the rows. \<open>Sweep\<close> settles what no message ends, \<open>Push\<close> keeps the push
  server in step with the rows, and \<open>Disputes\<close> holds the disputes. The peers, and a party and the solver, talk
  in \<open>Chat\<close>: an envelope (\<open>Chat_Envelope\<close>) passes the checks of the listener, the replay check and the quota
  before it enters the message store (\<open>Chat_Store\<close>); files go through \<open>Chat_Files\<close>.

  \<^bold>\<open>Theories and sources.\<close>
  \<^item> Shared: \<open>Prelude\<close> (integers of a fixed width, strings, numbers as text), \<open>Floats\<close> (\<open>f64\<close> as rationals with
    infinities and NaN), \<open>Api_Types\<close> (\<open>api/types.rs\<close> and the payloads of \<open>mostro_core\<close> the client reads).
  \<^item> Status: \<open>Order_Status\<close> (\<open>mostro/status.rs\<close>, \<open>restore_history.rs\<close>), \<open>Order_Fsm\<close> (\<open>mostro/fsm.rs\<close>).
  \<^item> Keys: \<open>Identity_Keys\<close> (\<open>api/identity.rs\<close>, \<open>crypto/keys.rs\<close>), \<open>Trade_Index\<close> (\<open>mostro/trade_index.rs\<close>),
    \<open>Key_Binding\<close> (the cache of order to key in \<open>api/orders.rs\<close>).
  \<^item> Registries: \<open>Pending_Requests\<close> (\<open>mostro/pending.rs\<close>), \<open>Sessions\<close> (\<open>mostro/session.rs\<close>), \<open>Outbox\<close>
    (\<open>queue/outbox.rs\<close>).
  \<^item> The node: \<open>Node_Capabilities\<close> (\<open>pow.rs\<close>, \<open>protocol_version.rs\<close>, \<open>bond_policy.rs\<close>, \<open>rates.rs\<close>), \<open>Escrow_Mode\<close>
    (\<open>escrow_mode.rs\<close>), \<open>Bond_Claims\<close> (\<open>bond_claims.rs\<close>, \<open>api/bond.rs\<close>), \<open>Nodes\<close> (the registry of nodes,
    \<open>api/nodes.rs\<close>, \<open>config.rs\<close>), \<open>Node_Stats\<close> (\<open>api/node_stats.rs\<close>).
  \<^item> Trades: \<open>Trade_Store\<close> (the tables, \<open>db/sqlite.rs\<close>), \<open>Trade_Rows\<close>, \<open>Row_Recovery\<close>, \<open>Bond_Rows\<close>, \<open>Dispatch\<close>,
    \<open>Sweep\<close>, \<open>User_Flows\<close> (\<open>api/orders.rs\<close>), \<open>Actions\<close> (\<open>mostro/actions.rs\<close>), \<open>Invoices\<close> (\<open>api/invoice.rs\<close>).
  \<^item> The public view: \<open>Order_Book\<close>, \<open>Public_Orders\<close> (\<open>nostr/order_events.rs\<close>, \<open>api/orders.rs\<close>), \<open>Book_Feed\<close> (the
    bridge and \<open>order_book_feed.dart\<close>).
  \<^item> Relays: \<open>Live_Subs\<close> (\<open>nostr/live_subs.rs\<close>, \<open>coalesce.rs\<close>), \<open>Trade_Subs\<close> (\<open>nostr/subscriptions.rs\<close>).
  \<^item> Around a trade: \<open>Push\<close> (\<open>mostro/push.rs\<close>, \<open>api/push.rs\<close>), \<open>Disputes\<close> (\<open>api/disputes.rs\<close>), \<open>Chat_Store\<close>, \<open>Chat_Envelope\<close>, \<open>Chat\<close> and \<open>Chat_Files\<close> (\<open>api/messages.rs\<close>, the envelope of \<open>nostr/transport.rs\<close>, \<open>nostr/blossom.rs\<close>); \<open>Reputation\<close> and
    \<open>Settings\<close> (\<open>api/reputation.rs\<close>, \<open>api/settings.rs\<close>).
  \<^item> Cashu: \<open>Cashu_Wallet\<close> (\<open>cashu/wallet.rs\<close>, \<open>api/cashu.rs\<close>), \<open>Cashu_Escrow\<close> (\<open>cashu/escrow.rs\<close>).

  \<^bold>\<open>State and operations.\<close> Each component's globals are a record (\<open>world\<close> of \<open>Trade_Rows\<close> joins those the trade
  code shares: tables, book, sessions, key cache, registry, claims, and the logs of updates and effects), each
  function of the source one definition over it, errors are \<open>Inl\<close> of the text, and each lock scope is one step: an operation that
  awaits between a look and a write is split there (a claim's submission, a rating, a call of the Cashu wallet).
  Where tasks interleave, an inductive or executable step relation over those definitions stands for every
  schedule (\<open>id_step\<close>, \<open>registry_step\<close>, \<open>row_move\<close>, \<open>desk_step\<close> and their kin).

  \<^bold>\<open>What the lemmas show.\<close> \<open>Row_Lifecycle\<close> states what a trade row may do at all, a step relation of guarded moves;
  \<open>Dispatch_Refinement\<close> and \<open>Dispatch_Safety\<close> prove that the dispatcher, with every arm, implements it for every
  message, and read off that finished trades stay finished, wiped ones wiped and older history inert.
  \<open>Row_Endings\<close> and \<open>Row_Outcomes\<close> follow a row through its end, \<open>Dispatch_Gates\<close> the senders, \<open>Public_Safety\<close> the
  public events and how they meet the messages. Where a statement needs the store to answer or no create to be
  pending its text says so, and lemmas named after the fault (\<open>unread_tombstone_revives\<close>, \<open>unread_row_is_doubled\<close>,
  \<open>unread_claim_starts_over\<close>, \<open>late_save_undoes_the_payout\<close>) evaluate what the code does otherwise. \<open>User_Flow_Safety\<close> and \<open>Flow_Events\<close> compose the user's flows with the dispatcher end to end.
  \<open>Live_Subs_Safety\<close>, \<open>Push_Safety\<close>, \<open>Sweep_Safety\<close> and \<open>Dispute_Safety\<close> hold the histories of theirs, \<open>Chat_Safety\<close> those of the chat. The
  locales \<open>book_source\<close> (what the feed relies on in the book), \<open>node_scoped_cache\<close> (what every cache of a node's
  advertisements promises) and \<open>nonce_gate\<close> (what every consumer of a pending request promises) are interpreted on the
  model's own definitions.

  \<^bold>\<open>Bounds.\<close> Loops are structural or over a list of what each round meets: at most twelve payout checks, three
  repairs of a closed subscription between connects, ten attempts of a queued event, two attempts of a create or
  take (one resync between them). No definition stops for want of fuel: a shorter list is a shorter history.

  \<^bold>\<open>Faults.\<close> \<open>w_down\<close> says which statements fail; it is fixed within one message and free between messages.
  \<open>w_db\<close> is absent until the store opens. What happens while a flow waits is an arbitrary function of the world
  (\<open>ae_wait\<close>) or the steps of the relation. A lookup of a relay is the answer it gave, or none.

  \<^bold>\<open>Parameters.\<close> Code outside \<open>src/\<close> is an argument of the definitions: key derivation (\<open>key_lib\<close>), curves, bolt11 and
  NIP-44 (\<open>crypto\<close>, decoders), the wrap of a message, the HTTP answers of the push and
  the file servers, the \<open>cdk\<close> wallet and its mint (\<open>cdk_lib\<close>, \<open>send_lib\<close>), file ciphers, JSON, UUIDs and clocks.

  \<^bold>\<open>Not modelled.\<close> The wallet-connect client (a client of an external service), the IndexedDB back end and the schema migrations (SQL text and browser I/O), relay pool start-up and
  the bulk feeds of \<open>api/orders.rs\<close> (task plumbing over the SDK), logging, the generated bridge (\<open>frb_generated.rs\<close>, a fifth of the lines) and the Dart interface other than the feed.
  JSON encodings are not spelled out: a row is its record. Broadcast channels are logs without capacity unless a
  component's own text says otherwise. Unicode white space is the ASCII one.
\<close>

end
